(* ===== verification/Py_Prelude.thy ===== *)
theory Py_Prelude
  imports Main "HOL-Library.List_Lexorder"
begin

text \<open>
  The vocabulary every component shares: Python strings as sequences of code points,
  exceptions as values of a result type, database tables as lists of rows looked up by a
  key, and the order-preserving de-duplication \<^verbatim>\<open>dict.fromkeys\<close>.  The collection
  \<open>py_simps\<close> holds the rewrite rules that carry the component proofs.
\<close>

named_theorems py_simps \<open>evaluation rules for results, tables and strings\<close>

section \<open>Exceptions and results\<close>

text \<open>
  \<open>AppError c n\<close> is the repository's \<^verbatim>\<open>AppError\<close> with machine code \<open>c\<close> and HTTP status
  \<open>n\<close> (the English message is left out).  The other constructors are the Python and
  SQLAlchemy classes the handlers distinguish; \<open>ValueError\<close> and \<open>RuntimeError\<close> carry a
  short tag that names the check which raised it, \<open>TaskError\<close> (the repository's
  \<^verbatim>\<open>AssetTaskError\<close> and \<^verbatim>\<open>RagIngestionError\<close>) its code and whether it may be retried;
  \<open>SearchUnavailable\<close> is \<^verbatim>\<open>SearchBackendUnavailableError\<close>.
\<close>

datatype exn =
    AppError string nat
  | ValueError string
  | ValidationError
  | UnicodeEncodeError
  | LookupError string
  | IntegrityError
  | SQLAlchemyError
  | RuntimeError string
  | TaskError string bool
  | TypeError string
  | OverflowError string
  | SearchUnavailable string
  | ExceptionGroup "exn list"

type_synonym 'a res = "exn + 'a"

fun is_app_error :: "exn \<Rightarrow> bool" where
  "is_app_error (AppError _ _) = True"
| "is_app_error _ = False"

text \<open>
  The subclasses of Python's \<^verbatim>\<open>ValueError\<close>: pydantic's \<^verbatim>\<open>ValidationError\<close> and the codec's
  \<^verbatim>\<open>UnicodeEncodeError\<close> are among them.
\<close>

fun is_value_error :: "exn \<Rightarrow> bool" where
  "is_value_error (ValueError _) = True"
| "is_value_error ValidationError = True"
| "is_value_error UnicodeEncodeError = True"
| "is_value_error _ = False"

definition rbind :: "'a res \<Rightarrow> ('a \<Rightarrow> 'b res) \<Rightarrow> 'b res" where
  "rbind m f = (case m of Inl e \<Rightarrow> Inl e | Inr x \<Rightarrow> f x)"

definition guard :: "bool \<Rightarrow> exn \<Rightarrow> unit res" where
  "guard ok e = (if ok then Inr () else Inl e)"

text \<open>\<open>recover p e' m\<close>: \<^verbatim>\<open>except\<close> the exceptions in \<open>p\<close>, \<^verbatim>\<open>raise e' from None\<close>.\<close>

definition recover :: "(exn \<Rightarrow> bool) \<Rightarrow> exn \<Rightarrow> 'a res \<Rightarrow> 'a res" where
  "recover p e' m = (case m of Inl e \<Rightarrow> (if p e then Inl e' else Inl e) | Inr x \<Rightarrow> Inr x)"

fun mapr :: "('a \<Rightarrow> 'b res) \<Rightarrow> 'a list \<Rightarrow> 'b list res" where
  "mapr f [] = Inr []"
| "mapr f (x # xs) = rbind (f x) (\<lambda>y. rbind (mapr f xs) (\<lambda>ys. Inr (y # ys)))"

lemma rbind_simps [simp, py_simps]:
  "rbind (Inl e) f = Inl e"
  "rbind (Inr x) f = f x"
  by (simp_all add: rbind_def)

lemma rbind_eq_Inr [simp, py_simps]:
  "rbind m f = Inr y \<longleftrightarrow> (\<exists>x. m = Inr x \<and> f x = Inr y)"
  by (simp add: rbind_def split: sum.splits)

lemma rbind_eq_Inl:
  "rbind m f = Inl e \<longleftrightarrow> m = Inl e \<or> (\<exists>x. m = Inr x \<and> f x = Inl e)"
  by (auto simp add: rbind_def split: sum.splits)

lemma guard_simps [simp, py_simps]:
  "guard True e = Inr ()"
  "guard False e = Inl e"
  "guard b e = Inr u \<longleftrightarrow> b"
  "guard b e = Inl e' \<longleftrightarrow> \<not> b \<and> e' = e"
  by (auto simp add: guard_def)

lemma recover_simps [simp, py_simps]:
  "recover p e' (Inr x) = Inr x"
  "recover p e' (Inl e) = (if p e then Inl e' else Inl e)"
  "recover p e' m = Inr y \<longleftrightarrow> m = Inr y"
  by (auto simp add: recover_def split: sum.splits)

lemma mapr_length: "mapr f xs = Inr ys \<Longrightarrow> length ys = length xs"
  by (induction xs arbitrary: ys) auto

lemma mapr_nth: "mapr f xs = Inr ys \<Longrightarrow> i < length xs \<Longrightarrow> f (xs ! i) = Inr (ys ! i)"
proof (induction xs arbitrary: ys i)
  case (Cons x xs)
  then show ?case by (cases i) auto
qed simp

lemma mapr_set: "mapr f xs = Inr ys \<Longrightarrow> y \<in> set ys \<longleftrightarrow> (\<exists>x \<in> set xs. f x = Inr y)"
  by (induction xs arbitrary: ys) auto

section \<open>Strings as code points\<close>

text \<open>
  A Python \<^verbatim>\<open>str\<close> is a sequence of Unicode code points, a HOL \<open>string\<close> one of bytes; the
  model uses lists of naturals and writes ASCII literals through \<open>lit\<close>.
\<close>

type_synonym pystr = "nat list"

definition lit :: "string \<Rightarrow> pystr" where
  "lit s = map of_char s"

lemma lit_simps [simp]: "lit [] = []" "lit (c # s) = of_char c # lit s"
  by (simp_all add: lit_def)

lemma length_lit [simp]: "length (lit s) = length s"
  by (simp add: lit_def)

lemma lit_inj [simp]: "lit s = lit t \<longleftrightarrow> s = t"
  by (simp add: lit_def inj_map_eq_map inj_def)

text \<open>The code points for which \<^verbatim>\<open>str.isspace\<close> holds.\<close>

definition py_isspace :: "nat \<Rightarrow> bool" where
  "py_isspace c \<longleftrightarrow>
     (9 \<le> c \<and> c \<le> 13) \<or> (28 \<le> c \<and> c \<le> 32) \<or> c = 133 \<or> c = 160 \<or> c = 5760
     \<or> (8192 \<le> c \<and> c \<le> 8202) \<or> c = 8232 \<or> c = 8233 \<or> c = 8239 \<or> c = 8287 \<or> c = 12288"

definition lstrip :: "pystr \<Rightarrow> pystr" where
  "lstrip s = dropWhile py_isspace s"

definition rstrip :: "pystr \<Rightarrow> pystr" where
  "rstrip s = rev (dropWhile py_isspace (rev s))"

definition strip :: "pystr \<Rightarrow> pystr" where
  "strip s = rstrip (lstrip s)"

lemma rstrip_Nil [simp]: "rstrip s = [] \<longleftrightarrow> (\<forall>c \<in> set s. py_isspace c)"
  by (simp add: rstrip_def dropWhile_eq_Nil_conv)

lemma strip_Nil_iff: "strip s = [] \<longleftrightarrow> (\<forall>c \<in> set s. py_isspace c)"
proof -
  have "(\<forall>c \<in> set (dropWhile py_isspace s). py_isspace c) \<longleftrightarrow> (\<forall>c \<in> set s. py_isspace c)"
    by (induction s) auto
  then show ?thesis by (simp add: strip_def lstrip_def)
qed

lemma rstrip_last: "rstrip s \<noteq> [] \<Longrightarrow> \<not> py_isspace (last (rstrip s))"
  by (simp add: rstrip_def last_rev hd_dropWhile)

lemma rstrip_prefix: "\<exists>w. s = rstrip s @ w \<and> (\<forall>c \<in> set w. py_isspace c)"
proof -
  have "s = rstrip s @ rev (takeWhile py_isspace (rev s))"
    unfolding rstrip_def by (metis rev_append rev_rev_ident takeWhile_dropWhile_id)
  moreover have "\<forall>c \<in> set (rev (takeWhile py_isspace (rev s))). py_isspace c"
    by (auto dest: set_takeWhileD)
  ultimately show ?thesis by blast
qed

lemma strip_hd: "strip s \<noteq> [] \<Longrightarrow> \<not> py_isspace (hd (strip s))"
proof -
  assume ne: "strip s \<noteq> []"
  obtain w where w: "lstrip s = rstrip (lstrip s) @ w"
    using rstrip_prefix by blast
  from ne have "hd (strip s) = hd (lstrip s)"
    by (metis w hd_append strip_def)
  moreover from ne w have "dropWhile py_isspace s \<noteq> []"
    by (metis append_is_Nil_conv lstrip_def strip_def)
  ultimately show ?thesis
    by (simp add: lstrip_def hd_dropWhile)
qed

lemma strip_last: "strip s \<noteq> [] \<Longrightarrow> \<not> py_isspace (last (strip s))"
  unfolding strip_def by (rule rstrip_last)

lemma strip_id:
  assumes "s \<noteq> []" "\<not> py_isspace (hd s)" "\<not> py_isspace (last s)"
  shows "strip s = s"
proof -
  from assms(1,2) have "lstrip s = s"
    by (cases s) (simp_all add: lstrip_def)
  moreover from assms(1,3) have "rstrip s = s"
    by (cases s rule: rev_cases) (simp_all add: rstrip_def)
  ultimately show ?thesis by (simp add: strip_def)
qed

lemma strip_idem [simp]: "strip (strip s) = strip s"
proof (cases "strip s = []")
  case True
  moreover have "strip [] = []"
    by (simp add: strip_def lstrip_def rstrip_def)
  ultimately show ?thesis by simp
next
  case False
  then show ?thesis by (intro strip_id strip_hd strip_last)
qed

lemma set_strip: "set (strip s) \<subseteq> set s"
  unfolding strip_def lstrip_def rstrip_def
  by (metis set_dropWhileD set_rev subsetI)

section \<open>Identifiers\<close>

text \<open>
  A UUID is its 128-bit number; \<^verbatim>\<open>str(uuid)\<close> is fixed-width lower-case hexadecimal, so
  ordering by \<^verbatim>\<open>str\<close> is ordering by the number.
\<close>

datatype uuid = UUID (uuid_num: nat)

instantiation uuid :: linorder
begin

definition less_eq_uuid :: "uuid \<Rightarrow> uuid \<Rightarrow> bool" where
  "less_eq_uuid a b \<longleftrightarrow> uuid_num a \<le> uuid_num b"

definition less_uuid :: "uuid \<Rightarrow> uuid \<Rightarrow> bool" where
  "less_uuid a b \<longleftrightarrow> uuid_num a < uuid_num b"

instance
  by standard (auto simp: less_eq_uuid_def less_uuid_def uuid.expand)

end

lemma uuid_order_simps [simp, py_simps]:
  "UUID m \<le> UUID n \<longleftrightarrow> m \<le> n"
  "UUID m < UUID n \<longleftrightarrow> m < n"
  by (simp_all add: less_eq_uuid_def less_uuid_def)

section \<open>Order-preserving de-duplication\<close>

text \<open>\<^verbatim>\<open>tuple(dict.fromkeys(xs))\<close>: the first occurrence of every element, in order.\<close>

fun dedup_from :: "'a list \<Rightarrow> 'a list \<Rightarrow> 'a list" where
  "dedup_from seen [] = []"
| "dedup_from seen (x # xs) =
     (if x \<in> set seen then dedup_from seen xs else x # dedup_from (x # seen) xs)"

definition dict_fromkeys :: "'a list \<Rightarrow> 'a list" where
  "dict_fromkeys xs = dedup_from [] xs"

lemma set_dedup_from: "set (dedup_from seen xs) = set xs - set seen"
  by (induction seen xs rule: dedup_from.induct) auto

lemma distinct_dedup_from: "distinct (dedup_from seen xs)"
  by (induction seen xs rule: dedup_from.induct) (auto simp: set_dedup_from)

lemma dedup_from_id: "distinct xs \<Longrightarrow> set xs \<inter> set seen = {} \<Longrightarrow> dedup_from seen xs = xs"
  by (induction seen xs rule: dedup_from.induct) auto

lemma set_dict_fromkeys [simp]: "set (dict_fromkeys xs) = set xs"
  by (simp add: dict_fromkeys_def set_dedup_from)

lemma distinct_dict_fromkeys [simp]: "distinct (dict_fromkeys xs)"
  by (simp add: dict_fromkeys_def distinct_dedup_from)

lemma dict_fromkeys_id: "distinct xs \<Longrightarrow> dict_fromkeys xs = xs"
  by (simp add: dict_fromkeys_def dedup_from_id)

section \<open>Tables\<close>

text \<open>
  A database table is the list of its rows.  \<open>row_by key k\<close> is the lookup by primary key,
  \<open>put_row\<close> the flush of a changed row, and \<open>keyed\<close> the primary-key constraint.
\<close>

definition row_by :: "('r \<Rightarrow> 'k) \<Rightarrow> 'k \<Rightarrow> 'r list \<Rightarrow> 'r option" where
  "row_by key k rows = List.find (\<lambda>r. key r = k) rows"

definition put_row :: "('r \<Rightarrow> 'k) \<Rightarrow> 'r \<Rightarrow> 'r list \<Rightarrow> 'r list" where
  "put_row key r rows = map (\<lambda>x. if key x = key r then r else x) rows"

definition keyed :: "('r \<Rightarrow> 'k) \<Rightarrow> 'r list \<Rightarrow> bool" where
  "keyed key rows \<longleftrightarrow> distinct (map key rows)"

lemma row_by_Nil [simp, py_simps]: "row_by key k [] = None"
  by (simp add: row_by_def)

lemma row_by_Cons [simp, py_simps]:
  "row_by key k (r # rows) = (if key r = k then Some r else row_by key k rows)"
  by (simp add: row_by_def)

lemma row_by_SomeD: "row_by key k rows = Some r \<Longrightarrow> r \<in> set rows \<and> key r = k"
  by (induction rows) (auto split: if_splits)

lemma row_by_None_iff: "row_by key k rows = None \<longleftrightarrow> k \<notin> key ` set rows"
  by (induction rows) auto

lemma row_by_append:
  "row_by key k (xs @ ys) = (case row_by key k xs of Some r \<Rightarrow> Some r | None \<Rightarrow> row_by key k ys)"
  by (induction xs) auto

lemma keyed_simps [simp, py_simps]:
  "keyed key []"
  "keyed key (r # rows) \<longleftrightarrow> key r \<notin> key ` set rows \<and> keyed key rows"
  by (auto simp: keyed_def)

lemma row_by_Some_iff:
  "keyed key rows \<Longrightarrow> row_by key k rows = Some r \<longleftrightarrow> r \<in> set rows \<and> key r = k"
  by (induction rows) auto

lemma keyed_eq: "keyed key rows \<Longrightarrow> r \<in> set rows \<Longrightarrow> r' \<in> set rows \<Longrightarrow> key r = key r' \<Longrightarrow> r = r'"
  by (simp add: keyed_def distinct_map inj_on_def)

lemma keyed_snoc: "keyed key (rows @ [r]) \<longleftrightarrow> keyed key rows \<and> row_by key (key r) rows = None"
  by (auto simp: keyed_def row_by_None_iff)

lemma map_key_put_row [simp]: "map key (put_row key r rows) = map key rows"
  by (induction rows) (auto simp: put_row_def)

lemma keyed_put_row [simp]: "keyed key (put_row key r rows) \<longleftrightarrow> keyed key rows"
  by (simp add: keyed_def)

lemma row_by_put_row:
  "row_by key k (put_row key r rows) =
     (if k = key r \<and> row_by key k rows \<noteq> None then Some r else row_by key k rows)"
  by (induction rows) (auto simp: put_row_def)

lemma set_put_row:
  "set (put_row key r rows) =
     {x \<in> set rows. key x \<noteq> key r} \<union> (if key r \<in> key ` set rows then {r} else {})"
  by (induction rows) (auto simp: put_row_def)

lemma put_row_absent: "key r \<notin> key ` set rows \<Longrightarrow> put_row key r rows = rows"
  by (induction rows) (auto simp: put_row_def)


text \<open>A query on a key visits at most one row.\<close>

lemma concat_keyed:
  "keyed key rows \<Longrightarrow>
     concat (map (\<lambda>r. if key r = k \<and> P r then f r else []) rows) =
       (case row_by key k rows of None \<Rightarrow> [] | Some r \<Rightarrow> if P r then f r else [])"
proof (induction rows)
  case (Cons r rows)
  show ?case
  proof (cases "key r = k")
    case True
    with Cons.prems have "\<forall>x \<in> set rows. key x \<noteq> k" by (auto simp: image_iff)
    then have "concat (map (\<lambda>r. if key r = k \<and> P r then f r else []) rows) = []" by auto
    with True show ?thesis by simp
  next
    case False
    with Cons show ?thesis by simp
  qed
qed simp

lemma list_ex_keyed:
  "keyed key rows \<Longrightarrow>
     list_ex (\<lambda>r. key r = k \<and> P r) rows \<longleftrightarrow> (\<exists>r. row_by key k rows = Some r \<and> P r)"
  by (auto simp: list_ex_iff row_by_Some_iff)

end
