(* ===== verification/Py_Json.thy ===== *)
theory Py_Json
  imports Py_Prelude
begin

text \<open>
  The two parts of the Python standard library the digests rest on: \<^verbatim>\<open>str.encode("utf-8")\<close>
  and \<^verbatim>\<open>json.dumps\<close> with \<^verbatim>\<open>ensure_ascii=False\<close>, \<^verbatim>\<open>separators=(",", ":")\<close> and keys already in
  sorted order.  Both are shown injective, so that equal canonical bytes mean equal values.
\<close>

section \<open>UTF-8\<close>

definition is_surrogate :: "nat \<Rightarrow> bool" where
  "is_surrogate c \<longleftrightarrow> 55296 \<le> c \<and> c \<le> 57343"

definition utf8_char :: "nat \<Rightarrow> nat list option" where
  "utf8_char c =
     (if c < 128 then Some [c]
      else if c < 2048 then Some [192 + c div 64, 128 + c mod 64]
      else if is_surrogate c then None
      else if c < 65536 then
        Some [224 + c div 4096, 128 + c div 64 mod 64, 128 + c mod 64]
      else if c < 1114112 then
        Some [240 + c div 262144, 128 + c div 4096 mod 64, 128 + c div 64 mod 64, 128 + c mod 64]
      else None)"

text \<open>\<^verbatim>\<open>s.encode("utf-8")\<close>, strict: a lone surrogate raises \<^verbatim>\<open>UnicodeEncodeError\<close>.\<close>

fun utf8_encode :: "pystr \<Rightarrow> nat list res" where
  "utf8_encode [] = Inr []"
| "utf8_encode (c # s) =
     (case utf8_char c of
        None \<Rightarrow> Inl UnicodeEncodeError
      | Some b \<Rightarrow> rbind (utf8_encode s) (\<lambda>bs. Inr (b @ bs)))"

definition encodable :: "pystr \<Rightarrow> bool" where
  "encodable s \<longleftrightarrow> (\<forall>c \<in> set s. utf8_char c \<noteq> None)"

lemma utf8_encode_ok_iff: "(\<exists>b. utf8_encode s = Inr b) \<longleftrightarrow> encodable s"
  by (induction s) (auto simp: encodable_def split: option.splits)

lemma encodable_obtain:
  assumes "encodable s" obtains b where "utf8_encode s = Inr b"
  using assms utf8_encode_ok_iff by blast

lemma encodable_simps [simp]:
  "encodable []"
  "encodable (c # s) \<longleftrightarrow> utf8_char c \<noteq> None \<and> encodable s"
  "encodable (s @ t) \<longleftrightarrow> encodable s \<and> encodable t"
  by (auto simp: encodable_def)

lemma encodable_concat: "encodable (concat ss) \<longleftrightarrow> (\<forall>s \<in> set ss. encodable s)"
  by (auto simp: encodable_def)

lemma utf8_ascii: "c < 128 \<Longrightarrow> utf8_char c = Some [c]"
  by (simp add: utf8_char_def)

lemma encodable_ascii: "(\<forall>c \<in> set s. c < 128) \<Longrightarrow> encodable s"
  by (auto simp: encodable_def utf8_ascii)

lemma utf8_char_nonempty: "utf8_char c = Some b \<Longrightarrow> b \<noteq> []"
  by (auto simp: utf8_char_def split: if_splits)

text \<open>
  The first byte fixes the length, so a character can be read back from the front of any
  byte string that starts with its encoding.
\<close>

fun utf8_read :: "nat list \<Rightarrow> nat \<times> nat list" where
  "utf8_read (x # xs) =
     (if x < 128 then (x, xs)
      else if x < 224 then
        (case xs of y # ys \<Rightarrow> ((x - 192) * 64 + (y - 128), ys) | _ \<Rightarrow> (0, []))
      else if x < 240 then
        (case xs of y # z # ys \<Rightarrow> ((x - 224) * 4096 + (y - 128) * 64 + (z - 128), ys) | _ \<Rightarrow> (0, []))
      else
        (case xs of y # z # w # ys \<Rightarrow>
           ((x - 240) * 262144 + (y - 128) * 4096 + (z - 128) * 64 + (w - 128), ys) | _ \<Rightarrow> (0, [])))"
| "utf8_read [] = (0, [])"

lemma utf8_read_simps:
  "c < 128 \<Longrightarrow> utf8_read (c # r) = (c, r)"
  "h < 32 \<Longrightarrow> utf8_read ((192 + h) # (128 + l) # r) = (h * 64 + l, r)"
  "h < 16 \<Longrightarrow> utf8_read ((224 + h) # (128 + m) # (128 + l) # r) = (h * 4096 + m * 64 + l, r)"
  "utf8_read ((240 + h) # (128 + k) # (128 + m) # (128 + l) # r)
     = (h * 262144 + k * 4096 + m * 64 + l, r)"
  by simp_all

declare utf8_read.simps [simp del]

lemma recompose64: "(c :: nat) div 64 * 64 + c mod 64 = c"
  by simp

lemma div64_div64: "(c :: nat) div 64 div 64 = c div 4096" "(c :: nat) div 4096 div 64 = c div 262144"
  by (simp_all add: div_mult2_eq [symmetric])

lemma recompose4096: "(c :: nat) div 4096 * 4096 + c div 64 mod 64 * 64 + c mod 64 = c"
proof -
  have "a * 4096 + m * 64 + n = c" if "c = q * 64 + n" "q = a * 64 + m" for a m n q :: nat
    using that by simp
  from this [OF recompose64 [symmetric] recompose64 [symmetric]] show ?thesis
    by (simp only: div64_div64)
qed

lemma recompose262144:
  "(c :: nat) div 262144 * 262144 + c div 4096 mod 64 * 4096 + c div 64 mod 64 * 64 + c mod 64 = c"
proof -
  have "a * 262144 + m * 4096 + k * 64 + n = c"
    if "c = q * 64 + n" "q = p * 64 + k" "p = a * 64 + m" for a m n q p k :: nat
    using that by simp
  from this [OF recompose64 [symmetric] recompose64 [symmetric] recompose64 [symmetric]] show ?thesis
    by (simp only: div64_div64)
qed

lemma utf8_read_char:
  assumes "utf8_char c = Some b"
  shows "utf8_read (b @ r) = (c, r)"
proof -
  consider "c < 128" | "128 \<le> c" "c < 2048" | "2048 \<le> c" "c < 65536" | "65536 \<le> c" "c < 1114112"
    using assms by (fastforce simp: utf8_char_def split: if_splits)
  then show ?thesis
  proof cases
    case 1
    with assms have "b = [c]" by (simp add: utf8_char_def)
    with 1 show ?thesis by (simp add: utf8_read_simps)
  next
    case 2
    then have "c div 64 < 32" by (simp add: less_mult_imp_div_less)
    moreover from 2 assms have "b = [192 + c div 64, 128 + c mod 64]" by (simp add: utf8_char_def)
    ultimately show ?thesis by (simp only: append_Cons append_Nil utf8_read_simps recompose64)
  next
    case 3
    then have "c div 4096 < 16" by (simp add: less_mult_imp_div_less)
    moreover from 3 assms have "b = [224 + c div 4096, 128 + c div 64 mod 64, 128 + c mod 64]"
      by (simp add: utf8_char_def split: if_splits)
    ultimately show ?thesis by (simp only: append_Cons append_Nil utf8_read_simps recompose4096)
  next
    case 4
    with assms have
      "b = [240 + c div 262144, 128 + c div 4096 mod 64, 128 + c div 64 mod 64, 128 + c mod 64]"
      by (simp add: utf8_char_def split: if_splits)
    then show ?thesis by (simp only: append_Cons append_Nil utf8_read_simps recompose262144)
  qed
qed

lemma utf8_char_prefix:
  assumes "utf8_char c = Some b" "utf8_char d = Some b'" "b @ r = b' @ r'"
  shows "c = d \<and> r = r'"
  using utf8_read_char [OF assms(1), of r] utf8_read_char [OF assms(2), of r'] assms(3) by simp

lemma utf8_encode_inj:
  "utf8_encode s = Inr b \<Longrightarrow> utf8_encode t = Inr b \<Longrightarrow> s = t"
proof (induction s arbitrary: t b)
  case Nil
  then show ?case
    by (cases t) (auto split: option.splits dest: utf8_char_nonempty)
next
  case (Cons c s)
  from Cons.prems(1) obtain x bs where c: "utf8_char c = Some x" "utf8_encode s = Inr bs" "b = x @ bs"
    by (auto split: option.splits)
  show ?case
  proof (cases t)
    case Nil
    with Cons.prems c show ?thesis by (auto dest: utf8_char_nonempty)
  next
    case (Cons d t')
    with Cons.prems(2) obtain y bs' where d: "utf8_char d = Some y" "utf8_encode t' = Inr bs'" "b = y @ bs'"
      by (auto split: option.splits)
    from c d have "x @ bs = y @ bs'" by simp
    with c(1) d(1) have "c = d \<and> bs = bs'" by (rule utf8_char_prefix)
    with Cons.IH [OF c(2)] c(2) d(2) Cons show ?thesis by simp
  qed
qed

section \<open>JSON\<close>

datatype json =
    JNull
  | JInt int
  | JStr pystr
  | JArr "json list"
  | JObj "(pystr \<times> json) list"

definition hex_digit :: "nat \<Rightarrow> nat" where
  "hex_digit n = (if n < 10 then 48 + n else 87 + n)"

text \<open>The escapes of \<^verbatim>\<open>json.encoder\<close> with \<^verbatim>\<open>ensure_ascii=False\<close>.\<close>

definition json_esc :: "nat \<Rightarrow> pystr" where
  "json_esc c =
     (if c = 34 then [92, 34]
      else if c = 92 then [92, 92]
      else if c = 10 then [92, 110]
      else if c = 13 then [92, 114]
      else if c = 9 then [92, 116]
      else if c = 12 then [92, 102]
      else if c = 8 then [92, 98]
      else if c < 32 then [92, 117, 48, 48, hex_digit (c div 16), hex_digit (c mod 16)]
      else [c])"

definition json_str :: "pystr \<Rightarrow> pystr" where
  "json_str s = 34 # concat (map json_esc s) @ [34]"

fun dec_nat :: "nat \<Rightarrow> pystr" where
  "dec_nat n = (if n < 10 then [48 + n] else dec_nat (n div 10) @ [48 + n mod 10])"

declare dec_nat.simps [simp del]

definition dec_int :: "int \<Rightarrow> pystr" where
  "dec_int i = (if i < 0 then 45 # dec_nat (nat (- i)) else dec_nat (nat i))"

text \<open>
  \<open>dumps\<close> writes a value; \<open>dumps_arr\<close> and \<open>dumps_obj\<close> write what follows the first element
  of a non-empty array or object, the closing bracket included.
\<close>

fun dumps :: "json \<Rightarrow> pystr"
  and dumps_arr :: "json list \<Rightarrow> pystr"
  and dumps_obj :: "(pystr \<times> json) list \<Rightarrow> pystr" where
  "dumps JNull = [110, 117, 108, 108]"
| "dumps (JInt i) = dec_int i"
| "dumps (JStr s) = json_str s"
| "dumps (JArr []) = [91, 93]"
| "dumps (JArr (j # js)) = 91 # dumps j @ dumps_arr js"
| "dumps (JObj []) = [123, 125]"
| "dumps (JObj ((k, j) # kvs)) = 123 # json_str k @ 58 # dumps j @ dumps_obj kvs"
| "dumps_arr [] = [93]"
| "dumps_arr (j # js) = 44 # dumps j @ dumps_arr js"
| "dumps_obj [] = [125]"
| "dumps_obj ((k, j) # kvs) = 44 # json_str k @ 58 # dumps j @ dumps_obj kvs"

definition dumps_utf8 :: "json \<Rightarrow> nat list res" where
  "dumps_utf8 j = utf8_encode (dumps j)"

subsection \<open>Strings and numbers are self-delimiting\<close>

definition hex_value :: "nat \<Rightarrow> nat" where
  "hex_value c = (if c < 58 then c - 48 else c - 87)"

lemma hex_value_digit: "n < 16 \<Longrightarrow> hex_value (hex_digit n) = n"
  by (auto simp: hex_value_def hex_digit_def)

fun json_unesc :: "pystr \<Rightarrow> nat \<times> pystr" where
  "json_unesc (x # xs) =
     (if x \<noteq> 92 then (x, xs)
      else (case xs of
          y # ys \<Rightarrow>
            if y = 110 then (10, ys) else if y = 114 then (13, ys) else if y = 116 then (9, ys)
            else if y = 102 then (12, ys) else if y = 98 then (8, ys)
            else if y = 117 then
              (case ys of _ # _ # h # l # zs \<Rightarrow> (hex_value h * 16 + hex_value l, zs) | _ \<Rightarrow> (0, []))
            else (y, ys)
        | [] \<Rightarrow> (0, [])))"
| "json_unesc [] = (0, [])"

lemma json_unesc_simps:
  "x \<noteq> 92 \<Longrightarrow> json_unesc (x # xs) = (x, xs)"
  "json_unesc (92 # 117 # 48 # 48 # h # l # zs) = (hex_value h * 16 + hex_value l, zs)"
  "json_unesc (92 # 34 # ys) = (34, ys)" "json_unesc (92 # 92 # ys) = (92, ys)"
  "json_unesc (92 # 110 # ys) = (10, ys)" "json_unesc (92 # 114 # ys) = (13, ys)"
  "json_unesc (92 # 116 # ys) = (9, ys)" "json_unesc (92 # 102 # ys) = (12, ys)"
  "json_unesc (92 # 98 # ys) = (8, ys)"
  by simp_all

declare json_unesc.simps [simp del]

lemma json_unesc_esc: "json_unesc (json_esc c @ r) = (c, r)"
proof (cases "c \<in> {34, 92, 10, 13, 9, 12, 8}")
  case True
  then show ?thesis by (auto simp: json_esc_def json_unesc_simps)
next
  case not_short: False
  show ?thesis
  proof (cases "c < 32")
    case True
    with not_short have "json_esc c = [92, 117, 48, 48, hex_digit (c div 16), hex_digit (c mod 16)]"
      by (simp add: json_esc_def)
    moreover from True have "hex_value (hex_digit (c div 16)) = c div 16"
      by (intro hex_value_digit) (simp add: less_mult_imp_div_less)
    moreover have "hex_value (hex_digit (c mod 16)) = c mod 16"
      by (rule hex_value_digit) simp
    ultimately show ?thesis
      by (simp only: append_Cons append_Nil json_unesc_simps div_mult_mod_eq)
  next
    case False
    with not_short have "json_esc c = [c]" by (simp add: json_esc_def)
    with not_short show ?thesis by (simp add: json_unesc_simps)
  qed
qed

lemma json_esc_prefix: "json_esc c @ r = json_esc d @ r' \<Longrightarrow> c = d \<and> r = r'"
  by (metis json_unesc_esc prod.inject)

lemma json_esc_hd:
  assumes "json_esc c = x # xs"
  shows "x \<noteq> 34"
proof
  assume "x = 34"
  with assms json_unesc_esc [of c "[]"] have "c = 34" by (simp add: json_unesc_simps)
  with assms \<open>x = 34\<close> show False by (simp add: json_esc_def)
qed

lemma json_esc_nonempty: "json_esc c \<noteq> []"
  by (simp add: json_esc_def)

lemma json_body_prefix:
  "concat (map json_esc s) @ 34 # r = concat (map json_esc t) @ 34 # r' \<Longrightarrow> s = t \<and> r = r'"
proof (induction s arbitrary: t)
  case Nil
  show ?case
  proof (cases t)
    case (Cons d t')
    obtain x xs where "json_esc d = x # xs"
      using json_esc_nonempty by (cases "json_esc d") auto
    with Nil Cons show ?thesis by (auto dest: json_esc_hd)
  qed (use Nil in simp)
next
  case (Cons c s)
  show ?case
  proof (cases t)
    case Nil
    obtain x xs where "json_esc c = x # xs"
      using json_esc_nonempty by (cases "json_esc c") auto
    with Nil Cons.prems show ?thesis by (auto dest: json_esc_hd)
  next
    case (Cons d t')
    with Cons.prems have "c = d \<and> concat (map json_esc s) @ 34 # r = concat (map json_esc t') @ 34 # r'"
      by (intro json_esc_prefix) simp
    with Cons.IH Cons show ?thesis by blast
  qed
qed

lemma json_str_prefix: "json_str s @ r = json_str t @ r' \<Longrightarrow> s = t \<and> r = r'"
  unfolding json_str_def using json_body_prefix [of s r t r'] by simp

definition is_digit_cp :: "nat \<Rightarrow> bool" where
  "is_digit_cp c \<longleftrightarrow> 48 \<le> c \<and> c \<le> 57"

lemma dec_nat_digits: "\<forall>c \<in> set (dec_nat n). is_digit_cp c"
proof (induction n rule: dec_nat.induct)
  case (1 n)
  then show ?case by (cases "n < 10") (simp_all add: dec_nat.simps [of n] is_digit_cp_def)
qed

lemma dec_nat_nonempty [simp]: "dec_nat n \<noteq> []"
  by (simp add: dec_nat.simps [of n])

lemma dec_nat_nonempty' [simp]: "[] \<noteq> dec_nat n"
  using dec_nat_nonempty [of n] by metis

lemma dec_nat_inj: "dec_nat m = dec_nat n \<Longrightarrow> m = n"
proof (induction m arbitrary: n rule: dec_nat.induct)
  case (1 m)
  show ?case
  proof (cases "m < 10"; cases "n < 10")
    assume "\<not> m < 10" "\<not> n < 10"
    with 1 have "m div 10 = n div 10" "m mod 10 = n mod 10"
      by (auto simp: dec_nat.simps [of m] dec_nat.simps [of n])
    then show ?thesis by (metis mult_div_mod_eq)
  qed (use "1.prems" in \<open>auto simp: dec_nat.simps [of m] dec_nat.simps [of n]\<close>)
qed

definition stops :: "pystr \<Rightarrow> bool" where
  "stops r \<longleftrightarrow> r = [] \<or> \<not> is_digit_cp (hd r)"

lemma takeWhile_dec_nat: "stops r \<Longrightarrow> takeWhile is_digit_cp (dec_nat n @ r) = dec_nat n"
proof -
  assume r: "stops r"
  have "takeWhile is_digit_cp (dec_nat n @ r) = dec_nat n @ takeWhile is_digit_cp r"
    by (simp add: takeWhile_append2 dec_nat_digits)
  with r show ?thesis by (cases r) (simp_all add: stops_def)
qed

lemma dec_nat_prefix:
  assumes "stops r" "stops r'" "dec_nat m @ r = dec_nat n @ r'"
  shows "m = n \<and> r = r'"
  using takeWhile_dec_nat [OF assms(1), of m] takeWhile_dec_nat [OF assms(2), of n] assms(3)
  by (metis dec_nat_inj same_append_eq)

lemma dec_nat_hd: "\<exists>c s. dec_nat n = c # s \<and> is_digit_cp c"
  using dec_nat_digits [of n] dec_nat_nonempty [of n] by (cases "dec_nat n") auto

lemma dec_int_prefix:
  assumes "stops r" "stops r'" "dec_int i @ r = dec_int k @ r'"
  shows "i = k \<and> r = r'"
proof (cases "i < 0"; cases "k < 0")
  assume "i < 0" "k < 0"
  with assms have "dec_nat (nat (- i)) @ r = dec_nat (nat (- k)) @ r'"
    by (simp add: dec_int_def)
  with assms(1,2) have "nat (- i) = nat (- k) \<and> r = r'"
    by (intro dec_nat_prefix)
  with \<open>i < 0\<close> \<open>k < 0\<close> show ?thesis by linarith
next
  assume "i < 0" "\<not> k < 0"
  with assms(3) show ?thesis
    using dec_nat_hd [of "nat k"] by (auto simp: dec_int_def is_digit_cp_def)
next
  assume "\<not> i < 0" "k < 0"
  with assms(3) show ?thesis
    using dec_nat_hd [of "nat i"] by (auto simp: dec_int_def is_digit_cp_def)
next
  assume "\<not> i < 0" "\<not> k < 0"
  with assms have "dec_nat (nat i) @ r = dec_nat (nat k) @ r'"
    by (simp add: dec_int_def)
  with assms(1,2) have "nat i = nat k \<and> r = r'"
    by (intro dec_nat_prefix)
  with \<open>\<not> i < 0\<close> \<open>\<not> k < 0\<close> show ?thesis by linarith
qed

subsection \<open>Serialisation is injective\<close>

lemma dec_int_hd: "\<exists>c s. dec_int i = c # s \<and> (is_digit_cp c \<or> c = 45)"
  using dec_nat_hd [of "nat i"] by (auto simp: dec_int_def)

lemma dumps_hd:
  obtains c s where "dumps j = c # s" "c \<noteq> 93" "c \<noteq> 125" "c \<noteq> 44"
proof -
  have "\<exists>c s. dumps j = c # s \<and> c \<noteq> 93 \<and> c \<noteq> 125 \<and> c \<noteq> 44"
  proof (cases j)
    case (JInt i)
    then show ?thesis using dec_int_hd [of i] by (auto simp: is_digit_cp_def)
  next
    case (JArr js)
    then show ?thesis by (cases js) auto
  next
    case (JObj kvs)
    then show ?thesis by (cases kvs rule: list.exhaust) auto
  qed (auto simp: json_str_def)
  then show thesis using that by blast
qed

lemma stops_dumps_arr [simp]: "stops (dumps_arr js @ r)"
  by (cases js) (simp_all add: stops_def is_digit_cp_def)

lemma stops_dumps_obj [simp]: "stops (dumps_obj kvs @ r)"
  by (cases kvs rule: list.exhaust) (auto simp: stops_def is_digit_cp_def)

lemma json_exhaust:
  obtains "j = JNull" | i where "j = JInt i" | s where "j = JStr s" | "j = JArr []"
    | x xs where "j = JArr (x # xs)" | "j = JObj []" | k x kvs where "j = JObj ((k, x) # kvs)"
proof (cases j)
  case (JArr js)
  then show thesis using that by (cases js) auto
next
  case (JObj kvs)
  then show thesis using that by (cases kvs rule: list.exhaust) auto
qed (use that in auto)

lemma dec_int_hd_neq:
  assumes "\<not> is_digit_cp c" "c \<noteq> 45"
  shows "dec_int i @ r \<noteq> c # s" "c # s \<noteq> dec_int i @ r"
  using assms dec_int_hd [of i] by auto

lemma dec_int_json_str [simp]: "dec_int i @ r \<noteq> json_str s @ r'" "json_str s @ r \<noteq> dec_int i @ r'"
  using dec_int_hd [of i] by (auto simp: json_str_def is_digit_cp_def)

lemmas dumps_clash = dec_int_hd_neq [of 110, simplified is_digit_cp_def, simplified]
  dec_int_hd_neq [of 34, simplified is_digit_cp_def, simplified]
  dec_int_hd_neq [of 91, simplified is_digit_cp_def, simplified]
  dec_int_hd_neq [of 123, simplified is_digit_cp_def, simplified]

lemma dumps_not_close [simp]: "93 # r \<noteq> dumps j @ s" "dumps j @ s \<noteq> 93 # r"
  by (metis append_Cons dumps_hd list.inject)+

lemma json_str_clash [simp]:
  "c \<noteq> 34 \<Longrightarrow> json_str s @ r \<noteq> c # t" "c \<noteq> 34 \<Longrightarrow> c # t \<noteq> json_str s @ r"
  by (auto simp: json_str_def)

text \<open>A written value can be told from what follows it, so no two values share a text.\<close>

lemma dumps_prefix:
  "\<forall>j' r r'. stops r \<longrightarrow> stops r' \<longrightarrow> dumps j @ r = dumps j' @ r' \<longrightarrow> j = j' \<and> r = r'"
  "\<forall>js' r r'. dumps_arr js @ r = dumps_arr js' @ r' \<longrightarrow> js = js' \<and> r = r'"
  "\<forall>kvs' r r'. dumps_obj kvs @ r = dumps_obj kvs' @ r' \<longrightarrow> kvs = kvs' \<and> r = r'"
proof (induction j and js and kvs rule: dumps_dumps_arr_dumps_obj.induct)
  case 1
  show ?case
    by (intro allI, case_tac j' rule: json_exhaust) (auto simp: dumps_clash)
next
  case (2 i)
  show ?case
    by (intro allI, case_tac j' rule: json_exhaust) (auto simp: dumps_clash dest: dec_int_prefix)
next
  case (3 s)
  show ?case
    by (intro allI, case_tac j' rule: json_exhaust) (auto simp: dumps_clash dest: json_str_prefix)
next
  case 4
  show ?case
  proof (intro allI impI)
    fix j' r r'
    assume eq: "dumps (JArr []) @ r = dumps j' @ r'"
    then show "JArr [] = j' \<and> r = r'"
    proof (cases j' rule: json_exhaust)
      case (5 x xs)
      with eq have "93 # r = dumps x @ (dumps_arr xs @ r')" by simp
      then show ?thesis by (simp only: dumps_not_close)
    qed (auto simp: dumps_clash)
  qed
next
  case (5 j js)
  show ?case
  proof (intro allI impI)
    fix j' r r'
    assume eq: "dumps (JArr (j # js)) @ r = dumps j' @ r'"
    have "j' \<noteq> JArr []"
    proof
      assume "j' = JArr []"
      with eq have "dumps j @ (dumps_arr js @ r) = 93 # r'" by simp
      then show False by (simp only: dumps_not_close)
    qed
    with eq obtain x xs where j': "j' = JArr (x # xs)"
      by (cases j' rule: json_exhaust) (simp_all add: dumps_clash)
    with eq have "dumps j @ dumps_arr js @ r = dumps x @ dumps_arr xs @ r'" by simp
    with 5(1) have "j = x \<and> dumps_arr js @ r = dumps_arr xs @ r'"
      by (blast intro: stops_dumps_arr)
    with 5(2) j' show "JArr (j # js) = j' \<and> r = r'" by blast
  qed
next
  case 6
  show ?case
    by (intro allI, case_tac j' rule: json_exhaust) (auto simp: dumps_clash)
next
  case (7 k j kvs)
  show ?case
  proof (intro allI impI)
    fix j' r r'
    assume eq: "dumps (JObj ((k, j) # kvs)) @ r = dumps j' @ r'"
    then obtain m x xs where j': "j' = JObj ((m, x) # xs)"
      by (cases j' rule: json_exhaust) (auto simp: dumps_clash)
    with eq have "json_str k @ (58 # dumps j @ dumps_obj kvs @ r) = json_str m @ (58 # dumps x @ dumps_obj xs @ r')"
      by simp
    then have "k = m \<and> dumps j @ dumps_obj kvs @ r = dumps x @ dumps_obj xs @ r'"
      by (auto dest: json_str_prefix)
    moreover from this 7(1) have "j = x \<and> dumps_obj kvs @ r = dumps_obj xs @ r'"
      by (blast intro: stops_dumps_obj)
    ultimately show "JObj ((k, j) # kvs) = j' \<and> r = r'" using 7(2) j' by blast
  qed
next
  case 8
  show ?case by (intro allI, case_tac js') auto
next
  case (9 j js)
  show ?case
  proof (intro allI impI)
    fix js' r r'
    assume eq: "dumps_arr (j # js) @ r = dumps_arr js' @ r'"
    then obtain x xs where js': "js' = x # xs"
      by (cases js') auto
    with eq have "dumps j @ dumps_arr js @ r = dumps x @ dumps_arr xs @ r'" by simp
    with 9(1) have "j = x \<and> dumps_arr js @ r = dumps_arr xs @ r'"
      by (blast intro: stops_dumps_arr)
    with 9(2) js' show "j # js = js' \<and> r = r'" by blast
  qed
next
  case 10
  show ?case by (intro allI, case_tac kvs') auto
next
  case (11 k j kvs)
  show ?case
  proof (intro allI impI)
    fix kvs' r r'
    assume eq: "dumps_obj ((k, j) # kvs) @ r = dumps_obj kvs' @ r'"
    then obtain m x xs where kvs': "kvs' = (m, x) # xs"
      by (cases kvs') auto
    with eq have "json_str k @ (58 # dumps j @ dumps_obj kvs @ r) = json_str m @ (58 # dumps x @ dumps_obj xs @ r')"
      by simp
    then have "k = m \<and> dumps j @ dumps_obj kvs @ r = dumps x @ dumps_obj xs @ r'"
      by (auto dest: json_str_prefix)
    moreover from this 11(1) have "j = x \<and> dumps_obj kvs @ r = dumps_obj xs @ r'"
      by (blast intro: stops_dumps_obj)
    ultimately show "(k, j) # kvs = kvs' \<and> r = r'" using 11(2) kvs' by blast
  qed
qed

lemma dumps_inj: "dumps j = dumps j' \<Longrightarrow> j = j'"
  using dumps_prefix(1) [of j] by (force simp: stops_def)

lemma dumps_utf8_inj: "dumps_utf8 j = Inr b \<Longrightarrow> dumps_utf8 j' = Inr b \<Longrightarrow> j = j'"
  unfolding dumps_utf8_def by (blast dest: utf8_encode_inj dumps_inj)

subsection \<open>When serialisation does not raise\<close>

fun json_encodable :: "json \<Rightarrow> bool" where
  "json_encodable (JStr s) = encodable s"
| "json_encodable (JArr js) = list_all json_encodable js"
| "json_encodable (JObj kvs) = list_all (\<lambda>(k, j). encodable k \<and> json_encodable j) kvs"
| "json_encodable _ = True"

lemma encodable_json_esc: "utf8_char c \<noteq> None \<Longrightarrow> encodable (json_esc c)"
  by (auto simp: json_esc_def hex_digit_def utf8_ascii)

lemma encodable_json_str: "encodable s \<Longrightarrow> encodable (json_str s)"
  by (auto simp: json_str_def encodable_concat utf8_ascii encodable_def [of s] intro: encodable_json_esc)

lemma encodable_json_escD: "encodable (json_esc c) \<Longrightarrow> utf8_char c \<noteq> None"
  by (cases "c < 128") (simp_all add: utf8_ascii json_esc_def)

lemma encodable_json_str_iff: "encodable (json_str s) \<longleftrightarrow> encodable s"
proof
  assume "encodable (json_str s)"
  then have "\<forall>c \<in> set s. encodable (json_esc c)"
    by (auto simp: json_str_def encodable_concat)
  then show "encodable s" by (simp add: encodable_def [of s] encodable_json_escD)
qed (rule encodable_json_str)

lemma encodable_dec_int: "encodable (dec_int i)"
proof -
  have "encodable (dec_nat n)" for n
    using dec_nat_digits [of n] by (intro encodable_ascii) (auto simp: is_digit_cp_def)
  then show ?thesis by (simp add: dec_int_def utf8_ascii)
qed

lemma encodable_dumps:
  "json_encodable j \<Longrightarrow> encodable (dumps j)"
  "list_all json_encodable js \<Longrightarrow> encodable (dumps_arr js)"
  "list_all (\<lambda>(k, j). encodable k \<and> json_encodable j) kvs \<Longrightarrow> encodable (dumps_obj kvs)"
  by (induction j and js and kvs rule: dumps_dumps_arr_dumps_obj.induct)
    (auto simp: utf8_ascii encodable_json_str encodable_dec_int)


section \<open>The text of an identifier\<close>

text \<open>\<^verbatim>\<open>str(uuid)\<close>: 32 hexadecimal digits in groups of 8, 4, 4, 4 and 12.\<close>

definition uuid_hex :: "uuid \<Rightarrow> pystr" where
  "uuid_hex u = map (\<lambda>i. hex_digit (uuid_num u div 16 ^ (31 - i) mod 16)) [0..<32]"

definition uuid_text :: "uuid \<Rightarrow> pystr" where
  "uuid_text u =
     (let h = uuid_hex u
      in take 8 h @ [45] @ take 4 (drop 8 h) @ [45] @ take 4 (drop 12 h) @ [45] @ take 4 (drop 16 h)
         @ [45] @ drop 20 h)"

end
