(* ===== verification/Publishing_Package.thy ===== *)
theory Publishing_Package
  imports Py_Json
begin

text \<open>
  The public study package (\<^verbatim>\<open>platform/publishing/package.py\<close>): the content model and its
  field validators, the canonical byte form, the digest and the decoder.

  What is not under \<^verbatim>\<open>src/\<close> enters through the record \<open>pub_env\<close>: the SHA-256 hex digest,
  the Unicode NFC tables, and \<open>json_load\<close>, the reader \<^verbatim>\<open>json.loads\<close>.  The definitions take it
  as an argument; no law of it is assumed unless a theorem says so.  \<open>json_load\<close> gives \<open>None\<close>
  where \<^verbatim>\<open>json.loads\<close> raises, and for a value with a boolean or a floating point number in it,
  which no field of the models accepts.  What the models make of a value that was read, their
  fields, defaults and forbidden extra keys, is the definition \<open>structured_snapshot\<close>.
\<close>

section \<open>Data\<close>

record public_persona =
  pp_slug :: pystr
  pp_label :: pystr

record study_content =
  sc_slug :: pystr
  sc_title :: pystr
  sc_summary :: pystr
  sc_topic_keys :: "pystr list"
  sc_body :: pystr
  sc_verification :: pystr
  sc_limitations :: pystr
  sc_persona :: "public_persona option"

record study_snapshot =
  ss_schema_version :: int
  ss_revision :: int
  ss_content :: study_content

record pub_env =
  sha256 :: "nat list \<Rightarrow> pystr"
  nfc :: "pystr \<Rightarrow> pystr"
  json_load :: "nat list \<Rightarrow> json option"

section \<open>Normalisation and validation\<close>

fun replace_crlf :: "pystr \<Rightarrow> pystr" where
  "replace_crlf (a # b # s) = (if a = 13 \<and> b = 10 then 10 # replace_crlf s else a # replace_crlf (b # s))"
| "replace_crlf s = s"

definition replace_cr :: "pystr \<Rightarrow> pystr" where
  "replace_cr s = map (\<lambda>c. if c = 13 then 10 else c) s"

definition normalize_public_text :: "pub_env \<Rightarrow> pystr \<Rightarrow> pystr res" where
  "normalize_public_text E v =
     (let n = nfc E (replace_cr (replace_crlf (strip v)))
      in if n = [] then Inl (ValueError ''public text must not be blank'')
         else if \<not> encodable n then Inl (ValueError ''public text must be UTF-8 encodable'')
         else Inr n)"

text \<open>
  \<^verbatim>\<open>[a-z0-9]+(?:-[a-z0-9]+)*\<close> as a two-state automaton: the flag says whether the last
  character was a letter or digit.
\<close>

definition slug_char :: "nat \<Rightarrow> bool" where
  "slug_char c \<longleftrightarrow> (97 \<le> c \<and> c \<le> 122) \<or> (48 \<le> c \<and> c \<le> 57)"

fun slug_run :: "bool \<Rightarrow> pystr \<Rightarrow> bool" where
  "slug_run b [] = b"
| "slug_run b (c # s) =
     (if slug_char c then slug_run True s else b \<and> c = 45 \<and> slug_run False s)"

definition is_public_slug :: "pystr \<Rightarrow> bool" where
  "is_public_slug s = slug_run False s"

definition normalize_public_slug :: "pub_env \<Rightarrow> pystr \<Rightarrow> pystr res" where
  "normalize_public_slug E v =
     rbind (normalize_public_text E v) (\<lambda>n.
       if is_public_slug n then Inr n else Inl (ValueError ''public slug is invalid''))"

definition normalize_topics :: "pub_env \<Rightarrow> pystr list \<Rightarrow> pystr list res" where
  "normalize_topics E vs =
     rbind (mapr (normalize_public_slug E) vs) (\<lambda>ns.
       if ns = [] then Inl (ValueError ''public topics must not be empty'')
       else if \<not> distinct ns then Inl (ValueError ''public topics must be unique'')
       else Inr ns)"

definition validate_persona :: "pub_env \<Rightarrow> public_persona \<Rightarrow> public_persona res" where
  "validate_persona E p =
     rbind (normalize_public_slug E (pp_slug p)) (\<lambda>s.
     rbind (normalize_public_text E (pp_label p)) (\<lambda>l.
       Inr \<lparr>pp_slug = s, pp_label = l\<rparr>))"

definition validate_persona_option ::
  "pub_env \<Rightarrow> public_persona option \<Rightarrow> public_persona option res" where
  "validate_persona_option E po =
     (case po of None \<Rightarrow> Inr None
      | Some p \<Rightarrow> rbind (validate_persona E p) (\<lambda>p'. Inr (Some p')))"

text \<open>Pydantic turns every \<^verbatim>\<open>ValueError\<close> of a field validator into one \<^verbatim>\<open>ValidationError\<close>.\<close>

definition validate_content :: "pub_env \<Rightarrow> study_content \<Rightarrow> study_content res" where
  "validate_content E c = recover is_value_error ValidationError
     (rbind (normalize_public_slug E (sc_slug c)) (\<lambda>slug.
      rbind (normalize_public_text E (sc_title c)) (\<lambda>title.
      rbind (normalize_public_text E (sc_summary c)) (\<lambda>summary.
      rbind (normalize_topics E (sc_topic_keys c)) (\<lambda>topics.
      rbind (normalize_public_text E (sc_body c)) (\<lambda>body.
      rbind (normalize_public_text E (sc_verification c)) (\<lambda>verification.
      rbind (normalize_public_text E (sc_limitations c)) (\<lambda>limitations.
      rbind (validate_persona_option E (sc_persona c)) (\<lambda>persona.
        Inr \<lparr>sc_slug = slug, sc_title = title, sc_summary = summary, sc_topic_keys = topics,
              sc_body = body, sc_verification = verification, sc_limitations = limitations,
              sc_persona = persona\<rparr>)))))))))"

text \<open>\<^verbatim>\<open>StudySnapshot.model_validate\<close> on an already structured value.\<close>

definition validate_snapshot :: "pub_env \<Rightarrow> study_snapshot \<Rightarrow> study_snapshot res" where
  "validate_snapshot E s =
     (if ss_schema_version s \<noteq> 1 then Inl ValidationError
      else if ss_revision s \<le> 0 then Inl ValidationError
      else rbind (validate_content E (ss_content s)) (\<lambda>c.
        Inr \<lparr>ss_schema_version = 1, ss_revision = ss_revision s, ss_content = c\<rparr>))"

text \<open>
  \<^verbatim>\<open>StudySnapshot(revision=r, content=c)\<close>: a content that already is a model instance is not
  validated again.
\<close>

definition new_snapshot :: "int \<Rightarrow> study_content \<Rightarrow> study_snapshot res" where
  "new_snapshot r c =
     (if r \<le> 0 then Inl ValidationError
      else Inr \<lparr>ss_schema_version = 1, ss_revision = r, ss_content = c\<rparr>)"

section \<open>Canonical bytes and digest\<close>

definition persona_json :: "public_persona option \<Rightarrow> json" where
  "persona_json po =
     (case po of None \<Rightarrow> JNull
      | Some p \<Rightarrow> JObj [(lit ''label'', JStr (pp_label p)), (lit ''slug'', JStr (pp_slug p))])"

definition content_json :: "study_content \<Rightarrow> json" where
  "content_json c = JObj
     [(lit ''body'', JStr (sc_body c)),
      (lit ''limitations'', JStr (sc_limitations c)),
      (lit ''persona'', persona_json (sc_persona c)),
      (lit ''slug'', JStr (sc_slug c)),
      (lit ''summary'', JStr (sc_summary c)),
      (lit ''title'', JStr (sc_title c)),
      (lit ''topic_keys'', JArr (map JStr (sc_topic_keys c))),
      (lit ''verification'', JStr (sc_verification c))]"

definition snapshot_json :: "study_snapshot \<Rightarrow> json" where
  "snapshot_json s = JObj
     [(lit ''content'', content_json (ss_content s)),
      (lit ''revision'', JInt (ss_revision s)),
      (lit ''schema_version'', JInt (ss_schema_version s))]"

definition canonical_bytes :: "study_snapshot \<Rightarrow> nat list res" where
  "canonical_bytes s = dumps_utf8 (snapshot_json s)"

definition snapshot_digest :: "pub_env \<Rightarrow> study_snapshot \<Rightarrow> pystr res" where
  "snapshot_digest E s = rbind (canonical_bytes s) (\<lambda>b. Inr (sha256 E b))"

abbreviation invalid_package :: exn where
  "invalid_package \<equiv> AppError ''publishing_package_invalid'' 422"

subsection \<open>From a JSON value to an unvalidated model\<close>

text \<open>
  \<^verbatim>\<open>extra="forbid"\<close>: a key that is no field of the model is refused.  A field without a default
  must be present.
\<close>

definition only_fields :: "pystr list \<Rightarrow> (pystr \<times> json) list \<Rightarrow> bool" where
  "only_fields fs kvs \<longleftrightarrow> list_all (\<lambda>kv. fst kv \<in> set fs) kvs"

definition read_field :: "(pystr \<times> json) list \<Rightarrow> pystr \<Rightarrow> (json \<Rightarrow> 'a option) \<Rightarrow> 'a option" where
  "read_field kvs k read = Option.bind (map_of kvs k) read"

fun read_text :: "json \<Rightarrow> pystr option" where
  "read_text (JStr s) = Some s"
| "read_text _ = None"

fun read_int :: "json \<Rightarrow> int option" where
  "read_int (JInt i) = Some i"
| "read_int _ = None"

fun read_texts :: "json list \<Rightarrow> pystr list option" where
  "read_texts [] = Some []"
| "read_texts (j # js) =
     Option.bind (read_text j) (\<lambda>s. Option.bind (read_texts js) (\<lambda>ss. Some (s # ss)))"

fun read_text_list :: "json \<Rightarrow> pystr list option" where
  "read_text_list (JArr js) = read_texts js"
| "read_text_list _ = None"

text \<open>\<^verbatim>\<open>persona: PublicPersona | None\<close>.\<close>

fun structured_persona :: "json \<Rightarrow> public_persona option option" where
  "structured_persona JNull = Some None"
| "structured_persona (JObj kvs) =
     (if \<not> only_fields [lit ''slug'', lit ''label''] kvs then None
      else Option.bind (read_field kvs (lit ''slug'') read_text) (\<lambda>slug.
        Option.bind (read_field kvs (lit ''label'') read_text) (\<lambda>label.
          Some (Some \<lparr>pp_slug = slug, pp_label = label\<rparr>))))"
| "structured_persona _ = None"

definition content_fields :: "pystr list" where
  "content_fields =
     [lit ''slug'', lit ''title'', lit ''summary'', lit ''topic_keys'', lit ''body'',
      lit ''verification'', lit ''limitations'', lit ''persona'']"

fun structured_content :: "json \<Rightarrow> study_content option" where
  "structured_content (JObj kvs) =
     (if \<not> only_fields content_fields kvs then None
      else Option.bind (read_field kvs (lit ''slug'') read_text) (\<lambda>slug.
        Option.bind (read_field kvs (lit ''title'') read_text) (\<lambda>title.
        Option.bind (read_field kvs (lit ''summary'') read_text) (\<lambda>summary.
        Option.bind (read_field kvs (lit ''topic_keys'') read_text_list) (\<lambda>topics.
        Option.bind (read_field kvs (lit ''body'') read_text) (\<lambda>body.
        Option.bind (read_field kvs (lit ''verification'') read_text) (\<lambda>verification.
        Option.bind (read_field kvs (lit ''limitations'') read_text) (\<lambda>limitations.
        Option.bind (case map_of kvs (lit ''persona'') of
                       None \<Rightarrow> Some None | Some j \<Rightarrow> structured_persona j) (\<lambda>persona.
          Some \<lparr>sc_slug = slug, sc_title = title, sc_summary = summary, sc_topic_keys = topics,
            sc_body = body, sc_verification = verification, sc_limitations = limitations,
            sc_persona = persona\<rparr>)))))))))"
| "structured_content _ = None"

text \<open>
  \<^verbatim>\<open>schema_version\<close> may be left out; what it and \<^verbatim>\<open>revision\<close> may be is checked by
  \<open>validate_snapshot\<close>.
\<close>

fun structured_snapshot :: "json \<Rightarrow> study_snapshot option" where
  "structured_snapshot (JObj kvs) =
     (if \<not> only_fields [lit ''schema_version'', lit ''revision'', lit ''content''] kvs then None
      else Option.bind (case map_of kvs (lit ''schema_version'') of
                          None \<Rightarrow> Some 1 | Some j \<Rightarrow> read_int j) (\<lambda>version.
        Option.bind (read_field kvs (lit ''revision'') read_int) (\<lambda>revision.
        Option.bind (read_field kvs (lit ''content'') structured_content) (\<lambda>content.
          Some \<lparr>ss_schema_version = version, ss_revision = revision, ss_content = content\<rparr>))))"
| "structured_snapshot _ = None"

definition load_snapshot :: "pub_env \<Rightarrow> nat list \<Rightarrow> study_snapshot option" where
  "load_snapshot E payload = Option.bind (json_load E payload) structured_snapshot"

definition decode_snapshot :: "pub_env \<Rightarrow> nat list \<Rightarrow> pystr \<Rightarrow> study_snapshot res" where
  "decode_snapshot E payload expected =
     (if sha256 E payload \<noteq> expected then Inl invalid_package
      else case load_snapshot E payload of
        None \<Rightarrow> Inl invalid_package
      | Some raw \<Rightarrow>
          (case rbind (validate_snapshot E raw) (\<lambda>s. rbind (canonical_bytes s) (\<lambda>b. Inr (s, b))) of
             Inl _ \<Rightarrow> Inl invalid_package
           | Inr (s, b) \<Rightarrow> if b = payload then Inr s else Inl invalid_package))"

text \<open>\<^verbatim>\<open>_is_valid_snapshot\<close> of \<^verbatim>\<open>domain.py\<close>: validating the value again gives the value.\<close>

definition is_valid_snapshot :: "pub_env \<Rightarrow> study_snapshot \<Rightarrow> bool" where
  "is_valid_snapshot E s \<longleftrightarrow> validate_snapshot E s = Inr s"

section \<open>Facts\<close>

subsection \<open>Slugs\<close>

lemma slug_run_chars: "slug_run b s \<Longrightarrow> c \<in> set s \<Longrightarrow> slug_char c \<or> c = 45"
  by (induction b s rule: slug_run.induct) (auto split: if_splits)

lemma public_slug_ascii:
  assumes "is_public_slug s" "c \<in> set s"
  shows "c < 128"
  using slug_run_chars [OF assms(1) [unfolded is_public_slug_def] assms(2)]
  by (auto simp: slug_char_def)

lemma public_slug_encodable: "is_public_slug s \<Longrightarrow> encodable s"
  by (rule encodable_ascii) (blast intro: public_slug_ascii)

lemma public_slug_nonempty: "is_public_slug s \<Longrightarrow> s \<noteq> []"
  by (auto simp: is_public_slug_def)

subsection \<open>What validation leaves\<close>

lemma normalize_text_encodable: "normalize_public_text E v = Inr n \<Longrightarrow> encodable n \<and> n \<noteq> []"
  by (auto simp: normalize_public_text_def Let_def split: if_splits)

lemma normalize_slug_public: "normalize_public_slug E v = Inr n \<Longrightarrow> is_public_slug n"
  by (auto simp: normalize_public_slug_def split: if_splits)

lemma normalize_topics_public:
  "normalize_topics E vs = Inr ns \<Longrightarrow> distinct ns \<and> ns \<noteq> [] \<and> (\<forall>n \<in> set ns. is_public_slug n)"
  by (auto simp: normalize_topics_def mapr_set split: if_splits dest: normalize_slug_public)

definition content_wf :: "study_content \<Rightarrow> bool" where
  "content_wf c \<longleftrightarrow>
     is_public_slug (sc_slug c) \<and> encodable (sc_title c) \<and> encodable (sc_summary c)
     \<and> distinct (sc_topic_keys c) \<and> (\<forall>k \<in> set (sc_topic_keys c). is_public_slug k)
     \<and> encodable (sc_body c) \<and> encodable (sc_verification c) \<and> encodable (sc_limitations c)
     \<and> (\<forall>p. sc_persona c = Some p \<longrightarrow> is_public_slug (pp_slug p) \<and> encodable (pp_label p))"

lemma validate_content_wf: "validate_content E c = Inr c' \<Longrightarrow> content_wf c'"
  by (auto simp: validate_content_def content_wf_def validate_persona_option_def validate_persona_def
      dest!: normalize_text_encodable normalize_slug_public normalize_topics_public
      split: option.splits)

lemma is_valid_snapshotD:
  assumes "is_valid_snapshot E s"
  shows "ss_schema_version s = 1" "0 < ss_revision s" "content_wf (ss_content s)"
proof -
  from assms obtain c where "ss_schema_version s = 1" "0 < ss_revision s"
    "validate_content E (ss_content s) = Inr c"
    "\<lparr>ss_schema_version = 1, ss_revision = ss_revision s, ss_content = c\<rparr> = s"
    by (auto simp: is_valid_snapshot_def validate_snapshot_def split: if_splits)
  moreover from this(4) have "ss_content s = c" by (metis study_snapshot.select_convs(3))
  ultimately show "ss_schema_version s = 1" "0 < ss_revision s" "content_wf (ss_content s)"
    by (auto dest: validate_content_wf)
qed

lemma content_wf_json: "content_wf c \<Longrightarrow> json_encodable (content_json c)"
  by (auto simp: content_wf_def content_json_def persona_json_def list_all_iff utf8_ascii
      public_slug_encodable split: option.splits)

lemma canonical_bytes_total:
  assumes "is_valid_snapshot E s"
  obtains b where "canonical_bytes s = Inr b"
proof -
  have "json_encodable (snapshot_json s)"
    using is_valid_snapshotD(3) [OF assms]
    by (simp add: snapshot_json_def content_wf_json utf8_ascii)
  then have "encodable (dumps (snapshot_json s))" by (rule encodable_dumps)
  then show thesis
    using that by (auto simp: canonical_bytes_def dumps_utf8_def elim: encodable_obtain)
qed

lemma snapshot_digest_total:
  assumes "is_valid_snapshot E s"
  obtains d where "snapshot_digest E s = Inr d"
  using canonical_bytes_total [OF assms] that by (auto simp: snapshot_digest_def)

subsection \<open>Canonical bytes determine the snapshot\<close>

lemma persona_json_inj: "persona_json p = persona_json q \<Longrightarrow> p = q"
  by (auto simp: persona_json_def split: option.splits)

lemma content_json_inj: "content_json c = content_json d \<Longrightarrow> c = d"
  by (cases c; cases d) (auto simp: content_json_def inj_map_eq_map inj_def dest: persona_json_inj)

lemma snapshot_json_inj: "snapshot_json s = snapshot_json t \<Longrightarrow> s = t"
  by (cases s; cases t) (auto simp: snapshot_json_def dest: content_json_inj)

lemma canonical_bytes_inj: "canonical_bytes s = Inr b \<Longrightarrow> canonical_bytes t = Inr b \<Longrightarrow> s = t"
  unfolding canonical_bytes_def by (blast dest: dumps_utf8_inj snapshot_json_inj)

lemma decode_snapshot_Inr:
  "decode_snapshot E payload d = Inr s \<Longrightarrow> sha256 E payload = d \<and> canonical_bytes s = Inr payload"
  by (auto simp: decode_snapshot_def split: if_splits option.splits sum.splits prod.splits)

lemma decode_snapshot_Inl: "decode_snapshot E payload d = Inl e \<Longrightarrow> e = invalid_package"
  by (auto simp: decode_snapshot_def split: if_splits option.splits sum.splits prod.splits)

subsection \<open>The models read back what they dump\<close>

lemma read_texts_map [simp]: "read_texts (map JStr ss) = Some ss"
  by (induction ss) auto

lemma structured_persona_json [simp]: "structured_persona (persona_json p) = Some p"
  by (cases p) (simp_all add: persona_json_def only_fields_def read_field_def)

lemma structured_content_json [simp]: "structured_content (content_json c) = Some c"
  by (simp add: content_json_def content_fields_def only_fields_def read_field_def)

lemma structured_snapshot_json [simp]: "structured_snapshot (snapshot_json s) = Some s"
  by (simp add: snapshot_json_def only_fields_def read_field_def)

text \<open>
  The documented behaviour of \<^verbatim>\<open>json.loads\<close>: it gives back what \<^verbatim>\<open>json.dumps\<close> wrote, provided
  no object repeats a key.  The law is stated for the bytes at hand.
\<close>

fun json_keys_distinct :: "json \<Rightarrow> bool" where
  "json_keys_distinct (JArr js) = list_all json_keys_distinct js"
| "json_keys_distinct (JObj kvs) =
     (distinct (map fst kvs) \<and> list_all (\<lambda>(k, j). json_keys_distinct j) kvs)"
| "json_keys_distinct _ = True"

definition reads_dumped :: "pub_env \<Rightarrow> nat list \<Rightarrow> bool" where
  "reads_dumped E b \<longleftrightarrow> (\<forall>j. json_keys_distinct j \<longrightarrow> dumps_utf8 j = Inr b \<longrightarrow> json_load E b = Some j)"

lemma snapshot_json_keys_distinct: "json_keys_distinct (snapshot_json s)"
  by (auto simp: snapshot_json_def content_json_def persona_json_def list_all_iff split: option.splits)

lemma reads_dumped_snapshot:
  assumes "reads_dumped E b" "canonical_bytes s = Inr b"
  shows "load_snapshot E b = Some s"
  using assms snapshot_json_keys_distinct [of s]
  by (simp add: reads_dumped_def canonical_bytes_def load_snapshot_def)

lemma reads_dumped_snapshotI:
  assumes "canonical_bytes s = Inr b" "json_load E b = Some (snapshot_json s)"
  shows "reads_dumped E b"
  using assms by (auto simp: reads_dumped_def canonical_bytes_def dest: dumps_utf8_inj)

text \<open>A snapshot is read back from its canonical bytes, and nothing else is read from them.\<close>

lemma decode_snapshot_unique:
  "canonical_bytes s = Inr b \<Longrightarrow> decode_snapshot E b d = Inr t \<Longrightarrow> t = s"
  by (blast dest: decode_snapshot_Inr canonical_bytes_inj)

lemma decode_snapshot_canonical:
  assumes "is_valid_snapshot E s" "canonical_bytes s = Inr b" "load_snapshot E b = Some s"
  shows "decode_snapshot E b (sha256 E b) = Inr s"
  using assms by (simp add: decode_snapshot_def is_valid_snapshot_def)

subsection \<open>Normalisation is idempotent\<close>

text \<open>
  The laws of NFC the source relies on: it is idempotent, it introduces neither white space
  at the ends nor a carriage return.
\<close>

definition nfc_lawful :: "(pystr \<Rightarrow> pystr) \<Rightarrow> bool" where
  "nfc_lawful f \<longleftrightarrow>
     (\<forall>s. f (f s) = f s) \<and> (\<forall>s. strip s = s \<longrightarrow> strip (f s) = f s)
     \<and> (\<forall>s. 13 \<notin> set s \<longrightarrow> 13 \<notin> set (f s))"

lemma replace_crlf_id: "13 \<notin> set s \<Longrightarrow> replace_crlf s = s"
  by (induction s rule: replace_crlf.induct) auto

lemma replace_cr_id: "13 \<notin> set s \<Longrightarrow> replace_cr s = s"
  by (induction s) (auto simp: replace_cr_def)

lemma replace_cr_free: "13 \<notin> set (replace_cr s)"
  by (auto simp: replace_cr_def)

lemma replace_crlf_hd: "s \<noteq> [] \<Longrightarrow> hd s \<noteq> 13 \<Longrightarrow> replace_crlf s \<noteq> [] \<and> hd (replace_crlf s) = hd s"
  by (cases s rule: replace_crlf.cases) auto

lemma replace_crlf_last: "s \<noteq> [] \<Longrightarrow> last s \<notin> {10, 13} \<Longrightarrow> replace_crlf s \<noteq> [] \<and> last (replace_crlf s) = last s"
  by (induction s rule: replace_crlf.induct) (auto split: if_splits)

lemma replace_cr_hd: "s \<noteq> [] \<Longrightarrow> hd s \<noteq> 13 \<Longrightarrow> hd (replace_cr s) = hd s"
  by (cases s) (auto simp: replace_cr_def)

lemma replace_cr_last: "s \<noteq> [] \<Longrightarrow> last s \<noteq> 13 \<Longrightarrow> last (replace_cr s) = last s"
  by (cases s rule: rev_cases) (auto simp: replace_cr_def)

lemma py_isspace_newlines: "py_isspace 10" "py_isspace 13"
  by (simp_all add: py_isspace_def)

lemma strip_newlines_fixed: "strip (replace_cr (replace_crlf (strip v))) = replace_cr (replace_crlf (strip v))"
proof (cases "strip v = []")
  case True
  moreover have "strip [] = []" by (simp add: strip_Nil_iff)
  ultimately show ?thesis by (simp add: replace_cr_def)
next
  case False
  define s where "s = strip v"
  have h: "\<not> py_isspace (hd s)" and l: "\<not> py_isspace (last s)"
    using False by (simp_all add: s_def strip_hd strip_last)
  have ne: "s \<noteq> []" using False by (simp add: s_def)
  have "hd s \<noteq> 13" "last s \<notin> {10, 13}"
    using h l py_isspace_newlines by auto
  with ne have "replace_crlf s \<noteq> [] \<and> hd (replace_crlf s) = hd s" "last (replace_crlf s) = last s"
    by (auto dest: replace_crlf_hd replace_crlf_last)
  with \<open>hd s \<noteq> 13\<close> \<open>last s \<notin> {10, 13}\<close> h l show ?thesis
    by (fold s_def, intro strip_id) (simp_all add: replace_cr_hd replace_cr_last, simp add: replace_cr_def)
qed

lemma normalize_text_idem:
  assumes "nfc_lawful (nfc E)" "normalize_public_text E v = Inr n"
  shows "normalize_public_text E n = Inr n"
proof -
  let ?w = "replace_cr (replace_crlf (strip v))"
  from assms(2) have n: "n = nfc E ?w" "n \<noteq> []" "encodable n"
    by (auto simp: normalize_public_text_def Let_def split: if_splits)
  from assms(1) n(1) have "strip n = n" "13 \<notin> set n" "nfc E n = n"
    by (auto simp: nfc_lawful_def strip_newlines_fixed replace_cr_free)
  with n(2,3) show ?thesis
    by (simp add: normalize_public_text_def replace_crlf_id replace_cr_id)
qed

lemma normalize_slug_idem:
  "nfc_lawful (nfc E) \<Longrightarrow> normalize_public_slug E v = Inr n \<Longrightarrow> normalize_public_slug E n = Inr n"
  by (auto simp: normalize_public_slug_def normalize_text_idem split: if_splits)

lemma mapr_fixed: "(\<forall>x \<in> set xs. f x = Inr x) \<Longrightarrow> mapr f xs = Inr xs"
  by (induction xs) auto

lemma normalize_topics_idem:
  assumes "nfc_lawful (nfc E)" "normalize_topics E vs = Inr ns"
  shows "normalize_topics E ns = Inr ns"
proof -
  from assms(2) have m: "mapr (normalize_public_slug E) vs = Inr ns" and ok: "ns \<noteq> []" "distinct ns"
    by (auto simp: normalize_topics_def split: if_splits)
  have "mapr (normalize_public_slug E) ns = Inr ns"
    by (rule mapr_fixed) (auto simp: mapr_set [OF m] normalize_slug_idem [OF assms(1)])
  with ok show ?thesis by (simp add: normalize_topics_def)
qed

lemma validate_persona_option_idem:
  "nfc_lawful (nfc E) \<Longrightarrow> validate_persona_option E p = Inr q \<Longrightarrow> validate_persona_option E q = Inr q"
  by (auto simp: validate_persona_option_def validate_persona_def normalize_slug_idem
      normalize_text_idem split: option.splits)

lemma validate_content_idem:
  "nfc_lawful (nfc E) \<Longrightarrow> validate_content E c = Inr c' \<Longrightarrow> validate_content E c' = Inr c'"
  by (auto simp: validate_content_def normalize_slug_idem normalize_text_idem
      normalize_topics_idem validate_persona_option_idem)

lemma new_snapshot_valid:
  assumes "nfc_lawful (nfc E)" "validate_content E c = Inr c'" "new_snapshot r c' = Inr s"
  shows "is_valid_snapshot E s"
  using assms validate_content_idem [OF assms(1,2)]
  by (auto simp: new_snapshot_def is_valid_snapshot_def validate_snapshot_def split: if_splits)

text \<open>What the decoder accepts is valid: it was validated when it was read.\<close>

lemma decode_snapshot_valid:
  assumes "nfc_lawful (nfc E)" "decode_snapshot E b d = Inr s"
  shows "is_valid_snapshot E s"
proof -
  from assms(2) obtain raw where "validate_snapshot E raw = Inr s"
    by (auto simp: decode_snapshot_def split: if_splits option.splits sum.splits prod.splits)
  with validate_content_idem [OF assms(1)] show ?thesis
    by (auto simp: is_valid_snapshot_def validate_snapshot_def split: if_splits)
qed

end
