(* ===== verification/Publishing_Domain.thy ===== *)
theory Publishing_Domain
  imports Publishing_Package
begin

text \<open>
  Drafts and commands (\<^verbatim>\<open>platform/publishing/domain.py\<close>) and the public projection of one
  study (\<^verbatim>\<open>platform/publishing/projection.py\<close>).  A dataclass with a \<^verbatim>\<open>__post_init__\<close> check
  becomes a record, a boolean check and a constructor \<open>new_...\<close> that fails where the check
  raises; \<^verbatim>\<open>dataclasses.replace\<close> runs the constructor again.
\<close>

section \<open>Commands\<close>

datatype pub_action = PUBLISH | WITHDRAW

record pub_command =
  pc_slug :: pystr
  pc_sequence :: int
  pc_request_id :: pystr
  pc_action :: pub_action
  pc_snapshot :: "study_snapshot option"
  pc_digest :: "pystr option"

abbreviation invalid_command :: exn where
  "invalid_command \<equiv> AppError ''publishing_command_invalid'' 422"

definition command_ok :: "pub_env \<Rightarrow> pub_command \<Rightarrow> bool" where
  "command_ok E c \<longleftrightarrow>
     is_public_slug (pc_slug c) \<and> \<not> pc_sequence c < 1 \<and> strip (pc_request_id c) \<noteq> []
     \<and> (case pc_action c of
          PUBLISH \<Rightarrow>
            (case (pc_snapshot c, pc_digest c) of
               (Some s, Some d) \<Rightarrow>
                 is_valid_snapshot E s \<and> pc_slug c = sc_slug (ss_content s)
                 \<and> snapshot_digest E s = Inr d
             | _ \<Rightarrow> False)
        | WITHDRAW \<Rightarrow> pc_snapshot c = None \<and> pc_digest c = None)"

definition new_command :: "pub_env \<Rightarrow> pub_command \<Rightarrow> pub_command res" where
  "new_command E c = (if command_ok E c then Inr c else Inl invalid_command)"

section \<open>Drafts\<close>

record pub_draft =
  pd_snapshot :: study_snapshot
  pd_approved :: "pystr option"
  pd_sequence :: int

abbreviation invalid_draft :: exn where
  "invalid_draft \<equiv> AppError ''publishing_draft_invalid'' 422"

abbreviation revision_conflict :: exn where
  "revision_conflict \<equiv> AppError ''publishing_revision_conflict'' 409"

abbreviation digest_conflict :: exn where
  "digest_conflict \<equiv> AppError ''publishing_digest_conflict'' 409"

abbreviation slug_conflict :: exn where
  "slug_conflict \<equiv> AppError ''publishing_slug_conflict'' 409"

abbreviation approval_required :: exn where
  "approval_required \<equiv> AppError ''publishing_approval_required'' 409"

definition draft_ok :: "pub_env \<Rightarrow> pub_draft \<Rightarrow> bool" where
  "draft_ok E d \<longleftrightarrow>
     is_valid_snapshot E (pd_snapshot d) \<and> \<not> pd_sequence d < 0
     \<and> (case pd_approved d of None \<Rightarrow> True
        | Some a \<Rightarrow> snapshot_digest E (pd_snapshot d) = Inr a)"

definition new_draft :: "pub_env \<Rightarrow> pub_draft \<Rightarrow> pub_draft res" where
  "new_draft E d = (if draft_ok E d then Inr d else Inl invalid_draft)"

definition draft_revise :: "pub_env \<Rightarrow> pub_draft \<Rightarrow> study_content \<Rightarrow> int \<Rightarrow> pub_draft res" where
  "draft_revise E d content expected_revision =
     (if expected_revision \<noteq> ss_revision (pd_snapshot d) then Inl revision_conflict
      else if sc_slug content \<noteq> sc_slug (ss_content (pd_snapshot d)) then Inl slug_conflict
      else rbind (new_snapshot (ss_revision (pd_snapshot d) + 1) content) (\<lambda>s.
        new_draft E (d\<lparr>pd_snapshot := s, pd_approved := None\<rparr>)))"

definition draft_approve :: "pub_env \<Rightarrow> pub_draft \<Rightarrow> int \<Rightarrow> pystr \<Rightarrow> pub_draft res" where
  "draft_approve E d expected_revision expected_digest =
     (if expected_revision \<noteq> ss_revision (pd_snapshot d) then Inl revision_conflict
      else rbind (snapshot_digest E (pd_snapshot d)) (\<lambda>digest.
        if expected_digest \<noteq> digest then Inl digest_conflict
        else new_draft E (d\<lparr>pd_approved := Some expected_digest\<rparr>)))"

definition draft_publish ::
  "pub_env \<Rightarrow> pub_draft \<Rightarrow> pystr \<Rightarrow> (pub_draft \<times> pub_command) res" where
  "draft_publish E d request_id =
     rbind (snapshot_digest E (pd_snapshot d)) (\<lambda>digest.
       if pd_approved d \<noteq> Some digest then Inl approval_required
       else rbind (new_command E
           \<lparr>pc_slug = sc_slug (ss_content (pd_snapshot d)),
            pc_sequence = pd_sequence d + 1,
            pc_request_id = request_id,
            pc_action = PUBLISH,
            pc_snapshot = Some (pd_snapshot d),
            pc_digest = Some digest\<rparr>) (\<lambda>command.
         rbind (new_draft E (d\<lparr>pd_sequence := pd_sequence d + 1\<rparr>)) (\<lambda>d'.
           Inr (d', command))))"

definition draft_withdraw ::
  "pub_env \<Rightarrow> pub_draft \<Rightarrow> pystr \<Rightarrow> (pub_draft \<times> pub_command) res" where
  "draft_withdraw E d request_id =
     rbind (new_command E
         \<lparr>pc_slug = sc_slug (ss_content (pd_snapshot d)),
          pc_sequence = pd_sequence d + 1,
          pc_request_id = request_id,
          pc_action = WITHDRAW,
          pc_snapshot = None,
          pc_digest = None\<rparr>) (\<lambda>command.
       rbind (new_draft E (d\<lparr>pd_approved := None, pd_sequence := pd_sequence d + 1\<rparr>)) (\<lambda>d'.
         Inr (d', command)))"

section \<open>The projection of one public study\<close>

record pub_projection =
  pj_slug :: pystr
  pj_sequence :: int
  pj_last :: "pub_command option"
  pj_snapshot :: "study_snapshot option"

abbreviation invalid_projection :: exn where
  "invalid_projection \<equiv> AppError ''publishing_projection_invalid'' 422"

abbreviation command_conflict :: exn where
  "command_conflict \<equiv> AppError ''publishing_command_conflict'' 409"

abbreviation not_found :: exn where
  "not_found \<equiv> AppError ''not_found'' 404"

definition projection_ok :: "pub_env \<Rightarrow> pub_projection \<Rightarrow> bool" where
  "projection_ok E p \<longleftrightarrow>
     is_public_slug (pj_slug p) \<and> \<not> pj_sequence p < 0
     \<and> (if pj_sequence p = 0 then pj_last p = None \<and> pj_snapshot p = None
        else (case pj_last p of
            None \<Rightarrow> False
          | Some l \<Rightarrow>
              command_ok E l \<and> pc_slug l = pj_slug p \<and> pc_sequence l = pj_sequence p
              \<and> (case pc_action l of
                   PUBLISH \<Rightarrow> pj_snapshot p \<noteq> None \<and> pj_snapshot p = pc_snapshot l
                 | WITHDRAW \<Rightarrow> pj_snapshot p = None)))"

definition new_projection :: "pub_env \<Rightarrow> pub_projection \<Rightarrow> pub_projection res" where
  "new_projection E p = (if projection_ok E p then Inr p else Inl invalid_projection)"

definition empty_projection :: "pystr \<Rightarrow> pub_projection" where
  "empty_projection slug =
     \<lparr>pj_slug = slug, pj_sequence = 0, pj_last = None, pj_snapshot = None\<rparr>"

definition projection_apply ::
  "pub_env \<Rightarrow> pub_projection \<Rightarrow> pub_command \<Rightarrow> pub_projection res" where
  "projection_apply E p c =
     (if \<not> projection_ok E p \<or> \<not> command_ok E c then Inl command_conflict
      else if pc_slug c \<noteq> pj_slug p \<or> pc_sequence c < pj_sequence p then Inl command_conflict
      else if pc_sequence c = pj_sequence p then
        (if pj_last p = Some c then Inr p else Inl command_conflict)
      else if (case pj_last p of None \<Rightarrow> False
               | Some l \<Rightarrow> pc_request_id c = pc_request_id l \<and> c \<noteq> l) then Inl command_conflict
      else new_projection E
        (p\<lparr>pj_sequence := pc_sequence c, pj_last := Some c,
           pj_snapshot := (case pc_action c of PUBLISH \<Rightarrow> pc_snapshot c | WITHDRAW \<Rightarrow> None)\<rparr>))"

definition projection_read :: "pub_env \<Rightarrow> pub_projection \<Rightarrow> study_snapshot res" where
  "projection_read E p =
     (if \<not> projection_ok E p then Inl not_found
      else case (pj_snapshot p, pj_last p) of
        (Some s, Some l) \<Rightarrow>
          (case pc_digest l of
             None \<Rightarrow> Inl not_found
           | Some d \<Rightarrow>
               recover is_app_error not_found
                 (rbind (canonical_bytes s) (\<lambda>b. decode_snapshot E b d)))
      | _ \<Rightarrow> Inl not_found)"

section \<open>Facts about commands and drafts\<close>

lemma new_command_Inr [simp]: "new_command E c = Inr c' \<longleftrightarrow> command_ok E c \<and> c' = c"
  by (auto simp: new_command_def)

lemma new_draft_Inr [simp]: "new_draft E d = Inr d' \<longleftrightarrow> draft_ok E d \<and> d' = d"
  by (auto simp: new_draft_def)

lemma new_projection_Inr [simp]: "new_projection E p = Inr p' \<longleftrightarrow> projection_ok E p \<and> p' = p"
  by (auto simp: new_projection_def)

lemma command_ok_publish:
  assumes "command_ok E c" "pc_action c = PUBLISH"
  obtains s d where "pc_snapshot c = Some s" "pc_digest c = Some d" "is_valid_snapshot E s"
    "pc_slug c = sc_slug (ss_content s)" "snapshot_digest E s = Inr d"
  using assms by (auto simp: command_ok_def split: option.splits)

lemma command_ok_withdraw:
  "command_ok E c \<Longrightarrow> pc_action c = WITHDRAW \<Longrightarrow> pc_snapshot c = None \<and> pc_digest c = None"
  by (auto simp: command_ok_def)

lemma command_ok_basic:
  "command_ok E c \<Longrightarrow> is_public_slug (pc_slug c) \<and> 1 \<le> pc_sequence c \<and> strip (pc_request_id c) \<noteq> []"
  by (auto simp: command_ok_def)

lemma draft_publish_Inr:
  assumes "draft_publish E d rid = Inr (d', c)"
  shows "draft_ok E d'" "command_ok E c"
    and "pd_snapshot d' = pd_snapshot d" "pd_sequence d' = pd_sequence d + 1"
    and "pd_approved d' = pd_approved d"
    and "pc_snapshot c = Some (pd_snapshot d)" "pc_digest c = pd_approved d" "pc_action c = PUBLISH"
    and "pc_slug c = sc_slug (ss_content (pd_snapshot d))"
    and "pc_sequence c = pd_sequence d + 1" "pc_request_id c = rid"
  using assms by (auto simp: draft_publish_def split: if_splits)

lemma draft_withdraw_Inr:
  assumes "draft_withdraw E d rid = Inr (d', c)"
  shows "draft_ok E d'" "command_ok E c"
    and "pd_snapshot d' = pd_snapshot d" "pd_sequence d' = pd_sequence d + 1" "pd_approved d' = None"
    and "pc_snapshot c = None" "pc_digest c = None" "pc_action c = WITHDRAW"
    and "pc_slug c = sc_slug (ss_content (pd_snapshot d))"
    and "pc_sequence c = pd_sequence d + 1" "pc_request_id c = rid"
  using assms by (auto simp: draft_withdraw_def)

lemma draft_revise_Inr:
  assumes "draft_revise E d content r = Inr d'"
  shows "draft_ok E d'" "pd_approved d' = None" "pd_sequence d' = pd_sequence d"
    and "ss_revision (pd_snapshot d') = ss_revision (pd_snapshot d) + 1"
    and "ss_content (pd_snapshot d') = content"
    and "sc_slug content = sc_slug (ss_content (pd_snapshot d))"
    and "r = ss_revision (pd_snapshot d)"
  using assms by (auto simp: draft_revise_def new_snapshot_def split: if_splits)

lemma draft_approve_Inr:
  "draft_approve E d r a = Inr d' \<longleftrightarrow>
     r = ss_revision (pd_snapshot d) \<and> snapshot_digest E (pd_snapshot d) = Inr a
     \<and> is_valid_snapshot E (pd_snapshot d) \<and> \<not> pd_sequence d < 0 \<and> d' = d\<lparr>pd_approved := Some a\<rparr>"
  by (auto simp: draft_approve_def draft_ok_def split: if_splits)

text \<open>An unapproved draft cannot be published, whatever the request.\<close>

lemma unapproved_not_published:
  "draft_ok E d \<Longrightarrow> pd_approved d = None \<Longrightarrow> draft_publish E d rid = Inl approval_required"
  by (auto simp: draft_publish_def draft_ok_def elim: snapshot_digest_total)

section \<open>Facts about projections\<close>

lemma empty_projection_ok [simp]: "projection_ok E (empty_projection slug) \<longleftrightarrow> is_public_slug slug"
  by (simp add: projection_ok_def empty_projection_def)

lemma empty_projection_sel [simp]:
  "pj_slug (empty_projection slug) = slug" "pj_sequence (empty_projection slug) = 0"
  "pj_last (empty_projection slug) = None" "pj_snapshot (empty_projection slug) = None"
  by (simp_all add: empty_projection_def)

lemma projection_apply_preserves:
  "projection_apply E p c = Inr p' \<Longrightarrow> projection_ok E p'"
  by (auto simp: projection_apply_def split: if_splits option.splits)

text \<open>The projection a command leaves, in full.\<close>

definition projection_of :: "pub_command \<Rightarrow> pub_projection" where
  "projection_of c =
     \<lparr>pj_slug = pc_slug c, pj_sequence = pc_sequence c, pj_last = Some c,
      pj_snapshot = pc_snapshot c\<rparr>"

lemma projection_of_ok [simp]: "projection_ok E (projection_of c) \<longleftrightarrow> command_ok E c"
  by (auto simp: projection_ok_def projection_of_def command_ok_def split: pub_action.splits option.splits)

lemma projection_of_sel [simp]:
  "pj_slug (projection_of c) = pc_slug c" "pj_sequence (projection_of c) = pc_sequence c"
  "pj_last (projection_of c) = Some c" "pj_snapshot (projection_of c) = pc_snapshot c"
  by (simp_all add: projection_of_def)

lemma projection_ok_last:
  assumes "projection_ok E p" "pj_last p = Some l"
  shows "p = projection_of l" "command_ok E l"
  using assms
  by (cases p, auto simp: projection_ok_def projection_of_def
      split: pub_action.splits if_splits dest: command_ok_withdraw)+

lemma projection_ok_empty:
  assumes "projection_ok E p" "pj_last p = None"
  shows "p = empty_projection (pj_slug p)"
  using assms by (cases p) (auto simp: projection_ok_def empty_projection_def split: if_splits)

lemma projection_apply_Inr:
  "projection_apply E p c = Inr p' \<Longrightarrow> p' = projection_of c \<and> command_ok E c \<and> pj_slug p = pc_slug c
     \<and> pj_sequence p \<le> pc_sequence c"
  by (cases p)
    (auto simp: projection_apply_def projection_of_def projection_ok_def split: if_splits
      option.splits pub_action.splits dest: command_ok_withdraw)

lemma projection_apply_newer:
  assumes "projection_ok E p" "command_ok E c" "pc_slug c = pj_slug p" "pj_sequence p < pc_sequence c"
    and "\<And>l. pj_last p = Some l \<Longrightarrow> pc_request_id c \<noteq> pc_request_id l"
  shows "projection_apply E p c = Inr (projection_of c)"
proof -
  have "p\<lparr>pj_sequence := pc_sequence c, pj_last := Some c,
      pj_snapshot := (case pc_action c of PUBLISH \<Rightarrow> pc_snapshot c | WITHDRAW \<Rightarrow> None)\<rparr> = projection_of c"
    using assms(2,3)
    by (cases p) (auto simp: projection_of_def split: pub_action.splits dest: command_ok_withdraw)
  with assms show ?thesis
    by (auto simp: projection_apply_def new_projection_def split: option.splits)
qed

lemma projection_apply_replay:
  "command_ok E c \<Longrightarrow> projection_apply E (projection_of c) c = Inr (projection_of c)"
  by (simp add: projection_apply_def)

text \<open>Reading returns the snapshot of the last publish command and nothing else.\<close>

lemma projection_read_Inr:
  assumes "projection_read E p = Inr s"
  obtains c where "pj_last p = Some c" "pc_action c = PUBLISH" "pc_snapshot c = Some s"
    "command_ok E c" "pc_sequence c = pj_sequence p" "pc_slug c = pj_slug p"
proof -
  from assms obtain t l d b where p: "projection_ok E p" "pj_snapshot p = Some t" "pj_last p = Some l"
    "pc_digest l = Some d" and b: "canonical_bytes t = Inr b" "decode_snapshot E b d = Inr s"
    by (auto simp: projection_read_def split: if_splits option.splits)
  from b have "s = t" by (rule decode_snapshot_unique)
  moreover from projection_ok_last [OF p(1,3)] have "p = projection_of l" "command_ok E l" .
  moreover from this p(2,4) have "pc_action l = PUBLISH"
    by (cases "pc_action l") (auto dest: command_ok_withdraw)
  ultimately show thesis using that [of l] p by auto
qed

end
