(* ===== verification/Public_Store.thy ===== *)
theory Public_Store
  imports Publishing_Domain
begin

text \<open>
  The public study store (\<^verbatim>\<open>platform/publishing/public_store.py\<close>): the SQLite tables, the
  writer that applies publication commands, and the reader.  A transaction is a function from
  the tables to an error or the new tables: an error is a rollback.  The contract the delivery
  side relies on is the locale \<open>publication_sink\<close>, interpreted on the writer.
\<close>

section \<open>Tables\<close>

record projection_row =
  jr_slug :: pystr
  jr_sequence :: int
  jr_request_id :: pystr
  jr_action :: pub_action
  jr_payload :: "nat list option"
  jr_digest :: "pystr option"

record public_db =
  db_projections :: "projection_row list"
  db_topics :: "(pystr \<times> pystr) list"
  db_history :: "(pystr \<times> pystr) list"

definition empty_public_db :: public_db where
  "empty_public_db = \<lparr>db_projections = [], db_topics = [], db_history = []\<rparr>"

record receipt =
  rc_slug :: pystr
  rc_sequence :: int
  rc_request_id :: pystr
  rc_action :: pub_action

definition receipt_of :: "pub_command \<Rightarrow> receipt" where
  "receipt_of c =
     \<lparr>rc_slug = pc_slug c, rc_sequence = pc_sequence c, rc_request_id = pc_request_id c,
      rc_action = pc_action c\<rparr>"

abbreviation store_unavailable :: exn where
  "store_unavailable \<equiv> AppError ''publishing_store_unavailable'' 503"

section \<open>Writing\<close>

fun action_value :: "pub_action \<Rightarrow> pystr" where
  "action_value PUBLISH = lit ''publish''"
| "action_value WITHDRAW = lit ''withdraw''"

definition validated_command :: "pub_env \<Rightarrow> pub_command \<Rightarrow> pub_command res" where
  "validated_command E c = recover (\<lambda>e. is_app_error e \<or> is_value_error e) command_conflict
     (rbind (new_command E c) (\<lambda>v.
      rbind (utf8_encode (pc_request_id v)) (\<lambda>_.
      rbind (new_projection E (empty_projection (pc_slug v))) (\<lambda>p.
      rbind (projection_apply E p v) (\<lambda>_. Inr v)))))"

definition command_fingerprint :: "pub_env \<Rightarrow> pub_command \<Rightarrow> pystr res" where
  "command_fingerprint E c =
     rbind (dumps_utf8 (JObj
       [(lit ''action'', JStr (action_value (pc_action c))),
        (lit ''digest'', (case pc_digest c of None \<Rightarrow> JNull | Some d \<Rightarrow> JStr d)),
        (lit ''request_id'', JStr (pc_request_id c)),
        (lit ''sequence'', JInt (pc_sequence c)),
        (lit ''slug'', JStr (pc_slug c))])) (\<lambda>b. Inr (sha256 E b))"

definition load_projection :: "pub_env \<Rightarrow> public_db \<Rightarrow> pystr \<Rightarrow> pub_projection res" where
  "load_projection E db slug =
     (case row_by jr_slug slug (db_projections db) of
        None \<Rightarrow> new_projection E (empty_projection slug)
      | Some r \<Rightarrow> recover (\<lambda>e. is_app_error e \<or> is_value_error e) store_unavailable
          (rbind (case jr_action r of
                    PUBLISH \<Rightarrow>
                      (case (jr_payload r, jr_digest r) of
                         (Some b, Some d) \<Rightarrow>
                           rbind (decode_snapshot E b d) (\<lambda>s.
                             if sc_slug (ss_content s) \<noteq> slug then Inl store_unavailable
                             else Inr (Some s))
                       | _ \<Rightarrow> Inl store_unavailable)
                  | WITHDRAW \<Rightarrow>
                      if jr_payload r \<noteq> None \<or> jr_digest r \<noteq> None then Inl store_unavailable
                      else Inr None) (\<lambda>snapshot.
           rbind (new_command E
               \<lparr>pc_slug = slug, pc_sequence = jr_sequence r, pc_request_id = jr_request_id r,
                pc_action = jr_action r, pc_snapshot = snapshot, pc_digest = jr_digest r\<rparr>) (\<lambda>last.
           new_projection E
             \<lparr>pj_slug = slug, pj_sequence = jr_sequence r, pj_last = Some last,
              pj_snapshot = snapshot\<rparr>))))"

text \<open>The \<^verbatim>\<open>CHECK\<close> constraints of \<^verbatim>\<open>public_study_projections\<close>.\<close>

definition projection_row_ok :: "projection_row \<Rightarrow> bool" where
  "projection_row_ok r \<longleftrightarrow>
     0 < jr_sequence r
     \<and> (case jr_action r of
          PUBLISH \<Rightarrow> jr_payload r \<noteq> None \<and> jr_digest r \<noteq> None
        | WITHDRAW \<Rightarrow> jr_payload r = None \<and> jr_digest r = None)"

text \<open>\<^verbatim>\<open>INSERT ... ON CONFLICT(slug) DO UPDATE\<close>.\<close>

definition upsert_projection :: "projection_row \<Rightarrow> projection_row list \<Rightarrow> projection_row list" where
  "upsert_projection r rows =
     (if row_by jr_slug (jr_slug r) rows = None then rows @ [r] else put_row jr_slug r rows)"

text \<open>
  The statements of the transaction after the checks; a constraint violation is a
  \<^verbatim>\<open>sqlite3.Error\<close>, which the writer reports as an unavailable store.
\<close>

definition store_write ::
  "public_db \<Rightarrow> projection_row \<Rightarrow> pystr list \<Rightarrow> pystr \<Rightarrow> public_db res" where
  "store_write db r topics fp =
     (if \<not> projection_row_ok r \<or> \<not> distinct topics then Inl store_unavailable
      else Inr
        \<lparr>db_projections = upsert_projection r (db_projections db),
         db_topics = filter (\<lambda>t. fst t \<noteq> jr_slug r) (db_topics db) @ map (Pair (jr_slug r)) topics,
         db_history = db_history db @ [(jr_request_id r, fp)]\<rparr>)"

definition payload_of :: "study_snapshot option \<Rightarrow> nat list option res" where
  "payload_of so =
     (case so of None \<Rightarrow> Inr None | Some s \<Rightarrow> rbind (canonical_bytes s) (\<lambda>b. Inr (Some b)))"

definition writer_apply ::
  "pub_env \<Rightarrow> public_db \<Rightarrow> pub_command \<Rightarrow> (public_db \<times> receipt) res" where
  "writer_apply E db c =
     rbind (validated_command E c) (\<lambda>v.
     rbind (command_fingerprint E v) (\<lambda>fp.
       case row_by fst (pc_request_id v) (db_history db) of
         Some (_, previous) \<Rightarrow>
           if previous = fp then Inr (db, receipt_of v) else Inl command_conflict
       | None \<Rightarrow>
           rbind (load_projection E db (pc_slug v)) (\<lambda>current.
           rbind (projection_apply E current v) (\<lambda>updated.
           rbind (recover is_value_error store_unavailable (payload_of (pj_snapshot updated)))
             (\<lambda>payload.
           rbind (store_write db
               \<lparr>jr_slug = pc_slug v, jr_sequence = pc_sequence v,
                jr_request_id = pc_request_id v, jr_action = pc_action v,
                jr_payload = payload, jr_digest = pc_digest v\<rparr>
               (case pj_snapshot updated of None \<Rightarrow> [] | Some s \<Rightarrow> sc_topic_keys (ss_content s)) fp)
             (\<lambda>db'. Inr (db', receipt_of v)))))))"

section \<open>Reading\<close>

definition decode_row :: "pub_env \<Rightarrow> projection_row \<Rightarrow> study_snapshot option" where
  "decode_row E r =
     (case (jr_payload r, jr_digest r) of
        (Some b, Some d) \<Rightarrow>
          (case decode_snapshot E b d of
             Inl _ \<Rightarrow> None
           | Inr s \<Rightarrow> if sc_slug (ss_content s) \<noteq> jr_slug r then None else Some s)
      | _ \<Rightarrow> None)"

definition reader_get :: "pub_env \<Rightarrow> public_db \<Rightarrow> pystr \<Rightarrow> study_snapshot res" where
  "reader_get E db slug =
     (if \<not> is_public_slug slug then Inl not_found
      else case List.find (\<lambda>r. jr_slug r = slug \<and> jr_action r = PUBLISH) (db_projections db) of
        None \<Rightarrow> Inl not_found
      | Some r \<Rightarrow> (case decode_row E r of None \<Rightarrow> Inl not_found | Some s \<Rightarrow> Inr s))"

definition published_rows :: "public_db \<Rightarrow> pystr option \<Rightarrow> projection_row list" where
  "published_rows db topic =
     sort_key jr_slug
       (filter (\<lambda>r. jr_action r = PUBLISH
            \<and> (case topic of None \<Rightarrow> True | Some t \<Rightarrow> (jr_slug r, t) \<in> set (db_topics db)))
          (db_projections db))"

definition list_published :: "pub_env \<Rightarrow> public_db \<Rightarrow> pystr option \<Rightarrow> study_snapshot list" where
  "list_published E db topic =
     (if (case topic of None \<Rightarrow> False | Some t \<Rightarrow> \<not> is_public_slug t) then []
      else filter (\<lambda>s. case topic of None \<Rightarrow> True | Some t \<Rightarrow> t \<in> set (sc_topic_keys (ss_content s)))
        (List.map_filter (decode_row E) (published_rows db topic)))"

record catalog =
  ct_items :: "study_snapshot list"
  ct_total :: nat
  ct_page :: int
  ct_total_pages :: nat
  ct_topics :: "(pystr \<times> nat) list"

definition catalog_page_size :: nat where
  "catalog_page_size = 12"

definition topic_counts :: "public_db \<Rightarrow> (pystr \<times> nat) list" where
  "topic_counts db =
     (let published = map jr_slug (filter (\<lambda>r. jr_action r = PUBLISH) (db_projections db));
          joined = filter (\<lambda>t. fst t \<in> set published) (db_topics db)
      in map (\<lambda>k. (k, length (remdups (map fst (filter (\<lambda>t. snd t = k) joined)))))
           (sort (remdups (map snd joined))))"

definition catalog_item :: "pub_env \<Rightarrow> public_db \<Rightarrow> projection_row \<Rightarrow> study_snapshot res" where
  "catalog_item E db r =
     (case decode_row E r of
        None \<Rightarrow> Inl store_unavailable
      | Some s \<Rightarrow>
          if set (map snd (filter (\<lambda>t. fst t = jr_slug r) (db_topics db)))
             \<noteq> set (sc_topic_keys (ss_content s)) then Inl store_unavailable
          else Inr s)"

definition reader_catalog :: "pub_env \<Rightarrow> public_db \<Rightarrow> int \<Rightarrow> pystr option \<Rightarrow> catalog res" where
  "reader_catalog E db page topic =
     (let rows = published_rows db topic;
          total = length rows;
          total_pages = (total + catalog_page_size - 1) div catalog_page_size;
          current = min (max page 1) (max (int total_pages) 1)
      in rbind (mapr (catalog_item E db)
             (take catalog_page_size (drop (nat (current - 1) * catalog_page_size) rows)))
           (\<lambda>items. Inr \<lparr>ct_items = items, ct_total = total, ct_page = current,
              ct_total_pages = total_pages, ct_topics = topic_counts db\<rparr>))"

section \<open>The contract of a publication sink\<close>

text \<open>
  What the delivering side relies on.  \<open>cell db slug\<close> is what the store shows for a slug,
  \<open>cell_of c\<close> what it shows once \<open>c\<close> is applied.
\<close>

locale publication_sink =
  fixes submit :: "'db \<Rightarrow> pub_command \<Rightarrow> ('db \<times> 'r) res"
    and cell :: "'db \<Rightarrow> pystr \<Rightarrow> 'cell option"
    and cell_of :: "pub_command \<Rightarrow> 'cell"
    and cell_seq :: "'cell \<Rightarrow> int"
    and inv :: "'db \<Rightarrow> bool"
  assumes submit_inv: "inv db \<Longrightarrow> submit db c = Inr (db', r) \<Longrightarrow> inv db'"
    and submit_effect: "inv db \<Longrightarrow> submit db c = Inr (db', r) \<Longrightarrow>
      db' = db \<or>
      (cell db' = (cell db)(pc_slug c \<mapsto> cell_of c)
       \<and> (\<forall>x. cell db (pc_slug c) = Some x \<longrightarrow> cell_seq x < pc_sequence c))"
    and submit_replay: "inv db \<Longrightarrow> submit db c = Inr (db', r) \<Longrightarrow> submit db' c = Inr (db', r)"
    and cell_seq_of: "cell_seq (cell_of c) = pc_sequence c"
begin

text \<open>A run of delivery attempts; a refused command leaves the store as it is.\<close>

fun attempts :: "'db \<Rightarrow> pub_command list \<Rightarrow> 'db" where
  "attempts db [] = db"
| "attempts db (c # cs) = attempts (case submit db c of Inl _ \<Rightarrow> db | Inr (db', _) \<Rightarrow> db') cs"

definition seq_at :: "'db \<Rightarrow> pystr \<Rightarrow> int" where
  "seq_at db slug = (case cell db slug of None \<Rightarrow> 0 | Some x \<Rightarrow> cell_seq x)"

lemma attempts_inv: "inv db \<Longrightarrow> inv (attempts db cs)"
  by (induction cs arbitrary: db) (auto split: sum.splits prod.splits dest: submit_inv)

lemma submit_cell_source:
  "inv db \<Longrightarrow> submit db c = Inr (db', r) \<Longrightarrow> cell db' slug = Some x \<Longrightarrow>
     cell db slug = Some x \<or> (slug = pc_slug c \<and> x = cell_of c)"
  by (drule (1) submit_effect) (auto split: if_splits)

lemma attempts_cell_source:
  "inv db \<Longrightarrow> cell (attempts db cs) slug = Some x \<Longrightarrow>
     cell db slug = Some x \<or> (\<exists>c \<in> set cs. pc_slug c = slug \<and> x = cell_of c)"
proof (induction cs arbitrary: db)
  case (Cons c cs)
  show ?case
  proof (cases "submit db c")
    case (Inl e)
    with Cons show ?thesis by auto
  next
    case (Inr p)
    obtain db' r where p: "p = (db', r)" by (cases p)
    with Inr Cons.prems(1) have "inv db'" by (blast intro: submit_inv)
    with Cons Inr p have "cell db' slug = Some x \<or> (\<exists>c \<in> set cs. pc_slug c = slug \<and> x = cell_of c)"
      by auto
    with Cons.prems(1) Inr p show ?thesis by (auto dest: submit_cell_source)
  qed
qed simp

lemma submit_never_forgets:
  assumes "inv db" "submit db c = Inr (db', r)" "cell db slug \<noteq> None"
  shows "cell db' slug \<noteq> None" "seq_at db slug \<le> seq_at db' slug"
  using submit_effect [OF assms(1,2)] assms(3)
  by (cases "slug = pc_slug c"; auto simp: seq_at_def cell_seq_of intro: less_imp_le)+

lemma attempts_mono:
  "inv db \<Longrightarrow> cell db slug \<noteq> None \<Longrightarrow>
     cell (attempts db cs) slug \<noteq> None \<and> seq_at db slug \<le> seq_at (attempts db cs) slug"
proof (induction cs arbitrary: db)
  case (Cons c cs)
  show ?case
  proof (cases "submit db c")
    case (Inl e)
    with Cons show ?thesis by simp
  next
    case (Inr p)
    obtain db' r where p: "p = (db', r)" by (cases p)
    have "inv db'" using Cons.prems(1) Inr p by (blast intro: submit_inv)
    moreover have "cell db' slug \<noteq> None" "seq_at db slug \<le> seq_at db' slug"
      using Cons.prems Inr p by (blast dest: submit_never_forgets)+
    ultimately show ?thesis using Cons.IH [of db'] Inr p by auto
  qed
qed simp

lemma redelivery_is_idle:
  "inv db \<Longrightarrow> submit db c = Inr (db', r) \<Longrightarrow> attempts db (c # c # cs) = attempts db (c # cs)"
  using submit_replay [of db c db' r] by simp

end

section \<open>The SQLite writer meets the contract\<close>

lemma validated_command_Inr:
  "validated_command E c = Inr v \<longleftrightarrow> v = c \<and> command_ok E c \<and> encodable (pc_request_id c)"
proof -
  have "projection_apply E (empty_projection (pc_slug c)) c = Inr (projection_of c)" if "command_ok E c"
    using that command_ok_basic [OF that] by (intro projection_apply_newer) auto
  then show ?thesis
    by (auto simp: validated_command_def utf8_encode_ok_iff [symmetric] dest: command_ok_basic)
qed

lemma validated_command_Inl: "validated_command E c = Inl e \<Longrightarrow> e = command_conflict"
proof -
  have "is_app_error e" if "projection_apply E p c = Inl e" for p c e
    using that by (auto simp: projection_apply_def new_projection_def split: if_splits option.splits)
  moreover have "is_value_error e" if "utf8_encode s = Inl e" for s e
    using that by (induction s) (auto split: option.splits simp: rbind_eq_Inl)
  ultimately show "validated_command E c = Inl e \<Longrightarrow> e = command_conflict"
    by (auto simp: validated_command_def recover_def new_command_def new_projection_def rbind_eq_Inl
        split: sum.splits if_splits)
qed

definition row_of :: "pub_command \<Rightarrow> projection_row" where
  "row_of c =
     \<lparr>jr_slug = pc_slug c, jr_sequence = pc_sequence c, jr_request_id = pc_request_id c,
      jr_action = pc_action c,
      jr_payload = (case payload_of (pc_snapshot c) of Inr p \<Rightarrow> p | Inl _ \<Rightarrow> None),
      jr_digest = pc_digest c\<rparr>"

lemma row_of_sel [simp]:
  "jr_slug (row_of c) = pc_slug c" "jr_sequence (row_of c) = pc_sequence c"
  "jr_request_id (row_of c) = pc_request_id c" "jr_action (row_of c) = pc_action c"
  "jr_digest (row_of c) = pc_digest c"
  by (simp_all add: row_of_def)

definition topics_of :: "pub_command \<Rightarrow> pystr list" where
  "topics_of c = (case pc_snapshot c of None \<Rightarrow> [] | Some s \<Rightarrow> sc_topic_keys (ss_content s))"

lemma command_ok_payload:
  assumes "command_ok E c"
  obtains p where "payload_of (pc_snapshot c) = Inr p"
    "pc_action c = PUBLISH \<longleftrightarrow> p \<noteq> None" "pc_action c = PUBLISH \<longleftrightarrow> pc_digest c \<noteq> None"
proof (cases "pc_action c")
  case PUBLISH
  with assms obtain s d where s: "pc_snapshot c = Some s" "pc_digest c = Some d" "is_valid_snapshot E s"
    by (blast elim: command_ok_publish)
  from s(3) obtain b where "canonical_bytes s = Inr b" by (rule canonical_bytes_total)
  with s PUBLISH that show thesis by (auto simp: payload_of_def)
next
  case WITHDRAW
  with assms that show thesis by (auto simp: payload_of_def dest: command_ok_withdraw)
qed

lemma command_ok_topics: "command_ok E c \<Longrightarrow> distinct (topics_of c)"
proof (cases "pc_action c")
  case PUBLISH
  assume "command_ok E c"
  with PUBLISH obtain s where "pc_snapshot c = Some s" "is_valid_snapshot E s"
    by (blast elim: command_ok_publish)
  then show ?thesis by (auto simp: topics_of_def content_wf_def dest: is_valid_snapshotD(3))
next
  case WITHDRAW
  assume "command_ok E c"
  with WITHDRAW show ?thesis by (auto simp: topics_of_def dest: command_ok_withdraw)
qed

lemma projection_row_ok_row_of: "command_ok E c \<Longrightarrow> projection_row_ok (row_of c)"
proof -
  assume c: "command_ok E c"
  then have "0 < pc_sequence c" by (auto dest: command_ok_basic)
  with c show ?thesis
    by (elim command_ok_payload) (cases "pc_action c"; simp add: projection_row_ok_def row_of_def)
qed

definition store_put :: "public_db \<Rightarrow> pub_command \<Rightarrow> pystr \<Rightarrow> public_db" where
  "store_put db c fp =
     \<lparr>db_projections = upsert_projection (row_of c) (db_projections db),
      db_topics = filter (\<lambda>t. fst t \<noteq> pc_slug c) (db_topics db) @ map (Pair (pc_slug c)) (topics_of c),
      db_history = db_history db @ [(pc_request_id c, fp)]\<rparr>"

text \<open>The store invariant: every row is the row of a valid command whose request is on record.\<close>

definition row_backed :: "pub_env \<Rightarrow> public_db \<Rightarrow> projection_row \<Rightarrow> bool" where
  "row_backed E db r \<longleftrightarrow>
     (\<exists>c fp. command_ok E c \<and> r = row_of c \<and> command_fingerprint E c = Inr fp
        \<and> (pc_request_id c, fp) \<in> set (db_history db)
        \<and> {t. (pc_slug c, t) \<in> set (db_topics db)} = set (topics_of c))"

definition store_ok :: "pub_env \<Rightarrow> public_db \<Rightarrow> bool" where
  "store_ok E db \<longleftrightarrow>
     keyed jr_slug (db_projections db) \<and> keyed fst (db_history db)
     \<and> (\<forall>r \<in> set (db_projections db). row_backed E db r)"

lemma store_row:
  assumes "store_ok E db" "row_by jr_slug slug (db_projections db) = Some r"
  obtains c fp where "command_ok E c" "r = row_of c" "pc_slug c = slug"
    "command_fingerprint E c = Inr fp"
    "row_by fst (pc_request_id c) (db_history db) = Some (pc_request_id c, fp)"
    "{t. (slug, t) \<in> set (db_topics db)} = set (topics_of c)"
proof -
  from assms(2) have r: "r \<in> set (db_projections db)" "jr_slug r = slug"
    by (auto dest: row_by_SomeD)
  with assms(1) obtain c fp where c: "command_ok E c" "r = row_of c" "command_fingerprint E c = Inr fp"
    "(pc_request_id c, fp) \<in> set (db_history db)"
    "{t. (pc_slug c, t) \<in> set (db_topics db)} = set (topics_of c)"
    unfolding store_ok_def row_backed_def by blast
  from assms(1) c(4) have "row_by fst (pc_request_id c) (db_history db) = Some (pc_request_id c, fp)"
    by (simp add: store_ok_def row_by_Some_iff)
  with c r(2) show thesis by (intro that [of c fp]) auto
qed

lemma payload_inj:
  "payload_of so = Inr p \<Longrightarrow> payload_of so' = Inr p \<Longrightarrow> so = so'"
  by (auto simp: payload_of_def dest: canonical_bytes_inj split: option.splits)

lemma row_of_inj:
  assumes "command_ok E c" "command_ok E c'" "row_of c = row_of c'"
  shows "c = c'"
proof -
  obtain p p' where "payload_of (pc_snapshot c) = Inr p" "payload_of (pc_snapshot c') = Inr p'"
    using assms(1,2) by (metis command_ok_payload)
  with assms(3) have "pc_snapshot c = pc_snapshot c'"
    by (auto simp: row_of_def intro: payload_inj)
  with assms(3) show ?thesis by (cases c; cases c') (simp add: row_of_def)
qed

lemma row_by_upsert:
  "row_by jr_slug k (upsert_projection r rows) = (if k = jr_slug r then Some r else row_by jr_slug k rows)"
  by (auto simp: upsert_projection_def row_by_append row_by_put_row split: option.splits)

lemma keyed_upsert: "keyed jr_slug rows \<Longrightarrow> keyed jr_slug (upsert_projection r rows)"
  by (simp add: upsert_projection_def keyed_snoc)

lemma set_upsert:
  "set (upsert_projection r rows) = insert r {x \<in> set rows. jr_slug x \<noteq> jr_slug r}"
proof (cases "row_by jr_slug (jr_slug r) rows = None")
  case True
  then have "\<forall>x \<in> set rows. jr_slug x \<noteq> jr_slug r"
    by (metis image_eqI row_by_None_iff)
  with True show ?thesis by (auto simp: upsert_projection_def)
next
  case False
  then have "jr_slug r \<in> jr_slug ` set rows" by (simp add: row_by_None_iff)
  with False show ?thesis by (auto simp: upsert_projection_def set_put_row)
qed

text \<open>What a stored row loads as.\<close>

lemma load_projection_Inr:
  assumes "store_ok E db" "load_projection E db slug = Inr p" "is_public_slug slug"
  shows "projection_ok E p \<and> pj_slug p = slug
    \<and> (case row_by jr_slug slug (db_projections db) of
         None \<Rightarrow> p = empty_projection slug
       | Some r \<Rightarrow> \<exists>c. command_ok E c \<and> r = row_of c \<and> p = projection_of c)"
proof (cases "row_by jr_slug slug (db_projections db)")
  case None
  with assms(2,3) show ?thesis by (auto simp: load_projection_def)
next
  case (Some r)
  with assms(1) obtain c where c: "command_ok E c" "r = row_of c" "pc_slug c = slug"
    by (rule store_row)
  obtain q where q: "payload_of (pc_snapshot c) = Inr q"
    using c(1) by (rule command_ok_payload)
  have pay: "jr_payload r = q" using c q by (simp add: row_of_def)
  have "p = projection_of c"
  proof (cases "pc_action c")
    case PUBLISH
    with c(1) obtain s where s: "pc_snapshot c = Some s" by (auto elim: command_ok_publish)
    with q obtain b where b: "canonical_bytes s = Inr b" "q = Some b"
      by (auto simp: payload_of_def)
    from assms(2) Some PUBLISH c pay b obtain t d where
      t: "decode_snapshot E b d = Inr t"
      and p: "p = \<lparr>pj_slug = slug, pj_sequence = pc_sequence c,
          pj_last = Some \<lparr>pc_slug = slug, pc_sequence = pc_sequence c,
            pc_request_id = pc_request_id c, pc_action = PUBLISH, pc_snapshot = Some t,
            pc_digest = pc_digest c\<rparr>, pj_snapshot = Some t\<rparr>"
      by (auto simp: load_projection_def split: option.splits if_splits)
    from b(1) t have "t = s" by (rule decode_snapshot_unique)
    with p c PUBLISH s show ?thesis by (cases c) (auto simp: projection_of_def)
  next
    case WITHDRAW
    with c(1) have "pc_snapshot c = None" "pc_digest c = None"
      by (auto dest: command_ok_withdraw)
    with assms(2) Some WITHDRAW c show ?thesis
      by (cases c) (auto simp: load_projection_def projection_of_def split: if_splits)
  qed
  with c Some show ?thesis by auto
qed

text \<open>A successful write either replays a recorded request or applies a newer command.\<close>

lemma writer_apply_Inr:
  assumes inv: "store_ok E db" and ok: "writer_apply E db c = Inr (db', rc)"
  obtains fp where "command_ok E c" "encodable (pc_request_id c)"
    "command_fingerprint E c = Inr fp" "rc = receipt_of c"
    and "row_by fst (pc_request_id c) (db_history db) = Some (pc_request_id c, fp) \<and> db' = db
       \<or> (row_by fst (pc_request_id c) (db_history db) = None \<and> db' = store_put db c fp
          \<and> (\<forall>r. row_by jr_slug (pc_slug c) (db_projections db) = Some r \<longrightarrow> jr_sequence r < pc_sequence c))"
proof -
  from ok obtain fp where c: "command_ok E c" "encodable (pc_request_id c)" and
    fp: "command_fingerprint E c = Inr fp"
    by (auto simp: writer_apply_def validated_command_Inr)
  show thesis
  proof (cases "row_by fst (pc_request_id c) (db_history db)")
    case (Some h)
    with ok c fp have "snd h = fp" "db' = db" "rc = receipt_of c"
      by (auto simp: writer_apply_def validated_command_Inr split: if_splits prod.splits)
    moreover have "fst h = pc_request_id c" using Some by (auto dest: row_by_SomeD)
    ultimately show ?thesis using that [OF c fp] Some by (cases h) auto
  next
    case None
    with ok c fp obtain p u q where
      p: "load_projection E db (pc_slug c) = Inr p" and u: "projection_apply E p c = Inr u"
      and q: "payload_of (pj_snapshot u) = Inr q"
      and w: "store_write db \<lparr>jr_slug = pc_slug c, jr_sequence = pc_sequence c,
                jr_request_id = pc_request_id c, jr_action = pc_action c,
                jr_payload = q, jr_digest = pc_digest c\<rparr>
               (case pj_snapshot u of None \<Rightarrow> [] | Some s \<Rightarrow> sc_topic_keys (ss_content s)) fp = Inr db'"
      and "rc = receipt_of c"
      by (auto simp: writer_apply_def validated_command_Inr)
    from u have u': "u = projection_of c" by (auto dest: projection_apply_Inr)
    have row: "\<lparr>jr_slug = pc_slug c, jr_sequence = pc_sequence c, jr_request_id = pc_request_id c,
        jr_action = pc_action c, jr_payload = q, jr_digest = pc_digest c\<rparr> = row_of c"
      using q u' by (simp add: row_of_def)
    have "db' = store_put db c fp"
      using w unfolding row
      by (auto simp: u' store_write_def store_put_def topics_of_def split: if_splits)
    moreover have "jr_sequence r < pc_sequence c"
      if r: "row_by jr_slug (pc_slug c) (db_projections db) = Some r" for r
    proof -
      from inv r obtain l where l: "command_ok E l" "r = row_of l"
        "row_by fst (pc_request_id l) (db_history db) \<noteq> None"
        by (metis option.distinct(1) store_row)
      from load_projection_Inr [OF inv p] c(1) r obtain m where
        m: "command_ok E m" "r = row_of m" "p = projection_of m"
        by (auto dest: command_ok_basic)
      with l have "p = projection_of l" by (metis row_of_inj)
      with projection_apply_Inr [OF u] have "pc_sequence l \<le> pc_sequence c" by simp
      moreover have "pc_sequence l \<noteq> pc_sequence c"
      proof
        assume "pc_sequence l = pc_sequence c"
        with u have "l = c"
          unfolding \<open>p = projection_of l\<close> projection_apply_def by (simp split: if_splits)
        with l None show False by simp
      qed
      ultimately show ?thesis using l by simp
    qed
    ultimately show ?thesis using that [OF c fp \<open>rc = receipt_of c\<close>] None by auto
  qed
qed

lemma store_ok_empty [simp]: "store_ok E empty_public_db"
  by (simp add: store_ok_def empty_public_db_def)

lemma store_ok_put:
  assumes inv: "store_ok E db" and c: "command_ok E c" "command_fingerprint E c = Inr fp"
    and new: "row_by fst (pc_request_id c) (db_history db) = None"
  shows "store_ok E (store_put db c fp)"
proof -
  have "row_backed E (store_put db c fp) r" if "r \<in> set (db_projections db)" "jr_slug r \<noteq> pc_slug c" for r
  proof -
    from inv that(1) have "row_by jr_slug (jr_slug r) (db_projections db) = Some r"
      by (simp add: store_ok_def row_by_Some_iff)
    with inv obtain l lp where l: "command_ok E l" "r = row_of l" "pc_slug l = jr_slug r"
      "command_fingerprint E l = Inr lp"
      "row_by fst (pc_request_id l) (db_history db) = Some (pc_request_id l, lp)"
      "{t. (jr_slug r, t) \<in> set (db_topics db)} = set (topics_of l)"
      by (rule store_row)
    moreover have "{t. (pc_slug l, t) \<in> set (db_topics (store_put db c fp))} = set (topics_of l)"
      using that(2) l(3,6) by (auto simp: store_put_def)
    moreover have "(pc_request_id l, lp) \<in> set (db_history (store_put db c fp))"
      using l(5) by (auto simp: store_put_def dest: row_by_SomeD)
    ultimately show ?thesis unfolding row_backed_def by blast
  qed
  moreover have "row_backed E (store_put db c fp) (row_of c)"
    unfolding row_backed_def using c by (intro exI [of _ c] exI [of _ fp]) (auto simp: store_put_def)
  moreover have "keyed jr_slug (db_projections (store_put db c fp))" "keyed fst (db_history (store_put db c fp))"
    using inv new by (simp_all add: store_put_def store_ok_def keyed_upsert keyed_snoc)
  ultimately show ?thesis
    by (auto simp: store_ok_def store_put_def set_upsert)
qed

lemma writer_apply_replay:
  assumes "command_ok E c" "encodable (pc_request_id c)" "command_fingerprint E c = Inr fp"
    "row_by fst (pc_request_id c) (db_history db) = Some (pc_request_id c, fp)"
  shows "writer_apply E db c = Inr (db, receipt_of c)"
  using assms by (simp add: writer_apply_def validated_command_Inr [THEN iffD2])

definition public_cell :: "public_db \<Rightarrow> pystr \<Rightarrow> projection_row option" where
  "public_cell db slug = row_by jr_slug slug (db_projections db)"

lemma public_cell_put [simp]:
  "public_cell (store_put db c fp) = (public_cell db)(pc_slug c \<mapsto> row_of c)"
  by (rule ext) (simp add: public_cell_def store_put_def row_by_upsert)

interpretation sqlite: publication_sink "writer_apply E" public_cell row_of jr_sequence "store_ok E"
  for E :: pub_env
proof unfold_locales
  fix db c db' r
  assume inv: "store_ok E db" and ok: "writer_apply E db c = Inr (db', r)"
  then obtain fp where c: "command_ok E c" "encodable (pc_request_id c)" "command_fingerprint E c = Inr fp"
    "r = receipt_of c"
    and db': "row_by fst (pc_request_id c) (db_history db) = Some (pc_request_id c, fp) \<and> db' = db
       \<or> (row_by fst (pc_request_id c) (db_history db) = None \<and> db' = store_put db c fp
          \<and> (\<forall>r. row_by jr_slug (pc_slug c) (db_projections db) = Some r \<longrightarrow> jr_sequence r < pc_sequence c))"
    by (rule writer_apply_Inr)
  from db' inv c show "store_ok E db'" by (auto intro: store_ok_put)
  from db' show "db' = db \<or>
      (public_cell db' = (public_cell db)(pc_slug c \<mapsto> row_of c)
       \<and> (\<forall>x. public_cell db (pc_slug c) = Some x \<longrightarrow> jr_sequence x < pc_sequence c))"
    by (auto simp: public_cell_def [of db])
  from db' have "row_by fst (pc_request_id c) (db_history db') = Some (pc_request_id c, fp)"
    by (auto simp: store_put_def row_by_append split: option.splits)
  with c show "writer_apply E db' c = Inr (db', r)" by (simp add: writer_apply_replay)
qed simp

end
