(* ===== verification/Publishing_Repository.thy ===== *)
theory Publishing_Repository
  imports Public_Store
begin

text \<open>
  The private publishing store (\<^verbatim>\<open>platform/publishing/repository.py\<close> and \<^verbatim>\<open>models.py\<close>): the
  three tables, their constraints, and every transaction of the repository.  A transaction
  gives an error or the new tables with its result; \<open>transact\<close> turns it into the state the
  caller sees, where an error is a rollback.  Time stamps carry no decision and are left out,
  except \<^verbatim>\<open>applied_at\<close>, of which only presence matters.
\<close>

section \<open>Tables and views\<close>

record study_row =
  sr_slug :: pystr
  sr_current_revision :: int
  sr_sequence :: int
  sr_approved :: "pystr option"
  sr_applied_sequence :: int
  sr_applied_action :: "pub_action option"
  sr_applied_revision :: "int option"

record revision_row =
  vr_slug :: pystr
  vr_revision :: int
  vr_snapshot :: study_snapshot
  vr_canonical :: "nat list"
  vr_digest :: pystr

record command_row =
  cr_request_id :: pystr
  cr_slug :: pystr
  cr_sequence :: int
  cr_action :: pub_action
  cr_expected_revision :: int
  cr_expected_digest :: pystr
  cr_fingerprint :: pystr
  cr_export :: "nat list option"
  cr_receipt :: "receipt option"
  cr_error :: "pystr option"
  cr_applied :: bool

record private_db =
  pv_studies :: "study_row list"
  pv_revisions :: "revision_row list"
  pv_commands :: "command_row list"

definition empty_private_db :: private_db where
  "empty_private_db = \<lparr>pv_studies = [], pv_revisions = [], pv_commands = []\<rparr>"

record pending_command =
  pn_action :: pub_action
  pn_expected_revision :: int
  pn_expected_digest :: pystr
  pn_request_id :: pystr

record publishing_study =
  ps_draft :: pub_draft
  ps_desired_action :: "pub_action option"
  ps_applied_sequence :: int
  ps_applied_action :: "pub_action option"
  ps_applied_revision :: "int option"
  ps_last_request_id :: "pystr option"
  ps_error :: "pystr option"
  ps_pending :: "pending_command option"

definition delivery_pending :: "publishing_study \<Rightarrow> bool" where
  "delivery_pending s \<longleftrightarrow> pd_sequence (ps_draft s) > ps_applied_sequence s"

record prepared_publication =
  pr_state :: publishing_study
  pr_command :: pub_command
  pr_should_deliver :: bool

abbreviation request_conflict :: exn where
  "request_conflict \<equiv> AppError ''publishing_request_conflict'' 409"

abbreviation private_unavailable :: exn where
  "private_unavailable \<equiv> AppError ''publishing_private_store_unavailable'' 503"

abbreviation receipt_conflict :: exn where
  "receipt_conflict \<equiv> AppError ''publishing_receipt_conflict'' 409"

abbreviation reported :: "exn \<Rightarrow> bool" where
  "reported e \<equiv> is_app_error e \<or> is_value_error e"

section \<open>Constraints\<close>

text \<open>The \<^verbatim>\<open>CHECK\<close> constraints of the three tables; a violation is an \<^verbatim>\<open>IntegrityError\<close>.\<close>

definition study_row_ok :: "study_row \<Rightarrow> bool" where
  "study_row_ok s \<longleftrightarrow>
     0 < sr_current_revision s \<and> 0 \<le> sr_sequence s
     \<and> 0 \<le> sr_applied_sequence s \<and> sr_applied_sequence s \<le> sr_sequence s
     \<and> (sr_applied_sequence s = 0 \<and> sr_applied_action s = None \<and> sr_applied_revision s = None
        \<or> 0 < sr_applied_sequence s
          \<and> (sr_applied_action s = Some PUBLISH
               \<and> (case sr_applied_revision s of None \<Rightarrow> False | Some r \<Rightarrow> 0 < r)
             \<or> sr_applied_action s = Some WITHDRAW \<and> sr_applied_revision s = None))"

definition command_row_ok :: "command_row \<Rightarrow> bool" where
  "command_row_ok c \<longleftrightarrow>
     0 < cr_sequence c \<and> 0 < cr_expected_revision c
     \<and> (cr_action c = PUBLISH \<and> cr_export c \<noteq> None \<or> cr_action c = WITHDRAW \<and> cr_export c = None)
     \<and> (\<not> cr_applied c \<and> cr_receipt c = None
        \<or> cr_applied c \<and> cr_receipt c = Some
            \<lparr>rc_slug = cr_slug c, rc_sequence = cr_sequence c,
             rc_request_id = cr_request_id c, rc_action = cr_action c\<rparr>)"

abbreviation revision_key :: "revision_row \<Rightarrow> pystr \<times> int" where
  "revision_key r \<equiv> (vr_slug r, vr_revision r)"

abbreviation command_key :: "command_row \<Rightarrow> pystr \<times> int" where
  "command_key r \<equiv> (cr_slug r, cr_sequence r)"

definition insert_study :: "private_db \<Rightarrow> study_row \<Rightarrow> private_db res" where
  "insert_study db s =
     (if row_by sr_slug (sr_slug s) (pv_studies db) \<noteq> None \<or> \<not> study_row_ok s then Inl IntegrityError
      else Inr (db\<lparr>pv_studies := pv_studies db @ [s]\<rparr>))"

definition insert_revision :: "private_db \<Rightarrow> revision_row \<Rightarrow> private_db res" where
  "insert_revision db v =
     (if row_by revision_key (revision_key v) (pv_revisions db) \<noteq> None
         \<or> row_by sr_slug (vr_slug v) (pv_studies db) = None \<or> \<not> 0 < vr_revision v
      then Inl IntegrityError
      else Inr (db\<lparr>pv_revisions := pv_revisions db @ [v]\<rparr>))"

definition insert_command :: "private_db \<Rightarrow> command_row \<Rightarrow> private_db res" where
  "insert_command db c =
     (if row_by cr_request_id (cr_request_id c) (pv_commands db) \<noteq> None
         \<or> row_by command_key (command_key c) (pv_commands db) \<noteq> None
         \<or> row_by sr_slug (cr_slug c) (pv_studies db) = None \<or> \<not> command_row_ok c
      then Inl IntegrityError
      else Inr (db\<lparr>pv_commands := pv_commands db @ [c]\<rparr>))"

definition flush_study :: "private_db \<Rightarrow> study_row \<Rightarrow> private_db res" where
  "flush_study db s =
     (if \<not> study_row_ok s then Inl IntegrityError
      else Inr (db\<lparr>pv_studies := put_row sr_slug s (pv_studies db)\<rparr>))"

definition flush_command :: "private_db \<Rightarrow> command_row \<Rightarrow> private_db res" where
  "flush_command db c =
     (if \<not> command_row_ok c then Inl IntegrityError
      else Inr (db\<lparr>pv_commands := put_row cr_request_id c (pv_commands db)\<rparr>))"

definition transact :: "private_db \<Rightarrow> (private_db \<times> 'a) res \<Rightarrow> private_db \<times> 'a res" where
  "transact db m = (case m of Inl e \<Rightarrow> (db, Inl e) | Inr (db', x) \<Rightarrow> (db', Inr x))"

section \<open>Rows and values\<close>

definition request_fingerprint ::
  "pub_env \<Rightarrow> pystr \<Rightarrow> pub_action \<Rightarrow> int \<Rightarrow> pystr \<Rightarrow> pystr \<Rightarrow> pystr res" where
  "request_fingerprint E slug action expected_revision expected_digest request_id =
     rbind (dumps_utf8 (JObj
       [(lit ''action'', JStr (action_value action)),
        (lit ''expected_digest'', JStr expected_digest),
        (lit ''expected_revision'', JInt expected_revision),
        (lit ''request_id'', JStr request_id),
        (lit ''slug'', JStr slug)])) (\<lambda>b. Inr (sha256 E b))"

definition snapshot_from_revision :: "pub_env \<Rightarrow> revision_row \<Rightarrow> study_snapshot res" where
  "snapshot_from_revision E v = recover reported private_unavailable
     (rbind (decode_snapshot E (vr_canonical v) (vr_digest v)) (\<lambda>s.
        if s \<noteq> vr_snapshot v then Inl (ValueError ''snapshot representations differ'')
        else if sc_slug (ss_content s) \<noteq> vr_slug v \<or> ss_revision s \<noteq> vr_revision v
        then Inl (ValueError ''snapshot identity differs'')
        else Inr s))"

definition new_study_rows :: "pub_env \<Rightarrow> study_content \<Rightarrow> (study_row \<times> revision_row) res" where
  "new_study_rows E content =
     rbind (new_snapshot 1 content) (\<lambda>s.
     rbind (canonical_bytes s) (\<lambda>b.
     rbind (snapshot_digest E s) (\<lambda>d. Inr
       (\<lparr>sr_slug = sc_slug content, sr_current_revision = 1, sr_sequence = 0, sr_approved = None,
         sr_applied_sequence = 0, sr_applied_action = None, sr_applied_revision = None\<rparr>,
        \<lparr>vr_slug = sc_slug content, vr_revision = 1, vr_snapshot = s, vr_canonical = b,
         vr_digest = d\<rparr>))))"

definition command_from_row :: "pub_env \<Rightarrow> command_row \<Rightarrow> pub_command res" where
  "command_from_row E r = recover reported private_unavailable
     (rbind (case cr_action r of
               PUBLISH \<Rightarrow>
                 (case cr_export r of
                    None \<Rightarrow> Inl (ValueError ''publish payload missing'')
                  | Some b \<Rightarrow>
                      rbind (decode_snapshot E b (cr_expected_digest r)) (\<lambda>s.
                        Inr (Some s, Some (cr_expected_digest r))))
             | WITHDRAW \<Rightarrow> Inr (None, None)) (\<lambda>(snapshot, digest).
       new_command E
         \<lparr>pc_slug = cr_slug r, pc_sequence = cr_sequence r, pc_request_id = cr_request_id r,
          pc_action = cr_action r, pc_snapshot = snapshot, pc_digest = digest\<rparr>))"

definition pending_of ::
  "study_row \<Rightarrow> command_row option \<Rightarrow> pending_command option res" where
  "pending_of st co =
     (if sr_sequence st > sr_applied_sequence st then
        (case co of
           None \<Rightarrow> Inl (ValueError ''pending command is missing'')
         | Some c \<Rightarrow>
             if cr_applied c then Inl (ValueError ''pending command is missing'')
             else Inr (Some \<lparr>pn_action = cr_action c, pn_expected_revision = cr_expected_revision c,
               pn_expected_digest = cr_expected_digest c, pn_request_id = cr_request_id c\<rparr>))
      else Inr None)"

definition state_from_rows ::
  "pub_env \<Rightarrow> study_row \<Rightarrow> revision_row \<Rightarrow> command_row option \<Rightarrow> publishing_study res" where
  "state_from_rows E st v co =
     rbind (snapshot_from_revision E v) (\<lambda>s.
       recover reported private_unavailable
         (rbind (new_draft E
             \<lparr>pd_snapshot = s, pd_approved = sr_approved st, pd_sequence = sr_sequence st\<rparr>) (\<lambda>d.
          rbind (pending_of st co) (\<lambda>pending.
            Inr \<lparr>ps_draft = d, ps_desired_action = map_option cr_action co,
                 ps_applied_sequence = sr_applied_sequence st,
                 ps_applied_action = sr_applied_action st,
                 ps_applied_revision = sr_applied_revision st,
                 ps_last_request_id = map_option cr_request_id co,
                 ps_error = (case co of None \<Rightarrow> None | Some c \<Rightarrow> cr_error c),
                 ps_pending = pending\<rparr>))))"

definition current_command :: "private_db \<Rightarrow> study_row \<Rightarrow> command_row option" where
  "current_command db st = row_by command_key (sr_slug st, sr_sequence st) (pv_commands db)"

text \<open>The inner join with the current revision, the outer join with the current command.\<close>

definition joined_rows ::
  "private_db \<Rightarrow> study_row \<Rightarrow> (study_row \<times> revision_row \<times> command_row option) option" where
  "joined_rows db st =
     (case row_by revision_key (sr_slug st, sr_current_revision st) (pv_revisions db) of
        None \<Rightarrow> None | Some v \<Rightarrow> Some (st, v, current_command db st))"

definition locked_study_rows ::
  "private_db \<Rightarrow> pystr \<Rightarrow> (study_row \<times> revision_row \<times> command_row option) option res" where
  "locked_study_rows db slug =
     (case row_by sr_slug slug (pv_studies db) of
        None \<Rightarrow> Inr None
      | Some st \<Rightarrow>
          let revision = row_by revision_key (sr_slug st, sr_current_revision st) (pv_revisions db);
              command = (if sr_sequence st > 0 then current_command db st else None)
          in (case revision of
                None \<Rightarrow> Inl private_unavailable
              | Some v \<Rightarrow>
                  if sr_sequence st > 0 \<and> command = None then Inl private_unavailable
                  else Inr (Some (st, v, command))))"

section \<open>Transactions\<close>

definition repo_create ::
  "pub_env \<Rightarrow> private_db \<Rightarrow> study_content \<Rightarrow> private_db \<times> publishing_study res" where
  "repo_create E db content =
     (case new_study_rows E content of
        Inl e \<Rightarrow> (db, Inl e)
      | Inr (st, v) \<Rightarrow>
          (case rbind (insert_study db st) (\<lambda>db1. insert_revision db1 v) of
             Inl _ \<Rightarrow> (db, Inl slug_conflict)
           | Inr db2 \<Rightarrow> (db2, state_from_rows E st v None)))"

definition repo_get :: "pub_env \<Rightarrow> private_db \<Rightarrow> pystr \<Rightarrow> publishing_study option res" where
  "repo_get E db slug =
     (case row_by sr_slug slug (pv_studies db) of
        None \<Rightarrow> Inr None
      | Some st \<Rightarrow>
          (case joined_rows db st of
             None \<Rightarrow> Inr None
           | Some (s, v, co) \<Rightarrow> rbind (state_from_rows E s v co) (\<lambda>x. Inr (Some x))))"

definition repo_list :: "pub_env \<Rightarrow> private_db \<Rightarrow> nat \<Rightarrow> nat \<Rightarrow> publishing_study list res" where
  "repo_list E db offset limit =
     mapr (\<lambda>(st, v, co). state_from_rows E st v co)
       (take limit (drop offset (List.map_filter (joined_rows db) (sort_key sr_slug (pv_studies db)))))"

definition update_tx ::
  "pub_env \<Rightarrow> private_db \<Rightarrow> pystr \<Rightarrow> int \<Rightarrow> study_content \<Rightarrow> (private_db \<times> publishing_study) res" where
  "update_tx E db slug expected_revision content =
     recover (\<lambda>e. e = IntegrityError) revision_conflict
       (rbind (locked_study_rows db slug) (\<lambda>row.
          case row of
            None \<Rightarrow> Inl not_found
          | Some (st, v, co) \<Rightarrow>
              rbind (state_from_rows E st v co) (\<lambda>current.
              rbind (draft_revise E (ps_draft current) content expected_revision) (\<lambda>revised.
              rbind (canonical_bytes (pd_snapshot revised)) (\<lambda>b.
              rbind (snapshot_digest E (pd_snapshot revised)) (\<lambda>d.
                let next = \<lparr>vr_slug = slug, vr_revision = ss_revision (pd_snapshot revised),
                      vr_snapshot = pd_snapshot revised, vr_canonical = b, vr_digest = d\<rparr>;
                    st' = st\<lparr>sr_current_revision := ss_revision (pd_snapshot revised),
                      sr_approved := None\<rparr>
                in rbind (insert_revision db next) (\<lambda>db1.
                   rbind (flush_study db1 st') (\<lambda>db2.
                   rbind (state_from_rows E st' next co) (\<lambda>x. Inr (db2, x))))))))))"

definition repo_update ::
  "pub_env \<Rightarrow> private_db \<Rightarrow> pystr \<Rightarrow> int \<Rightarrow> study_content \<Rightarrow> private_db \<times> publishing_study res" where
  "repo_update E db slug expected_revision content =
     transact db (update_tx E db slug expected_revision content)"

definition prepared_existing ::
  "pub_env \<Rightarrow> study_row \<Rightarrow> revision_row \<Rightarrow> command_row option \<Rightarrow> command_row \<Rightarrow> pystr
    \<Rightarrow> prepared_publication res" where
  "prepared_existing E st v co existing fingerprint =
     (if cr_fingerprint existing \<noteq> fingerprint then Inl request_conflict
      else rbind (state_from_rows E st v co) (\<lambda>state.
           rbind (command_from_row E existing) (\<lambda>command.
             Inr \<lparr>pr_state = state, pr_command = command,
                  pr_should_deliver = (cr_sequence existing = sr_sequence st \<and> \<not> cr_applied existing)\<rparr>)))"

definition prepare_command_locked ::
  "pub_env \<Rightarrow> private_db \<Rightarrow> study_row \<Rightarrow> revision_row \<Rightarrow> command_row option \<Rightarrow> pub_action \<Rightarrow> int
    \<Rightarrow> pystr \<Rightarrow> pystr \<Rightarrow> pystr \<Rightarrow> (private_db \<times> prepared_publication) res" where
  "prepare_command_locked E db st v co action expected_revision expected_digest request_id fingerprint =
     (case row_by cr_request_id request_id (pv_commands db) of
        Some existing \<Rightarrow>
          rbind (prepared_existing E st v co existing fingerprint) (\<lambda>p. Inr (db, p))
      | None \<Rightarrow>
          rbind (state_from_rows E st v co) (\<lambda>current.
          rbind (snapshot_digest E (pd_snapshot (ps_draft current))) (\<lambda>digest.
          if digest \<noteq> expected_digest then Inl digest_conflict
          else rbind (case action of
                 PUBLISH \<Rightarrow>
                   rbind (draft_approve E (ps_draft current) expected_revision expected_digest)
                     (\<lambda>approved. draft_publish E approved request_id)
               | WITHDRAW \<Rightarrow>
                   if expected_revision \<noteq> ss_revision (pd_snapshot (ps_draft current))
                   then Inl revision_conflict
                   else draft_withdraw E (ps_draft current) request_id) (\<lambda>(draft, publication).
            rbind (payload_of (pc_snapshot publication)) (\<lambda>export.
            let new = \<lparr>cr_request_id = request_id, cr_slug = sr_slug st,
                  cr_sequence = pc_sequence publication, cr_action = action,
                  cr_expected_revision = expected_revision, cr_expected_digest = expected_digest,
                  cr_fingerprint = fingerprint, cr_export = export, cr_receipt = None,
                  cr_error = None, cr_applied = False\<rparr>;
                st' = st\<lparr>sr_sequence := pd_sequence draft, sr_approved := pd_approved draft\<rparr>
            in rbind (insert_command db new) (\<lambda>db1.
               rbind (flush_study db1 st') (\<lambda>db2.
               rbind (state_from_rows E st' v (Some new)) (\<lambda>state.
                 Inr (db2, \<lparr>pr_state = state, pr_command = publication,
                            pr_should_deliver = True\<rparr>)))))))))"

definition resolve_request_race ::
  "pub_env \<Rightarrow> private_db \<Rightarrow> pystr \<Rightarrow> pystr \<Rightarrow> prepared_publication res" where
  "resolve_request_race E db request_id fingerprint =
     (case row_by cr_request_id request_id (pv_commands db) of
        None \<Rightarrow> Inl private_unavailable
      | Some existing \<Rightarrow>
          (case row_by sr_slug (cr_slug existing) (pv_studies db) of
             None \<Rightarrow> Inl private_unavailable
           | Some st \<Rightarrow>
               (case joined_rows db st of
                  None \<Rightarrow> Inl private_unavailable
                | Some (s, v, co) \<Rightarrow> prepared_existing E s v co existing fingerprint)))"

text \<open>
  \<open>on_integrity_error\<close>: a failed constraint rolls the transaction back and resolves the race
  in a second transaction on the unchanged tables.
\<close>

definition on_integrity_error ::
  "private_db \<Rightarrow> (private_db \<times> 'a) res \<Rightarrow> (private_db \<times> 'a) res \<Rightarrow> private_db \<times> 'a res" where
  "on_integrity_error db m resolution =
     transact db (case m of Inl IntegrityError \<Rightarrow> resolution | _ \<Rightarrow> m)"

definition repo_prepare_command ::
  "pub_env \<Rightarrow> private_db \<Rightarrow> pystr \<Rightarrow> pub_action \<Rightarrow> int \<Rightarrow> pystr \<Rightarrow> pystr
    \<Rightarrow> private_db \<times> prepared_publication res" where
  "repo_prepare_command E db slug action expected_revision expected_digest request_id =
     (case recover is_value_error request_conflict
         (request_fingerprint E slug action expected_revision expected_digest request_id) of
        Inl e \<Rightarrow> (db, Inl e)
      | Inr fingerprint \<Rightarrow> on_integrity_error db
          (rbind (locked_study_rows db slug) (\<lambda>row.
             case row of
               None \<Rightarrow> Inl not_found
             | Some (st, v, co) \<Rightarrow>
                 prepare_command_locked E db st v co action expected_revision expected_digest
                   request_id fingerprint))
          (rbind (resolve_request_race E db request_id fingerprint) (\<lambda>p. Inr (db, p))))"

definition prepare_initial_locked ::
  "pub_env \<Rightarrow> private_db \<Rightarrow> study_row \<Rightarrow> revision_row \<Rightarrow> command_row option \<Rightarrow> pystr \<Rightarrow> pystr
    \<Rightarrow> pystr \<Rightarrow> (private_db \<times> prepared_publication) res" where
  "prepare_initial_locked E db st v co expected_digest request_id fingerprint =
     (let is_fresh = (sr_current_revision st = 1 \<and> vr_digest v = expected_digest
            \<and> sr_sequence st = 0 \<and> sr_applied_sequence st = 0 \<and> sr_applied_action st = None
            \<and> co = None);
          is_exact_replay = (sr_current_revision st = 1 \<and> vr_digest v = expected_digest
            \<and> sr_sequence st = 1
            \<and> (case co of None \<Rightarrow> False | Some c \<Rightarrow> cr_request_id c = request_id))
      in if \<not> (is_fresh \<or> is_exact_replay) then Inl request_conflict
         else prepare_command_locked E db st v co PUBLISH 1 expected_digest request_id fingerprint)"

definition resolve_initial_race ::
  "pub_env \<Rightarrow> private_db \<Rightarrow> pystr \<Rightarrow> pystr \<Rightarrow> pystr \<Rightarrow> pystr
    \<Rightarrow> (private_db \<times> prepared_publication) res" where
  "resolve_initial_race E db slug expected_digest request_id fingerprint =
     recover (\<lambda>e. e = IntegrityError) private_unavailable
       (rbind (locked_study_rows db slug) (\<lambda>row.
          case row of
            None \<Rightarrow> Inl private_unavailable
          | Some (st, v, co) \<Rightarrow>
              prepare_initial_locked E db st v co expected_digest request_id fingerprint))"

definition repo_prepare_initial ::
  "pub_env \<Rightarrow> private_db \<Rightarrow> study_content \<Rightarrow> pystr \<Rightarrow> pystr
    \<Rightarrow> private_db \<times> prepared_publication res" where
  "repo_prepare_initial E db content expected_digest request_id =
     (case recover is_value_error request_conflict
         (rbind (new_snapshot 1 content) (\<lambda>s.
          rbind (snapshot_digest E s) (\<lambda>d.
            if d \<noteq> expected_digest then Inl request_conflict
            else request_fingerprint E (sc_slug content) PUBLISH 1 expected_digest request_id))) of
        Inl e \<Rightarrow> (db, Inl e)
      | Inr fingerprint \<Rightarrow> on_integrity_error db
          (rbind (locked_study_rows db (sc_slug content)) (\<lambda>row.
             case row of
               None \<Rightarrow>
                 rbind (new_study_rows E content) (\<lambda>(st, v).
                 rbind (insert_study db st) (\<lambda>db1.
                 rbind (insert_revision db1 v) (\<lambda>db2.
                   prepare_initial_locked E db2 st v None expected_digest request_id fingerprint)))
             | Some (st, v, co) \<Rightarrow>
                 prepare_initial_locked E db st v co expected_digest request_id fingerprint))
          (resolve_initial_race E db (sc_slug content) expected_digest request_id fingerprint))"

text \<open>
  Acknowledging a receipt.  The rows re-read after the command is changed are the session's
  own objects, so they show the change.
\<close>

definition acknowledged_command :: "command_row \<Rightarrow> receipt \<Rightarrow> command_row" where
  "acknowledged_command c rc =
     (if cr_applied c then c\<lparr>cr_error := None\<rparr>
      else c\<lparr>cr_receipt := Some rc, cr_applied := True, cr_error := None\<rparr>)"

definition acknowledged_study :: "study_row \<Rightarrow> command_row \<Rightarrow> receipt \<Rightarrow> study_row" where
  "acknowledged_study st c rc =
     (if rc_sequence rc > sr_applied_sequence st then
        st\<lparr>sr_applied_sequence := rc_sequence rc,
           sr_applied_action := Some (rc_action rc),
           sr_applied_revision :=
             (case rc_action rc of PUBLISH \<Rightarrow> Some (cr_expected_revision c) | WITHDRAW \<Rightarrow> None)\<rparr>
      else st)"

definition acknowledge_tx ::
  "pub_env \<Rightarrow> private_db \<Rightarrow> receipt \<Rightarrow> (private_db \<times> publishing_study) res" where
  "acknowledge_tx E db rc =
     recover (\<lambda>e. e = IntegrityError) private_unavailable
       (case row_by cr_request_id (rc_request_id rc) (pv_commands db) of
          None \<Rightarrow> Inl receipt_conflict
        | Some c \<Rightarrow>
            if (rc_slug rc, rc_sequence rc, rc_request_id rc, rc_action rc)
               \<noteq> (cr_slug c, cr_sequence c, cr_request_id c, cr_action c)
            then Inl receipt_conflict
            else rbind (locked_study_rows db (cr_slug c)) (\<lambda>row.
              case row of
                None \<Rightarrow> Inl private_unavailable
              | Some (st, v, _) \<Rightarrow>
                  rbind (flush_command db (acknowledged_command c rc)) (\<lambda>db1.
                  rbind (flush_study db1 (acknowledged_study st c rc)) (\<lambda>db2.
                  rbind (state_from_rows E (acknowledged_study st c rc) v
                      (if sr_sequence st > 0 then current_command db2 st else None)) (\<lambda>x.
                    Inr (db2, x))))))"

definition repo_acknowledge ::
  "pub_env \<Rightarrow> private_db \<Rightarrow> receipt \<Rightarrow> private_db \<times> publishing_study res" where
  "repo_acknowledge E db rc = transact db (acknowledge_tx E db rc)"

definition safe_error_code :: "pystr \<Rightarrow> pystr" where
  "safe_error_code code = (if code = [] then lit ''publishing_delivery_failed'' else take 100 code)"

definition record_failure_tx ::
  "pub_env \<Rightarrow> private_db \<Rightarrow> pystr \<Rightarrow> pystr \<Rightarrow> (private_db \<times> publishing_study) res" where
  "record_failure_tx E db request_id code =
     recover (\<lambda>e. e = IntegrityError) private_unavailable
       (case row_by cr_request_id request_id (pv_commands db) of
          None \<Rightarrow> Inl request_conflict
        | Some c \<Rightarrow>
            rbind (if cr_applied c then Inr db
                   else flush_command db (c\<lparr>cr_error := Some (safe_error_code code)\<rparr>)) (\<lambda>db1.
            rbind (locked_study_rows db1 (cr_slug c)) (\<lambda>row.
              case row of
                None \<Rightarrow> Inl private_unavailable
              | Some (st, v, co) \<Rightarrow>
                  rbind (state_from_rows E st v co) (\<lambda>x. Inr (db1, x)))))"

definition repo_record_failure ::
  "pub_env \<Rightarrow> private_db \<Rightarrow> pystr \<Rightarrow> pystr \<Rightarrow> private_db \<times> publishing_study res" where
  "repo_record_failure E db request_id code = transact db (record_failure_tx E db request_id code)"

end
