(* ===== verification/Publishing_Invariant.thy ===== *)
theory Publishing_Invariant
  imports Publishing_Repository
begin

text \<open>
  The invariant of the private publishing store and the proof that every repository
  transaction keeps it: every recorded command is a valid command over a stored revision, the
  sequence numbers of a study are exactly \<open>1\<close> to its current sequence, and what a study calls
  applied is an acknowledged command.
\<close>

section \<open>The invariant\<close>

text \<open>\<open>backs E revs r c\<close>: the command row \<open>r\<close> records the publication command \<open>c\<close>.\<close>

definition backs :: "pub_env \<Rightarrow> revision_row list \<Rightarrow> command_row \<Rightarrow> pub_command \<Rightarrow> bool" where
  "backs E revs r c \<longleftrightarrow>
     command_ok E c \<and> encodable (pc_request_id c)
     \<and> cr_request_id r = pc_request_id c \<and> cr_slug r = pc_slug c
     \<and> cr_sequence r = pc_sequence c \<and> cr_action r = pc_action c
     \<and> payload_of (pc_snapshot c) = Inr (cr_export r)
     \<and> (pc_action c = PUBLISH \<longrightarrow>
          pc_digest c = Some (cr_expected_digest r)
          \<and> (\<exists>v \<in> set revs. vr_slug v = pc_slug c \<and> vr_revision v = cr_expected_revision r
               \<and> pc_snapshot c = Some (vr_snapshot v)))"

definition keys_ok :: "private_db \<Rightarrow> bool" where
  "keys_ok db \<longleftrightarrow>
     keyed sr_slug (pv_studies db) \<and> keyed revision_key (pv_revisions db)
     \<and> keyed cr_request_id (pv_commands db) \<and> keyed command_key (pv_commands db)"

definition command_placed :: "study_row list \<Rightarrow> command_row \<Rightarrow> bool" where
  "command_placed studies r \<longleftrightarrow>
     command_row_ok r
     \<and> (\<exists>st \<in> set studies. sr_slug st = cr_slug r \<and> cr_sequence r \<le> sr_sequence st
          \<and> (cr_applied r \<longrightarrow> cr_sequence r \<le> sr_applied_sequence st))"

definition applied_backed :: "command_row list \<Rightarrow> study_row \<Rightarrow> bool" where
  "applied_backed cmds st \<longleftrightarrow>
     sr_applied_sequence st = 0
     \<or> (\<exists>r \<in> set cmds. command_key r = (sr_slug st, sr_applied_sequence st) \<and> cr_applied r
          \<and> sr_applied_action st = Some (cr_action r)
          \<and> sr_applied_revision st =
              (case cr_action r of PUBLISH \<Rightarrow> Some (cr_expected_revision r) | WITHDRAW \<Rightarrow> None))"

definition study_complete :: "command_row list \<Rightarrow> study_row \<Rightarrow> bool" where
  "study_complete cmds st \<longleftrightarrow>
     study_row_ok st
     \<and> (\<forall>k. 1 \<le> k \<and> k \<le> sr_sequence st \<longrightarrow> (sr_slug st, k) \<in> command_key ` set cmds)
     \<and> applied_backed cmds st"

definition priv_ok :: "pub_env \<Rightarrow> private_db \<Rightarrow> bool" where
  "priv_ok E db \<longleftrightarrow>
     keys_ok db
     \<and> (\<forall>r \<in> set (pv_commands db). (\<exists>c. backs E (pv_revisions db) r c)
          \<and> command_placed (pv_studies db) r)
     \<and> (\<forall>st \<in> set (pv_studies db). study_complete (pv_commands db) st)"

definition recorded :: "pub_env \<Rightarrow> private_db \<Rightarrow> pub_command \<Rightarrow> bool" where
  "recorded E db c \<longleftrightarrow> (\<exists>r \<in> set (pv_commands db). backs E (pv_revisions db) r c)"

lemma priv_okI:
  assumes "keys_ok db"
    and "\<And>r. r \<in> set (pv_commands db) \<Longrightarrow> \<exists>c. backs E (pv_revisions db) r c"
    and "\<And>r. r \<in> set (pv_commands db) \<Longrightarrow> command_placed (pv_studies db) r"
    and "\<And>st. st \<in> set (pv_studies db) \<Longrightarrow> study_complete (pv_commands db) st"
  shows "priv_ok E db"
  using assms by (auto simp: priv_ok_def)

lemma priv_ok_empty [simp]: "priv_ok E empty_private_db"
  by (simp add: priv_ok_def keys_ok_def empty_private_db_def)

section \<open>A row records one command\<close>

lemma backs_unique:
  assumes "backs E revs r c" "backs E revs r c'"
  shows "c = c'"
proof -
  from assms have "pc_snapshot c = pc_snapshot c'"
    unfolding backs_def by (blast intro: payload_inj)
  moreover from assms have "pc_digest c = pc_digest c'"
  proof (cases "pc_action c")
    case WITHDRAW
    with assms have "pc_digest c = None" "pc_digest c' = None"
      unfolding backs_def by (metis command_ok_withdraw)+
    then show ?thesis by simp
  qed (auto simp: backs_def)
  ultimately show ?thesis
    using assms by (cases c; cases c') (simp add: backs_def)
qed

lemma backs_mono: "backs E revs r c \<Longrightarrow> set revs \<subseteq> set revs' \<Longrightarrow> backs E revs' r c"
  unfolding backs_def by blast

lemma recorded_unique:
  assumes "priv_ok E db" "recorded E db c" "recorded E db c'"
    and "pc_request_id c = pc_request_id c' \<or> (pc_slug c = pc_slug c' \<and> pc_sequence c = pc_sequence c')"
  shows "c = c'"
proof -
  from assms obtain r r' where r: "r \<in> set (pv_commands db)" "backs E (pv_revisions db) r c"
    "r' \<in> set (pv_commands db)" "backs E (pv_revisions db) r' c'"
    by (auto simp: recorded_def)
  with assms(4) have "cr_request_id r = cr_request_id r' \<or> command_key r = command_key r'"
    by (auto simp: backs_def)
  moreover from assms(1) have "inj_on cr_request_id (set (pv_commands db))"
    "inj_on command_key (set (pv_commands db))"
    by (auto simp: priv_ok_def keys_ok_def keyed_def distinct_map)
  ultimately have "r = r'" using r by (auto dest: inj_onD)
  with r show ?thesis by (blast dest: backs_unique)
qed

lemma command_from_row_backed:
  assumes "backs E revs r c" "command_from_row E r = Inr c'"
  shows "c' = c"
proof (cases "pc_action c")
  case PUBLISH
  with assms(1) obtain s where s: "pc_snapshot c = Some s" "pc_digest c = Some (cr_expected_digest r)"
    by (auto simp: backs_def elim: command_ok_publish)
  with assms(1) obtain b where b: "canonical_bytes s = Inr b" "cr_export r = Some b"
    by (auto simp: backs_def payload_of_def)
  from assms PUBLISH b obtain t where t: "decode_snapshot E b (cr_expected_digest r) = Inr t"
    and c': "c' = \<lparr>pc_slug = cr_slug r, pc_sequence = cr_sequence r, pc_request_id = cr_request_id r,
      pc_action = PUBLISH, pc_snapshot = Some t, pc_digest = Some (cr_expected_digest r)\<rparr>"
    by (auto simp: command_from_row_def backs_def)
  from b(1) t have "t = s" by (rule decode_snapshot_unique)
  with c' s PUBLISH assms(1) show ?thesis by (cases c) (simp add: backs_def)
next
  case WITHDRAW
  with assms(1) have "pc_snapshot c = None" "pc_digest c = None"
    by (auto simp: backs_def dest: command_ok_withdraw)
  with assms WITHDRAW show ?thesis by (cases c) (auto simp: command_from_row_def backs_def)
qed

section \<open>Reading rows\<close>

lemma locked_study_rows_Some:
  assumes "locked_study_rows db slug = Inr (Some (st, v, co))"
  shows "row_by sr_slug slug (pv_studies db) = Some st" "sr_slug st = slug"
    and "row_by revision_key (slug, sr_current_revision st) (pv_revisions db) = Some v"
    and "0 < sr_sequence st \<Longrightarrow> co = current_command db st"
    and "0 < sr_sequence st \<Longrightarrow> co \<noteq> None"
    and "\<not> 0 < sr_sequence st \<Longrightarrow> co = None"
proof -
  from assms obtain s where s: "row_by sr_slug slug (pv_studies db) = Some s"
    by (auto simp: locked_study_rows_def split: option.splits)
  then have slug: "sr_slug s = slug" by (auto dest: row_by_SomeD)
  from assms s slug show "row_by sr_slug slug (pv_studies db) = Some st" "sr_slug st = slug"
    "row_by revision_key (slug, sr_current_revision st) (pv_revisions db) = Some v"
    "0 < sr_sequence st \<Longrightarrow> co = current_command db st"
    "0 < sr_sequence st \<Longrightarrow> co \<noteq> None"
    "\<not> 0 < sr_sequence st \<Longrightarrow> co = None"
    by (auto simp: locked_study_rows_def Let_def split: option.splits if_splits)
qed

lemma snapshot_from_revision_Inr:
  "snapshot_from_revision E v = Inr s \<Longrightarrow>
     s = vr_snapshot v \<and> sc_slug (ss_content s) = vr_slug v \<and> ss_revision s = vr_revision v
     \<and> canonical_bytes s = Inr (vr_canonical v) \<and> vr_digest v = sha256 E (vr_canonical v)"
  by (auto simp: snapshot_from_revision_def dest: decode_snapshot_Inr split: if_splits)

lemma state_from_rows_Inr:
  assumes "state_from_rows E st v co = Inr x"
  shows "draft_ok E (ps_draft x)" "pd_snapshot (ps_draft x) = vr_snapshot v"
    "pd_sequence (ps_draft x) = sr_sequence st" "pd_approved (ps_draft x) = sr_approved st"
    "sc_slug (ss_content (vr_snapshot v)) = vr_slug v" "ss_revision (vr_snapshot v) = vr_revision v"
    "ps_applied_sequence x = sr_applied_sequence st"
  using assms by (auto simp: state_from_rows_def dest: snapshot_from_revision_Inr)

section \<open>Primitive changes\<close>

lemma command_placed_mono:
  assumes "command_placed studies r"
    and "\<And>st. st \<in> set studies \<Longrightarrow> \<exists>st' \<in> set studies'. sr_slug st' = sr_slug st
      \<and> sr_sequence st \<le> sr_sequence st' \<and> sr_applied_sequence st \<le> sr_applied_sequence st'"
  shows "command_placed studies' r"
proof -
  from assms(1) obtain st where st: "st \<in> set studies" "sr_slug st = cr_slug r"
    "cr_sequence r \<le> sr_sequence st" "cr_applied r \<longrightarrow> cr_sequence r \<le> sr_applied_sequence st"
    by (auto simp: command_placed_def)
  from assms(2) [OF st(1)] obtain st' where "st' \<in> set studies'" "sr_slug st' = sr_slug st"
    "sr_sequence st \<le> sr_sequence st'" "sr_applied_sequence st \<le> sr_applied_sequence st'"
    by blast
  with st assms(1) show ?thesis
    unfolding command_placed_def by (intro conjI bexI [of _ st']) auto
qed

lemma study_complete_mono:
  assumes "study_complete cmds st" "set cmds \<subseteq> set cmds'"
  shows "study_complete cmds' st"
  using assms unfolding study_complete_def applied_backed_def by blast

lemma insert_study_ok:
  assumes ok: "priv_ok E db" and ins: "insert_study db st = Inr db'" and "sr_sequence st = 0"
  shows "priv_ok E db'"
proof -
  from ins have db': "db' = db\<lparr>pv_studies := pv_studies db @ [st]\<rparr>" and
    new: "row_by sr_slug (sr_slug st) (pv_studies db) = None" "study_row_ok st"
    by (auto simp: insert_study_def split: if_splits)
  from new(2) assms(3) have "study_complete cmds st" for cmds
    by (auto simp: study_complete_def applied_backed_def study_row_ok_def)
  moreover have "command_placed (pv_studies db @ [st]) r" if "r \<in> set (pv_commands db)" for r
  proof (rule command_placed_mono [of "pv_studies db"])
    show "command_placed (pv_studies db) r" using ok that by (simp add: priv_ok_def)
  qed auto
  moreover have "keys_ok db'"
    using ok new(1) unfolding db' by (simp add: priv_ok_def keys_ok_def keyed_snoc)
  ultimately show ?thesis
    using ok unfolding db' by (intro priv_okI) (auto simp: priv_ok_def)
qed

lemma insert_revision_ok:
  assumes ok: "priv_ok E db" and ins: "insert_revision db v = Inr db'"
  shows "priv_ok E db'"
proof -
  from ins have db': "db' = db\<lparr>pv_revisions := pv_revisions db @ [v]\<rparr>" and
    new: "row_by revision_key (revision_key v) (pv_revisions db) = None"
    by (auto simp: insert_revision_def split: if_splits)
  have "\<exists>c. backs E (pv_revisions db @ [v]) r c" if "r \<in> set (pv_commands db)" for r
  proof -
    from ok that obtain c where "backs E (pv_revisions db) r c" by (auto simp: priv_ok_def)
    then have "backs E (pv_revisions db @ [v]) r c" by (rule backs_mono) auto
    then show ?thesis ..
  qed
  moreover have "keys_ok db'"
    using ok new unfolding db' by (simp add: priv_ok_def keys_ok_def keyed_snoc)
  ultimately show ?thesis
    using ok unfolding db' by (intro priv_okI) (auto simp: priv_ok_def)
qed

text \<open>Replacing a study row by one that is no further behind.\<close>

lemma set_put_study:
  assumes "keyed sr_slug studies" "row_by sr_slug (sr_slug st') studies = Some st"
  shows "set (put_row sr_slug st' studies) = insert st' {x \<in> set studies. sr_slug x \<noteq> sr_slug st'}"
proof -
  from assms(2) have "sr_slug st' \<in> sr_slug ` set studies"
    by (metis image_eqI row_by_SomeD)
  then show ?thesis by (auto simp: set_put_row)
qed

lemma put_study_placed:
  assumes "keyed sr_slug studies" "row_by sr_slug (sr_slug st') studies = Some st"
    and "sr_sequence st \<le> sr_sequence st'" "sr_applied_sequence st \<le> sr_applied_sequence st'"
    and "command_placed studies r"
  shows "command_placed (put_row sr_slug st' studies) r"
proof (rule command_placed_mono [OF assms(5)])
  fix x
  assume x: "x \<in> set studies"
  show "\<exists>y \<in> set (put_row sr_slug st' studies). sr_slug y = sr_slug x
      \<and> sr_sequence x \<le> sr_sequence y \<and> sr_applied_sequence x \<le> sr_applied_sequence y"
  proof (cases "sr_slug x = sr_slug st'")
    case True
    with assms(1,2) x have "x = st" by (simp add: row_by_Some_iff keyed_def distinct_map inj_on_def)
    with assms(3,4) True show ?thesis
      by (intro bexI [of _ st']) (auto simp: set_put_study [OF assms(1,2)])
  next
    case False
    with x show ?thesis by (intro bexI [of _ x]) (auto simp: set_put_study [OF assms(1,2)])
  qed
qed

lemma flush_study_ok:
  assumes ok: "priv_ok E db" and fl: "flush_study db st' = Inr db'"
    and st: "row_by sr_slug (sr_slug st') (pv_studies db) = Some st"
    and same: "sr_sequence st' = sr_sequence st" "sr_applied_sequence st' = sr_applied_sequence st"
      "sr_applied_action st' = sr_applied_action st" "sr_applied_revision st' = sr_applied_revision st"
  shows "priv_ok E db'"
proof -
  from fl have db': "db' = db\<lparr>pv_studies := put_row sr_slug st' (pv_studies db)\<rparr>" and st_ok: "study_row_ok st'"
    by (auto simp: flush_study_def split: if_splits)
  from ok have k: "keyed sr_slug (pv_studies db)" by (simp add: priv_ok_def keys_ok_def)
  from st have "st \<in> set (pv_studies db)" "sr_slug st = sr_slug st'" by (auto dest: row_by_SomeD)
  with ok have "study_complete (pv_commands db) st" by (simp add: priv_ok_def)
  with same st_ok \<open>sr_slug st = sr_slug st'\<close> have "study_complete (pv_commands db) st'"
    by (simp add: study_complete_def applied_backed_def)
  with ok k st same show ?thesis
    unfolding db' by (intro priv_okI)
      (auto simp: priv_ok_def keys_ok_def set_put_study [OF k st] intro!: put_study_placed [OF k st])
qed

lemma put_command_set:
  assumes "keyed cr_request_id cmds" "row_by cr_request_id (cr_request_id r') cmds = Some r"
  shows "set (put_row cr_request_id r' cmds) = insert r' (set cmds - {r})"
proof -
  from assms have r: "r \<in> set cmds" "cr_request_id r = cr_request_id r'"
    by (auto dest: row_by_SomeD)
  moreover from assms(1) have "inj_on cr_request_id (set cmds)"
    by (simp add: keyed_def distinct_map)
  ultimately have "{x \<in> set cmds. cr_request_id x \<noteq> cr_request_id r'} = set cmds - {r}"
    by (auto simp: inj_on_def)
  moreover from r have "cr_request_id r' \<in> cr_request_id ` set cmds" by (metis image_eqI)
  ultimately show ?thesis by (simp add: set_put_row)
qed

text \<open>
  Replacing a command row by one with the same identity; \<open>applied\<close> may only be set.  The
  study's side of the invariant is re-established by the caller.
\<close>

definition same_identity :: "command_row \<Rightarrow> command_row \<Rightarrow> bool" where
  "same_identity r r' \<longleftrightarrow>
     cr_request_id r' = cr_request_id r \<and> cr_slug r' = cr_slug r \<and> cr_sequence r' = cr_sequence r
     \<and> cr_action r' = cr_action r \<and> cr_expected_revision r' = cr_expected_revision r
     \<and> cr_expected_digest r' = cr_expected_digest r \<and> cr_export r' = cr_export r
     \<and> (cr_applied r \<longrightarrow> cr_applied r')"

lemma backs_same_identity: "same_identity r r' \<Longrightarrow> backs E revs r' c = backs E revs r c"
  by (simp add: backs_def same_identity_def)

lemma keyed_command_put:
  assumes "keyed command_key cmds" "row_by cr_request_id (cr_request_id r') cmds = Some r"
    "keyed cr_request_id cmds" "same_identity r r'"
  shows "keyed command_key (put_row cr_request_id r' cmds)"
proof -
  have "map command_key (put_row cr_request_id r' cmds) = map command_key cmds"
  proof (rule nth_equalityI)
    fix i
    assume "i < length (map command_key (put_row cr_request_id r' cmds))"
    then have i: "i < length cmds" by (simp add: put_row_def)
    show "map command_key (put_row cr_request_id r' cmds) ! i = map command_key cmds ! i"
    proof (cases "cr_request_id (cmds ! i) = cr_request_id r'")
      case True
      with assms(2,3) i have "cmds ! i = r"
        by (simp add: row_by_Some_iff keyed_def distinct_map inj_on_def)
      with i True assms(4) show ?thesis by (simp add: put_row_def same_identity_def)
    next
      case False
      with i show ?thesis by (simp add: put_row_def)
    qed
  qed (simp add: put_row_def)
  with assms(1) show ?thesis by (simp add: keyed_def)
qed

lemma study_complete_put:
  assumes "study_complete cmds st" "keyed cr_request_id cmds"
    "row_by cr_request_id (cr_request_id r') cmds = Some r" "same_identity r r'"
  shows "study_complete (put_row cr_request_id r' cmds) st"
proof -
  have s: "set (put_row cr_request_id r' cmds) = insert r' (set cmds - {r})"
    by (rule put_command_set [OF assms(2,3)])
  have r: "r \<in> set cmds" using assms(3) by (auto dest: row_by_SomeD)
  have "command_key ` set (put_row cr_request_id r' cmds) = command_key ` set cmds"
    using r assms(4) unfolding s by (auto simp: same_identity_def image_iff)
  moreover have "applied_backed (put_row cr_request_id r' cmds) st" if app: "applied_backed cmds st"
  proof (cases "sr_applied_sequence st = 0")
    case False
    with app obtain x where x: "x \<in> set cmds" "command_key x = (sr_slug st, sr_applied_sequence st)"
      "cr_applied x" "sr_applied_action st = Some (cr_action x)"
      "sr_applied_revision st =
         (case cr_action x of PUBLISH \<Rightarrow> Some (cr_expected_revision x) | WITHDRAW \<Rightarrow> None)"
      by (auto simp: applied_backed_def)
    then show ?thesis
      unfolding applied_backed_def s
      by (intro disjI2 bexI [of _ "if x = r then r' else x"])
        (use assms(4) in \<open>auto simp: same_identity_def split: pub_action.splits\<close>)
  qed (simp add: applied_backed_def)
  ultimately show ?thesis using assms(1) by (simp add: study_complete_def)
qed

section \<open>Every transaction keeps the invariant\<close>

lemma transact_cases:
  assumes "transact db m = (db', r)"
  obtains e where "m = Inl e" "db' = db" "r = Inl e" | x where "m = Inr (db', x)" "r = Inr x"
  using assms by (auto simp: transact_def split: sum.splits prod.splits)

lemma repo_create_ok:
  assumes "priv_ok E db" "repo_create E db content = (db', r)"
  shows "priv_ok E db'"
proof (cases "db' = db")
  case False
  with assms(2) obtain st v db1 where st: "new_study_rows E content = Inr (st, v)"
    "insert_study db st = Inr db1" "insert_revision db1 v = Inr db'"
    by (auto simp: repo_create_def rbind_def split: sum.splits prod.splits)
  then have "sr_sequence st = 0" by (auto simp: new_study_rows_def)
  with st assms(1) show ?thesis by (blast intro: insert_study_ok insert_revision_ok)
qed (use assms in simp)

lemma insert_revision_studies: "insert_revision db v = Inr db' \<Longrightarrow> pv_studies db' = pv_studies db"
  by (auto simp: insert_revision_def split: if_splits)

lemma update_tx_ok:
  assumes ok: "priv_ok E db" and up: "update_tx E db slug n content = Inr (db', x)"
  shows "priv_ok E db'"
proof -
  from up obtain st v co k nxt db1 where
    row: "locked_study_rows db slug = Inr (Some (st, v, co))"
    and rv: "insert_revision db nxt = Inr db1"
    and fl: "flush_study db1 (st\<lparr>sr_current_revision := k, sr_approved := None\<rparr>) = Inr db'"
    by (auto simp: update_tx_def Let_def split: option.splits prod.splits)
  from rv have "pv_studies db1 = pv_studies db" by (rule insert_revision_studies)
  with locked_study_rows_Some(1,2) [OF row]
  have "row_by sr_slug (sr_slug st) (pv_studies db1) = Some st" by simp
  with insert_revision_ok [OF ok rv] fl show ?thesis
    by (intro flush_study_ok [of E db1 "st\<lparr>sr_current_revision := k, sr_approved := None\<rparr>" db' st]) simp_all
qed

lemma repo_update_ok:
  "priv_ok E db \<Longrightarrow> repo_update E db slug n content = (db', r) \<Longrightarrow> priv_ok E db'"
  unfolding repo_update_def by (erule transact_cases) (auto intro: update_tx_ok)

text \<open>A new command: the study moves to its sequence number.\<close>

lemma insert_command_ok:
  assumes ok: "priv_ok E db"
    and st: "row_by sr_slug (sr_slug st) (pv_studies db) = Some st"
    and ins: "insert_command db new = Inr db1" and fl: "flush_study db1 st' = Inr db'"
    and new: "cr_slug new = sr_slug st" "cr_sequence new = sr_sequence st + 1" "\<not> cr_applied new"
      "backs E (pv_revisions db) new c"
    and st': "sr_slug st' = sr_slug st" "sr_sequence st' = sr_sequence st + 1"
      "sr_applied_sequence st' = sr_applied_sequence st"
      "sr_applied_action st' = sr_applied_action st" "sr_applied_revision st' = sr_applied_revision st"
  shows "priv_ok E db'"
proof -
  from ins have db1: "db1 = db\<lparr>pv_commands := pv_commands db @ [new]\<rparr>"
    and fresh: "row_by cr_request_id (cr_request_id new) (pv_commands db) = None"
      "row_by command_key (command_key new) (pv_commands db) = None" "command_row_ok new"
    by (auto simp: insert_command_def split: if_splits)
  from fl have db': "db' = db1\<lparr>pv_studies := put_row sr_slug st' (pv_studies db)\<rparr>"
    and st_ok: "study_row_ok st'"
    by (auto simp: flush_study_def db1 split: if_splits)
  from ok have k: "keyed sr_slug (pv_studies db)" by (simp add: priv_ok_def keys_ok_def)
  from st st'(1) have st2: "row_by sr_slug (sr_slug st') (pv_studies db) = Some st" by simp
  note put = set_put_study [OF k st2]
  have comp: "study_complete (pv_commands db @ [new]) x" if "x \<in> set (pv_studies db)" for x
  proof (rule study_complete_mono)
    show "study_complete (pv_commands db) x" using ok that by (simp add: priv_ok_def)
  qed auto
  have "study_complete (pv_commands db @ [new]) st'"
  proof -
    from comp st have "study_complete (pv_commands db @ [new]) st" by (auto dest: row_by_SomeD)
    moreover have "(sr_slug st', k) \<in> command_key ` set (pv_commands db @ [new])"
      if "1 \<le> k" "k \<le> sr_sequence st'" for k
    proof (cases "k = sr_sequence st'")
      case True
      with new(1,2) st'(1,2) show ?thesis by (intro image_eqI [of _ _ new]) auto
    next
      case False
      with that st' \<open>study_complete (pv_commands db @ [new]) st\<close> show ?thesis
        unfolding study_complete_def by simp
    qed
    ultimately show ?thesis
      using st_ok st' by (simp add: study_complete_def applied_backed_def)
  qed
  moreover have "command_placed (put_row sr_slug st' (pv_studies db)) r" if "r \<in> set (pv_commands db)" for r
  proof (rule put_study_placed [OF k st2])
    show "command_placed (pv_studies db) r" using ok that by (simp add: priv_ok_def)
  qed (use st' in simp_all)
  moreover have "command_placed (put_row sr_slug st' (pv_studies db)) new"
    unfolding command_placed_def
  proof (intro conjI bexI [of _ st'])
    show "cr_sequence new \<le> sr_sequence st'" "sr_slug st' = cr_slug new"
      using new st' by simp_all
  qed (use fresh new put in simp_all)
  moreover have "keys_ok db'"
    using ok fresh unfolding db' db1 by (simp add: priv_ok_def keys_ok_def keyed_snoc)
  ultimately show ?thesis
    using ok new comp unfolding db' db1
    by (intro priv_okI) (auto simp: priv_ok_def put)
qed

text \<open>
  What preparing a command does: either an earlier request is repeated, and its recorded
  command comes back, or exactly one new command is recorded.
\<close>

lemma prepared_existing_Inr:
  assumes "priv_ok E db" "row_by cr_request_id rid (pv_commands db) = Some ex"
    "prepared_existing E st v co ex fp = Inr p"
  shows "recorded E db (pr_command p)" "pc_request_id (pr_command p) = rid"
proof -
  from assms(2) have ex: "ex \<in> set (pv_commands db)" "cr_request_id ex = rid" by (auto dest: row_by_SomeD)
  with assms(1) obtain c where c: "backs E (pv_revisions db) ex c" by (auto simp: priv_ok_def)
  from assms(3) have "command_from_row E ex = Inr (pr_command p)"
    by (auto simp: prepared_existing_def split: if_splits)
  with c have "pr_command p = c" by (rule command_from_row_backed)
  with c ex show "recorded E db (pr_command p)" "pc_request_id (pr_command p) = rid"
    by (auto simp: recorded_def backs_def)
qed

lemma recorded_snoc:
  "recorded E db c \<Longrightarrow> set (pv_commands db) \<subseteq> set (pv_commands db')
     \<Longrightarrow> set (pv_revisions db) \<subseteq> set (pv_revisions db') \<Longrightarrow> recorded E db' c"
  unfolding recorded_def by (blast intro: backs_mono)

lemma request_fingerprint_encodable:
  assumes "request_fingerprint E slug a n d rid = Inr fp"
  shows "encodable rid"
proof -
  let ?j = "JObj [(lit ''action'', JStr (action_value a)), (lit ''expected_digest'', JStr d),
    (lit ''expected_revision'', JInt n), (lit ''request_id'', JStr rid), (lit ''slug'', JStr slug)]"
  from assms have "\<exists>b. utf8_encode (dumps ?j) = Inr b"
    by (auto simp: request_fingerprint_def dumps_utf8_def)
  then have "encodable (dumps ?j)" by (simp only: utf8_encode_ok_iff)
  then show ?thesis by (simp add: encodable_json_str_iff)
qed

text \<open>
  The command built for a draft: what it publishes is the draft's own snapshot, and only if
  the caller confirmed its revision and its digest.
\<close>

definition build_command ::
  "pub_env \<Rightarrow> pub_draft \<Rightarrow> pub_action \<Rightarrow> int \<Rightarrow> pystr \<Rightarrow> pystr \<Rightarrow> (pub_draft \<times> pub_command) res" where
  "build_command E d action n expected_digest request_id =
     (case action of
        PUBLISH \<Rightarrow> rbind (draft_approve E d n expected_digest) (\<lambda>approved. draft_publish E approved request_id)
      | WITHDRAW \<Rightarrow>
          if n \<noteq> ss_revision (pd_snapshot d) then Inl revision_conflict
          else draft_withdraw E d request_id)"

lemma build_command_Inr:
  assumes "build_command E d action n dg rid = Inr (d', c)"
  shows "command_ok E c" "pc_action c = action" "pc_request_id c = rid"
    and "pc_slug c = sc_slug (ss_content (pd_snapshot d))" "pc_sequence c = pd_sequence d + 1"
    and "pd_sequence d' = pd_sequence d + 1" "pd_snapshot d' = pd_snapshot d"
    and "n = ss_revision (pd_snapshot d)"
    and "action = PUBLISH \<Longrightarrow> pc_snapshot c = Some (pd_snapshot d) \<and> pc_digest c = Some dg
           \<and> snapshot_digest E (pd_snapshot d) = Inr dg"
  using assms
  by (cases action; auto simp: build_command_def draft_approve_Inr
      dest: draft_publish_Inr draft_withdraw_Inr split: if_splits)+

lemma prepare_locked_new:
  assumes "row_by cr_request_id rid (pv_commands db) = None"
    and "prepare_command_locked E db st v co action n dg rid fp = Inr (db', p)"
  obtains x d c export new db1 st' where
    "state_from_rows E st v co = Inr x" "build_command E (ps_draft x) action n dg rid = Inr (d, c)"
    "payload_of (pc_snapshot c) = Inr export"
    "new = \<lparr>cr_request_id = rid, cr_slug = sr_slug st, cr_sequence = pc_sequence c,
       cr_action = action, cr_expected_revision = n, cr_expected_digest = dg, cr_fingerprint = fp,
       cr_export = export, cr_receipt = None, cr_error = None, cr_applied = False\<rparr>"
    "st' = st\<lparr>sr_sequence := pd_sequence d, sr_approved := pd_approved d\<rparr>"
    "insert_command db new = Inr db1" "flush_study db1 st' = Inr db'"
    "pr_command p = c" "pr_should_deliver p"
  using assms unfolding prepare_command_locked_def build_command_def [symmetric]
  by (auto simp: Let_def split: if_splits prod.splits)

lemma prepare_locked_ok:
  assumes ok: "priv_ok E db" and rid: "encodable rid"
    and st: "row_by sr_slug (sr_slug st) (pv_studies db) = Some st"
    and v: "row_by revision_key (sr_slug st, sr_current_revision st) (pv_revisions db) = Some v"
    and prep: "prepare_command_locked E db st v co action n dg rid fp = Inr (db', p)"
  shows "priv_ok E db' \<and> recorded E db' (pr_command p)
    \<and> set (pv_commands db) \<subseteq> set (pv_commands db') \<and> pv_revisions db' = pv_revisions db"
proof (cases "row_by cr_request_id rid (pv_commands db)")
  case (Some ex)
  with prep have "db' = db" "prepared_existing E st v co ex fp = Inr p"
    by (auto simp: prepare_command_locked_def)
  with ok Some show ?thesis by (auto dest: prepared_existing_Inr)
next
  case None
  from prepare_locked_new [OF None prep] obtain x d c export new db1 st' where
    x: "state_from_rows E st v co = Inr x" and b: "build_command E (ps_draft x) action n dg rid = Inr (d, c)"
    and e: "payload_of (pc_snapshot c) = Inr export"
    and new: "new = \<lparr>cr_request_id = rid, cr_slug = sr_slug st, cr_sequence = pc_sequence c,
       cr_action = action, cr_expected_revision = n, cr_expected_digest = dg, cr_fingerprint = fp,
       cr_export = export, cr_receipt = None, cr_error = None, cr_applied = False\<rparr>"
    and st': "st' = st\<lparr>sr_sequence := pd_sequence d, sr_approved := pd_approved d\<rparr>"
    and ins: "insert_command db new = Inr db1" and fl: "flush_study db1 st' = Inr db'"
    and p: "pr_command p = c" .
  note x = state_from_rows_Inr [OF x] and b = build_command_Inr [OF b]
  from v have v': "v \<in> set (pv_revisions db)" "vr_slug v = sr_slug st" "vr_revision v = sr_current_revision st"
    by (auto dest: row_by_SomeD)
  have backed: "backs E (pv_revisions db) new c"
    using b x v' e rid unfolding backs_def new by (auto intro!: bexI [of _ v])
  have "priv_ok E db'"
    by (rule insert_command_ok [OF ok st ins fl]) (use b x backed in \<open>simp_all add: new st'\<close>)
  moreover have "pv_commands db' = pv_commands db @ [new]" "pv_revisions db' = pv_revisions db"
    using ins fl by (auto simp: insert_command_def flush_study_def split: if_splits)
  ultimately show ?thesis using backed p by (auto simp: recorded_def)
qed

lemma locked_rows_lookup:
  assumes "locked_study_rows db slug = Inr (Some (st, v, co))"
  shows "row_by sr_slug (sr_slug st) (pv_studies db) = Some st"
    "row_by revision_key (sr_slug st, sr_current_revision st) (pv_revisions db) = Some v"
  using locked_study_rows_Some [OF assms] by simp_all

lemma resolve_request_race_Inr:
  "priv_ok E db \<Longrightarrow> resolve_request_race E db rid fp = Inr p \<Longrightarrow> recorded E db (pr_command p)"
  by (auto simp: resolve_request_race_def split: option.splits prod.splits dest: prepared_existing_Inr)

text \<open>Every transaction keeps recorded commands recorded; \<open>grows\<close> is what the delivery side sees.\<close>

definition grows :: "pub_env \<Rightarrow> private_db \<Rightarrow> private_db \<Rightarrow> bool" where
  "grows E db db' \<longleftrightarrow> priv_ok E db' \<and> (\<forall>c. recorded E db c \<longrightarrow> recorded E db' c)"

lemma repo_prepare_command_ok:
  assumes ok: "priv_ok E db" and prep: "repo_prepare_command E db slug a n dg rid = (db', r)"
  shows "grows E db db' \<and> (\<forall>p. r = Inr p \<longrightarrow> recorded E db' (pr_command p))"
proof (cases "request_fingerprint E slug a n dg rid")
  case (Inl e)
  with prep have "db' = db" "\<exists>e. r = Inl e" by (auto simp: repo_prepare_command_def split: if_splits)
  with ok show ?thesis by (auto simp: grows_def)
next
  case fp: (Inr fp)
  let ?m = "rbind (locked_study_rows db slug) (\<lambda>row.
             case row of
               None \<Rightarrow> Inl not_found
             | Some (st, v, co) \<Rightarrow> prepare_command_locked E db st v co a n dg rid fp)"
  from prep fp have t: "on_integrity_error db ?m
      (rbind (resolve_request_race E db rid fp) (\<lambda>p. Inr (db, p))) = (db', r)"
    by (simp add: repo_prepare_command_def)
  show ?thesis
  proof (cases r)
    case (Inl e)
    with t have "db' = db" by (auto simp: on_integrity_error_def transact_def split: sum.splits)
    with ok Inl show ?thesis by (simp add: grows_def)
  next
    case (Inr p)
    with t consider "?m = Inr (db', p)" | "db' = db" "resolve_request_race E db rid fp = Inr p"
      by (auto simp: on_integrity_error_def transact_def split: sum.splits exn.splits)
    then show ?thesis
    proof cases
      case 1
      then obtain st v co where row: "locked_study_rows db slug = Inr (Some (st, v, co))"
        and pl: "prepare_command_locked E db st v co a n dg rid fp = Inr (db', p)"
        by (auto split: option.splits)
      have "priv_ok E db'" "recorded E db' (pr_command p)"
        "set (pv_commands db) \<subseteq> set (pv_commands db')" "set (pv_revisions db) \<subseteq> set (pv_revisions db')"
        using prepare_locked_ok [OF ok request_fingerprint_encodable [OF fp] locked_rows_lookup [OF row] pl]
        by auto
      with Inr show ?thesis by (auto simp: grows_def intro: recorded_snoc)
    next
      case 2
      with ok Inr show ?thesis by (auto simp: grows_def dest: resolve_request_race_Inr)
    qed
  qed
qed

lemma prepare_initial_locked_Inr:
  "prepare_initial_locked E db st v co dg rid fp = Inr y \<Longrightarrow>
     prepare_command_locked E db st v co PUBLISH 1 dg rid fp = Inr y"
  by (auto simp: prepare_initial_locked_def Let_def split: if_splits)

lemma insert_rows_lookup:
  assumes "new_study_rows E content = Inr (st, v)"
    and "insert_study db st = Inr db1" "insert_revision db1 v = Inr db2"
  shows "row_by sr_slug (sr_slug st) (pv_studies db2) = Some st"
    and "row_by revision_key (sr_slug st, sr_current_revision st) (pv_revisions db2) = Some v"
    and "pv_commands db2 = pv_commands db" "set (pv_revisions db) \<subseteq> set (pv_revisions db2)"
    and "sr_sequence st = 0"
  using assms
  by (auto simp: new_study_rows_def insert_study_def insert_revision_def row_by_append
      split: if_splits option.splits)

lemma repo_prepare_initial_ok:
  assumes ok: "priv_ok E db" and prep: "repo_prepare_initial E db content dg rid = (db', r)"
  shows "grows E db db' \<and> (\<forall>p. r = Inr p \<longrightarrow> recorded E db' (pr_command p))"
proof (cases r)
  case (Inl e)
  with prep have "db' = db"
    by (auto simp: repo_prepare_initial_def on_integrity_error_def transact_def split: sum.splits)
  with ok Inl show ?thesis by (simp add: grows_def)
next
  case (Inr p)
  have locked: ?thesis
    if "prepare_initial_locked E d st v co dg rid fp = Inr (db', p)" "priv_ok E d" "encodable rid"
      "row_by sr_slug (sr_slug st) (pv_studies d) = Some st"
      "row_by revision_key (sr_slug st, sr_current_revision st) (pv_revisions d) = Some v"
      "pv_commands d = pv_commands db" "set (pv_revisions db) \<subseteq> set (pv_revisions d)"
    for d st v co fp
  proof -
    from prepare_locked_ok [OF that(2,3,4,5) prepare_initial_locked_Inr [OF that(1)]]
    have "priv_ok E db'" "recorded E db' (pr_command p)" "set (pv_commands db) \<subseteq> set (pv_commands db')"
      "set (pv_revisions db) \<subseteq> set (pv_revisions db')"
      using that(6,7) by auto
    with Inr show ?thesis by (auto simp: grows_def intro: recorded_snoc)
  qed
  from prep Inr obtain fp where
    fp: "request_fingerprint E (sc_slug content) PUBLISH 1 dg rid = Inr fp"
    by (auto simp: repo_prepare_initial_def recover_def rbind_def split: sum.splits if_splits)
  let ?row = "locked_study_rows db (sc_slug content)"
  from prep Inr fp consider
      (old) st v co where "?row = Inr (Some (st, v, co))"
        "prepare_initial_locked E db st v co dg rid fp = Inr (db', p)"
    | (new) st v db1 db2 where "new_study_rows E content = Inr (st, v)" "insert_study db st = Inr db1"
        "insert_revision db1 v = Inr db2" "prepare_initial_locked E db2 st v None dg rid fp = Inr (db', p)"
    by (auto simp: repo_prepare_initial_def recover_def rbind_def on_integrity_error_def transact_def
        resolve_initial_race_def split: sum.splits exn.splits option.splits if_splits prod.splits)
  then show ?thesis
  proof cases
    case old
    then show ?thesis
      using ok locked_rows_lookup [OF old(1)] request_fingerprint_encodable [OF fp]
      by (intro locked) auto
  next
    case new
    note look = insert_rows_lookup [OF new(1-3)]
    have "priv_ok E db2"
      using ok new look(5) by (blast intro: insert_study_ok insert_revision_ok)
    then show ?thesis
      using look request_fingerprint_encodable [OF fp] by (intro locked [OF new(4)]) auto
  qed
qed

section \<open>Receipts and failures\<close>

lemma acknowledged_same_identity [simp]: "same_identity c (acknowledged_command c rc)"
  by (simp add: same_identity_def acknowledged_command_def)

lemma acknowledged_command_sel [simp]:
  "cr_request_id (acknowledged_command c rc) = cr_request_id c"
  "cr_applied (acknowledged_command c rc)"
  by (auto simp: acknowledged_command_def)

lemma acknowledged_study_sel [simp]:
  "sr_slug (acknowledged_study st c rc) = sr_slug st"
  "sr_sequence (acknowledged_study st c rc) = sr_sequence st"
  "sr_applied_sequence (acknowledged_study st c rc) = max (sr_applied_sequence st) (rc_sequence rc)"
  by (auto simp: acknowledged_study_def)

lemma acknowledged_study_again [simp]:
  "acknowledged_study st (acknowledged_command c rc) rc = acknowledged_study st c rc"
  by (auto simp: acknowledged_study_def acknowledged_command_def split: pub_action.splits)

text \<open>Changing a command row without touching its identity.\<close>

lemma put_command_ok:
  assumes ok: "priv_ok E db" and r: "row_by cr_request_id (cr_request_id r') (pv_commands db) = Some r"
    and id: "same_identity r r'" and placed: "command_placed (pv_studies db) r'"
  shows "priv_ok E (db\<lparr>pv_commands := put_row cr_request_id r' (pv_commands db)\<rparr>)"
proof -
  from ok have k: "keyed cr_request_id (pv_commands db)" "keyed command_key (pv_commands db)"
    by (simp_all add: priv_ok_def keys_ok_def)
  note s = put_command_set [OF k(1) r]
  from r have "r \<in> set (pv_commands db)" by (auto dest: row_by_SomeD)
  with ok id have "\<exists>c. backs E (pv_revisions db) r' c"
    by (auto simp: priv_ok_def backs_same_identity)
  with ok k placed keyed_command_put [OF k(2) r k(1) id] study_complete_put [OF _ k(1) r id]
  show ?thesis
    by (intro priv_okI) (auto simp: priv_ok_def keys_ok_def s)
qed

lemma recorded_put_command:
  assumes "keyed cr_request_id (pv_commands db)"
    "row_by cr_request_id (cr_request_id r') (pv_commands db) = Some r" "same_identity r r'"
    and "recorded E db c" "pv_commands db' = put_row cr_request_id r' (pv_commands db)"
    and "pv_revisions db' = pv_revisions db"
  shows "recorded E db' c"
proof -
  from assms(4) obtain x where "x \<in> set (pv_commands db)" "backs E (pv_revisions db) x c"
    by (auto simp: recorded_def)
  then show ?thesis
    using assms(3,6) unfolding recorded_def assms(5) put_command_set [OF assms(1,2)]
    by (cases "x = r") (auto simp: backs_same_identity)
qed

lemma record_failure_tx_Inr:
  assumes "record_failure_tx E db rid code = Inr (db', x)"
  obtains "db' = db"
  | c where "row_by cr_request_id rid (pv_commands db) = Some c" "\<not> cr_applied c"
      "command_row_ok (c\<lparr>cr_error := Some (safe_error_code code)\<rparr>)"
      "db' = db\<lparr>pv_commands := put_row cr_request_id (c\<lparr>cr_error := Some (safe_error_code code)\<rparr>)
         (pv_commands db)\<rparr>"
  using assms by (auto simp: record_failure_tx_def flush_command_def split: option.splits if_splits prod.splits)

lemma record_failure_tx_ok:
  assumes ok: "priv_ok E db" and tx: "record_failure_tx E db rid code = Inr (db', x)"
  shows "grows E db db'" "pv_studies db' = pv_studies db"
  using tx
proof (atomize (full), cases rule: record_failure_tx_Inr)
  case 1
  with ok show "grows E db db' \<and> pv_studies db' = pv_studies db" by (simp add: grows_def)
next
  case (2 c)
  let ?r = "c\<lparr>cr_error := Some (safe_error_code code)\<rparr>"
  from 2(1) have row: "row_by cr_request_id (cr_request_id ?r) (pv_commands db) = Some c"
    by (auto dest: row_by_SomeD)
  have id: "same_identity c ?r" by (simp add: same_identity_def)
  from row have "c \<in> set (pv_commands db)" by (auto dest: row_by_SomeD)
  with ok 2(3) have "command_placed (pv_studies db) ?r"
    by (auto simp: priv_ok_def command_placed_def)
  from put_command_ok [OF ok row id this] 2(4) have "priv_ok E db'" by simp
  moreover from ok have "keyed cr_request_id (pv_commands db)" by (simp add: priv_ok_def keys_ok_def)
  ultimately show "grows E db db' \<and> pv_studies db' = pv_studies db"
    using recorded_put_command [OF _ row id] 2(4) by (auto simp: grows_def)
qed

lemma acknowledge_tx_Inr:
  assumes "acknowledge_tx E db rc = Inr (db', x)"
  obtains c st v co where
    "row_by cr_request_id (rc_request_id rc) (pv_commands db) = Some c"
    "rc_slug rc = cr_slug c" "rc_sequence rc = cr_sequence c" "rc_action rc = cr_action c"
    "locked_study_rows db (cr_slug c) = Inr (Some (st, v, co))"
    "command_row_ok (acknowledged_command c rc)" "study_row_ok (acknowledged_study st c rc)"
    "db' = db\<lparr>pv_commands := put_row cr_request_id (acknowledged_command c rc) (pv_commands db),
       pv_studies := put_row sr_slug (acknowledged_study st c rc) (pv_studies db)\<rparr>"
  using assms
  by (auto simp: acknowledge_tx_def flush_command_def flush_study_def
      split: option.splits if_splits prod.splits)


text \<open>
  An acknowledgement changes one command row and one study row: the command becomes applied,
  the study's applied sequence becomes the maximum of what it was and the receipt's.
\<close>

lemma acknowledged_study_complete:
  assumes comp: "study_complete cmds st" and c: "c \<in> set cmds" "cr_applied c"
    and match: "sr_slug st = cr_slug c" "rc_sequence rc = cr_sequence c" "rc_action rc = cr_action c"
    and ok: "study_row_ok (acknowledged_study st c rc)"
  shows "study_complete cmds (acknowledged_study st c rc)"
proof -
  have "applied_backed cmds (acknowledged_study st c rc)"
  proof (cases "rc_sequence rc > sr_applied_sequence st")
    case True
    with c match show ?thesis
      unfolding applied_backed_def by (intro disjI2 bexI [of _ c]) (auto simp: acknowledged_study_def)
  next
    case False
    then have "acknowledged_study st c rc = st" by (simp add: acknowledged_study_def)
    with comp show ?thesis by (simp add: study_complete_def)
  qed
  with comp ok show ?thesis by (simp add: study_complete_def)
qed

lemma acknowledge_tx_ok:
  assumes ok: "priv_ok E db" and tx: "acknowledge_tx E db rc = Inr (db', x)"
  obtains "grows E db db'" "pv_revisions db' = pv_revisions db"
    and "\<And>st'. st' \<in> set (pv_studies db') \<Longrightarrow>
      \<exists>st \<in> set (pv_studies db). sr_slug st' = sr_slug st \<and> sr_sequence st' = sr_sequence st
        \<and> sr_applied_sequence st' =
            (if sr_slug st = rc_slug rc then max (sr_applied_sequence st) (rc_sequence rc)
             else sr_applied_sequence st)"
proof -
  from tx obtain c st v co where
    c: "row_by cr_request_id (rc_request_id rc) (pv_commands db) = Some c"
    and m: "rc_slug rc = cr_slug c" "rc_sequence rc = cr_sequence c" "rc_action rc = cr_action c"
    and row: "locked_study_rows db (cr_slug c) = Inr (Some (st, v, co))"
    and rows: "command_row_ok (acknowledged_command c rc)" "study_row_ok (acknowledged_study st c rc)"
    and db': "db' = db\<lparr>pv_commands := put_row cr_request_id (acknowledged_command c rc) (pv_commands db),
       pv_studies := put_row sr_slug (acknowledged_study st c rc) (pv_studies db)\<rparr>"
    by (rule acknowledge_tx_Inr)
  let ?c = "acknowledged_command c rc" and ?st = "acknowledged_study st c rc"
  let ?cmds = "put_row cr_request_id ?c (pv_commands db)"
  let ?sts = "put_row sr_slug ?st (pv_studies db)"
  from ok have k: "keyed cr_request_id (pv_commands db)" "keyed command_key (pv_commands db)"
    "keyed sr_slug (pv_studies db)" by (simp_all add: priv_ok_def keys_ok_def)
  from c have c_in: "c \<in> set (pv_commands db)" "cr_request_id c = rc_request_id rc"
    by (auto dest: row_by_SomeD)
  with c have cr: "row_by cr_request_id (cr_request_id ?c) (pv_commands db) = Some c" by simp
  note st = locked_study_rows_Some(1,2) [OF row]
  have sr: "row_by sr_slug (sr_slug ?st) (pv_studies db) = Some st" using st by simp
  note sc = put_command_set [OF k(1) cr] and ss = set_put_study [OF k(3) sr]
  from sr have st_in: "st \<in> set (pv_studies db)" by (auto dest: row_by_SomeD)
  have id: "same_identity c ?c" by simp
  have comp: "study_complete ?cmds y" if "y \<in> set (pv_studies db)" for y
  proof (rule study_complete_put [OF _ k(1) cr id])
    show "study_complete (pv_commands db) y" using ok that by (simp add: priv_ok_def)
  qed
  have placed: "command_placed ?sts y" if "y \<in> set (pv_commands db)" for y
  proof (rule put_study_placed [OF k(3) sr])
    show "command_placed (pv_studies db) y" using ok that by (simp add: priv_ok_def)
  qed simp_all
  have placed_c: "command_placed ?sts ?c"
    unfolding command_placed_def
  proof (intro conjI bexI [of _ ?st])
    show "?st \<in> set ?sts" by (simp add: ss)
    show "sr_slug ?st = cr_slug ?c" using st(2) id by (simp add: same_identity_def)
    from ok c_in(1) obtain y where y: "y \<in> set (pv_studies db)" "sr_slug y = cr_slug c"
      "cr_sequence c \<le> sr_sequence y" by (auto simp: priv_ok_def command_placed_def)
    with st k(3) have "y = st" by (simp add: row_by_Some_iff keyed_def distinct_map inj_on_def)
    with y id show "cr_sequence ?c \<le> sr_sequence ?st" by (simp add: same_identity_def)
    show "cr_applied ?c \<longrightarrow> cr_sequence ?c \<le> sr_applied_sequence ?st"
      using id m(2) by (simp add: same_identity_def)
  qed (rule rows(1))
  have "study_complete ?cmds (acknowledged_study st ?c rc)"
    by (rule acknowledged_study_complete [OF comp [OF st_in]])
      (use st(2) m id rows(2) in \<open>simp_all add: sc same_identity_def\<close>)
  then have comp_st: "study_complete ?cmds ?st" by simp
  have "priv_ok E db'"
    unfolding db'
  proof (rule priv_okI)
    show "keys_ok (db\<lparr>pv_commands := ?cmds, pv_studies := ?sts\<rparr>)"
      using ok keyed_command_put [OF k(2) cr k(1) id] by (simp add: priv_ok_def keys_ok_def)
  next
    fix y
    assume "y \<in> set (pv_commands (db\<lparr>pv_commands := ?cmds, pv_studies := ?sts\<rparr>))"
    then have y: "y = ?c \<or> y \<in> set (pv_commands db)" by (auto simp: sc)
    from ok c_in(1) obtain z where "backs E (pv_revisions db) c z" by (auto simp: priv_ok_def)
    then have "backs E (pv_revisions db) ?c z" by (simp only: backs_same_identity [OF id])
    with y ok show "\<exists>c. backs E (pv_revisions (db\<lparr>pv_commands := ?cmds, pv_studies := ?sts\<rparr>)) y c"
      by (auto simp: priv_ok_def)
    from y placed placed_c show "command_placed (pv_studies (db\<lparr>pv_commands := ?cmds, pv_studies := ?sts\<rparr>)) y"
      by auto
  next
    fix y
    assume "y \<in> set (pv_studies (db\<lparr>pv_commands := ?cmds, pv_studies := ?sts\<rparr>))"
    then show "study_complete (pv_commands (db\<lparr>pv_commands := ?cmds, pv_studies := ?sts\<rparr>)) y"
      using comp comp_st by (auto simp: ss)
  qed
  moreover have "recorded E db' y" if "recorded E db y" for y
    by (rule recorded_put_command [OF k(1) cr id that]) (simp_all add: db')
  moreover have "\<exists>y \<in> set (pv_studies db). sr_slug st' = sr_slug y \<and> sr_sequence st' = sr_sequence y
      \<and> sr_applied_sequence st' =
          (if sr_slug y = rc_slug rc then max (sr_applied_sequence y) (rc_sequence rc)
           else sr_applied_sequence y)" if "st' \<in> set (pv_studies db')" for st'
  proof (cases "st' = ?st")
    case True
    with st st_in m show ?thesis by (intro bexI [of _ st]) simp_all
  next
    case False
    with that have "st' \<in> set (pv_studies db)" "sr_slug st' \<noteq> sr_slug ?st" by (auto simp: db' ss)
    with st m show ?thesis by (intro bexI [of _ st']) simp_all
  qed
  ultimately show thesis using that by (simp add: grows_def db')
qed

end
