(* ===== verification/Publishing_System.thy ===== *)
theory Publishing_System
  imports Publishing_Invariant
begin

text \<open>
  The publishing system as a whole: the private store, the public store, the commands handed
  to a delivery and the receipts on their way back.  Every transaction of the repository and
  of the public writer is one step.  A delivery that crashes or times out is a delivery step
  that does not happen, a receipt that is lost one that is never acknowledged; deliveries may
  be repeated and reordered at will.
\<close>

section \<open>States and steps\<close>

record pub_system =
  sy_private :: private_db
  sy_public :: public_db
  sy_inflight :: "pub_command set"
  sy_receipts :: "receipt set"

definition initial_system :: pub_system where
  "initial_system =
     \<lparr>sy_private = empty_private_db, sy_public = empty_public_db, sy_inflight = {}, sy_receipts = {}\<rparr>"

text \<open>
  What a preparing transaction hands on: the command, when the caller is told to deliver it.
\<close>

definition handed_over :: "prepared_publication res \<Rightarrow> pub_command set" where
  "handed_over r = (case r of Inl _ \<Rightarrow> {} | Inr p \<Rightarrow> if pr_should_deliver p then {pr_command p} else {})"

text \<open>A \<^verbatim>\<open>StudyContent\<close> instance is a value pydantic's validation returned.\<close>

definition content_instance :: "pub_env \<Rightarrow> study_content \<Rightarrow> bool" where
  "content_instance E c \<longleftrightarrow> (\<exists>raw. validate_content E raw = Inr c)"

inductive pub_step :: "pub_env \<Rightarrow> pub_system \<Rightarrow> pub_system \<Rightarrow> bool" for E :: pub_env where
  step_create:
    "content_instance E content \<Longrightarrow> repo_create E (sy_private s) content = (db, r) \<Longrightarrow>
       pub_step E s (s\<lparr>sy_private := db\<rparr>)"
| step_update:
    "content_instance E content \<Longrightarrow> repo_update E (sy_private s) slug n content = (db, r) \<Longrightarrow>
       pub_step E s (s\<lparr>sy_private := db\<rparr>)"
| step_prepare:
    "repo_prepare_command E (sy_private s) slug a n digest rid = (db, r) \<Longrightarrow>
       pub_step E s (s\<lparr>sy_private := db, sy_inflight := sy_inflight s \<union> handed_over r\<rparr>)"
| step_prepare_initial:
    "content_instance E content \<Longrightarrow> repo_prepare_initial E (sy_private s) content digest rid = (db, r) \<Longrightarrow>
       pub_step E s (s\<lparr>sy_private := db, sy_inflight := sy_inflight s \<union> handed_over r\<rparr>)"
| step_deliver:
    "c \<in> sy_inflight s \<Longrightarrow> writer_apply E (sy_public s) c = Inr (db, rc) \<Longrightarrow>
       pub_step E s (s\<lparr>sy_public := db, sy_receipts := insert rc (sy_receipts s)\<rparr>)"
| step_acknowledge:
    "rc \<in> sy_receipts s \<Longrightarrow> repo_acknowledge E (sy_private s) rc = (db, r) \<Longrightarrow>
       pub_step E s (s\<lparr>sy_private := db\<rparr>)"
| step_record_failure:
    "repo_record_failure E (sy_private s) rid code = (db, r) \<Longrightarrow>
       pub_step E s (s\<lparr>sy_private := db\<rparr>)"

definition pub_reachable :: "pub_env \<Rightarrow> pub_system \<Rightarrow> bool" where
  "pub_reachable E s \<longleftrightarrow> (pub_step E)\<^sup>*\<^sup>* initial_system s"

inductive_cases pub_stepE: "pub_step E s s'"

section \<open>The system invariant\<close>

definition public_seq :: "public_db \<Rightarrow> pystr \<Rightarrow> int" where
  "public_seq db slug = (case public_cell db slug of None \<Rightarrow> 0 | Some r \<Rightarrow> jr_sequence r)"

text \<open>A command whose effect the public store has seen.\<close>

definition delivered :: "pub_env \<Rightarrow> public_db \<Rightarrow> pub_command \<Rightarrow> bool" where
  "delivered E db c \<longleftrightarrow> pc_sequence c \<le> public_seq db (pc_slug c)"

definition public_from :: "pub_env \<Rightarrow> private_db \<Rightarrow> public_db \<Rightarrow> bool" where
  "public_from E priv pub \<longleftrightarrow>
     (\<forall>slug r. public_cell pub slug = Some r \<longrightarrow> (\<exists>c. recorded E priv c \<and> pc_slug c = slug \<and> r = row_of c))
     \<and> (\<forall>rid fp. (rid, fp) \<in> set (db_history pub) \<longrightarrow>
          (\<exists>c. recorded E priv c \<and> pc_request_id c = rid \<and> command_fingerprint E c = Inr fp \<and> delivered E pub c))"

definition receipts_from :: "pub_env \<Rightarrow> private_db \<Rightarrow> public_db \<Rightarrow> receipt set \<Rightarrow> bool" where
  "receipts_from E priv pub R \<longleftrightarrow>
     (\<forall>rc \<in> R. \<exists>c. recorded E priv c \<and> rc = receipt_of c \<and> delivered E pub c)"

definition applied_behind :: "private_db \<Rightarrow> public_db \<Rightarrow> bool" where
  "applied_behind priv pub \<longleftrightarrow>
     (\<forall>st \<in> set (pv_studies priv). sr_applied_sequence st \<le> public_seq pub (sr_slug st))"

definition sys_ok :: "pub_env \<Rightarrow> pub_system \<Rightarrow> bool" where
  "sys_ok E s \<longleftrightarrow>
     priv_ok E (sy_private s) \<and> store_ok E (sy_public s)
     \<and> (\<forall>c \<in> sy_inflight s. recorded E (sy_private s) c)
     \<and> public_from E (sy_private s) (sy_public s)
     \<and> receipts_from E (sy_private s) (sy_public s) (sy_receipts s)
     \<and> applied_behind (sy_private s) (sy_public s)"

lemma sys_okI:
  assumes "priv_ok E (sy_private s)" "store_ok E (sy_public s)"
    and "\<And>c. c \<in> sy_inflight s \<Longrightarrow> recorded E (sy_private s) c"
    and "public_from E (sy_private s) (sy_public s)"
    and "receipts_from E (sy_private s) (sy_public s) (sy_receipts s)"
    and "applied_behind (sy_private s) (sy_public s)"
  shows "sys_ok E s"
  using assms by (simp add: sys_ok_def)

lemma sys_okD:
  assumes "sys_ok E s"
  shows "priv_ok E (sy_private s)" "store_ok E (sy_public s)"
    and "c \<in> sy_inflight s \<Longrightarrow> recorded E (sy_private s) c"
    and "public_from E (sy_private s) (sy_public s)"
    and "receipts_from E (sy_private s) (sy_public s) (sy_receipts s)"
    and "applied_behind (sy_private s) (sy_public s)"
  using assms by (auto simp: sys_ok_def)

lemma sys_ok_initial: "sys_ok E initial_system"
  by (rule sys_okI)
    (simp_all add: initial_system_def public_from_def receipts_from_def applied_behind_def
      empty_public_db_def public_cell_def empty_private_db_def priv_ok_def keys_ok_def
      store_ok_def)

subsection \<open>Private steps\<close>

lemma public_from_grows: "public_from E priv pub \<Longrightarrow> grows E priv priv' \<Longrightarrow> public_from E priv' pub"
  unfolding public_from_def grows_def by meson

lemma receipts_from_grows: "receipts_from E priv pub R \<Longrightarrow> grows E priv priv' \<Longrightarrow> receipts_from E priv' pub R"
  unfolding receipts_from_def grows_def by meson

text \<open>The study rows keep what they call applied, or are new.\<close>

definition applied_kept :: "private_db \<Rightarrow> private_db \<Rightarrow> bool" where
  "applied_kept db db' \<longleftrightarrow>
     (\<forall>st' \<in> set (pv_studies db'). sr_applied_sequence st' = 0
        \<or> (\<exists>st \<in> set (pv_studies db). sr_slug st = sr_slug st' \<and> sr_applied_sequence st = sr_applied_sequence st'))"

lemma public_seq_nonneg: "store_ok E pub \<Longrightarrow> 0 \<le> public_seq pub slug"
proof (cases "public_cell pub slug")
  case (Some r)
  assume "store_ok E pub"
  with Some obtain c where "command_ok E c" "r = row_of c"
    unfolding public_cell_def by (metis store_row)
  with Some show ?thesis by (auto simp: public_seq_def dest: command_ok_basic)
qed (simp add: public_seq_def)

lemma applied_behind_kept:
  assumes "applied_behind db pub" "applied_kept db db'" "store_ok E pub"
  shows "applied_behind db' pub"
  unfolding applied_behind_def
proof
  fix st'
  assume "st' \<in> set (pv_studies db')"
  with assms(2) consider "sr_applied_sequence st' = 0" |
    st where "st \<in> set (pv_studies db)" "sr_slug st = sr_slug st'"
      "sr_applied_sequence st = sr_applied_sequence st'"
    by (auto simp: applied_kept_def)
  then show "sr_applied_sequence st' \<le> public_seq pub (sr_slug st')"
  proof cases
    case 1
    with public_seq_nonneg [OF assms(3)] show ?thesis by simp
  next
    case 2
    with assms(1) show ?thesis by (auto simp: applied_behind_def)
  qed
qed

lemma private_step_ok:
  assumes ok: "sys_ok E s" and g: "grows E (sy_private s) db" and k: "applied_kept (sy_private s) db"
    and i: "\<And>c. c \<in> I \<Longrightarrow> recorded E db c"
  shows "sys_ok E (s\<lparr>sy_private := db, sy_inflight := sy_inflight s \<union> I\<rparr>)"
proof (rule sys_okI)
  show "priv_ok E (sy_private (s\<lparr>sy_private := db, sy_inflight := sy_inflight s \<union> I\<rparr>))"
    using g by (simp add: grows_def)
  show "recorded E (sy_private (s\<lparr>sy_private := db, sy_inflight := sy_inflight s \<union> I\<rparr>)) c"
    if "c \<in> sy_inflight (s\<lparr>sy_private := db, sy_inflight := sy_inflight s \<union> I\<rparr>)" for c
    using that g i sys_okD(3) [OF ok] by (auto simp: grows_def)
qed (use sys_okD [OF ok] g k in \<open>auto intro: public_from_grows receipts_from_grows applied_behind_kept\<close>)

lemma private_step_only:
  "sys_ok E s \<Longrightarrow> grows E (sy_private s) db \<Longrightarrow> applied_kept (sy_private s) db
    \<Longrightarrow> sys_ok E (s\<lparr>sy_private := db\<rparr>)"
  using private_step_ok [of E s db "{}"] by simp

lemma handed_over_recorded:
  "(\<forall>p. r = Inr p \<longrightarrow> recorded E db (pr_command p)) \<Longrightarrow> c \<in> handed_over r \<Longrightarrow> recorded E db c"
  by (auto simp: handed_over_def split: sum.splits if_splits)


lemma applied_kept_refl [simp]: "applied_kept db db"
  by (auto simp: applied_kept_def)

lemma applied_kept_same: "pv_studies db' = pv_studies db \<Longrightarrow> applied_kept db db'"
  by (auto simp: applied_kept_def)

lemma applied_kept_trans: "applied_kept db db1 \<Longrightarrow> applied_kept db1 db2 \<Longrightarrow> applied_kept db db2"
  unfolding applied_kept_def by metis

lemma insert_study_kept: "insert_study db st = Inr db' \<Longrightarrow> sr_applied_sequence st = 0 \<Longrightarrow> applied_kept db db'"
  by (auto simp: insert_study_def applied_kept_def split: if_splits)

lemma flush_study_kept:
  assumes fl: "flush_study db st' = Inr db'" and st: "row_by sr_slug (sr_slug st') (pv_studies db) = Some st"
    and app: "sr_applied_sequence st' = sr_applied_sequence st"
  shows "applied_kept db db'"
  unfolding applied_kept_def
proof
  fix x
  assume x: "x \<in> set (pv_studies db')"
  from fl have "pv_studies db' = put_row sr_slug st' (pv_studies db)"
    by (auto simp: flush_study_def split: if_splits)
  with x have "x = st' \<or> x \<in> set (pv_studies db)" by (auto simp: set_put_row split: if_splits)
  with st app show "sr_applied_sequence x = 0 \<or> (\<exists>st \<in> set (pv_studies db).
      sr_slug st = sr_slug x \<and> sr_applied_sequence st = sr_applied_sequence x)"
    by (auto dest: row_by_SomeD)
qed

lemma insert_command_studies: "insert_command db c = Inr db' \<Longrightarrow> pv_studies db' = pv_studies db"
  by (auto simp: insert_command_def split: if_splits)

lemma new_study_rows_zero: "new_study_rows E content = Inr (st, v) \<Longrightarrow> sr_applied_sequence st = 0"
  by (auto simp: new_study_rows_def)

lemma repo_create_kept:
  assumes "repo_create E db content = (db', r)"
  shows "applied_kept db db' \<and> set (pv_commands db) \<subseteq> set (pv_commands db')
    \<and> set (pv_revisions db) \<subseteq> set (pv_revisions db')"
proof (cases "db' = db")
  case False
  with assms obtain st v db1 where st: "new_study_rows E content = Inr (st, v)"
    "insert_study db st = Inr db1" "insert_revision db1 v = Inr db'"
    by (auto simp: repo_create_def rbind_def split: sum.splits prod.splits)
  have "applied_kept db db1" by (rule insert_study_kept [OF st(2) new_study_rows_zero [OF st(1)]])
  moreover have "applied_kept db1 db'" by (rule applied_kept_same [OF insert_revision_studies [OF st(3)]])
  ultimately have "applied_kept db db'" by (rule applied_kept_trans)
  with st(2,3) show ?thesis
    by (auto simp: insert_study_def insert_revision_def split: if_splits)
qed simp

lemma repo_update_kept:
  assumes "repo_update E db slug n content = (db', r)"
  shows "applied_kept db db' \<and> set (pv_commands db) \<subseteq> set (pv_commands db')
    \<and> set (pv_revisions db) \<subseteq> set (pv_revisions db')"
proof (cases "db' = db")
  case False
  with assms obtain x where "update_tx E db slug n content = Inr (db', x)"
    by (auto simp: repo_update_def transact_def split: sum.splits prod.splits)
  then obtain st v co k nxt db1 where
    row: "locked_study_rows db slug = Inr (Some (st, v, co))"
    and rv: "insert_revision db nxt = Inr db1"
    and fl: "flush_study db1 (st\<lparr>sr_current_revision := k, sr_approved := None\<rparr>) = Inr db'"
    by (auto simp: update_tx_def Let_def split: option.splits prod.splits)
  have same: "pv_studies db1 = pv_studies db" by (rule insert_revision_studies [OF rv])
  with locked_rows_lookup(1) [OF row] have "applied_kept db1 db'"
    by (intro flush_study_kept [OF fl]) auto
  with same have "applied_kept db db'" by (blast intro: applied_kept_same applied_kept_trans)
  with rv fl show ?thesis
    by (auto simp: flush_study_def insert_revision_def split: if_splits)
qed simp

lemma grows_subset:
  "priv_ok E db' \<Longrightarrow> set (pv_commands db) \<subseteq> set (pv_commands db')
     \<Longrightarrow> set (pv_revisions db) \<subseteq> set (pv_revisions db') \<Longrightarrow> grows E db db'"
  by (auto simp: grows_def intro: recorded_snoc)

lemma prepare_locked_kept:
  assumes st: "row_by sr_slug (sr_slug st) (pv_studies db) = Some st"
    and prep: "prepare_command_locked E db st v co action n dg rid fp = Inr (db', p)"
  shows "applied_kept db db'"
proof (cases "row_by cr_request_id rid (pv_commands db)")
  case (Some ex)
  with prep show ?thesis by (auto simp: prepare_command_locked_def)
next
  case None
  from prepare_locked_new [OF None prep] have "\<exists>k a new db1. insert_command db new = Inr db1
      \<and> flush_study db1 (st\<lparr>sr_sequence := k, sr_approved := a\<rparr>) = Inr db'"
    by metis
  then obtain k a new db1 where
    ins: "insert_command db new = Inr db1"
    and fl: "flush_study db1 (st\<lparr>sr_sequence := k, sr_approved := a\<rparr>) = Inr db'"
    by blast
  have same: "pv_studies db1 = pv_studies db" by (rule insert_command_studies [OF ins])
  with st have "applied_kept db1 db'" by (intro flush_study_kept [OF fl]) auto
  with same show ?thesis by (blast intro: applied_kept_same applied_kept_trans)
qed

lemma repo_prepare_command_kept:
  assumes "repo_prepare_command E db slug a n dg rid = (db', r)"
  shows "applied_kept db db'"
proof (cases "db' = db")
  case False
  with assms obtain fp st v co p where
    "locked_study_rows db slug = Inr (Some (st, v, co))"
    "prepare_command_locked E db st v co a n dg rid fp = Inr (db', p)"
    by (auto simp: repo_prepare_command_def on_integrity_error_def transact_def
        split: sum.splits exn.splits option.splits prod.splits)
  then show ?thesis by (blast intro: prepare_locked_kept locked_rows_lookup)
qed simp

lemma repo_prepare_initial_kept:
  assumes "repo_prepare_initial E db content dg rid = (db', r)"
  shows "applied_kept db db'"
proof (cases "db' = db")
  case False
  let ?row = "locked_study_rows db (sc_slug content)"
  from assms False consider
      (old) st v co fp p where "?row = Inr (Some (st, v, co))"
        "prepare_initial_locked E db st v co dg rid fp = Inr (db', p)"
    | (new) st v db1 db2 fp p where "new_study_rows E content = Inr (st, v)" "insert_study db st = Inr db1"
        "insert_revision db1 v = Inr db2" "prepare_initial_locked E db2 st v None dg rid fp = Inr (db', p)"
    by (auto simp: repo_prepare_initial_def recover_def rbind_def on_integrity_error_def transact_def
        resolve_initial_race_def split: sum.splits exn.splits option.splits if_splits prod.splits)
  then show ?thesis
  proof cases
    case old
    then show ?thesis
      by (blast intro: prepare_locked_kept locked_rows_lookup prepare_initial_locked_Inr)
  next
    case new
    have "applied_kept db db1" by (rule insert_study_kept [OF new(2) new_study_rows_zero [OF new(1)]])
    moreover have "applied_kept db1 db2"
      by (rule applied_kept_same [OF insert_revision_studies [OF new(3)]])
    moreover have "applied_kept db2 db'"
      by (rule prepare_locked_kept [OF insert_rows_lookup(1) [OF new(1-3)] prepare_initial_locked_Inr [OF new(4)]])
    ultimately show ?thesis by (blast intro: applied_kept_trans)
  qed
qed simp


subsection \<open>Deliveries and acknowledgements\<close>

lemma public_seq_put:
  "public_seq (store_put db c fp) slug = (if slug = pc_slug c then pc_sequence c else public_seq db slug)"
  by (simp add: public_seq_def)

lemma deliver_seq_mono:
  assumes inv: "store_ok E db" and w: "writer_apply E db c = Inr (db', rc)"
  shows "public_seq db slug \<le> public_seq db' slug"
proof -
  from inv w obtain fp where c: "command_ok E c"
    and "row_by fst (pc_request_id c) (db_history db) = Some (pc_request_id c, fp) \<and> db' = db
       \<or> (row_by fst (pc_request_id c) (db_history db) = None \<and> db' = store_put db c fp
          \<and> (\<forall>r. row_by jr_slug (pc_slug c) (db_projections db) = Some r \<longrightarrow> jr_sequence r < pc_sequence c))"
    by (rule writer_apply_Inr)
  then consider "db' = db" | "db' = store_put db c fp"
      "\<forall>r. public_cell db (pc_slug c) = Some r \<longrightarrow> jr_sequence r < pc_sequence c"
    by (auto simp: public_cell_def)
  then show ?thesis
  proof cases
    case 2
    from command_ok_basic [OF c] have "1 \<le> pc_sequence c" by simp
    with 2 show ?thesis
      by (auto simp: public_seq_put public_seq_def split: option.splits)
  qed simp
qed

lemma delivered_mono:
  "store_ok E db \<Longrightarrow> writer_apply E db c = Inr (db', rc) \<Longrightarrow> delivered E db x \<Longrightarrow> delivered E db' x"
  unfolding delivered_def by (meson deliver_seq_mono order_trans)

lemma deliver_delivered:
  assumes ok: "sys_ok E s" and c: "recorded E (sy_private s) c"
    and w: "writer_apply E (sy_public s) c = Inr (db', rc)"
  shows "store_ok E db'" "rc = receipt_of c" "delivered E db' c" "public_from E (sy_private s) db'"
proof -
  note inv = sys_okD(2) [OF ok] and from_old = sys_okD(4) [OF ok]
  from inv w obtain fp where fp: "command_fingerprint E c = Inr fp" and rc: "rc = receipt_of c"
    and db': "row_by fst (pc_request_id c) (db_history (sy_public s)) = Some (pc_request_id c, fp) \<and> db' = sy_public s
       \<or> (row_by fst (pc_request_id c) (db_history (sy_public s)) = None \<and> db' = store_put (sy_public s) c fp
          \<and> (\<forall>r. row_by jr_slug (pc_slug c) (db_projections (sy_public s)) = Some r \<longrightarrow> jr_sequence r < pc_sequence c))"
    by (rule writer_apply_Inr)
  show "rc = receipt_of c" by (rule rc)
  show "store_ok E db'" by (rule sqlite.submit_inv [OF inv w])
  show del: "delivered E db' c"
  proof (cases "db' = store_put (sy_public s) c fp")
    case True
    then show ?thesis by (simp add: delivered_def public_seq_put)
  next
    case False
    with db' have same: "db' = sy_public s" and "(pc_request_id c, fp) \<in> set (db_history (sy_public s))"
      by (auto dest: row_by_SomeD)
    with from_old obtain c' where c': "recorded E (sy_private s) c'" "pc_request_id c' = pc_request_id c"
      "delivered E (sy_public s) c'"
      unfolding public_from_def by meson
    with recorded_unique [OF sys_okD(1) [OF ok] c'(1) c] same show ?thesis by simp
  qed
  show "public_from E (sy_private s) db'"
    unfolding public_from_def
  proof (intro conjI allI impI)
    fix slug r
    assume "public_cell db' slug = Some r"
    with db' have "public_cell (sy_public s) slug = Some r \<or> (slug = pc_slug c \<and> r = row_of c)"
      by (auto split: if_splits)
    with from_old c show "\<exists>c. recorded E (sy_private s) c \<and> pc_slug c = slug \<and> r = row_of c"
      unfolding public_from_def by metis
  next
    fix rid f
    assume "(rid, f) \<in> set (db_history db')"
    with db' have "(rid, f) \<in> set (db_history (sy_public s)) \<or> (rid, f) = (pc_request_id c, fp)"
      by (auto simp: store_put_def)
    then show "\<exists>c. recorded E (sy_private s) c \<and> pc_request_id c = rid
        \<and> command_fingerprint E c = Inr f \<and> delivered E db' c"
      using from_old c fp del delivered_mono [OF inv w] unfolding public_from_def by (metis prod.inject)
  qed
qed

lemma deliver_step_ok:
  assumes ok: "sys_ok E s" and c: "c \<in> sy_inflight s"
    and w: "writer_apply E (sy_public s) c = Inr (db', rc)"
  shows "sys_ok E (s\<lparr>sy_public := db', sy_receipts := insert rc (sy_receipts s)\<rparr>)"
proof -
  note d = deliver_delivered [OF ok sys_okD(3) [OF ok c] w]
  have "receipts_from E (sy_private s) db' (insert rc (sy_receipts s))"
    using sys_okD(3) [OF ok c] d(2,3) sys_okD(5) [OF ok] delivered_mono [OF sys_okD(2) [OF ok] w]
    unfolding receipts_from_def by blast
  moreover have "applied_behind (sy_private s) db'"
    using sys_okD(6) [OF ok] deliver_seq_mono [OF sys_okD(2) [OF ok] w]
    unfolding applied_behind_def by (meson order_trans)
  ultimately show ?thesis
    using d sys_okD [OF ok] by (intro sys_okI) simp_all
qed

lemma acknowledge_step_ok:
  assumes ok: "sys_ok E s" and rc: "rc \<in> sy_receipts s"
    and a: "repo_acknowledge E (sy_private s) rc = (db, r)"
  shows "sys_ok E (s\<lparr>sy_private := db\<rparr>)"
proof (cases "db = sy_private s")
  case True
  with ok show ?thesis by simp
next
  case False
  with a obtain x where tx: "acknowledge_tx E (sy_private s) rc = Inr (db, x)"
    by (auto simp: repo_acknowledge_def transact_def split: sum.splits prod.splits)
  from rc sys_okD(5) [OF ok] obtain c where c: "rc = receipt_of c" "delivered E (sy_public s) c"
    by (auto simp: receipts_from_def)
  from acknowledge_tx_ok [OF sys_okD(1) [OF ok] tx] have g: "grows E (sy_private s) db"
    and st: "\<And>st'. st' \<in> set (pv_studies db) \<Longrightarrow>
      \<exists>st \<in> set (pv_studies (sy_private s)). sr_slug st' = sr_slug st \<and> sr_sequence st' = sr_sequence st
        \<and> sr_applied_sequence st' =
            (if sr_slug st = rc_slug rc then max (sr_applied_sequence st) (rc_sequence rc)
             else sr_applied_sequence st)"
    by blast+
  have "applied_behind db (sy_public s)"
    unfolding applied_behind_def
  proof
    fix st'
    assume "st' \<in> set (pv_studies db)"
    from st [OF this] obtain y where y: "y \<in> set (pv_studies (sy_private s))" "sr_slug st' = sr_slug y"
      "sr_applied_sequence st' =
            (if sr_slug y = rc_slug rc then max (sr_applied_sequence y) (rc_sequence rc)
             else sr_applied_sequence y)" by blast
    from sys_okD(6) [OF ok] y(1) have "sr_applied_sequence y \<le> public_seq (sy_public s) (sr_slug y)"
      by (simp add: applied_behind_def)
    with y(2,3) c show "sr_applied_sequence st' \<le> public_seq (sy_public s) (sr_slug st')"
      by (auto simp: delivered_def receipt_of_def)
  qed
  with g sys_okD [OF ok] show ?thesis
    by (intro sys_okI) (auto simp: grows_def [of E "sy_private s"] intro: public_from_grows [OF _ g] receipts_from_grows [OF _ g])
qed

section \<open>Every reachable state keeps the invariant\<close>

lemma record_failure_kept:
  assumes ok: "priv_ok E db" and f: "repo_record_failure E db rid code = (db', r)"
  shows "grows E db db' \<and> applied_kept db db'"
  using f unfolding repo_record_failure_def
proof (rule transact_cases)
  fix x
  assume "record_failure_tx E db rid code = Inr (db', x)"
  with record_failure_tx_ok [OF ok this] show ?thesis by (blast intro: applied_kept_same)
qed (use ok in \<open>simp add: grows_def\<close>)

lemma pub_step_sys_ok:
  assumes "pub_step E s s'" and ok: "sys_ok E s"
  shows "sys_ok E s'"
  using assms(1)
proof cases
  case (step_create content db r)
  note k = repo_create_kept [OF step_create(3)]
  have "grows E (sy_private s) db"
    using k repo_create_ok [OF sys_okD(1) [OF ok] step_create(3)] by (simp add: grows_subset)
  with k show ?thesis unfolding step_create(1) by (simp add: private_step_only [OF ok])
next
  case (step_update content slug n db r)
  note k = repo_update_kept [OF step_update(3)]
  have "grows E (sy_private s) db"
    using k repo_update_ok [OF sys_okD(1) [OF ok] step_update(3)] by (simp add: grows_subset)
  with k show ?thesis unfolding step_update(1) by (simp add: private_step_only [OF ok])
next
  case (step_prepare slug a n digest rid db r)
  note p = repo_prepare_command_ok [OF sys_okD(1) [OF ok] step_prepare(2)]
  show ?thesis unfolding step_prepare(1)
    by (rule private_step_ok [OF ok])
      (use p repo_prepare_command_kept [OF step_prepare(2)] in \<open>blast intro: handed_over_recorded\<close>)+
next
  case (step_prepare_initial content digest rid db r)
  note p = repo_prepare_initial_ok [OF sys_okD(1) [OF ok] step_prepare_initial(3)]
  show ?thesis unfolding step_prepare_initial(1)
    by (rule private_step_ok [OF ok])
      (use p repo_prepare_initial_kept [OF step_prepare_initial(3)] in \<open>blast intro: handed_over_recorded\<close>)+
next
  case (step_deliver c db rc)
  then show ?thesis using ok by (auto intro: deliver_step_ok)
next
  case (step_acknowledge rc db r)
  then show ?thesis using ok by (auto intro: acknowledge_step_ok)
next
  case (step_record_failure rid code db r)
  with record_failure_kept [OF sys_okD(1) [OF ok]] ok show ?thesis by (auto intro: private_step_only)
qed

lemma pub_reachable_sys_ok: "pub_reachable E s \<Longrightarrow> sys_ok E s"
proof -
  have "(pub_step E)\<^sup>*\<^sup>* initial_system s \<Longrightarrow> sys_ok E s"
    by (induction rule: rtranclp_induct) (auto intro: sys_ok_initial pub_step_sys_ok)
  then show "pub_reachable E s \<Longrightarrow> sys_ok E s" by (simp add: pub_reachable_def)
qed

end
