(* ===== verification/Publishing_Progress.thy ===== *)
theory Publishing_Progress
  imports Publishing_System
begin

text \<open>
  Progress of the publishing system: stored rows always read back, and the newest command of a
  study can always be delivered and acknowledged, whatever was lost before.
\<close>

section \<open>Stored rows read back\<close>

definition hex_digest :: "pystr \<Rightarrow> bool" where
  "hex_digest d \<longleftrightarrow> length d = 64 \<and> list_all (\<lambda>c. (48 \<le> c \<and> c \<le> 57) \<or> (97 \<le> c \<and> c \<le> 102)) d"

lemma hex_digest_encodable: "hex_digest d \<Longrightarrow> encodable d"
  by (rule encodable_ascii) (auto simp: hex_digest_def list_all_iff)

text \<open>The documented behaviour of NFC and of \<^verbatim>\<open>hashlib.sha256(...).hexdigest()\<close>.\<close>

definition env_lawful :: "pub_env \<Rightarrow> bool" where
  "env_lawful E \<longleftrightarrow> nfc_lawful (nfc E) \<and> (\<forall>b. hex_digest (sha256 E b))"

definition revision_sound :: "pub_env \<Rightarrow> revision_row \<Rightarrow> bool" where
  "revision_sound E v \<longleftrightarrow>
     is_valid_snapshot E (vr_snapshot v) \<and> sc_slug (ss_content (vr_snapshot v)) = vr_slug v
     \<and> ss_revision (vr_snapshot v) = vr_revision v
     \<and> canonical_bytes (vr_snapshot v) = Inr (vr_canonical v) \<and> vr_digest v = sha256 E (vr_canonical v)"

text \<open>\<open>json_reads E db\<close>: \<^verbatim>\<open>json.loads\<close> gives back what \<^verbatim>\<open>json.dumps\<close> wrote into the stored revisions.\<close>

definition json_reads :: "pub_env \<Rightarrow> private_db \<Rightarrow> bool" where
  "json_reads E db \<longleftrightarrow> (\<forall>v \<in> set (pv_revisions db). reads_dumped E (vr_canonical v))"

definition current_sound :: "private_db \<Rightarrow> study_row \<Rightarrow> bool" where
  "current_sound db st \<longleftrightarrow>
     (\<exists>v. row_by revision_key (sr_slug st, sr_current_revision st) (pv_revisions db) = Some v
        \<and> (sr_approved st = None \<or> sr_approved st = Some (vr_digest v)))"

definition rows_sound :: "pub_env \<Rightarrow> private_db \<Rightarrow> bool" where
  "rows_sound E db \<longleftrightarrow>
     (\<forall>v \<in> set (pv_revisions db). revision_sound E v) \<and> (\<forall>st \<in> set (pv_studies db). current_sound db st)"

lemma snapshot_from_revision_sound:
  assumes "revision_sound E v" "load_snapshot E (vr_canonical v) = Some (vr_snapshot v)"
  shows "snapshot_from_revision E v = Inr (vr_snapshot v)"
  using assms decode_snapshot_canonical [of E "vr_snapshot v" "vr_canonical v"]
  by (simp add: snapshot_from_revision_def revision_sound_def)

lemma stored_revision_loads:
  assumes "json_reads E db" "rows_sound E db" "v \<in> set (pv_revisions db)"
  shows "revision_sound E v" "load_snapshot E (vr_canonical v) = Some (vr_snapshot v)"
  using assms by (simp_all add: json_reads_def rows_sound_def revision_sound_def reads_dumped_snapshot)

text \<open>The current command of a study, and whether it is pending.\<close>

lemma study_of_command:
  assumes ok: "priv_ok E db" and r: "r \<in> set (pv_commands db)" and st: "st \<in> set (pv_studies db)"
    and slug: "sr_slug st = cr_slug r"
  shows "command_row_ok r" "cr_sequence r \<le> sr_sequence st"
    "cr_applied r \<longrightarrow> cr_sequence r \<le> sr_applied_sequence st"
proof -
  from ok r obtain y where y: "y \<in> set (pv_studies db)" "sr_slug y = cr_slug r"
    "cr_sequence r \<le> sr_sequence y" "cr_applied r \<longrightarrow> cr_sequence r \<le> sr_applied_sequence y"
    and "command_row_ok r"
    by (auto simp: priv_ok_def command_placed_def)
  from ok have "inj_on sr_slug (set (pv_studies db))"
    by (simp add: priv_ok_def keys_ok_def keyed_def distinct_map)
  with y st slug have "y = st" by (metis inj_onD)
  with y \<open>command_row_ok r\<close> show "command_row_ok r" "cr_sequence r \<le> sr_sequence st"
    "cr_applied r \<longrightarrow> cr_sequence r \<le> sr_applied_sequence st" by simp_all
qed

lemma current_command_row:
  assumes ok: "priv_ok E db" and st: "st \<in> set (pv_studies db)" and pos: "0 < sr_sequence st"
  obtains r where "current_command db st = Some r" "r \<in> set (pv_commands db)"
    "cr_slug r = sr_slug st" "cr_sequence r = sr_sequence st"
proof -
  from ok st pos have "(sr_slug st, sr_sequence st) \<in> command_key ` set (pv_commands db)"
    by (simp add: priv_ok_def study_complete_def)
  then have "current_command db st \<noteq> None"
    by (simp add: current_command_def row_by_None_iff)
  then obtain r where "current_command db st = Some r" by blast
  moreover then have "r \<in> set (pv_commands db)" "cr_slug r = sr_slug st" "cr_sequence r = sr_sequence st"
    by (auto simp: current_command_def dest: row_by_SomeD)
  ultimately show thesis using that by blast
qed

lemma no_current_command:
  assumes ok: "priv_ok E db" and z: "\<not> 0 < sr_sequence st"
  shows "current_command db st = None"
proof (rule ccontr)
  assume "current_command db st \<noteq> None"
  then obtain r where r: "r \<in> set (pv_commands db)" "cr_sequence r = sr_sequence st"
    by (auto simp: current_command_def dest: row_by_SomeD)
  with ok have "0 < cr_sequence r"
    by (auto simp: priv_ok_def command_placed_def command_row_ok_def)
  with r z show False by simp
qed

lemma pending_total:
  assumes ok: "priv_ok E db" and st: "st \<in> set (pv_studies db)"
  shows "\<exists>p. pending_of st (current_command db st) = Inr p"
proof (cases "sr_sequence st > sr_applied_sequence st")
  case True
  from ok st have "0 \<le> sr_applied_sequence st"
    by (simp add: priv_ok_def study_complete_def study_row_ok_def)
  with True have "0 < sr_sequence st" by simp
  with ok st obtain r where r: "current_command db st = Some r" "r \<in> set (pv_commands db)"
    "cr_slug r = sr_slug st" "cr_sequence r = sr_sequence st"
    by (rule current_command_row)
  with study_of_command(3) [OF ok r(2) st] True have "\<not> cr_applied r" by auto
  with r True show ?thesis by (simp add: pending_of_def)
qed (simp add: pending_of_def)

lemma draft_of_row_ok:
  assumes "revision_sound E v" "sr_approved st = None \<or> sr_approved st = Some (vr_digest v)" "0 \<le> sr_sequence st"
  shows "draft_ok E \<lparr>pd_snapshot = vr_snapshot v, pd_approved = sr_approved st, pd_sequence = sr_sequence st\<rparr>"
  using assms by (auto simp: draft_ok_def revision_sound_def snapshot_digest_def)

lemma state_from_rows_total:
  assumes ok: "priv_ok E db" and sound: "rows_sound E db" and js: "json_reads E db"
    and st: "st \<in> set (pv_studies db)"
  obtains v x where "row_by revision_key (sr_slug st, sr_current_revision st) (pv_revisions db) = Some v"
    "v \<in> set (pv_revisions db)" "state_from_rows E st v (current_command db st) = Inr x"
proof -
  from sound st obtain v where v: "row_by revision_key (sr_slug st, sr_current_revision st) (pv_revisions db) = Some v"
    "sr_approved st = None \<or> sr_approved st = Some (vr_digest v)"
    by (auto simp: rows_sound_def current_sound_def)
  then have vin: "v \<in> set (pv_revisions db)" by (auto dest: row_by_SomeD)
  note rv = stored_revision_loads [OF js sound vin]
  from ok st have "0 \<le> sr_sequence st" by (simp add: priv_ok_def study_complete_def study_row_ok_def)
  with draft_of_row_ok [OF rv(1) v(2)] snapshot_from_revision_sound [OF rv] pending_total [OF ok st]
  have "\<exists>x. state_from_rows E st v (current_command db st) = Inr x"
    by (auto simp: state_from_rows_def new_draft_def)
  with v vin that show thesis by blast
qed

lemma locked_study_rows_total:
  assumes ok: "priv_ok E db" and st: "st \<in> set (pv_studies db)"
    and v: "row_by revision_key (sr_slug st, sr_current_revision st) (pv_revisions db) = Some v"
  shows "locked_study_rows db (sr_slug st) = Inr (Some (st, v, current_command db st))"
proof -
  from ok st have row: "row_by sr_slug (sr_slug st) (pv_studies db) = Some st"
    by (simp add: priv_ok_def keys_ok_def row_by_Some_iff)
  show ?thesis
  proof (cases "0 < sr_sequence st")
    case True
    with ok st obtain r where "current_command db st = Some r" by (blast elim: current_command_row)
    with True row v show ?thesis by (simp add: locked_study_rows_def Let_def)
  next
    case False
    with row v no_current_command [OF ok False] show ?thesis by (simp add: locked_study_rows_def Let_def)
  qed
qed


section \<open>Every step keeps the rows readable\<close>

lemma current_sound_revisions:
  "pv_revisions db' = pv_revisions db \<Longrightarrow> current_sound db' st = current_sound db st"
  by (simp add: current_sound_def)

lemma current_sound_append:
  "current_sound db st \<Longrightarrow> pv_revisions db' = pv_revisions db @ vs \<Longrightarrow> current_sound db' st"
  by (auto simp: current_sound_def row_by_append)

lemma rows_sound_same:
  "rows_sound E db \<Longrightarrow> pv_revisions db' = pv_revisions db \<Longrightarrow> pv_studies db' = pv_studies db \<Longrightarrow> rows_sound E db'"
  by (simp add: rows_sound_def current_sound_def)

lemma rows_sound_flush:
  assumes sound: "rows_sound E db" and fl: "flush_study db st' = Inr db'" and cur: "current_sound db st'"
  shows "rows_sound E db'"
proof -
  from fl have db': "db' = db\<lparr>pv_studies := put_row sr_slug st' (pv_studies db)\<rparr>"
    by (auto simp: flush_study_def split: if_splits)
  have "current_sound db y" if "y \<in> set (put_row sr_slug st' (pv_studies db))" for y
    using that sound cur by (auto simp: set_put_row rows_sound_def split: if_splits)
  with sound show ?thesis
    by (simp add: rows_sound_def db' current_sound_revisions [of db' db, unfolded db'])
qed

lemma rows_sound_revision:
  assumes sound: "rows_sound E db" and v: "revision_sound E v" and ins: "insert_revision db v = Inr db'"
  shows "rows_sound E db'"
proof -
  from ins have db': "db' = db\<lparr>pv_revisions := pv_revisions db @ [v]\<rparr>"
    by (auto simp: insert_revision_def split: if_splits)
  have "current_sound db' st" if "st \<in> set (pv_studies db)" for st
    using that sound by (intro current_sound_append [of db _ db' "[v]"]) (auto simp: rows_sound_def db')
  with sound v show ?thesis by (auto simp: rows_sound_def db')
qed

lemma insert_revision_current:
  assumes "insert_revision db v = Inr db'" "vr_slug v = sr_slug st" "vr_revision v = sr_current_revision st"
    "sr_approved st = None"
  shows "current_sound db' st"
  using assms by (auto simp: insert_revision_def current_sound_def row_by_append split: if_splits)

lemma new_study_rows_sound:
  assumes env: "env_lawful E" and c: "content_instance E content"
    and rows: "new_study_rows E content = Inr (st, v)"
  shows "revision_sound E v" "vr_slug v = sr_slug st" "vr_revision v = sr_current_revision st"
    "sr_approved st = None"
proof -
  from rows obtain s b d where s: "new_snapshot 1 content = Inr s" "canonical_bytes s = Inr b"
    "snapshot_digest E s = Inr d"
    and st: "st = \<lparr>sr_slug = sc_slug content, sr_current_revision = 1, sr_sequence = 0, sr_approved = None,
         sr_applied_sequence = 0, sr_applied_action = None, sr_applied_revision = None\<rparr>"
    and v: "v = \<lparr>vr_slug = sc_slug content, vr_revision = 1, vr_snapshot = s, vr_canonical = b, vr_digest = d\<rparr>"
    by (auto simp: new_study_rows_def)
  from c obtain raw where "validate_content E raw = Inr content" by (auto simp: content_instance_def)
  with env s(1) have "is_valid_snapshot E s" by (auto simp: env_lawful_def intro: new_snapshot_valid)
  with s show "revision_sound E v"
    unfolding v by (auto simp: revision_sound_def new_snapshot_def snapshot_digest_def split: if_splits)
  show "vr_slug v = sr_slug st" "vr_revision v = sr_current_revision st" "sr_approved st = None"
    by (simp_all add: st v)
qed

lemma rows_sound_new_study:
  assumes env: "env_lawful E" and c: "content_instance E content" and sound: "rows_sound E db"
    and rows: "new_study_rows E content = Inr (st, v)"
    and ins: "insert_study db st = Inr db1" "insert_revision db1 v = Inr db2"
  shows "rows_sound E db2"
proof -
  note n = new_study_rows_sound [OF env c rows]
  from ins(1) have db1: "db1 = db\<lparr>pv_studies := pv_studies db @ [st]\<rparr>"
    by (auto simp: insert_study_def split: if_splits)
  from ins(2) have db2: "db2 = db1\<lparr>pv_revisions := pv_revisions db1 @ [v]\<rparr>"
    by (auto simp: insert_revision_def split: if_splits)
  have "current_sound db2 y" if "y \<in> set (pv_studies db)" for y
    using that sound by (intro current_sound_append [of db _ db2 "[v]"]) (auto simp: rows_sound_def db1 db2)
  moreover have "current_sound db2 st" by (rule insert_revision_current [OF ins(2) n(2,3,4)])
  ultimately show ?thesis using sound n(1) by (auto simp: rows_sound_def db1 db2)
qed

lemma update_tx_sound:
  assumes sound: "rows_sound E db" and up: "update_tx E db slug n content = Inr (db', x)"
  shows "rows_sound E db'"
proof -
  from up obtain st v co current revised b d db1 where
    row: "locked_study_rows db slug = Inr (Some (st, v, co))"
    and cur: "state_from_rows E st v co = Inr current"
    and rv: "draft_revise E (ps_draft current) content n = Inr revised"
    and b: "canonical_bytes (pd_snapshot revised) = Inr b" "snapshot_digest E (pd_snapshot revised) = Inr d"
    and ins: "insert_revision db \<lparr>vr_slug = slug, vr_revision = ss_revision (pd_snapshot revised),
         vr_snapshot = pd_snapshot revised, vr_canonical = b, vr_digest = d\<rparr> = Inr db1"
    and fl: "flush_study db1 (st\<lparr>sr_current_revision := ss_revision (pd_snapshot revised),
         sr_approved := None\<rparr>) = Inr db'"
    by (auto simp: update_tx_def Let_def split: option.splits prod.splits)
  from locked_study_rows_Some(2,3) [OF row] have "sr_slug st = slug" "vr_slug v = slug"
    by (auto dest: row_by_SomeD)
  with draft_revise_Inr [OF rv] state_from_rows_Inr [OF cur] b
  have "revision_sound E \<lparr>vr_slug = slug, vr_revision = ss_revision (pd_snapshot revised),
         vr_snapshot = pd_snapshot revised, vr_canonical = b, vr_digest = d\<rparr>"
    by (auto simp: revision_sound_def draft_ok_def snapshot_digest_def)
  with sound ins have "rows_sound E db1" by (blast intro: rows_sound_revision)
  moreover have "current_sound db1 (st\<lparr>sr_current_revision := ss_revision (pd_snapshot revised), sr_approved := None\<rparr>)"
    by (rule insert_revision_current [OF ins]) (simp_all add: \<open>sr_slug st = slug\<close>)
  ultimately show ?thesis using fl by (blast intro: rows_sound_flush)
qed

lemma build_command_approved:
  "build_command E d action n dg rid = Inr (d', c) \<Longrightarrow>
     pd_approved d' = None \<or> (pd_approved d' = Some dg \<and> snapshot_digest E (pd_snapshot d) = Inr dg)"
  by (cases action) (auto simp: build_command_def draft_approve_Inr
      dest: draft_publish_Inr(5) draft_withdraw_Inr(5) split: if_splits)

lemma prepare_locked_sound:
  assumes sound: "rows_sound E db"
    and v: "row_by revision_key (sr_slug st, sr_current_revision st) (pv_revisions db) = Some v"
    and prep: "prepare_command_locked E db st v co action n dg rid fp = Inr (db', p)"
  shows "rows_sound E db'"
proof (cases "row_by cr_request_id rid (pv_commands db)")
  case (Some ex)
  with prep sound show ?thesis by (auto simp: prepare_command_locked_def)
next
  case None
  from prepare_locked_new [OF None prep] have "\<exists>x d c new db1. state_from_rows E st v co = Inr x
      \<and> build_command E (ps_draft x) action n dg rid = Inr (d, c) \<and> insert_command db new = Inr db1
      \<and> flush_study db1 (st\<lparr>sr_sequence := pd_sequence d, sr_approved := pd_approved d\<rparr>) = Inr db'"
    by metis
  then obtain x d c new db1 where x: "state_from_rows E st v co = Inr x"
    and bc: "build_command E (ps_draft x) action n dg rid = Inr (d, c)"
    and ins: "insert_command db new = Inr db1"
    and fl: "flush_study db1 (st\<lparr>sr_sequence := pd_sequence d, sr_approved := pd_approved d\<rparr>) = Inr db'"
    by blast
  from ins have same: "pv_revisions db1 = pv_revisions db" "pv_studies db1 = pv_studies db"
    by (auto simp: insert_command_def split: if_splits)
  from v sound have "revision_sound E v" by (auto simp: rows_sound_def dest: row_by_SomeD)
  with build_command_approved [OF bc] state_from_rows_Inr(2) [OF x]
  have "pd_approved d = None \<or> pd_approved d = Some (vr_digest v)"
    by (auto simp: revision_sound_def snapshot_digest_def)
  with v have "current_sound db1 (st\<lparr>sr_sequence := pd_sequence d, sr_approved := pd_approved d\<rparr>)"
    by (simp add: current_sound_def same)
  with rows_sound_same [OF sound same] fl show ?thesis by (blast intro: rows_sound_flush)
qed


lemma repo_create_sound:
  assumes env: "env_lawful E" "content_instance E content" and sound: "rows_sound E db"
    and cr: "repo_create E db content = (db', r)"
  shows "rows_sound E db'"
proof (cases "db' = db")
  case False
  with cr obtain st v db1 where "new_study_rows E content = Inr (st, v)"
    "insert_study db st = Inr db1" "insert_revision db1 v = Inr db'"
    by (auto simp: repo_create_def rbind_def split: sum.splits prod.splits)
  then show ?thesis by (rule rows_sound_new_study [OF env sound])
qed (use sound in simp)

lemma repo_update_sound:
  "rows_sound E db \<Longrightarrow> repo_update E db slug n content = (db', r) \<Longrightarrow> rows_sound E db'"
  unfolding repo_update_def by (erule transact_cases) (auto intro: update_tx_sound)

lemma repo_prepare_command_sound:
  assumes sound: "rows_sound E db" and prep: "repo_prepare_command E db slug a n dg rid = (db', r)"
  shows "rows_sound E db'"
proof (cases "db' = db")
  case False
  with prep obtain fp st v co p where
    "locked_study_rows db slug = Inr (Some (st, v, co))"
    "prepare_command_locked E db st v co a n dg rid fp = Inr (db', p)"
    by (auto simp: repo_prepare_command_def on_integrity_error_def transact_def
        split: sum.splits exn.splits option.splits prod.splits)
  then show ?thesis using sound by (blast intro: prepare_locked_sound locked_rows_lookup)
qed (use sound in simp)

lemma repo_prepare_initial_sound:
  assumes env: "env_lawful E" "content_instance E content" and sound: "rows_sound E db"
    and prep: "repo_prepare_initial E db content dg rid = (db', r)"
  shows "rows_sound E db'"
proof (cases "db' = db")
  case False
  let ?row = "locked_study_rows db (sc_slug content)"
  from prep False consider
      (old) st v co fp p where "?row = Inr (Some (st, v, co))"
        "prepare_initial_locked E db st v co dg rid fp = Inr (db', p)"
    | (new) st v db1 db2 fp p where "new_study_rows E content = Inr (st, v)" "insert_study db st = Inr db1"
        "insert_revision db1 v = Inr db2" "prepare_initial_locked E db2 st v None dg rid fp = Inr (db', p)"
    by (auto simp: repo_prepare_initial_def recover_def rbind_def on_integrity_error_def transact_def
        resolve_initial_race_def split: sum.splits exn.splits option.splits if_splits prod.splits)
  then show ?thesis
  proof cases
    case old
    then show ?thesis
      using sound by (blast intro: prepare_locked_sound locked_rows_lookup prepare_initial_locked_Inr)
  next
    case new
    have "rows_sound E db2" by (rule rows_sound_new_study [OF env sound new(1-3)])
    then show ?thesis
      by (rule prepare_locked_sound [OF _ insert_rows_lookup(2) [OF new(1-3)] prepare_initial_locked_Inr [OF new(4)]])
  qed
qed (use sound in simp)

lemma acknowledge_tx_sound:
  assumes sound: "rows_sound E db" and tx: "acknowledge_tx E db rc = Inr (db', x)"
  shows "rows_sound E db'"
proof -
  from tx obtain c st v co where
    row: "locked_study_rows db (cr_slug c) = Inr (Some (st, v, co))"
    and db': "db' = db\<lparr>pv_commands := put_row cr_request_id (acknowledged_command c rc) (pv_commands db),
       pv_studies := put_row sr_slug (acknowledged_study st c rc) (pv_studies db)\<rparr>"
    by (rule acknowledge_tx_Inr)
  have "sr_current_revision (acknowledged_study st c rc) = sr_current_revision st"
    "sr_approved (acknowledged_study st c rc) = sr_approved st"
    by (simp_all add: acknowledged_study_def)
  moreover have "st \<in> set (pv_studies db)"
    using locked_rows_lookup(1) [OF row] by (auto dest: row_by_SomeD)
  then have "current_sound db st" using sound by (simp add: rows_sound_def)
  ultimately have cur: "current_sound db (acknowledged_study st c rc)" by (simp add: current_sound_def)
  have "current_sound db y" if "y \<in> set (put_row sr_slug (acknowledged_study st c rc) (pv_studies db))" for y
  proof -
    from that have "y = acknowledged_study st c rc \<or> y \<in> set (pv_studies db)"
      by (auto simp: set_put_row split: if_splits)
    with sound cur show ?thesis by (auto simp: rows_sound_def)
  qed
  with sound show ?thesis by (simp add: rows_sound_def db' current_sound_def)
qed

lemma record_failure_tx_sound:
  assumes sound: "rows_sound E db" and tx: "record_failure_tx E db rid code = Inr (db', x)"
  shows "rows_sound E db'"
  using tx by (rule record_failure_tx_Inr) (use sound in \<open>simp_all add: rows_sound_same\<close>)

lemma pub_step_rows_sound:
  assumes env: "env_lawful E" and step: "pub_step E s s'" and sound: "rows_sound E (sy_private s)"
  shows "rows_sound E (sy_private s')"
  using step
proof cases
  case (step_acknowledge rc db r)
  with sound show ?thesis
    unfolding repo_acknowledge_def by (auto elim!: transact_cases intro: acknowledge_tx_sound)
next
  case (step_record_failure rid code db r)
  with sound show ?thesis
    unfolding repo_record_failure_def by (auto elim!: transact_cases intro: record_failure_tx_sound)
qed (use env sound in \<open>auto intro: repo_create_sound repo_update_sound repo_prepare_command_sound
       repo_prepare_initial_sound\<close>)

lemma pub_reachable_rows_sound:
  assumes "env_lawful E"
  shows "pub_reachable E s \<Longrightarrow> rows_sound E (sy_private s)"
proof -
  have "rows_sound E (sy_private initial_system)"
    by (simp add: initial_system_def empty_private_db_def rows_sound_def)
  moreover have "(pub_step E)\<^sup>*\<^sup>* t s \<Longrightarrow> rows_sound E (sy_private t) \<Longrightarrow> rows_sound E (sy_private s)" for t
    by (induction rule: rtranclp_induct) (blast intro: pub_step_rows_sound assms)+
  ultimately have "(pub_step E)\<^sup>*\<^sup>* initial_system s \<Longrightarrow> rows_sound E (sy_private s)" by blast
  then show "pub_reachable E s \<Longrightarrow> rows_sound E (sy_private s)" by (simp add: pub_reachable_def)
qed

section \<open>The newest command can be delivered\<close>

lemma command_fingerprint_total:
  assumes env: "env_lawful E" and c: "command_ok E c" "encodable (pc_request_id c)"
  obtains fp where "command_fingerprint E c = Inr fp"
proof -
  have act: "encodable (action_value (pc_action c))"
    by (cases "pc_action c") (simp_all add: utf8_ascii)
  have dig: "json_encodable (case pc_digest c of None \<Rightarrow> JNull | Some d \<Rightarrow> JStr d)"
  proof (cases "pc_action c")
    case PUBLISH
    with c(1) obtain s d where "pc_digest c = Some d" "snapshot_digest E s = Inr d"
      by (blast elim: command_ok_publish)
    with env show ?thesis
      by (auto simp: snapshot_digest_def env_lawful_def intro: hex_digest_encodable)
  next
    case WITHDRAW
    with c(1) show ?thesis by (simp add: command_ok_withdraw)
  qed
  let ?j = "JObj [(lit ''action'', JStr (action_value (pc_action c))),
        (lit ''digest'', (case pc_digest c of None \<Rightarrow> JNull | Some d \<Rightarrow> JStr d)),
        (lit ''request_id'', JStr (pc_request_id c)),
        (lit ''sequence'', JInt (pc_sequence c)),
        (lit ''slug'', JStr (pc_slug c))]"
  from command_ok_basic [OF c(1)] have "encodable (pc_slug c)" by (simp add: public_slug_encodable)
  with act dig c(2) have "json_encodable ?j" by (simp add: utf8_ascii)
  then obtain b where "utf8_encode (dumps ?j) = Inr b" by (metis encodable_dumps encodable_obtain)
  then have "command_fingerprint E c = Inr (sha256 E b)"
    by (simp only: command_fingerprint_def dumps_utf8_def rbind_simps)
  with that show thesis .
qed

text \<open>A row the writer stored loads again.\<close>

lemma load_projection_total:
  assumes inv: "store_ok E db" and slug: "is_public_slug slug"
    and js: "\<And>c s b. public_cell db slug = Some (row_of c) \<Longrightarrow> command_ok E c \<Longrightarrow> pc_snapshot c = Some s
      \<Longrightarrow> canonical_bytes s = Inr b \<Longrightarrow> load_snapshot E b = Some s"
  obtains p where "load_projection E db slug = Inr p"
proof (cases "row_by jr_slug slug (db_projections db)")
  case None
  with slug that show thesis by (simp add: load_projection_def)
next
  case (Some r)
  from inv Some obtain c where c: "command_ok E c" "r = row_of c" "pc_slug c = slug" by (rule store_row)
  have proj: "new_projection E \<lparr>pj_slug = slug, pj_sequence = pc_sequence c, pj_last = Some c,
      pj_snapshot = pc_snapshot c\<rparr> = Inr (projection_of c)"
    using projection_of_ok [of E c] c by (simp add: projection_of_def)
  have cmd: "new_command E \<lparr>pc_slug = slug, pc_sequence = pc_sequence c, pc_request_id = pc_request_id c,
      pc_action = pc_action c, pc_snapshot = pc_snapshot c, pc_digest = pc_digest c\<rparr> = Inr c"
    using c by (cases c) simp
  show thesis
  proof (cases "pc_action c")
    case PUBLISH
    with c(1) obtain s d where s: "pc_snapshot c = Some s" "pc_digest c = Some d" "is_valid_snapshot E s"
      "pc_slug c = sc_slug (ss_content s)" "snapshot_digest E s = Inr d"
      by (rule command_ok_publish)
    from s(3) obtain b where b: "canonical_bytes s = Inr b" by (rule canonical_bytes_total)
    with js c Some s(1) have "load_snapshot E b = Some s" by (auto simp: public_cell_def)
    with s b have "decode_snapshot E b d = Inr s"
      using decode_snapshot_canonical [OF s(3) b] by (simp add: snapshot_digest_def)
    with Some c PUBLISH s b cmd proj have "load_projection E db slug = Inr (projection_of c)"
      by (simp add: load_projection_def row_of_def payload_of_def del: new_command_Inr new_projection_Inr)
    with that show thesis .
  next
    case WITHDRAW
    with c(1) have "pc_snapshot c = None" "pc_digest c = None" by (auto dest: command_ok_withdraw)
    with Some c WITHDRAW cmd proj have "load_projection E db slug = Inr (projection_of c)"
      by (simp add: load_projection_def row_of_def payload_of_def del: new_command_Inr new_projection_Inr)
    with that show thesis .
  qed
qed


lemma recorded_facts:
  assumes ok: "priv_ok E db" and c: "recorded E db c"
  obtains r where "r \<in> set (pv_commands db)" "backs E (pv_revisions db) r c" "command_row_ok r"
    "command_ok E c" "encodable (pc_request_id c)" "cr_slug r = pc_slug c" "cr_sequence r = pc_sequence c"
    "cr_request_id r = pc_request_id c" "cr_action r = pc_action c"
  using assms by (auto simp: recorded_def priv_ok_def command_placed_def backs_def)

lemma row_recorded:
  assumes ok: "priv_ok E db" and r: "r \<in> set (pv_commands db)"
  obtains c where "recorded E db c" "backs E (pv_revisions db) r c" "command_ok E c"
    "pc_slug c = cr_slug r" "pc_sequence c = cr_sequence r" "pc_action c = cr_action r"
proof -
  from ok r obtain c where c: "backs E (pv_revisions db) r c" unfolding priv_ok_def by blast
  with r have "recorded E db c" unfolding recorded_def by blast
  moreover from c have "command_ok E c" "pc_slug c = cr_slug r" "pc_sequence c = cr_sequence r"
    "pc_action c = cr_action r" by (simp_all add: backs_def)
  ultimately show thesis using that c by blast
qed

lemma recorded_not_ahead:
  assumes ok: "priv_ok E db" and c: "recorded E db c" and st: "st \<in> set (pv_studies db)" "sr_slug st = pc_slug c"
  shows "pc_sequence c \<le> sr_sequence st"
proof -
  from ok c obtain r where "r \<in> set (pv_commands db)" "cr_slug r = pc_slug c" "cr_sequence r = pc_sequence c"
    by (rule recorded_facts)
  with study_of_command(2) [OF ok _ st(1)] st(2) show ?thesis by metis
qed

text \<open>If the public store has seen the newest command of a study, it shows that command.\<close>

lemma newest_shown:
  assumes ok: "sys_ok E s" and c: "recorded E (sy_private s) c"
    and st: "st \<in> set (pv_studies (sy_private s))" "sr_slug st = pc_slug c" "pc_sequence c = sr_sequence st"
    and del: "delivered E (sy_public s) c"
  shows "public_cell (sy_public s) (pc_slug c) = Some (row_of c)"
proof -
  note priv = sys_okD(1) [OF ok]
  from priv c have "command_ok E c" by (rule recorded_facts)
  then have "1 \<le> pc_sequence c" by (simp add: command_ok_basic)
  with del obtain r where r: "public_cell (sy_public s) (pc_slug c) = Some r" "pc_sequence c \<le> jr_sequence r"
    by (auto simp: delivered_def public_seq_def split: option.splits)
  with sys_okD(4) [OF ok] obtain l where l: "recorded E (sy_private s) l" "pc_slug l = pc_slug c" "r = row_of l"
    unfolding public_from_def by blast
  with recorded_not_ahead [OF priv l(1) st(1)] st r have "pc_sequence l = pc_sequence c" by simp
  with recorded_unique [OF priv l(1) c] l r show ?thesis by simp
qed

lemma recorded_reads:
  assumes priv: "priv_ok E db" and sound: "rows_sound E db" and js: "json_reads E db"
    and c: "recorded E db c" "pc_snapshot c = Some s" "canonical_bytes s = Inr b"
  shows "load_snapshot E b = Some s"
proof -
  from priv c(1) obtain r where r: "r \<in> set (pv_commands db)" "backs E (pv_revisions db) r c" "command_ok E c"
    by (rule recorded_facts)
  with c(2) have "pc_action c = PUBLISH" by (cases "pc_action c") (auto dest: command_ok_withdraw)
  with r(2) c(2) obtain v where "v \<in> set (pv_revisions db)" "vr_snapshot v = s" by (auto simp: backs_def)
  with stored_revision_loads [OF js sound] c(3) show ?thesis by (auto simp: revision_sound_def)
qed

lemma cell_in_history:
  assumes inv: "store_ok E db" and x: "public_cell db slug = Some (row_of x)" "command_ok E x"
  shows "row_by fst (pc_request_id x) (db_history db) \<noteq> None"
proof -
  from inv x(1) [unfolded public_cell_def] obtain m n where m: "command_ok E m" "row_of x = row_of m"
    "row_by fst (pc_request_id m) (db_history db) = Some (pc_request_id m, n)"
    by (rule store_row)
  from row_of_inj [OF x(2) m(1,2)] m(3) show ?thesis by simp
qed

lemma deliver_newest:
  assumes env: "env_lawful E" and ok: "sys_ok E s"
    and sound: "rows_sound E (sy_private s)" and js: "json_reads E (sy_private s)"
    and c: "recorded E (sy_private s) c"
    and st: "st \<in> set (pv_studies (sy_private s))" "sr_slug st = pc_slug c" "pc_sequence c = sr_sequence st"
  obtains db where "writer_apply E (sy_public s) c = Inr (db, receipt_of c)"
    "public_cell db (pc_slug c) = Some (row_of c)"
proof -
  note priv = sys_okD(1) [OF ok] and inv = sys_okD(2) [OF ok] and from_rec = sys_okD(4) [OF ok]
  let ?pub = "sy_public s"
  from priv c have cok: "command_ok E c" and rid: "encodable (pc_request_id c)" by (blast elim: recorded_facts)+
  from env cok rid obtain fp where fp: "command_fingerprint E c = Inr fp" by (rule command_fingerprint_total)
  show thesis
  proof (cases "row_by fst (pc_request_id c) (db_history ?pub)")
    case (Some h)
    have "(pc_request_id c, snd h) \<in> set (db_history ?pub)"
      using row_by_SomeD [OF Some] by (cases h) auto
    with from_rec obtain l where l: "recorded E (sy_private s) l" "pc_request_id l = pc_request_id c"
      "command_fingerprint E l = Inr (snd h)" "delivered E ?pub l"
      unfolding public_from_def by blast
    with recorded_unique [OF priv l(1) c] have "l = c" by simp
    with l fp Some row_by_SomeD [OF Some]
    have "row_by fst (pc_request_id c) (db_history ?pub) = Some (pc_request_id c, fp)"
      by (cases h) auto
    from writer_apply_replay [OF cok rid fp this] newest_shown [OF ok c st] l(4) \<open>l = c\<close> that
    show thesis by blast
  next
    case None
    have rows: "\<exists>l. recorded E (sy_private s) l \<and> pc_slug l = slug \<and> r = row_of l"
      if "public_cell ?pub slug = Some r" for slug r
      using that from_rec unfolding public_from_def by blast
    have json: "load_snapshot E b = Some t"
      if x: "public_cell ?pub (pc_slug c) = Some (row_of x)" "command_ok E x" "pc_snapshot x = Some t"
        "canonical_bytes t = Inr b" for x t b
    proof -
      from rows [OF x(1)] obtain l where l: "recorded E (sy_private s) l" "row_of x = row_of l" by blast
      from priv l(1) have "command_ok E l" by (rule recorded_facts)
      with x(2) l(2) have "x = l" by (blast intro: row_of_inj)
      with l(1) x show ?thesis by (blast intro: recorded_reads [OF priv sound js])
    qed
    from cok have slug: "is_public_slug (pc_slug c)" by (simp add: command_ok_basic)
    obtain p where p: "load_projection E ?pub (pc_slug c) = Inr p"
      by (rule load_projection_total [OF inv slug]) (use json in blast)+
    from load_projection_Inr [OF inv p slug] consider (empty) "p = empty_projection (pc_slug c)" |
      (full) x where "public_cell ?pub (pc_slug c) = Some (row_of x)" "command_ok E x" "p = projection_of x"
        "pc_slug x = pc_slug c"
      by (auto simp: public_cell_def split: option.splits)
    then have "projection_apply E p c = Inr (projection_of c)"
    proof cases
      case empty
      have "1 \<le> pc_sequence c" "is_public_slug (pc_slug c)" using cok by (simp_all add: command_ok_basic)
      with cok show ?thesis unfolding empty by (intro projection_apply_newer) simp_all
    next
      case full
      from rows [OF full(1)] obtain l where l: "recorded E (sy_private s) l" "row_of x = row_of l" by blast
      from priv l(1) have "command_ok E l" by (rule recorded_facts)
      with full(2) l(2) have x: "x = l" by (blast intro: row_of_inj)
      from cell_in_history [OF inv full(1,2)] None have rid_ne: "pc_request_id c \<noteq> pc_request_id x" by auto
      have "pc_sequence x \<noteq> pc_sequence c"
        using recorded_unique [OF priv l(1) c] x full(4) rid_ne by auto
      moreover have "pc_sequence x \<le> sr_sequence st"
        using recorded_not_ahead [OF priv l(1) st(1)] full(4) st(2) x by simp
      ultimately have "pc_sequence x < pc_sequence c" using st(3) by simp
      with cok full rid_ne show ?thesis
        unfolding full(3) by (intro projection_apply_newer) simp_all
    qed
    moreover from cok obtain q where "payload_of (pc_snapshot c) = Inr q" by (rule command_ok_payload)
    moreover from this have "\<lparr>jr_slug = pc_slug c, jr_sequence = pc_sequence c, jr_request_id = pc_request_id c,
        jr_action = pc_action c, jr_payload = q, jr_digest = pc_digest c\<rparr> = row_of c"
      by (simp add: row_of_def)
    moreover have "store_write ?pub (row_of c) (topics_of c) fp = Inr (store_put ?pub c fp)"
      using projection_row_ok_row_of [OF cok] command_ok_topics [OF cok]
      by (simp add: store_write_def store_put_def)
    ultimately have "writer_apply E ?pub c = Inr (store_put ?pub c fp, receipt_of c)"
      using p fp None cok rid
      by (simp add: writer_apply_def validated_command_Inr [THEN iffD2] topics_of_def)
    with that show thesis by simp
  qed
qed


section \<open>A receipt can be acknowledged\<close>

lemma receipt_of_sel [simp]:
  "rc_slug (receipt_of c) = pc_slug c" "rc_sequence (receipt_of c) = pc_sequence c"
  "rc_request_id (receipt_of c) = pc_request_id c" "rc_action (receipt_of c) = pc_action c"
  by (simp_all add: receipt_of_def)

lemma study_row_ok_acknowledged:
  assumes "study_row_ok st" "command_row_ok c" "cr_sequence c \<le> sr_sequence st" "rc_sequence rc = cr_sequence c"
  shows "study_row_ok (acknowledged_study st c rc)"
  using assms
  by (cases "rc_action rc") (auto simp: study_row_ok_def command_row_ok_def acknowledged_study_def)

lemma command_row_ok_acknowledged:
  assumes "command_row_ok c" "rc = \<lparr>rc_slug = cr_slug c, rc_sequence = cr_sequence c,
    rc_request_id = cr_request_id c, rc_action = cr_action c\<rparr>"
  shows "command_row_ok (acknowledged_command c rc)"
  using assms by (auto simp: command_row_ok_def acknowledged_command_def)

text \<open>
  The acknowledgement of a recorded command's receipt succeeds, and the study is applied up to
  the command's sequence number afterwards.
\<close>

lemma acknowledge_total:
  assumes priv: "priv_ok E db" and sound: "rows_sound E db" and js: "json_reads E db"
    and c: "recorded E db c" and st: "st \<in> set (pv_studies db)" "sr_slug st = pc_slug c"
  obtains db' x where "repo_acknowledge E db (receipt_of c) = (db', Inr x)"
    "ps_applied_sequence x = max (sr_applied_sequence st) (pc_sequence c)"
    "pd_sequence (ps_draft x) = sr_sequence st"
proof -
  let ?rc = "receipt_of c"
  from priv c obtain r where r: "r \<in> set (pv_commands db)" "backs E (pv_revisions db) r c" "command_row_ok r"
    "command_ok E c" "encodable (pc_request_id c)" "cr_slug r = pc_slug c" "cr_sequence r = pc_sequence c"
    "cr_request_id r = pc_request_id c" "cr_action r = pc_action c"
    by (rule recorded_facts)
  have rc: "?rc = \<lparr>rc_slug = cr_slug r, rc_sequence = cr_sequence r,
    rc_request_id = cr_request_id r, rc_action = cr_action r\<rparr>"
    using r by (simp add: receipt_of_def)
  let ?r = "acknowledged_command r ?rc" and ?st = "acknowledged_study st r ?rc"
  have row: "row_by cr_request_id (pc_request_id c) (pv_commands db) = Some r"
    using r priv by (simp add: priv_ok_def keys_ok_def row_by_Some_iff)
  from priv sound js st(1) obtain v x0 where
    v: "row_by revision_key (sr_slug st, sr_current_revision st) (pv_revisions db) = Some v"
    and vin: "v \<in> set (pv_revisions db)"
    by (rule state_from_rows_total)
  have locked: "locked_study_rows db (cr_slug r) = Inr (Some (st, v, current_command db st))"
    using locked_study_rows_total [OF priv st(1) v] st(2) r by simp
  have "sr_slug st = cr_slug r" using st(2) r by simp
  note seq = study_of_command(2) [OF priv r(1) st(1) this]
  have "study_row_ok st" using priv st(1) by (simp add: priv_ok_def study_complete_def)
  from study_row_ok_acknowledged [OF this r(3) seq] have st_ok: "study_row_ok ?st" by (simp add: rc)
  have r_ok: "command_row_ok ?r" by (rule command_row_ok_acknowledged [OF r(3) rc])
  define db1 where "db1 = db\<lparr>pv_commands := put_row cr_request_id ?r (pv_commands db)\<rparr>"
  define db2 where "db2 = db1\<lparr>pv_studies := put_row sr_slug ?st (pv_studies db1)\<rparr>"
  have fl: "flush_command db ?r = Inr db1" "flush_study db1 ?st = Inr db2"
    using r_ok st_ok by (simp_all add: flush_command_def flush_study_def db1_def db2_def)
  let ?co = "if sr_sequence st > 0 then current_command db2 st else None"
  note rv = stored_revision_loads [OF js sound vin]
  have same: "sr_approved ?st = sr_approved st" "sr_sequence ?st = sr_sequence st"
    "sr_applied_sequence ?st = max (sr_applied_sequence st) (pc_sequence c)"
    by (simp_all add: acknowledged_study_def)
  from sound st(1) v have "sr_approved st = None \<or> sr_approved st = Some (vr_digest v)"
    by (auto simp: rows_sound_def current_sound_def)
  then have draft: "draft_ok E \<lparr>pd_snapshot = vr_snapshot v, pd_approved = sr_approved ?st, pd_sequence = sr_sequence ?st\<rparr>"
    using \<open>study_row_ok st\<close> unfolding same by (intro draft_of_row_ok rv) (auto simp: study_row_ok_def)
  have "\<exists>p. pending_of ?st ?co = Inr p"
  proof (cases "sr_sequence st > max (sr_applied_sequence st) (pc_sequence c)")
    case True
    with \<open>study_row_ok st\<close> have "0 < sr_sequence st" by (auto simp: study_row_ok_def)
    with priv st(1) obtain y where y: "y \<in> set (pv_commands db)" "cr_slug y = sr_slug st"
      "cr_sequence y = sr_sequence st"
      by (rule current_command_row)
    with True r have "y \<noteq> r" "\<not> cr_applied y"
      using study_of_command(3) [OF priv y(1) st(1)] by auto
    moreover from priv have k: "keyed cr_request_id (pv_commands db)" "keyed command_key (pv_commands db)"
      by (simp_all add: priv_ok_def keys_ok_def)
    moreover have row': "row_by cr_request_id (cr_request_id ?r) (pv_commands db) = Some r"
      using row r by simp
    ultimately have "current_command db2 st = Some y"
      using y put_command_set [OF k(1) row'] keyed_command_put [OF k(2) row' k(1)]
      by (simp add: current_command_def row_by_Some_iff db2_def db1_def)
    with True \<open>\<not> cr_applied y\<close> \<open>0 < sr_sequence st\<close> show ?thesis by (simp add: pending_of_def same)
  next
    case False
    then show ?thesis by (auto simp: pending_of_def same)
  qed
  with draft snapshot_from_revision_sound [OF rv] obtain x where x: "state_from_rows E ?st v ?co = Inr x"
    by (auto simp: state_from_rows_def)
  have "acknowledge_tx E db ?rc = Inr (db2, x)"
    using row r locked fl x unfolding acknowledge_tx_def by (simp add: rc)
  then have "repo_acknowledge E db ?rc = (db2, Inr x)" by (simp add: repo_acknowledge_def transact_def)
  with state_from_rows_Inr(3,7) [OF x] that show thesis by (simp add: same)
qed

end
