(* ===== verification/Publishing_Service.thy ===== *)
theory Publishing_Service
  imports Publishing_Progress
begin

text \<open>
  The publishing service (\<^verbatim>\<open>platform/publishing/service.py\<close>) over the two stores, with the
  local and the manual delivery of \<^verbatim>\<open>delivery.py\<close>, and the proof that every service call is a
  run of the steps of the publishing system.
\<close>

section \<open>Delivery\<close>

datatype delivery = LocalDelivery | ManualDelivery

definition deliver ::
  "pub_env \<Rightarrow> delivery \<Rightarrow> public_db \<Rightarrow> pub_command \<Rightarrow> public_db \<times> receipt option res" where
  "deliver E d db c =
     (case d of
        LocalDelivery \<Rightarrow>
          (case writer_apply E db c of
             Inl e \<Rightarrow> (db, Inl e)
           | Inr (db', rc) \<Rightarrow> (db', Inr (Some rc)))
      | ManualDelivery \<Rightarrow> (db, Inr None))"

section \<open>Input validation\<close>

record pub_limits =
  pl_page_default :: int
  pl_page_max :: int
  pl_request_id_max_chars :: int
  pl_title_max_chars :: int
  pl_text_field_max_chars :: int
  pl_max_collection_items :: int
  pl_aggregate_content_max_bytes :: int

abbreviation invalid_input :: exn where
  "invalid_input \<equiv> AppError ''publishing_invalid_input'' 422"

abbreviation persona_not_approved :: exn where
  "persona_not_approved \<equiv> AppError ''publishing_persona_not_approved'' 422"

definition storage_slug_max_chars :: nat where
  "storage_slug_max_chars = 200"

definition persisted_strings :: "study_content \<Rightarrow> pystr list" where
  "persisted_strings c =
     [sc_slug c, sc_title c, sc_summary c] @ sc_topic_keys c
     @ [sc_body c, sc_verification c, sc_limitations c]
     @ (case sc_persona c of None \<Rightarrow> [] | Some p \<Rightarrow> [pp_slug p, pp_label p])"

definition svc_validate_content ::
  "pub_limits \<Rightarrow> public_persona list \<Rightarrow> study_content \<Rightarrow> unit res" where
  "svc_validate_content L approved c =
     (if length (sc_slug c) > storage_slug_max_chars then Inl invalid_input
      else if (case sc_persona c of None \<Rightarrow> False | Some p \<Rightarrow> p \<notin> set approved) then Inl persona_not_approved
      else if int (length (sc_title c)) > pl_title_max_chars L then Inl invalid_input
      else if list_ex (\<lambda>v. int (length v) > pl_text_field_max_chars L)
                [sc_summary c, sc_body c, sc_verification c, sc_limitations c] then Inl invalid_input
      else if int (length (sc_topic_keys c)) > pl_max_collection_items L then Inl invalid_input
      else if list_ex (\<lambda>v. 0 \<in> set v) (persisted_strings c) then Inl invalid_input
      else rbind (dumps_utf8 (content_json c)) (\<lambda>encoded.
        if int (length encoded) > pl_aggregate_content_max_bytes L then Inl invalid_input
        else Inr ()))"

definition svc_validate_command_input :: "pub_limits \<Rightarrow> pystr \<Rightarrow> pystr \<Rightarrow> unit res" where
  "svc_validate_command_input L expected_digest request_id =
     (if strip request_id = [] \<or> int (length request_id) > pl_request_id_max_chars L
         \<or> 0 \<in> set request_id then Inl invalid_input
      else if \<not> encodable request_id then Inl invalid_input
      else if \<not> hex_digest expected_digest then Inl invalid_input
      else Inr ())"

definition svc_require_public_slug :: "pystr \<Rightarrow> unit res" where
  "svc_require_public_slug slug =
     (if length slug > storage_slug_max_chars \<or> \<not> is_public_slug slug then Inl not_found else Inr ())"

section \<open>Operations\<close>

type_synonym pub_stores = "private_db \<times> public_db"

definition svc_deliver_prepared ::
  "pub_env \<Rightarrow> delivery \<Rightarrow> pub_stores \<Rightarrow> prepared_publication \<Rightarrow> pub_stores \<times> publishing_study res" where
  "svc_deliver_prepared E d w p =
     (case w of (priv, pub) \<Rightarrow>
       if \<not> pr_should_deliver p then (w, Inr (pr_state p))
       else case deliver E d pub (pr_command p) of (pub', outcome) \<Rightarrow>
         (case (case outcome of
              Inl (AppError code _) \<Rightarrow>
                repo_record_failure E priv (pc_request_id (pr_command p)) (lit code)
            | Inl _ \<Rightarrow>
                repo_record_failure E priv (pc_request_id (pr_command p)) (lit ''publishing_delivery_failed'')
            | Inr None \<Rightarrow>
                repo_record_failure E priv (pc_request_id (pr_command p))
                  (lit ''publishing_manual_delivery_pending'')
            | Inr (Some rc) \<Rightarrow> repo_acknowledge E priv rc) of
          (priv', r) \<Rightarrow> ((priv', pub'), r)))"

definition svc_create ::
  "pub_env \<Rightarrow> pub_limits \<Rightarrow> public_persona list \<Rightarrow> pub_stores \<Rightarrow> study_content
    \<Rightarrow> pub_stores \<times> publishing_study res" where
  "svc_create E L approved w content =
     (case svc_validate_content L approved content of
        Inl e \<Rightarrow> (w, Inl e)
      | Inr _ \<Rightarrow> (case repo_create E (fst w) content of (priv', r) \<Rightarrow> ((priv', snd w), r)))"

definition svc_detail :: "pub_env \<Rightarrow> pub_stores \<Rightarrow> pystr \<Rightarrow> publishing_study res" where
  "svc_detail E w slug =
     rbind (svc_require_public_slug slug) (\<lambda>_.
     rbind (repo_get E (fst w) slug) (\<lambda>state.
       case state of None \<Rightarrow> Inl not_found | Some x \<Rightarrow> Inr x))"

definition svc_list ::
  "pub_env \<Rightarrow> pub_limits \<Rightarrow> pub_stores \<Rightarrow> int \<Rightarrow> int \<Rightarrow> publishing_study list res" where
  "svc_list E L w offset limit =
     (if offset < 0 \<or> limit < 1 \<or> limit > pl_page_max L then Inl invalid_input
      else repo_list E (fst w) (nat offset) (nat limit))"

definition svc_update ::
  "pub_env \<Rightarrow> pub_limits \<Rightarrow> public_persona list \<Rightarrow> pub_stores \<Rightarrow> pystr \<Rightarrow> int \<Rightarrow> study_content
    \<Rightarrow> pub_stores \<times> publishing_study res" where
  "svc_update E L approved w slug expected_revision content =
     (case rbind (svc_require_public_slug slug) (\<lambda>_. svc_validate_content L approved content) of
        Inl e \<Rightarrow> (w, Inl e)
      | Inr _ \<Rightarrow>
          (case repo_update E (fst w) slug expected_revision content of (priv', r) \<Rightarrow> ((priv', snd w), r)))"

definition svc_execute ::
  "pub_env \<Rightarrow> pub_limits \<Rightarrow> delivery \<Rightarrow> pub_stores \<Rightarrow> pystr \<Rightarrow> pub_action \<Rightarrow> int \<Rightarrow> pystr \<Rightarrow> pystr
    \<Rightarrow> pub_stores \<times> publishing_study res" where
  "svc_execute E L d w slug action expected_revision expected_digest request_id =
     (case rbind (svc_require_public_slug slug)
             (\<lambda>_. svc_validate_command_input L expected_digest request_id) of
        Inl e \<Rightarrow> (w, Inl e)
      | Inr _ \<Rightarrow>
          (case repo_prepare_command E (fst w) slug action expected_revision expected_digest request_id of
             (priv', Inl e) \<Rightarrow> ((priv', snd w), Inl e)
           | (priv', Inr p) \<Rightarrow> svc_deliver_prepared E d (priv', snd w) p))"

definition svc_publish_initial ::
  "pub_env \<Rightarrow> pub_limits \<Rightarrow> public_persona list \<Rightarrow> delivery \<Rightarrow> pub_stores \<Rightarrow> study_content \<Rightarrow> pystr
    \<Rightarrow> pystr \<Rightarrow> pub_stores \<times> publishing_study res" where
  "svc_publish_initial E L approved d w content expected_digest request_id =
     (case rbind (svc_validate_content L approved content)
             (\<lambda>_. svc_validate_command_input L expected_digest request_id) of
        Inl e \<Rightarrow> (w, Inl e)
      | Inr _ \<Rightarrow>
          (case repo_prepare_initial E (fst w) content expected_digest request_id of
             (priv', Inl e) \<Rightarrow> ((priv', snd w), Inl e)
           | (priv', Inr p) \<Rightarrow> svc_deliver_prepared E d (priv', snd w) p))"

section \<open>Service calls are runs of system steps\<close>

text \<open>\<open>realises E s w\<close>: the system can move from \<open>s\<close> to a state with the stores \<open>w\<close>.\<close>

definition realises :: "pub_env \<Rightarrow> pub_system \<Rightarrow> pub_stores \<Rightarrow> bool" where
  "realises E s w \<longleftrightarrow> (\<exists>s'. (pub_step E)\<^sup>*\<^sup>* s s' \<and> sy_private s' = fst w \<and> sy_public s' = snd w)"

abbreviation stores :: "pub_system \<Rightarrow> pub_stores" where
  "stores s \<equiv> (sy_private s, sy_public s)"

lemma realises_refl [simp]: "realises E s (stores s)"
  by (auto simp: realises_def)

lemma realises_step:
  assumes "pub_step E s s'" "realises E s' w"
  shows "realises E s w"
  using assms unfolding realises_def by (meson converse_rtranclp_into_rtranclp)

lemma realises_private_step:
  assumes "pub_step E s (s\<lparr>sy_private := db\<rparr>)"
  shows "realises E s (db, sy_public s)"
  by (rule realises_step [OF assms]) (simp add: realises_def, rule exI, rule conjI, rule rtranclp.rtrancl_refl, simp)

lemma deliver_prepared_realises:
  assumes p: "pr_should_deliver p \<Longrightarrow> pr_command p \<in> sy_inflight s"
    and d: "svc_deliver_prepared E d (stores s) p = (w, r)"
  shows "realises E s w"
proof (cases "pr_should_deliver p")
  case False
  with d show ?thesis by (auto simp: svc_deliver_prepared_def)
next
  case True
  have failed: "realises E s (priv', sy_public s)"
    if "repo_record_failure E (sy_private s) rid code = (priv', r)" for priv' rid code
    by (rule realises_private_step [OF step_record_failure [OF that]])
  show ?thesis
  proof (cases "\<exists>db rc. d = LocalDelivery \<and> writer_apply E (sy_public s) (pr_command p) = Inr (db, rc)")
    case False
    with True d show ?thesis
      by (auto simp: svc_deliver_prepared_def deliver_def intro: failed
          split: delivery.splits sum.splits exn.splits prod.splits)
  next
    case local: True
    then obtain db rc where db: "writer_apply E (sy_public s) (pr_command p) = Inr (db, rc)" and "d = LocalDelivery"
      by blast
    with True d obtain priv' where w: "w = (priv', db)" "repo_acknowledge E (sy_private s) rc = (priv', r)"
      by (auto simp: svc_deliver_prepared_def deliver_def split: prod.splits)
    let ?s = "s\<lparr>sy_public := db, sy_receipts := insert rc (sy_receipts s)\<rparr>"
    have "pub_step E s ?s" using p [OF True] db by (rule step_deliver)
    moreover have "pub_step E ?s (?s\<lparr>sy_private := priv'\<rparr>)"
      by (rule step_acknowledge [of rc]) (simp_all add: w)
    then have "realises E ?s (priv', sy_public ?s)" by (rule realises_private_step)
    ultimately show ?thesis by (auto simp: w intro: realises_step)
  qed
qed


lemma svc_create_realises:
  assumes "content_instance E content" "svc_create E L approved (stores s) content = (w, r)"
  shows "realises E s w"
  using assms step_create [OF assms(1), of s]
  by (auto simp: svc_create_def intro: realises_private_step split: sum.splits prod.splits)

lemma svc_update_realises:
  assumes "content_instance E content" "svc_update E L approved (stores s) slug n content = (w, r)"
  shows "realises E s w"
  using assms step_update [OF assms(1), of s slug n]
  by (auto simp: svc_update_def intro: realises_private_step split: sum.splits prod.splits)

lemma handed_over_step:
  assumes step: "pub_step E s (s\<lparr>sy_private := db, sy_inflight := sy_inflight s \<union> handed_over r\<rparr>)"
    and run: "(case r of Inl e \<Rightarrow> ((db, sy_public s), Inl e)
               | Inr p \<Rightarrow> svc_deliver_prepared E d (db, sy_public s) p) = (w, x)"
  shows "realises E s w"
proof (rule realises_step [OF step])
  let ?s = "s\<lparr>sy_private := db, sy_inflight := sy_inflight s \<union> handed_over r\<rparr>"
  show "realises E ?s w"
  proof (cases r)
    case (Inl e)
    with run have "w = stores ?s" by simp
    then show ?thesis by (simp only: realises_refl)
  next
    case (Inr p)
    with run have "svc_deliver_prepared E d (stores ?s) p = (w, x)" by simp
    then show ?thesis
      by (rule deliver_prepared_realises [rotated]) (simp add: Inr handed_over_def)
  qed
qed

lemma svc_execute_realises:
  assumes "svc_execute E L d (stores s) slug a n digest rid = (w, r)"
  shows "realises E s w"
proof (cases "rbind (svc_require_public_slug slug) (\<lambda>_. svc_validate_command_input L digest rid)")
  case (Inl e)
  with assms show ?thesis by (auto simp: svc_execute_def)
next
  case (Inr u)
  obtain db q where q: "repo_prepare_command E (sy_private s) slug a n digest rid = (db, q)" by fastforce
  from assms Inr q show ?thesis
    by (intro handed_over_step [OF step_prepare [OF q], of d w r])
      (auto simp: svc_execute_def split: sum.splits)
qed

lemma svc_publish_initial_realises:
  assumes "content_instance E content"
    "svc_publish_initial E L approved d (stores s) content digest rid = (w, r)"
  shows "realises E s w"
proof (cases "rbind (svc_validate_content L approved content) (\<lambda>_. svc_validate_command_input L digest rid)")
  case (Inl e)
  with assms show ?thesis by (auto simp: svc_publish_initial_def)
next
  case (Inr u)
  obtain db q where q: "repo_prepare_initial E (sy_private s) content digest rid = (db, q)" by fastforce
  from assms Inr q show ?thesis
    by (intro handed_over_step [OF step_prepare_initial [OF assms(1) q], of d w r])
      (auto simp: svc_publish_initial_def split: sum.splits)
qed

lemma realises_reachable:
  assumes "pub_reachable E s" "realises E s w"
  obtains s' where "pub_reachable E s'" "stores s' = w"
  using assms unfolding pub_reachable_def realises_def by (metis prod.collapse rtranclp_trans)

end
