(* ===== verification/Publishing_Calls.thy ===== *)
theory Publishing_Calls
  imports Publishing_Service
begin

text \<open>
  What a publishing call of the service (\<^verbatim>\<open>publish\<close>, \<^verbatim>\<open>withdraw\<close>, \<^verbatim>\<open>publish_initial\<close> of
  \<^verbatim>\<open>platform/publishing/service.py\<close>) achieves, end to end: which of its steps can fail, and what
  the two stores hold when it returns.
\<close>

section \<open>The calls\<close>

datatype publish_call =
  Execute pystr pub_action int pystr pystr
| PublishInitial study_content pystr pystr

fun run_call ::
  "pub_env \<Rightarrow> pub_limits \<Rightarrow> public_persona list \<Rightarrow> delivery \<Rightarrow> pub_stores \<Rightarrow> publish_call
    \<Rightarrow> pub_stores \<times> publishing_study res" where
  "run_call E L approved d w (Execute slug a n dg rid) = svc_execute E L d w slug a n dg rid"
| "run_call E L approved d w (PublishInitial content dg rid) =
     svc_publish_initial E L approved d w content dg rid"

text \<open>What the caller asks for: an initial publication confirms revision 1 of its own content.\<close>

fun call_slug :: "publish_call \<Rightarrow> pystr" where
  "call_slug (Execute slug a n dg rid) = slug"
| "call_slug (PublishInitial content dg rid) = sc_slug content"

fun call_action :: "publish_call \<Rightarrow> pub_action" where
  "call_action (Execute slug a n dg rid) = a"
| "call_action (PublishInitial content dg rid) = PUBLISH"

fun call_revision :: "publish_call \<Rightarrow> int" where
  "call_revision (Execute slug a n dg rid) = n"
| "call_revision (PublishInitial content dg rid) = 1"

fun call_digest :: "publish_call \<Rightarrow> pystr" where
  "call_digest (Execute slug a n dg rid) = dg"
| "call_digest (PublishInitial content dg rid) = dg"

fun call_request :: "publish_call \<Rightarrow> pystr" where
  "call_request (Execute slug a n dg rid) = rid"
| "call_request (PublishInitial content dg rid) = rid"

fun call_instance :: "pub_env \<Rightarrow> publish_call \<Rightarrow> bool" where
  "call_instance E (Execute slug a n dg rid) = True"
| "call_instance E (PublishInitial content dg rid) = content_instance E content"

text \<open>The input validation of a call, and the transaction that prepares its command.\<close>

fun check_call :: "pub_limits \<Rightarrow> public_persona list \<Rightarrow> publish_call \<Rightarrow> unit res" where
  "check_call L approved (Execute slug a n dg rid) =
     rbind (svc_require_public_slug slug) (\<lambda>_. svc_validate_command_input L dg rid)"
| "check_call L approved (PublishInitial content dg rid) =
     rbind (svc_validate_content L approved content) (\<lambda>_. svc_validate_command_input L dg rid)"

fun prepare_call ::
  "pub_env \<Rightarrow> private_db \<Rightarrow> publish_call \<Rightarrow> private_db \<times> prepared_publication res" where
  "prepare_call E db (Execute slug a n dg rid) = repo_prepare_command E db slug a n dg rid"
| "prepare_call E db (PublishInitial content dg rid) = repo_prepare_initial E db content dg rid"

lemma run_call_phases:
  "run_call E L approved d w call =
     (case check_call L approved call of
        Inl e \<Rightarrow> (w, Inl e)
      | Inr _ \<Rightarrow>
          (case prepare_call E (fst w) call of
             (priv', Inl e) \<Rightarrow> ((priv', snd w), Inl e)
           | (priv', Inr p) \<Rightarrow> svc_deliver_prepared E d (priv', snd w) p))"
  by (cases call) (simp_all add: svc_execute_def svc_publish_initial_def cong: sum.case_cong)

lemma run_call_realises:
  assumes "call_instance E call" "run_call E L approved d (stores s) call = (w, r)"
  shows "realises E s w"
  using assms by (cases call) (auto intro: svc_execute_realises svc_publish_initial_realises)

lemma prepare_call_step:
  assumes "call_instance E call" "prepare_call E (sy_private s) call = (db, r)"
  shows "pub_step E s (s\<lparr>sy_private := db, sy_inflight := sy_inflight s \<union> handed_over r\<rparr>)"
  using assms by (cases call) (auto intro: step_prepare step_prepare_initial)

lemma prepare_call_Inl: "prepare_call E db call = (db', Inl e) \<Longrightarrow> db' = db"
  by (cases call) (auto simp: repo_prepare_command_def repo_prepare_initial_def on_integrity_error_def
      transact_def split: sum.splits)

section \<open>A new request records the command asked for\<close>

text \<open>The command row a caller asked for.\<close>

definition row_asks :: "command_row \<Rightarrow> pystr \<Rightarrow> pub_action \<Rightarrow> int \<Rightarrow> pystr \<Rightarrow> pystr \<Rightarrow> bool" where
  "row_asks row slug a n dg rid \<longleftrightarrow>
     cr_request_id row = rid \<and> cr_slug row = slug \<and> cr_action row = a
     \<and> cr_expected_revision row = n \<and> cr_expected_digest row = dg"

lemma row_asks_updated [simp]:
  "row_asks (acknowledged_command row rc) slug a n dg rid = row_asks row slug a n dg rid"
  "row_asks (row\<lparr>cr_error := e\<rparr>) slug a n dg rid = row_asks row slug a n dg rid"
  by (simp_all add: row_asks_def acknowledged_command_def)

text \<open>
  \<open>asked_for E db c slug a n dg rid\<close>: the store holds, as the newest command of the study and not
  yet applied, the command \<open>c\<close> the caller asked for; a publication carries the confirmed revision.
\<close>

definition asked_for ::
  "pub_env \<Rightarrow> private_db \<Rightarrow> pub_command \<Rightarrow> pystr \<Rightarrow> pub_action \<Rightarrow> int \<Rightarrow> pystr \<Rightarrow> pystr \<Rightarrow> bool" where
  "asked_for E db c slug a n dg rid \<longleftrightarrow>
     recorded E db c \<and> pc_slug c = slug \<and> pc_action c = a \<and> pc_request_id c = rid
     \<and> (a = PUBLISH \<longrightarrow>
          (\<exists>snap. pc_snapshot c = Some snap \<and> ss_revision snap = n \<and> snapshot_digest E snap = Inr dg))
     \<and> (\<exists>st \<in> set (pv_studies db). sr_slug st = slug \<and> sr_sequence st = pc_sequence c)
     \<and> (\<exists>row \<in> set (pv_commands db). row_asks row slug a n dg rid
          \<and> cr_sequence row = pc_sequence c \<and> \<not> cr_applied row)"

lemma prepare_locked_asked_for:
  assumes ok: "priv_ok E db" and rid: "encodable rid" and new: "row_by cr_request_id rid (pv_commands db) = None"
    and st: "row_by sr_slug (sr_slug st) (pv_studies db) = Some st"
    and v: "row_by revision_key (sr_slug st, sr_current_revision st) (pv_revisions db) = Some v"
    and prep: "prepare_command_locked E db st v co a n dg rid fp = Inr (db', p)"
  shows "pr_should_deliver p \<and> asked_for E db' (pr_command p) (sr_slug st) a n dg rid"
proof -
  from prepare_locked_new [OF new prep] obtain x d c export r db1 st' where
    x: "state_from_rows E st v co = Inr x" and b: "build_command E (ps_draft x) a n dg rid = Inr (d, c)"
    and r: "r = \<lparr>cr_request_id = rid, cr_slug = sr_slug st, cr_sequence = pc_sequence c,
       cr_action = a, cr_expected_revision = n, cr_expected_digest = dg, cr_fingerprint = fp,
       cr_export = export, cr_receipt = None, cr_error = None, cr_applied = False\<rparr>"
    and st': "st' = st\<lparr>sr_sequence := pd_sequence d, sr_approved := pd_approved d\<rparr>"
    and ins: "insert_command db r = Inr db1" and fl: "flush_study db1 st' = Inr db'"
    and p: "pr_command p = c" "pr_should_deliver p" .
  note x = state_from_rows_Inr [OF x] and b = build_command_Inr [OF b]
  from v have "vr_slug v = sr_slug st" by (auto dest: row_by_SomeD)
  with b x have slug: "pc_slug c = sr_slug st" by simp
  from prepare_locked_ok [OF ok rid st v prep] p(1) have "recorded E db' c" by simp
  moreover have "r \<in> set (pv_commands db')" "st' \<in> set (pv_studies db')"
    using ins fl row_by_SomeD [OF st] st' by (auto simp: insert_command_def flush_study_def set_put_row split: if_splits)
  moreover have "sr_slug st' = sr_slug st" "sr_sequence st' = pc_sequence c"
    using b x by (simp_all add: st')
  moreover have "row_asks r (sr_slug st) a n dg rid" "cr_sequence r = pc_sequence c" "\<not> cr_applied r"
    by (simp_all add: r row_asks_def)
  moreover have "\<exists>snap. pc_snapshot c = Some snap \<and> ss_revision snap = n \<and> snapshot_digest E snap = Inr dg" if "a = PUBLISH"
    using that b by (intro exI [of _ "pd_snapshot (ps_draft x)"]) auto
  ultimately have "asked_for E db' c (sr_slug st) a n dg rid"
    unfolding asked_for_def using slug b(2,3) by blast
  with p show ?thesis by simp
qed

lemma prepare_call_asked_for:
  assumes ok: "priv_ok E db" and new: "row_by cr_request_id (call_request call) (pv_commands db) = None"
    and prep: "prepare_call E db call = (db', Inr p)"
  shows "pr_should_deliver p \<and> asked_for E db' (pr_command p) (call_slug call) (call_action call)
    (call_revision call) (call_digest call) (call_request call)"
proof (cases call)
  case (Execute slug a n dg rid)
  with prep new obtain fp st v co where fp: "request_fingerprint E slug a n dg rid = Inr fp"
    and row: "locked_study_rows db slug = Inr (Some (st, v, co))"
    and pl: "prepare_command_locked E db st v co a n dg rid fp = Inr (db', p)"
    by (auto simp: repo_prepare_command_def recover_def on_integrity_error_def transact_def
        resolve_request_race_def split: sum.splits exn.splits option.splits prod.splits if_splits)
  from prepare_locked_asked_for [OF ok request_fingerprint_encodable [OF fp] _ locked_rows_lookup [OF row] pl]
    new Execute locked_study_rows_Some(2) [OF row] show ?thesis by simp
next
  case (PublishInitial content dg rid)
  from prep PublishInitial obtain fp where
    fp: "request_fingerprint E (sc_slug content) PUBLISH 1 dg rid = Inr fp"
    by (auto simp: repo_prepare_initial_def recover_def rbind_def split: sum.splits if_splits)
  let ?row = "locked_study_rows db (sc_slug content)"
  from prep PublishInitial fp consider
      (old) st v co where "?row = Inr (Some (st, v, co))"
        "prepare_initial_locked E db st v co dg rid fp = Inr (db', p)"
    | (new) st v db1 db2 where "new_study_rows E content = Inr (st, v)" "insert_study db st = Inr db1"
        "insert_revision db1 v = Inr db2" "prepare_initial_locked E db2 st v None dg rid fp = Inr (db', p)"
    by (auto simp: repo_prepare_initial_def recover_def rbind_def on_integrity_error_def transact_def
        resolve_initial_race_def split: sum.splits exn.splits option.splits if_splits prod.splits)
  then show ?thesis
  proof cases
    case old
    from prepare_locked_asked_for [OF ok request_fingerprint_encodable [OF fp] _ locked_rows_lookup [OF old(1)]
        prepare_initial_locked_Inr [OF old(2)]] new PublishInitial locked_study_rows_Some(2) [OF old(1)]
    show ?thesis by simp
  next
    case look: new
    note rows = insert_rows_lookup [OF look(1-3)]
    have "priv_ok E db2" using ok look rows(5) by (blast intro: insert_study_ok insert_revision_ok)
    moreover from look(1) have "sr_slug st = sc_slug content" by (auto simp: new_study_rows_def)
    ultimately show ?thesis
      using prepare_locked_asked_for [OF _ request_fingerprint_encodable [OF fp] _ rows(1,2)
          prepare_initial_locked_Inr [OF look(4)]] new PublishInitial rows(3) by simp
  qed
qed

section \<open>Delivering the new command\<close>

lemma deliver_prepared_revisions:
  assumes "svc_deliver_prepared E d w p = (w', r)"
  shows "pv_revisions (fst w') = pv_revisions (fst w)"
proof -
  have ack: "pv_revisions db' = pv_revisions db" if "repo_acknowledge E db rc = (db', r)" for db db' rc r
    using that unfolding repo_acknowledge_def by (auto elim!: transact_cases acknowledge_tx_Inr)
  have fail: "pv_revisions db' = pv_revisions db" if "repo_record_failure E db rid code = (db', r)" for db db' rid code r
    using that unfolding repo_record_failure_def by (auto elim!: transact_cases record_failure_tx_Inr)
  obtain pub outcome where del: "deliver E d (snd w) (pr_command p) = (pub, outcome)" by fastforce
  show ?thesis
  proof (cases "pr_should_deliver p")
    case False
    with assms show ?thesis by (cases w) (simp add: svc_deliver_prepared_def)
  next
    case True
    with assms del have "(\<exists>rc. repo_acknowledge E (fst w) rc = (fst w', r))
        \<or> (\<exists>rid code. repo_record_failure E (fst w) rid code = (fst w', r))"
      by (cases w) (auto simp: svc_deliver_prepared_def split: sum.splits option.splits exn.splits prod.splits)
    with ack fail show ?thesis by blast
  qed
qed

lemma newest_not_applied:
  assumes priv: "priv_ok E db" and st: "st \<in> set (pv_studies db)"
    and r: "r \<in> set (pv_commands db)" "cr_slug r = sr_slug st" "cr_sequence r = sr_sequence st" "\<not> cr_applied r"
  shows "sr_applied_sequence st < sr_sequence st"
proof -
  from priv st have comp: "study_row_ok st" "applied_backed (pv_commands db) st"
    by (simp_all add: priv_ok_def study_complete_def)
  have pos: "0 < cr_sequence r" using study_of_command(1) [OF priv r(1) st] r(2) by (simp add: command_row_ok_def)
  have "sr_applied_sequence st \<noteq> sr_sequence st"
  proof
    assume eq: "sr_applied_sequence st = sr_sequence st"
    with pos r(3) have "sr_applied_sequence st \<noteq> 0" by simp
    with comp(2) obtain y where y: "y \<in> set (pv_commands db)" "command_key y = (sr_slug st, sr_applied_sequence st)" "cr_applied y"
      unfolding applied_backed_def by blast
    from priv have "inj_on command_key (set (pv_commands db))"
      by (simp add: priv_ok_def keys_ok_def keyed_def distinct_map)
    moreover have "command_key y = command_key r" using y(2) r(2,3) eq by simp
    ultimately have "y = r" using y(1) r(1) by (rule inj_onD)
    with y(3) r(4) show False by simp
  qed
  with comp(1) show ?thesis by (simp add: study_row_ok_def)
qed

lemma record_failure_total:
  assumes priv: "priv_ok E db" and sound: "rows_sound E db" and js: "json_reads E db"
    and r: "r \<in> set (pv_commands db)" "\<not> cr_applied r"
    and st: "st \<in> set (pv_studies db)" "cr_slug r = sr_slug st" "cr_sequence r = sr_sequence st"
  obtains x where "repo_record_failure E db (cr_request_id r) code =
      (db\<lparr>pv_commands := put_row cr_request_id (r\<lparr>cr_error := Some (safe_error_code code)\<rparr>) (pv_commands db)\<rparr>, Inr x)"
    "delivery_pending x" "ps_error x = Some (safe_error_code code)"
    "r\<lparr>cr_error := Some (safe_error_code code)\<rparr> \<in>
      set (put_row cr_request_id (r\<lparr>cr_error := Some (safe_error_code code)\<rparr>) (pv_commands db))"
proof -
  let ?r = "r\<lparr>cr_error := Some (safe_error_code code)\<rparr>"
  let ?db = "db\<lparr>pv_commands := put_row cr_request_id ?r (pv_commands db)\<rparr>"
  have row: "row_by cr_request_id (cr_request_id ?r) (pv_commands db) = Some r"
    using priv r(1) by (simp add: priv_ok_def keys_ok_def row_by_Some_iff)
  have id: "same_identity r ?r" by (simp add: same_identity_def)
  from priv r have placed: "command_placed (pv_studies db) ?r"
    by (auto simp: priv_ok_def command_placed_def command_row_ok_def)
  note priv' = put_command_ok [OF priv row id placed]
  from priv have k: "keyed cr_request_id (pv_commands db)" "keyed command_key (pv_commands db)"
    by (simp_all add: priv_ok_def keys_ok_def)
  have put: "?r \<in> set (put_row cr_request_id ?r (pv_commands db))"
    using put_command_set [OF k(1) row] by simp
  have cur: "current_command ?db st = Some ?r"
    using put keyed_command_put [OF k(2) row k(1) id] st(2,3) by (simp add: current_command_def row_by_Some_iff)
  have "rows_sound E ?db" "json_reads E ?db" "st \<in> set (pv_studies ?db)"
    using rows_sound_same [OF sound, of ?db] js st(1) by (simp_all add: json_reads_def)
  with priv' obtain v x where v: "row_by revision_key (sr_slug st, sr_current_revision st) (pv_revisions ?db) = Some v"
    and x: "state_from_rows E st v (current_command ?db st) = Inr x"
    by (rule state_from_rows_total)
  have "locked_study_rows ?db (cr_slug r) = Inr (Some (st, v, current_command ?db st))"
    using locked_study_rows_total [OF priv' _ v] st by simp
  with row r(2) placed x have "repo_record_failure E db (cr_request_id r) code = (?db, Inr x)"
    by (simp add: repo_record_failure_def record_failure_tx_def transact_def flush_command_def command_placed_def)
  moreover have "ps_error x = Some (safe_error_code code)"
    using x cur by (auto simp: state_from_rows_def)
  moreover have "delivery_pending x"
    using state_from_rows_Inr(3,7) [OF x] newest_not_applied [OF priv st(1) r(1) st(2,3) r(2)]
    by (simp add: delivery_pending_def)
  ultimately show thesis using put that by blast
qed

lemma asked_for_rows:
  assumes "asked_for E db c slug a n dg rid"
  obtains st row where "recorded E db c" "pc_slug c = slug" "pc_action c = a" "pc_request_id c = rid"
    "st \<in> set (pv_studies db)" "sr_slug st = slug" "sr_sequence st = pc_sequence c"
    "row \<in> set (pv_commands db)" "row_asks row slug a n dg rid" "cr_sequence row = pc_sequence c" "\<not> cr_applied row"
  using assms unfolding asked_for_def by blast

text \<open>The local delivery of the new command shows it in public and marks its row applied.\<close>

lemma local_delivery_settles:
  assumes env: "env_lawful E" and reach: "pub_reachable E s" and js: "json_reads E (sy_private s)"
    and asked: "asked_for E (sy_private s) (pr_command p) slug a n dg rid" and p: "pr_should_deliver p"
    and run: "svc_deliver_prepared E LocalDelivery (stores s) p = (w, r)"
  obtains x row where "r = Inr x" "\<not> delivery_pending x" "public_cell (snd w) slug = Some (row_of (pr_command p))"
    "row \<in> set (pv_commands (fst w))" "row_asks row slug a n dg rid" "cr_applied row"
proof -
  let ?c = "pr_command p" and ?db = "sy_private s"
  note ok = pub_reachable_sys_ok [OF reach] and sound = pub_reachable_rows_sound [OF env reach]
  note priv = sys_okD(1) [OF ok]
  from asked obtain st row where c: "recorded E ?db ?c" "pc_slug ?c = slug" "pc_request_id ?c = rid"
    and st: "st \<in> set (pv_studies ?db)" "sr_slug st = slug" "sr_sequence st = pc_sequence ?c"
    and row: "row \<in> set (pv_commands ?db)" "row_asks row slug a n dg rid"
    by (rule asked_for_rows)
  from env ok sound js c(1) st(1) obtain pub where pub: "writer_apply E (sy_public s) ?c = Inr (pub, receipt_of ?c)"
    "public_cell pub (pc_slug ?c) = Some (row_of ?c)"
    by (rule deliver_newest) (simp_all add: st c)
  from priv sound js c(1) st(1) obtain db x where ack: "repo_acknowledge E ?db (receipt_of ?c) = (db, Inr x)"
    "ps_applied_sequence x = max (sr_applied_sequence st) (pc_sequence ?c)" "pd_sequence (ps_draft x) = sr_sequence st"
    by (rule acknowledge_total) (simp add: st c)
  from ack(1) have "acknowledge_tx E ?db (receipt_of ?c) = Inr (db, x)"
    by (auto simp: repo_acknowledge_def elim: transact_cases)
  then obtain y where y: "row_by cr_request_id rid (pv_commands ?db) = Some y"
    and db: "pv_commands db = put_row cr_request_id (acknowledged_command y (receipt_of ?c)) (pv_commands ?db)"
    using c(3) by (auto elim!: acknowledge_tx_Inr)
  from priv have k: "keyed cr_request_id (pv_commands ?db)" by (simp add: priv_ok_def keys_ok_def)
  from row k have "row_by cr_request_id rid (pv_commands ?db) = Some row"
    by (simp add: row_by_Some_iff row_asks_def)
  with y have y_row: "y = row" by simp
  let ?row = "acknowledged_command row (receipt_of ?c)"
  have "row_by cr_request_id (cr_request_id ?row) (pv_commands ?db) = Some row"
    using y row(2) by (simp add: y_row row_asks_def acknowledged_command_def)
  from put_command_set [OF k this] have "?row \<in> set (pv_commands db)" by (simp add: db y_row)
  moreover have "row_asks ?row slug a n dg rid" using row(2) by simp
  moreover have "cr_applied ?row" by (simp add: acknowledged_command_def)
  moreover have "\<not> delivery_pending x" using ack(2,3) st(3) by (simp add: delivery_pending_def)
  moreover from run p pub ack(1) have "w = (db, pub)" "r = Inr x"
    by (simp_all add: svc_deliver_prepared_def deliver_def)
  ultimately show thesis using that pub(2) c(2) by simp
qed

text \<open>The manual delivery leaves the public store alone and the new command pending.\<close>

lemma manual_delivery_waits:
  assumes env: "env_lawful E" and reach: "pub_reachable E s" and js: "json_reads E (sy_private s)"
    and asked: "asked_for E (sy_private s) (pr_command p) slug a n dg rid" and p: "pr_should_deliver p"
    and run: "svc_deliver_prepared E ManualDelivery (stores s) p = (w, r)"
  obtains x row where "r = Inr x" "delivery_pending x" "ps_error x = Some (lit ''publishing_manual_delivery_pending'')"
    "snd w = sy_public s" "row \<in> set (pv_commands (fst w))" "row_asks row slug a n dg rid" "\<not> cr_applied row"
proof -
  let ?c = "pr_command p" and ?db = "sy_private s"
  note ok = pub_reachable_sys_ok [OF reach] and sound = pub_reachable_rows_sound [OF env reach]
  from asked obtain st row where c: "pc_request_id ?c = rid"
    and st: "st \<in> set (pv_studies ?db)" "sr_slug st = slug" "sr_sequence st = pc_sequence ?c"
    and row: "row \<in> set (pv_commands ?db)" "row_asks row slug a n dg rid" "cr_sequence row = pc_sequence ?c"
      "\<not> cr_applied row"
    by (rule asked_for_rows)
  let ?code = "lit ''publishing_manual_delivery_pending''"
  have code: "safe_error_code ?code = ?code" by (simp add: safe_error_code_def)
  from row(2) st(2) have "cr_slug row = sr_slug st" by (simp add: row_asks_def)
  from sys_okD(1) [OF ok] sound js row(1,4) st(1) this obtain x where
    f: "repo_record_failure E ?db (cr_request_id row) ?code =
      (?db\<lparr>pv_commands := put_row cr_request_id (row\<lparr>cr_error := Some (safe_error_code ?code)\<rparr>) (pv_commands ?db)\<rparr>, Inr x)"
    "delivery_pending x" "ps_error x = Some (safe_error_code ?code)"
    "row\<lparr>cr_error := Some (safe_error_code ?code)\<rparr> \<in>
      set (put_row cr_request_id (row\<lparr>cr_error := Some (safe_error_code ?code)\<rparr>) (pv_commands ?db))"
    by (rule record_failure_total) (simp add: row st)
  from row(2) c have "cr_request_id row = pc_request_id ?c" by (simp add: row_asks_def)
  with run p f(1) have "r = Inr x" "snd w = sy_public s"
    "fst w = ?db\<lparr>pv_commands := put_row cr_request_id (row\<lparr>cr_error := Some (safe_error_code ?code)\<rparr>) (pv_commands ?db)\<rparr>"
    by (auto simp: svc_deliver_prepared_def deliver_def)
  with f that [of x "row\<lparr>cr_error := Some ?code\<rparr>"] row(2,4) show thesis by (simp add: code del: lit_simps)
qed

section \<open>A call of a new request\<close>

lemma call_refused:
  assumes "run_call E L approved d (stores s) call = (w, r)"
    "rbind (check_call L approved call) (\<lambda>_. snd (prepare_call E (sy_private s) call)) = Inl e"
  shows "r = Inl e \<and> w = stores s"
  using assms prepare_call_Inl [of E "sy_private s" call _ e]
  by (cases "prepare_call E (sy_private s) call") (auto simp: run_call_phases split: sum.splits)

lemma call_prepared:
  assumes reach: "pub_reachable E s" and inst: "call_instance E call"
    and run: "run_call E L approved d (stores s) call = (w, r)" and js: "json_reads E (fst w)"
    and new: "row_by cr_request_id (call_request call) (pv_commands (sy_private s)) = None"
    and prep: "rbind (check_call L approved call) (\<lambda>_. snd (prepare_call E (sy_private s) call)) = Inr p"
  obtains t where "pub_reachable E t" "json_reads E (sy_private t)" "sy_public t = sy_public s"
    "svc_deliver_prepared E d (stores t) p = (w, r)" "pr_should_deliver p"
    "asked_for E (sy_private t) (pr_command p) (call_slug call) (call_action call) (call_revision call)
       (call_digest call) (call_request call)"
proof -
  from prep obtain db where db: "prepare_call E (sy_private s) call = (db, Inr p)"
    by (cases "prepare_call E (sy_private s) call") (auto simp: rbind_def split: sum.splits)
  let ?t = "s\<lparr>sy_private := db, sy_inflight := sy_inflight s \<union> handed_over (Inr p)\<rparr>"
  from run db prep have del: "svc_deliver_prepared E d (stores ?t) p = (w, r)"
    by (auto simp: run_call_phases split: sum.splits)
  have "pub_reachable E ?t"
    using reach prepare_call_step [OF inst db] unfolding pub_reachable_def by (rule rtranclp.rtrancl_into_rtrancl)
  moreover have "json_reads E (sy_private ?t)"
    using js deliver_prepared_revisions [OF del] by (simp add: json_reads_def)
  ultimately show thesis
    using that [of ?t] del prepare_call_asked_for [OF sys_okD(1) [OF pub_reachable_sys_ok [OF reach]] new db] by simp
qed

end
