(* ===== verification/Publishing_Demo.thy ===== *)
theory Publishing_Demo
  imports Publishing_Calls
begin

text \<open>
  A concrete run of the publishing service, on which the witnesses of the publishing
  properties are evaluated: one study, its first publication and its withdrawal, in an
  environment whose digest depends on the length of the bytes.
\<close>

section \<open>The environment and the study\<close>

definition demo_slug :: pystr where
  "demo_slug = lit ''st-1''"

definition demo_topic :: pystr where
  "demo_topic = lit ''rag''"

definition demo_rid :: pystr where
  "demo_rid = lit ''r1''"

definition demo_content :: study_content where
  "demo_content =
     \<lparr>sc_slug = demo_slug, sc_title = lit ''T'', sc_summary = lit ''S'', sc_topic_keys = [demo_topic],
      sc_body = lit ''B'', sc_verification = lit ''V'', sc_limitations = lit ''L'', sc_persona = None\<rparr>"

definition demo_snapshot :: study_snapshot where
  "demo_snapshot = \<lparr>ss_schema_version = 1, ss_revision = 1, ss_content = demo_content\<rparr>"

definition demo_sha :: "nat list \<Rightarrow> pystr" where
  "demo_sha b = (48 + length b mod 10) # replicate 63 97"

definition demo_env :: pub_env where
  "demo_env = \<lparr>sha256 = demo_sha, nfc = (\<lambda>s. s), json_load = (\<lambda>b. Some (snapshot_json demo_snapshot))\<rparr>"

definition demo_limits :: pub_limits where
  "demo_limits =
     \<lparr>pl_page_default = 20, pl_page_max = 100, pl_request_id_max_chars = 200, pl_title_max_chars = 200,
      pl_text_field_max_chars = 100000, pl_max_collection_items = 100,
      pl_aggregate_content_max_bytes = 262144\<rparr>"

definition demo_bytes :: "nat list" where
  "demo_bytes = [
     123, 34, 99, 111, 110, 116, 101, 110, 116, 34, 58, 123, 34, 98, 111, 100, 121, 34, 58, 34,
     66, 34, 44, 34, 108, 105, 109, 105, 116, 97, 116, 105, 111, 110, 115, 34, 58, 34, 76, 34,
     44, 34, 112, 101, 114, 115, 111, 110, 97, 34, 58, 110, 117, 108, 108, 44, 34, 115, 108,
     117, 103, 34, 58, 34, 115, 116, 45, 49, 34, 44, 34, 115, 117, 109, 109, 97, 114, 121, 34,
     58, 34, 83, 34, 44, 34, 116, 105, 116, 108, 101, 34, 58, 34, 84, 34, 44, 34, 116, 111,
     112, 105, 99, 95, 107, 101, 121, 115, 34, 58, 91, 34, 114, 97, 103, 34, 93, 44, 34, 118,
     101, 114, 105, 102, 105, 99, 97, 116, 105, 111, 110, 34, 58, 34, 86, 34, 125, 44, 34, 114,
     101, 118, 105, 115, 105, 111, 110, 34, 58, 49, 44, 34, 115, 99, 104, 101, 109, 97, 95,
     118, 101, 114, 115, 105, 111, 110, 34, 58, 49, 125]"

definition demo_digest :: pystr where
  "demo_digest = demo_sha demo_bytes"

lemma demo_env_sel [simp]:
  "sha256 demo_env = demo_sha" "nfc demo_env s = s" "json_load demo_env b = Some (snapshot_json demo_snapshot)"
  "load_snapshot demo_env b = Some demo_snapshot"
  by (simp_all add: demo_env_def load_snapshot_def)

lemma demo_snapshot_sel [simp]:
  "ss_schema_version demo_snapshot = 1" "ss_revision demo_snapshot = 1" "ss_content demo_snapshot = demo_content"
  by (simp_all add: demo_snapshot_def)

lemma demo_content_sel [simp]:
  "sc_slug demo_content = demo_slug" "sc_topic_keys demo_content = [demo_topic]"
  by (simp_all add: demo_content_def)

lemma hex_digest_demo_sha: "hex_digest (demo_sha b)"
proof -
  have "length b mod 10 \<le> 9" using pos_mod_bound [of 10 "int (length b)"] by presburger
  then show ?thesis by (simp add: hex_digest_def demo_sha_def list_all_iff)
qed

lemma demo_env_lawful [simp]: "env_lawful demo_env"
  by (simp add: env_lawful_def nfc_lawful_def hex_digest_demo_sha demo_env_def)

lemmas text_evals = normalize_public_text_def normalize_public_slug_def is_public_slug_def slug_char_def
  strip_def lstrip_def rstrip_def py_isspace_def replace_cr_def Let_def utf8_char_def
  normalize_topics_def validate_persona_option_def demo_slug_def demo_topic_def demo_rid_def

lemma demo_content_valid [simp]: "validate_content demo_env demo_content = Inr demo_content"
  by (simp add: validate_content_def demo_content_def text_evals)

lemma demo_instance [simp]: "content_instance demo_env demo_content"
  unfolding content_instance_def by (rule exI, rule demo_content_valid)

lemma demo_snapshot_valid [simp]: "is_valid_snapshot demo_env demo_snapshot"
  by (simp add: is_valid_snapshot_def validate_snapshot_def)

lemma demo_canonical [simp]: "canonical_bytes demo_snapshot = Inr demo_bytes"
  by (simp add: canonical_bytes_def snapshot_json_def content_json_def demo_content_def persona_json_def
      dumps_utf8_def json_str_def json_esc_def dec_int_def dec_nat.simps utf8_char_def demo_bytes_def demo_slug_def demo_topic_def)

lemma demo_reads_dumped [simp]: "reads_dumped demo_env demo_bytes"
  by (rule reads_dumped_snapshotI [OF demo_canonical]) simp

lemma demo_snapshot_digest [simp]: "snapshot_digest demo_env demo_snapshot = Inr demo_digest"
  by (simp add: snapshot_digest_def demo_digest_def)

lemma demo_decode [simp]: "decode_snapshot demo_env demo_bytes demo_digest = Inr demo_snapshot"
  using decode_snapshot_canonical [OF demo_snapshot_valid demo_canonical] by (simp add: demo_digest_def)


section \<open>The run\<close>

definition demo_revision :: revision_row where
  "demo_revision =
     \<lparr>vr_slug = demo_slug, vr_revision = 1, vr_snapshot = demo_snapshot, vr_canonical = demo_bytes,
      vr_digest = demo_digest\<rparr>"

definition demo_command :: pub_command where
  "demo_command =
     \<lparr>pc_slug = demo_slug, pc_sequence = 1, pc_request_id = demo_rid, pc_action = PUBLISH,
      pc_snapshot = Some demo_snapshot, pc_digest = Some demo_digest\<rparr>"

definition demo_fp :: pystr where
  "demo_fp = (case request_fingerprint demo_env (demo_slug) PUBLISH 1 demo_digest (demo_rid) of
     Inr f \<Rightarrow> f | Inl _ \<Rightarrow> [])"

definition demo_study :: "int \<Rightarrow> pystr option \<Rightarrow> int \<Rightarrow> study_row" where
  "demo_study n approved applied =
     \<lparr>sr_slug = demo_slug, sr_current_revision = 1, sr_sequence = n, sr_approved = approved,
      sr_applied_sequence = applied,
      sr_applied_action = (if applied = 0 then None else Some PUBLISH),
      sr_applied_revision = (if applied = 0 then None else Some 1)\<rparr>"

definition demo_command_row :: command_row where
  "demo_command_row =
     \<lparr>cr_request_id = demo_rid, cr_slug = demo_slug, cr_sequence = 1, cr_action = PUBLISH,
      cr_expected_revision = 1, cr_expected_digest = demo_digest, cr_fingerprint = demo_fp,
      cr_export = Some demo_bytes, cr_receipt = None, cr_error = None, cr_applied = False\<rparr>"

definition demo_private :: private_db where
  "demo_private =
     \<lparr>pv_studies = [demo_study 1 (Some demo_digest) 0], pv_revisions = [demo_revision],
      pv_commands = [demo_command_row]\<rparr>"

lemma encodable_demo_digest [simp]: "encodable demo_digest"
  unfolding demo_digest_def by (rule hex_digest_encodable [OF hex_digest_demo_sha])

lemma demo_fingerprint [simp]:
  "request_fingerprint demo_env (demo_slug) PUBLISH 1 demo_digest (demo_rid) = Inr demo_fp"
proof -
  let ?j = "JObj
       [(lit ''action'', JStr (action_value PUBLISH)),
        (lit ''expected_digest'', JStr demo_digest),
        (lit ''expected_revision'', JInt 1),
        (lit ''request_id'', JStr (demo_rid)),
        (lit ''slug'', JStr (demo_slug))]"
  have "encodable (dumps ?j)" by (rule encodable_dumps) (simp add: utf8_ascii demo_rid_def demo_slug_def)
  then obtain b where "utf8_encode (dumps ?j) = Inr b" by (rule encodable_obtain)
  then have "request_fingerprint demo_env (demo_slug) PUBLISH 1 demo_digest (demo_rid) = Inr (demo_sha b)"
    by (simp only: request_fingerprint_def dumps_utf8_def rbind_simps demo_env_sel)
  then show ?thesis by (simp add: demo_fp_def)
qed

lemma demo_slug_public [simp]: "is_public_slug demo_slug"
  by (simp add: is_public_slug_def slug_char_def demo_slug_def)

lemma demo_command_ok [simp]: "command_ok demo_env demo_command"
  by (simp add: command_ok_def demo_command_def text_evals)

lemmas command_evals = insert_command_def command_row_ok_def payload_of_def flush_study_def flush_command_def
  study_row_ok_def insert_study_def insert_revision_def put_row_def

lemmas row_evals = locked_study_rows_def state_from_rows_def snapshot_from_revision_def new_study_rows_def
  pending_of_def current_command_def draft_ok_def new_draft_def

lemmas prepare_evals = repo_prepare_initial_def new_snapshot_def empty_private_db_def
  prepare_initial_locked_def prepare_command_locked_def on_integrity_error_def transact_def
  draft_approve_def draft_publish_def draft_withdraw_def new_command_def

lemmas demo_rows = demo_private_def demo_study_def demo_revision_def demo_command_row_def demo_command_def

lemma demo_prepare:
  "\<exists>x. repo_prepare_initial demo_env empty_private_db demo_content demo_digest demo_rid =
     (demo_private, Inr \<lparr>pr_state = x, pr_command = demo_command, pr_should_deliver = True\<rparr>)"
  by (simp add: prepare_evals row_evals command_evals demo_rows demo_snapshot_def [symmetric]
      demo_command_ok [unfolded demo_command_def])


definition demo_acked :: private_db where
  "demo_acked =
     \<lparr>pv_studies = [demo_study 1 (Some demo_digest) 1], pv_revisions = [demo_revision],
      pv_commands = [acknowledged_command demo_command_row (receipt_of demo_command)]\<rparr>"

definition demo_public :: public_db where
  "demo_public = store_put empty_public_db demo_command
     (case command_fingerprint demo_env demo_command of Inr f \<Rightarrow> f | Inl _ \<Rightarrow> [])"

lemma demo_rid_encodable [simp]: "encodable demo_rid"
  by (simp add: utf8_ascii demo_rid_def)

lemma demo_command_sel [simp]:
  "pc_slug demo_command = demo_slug" "pc_sequence demo_command = 1" "pc_request_id demo_command = demo_rid"
  "pc_action demo_command = PUBLISH" "pc_snapshot demo_command = Some demo_snapshot"
  "pc_digest demo_command = Some demo_digest"
  by (simp_all add: demo_command_def)

lemma demo_write: "writer_apply demo_env empty_public_db demo_command = Inr (demo_public, receipt_of demo_command)"
proof -
  obtain fp where fp: "command_fingerprint demo_env demo_command = Inr fp"
    by (rule command_fingerprint_total [OF demo_env_lawful demo_command_ok]) simp
  have "\<exists>x. validated_command demo_env demo_command = Inr x \<and> x = demo_command"
    by (simp add: validated_command_Inr)
  then have v: "validated_command demo_env demo_command = Inr demo_command" by blast
  have "projection_apply demo_env (empty_projection demo_slug) demo_command = Inr (projection_of demo_command)"
    by (rule projection_apply_newer) simp_all
  with fp v show ?thesis
    by (simp add: writer_apply_def demo_public_def empty_public_db_def load_projection_def payload_of_def
        new_projection_def store_write_def projection_row_ok_def store_put_def row_of_def topics_of_def)
qed

lemma demo_acknowledge:
  "\<exists>x. repo_acknowledge demo_env demo_private (receipt_of demo_command) = (demo_acked, Inr x)"
  by (simp add: repo_acknowledge_def acknowledge_tx_def demo_rows row_evals command_evals transact_def
      receipt_of_def acknowledged_command_def acknowledged_study_def demo_acked_def)

definition demo_s1 :: pub_system where
  "demo_s1 = \<lparr>sy_private = demo_private, sy_public = empty_public_db, sy_inflight = {demo_command}, sy_receipts = {}\<rparr>"

definition demo_s2 :: pub_system where
  "demo_s2 = demo_s1\<lparr>sy_public := demo_public, sy_receipts := {receipt_of demo_command}\<rparr>"

definition demo_s3 :: pub_system where
  "demo_s3 = demo_s2\<lparr>sy_private := demo_acked\<rparr>"

lemma demo_step1: "pub_step demo_env initial_system demo_s1"
proof -
  obtain x where x: "repo_prepare_initial demo_env (sy_private initial_system) demo_content demo_digest demo_rid =
     (demo_private, Inr \<lparr>pr_state = x, pr_command = demo_command, pr_should_deliver = True\<rparr>)"
    using demo_prepare by (auto simp: initial_system_def)
  from step_prepare_initial [OF demo_instance x] show ?thesis
    by (simp add: demo_s1_def initial_system_def handed_over_def)
qed

lemma demo_step2: "pub_step demo_env demo_s1 demo_s2"
  using step_deliver [of demo_command demo_s1 demo_env demo_public "receipt_of demo_command"] demo_write
  by (simp add: demo_s1_def demo_s2_def)

lemma demo_step3: "pub_step demo_env demo_s2 demo_s3"
proof -
  obtain x where "repo_acknowledge demo_env demo_private (receipt_of demo_command) = (demo_acked, Inr x)"
    using demo_acknowledge by blast
  then show ?thesis
    using step_acknowledge [of "receipt_of demo_command" demo_s2 demo_env demo_acked "Inr x"]
    by (simp add: demo_s2_def demo_s1_def demo_s3_def)
qed

lemma demo_reachable: "pub_reachable demo_env demo_s1" "pub_reachable demo_env demo_s2" "pub_reachable demo_env demo_s3"
  unfolding pub_reachable_def
  by (meson demo_step1 demo_step2 demo_step3 rtranclp.rtrancl_into_rtrancl rtranclp.rtrancl_refl)+

section \<open>The withdrawal\<close>

definition demo_rid2 :: pystr where
  "demo_rid2 = lit ''r2''"

definition demo_withdrawal :: pub_command where
  "demo_withdrawal =
     \<lparr>pc_slug = demo_slug, pc_sequence = 2, pc_request_id = demo_rid2, pc_action = WITHDRAW,
      pc_snapshot = None, pc_digest = None\<rparr>"


definition demo_fp2 :: pystr where
  "demo_fp2 = (case request_fingerprint demo_env demo_slug WITHDRAW 1 demo_digest demo_rid2 of
     Inr f \<Rightarrow> f | Inl _ \<Rightarrow> [])"

definition demo_withdraw_row :: command_row where
  "demo_withdraw_row =
     \<lparr>cr_request_id = demo_rid2, cr_slug = demo_slug, cr_sequence = 2, cr_action = WITHDRAW,
      cr_expected_revision = 1, cr_expected_digest = demo_digest, cr_fingerprint = demo_fp2,
      cr_export = None, cr_receipt = None, cr_error = None, cr_applied = False\<rparr>"

definition demo_private2 :: private_db where
  "demo_private2 =
     \<lparr>pv_studies = [demo_study 2 None 1], pv_revisions = [demo_revision],
      pv_commands = [acknowledged_command demo_command_row (receipt_of demo_command), demo_withdraw_row]\<rparr>"

definition demo_acked2 :: private_db where
  "demo_acked2 =
     \<lparr>pv_studies = [(demo_study 2 None 1)\<lparr>sr_applied_sequence := 2, sr_applied_action := Some WITHDRAW,
        sr_applied_revision := None\<rparr>], pv_revisions = [demo_revision],
      pv_commands = [acknowledged_command demo_command_row (receipt_of demo_command),
        acknowledged_command demo_withdraw_row (receipt_of demo_withdrawal)]\<rparr>"

definition demo_public2 :: public_db where
  "demo_public2 = store_put demo_public demo_withdrawal
     (case command_fingerprint demo_env demo_withdrawal of Inr f \<Rightarrow> f | Inl _ \<Rightarrow> [])"

lemma demo_rid2_encodable [simp]: "encodable demo_rid2"
  by (simp add: utf8_ascii demo_rid2_def)

lemma demo_rids_differ [simp]: "demo_rid2 \<noteq> demo_rid" "demo_rid \<noteq> demo_rid2"
  by (simp_all add: demo_rid_def demo_rid2_def)

lemma demo_fingerprint2 [simp]:
  "request_fingerprint demo_env demo_slug WITHDRAW 1 demo_digest demo_rid2 = Inr demo_fp2"
proof -
  let ?j = "JObj
       [(lit ''action'', JStr (action_value WITHDRAW)),
        (lit ''expected_digest'', JStr demo_digest),
        (lit ''expected_revision'', JInt 1),
        (lit ''request_id'', JStr demo_rid2),
        (lit ''slug'', JStr demo_slug)]"
  have "encodable (dumps ?j)" by (rule encodable_dumps) (simp add: utf8_ascii demo_slug_def)
  then obtain b where "utf8_encode (dumps ?j) = Inr b" by (rule encodable_obtain)
  then have "request_fingerprint demo_env demo_slug WITHDRAW 1 demo_digest demo_rid2 = Inr (demo_sha b)"
    by (simp only: request_fingerprint_def dumps_utf8_def rbind_simps demo_env_sel)
  then show ?thesis by (simp add: demo_fp2_def)
qed

lemma demo_withdrawal_ok [simp]: "command_ok demo_env demo_withdrawal"
  by (simp add: command_ok_def demo_withdrawal_def strip_def lstrip_def rstrip_def py_isspace_def demo_rid2_def)

lemma demo_withdrawal_sel [simp]:
  "pc_slug demo_withdrawal = demo_slug" "pc_sequence demo_withdrawal = 2"
  "pc_request_id demo_withdrawal = demo_rid2" "pc_action demo_withdrawal = WITHDRAW"
  "pc_snapshot demo_withdrawal = None" "pc_digest demo_withdrawal = None"
  by (simp_all add: demo_withdrawal_def)

lemma demo_prepare2:
  "\<exists>x. repo_prepare_command demo_env demo_acked demo_slug WITHDRAW 1 demo_digest demo_rid2 =
     (demo_private2, Inr \<lparr>pr_state = x, pr_command = demo_withdrawal, pr_should_deliver = True\<rparr>)"
  by (simp add: repo_prepare_command_def prepare_evals row_evals command_evals demo_rows demo_acked_def
      demo_private2_def acknowledged_command_def receipt_of_def demo_withdraw_row_def demo_withdrawal_def
      demo_withdrawal_ok [unfolded demo_withdrawal_def])

lemma demo_write2: "writer_apply demo_env demo_public demo_withdrawal = Inr (demo_public2, receipt_of demo_withdrawal)"
proof -
  obtain fp where fp: "command_fingerprint demo_env demo_withdrawal = Inr fp"
    by (rule command_fingerprint_total [OF demo_env_lawful demo_withdrawal_ok]) simp
  have "\<exists>x. validated_command demo_env demo_withdrawal = Inr x \<and> x = demo_withdrawal"
    by (simp add: validated_command_Inr)
  then have v: "validated_command demo_env demo_withdrawal = Inr demo_withdrawal" by blast
  have cell: "row_by jr_slug demo_slug (db_projections demo_public) = Some (row_of demo_command)"
    by (simp add: demo_public_def store_put_def empty_public_db_def upsert_projection_def)
  have hist: "row_by fst demo_rid2 (db_history demo_public) = None"
    by (simp add: demo_public_def store_put_def empty_public_db_def)
  have "load_projection demo_env demo_public demo_slug = Inr (projection_of demo_command)"
    using demo_command_ok [unfolded demo_command_def]
      projection_of_ok [of demo_env demo_command, unfolded demo_command_def projection_of_def]
    by (simp add: load_projection_def cell payload_of_def row_of_def projection_of_def demo_command_def)
  moreover have "projection_apply demo_env (projection_of demo_command) demo_withdrawal = Inr (projection_of demo_withdrawal)"
    by (rule projection_apply_newer) auto
  ultimately show ?thesis
    using fp v hist
    by (simp add: writer_apply_def demo_public2_def payload_of_def store_write_def projection_row_ok_def
        store_put_def row_of_def topics_of_def)
qed

lemma demo_acknowledge2:
  "\<exists>x. repo_acknowledge demo_env demo_private2 (receipt_of demo_withdrawal) = (demo_acked2, Inr x)"
  by (simp add: repo_acknowledge_def acknowledge_tx_def demo_rows row_evals command_evals transact_def
      receipt_of_def acknowledged_command_def acknowledged_study_def demo_acked2_def demo_private2_def
      demo_withdraw_row_def)

definition demo_s4 :: pub_system where
  "demo_s4 = demo_s3\<lparr>sy_private := demo_private2, sy_inflight := {demo_command, demo_withdrawal}\<rparr>"

definition demo_s5 :: pub_system where
  "demo_s5 = demo_s4\<lparr>sy_public := demo_public2,
     sy_receipts := {receipt_of demo_command, receipt_of demo_withdrawal}\<rparr>"

definition demo_s6 :: pub_system where
  "demo_s6 = demo_s5\<lparr>sy_private := demo_acked2\<rparr>"

lemma demo_step4: "pub_step demo_env demo_s3 demo_s4"
proof -
  obtain x where x: "repo_prepare_command demo_env demo_acked demo_slug WITHDRAW 1 demo_digest demo_rid2 =
     (demo_private2, Inr \<lparr>pr_state = x, pr_command = demo_withdrawal, pr_should_deliver = True\<rparr>)"
    using demo_prepare2 by blast
  then show ?thesis
    using step_prepare [of demo_env demo_s3 demo_slug WITHDRAW 1 demo_digest demo_rid2]
    by (simp add: demo_s1_def demo_s2_def demo_s3_def demo_s4_def handed_over_def insert_commute)
qed

lemma demo_step5: "pub_step demo_env demo_s4 demo_s5"
  using step_deliver [of demo_withdrawal demo_s4 demo_env demo_public2 "receipt_of demo_withdrawal"] demo_write2
  by (simp add: demo_s1_def demo_s2_def demo_s3_def demo_s4_def demo_s5_def insert_commute)

lemma demo_step6: "pub_step demo_env demo_s5 demo_s6"
proof -
  obtain x where "repo_acknowledge demo_env demo_private2 (receipt_of demo_withdrawal) = (demo_acked2, Inr x)"
    using demo_acknowledge2 by blast
  then show ?thesis
    using step_acknowledge [of "receipt_of demo_withdrawal" demo_s5 demo_env demo_acked2 "Inr x"]
    by (simp add: demo_s2_def demo_s1_def demo_s3_def demo_s4_def demo_s5_def demo_s6_def)
qed

lemma demo_reachable2: "pub_reachable demo_env demo_s4" "pub_reachable demo_env demo_s5" "pub_reachable demo_env demo_s6"
  using demo_reachable(3) unfolding pub_reachable_def
  by (meson demo_step4 demo_step5 demo_step6 rtranclp.rtrancl_into_rtrancl)+


section \<open>Drafts\<close>

definition raw_content :: study_content where
  "raw_content = demo_content\<lparr>sc_title := lit '' T '', sc_body := [66, 13, 10, 67, 13, 68, 32]\<rparr>"

definition demo_draft :: pub_draft where
  "demo_draft = \<lparr>pd_snapshot = demo_snapshot, pd_approved = Some demo_digest, pd_sequence = 1\<rparr>"

definition demo_revised :: pub_draft where
  "demo_revised = demo_draft\<lparr>pd_snapshot := demo_snapshot\<lparr>ss_revision := 2\<rparr>, pd_approved := None\<rparr>"

end
