(* ===== verification/Publishing_Properties.thy ===== *)
theory Publishing_Properties
  imports Publishing_Demo
begin

text \<open>
  The properties of the publishing component, each followed by a witness evaluated on the run
  of \<^verbatim>\<open>Publishing_Demo\<close>.
\<close>

section \<open>What the public sees\<close>

lemma reader_get_cell:
  assumes inv: "store_ok E db" and get: "reader_get E db slug = Inr snap"
  obtains c d where "public_cell db slug = Some (row_of c)" "command_ok E c" "pc_slug c = slug"
    "pc_action c = PUBLISH" "pc_snapshot c = Some snap" "pc_digest c = Some d"
proof -
  from get obtain r where r: "List.find (\<lambda>r. jr_slug r = slug \<and> jr_action r = PUBLISH) (db_projections db) = Some r"
    and dec: "decode_row E r = Some snap"
    by (auto simp: reader_get_def split: if_splits option.splits)
  from r have r': "r \<in> set (db_projections db)" "jr_slug r = slug" "jr_action r = PUBLISH"
    by (auto simp: find_Some_iff)
  with inv have cell: "row_by jr_slug slug (db_projections db) = Some r"
    by (simp add: store_ok_def row_by_Some_iff)
  with inv obtain c where c: "command_ok E c" "r = row_of c" "pc_slug c = slug" by (rule store_row)
  with r'(3) obtain s d where s: "pc_snapshot c = Some s" "pc_digest c = Some d" "is_valid_snapshot E s"
    by (auto elim: command_ok_publish)
  from s(3) obtain b where b: "canonical_bytes s = Inr b" by (rule canonical_bytes_total)
  from dec c s b have "decode_snapshot E b d = Inr snap"
    by (auto simp: decode_row_def row_of_def payload_of_def split: sum.splits if_splits)
  with b have "snap = s" by (rule decode_snapshot_unique)
  with c s r' cell that show thesis by (auto simp: public_cell_def)
qed

text \<open>
  C1.  In every reachable state of the publishing system, a study the public reader returns is
  a stored revision of that study, and the owner confirmed exactly that revision and exactly
  that digest in a recorded publish command.
\<close>

theorem published_study_was_confirmed:
  assumes "pub_reachable E s" "reader_get E (sy_public s) slug = Inr snap"
  shows "\<exists>v \<in> set (pv_revisions (sy_private s)). \<exists>r \<in> set (pv_commands (sy_private s)).
    vr_slug v = slug \<and> vr_snapshot v = snap
    \<and> cr_slug r = slug \<and> cr_action r = PUBLISH \<and> cr_expected_revision r = vr_revision v
    \<and> snapshot_digest E snap = Inr (cr_expected_digest r)"
proof -
  from assms(1) have ok: "sys_ok E s" by (rule pub_reachable_sys_ok)
  from sys_okD(2) [OF ok] assms(2) obtain c d where c: "public_cell (sy_public s) slug = Some (row_of c)"
    "command_ok E c" "pc_slug c = slug" "pc_action c = PUBLISH" "pc_snapshot c = Some snap" "pc_digest c = Some d"
    by (rule reader_get_cell)
  from sys_okD(4) [OF ok] c(1) obtain l where l: "recorded E (sy_private s) l" "row_of c = row_of l"
    unfolding public_from_def by blast
  from sys_okD(1) [OF ok] l(1) have "command_ok E l" by (rule recorded_facts)
  with c(2) l(2) have "c = l" by (blast intro: row_of_inj)
  with l(1) obtain r where r: "r \<in> set (pv_commands (sy_private s))" "backs E (pv_revisions (sy_private s)) r c"
    by (auto simp: recorded_def)
  moreover from c(2,4) have "snapshot_digest E snap = Inr d"
    by (rule command_ok_publish) (use c in auto)
  ultimately show ?thesis using c by (fastforce simp: backs_def)
qed

lemma demo_published_row: "reader_get demo_env demo_public demo_slug = Inr demo_snapshot"
  by (simp add: reader_get_def demo_public_def store_put_def empty_public_db_def upsert_projection_def
      row_of_def decode_row_def payload_of_def)

theorem published_study_was_confirmed_witness:
  "\<exists>v \<in> set (pv_revisions demo_private). \<exists>r \<in> set (pv_commands demo_private).
    vr_slug v = demo_slug \<and> vr_snapshot v = demo_snapshot
    \<and> cr_slug r = demo_slug \<and> cr_action r = PUBLISH \<and> cr_expected_revision r = vr_revision v
    \<and> snapshot_digest demo_env demo_snapshot = Inr (cr_expected_digest r)"
  using published_study_was_confirmed [OF demo_reachable(2), of demo_slug demo_snapshot]
  by (simp add: demo_s2_def demo_s1_def demo_published_row)

text \<open>
  C2.  When the private side believes a study settled (its applied sequence is its current
  one), the public store shows exactly the newest command of that study.
\<close>

theorem settled_study_is_public:
  assumes "pub_reachable E s" "st \<in> set (pv_studies (sy_private s))"
    "sr_applied_sequence st = sr_sequence st" "0 < sr_sequence st"
  shows "\<exists>c. recorded E (sy_private s) c \<and> pc_slug c = sr_slug st \<and> pc_sequence c = sr_sequence st
    \<and> public_cell (sy_public s) (sr_slug st) = Some (row_of c)"
proof -
  from assms(1) have ok: "sys_ok E s" by (rule pub_reachable_sys_ok)
  note priv = sys_okD(1) [OF ok]
  from priv assms(2,4) obtain r where r: "r \<in> set (pv_commands (sy_private s))"
    "cr_slug r = sr_slug st" "cr_sequence r = sr_sequence st"
    by (rule current_command_row)
  from priv r(1) obtain c where c: "recorded E (sy_private s) c" "pc_slug c = sr_slug st" "pc_sequence c = sr_sequence st"
    by (rule row_recorded) (use r in simp)
  from sys_okD(6) [OF ok] assms(2,3) c have "delivered E (sy_public s) c"
    by (auto simp: applied_behind_def delivered_def)
  with newest_shown [OF ok c(1) assms(2)] c show ?thesis by auto
qed

theorem settled_study_is_public_witness:
  "\<exists>c. recorded demo_env demo_acked c \<and> pc_slug c = demo_slug \<and> pc_sequence c = 1
    \<and> public_cell demo_public demo_slug = Some (row_of c)"
  using settled_study_is_public [OF demo_reachable(3), of "demo_study 1 (Some demo_digest) 1"]
  by (simp add: demo_s3_def demo_s2_def demo_s1_def demo_acked_def demo_study_def)

text \<open>
  Once a withdrawal is settled, the public reader answers \<^verbatim>\<open>not_found\<close> for the study.
\<close>

theorem settled_withdrawal_is_hidden:
  assumes "pub_reachable E s" "st \<in> set (pv_studies (sy_private s))"
    "sr_applied_sequence st = sr_sequence st" "sr_applied_action st = Some WITHDRAW"
  shows "reader_get E (sy_public s) (sr_slug st) = Inl not_found"
proof (cases "\<exists>snap. reader_get E (sy_public s) (sr_slug st) = Inr snap")
  case False
  then show ?thesis by (auto simp: reader_get_def split: if_splits option.splits)
next
  case True
  then obtain snap where get: "reader_get E (sy_public s) (sr_slug st) = Inr snap" ..
  from assms(1) have ok: "sys_ok E s" by (rule pub_reachable_sys_ok)
  note priv = sys_okD(1) [OF ok]
  from priv assms(2) have st: "study_complete (pv_commands (sy_private s)) st" by (simp add: priv_ok_def)
  with assms(4) have pos: "0 < sr_sequence st" and "applied_backed (pv_commands (sy_private s)) st"
    using assms(3) by (auto simp: study_complete_def study_row_ok_def)
  with assms(3,4) obtain r where r: "r \<in> set (pv_commands (sy_private s))"
    "command_key r = (sr_slug st, sr_sequence st)" "cr_action r = WITHDRAW"
    by (auto simp: applied_backed_def)
  from sys_okD(2) [OF ok] get obtain x d where x: "public_cell (sy_public s) (sr_slug st) = Some (row_of x)"
    "command_ok E x" "pc_action x = PUBLISH" by (rule reader_get_cell)
  from priv r(1) obtain c where rec: "recorded E (sy_private s) c" "pc_slug c = sr_slug st"
    "pc_sequence c = sr_sequence st" "pc_action c = WITHDRAW"
    by (rule row_recorded) (use r in simp)
  have "delivered E (sy_public s) c"
    using sys_okD(6) [OF ok] assms(2,3) rec by (auto simp: applied_behind_def delivered_def)
  with newest_shown [OF ok rec(1) assms(2)] rec x have "row_of x = row_of c" by simp
  then have "pc_action x = pc_action c" by (metis row_of_sel(4))
  with x(3) rec(4) show ?thesis by simp
qed

theorem settled_withdrawal_is_hidden_witness: "reader_get demo_env demo_public2 demo_slug = Inl not_found"
  using settled_withdrawal_is_hidden [OF demo_reachable2(3),
      of "(demo_study 2 None 1)\<lparr>sr_applied_sequence := 2, sr_applied_action := Some WITHDRAW, sr_applied_revision := None\<rparr>"]
  by (simp add: demo_s6_def demo_s5_def demo_s4_def demo_acked2_def demo_study_def)

text \<open>
  C3.  Progress: whatever deliveries and receipts were lost, delivering the newest command of
  a study to the public store succeeds, the store then shows it, and acknowledging the receipt
  leaves the study with no pending delivery.
\<close>

theorem newest_command_can_settle:
  assumes "env_lawful E" "pub_reachable E s" "json_reads E (sy_private s)"
    and "recorded E (sy_private s) c" "st \<in> set (pv_studies (sy_private s))"
    and "sr_slug st = pc_slug c" "sr_sequence st = pc_sequence c"
  shows "\<exists>pub priv x. writer_apply E (sy_public s) c = Inr (pub, receipt_of c)
    \<and> public_cell pub (pc_slug c) = Some (row_of c)
    \<and> repo_acknowledge E (sy_private s) (receipt_of c) = (priv, Inr x) \<and> \<not> delivery_pending x"
proof -
  from assms(2) have ok: "sys_ok E s" by (rule pub_reachable_sys_ok)
  from assms(1,2) have sound: "rows_sound E (sy_private s)" by (rule pub_reachable_rows_sound)
  from assms(1) ok sound assms(3-6) assms(7) [symmetric] obtain db where
    "writer_apply E (sy_public s) c = Inr (db, receipt_of c)" "public_cell db (pc_slug c) = Some (row_of c)"
    by (rule deliver_newest)
  moreover from sys_okD(1) [OF ok] sound assms(3-6) obtain db' x where
    "repo_acknowledge E (sy_private s) (receipt_of c) = (db', Inr x)"
    "ps_applied_sequence x = max (sr_applied_sequence st) (pc_sequence c)"
    "pd_sequence (ps_draft x) = sr_sequence st"
    by (rule acknowledge_total)
  ultimately show ?thesis using assms(7) by (auto simp: delivery_pending_def)
qed

lemma demo_recorded: "recorded demo_env demo_private demo_command"
  using pub_reachable_sys_ok [OF demo_reachable(1), THEN sys_okD(3), of demo_command]
  by (simp add: demo_s1_def)

theorem newest_command_can_settle_witness:
  "\<exists>pub priv x. writer_apply demo_env empty_public_db demo_command = Inr (pub, receipt_of demo_command)
    \<and> public_cell pub demo_slug = Some (row_of demo_command)
    \<and> repo_acknowledge demo_env demo_private (receipt_of demo_command) = (priv, Inr x) \<and> \<not> delivery_pending x"
  using newest_command_can_settle [OF demo_env_lawful demo_reachable(1), of demo_command "demo_study 1 (Some demo_digest) 0"]
    demo_recorded
  by (simp add: demo_s1_def json_reads_def) (simp add: demo_private_def demo_revision_def demo_study_def)


section \<open>Sequence numbers\<close>

text \<open>
  The command sequence numbers of a study are exactly \<open>1\<close> to its current sequence, each
  used by one command.
\<close>

theorem sequence_numbers_gapless:
  assumes "pub_reachable E s" "st \<in> set (pv_studies (sy_private s))"
  shows "bij_betw cr_sequence {r \<in> set (pv_commands (sy_private s)). cr_slug r = sr_slug st} {1..sr_sequence st}"
proof -
  note priv = sys_okD(1) [OF pub_reachable_sys_ok [OF assms(1)]]
  let ?R = "{r \<in> set (pv_commands (sy_private s)). cr_slug r = sr_slug st}"
  from priv have "inj_on command_key (set (pv_commands (sy_private s)))"
    by (simp add: priv_ok_def keys_ok_def keyed_def distinct_map)
  then have "inj_on cr_sequence ?R" by (auto simp: inj_on_def)
  moreover have "cr_sequence ` ?R \<subseteq> {1..sr_sequence st}"
    using study_of_command(1,2) [OF priv _ assms(2)] by (fastforce simp: command_row_ok_def)
  moreover have "{1..sr_sequence st} \<subseteq> cr_sequence ` ?R"
  proof
    fix k
    assume "k \<in> {1..sr_sequence st}"
    with priv assms(2) have "(sr_slug st, k) \<in> command_key ` set (pv_commands (sy_private s))"
      by (simp add: priv_ok_def study_complete_def)
    then show "k \<in> cr_sequence ` ?R" by auto
  qed
  ultimately show ?thesis by (simp add: bij_betw_def subset_antisym)
qed

theorem sequence_numbers_gapless_witness:
  "bij_betw cr_sequence {r \<in> set (pv_commands demo_acked2). cr_slug r = demo_slug} {1..2}"
  using sequence_numbers_gapless [OF demo_reachable2(3),
      of "(demo_study 2 None 1)\<lparr>sr_applied_sequence := 2, sr_applied_action := Some WITHDRAW, sr_applied_revision := None\<rparr>"]
  by (simp add: demo_s6_def) (simp add: demo_acked2_def demo_study_def)

text \<open>
  What a study calls applied is never ahead of what the public store has seen, and the
  public store is never ahead of the study.
\<close>

theorem applied_public_sequence_order:
  assumes "pub_reachable E s" "st \<in> set (pv_studies (sy_private s))"
  shows "0 \<le> sr_applied_sequence st \<and> sr_applied_sequence st \<le> public_seq (sy_public s) (sr_slug st)
    \<and> public_seq (sy_public s) (sr_slug st) \<le> sr_sequence st"
proof -
  note ok = pub_reachable_sys_ok [OF assms(1)]
  note priv = sys_okD(1) [OF ok]
  have st: "study_row_ok st" using priv assms(2) by (simp add: priv_ok_def study_complete_def)
  have "public_seq (sy_public s) (sr_slug st) \<le> sr_sequence st"
  proof (cases "public_cell (sy_public s) (sr_slug st)")
    case (Some r)
    with sys_okD(4) [OF ok] obtain c where "recorded E (sy_private s) c" "pc_slug c = sr_slug st" "r = row_of c"
      unfolding public_from_def by blast
    with recorded_not_ahead [OF priv _ assms(2)] Some show ?thesis by (simp add: public_seq_def)
  qed (use st in \<open>simp add: public_seq_def study_row_ok_def\<close>)
  with sys_okD(6) [OF ok] assms(2) st show ?thesis
    by (simp add: applied_behind_def study_row_ok_def)
qed

theorem applied_public_sequence_order_witness:
  "0 \<le> (0::int) \<and> 0 \<le> public_seq demo_public demo_slug \<and> public_seq demo_public demo_slug \<le> 1"
  using applied_public_sequence_order [OF demo_reachable(2), of "demo_study 1 (Some demo_digest) 0"]
  by (simp add: demo_s2_def demo_s1_def demo_private_def demo_study_def)

text \<open>
  No step of the system moves the public store of a study back to an older command.
\<close>

theorem public_sequence_never_decreases:
  assumes "pub_reachable E s" "pub_step E s s'"
  shows "public_seq (sy_public s) slug \<le> public_seq (sy_public s') slug"
  using assms(2)
proof cases
  case (step_deliver c db rc)
  with deliver_seq_mono [OF sys_okD(2) [OF pub_reachable_sys_ok [OF assms(1)]] step_deliver(3)]
  show ?thesis by simp
qed simp_all

theorem public_sequence_never_decreases_witness:
  "public_seq demo_public demo_slug \<le> public_seq demo_public2 demo_slug"
  using public_sequence_never_decreases [OF demo_reachable2(1) demo_step5, of demo_slug]
  by (simp add: demo_s5_def demo_s4_def demo_s3_def demo_s2_def)

section \<open>Requests and deliveries are idempotent\<close>

lemma prepared_existing_same:
  assumes "backs E revs ex c" "prepared_existing E st v co ex fp = Inr p"
  shows "pr_command p = c \<and> cr_fingerprint ex = fp"
  using assms by (auto simp: prepared_existing_def dest: command_from_row_backed split: if_splits)

lemma repeated_request:
  assumes ex: "row_by cr_request_id rid (pv_commands db) = Some ex" and c: "backs E (pv_revisions db) ex c"
    and prep: "repo_prepare_command E db slug a n dg rid = (db', r)"
  shows "db' = db \<and> (\<forall>p. r = Inr p \<longrightarrow> pr_command p = c)"
proof -
  have locked: "db' = db \<and> pr_command p = c"
    if "prepare_command_locked E db st v co a n dg rid fp = Inr (db', p)" for st v co fp p
    using that ex prepared_existing_same [OF c] by (auto simp: prepare_command_locked_def)
  have race: "pr_command p = c" if "resolve_request_race E db rid fp = Inr p" for fp p
    using that ex prepared_existing_same [OF c]
    by (auto simp: resolve_request_race_def split: option.splits prod.splits)
  show ?thesis
    using prep locked race
    by (auto simp: repo_prepare_command_def on_integrity_error_def transact_def
        split: sum.splits exn.splits option.splits prod.splits)
qed

lemma prepared_request_id:
  assumes ok: "priv_ok E db" and prep: "repo_prepare_command E db slug a n dg rid = (db', Inr p)"
  shows "pc_request_id (pr_command p) = rid"
proof -
  have locked: "pc_request_id (pr_command p) = rid"
    if pl: "prepare_command_locked E db st v co a n dg rid fp = Inr (x, p)" for st v co fp x
  proof (cases "row_by cr_request_id rid (pv_commands db)")
    case (Some ex)
    with pl show ?thesis by (auto simp: prepare_command_locked_def dest: prepared_existing_Inr(2) [OF ok Some])
  next
    case None
    from prepare_locked_new [OF None pl] have "\<exists>y d. build_command E y a n dg rid = Inr (d, pr_command p)"
      by metis
    then show ?thesis by (blast dest: build_command_Inr(3))
  qed
  have race: "pc_request_id (pr_command p) = rid" if "resolve_request_race E db rid fp = Inr p" for fp
    using that
    by (auto simp: resolve_request_race_def split: option.splits prod.splits dest: prepared_existing_Inr(2) [OF ok])
  show ?thesis
    using prep locked race
    by (auto simp: repo_prepare_command_def on_integrity_error_def transact_def
        split: sum.splits exn.splits option.splits prod.splits)
qed

text \<open>
  A request id names one command: after a publish or withdraw request was accepted, any
  later request with the same id, whatever its other arguments, changes nothing and can only
  return the same command.
\<close>

theorem request_id_names_one_command:
  assumes "pub_reachable E s"
    and "repo_prepare_command E (sy_private s) slug a n digest rid = (db, Inr p)"
    and "repo_prepare_command E db slug' a' n' digest' rid = (db', r)"
  shows "db' = db \<and> (\<forall>p'. r = Inr p' \<longrightarrow> pr_command p' = pr_command p)"
proof -
  note priv = sys_okD(1) [OF pub_reachable_sys_ok [OF assms(1)]]
  from repo_prepare_command_ok [OF priv assms(2)] have ok: "priv_ok E db" and rec: "recorded E db (pr_command p)"
    by (simp_all add: grows_def)
  note rid = prepared_request_id [OF priv assms(2)]
  from rec obtain ex where ex: "ex \<in> set (pv_commands db)" "backs E (pv_revisions db) ex (pr_command p)"
    by (auto simp: recorded_def)
  then have "cr_request_id ex = rid" using rid by (simp add: backs_def)
  with ok ex(1) have "row_by cr_request_id rid (pv_commands db) = Some ex"
    by (simp add: priv_ok_def keys_ok_def row_by_Some_iff)
  then show ?thesis by (rule repeated_request [OF _ ex(2) assms(3)])
qed

theorem request_id_names_one_command_witness:
  "fst (repo_prepare_command demo_env demo_private2 demo_slug PUBLISH 1 demo_digest demo_rid2) = demo_private2"
proof -
  obtain x where x: "repo_prepare_command demo_env demo_acked demo_slug WITHDRAW 1 demo_digest demo_rid2 =
     (demo_private2, Inr \<lparr>pr_state = x, pr_command = demo_withdrawal, pr_should_deliver = True\<rparr>)"
    using demo_prepare2 by blast
  then have "repo_prepare_command demo_env (sy_private demo_s3) demo_slug WITHDRAW 1 demo_digest demo_rid2 =
     (demo_private2, Inr \<lparr>pr_state = x, pr_command = demo_withdrawal, pr_should_deliver = True\<rparr>)"
    by (simp add: demo_s3_def)
  from request_id_names_one_command [OF demo_reachable(3) this prod.collapse [symmetric]]
  show ?thesis by blast
qed

text \<open>
  Delivering an accepted command again gives the same receipt and leaves the public store
  exactly as it is.
\<close>

theorem redelivery_changes_nothing:
  assumes "store_ok E db" "writer_apply E db c = Inr (db', rc)"
  shows "writer_apply E db' c = Inr (db', rc)"
  using assms by (rule sqlite.submit_replay)

theorem redelivery_changes_nothing_witness:
  "writer_apply demo_env demo_public demo_command = Inr (demo_public, receipt_of demo_command)"
  using redelivery_changes_nothing [OF store_ok_empty demo_write] .


text \<open>
  A command that arrives late, after the store has applied a newer command of the same
  study, is refused unless its request is already on record; a refused write leaves no trace.
\<close>

theorem late_command_refused:
  assumes "store_ok E db" "public_cell db (pc_slug c) = Some r" "pc_sequence c < jr_sequence r"
    and "row_by fst (pc_request_id c) (db_history db) = None"
  shows "\<exists>e. writer_apply E db c = Inl e"
proof (cases "writer_apply E db c")
  case (Inr p)
  obtain db' rc where p: "p = (db', rc)" by (cases p)
  from assms(1) Inr [unfolded p] obtain fp where
    "row_by fst (pc_request_id c) (db_history db) = Some (pc_request_id c, fp) \<and> db' = db
       \<or> (row_by fst (pc_request_id c) (db_history db) = None \<and> db' = store_put db c fp
          \<and> (\<forall>r. row_by jr_slug (pc_slug c) (db_projections db) = Some r \<longrightarrow> jr_sequence r < pc_sequence c))"
    by (rule writer_apply_Inr)
  with assms(2-4) show ?thesis by (auto simp: public_cell_def)
qed blast

theorem late_command_refused_witness:
  "\<exists>e. writer_apply demo_env demo_public2 (demo_command\<lparr>pc_request_id := lit ''r3''\<rparr>) = Inl e"
proof -
  have "store_ok demo_env demo_public2"
    using sys_okD(2) [OF pub_reachable_sys_ok [OF demo_reachable2(2)]] by (simp add: demo_s5_def)
  then show ?thesis
    by (rule late_command_refused [where r = "row_of demo_withdrawal"])
      (simp_all add: demo_public2_def demo_public_def store_put_def empty_public_db_def public_cell_def
        upsert_projection_def put_row_def demo_rid_def demo_rid2_def)
qed

section \<open>The catalogue\<close>

lemma published_row_reads:
  assumes env: "env_lawful E" and reach: "pub_reachable E s" and js: "json_reads E (sy_private s)"
    and r: "r \<in> set (db_projections (sy_public s))" "jr_action r = PUBLISH"
  obtains snap where "catalog_item E (sy_public s) r = Inr snap" "reader_get E (sy_public s) (jr_slug r) = Inr snap"
    "sc_slug (ss_content snap) = jr_slug r"
proof -
  note ok = pub_reachable_sys_ok [OF reach] and sound = pub_reachable_rows_sound [OF env reach]
  let ?db = "sy_public s"
  from r sys_okD(2) [OF ok] have cell: "row_by jr_slug (jr_slug r) (db_projections ?db) = Some r"
    by (simp add: store_ok_def row_by_Some_iff)
  with sys_okD(2) [OF ok] obtain c where c: "command_ok E c" "r = row_of c" "pc_slug c = jr_slug r"
    "{t. (jr_slug r, t) \<in> set (db_topics ?db)} = set (topics_of c)"
    by (rule store_row)
  from sys_okD(4) [OF ok] cell obtain l where l: "recorded E (sy_private s) l" "r = row_of l"
    unfolding public_from_def public_cell_def by blast
  from sys_okD(1) [OF ok] l(1) have "command_ok E l" by (rule recorded_facts)
  with c(1,2) l(2) have "l = c" by (metis row_of_inj)
  from c(1,2) r(2) obtain snap d where snap: "pc_snapshot c = Some snap" "pc_digest c = Some d"
    "is_valid_snapshot E snap" "pc_slug c = sc_slug (ss_content snap)" "snapshot_digest E snap = Inr d"
    by (auto elim: command_ok_publish)
  from snap(3) obtain b where b: "canonical_bytes snap = Inr b" by (rule canonical_bytes_total)
  with l(1) snap(1) have "load_snapshot E b = Some snap"
    unfolding \<open>l = c\<close> by (blast intro: recorded_reads [OF sys_okD(1) [OF ok] sound js])
  with snap b have "decode_snapshot E b d = Inr snap"
    using decode_snapshot_canonical [OF snap(3) b] by (simp add: snapshot_digest_def)
  with c(2) snap b have dec: "decode_row E r = Some snap"
    by (simp add: decode_row_def row_of_def payload_of_def)
  have "set (map snd (filter (\<lambda>t. fst t = jr_slug r) (db_topics ?db))) = {t. (jr_slug r, t) \<in> set (db_topics ?db)}"
    by force
  with c(4) snap(1) dec have item: "catalog_item E ?db r = Inr snap"
    by (simp add: catalog_item_def topics_of_def)
  have find: "List.find (\<lambda>x. jr_slug x = jr_slug r \<and> jr_action x = PUBLISH) (db_projections ?db) = Some r"
  proof -
    have "List.find (\<lambda>x. jr_slug x = jr_slug r \<and> jr_action x = PUBLISH) rows = Some r"
      if "row_by jr_slug (jr_slug r) rows = Some r" for rows
      using that r(2) by (induction rows) (auto split: if_splits)
    with cell show ?thesis by simp
  qed
  have "is_public_slug (jr_slug r)" using c(1,3) by (auto dest: command_ok_basic)
  with find dec have got: "reader_get E ?db (jr_slug r) = Inr snap" by (simp add: reader_get_def)
  from snap(4) c(3) have "sc_slug (ss_content snap) = jr_slug r" by metis
  with item got show thesis by (rule that)
qed

lemma mapr_total:
  assumes "\<And>x. x \<in> set xs \<Longrightarrow> \<exists>y. f x = Inr y"
  obtains ys where "mapr f xs = Inr ys"
proof -
  have "\<exists>ys. mapr f xs = Inr ys" using assms by (induction xs) fastforce+
  with that show thesis by blast
qed

text \<open>
  On a reachable store every catalogue page loads, its items are exactly the rows of that
  page in slug order, and each of them is what the reader returns for its slug.
\<close>

theorem catalog_page_loads:
  assumes "env_lawful E" "pub_reachable E s" "json_reads E (sy_private s)"
  shows "\<exists>cat. reader_catalog E (sy_public s) page topic = Inr cat
    \<and> length (ct_items cat) \<le> catalog_page_size
    \<and> sorted (map (\<lambda>x. sc_slug (ss_content x)) (ct_items cat))
    \<and> (\<forall>x \<in> set (ct_items cat). reader_get E (sy_public s) (sc_slug (ss_content x)) = Inr x)"
proof -
  let ?db = "sy_public s"
  define rows where "rows = published_rows ?db topic"
  define current where "current = min (max page 1)
      (max (int ((length rows + catalog_page_size - 1) div catalog_page_size)) 1)"
  define slice where "slice = take catalog_page_size (drop (nat (current - 1) * catalog_page_size) rows)"
  have in_rows: "x \<in> set (db_projections ?db) \<and> jr_action x = PUBLISH" if "x \<in> set slice" for x
    using set_take_subset that set_drop_subset unfolding slice_def rows_def published_rows_def by fastforce
  have reads: "\<exists>snap. catalog_item E ?db x = Inr snap \<and> reader_get E ?db (jr_slug x) = Inr snap
      \<and> sc_slug (ss_content snap) = jr_slug x" if "x \<in> set slice" for x
    using in_rows [OF that] by (blast intro: published_row_reads [OF assms])
  then have "\<exists>snap. catalog_item E ?db x = Inr snap" if "x \<in> set slice" for x using that by blast
  then obtain items where items: "mapr (catalog_item E ?db) slice = Inr items" by (rule mapr_total)
  have len: "length items = length slice" by (rule mapr_length [OF items])
  have each: "reader_get E ?db (sc_slug (ss_content (items ! i))) = Inr (items ! i)
      \<and> sc_slug (ss_content (items ! i)) = jr_slug (slice ! i)" if "i < length slice" for i
  proof -
    from reads [OF nth_mem [OF that]] obtain snap where "catalog_item E ?db (slice ! i) = Inr snap"
      "reader_get E ?db (jr_slug (slice ! i)) = Inr snap" "sc_slug (ss_content snap) = jr_slug (slice ! i)"
      by blast
    with mapr_nth [OF items that] show ?thesis by simp
  qed
  have "sorted (map jr_slug rows)" by (simp add: rows_def published_rows_def)
  then have "sorted (map jr_slug slice)"
    by (simp add: slice_def take_map [symmetric] drop_map [symmetric] sorted_wrt_take sorted_wrt_drop)
  moreover have "map (\<lambda>x. sc_slug (ss_content x)) items = map jr_slug slice"
    by (rule nth_equalityI) (simp_all add: len each)
  moreover have "\<forall>x \<in> set items. reader_get E ?db (sc_slug (ss_content x)) = Inr x"
    using each len by (metis in_set_conv_nth)
  moreover have "length items \<le> catalog_page_size" by (simp add: len slice_def)
  moreover have "reader_catalog E ?db page topic = Inr \<lparr>ct_items = items, ct_total = length rows, ct_page = current,
      ct_total_pages = (length rows + catalog_page_size - 1) div catalog_page_size, ct_topics = topic_counts ?db\<rparr>"
    using items unfolding slice_def current_def rows_def by (simp add: reader_catalog_def Let_def)
  ultimately show ?thesis by (intro exI conjI) (assumption | simp)+
qed

theorem catalog_page_loads_witness:
  "\<exists>cat. reader_catalog demo_env demo_public 1 (Some demo_topic) = Inr cat
    \<and> length (ct_items cat) \<le> catalog_page_size
    \<and> sorted (map (\<lambda>x. sc_slug (ss_content x)) (ct_items cat))"
  using catalog_page_loads [OF demo_env_lawful demo_reachable(2), of 1 "Some demo_topic"]
  by (auto simp: demo_s2_def demo_s1_def json_reads_def demo_private_def demo_revision_def)


section \<open>Packages and drafts\<close>

text \<open>
  Equal digests mean equal snapshots, up to a collision of the hash function itself: the
  canonical byte form loses nothing.
\<close>

theorem equal_digest_equal_snapshot:
  assumes "snapshot_digest E x = Inr d" "snapshot_digest E y = Inr d"
  shows "x = y \<or> (\<exists>b b'. canonical_bytes x = Inr b \<and> canonical_bytes y = Inr b' \<and> b \<noteq> b' \<and> sha256 E b = sha256 E b')"
proof -
  from assms obtain b b' where b: "canonical_bytes x = Inr b" "sha256 E b = d"
    "canonical_bytes y = Inr b'" "sha256 E b' = d"
    by (auto simp: snapshot_digest_def)
  then show ?thesis by (cases "b = b'") (auto intro: canonical_bytes_inj)
qed

theorem equal_digest_equal_snapshot_witness:
  "demo_snapshot = demo_snapshot \<or> (\<exists>b b'. canonical_bytes demo_snapshot = Inr b
     \<and> canonical_bytes demo_snapshot = Inr b' \<and> b \<noteq> b' \<and> sha256 demo_env b = sha256 demo_env b')"
  using equal_digest_equal_snapshot [OF demo_snapshot_digest demo_snapshot_digest] .

text \<open>
  C4.  The decoder accepts exactly the canonical bytes of a valid snapshot under their own
  digest, and gives that snapshot; everything else, a spelling with other white space, another
  key order, a missing or an extra field, an unnormalised text, is refused as an invalid package.
  The laws used are those of NFC and that \<^verbatim>\<open>json.loads\<close> gives back what \<^verbatim>\<open>json.dumps\<close> wrote
  into these bytes, if it wrote them at all.
\<close>

theorem canonical_bytes_round_trip:
  assumes "nfc_lawful (nfc E)" "reads_dumped E b"
  shows "(decode_snapshot E b d = Inr x
      \<longleftrightarrow> is_valid_snapshot E x \<and> canonical_bytes x = Inr b \<and> d = sha256 E b)
    \<and> (decode_snapshot E b d = Inl invalid_package
      \<longleftrightarrow> (\<nexists>y. is_valid_snapshot E y \<and> canonical_bytes y = Inr b \<and> d = sha256 E b))"
proof -
  have "decode_snapshot E b d = Inr y
      \<longleftrightarrow> is_valid_snapshot E y \<and> canonical_bytes y = Inr b \<and> d = sha256 E b" for y
    using decode_snapshot_valid [OF assms(1), of b d y] decode_snapshot_Inr [of E b d y]
      decode_snapshot_canonical [of E y b] reads_dumped_snapshot [OF assms(2), of y]
    by blast
  then show ?thesis
    using decode_snapshot_Inl by (cases "decode_snapshot E b d") auto
qed

theorem canonical_bytes_round_trip_witness:
  "decode_snapshot demo_env demo_bytes (sha256 demo_env demo_bytes) = Inr demo_snapshot"
proof -
  have "nfc_lawful (nfc demo_env)" using demo_env_lawful unfolding env_lawful_def by blast
  then show ?thesis
    using canonical_bytes_round_trip [of demo_env demo_bytes "sha256 demo_env demo_bytes" demo_snapshot]
    by simp
qed

text \<open>
  Validation is a normal form: validating a validated content changes nothing, for every
  lawful NFC function.
\<close>

theorem validation_is_idempotent:
  assumes "nfc_lawful (nfc E)" "validate_content E raw = Inr c"
  shows "validate_content E c = Inr c \<and> content_wf c"
  using validate_content_idem [OF assms] validate_content_wf [OF assms(2)] by simp

theorem validation_is_idempotent_witness:
  "validate_content demo_env (demo_content\<lparr>sc_body := [66, 10, 67, 10, 68]\<rparr>)
     = Inr (demo_content\<lparr>sc_body := [66, 10, 67, 10, 68]\<rparr>) \<and> content_wf (demo_content\<lparr>sc_body := [66, 10, 67, 10, 68]\<rparr>)"
proof (rule validation_is_idempotent [where raw = raw_content])
  show "nfc_lawful (nfc demo_env)" using demo_env_lawful unfolding env_lawful_def by blast
  show "validate_content demo_env raw_content = Inr (demo_content\<lparr>sc_body := [66, 10, 67, 10, 68]\<rparr>)"
    by (simp add: validate_content_def raw_content_def demo_content_def text_evals)
qed

text \<open>
  Revising a draft drops its approval: the revised draft has the next revision number and
  the new content, keeps its sequence, and cannot be published until it is approved again.
\<close>

theorem revision_needs_new_approval:
  assumes "draft_revise E d content r = Inr d'"
  shows "draft_publish E d' rid = Inl approval_required
    \<and> ss_revision (pd_snapshot d') = ss_revision (pd_snapshot d) + 1
    \<and> ss_content (pd_snapshot d') = content \<and> pd_sequence d' = pd_sequence d \<and> draft_ok E d'"
  using draft_revise_Inr [OF assms] unapproved_not_published [of E d' rid] by simp

theorem revision_needs_new_approval_witness:
  "draft_publish demo_env demo_revised demo_rid = Inl approval_required
    \<and> ss_revision (pd_snapshot demo_revised) = ss_revision (pd_snapshot demo_draft) + 1
    \<and> ss_content (pd_snapshot demo_revised) = demo_content \<and> pd_sequence demo_revised = pd_sequence demo_draft
    \<and> draft_ok demo_env demo_revised"
proof (rule revision_needs_new_approval [where r = 1])
  have "is_valid_snapshot demo_env \<lparr>ss_schema_version = 1, ss_revision = 2, ss_content = demo_content\<rparr>"
    by (simp add: is_valid_snapshot_def validate_snapshot_def)
  then show "draft_revise demo_env demo_draft demo_content 1 = Inr demo_revised"
    by (simp add: draft_revise_def new_snapshot_def draft_ok_def demo_draft_def demo_revised_def demo_snapshot_def)
qed

text \<open>
  A draft that can be published publishes exactly the approved snapshot: the command
  carries the draft's snapshot and its digest, which is the approved one, under the next
  sequence number.
\<close>

theorem publish_carries_approved_snapshot:
  assumes "draft_publish E d rid = Inr (d', c)"
  shows "pd_approved d = pc_digest c \<and> pc_snapshot c = Some (pd_snapshot d)
    \<and> (\<exists>a. pd_approved d = Some a \<and> snapshot_digest E (pd_snapshot d) = Inr a)
    \<and> pc_sequence c = pd_sequence d + 1 \<and> pd_sequence d' = pc_sequence c
    \<and> command_ok E c \<and> draft_ok E d'"
  using draft_publish_Inr [OF assms] assms by (auto simp: draft_publish_def split: if_splits)

theorem publish_carries_approved_snapshot_witness:
  "\<exists>d' c. pd_approved demo_draft = pc_digest c \<and> pc_snapshot c = Some (pd_snapshot demo_draft)
    \<and> (\<exists>a. pd_approved demo_draft = Some a \<and> snapshot_digest demo_env (pd_snapshot demo_draft) = Inr a)
    \<and> pc_sequence c = pd_sequence demo_draft + 1 \<and> pd_sequence d' = pc_sequence c
    \<and> command_ok demo_env c \<and> draft_ok demo_env d'"
proof -
  have "command_ok demo_env \<lparr>pc_slug = demo_slug, pc_sequence = 2, pc_request_id = demo_rid2,
      pc_action = PUBLISH, pc_snapshot = Some demo_snapshot, pc_digest = Some demo_digest\<rparr>"
    by (simp add: command_ok_def strip_def lstrip_def rstrip_def py_isspace_def demo_rid2_def)
  then have "\<exists>d' c. draft_publish demo_env demo_draft demo_rid2 = Inr (d', c)"
    by (simp add: draft_publish_def demo_draft_def draft_ok_def)
  with publish_carries_approved_snapshot show ?thesis by blast
qed

section \<open>The service\<close>

lemma call_command_shown:
  assumes env: "env_lawful E" and reach: "pub_reachable E s" and js: "json_reads E (sy_private s)"
    and cell: "public_cell (sy_public s) slug = Some (row_of c)" and c: "command_ok E c"
  shows "pc_action c = WITHDRAW \<Longrightarrow> reader_get E (sy_public s) slug = Inl not_found"
    and "pc_action c = PUBLISH \<Longrightarrow> pc_snapshot c = Some snap \<Longrightarrow> reader_get E (sy_public s) slug = Inr snap"
proof -
  have inv: "store_ok E (sy_public s)" by (rule sys_okD(2) [OF pub_reachable_sys_ok [OF reach]])
  have read: "pc_action c = PUBLISH \<and> pc_snapshot c = Some x" if got: "reader_get E (sy_public s) slug = Inr x" for x
  proof -
    from inv got obtain y where "public_cell (sy_public s) slug = Some (row_of y)" "command_ok E y"
      "pc_action y = PUBLISH" "pc_snapshot y = Some x"
      by (rule reader_get_cell)
    with cell c show ?thesis by (metis option.inject row_of_inj)
  qed
  show "reader_get E (sy_public s) slug = Inl not_found" if "pc_action c = WITHDRAW"
  proof (cases "\<exists>x. reader_get E (sy_public s) slug = Inr x")
    case False
    then show ?thesis by (auto simp: reader_get_def split: if_splits option.splits)
  qed (use read that in auto)
  show "reader_get E (sy_public s) slug = Inr snap" if pub: "pc_action c = PUBLISH" "pc_snapshot c = Some snap"
  proof -
    from cell have r: "row_of c \<in> set (db_projections (sy_public s))" "jr_slug (row_of c) = slug"
      by (auto simp: public_cell_def dest: row_by_SomeD)
    from published_row_reads [OF env reach js r(1)] pub(1) r(2) obtain x where
      x: "reader_get E (sy_public s) slug = Inr x" by (auto simp: row_of_def)
    with read [OF x] pub(2) show ?thesis by simp
  qed
qed

text \<open>
  C5.  Every publish, withdraw or initial publication, with either delivery and whatever it
  returns, is a run of the steps of the publishing system from the state before.  For a new
  request id it is refused exactly when its input check or its transaction refuses, with that
  error and unchanged stores.  Otherwise it returns a study and its command row is stored:
  after a local delivery the row is applied, nothing is pending, and the public reader returns
  exactly the confirmed revision with the confirmed digest, or \<^verbatim>\<open>not_found\<close> after a withdrawal;
  after a manual delivery the public store is unchanged and the command is pending under its
  error code.
\<close>

theorem service_call_settles:
  assumes "env_lawful E" "pub_reachable E s" "call_instance E call"
    and "run_call E L approved d (stores s) call = (w, r)" "json_reads E (fst w)"
  shows "(\<exists>s'. (pub_step E)\<^sup>*\<^sup>* s s' \<and> stores s' = w)
    \<and> (row_by cr_request_id (call_request call) (pv_commands (sy_private s)) = None \<longrightarrow>
        (case rbind (check_call L approved call) (\<lambda>_. snd (prepare_call E (sy_private s) call)) of
           Inl e \<Rightarrow> r = Inl e \<and> w = stores s
         | Inr _ \<Rightarrow> \<exists>x. r = Inr x
             \<and> (\<exists>row \<in> set (pv_commands (fst w)). row_asks row (call_slug call) (call_action call)
                   (call_revision call) (call_digest call) (call_request call)
                 \<and> cr_applied row = (d = LocalDelivery))
             \<and> delivery_pending x = (d = ManualDelivery)
             \<and> (case d of
                  ManualDelivery \<Rightarrow> snd w = sy_public s
                    \<and> ps_error x = Some (lit ''publishing_manual_delivery_pending'')
                | LocalDelivery \<Rightarrow>
                    (case call_action call of
                       WITHDRAW \<Rightarrow> reader_get E (snd w) (call_slug call) = Inl not_found
                     | PUBLISH \<Rightarrow> \<exists>snap. reader_get E (snd w) (call_slug call) = Inr snap
                         \<and> ss_revision snap = call_revision call
                         \<and> snapshot_digest E snap = Inr (call_digest call)))))"
  (is "_ \<and> (_ \<longrightarrow> ?settled)")
proof (intro conjI impI)
  from run_call_realises [OF assms(3,4)] obtain t where t: "(pub_step E)\<^sup>*\<^sup>* s t" "stores t = w"
    by (auto simp: realises_def)
  then show "\<exists>s'. (pub_step E)\<^sup>*\<^sup>* s s' \<and> stores s' = w" by blast
  have t_reach: "pub_reachable E t" using assms(2) t(1) unfolding pub_reachable_def by (rule rtranclp_trans)
  assume new: "row_by cr_request_id (call_request call) (pv_commands (sy_private s)) = None"
  show ?settled
  proof (cases "rbind (check_call L approved call) (\<lambda>_. snd (prepare_call E (sy_private s) call))")
    case (Inl e)
    with call_refused [OF assms(4)] show ?thesis by simp
  next
    case (Inr p)
    with assms(2-5) new obtain u where reach: "pub_reachable E u" and js: "json_reads E (sy_private u)"
      and same: "sy_public u = sy_public s" and run: "svc_deliver_prepared E d (stores u) p = (w, r)"
      and p: "pr_should_deliver p" and asked: "asked_for E (sy_private u) (pr_command p) (call_slug call)
        (call_action call) (call_revision call) (call_digest call) (call_request call)"
      by (rule call_prepared)
    show ?thesis
    proof (cases d)
      case ManualDelivery
      from assms(1) reach js asked p run [unfolded ManualDelivery] obtain x row where
        "r = Inr x" "delivery_pending x" "ps_error x = Some (lit ''publishing_manual_delivery_pending'')"
        "snd w = sy_public u" "row \<in> set (pv_commands (fst w))" "row_asks row (call_slug call) (call_action call)
          (call_revision call) (call_digest call) (call_request call)" "\<not> cr_applied row"
        by (rule manual_delivery_waits)
      with Inr same ManualDelivery show ?thesis by auto
    next
      case LocalDelivery
      from assms(1) reach js asked p run [unfolded LocalDelivery] obtain x row where
        x: "r = Inr x" "\<not> delivery_pending x" "row \<in> set (pv_commands (fst w))"
          "row_asks row (call_slug call) (call_action call) (call_revision call) (call_digest call) (call_request call)"
          "cr_applied row"
        and cell: "public_cell (snd w) (call_slug call) = Some (row_of (pr_command p))"
        by (rule local_delivery_settles)
      from asked sys_okD(1) [OF pub_reachable_sys_ok [OF reach]] have c: "command_ok E (pr_command p)"
        "pc_action (pr_command p) = call_action call"
        by (auto simp: asked_for_def elim: recorded_facts)
      have sel: "fst w = sy_private t" "snd w = sy_public t" using t(2) by auto
      note shown = call_command_shown [OF assms(1) t_reach assms(5) [unfolded sel] cell [unfolded sel] c(1)]
      have "case call_action call of WITHDRAW \<Rightarrow> reader_get E (snd w) (call_slug call) = Inl not_found
          | PUBLISH \<Rightarrow> \<exists>snap. reader_get E (snd w) (call_slug call) = Inr snap
              \<and> ss_revision snap = call_revision call \<and> snapshot_digest E snap = Inr (call_digest call)"
        using shown c(2) asked sel(2) by (cases "call_action call") (auto simp: asked_for_def)
      with x Inr LocalDelivery show ?thesis by auto
    qed
  qed
qed

theorem service_call_settles_witness:
  "reader_get demo_env (snd (fst (run_call demo_env demo_limits [] LocalDelivery (stores demo_s3)
     (Execute demo_slug WITHDRAW 1 demo_digest demo_rid2)))) demo_slug = Inl not_found"
proof -
  obtain x y where "repo_prepare_command demo_env demo_acked demo_slug WITHDRAW 1 demo_digest demo_rid2 =
     (demo_private2, Inr \<lparr>pr_state = x, pr_command = demo_withdrawal, pr_should_deliver = True\<rparr>)"
    "repo_acknowledge demo_env demo_private2 (receipt_of demo_withdrawal) = (demo_acked2, Inr y)"
    using demo_prepare2 demo_acknowledge2 by blast
  moreover have "check_call demo_limits [] (Execute demo_slug WITHDRAW 1 demo_digest demo_rid2) = Inr ()"
    using hex_digest_demo_sha [of demo_bytes]
    by (simp add: svc_require_public_slug_def svc_validate_command_input_def storage_slug_max_chars_def
        demo_limits_def demo_digest_def text_evals demo_rid2_def utf8_ascii)
  ultimately have run: "run_call demo_env demo_limits [] LocalDelivery (stores demo_s3)
      (Execute demo_slug WITHDRAW 1 demo_digest demo_rid2) = ((demo_acked2, demo_public2), Inr y)"
    and ok: "rbind (check_call demo_limits [] (Execute demo_slug WITHDRAW 1 demo_digest demo_rid2))
      (\<lambda>_. snd (prepare_call demo_env (sy_private demo_s3) (Execute demo_slug WITHDRAW 1 demo_digest demo_rid2)))
      = Inr \<lparr>pr_state = x, pr_command = demo_withdrawal, pr_should_deliver = True\<rparr>"
    by (simp_all add: run_call_phases demo_s3_def demo_s2_def demo_s1_def svc_deliver_prepared_def deliver_def
        demo_write2 del: run_call.simps check_call.simps)
  have js: "json_reads demo_env (fst (demo_acked2, demo_public2))"
    by (simp add: demo_acked2_def json_reads_def demo_revision_def)
  have new: "row_by cr_request_id (call_request (Execute demo_slug WITHDRAW 1 demo_digest demo_rid2))
      (pv_commands (sy_private demo_s3)) = None"
    by (simp add: demo_s3_def demo_s2_def demo_s1_def demo_acked_def acknowledged_command_def demo_command_row_def)
  have "call_instance demo_env (Execute demo_slug WITHDRAW 1 demo_digest demo_rid2)" by simp
  from conjunct2 [OF service_call_settles [OF demo_env_lawful demo_reachable(3) this run js], THEN mp, OF new,
      unfolded ok sum.case]
  show ?thesis unfolding run by auto
qed

end
