(* ===== verification/Workspaces.thy ===== *)
theory Workspaces
  imports Py_Prelude
begin

text \<open>
  Workspaces, memberships and permissions (\<^verbatim>\<open>platform/workspaces/\<close>): the domain values, the SQL
  permission predicates of \<^verbatim>\<open>permissions.py\<close>, the membership repository with its audit log, and
  workspace creation.  A point in time is an integer; the current time is an argument where
  the code asks the clock.
\<close>

section \<open>Data\<close>

datatype workspace_kind = COMPANY | TEAM | PERSONAL | TEMPORARY

datatype membership_role = OWNER | MEMBER

datatype user_role = USER_OWNER | USER_MEMBER

record ws_grants =
  gr_read :: bool
  gr_write :: bool
  gr_delete :: bool

definition grants_ok :: "ws_grants \<Rightarrow> bool" where
  "grants_ok g \<longleftrightarrow> \<not> (\<not> gr_read g \<and> (gr_write g \<or> gr_delete g))"

definition new_grants :: "bool \<Rightarrow> bool \<Rightarrow> bool \<Rightarrow> ws_grants res" where
  "new_grants r w d =
     (let g = \<lparr>gr_read = r, gr_write = w, gr_delete = d\<rparr>
      in if grants_ok g then Inr g else Inl (ValueError ''Write and delete require read permission.''))"

record ws_capabilities =
  ca_read :: bool
  ca_write :: bool
  ca_delete :: bool
  ca_manage_members :: bool

record ws_member =
  wm_user :: uuid
  wm_display_name :: pystr
  wm_role :: membership_role
  wm_active :: bool
  wm_read :: bool
  wm_write :: bool
  wm_delete :: bool
  wm_revision :: int

record user_row =
  us_id :: uuid
  us_display_name :: pystr
  us_role :: user_role
  us_active :: bool

record workspace_row =
  wr_id :: uuid
  wr_name :: pystr
  wr_kind :: workspace_kind
  wr_created_by :: uuid
  wr_expires_at :: "int option"

record membership_row =
  mb_workspace :: uuid
  mb_user :: uuid
  mb_role :: membership_role
  mb_read :: bool
  mb_write :: bool
  mb_delete :: bool
  mb_revision :: int

record audit_row =
  au_workspace :: uuid
  au_actor :: uuid
  au_target :: uuid
  au_before :: "ws_grants option"
  au_after :: ws_grants
  au_revision :: int

record ws_db =
  wd_users :: "user_row list"
  wd_workspaces :: "workspace_row list"
  wd_members :: "membership_row list"
  wd_audits :: "audit_row list"

abbreviation member_key :: "membership_row \<Rightarrow> uuid \<times> uuid" where
  "member_key m \<equiv> (mb_workspace m, mb_user m)"

abbreviation resource_not_found :: exn where
  "resource_not_found \<equiv> AppError ''not_found'' 404"

section \<open>Permission predicates\<close>

definition workspace_is_active :: "int \<Rightarrow> workspace_row \<Rightarrow> bool" where
  "workspace_is_active now w \<longleftrightarrow>
     wr_kind w \<noteq> TEMPORARY \<or> (case wr_expires_at w of None \<Rightarrow> False | Some t \<Rightarrow> t > now)"

definition workspace_personal_owner_matches :: "uuid \<Rightarrow> workspace_row \<Rightarrow> bool" where
  "workspace_personal_owner_matches actor w \<longleftrightarrow> wr_kind w \<noteq> PERSONAL \<or> wr_created_by w = actor"

definition workspace_read_allowed :: "ws_db \<Rightarrow> int \<Rightarrow> uuid \<Rightarrow> workspace_row \<Rightarrow> bool" where
  "workspace_read_allowed db now actor w \<longleftrightarrow>
     (wr_kind w \<noteq> PERSONAL \<or> wr_created_by w = actor)
     \<and> (wr_kind w \<noteq> TEMPORARY \<or> (case wr_expires_at w of None \<Rightarrow> False | Some t \<Rightarrow> t > now))
     \<and> list_ex (\<lambda>m. mb_workspace m = wr_id w \<and> mb_user m = actor
          \<and> list_ex (\<lambda>u. us_id u = mb_user m \<and> us_active u) (wd_users db)
          \<and> (wr_kind w \<noteq> COMPANY \<or> mb_role m = OWNER \<or> mb_read m)) (wd_members db)"

definition workspace_write_allowed :: "ws_db \<Rightarrow> int \<Rightarrow> uuid \<Rightarrow> workspace_row \<Rightarrow> bool" where
  "workspace_write_allowed db now actor w \<longleftrightarrow>
     workspace_read_allowed db now actor w
     \<and> (wr_kind w \<noteq> COMPANY
        \<or> list_ex (\<lambda>m. mb_workspace m = wr_id w \<and> mb_user m = actor
             \<and> (mb_role m = OWNER \<or> mb_write m)) (wd_members db))"

definition workspace_delete_allowed :: "ws_db \<Rightarrow> int \<Rightarrow> uuid \<Rightarrow> workspace_row \<Rightarrow> bool" where
  "workspace_delete_allowed db now actor w \<longleftrightarrow>
     workspace_read_allowed db now actor w
     \<and> list_ex (\<lambda>m. mb_workspace m = wr_id w \<and> mb_user m = actor
          \<and> (mb_role m = OWNER \<or> wr_kind w = PERSONAL \<or> (wr_kind w = COMPANY \<and> mb_delete m)))
         (wd_members db)"

definition require_workspace :: "(workspace_row \<Rightarrow> bool) \<Rightarrow> ws_db \<Rightarrow> uuid \<Rightarrow> unit res" where
  "require_workspace allowed db wid =
     (if list_ex (\<lambda>w. wr_id w = wid \<and> allowed w) (wd_workspaces db) then Inr () else Inl resource_not_found)"

definition require_workspace_write :: "ws_db \<Rightarrow> int \<Rightarrow> uuid \<Rightarrow> uuid \<Rightarrow> unit res" where
  "require_workspace_write db now actor wid = require_workspace (workspace_write_allowed db now actor) db wid"

definition require_workspace_delete :: "ws_db \<Rightarrow> int \<Rightarrow> uuid \<Rightarrow> uuid \<Rightarrow> unit res" where
  "require_workspace_delete db now actor wid = require_workspace (workspace_delete_allowed db now actor) db wid"

section \<open>The membership repository\<close>

definition member_of :: "membership_row \<Rightarrow> user_row \<Rightarrow> ws_member" where
  "member_of m u =
     (let owner = (mb_role m = OWNER)
      in \<lparr>wm_user = us_id u, wm_display_name = us_display_name u, wm_role = mb_role m,
          wm_active = us_active u, wm_read = (owner \<or> mb_read m), wm_write = (owner \<or> mb_write m),
          wm_delete = (owner \<or> mb_delete m), wm_revision = mb_revision m\<rparr>)"

definition capabilities :: "ws_db \<Rightarrow> int \<Rightarrow> uuid \<Rightarrow> uuid \<Rightarrow> ws_capabilities res" where
  "capabilities db now actor wid =
     (case [(w, m). w \<leftarrow> wd_workspaces db, wr_id w = wid \<and> workspace_read_allowed db now actor w,
              m \<leftarrow> wd_members db, mb_workspace m = wr_id w \<and> mb_user m = actor] of
        [] \<Rightarrow> Inl resource_not_found
      | [(w, m)] \<Rightarrow>
          let owner = (mb_role m = OWNER); personal = (wr_kind w = PERSONAL);
              legacy_write = (wr_kind w = TEAM \<or> wr_kind w = TEMPORARY)
          in Inr \<lparr>ca_read = True, ca_write = (owner \<or> personal \<or> legacy_write \<or> mb_write m),
                  ca_delete = (owner \<or> personal \<or> (wr_kind w = COMPANY \<and> mb_delete m)),
                  ca_manage_members = (wr_kind w = COMPANY \<and> owner)\<rparr>
      | _ \<Rightarrow> Inl (LookupError ''MultipleResultsFound''))"

definition require_owner :: "ws_db \<Rightarrow> int \<Rightarrow> uuid \<Rightarrow> uuid \<Rightarrow> unit res" where
  "require_owner db now actor wid =
     rbind (capabilities db now actor wid) (\<lambda>c.
       if ca_manage_members c then Inr () else Inl resource_not_found)"

text \<open>The rows of a listing after a cursor, in the order of the user id.\<close>

definition member_rows :: "ws_db \<Rightarrow> uuid \<Rightarrow> uuid option \<Rightarrow> (membership_row \<times> user_row) list" where
  "member_rows db wid after =
     sort_key (\<lambda>p. mb_user (fst p))
       [(m, u). m \<leftarrow> wd_members db,
          mb_workspace m = wid \<and> (case after of None \<Rightarrow> True | Some a \<Rightarrow> mb_user m > a),
          u \<leftarrow> wd_users db, us_id u = mb_user m]"

definition list_members ::
  "ws_db \<Rightarrow> int \<Rightarrow> uuid \<Rightarrow> uuid \<Rightarrow> uuid option \<Rightarrow> nat \<Rightarrow> (ws_member list \<times> uuid option) res" where
  "list_members db now actor wid after limit =
     rbind (require_owner db now actor wid) (\<lambda>_.
       let rows = take (limit + 1) (member_rows db wid after);
           items = map (\<lambda>p. member_of (fst p) (snd p)) (take limit rows)
       in if length rows > limit then
            (if items = [] then Inl (LookupError ''IndexError'')
             else Inr (items, Some (wm_user (last items))))
          else Inr (items, None))"

definition membership_ok :: "membership_row \<Rightarrow> bool" where
  "membership_ok m \<longleftrightarrow>
     (mb_read m \<or> (\<not> mb_write m \<and> \<not> mb_delete m)) \<and> mb_revision m \<ge> 1"

definition grants_of :: "membership_row \<Rightarrow> ws_grants" where
  "grants_of m = \<lparr>gr_read = mb_read m, gr_write = mb_write m, gr_delete = mb_delete m\<rparr>"

definition put_member ::
  "ws_db \<Rightarrow> int \<Rightarrow> uuid \<Rightarrow> uuid \<Rightarrow> uuid \<Rightarrow> ws_grants \<Rightarrow> int \<Rightarrow> (ws_db \<times> ws_member) res" where
  "put_member db now actor wid target grants expected_revision =
     rbind (require_owner db now actor wid) (\<lambda>_.
       case List.find (\<lambda>u. us_id u = target \<and> us_active u) (wd_users db) of
         None \<Rightarrow> Inl resource_not_found
       | Some u \<Rightarrow>
           let existing = row_by member_key (wid, target) (wd_members db);
               revision = (case existing of None \<Rightarrow> 0 | Some m \<Rightarrow> mb_revision m)
           in if (case existing of None \<Rightarrow> False | Some m \<Rightarrow> mb_role m = OWNER) then Inl resource_not_found
              else if expected_revision < 0 then Inl (AppError ''invalid_revision'' 422)
              else if expected_revision \<noteq> revision
              then Inl (AppError ''workspace_permission_conflict'' 409)
              else
                let m' = \<lparr>mb_workspace = wid, mb_user = target, mb_role = MEMBER,
                       mb_read = gr_read grants, mb_write = gr_write grants,
                       mb_delete = gr_delete grants, mb_revision = revision + 1\<rparr>;
                    audit = \<lparr>au_workspace = wid, au_actor = actor, au_target = target,
                       au_before = map_option grants_of existing, au_after = grants,
                       au_revision = revision + 1\<rparr>
                in if \<not> membership_ok m' then Inl IntegrityError
                   else Inr (db\<lparr>wd_members := (case existing of None \<Rightarrow> wd_members db @ [m']
                               | Some _ \<Rightarrow> put_row member_key m' (wd_members db)),
                             wd_audits := wd_audits db @ [audit]\<rparr>, member_of m' u))"

section \<open>Creating a workspace\<close>

text \<open>\<^verbatim>\<open>Workspace.create\<close>; the fresh identifier is an argument.\<close>

definition workspace_create ::
  "int \<Rightarrow> uuid \<Rightarrow> pystr \<Rightarrow> workspace_kind \<Rightarrow> user_row \<Rightarrow> int option \<Rightarrow> workspace_row res" where
  "workspace_create now fresh name kind creator expires_at =
     (if kind = COMPANY \<and> us_role creator \<noteq> USER_OWNER
      then Inl (ValueError ''Only an owner can create a company workspace.'')
      else if kind = TEMPORARY \<and> (case expires_at of None \<Rightarrow> True | Some t \<Rightarrow> t \<le> now)
      then Inl (ValueError ''A temporary workspace requires a future expiry.'')
      else if kind \<noteq> TEMPORARY \<and> expires_at \<noteq> None
      then Inl (ValueError ''Only a temporary workspace can expire.'')
      else Inr \<lparr>wr_id = fresh, wr_name = strip name, wr_kind = kind, wr_created_by = us_id creator,
                wr_expires_at = expires_at\<rparr>)"

definition has_personal :: "ws_db \<Rightarrow> uuid \<Rightarrow> bool" where
  "has_personal db user \<longleftrightarrow>
     list_ex (\<lambda>w. wr_created_by w = user \<and> wr_kind w = PERSONAL) (wd_workspaces db)"

text \<open>An owner's grants default to \<^verbatim>\<open>True\<close>, the revision to \<open>1\<close>.\<close>

definition add_workspace :: "ws_db \<Rightarrow> workspace_row \<Rightarrow> uuid \<Rightarrow> (ws_db \<times> workspace_row) res" where
  "add_workspace db w owner =
     (if row_by wr_id (wr_id w) (wd_workspaces db) \<noteq> None then Inl IntegrityError
      else let m = \<lparr>mb_workspace = wr_id w, mb_user = owner, mb_role = OWNER, mb_read = True,
                 mb_write = True, mb_delete = True, mb_revision = 1\<rparr>
           in if row_by member_key (member_key m) (wd_members db) \<noteq> None then Inl IntegrityError
              else Inr (db\<lparr>wd_workspaces := wd_workspaces db @ [w], wd_members := wd_members db @ [m]\<rparr>, w))"

definition create_workspace ::
  "ws_db \<Rightarrow> int \<Rightarrow> uuid \<Rightarrow> pystr \<Rightarrow> workspace_kind \<Rightarrow> user_row \<Rightarrow> int option \<Rightarrow> (ws_db \<times> workspace_row) res" where
  "create_workspace db now fresh name kind creator expires_at =
     (if kind = PERSONAL \<and> has_personal db (us_id creator)
      then Inl (AppError ''personal_workspace_exists'' 409)
      else rbind (recover is_value_error (AppError ''invalid_workspace'' 422)
             (workspace_create now fresh name kind creator expires_at))
           (\<lambda>w. add_workspace db w (us_id creator)))"

definition list_for_user :: "ws_db \<Rightarrow> int \<Rightarrow> uuid \<Rightarrow> workspace_row list" where
  "list_for_user db now user =
     sort_key wr_name
       [w. m \<leftarrow> wd_members db, mb_user m = user, w \<leftarrow> wd_workspaces db, wr_id w = mb_workspace m
          \<and> workspace_read_allowed db now user w \<and> workspace_is_active now w
          \<and> workspace_personal_owner_matches user w]"


section \<open>The invariant\<close>

text \<open>
  The audit entries of a membership, oldest first: each starts where the one before it ended,
  and the revisions count up from one.
\<close>

definition audit_trail :: "ws_db \<Rightarrow> uuid \<Rightarrow> uuid \<Rightarrow> audit_row list" where
  "audit_trail db wid user = filter (\<lambda>a. au_workspace a = wid \<and> au_target a = user) (wd_audits db)"

fun trail_from :: "ws_grants option \<Rightarrow> int \<Rightarrow> audit_row list \<Rightarrow> bool" where
  "trail_from before k [] = True"
| "trail_from before k (a # as) =
     (au_before a = before \<and> au_revision a = k \<and> trail_from (Some (au_after a)) (k + 1) as)"

definition trail_backs :: "ws_db \<Rightarrow> membership_row \<Rightarrow> bool" where
  "trail_backs db m \<longleftrightarrow>
     (let as = audit_trail db (mb_workspace m) (mb_user m)
      in trail_from None 1 as \<and> as \<noteq> [] \<and> mb_revision m = int (length as)
         \<and> au_after (last as) = grants_of m)"

definition ws_ok :: "ws_db \<Rightarrow> bool" where
  "ws_ok db \<longleftrightarrow>
     keyed us_id (wd_users db) \<and> keyed wr_id (wd_workspaces db) \<and> keyed member_key (wd_members db)
     \<and> (\<forall>m \<in> set (wd_members db). membership_ok m \<and> (mb_role m = MEMBER \<longrightarrow> trail_backs db m))
     \<and> (\<forall>a \<in> set (wd_audits db). \<exists>m \<in> set (wd_members db).
          member_key m = (au_workspace a, au_target a) \<and> mb_role m = MEMBER)"

text \<open>A company workspace with its owner, one member added by the owner, and one outsider.\<close>

definition demo_ws :: ws_db where
  "demo_ws =
     \<lparr>wd_users = [\<lparr>us_id = UUID 11, us_display_name = [65], us_role = USER_OWNER, us_active = True\<rparr>,
        \<lparr>us_id = UUID 12, us_display_name = [66], us_role = USER_MEMBER, us_active = True\<rparr>,
        \<lparr>us_id = UUID 13, us_display_name = [67], us_role = USER_MEMBER, us_active = True\<rparr>],
      wd_workspaces = [\<lparr>wr_id = UUID 10, wr_name = [87], wr_kind = COMPANY, wr_created_by = UUID 11,
        wr_expires_at = None\<rparr>],
      wd_members = [\<lparr>mb_workspace = UUID 10, mb_user = UUID 11, mb_role = OWNER, mb_read = True,
          mb_write = True, mb_delete = True, mb_revision = 1\<rparr>,
        \<lparr>mb_workspace = UUID 10, mb_user = UUID 12, mb_role = MEMBER, mb_read = True,
          mb_write = True, mb_delete = False, mb_revision = 1\<rparr>],
      wd_audits = [\<lparr>au_workspace = UUID 10, au_actor = UUID 11, au_target = UUID 12, au_before = None,
        au_after = \<lparr>gr_read = True, gr_write = True, gr_delete = False\<rparr>, au_revision = 1\<rparr>]\<rparr>"

definition demo_read_only :: ws_grants where
  "demo_read_only = \<lparr>gr_read = True, gr_write = False, gr_delete = False\<rparr>"

lemma demo_ws_ok: "ws_ok demo_ws"
  by (simp add: demo_ws_def ws_ok_def membership_ok_def trail_backs_def audit_trail_def grants_of_def)

lemma demo_owner: "require_owner demo_ws now (UUID 11) (UUID 10) = Inr ()"
  by (simp add: require_owner_def capabilities_def demo_ws_def workspace_read_allowed_def)

lemma demo_put:
  "\<exists>db x. put_member demo_ws 0 (UUID 11) (UUID 10) (UUID 12) demo_read_only 1 = Inr (db, x)
     \<and> require_owner db 0 (UUID 11) (UUID 10) = Inr ()"
  unfolding put_member_def demo_owner
  by (simp add: demo_ws_def demo_read_only_def membership_ok_def require_owner_def capabilities_def
      workspace_read_allowed_def put_row_def Let_def)

lemma trail_from_snoc:
  "trail_from b k (as @ [a]) \<longleftrightarrow>
     trail_from b k as \<and> au_before a = (if as = [] then b else Some (au_after (last as)))
     \<and> au_revision a = k + int (length as)"
  by (induction as arbitrary: b k) auto

lemma grants_of_sel [simp]:
  "gr_read (grants_of m) = mb_read m" "gr_write (grants_of m) = mb_write m" "gr_delete (grants_of m) = mb_delete m"
  by (simp_all add: grants_of_def)

section \<open>Capabilities and predicates agree\<close>

lemma capabilities_eq:
  assumes "ws_ok db"
  shows "capabilities db now actor wid =
    (case row_by wr_id wid (wd_workspaces db) of
       None \<Rightarrow> Inl resource_not_found
     | Some w \<Rightarrow>
         if \<not> workspace_read_allowed db now actor w then Inl resource_not_found
         else case row_by member_key (wid, actor) (wd_members db) of
           None \<Rightarrow> Inl resource_not_found
         | Some m \<Rightarrow> Inr
             \<lparr>ca_read = True,
              ca_write = (mb_role m = OWNER \<or> wr_kind w = PERSONAL \<or> wr_kind w = TEAM
                 \<or> wr_kind w = TEMPORARY \<or> mb_write m),
              ca_delete = (mb_role m = OWNER \<or> wr_kind w = PERSONAL \<or> (wr_kind w = COMPANY \<and> mb_delete m)),
              ca_manage_members = (wr_kind w = COMPANY \<and> mb_role m = OWNER)\<rparr>)"
proof -
  from assms have k: "keyed wr_id (wd_workspaces db)" "keyed member_key (wd_members db)"
    by (simp_all add: ws_ok_def)
  have inner: "concat (map (\<lambda>m. if mb_workspace m = v \<and> mb_user m = actor then [(w, m)] else []) (wd_members db)) =
      (case row_by member_key (v, actor) (wd_members db) of None \<Rightarrow> [] | Some m \<Rightarrow> [(w, m)])" for v w
    using concat_keyed [OF k(2), of "(v, actor)" "\<lambda>_. True" "\<lambda>m. [(w, m)]"]
    by (simp cong: option.case_cong)
  show ?thesis
    unfolding capabilities_def inner concat_keyed [OF k(1)]
    by (auto simp: Let_def split: option.splits dest: row_by_SomeD)
qed

lemma member_query:
  assumes "ws_ok db"
  shows "list_ex (\<lambda>m. mb_workspace m = wid \<and> mb_user m = actor \<and> P m) (wd_members db)
    \<longleftrightarrow> (\<exists>m. row_by member_key (wid, actor) (wd_members db) = Some m \<and> P m)"
  using assms list_ex_keyed [of member_key "wd_members db" "(wid, actor)" P] by (simp add: ws_ok_def conj_assoc)

lemma read_allowed_member:
  assumes "ws_ok db" "workspace_read_allowed db now actor w"
  shows "row_by member_key (wr_id w, actor) (wd_members db) \<noteq> None"
proof -
  have "list_ex (\<lambda>m. mb_workspace m = wr_id w \<and> mb_user m = actor \<and> True) (wd_members db)"
    using assms(2) by (auto simp: workspace_read_allowed_def list_ex_iff)
  then show ?thesis unfolding member_query [OF assms(1)] by auto
qed

lemma require_workspace_eq:
  assumes "ws_ok db"
  shows "require_workspace P db wid = Inr u \<longleftrightarrow> (\<exists>w. row_by wr_id wid (wd_workspaces db) = Some w \<and> P w)"
  using assms list_ex_keyed [of wr_id "wd_workspaces db" wid P]
  by (auto simp: require_workspace_def ws_ok_def)

text \<open>
  What the application shows a user as capabilities is exactly what the SQL predicates
  grant: the write and delete flags equal the outcome of the two permission checks, and a
  workspace whose capabilities are not found passes neither check.
\<close>

theorem capabilities_match_predicates:
  assumes "ws_ok db"
  shows "case capabilities db now actor wid of
      Inr c \<Rightarrow> ca_write c = (require_workspace_write db now actor wid = Inr ())
        \<and> ca_delete c = (require_workspace_delete db now actor wid = Inr ())
    | Inl e \<Rightarrow> e = resource_not_found \<and> require_workspace_write db now actor wid = Inl resource_not_found
        \<and> require_workspace_delete db now actor wid = Inl resource_not_found"
proof -
  have inl: "require_workspace P db wid = Inl resource_not_found \<longleftrightarrow> require_workspace P db wid \<noteq> Inr ()" for P
    by (simp add: require_workspace_def)
  show ?thesis
  proof (cases "row_by wr_id wid (wd_workspaces db)")
    case None
    then show ?thesis
      by (simp add: capabilities_eq [OF assms] require_workspace_write_def require_workspace_delete_def
          inl require_workspace_eq [OF assms])
  next
    case (Some w)
    then have id: "wr_id w = wid" by (auto dest: row_by_SomeD)
    show ?thesis
    proof (cases "workspace_read_allowed db now actor w")
      case False
      with Some show ?thesis
        by (simp add: capabilities_eq [OF assms] require_workspace_write_def require_workspace_delete_def
            inl require_workspace_eq [OF assms] workspace_write_allowed_def workspace_delete_allowed_def)
    next
      case True
      with read_allowed_member [OF assms True] id obtain m where
        m: "row_by member_key (wid, actor) (wd_members db) = Some m" by auto
      with True Some id show ?thesis
        by (cases "wr_kind w")
          (simp_all add: capabilities_eq [OF assms] require_workspace_write_def require_workspace_delete_def
            require_workspace_eq [OF assms] workspace_write_allowed_def workspace_delete_allowed_def
            member_query [OF assms])
    qed
  qed
qed


theorem capabilities_match_predicates_witness:
  "case capabilities demo_ws 0 (UUID 12) (UUID 10) of
      Inr c \<Rightarrow> ca_write c = (require_workspace_write demo_ws 0 (UUID 12) (UUID 10) = Inr ())
        \<and> ca_delete c = (require_workspace_delete demo_ws 0 (UUID 12) (UUID 10) = Inr ())
    | Inl e \<Rightarrow> e = resource_not_found \<and> require_workspace_write demo_ws 0 (UUID 12) (UUID 10) = Inl resource_not_found
        \<and> require_workspace_delete demo_ws 0 (UUID 12) (UUID 10) = Inl resource_not_found"
  by (rule capabilities_match_predicates [OF demo_ws_ok])

section \<open>Changing members\<close>

lemma require_owner_Inr:
  assumes "ws_ok db" "require_owner db now actor wid = Inr u"
  obtains w m where "row_by wr_id wid (wd_workspaces db) = Some w" "wr_kind w = COMPANY"
    "row_by member_key (wid, actor) (wd_members db) = Some m" "mb_role m = OWNER"
    "workspace_read_allowed db now actor w"
  using assms(2) by (auto simp: require_owner_def capabilities_eq [OF assms(1)] split: option.splits if_splits)

lemma put_member_Inr:
  assumes "put_member db now actor wid target g n = Inr (db', x)"
  obtains u m' where "require_owner db now actor wid = Inr ()"
    "us_id u = target" "us_active u" "u \<in> set (wd_users db)"
    "n = (case row_by member_key (wid, target) (wd_members db) of None \<Rightarrow> 0 | Some m \<Rightarrow> mb_revision m)"
    "\<And>m. row_by member_key (wid, target) (wd_members db) = Some m \<Longrightarrow> mb_role m = MEMBER"
    "m' = \<lparr>mb_workspace = wid, mb_user = target, mb_role = MEMBER, mb_read = gr_read g,
       mb_write = gr_write g, mb_delete = gr_delete g, mb_revision = n + 1\<rparr>"
    "membership_ok m'" "x = member_of m' u"
    "db' = db\<lparr>wd_members := (if row_by member_key (wid, target) (wd_members db) = None
        then wd_members db @ [m'] else put_row member_key m' (wd_members db)),
      wd_audits := wd_audits db @ [\<lparr>au_workspace = wid, au_actor = actor, au_target = target,
        au_before = map_option grants_of (row_by member_key (wid, target) (wd_members db)),
        au_after = g, au_revision = n + 1\<rparr>]\<rparr>"
proof -
  from assms obtain u where own: "require_owner db now actor wid = Inr ()"
    and u: "List.find (\<lambda>u. us_id u = target \<and> us_active u) (wd_users db) = Some u"
    by (auto simp: put_member_def split: option.splits)
  from u have u': "us_id u = target" "us_active u" "u \<in> set (wd_users db)" by (auto simp: find_Some_iff)
  show thesis
  proof (cases "row_by member_key (wid, target) (wd_members db)")
    case None
    with assms own u show thesis
      by (intro that [OF own u', of "\<lparr>mb_workspace = wid, mb_user = target, mb_role = MEMBER,
          mb_read = gr_read g, mb_write = gr_write g, mb_delete = gr_delete g, mb_revision = n + 1\<rparr>"])
        (simp_all add: put_member_def Let_def split: if_splits)
  next
    case (Some m)
    with assms own u have "mb_role m \<noteq> OWNER" by (auto simp: put_member_def Let_def)
    then have "mb_role m = MEMBER" by (cases "mb_role m") simp_all
    with Some assms own u show thesis
      by (intro that [OF own u', of "\<lparr>mb_workspace = wid, mb_user = target, mb_role = MEMBER,
          mb_read = gr_read g, mb_write = gr_write g, mb_delete = gr_delete g, mb_revision = n + 1\<rparr>"])
        (simp_all add: put_member_def Let_def split: if_splits)
  qed
qed

lemma put_member_lookup:
  assumes ok: "ws_ok db" and put: "put_member db now actor wid target g n = Inr (db', x)"
  shows "row_by member_key k (wd_members db') =
    (if k = (wid, target) then Some \<lparr>mb_workspace = wid, mb_user = target, mb_role = MEMBER,
        mb_read = gr_read g, mb_write = gr_write g, mb_delete = gr_delete g, mb_revision = n + 1\<rparr>
     else row_by member_key k (wd_members db))"
  using put
  by (rule put_member_Inr) (auto simp: row_by_append row_by_put_row split: option.splits)


lemma put_member_rows:
  assumes ok: "ws_ok db" and put: "put_member db now actor wid target g n = Inr (db', x)"
    and m: "m \<in> set (wd_members db')" "member_key m \<noteq> (wid, target)"
  shows "m \<in> set (wd_members db)"
  using put by (rule put_member_Inr) (use m in \<open>auto simp: set_put_row split: if_splits\<close>)

lemma put_member_trail:
  assumes "put_member db now actor wid target g n = Inr (db', x)"
  shows "audit_trail db' w u = audit_trail db w u @
    (if (w, u) = (wid, target) then [\<lparr>au_workspace = wid, au_actor = actor, au_target = target,
        au_before = map_option grants_of (row_by member_key (wid, target) (wd_members db)),
        au_after = g, au_revision = n + 1\<rparr>] else [])"
  using assms by (rule put_member_Inr) (auto simp: audit_trail_def)

lemma audit_trail_empty:
  assumes "ws_ok db" "row_by member_key (wid, user) (wd_members db) = None"
  shows "audit_trail db wid user = []"
proof (rule ccontr)
  assume "audit_trail db wid user \<noteq> []"
  then obtain a where a: "a \<in> set (wd_audits db)" "au_workspace a = wid" "au_target a = user"
    by (auto simp: audit_trail_def filter_empty_conv)
  from assms(1) a(1) have "\<exists>m \<in> set (wd_members db). member_key m = (au_workspace a, au_target a) \<and> mb_role m = MEMBER"
    unfolding ws_ok_def by blast
  with assms(2) a(2,3) show False by (auto simp: row_by_None_iff image_iff)
qed

lemma put_member_trail_backs:
  assumes ok: "ws_ok db" and put: "put_member db now actor wid target g n = Inr (db', x)"
    and m: "m \<in> set (wd_members db')" "mb_role m = MEMBER"
  shows "trail_backs db' m"
proof (cases "member_key m = (wid, target)")
  case False
  with put_member_rows [OF ok put m(1)] ok m(2) have "trail_backs db m" by (simp add: ws_ok_def)
  with False show ?thesis by (auto simp: trail_backs_def Let_def put_member_trail [OF put])
next
  case True
  from put have keyed': "keyed member_key (wd_members db')"
    by (rule put_member_Inr) (use ok in \<open>auto simp: ws_ok_def keyed_snoc\<close>)
  with m(1) True have "row_by member_key (wid, target) (wd_members db') = Some m"
    by (simp add: row_by_Some_iff)
  with put_member_lookup [OF ok put] have m': "m = \<lparr>mb_workspace = wid, mb_user = target, mb_role = MEMBER,
        mb_read = gr_read g, mb_write = gr_write g, mb_delete = gr_delete g, mb_revision = n + 1\<rparr>"
    by simp
  from put have n: "n = (case row_by member_key (wid, target) (wd_members db) of None \<Rightarrow> 0 | Some m \<Rightarrow> mb_revision m)"
    and role: "\<And>m. row_by member_key (wid, target) (wd_members db) = Some m \<Longrightarrow> mb_role m = MEMBER"
    by (auto elim: put_member_Inr)
  have g: "grants_of m = g" by (simp add: m' grants_of_def)
  show ?thesis
  proof (cases "row_by member_key (wid, target) (wd_members db)")
    case None
    with audit_trail_empty [OF ok None] n g m' show ?thesis
      by (simp add: trail_backs_def Let_def put_member_trail [OF put])
  next
    case (Some e)
    then have "e \<in> set (wd_members db)" "member_key e = (wid, target)" by (auto dest: row_by_SomeD)
    with ok role [OF Some] have "trail_backs db e" by (auto simp: ws_ok_def)
    with Some n g m' \<open>member_key e = (wid, target)\<close> show ?thesis
      by (auto simp: trail_backs_def put_member_trail [OF put] trail_from_snoc Let_def)
  qed
qed

lemma put_member_ws_ok:
  assumes ok: "ws_ok db" and put: "put_member db now actor wid target g n = Inr (db', x)"
  shows "ws_ok db'"
proof -
  from put have same: "wd_users db' = wd_users db" "wd_workspaces db' = wd_workspaces db"
    and keyed': "keyed member_key (wd_members db')"
    by (auto elim!: put_member_Inr intro: ok [unfolded ws_ok_def, THEN conjunct2, THEN conjunct2, THEN conjunct1]
        simp: keyed_snoc ok [unfolded ws_ok_def])
  have "membership_ok m" if "m \<in> set (wd_members db')" for m
    using put by (rule put_member_Inr) (use that ok in \<open>auto simp: ws_ok_def set_put_row split: if_splits\<close>)
  moreover have "\<exists>m \<in> set (wd_members db'). member_key m = (au_workspace a, au_target a) \<and> mb_role m = MEMBER"
    if a: "a \<in> set (wd_audits db')" for a
  proof -
    let ?k = "(au_workspace a, au_target a)"
    have "?k = (wid, target) \<or> a \<in> set (wd_audits db)"
      using put by (rule put_member_Inr) (use a in auto)
    then consider (same) "?k = (wid, target)" | (other) "?k \<noteq> (wid, target)" "a \<in> set (wd_audits db)"
      by blast
    then have "\<exists>m. row_by member_key ?k (wd_members db') = Some m \<and> mb_role m = MEMBER"
    proof cases
      case same
      then show ?thesis by (simp add: put_member_lookup [OF ok put])
    next
      case other
      from ok other(2) have "\<exists>m \<in> set (wd_members db). member_key m = ?k \<and> mb_role m = MEMBER"
        unfolding ws_ok_def by blast
      with ok have "\<exists>m. row_by member_key ?k (wd_members db) = Some m \<and> mb_role m = MEMBER"
        by (auto simp: ws_ok_def row_by_Some_iff)
      with other(1) show ?thesis by (simp add: put_member_lookup [OF ok put])
    qed
    then show ?thesis by (blast dest: row_by_SomeD)
  qed
  ultimately show ?thesis
    using ok same keyed' put_member_trail_backs [OF ok put] by (simp add: ws_ok_def)
qed

lemma create_workspace_ws_ok:
  assumes ok: "ws_ok db" and cr: "create_workspace db now fresh name kind creator e = Inr (db', w)"
  shows "ws_ok db'"
proof -
  from cr obtain m where m: "m = \<lparr>mb_workspace = wr_id w, mb_user = us_id creator, mb_role = OWNER,
      mb_read = True, mb_write = True, mb_delete = True, mb_revision = 1\<rparr>"
    and new: "row_by wr_id (wr_id w) (wd_workspaces db) = None"
      "row_by member_key (member_key m) (wd_members db) = None"
    and db': "db' = db\<lparr>wd_workspaces := wd_workspaces db @ [w], wd_members := wd_members db @ [m]\<rparr>"
    by (auto simp: create_workspace_def add_workspace_def Let_def split: if_splits)
  have "trail_backs db' x = trail_backs db x" for x
    by (simp add: trail_backs_def audit_trail_def db')
  moreover have "membership_ok m" "mb_role m = OWNER" by (simp_all add: m membership_ok_def)
  ultimately show ?thesis
    using ok new unfolding ws_ok_def db' by (auto simp: keyed_snoc)
qed


text \<open>
  C6.  Only the owner of a company workspace changes a membership; the change touches one row,
  never an owner's, stores exactly the requested grants, and keeps the audit log complete: the
  entries of the membership lead from nothing to its current grants without a gap.
\<close>

theorem member_change_is_owned_and_audited:
  assumes "ws_ok db" "put_member db now actor wid target g n = Inr (db', x)"
  shows "ws_ok db'
    \<and> (\<exists>w m. row_by wr_id wid (wd_workspaces db) = Some w \<and> wr_kind w = COMPANY
        \<and> row_by member_key (wid, actor) (wd_members db) = Some m \<and> mb_role m = OWNER)
    \<and> (\<exists>m. row_by member_key (wid, target) (wd_members db') = Some m \<and> mb_role m = MEMBER
        \<and> grants_of m = g \<and> mb_revision m = n + 1 \<and> trail_backs db' m)
    \<and> (\<forall>k. k \<noteq> (wid, target) \<longrightarrow> row_by member_key k (wd_members db') = row_by member_key k (wd_members db))"
proof (intro conjI)
  show ok': "ws_ok db'" by (rule put_member_ws_ok [OF assms])
  from assms(2) have "require_owner db now actor wid = Inr ()" by (auto elim: put_member_Inr)
  with assms(1) show "\<exists>w m. row_by wr_id wid (wd_workspaces db) = Some w \<and> wr_kind w = COMPANY
        \<and> row_by member_key (wid, actor) (wd_members db) = Some m \<and> mb_role m = OWNER"
    by (auto elim: require_owner_Inr)
  from put_member_lookup [OF assms, of "(wid, target)"] obtain m where
    m: "row_by member_key (wid, target) (wd_members db') = Some m" "mb_role m = MEMBER"
      "grants_of m = g" "mb_revision m = n + 1"
    by (auto simp: grants_of_def)
  with put_member_trail_backs [OF assms] show "\<exists>m. row_by member_key (wid, target) (wd_members db') = Some m
      \<and> mb_role m = MEMBER \<and> grants_of m = g \<and> mb_revision m = n + 1 \<and> trail_backs db' m"
    by (blast dest: row_by_SomeD)
  show "\<forall>k. k \<noteq> (wid, target) \<longrightarrow> row_by member_key k (wd_members db') = row_by member_key k (wd_members db)"
    by (simp add: put_member_lookup [OF assms])
qed

theorem member_change_is_owned_and_audited_witness:
  "\<exists>db' x. put_member demo_ws 0 (UUID 11) (UUID 10) (UUID 12) demo_read_only 1 = Inr (db', x) \<and> ws_ok db'
    \<and> (\<exists>m. row_by member_key (UUID 10, UUID 12) (wd_members db') = Some m \<and> mb_role m = MEMBER
        \<and> grants_of m = demo_read_only \<and> mb_revision m = 2 \<and> trail_backs db' m)"
  using demo_put member_change_is_owned_and_audited [OF demo_ws_ok, of 0 "UUID 11" "UUID 10" "UUID 12" demo_read_only 1]
  by fastforce

text \<open>
  Two edits of a membership from the same revision cannot both succeed: the second one is
  refused as a conflict, so no owner overwrites a change they have not seen.
\<close>

theorem stale_member_change_refused:
  assumes "ws_ok db" "put_member db now actor wid target g n = Inr (db', x)"
    and "require_owner db' now' actor' wid = Inr ()"
  shows "put_member db' now' actor' wid target g' n = Inl (AppError ''workspace_permission_conflict'' 409)"
proof -
  have row: "row_by member_key (wid, target) (wd_members db') = Some \<lparr>mb_workspace = wid, mb_user = target,
        mb_role = MEMBER, mb_read = gr_read g, mb_write = gr_write g, mb_delete = gr_delete g, mb_revision = n + 1\<rparr>"
    by (simp add: put_member_lookup [OF assms(1,2)])
  from assms(2) obtain u where u: "us_id u = target" "us_active u" "u \<in> set (wd_users db)"
    and users: "wd_users db' = wd_users db" and n: "n + 1 \<ge> 1"
    by (auto elim!: put_member_Inr simp: membership_ok_def)
  then obtain u' where "List.find (\<lambda>u. us_id u = target \<and> us_active u) (wd_users db') = Some u'"
    by (cases "List.find (\<lambda>u. us_id u = target \<and> us_active u) (wd_users db')") (auto simp: find_None_iff)
  with assms(3) row n show ?thesis by (simp add: put_member_def Let_def)
qed

theorem stale_member_change_refused_witness:
  "\<exists>db' x. put_member demo_ws 0 (UUID 11) (UUID 10) (UUID 12) demo_read_only 1 = Inr (db', x)
    \<and> put_member db' 0 (UUID 11) (UUID 10) (UUID 12) demo_read_only 1
        = Inl (AppError ''workspace_permission_conflict'' 409)"
  using demo_put stale_member_change_refused [OF demo_ws_ok, of 0 "UUID 11" "UUID 10" "UUID 12" demo_read_only 1]
  by meson

section \<open>Listing members in pages\<close>

definition member_pairs :: "ws_db \<Rightarrow> uuid \<Rightarrow> (membership_row \<times> user_row) list" where
  "member_pairs db wid =
     [(m, u). m \<leftarrow> wd_members db, mb_workspace m = wid, u \<leftarrow> wd_users db, us_id u = mb_user m]"

lemma member_rows_filter:
  "member_rows db wid after =
     sort_key (\<lambda>p. mb_user (fst p))
       (filter (\<lambda>p. case after of None \<Rightarrow> True | Some a \<Rightarrow> mb_user (fst p) > a) (member_pairs db wid))"
proof -
  let ?P = "\<lambda>m. case after of None \<Rightarrow> True | Some a \<Rightarrow> mb_user m > a"
  have inner: "filter (\<lambda>p. ?P (fst p)) (concat (map (\<lambda>u. if us_id u = mb_user m then [(m, u)] else []) us)) =
      (if ?P m then concat (map (\<lambda>u. if us_id u = mb_user m then [(m, u)] else []) us) else [])" for us m
    by (induction us) (auto split: option.splits)
  have "concat (map (\<lambda>m. if mb_workspace m = wid \<and> ?P m
        then concat (map (\<lambda>u. if us_id u = mb_user m then [(m, u)] else []) us) else []) ms) =
      filter (\<lambda>p. ?P (fst p)) (concat (map (\<lambda>m. if mb_workspace m = wid
        then concat (map (\<lambda>u. if us_id u = mb_user m then [(m, u)] else []) us) else []) ms))" for ms us
  proof (induction ms)
    case (Cons m ms)
    then show ?case by (simp only: list.map concat.simps filter_append) (simp add: inner)
  qed simp
  then show ?thesis unfolding member_rows_def member_pairs_def by (rule arg_cong)
qed

lemma member_rows_None: "member_rows db wid None = sort_key (\<lambda>p. mb_user (fst p)) (member_pairs db wid)"
  by (simp add: member_rows_filter case_prod_beta)

lemma member_rows_after:
  "member_rows db wid (Some a) = filter (\<lambda>p. mb_user (fst p) > a) (member_rows db wid None)"
  by (simp add: member_rows_filter [of _ _ "Some a"] member_rows_None filter_sort case_prod_beta)

lemma member_pairs_keys:
  assumes "ws_ok db"
  shows "distinct (map (\<lambda>p. mb_user (fst p)) (member_pairs db wid))"
    and "(m, u) \<in> set (member_pairs db wid) \<Longrightarrow> us_id u = mb_user m"
proof -
  from assms have ku: "keyed us_id (wd_users db)" and km: "distinct (map member_key (wd_members db))"
    by (simp_all add: ws_ok_def keyed_def)
  have one: "concat (map (\<lambda>u. if us_id u = mb_user m then [(m, u)] else []) (wd_users db)) =
      (case row_by us_id (mb_user m) (wd_users db) of None \<Rightarrow> [] | Some u \<Rightarrow> [(m, u)])" for m
    using concat_keyed [OF ku, of "mb_user m" "\<lambda>_. True" "\<lambda>u. [(m, u)]"] by (simp cong: option.case_cong)
  let ?F = "\<lambda>ms. concat (map (\<lambda>m. if mb_workspace m = wid
      then case row_by us_id (mb_user m) (wd_users db) of None \<Rightarrow> [] | Some u \<Rightarrow> [(m, u)] else []) ms)"
  let ?id = "\<lambda>p :: membership_row \<times> user_row. mb_user (fst p)"
  have from_rows: "\<exists>x \<in> set ms. mb_workspace x = wid \<and> mb_user x = y" if "y \<in> set (map ?id (?F ms))" for ms y
    using that by (auto split: if_splits option.splits)
  have "distinct (map ?id (?F ms))" if "distinct (map member_key ms)" for ms
    using that
  proof (induction ms)
    case (Cons m ms)
    from Cons have IH: "distinct (map ?id (?F ms))" and m: "member_key m \<notin> member_key ` set ms" by auto
    have new: "mb_user m \<notin> set (map ?id (?F ms))" if w: "mb_workspace m = wid"
    proof
      assume "mb_user m \<in> set (map ?id (?F ms))"
      from from_rows [OF this] w m show False by (auto simp: image_iff)
    qed
    show ?case
    proof (cases "mb_workspace m = wid \<and> row_by us_id (mb_user m) (wd_users db) \<noteq> None")
      case True
      then obtain u where "row_by us_id (mb_user m) (wd_users db) = Some u" by blast
      with True have "?F (m # ms) = (m, u) # ?F ms" by simp
      with IH new True show ?thesis by simp
    next
      case False
      then have "?F (m # ms) = ?F ms" by (cases "mb_workspace m = wid") simp_all
      with IH show ?thesis by simp
    qed
  qed simp
  from this [OF km] show "distinct (map (\<lambda>p. mb_user (fst p)) (member_pairs db wid))"
    unfolding member_pairs_def one .
  show "(m, u) \<in> set (member_pairs db wid) \<Longrightarrow> us_id u = mb_user m"
    by (auto simp: member_pairs_def split: if_splits)
qed

text \<open>In a list with strictly increasing keys, the elements beyond the last of a prefix are the rest.\<close>

lemma filter_beyond_prefix:
  fixes f :: "'a \<Rightarrow> 'b::linorder"
  shows "sorted_wrt (<) (map f xs) \<Longrightarrow> 0 < k \<Longrightarrow> k \<le> length xs \<Longrightarrow>
    filter (\<lambda>x. f x > f (last (take k xs))) xs = drop k xs"
proof (induction xs arbitrary: k)
  case (Cons x xs)
  then obtain j where k: "k = Suc j" by (cases k) auto
  show ?case
  proof (cases j)
    case 0
    with Cons.prems(1) k show ?thesis by (auto simp: filter_id_conv)
  next
    case (Suc i)
    with Cons.prems k have ne: "take j xs \<noteq> []" "0 < j" "j \<le> length xs" by auto
    then have "last (take j xs) \<in> set xs" by (meson in_set_takeD last_in_set)
    with Cons.prems(1) have "f x < f (last (take j xs))" by simp
    with Cons.IH [of j] Cons.prems(1) ne k show ?thesis by simp
  qed
qed simp

text \<open>
  Paging through the members of a workspace misses nobody and repeats nobody: a page is
  the front of the remaining listing, and the listing after its cursor is exactly the rest.
\<close>

theorem member_pages_partition:
  assumes "ws_ok db" "list_members db now actor wid after limit = Inr (items, cursor)" "0 < limit"
  shows "map (\<lambda>p. member_of (fst p) (snd p)) (member_rows db wid after) =
    items @ (case cursor of None \<Rightarrow> [] | Some c \<Rightarrow> map (\<lambda>p. member_of (fst p) (snd p)) (member_rows db wid (Some c)))
    \<and> length items \<le> limit"
proof (cases "length (member_rows db wid after) > limit")
  case False
  with assms(2) show ?thesis
    by (auto simp: list_members_def Let_def split: if_splits)
next
  case True
  let ?rows = "member_rows db wid after" and ?id = "\<lambda>p :: membership_row \<times> user_row. mb_user (fst p)"
  from assms(2) True have items: "items = map (\<lambda>p. member_of (fst p) (snd p)) (take limit ?rows)"
    and cur: "cursor = Some (wm_user (last items))"
    by (auto simp: list_members_def Let_def min_def split: if_splits)
  from True assms(3) have ne: "take limit ?rows \<noteq> []" by auto
  have sub: "set ?rows \<subseteq> set (member_pairs db wid)" by (auto simp: member_rows_filter)
  have "distinct (map ?id (filter (\<lambda>p. case after of None \<Rightarrow> True | Some a \<Rightarrow> mb_user (fst p) > a) (member_pairs db wid)))"
    by (rule distinct_map_filter [OF member_pairs_keys(1) [OF assms(1)]])
  then have "distinct (map ?id ?rows)"
    unfolding member_rows_filter by (simp add: distinct_map)
  moreover have "sorted (map ?id ?rows)" by (simp add: member_rows_filter)
  ultimately have inc: "sorted_wrt (<) (map ?id ?rows)" by (simp add: strict_sorted_iff)
  have "last (take limit ?rows) \<in> set (member_pairs db wid)"
    using last_in_set [OF ne] sub by (meson in_set_takeD subsetD)
  then have uid: "wm_user (last items) = ?id (last (take limit ?rows))"
  proof -
    obtain m u where mu: "last (take limit ?rows) = (m, u)" by (cases "last (take limit ?rows)")
    assume "last (take limit ?rows) \<in> set (member_pairs db wid)"
    with mu have "us_id u = mb_user m" using member_pairs_keys(2) [OF assms(1)] by simp
    with mu ne show ?thesis by (simp add: items last_map member_of_def Let_def)
  qed
  let ?c = "?id (last (take limit ?rows))"
  from ne have c_in: "last (take limit ?rows) \<in> set ?rows" by (meson in_set_takeD last_in_set)
  then have beyond: "case after of None \<Rightarrow> True | Some a \<Rightarrow> a < ?c"
    by (auto simp: member_rows_filter split: option.splits)
  have "member_rows db wid (Some ?c) = filter (\<lambda>r. ?id r > ?c) ?rows"
  proof (cases after)
    case None
    then show ?thesis by (simp add: member_rows_after case_prod_beta)
  next
    case (Some a)
    with beyond have "a < ?c" by simp
    then have "filter (\<lambda>r. ?id r > ?c) (filter (\<lambda>r. ?id r > a) xs) = filter (\<lambda>r. ?id r > ?c) xs" for xs
      by (auto intro!: filter_cong)
    with Some show ?thesis by (simp add: member_rows_after case_prod_beta)
  qed
  also have "\<dots> = drop limit ?rows"
    using filter_beyond_prefix [OF inc assms(3)] True by simp
  finally have "member_rows db wid (Some ?c) = drop limit ?rows" .
  moreover have "cursor = Some ?c" using cur uid by simp
  moreover have "map (\<lambda>p. member_of (fst p) (snd p)) (take limit ?rows) @ map (\<lambda>p. member_of (fst p) (snd p)) (drop limit ?rows)
      = map (\<lambda>p. member_of (fst p) (snd p)) ?rows"
    by (simp add: map_append [symmetric] del: map_append)
  ultimately show ?thesis by (simp add: items)
qed

theorem member_pages_partition_witness:
  "map (\<lambda>p. member_of (fst p) (snd p)) (member_rows demo_ws (UUID 10) None) =
    (case list_members demo_ws 0 (UUID 11) (UUID 10) None 1 of Inr (items, _) \<Rightarrow> items | Inl _ \<Rightarrow> [])
     @ map (\<lambda>p. member_of (fst p) (snd p)) (member_rows demo_ws (UUID 10) (Some (UUID 11)))"
proof -
  have "\<exists>items. list_members demo_ws 0 (UUID 11) (UUID 10) None 1 = Inr (items, Some (UUID 11))"
    unfolding list_members_def demo_owner by (simp add: member_rows_def demo_ws_def member_of_def)
  then obtain items where items: "list_members demo_ws 0 (UUID 11) (UUID 10) None 1 = Inr (items, Some (UUID 11))" ..
  from member_pages_partition [OF demo_ws_ok items] show ?thesis unfolding items by simp
qed

end
