(* ===== verification/Folder_Hierarchy.thy ===== *)
theory Folder_Hierarchy
  imports Py_Prelude
begin

text \<open>
  The folder hierarchy policy of \<^verbatim>\<open>platform/assets/movement.py\<close> (\<open>FolderHierarchy\<close>): the depth of a
  folder, the checks before a folder is created or moved, and the proof that an accepted move
  leaves a hierarchy without cycles in which no folder is too deep.
\<close>

section \<open>Folders\<close>

record folder =
  fo_id :: uuid
  fo_workspace :: uuid
  fo_parent :: "uuid option"
  fo_name :: pystr
  fo_revision :: int

abbreviation hierarchy_invalid :: exn where
  "hierarchy_invalid \<equiv> AppError ''folder_hierarchy_invalid'' 409"

abbreviation depth_exceeded :: exn where
  "depth_exceeded \<equiv> AppError ''folder_depth_exceeded'' 409"

abbreviation folder_cycle :: exn where
  "folder_cycle \<equiv> AppError ''folder_cycle'' 409"

text \<open>\<^verbatim>\<open>{folder.id: folder for folder in folders}\<close>, as the list of the dictionary's values.\<close>

definition folder_dict :: "folder list \<Rightarrow> folder list" where
  "folder_dict fs =
     fold (\<lambda>f d. if row_by fo_id (fo_id f) d = None then d @ [f] else put_row fo_id f d) fs []"

function depth_from :: "folder list \<Rightarrow> uuid list \<Rightarrow> uuid option \<Rightarrow> nat res" where
  "depth_from fs seen None = Inr (length seen)"
| "depth_from fs seen (Some i) =
     (if i \<in> set seen then Inl hierarchy_invalid
      else case row_by fo_id i fs of
          None \<Rightarrow> Inl hierarchy_invalid
        | Some f \<Rightarrow> depth_from fs (i # seen) (fo_parent f))"
  by pat_completeness auto
termination
proof (relation "measure (\<lambda>(fs, seen, x). card (fo_id ` set fs - set seen))"; clarsimp)
  fix fs :: "folder list" and seen i f
  assume "i \<notin> set seen" "row_by fo_id i fs = Some f"
  then have "i \<in> fo_id ` set fs - set seen" by (auto dest: row_by_SomeD)
  then have "fo_id ` set fs - insert i (set seen) \<subset> fo_id ` set fs - set seen" by blast
  then show "card (fo_id ` set fs - insert i (set seen)) < card (fo_id ` set fs - set seen)"
    by (intro psubset_card_mono) auto
qed

definition folder_depth :: "folder list \<Rightarrow> uuid option \<Rightarrow> nat res" where
  "folder_depth fs x = depth_from fs [] x"

definition check_depth :: "nat \<Rightarrow> nat \<Rightarrow> unit res" where
  "check_depth max_depth d = (if d > max_depth then Inl depth_exceeded else Inr ())"

definition validate_create :: "folder list \<Rightarrow> nat \<Rightarrow> uuid option \<Rightarrow> unit res" where
  "validate_create fs max_depth parent =
     rbind (folder_depth fs parent) (\<lambda>d. check_depth max_depth (d + 1))"

definition children_of :: "folder list \<Rightarrow> uuid \<Rightarrow> uuid list" where
  "children_of fs i = map fo_id (filter (\<lambda>f. fo_parent f = Some i) fs)"

text \<open>
  The walk over the subtree; the stack is kept with its top first, so \<^verbatim>\<open>extend\<close> puts the last
  child on top.
\<close>

function subtree_walk ::
  "folder list \<Rightarrow> (uuid \<times> nat) list \<Rightarrow> uuid list \<Rightarrow> nat \<Rightarrow> (uuid list \<times> nat) res" where
  "subtree_walk fs [] seen height = Inr (seen, height)"
| "subtree_walk fs ((current, level) # pending) seen height =
     (if current \<in> set seen then Inl hierarchy_invalid
      else subtree_walk fs (rev (map (\<lambda>c. (c, level + 1)) (children_of fs current)) @ pending)
             (current # seen) (max height level))"
  by pat_completeness auto
termination
proof (relation "measure (\<lambda>(fs, pending, seen, h). card ((fo_id ` set fs \<union> fst ` set pending) - set seen))"; clarsimp)
  fix fs :: "folder list" and current :: uuid and level :: nat and pending :: "(uuid \<times> nat) list" and seen
  assume new: "current \<notin> set seen"
  let ?old = "insert current (fo_id ` set fs \<union> fst ` set pending) - set seen"
  let ?new = "fo_id ` set fs \<union> fst ` ((\<lambda>c. (c, Suc level)) ` set (children_of fs current) \<union> set pending)
    - insert current (set seen)"
  have "fst ` (\<lambda>c. (c, Suc level)) ` set (children_of fs current) \<subseteq> fo_id ` set fs"
    by (auto simp: children_of_def)
  then have "?new \<subseteq> ?old - {current}" unfolding image_Un by blast
  moreover have "current \<in> ?old" using new by simp
  ultimately have "?new \<subset> ?old" by blast
  then show "card ?new < card ?old" by (intro psubset_card_mono) auto
qed

definition validate_move :: "folder list \<Rightarrow> nat \<Rightarrow> uuid \<Rightarrow> uuid option \<Rightarrow> uuid list res" where
  "validate_move fs max_depth source destination =
     rbind (folder_depth fs (Some source)) (\<lambda>_.
     rbind (folder_depth fs destination) (\<lambda>destination_depth.
     rbind (subtree_walk fs [(source, 1)] [] 0) (\<lambda>(seen, height).
       if (case destination of None \<Rightarrow> False | Some d \<Rightarrow> d \<in> set seen) then Inl folder_cycle
       else rbind (check_depth max_depth (destination_depth + height)) (\<lambda>_. Inr seen))))"

section \<open>Depth is the length of the chain of parents\<close>

inductive at_level :: "folder list \<Rightarrow> uuid option \<Rightarrow> nat \<Rightarrow> bool" for fs where
  root: "at_level fs None 0"
| below: "row_by fo_id i fs = Some f \<Longrightarrow> at_level fs (fo_parent f) n \<Longrightarrow> at_level fs (Some i) (Suc n)"

inductive_cases at_level_NoneE: "at_level fs None n"
inductive_cases at_level_SomeE: "at_level fs (Some i) n"
inductive_simps at_level_None [simp]: "at_level fs None n"
inductive_simps at_level_Some: "at_level fs (Some i) n"

lemma at_level_unique: "at_level fs x m \<Longrightarrow> at_level fs x n \<Longrightarrow> m = n"
proof (induction arbitrary: n rule: at_level.induct)
  case (below i f m)
  from below.prems below.hyps(1) obtain k where "n = Suc k" "at_level fs (fo_parent f) k"
    by (auto elim: at_level_SomeE)
  with below.IH show ?case by simp
qed (auto elim: at_level_NoneE)

lemma depth_from_level: "depth_from fs seen x = Inr n \<Longrightarrow> \<exists>k. at_level fs x k \<and> n = length seen + k"
proof (induction fs seen x rule: depth_from.induct)
  case (2 fs seen i)
  then obtain f where f: "row_by fo_id i fs = Some f" "i \<notin> set seen"
    "depth_from fs (i # seen) (fo_parent f) = Inr n"
    by (auto split: if_splits option.splits)
  with 2 obtain k where "at_level fs (fo_parent f) k" "n = length (i # seen) + k" by blast
  with f show ?case by (intro exI [of _ "Suc k"]) (auto intro: at_level.below)
qed simp

lemma level_depth_from:
  "at_level fs x k \<Longrightarrow> (\<forall>s \<in> set seen. \<exists>m > k. at_level fs (Some s) m) \<Longrightarrow>
     depth_from fs seen x = Inr (length seen + k)"
proof (induction arbitrary: seen rule: at_level.induct)
  case (below i f n)
  have lev: "at_level fs (Some i) (Suc n)" using below.hyps by (rule at_level.below)
  have "i \<notin> set seen"
  proof
    assume "i \<in> set seen"
    with below.prems obtain m where "m > Suc n" "at_level fs (Some i) m" by blast
    with at_level_unique [OF lev] show False by simp
  qed
  moreover have "\<forall>s \<in> set (i # seen). \<exists>m > n. at_level fs (Some s) m"
    using below.prems lev by (auto intro: Suc_lessD)
  then have "depth_from fs (i # seen) (fo_parent f) = Inr (length (i # seen) + n)" by (rule below.IH)
  ultimately show ?case using below.hyps(1) by simp
qed simp

lemma folder_depth_iff: "folder_depth fs x = Inr n \<longleftrightarrow> at_level fs x n"
  using depth_from_level [of fs "[]" x n] level_depth_from [of fs x n "[]"]
  by (auto simp: folder_depth_def)

section \<open>The walk collects the subtree\<close>

text \<open>
  What holds of the stack and of the folders already seen: every folder on either is the
  source or a child of a seen folder, its level is the source's level plus its distance, and
  the children of a seen folder are on one of the two.
\<close>

definition walk_inv ::
  "folder list \<Rightarrow> uuid \<Rightarrow> nat \<Rightarrow> (uuid \<times> nat) list \<Rightarrow> uuid list \<Rightarrow> nat \<Rightarrow> bool" where
  "walk_inv fs source base pending seen h \<longleftrightarrow>
     (\<forall>(c, l) \<in> set pending. at_level fs (Some c) (base + l)
        \<and> (c = source \<or> (\<exists>f \<in> set fs. fo_id f = c \<and> (\<exists>p \<in> set seen. fo_parent f = Some p))))
     \<and> (\<forall>c \<in> set seen. (\<exists>l \<le> h. at_level fs (Some c) (base + l))
        \<and> (c = source \<or> (\<exists>f \<in> set fs. fo_id f = c \<and> (\<exists>p \<in> set seen. fo_parent f = Some p)))
        \<and> (\<forall>d \<in> set (children_of fs c). d \<in> set seen \<or> d \<in> fst ` set pending))
     \<and> (source \<in> set seen \<or> source \<in> fst ` set pending)"

lemma child_level:
  assumes "keyed fo_id fs" "d \<in> set (children_of fs c)" "at_level fs (Some c) n"
  shows "at_level fs (Some d) (Suc n)"
proof -
  from assms(2) obtain f where "f \<in> set fs" "fo_id f = d" "fo_parent f = Some c"
    by (auto simp: children_of_def)
  with assms show ?thesis by (intro at_level.below [of d fs f]) (auto simp: row_by_Some_iff)
qed

lemma walk_inv_step:
  assumes keyed: "keyed fo_id fs" and inv: "walk_inv fs source base ((c, l) # pending) seen h"
  shows "walk_inv fs source base (rev (map (\<lambda>d. (d, l + 1)) (children_of fs c)) @ pending) (c # seen) (max h l)"
proof -
  from inv have c: "at_level fs (Some c) (base + l)"
    "c = source \<or> (\<exists>f \<in> set fs. fo_id f = c \<and> (\<exists>p \<in> set seen. fo_parent f = Some p))"
    by (auto simp: walk_inv_def)
  have kids: "at_level fs (Some d) (base + (l + 1))" if "d \<in> set (children_of fs c)" for d
    using child_level [OF keyed that c(1)] by simp
  have kid_row: "\<exists>f \<in> set fs. fo_id f = d \<and> (\<exists>p \<in> set (c # seen). fo_parent f = Some p)"
    if "d \<in> set (children_of fs c)" for d
    using that by (auto simp: children_of_def)
  have deep: "\<exists>l' \<le> max h l. at_level fs (Some x) (base + l')" if "x \<in> set (c # seen)" for x
  proof (cases "x = c")
    case True
    with c(1) show ?thesis by (intro exI [of _ l]) simp
  next
    case False
    with that inv obtain l' where "l' \<le> h" "at_level fs (Some x) (base + l')"
      by (auto simp: walk_inv_def)
    then show ?thesis by (intro exI [of _ l']) simp
  qed
  show ?thesis
    unfolding walk_inv_def
  proof (intro conjI ballI)
    fix x
    assume x: "x \<in> set (rev (map (\<lambda>d. (d, l + 1)) (children_of fs c)) @ pending)"
    show "case x of (c', l') \<Rightarrow> at_level fs (Some c') (base + l')
        \<and> (c' = source \<or> (\<exists>f \<in> set fs. fo_id f = c' \<and> (\<exists>p \<in> set (c # seen). fo_parent f = Some p)))"
    proof (cases "x \<in> set pending")
      case True
      with inv have "case x of (c', l') \<Rightarrow> at_level fs (Some c') (base + l')
          \<and> (c' = source \<or> (\<exists>f \<in> set fs. fo_id f = c' \<and> (\<exists>p \<in> set seen. fo_parent f = Some p)))"
        unfolding walk_inv_def by (meson list.set_intros(2))
      then show ?thesis by (cases x) auto
    next
      case False
      with x obtain d where "d \<in> set (children_of fs c)" "x = (d, l + 1)" by auto
      with kids kid_row show ?thesis by auto
    qed
  next
    fix x
    assume x: "x \<in> set (c # seen)"
    show "\<exists>l' \<le> max h l. at_level fs (Some x) (base + l')" by (rule deep [OF x])
    show "x = source \<or> (\<exists>f \<in> set fs. fo_id f = x \<and> (\<exists>p \<in> set (c # seen). fo_parent f = Some p))"
    proof -
      have "x = source \<or> (\<exists>f \<in> set fs. fo_id f = x \<and> (\<exists>p \<in> set seen. fo_parent f = Some p))"
      proof (cases "x = c")
        case False
        with x have "x \<in> set seen" by simp
        with inv show ?thesis unfolding walk_inv_def by blast
      qed (use c(2) in simp)
      then show ?thesis by auto
    qed
    fix d
    assume d: "d \<in> set (children_of fs x)"
    show "d \<in> set (c # seen) \<or> d \<in> fst ` set (rev (map (\<lambda>d. (d, l + 1)) (children_of fs c)) @ pending)"
    proof (cases "x = c")
      case True
      with d show ?thesis by (simp add: image_Un image_image)
    next
      case False
      with x have "x \<in> set seen" by simp
      with inv d have "d \<in> set seen \<or> d \<in> fst ` set ((c, l) # pending)" unfolding walk_inv_def by blast
      then show ?thesis by auto
    qed
  next
    show "source \<in> set (c # seen) \<or> source \<in> fst ` set (rev (map (\<lambda>d. (d, l + 1)) (children_of fs c)) @ pending)"
      using inv by (auto simp: walk_inv_def)
  qed
qed

lemma subtree_walk_inv:
  "subtree_walk fs pending seen h = Inr (seen', h') \<Longrightarrow> keyed fo_id fs \<Longrightarrow>
     walk_inv fs source base pending seen h \<Longrightarrow> walk_inv fs source base [] seen' h'"
proof (induction fs pending seen h rule: subtree_walk.induct)
  case (2 fs c l pending seen h)
  from 2(2) have "c \<notin> set seen" by (auto split: if_splits)
  with 2 walk_inv_step [OF 2(3,4)] show ?case by simp
qed simp

lemma subtree_walk_source:
  assumes "keyed fo_id fs" "at_level fs (Some source) (Suc base)"
    and "subtree_walk fs [(source, 1)] [] 0 = Inr (seen, h)"
  shows "source \<in> set seen"
    and "\<And>c. c \<in> set seen \<Longrightarrow> \<exists>l \<le> h. at_level fs (Some c) (base + l)"
    and "\<And>c. c \<in> set seen \<Longrightarrow> c \<noteq> source \<Longrightarrow>
      \<exists>f \<in> set fs. fo_id f = c \<and> (\<exists>p \<in> set seen. fo_parent f = Some p)"
    and "\<And>f p. f \<in> set fs \<Longrightarrow> fo_parent f = Some p \<Longrightarrow> p \<in> set seen \<Longrightarrow> fo_id f \<in> set seen"
proof -
  have "walk_inv fs source base [(source, 1)] [] 0" using assms(2) by (simp add: walk_inv_def)
  with assms(3,1) have inv: "walk_inv fs source base [] seen h" by (rule subtree_walk_inv)
  then show "source \<in> set seen"
    "\<And>c. c \<in> set seen \<Longrightarrow> \<exists>l \<le> h. at_level fs (Some c) (base + l)"
    "\<And>c. c \<in> set seen \<Longrightarrow> c \<noteq> source \<Longrightarrow>
      \<exists>f \<in> set fs. fo_id f = c \<and> (\<exists>p \<in> set seen. fo_parent f = Some p)"
    by (auto simp: walk_inv_def)
  show "fo_id f \<in> set seen" if "f \<in> set fs" "fo_parent f = Some p" "p \<in> set seen" for f p
  proof -
    from that(1,2) have "fo_id f \<in> set (children_of fs p)" by (auto simp: children_of_def)
    with inv that(3) show ?thesis by (auto simp: walk_inv_def)
  qed
qed


section \<open>An accepted move keeps the hierarchy\<close>

text \<open>Folder ids are unique and every folder's chain of parents ends at the root in time.\<close>

definition hierarchy_ok :: "folder list \<Rightarrow> nat \<Rightarrow> bool" where
  "hierarchy_ok fs max_depth \<longleftrightarrow>
     keyed fo_id fs \<and> (\<forall>f \<in> set fs. \<exists>n \<le> max_depth. folder_depth fs (Some (fo_id f)) = Inr n)"

text \<open>The row the database update leaves: the new parent and the next revision.\<close>

definition moved_folder :: "folder \<Rightarrow> uuid option \<Rightarrow> folder" where
  "moved_folder f destination = f\<lparr>fo_parent := destination, fo_revision := fo_revision f + 1\<rparr>"

definition move_in :: "folder list \<Rightarrow> folder \<Rightarrow> uuid option \<Rightarrow> folder list" where
  "move_in fs f destination = put_row fo_id (moved_folder f destination) fs"

lemma moved_folder_sel [simp]:
  "fo_id (moved_folder f d) = fo_id f" "fo_parent (moved_folder f d) = d"
  "fo_name (moved_folder f d) = fo_name f" "fo_workspace (moved_folder f d) = fo_workspace f"
  "fo_revision (moved_folder f d) = fo_revision f + 1"
  by (simp_all add: moved_folder_def)

lemma row_by_move_in:
  assumes "row_by fo_id (fo_id f) fs = Some f"
  shows "row_by fo_id i (move_in fs f d) = (if i = fo_id f then Some (moved_folder f d) else row_by fo_id i fs)"
  using assms by (simp add: move_in_def row_by_put_row)

lemma keyed_move_in [simp]: "keyed fo_id (move_in fs f d) = keyed fo_id fs"
  by (simp add: move_in_def)

lemma validate_move_Inr:
  assumes "validate_move fs max_depth source destination = Inr sub"
  obtains n dd h where "at_level fs (Some source) (Suc n)" "at_level fs destination dd"
    "subtree_walk fs [(source, 1)] [] 0 = Inr (sub, h)" "\<And>d. destination = Some d \<Longrightarrow> d \<notin> set sub"
    "dd + h \<le> max_depth"
proof -
  from assms obtain m dd h where m: "folder_depth fs (Some source) = Inr m" and dd: "folder_depth fs destination = Inr dd"
    and w: "subtree_walk fs [(source, 1)] [] 0 = Inr (sub, h)"
    and c: "\<not> (case destination of None \<Rightarrow> False | Some d \<Rightarrow> d \<in> set sub)" and deep: "check_depth max_depth (dd + h) = Inr ()"
    by (auto simp: validate_move_def split: if_splits prod.splits)
  from m obtain n where "at_level fs (Some source) (Suc n)"
    unfolding folder_depth_iff by (auto elim: at_level_SomeE)
  with dd w c deep that show thesis
    by (auto simp: folder_depth_iff check_depth_def split: if_splits option.splits)
qed

lemma level_outside:
  assumes f: "row_by fo_id (fo_id f) fs = Some f" "keyed fo_id fs"
    and src: "fo_id f \<in> set sub"
    and closed: "\<And>g p. g \<in> set fs \<Longrightarrow> fo_parent g = Some p \<Longrightarrow> p \<in> set sub \<Longrightarrow> fo_id g \<in> set sub"
  shows "at_level fs x n \<Longrightarrow> (\<And>i. x = Some i \<Longrightarrow> i \<notin> set sub) \<Longrightarrow> at_level (move_in fs f d) x n"
proof (induction rule: at_level.induct)
  case (below i g n)
  have i: "i \<notin> set sub" using below.prems by simp
  with src have "row_by fo_id i (move_in fs f d) = Some g"
    using below.hyps(1) by (auto simp: row_by_move_in [OF f(1)])
  moreover have "at_level (move_in fs f d) (fo_parent g) n"
  proof (rule below.IH)
    fix p
    assume p: "fo_parent g = Some p"
    from below.hyps(1) have "g \<in> set fs" "fo_id g = i" by (auto dest: row_by_SomeD)
    with closed [OF _ p] i show "p \<notin> set sub" by blast
  qed
  ultimately show ?case by (rule at_level.below)
qed (rule at_level.root)

lemma level_inside:
  assumes f: "row_by fo_id (fo_id f) fs = Some f" "keyed fo_id fs"
    and base: "at_level fs (Some (fo_id f)) (Suc base)"
    and up: "\<And>c. c \<in> set sub \<Longrightarrow> c \<noteq> fo_id f \<Longrightarrow> \<exists>g \<in> set fs. fo_id g = c \<and> (\<exists>p \<in> set sub. fo_parent g = Some p)"
    and deep: "\<And>c. c \<in> set sub \<Longrightarrow> \<exists>l. at_level fs (Some c) (base + l)"
    and dd: "at_level (move_in fs f d) d dd"
  shows "at_level fs x n \<Longrightarrow> x = Some c \<Longrightarrow> c \<in> set sub \<Longrightarrow> n = base + l \<Longrightarrow>
    at_level (move_in fs f d) (Some c) (dd + l)"
proof (induction arbitrary: c l rule: at_level.induct)
  case (below i g n)
  then have i: "i = c" by simp
  show ?case
  proof (cases "c = fo_id f")
    case True
    have "at_level fs (Some i) (Suc n)" using below.hyps by (rule at_level.below)
    with base True i have "Suc n = Suc base" by (blast dest: at_level_unique)
    with below.prems(3) have "l = 1" by simp
    moreover have "at_level (move_in fs f d) (Some c) (Suc dd)"
      by (rule at_level.below [of _ _ "moved_folder f d"]) (simp_all add: row_by_move_in [OF f(1)] True dd)
    ultimately show ?thesis by simp
  next
    case False
    from up [OF below.prems(2) False] obtain g' p where g': "g' \<in> set fs" "fo_id g' = c" "p \<in> set sub"
      "fo_parent g' = Some p" by blast
    with f(2) below.hyps(1) i have "g' = g" by (simp add: row_by_Some_iff keyed_def distinct_map inj_on_def)
    have plev: "at_level fs (Some p) n" using below.hyps(2) g'(4) \<open>g' = g\<close> by simp
    moreover from deep [OF g'(3)] obtain k where "at_level fs (Some p) (base + k)" by blast
    ultimately have n: "n = base + k" by (rule at_level_unique)
    with below.prems(3) have k: "l = Suc k" by simp
    with n below.IH [OF _ g'(3)] g'(4) \<open>g' = g\<close> have "at_level (move_in fs f d) (Some p) (dd + k)" by simp
    moreover have "row_by fo_id c (move_in fs f d) = Some g"
      using below.hyps(1) i False by (simp add: row_by_move_in [OF f(1)])
    ultimately show ?thesis
      using g'(4) \<open>g' = g\<close> k by (auto intro: at_level.below)
  qed
qed simp


lemma accepted_move_levels:
  assumes ok: "hierarchy_ok fs max_depth" and f: "f \<in> set fs"
    and mv: "validate_move fs max_depth (fo_id f) d = Inr sub"
  shows "hierarchy_ok (move_in fs f d) max_depth"
proof -
  from ok have keyed: "keyed fo_id fs" by (simp add: hierarchy_ok_def)
  with f have row: "row_by fo_id (fo_id f) fs = Some f" by (simp add: row_by_Some_iff)
  from mv obtain base dd h where base: "at_level fs (Some (fo_id f)) (Suc base)" and dd: "at_level fs d dd"
    and walk: "subtree_walk fs [(fo_id f, 1)] [] 0 = Inr (sub, h)" and out: "\<And>x. d = Some x \<Longrightarrow> x \<notin> set sub"
    and deep: "dd + h \<le> max_depth"
    using validate_move_Inr [of fs max_depth "fo_id f" d sub] by blast
  note sub = subtree_walk_source [OF keyed base walk]
  have outside: "at_level (move_in fs f d) x n" if "at_level fs x n" "\<And>i. x = Some i \<Longrightarrow> i \<notin> set sub" for x n
    by (rule level_outside [OF row keyed sub(1) sub(4) that])
  have dd': "at_level (move_in fs f d) d dd" by (rule outside [OF dd out])
  have "\<exists>n \<le> max_depth. at_level (move_in fs f d) (Some (fo_id g)) n" if "g \<in> set (move_in fs f d)" for g
  proof -
    from that have "fo_id g \<in> fo_id ` set fs"
      by (metis image_eqI image_set map_key_put_row move_in_def)
    then obtain g0 where g0: "g0 \<in> set fs" "fo_id g0 = fo_id g" by auto
    with ok obtain n where n: "n \<le> max_depth" "at_level fs (Some (fo_id g)) n"
      by (auto simp: hierarchy_ok_def folder_depth_iff)
    show ?thesis
    proof (cases "fo_id g \<in> set sub")
      case False
      with outside [OF n(2)] n(1) show ?thesis by auto
    next
      case True
      from sub(2) [OF True] obtain l where l: "l \<le> h" "at_level fs (Some (fo_id g)) (base + l)" by blast
      have some_level: "\<exists>l. at_level fs (Some c) (base + l)" if "c \<in> set sub" for c
        using sub(2) [OF that] by blast
      have "at_level (move_in fs f d) (Some (fo_id g)) (dd + l)"
        by (rule level_inside [OF row keyed base sub(3) some_level dd' l(2) refl True refl])
      with l(1) deep show ?thesis by (intro exI [of _ "dd + l"]) simp
    qed
  qed
  with keyed show ?thesis by (auto simp: hierarchy_ok_def folder_depth_iff)
qed

section \<open>A well-formed hierarchy is never reported as broken\<close>

definition walk_fresh :: "folder list \<Rightarrow> uuid \<Rightarrow> (uuid \<times> nat) list \<Rightarrow> uuid list \<Rightarrow> bool" where
  "walk_fresh fs source pending seen \<longleftrightarrow>
     distinct (map fst pending) \<and> fst ` set pending \<inter> set seen = {}"

lemma no_child_above:
  assumes "keyed fo_id fs" "at_level fs (Some source) (Suc base)" "at_level fs (Some c) (base + l)"
    "source \<in> set (children_of fs c)" "0 < l"
  shows False
  using child_level [OF assms(1,4,3)] assms(2,5) at_level_unique by fastforce

lemma subtree_walk_total:
  "keyed fo_id fs \<Longrightarrow> walk_inv fs source base pending seen h \<Longrightarrow> at_level fs (Some source) (Suc base)
    \<Longrightarrow> (\<forall>(c, l) \<in> set pending. 0 < l) \<Longrightarrow> walk_fresh fs source pending seen
    \<Longrightarrow> \<exists>x. subtree_walk fs pending seen h = Inr x"
proof (induction fs pending seen h rule: subtree_walk.induct)
  case (2 fs c l pending seen h)
  let ?kids = "children_of fs c"
  let ?p' = "rev (map (\<lambda>d. (d, l + 1)) ?kids) @ pending"
  from 2(6) have c: "c \<notin> set seen" "c \<notin> fst ` set pending" by (auto simp: walk_fresh_def)
  have old: "\<exists>f \<in> set fs. fo_id f = x \<and> (\<exists>p \<in> set seen. fo_parent f = Some p)"
    if "x \<in> set seen \<or> x \<in> insert c (fst ` set pending)" "x \<noteq> source" for x
    using that 2(3) unfolding walk_inv_def by force
  have kid: "d \<notin> set seen \<and> d \<notin> insert c (fst ` set pending)" if d: "d \<in> set ?kids" for d
  proof (rule ccontr)
    assume "\<not> (d \<notin> set seen \<and> d \<notin> insert c (fst ` set pending))"
    then have vis: "d \<in> set seen \<or> d \<in> insert c (fst ` set pending)" by blast
    from 2(3) have lev: "at_level fs (Some c) (base + l)" by (auto simp: walk_inv_def)
    from 2(5) have "0 < l" by auto
    with no_child_above [OF 2(2,4) lev] d have "d \<noteq> source" by blast
    from old [OF vis this] obtain f p where f: "f \<in> set fs" "fo_id f = d" "p \<in> set seen" "fo_parent f = Some p"
      by blast
    from d obtain g where "g \<in> set fs" "fo_id g = d" "fo_parent g = Some c" by (auto simp: children_of_def)
    with f 2(2) have "p = c" by (auto simp: keyed_def distinct_map inj_on_def)
    with f(3) c(1) show False by simp
  qed
  have "distinct ?kids"
    using 2(2) by (simp add: children_of_def keyed_def distinct_map_filter)
  moreover have fsts: "map fst ?p' = rev ?kids @ map fst pending" by (simp add: rev_map comp_def)
  have "fst ` set ?p' = set ?kids \<union> fst ` set pending"
    by (metis fsts set_append set_map set_rev)
  moreover have "c \<notin> set ?kids" using kid by blast
  ultimately have "walk_fresh fs source ?p' (c # seen)"
    unfolding walk_fresh_def fsts using kid 2(6) c by (auto simp: walk_fresh_def)
  moreover have "\<forall>(x, k) \<in> set ?p'. 0 < k" using 2(5) by auto
  ultimately have "\<exists>x. subtree_walk fs ?p' (c # seen) (max h l) = Inr x"
    using 2(1) [OF c(1) 2(2) walk_inv_step [OF 2(2,3)] 2(4)] by blast
  with c(1) show ?case by simp
qed simp

lemma validate_move_cases:
  assumes ok: "hierarchy_ok fs max_depth" and f: "f \<in> set fs"
    and d: "case d of None \<Rightarrow> True | Some i \<Rightarrow> i \<in> fo_id ` set fs"
  shows "validate_move fs max_depth (fo_id f) d \<in> {Inl folder_cycle, Inl depth_exceeded} \<union> range Inr"
proof -
  from ok have keyed: "keyed fo_id fs" by (simp add: hierarchy_ok_def)
  have lev: "\<exists>n. folder_depth fs (Some (fo_id g)) = Inr n" if "g \<in> set fs" for g
    using ok that by (auto simp: hierarchy_ok_def)
  from lev [OF f] obtain m where m: "folder_depth fs (Some (fo_id f)) = Inr m" by blast
  then obtain base where base: "at_level fs (Some (fo_id f)) (Suc base)"
    unfolding folder_depth_iff by (auto elim: at_level_SomeE)
  have "\<exists>x. subtree_walk fs [(fo_id f, 1)] [] 0 = Inr x"
    by (rule subtree_walk_total [OF keyed _ base]) (use base in \<open>auto simp: walk_inv_def walk_fresh_def\<close>)
  then obtain seen h where w: "subtree_walk fs [(fo_id f, 1)] [] 0 = Inr (seen, h)" by auto
  obtain n where n: "folder_depth fs d = Inr n"
    using d lev by (cases d) (auto simp: folder_depth_iff)
  have "validate_move fs max_depth (fo_id f) d =
      (if case d of None \<Rightarrow> False | Some i \<Rightarrow> i \<in> set seen then Inl folder_cycle
       else if n + h > max_depth then Inl depth_exceeded else Inr seen)"
    unfolding validate_move_def m n w rbind_simps prod.case check_depth_def by simp
  then show ?thesis by (simp only: split: if_split) simp
qed


section \<open>Only the set of folders matters\<close>

lemma depth_from_cong:
  "(\<And>i. row_by fo_id i fs = row_by fo_id i gs) \<Longrightarrow> depth_from fs seen x = depth_from gs seen x"
proof (induction fs seen x rule: depth_from.induct)
  case (2 fs seen i)
  show ?case
  proof (cases "row_by fo_id i gs")
    case None
    with 2(2) show ?thesis by simp
  next
    case (Some f)
    with 2(1) [of f] 2(2) show ?thesis by simp
  qed
qed simp

lemma row_by_cong_set:
  "keyed key xs \<Longrightarrow> keyed key ys \<Longrightarrow> set xs = set ys \<Longrightarrow> row_by key k xs = row_by key k ys"
proof (cases "row_by key k ys")
  case None
  then show "set xs = set ys \<Longrightarrow> row_by key k xs = row_by key k ys"
    using row_by_None_iff [of key k xs] row_by_None_iff [of key k ys] by simp
next
  case (Some r)
  then show "keyed key xs \<Longrightarrow> keyed key ys \<Longrightarrow> set xs = set ys \<Longrightarrow> row_by key k xs = row_by key k ys"
    using row_by_Some_iff [of key xs k r] row_by_Some_iff [of key ys k r] by simp
qed

lemma hierarchy_ok_cong_set:
  assumes "hierarchy_ok xs m" "keyed fo_id ys" "set xs = set ys"
  shows "hierarchy_ok ys m"
proof -
  from assms(1) have "keyed fo_id xs" by (simp add: hierarchy_ok_def)
  with assms(2,3) have "folder_depth ys x = folder_depth xs x" for x
    unfolding folder_depth_def by (intro depth_from_cong) (metis row_by_cong_set)
  with assms show ?thesis by (simp add: hierarchy_ok_def)
qed

lemma folder_dict_id: "keyed fo_id fs \<Longrightarrow> folder_dict fs = fs"
proof -
  have "fold (\<lambda>f d. if row_by fo_id (fo_id f) d = None then d @ [f] else put_row fo_id f d) fs acc = acc @ fs"
    if "keyed fo_id (acc @ fs)" for acc
    using that
  proof (induction fs arbitrary: acc)
    case (Cons f fs)
    from Cons.prems have "row_by fo_id (fo_id f) acc = None"
      by (auto simp: keyed_def row_by_None_iff)
    with Cons.IH [of "acc @ [f]"] Cons.prems show ?case by simp
  qed simp
  then show "keyed fo_id fs \<Longrightarrow> folder_dict fs = fs" by (simp add: folder_dict_def)
qed

section \<open>A new folder\<close>

lemma at_level_snoc: "at_level fs x n \<Longrightarrow> at_level (fs @ [g]) x n"
proof (induction rule: at_level.induct)
  case (below i f n)
  then show ?case by (intro at_level.below [of i _ f]) (simp_all add: row_by_append)
qed (rule at_level.root)

lemma hierarchy_ok_create:
  assumes ok: "hierarchy_ok fs m" and create: "validate_create fs m (fo_parent g) = Inr ()"
    and fresh: "row_by fo_id (fo_id g) fs = None"
  shows "hierarchy_ok (fs @ [g]) m"
proof -
  from create obtain n where n: "at_level fs (fo_parent g) n" "Suc n \<le> m"
    by (auto simp: validate_create_def check_depth_def folder_depth_iff split: if_splits)
  have "at_level (fs @ [g]) (Some (fo_id g)) (Suc n)"
    by (rule at_level.below [of _ _ g]) (simp_all add: row_by_append fresh n(1) at_level_snoc)
  with n(2) have "\<exists>k \<le> m. at_level (fs @ [g]) (Some (fo_id g)) k" by blast
  moreover have "\<exists>k \<le> m. at_level (fs @ [g]) (Some (fo_id f)) k" if "f \<in> set fs" for f
    using ok that by (auto simp: hierarchy_ok_def folder_depth_iff intro: at_level_snoc)
  ultimately show ?thesis
    using ok fresh by (auto simp: hierarchy_ok_def folder_depth_iff keyed_snoc)
qed

lemma hierarchy_parent_in:
  assumes "hierarchy_ok fs m" "f \<in> set fs" "fo_parent f = Some p"
  shows "p \<in> fo_id ` set fs"
proof -
  from assms(1,2) obtain n where "at_level fs (Some (fo_id f)) n" and k: "keyed fo_id fs"
    by (auto simp: hierarchy_ok_def folder_depth_iff)
  moreover from k assms(2) have "row_by fo_id (fo_id f) fs = Some f" by (simp add: row_by_Some_iff)
  ultimately obtain j where "at_level fs (fo_parent f) j" by (auto elim!: at_level_SomeE)
  with assms(3) show ?thesis by (auto elim!: at_level_SomeE dest!: row_by_SomeD)
qed

end
