(* ===== verification/Asset_Library.thy ===== *)
theory Asset_Library
  imports Workspaces Folder_Hierarchy
begin

text \<open>
  The asset library (\<^verbatim>\<open>platform/assets/domain.py\<close>, \<^verbatim>\<open>repository.py\<close>, \<^verbatim>\<open>movement.py\<close>,
  \<^verbatim>\<open>service.py\<close> and the local object store): documents with their versions, folders, uploads
  and moves.  Fresh identifiers and the time are arguments.  An upload reads the tables twice,
  before and after the object is stored; the two readings are separate arguments, so that
  whatever happens in between is covered.
\<close>

section \<open>Data\<close>

datatype version_status = STORED | PROCESSING | READY | FAILED_VERSION

record asset_version =
  av_id :: uuid
  av_document :: uuid
  av_number :: int
  av_object_key :: pystr
  av_sha256 :: pystr
  av_media_type :: pystr
  av_size :: int
  av_status :: version_status

record document =
  do_id :: uuid
  do_workspace :: uuid
  do_folder :: "uuid option"
  do_name :: pystr
  do_active :: "uuid option"
  do_revision :: int

record library_db =
  lb_ws :: ws_db
  lb_folders :: "folder list"
  lb_inactive :: "uuid list"
  lb_documents :: "document list"
  lb_versions :: "asset_version list"

text \<open>
  \<open>lb_inactive\<close> lists the folders whose \<^verbatim>\<open>lifecycle\<close> is not \<^verbatim>\<open>active\<close>; the domain's \<open>folder\<close>
  does not carry it.  An object store maps keys to bytes.
\<close>

type_synonym object_store = "pystr \<rightharpoonup> nat list"

record stored_object =
  so_key :: pystr
  so_size :: int
  so_sha256 :: pystr

record library_env =
  le_sha256 :: "nat list \<Rightarrow> pystr"
  le_casefold :: "pystr \<Rightarrow> pystr"

section \<open>Names\<close>

text \<open>\<^verbatim>\<open>FOLDER_NAME_WHITESPACE_V1\<close>, the characters \<^verbatim>\<open>folder_name_key\<close> strips.\<close>

definition folder_name_whitespace :: "nat list" where
  "folder_name_whitespace =
     [9, 10, 11, 12, 13, 28, 29, 30, 31, 32, 133, 160, 5760, 8192, 8193, 8194, 8195, 8196,
      8197, 8198, 8199, 8200, 8201, 8202, 8232, 8233, 8239, 8287, 12288]"

definition folder_name_key :: "pystr \<Rightarrow> pystr" where
  "folder_name_key s =
     (let strip_front = dropWhile (\<lambda>c. c \<in> set folder_name_whitespace)
      in rev (strip_front (rev (strip_front s))))"

section \<open>The domain\<close>

definition new_version ::
  "document \<Rightarrow> asset_version list \<Rightarrow> stored_object \<Rightarrow> pystr \<Rightarrow> uuid \<Rightarrow> asset_version" where
  "new_version d versions stored media_type fresh =
     \<lparr>av_id = fresh, av_document = do_id d, av_number = fold max (map av_number versions) 0 + 1,
      av_object_key = so_key stored, av_sha256 = so_sha256 stored, av_media_type = media_type,
      av_size = so_size stored, av_status = STORED\<rparr>"

section \<open>The repository\<close>

definition has_workspace_access :: "library_db \<Rightarrow> int \<Rightarrow> uuid \<Rightarrow> uuid \<Rightarrow> bool" where
  "has_workspace_access db now user wid \<longleftrightarrow>
     list_ex (\<lambda>m. mb_user m = user \<and> mb_workspace m = wid
       \<and> list_ex (\<lambda>w. wr_id w = mb_workspace m \<and> workspace_read_allowed (lb_ws db) now user w
            \<and> workspace_is_active now w \<and> workspace_personal_owner_matches user w)
           (wd_workspaces (lb_ws db))) (wd_members (lb_ws db))"

definition list_folders :: "library_db \<Rightarrow> int \<Rightarrow> uuid \<Rightarrow> uuid \<Rightarrow> folder list" where
  "list_folders db now user wid =
     (if \<not> has_workspace_access db now user wid then []
      else sort_key fo_name (filter (\<lambda>f. fo_workspace f = wid) (lb_folders db)))"

definition find_document_for_user :: "library_db \<Rightarrow> int \<Rightarrow> uuid \<Rightarrow> uuid \<Rightarrow> document option" where
  "find_document_for_user db now user did =
     (case row_by do_id did (lb_documents db) of
        None \<Rightarrow> None
      | Some d \<Rightarrow> if has_workspace_access db now user (do_workspace d) then Some d else None)"

definition versions_of :: "library_db \<Rightarrow> uuid \<Rightarrow> asset_version list" where
  "versions_of db did = sort_key av_number (filter (\<lambda>v. av_document v = did) (lb_versions db))"

text \<open>A document with its versions, as the repository hands it out.\<close>

definition list_documents :: "library_db \<Rightarrow> int \<Rightarrow> uuid \<Rightarrow> uuid \<Rightarrow> (document \<times> asset_version list) list" where
  "list_documents db now user wid =
     (if \<not> has_workspace_access db now user wid then []
      else map (\<lambda>d. (d, versions_of db (do_id d)))
             (sort_key do_name (filter (\<lambda>d. do_workspace d = wid) (lb_documents db))))"

definition find_version :: "library_db \<Rightarrow> uuid \<Rightarrow> asset_version option" where
  "find_version db i = row_by av_id i (lb_versions db)"

definition folder_belongs_to :: "library_db \<Rightarrow> uuid \<Rightarrow> uuid \<Rightarrow> bool" where
  "folder_belongs_to db fid wid \<longleftrightarrow>
     list_ex (\<lambda>f. fo_id f = fid \<and> fo_workspace f = wid) (lb_folders db)"

definition folder_name_exists :: "library_db \<Rightarrow> uuid \<Rightarrow> uuid option \<Rightarrow> pystr \<Rightarrow> bool" where
  "folder_name_exists db wid parent name \<longleftrightarrow>
     list_ex (\<lambda>f. fo_workspace f = wid \<and> fo_parent f = parent \<and> fo_id f \<notin> set (lb_inactive db)
       \<and> folder_name_key (fo_name f) = folder_name_key name) (lb_folders db)"

definition has_foreign_folder_children :: "library_db \<Rightarrow> uuid \<Rightarrow> uuid list \<Rightarrow> bool" where
  "has_foreign_folder_children db wid parents \<longleftrightarrow>
     list_ex (\<lambda>f. (case fo_parent f of None \<Rightarrow> False | Some p \<Rightarrow> p \<in> set parents)
       \<and> fo_workspace f \<noteq> wid) (lb_folders db)"

definition workspace_contains_sha256 :: "library_db \<Rightarrow> uuid \<Rightarrow> pystr \<Rightarrow> bool" where
  "workspace_contains_sha256 db wid digest \<longleftrightarrow>
     list_ex (\<lambda>v. av_sha256 v = digest
       \<and> list_ex (\<lambda>d. do_id d = av_document v \<and> do_workspace d = wid) (lb_documents db)) (lb_versions db)"

definition insert_version :: "library_db \<Rightarrow> asset_version \<Rightarrow> library_db res" where
  "insert_version db v =
     (if row_by av_id (av_id v) (lb_versions db) \<noteq> None
         \<or> row_by (\<lambda>v. (av_document v, av_number v)) (av_document v, av_number v) (lb_versions db) \<noteq> None
         \<or> row_by av_object_key (av_object_key v) (lb_versions db) \<noteq> None
         \<or> row_by do_id (av_document v) (lb_documents db) = None
      then Inl IntegrityError
      else Inr (db\<lparr>lb_versions := lb_versions db @ [v]\<rparr>))"

definition save_document :: "library_db \<Rightarrow> document \<Rightarrow> asset_version list \<Rightarrow> library_db res" where
  "save_document db d versions =
     (if row_by do_id (do_id d) (lb_documents db) \<noteq> None then Inl IntegrityError
      else fold (\<lambda>v m. rbind m (\<lambda>x. insert_version x v)) versions
             (Inr (db\<lparr>lb_documents := lb_documents db @ [d]\<rparr>)))"

definition move_document_location ::
  "library_db \<Rightarrow> uuid \<Rightarrow> uuid \<Rightarrow> uuid option \<Rightarrow> int \<Rightarrow> library_db \<times> bool" where
  "move_document_location db wid did destination expected =
     (let hit = (\<lambda>d. do_id d = did \<and> do_workspace d = wid \<and> do_revision d = expected)
      in (db\<lparr>lb_documents := map (\<lambda>d. if hit d
              then d\<lparr>do_folder := destination, do_revision := expected + 1\<rparr> else d) (lb_documents db)\<rparr>,
          length (filter hit (lb_documents db)) = 1))"

definition move_folder_location ::
  "library_db \<Rightarrow> uuid \<Rightarrow> uuid \<Rightarrow> uuid option \<Rightarrow> int \<Rightarrow> library_db \<times> bool" where
  "move_folder_location db wid fid destination expected =
     (let hit = (\<lambda>f. fo_id f = fid \<and> fo_workspace f = wid \<and> fo_revision f = expected)
      in (db\<lparr>lb_folders := map (\<lambda>f. if hit f
              then f\<lparr>fo_parent := destination, fo_revision := expected + 1\<rparr> else f) (lb_folders db)\<rparr>,
          length (filter hit (lb_folders db)) = 1))"

definition add_folder :: "library_db \<Rightarrow> folder \<Rightarrow> (library_db \<times> folder) res" where
  "add_folder db f =
     (if row_by fo_id (fo_id f) (lb_folders db) \<noteq> None then Inl IntegrityError
      else Inr (db\<lparr>lb_folders := lb_folders db @ [f]\<rparr>, f))"

section \<open>Moving and creating folders\<close>

abbreviation asset_revision_conflict :: exn where
  "asset_revision_conflict \<equiv> AppError ''asset_revision_conflict'' 409"

abbreviation folder_exists :: exn where
  "folder_exists \<equiv> AppError ''folder_exists'' 409"

definition require_destination :: "library_db \<Rightarrow> uuid \<Rightarrow> uuid option \<Rightarrow> unit res" where
  "require_destination db wid destination =
     (case destination of
        None \<Rightarrow> Inr ()
      | Some d \<Rightarrow> if folder_belongs_to db d wid then Inr () else Inl resource_not_found)"

definition move_document ::
  "library_db \<Rightarrow> int \<Rightarrow> nat \<Rightarrow> uuid \<Rightarrow> uuid \<Rightarrow> uuid \<Rightarrow> uuid option \<Rightarrow> int \<Rightarrow> (library_db \<times> document \<times> bool) res" where
  "move_document db now max_depth user wid did destination expected =
     rbind (require_workspace_write (lb_ws db) now user wid) (\<lambda>_.
       case find_document_for_user db now user did of
         None \<Rightarrow> Inl resource_not_found
       | Some d \<Rightarrow>
           if do_workspace d \<noteq> wid then Inl resource_not_found
           else rbind (require_destination db wid destination) (\<lambda>_.
             if do_revision d \<noteq> expected then Inl asset_revision_conflict
             else let fs = folder_dict (list_folders db now user wid)
               in rbind (folder_depth fs (do_folder d)) (\<lambda>_.
                  rbind (folder_depth fs destination) (\<lambda>_.
                  if do_folder d = destination then Inr (db, d, False)
                  else case move_document_location db wid did destination expected of (db', ok) \<Rightarrow>
                    if \<not> ok then Inl asset_revision_conflict
                    else Inr (db', d\<lparr>do_folder := destination, do_revision := do_revision d + 1\<rparr>, True)))))"

definition move_folder ::
  "library_db \<Rightarrow> int \<Rightarrow> nat \<Rightarrow> uuid \<Rightarrow> uuid \<Rightarrow> uuid \<Rightarrow> uuid option \<Rightarrow> int \<Rightarrow> (library_db \<times> folder \<times> bool) res" where
  "move_folder db now max_depth user wid fid destination expected =
     rbind (require_workspace_write (lb_ws db) now user wid) (\<lambda>_.
       let folders = list_folders db now user wid
       in case List.find (\<lambda>f. fo_id f = fid) folders of
         None \<Rightarrow> Inl resource_not_found
       | Some source \<Rightarrow>
           rbind (require_destination db wid destination) (\<lambda>_.
           if fo_revision source \<noteq> expected then Inl asset_revision_conflict
           else rbind (validate_move (folder_dict folders) max_depth (fo_id source) destination) (\<lambda>subtree.
             if has_foreign_folder_children db wid subtree then Inl hierarchy_invalid
             else if fo_parent source = destination then Inr (db, source, False)
             else if list_ex (\<lambda>f. fo_id f \<noteq> fo_id source \<and> fo_parent f = destination
                       \<and> folder_name_key (fo_name f) = folder_name_key (fo_name source)) folders
             then Inl folder_exists
             else case move_folder_location db wid fid destination expected of (db', ok) \<Rightarrow>
               if \<not> ok then Inl asset_revision_conflict
               else Inr (db', source\<lparr>fo_parent := destination, fo_revision := fo_revision source + 1\<rparr>, True))))"

definition create_folder ::
  "library_db \<Rightarrow> int \<Rightarrow> nat \<Rightarrow> uuid \<Rightarrow> uuid \<Rightarrow> uuid option \<Rightarrow> pystr \<Rightarrow> uuid \<Rightarrow> (library_db \<times> folder) res" where
  "create_folder db now max_depth user wid parent name fresh =
     rbind (require_workspace_write (lb_ws db) now user wid) (\<lambda>_.
       let clean = folder_name_key name
       in if \<not> (1 \<le> length clean \<and> length clean \<le> 180) then Inl (AppError ''invalid_folder_name'' 422)
          else rbind (require_destination db wid parent) (\<lambda>_.
            rbind (validate_create (folder_dict (list_folders db now user wid)) max_depth parent) (\<lambda>_.
            if folder_name_exists db wid parent clean then Inl folder_exists
            else add_folder db \<lparr>fo_id = fresh, fo_workspace = wid, fo_parent = parent,
                   fo_name = folder_name_key clean, fo_revision = 1\<rparr>)))"

section \<open>Listing\<close>

definition service_list_documents ::
  "library_db \<Rightarrow> int \<Rightarrow> uuid \<Rightarrow> uuid \<Rightarrow> (document \<times> asset_version list) list res" where
  "service_list_documents db now user wid =
     (if \<not> has_workspace_access db now user wid then Inl resource_not_found
      else Inr (list_documents db now user wid))"

definition service_list_folders :: "library_db \<Rightarrow> int \<Rightarrow> uuid \<Rightarrow> uuid \<Rightarrow> folder list res" where
  "service_list_folders db now user wid =
     (if \<not> has_workspace_access db now user wid then Inl resource_not_found
      else Inr (list_folders db now user wid))"

definition service_list_versions :: "library_db \<Rightarrow> int \<Rightarrow> uuid \<Rightarrow> uuid \<Rightarrow> asset_version list res" where
  "service_list_versions db now user did =
     (case find_document_for_user db now user did of
        None \<Rightarrow> Inl resource_not_found
      | Some d \<Rightarrow> Inr (versions_of db (do_id d)))"

section \<open>Uploading\<close>

abbreviation file_too_large :: exn where
  "file_too_large \<equiv> AppError ''file_too_large'' 413"

text \<open>\<^verbatim>\<open>bounded_content\<close> over the chunks of the request, and the store that consumes it.\<close>

fun bounded_content :: "int \<Rightarrow> int \<Rightarrow> nat list list \<Rightarrow> nat list list res" where
  "bounded_content limit sofar [] = Inr []"
| "bounded_content limit sofar (c # cs) =
     (if sofar + int (length c) > limit then Inl file_too_large
      else rbind (bounded_content limit (sofar + int (length c)) cs) (\<lambda>r. Inr (c # r)))"

definition store_put ::
  "library_env \<Rightarrow> object_store \<Rightarrow> pystr \<Rightarrow> nat list list res \<Rightarrow> object_store \<times> stored_object res" where
  "store_put E st key source =
     (case source of
        Inl e \<Rightarrow> (st, Inl e)
      | Inr chunks \<Rightarrow> (st(key \<mapsto> concat chunks),
          Inr \<lparr>so_key = key, so_size = int (length (concat chunks)), so_sha256 = le_sha256 E (concat chunks)\<rparr>))"

definition store_delete :: "object_store \<Rightarrow> pystr \<Rightarrow> object_store" where
  "store_delete st key = st(key := None)"

text \<open>\<^verbatim>\<open>Path(filename).suffix\<close>: the last component that is neither empty nor a dot.\<close>

fun split_slash :: "pystr \<Rightarrow> pystr list" where
  "split_slash [] = [[]]"
| "split_slash (c # s) =
     (if c = 47 then [] # split_slash s
      else case split_slash s of [] \<Rightarrow> [[c]] | p # ps \<Rightarrow> (c # p) # ps)"

definition path_name :: "pystr \<Rightarrow> pystr" where
  "path_name s = (case filter (\<lambda>p. p \<noteq> [] \<and> p \<noteq> [46]) (split_slash s) of [] \<Rightarrow> [] | ps \<Rightarrow> last ps)"

definition path_suffix :: "pystr \<Rightarrow> pystr" where
  "path_suffix s =
     (let n = path_name s; tail = takeWhile (\<lambda>c. c \<noteq> 46) (rev n); i = length n - length tail - 1
      in if 46 \<in> set n \<and> 0 < i \<and> i < length n - 1 then drop i n else [])"

definition allowed_extensions :: "pystr list" where
  "allowed_extensions = map lit [''.pdf'', ''.docx'', ''.pptx'', ''.xlsx'', ''.txt'', ''.md'', ''.html'', ''.htm'']"

definition default_media_type :: "pystr \<Rightarrow> pystr" where
  "default_media_type m = (if m = [] then lit ''application/octet-stream'' else m)"

abbreviation duplicate_content :: exn where
  "duplicate_content \<equiv> AppError ''duplicate_document_content'' 409"

text \<open>What both uploads do once the object is stored; an exception deletes the object again.\<close>

definition upload_finish ::
  "library_db \<Rightarrow> int \<Rightarrow> uuid \<Rightarrow> uuid \<Rightarrow> object_store \<Rightarrow> stored_object \<Rightarrow> library_db res
    \<Rightarrow> (library_db \<times> object_store) \<times> unit res" where
  "upload_finish db now user wid st stored save =
     (case rbind (require_workspace_write (lb_ws db) now user wid) (\<lambda>_.
             if workspace_contains_sha256 db wid (so_sha256 stored) then Inl duplicate_content else save) of
        Inl e \<Rightarrow> ((db, store_delete st (so_key stored)), Inl e)
      | Inr db' \<Rightarrow> ((db', st), Inr ()))"

definition upload ::
  "library_env \<Rightarrow> int \<Rightarrow> int \<Rightarrow> uuid \<Rightarrow> uuid \<Rightarrow> uuid option \<Rightarrow> pystr \<Rightarrow> pystr \<Rightarrow> nat list list
    \<Rightarrow> uuid \<Rightarrow> uuid \<Rightarrow> pystr \<Rightarrow> library_db \<Rightarrow> library_db \<times> object_store \<Rightarrow> (library_db \<times> object_store) \<times> unit res" where
  "upload E max_bytes now user wid folder filename media_type content fresh_document fresh_version key before later =
     (case rbind (require_workspace_write (lb_ws before) now user wid) (\<lambda>_.
           if (case folder of None \<Rightarrow> False | Some f \<Rightarrow> \<not> folder_belongs_to before f wid) then Inl resource_not_found
           else if le_casefold E (path_suffix filename) \<notin> set allowed_extensions
           then Inl (AppError ''unsupported_document'' 422) else Inr ()) of
        Inl e \<Rightarrow> (later, Inl e)
      | Inr _ \<Rightarrow>
          (case later of (db, st) \<Rightarrow>
             (case store_put E st key (bounded_content max_bytes 0 content) of
                (st', Inl e) \<Rightarrow> ((db, st'), Inl e)
              | (st', Inr stored) \<Rightarrow>
                  let d = \<lparr>do_id = fresh_document, do_workspace = wid, do_folder = folder,
                        do_name = strip filename, do_active = None, do_revision = 1\<rparr>
                  in upload_finish db now user wid st' stored
                       (save_document db d [new_version d [] stored (default_media_type media_type) fresh_version]))))"

definition upload_version ::
  "library_env \<Rightarrow> int \<Rightarrow> int \<Rightarrow> uuid \<Rightarrow> uuid \<Rightarrow> pystr \<Rightarrow> pystr \<Rightarrow> nat list list
    \<Rightarrow> uuid \<Rightarrow> pystr \<Rightarrow> library_db \<Rightarrow> library_db \<times> object_store \<Rightarrow> (library_db \<times> object_store) \<times> unit res" where
  "upload_version E max_bytes now user did filename media_type content fresh_version key before later =
     (case find_document_for_user before now user did of
        None \<Rightarrow> (later, Inl resource_not_found)
      | Some d \<Rightarrow>
          (case rbind (require_workspace_write (lb_ws before) now user (do_workspace d)) (\<lambda>_.
                if le_casefold E (path_suffix filename) \<notin> set allowed_extensions
                then Inl (AppError ''unsupported_document'' 422) else Inr ()) of
             Inl e \<Rightarrow> (later, Inl e)
           | Inr _ \<Rightarrow>
               (case later of (db, st) \<Rightarrow>
                  (case store_put E st key (bounded_content max_bytes 0 content) of
                     (st', Inl e) \<Rightarrow> ((db, st'), Inl e)
                   | (st', Inr stored) \<Rightarrow>
                       upload_finish db now user (do_workspace d) st' stored
                         (insert_version db (new_version d (versions_of before did) stored
                            (default_media_type media_type) fresh_version))))))"

end
