(* ===== verification/Asset_Invariant.thy ===== *)
theory Asset_Invariant
  imports Asset_Library
begin

text \<open>
  What holds of the asset library in every state its operations lead to: the tables respect
  their keys, folders form a hierarchy of bounded depth inside each workspace, versions of a
  document are numbered from one without gaps, no workspace holds the same content twice, and
  the object store holds the bytes every version records.
\<close>

section \<open>The invariant\<close>

definition tables_ok :: "library_db \<Rightarrow> bool" where
  "tables_ok db \<longleftrightarrow>
     keyed fo_id (lb_folders db) \<and> keyed do_id (lb_documents db) \<and> keyed av_id (lb_versions db)
     \<and> keyed (\<lambda>v. (av_document v, av_number v)) (lb_versions db) \<and> keyed av_object_key (lb_versions db)
     \<and> av_document ` set (lb_versions db) \<subseteq> do_id ` set (lb_documents db)"

definition folders_in :: "library_db \<Rightarrow> uuid \<Rightarrow> folder list" where
  "folders_in db wid = filter (\<lambda>f. fo_workspace f = wid) (lb_folders db)"

definition folders_ok :: "nat \<Rightarrow> library_db \<Rightarrow> bool" where
  "folders_ok max_depth db \<longleftrightarrow>
     (\<forall>wid. hierarchy_ok (folders_in db wid) max_depth)
     \<and> (\<forall>d \<in> set (lb_documents db). case do_folder d of None \<Rightarrow> True
          | Some f \<Rightarrow> folder_belongs_to db f (do_workspace d))"

definition numbers_of :: "library_db \<Rightarrow> uuid \<Rightarrow> int set" where
  "numbers_of db did = av_number ` {v \<in> set (lb_versions db). av_document v = did}"

definition numbers_ok :: "library_db \<Rightarrow> bool" where
  "numbers_ok db \<longleftrightarrow> (\<forall>did. \<exists>n \<ge> 0. numbers_of db did = {1..n})"

definition in_workspace :: "library_db \<Rightarrow> uuid \<Rightarrow> asset_version \<Rightarrow> bool" where
  "in_workspace db wid v \<longleftrightarrow> (\<exists>d \<in> set (lb_documents db). do_id d = av_document v \<and> do_workspace d = wid)"

definition contents_ok :: "library_db \<Rightarrow> bool" where
  "contents_ok db \<longleftrightarrow>
     (\<forall>v \<in> set (lb_versions db). \<forall>v' \<in> set (lb_versions db). \<forall>wid.
        in_workspace db wid v \<longrightarrow> in_workspace db wid v' \<longrightarrow> av_sha256 v = av_sha256 v' \<longrightarrow> v = v')"

definition version_stored :: "library_env \<Rightarrow> int \<Rightarrow> object_store \<Rightarrow> asset_version \<Rightarrow> bool" where
  "version_stored E max_bytes st v \<longleftrightarrow>
     (\<exists>b. st (av_object_key v) = Some b \<and> av_sha256 v = le_sha256 E b
        \<and> av_size v = int (length b) \<and> int (length b) \<le> max_bytes)"

definition library_ok :: "library_env \<Rightarrow> int \<Rightarrow> nat \<Rightarrow> library_db \<times> object_store \<Rightarrow> bool" where
  "library_ok E max_bytes max_depth s \<longleftrightarrow>
     tables_ok (fst s) \<and> folders_ok max_depth (fst s) \<and> numbers_ok (fst s) \<and> contents_ok (fst s)
     \<and> (\<forall>v \<in> set (lb_versions (fst s)). version_stored E max_bytes (snd s) v)"

text \<open>
  Nothing a later reading can miss: what an earlier reading of the tables saw.  A version may
  have changed its status in between.
\<close>

definition version_slot :: "asset_version \<Rightarrow> uuid \<times> int" where
  "version_slot v = (av_document v, av_number v)"

lemma numbers_of_slot: "n \<in> numbers_of db did \<longleftrightarrow> (did, n) \<in> version_slot ` set (lb_versions db)"
  by (auto simp: numbers_of_def version_slot_def)

definition document_slot :: "document \<Rightarrow> uuid \<times> uuid" where
  "document_slot d = (do_id d, do_workspace d)"

definition library_extends :: "library_db \<Rightarrow> library_db \<Rightarrow> bool" where
  "library_extends old new \<longleftrightarrow>
     {(f, wid). folder_belongs_to old f wid} \<subseteq> {(f, wid). folder_belongs_to new f wid}
     \<and> document_slot ` set (lb_documents old) \<subseteq> document_slot ` set (lb_documents new)
     \<and> version_slot ` set (lb_versions old) \<subseteq> version_slot ` set (lb_versions new)"

lemma library_extends_refl: "library_extends db db"
  by (simp add: library_extends_def)

lemma library_extends_trans: "library_extends a b \<Longrightarrow> library_extends b c \<Longrightarrow> library_extends a c"
  unfolding library_extends_def by (elim conjE, intro conjI; erule subset_trans; assumption)

lemma library_extends_folder:
  "library_extends a b \<Longrightarrow> folder_belongs_to a f w \<Longrightarrow> folder_belongs_to b f w"
  unfolding library_extends_def by blast

lemma library_extends_document:
  assumes "library_extends a b" "d \<in> set (lb_documents a)"
  obtains d' where "d' \<in> set (lb_documents b)" "do_id d' = do_id d" "do_workspace d' = do_workspace d"
proof -
  from assms have "document_slot d \<in> document_slot ` set (lb_documents b)"
    unfolding library_extends_def by blast
  with that show thesis by (auto simp: document_slot_def)
qed

lemma library_extends_numbers:
  "library_extends a b \<Longrightarrow> numbers_of a did \<subseteq> numbers_of b did"
proof
  fix n
  assume ext: "library_extends a b" and "n \<in> numbers_of a did"
  then have "(did, n) \<in> version_slot ` set (lb_versions a)" by (simp only: numbers_of_slot)
  moreover from ext have "version_slot ` set (lb_versions a) \<subseteq> version_slot ` set (lb_versions b)"
    by (simp only: library_extends_def)
  ultimately show "n \<in> numbers_of b did" unfolding numbers_of_slot by (rule rev_subsetD)
qed

lemma folder_belongs_to_iff:
  "folder_belongs_to db f wid \<longleftrightarrow> (\<exists>g \<in> set (lb_folders db). fo_id g = f \<and> fo_workspace g = wid)"
  by (auto simp: folder_belongs_to_def list_ex_iff)

lemma contains_sha256_iff:
  "workspace_contains_sha256 db wid h \<longleftrightarrow> (\<exists>v \<in> set (lb_versions db). av_sha256 v = h \<and> in_workspace db wid v)"
  by (auto simp: workspace_contains_sha256_def list_ex_iff in_workspace_def)

lemma folder_belongs_to_workspaces [simp]:
  "folder_belongs_to (db\<lparr>lb_ws := w, lb_inactive := l\<rparr>) = folder_belongs_to db"
  by (intro ext) (simp add: folder_belongs_to_def)

text \<open>Membership tables may change under the library's feet.\<close>

lemma library_ok_workspaces [simp]:
  "library_ok E mb md (db\<lparr>lb_ws := w, lb_inactive := l\<rparr>, st) \<longleftrightarrow> library_ok E mb md (db, st)"
  by (simp add: library_ok_def tables_ok_def folders_ok_def folders_in_def numbers_ok_def numbers_of_def
      contents_ok_def in_workspace_def cong: option.case_cong)

lemma library_extends_workspaces: "library_extends db (db\<lparr>lb_ws := w, lb_inactive := l\<rparr>)"
  by (auto simp: library_extends_def)

section \<open>Folders\<close>

lemma keyed_filter: "keyed key xs \<Longrightarrow> keyed key (filter P xs)"
  by (simp add: keyed_def distinct_map_filter)

lemma keyed_sort_key: "keyed key (sort_key g xs) = keyed key xs"
  by (simp add: keyed_def distinct_map)

lemma list_folders_cases:
  obtains "list_folders db now user wid = []"
  | "list_folders db now user wid = sort_key fo_name (folders_in db wid)"
  by (cases "has_workspace_access db now user wid") (auto simp: list_folders_def folders_in_def)

lemma list_folders_hierarchy:
  assumes "tables_ok db" "folders_ok m db"
  shows "folder_dict (list_folders db now user wid) = list_folders db now user wid"
    and "list_folders db now user wid \<noteq> [] \<Longrightarrow> hierarchy_ok (list_folders db now user wid) m"
    and "list_folders db now user wid \<noteq> [] \<Longrightarrow> set (list_folders db now user wid) = set (folders_in db wid)"
proof -
  from assms(1) have k: "keyed fo_id (list_folders db now user wid)"
    by (cases rule: list_folders_cases [of db now user wid])
       (simp_all add: tables_ok_def folders_in_def keyed_sort_key keyed_filter)
  then show "folder_dict (list_folders db now user wid) = list_folders db now user wid"
    by (rule folder_dict_id)
  show s: "list_folders db now user wid \<noteq> [] \<Longrightarrow> set (list_folders db now user wid) = set (folders_in db wid)"
    by (cases rule: list_folders_cases [of db now user wid]) simp_all
  show "list_folders db now user wid \<noteq> [] \<Longrightarrow> hierarchy_ok (list_folders db now user wid) m"
    using assms(2) k s by (auto simp: folders_ok_def intro: hierarchy_ok_cong_set)
qed

lemma move_in_set:
  "set xs = set ys \<Longrightarrow> set (move_in xs f d) = set (move_in ys f d)"
  by (auto simp: move_in_def set_put_row)


lemma filter_one: "distinct xs \<Longrightarrow> x \<in> set xs \<Longrightarrow> length (filter (\<lambda>y. y = x) xs) = 1"
  by (induction xs) (auto simp: filter_empty_conv)

text \<open>One row of the folder table changes; every workspace keeps its hierarchy.\<close>

lemma move_folder_location_rows:
  assumes "tables_ok db" "f \<in> set (lb_folders db)" "fo_workspace f = wid" "fo_revision f = expected"
  shows "move_folder_location db wid (fo_id f) d expected = (db\<lparr>lb_folders := move_in (lb_folders db) f d\<rparr>, True)"
proof -
  let ?hit = "\<lambda>g. fo_id g = fo_id f \<and> fo_workspace g = wid \<and> fo_revision g = expected"
  from assms(1) have k: "keyed fo_id (lb_folders db)" by (simp add: tables_ok_def)
  have hit: "?hit g \<longleftrightarrow> g = f" if "g \<in> set (lb_folders db)" for g
    using that assms(2-4) k by (auto simp: keyed_def distinct_map dest: inj_onD)
  have same: "fo_id g = fo_id f \<longleftrightarrow> g = f" if "g \<in> set (lb_folders db)" for g
    using that assms(2) k by (auto simp: keyed_def distinct_map dest: inj_onD)
  have "map (\<lambda>g. if ?hit g then g\<lparr>fo_parent := d, fo_revision := expected + 1\<rparr> else g) (lb_folders db)
      = move_in (lb_folders db) f d"
    unfolding move_in_def put_row_def
    by (rule map_cong [OF refl]) (simp add: hit same assms(3,4) moved_folder_def)
  moreover have "filter ?hit (lb_folders db) = filter (\<lambda>g. g = f) (lb_folders db)"
    by (rule filter_cong [OF refl]) (rule hit)
  moreover have "length (filter (\<lambda>g. g = f) (lb_folders db)) = 1"
    using k assms(2) by (intro filter_one) (simp_all add: keyed_def distinct_map)
  ultimately show ?thesis by (simp add: move_folder_location_def)
qed

lemma folders_in_move:
  assumes "keyed fo_id (lb_folders db)" "f \<in> set (lb_folders db)"
  shows "folders_in (db\<lparr>lb_folders := move_in (lb_folders db) f d\<rparr>) w =
    (if w = fo_workspace f then move_in (folders_in db w) f d else folders_in db w)"
proof -
  have same: "fo_id g = fo_id f \<longleftrightarrow> g = f" if "g \<in> set (lb_folders db)" for g
    using that assms by (auto simp: keyed_def distinct_map dest: inj_onD)
  have "filter (\<lambda>g. fo_workspace g = w) (move_in gs f d) =
      (if w = fo_workspace f then move_in (filter (\<lambda>g. fo_workspace g = w) gs) f d
       else filter (\<lambda>g. fo_workspace g = w) gs)" if "set gs \<subseteq> set (lb_folders db)" for gs
    using that by (induction gs) (auto simp: move_in_def put_row_def same)
  then show ?thesis by (simp add: folders_in_def)
qed

lemma move_folder_Inr:
  assumes "move_folder db now m user wid fid d expected = Inr (db', f', changed)"
    and ok: "tables_ok db" "folders_ok m db"
  obtains f sub where "f \<in> set (folders_in db wid)" "fo_id f = fid" "fo_revision f = expected"
    "validate_move (list_folders db now user wid) m fid d = Inr sub"
    "list_folders db now user wid \<noteq> []"
    "require_destination db wid d = Inr ()"
    "(db' = db \<and> f' = f \<and> \<not> changed \<and> fo_parent f = d)
     \<or> (db' = db\<lparr>lb_folders := move_in (lb_folders db) f d\<rparr> \<and> f' = moved_folder f d \<and> changed
        \<and> (\<forall>g \<in> set (folders_in db wid). fo_id g \<noteq> fid \<longrightarrow> fo_parent g = d \<longrightarrow>
             folder_name_key (fo_name g) \<noteq> folder_name_key (fo_name f)))"
proof -
  let ?fs = "list_folders db now user wid"
  from assms(1) obtain f where f: "List.find (\<lambda>f. fo_id f = fid) ?fs = Some f"
    by (auto simp: move_folder_def Let_def split: option.splits)
  then have mem: "f \<in> set ?fs" "fo_id f = fid" by (auto simp: find_Some_iff)
  then have ne: "?fs \<noteq> []" by auto
  note s = list_folders_hierarchy(3) [OF ok ne]
  from assms(1) f obtain sub where sub: "require_destination db wid d = Inr ()" "fo_revision f = expected"
    "validate_move (folder_dict ?fs) m (fo_id f) d = Inr sub"
    and rest: "(if fo_parent f = d then Inr (db, f, False)
      else if list_ex (\<lambda>g. fo_id g \<noteq> fo_id f \<and> fo_parent g = d \<and> folder_name_key (fo_name g) = folder_name_key (fo_name f)) ?fs
      then Inl folder_exists
      else case move_folder_location db wid fid d expected of (db', ok) \<Rightarrow>
        if \<not> ok then Inl asset_revision_conflict
        else Inr (db', f\<lparr>fo_parent := d, fo_revision := fo_revision f + 1\<rparr>, True)) = Inr (db', f', changed)"
    by (auto simp: move_folder_def Let_def split: if_splits)
  from mem s have in_ws: "f \<in> set (folders_in db wid)" by simp
  then have "f \<in> set (lb_folders db)" "fo_workspace f = wid" by (auto simp: folders_in_def)
  note loc = move_folder_location_rows [OF ok(1) this sub(2), of d, unfolded mem(2)]
  have "(db' = db \<and> f' = f \<and> \<not> changed \<and> fo_parent f = d)
     \<or> (db' = db\<lparr>lb_folders := move_in (lb_folders db) f d\<rparr> \<and> f' = moved_folder f d \<and> changed
        \<and> (\<forall>g \<in> set (folders_in db wid). fo_id g \<noteq> fid \<longrightarrow> fo_parent g = d \<longrightarrow>
             folder_name_key (fo_name g) \<noteq> folder_name_key (fo_name f)))"
    using rest s mem(2) by (auto simp: loc moved_folder_def list_ex_iff split: if_splits)
  with in_ws mem(2) sub ne show thesis
    by (intro that) (simp_all add: list_folders_hierarchy(1) [OF ok])
qed

lemma move_folder_same:
  assumes "move_folder db now m user wid fid d expected = Inr (db', f', changed)"
    and "tables_ok db" "folders_ok m db"
  shows "lb_documents db' = lb_documents db" "lb_versions db' = lb_versions db"
  by (rule move_folder_Inr [OF assms]; auto)+

lemma move_folder_ok:
  assumes mv: "move_folder db now m user wid fid d expected = Inr (db', f', changed)"
    and ok: "tables_ok db" "folders_ok m db"
  shows "tables_ok db' \<and> folders_ok m db' \<and> library_extends db db'"
proof -
  from move_folder_Inr [OF assms] obtain f sub where f: "f \<in> set (folders_in db wid)" "fo_id f = fid"
    "validate_move (list_folders db now user wid) m fid d = Inr sub" "list_folders db now user wid \<noteq> []"
    and c: "db' = db \<or> db' = db\<lparr>lb_folders := move_in (lb_folders db) f d\<rparr>" by metis
  from ok(1) have k: "keyed fo_id (lb_folders db)" by (simp add: tables_ok_def)
  from f(1) have mem: "f \<in> set (lb_folders db)" "fo_workspace f = wid" by (auto simp: folders_in_def)
  let ?db = "db\<lparr>lb_folders := move_in (lb_folders db) f d\<rparr>"
  from f(4) list_folders_hierarchy [OF ok] have
    h: "hierarchy_ok (list_folders db now user wid) m" and
    s: "set (list_folders db now user wid) = set (folders_in db wid)" by blast+
  from accepted_move_levels [OF h, of f d sub] f s
  have "hierarchy_ok (move_in (list_folders db now user wid) f d) m" by simp
  then have "hierarchy_ok (move_in (folders_in db wid) f d) m"
    by (rule hierarchy_ok_cong_set) (simp_all add: folders_in_def keyed_filter k move_in_set [OF s, unfolded folders_in_def])
  then have hier: "hierarchy_ok (folders_in ?db w) m" for w
    using ok(2) by (simp add: folders_in_move [OF k mem(1)] mem(2) folders_ok_def)
  have belongs: "folder_belongs_to ?db g w \<longleftrightarrow> folder_belongs_to db g w" for g w
  proof -
    have "(\<exists>x \<in> set (move_in (lb_folders db) f d). fo_id x = g \<and> fo_workspace x = w)
        \<longleftrightarrow> (\<exists>x \<in> set (lb_folders db). fo_id x = g \<and> fo_workspace x = w)"
      using k mem(1) by (auto simp: move_in_def set_put_row keyed_def distinct_map dest: inj_onD)
    then show ?thesis by (simp add: folder_belongs_to_iff)
  qed
  have "tables_ok ?db" using ok(1) by (simp add: tables_ok_def)
  moreover have "folders_ok m ?db" using ok(2) hier by (simp add: folders_ok_def belongs cong: option.case_cong)
  moreover have "library_extends db ?db" by (auto simp: library_extends_def belongs)
  ultimately show ?thesis using c ok library_extends_refl by metis
qed


lemma create_folder_Inr:
  assumes "create_folder db now m user wid parent name fresh = Inr (db', g)"
  shows "g = \<lparr>fo_id = fresh, fo_workspace = wid, fo_parent = parent,
      fo_name = folder_name_key (folder_name_key name), fo_revision = 1\<rparr>"
    and "db' = db\<lparr>lb_folders := lb_folders db @ [g]\<rparr>"
    and "row_by fo_id fresh (lb_folders db) = None"
    and "validate_create (folder_dict (list_folders db now user wid)) m parent = Inr ()"
    and "\<not> folder_name_exists db wid parent (folder_name_key name)"
  using assms by (auto simp: create_folder_def add_folder_def Let_def split: if_splits)

lemma create_folder_ok:
  assumes c: "create_folder db now m user wid parent name fresh = Inr (db', g)"
    and ok: "tables_ok db" "folders_ok m db"
  shows "tables_ok db' \<and> folders_ok m db' \<and> library_extends db db'"
proof -
  note g = create_folder_Inr [OF c]
  let ?fs = "list_folders db now user wid"
  note l = list_folders_hierarchy [OF ok, of now user wid]
  have k: "keyed fo_id (folders_in db w)" for w
    using ok(1) by (simp add: tables_ok_def folders_in_def keyed_filter)
  have fresh: "row_by fo_id fresh (folders_in db w) = None" for w
    using g(3) by (auto simp: row_by_None_iff folders_in_def)
  have create: "validate_create (folders_in db wid) m parent = Inr ()"
  proof (cases "?fs = []")
    case False
    with l have "set ?fs = set (folders_in db wid)" "keyed fo_id ?fs" by (simp_all add: hierarchy_ok_def)
    with k have "folder_depth ?fs parent = folder_depth (folders_in db wid) parent"
      unfolding folder_depth_def by (intro depth_from_cong) (metis row_by_cong_set)
    with g(4) l(1) show ?thesis by (simp add: validate_create_def)
  next
    case True
    with g(4) have "parent = None" "1 \<le> m"
      by (auto simp: folder_dict_def validate_create_def folder_depth_def check_depth_def elim: option.exhaust
          split: if_splits) (cases parent; simp)+
    then show ?thesis by (simp add: validate_create_def folder_depth_def check_depth_def)
  qed
  have hier: "hierarchy_ok (folders_in db' w) m" for w
  proof (cases "w = wid")
    case True
    then have "folders_in db' w = folders_in db wid @ [g]" by (simp add: folders_in_def g(1,2))
    moreover have "hierarchy_ok (folders_in db wid @ [g]) m"
      by (rule hierarchy_ok_create) (use ok(2) create fresh in \<open>simp_all add: folders_ok_def g(1)\<close>)
    ultimately show ?thesis by simp
  next
    case False
    then have "folders_in db' w = folders_in db w" by (simp add: folders_in_def g(1,2))
    with ok(2) show ?thesis by (simp add: folders_ok_def)
  qed
  have more: "folder_belongs_to db f w \<Longrightarrow> folder_belongs_to db' f w" for f w
    by (auto simp: folder_belongs_to_iff g(2))
  have "tables_ok db'" using ok(1) g(1,3) by (simp add: tables_ok_def g(2) keyed_snoc)
  moreover have "folders_ok m db'"
    using ok(2) hier more by (simp add: folders_ok_def g(2) split: option.splits)
  moreover have "library_extends db db'" using more by (auto simp: library_extends_def g(2))
  ultimately show ?thesis by blast
qed

section \<open>Documents\<close>

lemma row_by_map_id:
  assumes "\<And>x. key (f x) = key x"
  shows "row_by key k (map f rows) = map_option f (row_by key k rows)"
  by (induction rows) (simp_all add: assms)

lemma relocated_documents_ok:
  assumes ok: "library_ok E mb md (db, st)"
    and sel: "\<And>d. do_id (upd d) = do_id d" "\<And>d. do_workspace (upd d) = do_workspace d"
    and dest: "\<And>d f. d \<in> set (lb_documents db) \<Longrightarrow> do_folder (upd d) = Some f \<Longrightarrow>
      folder_belongs_to db f (do_workspace d)"
  shows "library_ok E mb md (db\<lparr>lb_documents := map upd (lb_documents db)\<rparr>, st)"
    and "library_extends db (db\<lparr>lb_documents := map upd (lb_documents db)\<rparr>)"
proof -
  let ?db = "db\<lparr>lb_documents := map upd (lb_documents db)\<rparr>"
  have ws: "in_workspace ?db w v \<longleftrightarrow> in_workspace db w v" for w v
    by (simp add: in_workspace_def sel)
  have belongs: "folder_belongs_to ?db f w \<longleftrightarrow> folder_belongs_to db f w" for f w
    by (simp add: folder_belongs_to_def)
  have "tables_ok ?db" using ok by (simp add: library_ok_def tables_ok_def keyed_def comp_def sel image_image)
  moreover have "folders_ok md ?db"
    using ok dest by (auto simp: library_ok_def folders_ok_def folders_in_def belongs sel split: option.splits)
  moreover have "numbers_ok ?db" using ok by (simp add: library_ok_def numbers_ok_def numbers_of_def)
  moreover have "contents_ok ?db" using ok by (simp add: library_ok_def contents_ok_def ws)
  ultimately show "library_ok E mb md (?db, st)" using ok by (simp add: library_ok_def)
  show "library_extends db ?db" unfolding library_extends_def belongs by (simp add: document_slot_def image_image sel)
qed

lemma move_document_ok:
  assumes mv: "move_document db now m user wid did dest expected = Inr (db', d', changed)"
    and ok: "library_ok E mb md (db, st)"
  shows "library_ok E mb md (db', st) \<and> library_extends db db'"
proof -
  define upd :: "document \<Rightarrow> document" where "upd = (\<lambda>d. if do_id d = did \<and> do_workspace d = wid \<and> do_revision d = expected
    then d\<lparr>do_folder := dest, do_revision := expected + 1\<rparr> else d)"
  from mv have dest: "require_destination db wid dest = Inr ()"
    and c: "db' = db \<or> db' = db\<lparr>lb_documents := map upd (lb_documents db)\<rparr>"
    by (auto simp: move_document_def move_document_location_def upd_def Let_def split: if_splits option.splits)
  have sel: "do_id (upd d) = do_id d" "do_workspace (upd d) = do_workspace d" for d by (simp_all add: upd_def)
  have "folder_belongs_to db f (do_workspace d)" if "d \<in> set (lb_documents db)" "do_folder (upd d) = Some f" for d f
    using dest that ok
    by (auto simp: require_destination_def upd_def library_ok_def folders_ok_def split: if_splits option.splits)
  note relocated_documents_ok [OF ok sel this]
  with c ok library_extends_refl show ?thesis by metis
qed

section \<open>Uploads\<close>

text \<open>A stored version whose number follows the document's others.\<close>

lemma fold_max: "fold max xs (0::int) = Max (insert 0 (set xs))"
  using Max.set_eq_fold [of 0 xs] by simp

lemma next_number:
  assumes "numbers_of old did = {1..n}" "0 \<le> n"
  shows "av_number (new_version d (versions_of old did) s mt i) = n + 1"
proof -
  have "set (map av_number (versions_of old did)) = {1..n}"
    using assms(1) by (simp add: versions_of_def numbers_of_def)
  moreover from assms(2) have "insert 0 {1..n} = {0..n}" by auto
  moreover have "Max {0..n} = n" using assms(2) by (intro Max_eqI) auto
  ultimately show ?thesis by (simp add: new_version_def fold_max)
qed

lemma insert_version_Inr:
  "insert_version db v = Inr db' \<longleftrightarrow>
     db' = db\<lparr>lb_versions := lb_versions db @ [v]\<rparr> \<and> row_by av_id (av_id v) (lb_versions db) = None
     \<and> row_by (\<lambda>v. (av_document v, av_number v)) (av_document v, av_number v) (lb_versions db) = None
     \<and> row_by av_object_key (av_object_key v) (lb_versions db) = None
     \<and> row_by do_id (av_document v) (lb_documents db) \<noteq> None"
  by (auto simp: insert_version_def)

lemma insert_version_ok:
  assumes ins: "insert_version db v = Inr db'" and ok: "library_ok E mb md (db, st)"
    and num: "numbers_of db (av_document v) = {1..n}" "0 \<le> n" "av_number v = n + 1"
    and ws: "in_workspace db wid v" and new: "\<not> workspace_contains_sha256 db wid (av_sha256 v)"
    and st': "\<And>x. x \<in> set (lb_versions db) \<Longrightarrow> st' (av_object_key x) = st (av_object_key x)"
    and stored: "version_stored E mb st' v"
  shows "library_ok E mb md (db', st') \<and> library_extends db db'"
proof -
  note i = ins [unfolded insert_version_Inr]
  from i have db': "db' = db\<lparr>lb_versions := lb_versions db @ [v]\<rparr>" by simp
  have "tables_ok db'"
    using ok i by (auto simp: library_ok_def tables_ok_def keyed_snoc row_by_None_iff)
  moreover have "folders_ok md db'"
    using ok by (simp add: db' library_ok_def folders_ok_def folders_in_def folder_belongs_to_def cong: option.case_cong)
  moreover have "numbers_ok db'"
    unfolding numbers_ok_def
  proof
    fix did
    have nums: "numbers_of db' did = numbers_of db did \<union> (if av_document v = did then {av_number v} else {})"
      by (auto simp: numbers_of_def db')
    show "\<exists>n \<ge> 0. numbers_of db' did = {1..n}"
    proof (cases "did = av_document v")
      case True
      with nums num have "numbers_of db' did = {1..n + 1}" by auto
      with num(2) show ?thesis by (intro exI [of _ "n + 1"]) simp
    next
      case False
      with nums ok show ?thesis by (auto simp: library_ok_def numbers_ok_def)
    qed
  qed
  moreover have "contents_ok db'"
  proof -
    have iw: "in_workspace db' w x \<longleftrightarrow> in_workspace db w x" for w x by (simp add: db' in_workspace_def)
    have docs: "keyed do_id (lb_documents db)" using ok by (simp add: library_ok_def tables_ok_def)
    have only: "w = wid" if "in_workspace db w v" for w
      using that ws unfolding in_workspace_def by (metis option.inject row_by_Some_iff [OF docs])
    have fresh: "av_sha256 x \<noteq> av_sha256 v" if "x \<in> set (lb_versions db)" "in_workspace db wid x" for x
      using that new by (auto simp: contains_sha256_iff)
    show ?thesis
      unfolding contents_ok_def iw
    proof (intro ballI allI impI)
      fix x y w
      assume "x \<in> set (lb_versions db')" "y \<in> set (lb_versions db')" and w: "in_workspace db w x" "in_workspace db w y"
        and sha: "av_sha256 x = av_sha256 y"
      then consider "x \<in> set (lb_versions db)" "y \<in> set (lb_versions db)" | "x = v" "y = v"
        | "x = v" "y \<in> set (lb_versions db)" | "x \<in> set (lb_versions db)" "y = v" by (auto simp: db')
      then show "x = y"
      proof cases
        case 1
        with ok w sha show ?thesis unfolding library_ok_def contents_ok_def fst_conv by blast
      next
        case 3
        with fresh [of y] only w sha show ?thesis by simp
      next
        case 4
        with fresh [of x] only w sha show ?thesis by simp
      qed simp
    qed
  qed
  moreover have "\<forall>x \<in> set (lb_versions db'). version_stored E mb st' x"
    using ok stored st' by (auto simp: db' library_ok_def version_stored_def)
  moreover have "library_extends db db'"
    by (auto simp: library_extends_def db' folder_belongs_to_def)
  ultimately show ?thesis by (simp add: library_ok_def)
qed

lemma bounded_content_length:
  "bounded_content limit sofar cs = Inr ds \<Longrightarrow>
     ds = cs \<and> sofar + int (length (concat cs)) \<le> max limit sofar"
proof (induction cs arbitrary: ds sofar)
  case (Cons c cs)
  then obtain ds' where "bounded_content limit (sofar + int (length c)) cs = Inr ds'" "ds = c # ds'"
    "sofar + int (length c) \<le> limit" by (auto split: if_splits)
  with Cons.IH [of "sofar + int (length c)" ds'] show ?case by simp
qed simp

lemma bounded_content_refused:
  "sofar \<le> limit \<Longrightarrow> limit < sofar + int (length (concat cs)) \<Longrightarrow>
     bounded_content limit sofar cs = Inl file_too_large"
  by (induction cs arbitrary: sofar) auto

lemma bounded_content_error: "bounded_content limit sofar cs = Inl e \<Longrightarrow> e = file_too_large"
  by (induction cs arbitrary: sofar) (auto simp: rbind_eq_Inl split: if_splits)


lemma store_put_Inr:
  assumes "store_put E st key (bounded_content mb 0 content) = (st', Inr s)"
  shows "st' = st(key \<mapsto> concat content)" "so_key s = key"
    "so_size s = int (length (concat content))" "so_sha256 s = le_sha256 E (concat content)"
    "0 \<le> mb \<Longrightarrow> int (length (concat content)) \<le> mb"
  using assms bounded_content_length [of mb 0 content]
  by (auto simp: store_put_def split: sum.splits)

lemma store_put_Inl:
  assumes "store_put E st key (bounded_content mb 0 content) = (st', Inl e)"
  shows "st' = st" "e = file_too_large"
  using assms bounded_content_error [of mb 0 content] by (auto simp: store_put_def split: sum.splits)

lemma upload_finish_cases:
  assumes "upload_finish db now user wid st s save = (s', r)"
  obtains e where "r = Inl e" "s' = (db, store_delete st (so_key s))"
  | db' where "r = Inr ()" "s' = (db', st)" "save = Inr db'" "\<not> workspace_contains_sha256 db wid (so_sha256 s)"
    "require_workspace_write (lb_ws db) now user wid = Inr ()"
  using assms by (auto simp: upload_finish_def split: sum.splits if_splits)

lemma delete_put: "st key = None \<Longrightarrow> store_delete (st(key := b)) key = st"
  by (auto simp: store_delete_def)

text \<open>What a call of \<^verbatim>\<open>upload\<close> can have done.\<close>

lemma upload_cases:
  assumes up: "upload E mb now user wid folder name mt content fd fv key before (db, st) = (s', r)"
    and fresh: "st key = None"
  obtains (refused) e where "r = Inl e" "s' = (db, st)"
  | (stored) s d db' where "r = Inr ()" "s' = (db', st(key \<mapsto> concat content))"
    "case folder of None \<Rightarrow> True | Some f \<Rightarrow> folder_belongs_to before f wid"
    "s = \<lparr>so_key = key, so_size = int (length (concat content)), so_sha256 = le_sha256 E (concat content)\<rparr>"
    "d = \<lparr>do_id = fd, do_workspace = wid, do_folder = folder, do_name = strip name, do_active = None, do_revision = 1\<rparr>"
    "save_document db d [new_version d [] s (default_media_type mt) fv] = Inr db'"
    "\<not> workspace_contains_sha256 db wid (le_sha256 E (concat content))"
    "bounded_content mb 0 content = Inr content"
    "require_workspace_write (lb_ws db) now user wid = Inr ()"
proof (cases "rbind (require_workspace_write (lb_ws before) now user wid) (\<lambda>_.
    if (case folder of None \<Rightarrow> False | Some f \<Rightarrow> \<not> folder_belongs_to before f wid) then Inl resource_not_found
    else if le_casefold E (path_suffix name) \<notin> set allowed_extensions
    then Inl (AppError ''unsupported_document'' 422) else Inr ())")
  case (Inl e)
  with up have "r = Inl e" "s' = (db, st)" by (simp_all add: upload_def)
  then show thesis by (rule refused)
next
  case (Inr u)
  then have folder: "case folder of None \<Rightarrow> True | Some f \<Rightarrow> folder_belongs_to before f wid"
    by (auto split: if_splits option.splits)
  show thesis
  proof (cases "bounded_content mb 0 content")
    case (Inl e)
    with Inr up have "r = Inl e" "s' = (db, st)" by (simp_all add: upload_def store_put_def)
    then show thesis by (rule refused)
  next
    case b: (Inr ds)
    with bounded_content_length [OF b] have b: "bounded_content mb 0 content = Inr content" by simp
    define s where "s = \<lparr>so_key = key, so_size = int (length (concat content)), so_sha256 = le_sha256 E (concat content)\<rparr>"
    define d where "d = \<lparr>do_id = fd, do_workspace = wid, do_folder = folder, do_name = strip name,
      do_active = None, do_revision = 1\<rparr>"
    from Inr up b have "upload_finish db now user wid (st(key \<mapsto> concat content)) s
        (save_document db d [new_version d [] s (default_media_type mt) fv]) = (s', r)"
      by (simp add: upload_def store_put_def s_def d_def Let_def)
    then show thesis
    proof (cases rule: upload_finish_cases)
      case (1 e)
      then show thesis using refused fresh by (simp add: s_def delete_put)
    next
      case (2 db')
      then show thesis using stored [OF _ _ folder s_def d_def] b by (simp add: s_def)
    qed
  qed
qed

text \<open>What a call of \<^verbatim>\<open>upload_version\<close> can have done.\<close>

lemma upload_version_cases:
  assumes up: "upload_version E mb now user did name mt content fv key before (db, st) = (s', r)"
    and fresh: "st key = None"
  obtains (refused) e where "r = Inl e" "s' = (db, st)"
  | (stored) d s v db' where "r = Inr ()" "s' = (db', st(key \<mapsto> concat content))"
    "d \<in> set (lb_documents before)" "do_id d = did"
    "s = \<lparr>so_key = key, so_size = int (length (concat content)), so_sha256 = le_sha256 E (concat content)\<rparr>"
    "v = new_version d (versions_of before did) s (default_media_type mt) fv"
    "insert_version db v = Inr db'"
    "\<not> workspace_contains_sha256 db (do_workspace d) (le_sha256 E (concat content))"
    "bounded_content mb 0 content = Inr content"
    "require_workspace_write (lb_ws db) now user (do_workspace d) = Inr ()"
proof (cases "find_document_for_user before now user did")
  case None
  with up have "r = Inl resource_not_found" "s' = (db, st)" by (simp_all add: upload_version_def)
  then show thesis by (rule refused)
next
  case (Some d)
  then have d: "d \<in> set (lb_documents before)" "do_id d = did"
    by (auto simp: find_document_for_user_def dest: row_by_SomeD split: option.splits if_splits)
  show thesis
  proof (cases "rbind (require_workspace_write (lb_ws before) now user (do_workspace d)) (\<lambda>_.
      if le_casefold E (path_suffix name) \<notin> set allowed_extensions
      then Inl (AppError ''unsupported_document'' 422) else Inr ())")
    case (Inl e)
    with up Some have "r = Inl e" "s' = (db, st)" by (simp_all add: upload_version_def)
    then show thesis by (rule refused)
  next
    case (Inr u)
    show thesis
    proof (cases "bounded_content mb 0 content")
      case (Inl e)
      with Inr up Some have "r = Inl e" "s' = (db, st)" by (simp_all add: upload_version_def store_put_def)
      then show thesis by (rule refused)
    next
      case b: (Inr ds)
      with bounded_content_length [OF b] have b: "bounded_content mb 0 content = Inr content" by simp
      define s where "s = \<lparr>so_key = key, so_size = int (length (concat content)), so_sha256 = le_sha256 E (concat content)\<rparr>"
      from Inr up b Some have "upload_finish db now user (do_workspace d) (st(key \<mapsto> concat content)) s
          (insert_version db (new_version d (versions_of before did) s (default_media_type mt) fv)) = (s', r)"
        by (simp add: upload_version_def store_put_def s_def)
      then show thesis
      proof (cases rule: upload_finish_cases)
        case (1 e)
        then show thesis using refused fresh by (simp add: s_def delete_put)
      next
        case (2 db')
        then show thesis using stored [OF _ _ d s_def refl] b by (simp add: s_def)
      qed
    qed
  qed
qed


lemma upload_ok:
  assumes up: "upload E mb now user wid folder name mt content fd fv key before (db, st) = (s', r)"
    and fresh: "st key = None" and ok: "library_ok E mb md (db, st)"
    and ext: "library_extends before db" and mb: "0 \<le> mb"
  shows "library_ok E mb md s' \<and> library_extends db (fst s')"
proof (cases rule: upload_cases [OF up fresh])
  case (1 e)
  with ok library_extends_refl show ?thesis by simp
next
  case (2 s d db')
  let ?v = "new_version d [] s (default_media_type mt) fv"
  let ?mid = "db\<lparr>lb_documents := lb_documents db @ [d]\<rparr>"
  from 2(6) have new: "row_by do_id fd (lb_documents db) = None" and ins: "insert_version ?mid ?v = Inr db'"
    by (auto simp: save_document_def 2(5) split: if_splits)
  have none: "av_document x \<noteq> fd" if "x \<in> set (lb_versions db)" for x
    using that ok new by (auto simp: library_ok_def tables_ok_def row_by_None_iff)
  have iw: "in_workspace ?mid w x \<longleftrightarrow> in_workspace db w x" if "x \<in> set (lb_versions db)" for w x
    using none [OF that] by (auto simp: in_workspace_def 2(5))
  have belongs: "folder_belongs_to (db\<lparr>lb_documents := ds\<rparr>) f w \<longleftrightarrow> folder_belongs_to db f w" for ds f w
    by (simp add: folder_belongs_to_def)
  have dest: "folder_belongs_to db f wid" if "folder = Some f" for f
    using that 2(3) ext by (simp add: library_extends_folder)
  have "tables_ok ?mid" using ok new by (auto simp: library_ok_def tables_ok_def keyed_snoc 2(5))
  moreover have "folders_ok md ?mid"
    using ok dest by (auto simp: library_ok_def folders_ok_def folders_in_def belongs 2(5) split: option.splits)
  moreover have "numbers_ok ?mid" using ok by (simp add: library_ok_def numbers_ok_def numbers_of_def)
  moreover have "contents_ok ?mid"
    unfolding contents_ok_def using ok by (simp add: library_ok_def contents_ok_def iw)
  ultimately have mid: "library_ok E mb md (?mid, st)" using ok by (simp add: library_ok_def)
  have nums: "numbers_of ?mid (av_document ?v) = {1..0}"
    using none by (auto simp: numbers_of_def new_version_def 2(5))
  have iwv: "in_workspace ?mid wid ?v" by (simp add: in_workspace_def new_version_def 2(5))
  have sha: "\<not> workspace_contains_sha256 ?mid wid (av_sha256 ?v)"
    using 2(7) by (auto simp: contains_sha256_iff new_version_def 2(4) iw)
  have keys: "(st(key \<mapsto> concat content)) (av_object_key x) = st (av_object_key x)" if "x \<in> set (lb_versions ?mid)" for x
    using that ok fresh by (auto simp: library_ok_def version_stored_def)
  have "int (length (concat content)) \<le> mb" using bounded_content_length [OF 2(8)] mb by simp
  then have stored: "version_stored E mb (st(key \<mapsto> concat content)) ?v"
    by (simp add: version_stored_def new_version_def 2(4))
  have num: "av_number ?v = 0 + 1" by (simp add: new_version_def)
  have "library_ok E mb md (db', st(key \<mapsto> concat content)) \<and> library_extends ?mid db'"
    by (rule insert_version_ok [OF ins mid nums order_refl num iwv sha keys stored])
  moreover have "library_extends db ?mid" unfolding library_extends_def belongs by auto
  ultimately show ?thesis using 2(2) library_extends_trans by auto
qed

lemma upload_version_ok:
  assumes up: "upload_version E mb now user did name mt content fv key before (db, st) = (s', r)"
    and fresh: "st key = None" and ok: "library_ok E mb md (db, st)"
    and old: "library_ok E mb md (before, st0)" and ext: "library_extends before db" and mb: "0 \<le> mb"
  shows "library_ok E mb md s' \<and> library_extends db (fst s')"
proof (cases rule: upload_version_cases [OF up fresh])
  case (1 e)
  with ok library_extends_refl show ?thesis by simp
next
  case (2 d s v db')
  have doc: "av_document v = did" by (simp add: 2(6) new_version_def 2(4))
  have nums: "\<exists>n \<ge> 0. numbers_of b did = {1..n}" if "library_ok E mb md (b, t)" for b t
    using that by (simp add: library_ok_def numbers_ok_def)
  from nums [OF old] obtain n where n: "numbers_of before did = {1..n}" "0 \<le> n" by blast
  from nums [OF ok] obtain k where k: "numbers_of db did = {1..k}" "0 \<le> k" by blast
  have num: "av_number v = n + 1" unfolding 2(6) by (rule next_number [OF n])
  have "n \<le> k"
  proof (cases "n = 0")
    case False
    from ext have "numbers_of before did \<subseteq> numbers_of db did" by (rule library_extends_numbers)
    with False n k show ?thesis by auto
  qed (use k in simp)
  moreover have "av_number v \<notin> numbers_of db did"
    using 2(7) by (auto simp: insert_version_Inr row_by_None_iff numbers_of_def doc image_iff)
  ultimately have nk: "n = k" using num k n(2) by auto
  obtain d' where "d' \<in> set (lb_documents db)" "do_id d' = did" "do_workspace d' = do_workspace d"
    by (rule library_extends_document [OF ext 2(3), unfolded 2(4)])
  then have iwv: "in_workspace db (do_workspace d) v" by (auto simp: in_workspace_def doc)
  have sha: "\<not> workspace_contains_sha256 db (do_workspace d) (av_sha256 v)"
    using 2(8) by (simp add: 2(6) new_version_def 2(5))
  have keys: "(st(key \<mapsto> concat content)) (av_object_key x) = st (av_object_key x)" if "x \<in> set (lb_versions db)" for x
    using that ok fresh by (auto simp: library_ok_def version_stored_def)
  have "int (length (concat content)) \<le> mb" using bounded_content_length [OF 2(9)] mb by simp
  then have stored: "version_stored E mb (st(key \<mapsto> concat content)) v"
    by (simp add: version_stored_def 2(6) new_version_def 2(5))
  have "library_ok E mb md (db', st(key \<mapsto> concat content)) \<and> library_extends db db'"
    by (rule insert_version_ok [OF 2(7) ok _ k(2) _ iwv sha keys stored]) (simp_all add: doc k(1) num nk)
  with 2(2) show ?thesis by simp
qed

section \<open>Verification\<close>

text \<open>
  A verification changes the status of versions and the active version of documents, nothing
  else; the invariant does not depend on either.
\<close>

definition restate :: "(asset_version \<Rightarrow> version_status) \<Rightarrow> (document \<Rightarrow> uuid option) \<Rightarrow> library_db \<Rightarrow> library_db" where
  "restate f g db = db\<lparr>lb_versions := map (\<lambda>v. v\<lparr>av_status := f v\<rparr>) (lb_versions db),
     lb_documents := map (\<lambda>d. d\<lparr>do_active := g d\<rparr>) (lb_documents db)\<rparr>"

lemma restate_ok:
  assumes ok: "library_ok E mb md (db, st)"
  shows "library_ok E mb md (restate f g db, st) \<and> library_extends db (restate f g db)"
proof -
  have belongs: "folder_belongs_to (restate f g db) x w \<longleftrightarrow> folder_belongs_to db x w" for x w
    by (simp add: folder_belongs_to_def restate_def)
  have iw: "in_workspace (restate f g db) w (v\<lparr>av_status := s\<rparr>) \<longleftrightarrow> in_workspace db w v" for w v s
    by (simp add: in_workspace_def restate_def)
  have nums: "numbers_of (restate f g db) did = numbers_of db did" for did
    unfolding set_eq_iff numbers_of_slot by (simp add: restate_def image_image version_slot_def)
  have "tables_ok (restate f g db)"
    using ok by (simp add: library_ok_def tables_ok_def restate_def keyed_def comp_def image_image)
  moreover have "folders_ok md (restate f g db)"
  proof -
    have "\<forall>d \<in> set (lb_documents (restate f g db)). case do_folder d of None \<Rightarrow> True
        | Some x \<Rightarrow> folder_belongs_to db x (do_workspace d)"
    proof
      fix d
      assume "d \<in> set (lb_documents (restate f g db))"
      then obtain d0 where d0: "d0 \<in> set (lb_documents db)" "d = d0\<lparr>do_active := g d0\<rparr>"
        by (auto simp: restate_def)
      from ok have "\<forall>d \<in> set (lb_documents db). case do_folder d of None \<Rightarrow> True
          | Some x \<Rightarrow> folder_belongs_to db x (do_workspace d)" by (simp add: library_ok_def folders_ok_def)
      from bspec [OF this d0(1)]
      show "case do_folder d of None \<Rightarrow> True | Some x \<Rightarrow> folder_belongs_to db x (do_workspace d)"
        unfolding d0(2) by (simp cong: option.case_cong)
    qed
    moreover have "folders_in (restate f g db) w = folders_in db w" for w by (simp add: folders_in_def restate_def)
    ultimately show ?thesis using ok by (simp add: library_ok_def folders_ok_def belongs cong: option.case_cong)
  qed
  moreover have "numbers_ok (restate f g db)" using ok by (simp add: library_ok_def numbers_ok_def nums)
  moreover have "contents_ok (restate f g db)"
  proof -
    have same: "x = y" if "x \<in> set (lb_versions db)" "y \<in> set (lb_versions db)"
      "in_workspace db w x" "in_workspace db w y" "av_sha256 x = av_sha256 y" for x y w
      using ok that unfolding library_ok_def contents_ok_def fst_conv by blast
    have vs: "lb_versions (restate f g db) = map (\<lambda>v. v\<lparr>av_status := f v\<rparr>) (lb_versions db)"
      by (simp add: restate_def)
    show ?thesis unfolding contents_ok_def vs using same by (auto simp: iw)
  qed
  moreover have "\<forall>v \<in> set (lb_versions (restate f g db)). version_stored E mb st v"
    using ok by (auto simp: library_ok_def version_stored_def restate_def)
  moreover have "library_extends db (restate f g db)"
    unfolding library_extends_def belongs
    by (simp add: restate_def version_slot_def document_slot_def image_image)
  ultimately show ?thesis by (simp add: library_ok_def)
qed

section \<open>Histories\<close>

text \<open>
  The states the library went through, newest first.  An upload may have read the tables in
  any earlier state; its object key is a fresh one (it ends in a random \<^verbatim>\<open>uuid4\<close>).  Membership
  and folder lifecycle may change at any time.
\<close>

inductive library_history ::
  "library_env \<Rightarrow> int \<Rightarrow> nat \<Rightarrow> (library_db \<times> object_store) list \<Rightarrow> bool" for E mb md where
  start: "lb_folders db = [] \<Longrightarrow> lb_documents db = [] \<Longrightarrow> lb_versions db = [] \<Longrightarrow>
    library_history E mb md [(db, st)]"
| members: "library_history E mb md ((db, st) # h) \<Longrightarrow>
    library_history E mb md ((db\<lparr>lb_ws := w, lb_inactive := l\<rparr>, st) # (db, st) # h)"
| verifying: "library_history E mb md ((db, st) # h) \<Longrightarrow>
    library_history E mb md ((restate f g db, st) # (db, st) # h)"
| uploading: "library_history E mb md (s # h) \<Longrightarrow> before \<in> fst ` set (s # h) \<Longrightarrow> snd s key = None \<Longrightarrow>
    upload E mb now user wid folder name mt content fd fv key before s = (s', r) \<Longrightarrow>
    library_history E mb md (s' # s # h)"
| versioning: "library_history E mb md (s # h) \<Longrightarrow> before \<in> fst ` set (s # h) \<Longrightarrow> snd s key = None \<Longrightarrow>
    upload_version E mb now user did name mt content fv key before s = (s', r) \<Longrightarrow>
    library_history E mb md (s' # s # h)"
| moving_document: "library_history E mb md ((db, st) # h) \<Longrightarrow>
    move_document db now md user wid did dest expected = Inr (db', d, changed) \<Longrightarrow>
    library_history E mb md ((db', st) # (db, st) # h)"
| moving_folder: "library_history E mb md ((db, st) # h) \<Longrightarrow>
    move_folder db now md user wid fid dest expected = Inr (db', f, changed) \<Longrightarrow>
    library_history E mb md ((db', st) # (db, st) # h)"
| creating_folder: "library_history E mb md ((db, st) # h) \<Longrightarrow>
    create_folder db now md user wid parent name fresh = Inr (db', f) \<Longrightarrow>
    library_history E mb md ((db', st) # (db, st) # h)"

definition history_ok :: "library_env \<Rightarrow> int \<Rightarrow> nat \<Rightarrow> (library_db \<times> object_store) list \<Rightarrow> bool" where
  "history_ok E mb md h \<longleftrightarrow> h \<noteq> []
     \<and> (\<forall>s \<in> set h. library_ok E mb md s \<and> library_extends (fst s) (fst (hd h)))"

lemma history_ok_push:
  assumes "history_ok E mb md (s # h)" "library_ok E mb md s' \<and> library_extends (fst s) (fst s')"
  shows "history_ok E mb md (s' # s # h)"
  using assms library_extends_trans library_extends_refl unfolding history_ok_def by fastforce

lemma folders_part_ok:
  assumes ok: "library_ok E mb md (db, st)" and new: "tables_ok db' \<and> folders_ok md db' \<and> library_extends db db'"
    and same: "lb_documents db' = lb_documents db" "lb_versions db' = lb_versions db"
  shows "library_ok E mb md (db', st) \<and> library_extends db db'"
  using ok new by (simp add: library_ok_def numbers_ok_def numbers_of_def contents_ok_def in_workspace_def same)

lemma library_history_ok: "library_history E mb md h \<Longrightarrow> 0 \<le> mb \<Longrightarrow> history_ok E mb md h"
proof (induction rule: library_history.induct)
  case (start db st)
  have "hierarchy_ok [] md" by (simp add: hierarchy_ok_def)
  with start show ?case
    by (simp add: history_ok_def library_ok_def tables_ok_def folders_ok_def folders_in_def numbers_ok_def
        numbers_of_def contents_ok_def library_extends_refl) (intro allI exI [of _ 0], simp)
next
  case (members db st h w l)
  then have "library_ok E mb md (db, st)" by (simp add: history_ok_def)
  with members.IH members.prems show ?case
    by (intro history_ok_push) (simp_all add: library_extends_workspaces)
next
  case (verifying db st h f g)
  then have "library_ok E mb md (db, st)" by (simp add: history_ok_def)
  from restate_ok [OF this] verifying show ?case by (intro history_ok_push) simp_all
next
  case (uploading s h before key now user wid folder name mt content fd fv s' r)
  obtain db st where s: "s = (db, st)" by (cases s)
  from uploading have h: "history_ok E mb md (s # h)" by blast
  with uploading.hyps(2) have "library_ok E mb md (db, st)" "library_extends before db"
    by (auto simp: history_ok_def s)
  with uploading s have "library_ok E mb md s' \<and> library_extends db (fst s')" by (intro upload_ok) auto
  with h show ?case unfolding s by (intro history_ok_push) simp_all
next
  case (versioning s h before key now user did name mt content fv s' r)
  obtain db st where s: "s = (db, st)" by (cases s)
  from versioning have h: "history_ok E mb md (s # h)" by blast
  with versioning.hyps(2) obtain st0 where "library_ok E mb md (db, st)" "library_extends before db"
    "library_ok E mb md (before, st0)" by (fastforce simp: history_ok_def s)
  with versioning s have "library_ok E mb md s' \<and> library_extends db (fst s')" by (intro upload_version_ok) auto
  with h show ?case unfolding s by (intro history_ok_push) simp_all
next
  case (moving_document db st h now user wid did dest expected db' d changed)
  then have "library_ok E mb md (db, st)" by (simp add: history_ok_def)
  from move_document_ok [OF moving_document.hyps(2) this] moving_document show ?case
    by (intro history_ok_push) simp_all
next
  case (moving_folder db st h now user wid fid dest expected db' f changed)
  then have ok: "library_ok E mb md (db, st)" by (simp add: history_ok_def)
  then have parts: "tables_ok db" "folders_ok md db" by (simp_all add: library_ok_def)
  have "library_ok E mb md (db', st) \<and> library_extends db db'"
    by (rule folders_part_ok [OF ok move_folder_ok [OF moving_folder.hyps(2) parts]])
       (rule move_folder_same [OF moving_folder.hyps(2) parts])+
  with moving_folder show ?case by (intro history_ok_push) simp_all
next
  case (creating_folder db st h now user wid parent name fresh db' f)
  then have ok: "library_ok E mb md (db, st)" by (simp add: history_ok_def)
  then have parts: "tables_ok db" "folders_ok md db" by (simp_all add: library_ok_def)
  have "library_ok E mb md (db', st) \<and> library_extends db db'"
    by (rule folders_part_ok [OF ok create_folder_ok [OF creating_folder.hyps(2) parts]])
       (simp_all add: create_folder_Inr(2) [OF creating_folder.hyps(2)])
  with creating_folder show ?case by (intro history_ok_push) simp_all
qed

end
