(* ===== verification/Asset_Properties.thy ===== *)
theory Asset_Properties
  imports Asset_Invariant
begin

text \<open>
  The properties of the asset library, and the concrete library their witnesses run on: an
  owner's workspace with two nested folders, to which one document is uploaded.
\<close>

section \<open>A concrete library\<close>

definition demo_library_env :: library_env where
  "demo_library_env = \<lparr>le_sha256 = (\<lambda>b. b), le_casefold = (\<lambda>s. s)\<rparr>"

definition demo_folders :: "folder list" where
  "demo_folders =
     [\<lparr>fo_id = UUID 21, fo_workspace = UUID 10, fo_parent = None, fo_name = [65], fo_revision = 1\<rparr>,
      \<lparr>fo_id = UUID 22, fo_workspace = UUID 10, fo_parent = Some (UUID 21), fo_name = [66], fo_revision = 1\<rparr>,
      \<lparr>fo_id = UUID 23, fo_workspace = UUID 10, fo_parent = None, fo_name = [67], fo_revision = 1\<rparr>]"

definition demo_library :: library_db where
  "demo_library = \<lparr>lb_ws = demo_ws, lb_folders = [], lb_inactive = [], lb_documents = [], lb_versions = []\<rparr>"

lemma demo_library_write: "require_workspace_write demo_ws now (UUID 11) (UUID 10) = Inr ()"
  by (simp add: require_workspace_write_def require_workspace_def demo_ws_def workspace_write_allowed_def
      workspace_read_allowed_def workspace_is_active_def workspace_personal_owner_matches_def)

lemma demo_hierarchy: "hierarchy_ok demo_folders 3"
proof -
  have "\<forall>f \<in> set demo_folders. folder_depth demo_folders (Some (fo_id f)) = Inr 1
      \<or> folder_depth demo_folders (Some (fo_id f)) = Inr 2"
    by (simp add: demo_folders_def folder_depth_def)
  then show ?thesis by (auto simp: hierarchy_ok_def demo_folders_def)
qed

lemma demo_move: "validate_move demo_folders 3 (UUID 21) (Some (UUID 23)) = Inr [UUID 22, UUID 21]"
  by (simp add: demo_folders_def validate_move_def folder_depth_def children_of_def check_depth_def)


definition demo_document :: document where
  "demo_document = \<lparr>do_id = UUID 31, do_workspace = UUID 10, do_folder = None, do_name = lit ''a.md'',
     do_active = None, do_revision = 1\<rparr>"

definition demo_version :: asset_version where
  "demo_version = \<lparr>av_id = UUID 32, av_document = UUID 31, av_number = 1, av_object_key = [75],
     av_sha256 = [1, 2, 3], av_media_type = lit ''text/markdown'', av_size = 3, av_status = STORED\<rparr>"

definition demo_uploaded :: library_db where
  "demo_uploaded = demo_library\<lparr>lb_documents := [demo_document], lb_versions := [demo_version]\<rparr>"

lemma demo_extension: "path_suffix (lit ''a.md'') = lit ''.md'' \<and> strip (lit ''a.md'') = lit ''a.md''"
  by code_simp

lemma demo_media: "lit ''text/markdown'' \<noteq> []"
  by simp

lemma demo_upload:
  "upload demo_library_env 10 now (UUID 11) (UUID 10) None (lit ''a.md'') (lit ''text/markdown'') [[1, 2], [3]]
     (UUID 31) (UUID 32) [75] demo_library (demo_library, Map.empty)
   = ((demo_uploaded, [[75] \<mapsto> [1, 2, 3]]), Inr ())"
  unfolding upload_def
  using demo_library_write [of now] demo_extension demo_media
  by (simp add: demo_library_def demo_library_env_def store_put_def upload_finish_def workspace_contains_sha256_def
      save_document_def insert_version_def new_version_def demo_document_def demo_version_def demo_uploaded_def
      default_media_type_def allowed_extensions_def Let_def del: lit_simps)

lemma demo_upload_too_large:
  "upload demo_library_env 2 now (UUID 11) (UUID 10) None (lit ''a.md'') (lit ''text/markdown'') [[1, 2], [3]]
     (UUID 31) (UUID 32) [75] demo_library (demo_library, Map.empty)
   = ((demo_library, Map.empty), Inl file_too_large)"
  unfolding upload_def
  using demo_library_write [of now] demo_extension
  by (simp add: demo_library_def demo_library_env_def store_put_def allowed_extensions_def del: lit_simps)

lemma demo_history:
  "library_history demo_library_env 10 3
     [(demo_uploaded, [[75] \<mapsto> [1, 2, 3]]), (demo_library, Map.empty)]"
proof (rule library_history.uploading [OF _ _ _ demo_upload])
  show "library_history demo_library_env 10 3 [(demo_library, Map.empty)]"
    by (rule library_history.start) (simp_all add: demo_library_def)
qed simp_all

section \<open>Properties\<close>

text \<open>
  C7.  Moving a folder never breaks the hierarchy: if every folder of a workspace reaches the
  root within the depth limit and \<^verbatim>\<open>validate_move\<close> accepts the move, then after it every folder
  still does (so there is no cycle), and the folder did not move below itself.
\<close>

theorem accepted_move_keeps_hierarchy:
  assumes "hierarchy_ok fs max_depth" "f \<in> set fs"
    and "validate_move fs max_depth (fo_id f) destination = Inr subtree"
  shows "(\<forall>g \<in> set (move_in fs f destination).
            \<exists>n \<le> max_depth. folder_depth (move_in fs f destination) (Some (fo_id g)) = Inr n)
    \<and> fo_id f \<in> set subtree \<and> (\<forall>d. destination = Some d \<longrightarrow> d \<notin> set subtree)"
proof (intro conjI)
  show "\<forall>g \<in> set (move_in fs f destination).
      \<exists>n \<le> max_depth. folder_depth (move_in fs f destination) (Some (fo_id g)) = Inr n"
    using accepted_move_levels [OF assms] by (simp add: hierarchy_ok_def)
  have "keyed fo_id fs" using assms(1) by (simp add: hierarchy_ok_def)
  with assms(3) show "fo_id f \<in> set subtree" "\<forall>d. destination = Some d \<longrightarrow> d \<notin> set subtree"
    by (metis subtree_walk_source(1) validate_move_Inr)+
qed

theorem accepted_move_keeps_hierarchy_witness:
  "let fs = demo_folders; f = hd fs
   in list_all (\<lambda>g. \<exists>n \<le> 3. folder_depth (move_in fs f (Some (UUID 23))) (Some (fo_id g)) = Inr n)
        (move_in fs f (Some (UUID 23)))
      \<and> fo_id f \<in> set [UUID 22, UUID 21]"
proof -
  have "hd demo_folders \<in> set demo_folders" "fo_id (hd demo_folders) = UUID 21" by (simp_all add: demo_folders_def)
  with accepted_move_keeps_hierarchy [OF demo_hierarchy, of "hd demo_folders" "Some (UUID 23)" "[UUID 22, UUID 21]"]
  show ?thesis by (simp add: demo_move list_all_iff Let_def)
qed

lemma subtree_ids:
  assumes "keyed fo_id fs" "f \<in> set fs" "validate_move fs m (fo_id f) d = Inr sub"
  shows "set sub \<subseteq> fo_id ` set fs"
proof -
  from assms(3) obtain n h where lev: "at_level fs (Some (fo_id f)) (Suc n)"
    and walk: "subtree_walk fs [(fo_id f, 1)] [] 0 = Inr (sub, h)" by (rule validate_move_Inr)
  show ?thesis using subtree_walk_source(3) [OF assms(1) lev walk] assms(2) by blast
qed

lemma no_foreign_children:
  assumes ok: "tables_ok db" "folders_ok m db" and sub: "set sub \<subseteq> fo_id ` set (folders_in db wid)"
  shows "\<not> has_foreign_folder_children db wid sub"
proof
  assume "has_foreign_folder_children db wid sub"
  then obtain g p where g: "g \<in> set (lb_folders db)" "fo_parent g = Some p" "p \<in> set sub" "fo_workspace g \<noteq> wid"
    by (auto simp: has_foreign_folder_children_def list_ex_iff split: option.splits)
  from ok(2) have h: "hierarchy_ok (folders_in db (fo_workspace g)) m" by (simp add: folders_ok_def)
  have "p \<in> fo_id ` set (folders_in db (fo_workspace g))"
    by (rule hierarchy_parent_in [OF h _ g(2)]) (simp add: folders_in_def g(1))
  then obtain x where x: "x \<in> set (lb_folders db)" "fo_workspace x \<noteq> wid" "fo_id x = p"
    using g(4) by (auto simp: folders_in_def)
  from sub g(3) obtain y where y: "y \<in> set (lb_folders db)" "fo_workspace y = wid" "fo_id y = p"
    by (auto simp: folders_in_def)
  from ok(1) have "keyed fo_id (lb_folders db)" by (simp add: tables_ok_def)
  with x y have "x = y" by (auto simp: keyed_def distinct_map dest: inj_onD)
  with x(2) y(2) show False by simp
qed

text \<open>
  In a sound library, moving a folder is never refused as a broken hierarchy: whatever the
  request, \<^verbatim>\<open>folder_hierarchy_invalid\<close> is not among its outcomes.
\<close>

theorem move_never_reports_broken_hierarchy:
  assumes "library_ok E max_bytes max_depth (db, st)"
  shows "move_folder db now max_depth user wid fid destination expected \<noteq> Inl hierarchy_invalid"
proof
  assume bad: "move_folder db now max_depth user wid fid destination expected = Inl hierarchy_invalid"
  let ?fs = "list_folders db now user wid"
  from assms have ok: "tables_ok db" "folders_ok max_depth db" by (simp_all add: library_ok_def)
  note l = list_folders_hierarchy [OF ok, of now user wid]
  from bad obtain f where f: "List.find (\<lambda>f. fo_id f = fid) ?fs = Some f"
    by (auto simp: move_folder_def Let_def rbind_eq_Inl require_workspace_write_def require_workspace_def
        split: option.splits if_splits)
  then have mem: "f \<in> set ?fs" "fo_id f = fid" by (auto simp: find_Some_iff)
  then have ne: "?fs \<noteq> []" by auto
  note h = l(2) [OF ne] and s = l(3) [OF ne]
  show False
  proof (cases "require_destination db wid destination")
    case (Inl e)
    with bad f show False
      by (auto simp: move_folder_def Let_def rbind_eq_Inl require_workspace_write_def require_workspace_def
          require_destination_def split: option.splits if_splits)
  next
    case (Inr u)
    then have "case destination of None \<Rightarrow> True | Some i \<Rightarrow> i \<in> fo_id ` set ?fs"
      by (auto simp: require_destination_def folder_belongs_to_iff s folders_in_def split: option.splits if_splits)
    from validate_move_cases [OF h mem(1) this] consider
      e where "validate_move ?fs max_depth fid destination = Inl e" "e \<noteq> hierarchy_invalid"
      | sub where "validate_move ?fs max_depth fid destination = Inr sub" by (auto simp: mem(2))
    then show False
    proof cases
      case 1
      with bad f Inr mem show False
        by (auto simp: move_folder_def Let_def rbind_eq_Inl require_workspace_write_def require_workspace_def l(1)
            split: if_splits)
    next
      case 2
      have "set sub \<subseteq> fo_id ` set ?fs"
        by (rule subtree_ids [of _ f max_depth destination]) (use h 2 mem in \<open>simp_all add: hierarchy_ok_def\<close>)
      then have "\<not> has_foreign_folder_children db wid sub" unfolding s by (rule no_foreign_children [OF ok])
      with bad f Inr 2 mem show False
        by (auto simp: move_folder_def Let_def rbind_eq_Inl require_workspace_write_def require_workspace_def l(1)
            split: if_splits prod.splits)
    qed
  qed
qed

lemma demo_folders_library:
  "library_ok demo_library_env 10 3 (demo_library\<lparr>lb_folders := demo_folders\<rparr>, Map.empty)"
proof -
  have "hierarchy_ok (filter (\<lambda>f. fo_workspace f = w) demo_folders) 3" for w
  proof (cases "w = UUID 10")
    case True
    then have "filter (\<lambda>f. fo_workspace f = w) demo_folders = demo_folders" by (simp add: demo_folders_def)
    with demo_hierarchy show ?thesis by simp
  next
    case False
    then have "filter (\<lambda>f. fo_workspace f = w) demo_folders = []" by (simp add: demo_folders_def)
    then show ?thesis by (simp add: hierarchy_ok_def)
  qed
  moreover have "keyed fo_id demo_folders" by (simp add: demo_folders_def)
  moreover have "\<exists>n \<ge> 0. {} = {1..n::int}" by (intro exI [of _ 0]) simp
  ultimately show ?thesis
    by (simp add: library_ok_def demo_library_def tables_ok_def folders_ok_def folders_in_def numbers_ok_def
        numbers_of_def contents_ok_def)
qed

theorem move_never_reports_broken_hierarchy_witness:
  "move_folder (demo_library\<lparr>lb_folders := demo_folders\<rparr>) 0 3 (UUID 11) (UUID 10) (UUID 21) (Some (UUID 22)) 1
     \<noteq> Inl hierarchy_invalid"
  by (rule move_never_reports_broken_hierarchy [OF demo_folders_library])

text \<open>
  C8.  Whatever sequence of uploads, new versions, moves and folder creations the library went
  through, whoever was a member when, and however long an upload took: no workspace holds two
  versions with the same content, the versions of a document are numbered from one without
  gaps, the object store holds bytes of the recorded digest and size (within the limit) for every
  version, and every folder reaches the root of its workspace within the depth limit.
\<close>

theorem library_states_are_sound:
  assumes "library_history E max_bytes max_depth ((db, st) # earlier)" "0 \<le> max_bytes"
  shows "(\<forall>v \<in> set (lb_versions db). \<forall>v' \<in> set (lb_versions db). \<forall>wid.
            in_workspace db wid v \<and> in_workspace db wid v' \<and> av_sha256 v = av_sha256 v' \<longrightarrow> v = v')
    \<and> (\<forall>did. \<exists>n \<ge> 0. av_number ` {v \<in> set (lb_versions db). av_document v = did} = {1..n})
    \<and> (\<forall>v \<in> set (lb_versions db). \<exists>b. st (av_object_key v) = Some b \<and> av_sha256 v = le_sha256 E b
          \<and> av_size v = int (length b) \<and> av_size v \<le> max_bytes)
    \<and> (\<forall>f \<in> set (lb_folders db). \<exists>n \<le> max_depth.
          folder_depth (folders_in db (fo_workspace f)) (Some (fo_id f)) = Inr n)"
proof (intro conjI)
  from library_history_ok [OF assms] have ok: "library_ok E max_bytes max_depth (db, st)"
    by (simp add: history_ok_def)
  show "\<forall>v \<in> set (lb_versions db). \<forall>v' \<in> set (lb_versions db). \<forall>wid.
      in_workspace db wid v \<and> in_workspace db wid v' \<and> av_sha256 v = av_sha256 v' \<longrightarrow> v = v'"
    using ok unfolding library_ok_def contents_ok_def fst_conv by blast
  show "\<forall>did. \<exists>n \<ge> 0. av_number ` {v \<in> set (lb_versions db). av_document v = did} = {1..n}"
    using ok by (simp add: library_ok_def numbers_ok_def numbers_of_def)
  show "\<forall>v \<in> set (lb_versions db). \<exists>b. st (av_object_key v) = Some b \<and> av_sha256 v = le_sha256 E b
      \<and> av_size v = int (length b) \<and> av_size v \<le> max_bytes"
    using ok by (fastforce simp: library_ok_def version_stored_def)
  show "\<forall>f \<in> set (lb_folders db). \<exists>n \<le> max_depth.
      folder_depth (folders_in db (fo_workspace f)) (Some (fo_id f)) = Inr n"
  proof
    fix f
    assume "f \<in> set (lb_folders db)"
    then have "f \<in> set (folders_in db (fo_workspace f))" by (simp add: folders_in_def)
    moreover from ok have "hierarchy_ok (folders_in db (fo_workspace f)) max_depth"
      by (simp add: library_ok_def folders_ok_def)
    ultimately show "\<exists>n \<le> max_depth. folder_depth (folders_in db (fo_workspace f)) (Some (fo_id f)) = Inr n"
      by (simp add: hierarchy_ok_def)
  qed
qed

theorem library_states_are_sound_witness:
  "list_all (\<lambda>v. \<exists>b. [[75] \<mapsto> [1, 2, 3]] (av_object_key v) = Some b \<and> av_sha256 v = le_sha256 demo_library_env b
      \<and> av_size v = int (length b) \<and> av_size v \<le> 10) (lb_versions demo_uploaded)"
  using library_states_are_sound [OF demo_history] unfolding list_all_iff by simp

text \<open>
  C9.  An upload that is refused, for whatever reason and at whatever point, leaves neither rows
  nor an object behind; content beyond the limit is always refused.
\<close>

theorem refused_upload_leaves_nothing:
  assumes "st key = None"
    and "upload E max_bytes now user wid folder name media_type content fd fv key before (db, st) = (s', r)"
    and "upload_version E max_bytes now user did name media_type content fv key before (db, st) = (s'', r')"
  shows "((\<exists>e. r = Inl e) \<longrightarrow> s' = (db, st)) \<and> ((\<exists>e. r' = Inl e) \<longrightarrow> s'' = (db, st))
    \<and> (0 \<le> max_bytes \<longrightarrow> max_bytes < int (length (concat content)) \<longrightarrow> r \<noteq> Inr () \<and> r' \<noteq> Inr ())"
proof (intro conjI)
  show "(\<exists>e. r = Inl e) \<longrightarrow> s' = (db, st)"
    by (cases rule: upload_cases [OF assms(2,1)]) simp_all
  show "(\<exists>e. r' = Inl e) \<longrightarrow> s'' = (db, st)"
    by (cases rule: upload_version_cases [OF assms(3,1)]) simp_all
  show "0 \<le> max_bytes \<longrightarrow> max_bytes < int (length (concat content)) \<longrightarrow> r \<noteq> Inr () \<and> r' \<noteq> Inr ()"
  proof (intro impI)
    assume "0 \<le> max_bytes" "max_bytes < int (length (concat content))"
    then have big: "bounded_content max_bytes 0 content \<noteq> Inr content"
      by (simp add: bounded_content_refused)
    show "r \<noteq> Inr () \<and> r' \<noteq> Inr ()"
      by (cases rule: upload_cases [OF assms(2,1)]; cases rule: upload_version_cases [OF assms(3,1)])
         (use big in simp_all)
  qed
qed

theorem refused_upload_leaves_nothing_witness:
  "fst (upload demo_library_env 2 0 (UUID 11) (UUID 10) None (lit ''a.md'') (lit ''text/markdown'') [[1, 2], [3]]
     (UUID 31) (UUID 32) [75] demo_library (demo_library, Map.empty)) = (demo_library, Map.empty)"
proof -
  obtain s'' r' where v: "upload_version demo_library_env 2 0 (UUID 11) (UUID 31) (lit ''a.md'') (lit ''text/markdown'')
      [[1, 2], [3]] (UUID 32) [75] demo_library (demo_library, Map.empty) = (s'', r')" by (metis surj_pair)
  show ?thesis
    using refused_upload_leaves_nothing [OF _ demo_upload_too_large v] unfolding demo_upload_too_large by simp
qed


text \<open>
  An accepted upload adds one document with one version, numbered one and awaiting
  processing; reading its object back gives exactly the uploaded bytes, and no version of the
  workspace held that content before.
\<close>

theorem accepted_upload_keeps_the_bytes:
  assumes "st key = None"
    and "upload E max_bytes now user wid folder name media_type content fd fv key before (db, st) = ((db', st'), Inr ())"
  shows "\<exists>d v. lb_documents db' = lb_documents db @ [d] \<and> lb_versions db' = lb_versions db @ [v]
    \<and> do_workspace d = wid \<and> do_folder d = folder \<and> do_name d = strip name
    \<and> av_document v = do_id d \<and> av_number v = 1 \<and> av_status v = STORED
    \<and> st' (av_object_key v) = Some (concat content) \<and> av_sha256 v = le_sha256 E (concat content)
    \<and> av_size v = int (length (concat content))
    \<and> \<not> workspace_contains_sha256 db wid (av_sha256 v)
    \<and> require_workspace_write (lb_ws db) now user wid = Inr ()"
proof (cases rule: upload_cases [OF assms(2,1)])
  case (2 s d db'')
  from 2(6) have "db'' = db\<lparr>lb_documents := lb_documents db @ [d],
      lb_versions := lb_versions db @ [new_version d [] s (default_media_type media_type) fv]\<rparr>"
    by (auto simp: save_document_def insert_version_Inr split: if_splits)
  with 2 show ?thesis
    by (intro exI [of _ d] exI [of _ "new_version d [] s (default_media_type media_type) fv"])
       (simp add: new_version_def)
qed simp

theorem accepted_upload_keeps_the_bytes_witness:
  "\<exists>d v. lb_documents demo_uploaded = lb_documents demo_library @ [d]
    \<and> lb_versions demo_uploaded = lb_versions demo_library @ [v] \<and> av_number v = 1
    \<and> ([[75] \<mapsto> [1, 2, 3]] :: object_store) (av_object_key v) = Some (concat [[1, 2], [3]])"
proof -
  have "Map.empty [75] = None" by simp
  from accepted_upload_keeps_the_bytes [OF this demo_upload [of 0]] show ?thesis
    by (elim exE conjE) (intro exI conjI; assumption)
qed

end
