(* ===== verification/Asset_Lifecycle.thy ===== *)
theory Asset_Lifecycle
  imports Workspaces
begin

text \<open>
  The deletion lifecycle of an asset (\<^verbatim>\<open>platform/assets/lifecycle.py\<close>) and the trash policy
  (\<^verbatim>\<open>trash_policy.py\<close>): the table of transitions, who may act on the trash, and the deadline
  after which a trashed asset may be purged.
\<close>

section \<open>Transitions\<close>

datatype asset_lifecycle =
  ACTIVE | TRASHED | PURGE_PENDING | PURGING | RETRY_WAIT | BLOCKED | PURGED

datatype lifecycle_action =
  TRASH | RESTORE | REQUEST_PURGE | START_PURGE | RETRY_LATER | BLOCK | RETRY | COMPLETE

definition transitions :: "((asset_lifecycle \<times> lifecycle_action) \<times> asset_lifecycle) list" where
  "transitions =
     [((ACTIVE, TRASH), TRASHED),
      ((TRASHED, RESTORE), ACTIVE),
      ((TRASHED, REQUEST_PURGE), PURGE_PENDING),
      ((PURGE_PENDING, START_PURGE), PURGING),
      ((PURGING, RETRY_LATER), RETRY_WAIT),
      ((PURGING, BLOCK), BLOCKED),
      ((RETRY_WAIT, RETRY), PURGING),
      ((BLOCKED, RETRY), PURGING),
      ((PURGING, COMPLETE), PURGED)]"

definition transition :: "asset_lifecycle \<Rightarrow> lifecycle_action \<Rightarrow> asset_lifecycle res" where
  "transition current action =
     (case map_of transitions (current, action) of
        Some s \<Rightarrow> Inr s
      | None \<Rightarrow> Inl (ValueError ''invalid_lifecycle_transition''))"

definition allows_normal_use :: "asset_lifecycle \<Rightarrow> bool" where
  "allows_normal_use s \<longleftrightarrow> s = ACTIVE"

text \<open>A sequence of actions, as far as it is accepted.\<close>

fun transition_run :: "asset_lifecycle \<Rightarrow> lifecycle_action list \<Rightarrow> asset_lifecycle res" where
  "transition_run s [] = Inr s"
| "transition_run s (a # as) = rbind (transition s a) (\<lambda>s'. transition_run s' as)"

definition purge_started :: "asset_lifecycle \<Rightarrow> bool" where
  "purge_started s \<longleftrightarrow> s \<in> {PURGE_PENDING, PURGING, RETRY_WAIT, BLOCKED, PURGED}"

lemma transition_purge_started:
  "transition s a = Inr s' \<Longrightarrow> purge_started s \<Longrightarrow> purge_started s'"
  by (cases s; cases a) (auto simp: transition_def transitions_def purge_started_def)

lemma transition_purged: "transition PURGED a = Inl (ValueError ''invalid_lifecycle_transition'')"
  by (cases a) (simp_all add: transition_def transitions_def)

lemma run_purge_started:
  "transition_run s as = Inr s' \<Longrightarrow> purge_started s \<Longrightarrow> purge_started s'"
  by (induction s as rule: transition_run.induct) (auto dest: transition_purge_started)

text \<open>The shortest way to the end of a purge.\<close>

fun purge_plan :: "asset_lifecycle \<Rightarrow> lifecycle_action list" where
  "purge_plan ACTIVE = [TRASH, REQUEST_PURGE, START_PURGE, COMPLETE]"
| "purge_plan TRASHED = [REQUEST_PURGE, START_PURGE, COMPLETE]"
| "purge_plan PURGE_PENDING = [START_PURGE, COMPLETE]"
| "purge_plan PURGING = [COMPLETE]"
| "purge_plan RETRY_WAIT = [RETRY, COMPLETE]"
| "purge_plan BLOCKED = [RETRY, COMPLETE]"
| "purge_plan PURGED = []"

section \<open>The trash policy\<close>

datatype trash_action = LIST_TRASH | TRASH_ASSET | RESTORE_ASSET | PURGE_ASSET

definition allows_trash_action :: "ws_capabilities \<Rightarrow> trash_action \<Rightarrow> bool" where
  "allows_trash_action c action =
     (let allowed = ca_read c \<and> ca_delete c
      in if action = RESTORE_ASSET then allowed \<and> ca_write c
         else allowed \<and> action \<in> {LIST_TRASH, TRASH_ASSET, PURGE_ASSET})"

record retention_policy =
  rp_version :: int
  rp_days :: int

definition new_retention_policy :: "int \<Rightarrow> int \<Rightarrow> retention_policy res" where
  "new_retention_policy version days =
     (if version \<le> 0 then Inl (ValueError ''invalid_retention_policy'')
      else if days \<le> 0 then Inl (ValueError ''invalid_retention_policy'')
      else Inr \<lparr>rp_version = version, rp_days = days\<rparr>)"

text \<open>
  A \<^verbatim>\<open>datetime\<close> is its wall clock, in microseconds since the first instant of year 1, with the
  offset of its zone in microseconds, when it has one.  The type holds the years 1 to 9999, a
  \<^verbatim>\<open>timedelta\<close> at most 999999999 days.
\<close>

record py_datetime =
  dt_clock :: int
  dt_offset :: "int option"

definition day_us :: int where
  "day_us = 86400000000"

definition max_clock :: int where
  "max_clock = 3652059 * day_us"

definition clock_ok :: "int \<Rightarrow> bool" where
  "clock_ok t \<longleftrightarrow> 0 \<le> t \<and> t < max_clock"

definition overflow_error :: exn where
  "overflow_error = ValueError ''overflow''"

definition purge_deadline :: "py_datetime \<Rightarrow> retention_policy \<Rightarrow> py_datetime res" where
  "purge_deadline trashed_at policy =
     recover (\<lambda>_. True) (ValueError ''invalid_retention_deadline'')
       (case dt_offset trashed_at of
          None \<Rightarrow> Inl (ValueError ''naive'')
        | Some off \<Rightarrow>
            let utc = dt_clock trashed_at - off
            in if \<not> clock_ok utc then Inl overflow_error
               else if rp_days policy > 999999999 then Inl overflow_error
               else let deadline = utc + rp_days policy * day_us
                 in if \<not> clock_ok deadline then Inl overflow_error
                    else Inr \<lparr>dt_clock = deadline, dt_offset = Some 0\<rparr>)"

text \<open>The instant a zoned \<^verbatim>\<open>datetime\<close> denotes.\<close>

definition instant :: "py_datetime \<Rightarrow> int" where
  "instant t = dt_clock t - (case dt_offset t of None \<Rightarrow> 0 | Some off \<Rightarrow> off)"

section \<open>Properties\<close>

text \<open>
  A purge cannot be undone: once it was requested, no sequence of accepted actions makes the
  asset usable, restorable or trashed again, and a purged asset accepts no action at all; yet
  every asset can still be purged from wherever it stands.
\<close>

theorem purge_is_irreversible:
  "(\<forall>s as s'. purge_started s \<longrightarrow> transition_run s as = Inr s' \<longrightarrow>
      \<not> allows_normal_use s' \<and> s' \<noteq> TRASHED \<and> transition s' RESTORE = Inl (ValueError ''invalid_lifecycle_transition''))
   \<and> (\<forall>a. transition PURGED a = Inl (ValueError ''invalid_lifecycle_transition''))
   \<and> (\<forall>s. transition_run s (purge_plan s) = Inr PURGED)"
proof (intro conjI allI impI)
  fix s as s'
  assume "purge_started s" "transition_run s as = Inr s'"
  then have "purge_started s'" by (auto dest: run_purge_started)
  then show "\<not> allows_normal_use s'" "s' \<noteq> TRASHED"
    "transition s' RESTORE = Inl (ValueError ''invalid_lifecycle_transition'')"
    by (auto simp: purge_started_def allows_normal_use_def transition_def transitions_def)
next
  fix a
  show "transition PURGED a = Inl (ValueError ''invalid_lifecycle_transition'')" by (rule transition_purged)
next
  fix s
  show "transition_run s (purge_plan s) = Inr PURGED"
    by (cases s) (simp_all add: transition_def transitions_def)
qed

theorem purge_is_irreversible_witness:
  "transition_run TRASHED [REQUEST_PURGE, START_PURGE, RETRY_LATER, RETRY, COMPLETE] = Inr PURGED
   \<and> transition_run PURGING [BLOCK, RETRY] = Inr PURGING \<and> \<not> allows_normal_use PURGING"
proof -
  have "transition_run PURGING [BLOCK, RETRY] = Inr PURGING" "purge_started PURGING"
    by (simp_all add: transition_def transitions_def purge_started_def)
  with purge_is_irreversible have "\<not> allows_normal_use PURGING" by blast
  then show ?thesis by (simp add: transition_def transitions_def)
qed

text \<open>
  The purge deadline lies exactly the policy's days after the instant of trashing, in UTC and
  within the range of \<^verbatim>\<open>datetime\<close>, hence strictly later; a time without a zone and a deadline out
  of range are refused with the one error the code promises.
\<close>

theorem purge_deadline_bounds:
  assumes "new_retention_policy version days = Inr policy"
  shows "(\<exists>d. purge_deadline t policy = Inr d \<and> instant d = instant t + days * day_us \<and> instant t < instant d
           \<and> dt_offset d = Some 0 \<and> clock_ok (dt_clock d) \<and> dt_offset t \<noteq> None)
       \<or> (purge_deadline t policy = Inl (ValueError ''invalid_retention_deadline'')
           \<and> (dt_offset t = None \<or> \<not> clock_ok (instant t) \<or> \<not> clock_ok (instant t + days * day_us)))"
proof -
  from assms have days: "rp_days policy = days" "0 < days" by (auto simp: new_retention_policy_def split: if_splits)
  have big: "\<not> clock_ok (u + days * day_us)" if "999999999 < days" "clock_ok u" for u
    using that by (simp add: clock_ok_def max_clock_def day_us_def)
  have later: "0 < days * day_us" using days(2) by (simp add: day_us_def)
  show ?thesis
  proof (cases "dt_offset t")
    case None
    then show ?thesis by (simp add: purge_deadline_def)
  next
    case (Some off)
    then have i: "instant t = dt_clock t - off" by (simp add: instant_def)
    show ?thesis
    proof (cases "clock_ok (instant t) \<and> clock_ok (instant t + days * day_us)")
      case True
      with big [of "instant t"] have "\<not> 999999999 < days" by blast
      with True i Some days later show ?thesis
        by (simp add: purge_deadline_def Let_def instant_def)
    next
      case False
      then have "purge_deadline t policy = Inl (ValueError ''invalid_retention_deadline'')"
        using big [of "instant t"] by (auto simp: purge_deadline_def Let_def Some i days)
      with False show ?thesis by blast
    qed
  qed
qed

theorem purge_deadline_bounds_witness:
  "purge_deadline \<lparr>dt_clock = 5 * day_us, dt_offset = Some 0\<rparr> \<lparr>rp_version = 1, rp_days = 30\<rparr>
     = Inr \<lparr>dt_clock = 35 * day_us, dt_offset = Some 0\<rparr>"
proof -
  have "new_retention_policy 1 30 = Inr \<lparr>rp_version = 1, rp_days = 30\<rparr>" by (simp add: new_retention_policy_def)
  from purge_deadline_bounds [OF this, of "\<lparr>dt_clock = 5 * day_us, dt_offset = Some 0\<rparr>"] show ?thesis
    by (auto simp: instant_def clock_ok_def max_clock_def day_us_def)
qed

end
