(* ===== verification/Jobs.thy ===== *)
theory Jobs
  imports Asset_Library Py_Json
begin

text \<open>
  Background jobs (\<^verbatim>\<open>platform/jobs/domain.py\<close>, \<^verbatim>\<open>ownership.py\<close>, \<^verbatim>\<open>repository.py\<close>,
  \<^verbatim>\<open>service.py\<close>) and the provenance relations they keep
  (\<^verbatim>\<open>platform/assets/provenance_contracts.py\<close>, \<^verbatim>\<open>provenance_repository.py\<close>).  A job row, its
  immutable source pin and its one current relation are three tables that must move together.
\<close>

section \<open>The domain\<close>

datatype job_status = QUEUED | RUNNING | SUCCEEDED | FAILED

datatype job_type = VERIFY_ASSET | RAG_INGESTION

record job =
  jo_id :: uuid
  jo_user :: uuid
  jo_workspace :: uuid
  jo_version :: uuid
  jo_type :: job_type
  jo_key :: pystr
  jo_status :: job_status
  jo_stage :: pystr
  jo_attempt :: int
  jo_error_code :: "pystr option"
  jo_error_message :: "pystr option"
  jo_started :: "int option"
  jo_finished :: "int option"
  jo_revision :: "int option"

definition new_job :: "uuid \<Rightarrow> uuid \<Rightarrow> uuid \<Rightarrow> uuid \<Rightarrow> job_type \<Rightarrow> pystr \<Rightarrow> job" where
  "new_job fresh user wid version type key =
     \<lparr>jo_id = fresh, jo_user = user, jo_workspace = wid, jo_version = version, jo_type = type, jo_key = key,
      jo_status = QUEUED, jo_stage = lit ''queued'', jo_attempt = 0, jo_error_code = None,
      jo_error_message = None, jo_started = None, jo_finished = None, jo_revision = Some 1\<rparr>"

definition require_status :: "job_status \<Rightarrow> job \<Rightarrow> unit res" where
  "require_status expected j =
     (if jo_status j \<noteq> expected then Inl (ValueError ''InvalidJobTransition'') else Inr ())"

text \<open>\<open>at\<close> is the optional time of the call, \<open>now\<close> the clock it falls back to.\<close>

definition job_start :: "pystr \<Rightarrow> int option \<Rightarrow> int \<Rightarrow> job \<Rightarrow> job res" where
  "job_start stage at now j =
     rbind (require_status QUEUED j) (\<lambda>_.
       Inr (j\<lparr>jo_status := RUNNING, jo_stage := stage, jo_attempt := jo_attempt j + 1,
              jo_started := Some (case at of None \<Rightarrow> now | Some t \<Rightarrow> t)\<rparr>))"

definition job_succeed :: "pystr \<Rightarrow> int option \<Rightarrow> int \<Rightarrow> job \<Rightarrow> job res" where
  "job_succeed stage at now j =
     rbind (require_status RUNNING j) (\<lambda>_.
       Inr (j\<lparr>jo_status := SUCCEEDED, jo_stage := stage,
              jo_finished := Some (case at of None \<Rightarrow> now | Some t \<Rightarrow> t)\<rparr>))"

definition job_advance :: "pystr \<Rightarrow> job \<Rightarrow> job res" where
  "job_advance stage j = rbind (require_status RUNNING j) (\<lambda>_. Inr (j\<lparr>jo_stage := stage\<rparr>))"

definition job_fail :: "pystr \<Rightarrow> pystr \<Rightarrow> int option \<Rightarrow> int \<Rightarrow> job \<Rightarrow> job res" where
  "job_fail code message at now j =
     rbind (require_status RUNNING j) (\<lambda>_.
       Inr (j\<lparr>jo_status := FAILED, jo_stage := lit ''failed'', jo_error_code := Some code,
              jo_error_message := Some message,
              jo_finished := Some (case at of None \<Rightarrow> now | Some t \<Rightarrow> t)\<rparr>))"

section \<open>Provenance relations\<close>

record source_identity =
  si_workspace :: uuid
  si_document :: uuid
  si_version :: uuid

record resource_identity =
  ri_participant :: pystr
  ri_kind :: pystr
  ri_resource :: uuid
  ri_revision :: int

record source_relation =
  sr_source :: source_identity
  sr_resource :: resource_identity
  sr_kind :: pystr

text \<open>\<^verbatim>\<open>[a-z][a-z0-9_]{0,79}\<close>, matched in full.\<close>

definition is_machine_identifier :: "pystr \<Rightarrow> bool" where
  "is_machine_identifier s =
     (case s of
        [] \<Rightarrow> False
      | c # cs \<Rightarrow> 97 \<le> c \<and> c \<le> 122 \<and> length cs \<le> 79
          \<and> list_all (\<lambda>d. (97 \<le> d \<and> d \<le> 122) \<or> (48 \<le> d \<and> d \<le> 57) \<or> d = 95) cs)"

definition new_resource :: "pystr \<Rightarrow> pystr \<Rightarrow> uuid \<Rightarrow> int \<Rightarrow> resource_identity res" where
  "new_resource participant kind resource revision =
     (if \<not> is_machine_identifier participant then Inl (ValueError ''participant'')
      else if \<not> is_machine_identifier kind then Inl (ValueError ''kind'')
      else if revision \<le> 0 then Inl (ValueError ''revision'')
      else Inr \<lparr>ri_participant = participant, ri_kind = kind, ri_resource = resource, ri_revision = revision\<rparr>)"

definition relation_kinds :: "pystr list" where
  "relation_kinds = [lit ''source_copy'', lit ''derived_artifact'', lit ''authored_reference'']"

definition new_relation :: "source_identity \<Rightarrow> resource_identity \<Rightarrow> pystr \<Rightarrow> source_relation res" where
  "new_relation source resource kind =
     (if kind \<notin> set relation_kinds then Inl (ValueError ''relation_kind'')
      else Inr \<lparr>sr_source = source, sr_resource = resource, sr_kind = kind\<rparr>)"

record relation_row =
  rr_id :: uuid
  rr_relation :: source_relation

record job_source =
  js_job :: uuid
  js_workspace :: uuid
  js_document :: uuid
  js_version :: uuid

record job_db =
  jb_lib :: library_db
  jb_jobs :: "job list"
  jb_owners :: "job_source list"
  jb_relations :: "relation_row list"

abbreviation current_conflict :: exn where
  "current_conflict \<equiv> RuntimeError ''asset_provenance_current_conflict''"

text \<open>The foreign keys of a relation: the document of the workspace, the version of the document.\<close>

definition source_exists :: "library_db \<Rightarrow> source_identity \<Rightarrow> bool" where
  "source_exists lib s \<longleftrightarrow>
     list_ex (\<lambda>d. do_id d = si_document s \<and> do_workspace d = si_workspace s) (lb_documents lib)
     \<and> list_ex (\<lambda>v. av_id v = si_version s \<and> av_document v = si_document s) (lb_versions lib)"

definition register_relation :: "uuid \<Rightarrow> source_relation \<Rightarrow> job_db \<Rightarrow> job_db res" where
  "register_relation fresh r db =
     (if row_by rr_relation r (jb_relations db) \<noteq> None then Inr db
      else if \<not> source_exists (jb_lib db) (sr_source r) \<or> row_by rr_id fresh (jb_relations db) \<noteq> None
      then Inl IntegrityError
      else Inr (db\<lparr>jb_relations := jb_relations db @ [\<lparr>rr_id = fresh, rr_relation = r\<rparr>]\<rparr>))"

definition resource_rows :: "source_relation \<Rightarrow> relation_row list \<Rightarrow> relation_row list" where
  "resource_rows r rows =
     filter (\<lambda>x. ri_participant (sr_resource (rr_relation x)) = ri_participant (sr_resource r)
        \<and> ri_kind (sr_resource (rr_relation x)) = ri_kind (sr_resource r)
        \<and> ri_resource (sr_resource (rr_relation x)) = ri_resource (sr_resource r)) rows"

definition replace_current :: "source_relation \<Rightarrow> source_relation \<Rightarrow> job_db \<Rightarrow> job_db res" where
  "replace_current expected replacement db =
     (if sr_source replacement \<noteq> sr_source expected
         \<or> ri_participant (sr_resource replacement) \<noteq> ri_participant (sr_resource expected)
         \<or> ri_kind (sr_resource replacement) \<noteq> ri_kind (sr_resource expected)
         \<or> ri_resource (sr_resource replacement) \<noteq> ri_resource (sr_resource expected)
         \<or> ri_revision (sr_resource replacement) \<noteq> ri_revision (sr_resource expected) + 1
         \<or> sr_kind replacement \<noteq> sr_kind expected
      then Inl current_conflict
      else case resource_rows expected (jb_relations db) of
          [x] \<Rightarrow>
            if rr_relation x \<noteq> expected then Inl current_conflict
            else let hit = (\<lambda>y. rr_id y = rr_id x \<and> rr_relation y = expected);
                     bump = (\<lambda>y. y\<lparr>rr_relation := (rr_relation y)\<lparr>sr_resource := (sr_resource (rr_relation y))
                               \<lparr>ri_revision := ri_revision (sr_resource replacement)\<rparr>\<rparr>\<rparr>)
              in if length (filter hit (jb_relations db)) \<noteq> 1 then Inl current_conflict
                 else Inr (db\<lparr>jb_relations := map (\<lambda>y. if hit y then bump y else y) (jb_relations db)\<rparr>)
        | _ \<Rightarrow> Inl current_conflict)"

section \<open>Ownership\<close>

definition jobs_participant :: pystr where
  "jobs_participant = lit ''platform_jobs''"

definition job_kind :: pystr where
  "job_kind = lit ''job''"

definition ownership_relation :: "job_source \<Rightarrow> int \<Rightarrow> source_relation res" where
  "ownership_relation owner revision =
     rbind (new_resource jobs_participant job_kind (js_job owner) revision) (\<lambda>resource.
       new_relation \<lparr>si_workspace = js_workspace owner, si_document = js_document owner,
         si_version = js_version owner\<rparr> resource (lit ''derived_artifact''))"

abbreviation ownership_error :: "string \<Rightarrow> exn" where
  "ownership_error code \<equiv> ValueError code"

definition job_identity :: "job \<Rightarrow> uuid \<times> uuid \<times> uuid \<times> uuid \<times> job_type \<times> pystr" where
  "job_identity j = (jo_id j, jo_user j, jo_workspace j, jo_version j, jo_type j, jo_key j)"

definition validate_identity :: "job \<Rightarrow> job \<Rightarrow> unit res" where
  "validate_identity row j =
     (if job_identity row \<noteq> job_identity j then Inl (ownership_error ''job_identity_mismatch'') else Inr ())"

definition job_relations :: "uuid \<Rightarrow> job_db \<Rightarrow> relation_row list" where
  "job_relations i db =
     filter (\<lambda>x. ri_participant (sr_resource (rr_relation x)) = jobs_participant
        \<and> ri_resource (sr_resource (rr_relation x)) = i) (jb_relations db)"

definition advance_ownership :: "job \<Rightarrow> job_db \<Rightarrow> (job_db \<times> int option) res" where
  "advance_ownership row db =
     (let owner = row_by js_job (jo_id row) (jb_owners db)
      in case jo_revision row of
        None \<Rightarrow>
          if owner \<noteq> None \<or> job_relations (jo_id row) db \<noteq> []
          then Inl (ownership_error ''job_relation_mismatch'') else Inr (db, None)
      | Some n \<Rightarrow>
          (case owner of
             None \<Rightarrow> Inl (ownership_error ''job_source_mismatch'')
           | Some o1 \<Rightarrow>
               if (js_workspace o1, js_version o1) \<noteq> (jo_workspace row, jo_version row)
               then Inl (ownership_error ''job_source_mismatch'')
               else case job_relations (jo_id row) db of
                   [x] \<Rightarrow>
                     if ri_kind (sr_resource (rr_relation x)) \<noteq> job_kind
                     then Inl (ownership_error ''job_relation_mismatch'')
                     else rbind (ownership_relation o1 n) (\<lambda>expected.
                       rbind (ownership_relation o1 (n + 1)) (\<lambda>replacement.
                         rbind (recover (\<lambda>e. e = current_conflict) (ownership_error ''job_relation_mismatch'')
                                  (replace_current expected replacement db)) (\<lambda>db'.
                           Inr (db', Some (n + 1)))))
                 | _ \<Rightarrow> Inl (ownership_error ''job_relation_mismatch'')))"

section \<open>The repository\<close>

definition find_by_idempotency :: "job_db \<Rightarrow> uuid \<Rightarrow> job_type \<Rightarrow> pystr \<Rightarrow> job option" where
  "find_by_idempotency db user type key = row_by (\<lambda>j. (jo_user j, jo_type j, jo_key j)) (user, type, key) (jb_jobs db)"

definition find_job :: "job_db \<Rightarrow> uuid \<Rightarrow> job option" where
  "find_job db i = row_by jo_id i (jb_jobs db)"

definition find_job_for_user :: "job_db \<Rightarrow> int \<Rightarrow> uuid \<Rightarrow> uuid \<Rightarrow> job option" where
  "find_job_for_user db now user i =
     (case row_by jo_id i (jb_jobs db) of
        None \<Rightarrow> None
      | Some j \<Rightarrow> if has_workspace_access (jb_lib db) now user (jo_workspace j) then Some j else None)"

definition version_source :: "library_db \<Rightarrow> uuid \<Rightarrow> (uuid \<times> uuid) option" where
  "version_source lib i =
     (case row_by av_id i (lb_versions lib) of
        None \<Rightarrow> None
      | Some v \<Rightarrow> (case row_by do_id (av_document v) (lb_documents lib) of
           None \<Rightarrow> None
         | Some d \<Rightarrow> Some (do_workspace d, do_id d)))"

definition job_add :: "uuid \<Rightarrow> job \<Rightarrow> job_db \<Rightarrow> (job_db \<times> job) res" where
  "job_add fresh j db =
     (case version_source (jb_lib db) (jo_version j) of
        None \<Rightarrow> Inl (ownership_error ''job_source_mismatch'')
      | Some (wid, did) \<Rightarrow>
          if wid \<noteq> jo_workspace j then Inl (ownership_error ''job_source_mismatch'')
          else let row = j\<lparr>jo_revision := Some 1\<rparr>;
                   owner = \<lparr>js_job = jo_id j, js_workspace = jo_workspace j, js_document = did,
                            js_version = jo_version j\<rparr>
            in if row_by jo_id (jo_id j) (jb_jobs db) \<noteq> None
                  \<or> find_by_idempotency db (jo_user j) (jo_type j) (jo_key j) \<noteq> None
                  \<or> row_by js_job (jo_id j) (jb_owners db) \<noteq> None
               then Inl IntegrityError
               else rbind (ownership_relation owner 1) (\<lambda>r.
                 rbind (register_relation fresh r
                          (db\<lparr>jb_jobs := jb_jobs db @ [row], jb_owners := jb_owners db @ [owner]\<rparr>)) (\<lambda>db'.
                   Inr (db', row))))"

definition job_update :: "job \<Rightarrow> job_db \<Rightarrow> (job_db \<times> job) res" where
  "job_update j db =
     (case row_by jo_id (jo_id j) (jb_jobs db) of
        None \<Rightarrow> Inl (LookupError ''job'')
      | Some row \<Rightarrow>
          rbind (validate_identity row j) (\<lambda>_.
            if (case jo_revision j of None \<Rightarrow> False | Some n \<Rightarrow> n < 1) \<or> jo_revision row \<noteq> jo_revision j
            then Inl (ownership_error ''job_revision_conflict'')
            else rbind (advance_ownership row db) (\<lambda>(db', revision).
              let row' = row\<lparr>jo_status := jo_status j, jo_stage := jo_stage j, jo_attempt := jo_attempt j,
                    jo_error_code := jo_error_code j, jo_error_message := jo_error_message j,
                    jo_started := jo_started j, jo_finished := jo_finished j, jo_revision := revision\<rparr>
              in Inr (db'\<lparr>jb_jobs := put_row jo_id row' (jb_jobs db')\<rparr>, row'))))"

section \<open>The service\<close>

text \<open>The identifiers \<open>uuid4\<close> draws are arguments: \<open>fresh\<close> for the job, \<open>fresh'\<close> for the relation.\<close>

definition verification_key :: "uuid \<Rightarrow> pystr" where
  "verification_key version = lit ''asset-version:'' @ uuid_text version"

definition create_asset_verification ::
  "uuid \<Rightarrow> uuid \<Rightarrow> uuid \<Rightarrow> uuid \<Rightarrow> uuid \<Rightarrow> job_db \<Rightarrow> (job_db \<times> job \<times> bool) res" where
  "create_asset_verification fresh fresh' user wid version db =
     (let key = verification_key version
      in case find_by_idempotency db user VERIFY_ASSET key of
          Some j \<Rightarrow> Inr (db, j, False)
        | None \<Rightarrow>
            rbind (job_add fresh' (new_job fresh user wid version VERIFY_ASSET key) db) (\<lambda>(db', j).
              Inr (db', j, True)))"

definition get_job_for_user :: "job_db \<Rightarrow> int \<Rightarrow> uuid \<Rightarrow> uuid \<Rightarrow> job res" where
  "get_job_for_user db now user i =
     (case find_job_for_user db now user i of None \<Rightarrow> Inl resource_not_found | Some j \<Rightarrow> Inr j)"

end
