(* ===== verification/Job_Invariant.thy ===== *)
theory Job_Invariant
  imports Jobs Asset_Invariant
begin

text \<open>
  The three tables of the jobs move together: every job keeps one source pin and exactly one
  relation, at the job's current revision, whatever creations, updates, uploads and relations of
  other participants happen.
\<close>

section \<open>The invariant\<close>

definition pin_source :: "job_source \<Rightarrow> source_identity" where
  "pin_source s = \<lparr>si_workspace = js_workspace s, si_document = js_document s, si_version = js_version s\<rparr>"

definition pinned :: "job_source \<Rightarrow> int \<Rightarrow> source_relation" where
  "pinned s n = \<lparr>sr_source = pin_source s,
     sr_resource = \<lparr>ri_participant = jobs_participant, ri_kind = job_kind, ri_resource = js_job s, ri_revision = n\<rparr>,
     sr_kind = lit ''derived_artifact''\<rparr>"

lemma pinned_sel [simp]:
  "sr_source (pinned s n) = pin_source s" "sr_kind (pinned s n) = lit ''derived_artifact''"
  "ri_participant (sr_resource (pinned s n)) = jobs_participant" "ri_kind (sr_resource (pinned s n)) = job_kind"
  "ri_resource (sr_resource (pinned s n)) = js_job s" "ri_revision (sr_resource (pinned s n)) = n"
  by (simp_all add: pinned_def)

lemma machine_names: "is_machine_identifier jobs_participant" "is_machine_identifier job_kind"
  by (simp_all add: is_machine_identifier_def jobs_participant_def job_kind_def)

lemma ownership_relation_pinned: "0 < n \<Longrightarrow> ownership_relation s n = Inr (pinned s n)"
  by (simp add: ownership_relation_def new_resource_def machine_names new_relation_def relation_kinds_def
      pinned_def pin_source_def del: lit_simps)

definition job_tracked :: "job_db \<Rightarrow> job \<Rightarrow> bool" where
  "job_tracked db j \<longleftrightarrow>
     (\<exists>n \<ge> 1. \<exists>s \<in> set (jb_owners db). jo_revision j = Some n \<and> js_job s = jo_id j \<and> js_workspace s = jo_workspace j
        \<and> js_version s = jo_version j \<and> source_exists (jb_lib db) (pin_source s)
        \<and> map rr_relation (job_relations (jo_id j) db) = [pinned s n])"

lemma job_trackedE:
  assumes "job_tracked db j"
  obtains n s where "jo_revision j = Some n" "1 \<le> n" "s \<in> set (jb_owners db)" "js_job s = jo_id j"
    "js_workspace s = jo_workspace j" "js_version s = jo_version j" "source_exists (jb_lib db) (pin_source s)"
    "map rr_relation (job_relations (jo_id j) db) = [pinned s n]"
  using assms unfolding job_tracked_def by (elim exE bexE conjE)

definition jobs_ok :: "job_db \<Rightarrow> bool" where
  "jobs_ok db \<longleftrightarrow>
     keyed do_id (lb_documents (jb_lib db)) \<and> keyed av_id (lb_versions (jb_lib db))
     \<and> keyed jo_id (jb_jobs db) \<and> keyed (\<lambda>j. (jo_user j, jo_type j, jo_key j)) (jb_jobs db)
     \<and> keyed js_job (jb_owners db) \<and> keyed rr_id (jb_relations db)
     \<and> (\<forall>j \<in> set (jb_jobs db). job_tracked db j)
     \<and> js_job ` set (jb_owners db) \<subseteq> jo_id ` set (jb_jobs db)
     \<and> (\<forall>x \<in> set (jb_relations db). ri_participant (sr_resource (rr_relation x)) = jobs_participant \<longrightarrow>
          ri_resource (sr_resource (rr_relation x)) \<in> jo_id ` set (jb_jobs db))"

text \<open>What the library may do meanwhile: a source that exists goes on existing.\<close>

definition sources_kept :: "library_db \<Rightarrow> library_db \<Rightarrow> bool" where
  "sources_kept lib lib' \<longleftrightarrow>
     keyed do_id (lb_documents lib') \<and> keyed av_id (lb_versions lib')
     \<and> (\<forall>s. source_exists lib s \<longrightarrow> source_exists lib' s)"

section \<open>Creating\<close>

lemma job_add_Inr:
  assumes "job_add fresh j db = Inr (db', row)"
  obtains did r where "version_source (jb_lib db) (jo_version j) = Some (jo_workspace j, did)"
    "row = j\<lparr>jo_revision := Some 1\<rparr>" "row_by jo_id (jo_id j) (jb_jobs db) = None"
    "find_by_idempotency db (jo_user j) (jo_type j) (jo_key j) = None"
    "row_by js_job (jo_id j) (jb_owners db) = None"
    "register_relation fresh (pinned \<lparr>js_job = jo_id j, js_workspace = jo_workspace j, js_document = did,
         js_version = jo_version j\<rparr> 1)
       (db\<lparr>jb_jobs := jb_jobs db @ [row], jb_owners := jb_owners db @ [\<lparr>js_job = jo_id j,
          js_workspace = jo_workspace j, js_document = did, js_version = jo_version j\<rparr>]\<rparr>) = Inr db'"
  using assms that
  by (auto simp: job_add_def Let_def ownership_relation_pinned split: option.splits if_splits)

lemma version_source_exists:
  "version_source lib i = Some (w, d) \<Longrightarrow> source_exists lib \<lparr>si_workspace = w, si_document = d, si_version = i\<rparr>"
  by (auto simp: version_source_def source_exists_def list_ex_iff dest!: row_by_SomeD split: option.splits)

lemma register_relation_Inr:
  assumes "register_relation fresh r db = Inr db'"
  shows "(db' = db \<and> r \<in> rr_relation ` set (jb_relations db))
    \<or> (db' = db\<lparr>jb_relations := jb_relations db @ [\<lparr>rr_id = fresh, rr_relation = r\<rparr>]\<rparr>
        \<and> row_by rr_id fresh (jb_relations db) = None \<and> source_exists (jb_lib db) (sr_source r))"
  using assms by (auto simp: register_relation_def row_by_None_iff split: if_splits)

lemma job_relations_update [simp]:
  "job_relations i (db\<lparr>jb_jobs := js\<rparr>) = job_relations i db"
  "job_relations i (db\<lparr>jb_owners := os\<rparr>) = job_relations i db"
  "job_relations i (db\<lparr>jb_lib := lib\<rparr>) = job_relations i db"
  by (simp_all add: job_relations_def)

lemma job_relations_snoc:
  "job_relations i (db\<lparr>jb_relations := jb_relations db @ [x]\<rparr>) = job_relations i db
    @ (if ri_participant (sr_resource (rr_relation x)) = jobs_participant
          \<and> ri_resource (sr_resource (rr_relation x)) = i then [x] else [])"
  by (simp add: job_relations_def)

lemma job_add_ok:
  assumes add: "job_add fresh j db = Inr (db', row)" and ok: "jobs_ok db"
  shows "jobs_ok db'"
proof -
  from add obtain did where src: "version_source (jb_lib db) (jo_version j) = Some (jo_workspace j, did)"
    and row: "row = j\<lparr>jo_revision := Some 1\<rparr>" and new: "row_by jo_id (jo_id j) (jb_jobs db) = None"
      "find_by_idempotency db (jo_user j) (jo_type j) (jo_key j) = None" "row_by js_job (jo_id j) (jb_owners db) = None"
    and reg: "register_relation fresh (pinned \<lparr>js_job = jo_id j, js_workspace = jo_workspace j, js_document = did,
         js_version = jo_version j\<rparr> 1)
       (db\<lparr>jb_jobs := jb_jobs db @ [row], jb_owners := jb_owners db @ [\<lparr>js_job = jo_id j,
          js_workspace = jo_workspace j, js_document = did, js_version = jo_version j\<rparr>]\<rparr>) = Inr db'"
    by (rule job_add_Inr)
  define s where "s = \<lparr>js_job = jo_id j, js_workspace = jo_workspace j, js_document = did, js_version = jo_version j\<rparr>"
  let ?mid = "db\<lparr>jb_jobs := jb_jobs db @ [row], jb_owners := jb_owners db @ [s]\<rparr>"
  have s: "js_job s = jo_id j" "js_workspace s = jo_workspace j" "js_version s = jo_version j"
    "pin_source s = \<lparr>si_workspace = jo_workspace j, si_document = did, si_version = jo_version j\<rparr>"
    by (simp_all add: s_def pin_source_def)
  have foreign: "ri_participant (sr_resource (rr_relation x)) = jobs_participant \<Longrightarrow>
      ri_resource (sr_resource (rr_relation x)) \<noteq> jo_id j" if "x \<in> set (jb_relations db)" for x
  proof -
    assume "ri_participant (sr_resource (rr_relation x)) = jobs_participant"
    with ok that have "ri_resource (sr_resource (rr_relation x)) \<in> jo_id ` set (jb_jobs db)"
      by (simp add: jobs_ok_def)
    with new(1) show ?thesis unfolding row_by_None_iff by metis
  qed
  then have none: "job_relations (jo_id j) db = []" by (auto simp: job_relations_def filter_empty_conv)
  have "pinned s 1 \<notin> rr_relation ` set (jb_relations db)"
  proof
    assume "pinned s 1 \<in> rr_relation ` set (jb_relations db)"
    then obtain x where "x \<in> set (jb_relations db)" "rr_relation x = pinned s 1" by (metis imageE)
    with foreign [OF this(1)] s(1) show False by simp
  qed
  with register_relation_Inr [OF reg [folded s_def]] have
    db': "db' = ?mid\<lparr>jb_relations := jb_relations db @ [\<lparr>rr_id = fresh, rr_relation = pinned s 1\<rparr>]\<rparr>"
    and fresh: "row_by rr_id fresh (jb_relations db) = None" by auto
  have rels: "job_relations i db' = job_relations i db
      @ (if i = jo_id j then [\<lparr>rr_id = fresh, rr_relation = pinned s 1\<rparr>] else [])" for i
    using job_relations_snoc [of i ?mid "\<lparr>rr_id = fresh, rr_relation = pinned s 1\<rparr>"] by (auto simp: db' s)
  have sel: "jb_lib db' = jb_lib db" "jb_owners db' = jb_owners db @ [s]" by (simp_all add: db')
  have "job_tracked db' row"
    unfolding job_tracked_def
    by (rule exI [of _ 1]) (use version_source_exists [OF src] in \<open>simp add: rels none row s sel\<close>)
  moreover have "job_tracked db' k" if "k \<in> set (jb_jobs db)" for k
  proof -
    from that new(1) have "jo_id k \<noteq> jo_id j" unfolding row_by_None_iff by (metis image_eqI)
    then have "job_relations (jo_id k) db' = job_relations (jo_id k) db" by (simp add: rels)
    moreover from ok that have "job_tracked db k" by (simp add: jobs_ok_def)
    ultimately show ?thesis unfolding job_tracked_def by (auto simp: db')
  qed
  ultimately have "\<forall>k \<in> set (jb_jobs db'). job_tracked db' k" by (simp add: db')
  then show ?thesis
    using ok new fresh
    by (auto simp: jobs_ok_def db' keyed_snoc row find_by_idempotency_def s row_by_None_iff)
qed


lemma create_asset_verification_ok:
  assumes "create_asset_verification fresh fresh' user wid version db = Inr (db', j, created)" "jobs_ok db"
  shows "jobs_ok db'"
  using assms
  by (auto simp: create_asset_verification_def Let_def dest: job_add_ok split: option.splits)

section \<open>Updating\<close>

lemma job_relations_map:
  fixes f :: "relation_row \<Rightarrow> relation_row"
  assumes "\<And>x. ri_participant (sr_resource (rr_relation (f x))) = ri_participant (sr_resource (rr_relation x))"
    and "\<And>x. ri_resource (sr_resource (rr_relation (f x))) = ri_resource (sr_resource (rr_relation x))"
  shows "job_relations i (db\<lparr>jb_relations := map f (jb_relations db)\<rparr>) = map f (job_relations i db)"
  by (simp add: job_relations_def filter_map comp_def assms)

text \<open>What replacing the current relation of a job does to every job's relations.\<close>

lemma replace_current_pinned:
  assumes rep: "replace_current (pinned s n) (pinned s (n + 1)) db = Inr db'"
    and cur: "job_relations (js_job s) db = [x]"
  shows "map rr_relation (job_relations (js_job s) db') = [pinned s (n + 1)]"
    and "\<And>i. i \<noteq> js_job s \<Longrightarrow> job_relations i db' = job_relations i db"
    and "db' = db\<lparr>jb_relations := jb_relations db'\<rparr>"
    and "map rr_id (jb_relations db') = map rr_id (jb_relations db)"
    and "rr_relation x = pinned s n"
    and "\<And>r. (\<exists>y \<in> set (jb_relations db'). ri_participant (sr_resource (rr_relation y)) = jobs_participant
            \<and> ri_resource (sr_resource (rr_relation y)) = r)
      \<longleftrightarrow> (\<exists>y \<in> set (jb_relations db). ri_participant (sr_resource (rr_relation y)) = jobs_participant
            \<and> ri_resource (sr_resource (rr_relation y)) = r)"
proof -
  from rep obtain y where y: "resource_rows (pinned s n) (jb_relations db) = [y]" "rr_relation y = pinned s n"
    by (auto simp: replace_current_def split: list.splits if_splits)
  define hit :: "relation_row \<Rightarrow> bool" where "hit z \<longleftrightarrow> rr_id z = rr_id y \<and> rr_relation z = pinned s n" for z
  define f :: "relation_row \<Rightarrow> relation_row" where "f z = (if hit z then z\<lparr>rr_relation := (rr_relation z)\<lparr>sr_resource :=
      (sr_resource (rr_relation z))\<lparr>ri_revision := n + 1\<rparr>\<rparr>\<rparr> else z)" for z
  from rep y have db': "db' = db\<lparr>jb_relations := map f (jb_relations db)\<rparr>"
    unfolding replace_current_def f_def hit_def by (auto simp: Let_def split: if_splits)
  have f: "ri_participant (sr_resource (rr_relation (f z))) = ri_participant (sr_resource (rr_relation z))"
    "ri_resource (sr_resource (rr_relation (f z))) = ri_resource (sr_resource (rr_relation z))"
    "rr_id (f z) = rr_id z" for z
    by (simp_all add: f_def)
  have "y \<in> set (resource_rows (pinned s n) (jb_relations db))" by (simp add: y(1))
  then have "y \<in> set (job_relations (js_job s) db)" by (auto simp: resource_rows_def job_relations_def)
  with cur have x: "x = y" by simp
  then show "rr_relation x = pinned s n" by (simp add: y(2))
  have rels: "job_relations i db' = map f (job_relations i db)" for i
    unfolding db' by (rule job_relations_map) (simp_all add: f)
  show "map rr_relation (job_relations (js_job s) db') = [pinned s (n + 1)]"
    by (simp add: rels cur x f_def hit_def y(2) pinned_def)
  show "job_relations i db' = job_relations i db" if "i \<noteq> js_job s" for i
  proof -
    have "f z = z" if "z \<in> set (job_relations i db)" for z
      using that \<open>i \<noteq> js_job s\<close> by (auto simp: f_def hit_def job_relations_def)
    then show ?thesis unfolding rels by (simp add: map_idI)
  qed
  show "db' = db\<lparr>jb_relations := jb_relations db'\<rparr>" by (simp add: db')
  show "map rr_id (jb_relations db') = map rr_id (jb_relations db)" by (simp add: db' comp_def f)
  show "(\<exists>y \<in> set (jb_relations db'). ri_participant (sr_resource (rr_relation y)) = jobs_participant
            \<and> ri_resource (sr_resource (rr_relation y)) = r)
      \<longleftrightarrow> (\<exists>y \<in> set (jb_relations db). ri_participant (sr_resource (rr_relation y)) = jobs_participant
            \<and> ri_resource (sr_resource (rr_relation y)) = r)" for r
    by (simp add: db' f)
qed

lemma job_update_Inr:
  assumes "job_update j db = Inr (db', row')"
  obtains row db1 nr where "row_by jo_id (jo_id j) (jb_jobs db) = Some row" "job_identity row = job_identity j"
    "jo_revision row = jo_revision j" "advance_ownership row db = Inr (db1, nr)"
    "row' = row\<lparr>jo_status := jo_status j, jo_stage := jo_stage j, jo_attempt := jo_attempt j,
        jo_error_code := jo_error_code j, jo_error_message := jo_error_message j,
        jo_started := jo_started j, jo_finished := jo_finished j, jo_revision := nr\<rparr>"
    "db' = db1\<lparr>jb_jobs := put_row jo_id row' (jb_jobs db1)\<rparr>"
proof (cases "row_by jo_id (jo_id j) (jb_jobs db)")
  case None
  with assms show ?thesis by (simp add: job_update_def)
next
  case (Some row)
  with assms have "job_identity row = job_identity j" by (simp add: job_update_def validate_identity_def split: if_splits)
  moreover from this Some assms have "jo_revision row = jo_revision j"
    by (simp add: job_update_def validate_identity_def split: if_splits)
  moreover from calculation Some assms obtain db1 nr where "advance_ownership row db = Inr (db1, nr)"
    "row' = row\<lparr>jo_status := jo_status j, jo_stage := jo_stage j, jo_attempt := jo_attempt j,
        jo_error_code := jo_error_code j, jo_error_message := jo_error_message j,
        jo_started := jo_started j, jo_finished := jo_finished j, jo_revision := nr\<rparr>"
    "db' = db1\<lparr>jb_jobs := put_row jo_id row' (jb_jobs db1)\<rparr>"
    by (simp add: job_update_def validate_identity_def Let_def split: if_splits prod.splits) blast
  ultimately show ?thesis using that Some by blast
qed

lemma advance_ownership_tracked:
  assumes adv: "advance_ownership row db = Inr (db1, nr)" and t: "job_tracked db row" "keyed js_job (jb_owners db)"
  obtains s n where "jo_revision row = Some n" "1 \<le> n" "nr = Some (n + 1)" "s \<in> set (jb_owners db)"
    "js_job s = jo_id row" "js_workspace s = jo_workspace row" "js_version s = jo_version row"
    "source_exists (jb_lib db) (pin_source s)" "replace_current (pinned s n) (pinned s (n + 1)) db = Inr db1"
    "\<exists>x. job_relations (jo_id row) db = [x]"
proof -
  from t(1) obtain n s where n: "jo_revision row = Some n" "1 \<le> n" and s: "s \<in> set (jb_owners db)"
    "js_job s = jo_id row" "js_workspace s = jo_workspace row" "js_version s = jo_version row"
    "source_exists (jb_lib db) (pin_source s)" and m: "map rr_relation (job_relations (jo_id row) db) = [pinned s n]"
    by (rule job_trackedE)
  from m obtain x where x: "job_relations (jo_id row) db = [x]" by auto
  from t(2) s(1,2) have "row_by js_job (jo_id row) (jb_owners db) = Some s" by (simp add: row_by_Some_iff)
  with adv n x s have "replace_current (pinned s n) (pinned s (n + 1)) db = Inr db1 \<and> nr = Some (n + 1)"
    by (simp add: advance_ownership_def Let_def ownership_relation_pinned split: if_splits)
  then have "replace_current (pinned s n) (pinned s (n + 1)) db = Inr db1" "nr = Some (n + 1)" by simp_all
  with that n s x show thesis by blast
qed

lemma job_update_ok:
  assumes up: "job_update j db = Inr (db', row')" and ok: "jobs_ok db"
  shows "jobs_ok db'" and "\<exists>n. jo_revision j = Some n \<and> 1 \<le> n \<and> jo_revision row' = Some (n + 1)"
proof -
  from up obtain row db1 nr where row: "row_by jo_id (jo_id j) (jb_jobs db) = Some row"
    "job_identity row = job_identity j" "jo_revision row = jo_revision j" "advance_ownership row db = Inr (db1, nr)"
    and row': "row' = row\<lparr>jo_status := jo_status j, jo_stage := jo_stage j, jo_attempt := jo_attempt j,
        jo_error_code := jo_error_code j, jo_error_message := jo_error_message j,
        jo_started := jo_started j, jo_finished := jo_finished j, jo_revision := nr\<rparr>"
    and db': "db' = db1\<lparr>jb_jobs := put_row jo_id row' (jb_jobs db1)\<rparr>" by (rule job_update_Inr)
  from row(1) have mem: "row \<in> set (jb_jobs db)" "jo_id row = jo_id j" by (auto dest: row_by_SomeD)
  with ok have "job_tracked db row" "keyed js_job (jb_owners db)" by (simp_all add: jobs_ok_def)
  with row(4) obtain s n where n: "jo_revision row = Some n" "1 \<le> n"
      "nr = Some (n + 1)" and s: "s \<in> set (jb_owners db)" "js_job s = jo_id row" "js_workspace s = jo_workspace row"
      "js_version s = jo_version row" "source_exists (jb_lib db) (pin_source s)"
    and rep: "replace_current (pinned s n) (pinned s (n + 1)) db = Inr db1"
    and x: "\<exists>x. job_relations (jo_id row) db = [x]" by (rule advance_ownership_tracked)
  from x s(2) obtain x where "job_relations (js_job s) db = [x]" by auto
  note r = replace_current_pinned [OF rep this]
  show "\<exists>n. jo_revision j = Some n \<and> 1 \<le> n \<and> jo_revision row' = Some (n + 1)"
    using n row(3) by (simp add: row')
  obtain rs where db1: "db1 = db\<lparr>jb_relations := rs\<rparr>" by (rule that [OF r(3)])
  have id': "jo_id row' = jo_id row" by (simp add: row')
  have jobs': "jb_jobs db' = put_row jo_id row' (jb_jobs db)" by (simp add: db' db1)
  have rels: "job_relations i db' = job_relations i db1" for i by (simp add: db')
  have "job_tracked db' row'"
    unfolding job_tracked_def rels
    by (intro exI [of _ "n + 1"] conjI bexI [of _ s])
       (use n s r(1) in \<open>simp_all add: row' db' db1\<close>)
  moreover have "job_tracked db' k" if "k \<in> set (jb_jobs db)" "jo_id k \<noteq> jo_id row" for k
  proof -
    from ok that(1) have "job_tracked db k" by (simp add: jobs_ok_def)
    moreover have "job_relations (jo_id k) db' = job_relations (jo_id k) db"
      unfolding rels using that(2) s(2) by (intro r(2)) simp
    moreover have "jb_lib db' = jb_lib db" "jb_owners db' = jb_owners db" by (simp_all add: db' db1)
    ultimately show ?thesis by (simp add: job_tracked_def)
  qed
  ultimately have "\<forall>k \<in> set (jb_jobs db'). job_tracked db' k"
    using mem(1) by (auto simp: jobs' set_put_row id')
  moreover have "keyed rr_id (jb_relations db')" using ok r(4) by (simp add: jobs_ok_def keyed_def db')
  moreover have "jo_id ` set (jb_jobs db') = jo_id ` set (jb_jobs db)"
    unfolding jobs' by (metis image_set map_key_put_row)
  moreover have "map (\<lambda>j. (jo_user j, jo_type j, jo_key j)) (jb_jobs db')
      = map (\<lambda>j. (jo_user j, jo_type j, jo_key j)) (jb_jobs db)"
  proof -
    have "k = row" if "k \<in> set (jb_jobs db)" "jo_id k = jo_id row" for k
      using ok that mem(1) by (auto simp: jobs_ok_def keyed_def distinct_map dest: inj_onD)
    then have "(\<lambda>j. (jo_user j, jo_type j, jo_key j)) (if jo_id k = jo_id row' then row' else k)
        = (jo_user k, jo_type k, jo_key k)" if "k \<in> set (jb_jobs db)" for k
    proof (cases "jo_id k = jo_id row")
      case True
      with that \<open>\<And>k. k \<in> set (jb_jobs db) \<Longrightarrow> jo_id k = jo_id row \<Longrightarrow> k = row\<close> have "k = row" by blast
      then show ?thesis by (simp add: row')
    qed (simp add: id')
    then show ?thesis unfolding jobs' put_row_def by simp
  qed
  moreover have "\<forall>x \<in> set (jb_relations db'). ri_participant (sr_resource (rr_relation x)) = jobs_participant \<longrightarrow>
      ri_resource (sr_resource (rr_relation x)) \<in> jo_id ` set (jb_jobs db)"
  proof (intro ballI impI)
    fix y
    assume "y \<in> set (jb_relations db')" "ri_participant (sr_resource (rr_relation y)) = jobs_participant"
    with r(6) [of "ri_resource (sr_resource (rr_relation y))"] obtain z where "z \<in> set (jb_relations db)"
      "ri_participant (sr_resource (rr_relation z)) = jobs_participant"
      "ri_resource (sr_resource (rr_relation z)) = ri_resource (sr_resource (rr_relation y))"
      by (auto simp: db')
    with ok show "ri_resource (sr_resource (rr_relation y)) \<in> jo_id ` set (jb_jobs db)"
      unfolding jobs_ok_def by metis
  qed
  ultimately show "jobs_ok db'"
    using ok unfolding jobs_ok_def by (simp add: keyed_def) (simp add: db' db1)
qed


section \<open>Other participants and the library\<close>

lemma register_other_ok:
  assumes reg: "register_relation fresh r db = Inr db'" and other: "ri_participant (sr_resource r) \<noteq> jobs_participant"
    and ok: "jobs_ok db"
  shows "jobs_ok db'"
  using register_relation_Inr [OF reg]
proof
  assume new: "db' = db\<lparr>jb_relations := jb_relations db @ [\<lparr>rr_id = fresh, rr_relation = r\<rparr>]\<rparr>
    \<and> row_by rr_id fresh (jb_relations db) = None \<and> source_exists (jb_lib db) (sr_source r)"
  have "job_relations i db' = job_relations i db" for i
    using new other job_relations_snoc [of i db "\<lparr>rr_id = fresh, rr_relation = r\<rparr>"] by simp
  moreover have "jb_lib db' = jb_lib db" "jb_owners db' = jb_owners db" "jb_jobs db' = jb_jobs db" by (simp_all add: new)
  ultimately have "\<forall>j \<in> set (jb_jobs db'). job_tracked db' j"
    using ok by (simp add: jobs_ok_def job_tracked_def)
  with ok new other show ?thesis by (auto simp: jobs_ok_def keyed_snoc)
qed (use ok in simp)

lemma library_step_ok: "jobs_ok db \<Longrightarrow> sources_kept (jb_lib db) lib \<Longrightarrow> jobs_ok (db\<lparr>jb_lib := lib\<rparr>)"
proof -
  assume ok: "jobs_ok db" and kept: "sources_kept (jb_lib db) lib"
  have "job_tracked (db\<lparr>jb_lib := lib\<rparr>) j" if "job_tracked db j" for j
  proof -
    from that obtain n s where n: "jo_revision j = Some n" "1 \<le> n" "s \<in> set (jb_owners db)" "js_job s = jo_id j"
      "js_workspace s = jo_workspace j" "js_version s = jo_version j" "source_exists (jb_lib db) (pin_source s)"
      "map rr_relation (job_relations (jo_id j) db) = [pinned s n]" by (rule job_trackedE)
    moreover from n(7) kept have "source_exists lib (pin_source s)" by (simp add: sources_kept_def)
    ultimately show ?thesis unfolding job_tracked_def by (intro exI [of _ n] conjI bexI [of _ s]) simp_all
  qed
  with ok kept show ?thesis by (simp add: jobs_ok_def sources_kept_def)
qed

end
