(* ===== verification/Job_Inventory.thy ===== *)
theory Job_Inventory
  imports Job_Invariant
begin

text \<open>
  The read-only inventory of the jobs of a document (\<^verbatim>\<open>platform/jobs/inventory.py\<close>): a snapshot
  of the tables, its reconciliation into blockers, and the comparison of two snapshots.
\<close>

section \<open>The snapshot\<close>

record job_snapshot =
  sn_workspace :: uuid
  sn_document :: uuid
  sn_documents :: "document list"
  sn_versions :: "asset_version list"
  sn_jobs :: "job list"
  sn_owners :: "job_source list"
  sn_relations :: "relation_row list"

definition jobs_relation :: "relation_row \<Rightarrow> bool" where
  "jobs_relation x \<longleftrightarrow> ri_participant (sr_resource (rr_relation x)) = jobs_participant"

definition relation_on :: "uuid \<Rightarrow> uuid \<Rightarrow> relation_row \<Rightarrow> bool" where
  "relation_on wid did x \<longleftrightarrow>
     si_workspace (sr_source (rr_relation x)) = wid \<and> si_document (sr_source (rr_relation x)) = did"

definition relation_resource :: "relation_row \<Rightarrow> uuid" where
  "relation_resource x = ri_resource (sr_resource (rr_relation x))"

definition take_snapshot :: "job_db \<Rightarrow> int \<Rightarrow> uuid \<Rightarrow> uuid \<Rightarrow> uuid option \<Rightarrow> job_snapshot res" where
  "take_snapshot db now wid did user =
     (let documents = filter (\<lambda>d. do_workspace d = wid \<and> do_id d = did) (lb_documents (jb_lib db))
      in if (case user of None \<Rightarrow> False
             | Some u \<Rightarrow> documents = [] \<or> \<not> has_workspace_access (jb_lib db) now u wid)
         then Inl resource_not_found
         else
           let versions = sort_key av_id (filter (\<lambda>v. av_document v = did) (lb_versions (jb_lib db)));
               version_ids = map av_id versions;
               owned_ids = map js_job (filter (\<lambda>s. js_workspace s = wid \<and> js_document s = did) (jb_owners db));
               relation_ids = map relation_resource
                 (filter (\<lambda>x. jobs_relation x \<and> relation_on wid did x) (jb_relations db));
               jobs = sort_key jo_id (filter (\<lambda>j. jo_version j \<in> set version_ids \<or> jo_id j \<in> set owned_ids
                 \<or> jo_id j \<in> set relation_ids) (jb_jobs db));
               job_ids = map jo_id jobs;
               owners = sort_key js_job (filter (\<lambda>s. js_job s \<in> set job_ids
                 \<or> (js_workspace s = wid \<and> js_document s = did) \<or> js_job s \<in> set relation_ids) (jb_owners db));
               ids = job_ids @ map js_job owners;
               relations = sort_key rr_id (filter (\<lambda>x. jobs_relation x
                 \<and> (relation_resource x \<in> set ids \<or> relation_on wid did x)) (jb_relations db))
           in Inr \<lparr>sn_workspace = wid, sn_document = did, sn_documents = documents, sn_versions = versions,
                sn_jobs = jobs, sn_owners = owners, sn_relations = relations\<rparr>)"

section \<open>Reconciling\<close>

abbreviation b_source_unavailable :: pystr where "b_source_unavailable \<equiv> lit ''source_unavailable''"
abbreviation b_writer_unconfirmed :: pystr where "b_writer_unconfirmed \<equiv> lit ''writer_unconfirmed''"
abbreviation b_legacy_untracked :: pystr where "b_legacy_untracked \<equiv> lit ''legacy_untracked''"
abbreviation b_ownership_mismatch :: pystr where "b_ownership_mismatch \<equiv> lit ''ownership_mismatch''"
abbreviation b_invalid_revision :: pystr where "b_invalid_revision \<equiv> lit ''invalid_revision''"
abbreviation b_relation_mismatch :: pystr where "b_relation_mismatch \<equiv> lit ''relation_mismatch''"
abbreviation b_inventory_changed :: pystr where "b_inventory_changed \<equiv> lit ''inventory_changed''"

definition flag :: "bool \<Rightarrow> pystr \<Rightarrow> pystr list" where
  "flag b s = (if b then [s] else [])"

lemma set_flag [simp]: "set (flag b s) = (if b then {s} else {})"
  by (simp add: flag_def)

text \<open>A relation as the code's tuple: source, kind, resource, revision, kind of relation.\<close>

definition relation_tuple :: "source_relation \<Rightarrow> source_identity \<times> pystr \<times> uuid \<times> int \<times> pystr" where
  "relation_tuple r = (sr_source r, ri_kind (sr_resource r), ri_resource (sr_resource r),
     ri_revision (sr_resource r), sr_kind r)"

definition valid_revision :: "job \<Rightarrow> bool" where
  "valid_revision j \<longleftrightarrow> (case jo_revision j of None \<Rightarrow> False | Some n \<Rightarrow> 1 \<le> n)"

text \<open>The body of the loop over the jobs: the blockers of one job.\<close>

definition job_blockers :: "job_snapshot \<Rightarrow> job \<Rightarrow> pystr list" where
  "job_blockers sn j =
     (let owner = row_by js_job (jo_id j) (sn_owners sn)
      in case jo_revision j of
        None \<Rightarrow> b_legacy_untracked # flag (owner \<noteq> None) b_ownership_mismatch
      | Some n \<Rightarrow>
          if n < 1 then [b_invalid_revision]
          else flag ((case owner of None \<Rightarrow> True
               | Some s \<Rightarrow> (js_workspace s, js_document s, js_version s)
                    \<noteq> (sn_workspace sn, sn_document sn, jo_version j))
             \<or> jo_workspace j \<noteq> sn_workspace sn \<or> jo_version j \<notin> av_id ` set (sn_versions sn)) b_ownership_mismatch)"

definition expected_relation :: "job_snapshot \<Rightarrow> job \<Rightarrow> source_identity \<times> pystr \<times> uuid \<times> int \<times> pystr" where
  "expected_relation sn j =
     (\<lparr>si_workspace = sn_workspace sn, si_document = sn_document sn, si_version = jo_version j\<rparr>, job_kind, jo_id j,
      (case jo_revision j of None \<Rightarrow> 0 | Some n \<Rightarrow> n), lit ''derived_artifact'')"

definition reconcile :: "job_snapshot \<Rightarrow> pystr list" where
  "reconcile sn =
     (let tracked = filter valid_revision (sn_jobs sn);
          expected = set (map (expected_relation sn) tracked);
          actual = set (map (\<lambda>x. relation_tuple (rr_relation x)) (sn_relations sn))
      in flag (sn_documents sn = []) b_source_unavailable
         @ flag (sn_jobs sn \<noteq> [] \<or> sn_owners sn \<noteq> [] \<or> sn_relations sn \<noteq> []) b_writer_unconfirmed
         @ concat (map (job_blockers sn) (sn_jobs sn))
         @ flag (\<not> js_job ` set (sn_owners sn) \<subseteq> jo_id ` set (sn_jobs sn)) b_ownership_mismatch
         @ flag (\<not> av_id ` set (sn_versions sn) \<subseteq> jo_version ` set tracked) b_legacy_untracked
         @ flag (actual \<noteq> expected \<or> card actual \<noteq> length (sn_relations sn)) b_relation_mismatch)"

record job_inventory =
  ji_resources :: "resource_identity list"
  ji_blockers :: "pystr list"
  ji_complete :: bool

text \<open>The two snapshots of \<^verbatim>\<open>collect\<close> are taken in different transactions, hence in two states.\<close>

definition collect_inventory ::
  "job_db \<Rightarrow> job_db \<Rightarrow> int \<Rightarrow> uuid \<Rightarrow> uuid \<Rightarrow> uuid option \<Rightarrow> job_inventory res" where
  "collect_inventory db1 db2 now wid did user =
     rbind (take_snapshot db1 now wid did user) (\<lambda>before.
       let blockers = reconcile before
       in rbind (take_snapshot db2 now wid did user) (\<lambda>after.
         let all_blockers = blockers @ flag (before \<noteq> after) b_inventory_changed
         in Inr \<lparr>ji_resources = map (\<lambda>j. \<lparr>ri_participant = jobs_participant, ri_kind = job_kind,
                  ri_resource = jo_id j, ri_revision = (case jo_revision j of None \<Rightarrow> 0 | Some n \<Rightarrow> n)\<rparr>)
                  (filter valid_revision (sn_jobs before)),
                ji_blockers = sort (remdups all_blockers),
                ji_complete = (all_blockers = [])\<rparr>))"

section \<open>Under the invariant the inventory agrees with the tables\<close>

lemma tracked_unique:
  assumes "jobs_ok db" "j \<in> set (jb_jobs db)" "s \<in> set (jb_owners db)" "js_job s = jo_id j"
  shows "js_workspace s = jo_workspace j" "js_version s = jo_version j" "source_exists (jb_lib db) (pin_source s)"
    and "\<exists>n \<ge> 1. jo_revision j = Some n \<and> map rr_relation (job_relations (jo_id j) db) = [pinned s n]"
proof -
  from assms(1,2) have "job_tracked db j" by (simp add: jobs_ok_def)
  then obtain n s' where t: "jo_revision j = Some n" "1 \<le> n" "s' \<in> set (jb_owners db)" "js_job s' = jo_id j"
    "js_workspace s' = jo_workspace j" "js_version s' = jo_version j" "source_exists (jb_lib db) (pin_source s')"
    "map rr_relation (job_relations (jo_id j) db) = [pinned s' n]" by (rule job_trackedE)
  from assms(1) have "keyed js_job (jb_owners db)" by (simp add: jobs_ok_def)
  then have "s' = s" by (rule keyed_eq) (use assms(3,4) t(3,4) in simp_all)
  with t show "js_workspace s = jo_workspace j" "js_version s = jo_version j" "source_exists (jb_lib db) (pin_source s)"
    "\<exists>n \<ge> 1. jo_revision j = Some n \<and> map rr_relation (job_relations (jo_id j) db) = [pinned s n]" by auto
qed

lemma source_exists_version:
  assumes "jobs_ok db" "source_exists (jb_lib db) (pin_source s)" "v \<in> set (lb_versions (jb_lib db))" "av_id v = js_version s"
  shows "av_document v = js_document s"
proof -
  from assms(2) obtain v' where v': "v' \<in> set (lb_versions (jb_lib db))" "av_id v' = js_version s" "av_document v' = js_document s"
    by (auto simp: source_exists_def list_ex_iff pin_source_def)
  from assms(1) have "keyed av_id (lb_versions (jb_lib db))" by (simp add: jobs_ok_def)
  then have "v' = v" by (rule keyed_eq) (use v'(1,2) assms(3,4) in simp_all)
  with v'(3) show ?thesis by simp
qed

lemma source_exists_workspace:
  assumes "jobs_ok db" "source_exists (jb_lib db) (pin_source s)" "d \<in> set (lb_documents (jb_lib db))" "do_id d = js_document s"
  shows "do_workspace d = js_workspace s"
proof -
  from assms(2) obtain d' where d': "d' \<in> set (lb_documents (jb_lib db))" "do_id d' = js_document s" "do_workspace d' = js_workspace s"
    by (auto simp: source_exists_def list_ex_iff pin_source_def)
  from assms(1) have "keyed do_id (lb_documents (jb_lib db))" by (simp add: jobs_ok_def)
  then have "d' = d" by (rule keyed_eq) (use d'(1,2) assms(3,4) in simp_all)
  with d'(3) show ?thesis by simp
qed

text \<open>The jobs of a document are those whose pin names it.\<close>

definition document_jobs :: "job_db \<Rightarrow> uuid \<Rightarrow> job set" where
  "document_jobs db did =
     {j \<in> set (jb_jobs db). \<exists>s \<in> set (jb_owners db). js_job s = jo_id j \<and> js_document s = did}"

lemma job_relation_pinned:
  assumes ok: "jobs_ok db" and x: "x \<in> set (jb_relations db)" "jobs_relation x"
  obtains j s n where "j \<in> set (jb_jobs db)" "s \<in> set (jb_owners db)" "js_job s = jo_id j" "jo_id j = relation_resource x"
    "jo_revision j = Some n" "1 \<le> n" "rr_relation x = pinned s n" "job_relations (jo_id j) db = [x]"
proof -
  from ok x have "relation_resource x \<in> jo_id ` set (jb_jobs db)"
    by (simp add: jobs_ok_def jobs_relation_def relation_resource_def)
  then obtain j where j: "j \<in> set (jb_jobs db)" "jo_id j = relation_resource x" by auto
  from ok j(1) have "job_tracked db j" by (simp add: jobs_ok_def)
  then obtain n s where t: "jo_revision j = Some n" "1 \<le> n" "s \<in> set (jb_owners db)" "js_job s = jo_id j"
    "js_workspace s = jo_workspace j" "js_version s = jo_version j" "source_exists (jb_lib db) (pin_source s)"
    "map rr_relation (job_relations (jo_id j) db) = [pinned s n]" by (rule job_trackedE)
  from x j(2) have "x \<in> set (job_relations (jo_id j) db)"
    by (simp add: job_relations_def jobs_relation_def relation_resource_def)
  with t(8) have "job_relations (jo_id j) db = [x]" "rr_relation x = pinned s n"
    by (auto simp: map_eq_Cons_conv)
  with that j t show thesis by blast
qed


lemma snapshot_sets:
  assumes ok: "jobs_ok db" and d: "d \<in> set (lb_documents (jb_lib db))" "do_id d = did" "do_workspace d = wid"
    and sn: "take_snapshot db now wid did user = Inr sn"
  shows "sn_workspace sn = wid" "sn_document sn = did" "sn_documents sn \<noteq> []"
    and "set (sn_versions sn) = {v \<in> set (lb_versions (jb_lib db)). av_document v = did}"
    and "set (sn_jobs sn) = document_jobs db did"
    and "set (sn_owners sn) = {s \<in> set (jb_owners db). js_document s = did}"
    and "set (sn_relations sn) = {x \<in> set (jb_relations db). jobs_relation x
           \<and> relation_resource x \<in> jo_id ` document_jobs db did}"
    and "keyed js_job (sn_owners sn)" "distinct (sn_relations sn)"
proof -
  let ?docs = "filter (\<lambda>d. do_workspace d = wid \<and> do_id d = did) (lb_documents (jb_lib db))"
  let ?vers = "sort_key av_id (filter (\<lambda>v. av_document v = did) (lb_versions (jb_lib db)))"
  let ?rids = "map relation_resource (filter (\<lambda>x. jobs_relation x \<and> relation_on wid did x) (jb_relations db))"
  let ?oids = "map js_job (filter (\<lambda>s. js_workspace s = wid \<and> js_document s = did) (jb_owners db))"
  let ?jobs = "sort_key jo_id (filter (\<lambda>j. jo_version j \<in> set (map av_id ?vers) \<or> jo_id j \<in> set ?oids
    \<or> jo_id j \<in> set ?rids) (jb_jobs db))"
  define JB where "JB = ?jobs"
  let ?own = "sort_key js_job (filter (\<lambda>s. js_job s \<in> set (map jo_id JB)
    \<or> (js_workspace s = wid \<and> js_document s = did) \<or> js_job s \<in> set ?rids) (jb_owners db))"
  let ?rel = "sort_key rr_id (filter (\<lambda>x. jobs_relation x
    \<and> (relation_resource x \<in> set (map jo_id JB @ map js_job ?own) \<or> relation_on wid did x)) (jb_relations db))"
  from sn have sn': "sn = \<lparr>sn_workspace = wid, sn_document = did, sn_documents = ?docs, sn_versions = ?vers,
      sn_jobs = JB, sn_owners = ?own, sn_relations = ?rel\<rparr>"
    unfolding take_snapshot_def Let_def JB_def by (simp split: if_splits)
  have pin: "js_document s = did" if s: "s \<in> set (jb_owners db)" "js_job s = jo_id j" and j: "j \<in> set (jb_jobs db)"
    "jo_version j \<in> set (map av_id ?vers) \<or> jo_id j \<in> set ?oids \<or> jo_id j \<in> set ?rids" for j s
    using j(2)
  proof (elim disjE)
    assume "jo_version j \<in> set (map av_id ?vers)"
    then obtain v where v: "v \<in> set (lb_versions (jb_lib db))" "av_id v = jo_version j" "av_document v = did" by auto
    have "av_document v = js_document s"
      by (rule source_exists_version [OF ok tracked_unique(3) [OF ok j(1) s] v(1)])
         (simp add: v(2) tracked_unique(2) [OF ok j(1) s])
    with v(3) show ?thesis by simp
  next
    assume "jo_id j \<in> set ?oids"
    then obtain s' where s': "s' \<in> set (jb_owners db)" "js_job s' = jo_id j" "js_document s' = did" by auto
    from ok have "keyed js_job (jb_owners db)" by (simp add: jobs_ok_def)
    then have "s' = s" by (rule keyed_eq) (use s s' in simp_all)
    with s'(3) show ?thesis by simp
  next
    assume "jo_id j \<in> set ?rids"
    then obtain x where x: "x \<in> set (jb_relations db)" "jobs_relation x" "relation_on wid did x" "relation_resource x = jo_id j"
      by auto
    then have "x \<in> set (job_relations (jo_id j) db)"
      by (simp add: job_relations_def jobs_relation_def relation_resource_def)
    with tracked_unique(4) [OF ok j(1) s] obtain n where "rr_relation x = pinned s n"
      by (auto simp: map_eq_Cons_conv)
    with x(3) show ?thesis by (simp add: relation_on_def pin_source_def)
  qed
  have ver: "jo_version j \<in> set (map av_id ?vers)"
    if s: "s \<in> set (jb_owners db)" "js_job s = jo_id j" "js_document s = did" and j: "j \<in> set (jb_jobs db)" for j s
  proof -
    from tracked_unique(3) [OF ok j s(1,2)] obtain v where "v \<in> set (lb_versions (jb_lib db))" "av_id v = js_version s"
      "av_document v = js_document s" by (auto simp: source_exists_def list_ex_iff pin_source_def)
    with s(3) tracked_unique(2) [OF ok j s(1,2)] have "v \<in> set ?vers" "av_id v = jo_version j" by simp_all
    then show ?thesis unfolding set_map by (metis image_eqI)
  qed
  have owner: "\<exists>s \<in> set (jb_owners db). js_job s = jo_id j" if "j \<in> set (jb_jobs db)" for j
  proof -
    from ok that have "job_tracked db j" by (simp add: jobs_ok_def)
    then show ?thesis by (rule job_trackedE) blast
  qed
  show "sn_workspace sn = wid" "sn_document sn = did" by (simp_all add: sn')
  show "sn_documents sn \<noteq> []" using d by (auto simp: sn' filter_empty_conv)
  show "set (sn_versions sn) = {v \<in> set (lb_versions (jb_lib db)). av_document v = did}" by (simp add: sn')
  have jobs: "set JB = document_jobs db did"
  proof (intro equalityI subsetI)
    fix j
    assume "j \<in> set JB"
    then have j: "j \<in> set (jb_jobs db)" "jo_version j \<in> set (map av_id ?vers) \<or> jo_id j \<in> set ?oids \<or> jo_id j \<in> set ?rids"
      by (simp_all only: JB_def set_sort set_filter mem_Collect_eq)
    from owner [OF j(1)] obtain s where "s \<in> set (jb_owners db)" "js_job s = jo_id j" ..
    with pin [OF this j] j(1) show "j \<in> document_jobs db did" unfolding document_jobs_def by blast
  next
    fix j
    assume "j \<in> document_jobs db did"
    then obtain s where "s \<in> set (jb_owners db)" "js_job s = jo_id j" "js_document s = did" "j \<in> set (jb_jobs db)"
      unfolding document_jobs_def by blast
    with ver [OF this] show "j \<in> set JB" by (simp only: JB_def set_sort set_filter mem_Collect_eq) blast
  qed
  then show "set (sn_jobs sn) = document_jobs db did" by (simp add: sn')
  have jids: "set (map jo_id JB) = jo_id ` document_jobs db did"
    unfolding jobs [symmetric] by (rule list.set_map)
  have job_of: "\<exists>j \<in> set (jb_jobs db). jo_id j = js_job s" if "s \<in> set (jb_owners db)" for s
  proof -
    from ok that have "js_job s \<in> jo_id ` set (jb_jobs db)" by (auto simp: jobs_ok_def)
    then show ?thesis by force
  qed
  have own: "set ?own = {s \<in> set (jb_owners db). js_document s = did}"
  proof (intro equalityI subsetI)
    fix s
    assume "s \<in> set ?own"
    then have s: "s \<in> set (jb_owners db)" "js_job s \<in> set (map jo_id JB)
        \<or> (js_workspace s = wid \<and> js_document s = did) \<or> js_job s \<in> set ?rids"
      by (simp_all only: set_sort set_filter mem_Collect_eq)
    from job_of [OF s(1)] obtain j where j: "j \<in> set (jb_jobs db)" "jo_id j = js_job s" ..
    from s(2) have "js_document s = did"
    proof (elim disjE)
      assume "js_job s \<in> set (map jo_id JB)"
      then have "js_job s \<in> jo_id ` document_jobs db did" unfolding jids .
      then obtain k where k: "k \<in> document_jobs db did" "jo_id k = js_job s" by (metis imageE)
      then obtain s' where s': "s' \<in> set (jb_owners db)" "js_job s' = jo_id k" "js_document s' = did"
        by (auto simp: document_jobs_def)
      from ok have "keyed js_job (jb_owners db)" by (simp add: jobs_ok_def)
      then have "s' = s" by (rule keyed_eq) (use s(1) s'(1,2) k(2) in simp_all)
      with s'(3) show ?thesis by simp
    next
      assume "js_job s \<in> set ?rids"
      with pin [OF s(1) j(2) [symmetric] j(1)] j(2) show ?thesis by simp
    qed simp
    with s(1) show "s \<in> {s \<in> set (jb_owners db). js_document s = did}" by simp
  next
    fix s
    assume "s \<in> {s \<in> set (jb_owners db). js_document s = did}"
    then have s: "s \<in> set (jb_owners db)" "js_document s = did" by simp_all
    from job_of [OF s(1)] obtain j where j: "j \<in> set (jb_jobs db)" "jo_id j = js_job s" ..
    with s have "j \<in> document_jobs db did" unfolding document_jobs_def by force
    with j(2) have "js_job s \<in> set (map jo_id JB)" unfolding jids by force
    with s(1) show "s \<in> set ?own" by (simp only: set_sort set_filter mem_Collect_eq) blast
  qed
  have oids: "set (map js_job ?own) = js_job ` {s \<in> set (jb_owners db). js_document s = did}"
    unfolding own [symmetric] by (rule list.set_map)
  from own show "set (sn_owners sn) = {s \<in> set (jb_owners db). js_document s = did}" by (simp add: sn')
  show "keyed js_job (sn_owners sn)"
    using ok by (simp add: sn' jobs_ok_def keyed_sort_key keyed_filter)
  show "distinct (sn_relations sn)"
    using ok by (simp add: sn' jobs_ok_def keyed_def distinct_map)
  have rel: "set ?rel = {x \<in> set (jb_relations db). jobs_relation x \<and> relation_resource x \<in> jo_id ` document_jobs db did}"
  proof (intro equalityI subsetI)
    fix x
    assume "x \<in> set ?rel"
    then have x: "x \<in> set (jb_relations db)" "jobs_relation x"
      "relation_resource x \<in> set (map jo_id JB @ map js_job ?own) \<or> relation_on wid did x"
      by (simp_all only: set_sort set_filter mem_Collect_eq)
    from job_relation_pinned [OF ok x(1,2)] obtain j s n where j: "j \<in> set (jb_jobs db)" "s \<in> set (jb_owners db)"
      "js_job s = jo_id j" "jo_id j = relation_resource x" "rr_relation x = pinned s n" by metis
    from x(3) have "js_document s = did"
    proof
      assume "relation_on wid did x"
      with j(5) show ?thesis by (simp add: relation_on_def pin_source_def)
    next
      assume "relation_resource x \<in> set (map jo_id JB @ map js_job ?own)"
      then have "relation_resource x \<in> jo_id ` document_jobs db did
          \<or> relation_resource x \<in> js_job ` {s \<in> set (jb_owners db). js_document s = did}"
        unfolding set_append oids unfolding jids by blast
      then obtain s' where s': "s' \<in> set (jb_owners db)" "js_job s' = relation_resource x" "js_document s' = did"
        by (auto simp: document_jobs_def)
      from ok have "keyed js_job (jb_owners db)" by (simp add: jobs_ok_def)
      then have "s' = s" by (rule keyed_eq) (use s'(1,2) j(2-4) in simp_all)
      with s'(3) show ?thesis by simp
    qed
    with j have "j \<in> document_jobs db did" unfolding document_jobs_def by blast
    with x(1,2) j(4) show "x \<in> {x \<in> set (jb_relations db). jobs_relation x \<and> relation_resource x \<in> jo_id ` document_jobs db did}"
      by force
  next
    fix x
    assume "x \<in> {x \<in> set (jb_relations db). jobs_relation x \<and> relation_resource x \<in> jo_id ` document_jobs db did}"
    moreover have "set (map jo_id JB @ map js_job ?own) \<supseteq> jo_id ` document_jobs db did"
      unfolding set_append jids by blast
    ultimately show "x \<in> set ?rel" by (simp only: set_sort set_filter mem_Collect_eq) blast
  qed
  then show "set (sn_relations sn) = {x \<in> set (jb_relations db). jobs_relation x
           \<and> relation_resource x \<in> jo_id ` document_jobs db did}" by (simp add: sn')
qed


lemma reconcile_reachable:
  assumes ok: "jobs_ok db" and d: "d \<in> set (lb_documents (jb_lib db))" "do_id d = did" "do_workspace d = wid"
    and sn: "take_snapshot db now wid did user = Inr sn"
  shows "set (reconcile sn) =
      (if document_jobs db did = {} then {} else {b_writer_unconfirmed})
    \<union> (if \<forall>v \<in> set (lb_versions (jb_lib db)). av_document v = did \<longrightarrow>
             (\<exists>j \<in> document_jobs db did. jo_version j = av_id v)
       then {} else {b_legacy_untracked})"
proof -
  note s = snapshot_sets [OF assms]
  have pinned_job: "\<exists>p n x. p \<in> set (jb_owners db) \<and> js_job p = jo_id j \<and> js_document p = did \<and> js_workspace p = wid
      \<and> js_version p = jo_version j \<and> jo_workspace j = wid \<and> jo_revision j = Some n \<and> 1 \<le> n
      \<and> job_relations (jo_id j) db = [x] \<and> rr_relation x = pinned p n
      \<and> jo_version j \<in> av_id ` set (sn_versions sn)" if j: "j \<in> document_jobs db did" for j
  proof -
    from j obtain p where p: "j \<in> set (jb_jobs db)" "p \<in> set (jb_owners db)" "js_job p = jo_id j" "js_document p = did"
      unfolding document_jobs_def by blast
    note u = tracked_unique [OF ok p(1-3)]
    from u(4) obtain n x where "1 \<le> n" "jo_revision j = Some n" "job_relations (jo_id j) db = [x]" "rr_relation x = pinned p n"
      by (auto simp: map_eq_Cons_conv)
    moreover have "js_workspace p = wid"
      using source_exists_workspace [OF ok u(3) d(1)] d p(4) by simp
    moreover from u(3) obtain v where "v \<in> set (lb_versions (jb_lib db))" "av_id v = js_version p" "av_document v = js_document p"
      by (auto simp: source_exists_def list_ex_iff pin_source_def)
    with p(4) u(2) have "v \<in> set (sn_versions sn)" "jo_version j = av_id v" by (simp_all add: s(4))
    then have "jo_version j \<in> av_id ` set (sn_versions sn)" by (metis image_eqI)
    ultimately show ?thesis using p u(1,2) by metis
  qed
  have row: "row_by js_job (jo_id j) (sn_owners sn) = Some p"
    if "p \<in> set (jb_owners db)" "js_job p = jo_id j" "js_document p = did" for j p
    using that s(8) by (simp add: row_by_Some_iff s(6))
  have quiet: "job_blockers sn j = []" if "j \<in> document_jobs db did" for j
  proof -
    from pinned_job [OF that] obtain p n where "p \<in> set (jb_owners db)" "js_job p = jo_id j" "js_document p = did"
      "js_workspace p = wid" "js_version p = jo_version j" "jo_workspace j = wid" "jo_revision j = Some n" "1 \<le> n"
      "jo_version j \<in> av_id ` set (sn_versions sn)" by blast
    with row [of p j] show ?thesis by (simp add: job_blockers_def s(1,2) flag_def)
  qed
  then have loop: "set (concat (map (job_blockers sn) (sn_jobs sn))) = {}" by (simp add: s(5))
  have tracked: "set (filter valid_revision (sn_jobs sn)) = document_jobs db did"
    using pinned_job by (fastforce simp: s(5) valid_revision_def)
  have owners: "js_job ` set (sn_owners sn) \<subseteq> jo_id ` set (sn_jobs sn)"
  proof
    fix i
    assume "i \<in> js_job ` set (sn_owners sn)"
    then obtain p where p: "p \<in> set (jb_owners db)" "js_document p = did" "i = js_job p" by (auto simp: s(6))
    moreover from ok p(1) have "js_job p \<in> jo_id ` set (jb_jobs db)" by (auto simp: jobs_ok_def)
    then obtain j where j: "j \<in> set (jb_jobs db)" "jo_id j = js_job p" by force
    ultimately have "j \<in> document_jobs db did" unfolding document_jobs_def by force
    with j(2) p(3) show "i \<in> jo_id ` set (sn_jobs sn)" unfolding s(5) by force
  qed
  have tuple: "relation_tuple (rr_relation x) = expected_relation sn j \<and> x \<in> set (jb_relations db) \<and> jobs_relation x
      \<and> relation_resource x = jo_id j" if "j \<in> document_jobs db did" "job_relations (jo_id j) db = [x]" for j x
  proof -
    from pinned_job [OF that(1)] that(2) obtain p n where "js_job p = jo_id j" "js_document p = did" "js_workspace p = wid"
      "js_version p = jo_version j" "jo_revision j = Some n" "rr_relation x = pinned p n" by auto
    moreover from that(2) have "x \<in> set (job_relations (jo_id j) db)" by simp
    ultimately show ?thesis
      by (simp add: job_relations_def relation_tuple_def expected_relation_def pin_source_def s(1,2) jobs_relation_def
          relation_resource_def)
  qed
  have of_relation: "\<exists>j \<in> document_jobs db did. job_relations (jo_id j) db = [x]" if "x \<in> set (sn_relations sn)" for x
  proof -
    from that have x: "x \<in> set (jb_relations db)" "jobs_relation x" "relation_resource x \<in> jo_id ` document_jobs db did"
      by (simp_all add: s(7))
    then obtain j where j: "j \<in> document_jobs db did" "relation_resource x = jo_id j" by auto
    from pinned_job [OF j(1)] obtain y where y: "job_relations (jo_id j) db = [y]" by blast
    from x j(2) have "x \<in> set (job_relations (jo_id j) db)"
      by (simp add: job_relations_def jobs_relation_def relation_resource_def)
    with y have "job_relations (jo_id j) db = [x]" by simp
    with j(1) show ?thesis ..
  qed
  let ?t = "\<lambda>x. relation_tuple (rr_relation x)"
  have actual: "?t ` set (sn_relations sn) = expected_relation sn ` document_jobs db did"
  proof (intro equalityI subsetI)
    fix y
    assume "y \<in> ?t ` set (sn_relations sn)"
    then obtain x where x: "x \<in> set (sn_relations sn)" "y = ?t x" by auto
    from of_relation [OF x(1)] obtain j where j: "j \<in> document_jobs db did" "job_relations (jo_id j) db = [x]" ..
    from tuple [OF j] x(2) j(1) show "y \<in> expected_relation sn ` document_jobs db did" by blast
  next
    fix y
    assume "y \<in> expected_relation sn ` document_jobs db did"
    then obtain j where j: "j \<in> document_jobs db did" "y = expected_relation sn j" by auto
    from pinned_job [OF j(1)] obtain x where x: "job_relations (jo_id j) db = [x]" by blast
    from tuple [OF j(1) x] j have "x \<in> set (sn_relations sn)" "y = ?t x" by (auto simp: s(7))
    then show "y \<in> ?t ` set (sn_relations sn)" by blast
  qed
  have "inj_on ?t (set (sn_relations sn))"
  proof (rule inj_onI)
    fix x y
    assume x: "x \<in> set (sn_relations sn)" "y \<in> set (sn_relations sn)" "?t x = ?t y"
    from of_relation [OF x(1)] obtain j where j: "j \<in> document_jobs db did" "job_relations (jo_id j) db = [x]" ..
    from of_relation [OF x(2)] obtain k where k: "k \<in> document_jobs db did" "job_relations (jo_id k) db = [y]" ..
    from tuple [OF j] tuple [OF k] x(3) have "jo_id j = jo_id k" by (simp add: expected_relation_def)
    with j(2) k(2) show "x = y" by simp
  qed
  then have "card (?t ` set (sn_relations sn)) = length (sn_relations sn)"
    using s(9) by (simp add: card_image distinct_card)
  then have relations: "\<not> (set (map ?t (sn_relations sn)) \<noteq> set (map (expected_relation sn) (filter valid_revision (sn_jobs sn)))
      \<or> card (set (map ?t (sn_relations sn))) \<noteq> length (sn_relations sn))"
    by (simp only: set_map tracked actual) (simp add: actual)
  have busy: "(sn_jobs sn \<noteq> [] \<or> sn_owners sn \<noteq> [] \<or> sn_relations sn \<noteq> []) \<longleftrightarrow> document_jobs db did \<noteq> {}"
  proof -
    have "sn_jobs sn = [] \<longleftrightarrow> document_jobs db did = {}" using s(5) by (metis set_empty)
    moreover have "sn_owners sn \<noteq> [] \<Longrightarrow> document_jobs db did \<noteq> {}" using owners s(5)
      by (metis image_is_empty set_empty subset_empty)
    moreover have "sn_relations sn \<noteq> [] \<Longrightarrow> document_jobs db did \<noteq> {}"
      using of_relation by (metis empty_iff list.set_intros(1) neq_Nil_conv)
    ultimately show ?thesis by blast
  qed
  have cover: "av_id ` set (sn_versions sn) \<subseteq> jo_version ` set (filter valid_revision (sn_jobs sn)) \<longleftrightarrow>
      (\<forall>v \<in> set (lb_versions (jb_lib db)). av_document v = did \<longrightarrow> (\<exists>j \<in> document_jobs db did. jo_version j = av_id v))"
    unfolding tracked s(4) by (auto simp: image_iff eq_commute subset_eq)
  have src: "(sn_documents sn = []) = False" using s(3) by simp
  have own': "(\<not> js_job ` set (sn_owners sn) \<subseteq> jo_id ` set (sn_jobs sn)) = False" using owners by simp
  have rel': "(set (map ?t (sn_relations sn)) \<noteq> set (map (expected_relation sn) (filter valid_revision (sn_jobs sn)))
      \<or> card (set (map ?t (sn_relations sn))) \<noteq> length (sn_relations sn)) = False" using relations by simp
  show ?thesis
    unfolding reconcile_def Let_def set_append loop src own' rel' busy cover set_flag by simp
qed

end
