(* ===== verification/Job_History.thy ===== *)
theory Job_History
  imports Job_Invariant
begin

text \<open>
  The histories of the job tables.  They start right after migration \<^verbatim>\<open>0048_job_metadata_ownership\<close>,
  with any number of legacy jobs, whose revision is NULL and which have neither pin nor relation.
  Jobs are created for the verification of assets (\<^verbatim>\<open>platform/jobs/service.py\<close>) and for RAG ingestion
  (\<^verbatim>\<open>labs/rag/ingestion/repository.py\<close>), updated by their workers, and the library and the relations of
  other participants change meanwhile.
\<close>

section \<open>Steps\<close>

inductive job_step :: "job_db \<Rightarrow> job_db \<Rightarrow> bool" where
  create: "create_asset_verification fresh fresh' user wid version db = Inr (db', j, created) \<Longrightarrow> job_step db db'"
| ingest: "job_add fresh' (new_job fresh user wid version RAG_INGESTION key) db = Inr (db', j) \<Longrightarrow> job_step db db'"
| update: "job_update j db = Inr (db', j') \<Longrightarrow> job_step db db'"
| library: "sources_kept (jb_lib db) lib \<Longrightarrow> job_step db (db\<lparr>jb_lib := lib\<rparr>)"
| others: "register_relation fresh r db = Inr db' \<Longrightarrow> ri_participant (sr_resource r) \<noteq> jobs_participant \<Longrightarrow>
    job_step db db'"

inductive_cases job_stepE: "job_step db db'"

abbreviation idempotency :: "job \<Rightarrow> uuid \<times> job_type \<times> pystr" where
  "idempotency j \<equiv> (jo_user j, jo_type j, jo_key j)"

inductive job_reachable :: "job_db \<Rightarrow> bool" where
  start: "keyed do_id (lb_documents lib) \<Longrightarrow> keyed av_id (lb_versions lib) \<Longrightarrow>
    keyed jo_id legacy \<Longrightarrow> keyed idempotency legacy \<Longrightarrow> \<forall>j \<in> set legacy. jo_revision j = None \<Longrightarrow>
    keyed rr_id others \<Longrightarrow> \<forall>x \<in> set others. ri_participant (sr_resource (rr_relation x)) \<noteq> jobs_participant \<Longrightarrow>
    job_reachable \<lparr>jb_lib = lib, jb_jobs = legacy, jb_owners = [], jb_relations = others\<rparr>"
| step: "job_reachable db \<Longrightarrow> job_step db db' \<Longrightarrow> job_reachable db'"

section \<open>The jobs with a revision\<close>

text \<open>
  Every operation does to the tables without the legacy jobs what it does to the tables, so their
  invariant carries over; an update of a legacy job changes no other table.
\<close>

definition tracked_part :: "job_db \<Rightarrow> job_db" where
  "tracked_part db = db\<lparr>jb_jobs := filter (\<lambda>j. jo_revision j \<noteq> None) (jb_jobs db)\<rparr>"

lemma tracked_part_sel [simp]:
  "jb_lib (tracked_part db) = jb_lib db" "jb_owners (tracked_part db) = jb_owners db"
  "jb_relations (tracked_part db) = jb_relations db" "job_relations i (tracked_part db) = job_relations i db"
  "jb_jobs (tracked_part db) = filter (\<lambda>j. jo_revision j \<noteq> None) (jb_jobs db)"
  by (simp_all add: tracked_part_def)

definition job_tables_ok :: "job_db \<Rightarrow> bool" where
  "job_tables_ok db \<longleftrightarrow>
     jobs_ok (tracked_part db) \<and> keyed jo_id (jb_jobs db) \<and> keyed idempotency (jb_jobs db)"

lemma tracked_part_id: "\<forall>j \<in> set (jb_jobs db). jo_revision j \<noteq> None \<Longrightarrow> tracked_part db = db"
  by (simp add: tracked_part_def)

lemma row_by_filter_None: "row_by k i xs = None \<Longrightarrow> row_by k i (filter P xs) = None"
  by (auto simp: row_by_None_iff)

lemma row_by_filter_Some: "keyed k xs \<Longrightarrow> row_by k i xs = Some x \<Longrightarrow> P x \<Longrightarrow> row_by k i (filter P xs) = Some x"
  by (simp add: row_by_Some_iff keyed_filter)

lemma filter_put_row:
  assumes "keyed k xs" "row_by k (k y) xs = Some x" "P x = P y"
  shows "filter P (put_row k y xs) = (if P y then put_row k y (filter P xs) else filter P xs)"
proof -
  from assms(1,2) have x: "z = x" if "z \<in> set xs" "k z = k y" for z
    using that by (auto simp: keyed_def distinct_map inj_on_def dest!: row_by_SomeD)
  have "filter P (map (\<lambda>z. if k z = k y then y else z) zs)
      = (if P y then map (\<lambda>z. if k z = k y then y else z) (filter P zs) else filter P zs)"
    if "set zs \<subseteq> set xs" for zs
    using that by (induction zs) (auto dest!: x simp: assms(3))
  then show ?thesis by (simp add: put_row_def)
qed

lemma register_relation_jobs:
  "register_relation fresh r (db\<lparr>jb_jobs := js\<rparr>) =
     rbind (register_relation fresh r db) (\<lambda>d. Inr (d\<lparr>jb_jobs := js\<rparr>))"
  by (simp add: register_relation_def)

lemma register_relation_same: "register_relation fresh r db = Inr db' \<Longrightarrow> jb_jobs db' = jb_jobs db"
  by (auto simp: register_relation_def split: if_splits)

lemma replace_current_jobs:
  "replace_current a b (db\<lparr>jb_jobs := js\<rparr>) = rbind (replace_current a b db) (\<lambda>d. Inr (d\<lparr>jb_jobs := js\<rparr>))"
  by (simp add: replace_current_def Let_def split: list.splits)

lemma replace_current_same: "replace_current a b db = Inr db' \<Longrightarrow> jb_jobs db' = jb_jobs db"
  by (auto simp: replace_current_def Let_def split: list.splits if_splits)

subsection \<open>Creating a job\<close>

lemma job_add_tracked_part:
  assumes "job_add fresh j db = Inr (db', row)"
  shows "job_add fresh j (tracked_part db) = Inr (tracked_part db', row)"
    and "jb_jobs db' = jb_jobs db @ [j\<lparr>jo_revision := Some 1\<rparr>]"
    and "row_by jo_id (jo_id j) (jb_jobs db) = None" "row_by idempotency (idempotency j) (jb_jobs db) = None"
proof -
  let ?row = "j\<lparr>jo_revision := Some 1\<rparr>"
  from assms obtain did r where src: "version_source (jb_lib db) (jo_version j) = Some (jo_workspace j, did)"
    and new: "row_by jo_id (jo_id j) (jb_jobs db) = None" "find_by_idempotency db (jo_user j) (jo_type j) (jo_key j) = None"
      "row_by js_job (jo_id j) (jb_owners db) = None" and row: "row = ?row"
    and rel: "ownership_relation \<lparr>js_job = jo_id j, js_workspace = jo_workspace j, js_document = did, js_version = jo_version j\<rparr> 1 = Inr r"
    and reg: "register_relation fresh r (db\<lparr>jb_jobs := jb_jobs db @ [?row], jb_owners := jb_owners db @
        [\<lparr>js_job = jo_id j, js_workspace = jo_workspace j, js_document = did, js_version = jo_version j\<rparr>]\<rparr>) = Inr db'"
    by (auto simp: job_add_def Let_def split: option.splits if_splits)
  show jobs: "jb_jobs db' = jb_jobs db @ [?row]" using register_relation_same [OF reg] by simp
  show "row_by jo_id (jo_id j) (jb_jobs db) = None" "row_by idempotency (idempotency j) (jb_jobs db) = None"
    using new by (simp_all add: find_by_idempotency_def)
  let ?t = "filter (\<lambda>j. jo_revision j \<noteq> None) (jb_jobs db) @ [?row]"
  let ?pins = "jb_owners db @
        [\<lparr>js_job = jo_id j, js_workspace = jo_workspace j, js_document = did, js_version = jo_version j\<rparr>]"
  let ?new = "db\<lparr>jb_jobs := jb_jobs db @ [?row], jb_owners := ?pins\<rparr>"
  have "tracked_part db\<lparr>jb_jobs := ?t, jb_owners := ?pins\<rparr> = ?new\<lparr>jb_jobs := ?t\<rparr>" by (simp add: tracked_part_def)
  then have "register_relation fresh r (tracked_part db\<lparr>jb_jobs := ?t, jb_owners := ?pins\<rparr>) = Inr (db'\<lparr>jb_jobs := ?t\<rparr>)"
    by (simp only: register_relation_jobs reg rbind_simps)
  moreover have "db'\<lparr>jb_jobs := ?t\<rparr> = tracked_part db'" by (simp add: tracked_part_def jobs)
  ultimately show "job_add fresh j (tracked_part db) = Inr (tracked_part db', row)"
    using src new rel by (simp add: job_add_def Let_def row row_by_filter_None find_by_idempotency_def)
qed

lemma job_add_tables_ok:
  assumes "job_add fresh j db = Inr (db', row)" "job_tables_ok db"
  shows "job_tables_ok db'"
  using job_add_tracked_part [OF assms(1)] assms(2) job_add_ok [of fresh j "tracked_part db"]
  by (simp add: job_tables_ok_def keyed_snoc)

subsection \<open>Updating a job\<close>

lemma advance_ownership_jobs:
  "advance_ownership row (db\<lparr>jb_jobs := js\<rparr>) =
     rbind (advance_ownership row db) (\<lambda>(d, n). Inr (d\<lparr>jb_jobs := js\<rparr>, n))"
  by (auto simp: advance_ownership_def Let_def replace_current_jobs recover_def rbind_def
      split: option.splits list.splits sum.splits)

lemma advance_ownership_same:
  "advance_ownership row db = Inr (d, n) \<Longrightarrow> jb_jobs d = jb_jobs db \<and> (n = None \<longleftrightarrow> jo_revision row = None)
     \<and> (jo_revision row = None \<longrightarrow> d = db)"
  by (auto simp: advance_ownership_def Let_def recover_def rbind_def
      split: option.splits list.splits sum.splits if_splits dest: replace_current_same)

lemma job_update_tracked_part:
  assumes up: "job_update j db = Inr (db', row')" and k: "keyed jo_id (jb_jobs db)"
  shows "jb_jobs db' = put_row jo_id row' (jb_jobs db)" "\<exists>row. row_by jo_id (jo_id row') (jb_jobs db) = Some row
      \<and> job_identity row = job_identity row'"
    and "jo_revision j = None \<Longrightarrow> tracked_part db' = tracked_part db"
    and "jo_revision j \<noteq> None \<Longrightarrow> job_update j (tracked_part db) = Inr (tracked_part db', row')"
proof -
  from up obtain row db1 nr where row: "row_by jo_id (jo_id j) (jb_jobs db) = Some row"
    "job_identity row = job_identity j" "jo_revision row = jo_revision j" "advance_ownership row db = Inr (db1, nr)"
    and row': "row' = row\<lparr>jo_status := jo_status j, jo_stage := jo_stage j, jo_attempt := jo_attempt j,
        jo_error_code := jo_error_code j, jo_error_message := jo_error_message j,
        jo_started := jo_started j, jo_finished := jo_finished j, jo_revision := nr\<rparr>"
    and db': "db' = db1\<lparr>jb_jobs := put_row jo_id row' (jb_jobs db1)\<rparr>" by (rule job_update_Inr)
  from row(1) have id: "jo_id row = jo_id j" by (auto dest: row_by_SomeD)
  note same = advance_ownership_same [OF row(4)]
  show jobs: "jb_jobs db' = put_row jo_id row' (jb_jobs db)" using same by (simp add: db')
  from row(1) id show "\<exists>row. row_by jo_id (jo_id row') (jb_jobs db) = Some row \<and> job_identity row = job_identity row'"
    by (intro exI [of _ row]) (simp add: row' job_identity_def)
  have tracked: "(jo_revision row \<noteq> None) = (jo_revision row' \<noteq> None)" using same by (simp add: row')
  have rid: "row_by jo_id (jo_id row') (jb_jobs db) = Some row" using row(1) id by (simp add: row')
  note fil = filter_put_row [OF k rid, of "\<lambda>j. jo_revision j \<noteq> None", OF tracked]
  show "tracked_part db' = tracked_part db" if "jo_revision j = None"
    using that same row(3) fil tracked by (simp add: tracked_part_def jobs [unfolded db'] db')
  show "job_update j (tracked_part db) = Inr (tracked_part db', row')" if r: "jo_revision j \<noteq> None"
  proof -
    let ?f = "filter (\<lambda>j. jo_revision j \<noteq> None) (jb_jobs db)"
    have "row_by jo_id (jo_id j) ?f = Some row"
      using r row(3) by (intro row_by_filter_Some [OF k row(1)]) simp
    moreover have "advance_ownership row (tracked_part db) = Inr (db1\<lparr>jb_jobs := ?f\<rparr>, nr)"
      unfolding tracked_part_def advance_ownership_jobs row(4) by simp
    moreover have "tracked_part db' = db1\<lparr>jb_jobs := put_row jo_id row' ?f\<rparr>"
      using fil tracked r row(3) same by (simp add: tracked_part_def db')
    moreover have "\<not> (case jo_revision j of None \<Rightarrow> False | Some n \<Rightarrow> n < 1)"
      using up row(1,2,3) by (auto simp: job_update_def validate_identity_def split: option.splits if_splits)
    ultimately show ?thesis using row(2,3)
      by (simp add: job_update_def validate_identity_def Let_def row' [symmetric])
  qed
qed

lemma keyed_put_row_same:
  assumes "keyed k xs" "row_by k (k y) xs = Some x" "key x = key y" "keyed key xs"
  shows "keyed key (put_row k y xs)"
proof -
  from assms(1,2) have x: "z = x" if "z \<in> set xs" "k z = k y" for z
    using that by (auto simp: keyed_def distinct_map inj_on_def dest!: row_by_SomeD)
  have "map key (put_row k y xs) = map key xs"
    unfolding put_row_def using x assms(3) by (auto simp: comp_def)
  with assms(4) show ?thesis by (simp add: keyed_def)
qed

lemma job_update_tables_ok:
  assumes up: "job_update j db = Inr (db', row')" and ok: "job_tables_ok db"
  shows "job_tables_ok db'"
proof -
  from ok have k: "keyed jo_id (jb_jobs db)" "keyed idempotency (jb_jobs db)" by (simp_all add: job_tables_ok_def)
  note t = job_update_tracked_part [OF up k(1)]
  from t(2) obtain row where row: "row_by jo_id (jo_id row') (jb_jobs db) = Some row" "job_identity row = job_identity row'"
    by blast
  have "jobs_ok (tracked_part db')"
    using t(3,4) ok job_update_ok(1) [of j "tracked_part db"] by (cases "jo_revision j") (auto simp: job_tables_ok_def)
  moreover have "keyed jo_id (jb_jobs db')" "keyed idempotency (jb_jobs db')"
    unfolding t(1) using row by (auto intro!: keyed_put_row_same [OF k(1) row(1)] k simp: job_identity_def)
  ultimately show ?thesis by (simp add: job_tables_ok_def)
qed

section \<open>Every reachable state\<close>

lemma job_step_ok: "job_step db db' \<Longrightarrow> job_tables_ok db \<Longrightarrow> job_tables_ok db'"
proof (induction rule: job_step.induct)
  case (create fresh fresh' user wid version db db' j created)
  then show ?case
    by (auto simp: create_asset_verification_def Let_def intro: job_add_tables_ok split: option.splits)
next
  case (library db lib)
  then have "jobs_ok (tracked_part db\<lparr>jb_lib := lib\<rparr>)"
    by (intro library_step_ok) (simp_all add: job_tables_ok_def)
  moreover have "tracked_part db\<lparr>jb_lib := lib\<rparr> = tracked_part (db\<lparr>jb_lib := lib\<rparr>)" by (simp add: tracked_part_def)
  ultimately show ?case using library by (simp add: job_tables_ok_def)
next
  case (others fresh r db db')
  then have "register_relation fresh r (tracked_part db) = Inr (tracked_part db')"
    using register_relation_same [of fresh r db db'] by (simp add: tracked_part_def register_relation_jobs)
  with others show ?case
    using register_relation_same [of fresh r db db'] register_other_ok [of fresh r "tracked_part db"]
    by (simp add: job_tables_ok_def)
qed (blast intro: job_add_tables_ok job_update_tables_ok)+

lemma job_reachable_ok: "job_reachable db \<Longrightarrow> job_tables_ok db"
proof (induction rule: job_reachable.induct)
  case (start lib legacy others)
  then have "filter (\<lambda>j. jo_revision j \<noteq> None) legacy = []" by (simp add: filter_empty_conv)
  with start show ?case by (simp add: job_tables_ok_def jobs_ok_def tracked_part_def keyed_def)
qed (blast intro: job_step_ok)

text \<open>A legacy job has no pin and no relation of the participant.\<close>

lemma legacy_untouched:
  assumes "job_tables_ok db" "j \<in> set (jb_jobs db)" "jo_revision j = None"
  shows "row_by js_job (jo_id j) (jb_owners db) = None" "job_relations (jo_id j) db = []"
proof -
  from assms have ids: "jo_id j \<notin> jo_id ` set (jb_jobs (tracked_part db))"
    by (auto simp: job_tables_ok_def keyed_def distinct_map inj_on_def)
  from assms(1) have pins: "js_job ` set (jb_owners db) \<subseteq> jo_id ` set (jb_jobs (tracked_part db))"
    and rels: "\<And>x. x \<in> set (jb_relations db) \<Longrightarrow> ri_participant (sr_resource (rr_relation x)) = jobs_participant \<Longrightarrow>
      ri_resource (sr_resource (rr_relation x)) \<in> jo_id ` set (jb_jobs (tracked_part db))"
    unfolding job_tables_ok_def jobs_ok_def tracked_part_sel(1-3) by blast+
  from pins ids show "row_by js_job (jo_id j) (jb_owners db) = None" by (auto simp: row_by_None_iff)
  have "False" if "x \<in> set (job_relations (jo_id j) db)" for x
    using that ids rels [of x] by (auto simp: job_relations_def simp del: tracked_part_sel)
  then show "job_relations (jo_id j) db = []" by (cases "job_relations (jo_id j) db") auto
qed

lemma job_reachable_tracked: "job_reachable db \<Longrightarrow> \<forall>j \<in> set (jb_jobs db). jo_revision j \<noteq> None \<Longrightarrow> jobs_ok db"
  using job_reachable_ok [of db] tracked_part_id [of db] by (simp add: job_tables_ok_def)

end
