(* ===== verification/Asset_Verification.thy ===== *)
theory Asset_Verification
  imports Job_Invariant
begin

text \<open>
  The verification of uploaded assets (\<^verbatim>\<open>platform/assets/tasks.py\<close>) and the dispatcher that
  starts it (\<^verbatim>\<open>platform/assets/dispatch.py\<close>).  Each method is one transaction over the library
  and the jobs: an exception inside it leaves the tables as they were, one raised after the
  commit does not.
\<close>

section \<open>Transactions\<close>

text \<open>Commit what \<open>m\<close> computed and return \<open>x\<close>; roll back when it raised.\<close>

definition commit_as :: "'a res \<Rightarrow> job_db \<Rightarrow> (job_db \<times> 'b) res \<Rightarrow> job_db \<times> 'a res" where
  "commit_as x db m = (case m of Inl e \<Rightarrow> (db, Inl e) | Inr (db', _) \<Rightarrow> (db', x))"

lemma commit_as_simps [simp]:
  "commit_as x db (Inl e) = (db, Inl e)" "commit_as x db (Inr (db', y)) = (db', x)"
  by (simp_all add: commit_as_def)

abbreviation fatal :: "string \<Rightarrow> exn" where
  "fatal code \<equiv> TaskError code False"

abbreviation verifying_stage :: pystr where
  "verifying_stage \<equiv> lit ''verifying_object''"

section \<open>The lifecycle\<close>

definition restarted :: "job \<Rightarrow> job" where
  "restarted j = j\<lparr>jo_status := RUNNING, jo_stage := verifying_stage, jo_attempt := jo_attempt j + 1,
     jo_error_code := None, jo_error_message := None, jo_finished := None\<rparr>"

definition verify_begin :: "int \<Rightarrow> uuid \<Rightarrow> job_db \<Rightarrow> job_db \<times> asset_version option res" where
  "verify_begin now jid db =
     (case find_job db jid of
        None \<Rightarrow> (db, Inl (fatal ''job_not_found''))
      | Some j \<Rightarrow>
          (case find_version (jb_lib db) (jo_version j) of
             None \<Rightarrow>
               if jo_status j = RUNNING
               then commit_as (Inl (fatal ''asset_version_not_found'')) db
                 (rbind (job_fail (lit ''asset_version_not_found'') (lit ''The asset version does not exist.'') None now j)
                    (\<lambda>j'. job_update j' db))
               else (db, Inl (fatal ''asset_version_not_found''))
           | Some v \<Rightarrow>
               (case jo_status j of
                  SUCCEEDED \<Rightarrow>
                    if jo_stage j = lit ''stored'' \<and> av_status v = STORED
                    then commit_as (Inr (Some v)) db (job_update (restarted j) db)
                    else if av_status v = READY then (db, Inr None)
                    else (db, Inl (fatal ''verification_state_inconsistent''))
                | FAILED \<Rightarrow> (db, Inl (fatal ''job_terminal''))
                | QUEUED \<Rightarrow> commit_as (Inr (Some v)) db
                    (rbind (job_start verifying_stage None now j) (\<lambda>j'. job_update j' db))
                | RUNNING \<Rightarrow>
                    if jo_stage j \<noteq> verifying_stage
                    then commit_as (Inr (Some v)) db (rbind (job_advance verifying_stage j) (\<lambda>j'. job_update j' db))
                    else (db, Inr (Some v)))))"

definition verified_version_id :: "uuid \<Rightarrow> job_db \<Rightarrow> uuid res" where
  "verified_version_id jid db =
     (case find_job db jid of
        None \<Rightarrow> Inl (fatal ''job_not_found'')
      | Some j \<Rightarrow> if jo_status j \<noteq> SUCCEEDED then Inl (fatal ''job_not_verified'') else Inr (jo_version j))"

definition mark_ready :: "asset_version \<Rightarrow> document \<Rightarrow> int option \<Rightarrow> library_db \<Rightarrow> library_db" where
  "mark_ready v d active_number lib =
     (let lib' = lib\<lparr>lb_versions := put_row av_id (v\<lparr>av_status := READY\<rparr>) (lb_versions lib)\<rparr>
      in if (case active_number of None \<Rightarrow> True | Some n \<Rightarrow> av_number v > n)
         then lib'\<lparr>lb_documents := put_row do_id (d\<lparr>do_active := Some (av_id v)\<rparr>) (lb_documents lib')\<rparr>
         else lib')"

definition verify_succeed :: "int \<Rightarrow> uuid \<Rightarrow> job_db \<Rightarrow> job_db \<times> unit res" where
  "verify_succeed now jid db =
     (case find_job db jid of
        None \<Rightarrow> (db, Inl (fatal ''job_not_found''))
      | Some j \<Rightarrow>
          if jo_status j = SUCCEEDED then (db, Inr ())
          else if jo_status j = FAILED then (db, Inr ())
          else if jo_status j \<noteq> RUNNING then (db, Inl (fatal ''job_not_running''))
          else case find_version (jb_lib db) (jo_version j) of
              None \<Rightarrow> (db, Inl (fatal ''asset_version_not_found''))
            | Some v \<Rightarrow>
                (case row_by do_id (av_document v) (lb_documents (jb_lib db)) of
                   None \<Rightarrow> (db, Inl (fatal ''document_not_found''))
                 | Some d \<Rightarrow>
                     if av_status v \<noteq> STORED then (db, Inl (fatal ''asset_version_not_stored''))
                     else case (case do_active d of
                                  None \<Rightarrow> Inr None
                                | Some a \<Rightarrow> (case find_version (jb_lib db) a of
                                     None \<Rightarrow> Inl (fatal ''active_asset_version_not_found'')
                                   | Some w \<Rightarrow> Inr (Some (av_number w)))) of
                         Inl e \<Rightarrow> (db, Inl e)
                       | Inr active_number \<Rightarrow>
                           commit_as (Inr ()) db
                             (rbind (job_succeed (lit ''ready'') None now j) (\<lambda>j'.
                                job_update j' (db\<lparr>jb_lib := mark_ready v d active_number (jb_lib db)\<rparr>)))))"

definition verify_fail :: "int \<Rightarrow> pystr \<Rightarrow> pystr \<Rightarrow> uuid \<Rightarrow> job_db \<Rightarrow> job_db \<times> unit res" where
  "verify_fail now code message jid db =
     (case find_job db jid of
        None \<Rightarrow> (db, Inr ())
      | Some j \<Rightarrow>
          if jo_status j \<in> {FAILED, SUCCEEDED} then (db, Inr ())
          else commit_as (Inr ()) db
            (rbind (if jo_status j = QUEUED then job_start verifying_stage None now j else Inr j) (\<lambda>j1.
             rbind (job_fail code message None now j1) (\<lambda>j2. job_update j2 db))))"

definition verify_retry :: "int \<Rightarrow> pystr \<Rightarrow> pystr \<Rightarrow> uuid \<Rightarrow> job_db \<Rightarrow> job_db \<times> unit res" where
  "verify_retry now code message jid db =
     (case find_job db jid of
        None \<Rightarrow> (db, Inr ())
      | Some j \<Rightarrow>
          if jo_status j \<in> {FAILED, SUCCEEDED} then (db, Inr ())
          else commit_as (Inr ()) db
            (rbind (if jo_status j = QUEUED then job_start (lit ''retrying_verification'') None now j
                    else job_advance (lit ''retrying_verification'') j) (\<lambda>j1.
               job_update (j1\<lparr>jo_error_code := Some (take 100 code), jo_error_message := Some (take 500 message)\<rparr>) db)))"

section \<open>The workflow\<close>

text \<open>Reading the object back; a missing object is an \<^verbatim>\<open>OSError\<close>.\<close>

definition verify_stored_asset :: "library_env \<Rightarrow> object_store \<Rightarrow> asset_version \<Rightarrow> unit res" where
  "verify_stored_asset E st v =
     (case st (av_object_key v) of
        None \<Rightarrow> Inl (TaskError ''object_unavailable'' True)
      | Some b \<Rightarrow>
          if le_sha256 E b \<noteq> av_sha256 v \<or> int (length b) \<noteq> av_size v
          then Inl (fatal ''checksum_mismatch'') else Inr ())"

text \<open>The messages of the two errors, recorded with the job.\<close>

fun task_code :: "exn \<Rightarrow> pystr" where
  "task_code (TaskError c _) = lit c"
| "task_code _ = []"

fun task_retryable :: "exn \<Rightarrow> bool" where
  "task_retryable (TaskError _ r) = r"
| "task_retryable _ = False"

text \<open>
  One run of the workflow with nobody else about; \<open>message\<close> is the text of an error.  The
  transition system below lets others act between its transactions.
\<close>

definition verify_run ::
  "library_env \<Rightarrow> object_store \<Rightarrow> (exn \<Rightarrow> pystr) \<Rightarrow> int \<Rightarrow> uuid \<Rightarrow> job_db \<Rightarrow> job_db \<times> uuid res" where
  "verify_run E st message now jid db =
     (case verify_begin now jid db of
        (db1, Inl e) \<Rightarrow> (db1, Inl e)
      | (db1, Inr None) \<Rightarrow> (db1, verified_version_id jid db1)
      | (db1, Inr (Some v)) \<Rightarrow>
          (case verify_stored_asset E st v of
             Inl e \<Rightarrow>
               (case (if task_retryable e then verify_retry else verify_fail) now (task_code e) (message e) jid db1 of
                  (db2, Inl e') \<Rightarrow> (db2, Inl e')
                | (db2, Inr _) \<Rightarrow> (db2, Inl e))
           | Inr _ \<Rightarrow>
               (case verify_succeed now jid db1 of
                  (db2, Inl e) \<Rightarrow> (db2, Inl e)
                | (db2, Inr _) \<Rightarrow> (db2, Inr (av_id v)))))"

section \<open>The dispatcher\<close>

definition dispatchable :: "job_db \<Rightarrow> int \<Rightarrow> job \<Rightarrow> bool" where
  "dispatchable db stale_before j \<longleftrightarrow>
     jo_type j = VERIFY_ASSET
     \<and> (case find_version (jb_lib db) (jo_version j) of
          None \<Rightarrow> False
        | Some v \<Rightarrow>
            jo_status j = QUEUED
            \<or> (jo_status j = RUNNING \<and> (case jo_started j of None \<Rightarrow> False | Some t \<Rightarrow> t \<le> stale_before))
            \<or> (jo_status j = SUCCEEDED \<and> jo_stage j = lit ''stored'' \<and> av_status v = STORED))"

definition claimed :: "int \<Rightarrow> job \<Rightarrow> job" where
  "claimed now j = j\<lparr>jo_status := RUNNING, jo_stage := lit ''dispatching_verification'', jo_attempt := jo_attempt j + 1,
     jo_error_code := None, jo_error_message := None, jo_started := Some now, jo_finished := None\<rparr>"

fun claim_loop :: "int \<Rightarrow> job list \<Rightarrow> job_db \<Rightarrow> (job_db \<times> (uuid \<times> int) list) res" where
  "claim_loop now [] db = Inr (db, [])"
| "claim_loop now (r # rs) db =
     rbind (job_update (claimed now r) db) (\<lambda>(db', j).
     rbind (claim_loop now rs db') (\<lambda>(db'', cs). Inr (db'', (jo_id j, jo_attempt j) # cs)))"

text \<open>
  The rows are in the order of their creation; \<open>locked\<close> are the rows other transactions hold,
  which \<^verbatim>\<open>skip_locked\<close> passes over.
\<close>

definition claim_recoverable ::
  "int \<Rightarrow> int \<Rightarrow> nat \<Rightarrow> uuid option \<Rightarrow> uuid list \<Rightarrow> job_db \<Rightarrow> (job_db \<times> (uuid \<times> int) list) res" where
  "claim_recoverable now stale_before limit only locked db =
     claim_loop now (take limit (filter (\<lambda>j. dispatchable db stale_before j
       \<and> (case only of None \<Rightarrow> True | Some i \<Rightarrow> jo_id j = i) \<and> jo_id j \<notin> set locked) (jb_jobs db))) db"

definition mark_send_failed :: "uuid \<times> int \<Rightarrow> job_db \<Rightarrow> job_db res" where
  "mark_send_failed claim db =
     (case find_job db (fst claim) of
        None \<Rightarrow> Inr db
      | Some j \<Rightarrow>
          if jo_status j \<noteq> RUNNING \<or> jo_stage j \<noteq> lit ''dispatching_verification'' \<or> jo_attempt j \<noteq> snd claim
          then Inr db
          else rbind (job_update (j\<lparr>jo_status := QUEUED, jo_stage := lit ''verification_dispatch_retry'',
                    jo_error_code := Some (lit ''verification_dispatch_failed''),
                    jo_error_message := Some (lit ''The verification task could not be dispatched.''),
                    jo_started := None, jo_finished := None\<rparr>) db) (\<lambda>(db', _). Inr db'))"

record dispatch_result =
  dr_claimed :: nat
  dr_sent :: nat
  dr_failed :: nat

text \<open>\<open>sends\<close> tells whether the broker takes the message of a job.\<close>

fun dispatch_loop :: "(uuid \<Rightarrow> bool) \<Rightarrow> (uuid \<times> int) list \<Rightarrow> job_db \<Rightarrow> (job_db \<times> nat \<times> nat) res" where
  "dispatch_loop sends [] db = Inr (db, 0, 0)"
| "dispatch_loop sends (c # cs) db =
     (if sends (fst c) then
        rbind (dispatch_loop sends cs db) (\<lambda>(db', sent, failed). Inr (db', sent + 1, failed))
      else rbind (mark_send_failed c db) (\<lambda>db1.
        rbind (dispatch_loop sends cs db1) (\<lambda>(db', sent, failed). Inr (db', sent, failed + 1))))"

definition dispatch_once ::
  "(uuid \<Rightarrow> bool) \<Rightarrow> int \<Rightarrow> int \<Rightarrow> nat \<Rightarrow> uuid option \<Rightarrow> uuid list \<Rightarrow> job_db \<Rightarrow> (job_db \<times> dispatch_result) res" where
  "dispatch_once sends stale_after now batch only locked db =
     rbind (claim_recoverable now (now - stale_after) (case only of None \<Rightarrow> batch | Some _ \<Rightarrow> 1) only locked db) (\<lambda>(db1, claims).
     rbind (dispatch_loop sends claims db1) (\<lambda>(db2, sent, failed).
       Inr (db2, \<lparr>dr_claimed = length claims, dr_sent = sent, dr_failed = failed\<rparr>)))"

end
