(* ===== verification/Verification_Invariant.thy ===== *)
theory Verification_Invariant
  imports Asset_Verification
begin

text \<open>
  What the verification guarantees whatever its transactions interleave with: jobs, uploads, other
  workers, the dispatcher, even a store whose objects change underneath.
\<close>

section \<open>What the job transactions leave alone\<close>

text \<open>
  The library is not touched, jobs keep their identity, and a failed job is final: its row does
  not change at all.
\<close>

definition jobs_moved :: "job_db \<Rightarrow> job_db \<Rightarrow> bool" where
  "jobs_moved db db' \<longleftrightarrow>
     jobs_ok db' \<and> jb_lib db' = jb_lib db \<and> map job_identity (jb_jobs db') = map job_identity (jb_jobs db)
     \<and> {j \<in> set (jb_jobs db). jo_status j = FAILED} \<subseteq> set (jb_jobs db')"

lemma jobs_moved_refl: "jobs_ok db \<Longrightarrow> jobs_moved db db"
  by (auto simp: jobs_moved_def)

lemma jobs_moved_trans:
  assumes "jobs_moved a b" "jobs_moved b c"
  shows "jobs_moved a c"
proof -
  from assms have "{j \<in> set (jb_jobs a). jo_status j = FAILED} \<subseteq> set (jb_jobs c)"
    by (auto simp: jobs_moved_def)
  with assms show ?thesis by (simp add: jobs_moved_def)
qed

lemma jobs_moved_ok: "jobs_moved a b \<Longrightarrow> jobs_ok b"
  by (simp add: jobs_moved_def)

lemma job_update_moved:
  assumes ok: "jobs_ok db" and up: "job_update j db = Inr (db', row')"
    and live: "\<And>row. find_job db (jo_id j) = Some row \<Longrightarrow> jo_status row \<noteq> FAILED"
  shows "jobs_moved db db'" and "find_job db' (jo_id j) = Some row'"
    and "jo_status row' = jo_status j" "jo_id row' = jo_id j" "jo_attempt row' = jo_attempt j"
    "jo_started row' = jo_started j"
proof -
  from up obtain row db1 nr where row: "row_by jo_id (jo_id j) (jb_jobs db) = Some row"
    "job_identity row = job_identity j" "jo_revision row = jo_revision j" "advance_ownership row db = Inr (db1, nr)"
    and row': "row' = row\<lparr>jo_status := jo_status j, jo_stage := jo_stage j, jo_attempt := jo_attempt j,
        jo_error_code := jo_error_code j, jo_error_message := jo_error_message j,
        jo_started := jo_started j, jo_finished := jo_finished j, jo_revision := nr\<rparr>"
    and db': "db' = db1\<lparr>jb_jobs := put_row jo_id row' (jb_jobs db1)\<rparr>" by (rule job_update_Inr)
  from row(1) have mem: "row \<in> set (jb_jobs db)" "jo_id row = jo_id j" by (auto dest: row_by_SomeD)
  with ok have "job_tracked db row" "keyed js_job (jb_owners db)" by (simp_all add: jobs_ok_def)
  with row(4) obtain s n where "replace_current (pinned s n) (pinned s (n + 1)) db = Inr db1"
    "js_job s = jo_id row" "\<exists>x. job_relations (jo_id row) db = [x]" by (rule advance_ownership_tracked)
  then obtain x where "replace_current (pinned s n) (pinned s (n + 1)) db = Inr db1"
    "job_relations (js_job s) db = [x]" by auto
  from replace_current_pinned(3) [OF this] have db1: "jb_jobs db1 = jb_jobs db" "jb_lib db1 = jb_lib db"
    by (metis job_db.select_convs(1,2) job_db.surjective job_db.update_convs(4))+
  have id': "jo_id row' = jo_id row" "job_identity row' = job_identity row"
    by (simp_all add: row' job_identity_def)
  have jobs': "jb_jobs db' = put_row jo_id row' (jb_jobs db)" by (simp add: db' db1(1))
  from ok have k: "keyed jo_id (jb_jobs db)" by (simp add: jobs_ok_def)
  have "job_identity (if jo_id y = jo_id row' then row' else y) = job_identity y" if "y \<in> set (jb_jobs db)" for y
    using keyed_eq [OF k that mem(1)] id' by auto
  then have "map job_identity (jb_jobs db') = map job_identity (jb_jobs db)"
    unfolding jobs' put_row_def by simp
  moreover have "y \<in> set (jb_jobs db')" if "y \<in> set (jb_jobs db)" "jo_status y = FAILED" for y
  proof -
    from live row(1) have "jo_status row \<noteq> FAILED" by (simp add: find_job_def)
    with that(2) have "y \<noteq> row" by auto
    with keyed_eq [OF k that(1) mem(1)] have "jo_id y \<noteq> jo_id row" by blast
    with that(1) show ?thesis by (simp add: jobs' set_put_row id'(1))
  qed
  ultimately show "jobs_moved db db'"
    using job_update_ok(1) [OF up ok] by (auto simp: jobs_moved_def) (simp add: db' db1(2))
  show "find_job db' (jo_id j) = Some row'"
    using row(1) by (simp add: find_job_def jobs' row_by_put_row id'(1) mem(2))
  show "jo_status row' = jo_status j" "jo_id row' = jo_id j" "jo_attempt row' = jo_attempt j"
    "jo_started row' = jo_started j"
    using mem(2) by (simp_all add: row')
qed

lemma commit_moved:
  assumes "jobs_ok db" "\<And>db' y. m = Inr (db', y) \<Longrightarrow> jobs_moved db db'"
  shows "jobs_moved db (fst (commit_as x db m))"
  using assms by (cases m) (auto intro: jobs_moved_refl)

lemma job_ops_id:
  "job_start stage at now j = Inr j' \<Longrightarrow> jo_id j' = jo_id j \<and> jo_status j = QUEUED"
  "job_succeed stage at now j = Inr j' \<Longrightarrow> jo_id j' = jo_id j \<and> jo_status j = RUNNING \<and> jo_status j' = SUCCEEDED"
  "job_advance stage j = Inr j' \<Longrightarrow> jo_id j' = jo_id j \<and> jo_status j = RUNNING"
  "job_fail code msg at now j = Inr j' \<Longrightarrow> jo_id j' = jo_id j \<and> jo_status j = RUNNING"
  by (auto simp: job_start_def job_succeed_def job_advance_def job_fail_def require_status_def split: if_splits)

lemma find_job_id: "find_job db i = Some j \<Longrightarrow> jo_id j = i"
  by (auto simp: find_job_def dest: row_by_SomeD)

lemma live_update:
  assumes "jobs_ok db" "find_job db i = Some j" "jo_status j \<noteq> FAILED" "job_update j' db = Inr (db', y)" "jo_id j' = i"
  shows "jobs_moved db db'"
  by (rule job_update_moved(1) [OF assms(1,4)]) (use assms(2,3,5) in simp)

lemma verify_begin_moved:
  assumes ok: "jobs_ok db"
  shows "jobs_moved db (fst (verify_begin now jid db))"
proof (cases "find_job db jid")
  case None
  then show ?thesis using ok by (simp add: verify_begin_def jobs_moved_refl)
next
  case (Some j)
  note id = find_job_id [OF Some]
  have live: "jobs_moved db db'" if "jo_status j \<noteq> FAILED" "job_update j' db = Inr (db', y)" "jo_id j' = jid" for j' db' y
    using live_update [OF ok Some that] .
  show ?thesis
  proof (cases "find_version (jb_lib db) (jo_version j)")
    case None
    show ?thesis
    proof (cases "jo_status j = RUNNING")
      case True
      have "jobs_moved db (fst (commit_as (Inl (fatal ''asset_version_not_found'')) db
          (rbind (job_fail (lit ''asset_version_not_found'') (lit ''The asset version does not exist.'') None now j)
             (\<lambda>j'. job_update j' db))))"
        by (rule commit_moved [OF ok]) (use True live id in \<open>auto dest!: job_ops_id(4)\<close>)
      with True None Some show ?thesis by (simp add: verify_begin_def)
    next
      case False
      with None Some ok show ?thesis by (simp add: verify_begin_def jobs_moved_refl)
    qed
  next
    case v: (Some v)
    show ?thesis
    proof (cases "jo_status j")
      case QUEUED
      have "jobs_moved db (fst (commit_as (Inr (Some v)) db
          (rbind (job_start verifying_stage None now j) (\<lambda>j'. job_update j' db))))"
        by (rule commit_moved [OF ok]) (use QUEUED live id in \<open>auto dest!: job_ops_id(1)\<close>)
      with QUEUED Some v show ?thesis by (simp add: verify_begin_def)
    next
      case RUNNING
      have "jobs_moved db (fst (commit_as (Inr (Some v)) db
          (rbind (job_advance verifying_stage j) (\<lambda>j'. job_update j' db))))"
        by (rule commit_moved [OF ok]) (use RUNNING live id in \<open>auto dest!: job_ops_id(3)\<close>)
      with RUNNING Some v ok show ?thesis by (simp add: verify_begin_def jobs_moved_refl del: lit_simps)
    next
      case SUCCEEDED
      have "jobs_moved db (fst (commit_as (Inr (Some v)) db (job_update (restarted j) db)))"
        by (rule commit_moved [OF ok]) (use SUCCEEDED live id in \<open>auto simp: restarted_def\<close>)
      with SUCCEEDED Some v ok show ?thesis by (simp add: verify_begin_def jobs_moved_refl del: lit_simps)
    next
      case FAILED
      with Some v ok show ?thesis by (simp add: verify_begin_def jobs_moved_refl)
    qed
  qed
qed

lemma verify_fail_moved:
  assumes ok: "jobs_ok db"
  shows "jobs_moved db (fst (verify_fail now code msg jid db))"
proof (cases "find_job db jid")
  case None
  then show ?thesis using ok by (simp add: verify_fail_def jobs_moved_refl)
next
  case (Some j)
  note id = find_job_id [OF Some]
  have "jobs_moved db (fst (commit_as (Inr ()) db
      (rbind (if jo_status j = QUEUED then job_start verifying_stage None now j else Inr j) (\<lambda>j1.
       rbind (job_fail code msg None now j1) (\<lambda>j2. job_update j2 db)))))" if "jo_status j \<noteq> FAILED"
    by (rule commit_moved [OF ok])
      (use live_update [OF ok Some that] id in \<open>auto dest!: job_ops_id(1,4) split: if_splits\<close>)
  with Some ok show ?thesis by (simp add: verify_fail_def jobs_moved_refl)
qed

lemma verify_retry_moved:
  assumes ok: "jobs_ok db"
  shows "jobs_moved db (fst (verify_retry now code msg jid db))"
proof (cases "find_job db jid")
  case None
  then show ?thesis using ok by (simp add: verify_retry_def jobs_moved_refl)
next
  case (Some j)
  note id = find_job_id [OF Some]
  have "jobs_moved db (fst (commit_as (Inr ()) db
      (rbind (if jo_status j = QUEUED then job_start (lit ''retrying_verification'') None now j
              else job_advance (lit ''retrying_verification'') j) (\<lambda>j1.
         job_update (j1\<lparr>jo_error_code := Some (take 100 code), jo_error_message := Some (take 500 msg)\<rparr>) db))))"
    if "jo_status j \<noteq> FAILED"
    by (rule commit_moved [OF ok])
      (use live_update [OF ok Some that] id in \<open>auto dest!: job_ops_id(1,3) split: if_splits\<close>)
  with Some ok show ?thesis by (simp add: verify_retry_def jobs_moved_refl)
qed


section \<open>The dispatcher\<close>

lemma mark_send_failed_moved:
  assumes ok: "jobs_ok db" and m: "mark_send_failed c db = Inr db'"
  shows "jobs_moved db db'"
proof (cases "find_job db (fst c)")
  case None
  with m ok show ?thesis by (simp add: mark_send_failed_def jobs_moved_refl)
next
  case (Some j)
  show ?thesis
  proof (cases "jo_status j \<noteq> RUNNING \<or> jo_stage j \<noteq> lit ''dispatching_verification'' \<or> jo_attempt j \<noteq> snd c")
    case True
    with m Some ok show ?thesis by (simp add: mark_send_failed_def jobs_moved_refl)
  next
    case False
    with m Some obtain y where "job_update (j\<lparr>jo_status := QUEUED, jo_stage := lit ''verification_dispatch_retry'',
        jo_error_code := Some (lit ''verification_dispatch_failed''),
        jo_error_message := Some (lit ''The verification task could not be dispatched.''),
        jo_started := None, jo_finished := None\<rparr>) db = Inr (db', y)"
      by (auto simp: mark_send_failed_def simp del: lit_simps)
    from live_update [OF ok Some _ this] False find_job_id [OF Some] show ?thesis by simp
  qed
qed

lemma claimed_sel [simp]: "jo_id (claimed now j) = jo_id j" "jo_attempt (claimed now j) = jo_attempt j + 1"
  "jo_status (claimed now j) = RUNNING" "jo_started (claimed now j) = Some now"
  by (simp_all add: claimed_def)

text \<open>A claim leaves each claimed job running, its attempt counted.\<close>

lemma claim_loop_moved:
  "claim_loop now rs db = Inr (db', cs) \<Longrightarrow> jobs_ok db \<Longrightarrow> distinct (map jo_id rs) \<Longrightarrow>
     (\<And>r row. r \<in> set rs \<Longrightarrow> find_job db (jo_id r) = Some row \<Longrightarrow> jo_status row \<noteq> FAILED) \<Longrightarrow>
     jobs_moved db db' \<and> cs = map (\<lambda>r. (jo_id r, jo_attempt r + 1)) rs
     \<and> (\<forall>r \<in> set rs. \<exists>row. find_job db' (jo_id r) = Some row \<and> jo_status row = RUNNING
          \<and> jo_attempt row = jo_attempt r + 1 \<and> jo_started row = Some now)
     \<and> (\<forall>i. i \<notin> jo_id ` set rs \<longrightarrow> find_job db' i = find_job db i)"
proof (induction rs arbitrary: db cs)
  case Nil
  then show ?case by (simp add: jobs_moved_refl)
next
  case (Cons r rs)
  from Cons.prems(1) obtain db1 j cs' where up: "job_update (claimed now r) db = Inr (db1, j)"
    and loop: "claim_loop now rs db1 = Inr (db', cs')" and cs: "cs = (jo_id j, jo_attempt j) # cs'" by auto
  have live: "jo_status row \<noteq> FAILED" if "find_job db (jo_id (claimed now r)) = Some row" for row
    using that Cons.prems(4) [of r] by simp
  note u = job_update_moved [OF Cons.prems(2) up live]
  have other: "find_job db1 i = find_job db i" if "i \<noteq> jo_id r" for i
  proof -
    from up obtain row db2 nr row' where "advance_ownership row db = Inr (db2, nr)" "row' = row\<lparr>jo_status := jo_status (claimed now r),
        jo_stage := jo_stage (claimed now r), jo_attempt := jo_attempt (claimed now r),
        jo_error_code := jo_error_code (claimed now r), jo_error_message := jo_error_message (claimed now r),
        jo_started := jo_started (claimed now r), jo_finished := jo_finished (claimed now r), jo_revision := nr\<rparr>"
      "db1 = db2\<lparr>jb_jobs := put_row jo_id row' (jb_jobs db2)\<rparr>" "row_by jo_id (jo_id (claimed now r)) (jb_jobs db) = Some row"
      by (rule job_update_Inr) blast
    moreover from this(4) Cons.prems(2) have "job_tracked db row" "keyed js_job (jb_owners db)" "jo_id row = jo_id r"
      by (auto simp: jobs_ok_def dest: row_by_SomeD)
    moreover from calculation obtain s n x where "replace_current (pinned s n) (pinned s (n + 1)) db = Inr db2"
      "job_relations (js_job s) db = [x]" by (metis advance_ownership_tracked)
    from replace_current_pinned(3) [OF this] have "jb_jobs db2 = jb_jobs db"
      by (metis job_db.select_convs(2) job_db.surjective job_db.update_convs(4))
    ultimately show ?thesis using that by (simp add: find_job_def row_by_put_row)
  qed
  have new: "jo_id r \<notin> jo_id ` set rs" "distinct (map jo_id rs)" using Cons.prems(3) by auto
  have ih: "jobs_moved db1 db' \<and> cs' = map (\<lambda>r. (jo_id r, jo_attempt r + 1)) rs
     \<and> (\<forall>r \<in> set rs. \<exists>row. find_job db' (jo_id r) = Some row \<and> jo_status row = RUNNING
          \<and> jo_attempt row = jo_attempt r + 1 \<and> jo_started row = Some now)
     \<and> (\<forall>i. i \<notin> jo_id ` set rs \<longrightarrow> find_job db' i = find_job db1 i)"
  proof (rule Cons.IH [OF loop jobs_moved_ok [OF u(1)] new(2)])
    fix q row
    assume q: "q \<in> set rs" "find_job db1 (jo_id q) = Some row"
    with new(1) have "jo_id q \<noteq> jo_id r" by (metis image_eqI)
    with q other Cons.prems(4) [of q row] show "jo_status row \<noteq> FAILED" by simp
  qed
  from ih u(1) have "jobs_moved db db'" by (blast intro: jobs_moved_trans)
  moreover from ih new(1) u(2-) have "find_job db' (jo_id r) = Some j" "jo_status j = RUNNING" "jo_attempt j = jo_attempt r + 1"
    "jo_id j = jo_id r" "jo_started j = Some now" by simp_all
  ultimately show ?case using ih cs other by simp
qed

lemma claim_recoverable_moved:
  assumes ok: "jobs_ok db" and c: "claim_recoverable now stale limit only locked db = Inr (db', cs)"
  obtains rs where "jobs_moved db db'" "cs = map (\<lambda>r. (jo_id r, jo_attempt r + 1)) rs" "length rs \<le> limit"
    "\<And>r. r \<in> set rs \<Longrightarrow> r \<in> set (jb_jobs db) \<and> dispatchable db stale r \<and> jo_id r \<notin> set locked"
    "\<And>r. r \<in> set rs \<Longrightarrow> \<exists>row. find_job db' (jo_id r) = Some row \<and> jo_status row = RUNNING
       \<and> jo_attempt row = jo_attempt r + 1 \<and> jo_started row = Some now"
    "\<And>i. i \<notin> jo_id ` set rs \<Longrightarrow> find_job db' i = find_job db i" "distinct (map jo_id rs)"
proof -
  define P where "P j \<longleftrightarrow> dispatchable db stale j \<and> (case only of None \<Rightarrow> True | Some i \<Rightarrow> jo_id j = i)
      \<and> jo_id j \<notin> set locked" for j
  define rs where "rs = take limit (filter P (jb_jobs db))"
  have mem: "r \<in> set (jb_jobs db)" "P r" if "r \<in> set rs" for r
    using that unfolding rs_def by (auto dest!: in_set_takeD)
  from ok have k: "keyed jo_id (jb_jobs db)" by (simp add: jobs_ok_def)
  then have d: "distinct (map jo_id rs)"
    unfolding rs_def by (simp add: keyed_def distinct_map_filter take_map [symmetric])
  have live: "jo_status row \<noteq> FAILED" if "r \<in> set rs" "find_job db (jo_id r) = Some row" for r row
  proof -
    from that(2) k mem(1) [OF that(1)] have "row = r" by (simp add: find_job_def row_by_Some_iff keyed_eq)
    with mem(2) [OF that(1)] show ?thesis by (auto simp: P_def dispatchable_def split: option.splits)
  qed
  have "claim_loop now rs db = Inr (db', cs)"
    using c by (simp add: claim_recoverable_def rs_def P_def [abs_def])
  then have res: "jobs_moved db db' \<and> cs = map (\<lambda>r. (jo_id r, jo_attempt r + 1)) rs
      \<and> (\<forall>r \<in> set rs. \<exists>row. find_job db' (jo_id r) = Some row \<and> jo_status row = RUNNING
            \<and> jo_attempt row = jo_attempt r + 1 \<and> jo_started row = Some now)
      \<and> (\<forall>i. i \<notin> jo_id ` set rs \<longrightarrow> find_job db' i = find_job db i)"
    by (rule claim_loop_moved [OF _ ok d]) (rule live)
  note r1 = conjunct1 [OF res] and r2 = conjunct1 [OF conjunct2 [OF res]]
    and r3 = conjunct1 [OF conjunct2 [OF conjunct2 [OF res]]] and r4 = conjunct2 [OF conjunct2 [OF conjunct2 [OF res]]]
  have len: "length rs \<le> limit" by (simp add: rs_def)
  have src: "r \<in> set (jb_jobs db) \<and> dispatchable db stale r \<and> jo_id r \<notin> set locked" if "r \<in> set rs" for r
    using mem [OF that] by (simp add: P_def)
  show thesis
  proof (rule that [OF r1 r2 len src bspec [OF r3] _ d])
    show "find_job db' i = find_job db i" if "i \<notin> jo_id ` set rs" for i using r4 that by blast
  qed
qed

lemma dispatch_loop_moved:
  "dispatch_loop sends cs db = Inr (db', sent, failed) \<Longrightarrow> jobs_ok db \<Longrightarrow>
     jobs_moved db db' \<and> sent + failed = length cs"
proof (induction cs arbitrary: db sent failed)
  case Nil
  then show ?case by (simp add: jobs_moved_refl)
next
  case (Cons c cs)
  show ?case
  proof (cases "sends (fst c)")
    case True
    with Cons.prems(1) obtain s where "dispatch_loop sends cs db = Inr (db', s, failed)" "sent = s + 1" by auto
    with Cons.IH [OF this(1) Cons.prems(2)] show ?thesis by simp
  next
    case False
    with Cons.prems(1) obtain db1 f where m: "mark_send_failed c db = Inr db1" "dispatch_loop sends cs db1 = Inr (db', sent, f)"
      "failed = f + 1" by auto
    note mv = mark_send_failed_moved [OF Cons.prems(2) m(1)]
    from Cons.IH [OF m(2) jobs_moved_ok [OF mv]] m(3) mv show ?thesis by (auto intro: jobs_moved_trans)
  qed
qed

lemma dispatch_once_moved:
  assumes ok: "jobs_ok db" and d: "dispatch_once sends stale now batch only locked db = Inr (db', r)"
  shows "jobs_moved db db' \<and> dr_sent r + dr_failed r = dr_claimed r"
proof -
  from d obtain db1 claims db2 sent failed where
    c: "claim_recoverable now (now - stale) (case only of None \<Rightarrow> batch | Some _ \<Rightarrow> 1) only locked db = Inr (db1, claims)"
    and l: "dispatch_loop sends claims db1 = Inr (db', sent, failed)"
    and r: "r = \<lparr>dr_claimed = length claims, dr_sent = sent, dr_failed = failed\<rparr>"
    by (auto simp: dispatch_once_def)
  from c have mv: "jobs_moved db db1" by (rule claim_recoverable_moved [OF ok])
  from dispatch_loop_moved [OF l jobs_moved_ok [OF mv]] mv r show ?thesis by (auto intro: jobs_moved_trans)
qed

end
