(* ===== verification/Verification_System.thy ===== *)
theory Verification_System
  imports Verification_Invariant
begin

text \<open>
  The verification as a transition system: workers that run the workflow of \<^verbatim>\<open>tasks.py\<close> one
  transaction at a time, the dispatcher, new jobs, a library that grows and a store that may
  change.  Two facts hold in every state: a document's active version is its newest verified one,
  and no version is ready whose object was not read back with the recorded digest.
\<close>

section \<open>A library that grows\<close>

text \<open>What uploads, moves and new folders do to documents and versions.\<close>

definition document_head :: "document \<Rightarrow> uuid \<times> uuid \<times> uuid option" where
  "document_head d = (do_id d, do_workspace d, do_active d)"

definition library_grows :: "library_db \<Rightarrow> library_db \<Rightarrow> bool" where
  "library_grows lib lib' \<longleftrightarrow>
     keyed do_id (lb_documents lib') \<and> keyed av_id (lb_versions lib')
     \<and> set (lb_versions lib) \<subseteq> set (lb_versions lib')
     \<and> (\<forall>v \<in> set (lb_versions lib') - set (lb_versions lib). av_status v = STORED)
     \<and> document_head ` set (lb_documents lib) \<subseteq> document_head ` set (lb_documents lib')
     \<and> (\<forall>d \<in> set (lb_documents lib'). document_head d \<in> document_head ` set (lb_documents lib)
          \<or> (do_active d = None \<and> do_id d \<notin> av_document ` set (lb_versions lib)))"

lemma library_grows_versions:
  assumes "library_grows lib lib'" "v \<in> set (lb_versions lib')" "av_status v = READY"
  shows "v \<in> set (lb_versions lib)"
  using assms unfolding library_grows_def by (metis Diff_iff version_status.distinct(3))

lemma library_grows_sources:
  assumes g: "library_grows lib lib'"
  shows "sources_kept lib lib'"
proof -
  have "source_exists lib' s" if s: "source_exists lib s" for s
  proof -
    from s obtain d v where d: "d \<in> set (lb_documents lib)" "do_id d = si_document s" "do_workspace d = si_workspace s"
      and v: "v \<in> set (lb_versions lib)" "av_id v = si_version s" "av_document v = si_document s"
      by (auto simp: source_exists_def list_ex_iff)
    from d(1) g have "document_head d \<in> document_head ` set (lb_documents lib')"
      unfolding library_grows_def by blast
    then obtain d' where "d' \<in> set (lb_documents lib')" "do_id d' = do_id d" "do_workspace d' = do_workspace d"
      by (auto simp: document_head_def)
    moreover from v(1) g have "v \<in> set (lb_versions lib')" unfolding library_grows_def by blast
    ultimately show ?thesis using d v by (auto simp: source_exists_def list_ex_iff)
  qed
  with g show ?thesis by (simp add: sources_kept_def library_grows_def)
qed

text \<open>The operations of the asset library are such growth.\<close>

lemma insert_version_grows:
  assumes ok: "tables_ok db" and i: "insert_version db v = Inr db'" "av_status v = STORED"
  shows "library_grows db db'"
proof -
  from i(1) have db': "db' = db\<lparr>lb_versions := lb_versions db @ [v]\<rparr>" "row_by av_id (av_id v) (lb_versions db) = None"
    by (simp_all add: insert_version_Inr)
  with ok i(2) show ?thesis by (auto simp: library_grows_def tables_ok_def keyed_snoc)
qed

lemma new_document_grows:
  assumes ok: "tables_ok db" and s: "save_document db d [v] = Inr db'" "av_status v = STORED" "av_document v = do_id d"
    "do_active d = None"
  shows "library_grows db db'"
proof -
  from s(1) have new: "row_by do_id (do_id d) (lb_documents db) = None"
    and db': "db' = db\<lparr>lb_documents := lb_documents db @ [d], lb_versions := lb_versions db @ [v]\<rparr>"
    and nv: "row_by av_id (av_id v) (lb_versions db) = None"
    by (auto simp: save_document_def insert_version_Inr split: if_splits)
  have "do_id d \<notin> av_document ` set (lb_versions db)"
    using new ok by (auto simp: tables_ok_def row_by_None_iff)
  with ok new nv s(2,4) show ?thesis by (auto simp: library_grows_def tables_ok_def keyed_snoc db')
qed

lemma same_heads_grow:
  assumes "tables_ok db" "lb_versions db' = lb_versions db" "map document_head (lb_documents db') = map document_head (lb_documents db)"
  shows "library_grows db db'"
proof -
  have "document_head ` set (lb_documents db') = document_head ` set (lb_documents db)"
    using assms(3) by (metis set_map)
  moreover have "map do_id (lb_documents db') = map do_id (lb_documents db)"
    using arg_cong [OF assms(3), of "map fst"] by (simp add: document_head_def comp_def)
  ultimately show ?thesis using assms(1,2) by (auto simp: library_grows_def tables_ok_def keyed_def)
qed

lemma library_operations_grow:
  assumes ok: "library_ok E mb md (db, st)"
  shows "upload E mb now user wid folder name mt content fd fv key before (db, st) = ((db', st'), r) \<Longrightarrow>
      st key = None \<Longrightarrow> library_grows db db'"
    and "upload_version E mb now user did name mt content fv key before (db, st) = ((db', st'), r) \<Longrightarrow>
      st key = None \<Longrightarrow> library_grows db db'"
    and "move_document db now md user wid did dest expected = Inr (db', d, changed) \<Longrightarrow> library_grows db db'"
    and "move_folder db now md user wid fid dest expected = Inr (db', f, changed) \<Longrightarrow> library_grows db db'"
    and "create_folder db now md user wid parent name fresh = Inr (db', f') \<Longrightarrow> library_grows db db'"
proof -
  from ok have t: "tables_ok db" "folders_ok md db" by (simp_all add: library_ok_def)
  have same: "library_grows db db" by (rule same_heads_grow [OF t(1) refl refl])
  show "library_grows db db'"
    if up: "upload E mb now user wid folder name mt content fd fv key before (db, st) = ((db', st'), r)" "st key = None"
  proof (cases rule: upload_cases [OF up])
    case (2 s d db'')
    then show ?thesis by (auto intro!: new_document_grows [OF t(1) 2(6)] simp: new_version_def)
  qed (use same in simp)
  show "library_grows db db'"
    if up: "upload_version E mb now user did name mt content fv key before (db, st) = ((db', st'), r)" "st key = None"
  proof (cases rule: upload_version_cases [OF up])
    case (2 d s v db'')
    then show ?thesis by (auto intro!: insert_version_grows [OF t(1) 2(7)] simp: new_version_def)
  qed (use same in simp)
  show "library_grows db db'" if mv: "move_document db now md user wid did dest expected = Inr (db', d, changed)"
  proof -
    define upd :: "document \<Rightarrow> document" where "upd = (\<lambda>d. if do_id d = did \<and> do_workspace d = wid \<and> do_revision d = expected
      then d\<lparr>do_folder := dest, do_revision := expected + 1\<rparr> else d)"
    from mv have "db' = db \<or> db' = db\<lparr>lb_documents := map upd (lb_documents db)\<rparr>"
      by (auto simp: move_document_def move_document_location_def upd_def Let_def split: if_splits option.splits)
    moreover have "document_head (upd d) = document_head d" for d by (simp add: document_head_def upd_def)
    ultimately show ?thesis using same t(1) by (auto intro!: same_heads_grow)
  qed
  show "library_grows db db'" if mv: "move_folder db now md user wid fid dest expected = Inr (db', f, changed)"
    by (rule same_heads_grow [OF t(1)]) (simp_all add: move_folder_same [OF mv t])
  show "library_grows db db'" if c: "create_folder db now md user wid parent name fresh = Inr (db', f')"
    by (rule same_heads_grow [OF t(1)]) (simp_all add: create_folder_Inr(2) [OF c])
qed

section \<open>The active version\<close>

definition ready_of :: "library_db \<Rightarrow> uuid \<Rightarrow> asset_version set" where
  "ready_of lib did = {v \<in> set (lb_versions lib). av_document v = did \<and> av_status v = READY}"

text \<open>The newest verified version of a document, if there is one.\<close>

definition active_ok :: "library_db \<Rightarrow> document \<Rightarrow> bool" where
  "active_ok lib d \<longleftrightarrow>
     (case do_active d of
        None \<Rightarrow> ready_of lib (do_id d) = {}
      | Some i \<Rightarrow> \<exists>v \<in> ready_of lib (do_id d). av_id v = i \<and> (\<forall>w \<in> ready_of lib (do_id d). av_number w \<le> av_number v))"

definition actives_ok :: "library_db \<Rightarrow> bool" where
  "actives_ok lib \<longleftrightarrow> (\<forall>d \<in> set (lb_documents lib). active_ok lib d)"

lemma active_ok_cong:
  "ready_of lib (do_id d) = ready_of lib' (do_id d') \<Longrightarrow> do_active d = do_active d' \<Longrightarrow> active_ok lib d = active_ok lib' d'"
  by (simp add: active_ok_def cong: option.case_cong)

lemma grows_ready:
  assumes "library_grows lib lib'"
  shows "ready_of lib' did = ready_of lib did"
  using library_grows_versions [OF assms] assms unfolding ready_of_def library_grows_def by blast

lemma grows_actives:
  assumes g: "library_grows lib lib'" and ok: "actives_ok lib"
  shows "actives_ok lib'"
  unfolding actives_ok_def
proof
  fix d'
  assume d': "d' \<in> set (lb_documents lib')"
  from g have "\<forall>d \<in> set (lb_documents lib'). document_head d \<in> document_head ` set (lb_documents lib)
      \<or> (do_active d = None \<and> do_id d \<notin> av_document ` set (lb_versions lib))"
    unfolding library_grows_def by (elim conjE)
  from bspec [OF this d'] consider "document_head d' \<in> document_head ` set (lb_documents lib)"
    | "do_active d' = None" "do_id d' \<notin> av_document ` set (lb_versions lib)" by fast
  then show "active_ok lib' d'"
  proof cases
    case 1
    then obtain d where d: "d \<in> set (lb_documents lib)" "do_id d' = do_id d" "do_active d' = do_active d"
      by (auto simp: document_head_def)
    from ok d(1) have "active_ok lib d" by (simp add: actives_ok_def)
    then show ?thesis using active_ok_cong [of lib' d' lib d] d by (simp add: grows_ready [OF g])
  next
    case 2
    then have "ready_of lib (do_id d') = {}"
      unfolding ready_of_def by (metis (mono_tags, lifting) empty_Collect_eq image_eqI)
    with 2(1) show ?thesis by (simp add: active_ok_def grows_ready [OF g])
  qed
qed

lemma mark_ready_ready:
  assumes k: "keyed av_id (lb_versions lib)" and v: "v \<in> set (lb_versions lib)"
  shows "ready_of (mark_ready v d n lib) did =
    (if did = av_document v then insert (v\<lparr>av_status := READY\<rparr>) (ready_of lib did - {v}) else ready_of lib did)"
proof -
  have "set (lb_versions (mark_ready v d n lib)) = {x \<in> set (lb_versions lib). av_id x \<noteq> av_id v} \<union> {v\<lparr>av_status := READY\<rparr>}"
    using v by (auto simp: mark_ready_def Let_def set_put_row)
  moreover have "av_id x \<noteq> av_id v \<longleftrightarrow> x \<noteq> v" if "x \<in> set (lb_versions lib)" for x
    using keyed_eq [OF k that v] by auto
  ultimately show ?thesis by (auto simp: ready_of_def)
qed

text \<open>Verifying a stored version of a document keeps its newest verified version active.\<close>

lemma mark_ready_actives:
  assumes ok: "actives_ok lib" and kv: "keyed av_id (lb_versions lib)" and kd: "keyed do_id (lb_documents lib)"
    and v: "v \<in> set (lb_versions lib)" "av_status v = STORED" and d: "d \<in> set (lb_documents lib)" "do_id d = av_document v"
    and n: "(case do_active d of None \<Rightarrow> Inr None
             | Some a \<Rightarrow> (case find_version lib a of None \<Rightarrow> Inl e | Some w \<Rightarrow> Inr (Some (av_number w)))) = Inr n"
  shows "actives_ok (mark_ready v d n lib)"
  unfolding actives_ok_def
proof
  fix d'
  assume d': "d' \<in> set (lb_documents (mark_ready v d n lib))"
  let ?v = "v\<lparr>av_status := READY\<rparr>"
  note r = mark_ready_ready [OF kv v(1), of d n]
  have vnew: "v \<notin> ready_of lib did" for did using v(2) by (simp add: ready_of_def)
  show "active_ok (mark_ready v d n lib) d'"
  proof (cases "do_id d' = do_id d")
    case False
    with d' have "d' \<in> set (lb_documents lib)" by (auto simp: mark_ready_def Let_def set_put_row split: if_splits)
    with ok have "active_ok lib d'" by (simp add: actives_ok_def)
    with False d(2) show ?thesis using active_ok_cong [of "mark_ready v d n lib" d' lib d'] by (simp add: r)
  next
    case True
    from ok d(1) have act: "active_ok lib d" by (simp add: actives_ok_def)
    have ready: "ready_of (mark_ready v d n lib) (do_id d') = insert ?v (ready_of lib (do_id d))"
      using True d(2) vnew by (simp add: r)
    show ?thesis
    proof (cases "case n of None \<Rightarrow> True | Some k \<Rightarrow> av_number v > k")
      case newer: True
      with d' True d(1) have "do_active d' = Some (av_id v)"
        by (auto simp: mark_ready_def Let_def set_put_row)
      moreover have "av_number w \<le> av_number v" if "w \<in> ready_of lib (do_id d)" for w
      proof (cases "do_active d")
        case None
        with act that show ?thesis by (simp add: active_ok_def)
      next
        case (Some a)
        with act obtain x where x: "x \<in> ready_of lib (do_id d)" "av_id x = a" "\<forall>w \<in> ready_of lib (do_id d). av_number w \<le> av_number x"
          by (auto simp: active_ok_def)
        then have "find_version lib a = Some x" using kv by (simp add: find_version_def row_by_Some_iff ready_of_def)
        with n Some newer x(3) that show ?thesis by fastforce
      qed
      ultimately show ?thesis by (auto simp: active_ok_def ready)
    next
      case older: False
      then obtain k where k: "n = Some k" "av_number v \<le> k" by (auto split: option.splits)
      from older d' have "d' \<in> set (lb_documents lib)" by (simp add: mark_ready_def Let_def)
      with True d(1) kd have dd: "d' = d" by (simp add: keyed_eq)
      from n k(1) obtain a w where a: "do_active d = Some a" "find_version lib a = Some w" "av_number w = k"
        by (auto split: option.splits)
      with act obtain x where x: "x \<in> ready_of lib (do_id d)" "av_id x = a" "\<forall>w \<in> ready_of lib (do_id d). av_number w \<le> av_number x"
        by (auto simp: active_ok_def)
      then have "find_version lib a = Some x" using kv by (simp add: find_version_def row_by_Some_iff ready_of_def)
      with a k(2) have "av_number v \<le> av_number x" by simp
      moreover have rd: "ready_of (mark_ready v d n lib) (do_id d) = insert ?v (ready_of lib (do_id d))"
        using ready by (simp only: dd)
      ultimately show ?thesis using x unfolding dd active_ok_def rd a(1) by auto
    qed
  qed
qed


section \<open>Succeeding\<close>

lemma mark_ready_sources:
  assumes "keyed av_id (lb_versions lib)" "keyed do_id (lb_documents lib)" "v \<in> set (lb_versions lib)"
    "d \<in> set (lb_documents lib)"
  shows "sources_kept lib (mark_ready v d n lib)"
proof -
  let ?lib = "mark_ready v d n lib"
  let ?pd = "\<lambda>d. (do_id d, do_workspace d)" and ?pv = "\<lambda>v. (av_id v, av_document v)"
  have "?pv (if av_id x = av_id v then v\<lparr>av_status := READY\<rparr> else x) = ?pv x" if "x \<in> set (lb_versions lib)" for x
    using keyed_eq [OF assms(1) that assms(3)] by auto
  then have vs: "map ?pv (lb_versions ?lib) = map ?pv (lb_versions lib)"
    by (simp add: mark_ready_def Let_def put_row_def)
  have "?pd (if do_id x = do_id d then d\<lparr>do_active := Some (av_id v)\<rparr> else x) = ?pd x" if "x \<in> set (lb_documents lib)" for x
    using keyed_eq [OF assms(2) that assms(4)] by auto
  then have ds: "map ?pd (lb_documents ?lib) = map ?pd (lb_documents lib)"
    by (simp add: mark_ready_def Let_def put_row_def)
  have ex: "source_exists l s \<longleftrightarrow>
      list_ex (\<lambda>p. fst p = si_document s \<and> snd p = si_workspace s) (map ?pd (lb_documents l))
      \<and> list_ex (\<lambda>p. fst p = si_version s \<and> snd p = si_document s) (map ?pv (lb_versions l))" for l s
    by (simp add: source_exists_def list_ex_iff)
  have "map do_id (lb_documents ?lib) = map do_id (lb_documents lib)"
    using arg_cong [OF ds, of "map fst"] by (simp add: comp_def)
  moreover have "map av_id (lb_versions ?lib) = map av_id (lb_versions lib)"
    using arg_cong [OF vs, of "map fst"] by (simp add: comp_def)
  ultimately show ?thesis using assms(1,2) unfolding sources_kept_def ex vs ds by (simp add: keyed_def)
qed

lemma verify_succeed_cases:
  assumes ok: "jobs_ok db" and s: "verify_succeed now jid db = (db', r)"
  obtains (unchanged) "db' = db"
  | (ready) j v d n and e :: exn where "find_job db jid = Some j" "jo_status j = RUNNING"
      "find_version (jb_lib db) (jo_version j) = Some v"
      "av_status v = STORED" "d \<in> set (lb_documents (jb_lib db))" "do_id d = av_document v"
      "(case do_active d of None \<Rightarrow> Inr None
        | Some a \<Rightarrow> (case find_version (jb_lib db) a of None \<Rightarrow> Inl e | Some w \<Rightarrow> Inr (Some (av_number w)))) = Inr n"
      "jobs_moved (db\<lparr>jb_lib := mark_ready v d n (jb_lib db)\<rparr>) db'" "r = Inr ()"
proof (cases "find_job db jid")
  case None
  with s unchanged show thesis by (simp add: verify_succeed_def)
next
  case (Some j)
  show thesis
  proof (cases "jo_status j = RUNNING")
    case False
    with Some s unchanged show thesis by (auto simp: verify_succeed_def split: if_splits)
  next
    case True
    show thesis
    proof (cases "find_version (jb_lib db) (jo_version j)")
      case None
      with Some True s unchanged show thesis by (simp add: verify_succeed_def)
    next
      case v: (Some v)
      show thesis
      proof (cases "row_by do_id (av_document v) (lb_documents (jb_lib db))")
        case None
        with Some True v s unchanged show thesis by (simp add: verify_succeed_def)
      next
        case d: (Some d)
        let ?n = "case do_active d of None \<Rightarrow> Inr None | Some a \<Rightarrow> (case find_version (jb_lib db) a of
          None \<Rightarrow> Inl (fatal ''active_asset_version_not_found'') | Some w \<Rightarrow> Inr (Some (av_number w)))"
        show thesis
        proof (cases "av_status v \<noteq> STORED \<or> isl ?n")
          case True
          with Some \<open>jo_status j = RUNNING\<close> v d s unchanged show thesis
            by (auto simp: verify_succeed_def split: if_splits sum.splits)
        next
          case False
          then obtain n where n: "?n = Inr n" by (cases ?n) simp_all
          let ?db = "db\<lparr>jb_lib := mark_ready v d n (jb_lib db)\<rparr>"
          from d have dm: "d \<in> set (lb_documents (jb_lib db))" "do_id d = av_document v" by (auto dest: row_by_SomeD)
          from v have vm: "v \<in> set (lb_versions (jb_lib db))" by (auto simp: find_version_def dest: row_by_SomeD)
          from ok have keys: "keyed av_id (lb_versions (jb_lib db))" "keyed do_id (lb_documents (jb_lib db))"
            by (simp_all add: jobs_ok_def)
          have mid: "jobs_ok ?db" by (rule library_step_ok [OF ok mark_ready_sources [OF keys vm dm(1)]])
          let ?m = "rbind (job_succeed (lit ''ready'') None now j) (\<lambda>j'. job_update j' ?db)"
          have c: "commit_as (Inr ()) db ?m = (db', r)"
            using s Some True v d False n by (simp add: verify_succeed_def)
          show thesis
          proof (cases ?m)
            case (Inl e)
            with c unchanged show thesis by simp
          next
            case (Inr p)
            obtain a y where p: "p = (a, y)" by (cases p)
            from c have "a = db'" and r: "r = Inr ()" unfolding Inr p by simp_all
            with Inr p have m: "?m = Inr (db', y)" by (simp only:)
            from m obtain j' where j': "job_succeed (lit ''ready'') None now j = Inr j'" "job_update j' ?db = Inr (db', y)"
              by auto
            have "find_job ?db jid = Some j" using Some by (simp add: find_job_def)
            then have mv: "jobs_moved ?db db'"
              by (rule live_update [OF mid _ _ j'(2)]) (use True job_ops_id(2) [OF j'(1)] find_job_id [OF Some] in simp_all)
            from False have st: "av_status v = STORED" by simp
            show thesis by (rule ready [OF Some True v st dm n mv r])
          qed
        qed
      qed
    qed
  qed
qed

section \<open>The transition system\<close>

text \<open>
  A worker is a call of the workflow between its first and its last transaction: the job, the
  version \<^verbatim>\<open>begin\<close> returned and whether the object was read back already.  The list holds every
  state so far, newest first.
\<close>

record verif_state =
  vf_db :: job_db
  vf_store :: object_store
  vf_workers :: "(uuid \<times> asset_version \<times> bool) list"

definition with_db :: "verif_state \<Rightarrow> job_db \<Rightarrow> verif_state" where
  "with_db s db = s\<lparr>vf_db := db\<rparr>"

inductive verif_history :: "library_env \<Rightarrow> verif_state list \<Rightarrow> bool" for E where
  start: "lb_documents lib = [] \<Longrightarrow> lb_versions lib = [] \<Longrightarrow>
    verif_history E [\<lparr>vf_db = \<lparr>jb_lib = lib, jb_jobs = [], jb_owners = [], jb_relations = []\<rparr>, vf_store = st, vf_workers = []\<rparr>]"
| begun: "verif_history E (s # h) \<Longrightarrow> verify_begin now jid (vf_db s) = (db', r) \<Longrightarrow>
    verif_history E (s\<lparr>vf_db := db',
      vf_workers := (case r of Inr (Some v) \<Rightarrow> [(jid, v, False)] | _ \<Rightarrow> []) @ vf_workers s\<rparr> # s # h)"
| checked: "verif_history E (s # h) \<Longrightarrow> (jid, v, False) \<in> set (vf_workers s) \<Longrightarrow>
    verify_stored_asset E (vf_store s) v = Inr () \<Longrightarrow>
    verif_history E (s\<lparr>vf_workers := (jid, v, True) # remove1 (jid, v, False) (vf_workers s)\<rparr> # s # h)"
| gave_up: "verif_history E (s # h) \<Longrightarrow> (jid, v, False) \<in> set (vf_workers s) \<Longrightarrow>
    verify_stored_asset E (vf_store s) v = Inl e \<Longrightarrow>
    (if task_retryable e then verify_retry else verify_fail) now (task_code e) message jid (vf_db s) = (db', r) \<Longrightarrow>
    verif_history E (s\<lparr>vf_db := db', vf_workers := remove1 (jid, v, False) (vf_workers s)\<rparr> # s # h)"
| finished: "verif_history E (s # h) \<Longrightarrow> (jid, v, True) \<in> set (vf_workers s) \<Longrightarrow>
    verify_succeed now jid (vf_db s) = (db', r) \<Longrightarrow>
    verif_history E (s\<lparr>vf_db := db', vf_workers := remove1 (jid, v, True) (vf_workers s)\<rparr> # s # h)"
| retried: "verif_history E (s # h) \<Longrightarrow> verify_retry now code message jid (vf_db s) = (db', r) \<Longrightarrow>
    verif_history E (with_db s db' # s # h)"
| failing: "verif_history E (s # h) \<Longrightarrow> verify_fail now code message jid (vf_db s) = (db', r) \<Longrightarrow>
    verif_history E (with_db s db' # s # h)"
| dispatched: "verif_history E (s # h) \<Longrightarrow>
    dispatch_once sends stale now batch only locked (vf_db s) = Inr (db', res) \<Longrightarrow>
    verif_history E (with_db s db' # s # h)"
| job_created: "verif_history E (s # h) \<Longrightarrow>
    create_asset_verification fresh fresh' user wid version (vf_db s) = Inr (db', j, c) \<Longrightarrow>
    verif_history E (with_db s db' # s # h)"
| library: "verif_history E (s # h) \<Longrightarrow> library_grows (jb_lib (vf_db s)) lib \<Longrightarrow>
    verif_history E (with_db s ((vf_db s)\<lparr>jb_lib := lib\<rparr>) # s # h)"
| storage: "verif_history E (s # h) \<Longrightarrow> verif_history E (s\<lparr>vf_store := st\<rparr> # s # h)"
| crashed: "verif_history E (s # h) \<Longrightarrow> set ws \<subseteq> set (vf_workers s) \<Longrightarrow>
    verif_history E (s\<lparr>vf_workers := ws\<rparr> # s # h)"


section \<open>The invariant of the histories\<close>

definition version_data :: "asset_version \<Rightarrow> uuid \<times> pystr \<times> pystr \<times> int" where
  "version_data v = (av_id v, av_object_key v, av_sha256 v, av_size v)"

lemma verify_stored_data:
  "version_data v = version_data w \<Longrightarrow> verify_stored_asset E st v = verify_stored_asset E st w"
  by (simp add: verify_stored_asset_def version_data_def cong: option.case_cong)

definition was_checked :: "library_env \<Rightarrow> verif_state list \<Rightarrow> asset_version \<Rightarrow> bool" where
  "was_checked E h v \<longleftrightarrow> (\<exists>s \<in> set h. verify_stored_asset E (vf_store s) v = Inr ())"

definition job_pins :: "job_db \<Rightarrow> (uuid \<times> uuid) set" where
  "job_pins db = (\<lambda>j. (jo_id j, jo_version j)) ` set (jb_jobs db)"

definition worker_ok :: "library_env \<Rightarrow> verif_state list \<Rightarrow> job_db \<Rightarrow> uuid \<times> asset_version \<times> bool \<Rightarrow> bool" where
  "worker_ok E h db w \<longleftrightarrow>
     (fst w, av_id (fst (snd w))) \<in> job_pins db
     \<and> version_data (fst (snd w)) \<in> version_data ` set (lb_versions (jb_lib db))
     \<and> (snd (snd w) \<longrightarrow> was_checked E h (fst (snd w)))"

text \<open>What never changes again: a failed job, a verified version.\<close>

definition settled :: "job_db \<Rightarrow> job_db \<Rightarrow> bool" where
  "settled old new \<longleftrightarrow>
     {j \<in> set (jb_jobs old). jo_status j = FAILED} \<subseteq> set (jb_jobs new)
     \<and> {v \<in> set (lb_versions (jb_lib old)). av_status v = READY} \<subseteq> set (lb_versions (jb_lib new))
     \<and> job_pins old \<subseteq> job_pins new
     \<and> version_data ` set (lb_versions (jb_lib old)) \<subseteq> version_data ` set (lb_versions (jb_lib new))"

lemma settled_refl: "settled db db"
  by (auto simp: settled_def)

lemma settled_trans:
  assumes "settled a b" "settled b c"
  shows "settled a c"
proof -
  from assms have "{j \<in> set (jb_jobs a). jo_status j = FAILED} \<subseteq> set (jb_jobs c)"
    "{v \<in> set (lb_versions (jb_lib a)). av_status v = READY} \<subseteq> set (lb_versions (jb_lib c))"
    by (auto simp: settled_def)
  moreover from assms have "job_pins a \<subseteq> job_pins c"
    "version_data ` set (lb_versions (jb_lib a)) \<subseteq> version_data ` set (lb_versions (jb_lib c))"
    unfolding settled_def by (meson order_trans)+
  ultimately show ?thesis by (simp only: settled_def simp_thms)
qed

definition hist_ok :: "library_env \<Rightarrow> verif_state \<Rightarrow> verif_state list \<Rightarrow> bool" where
  "hist_ok E s h \<longleftrightarrow>
     jobs_ok (vf_db s) \<and> actives_ok (jb_lib (vf_db s))
     \<and> (\<forall>v \<in> set (lb_versions (jb_lib (vf_db s))). av_status v = READY \<longrightarrow> was_checked E (s # h) v)
     \<and> (\<forall>w \<in> set (vf_workers s). worker_ok E (s # h) (vf_db s) w)
     \<and> (\<forall>s0 \<in> set h. settled (vf_db s0) (vf_db s))"

lemma was_checked_push: "was_checked E h v \<Longrightarrow> was_checked E (s # h) v"
  by (auto simp: was_checked_def)

lemma worker_ok_push: "worker_ok E h db w \<Longrightarrow> settled db db' \<Longrightarrow> worker_ok E (s # h) db' w"
  unfolding worker_ok_def settled_def by (auto intro: was_checked_push)

lemma hist_ok_push:
  assumes h: "hist_ok E s h" and db: "jobs_ok (vf_db s')" "actives_ok (jb_lib (vf_db s'))"
    and ready: "\<And>v. v \<in> set (lb_versions (jb_lib (vf_db s'))) \<Longrightarrow> av_status v = READY \<Longrightarrow>
      v \<in> set (lb_versions (jb_lib (vf_db s))) \<or> was_checked E (s # h) v"
    and workers: "\<And>w. w \<in> set (vf_workers s') \<Longrightarrow> w \<in> set (vf_workers s) \<or> worker_ok E (s' # s # h) (vf_db s') w"
    and old: "settled (vf_db s) (vf_db s')"
  shows "hist_ok E s' (s # h)"
proof -
  have "was_checked E (s' # s # h) v" if "v \<in> set (lb_versions (jb_lib (vf_db s')))" "av_status v = READY" for v
    using ready [OF that] h that(2) by (auto simp: hist_ok_def intro: was_checked_push)
  moreover have "worker_ok E (s' # s # h) (vf_db s') w" if "w \<in> set (vf_workers s')" for w
    using workers [OF that] h old by (auto simp: hist_ok_def intro: worker_ok_push)
  moreover have "settled (vf_db s0) (vf_db s')" if "s0 \<in> set (s # h)" for s0
    using that h old by (auto simp: hist_ok_def intro: settled_trans)
  ultimately show ?thesis using db by (simp add: hist_ok_def)
qed

lemma moved_settled:
  assumes "jobs_moved db db'"
  shows "settled db db'"
proof -
  have "job_pins x = (\<lambda>p. (fst p, fst (snd (snd (snd p))))) ` set (map job_identity (jb_jobs x))" for x
    by (simp add: job_pins_def job_identity_def image_image)
  moreover from assms have "map job_identity (jb_jobs db') = map job_identity (jb_jobs db)"
    by (simp only: jobs_moved_def)
  ultimately have "job_pins db' = job_pins db" by (simp only:)
  with assms show ?thesis by (auto simp: jobs_moved_def settled_def)
qed

lemma hist_ok_moved:
  assumes h: "hist_ok E s h" and mv: "jobs_moved (vf_db s) (vf_db s')"
    and workers: "\<And>w. w \<in> set (vf_workers s') \<Longrightarrow> w \<in> set (vf_workers s) \<or> worker_ok E (s' # s # h) (vf_db s') w"
  shows "hist_ok E s' (s # h)"
proof (rule hist_ok_push [OF h _ _ _ workers moved_settled [OF mv]])
  show "jobs_ok (vf_db s')" using mv by (rule jobs_moved_ok)
  show "actives_ok (jb_lib (vf_db s'))" using mv h by (simp add: jobs_moved_def hist_ok_def)
qed (use mv in \<open>simp add: jobs_moved_def\<close>)

lemma verify_begin_worker:
  assumes "verify_begin now jid db = (db', Inr (Some v))"
  shows "(jid, av_id v) \<in> job_pins db" "v \<in> set (lb_versions (jb_lib db))"
proof -
  from assms obtain j where j: "find_job db jid = Some j" by (cases "find_job db jid") (auto simp: verify_begin_def)
  from assms j obtain w where w: "find_version (jb_lib db) (jo_version j) = Some w"
    by (cases "find_version (jb_lib db) (jo_version j)")
       (auto simp: verify_begin_def commit_as_def split: if_splits sum.splits prod.splits)
  from assms j w have "v = w"
    by (auto simp: verify_begin_def commit_as_def split: if_splits sum.splits prod.splits job_status.splits)
  with w have v: "v \<in> set (lb_versions (jb_lib db))" "av_id v = jo_version j"
    by (auto simp: find_version_def dest: row_by_SomeD)
  from j have "j \<in> set (jb_jobs db)" "jo_id j = jid" by (auto simp: find_job_def dest: row_by_SomeD)
  with v show "(jid, av_id v) \<in> job_pins db" "v \<in> set (lb_versions (jb_lib db))" by (auto simp: job_pins_def)
qed

lemma create_settled:
  assumes c: "create_asset_verification fresh fresh' user wid version db = Inr (db', j, created)"
  shows "jb_lib db' = jb_lib db" "settled db db'"
proof -
  have "jb_lib db' = jb_lib db \<and> set (jb_jobs db) \<subseteq> set (jb_jobs db')"
  proof (cases "find_by_idempotency db user VERIFY_ASSET (verification_key version)")
    case None
    with c obtain row where add: "job_add fresh' (new_job fresh user wid version VERIFY_ASSET (verification_key version)) db = Inr (db', row)"
      by (auto simp: create_asset_verification_def Let_def)
    show ?thesis by (rule job_add_Inr [OF add]) (auto dest!: register_relation_Inr)
  qed (use c in \<open>simp add: create_asset_verification_def Let_def\<close>)
  then show "jb_lib db' = jb_lib db" "settled db db'"
    by (auto simp: settled_def job_pins_def)
qed

lemma grows_settled:
  assumes "library_grows (jb_lib db) lib"
  shows "settled db (db\<lparr>jb_lib := lib\<rparr>)"
proof -
  from assms have "set (lb_versions (jb_lib db)) \<subseteq> set (lb_versions lib)"
    unfolding library_grows_def by (elim conjE)
  then show ?thesis by (auto simp: settled_def job_pins_def)
qed

lemma mark_ready_settled:
  assumes "keyed av_id (lb_versions lib)" "v \<in> set (lb_versions lib)" "av_status v \<noteq> READY"
  shows "x \<in> set (lb_versions lib) \<Longrightarrow> av_status x = READY \<Longrightarrow> x \<in> set (lb_versions (mark_ready v d n lib))"
    and "version_data ` set (lb_versions (mark_ready v d n lib)) = version_data ` set (lb_versions lib)"
    and "y \<in> set (lb_versions (mark_ready v d n lib)) \<Longrightarrow> y \<in> set (lb_versions lib) \<or> y = v\<lparr>av_status := READY\<rparr>"
proof -
  have s: "lb_versions (mark_ready v d n lib) = put_row av_id (v\<lparr>av_status := READY\<rparr>) (lb_versions lib)"
    by (simp add: mark_ready_def Let_def)
  show "x \<in> set (lb_versions (mark_ready v d n lib))" if "x \<in> set (lb_versions lib)" "av_status x = READY"
    using keyed_eq [OF assms(1) that(1) assms(2)] assms(3) that by (auto simp: s set_put_row)
  have "version_data (if av_id x = av_id (v\<lparr>av_status := READY\<rparr>) then v\<lparr>av_status := READY\<rparr> else x) = version_data x"
    if "x \<in> set (lb_versions lib)" for x
    using keyed_eq [OF assms(1) that assms(2)] by (auto simp: version_data_def)
  then have "map version_data (lb_versions (mark_ready v d n lib)) = map version_data (lb_versions lib)"
    unfolding s put_row_def by simp
  then show "version_data ` set (lb_versions (mark_ready v d n lib)) = version_data ` set (lb_versions lib)"
    by (metis set_map)
  show "y \<in> set (lb_versions lib) \<or> y = v\<lparr>av_status := READY\<rparr>" if "y \<in> set (lb_versions (mark_ready v d n lib))"
    using that by (auto simp: s set_put_row split: if_splits)
qed


lemma remove1_subset: "w \<in> set (remove1 x ws) \<Longrightarrow> w \<in> set ws"
  using set_remove1_subset by fast

lemma hist_ok_finished:
  assumes h: "hist_ok E s h" and w: "(jid, v, True) \<in> set (vf_workers s)"
    and fin: "verify_succeed now jid (vf_db s) = (db', r)"
  shows "hist_ok E (s\<lparr>vf_db := db', vf_workers := remove1 (jid, v, True) (vf_workers s)\<rparr>) (s # h)"
proof -
  let ?s' = "s\<lparr>vf_db := db', vf_workers := remove1 (jid, v, True) (vf_workers s)\<rparr>"
  from h have ok: "jobs_ok (vf_db s)" "actives_ok (jb_lib (vf_db s))" by (simp_all add: hist_ok_def)
  have sub: "x \<in> set (vf_workers s)" if "x \<in> set (vf_workers ?s')" for x
    using that remove1_subset by fastforce
  show ?thesis
  proof (cases rule: verify_succeed_cases [OF ok(1) fin])
    case 1
    show ?thesis by (rule hist_ok_moved [OF h]) (use 1 ok(1) sub in \<open>auto simp: jobs_moved_refl\<close>)
  next
    case (2 j x d n e)
    let ?lib = "jb_lib (vf_db s)"
    let ?mid = "(vf_db s)\<lparr>jb_lib := mark_ready x d n ?lib\<rparr>"
    from ok(1) have k: "keyed av_id (lb_versions ?lib)" "keyed do_id (lb_documents ?lib)" "keyed jo_id (jb_jobs (vf_db s))"
      by (simp_all add: jobs_ok_def)
    from 2(3) have x: "x \<in> set (lb_versions ?lib)" "av_id x = jo_version j" by (auto simp: find_version_def dest: row_by_SomeD)
    have lib': "jb_lib db' = mark_ready x d n ?lib" using 2(8) by (simp add: jobs_moved_def)
    have nr: "av_status x \<noteq> READY" using 2(4) by simp
    note m = mark_ready_settled [OF k(1) x(1) nr]
    have "settled (vf_db s) ?mid"
      unfolding settled_def job_pins_def using m(1,2) by auto
    with moved_settled [OF 2(8)] have old: "settled (vf_db s) db'" by (blast intro: settled_trans)
    from h w have wk: "worker_ok E (s # h) (vf_db s) (jid, v, True)" unfolding hist_ok_def by blast
    then have pin: "(jid, av_id v) \<in> job_pins (vf_db s)" and "version_data v \<in> version_data ` set (lb_versions ?lib)"
      and chk: "was_checked E (s # h) v" by (simp_all add: worker_ok_def)
    then obtain v' where v': "v' \<in> set (lb_versions ?lib)" "version_data v' = version_data v" by auto
    from pin obtain j' where "j' \<in> set (jb_jobs (vf_db s))" "jo_id j' = jid" "jo_version j' = av_id v"
      by (auto simp: job_pins_def)
    moreover from 2(1) have "j \<in> set (jb_jobs (vf_db s))" "jo_id j = jid" by (auto simp: find_job_def dest: row_by_SomeD)
    ultimately have "jo_version j = av_id v" using keyed_eq [OF k(3)] by metis
    with x v' have "v' = x" using keyed_eq [OF k(1) v'(1) x(1)] by (simp add: version_data_def)
    with v'(2) have "version_data (x\<lparr>av_status := READY\<rparr>) = version_data v" by (simp add: version_data_def)
    with chk have "was_checked E (s # h) (x\<lparr>av_status := READY\<rparr>)"
      unfolding was_checked_def by (metis verify_stored_data)
    moreover have "actives_ok (mark_ready x d n ?lib)"
      by (rule mark_ready_actives [OF ok(2) k(1,2) x(1) 2(4-7)])
    moreover have "y \<in> set (lb_versions ?lib) \<or> was_checked E (s # h) y"
      if "y \<in> set (lb_versions (mark_ready x d n ?lib))" for y
      using m(3) [OF that] calculation(1) by blast
    moreover have db: "vf_db ?s' = db'" by simp
    ultimately show ?thesis
    proof (intro hist_ok_push [OF h], unfold db lib')
      show "jobs_ok db'" by (rule jobs_moved_ok [OF 2(8)])
      show "settled (vf_db s) db'" by (rule old)
    qed (use sub in blast)+
  qed
qed

lemma verif_history_ok: "verif_history E hs \<Longrightarrow> \<exists>s h. hs = s # h \<and> hist_ok E s h"
proof (induction rule: verif_history.induct)
  case (start lib st)
  then show ?case by (simp add: hist_ok_def jobs_ok_def actives_ok_def)
next
  case (begun s h now jid db' r)
  then have h: "hist_ok E s h" by blast
  then have ok: "jobs_ok (vf_db s)" by (simp add: hist_ok_def)
  from verify_begin_moved [OF this, of now jid] begun.hyps(2) have mv: "jobs_moved (vf_db s) db'" by simp
  let ?new = "case r of Inr (Some v) \<Rightarrow> [(jid, v, False)] | _ \<Rightarrow> []"
  have "worker_ok E (s # h) (vf_db s) w" if w: "w \<in> set ?new" for w
  proof -
    from w obtain v where "r = Inr (Some v)" "w = (jid, v, False)" by (auto split: sum.splits option.splits)
    with verify_begin_worker begun.hyps(2) show ?thesis by (auto simp: worker_ok_def)
  qed
  note new = worker_ok_push [OF this moved_settled [OF mv]]
  have "hist_ok E (s\<lparr>vf_db := db', vf_workers := ?new @ vf_workers s\<rparr>) (s # h)"
  proof (rule hist_ok_moved [OF h])
    fix w
    assume "w \<in> set (vf_workers (s\<lparr>vf_db := db', vf_workers := ?new @ vf_workers s\<rparr>))"
    then have w: "w \<in> set ?new \<or> w \<in> set (vf_workers s)" by simp
    have db: "vf_db (s\<lparr>vf_db := db', vf_workers := ?new @ vf_workers s\<rparr>) = db'" by simp
    from w show "w \<in> set (vf_workers s) \<or> worker_ok E (s\<lparr>vf_db := db', vf_workers := ?new @ vf_workers s\<rparr> # s # h)
        (vf_db (s\<lparr>vf_db := db', vf_workers := ?new @ vf_workers s\<rparr>)) w"
      unfolding db by (elim disjE) (rule disjI2, erule new, erule disjI1)
  qed (use mv in simp)
  then show ?case by blast
next
  case (checked s h jid v)
  then have h: "hist_ok E s h" by blast
  then have "jobs_ok (vf_db s)" and w: "worker_ok E (s # h) (vf_db s) (jid, v, False)"
    using checked.hyps(2) unfolding hist_ok_def by blast+
  moreover have "was_checked E (s # h) v" using checked.hyps(3) by (auto simp: was_checked_def)
  ultimately have new: "worker_ok E (x # s # h) (vf_db s) (jid, v, True)" for x
    by (auto simp: worker_ok_def intro: was_checked_push)
  have "hist_ok E (s\<lparr>vf_workers := (jid, v, True) # remove1 (jid, v, False) (vf_workers s)\<rparr>) (s # h)"
    by (rule hist_ok_moved [OF h]) (use new \<open>jobs_ok (vf_db s)\<close> in \<open>auto simp: jobs_moved_refl dest: remove1_subset\<close>)
  then show ?case by blast
next
  case (gave_up s h jid v e now message db' r)
  then have h: "hist_ok E s h" by blast
  then have ok: "jobs_ok (vf_db s)" by (simp add: hist_ok_def)
  from verify_retry_moved [OF ok, of now "task_code e" message jid] verify_fail_moved [OF ok, of now "task_code e" message jid]
    gave_up.hyps(4) have mv: "jobs_moved (vf_db s) db'" by (auto split: if_splits)
  have "hist_ok E (s\<lparr>vf_db := db', vf_workers := remove1 (jid, v, False) (vf_workers s)\<rparr>) (s # h)"
    by (rule hist_ok_moved [OF h]) (use mv in \<open>auto dest: remove1_subset\<close>)
  then show ?case by blast
next
  case (finished s h jid v now db' r)
  then show ?case using hist_ok_finished by blast
next
  case (retried s h now code message jid db' r)
  then have h: "hist_ok E s h" by blast
  then have "jobs_ok (vf_db s)" by (simp add: hist_ok_def)
  from verify_retry_moved [OF this, of now code message jid] retried.hyps(2) have "jobs_moved (vf_db s) db'" by simp
  then have "hist_ok E (with_db s db') (s # h)" by (intro hist_ok_moved [OF h]) (simp_all add: with_db_def)
  then show ?case by blast
next
  case (failing s h now code message jid db' r)
  then have h: "hist_ok E s h" by blast
  then have "jobs_ok (vf_db s)" by (simp add: hist_ok_def)
  from verify_fail_moved [OF this, of now code message jid] failing.hyps(2) have "jobs_moved (vf_db s) db'" by simp
  then have "hist_ok E (with_db s db') (s # h)" by (intro hist_ok_moved [OF h]) (simp_all add: with_db_def)
  then show ?case by blast
next
  case (dispatched s h sends stale now batch only locked db' res)
  then have h: "hist_ok E s h" by blast
  then have "jobs_ok (vf_db s)" by (simp add: hist_ok_def)
  from dispatch_once_moved [OF this dispatched.hyps(2)] have "jobs_moved (vf_db s) db'" by simp
  then have "hist_ok E (with_db s db') (s # h)" by (intro hist_ok_moved [OF h]) (simp_all add: with_db_def)
  then show ?case by blast
next
  case (job_created s h fresh fresh' user wid version db' j c)
  then have h: "hist_ok E s h" by blast
  then have "jobs_ok (vf_db s)" "actives_ok (jb_lib (vf_db s))" by (simp_all add: hist_ok_def)
  with create_asset_verification_ok [OF job_created.hyps(2)] create_settled [OF job_created.hyps(2)]
  have "hist_ok E (with_db s db') (s # h)" by (intro hist_ok_push [OF h]) (simp_all add: with_db_def)
  then show ?case by blast
next
  case (library s h lib)
  then have h: "hist_ok E s h" by blast
  then have ok: "jobs_ok (vf_db s)" "actives_ok (jb_lib (vf_db s))" by (simp_all add: hist_ok_def)
  note g = library.hyps(2)
  have "hist_ok E (with_db s ((vf_db s)\<lparr>jb_lib := lib\<rparr>)) (s # h)"
    by (rule hist_ok_push [OF h])
       (use library_step_ok [OF ok(1) library_grows_sources [OF g]] grows_actives [OF g ok(2)] grows_settled [OF g]
          library_grows_versions [OF g] in \<open>simp_all add: with_db_def\<close>)
  then show ?case by blast
next
  case (storage s h st)
  then have h: "hist_ok E s h" by blast
  then have "jobs_ok (vf_db s)" by (simp add: hist_ok_def)
  then have "hist_ok E (s\<lparr>vf_store := st\<rparr>) (s # h)" by (intro hist_ok_moved [OF h]) (simp_all add: jobs_moved_refl)
  then show ?case by blast
next
  case (crashed s h ws)
  then have h: "hist_ok E s h" by blast
  then have "jobs_ok (vf_db s)" by (simp add: hist_ok_def)
  then have "hist_ok E (s\<lparr>vf_workers := ws\<rparr>) (s # h)"
    by (intro hist_ok_moved [OF h]) (use crashed.hyps(2) in \<open>auto simp: jobs_moved_refl\<close>)
  then show ?case by blast
qed

end
