(* ===== verification/Job_Properties.thy ===== *)
theory Job_Properties
  imports Job_Inventory Job_History Verification_System Asset_Properties
begin

text \<open>
  The properties of jobs, their inventory and the verification of assets, with the concrete
  library, job and run their witnesses evaluate.
\<close>

section \<open>A job update that finds its row succeeds\<close>

lemma replace_current_total:
  assumes cur: "job_relations (js_job s) db = [x]" and x: "rr_relation x = pinned s n"
    and k: "keyed rr_id (jb_relations db)"
  shows "\<exists>db'. replace_current (pinned s n) (pinned s (n + 1)) db = Inr db'"
proof -
  have "resource_rows (pinned s n) (jb_relations db)
      = filter (\<lambda>y. ri_kind (sr_resource (rr_relation y)) = job_kind) (job_relations (js_job s) db)"
    by (simp add: resource_rows_def job_relations_def conj_ac)
  with cur x have rows: "resource_rows (pinned s n) (jb_relations db) = [x]" by simp
  have "x \<in> set (job_relations (js_job s) db)" using cur by simp
  then have mem: "x \<in> set (jb_relations db)" by (simp add: job_relations_def)
  have "(rr_id y = rr_id x \<and> rr_relation y = pinned s n) \<longleftrightarrow> y = x" if "y \<in> set (jb_relations db)" for y
    using keyed_eq [OF k that mem] x by auto
  then have "filter (\<lambda>y. rr_id y = rr_id x \<and> rr_relation y = pinned s n) (jb_relations db)
      = filter (\<lambda>y. y = x) (jb_relations db)" by (intro filter_cong) simp_all
  moreover have "length (filter (\<lambda>y. y = x) (jb_relations db)) = 1"
    using k mem by (intro filter_one) (simp_all add: keyed_def distinct_map)
  ultimately show ?thesis using rows x by (simp add: replace_current_def Let_def)
qed

lemma job_update_total:
  assumes ok: "jobs_ok db" and j: "find_job db (jo_id k) = Some j"
    and k: "job_identity k = job_identity j" "jo_revision k = jo_revision j"
  shows "\<exists>db' j'. job_update k db = Inr (db', j')"
proof -
  from j have mem: "j \<in> set (jb_jobs db)" "jo_id j = jo_id k" by (auto simp: find_job_def dest: row_by_SomeD)
  with ok have "job_tracked db j" by (simp add: jobs_ok_def)
  then obtain n s where t: "jo_revision j = Some n" "1 \<le> n" "s \<in> set (jb_owners db)" "js_job s = jo_id j"
    "js_workspace s = jo_workspace j" "js_version s = jo_version j"
    "map rr_relation (job_relations (jo_id j) db) = [pinned s n]" by (rule job_trackedE)
  then obtain x where x: "job_relations (js_job s) db = [x]" "rr_relation x = pinned s n" by auto
  from ok have keys: "keyed rr_id (jb_relations db)" "keyed js_job (jb_owners db)" by (simp_all add: jobs_ok_def)
  from replace_current_total [OF x keys(1)] obtain db1 where
    rep: "replace_current (pinned s n) (pinned s (n + 1)) db = Inr db1" ..
  from keys(2) t(3,4) have "row_by js_job (jo_id j) (jb_owners db) = Some s" by (simp add: row_by_Some_iff)
  moreover from x t(4) have "ri_kind (sr_resource (rr_relation x)) = job_kind" "job_relations (jo_id j) db = [x]"
    by simp_all
  ultimately have "advance_ownership j db = Inr (db1, Some (n + 1))"
    using t(1,2,5,6) rep by (simp add: advance_ownership_def Let_def ownership_relation_pinned)
  with j k t(1,2) show ?thesis
    by (simp add: job_update_def validate_identity_def find_job_def Let_def)
qed

section \<open>A concrete job\<close>

definition demo_key :: pystr where
  "demo_key = verification_key (UUID 32)"

definition demo_jobs :: job_db where
  "demo_jobs = \<lparr>jb_lib = demo_uploaded, jb_jobs = [], jb_owners = [], jb_relations = []\<rparr>"

definition demo_job :: job where
  "demo_job = new_job (UUID 41) (UUID 11) (UUID 10) (UUID 32) VERIFY_ASSET demo_key"

definition demo_pin :: job_source where
  "demo_pin = \<lparr>js_job = UUID 41, js_workspace = UUID 10, js_document = UUID 31, js_version = UUID 32\<rparr>"

definition demo_created :: job_db where
  "demo_created = demo_jobs\<lparr>jb_jobs := [demo_job], jb_owners := [demo_pin],
     jb_relations := [\<lparr>rr_id = UUID 42, rr_relation = pinned demo_pin 1\<rparr>]\<rparr>"

lemma demo_start: "job_reachable demo_jobs"
  unfolding demo_jobs_def
  by (rule job_reachable.start) (simp_all add: demo_uploaded_def demo_library_def keyed_def)

lemma demo_create:
  "create_asset_verification (UUID 41) (UUID 42) (UUID 11) (UUID 10) (UUID 32) demo_jobs = Inr (demo_created, demo_job, True)"
proof -
  have src: "version_source (jb_lib demo_jobs) (UUID 32) = Some (UUID 10, UUID 31)"
    by (simp add: version_source_def demo_jobs_def demo_uploaded_def demo_library_def demo_version_def demo_document_def)
  have ex: "source_exists (jb_lib demo_jobs) (pin_source demo_pin)"
    by (simp add: source_exists_def pin_source_def demo_pin_def demo_jobs_def demo_uploaded_def demo_library_def
        demo_version_def demo_document_def)
  have j: "new_job (UUID 41) (UUID 11) (UUID 10) (UUID 32) VERIFY_ASSET demo_key = demo_job"
    "jo_version demo_job = UUID 32" "jo_workspace demo_job = UUID 10" "jo_id demo_job = UUID 41"
    "demo_job\<lparr>jo_revision := Some 1\<rparr> = demo_job"
    by (simp_all add: demo_job_def new_job_def)
  have "job_add (UUID 42) demo_job demo_jobs = Inr (demo_created, demo_job)"
    unfolding job_add_def j src using ex
    by (simp add: Let_def ownership_relation_pinned demo_pin_def [symmetric] register_relation_def demo_created_def)
       (simp add: demo_jobs_def find_by_idempotency_def)
  moreover have "find_by_idempotency demo_jobs (UUID 11) VERIFY_ASSET demo_key = None"
    by (simp add: demo_jobs_def find_by_idempotency_def)
  ultimately show ?thesis
    by (simp add: create_asset_verification_def Let_def demo_key_def [symmetric] j(1))
qed

lemma demo_job_reachable: "job_reachable demo_created"
  by (rule job_reachable.step [OF demo_start job_step.create [OF demo_create]])

lemma demo_ok: "jobs_ok demo_created"
  by (rule job_reachable_tracked [OF demo_job_reachable]) (simp add: demo_created_def demo_job_def new_job_def)

lemma demo_find: "find_job demo_created (UUID 41) = Some demo_job"
  by (simp add: find_job_def demo_created_def demo_job_def new_job_def)

lemma demo_update: "\<exists>db' j'. job_update demo_job demo_created = Inr (db', j')"
  by (rule job_update_total [OF demo_ok, of _ demo_job]) (simp_all add: demo_find demo_job_def new_job_def)

section \<open>Jobs\<close>

text \<open>
  C10.  Whatever creations of verification and ingestion jobs, updates, library changes and other
  participants' relations came before, a job with a revision has exactly one relation under the
  participant \<^verbatim>\<open>platform_jobs\<close>: a derived artifact of the source it was created for, at the job's own
  revision; and that source still exists.  A legacy job, left without a revision by migration 0048,
  has no relation and no pin, however often it is updated.  No relation of the participant is left
  over: each belongs to a job with a revision.
\<close>

theorem job_relation_is_current:
  assumes "job_reachable db" "j \<in> set (jb_jobs db)"
  shows "(case jo_revision j of
      None \<Rightarrow> job_relations (jo_id j) db = [] \<and> row_by js_job (jo_id j) (jb_owners db) = None
    | Some n \<Rightarrow> 1 \<le> n \<and> (\<exists>did.
        source_exists (jb_lib db) \<lparr>si_workspace = jo_workspace j, si_document = did, si_version = jo_version j\<rparr>
        \<and> map rr_relation (job_relations (jo_id j) db) =
            [\<lparr>sr_source = \<lparr>si_workspace = jo_workspace j, si_document = did, si_version = jo_version j\<rparr>,
              sr_resource = \<lparr>ri_participant = jobs_participant, ri_kind = job_kind, ri_resource = jo_id j, ri_revision = n\<rparr>,
              sr_kind = lit ''derived_artifact''\<rparr>]))
    \<and> (\<forall>x\<in>set (jb_relations db). ri_participant (sr_resource (rr_relation x)) = jobs_participant \<longrightarrow>
         (\<exists>k\<in>set (jb_jobs db). jo_id k = ri_resource (sr_resource (rr_relation x)) \<and> jo_revision k \<noteq> None))"
proof (rule conjI)
  note ok = job_reachable_ok [OF assms(1)]
  then have tracked: "jobs_ok (tracked_part db)" by (simp add: job_tables_ok_def)
  show "\<forall>x\<in>set (jb_relations db). ri_participant (sr_resource (rr_relation x)) = jobs_participant \<longrightarrow>
         (\<exists>k\<in>set (jb_jobs db). jo_id k = ri_resource (sr_resource (rr_relation x)) \<and> jo_revision k \<noteq> None)"
    using tracked by (fastforce simp: jobs_ok_def)
  show "case jo_revision j of
      None \<Rightarrow> job_relations (jo_id j) db = [] \<and> row_by js_job (jo_id j) (jb_owners db) = None
    | Some n \<Rightarrow> 1 \<le> n \<and> (\<exists>did.
        source_exists (jb_lib db) \<lparr>si_workspace = jo_workspace j, si_document = did, si_version = jo_version j\<rparr>
        \<and> map rr_relation (job_relations (jo_id j) db) =
            [\<lparr>sr_source = \<lparr>si_workspace = jo_workspace j, si_document = did, si_version = jo_version j\<rparr>,
              sr_resource = \<lparr>ri_participant = jobs_participant, ri_kind = job_kind, ri_resource = jo_id j, ri_revision = n\<rparr>,
              sr_kind = lit ''derived_artifact''\<rparr>])"
  proof (cases "jo_revision j")
    case None
    with legacy_untouched [OF ok assms(2)] show ?thesis by simp
  next
    case (Some m)
    with tracked assms(2) have "job_tracked (tracked_part db) j" by (simp add: jobs_ok_def)
    then obtain n s where "jo_revision j = Some n" "1 \<le> n" "s \<in> set (jb_owners (tracked_part db))" "js_job s = jo_id j"
      "js_workspace s = jo_workspace j" "js_version s = jo_version j" "source_exists (jb_lib (tracked_part db)) (pin_source s)"
      "map rr_relation (job_relations (jo_id j) (tracked_part db)) = [pinned s n]" by (rule job_trackedE)
    then show ?thesis
      by (simp add: pinned_def pin_source_def del: lit_simps)
  qed
qed

text \<open>The tables after the migration, with a legacy job, and after an ingestion job was added.\<close>

definition demo_legacy :: job where
  "demo_legacy = (new_job (UUID 43) (UUID 11) (UUID 10) (UUID 32) VERIFY_ASSET demo_key)\<lparr>jo_revision := None\<rparr>"

definition demo_ingestion :: job where
  "demo_ingestion = new_job (UUID 41) (UUID 11) (UUID 10) (UUID 32) RAG_INGESTION (lit ''k'')"

definition demo_migrated :: job_db where
  "demo_migrated = demo_jobs\<lparr>jb_jobs := [demo_legacy]\<rparr>"

definition demo_ingested :: job_db where
  "demo_ingested = demo_jobs\<lparr>jb_jobs := [demo_legacy, demo_ingestion], jb_owners := [demo_pin],
     jb_relations := [\<lparr>rr_id = UUID 42, rr_relation = pinned demo_pin 1\<rparr>]\<rparr>"

lemma demo_ingestion_reachable: "job_reachable demo_ingested"
proof (rule job_reachable.step [OF _ job_step.ingest])
  show "job_reachable demo_migrated"
    unfolding demo_migrated_def demo_jobs_def job_db.update_convs
    by (rule job_reachable.start) (simp_all add: demo_uploaded_def demo_library_def keyed_def demo_legacy_def)
  have src: "version_source (jb_lib demo_migrated) (UUID 32) = Some (UUID 10, UUID 31)"
    by (simp add: version_source_def demo_migrated_def demo_jobs_def demo_uploaded_def demo_library_def demo_version_def demo_document_def)
  have ex: "source_exists (jb_lib demo_migrated) (pin_source demo_pin)"
    by (simp add: source_exists_def pin_source_def demo_pin_def demo_migrated_def demo_jobs_def demo_uploaded_def demo_library_def
        demo_version_def demo_document_def)
  have j: "jo_version demo_ingestion = UUID 32" "jo_workspace demo_ingestion = UUID 10" "jo_id demo_ingestion = UUID 41"
    "jo_type demo_ingestion = RAG_INGESTION" "demo_ingestion\<lparr>jo_revision := Some 1\<rparr> = demo_ingestion"
    by (simp_all add: demo_ingestion_def new_job_def)
  have "job_add (UUID 42) demo_ingestion demo_migrated = Inr (demo_ingested, demo_ingestion)"
    unfolding job_add_def j src using ex
    by (simp add: Let_def ownership_relation_pinned demo_pin_def [symmetric] register_relation_def demo_ingested_def)
       (simp add: demo_migrated_def demo_jobs_def find_by_idempotency_def demo_legacy_def new_job_def)
  then show "job_add (UUID 42) (new_job (UUID 41) (UUID 11) (UUID 10) (UUID 32) RAG_INGESTION (lit ''k'')) demo_migrated
      = Inr (demo_ingested, demo_ingestion)" by (simp add: demo_ingestion_def)
qed

theorem job_relation_is_current_witness:
  "job_relations (jo_id demo_legacy) demo_ingested = [] \<and> length (job_relations (jo_id demo_ingestion) demo_ingested) = 1"
proof -
  have "demo_legacy \<in> set (jb_jobs demo_ingested)" "demo_ingestion \<in> set (jb_jobs demo_ingested)"
    by (simp_all add: demo_ingested_def)
  from this [THEN job_relation_is_current [OF demo_ingestion_reachable]] show ?thesis
    by (auto simp: demo_legacy_def demo_ingestion_def new_job_def map_eq_Cons_conv simp del: lit_simps)
qed

text \<open>
  Optimistic concurrency of jobs with a revision: an accepted update advances the revision by exactly one, and
  a second update of the same job made from the same revision is refused as a conflict, leaving
  the tables as they are.
\<close>

theorem stale_job_update_refused:
  assumes "jobs_ok db" "job_update j db = Inr (db', j')"
  shows "(\<exists>n. jo_revision j = Some n \<and> jo_revision j' = Some (n + 1))
    \<and> (\<forall>k. job_identity k = job_identity j \<and> jo_revision k = jo_revision j \<longrightarrow>
          job_update k db' = Inl (ownership_error ''job_revision_conflict''))"
proof (intro conjI allI impI)
  note ok = assms(1)
  from job_update_ok(2) [OF assms(2) ok] obtain n where n: "jo_revision j = Some n" "jo_revision j' = Some (n + 1)" by blast
  then show "\<exists>n. jo_revision j = Some n \<and> jo_revision j' = Some (n + 1)" by blast
  fix k
  assume k: "job_identity k = job_identity j \<and> jo_revision k = jo_revision j"
  from assms(2) obtain row db1 nr where row: "row_by jo_id (jo_id j) (jb_jobs db) = Some row" "job_identity row = job_identity j"
    and j': "j' = row\<lparr>jo_status := jo_status j, jo_stage := jo_stage j, jo_attempt := jo_attempt j,
        jo_error_code := jo_error_code j, jo_error_message := jo_error_message j,
        jo_started := jo_started j, jo_finished := jo_finished j, jo_revision := nr\<rparr>"
    and db': "db' = db1\<lparr>jb_jobs := put_row jo_id j' (jb_jobs db1)\<rparr>" and adv: "advance_ownership row db = Inr (db1, nr)"
    by (rule job_update_Inr)
  from row have "row \<in> set (jb_jobs db)" "jo_id row = jo_id j" by (auto dest: row_by_SomeD)
  with ok have "job_tracked db row" "keyed js_job (jb_owners db)" by (simp_all add: jobs_ok_def)
  with adv obtain s m where rep: "replace_current (pinned s m) (pinned s (m + 1)) db = Inr db1" "js_job s = jo_id row"
    "\<exists>x. job_relations (jo_id row) db = [x]" by (rule advance_ownership_tracked)
  then obtain x where "job_relations (js_job s) db = [x]" by auto
  from replace_current_pinned(3) [OF rep(1) this] have "jb_jobs db1 = jb_jobs db"
    by (metis job_db.select_convs(2) job_db.surjective job_db.update_convs(4))
  moreover have "jo_id j' = jo_id j" "job_identity j' = job_identity j" "jo_id k = jo_id j"
    using row(2) k by (simp_all add: j' job_identity_def)
  ultimately have "row_by jo_id (jo_id k) (jb_jobs db') = Some j'" using row(1) by (simp add: db' row_by_put_row)
  with n k \<open>job_identity j' = job_identity j\<close>
  show "job_update k db' = Inl (ownership_error ''job_revision_conflict'')"
    by (simp add: job_update_def validate_identity_def)
qed

theorem stale_job_update_refused_witness:
  "\<exists>db' j'. job_update demo_job demo_created = Inr (db', j')
    \<and> job_update demo_job db' = Inl (ownership_error ''job_revision_conflict'')"
proof -
  from demo_update obtain db' j' where up: "job_update demo_job demo_created = Inr (db', j')" by blast
  with stale_job_update_refused [OF demo_ok up] show ?thesis by blast
qed

text \<open>
  Creating the verification job of an asset version is idempotent: a second request of the
  same user for the same version, whatever fresh identifiers it draws, returns the job of the
  first one as not created and changes nothing.
\<close>

theorem verification_job_created_once:
  assumes "create_asset_verification fresh fresh' user wid version db = Inr (db', j, created)"
  shows "create_asset_verification other other' user wid' version db' = Inr (db', j, False)"
proof (cases "find_by_idempotency db user VERIFY_ASSET (verification_key version)")
  case (Some k)
  with assms show ?thesis by (simp add: create_asset_verification_def Let_def)
next
  case None
  with assms have add: "job_add fresh' (new_job fresh user wid version VERIFY_ASSET (verification_key version)) db = Inr (db', j)"
    by (auto simp: create_asset_verification_def Let_def)
  have "find_by_idempotency db' user VERIFY_ASSET (verification_key version) = Some j"
    by (rule job_add_Inr [OF add])
       (use None in \<open>auto simp: find_by_idempotency_def row_by_append new_job_def dest!: register_relation_Inr\<close>)
  then show ?thesis by (simp add: create_asset_verification_def Let_def)
qed

theorem verification_job_created_once_witness:
  "create_asset_verification (UUID 51) (UUID 52) (UUID 11) (UUID 10) (UUID 32) demo_created = Inr (demo_created, demo_job, False)"
  by (rule verification_job_created_once [OF demo_create])

text \<open>
  The job inventory of a document never reports a mismatch the tables do not have: in every
  state without legacy jobs its blockers are exactly \<^verbatim>\<open>writer_unconfirmed\<close> when the document has a job and
  \<^verbatim>\<open>legacy_untracked\<close> when one of its versions has none, never \<^verbatim>\<open>ownership_mismatch\<close>,
  \<^verbatim>\<open>relation_mismatch\<close> or \<^verbatim>\<open>invalid_revision\<close>.
\<close>

theorem inventory_agrees_with_tables:
  assumes "jobs_ok db" "d \<in> set (lb_documents (jb_lib db))"
    and "take_snapshot db now (do_workspace d) (do_id d) user = Inr sn"
  shows "set (reconcile sn) =
      (if document_jobs db (do_id d) = {} then {} else {b_writer_unconfirmed})
    \<union> (if {v \<in> set (lb_versions (jb_lib db)). av_document v = do_id d
             \<and> av_id v \<notin> jo_version ` document_jobs db (do_id d)} = {}
       then {} else {b_legacy_untracked})"
proof -
  let ?J = "document_jobs db (do_id d)"
  have "{v \<in> set (lb_versions (jb_lib db)). av_document v = do_id d \<and> av_id v \<notin> jo_version ` ?J} = {} \<longleftrightarrow>
      (\<forall>v \<in> set (lb_versions (jb_lib db)). av_document v = do_id d \<longrightarrow> (\<exists>j \<in> ?J. jo_version j = av_id v))"
    unfolding image_iff by (auto simp del: not_ex) metis+
  with reconcile_reachable [OF assms(1) assms(2) refl refl assms(3)] show ?thesis by (simp only:)
qed

theorem inventory_agrees_with_tables_witness:
  "\<exists>sn. take_snapshot demo_created 0 (UUID 10) (UUID 31) None = Inr sn \<and> b_ownership_mismatch \<notin> set (reconcile sn)"
proof -
  have d: "demo_document \<in> set (lb_documents (jb_lib demo_created))" "do_workspace demo_document = UUID 10"
    "do_id demo_document = UUID 31"
    by (simp_all add: demo_created_def demo_jobs_def demo_uploaded_def demo_document_def)
  obtain sn where sn: "take_snapshot demo_created 0 (UUID 10) (UUID 31) None = Inr sn"
    by (simp add: take_snapshot_def Let_def)
  with inventory_agrees_with_tables [OF demo_ok d(1), of 0 None sn] d(2,3) show ?thesis by auto
qed

end
