(* ===== verification/Verification_Properties.thy ===== *)
theory Verification_Properties
  imports Job_Properties
begin

text \<open>
  The properties of the asset verification, its dispatcher and their interleavings, with a complete
  concrete run: an upload, its job, the check of the object and the version that becomes ready.
\<close>

section \<open>The transactions succeed\<close>

lemma update_succeeds:
  assumes ok: "jobs_ok db" and j: "find_job db jid = Some j" "jo_status j \<noteq> FAILED"
    and k: "job_identity k = job_identity j" "jo_revision k = jo_revision j"
  obtains db' j' where "job_update k db = Inr (db', j')" "jobs_moved db db'" "find_job db' jid = Some j'"
    "jo_status j' = jo_status k" "jo_stage j' = jo_stage k" "jo_version j' = jo_version j"
    "jo_error_code j' = jo_error_code k" "jb_lib db' = jb_lib db"
proof -
  have id: "jo_id k = jid" "jo_version k = jo_version j" using k(1) find_job_id [OF j(1)] by (simp_all add: job_identity_def)
  from job_update_total [OF ok _ k] j(1) id obtain db' j' where up: "job_update k db = Inr (db', j')" by blast
  have live: "jo_status row \<noteq> FAILED" if "find_job db (jo_id k) = Some row" for row using that j id by simp
  note u = job_update_moved [OF ok up live]
  have "jo_stage j' = jo_stage k \<and> jo_version j' = jo_version j \<and> jo_error_code j' = jo_error_code k"
    by (rule job_update_Inr [OF up]) (use j(1) id in \<open>auto simp: find_job_def\<close>)
  with that [OF up u(1)] u id(1) show thesis by (simp add: jobs_moved_def)
qed

lemma begin_queued:
  assumes ok: "jobs_ok db" and j: "find_job db jid = Some j" "jo_status j = QUEUED"
    and v: "find_version (jb_lib db) (jo_version j) = Some v"
  obtains db' j' where "verify_begin now jid db = (db', Inr (Some v))" "jobs_moved db db'" "find_job db' jid = Some j'"
    "jo_status j' = RUNNING" "jo_version j' = jo_version j" "jb_lib db' = jb_lib db"
proof -
  from j(2) obtain k where k: "job_start verifying_stage None now j = Inr k" "job_identity k = job_identity j"
    "jo_revision k = jo_revision j" "jo_status k = RUNNING"
    by (simp add: job_start_def require_status_def job_identity_def)
  have live: "jo_status j \<noteq> FAILED" using j(2) by simp
  obtain db' j' where u: "job_update k db = Inr (db', j')" "jobs_moved db db'" "find_job db' jid = Some j'"
    "jo_status j' = jo_status k" "jo_version j' = jo_version j" "jb_lib db' = jb_lib db"
    by (rule update_succeeds [OF ok j(1) live k(2,3)])
  have "verify_begin now jid db = (db', Inr (Some v))"
    using j v k(1) u(1) by (simp add: verify_begin_def del: lit_simps)
  with that u k(4) show thesis by simp
qed

lemma succeed_running:
  assumes ok: "jobs_ok db" and act: "actives_ok (jb_lib db)" and j: "find_job db jid = Some j" "jo_status j = RUNNING"
    and v: "find_version (jb_lib db) (jo_version j) = Some v" "av_status v = STORED"
    and d: "row_by do_id (av_document v) (lb_documents (jb_lib db)) = Some d"
  obtains db' j' where "verify_succeed now jid db = (db', Inr ())" "find_job db' jid = Some j'" "jo_status j' = SUCCEEDED"
    "find_version (jb_lib db') (jo_version j) = Some (v\<lparr>av_status := READY\<rparr>)"
    "do_active d = None \<longrightarrow> jb_lib db' = mark_ready v d None (jb_lib db)"
proof -
  let ?lib = "jb_lib db"
  from ok have k: "keyed av_id (lb_versions ?lib)" "keyed do_id (lb_documents ?lib)" by (simp_all add: jobs_ok_def)
  from d have dm: "d \<in> set (lb_documents ?lib)" by (auto dest: row_by_SomeD)
  from v(1) have vm: "v \<in> set (lb_versions ?lib)" "av_id v = jo_version j" by (auto simp: find_version_def dest: row_by_SomeD)
  obtain n where n: "(case do_active d of None \<Rightarrow> Inr None | Some a \<Rightarrow> (case find_version ?lib a of
      None \<Rightarrow> Inl (fatal ''active_asset_version_not_found'') | Some w \<Rightarrow> Inr (Some (av_number w)))) = Inr n"
  proof (cases "do_active d")
    case None
    with that show ?thesis by simp
  next
    case (Some a)
    from act dm have "active_ok ?lib d" by (simp add: actives_ok_def)
    with Some obtain x where "x \<in> ready_of ?lib (do_id d)" "av_id x = a" by (auto simp: active_ok_def)
    then have "find_version ?lib a = Some x" using k(1) by (simp add: find_version_def row_by_Some_iff ready_of_def)
    with Some that show ?thesis by simp
  qed
  let ?mid = "db\<lparr>jb_lib := mark_ready v d n ?lib\<rparr>"
  have mid: "jobs_ok ?mid" by (rule library_step_ok [OF ok mark_ready_sources [OF k vm(1) dm]])
  from j(2) obtain q where q: "job_succeed (lit ''ready'') None now j = Inr q" "job_identity q = job_identity j"
    "jo_revision q = jo_revision j" "jo_status q = SUCCEEDED"
    by (simp add: job_succeed_def require_status_def job_identity_def)
  have f: "find_job ?mid jid = Some j" "jo_status j \<noteq> FAILED" using j by (simp_all add: find_job_def)
  obtain db' j' where u: "job_update q ?mid = Inr (db', j')" "find_job db' jid = Some j'"
    "jo_status j' = jo_status q" "jb_lib db' = jb_lib ?mid"
    by (rule update_succeeds [OF mid f q(2,3)])
  have "verify_succeed now jid db = (db', Inr ())"
    using j v d n q(1) u(1) by (simp add: verify_succeed_def del: lit_simps)
  moreover have "find_version (jb_lib db') (jo_version j) = Some (v\<lparr>av_status := READY\<rparr>)"
    using v(1) vm(2) by (simp add: u(4) find_version_def mark_ready_def Let_def row_by_put_row)
  moreover have "jb_lib db' = mark_ready v d None (jb_lib db)" if "do_active d = None" using n that by (simp add: u(4))
  ultimately show thesis using that u(2,3) q(4) by simp
qed

lemma fail_running:
  assumes ok: "jobs_ok db" and j: "find_job db jid = Some j" "jo_status j = RUNNING"
  obtains db' j' where "verify_fail now code msg jid db = (db', Inr ())" "find_job db' jid = Some j'" "jo_status j' = FAILED"
    "jo_error_code j' = Some code" "jb_lib db' = jb_lib db"
proof -
  from j(2) obtain k where k: "job_fail code msg None now j = Inr k" "job_identity k = job_identity j"
    "jo_revision k = jo_revision j" "jo_status k = FAILED" "jo_error_code k = Some code"
    by (simp add: job_fail_def require_status_def job_identity_def)
  have live: "jo_status j \<noteq> FAILED" using j(2) by simp
  obtain db' j' where u: "job_update k db = Inr (db', j')" "find_job db' jid = Some j'"
    "jo_status j' = jo_status k" "jo_error_code j' = jo_error_code k" "jb_lib db' = jb_lib db"
    by (rule update_succeeds [OF ok j(1) live k(2,3)])
  have "verify_fail now code msg jid db = (db', Inr ())"
    using j k(1) u(1) by (simp add: verify_fail_def)
  with that u k(4,5) show thesis by simp
qed

lemma retry_running:
  assumes ok: "jobs_ok db" and j: "find_job db jid = Some j" "jo_status j = RUNNING"
  obtains db' j' where "verify_retry now code msg jid db = (db', Inr ())" "find_job db' jid = Some j'" "jo_status j' = RUNNING"
    "jo_error_code j' = Some (take 100 code)" "jb_lib db' = jb_lib db"
proof -
  let ?k = "j\<lparr>jo_stage := lit ''retrying_verification'', jo_error_code := Some (take 100 code),
    jo_error_message := Some (take 500 msg)\<rparr>"
  have live: "jo_status j \<noteq> FAILED" using j(2) by simp
  have k: "job_identity ?k = job_identity j" "jo_revision ?k = jo_revision j" by (simp_all add: job_identity_def)
  obtain db' j' where u: "job_update ?k db = Inr (db', j')" "find_job db' jid = Some j'"
    "jo_status j' = jo_status ?k" "jo_error_code j' = jo_error_code ?k" "jb_lib db' = jb_lib db"
    by (rule update_succeeds [OF ok j(1) live k])
  have "verify_retry now code msg jid db = (db', Inr ())"
    using j u(1) by (simp add: verify_retry_def job_advance_def require_status_def del: lit_simps)
  with that u j(2) show thesis by simp
qed

section \<open>A concrete run\<close>

definition demo_store :: object_store where
  "demo_store = [[75] \<mapsto> [1, 2, 3]]"

lemma demo_actives: "actives_ok (jb_lib demo_created)"
  by (simp add: actives_ok_def active_ok_def ready_of_def demo_created_def demo_jobs_def demo_uploaded_def demo_library_def
      demo_document_def demo_version_def)

lemma demo_parts:
  "find_version (jb_lib demo_created) (jo_version demo_job) = Some demo_version"
  "row_by do_id (av_document demo_version) (lb_documents (jb_lib demo_created)) = Some demo_document"
  "jo_status demo_job = QUEUED" "av_status demo_version = STORED" "av_id demo_version = UUID 32"
  by (simp_all add: find_version_def demo_created_def demo_jobs_def demo_uploaded_def demo_version_def demo_document_def
      demo_job_def new_job_def)

lemma demo_check: "verify_stored_asset demo_library_env demo_store demo_version = Inr ()"
  by (simp add: verify_stored_asset_def demo_library_env_def demo_store_def demo_version_def)

lemma demo_grows: "library_grows demo_library demo_uploaded"
  by (simp add: library_grows_def demo_library_def demo_uploaded_def demo_document_def demo_version_def document_head_def)

text \<open>The run, transaction by transaction: first up to the queued job.\<close>

lemma demo_queued_run:
  obtains s h where "verif_history demo_library_env (s # h)" "vf_db s = demo_created" "vf_store s = demo_store"
    "vf_workers s = []"
proof -
  let ?E = demo_library_env
  define s0 where "s0 = \<lparr>vf_db = \<lparr>jb_lib = demo_library, jb_jobs = [], jb_owners = [], jb_relations = []\<rparr>,
    vf_store = demo_store, vf_workers = []\<rparr>"
  have h0: "verif_history ?E [s0]"
    unfolding s0_def by (rule verif_history.start) (simp_all add: demo_library_def)
  define s1 where "s1 = with_db s0 ((vf_db s0)\<lparr>jb_lib := demo_uploaded\<rparr>)"
  have "library_grows (jb_lib (vf_db s0)) demo_uploaded" using demo_grows by (simp add: s0_def)
  from verif_history.library [OF h0 this] have h1: "verif_history ?E [s1, s0]" by (simp add: s1_def)
  have db1: "vf_db s1 = demo_jobs" "vf_store s1 = demo_store" "vf_workers s1 = []"
    by (simp_all add: s1_def with_db_def s0_def demo_jobs_def)
  have "create_asset_verification (UUID 41) (UUID 42) (UUID 11) (UUID 10) (UUID 32) (vf_db s1) = Inr (demo_created, demo_job, True)"
    unfolding db1 by (rule demo_create)
  from verif_history.job_created [OF h1 this] have "verif_history ?E (with_db s1 demo_created # [s1, s0])" .
  with that db1 show thesis by (simp add: with_db_def)
qed

text \<open>The rest of it; its last state has the version ready.\<close>

lemma demo_run_library:
  obtains s h where "verif_history demo_library_env (s # h)"
    "jb_lib (vf_db s) = mark_ready demo_version demo_document None demo_uploaded"
proof -
  let ?E = demo_library_env
  obtain s2 h where h2: "verif_history ?E (s2 # h)"
    and db2: "vf_db s2 = demo_created" "vf_store s2 = demo_store" "vf_workers s2 = []"
    by (rule demo_queued_run)
  obtain dba ja where a: "verify_begin 0 (UUID 41) demo_created = (dba, Inr (Some demo_version))" "jobs_moved demo_created dba"
    "find_job dba (UUID 41) = Some ja" "jo_status ja = RUNNING" "jo_version ja = jo_version demo_job" "jb_lib dba = jb_lib demo_created"
    by (rule begin_queued [OF demo_ok demo_find demo_parts(3,1)])
  define s3 where "s3 = s2\<lparr>vf_db := dba, vf_workers := [(UUID 41, demo_version, False)]\<rparr>"
  have h3: "verif_history ?E (s3 # s2 # h)"
    using verif_history.begun [OF h2, of 0 "UUID 41" dba "Inr (Some demo_version)"] a(1) db2 by (simp add: s3_def)
  define s4 where "s4 = s3\<lparr>vf_workers := [(UUID 41, demo_version, True)]\<rparr>"
  have h4: "verif_history ?E (s4 # s3 # s2 # h)"
    using verif_history.checked [OF h3, of "UUID 41" demo_version] demo_check db2 by (simp add: s3_def s4_def)
  have act: "actives_ok (jb_lib dba)" using demo_actives by (simp add: a(6))
  have v: "find_version (jb_lib dba) (jo_version ja) = Some demo_version"
    "row_by do_id (av_document demo_version) (lb_documents (jb_lib dba)) = Some demo_document"
    using demo_parts(1,2) by (simp_all add: a(5,6))
  obtain dbb jb where b: "verify_succeed 0 (UUID 41) dba = (dbb, Inr ())" "find_job dbb (UUID 41) = Some jb"
    "find_version (jb_lib dbb) (jo_version ja) = Some (demo_version\<lparr>av_status := READY\<rparr>)"
    "do_active demo_document = None \<longrightarrow> jb_lib dbb = mark_ready demo_version demo_document None (jb_lib dba)"
    by (rule succeed_running [OF jobs_moved_ok [OF a(2)] act a(3,4) v(1) demo_parts(4) v(2)])
  define s5 where "s5 = s4\<lparr>vf_db := dbb, vf_workers := []\<rparr>"
  have h5: "verif_history ?E (s5 # s4 # s3 # s2 # h)"
    using verif_history.finished [OF h4, of "UUID 41" demo_version 0 dbb "Inr ()"] b(1) by (simp add: s3_def s4_def s5_def)
  have "do_active demo_document = None" by (simp add: demo_document_def)
  with b(4) have "jb_lib (vf_db s5) = mark_ready demo_version demo_document None demo_uploaded"
    by (simp add: s5_def a(6) demo_created_def demo_jobs_def)
  with that h5 show thesis by simp
qed

lemma demo_run:
  obtains s h d v where "verif_history demo_library_env (s # h)" "d \<in> set (lb_documents (jb_lib (vf_db s)))"
    "do_id d = UUID 31" "v \<in> set (lb_versions (jb_lib (vf_db s)))" "av_status v = READY" "av_document v = UUID 31"
    "av_object_key v = [75]" "av_size v = 3"
proof -
  obtain s h where "verif_history demo_library_env (s # h)"
    "jb_lib (vf_db s) = mark_ready demo_version demo_document None demo_uploaded" by (rule demo_run_library)
  with that [of s h "demo_document\<lparr>do_active := Some (UUID 32)\<rparr>" "demo_version\<lparr>av_status := READY\<rparr>"] show thesis
    by (simp add: mark_ready_def Let_def demo_uploaded_def demo_document_def demo_version_def put_row_def)
qed

section \<open>What holds in every history\<close>

text \<open>
  C11.  However uploads, moves, new jobs, workers, retries, the dispatcher, crashes and a changing
  object store interleave with the transactions of the verification, a document's active version is
  the newest of its verified versions, and a document has no active version exactly as long as
  none of its versions is verified.
\<close>

theorem active_version_is_newest_verified:
  assumes "verif_history E (s # h)" "d \<in> set (lb_documents (jb_lib (vf_db s)))"
  shows "(do_active d = None \<longleftrightarrow>
        {v \<in> set (lb_versions (jb_lib (vf_db s))). av_document v = do_id d \<and> av_status v = READY} = {})
    \<and> (\<forall>a. do_active d = Some a \<longrightarrow>
        (\<exists>v. v \<in> set (lb_versions (jb_lib (vf_db s))) \<and> av_id v = a \<and> av_document v = do_id d \<and> av_status v = READY
           \<and> (\<forall>w \<in> set (lb_versions (jb_lib (vf_db s))). av_document w = do_id d \<and> av_status w = READY \<longrightarrow>
                av_number w \<le> av_number v)))"
proof -
  from verif_history_ok [OF assms(1)] have "actives_ok (jb_lib (vf_db s))" by (simp add: hist_ok_def)
  with assms(2) have "active_ok (jb_lib (vf_db s)) d" by (simp add: actives_ok_def)
  then show ?thesis
    unfolding active_ok_def ready_of_def by (cases "do_active d") (simp_all, blast)
qed

theorem active_version_is_newest_verified_witness:
  "\<exists>s h d. verif_history demo_library_env (s # h) \<and> d \<in> set (lb_documents (jb_lib (vf_db s)))
    \<and> do_id d = UUID 31 \<and> do_active d \<noteq> None"
proof -
  obtain s h d v where r: "verif_history demo_library_env (s # h)" "d \<in> set (lb_documents (jb_lib (vf_db s)))"
    "do_id d = UUID 31" "v \<in> set (lb_versions (jb_lib (vf_db s)))" "av_status v = READY" "av_document v = UUID 31"
    "av_object_key v = [75]" "av_size v = 3" by (rule demo_run)
  from r(3-6) have "{v \<in> set (lb_versions (jb_lib (vf_db s))). av_document v = do_id d \<and> av_status v = READY} \<noteq> {}" by force
  with active_version_is_newest_verified [OF r(1,2)] have "do_active d \<noteq> None" by blast
  with r show ?thesis by blast
qed

text \<open>
  C12.  No version is marked ready unread: for every ready version of a history there was a state
  in which its object existed in the store with exactly the recorded length and SHA-256.
\<close>

theorem ready_only_after_reading_back:
  assumes "verif_history E (s # h)" "v \<in> set (lb_versions (jb_lib (vf_db s)))" "av_status v = READY"
  shows "\<exists>s0 \<in> set (s # h). \<exists>b. vf_store s0 (av_object_key v) = Some b
    \<and> le_sha256 E b = av_sha256 v \<and> int (length b) = av_size v"
proof -
  from verif_history_ok [OF assms(1)] assms(2,3) have "was_checked E (s # h) v" by (simp add: hist_ok_def)
  then obtain s0 where "s0 \<in> set (s # h)" "verify_stored_asset E (vf_store s0) v = Inr ()"
    unfolding was_checked_def by blast
  then show ?thesis
    by (intro bexI [of _ s0]) (auto simp: verify_stored_asset_def split: option.splits if_splits)
qed

theorem ready_only_after_reading_back_witness:
  "\<exists>s h s0 b. verif_history demo_library_env (s # h) \<and> s0 \<in> set (s # h) \<and> vf_store s0 [75] = Some b \<and> length b = 3"
proof -
  obtain s h d v where r: "verif_history demo_library_env (s # h)" "d \<in> set (lb_documents (jb_lib (vf_db s)))"
    "do_id d = UUID 31" "v \<in> set (lb_versions (jb_lib (vf_db s)))" "av_status v = READY" "av_document v = UUID 31"
    "av_object_key v = [75]" "av_size v = 3" by (rule demo_run)
  from ready_only_after_reading_back [OF r(1,4,5)] r(7,8)
  obtain s0 b where "s0 \<in> set (s # h)" "vf_store s0 [75] = Some b" "length b = 3" by auto
  with r(1) show ?thesis by blast
qed

text \<open>
  A failed verification job is final, and so is a verified version: whatever happens
  afterwards, the row of a failed job and the row of a ready version stay exactly as they are, and
  no job ever changes the version it verifies.
\<close>

theorem failed_and_ready_are_final:
  assumes "verif_history E (s # h)" "s0 \<in> set h"
  shows "{j \<in> set (jb_jobs (vf_db s0)). jo_status j = FAILED} \<subseteq> set (jb_jobs (vf_db s))
    \<and> {v \<in> set (lb_versions (jb_lib (vf_db s0))). av_status v = READY} \<subseteq> set (lb_versions (jb_lib (vf_db s)))
    \<and> (\<lambda>j. (jo_id j, jo_version j)) ` set (jb_jobs (vf_db s0)) \<subseteq> (\<lambda>j. (jo_id j, jo_version j)) ` set (jb_jobs (vf_db s))"
  using verif_history_ok [OF assms(1)] assms(2) by (auto simp: hist_ok_def settled_def job_pins_def)

theorem failed_and_ready_are_final_witness:
  "\<exists>s h v. verif_history demo_library_env (s # h)
    \<and> v \<in> set (lb_versions (jb_lib (vf_db (s\<lparr>vf_store := Map.empty\<rparr>)))) \<and> av_status v = READY
    \<and> {v \<in> set (lb_versions (jb_lib (vf_db s))). av_status v = READY}
        \<subseteq> set (lb_versions (jb_lib (vf_db (s\<lparr>vf_store := Map.empty\<rparr>))))"
proof -
  obtain s h d v where r: "verif_history demo_library_env (s # h)" "d \<in> set (lb_documents (jb_lib (vf_db s)))"
    "do_id d = UUID 31" "v \<in> set (lb_versions (jb_lib (vf_db s)))" "av_status v = READY" "av_document v = UUID 31"
    "av_object_key v = [75]" "av_size v = 3" by (rule demo_run)
  have "verif_history demo_library_env (s\<lparr>vf_store := Map.empty\<rparr> # s # h)" by (rule verif_history.storage [OF r(1)])
  from failed_and_ready_are_final [OF this, of s] r show ?thesis by auto
qed

text \<open>
  The dispatcher claims a job once: a claim takes at most its limit, only dispatchable jobs
  nobody else has locked, and leaves each of them running with the attempt and the time of the
  claim, every other job untouched; a later claim for which that time is not stale takes
  none of them again, and a failure report for another attempt changes nothing.
\<close>

theorem dispatcher_claims_once:
  assumes "verif_history E (s # h)" "claim_recoverable now stale limit only locked (vf_db s) = Inr (db', cs)"
  shows "length cs \<le> limit \<and> distinct (map fst cs)
    \<and> (\<forall>c \<in> set cs. fst c \<notin> set locked \<and> (\<exists>j row. find_job (vf_db s) (fst c) = Some j \<and> dispatchable (vf_db s) stale j
         \<and> find_job db' (fst c) = Some row \<and> jo_status row = RUNNING \<and> jo_attempt row = jo_attempt j + 1
         \<and> snd c = jo_attempt row \<and> jo_started row = Some now
         \<and> (\<forall>n. n \<noteq> snd c \<longrightarrow> mark_send_failed (fst c, n) db' = Inr db')))
    \<and> (\<forall>i. i \<notin> fst ` set cs \<longrightarrow> find_job db' i = find_job (vf_db s) i)
    \<and> (\<forall>now2 stale2 limit2 only2 locked2 db2 cs2. stale2 < now \<longrightarrow>
         claim_recoverable now2 stale2 limit2 only2 locked2 db' = Inr (db2, cs2) \<longrightarrow> fst ` set cs \<inter> fst ` set cs2 = {})"
proof -
  from verif_history_ok [OF assms(1)] have ok: "jobs_ok (vf_db s)" by (simp add: hist_ok_def)
  then have k: "keyed jo_id (jb_jobs (vf_db s))" by (simp add: jobs_ok_def)
  obtain rs where rs: "jobs_moved (vf_db s) db'" "cs = map (\<lambda>r. (jo_id r, jo_attempt r + 1)) rs" "length rs \<le> limit"
    "\<And>r. r \<in> set rs \<Longrightarrow> r \<in> set (jb_jobs (vf_db s)) \<and> dispatchable (vf_db s) stale r \<and> jo_id r \<notin> set locked"
    "\<And>r. r \<in> set rs \<Longrightarrow> \<exists>row. find_job db' (jo_id r) = Some row \<and> jo_status row = RUNNING
       \<and> jo_attempt row = jo_attempt r + 1 \<and> jo_started row = Some now"
    "\<And>i. i \<notin> jo_id ` set rs \<Longrightarrow> find_job db' i = find_job (vf_db s) i" "distinct (map jo_id rs)"
    by (rule claim_recoverable_moved [OF ok assms(2)]) blast
  have fst_cs: "map fst cs = map jo_id rs" "fst ` set cs = jo_id ` set rs" by (simp_all add: rs(2) comp_def image_image)
  have one: "fst c \<notin> set locked \<and> (\<exists>j row. find_job (vf_db s) (fst c) = Some j \<and> dispatchable (vf_db s) stale j
         \<and> find_job db' (fst c) = Some row \<and> jo_status row = RUNNING \<and> jo_attempt row = jo_attempt j + 1
         \<and> snd c = jo_attempt row \<and> jo_started row = Some now
         \<and> (\<forall>n. n \<noteq> snd c \<longrightarrow> mark_send_failed (fst c, n) db' = Inr db'))" if c: "c \<in> set cs" for c
  proof -
    from c obtain r where r: "r \<in> set rs" "c = (jo_id r, jo_attempt r + 1)" by (auto simp: rs(2))
    from rs(5) [OF r(1)] obtain row where row: "find_job db' (jo_id r) = Some row" "jo_status row = RUNNING"
      "jo_attempt row = jo_attempt r + 1" "jo_started row = Some now" by blast
    moreover have "find_job (vf_db s) (jo_id r) = Some r"
      using rs(4) [OF r(1)] k by (simp add: find_job_def row_by_Some_iff)
    moreover have "mark_send_failed (fst c, n) db' = Inr db'" if "n \<noteq> snd c" for n
      using that row r(2) by (simp add: mark_send_failed_def)
    ultimately show ?thesis using rs(4) [OF r(1)] r(2) by simp
  qed
  have again: "fst ` set cs \<inter> fst ` set cs2 = {}"
    if later: "stale2 < now" "claim_recoverable now2 stale2 limit2 only2 locked2 db' = Inr (db2, cs2)"
    for now2 stale2 limit2 only2 locked2 db2 cs2
  proof -
    note ok' = jobs_moved_ok [OF rs(1)]
    then have k': "keyed jo_id (jb_jobs db')" by (simp add: jobs_ok_def)
    obtain rs2 where rs2: "cs2 = map (\<lambda>r. (jo_id r, jo_attempt r + 1)) rs2"
      "\<And>r. r \<in> set rs2 \<Longrightarrow> r \<in> set (jb_jobs db') \<and> dispatchable db' stale2 r \<and> jo_id r \<notin> set locked2"
      by (rule claim_recoverable_moved [OF ok' later(2)]) blast
    have "jo_id r \<noteq> jo_id q" if r: "r \<in> set rs" and q: "q \<in> set rs2" for r q
    proof
      assume eq: "jo_id r = jo_id q"
      from rs(5) [OF r] obtain row where row: "find_job db' (jo_id r) = Some row" "jo_status row = RUNNING"
        "jo_started row = Some now" by blast
      with rs2(2) [OF q] k' eq have "row = q" by (simp add: find_job_def row_by_Some_iff keyed_eq)
      with rs2(2) [OF q] row later(1) show False by (auto simp: dispatchable_def split: option.splits)
    qed
    then show ?thesis unfolding fst_cs(2) rs2(1) by (auto simp: image_image)
  qed
  have len: "length cs \<le> limit \<and> distinct (map fst cs)" using rs(3,7) by (simp add: fst_cs(1)) (simp add: rs(2))
  have rest: "\<forall>i. i \<notin> fst ` set cs \<longrightarrow> find_job db' i = find_job (vf_db s) i" using rs(6) by (simp add: fst_cs(2))
  from len one rest again show ?thesis by blast
qed

theorem dispatcher_claims_once_witness:
  "\<exists>s h db'. verif_history demo_library_env (s # h)
    \<and> claim_recoverable 100 0 10 None [] (vf_db s) = Inr (db', [(UUID 41, 1)])
    \<and> (\<exists>row. find_job db' (UUID 41) = Some row \<and> jo_status row = RUNNING \<and> jo_started row = Some 100)"
proof -
  obtain s h where s: "verif_history demo_library_env (s # h)" "vf_db s = demo_created" by (rule demo_queued_run)
  have id: "jo_id demo_job = UUID 41" "jo_attempt demo_job = 0" by (simp_all add: demo_job_def new_job_def)
  have k: "job_identity (claimed 100 demo_job) = job_identity demo_job" "jo_revision (claimed 100 demo_job) = jo_revision demo_job"
    "find_job demo_created (jo_id (claimed 100 demo_job)) = Some demo_job"
    using demo_find id by (simp_all add: job_identity_def claimed_def)
  have live: "jo_status row \<noteq> FAILED" if "find_job demo_created (jo_id (claimed 100 demo_job)) = Some row" for row
    using that k(3) demo_parts(3) by simp
  from job_update_total [OF demo_ok k(3,1,2)] obtain db' j' where up: "job_update (claimed 100 demo_job) demo_created = Inr (db', j')"
    by blast
  note u = job_update_moved [OF demo_ok up live]
  have "dispatchable demo_created 0 demo_job"
    using demo_parts(1,3) by (simp add: dispatchable_def) (simp add: demo_job_def new_job_def)
  moreover have "jb_jobs demo_created = [demo_job]" by (simp add: demo_created_def)
  ultimately have c: "claim_recoverable 100 0 10 None [] (vf_db s) = Inr (db', [(UUID 41, 1)])"
    using up u(4,5) id by (simp add: claim_recoverable_def s(2))
  from dispatcher_claims_once [OF s(1) c] have "\<exists>row. find_job db' (UUID 41) = Some row \<and> jo_status row = RUNNING \<and> jo_started row = Some 100"
    by auto
  with s(1) c show ?thesis by blast
qed

text \<open>
  One run of the workflow on a queued job of a stored version, in every reachable state: with
  the recorded bytes in the store it returns the version, which is ready afterwards, and the job
  has succeeded; with other bytes it raises \<^verbatim>\<open>checksum_mismatch\<close> and the job has failed with that
  code; with no object it raises \<^verbatim>\<open>object_unavailable\<close> and the job waits for its retry.  The library
  only changes in the first case.
\<close>

theorem verification_run_settles_the_job:
  assumes "verif_history E (s # h)" "find_job (vf_db s) jid = Some j" "jo_status j = QUEUED"
    and "find_version (jb_lib (vf_db s)) (jo_version j) = Some v" "av_status v = STORED"
  shows "\<exists>db' j' r. verify_run E (vf_store s) message now jid (vf_db s) = (db', r) \<and> find_job db' jid = Some j'
    \<and> (case vf_store s (av_object_key v) of
         None \<Rightarrow> r = Inl (TaskError ''object_unavailable'' True) \<and> jo_status j' = RUNNING
           \<and> jo_error_code j' = Some (lit ''object_unavailable'') \<and> jb_lib db' = jb_lib (vf_db s)
       | Some b \<Rightarrow>
           if le_sha256 E b = av_sha256 v \<and> int (length b) = av_size v
           then r = Inr (av_id v) \<and> jo_status j' = SUCCEEDED
             \<and> find_version (jb_lib db') (av_id v) = Some (v\<lparr>av_status := READY\<rparr>)
           else r = Inl (TaskError ''checksum_mismatch'' False) \<and> jo_status j' = FAILED
             \<and> jo_error_code j' = Some (lit ''checksum_mismatch'') \<and> jb_lib db' = jb_lib (vf_db s))"
proof -
  let ?db = "vf_db s"
  from verif_history_ok [OF assms(1)] have ok: "jobs_ok ?db" and act: "actives_ok (jb_lib ?db)"
    by (simp_all add: hist_ok_def)
  from assms(4) have vid: "av_id v = jo_version j" "v \<in> set (lb_versions (jb_lib ?db))"
    by (auto simp: find_version_def dest: row_by_SomeD)
  from assms(2) have "j \<in> set (jb_jobs ?db)" by (auto simp: find_job_def dest: row_by_SomeD)
  with ok have "job_tracked ?db j" by (simp add: jobs_ok_def)
  then obtain s' where "js_version s' = jo_version j" "source_exists (jb_lib ?db) (pin_source s')" by (rule job_trackedE)
  moreover from ok have keys: "keyed av_id (lb_versions (jb_lib ?db))" "keyed do_id (lb_documents (jb_lib ?db))"
    by (simp_all add: jobs_ok_def)
  ultimately obtain d where "d \<in> set (lb_documents (jb_lib ?db))" "do_id d = av_document v"
    using vid by (auto simp: source_exists_def pin_source_def list_ex_iff) (metis keyed_eq)
  with keys(2) have d: "row_by do_id (av_document v) (lb_documents (jb_lib ?db)) = Some d" by (simp add: row_by_Some_iff)
  obtain db1 j1 where b: "verify_begin now jid ?db = (db1, Inr (Some v))" "jobs_moved ?db db1" "find_job db1 jid = Some j1"
    "jo_status j1 = RUNNING" "jo_version j1 = jo_version j" "jb_lib db1 = jb_lib ?db"
    by (rule begin_queued [OF ok assms(2-4)])
  note ok1 = jobs_moved_ok [OF b(2)]
  show ?thesis
  proof (cases "verify_stored_asset E (vf_store s) v")
    case (Inr x)
    have act1: "actives_ok (jb_lib db1)" using act b(6) by simp
    have v1: "find_version (jb_lib db1) (jo_version j1) = Some v" "row_by do_id (av_document v) (lb_documents (jb_lib db1)) = Some d"
      using assms(4) d by (simp_all add: b(5,6))
    obtain db2 j2 where f: "verify_succeed now jid db1 = (db2, Inr ())" "find_job db2 jid = Some j2" "jo_status j2 = SUCCEEDED"
      "find_version (jb_lib db2) (jo_version j1) = Some (v\<lparr>av_status := READY\<rparr>)"
      by (rule succeed_running [OF ok1 act1 b(3,4) v1(1) assms(5) v1(2)])
    have "verify_run E (vf_store s) message now jid ?db = (db2, Inr (av_id v))"
      using b(1) f(1) Inr by (simp add: verify_run_def)
    moreover from Inr obtain c where "vf_store s (av_object_key v) = Some c" "le_sha256 E c = av_sha256 v" "int (length c) = av_size v"
      by (auto simp: verify_stored_asset_def split: option.splits if_splits)
    ultimately show ?thesis using f(2-4) b(5) vid(1) by auto
  next
    case (Inl e)
    show ?thesis
    proof (cases "vf_store s (av_object_key v)")
      case None
      with Inl have e: "e = TaskError ''object_unavailable'' True" by (simp add: verify_stored_asset_def)
      obtain db2 j2 where f: "verify_retry now (task_code e) (message e) jid db1 = (db2, Inr ())" "find_job db2 jid = Some j2"
        "jo_status j2 = RUNNING" "jo_error_code j2 = Some (take 100 (task_code e))" "jb_lib db2 = jb_lib db1"
        by (rule retry_running [OF ok1 b(3,4)])
      have "verify_run E (vf_store s) message now jid ?db = (db2, Inl e)"
        using b(1) f(1) Inl e by (simp add: verify_run_def del: lit_simps)
      with f(2-5) b(6) None show ?thesis by (simp add: e)
    next
      case (Some c)
      with Inl have e: "e = TaskError ''checksum_mismatch'' False" "\<not> (le_sha256 E c = av_sha256 v \<and> int (length c) = av_size v)"
        by (auto simp: verify_stored_asset_def split: if_splits)
      obtain db2 j2 where f: "verify_fail now (task_code e) (message e) jid db1 = (db2, Inr ())" "find_job db2 jid = Some j2"
        "jo_status j2 = FAILED" "jo_error_code j2 = Some (task_code e)" "jb_lib db2 = jb_lib db1"
        by (rule fail_running [OF ok1 b(3,4)])
      have "verify_run E (vf_store s) message now jid ?db = (db2, Inl e)"
        using b(1) f(1) Inl e(1) by (simp add: verify_run_def del: lit_simps)
      with f(2-5) b(6) Some e(2) show ?thesis by (simp add: e(1) del: lit_simps)
    qed
  qed
qed

theorem verification_run_settles_the_job_witness:
  "\<exists>db' j'. verify_run demo_library_env demo_store (\<lambda>e. []) 5 (UUID 41) demo_created = (db', Inr (UUID 32))
    \<and> find_job db' (UUID 41) = Some j' \<and> jo_status j' = SUCCEEDED"
proof -
  obtain s h where s: "verif_history demo_library_env (s # h)" "vf_db s = demo_created" "vf_store s = demo_store"
    by (rule demo_queued_run)
  have st: "demo_store (av_object_key demo_version) = Some [1, 2, 3]"
    "le_sha256 demo_library_env [1, 2, 3] = av_sha256 demo_version" "int (length ([1, 2, 3] :: nat list)) = av_size demo_version"
    by (simp_all add: demo_store_def demo_version_def demo_library_env_def)
  note f = demo_find [folded s(2)] demo_parts(3) demo_parts(1) [folded s(2)] demo_parts(4)
  from verification_run_settles_the_job [OF s(1) f, of "\<lambda>e. []" 5] show ?thesis
    unfolding s(2,3) st(1) using st(2,3) demo_parts(5) by (simp add: ex_simps) blast
qed

end
