(* ===== verification/Sentences.thy ===== *)
theory Sentences
  imports Py_Prelude
begin

text \<open>
  Splitting prose into sentences (\<^verbatim>\<open>labs/rag/chunking/sentences.py\<close>) and the whole-element span of
  \<^verbatim>\<open>chunking/service.py\<close>.  What the chunker relies on, that the spans cover the prose of the text
  in order, is the locale \<open>span_splitter\<close>, interpreted on both.
\<close>

section \<open>Digits\<close>

text \<open>
  The code points with a decimal value are runs of ten (Unicode 15.1, Python 3.13).  For the
  others below \<^verbatim>\<open>str.isdigit\<close> holds too, superscripts and circled digits, but \<^verbatim>\<open>int\<close> refuses them.
\<close>

definition decimal_zeros :: "nat list" where
  "decimal_zeros =
     [48, 1632, 1776, 1984, 2406, 2534, 2662, 2790, 2918, 3046, 3174, 3302, 3430, 3558, 3664, 3792, 3872, 4160, 4240,
      6112, 6160, 6470, 6608, 6784, 6800, 6992, 7088, 7232, 7248, 42528, 43216, 43264, 43472, 43504, 43600, 44016,
      65296, 66720, 68912, 69734, 69872, 69942, 70096, 70384, 70736, 70864, 71248, 71360, 71472, 71904, 72016, 72784,
      73040, 73120, 73552, 92768, 92864, 93008, 120782, 120792, 120802, 120812, 120822, 123200, 123632, 124144,
      125264, 130032]"

definition other_digits :: "(nat \<times> nat) list" where
  "other_digits =
     [(178, 179), (185, 185), (4969, 4977), (6618, 6618), (8304, 8304), (8308, 8313), (8320, 8329), (9312, 9320),
      (9332, 9340), (9352, 9360), (9450, 9450), (9461, 9469), (9471, 9471), (10102, 10110), (10112, 10120),
      (10122, 10130), (68160, 68163), (69216, 69224), (69714, 69722), (127232, 127242)]"

definition py_decimal :: "nat \<Rightarrow> nat option" where
  "py_decimal c = map_option (\<lambda>z. c - z) (List.find (\<lambda>z. z \<le> c \<and> c < z + 10) decimal_zeros)"

definition py_isdigit :: "nat \<Rightarrow> bool" where
  "py_isdigit c \<longleftrightarrow> py_decimal c \<noteq> None \<or> list_ex (\<lambda>(a, b). a \<le> c \<and> c \<le> b) other_digits"

text \<open>\<^verbatim>\<open>int\<close> of a string of digits; more than 4300 of them are refused as well.\<close>

definition py_int :: "pystr \<Rightarrow> nat res" where
  "py_int s =
     (if length s > 4300 then Inl (ValueError ''int'')
      else rbind (mapr (\<lambda>c. case py_decimal c of None \<Rightarrow> Inl (ValueError ''int'') | Some d \<Rightarrow> Inr d) s)
        (\<lambda>ds. Inr (foldl (\<lambda>n d. 10 * n + d) 0 ds)))"

lemma py_decimal_ascii: "c < 128 \<Longrightarrow> py_decimal c = (if 48 \<le> c \<and> c \<le> 57 then Some (c - 48) else None)"
  by (simp add: py_decimal_def decimal_zeros_def)

lemma py_isdigit_ascii: "c < 128 \<Longrightarrow> py_isdigit c \<longleftrightarrow> 48 \<le> c \<and> c \<le> 57"
  by (auto simp: py_isdigit_def py_decimal_def decimal_zeros_def other_digits_def)

section \<open>Spans\<close>

record sentence_span =
  sp_text :: pystr
  sp_start :: nat
  sp_end :: nat

definition slice :: "pystr \<Rightarrow> nat \<Rightarrow> nat \<Rightarrow> pystr" where
  "slice str a b = take (b - a) (drop a str)"

function skip_spaces :: "pystr \<Rightarrow> nat \<Rightarrow> nat \<Rightarrow> nat" where
  "skip_spaces str a b = (if a < b \<and> py_isspace (str ! a) then skip_spaces str (a + 1) b else a)"
  by pat_completeness auto
termination by (relation "measure (\<lambda>(str, a, b). b - a)") auto

declare skip_spaces.simps [simp del]

function drop_spaces :: "pystr \<Rightarrow> nat \<Rightarrow> nat \<Rightarrow> nat" where
  "drop_spaces str a b = (if a < b \<and> py_isspace (str ! (b - 1)) then drop_spaces str a (b - 1) else b)"
  by pat_completeness auto
termination by (relation "measure (\<lambda>(str, a, b). b)") auto

declare drop_spaces.simps [simp del]

definition trimmed_span :: "pystr \<Rightarrow> nat \<Rightarrow> nat \<Rightarrow> sentence_span option" where
  "trimmed_span str start stop =
     (let a = skip_spaces str start stop; b = drop_spaces str a stop
      in if a = b then None else Some \<lparr>sp_text = slice str a b, sp_start = a, sp_end = b\<rparr>)"

definition whole_element_span :: "pystr \<Rightarrow> sentence_span option" where
  "whole_element_span str =
     (let a = skip_spaces str 0 (length str); b = drop_spaces str a (length str)
      in if a = b then None else Some \<lparr>sp_text = slice str a b, sp_start = a, sp_end = b\<rparr>)"

section \<open>Sentences\<close>

text \<open>The full stops, exclamation and question marks, Latin and CJK.\<close>

definition terminators :: "nat list" where
  "terminators = [46, 33, 63, 12290, 65281, 65311]"

function digits_end :: "pystr \<Rightarrow> nat \<Rightarrow> nat" where
  "digits_end str i = (if i < length str \<and> py_isdigit (str ! i) then digits_end str (i + 1) else i)"
  by pat_completeness auto
termination by (relation "measure (\<lambda>(str, i). length str - i)") auto

declare digits_end.simps [simp del]

definition marker_shaped :: "pystr \<Rightarrow> nat \<Rightarrow> bool" where
  "marker_shaped str i \<longleftrightarrow>
     \<not> (\<not> py_isdigit (str ! i) \<or> (i > 0 \<and> \<not> py_isspace (str ! (i - 1))))
     \<and> (let e = digits_end str i
        in \<not> (e = length str \<or> str ! e \<noteq> 46 \<or> (e + 1 < length str \<and> \<not> py_isspace (str ! (e + 1)))))"

definition numbered_marker_at :: "pystr \<Rightarrow> nat \<Rightarrow> (nat \<times> nat) option res" where
  "numbered_marker_at str i =
     (if \<not> marker_shaped str i then Inr None
      else rbind (py_int (slice str i (digits_end str i))) (\<lambda>n. Inr (Some (n, digits_end str i))))"

text \<open>The end of \<open>text[:i]\<close> without its trailing spaces: the code's \<open>previous + 1\<close>.\<close>

definition is_valid_clause_marker :: "pystr \<Rightarrow> nat \<Rightarrow> nat \<Rightarrow> nat option \<Rightarrow> bool" where
  "is_valid_clause_marker str i number active =
     (let p = drop_spaces str 0 i
      in if p = 0 \<or> str ! (p - 1) \<in> set terminators then True
         else if 10 \<in> set (slice str p i) then True
         else (case active of None \<Rightarrow> False | Some n \<Rightarrow> number = n + 1))"

record split_state =
  sl_sentences :: "sentence_span list"
  sl_start :: nat
  sl_active :: "nat option"
  sl_dots :: "nat list"

definition add_span :: "sentence_span option \<Rightarrow> sentence_span list \<Rightarrow> sentence_span list" where
  "add_span s sentences = (case s of None \<Rightarrow> sentences | Some x \<Rightarrow> sentences @ [x])"

text \<open>The body of the loop, at one index.\<close>

definition split_step :: "pystr \<Rightarrow> nat \<Rightarrow> split_state \<Rightarrow> split_state res" where
  "split_step str i st =
     rbind (numbered_marker_at str i) (\<lambda>marker.
       let st1 = (case marker of
             None \<Rightarrow> st
           | Some (number, dot) \<Rightarrow>
               if is_valid_clause_marker str i number (sl_active st)
               then \<lparr>sl_sentences = add_span (trimmed_span str (sl_start st) i) (sl_sentences st),
                     sl_start = i, sl_active = Some number, sl_dots = dot # sl_dots st\<rparr>
               else st)
       in if str ! i \<notin> set terminators \<or> i \<in> set (sl_dots st1) then Inr st1
          else if i + 1 < length str \<and> \<not> py_isspace (str ! (i + 1)) then Inr st1
          else Inr (st1\<lparr>sl_sentences := add_span (trimmed_span str (sl_start st1) (i + 1)) (sl_sentences st1),
                 sl_start := i + 1, sl_active := None\<rparr>))"

fun split_loop :: "pystr \<Rightarrow> nat list \<Rightarrow> split_state \<Rightarrow> split_state res" where
  "split_loop str [] st = Inr st"
| "split_loop str (i # is) st = rbind (split_step str i st) (split_loop str is)"

definition split_sentences :: "pystr \<Rightarrow> sentence_span list res" where
  "split_sentences str =
     rbind (split_loop str [0..<length str] \<lparr>sl_sentences = [], sl_start = 0, sl_active = None, sl_dots = []\<rparr>)
       (\<lambda>st. Inr (add_span (trimmed_span str (sl_start st) (length str)) (sl_sentences st)))"

section \<open>Spans that cover a stretch of str\<close>

definition span_ok :: "pystr \<Rightarrow> sentence_span \<Rightarrow> bool" where
  "span_ok str s \<longleftrightarrow> sp_start s < sp_end s \<and> sp_end s \<le> length str \<and> sp_text s = slice str (sp_start s) (sp_end s)
     \<and> \<not> py_isspace (str ! sp_start s) \<and> \<not> py_isspace (str ! (sp_end s - 1))"

definition spans_cover :: "pystr \<Rightarrow> nat \<Rightarrow> nat \<Rightarrow> sentence_span list \<Rightarrow> bool" where
  "spans_cover str a b ss \<longleftrightarrow>
     (\<forall>s \<in> set ss. span_ok str s \<and> a \<le> sp_start s \<and> sp_end s \<le> b)
     \<and> sorted_wrt (\<lambda>s t. sp_end s \<le> sp_start t) ss
     \<and> (\<forall>i. a \<le> i \<longrightarrow> i < b \<longrightarrow> \<not> py_isspace (str ! i) \<longrightarrow> (\<exists>s \<in> set ss. sp_start s \<le> i \<and> i < sp_end s))"

lemma spans_coverD:
  assumes "spans_cover str a b ss"
  shows "s \<in> set ss \<Longrightarrow> span_ok str s" "s \<in> set ss \<Longrightarrow> a \<le> sp_start s" "s \<in> set ss \<Longrightarrow> sp_end s \<le> b"
    and "sorted_wrt (\<lambda>s t. sp_end s \<le> sp_start t) ss"
    and "a \<le> i \<Longrightarrow> i < b \<Longrightarrow> \<not> py_isspace (str ! i) \<Longrightarrow> \<exists>s \<in> set ss. sp_start s \<le> i \<and> i < sp_end s"
  using assms unfolding spans_cover_def by blast+

lemma spans_cover_append:
  assumes l: "spans_cover str a b ss" and r: "spans_cover str b c ts" and le: "a \<le> b" "b \<le> c"
  shows "spans_cover str a c (ss @ ts)"
proof -
  note L = spans_coverD [OF l] and R = spans_coverD [OF r]
  have "\<forall>s \<in> set (ss @ ts). span_ok str s \<and> a \<le> sp_start s \<and> sp_end s \<le> c"
    using L(1-3) R(1-3) le by fastforce
  moreover have "sorted_wrt (\<lambda>s t. sp_end s \<le> sp_start t) (ss @ ts)"
    using L(3,4) R(2,4) by (fastforce simp: sorted_wrt_append)
  moreover have "\<exists>s \<in> set (ss @ ts). sp_start s \<le> i \<and> i < sp_end s" if "a \<le> i" "i < c" "\<not> py_isspace (str ! i)" for i
    using that L(5) [of i] R(5) [of i] by (cases "i < b") auto
  ultimately show ?thesis unfolding spans_cover_def by blast
qed

lemma skip_spaces_bounds:
  "a \<le> b \<Longrightarrow> a \<le> skip_spaces str a b \<and> skip_spaces str a b \<le> b
     \<and> (\<forall>i. a \<le> i \<longrightarrow> i < skip_spaces str a b \<longrightarrow> py_isspace (str ! i))
     \<and> (skip_spaces str a b < b \<longrightarrow> \<not> py_isspace (str ! skip_spaces str a b))"
proof (induction str a b rule: skip_spaces.induct)
  case (1 str a b)
  show ?case
  proof (cases "a < b \<and> py_isspace (str ! a)")
    case True
    have eq: "skip_spaces str a b = skip_spaces str (a + 1) b" using True by (simp add: skip_spaces.simps [of str a b])
    from True have "a + 1 \<le> b" by simp
    from "1.IH" [OF True this] show ?thesis unfolding eq using True by (metis Suc_eq_plus1 Suc_leD le_antisym not_less_eq_eq)
  next
    case False
    then have "skip_spaces str a b = a" by (subst skip_spaces.simps) auto
    with False "1.prems" show ?thesis by auto
  qed
qed

lemma drop_spaces_bounds:
  "a \<le> b \<Longrightarrow> a \<le> drop_spaces str a b \<and> drop_spaces str a b \<le> b
     \<and> (\<forall>i. drop_spaces str a b \<le> i \<longrightarrow> i < b \<longrightarrow> py_isspace (str ! i))
     \<and> (a < drop_spaces str a b \<longrightarrow> \<not> py_isspace (str ! (drop_spaces str a b - 1)))"
proof (induction str a b rule: drop_spaces.induct)
  case (1 str a b)
  show ?case
  proof (cases "a < b \<and> py_isspace (str ! (b - 1))")
    case True
    have eq: "drop_spaces str a b = drop_spaces str a (b - 1)" using True by (simp add: drop_spaces.simps [of str a b])
    have space: "py_isspace (str ! i)" if "b - 1 \<le> i" "i < b" for i
    proof -
      from that have "i = b - 1" by linarith
      with True show ?thesis by simp
    qed
    from True have "a < b" by blast
    then have "a \<le> b - 1" by simp
    from "1.IH" [OF True this] space show ?thesis
      unfolding eq by (meson diff_le_self le_trans not_le)
  next
    case False
    then have "drop_spaces str a b = b" by (subst drop_spaces.simps) auto
    with False "1.prems" show ?thesis by auto
  qed
qed

lemma trimmed_span_cover:
  assumes "a \<le> b" "b \<le> length str"
  shows "spans_cover str a b (add_span (trimmed_span str a b) [])"
proof -
  define s e where se: "s = skip_spaces str a b" "e = drop_spaces str s b"
  have s: "a \<le> s" "s \<le> b" "\<And>i. a \<le> i \<Longrightarrow> i < s \<Longrightarrow> py_isspace (str ! i)" "s < b \<Longrightarrow> \<not> py_isspace (str ! s)"
    using skip_spaces_bounds [OF assms(1), of str] unfolding se by blast+
  have e: "s \<le> e" "e \<le> b" "\<And>i. e \<le> i \<Longrightarrow> i < b \<Longrightarrow> py_isspace (str ! i)" "s < e \<Longrightarrow> \<not> py_isspace (str ! (e - 1))"
    using drop_spaces_bounds [OF s(2), of str] unfolding se(2) by blast+
  have t: "trimmed_span str a b = (if s = e then None else Some \<lparr>sp_text = slice str s e, sp_start = s, sp_end = e\<rparr>)"
    by (simp add: trimmed_span_def Let_def se)
  show ?thesis
  proof (cases "s = e")
    case True
    have "py_isspace (str ! i)" if "a \<le> i" "i < b" for i
      using s(3) [of i] e(3) [of i] that True by (cases "i < s") auto
    with True show ?thesis by (auto simp: t spans_cover_def add_span_def)
  next
    case False
    with s e assms have "span_ok str \<lparr>sp_text = slice str s e, sp_start = s, sp_end = e\<rparr>" by (auto simp: span_ok_def)
    moreover have "s \<le> i \<and> i < e" if "a \<le> i" "i < b" "\<not> py_isspace (str ! i)" for i
      using s(3) [of i] e(3) [of i] that by (meson not_le)
    ultimately show ?thesis using False s e by (auto simp: t spans_cover_def add_span_def)
  qed
qed

lemma whole_element_trimmed: "whole_element_span str = trimmed_span str 0 (length str)"
  by (simp add: whole_element_span_def trimmed_span_def)

lemma add_span_append: "add_span s ss = ss @ add_span s []"
  by (simp add: add_span_def split: option.splits)

lemma spans_cover_add:
  assumes "spans_cover str 0 a ss" "a \<le> b" "b \<le> length str"
  shows "spans_cover str 0 b (add_span (trimmed_span str a b) ss)"
  unfolding add_span_append [of _ ss]
  by (rule spans_cover_append [OF assms(1) trimmed_span_cover [OF assms(2,3)]]) (use assms in simp_all)

section \<open>The sentence splitter\<close>

definition split_inv :: "pystr \<Rightarrow> nat \<Rightarrow> split_state \<Rightarrow> bool" where
  "split_inv str i st \<longleftrightarrow> spans_cover str 0 (sl_start st) (sl_sentences st) \<and> sl_start st \<le> i"

lemma split_step_inv:
  assumes st: "split_step str i st = Inr st'" and inv: "split_inv str i st" and i: "i < length str"
  shows "split_inv str (i + 1) st'"
proof -
  from st obtain marker where m: "numbered_marker_at str i = Inr marker" by (auto simp: split_step_def)
  define st1 where "st1 = (case marker of None \<Rightarrow> st
           | Some (number, dot) \<Rightarrow>
               if is_valid_clause_marker str i number (sl_active st)
               then \<lparr>sl_sentences = add_span (trimmed_span str (sl_start st) i) (sl_sentences st),
                     sl_start = i, sl_active = Some number, sl_dots = dot # sl_dots st\<rparr>
               else st)"
  have "split_inv str i st1"
    using inv i spans_cover_add [of str "sl_start st" "sl_sentences st" i]
    by (auto simp: st1_def split_inv_def split: option.splits)
  moreover from st m have "st' = st1 \<or> st' = st1\<lparr>sl_sentences := add_span (trimmed_span str (sl_start st1) (i + 1)) (sl_sentences st1),
      sl_start := i + 1, sl_active := None\<rparr>"
    by (simp add: split_step_def Let_def st1_def [symmetric] split: if_splits)
  ultimately show ?thesis
    using i spans_cover_add [of str "sl_start st1" "sl_sentences st1" "i + 1"] by (auto simp: split_inv_def)
qed

lemma split_loop_inv:
  "split_loop str [i..<length str] st = Inr st' \<Longrightarrow> split_inv str i st \<Longrightarrow> i \<le> length str \<Longrightarrow>
     split_inv str (length str) st'"
proof (induction "length str - i" arbitrary: i st)
  case 0
  then show ?case by simp
next
  case (Suc n)
  then have i: "i < length str" by simp
  with Suc.prems(1) obtain st1 where st1: "split_step str i st = Inr st1" "split_loop str [i + 1..<length str] st1 = Inr st'"
    by (auto simp: upt_conv_Cons)
  show ?case
    by (rule Suc.hyps(1) [OF _ st1(2) split_step_inv [OF st1(1) Suc.prems(2) i]]) (use Suc.hyps(2) i in auto)
qed

lemma split_sentences_cover:
  assumes "split_sentences str = Inr ss"
  shows "spans_cover str 0 (length str) ss"
proof -
  define st0 where "st0 = \<lparr>sl_sentences = [], sl_start = 0, sl_active = None, sl_dots = []\<rparr>"
  from assms obtain st where st: "split_loop str [0..<length str] st0 = Inr st"
    "ss = add_span (trimmed_span str (sl_start st) (length str)) (sl_sentences st)"
    by (auto simp: split_sentences_def st0_def)
  have "split_inv str 0 st0" by (simp add: st0_def split_inv_def spans_cover_def)
  from split_loop_inv [OF st(1) this] have "split_inv str (length str) st" by simp
  with st(2) show ?thesis by (simp add: split_inv_def spans_cover_add)
qed

section \<open>What the chunker relies on\<close>

definition prose :: "pystr \<Rightarrow> pystr" where
  "prose str = filter (\<lambda>c. \<not> py_isspace c) str"

lemma prose_append [simp]: "prose (s @ t) = prose s @ prose t"
  by (simp add: prose_def)

lemma slice_join: "a \<le> b \<Longrightarrow> b \<le> c \<Longrightarrow> slice str a c = slice str a b @ slice str b c"
proof -
  assume le: "a \<le> b" "b \<le> c"
  have "take (b - a + (c - b)) (drop a str) = take (b - a) (drop a str) @ take (c - b) (drop (b - a) (drop a str))"
    by (rule take_add)
  with le show ?thesis by (simp add: slice_def)
qed

lemma prose_blank:
  assumes "\<And>i. a \<le> i \<Longrightarrow> i < b \<Longrightarrow> py_isspace (str ! i)"
  shows "prose (slice str a b) = []"
proof -
  have "py_isspace c" if c: "c \<in> set (slice str a b)" for c
  proof -
    from c obtain k where k: "k < length (slice str a b)" "c = slice str a b ! k" by (metis in_set_conv_nth)
    then have "k < b - a" "k < length str - a" by (auto simp: slice_def)
    with k(2) assms [of "a + k"] show ?thesis by (simp add: slice_def add.commute)
  qed
  then show ?thesis by (simp add: prose_def filter_empty_conv)
qed

lemma spans_cover_prose:
  "spans_cover str a b ss \<Longrightarrow> a \<le> b \<Longrightarrow> prose (slice str a b) = concat (map (\<lambda>s. prose (sp_text s)) ss)"
proof (induction ss arbitrary: a)
  case Nil
  then show ?case using prose_blank [of a b str] by (auto simp: spans_cover_def)
next
  case (Cons s ss)
  note C = spans_coverD [OF Cons.prems(1)]
  have s: "span_ok str s" "a \<le> sp_start s" "sp_end s \<le> b" "sp_start s < sp_end s" "sp_text s = slice str (sp_start s) (sp_end s)"
    using C(1-3) [of s] by (auto simp: span_ok_def)
  have later: "sp_end s \<le> sp_start t" if "t \<in> set ss" for t using C(4) that by simp
  have "\<exists>t \<in> set ss. sp_start t \<le> i \<and> i < sp_end t" if "sp_end s \<le> i" "i < b" "\<not> py_isspace (str ! i)" for i
    using C(5) [of i] that s by auto
  with C(1,3,4) later have rest: "spans_cover str (sp_end s) b ss" unfolding spans_cover_def by auto
  have "py_isspace (str ! i)" if "a \<le> i" "i < sp_start s" for i
    using C(5) [of i] that s(3,4) later by force
  then have gap: "prose (slice str a (sp_start s)) = []" by (rule prose_blank)
  have "slice str a b = slice str a (sp_start s) @ slice str (sp_start s) (sp_end s) @ slice str (sp_end s) b"
    using s(2-4) by (metis less_imp_le_nat order_trans slice_join)
  with gap Cons.IH [OF rest s(3)] s(5) show ?case by simp
qed

locale span_splitter =
  fixes split :: "pystr \<Rightarrow> sentence_span list res"
  assumes split_covers: "split str = Inr ss \<Longrightarrow> spans_cover str 0 (length str) ss"
begin

lemma prose_kept: "split str = Inr ss \<Longrightarrow> concat (map (\<lambda>s. prose (sp_text s)) ss) = prose str"
  using spans_cover_prose [OF split_covers, of str ss] by (simp add: slice_def)

lemma span_slice:
  assumes "split str = Inr ss" "s \<in> set ss"
  shows "sp_text s = slice str (sp_start s) (sp_end s)" "sp_start s < sp_end s" "sp_end s \<le> length str"
  using spans_coverD(1) [OF split_covers [OF assms(1)] assms(2)] by (auto simp: span_ok_def)

lemma spans_ordered: "split str = Inr ss \<Longrightarrow> sorted_wrt (\<lambda>s t. sp_end s \<le> sp_start t) ss"
  by (rule spans_coverD(4) [OF split_covers])

lemma no_span_iff: "split str = Inr ss \<Longrightarrow> ss = [] \<longleftrightarrow> prose str = []"
proof
  assume s: "split str = Inr ss"
  show "prose str = []" if "ss = []" using prose_kept [OF s] that by simp
  show "ss = []" if p: "prose str = []"
  proof (rule ccontr)
    assume "ss \<noteq> []"
    then obtain x where x: "x \<in> set ss" by (meson list.set_sel(1))
    from spans_coverD(1) [OF split_covers [OF s] x]
    have "\<not> py_isspace (str ! sp_start x)" "sp_start x < length str" by (auto simp: span_ok_def)
    then have "str ! sp_start x \<in> set (prose str)" by (simp add: prose_def)
    with p show False by simp
  qed
qed

end

interpretation sentences: span_splitter split_sentences
  by unfold_locales (rule split_sentences_cover)

interpretation whole_element: span_splitter "\<lambda>str. Inr (add_span (whole_element_span str) [])"
  by unfold_locales (auto simp: whole_element_trimmed intro: trimmed_span_cover)

section \<open>When splitting fails\<close>

lemma py_int_error: "py_int s = Inl e \<Longrightarrow> e = ValueError ''int''"
proof -
  have "mapr (\<lambda>c. case py_decimal c of None \<Rightarrow> Inl (ValueError ''int'') | Some d \<Rightarrow> Inr d) s = Inl e \<Longrightarrow> e = ValueError ''int''" for e
    by (induction s) (auto simp: rbind_eq_Inl split: option.splits)
  then show "py_int s = Inl e \<Longrightarrow> e = ValueError ''int''" by (auto simp: py_int_def rbind_eq_Inl split: if_splits)
qed

lemma split_step_error: "split_step str i st = Inl e \<longleftrightarrow> numbered_marker_at str i = Inl e"
  by (cases "numbered_marker_at str i") (simp_all add: split_step_def Let_def)

lemma split_loop_error:
  "(\<exists>e. split_loop str is st = Inl e) \<longleftrightarrow> (\<exists>i \<in> set is. \<exists>e. numbered_marker_at str i = Inl e)"
proof (induction "is" arbitrary: st)
  case (Cons i "is")
  show ?case
  proof (cases "split_step str i st")
    case (Inl e)
    then have "numbered_marker_at str i = Inl e" by (simp add: split_step_error)
    with Inl show ?thesis by auto
  next
    case (Inr st1)
    then have "numbered_marker_at str i \<noteq> Inl e" for e using split_step_error [of str i st e] by simp
    with Inr Cons.IH [of st1] show ?thesis by auto
  qed
qed simp

lemma split_sentences_error:
  "(\<exists>e. split_sentences str = Inl e) \<longleftrightarrow> (\<exists>i < length str. \<exists>e. numbered_marker_at str i = Inl e)"
proof -
  have "(\<exists>e. split_sentences str = Inl e) \<longleftrightarrow> (\<exists>e. split_loop str [0..<length str]
      \<lparr>sl_sentences = [], sl_start = 0, sl_active = None, sl_dots = []\<rparr> = Inl e)"
    by (auto simp: split_sentences_def rbind_eq_Inl)
  then show ?thesis by (auto simp: split_loop_error)
qed

text \<open>\<^verbatim>\<open>int\<close> refuses a marker with more than 4300 digits, or with a digit that has no decimal value.\<close>

lemma py_int_refuses: "(\<exists>e. py_int s = Inl e) \<longleftrightarrow> 4300 < length s \<or> (\<exists>c \<in> set s. py_decimal c = None)"
proof -
  have "(\<exists>e. mapr (\<lambda>c. case py_decimal c of None \<Rightarrow> Inl (ValueError ''int'') | Some d \<Rightarrow> Inr d) s = Inl e)
    \<longleftrightarrow> (\<exists>c \<in> set s. py_decimal c = None)"
    by (induction s) (auto simp: rbind_eq_Inl split: option.splits)
  then show ?thesis by (auto simp: py_int_def rbind_eq_Inl)
qed

lemma digits_end_bounds: "i \<le> digits_end str i \<and> (i \<le> length str \<longrightarrow> digits_end str i \<le> length str)"
proof (induction str i rule: digits_end.induct)
  case (1 str i)
  then show ?case using digits_end.simps [of str i] by auto
qed

lemma set_slice:
  assumes "b \<le> length str"
  shows "set (slice str a b) = (\<lambda>k. str ! k) ` {a..<b}"
proof -
  have "slice str a b = map (\<lambda>k. str ! k) [a..<b]"
    using assms by (intro nth_equalityI) (auto simp: slice_def)
  then show ?thesis by simp
qed

lemma numbered_marker_error:
  assumes "i < length str"
  shows "(\<exists>e. numbered_marker_at str i = Inl e) \<longleftrightarrow>
    marker_shaped str i \<and> (4300 < digits_end str i - i \<or> (\<exists>k \<in> {i..<digits_end str i}. py_decimal (str ! k) = None))"
proof -
  let ?s = "slice str i (digits_end str i)"
  from digits_end_bounds [of i str] assms have b: "digits_end str i \<le> length str" by simp
  have "length ?s = digits_end str i - i" using b by (simp add: slice_def)
  moreover have "(\<exists>c \<in> set ?s. py_decimal c = None) \<longleftrightarrow> (\<exists>k \<in> {i..<digits_end str i}. py_decimal (str ! k) = None)"
    unfolding set_slice [OF b] by auto
  ultimately show ?thesis using py_int_refuses [of ?s] by (auto simp: numbered_marker_at_def rbind_eq_Inl)
qed

lemma split_sentences_int: "split_sentences str = Inl e \<Longrightarrow> e = ValueError ''int''"
proof -
  have "e = ValueError ''int''" if "split_loop str is st = Inl e" for "is" st
    using that by (induction "is" arbitrary: st)
      (auto simp: rbind_eq_Inl split_step_error numbered_marker_at_def dest: py_int_error split: if_splits)
  then show "split_sentences str = Inl e \<Longrightarrow> e = ValueError ''int''"
    by (auto simp: split_sentences_def rbind_eq_Inl)
qed

end
