(* ===== verification/Rag_Documents.thy ===== *)
theory Rag_Documents
  imports Py_Prelude Complex_Main
begin

text \<open>
  The parsed documents, evidence and projections of the laboratory
  (\<^verbatim>\<open>labs/rag/documents/domain.py\<close>).  A dataclass with a \<^verbatim>\<open>__post_init__\<close> is a record and the
  function that checks it; \<^verbatim>\<open>ProvenanceError\<close> is a \<^verbatim>\<open>ValueError\<close>.
\<close>

section \<open>Floats\<close>

text \<open>Coordinates are only compared; a finite double is a rational number.\<close>

datatype py_float = Finite rat | PosInf | NegInf | NaN

fun float_less :: "py_float \<Rightarrow> py_float \<Rightarrow> bool" where
  "float_less (Finite x) (Finite y) \<longleftrightarrow> x < y"
| "float_less (Finite x) y \<longleftrightarrow> y = PosInf"
| "float_less NegInf y \<longleftrightarrow> y \<noteq> NegInf \<and> y \<noteq> NaN"
| "float_less PosInf y \<longleftrightarrow> False"
| "float_less NaN y \<longleftrightarrow> False"

abbreviation provenance_error :: exn where
  "provenance_error \<equiv> ValueError ''provenance''"

section \<open>Locations\<close>

datatype source_kind = NORMALIZED_TEXT | PDF_PAGE | DOCX_IMAGE

record table_cell =
  tc_row :: int
  tc_column :: int
  tc_row_span :: int
  tc_column_span :: int

definition new_table_cell :: "table_cell \<Rightarrow> table_cell res" where
  "new_table_cell c =
     (if tc_row c < 0 \<or> tc_column c < 0 then Inl provenance_error
      else if tc_row_span c < 1 \<or> tc_column_span c < 1 then Inl provenance_error
      else Inr c)"

type_synonym bounding_box = "py_float \<times> py_float \<times> py_float \<times> py_float"

record source_location =
  lc_element :: uuid
  lc_page :: "int option"
  lc_start :: int
  lc_end :: int
  lc_bbox :: "bounding_box option"
  lc_kind :: source_kind
  lc_part :: "pystr option"
  lc_sha256 :: "pystr option"
  lc_cell :: "table_cell option"

definition hex_characters :: "nat list" where
  "hex_characters = [48..<58] @ [97..<103]"

definition docx_image_ok :: "source_location \<Rightarrow> bool" where
  "docx_image_ok l \<longleftrightarrow>
     (case lc_part l of None \<Rightarrow> False | Some p \<Rightarrow> p \<noteq> [] \<and> take 11 p = lit ''word/media/'')
     \<and> (case lc_sha256 l of None \<Rightarrow> False
        | Some h \<Rightarrow> length h = 64 \<and> list_all (\<lambda>c. c \<in> set hex_characters) h)
     \<and> (case lc_bbox l of None \<Rightarrow> False
        | Some (a, b, c, d) \<Rightarrow>
            list_all (\<lambda>v. \<not> (float_less v (Finite 0) \<or> float_less (Finite 1) v)) [a, b, c, d])"

definition new_location :: "source_location \<Rightarrow> source_location res" where
  "new_location l0 =
     (let l = (if lc_kind l0 = NORMALIZED_TEXT \<and> lc_page l0 \<noteq> None \<and> lc_part l0 = None \<and> lc_sha256 l0 = None
               then l0\<lparr>lc_kind := PDF_PAGE\<rparr> else l0)
      in if lc_start l < 0 \<or> lc_end l < lc_start l then Inl provenance_error
         else if (case lc_page l of None \<Rightarrow> False | Some n \<Rightarrow> n < 1) then Inl provenance_error
         else if (case lc_bbox l of None \<Rightarrow> False
                  | Some (left, upper, right, lower) \<Rightarrow> float_less right left \<or> float_less lower upper)
         then Inl provenance_error
         else if lc_kind l = PDF_PAGE \<and> lc_page l = None then Inl provenance_error
         else if lc_kind l = DOCX_IMAGE \<and> \<not> docx_image_ok l then Inl provenance_error
         else Inr l)"

definition docx_image ::
  "uuid \<Rightarrow> int \<Rightarrow> int \<Rightarrow> pystr \<Rightarrow> pystr \<Rightarrow> bounding_box \<Rightarrow> table_cell option \<Rightarrow> source_location res" where
  "docx_image element start stop part sha256 bbox cell =
     new_location \<lparr>lc_element = element, lc_page = None, lc_start = start, lc_end = stop, lc_bbox = Some bbox,
       lc_kind = DOCX_IMAGE, lc_part = Some part, lc_sha256 = Some sha256, lc_cell = cell\<rparr>"

section \<open>Parsed documents and their evidence\<close>

record structural_element =
  el_id :: uuid
  el_ordinal :: int
  el_kind :: pystr
  el_text :: pystr
  el_path :: "pystr list"
  el_location :: source_location
  el_eligible :: bool

definition new_element :: "structural_element \<Rightarrow> structural_element res" where
  "new_element x = (if lc_element (el_location x) \<noteq> el_id x then Inl provenance_error else Inr x)"

record evidence_unit =
  ev_id :: uuid
  ev_chunk :: "uuid option"
  ev_ordinal :: int
  ev_text :: pystr
  ev_location :: source_location
  ev_projection :: "uuid option"

definition create_evidence ::
  "uuid \<Rightarrow> pystr \<Rightarrow> source_location option \<Rightarrow> int \<Rightarrow> uuid option \<Rightarrow> uuid option \<Rightarrow> evidence_unit res" where
  "create_evidence fresh txt location ordinal chunk projection =
     (case location of
        None \<Rightarrow> Inl provenance_error
      | Some l \<Rightarrow> Inr \<lparr>ev_id = fresh, ev_chunk = chunk, ev_ordinal = ordinal, ev_text = txt, ev_location = l,
          ev_projection = projection\<rparr>)"

record retrieval_chunk =
  ck_id :: uuid
  ck_projection :: uuid
  ck_ordinal :: nat
  ck_text :: pystr
  ck_path :: "pystr list"
  ck_units :: "evidence_unit list"

definition new_chunk :: "retrieval_chunk \<Rightarrow> retrieval_chunk res" where
  "new_chunk c =
     (if list_ex (\<lambda>u. ev_chunk u \<noteq> Some (ck_id c) \<or> ev_projection u \<noteq> Some (ck_projection c)) (ck_units c)
      then Inl provenance_error else Inr c)"

section \<open>Projections\<close>

datatype projection_status =
  PENDING | PARSING | CHUNKING | EMBEDDING | INDEXING | PROJECTION_READY | PROJECTION_FAILED | PARTIAL_READY

record rag_projection =
  rp_id :: uuid
  rp_version :: uuid
  rp_indexing_profile :: uuid
  rp_status :: projection_status
  rp_processing_profile :: uuid

definition pending_projection :: "uuid \<Rightarrow> uuid \<Rightarrow> uuid \<Rightarrow> uuid \<Rightarrow> rag_projection" where
  "pending_projection fresh version indexing_profile processing_profile =
     \<lparr>rp_id = fresh, rp_version = version, rp_indexing_profile = indexing_profile, rp_status = PENDING,
      rp_processing_profile = processing_profile\<rparr>"

fun allowed_statuses :: "projection_status \<Rightarrow> projection_status list" where
  "allowed_statuses PENDING = [PARSING, PROJECTION_FAILED, PARTIAL_READY]"
| "allowed_statuses PARSING = [CHUNKING, PROJECTION_FAILED, PARTIAL_READY]"
| "allowed_statuses CHUNKING = [EMBEDDING, PROJECTION_FAILED, PARTIAL_READY]"
| "allowed_statuses EMBEDDING = [INDEXING, PROJECTION_FAILED, PARTIAL_READY]"
| "allowed_statuses INDEXING = [PROJECTION_READY, PROJECTION_FAILED, PARTIAL_READY]"
| "allowed_statuses PROJECTION_READY = []"
| "allowed_statuses PROJECTION_FAILED = []"
| "allowed_statuses PARTIAL_READY = []"

definition projection_transition :: "rag_projection \<Rightarrow> projection_status \<Rightarrow> rag_projection res" where
  "projection_transition p status =
     (if status \<notin> set (allowed_statuses (rp_status p)) then Inl (ValueError ''projection_transition'')
      else Inr (p\<lparr>rp_status := status\<rparr>))"

fun projection_run :: "rag_projection \<Rightarrow> projection_status list \<Rightarrow> rag_projection res" where
  "projection_run p [] = Inr p"
| "projection_run p (s # ss) = rbind (projection_transition p s) (\<lambda>q. projection_run q ss)"

fun stages_left :: "projection_status \<Rightarrow> projection_status list" where
  "stages_left PENDING = [PARSING, CHUNKING, EMBEDDING, INDEXING, PROJECTION_READY]"
| "stages_left PARSING = [CHUNKING, EMBEDDING, INDEXING, PROJECTION_READY]"
| "stages_left CHUNKING = [EMBEDDING, INDEXING, PROJECTION_READY]"
| "stages_left EMBEDDING = [INDEXING, PROJECTION_READY]"
| "stages_left INDEXING = [PROJECTION_READY]"
| "stages_left _ = []"

lemma stages_left_step:
  assumes "s \<in> set (allowed_statuses t)"
  shows "length (stages_left s) < length (stages_left t)" and "t \<notin> {PROJECTION_FAILED, PARTIAL_READY}"
    and "s \<notin> {PROJECTION_FAILED, PARTIAL_READY} \<Longrightarrow> stages_left t = s # stages_left s"
  using assms by (cases t; auto)+

lemma projection_run_same: "projection_run p ss = Inr q \<Longrightarrow> \<exists>s. q = p\<lparr>rp_status := s\<rparr>"
proof (induction ss arbitrary: p)
  case Nil
  then have "q = p\<lparr>rp_status := rp_status p\<rparr>" by simp
  then show ?case ..
next
  case (Cons s ss)
  then have "projection_run (p\<lparr>rp_status := s\<rparr>) ss = Inr q" by (auto simp: projection_transition_def split: if_splits)
  from Cons.IH [OF this] show ?case by auto
qed

lemma projection_run_bound:
  "projection_run p ss = Inr q \<Longrightarrow> length ss \<le> length (stages_left (rp_status p))
     \<and> (rp_status q = PROJECTION_READY \<longrightarrow> ss = stages_left (rp_status p) \<and> rp_status p \<notin> {PROJECTION_FAILED, PARTIAL_READY})"
proof (induction ss arbitrary: p)
  case Nil
  then show ?case by (cases "rp_status p") auto
next
  case (Cons s ss)
  then have s: "s \<in> set (allowed_statuses (rp_status p))" and r: "projection_run (p\<lparr>rp_status := s\<rparr>) ss = Inr q"
    by (auto simp: projection_transition_def split: if_splits)
  from Cons.IH [OF r] have ih: "length ss \<le> length (stages_left s)"
    "rp_status q = PROJECTION_READY \<Longrightarrow> ss = stages_left s \<and> s \<notin> {PROJECTION_FAILED, PARTIAL_READY}" by simp_all
  note step = stages_left_step [OF s]
  have "length (s # ss) \<le> length (stages_left (rp_status p))" using ih(1) step(1) by simp
  moreover have "s # ss = stages_left (rp_status p) \<and> rp_status p \<notin> {PROJECTION_FAILED, PARTIAL_READY}"
    if "rp_status q = PROJECTION_READY"
  proof -
    from ih(2) [OF that] have "ss = stages_left s" "s \<notin> {PROJECTION_FAILED, PARTIAL_READY}" by (rule conjunct1, rule conjunct2)
    with step(2) step(3) show ?thesis by (simp only: simp_thms)
  qed
  ultimately show ?case by blast
qed

end
