(* ===== verification/Chunking.thy ===== *)
theory Chunking
  imports Sentences Rag_Documents "HOL-Library.Sublist"
begin

text \<open>
  The structural chunker (\<^verbatim>\<open>labs/rag/chunking/service.py\<close>, \<^verbatim>\<open>contracts.py\<close>): evidence sources of a
  parsed document are packed into retrieval chunks below a token target, neighbouring chunks
  overlap.  The token counter is a parameter no law is assumed of; fresh identifiers are
  streams, indexed by the chunks and units built so far.
\<close>

section \<open>Configuration\<close>

record chunking_config =
  cc_target :: int
  cc_overlap :: int
  cc_ceiling :: int

definition new_chunking_config :: "chunking_config \<Rightarrow> chunking_config res" where
  "new_chunking_config c =
     (if cc_target c < 1 then Inl (ValueError ''chunk_target'')
      else if cc_overlap c < 0 then Inl (ValueError ''chunk_overlap'')
      else if cc_overlap c > cc_target c then Inl (ValueError ''chunk_overlap'')
      else if cc_ceiling c < cc_target c then Inl (ValueError ''chunk_ceiling'')
      else Inr c)"

record chunking_result =
  rs_chunks :: "retrieval_chunk list"
  rs_units :: "evidence_unit list"

record id_source =
  id_chunk :: "nat \<Rightarrow> uuid"
  id_unit :: "nat \<Rightarrow> uuid"

abbreviation chunk_overflow :: exn where
  "chunk_overflow \<equiv> ValueError ''chunk_overflow''"

section \<open>Evidence sources\<close>

record evidence_source =
  es_element :: uuid
  es_text :: pystr
  es_location :: source_location
  es_path :: "pystr list"

definition element_spans :: "structural_element \<Rightarrow> sentence_span list res" where
  "element_spans x =
     (if el_kind x = lit ''paragraph'' \<and> lc_bbox (el_location x) = None
      then split_sentences (el_text x)
      else Inr (add_span (whole_element_span (el_text x)) []))"

definition span_location :: "source_location \<Rightarrow> sentence_span \<Rightarrow> source_location res" where
  "span_location l s =
     (if lc_bbox l \<noteq> None then Inr l
      else new_location \<lparr>lc_element = lc_element l, lc_page = lc_page l,
        lc_start = lc_start l + int (sp_start s), lc_end = lc_start l + int (sp_end s), lc_bbox = None,
        lc_kind = NORMALIZED_TEXT, lc_part = None, lc_sha256 = None, lc_cell = None\<rparr>)"

definition element_sources :: "structural_element \<Rightarrow> evidence_source list res" where
  "element_sources x =
     (if \<not> el_eligible x then Inr []
      else rbind (element_spans x) (mapr (\<lambda>s. rbind (span_location (el_location x) s) (\<lambda>l.
        Inr \<lparr>es_element = el_id x, es_text = sp_text s, es_location = l, es_path = el_path x\<rparr>))))"

definition evidence_sources :: "structural_element list \<Rightarrow> evidence_source list res" where
  "evidence_sources elements = rbind (mapr element_sources elements) (\<lambda>ss. Inr (concat ss))"

section \<open>Rendering\<close>

fun py_join :: "pystr \<Rightarrow> pystr list \<Rightarrow> pystr" where
  "py_join sep [] = []"
| "py_join sep [s] = s"
| "py_join sep (s # t # ss) = s @ sep @ py_join sep (t # ss)"

definition render_chunk :: "pystr list \<Rightarrow> evidence_source list \<Rightarrow> pystr" where
  "render_chunk path sources =
     (let body = py_join [10] (map es_text sources)
      in if path = [] then body else py_join (lit '' > '') path @ [10, 10] @ body)"

fun overlap_loop :: "(pystr \<Rightarrow> int) \<Rightarrow> int \<Rightarrow> evidence_source list \<Rightarrow> evidence_source list \<Rightarrow> evidence_source list" where
  "overlap_loop count limit [] tail = tail"
| "overlap_loop count limit (s # ss) tail =
     (if count (py_join [10] (map es_text (s # tail))) > limit then tail
      else overlap_loop count limit ss (s # tail))"

definition overlap_tail :: "(pystr \<Rightarrow> int) \<Rightarrow> int \<Rightarrow> evidence_source list \<Rightarrow> evidence_source list" where
  "overlap_tail count limit sources = overlap_loop count limit (rev sources) []"

text \<open>The \<^verbatim>\<open>while\<close> loop that pops overlapping sources until the next one fits.\<close>

fun drop_to_fit ::
  "(pystr \<Rightarrow> int) \<Rightarrow> int \<Rightarrow> pystr list \<Rightarrow> evidence_source \<Rightarrow> evidence_source list \<Rightarrow> evidence_source list" where
  "drop_to_fit count hard path source [] = []"
| "drop_to_fit count hard path source (s # ss) =
     (if count (render_chunk path ((s # ss) @ [source])) > hard then drop_to_fit count hard path source ss
      else s # ss)"

definition raise_if_overflow :: "(pystr \<Rightarrow> int) \<Rightarrow> chunking_config \<Rightarrow> evidence_source \<Rightarrow> unit res" where
  "raise_if_overflow count cfg s =
     (if count (render_chunk (es_path s) [s]) > cc_ceiling cfg then Inl chunk_overflow else Inr ())"

section \<open>Chunking\<close>

record chunk_state =
  cs_chunks :: "retrieval_chunk list"
  cs_units :: "evidence_unit list"
  cs_current :: "evidence_source list"
  cs_path :: "pystr list"

definition flush_chunk :: "id_source \<Rightarrow> uuid \<Rightarrow> chunk_state \<Rightarrow> chunk_state res" where
  "flush_chunk ids projection st =
     (if cs_current st = [] then Inr st
      else
        let chunk_id = id_chunk ids (length (cs_chunks st))
        in rbind (mapr (\<lambda>(ordinal, s). create_evidence (id_unit ids (length (cs_units st) + ordinal)) (es_text s)
               (Some (es_location s)) (int ordinal) (Some chunk_id) (Some projection))
             (enumerate 0 (cs_current st))) (\<lambda>units.
           rbind (new_chunk \<lparr>ck_id = chunk_id, ck_projection = projection, ck_ordinal = length (cs_chunks st),
               ck_text = render_chunk (cs_path st) (cs_current st), ck_path = cs_path st, ck_units = units\<rparr>) (\<lambda>c.
           Inr (st\<lparr>cs_chunks := cs_chunks st @ [c], cs_units := cs_units st @ units\<rparr>))))"

definition chunk_step ::
  "(pystr \<Rightarrow> int) \<Rightarrow> chunking_config \<Rightarrow> id_source \<Rightarrow> uuid \<Rightarrow> evidence_source \<Rightarrow> chunk_state \<Rightarrow> chunk_state res" where
  "chunk_step count cfg ids projection s st =
     rbind (raise_if_overflow count cfg s) (\<lambda>_.
       if cs_current st = [] then Inr (st\<lparr>cs_current := [s], cs_path := es_path s\<rparr>)
       else if es_path s \<noteq> cs_path st then
         rbind (flush_chunk ids projection st) (\<lambda>st'. Inr (st'\<lparr>cs_current := [s], cs_path := es_path s\<rparr>))
       else if count (render_chunk (cs_path st) (cs_current st @ [s])) \<le> cc_target cfg then
         Inr (st\<lparr>cs_current := cs_current st @ [s]\<rparr>)
       else
         rbind (flush_chunk ids projection st) (\<lambda>st'.
           Inr (st'\<lparr>cs_current := drop_to_fit count (cc_ceiling cfg) (cs_path st) s
                  (overlap_tail count (cc_overlap cfg) (cs_current st)) @ [s]\<rparr>)))"

fun chunk_loop ::
  "(pystr \<Rightarrow> int) \<Rightarrow> chunking_config \<Rightarrow> id_source \<Rightarrow> uuid \<Rightarrow> evidence_source list \<Rightarrow> chunk_state \<Rightarrow> chunk_state res" where
  "chunk_loop count cfg ids projection [] st = Inr st"
| "chunk_loop count cfg ids projection (s # ss) st =
     rbind (chunk_step count cfg ids projection s st) (chunk_loop count cfg ids projection ss)"

definition chunk_document ::
  "(pystr \<Rightarrow> int) \<Rightarrow> chunking_config \<Rightarrow> id_source \<Rightarrow> uuid \<Rightarrow> structural_element list \<Rightarrow> chunking_result res" where
  "chunk_document count cfg ids projection elements =
     rbind (evidence_sources elements) (\<lambda>sources.
     rbind (chunk_loop count cfg ids projection sources
         \<lparr>cs_chunks = [], cs_units = [], cs_current = [], cs_path = []\<rparr>) (\<lambda>st.
     rbind (flush_chunk ids projection st) (\<lambda>st'.
       Inr \<lparr>rs_chunks = cs_chunks st', rs_units = cs_units st'\<rparr>)))"

section \<open>What a flush builds\<close>

type_synonym item = "pystr list \<times> pystr \<times> source_location"

definition source_item :: "evidence_source \<Rightarrow> item" where
  "source_item s = (es_path s, es_text s, es_location s)"

definition chunk_items :: "retrieval_chunk \<Rightarrow> item list" where
  "chunk_items c = map (\<lambda>u. (ck_path c, ev_text u, ev_location u)) (ck_units c)"

text \<open>A chunk that packs the given sources, the way its constructors and identifiers demand.\<close>

definition packs :: "id_source \<Rightarrow> uuid \<Rightarrow> nat \<Rightarrow> evidence_source list \<Rightarrow> retrieval_chunk \<Rightarrow> bool" where
  "packs ids projection n sources c \<longleftrightarrow>
     sources \<noteq> [] \<and> ck_id c = id_chunk ids n \<and> ck_projection c = projection \<and> ck_ordinal c = n
     \<and> ck_text c = render_chunk (ck_path c) sources \<and> (\<forall>s \<in> set sources. es_path s = ck_path c)
     \<and> chunk_items c = map source_item sources
     \<and> map ev_ordinal (ck_units c) = map int [0..<length sources]
     \<and> new_chunk c = Inr c"

definition flushed_units :: "id_source \<Rightarrow> uuid \<Rightarrow> chunk_state \<Rightarrow> evidence_unit list" where
  "flushed_units ids projection st =
     map (\<lambda>(n, s). \<lparr>ev_id = id_unit ids (length (cs_units st) + n), ev_chunk = Some (id_chunk ids (length (cs_chunks st))),
         ev_ordinal = int n, ev_text = es_text s, ev_location = es_location s, ev_projection = Some projection\<rparr>)
       (enumerate 0 (cs_current st))"

definition flushed_chunk :: "id_source \<Rightarrow> uuid \<Rightarrow> chunk_state \<Rightarrow> retrieval_chunk" where
  "flushed_chunk ids projection st =
     \<lparr>ck_id = id_chunk ids (length (cs_chunks st)), ck_projection = projection, ck_ordinal = length (cs_chunks st),
      ck_text = render_chunk (cs_path st) (cs_current st), ck_path = cs_path st, ck_units = flushed_units ids projection st\<rparr>"

lemma mapr_Inr: "mapr (\<lambda>x. Inr (g x)) xs = Inr (map g xs)"
  by (induction xs) simp_all

lemma new_flushed: "new_chunk (flushed_chunk ids projection st) = Inr (flushed_chunk ids projection st)"
  by (auto simp: new_chunk_def flushed_chunk_def flushed_units_def list_ex_iff)

lemma flush_chunk_eq:
  "flush_chunk ids projection st =
     (if cs_current st = [] then Inr st
      else Inr (st\<lparr>cs_chunks := cs_chunks st @ [flushed_chunk ids projection st],
             cs_units := cs_units st @ flushed_units ids projection st\<rparr>))"
proof -
  have "mapr (\<lambda>(ordinal, s). create_evidence (id_unit ids (length (cs_units st) + ordinal)) (es_text s)
      (Some (es_location s)) (int ordinal) (Some (id_chunk ids (length (cs_chunks st)))) (Some projection))
    (enumerate 0 (cs_current st)) = Inr (flushed_units ids projection st)"
    unfolding flushed_units_def mapr_Inr [symmetric] by (simp add: create_evidence_def case_prod_unfold)
  with new_flushed [of ids projection st] show ?thesis
    by (simp add: flush_chunk_def Let_def flushed_chunk_def)
qed

lemma flushed_chunk_packs:
  assumes "cs_current st \<noteq> []" "\<And>s. s \<in> set (cs_current st) \<Longrightarrow> es_path s = cs_path st"
  shows "packs ids projection (length (cs_chunks st)) (cs_current st) (flushed_chunk ids projection st)"
proof -
  let ?g = "\<lambda>s. (cs_path st, es_text s, es_location s)"
  have "map (\<lambda>p. ?g (snd p)) (enumerate 0 (cs_current st)) = map ?g (map snd (enumerate 0 (cs_current st)))"
    by (simp only: map_map comp_def)
  also have "\<dots> = map source_item (cs_current st)"
    using assms(2) by (simp add: source_item_def)
  finally have "map (\<lambda>p. ?g (snd p)) (enumerate 0 (cs_current st)) = map source_item (cs_current st)" .
  moreover have "map (\<lambda>p. int (fst p)) (enumerate 0 (cs_current st)) = map int [0..<length (cs_current st)]"
  proof -
    have "map (\<lambda>p. int (fst p)) (enumerate 0 (cs_current st)) = map int (map fst (enumerate 0 (cs_current st)))"
      by (simp only: map_map comp_def)
    then show ?thesis by simp
  qed
  ultimately show ?thesis
    using assms new_flushed [of ids projection st]
    by (simp add: packs_def chunk_items_def flushed_chunk_def flushed_units_def case_prod_unfold comp_def)
qed

section \<open>The invariant of the loop\<close>

text \<open>
  The finished chunks, of which the first \<open>ks\<close> units repeat the end of the chunk before: without
  those they hold exactly the given items, in order.
\<close>

definition finished ::
  "(pystr \<Rightarrow> int) \<Rightarrow> int \<Rightarrow> id_source \<Rightarrow> uuid \<Rightarrow> item list \<Rightarrow> retrieval_chunk list \<Rightarrow> nat list \<Rightarrow> bool" where
  "finished count hard ids projection items chunks ks \<longleftrightarrow>
     length ks = length chunks
     \<and> (\<forall>n < length chunks. (\<exists>ss. packs ids projection n ss (chunks ! n)) \<and> count (ck_text (chunks ! n)) \<le> hard
          \<and> ks ! n < length (ck_units (chunks ! n)))
     \<and> (\<forall>n < length chunks. (n = 0 \<longrightarrow> ks ! n = 0)
          \<and> (n > 0 \<longrightarrow> suffix (take (ks ! n) (chunk_items (chunks ! n))) (chunk_items (chunks ! (n - 1)))))
     \<and> concat (map2 drop ks (map chunk_items chunks)) = items"

definition pending :: "(pystr \<Rightarrow> int) \<Rightarrow> int \<Rightarrow> chunk_state \<Rightarrow> nat \<Rightarrow> bool" where
  "pending count hard st k \<longleftrightarrow>
     (\<forall>s \<in> set (cs_current st). es_path s = cs_path st) \<and> count (render_chunk (cs_path st) (cs_current st)) \<le> hard
     \<and> k < length (cs_current st)
     \<and> (cs_chunks st = [] \<longrightarrow> k = 0)
     \<and> (cs_chunks st \<noteq> [] \<longrightarrow> suffix (take k (map source_item (cs_current st))) (chunk_items (last (cs_chunks st))))"

definition chunk_inv :: "(pystr \<Rightarrow> int) \<Rightarrow> int \<Rightarrow> id_source \<Rightarrow> uuid \<Rightarrow> evidence_source list \<Rightarrow> chunk_state \<Rightarrow> bool" where
  "chunk_inv count hard ids projection done st \<longleftrightarrow>
     cs_units st = concat (map ck_units (cs_chunks st))
     \<and> (if cs_current st = [] then done = [] \<and> cs_chunks st = []
        else \<exists>items ks k. finished count hard ids projection items (cs_chunks st) ks \<and> pending count hard st k
          \<and> items @ drop k (map source_item (cs_current st)) = map source_item done)"

lemma finished_empty: "finished count hard ids projection [] [] []"
  by (simp add: finished_def)

lemma finished_snoc:
  assumes f: "finished count hard ids projection items chunks ks"
    and c: "packs ids projection (length chunks) ss c" "count (ck_text c) \<le> hard" "k < length (ck_units c)"
    and k: "chunks = [] \<Longrightarrow> k = 0" "chunks \<noteq> [] \<Longrightarrow> suffix (take k (chunk_items c)) (chunk_items (last chunks))"
  shows "finished count hard ids projection (items @ drop k (chunk_items c)) (chunks @ [c]) (ks @ [k])"
proof -
  from f have l: "length ks = length chunks" by (simp add: finished_def)
  have "concat (map2 drop (ks @ [k]) (map chunk_items (chunks @ [c]))) = items @ drop k (chunk_items c)"
    using f l by (simp add: finished_def)
  moreover have "(\<exists>ss. packs ids projection n ss ((chunks @ [c]) ! n)) \<and> count (ck_text ((chunks @ [c]) ! n)) \<le> hard
      \<and> (ks @ [k]) ! n < length (ck_units ((chunks @ [c]) ! n))" if "n < length (chunks @ [c])" for n
    using that f c l by (cases "n < length chunks") (auto simp: finished_def nth_append less_Suc_eq)
  moreover have "(n = 0 \<longrightarrow> (ks @ [k]) ! n = 0)
      \<and> (n > 0 \<longrightarrow> suffix (take ((ks @ [k]) ! n) (chunk_items ((chunks @ [c]) ! n))) (chunk_items ((chunks @ [c]) ! (n - 1))))"
    if n: "n < length (chunks @ [c])" for n
  proof (cases "n < length chunks")
    case True
    with f l show ?thesis by (auto simp: finished_def nth_append less_imp_diff_less)
  next
    case False
    with n have "n = length chunks" by simp
    with k l show ?thesis by (cases "chunks = []") (auto simp: nth_append last_conv_nth)
  qed
  ultimately show ?thesis using l unfolding finished_def by simp
qed

lemma flush_finished:
  assumes f: "finished count hard ids projection items (cs_chunks st) ks" and p: "pending count hard st k"
  shows "finished count hard ids projection (items @ drop k (map source_item (cs_current st)))
    (cs_chunks st @ [flushed_chunk ids projection st]) (ks @ [k])"
proof -
  let ?c = "flushed_chunk ids projection st"
  have ne: "cs_current st \<noteq> []" using p by (auto simp: pending_def)
  have pk: "packs ids projection (length (cs_chunks st)) (cs_current st) ?c"
    by (rule flushed_chunk_packs [OF ne]) (use p in \<open>simp add: pending_def\<close>)
  then have items: "chunk_items ?c = map source_item (cs_current st)" by (simp add: packs_def)
  have "length (ck_units ?c) = length (cs_current st)" using arg_cong [OF items, of length] by (simp add: chunk_items_def)
  moreover have "count (ck_text ?c) \<le> hard" using p by (simp add: pending_def flushed_chunk_def)
  ultimately show ?thesis
    using finished_snoc [OF f pk, of k] p unfolding items by (simp add: pending_def)
qed

lemma overlap_loop_suffix: "suffix (overlap_loop count limit ss tail) (rev ss @ tail)"
proof (induction ss arbitrary: tail)
  case (Cons s ss)
  from Cons.IH [of "s # tail"] show ?case by (auto simp: suffix_def)
qed simp

lemma drop_to_fit_suffix: "suffix (drop_to_fit count hard path s ss) ss"
  by (induction ss) (auto intro: suffix_ConsI)

lemma drop_to_fit_fits:
  "count (render_chunk path [s]) \<le> hard \<Longrightarrow> count (render_chunk path (drop_to_fit count hard path s ss @ [s])) \<le> hard"
  by (induction ss) auto

lemma overlap_suffix: "suffix (drop_to_fit count hard path s (overlap_tail count limit ss)) ss"
  using suffix_order.trans [OF drop_to_fit_suffix overlap_loop_suffix [of count limit "rev ss" "[]"]]
  by (simp add: overlap_tail_def)

lemma chunk_step_inv:
  assumes st: "chunk_step count cfg ids projection s st = Inr st'"
    and inv: "chunk_inv count (cc_ceiling cfg) ids projection done st" and cfg: "cc_target cfg \<le> cc_ceiling cfg"
  shows "chunk_inv count (cc_ceiling cfg) ids projection (done @ [s]) st' \<and> cs_current st' \<noteq> []"
proof -
  let ?hard = "cc_ceiling cfg"
  from st have alone: "count (render_chunk (es_path s) [s]) \<le> ?hard"
    by (auto simp: chunk_step_def raise_if_overflow_def split: if_splits)
  have units: "cs_units st = concat (map ck_units (cs_chunks st))" using inv by (simp add: chunk_inv_def)
  show ?thesis
  proof (cases "cs_current st = []")
    case True
    with inv have "done = []" "cs_chunks st = []" by (simp_all add: chunk_inv_def)
    moreover from True st alone have st': "st' = st\<lparr>cs_current := [s], cs_path := es_path s\<rparr>"
      by (simp add: chunk_step_def raise_if_overflow_def)
    moreover have "pending count ?hard st' 0" using alone by (simp add: pending_def st')
    ultimately show ?thesis
      using finished_empty [of count ?hard ids projection] units
      by (auto simp: chunk_inv_def intro!: exI [of _ "[]"] exI [of _ "0 :: nat"])
  next
    case False
    with inv obtain items ks k where f: "finished count ?hard ids projection items (cs_chunks st) ks"
      and p: "pending count ?hard st k" and d: "items @ drop k (map source_item (cs_current st)) = map source_item done"
      by (auto simp: chunk_inv_def)
    let ?c = "flushed_chunk ids projection st"
    define st1 where "st1 = st\<lparr>cs_chunks := cs_chunks st @ [?c], cs_units := cs_units st @ flushed_units ids projection st\<rparr>"
    have flush: "flush_chunk ids projection st = Inr st1" using False by (simp add: flush_chunk_eq st1_def)
    note ff = flush_finished [OF f p, unfolded d]
    have units1: "cs_units st1 = concat (map ck_units (cs_chunks st1))" using units by (simp add: st1_def flushed_chunk_def)
    have tail: "chunk_inv count ?hard ids projection (done @ [s]) (st1\<lparr>cs_current := old @ [s], cs_path := es_path s\<rparr>)"
      if old: "suffix old (cs_current st)" "\<forall>x \<in> set old. es_path x = es_path s"
        "old \<noteq> [] \<Longrightarrow> es_path s = cs_path st" "count (render_chunk (es_path s) (old @ [s])) \<le> ?hard" for old
    proof -
      let ?st = "st1\<lparr>cs_current := old @ [s], cs_path := es_path s\<rparr>"
      from False have "packs ids projection (length (cs_chunks st)) (cs_current st) ?c"
        using p by (intro flushed_chunk_packs) (simp_all add: pending_def)
      then have "chunk_items ?c = map source_item (cs_current st)" by (simp add: packs_def)
      with old(1) have "suffix (map source_item old) (chunk_items ?c)" by (auto simp: suffix_def)
      with old have "pending count ?hard ?st (length old)" by (simp add: pending_def st1_def)
      with ff units1 show ?thesis
        by (auto simp: chunk_inv_def st1_def intro!: exI [of _ "ks @ [k]"] exI [of _ "length old"])
    qed
    show ?thesis
    proof (cases "es_path s = cs_path st")
      case diff: False
      with False alone flush st have "st' = st1\<lparr>cs_current := [] @ [s], cs_path := es_path s\<rparr>"
        by (simp add: chunk_step_def raise_if_overflow_def)
      with tail [of "[]"] alone show ?thesis by simp
    next
      case same: True
      show ?thesis
      proof (cases "count (render_chunk (cs_path st) (cs_current st @ [s])) \<le> cc_target cfg")
        case fits: True
        with False same alone st have st': "st' = st\<lparr>cs_current := cs_current st @ [s]\<rparr>"
          by (simp add: chunk_step_def raise_if_overflow_def)
        with p fits cfg same have "pending count ?hard st' k" by (auto simp: pending_def)
        moreover have "items @ drop k (map source_item (cs_current st')) = map source_item (done @ [s])"
          using d p by (simp add: st' pending_def flip: append_assoc)
        ultimately show ?thesis using f units by (auto simp: chunk_inv_def st')
      next
        case full: False
        let ?old = "drop_to_fit count ?hard (cs_path st) s (overlap_tail count (cc_overlap cfg) (cs_current st))"
        from False same full alone flush st have "st' = st1\<lparr>cs_current := ?old @ [s]\<rparr>"
          by (simp add: chunk_step_def raise_if_overflow_def)
        moreover have "st1\<lparr>cs_current := ?old @ [s]\<rparr> = st1\<lparr>cs_current := ?old @ [s], cs_path := es_path s\<rparr>"
          using same by (simp add: st1_def)
        moreover note suf = overlap_suffix [of count ?hard "cs_path st" s "cc_overlap cfg" "cs_current st"]
        moreover have "\<forall>x \<in> set ?old. es_path x = es_path s"
          using set_mono_suffix [OF suf] p same unfolding pending_def by fastforce
        moreover have "count (render_chunk (es_path s) (?old @ [s])) \<le> ?hard"
          using drop_to_fit_fits alone same by simp
        ultimately show ?thesis using tail [of ?old] same by simp
      qed
    qed
  qed
qed

lemma chunk_loop_inv:
  "chunk_loop count cfg ids projection ss st = Inr st' \<Longrightarrow> chunk_inv count (cc_ceiling cfg) ids projection done st \<Longrightarrow>
     cc_target cfg \<le> cc_ceiling cfg \<Longrightarrow> chunk_inv count (cc_ceiling cfg) ids projection (done @ ss) st'"
proof (induction ss arbitrary: st "done")
  case (Cons s ss)
  from Cons.prems(1) obtain st1 where st1: "chunk_step count cfg ids projection s st = Inr st1"
    "chunk_loop count cfg ids projection ss st1 = Inr st'" by auto
  from chunk_step_inv [OF st1(1) Cons.prems(2,3)] Cons.IH [OF st1(2) _ Cons.prems(3)] show ?case by fastforce
qed simp

lemma chunk_document_finished:
  assumes r: "chunk_document count cfg ids projection elements = Inr r" and cfg: "cc_target cfg \<le> cc_ceiling cfg"
  obtains sources ks where "evidence_sources elements = Inr sources"
    "finished count (cc_ceiling cfg) ids projection (map source_item sources) (rs_chunks r) ks"
    "rs_units r = concat (map ck_units (rs_chunks r))"
proof -
  let ?st0 = "\<lparr>cs_chunks = [], cs_units = [], cs_current = [], cs_path = []\<rparr>"
  from r obtain sources st st' where s: "evidence_sources elements = Inr sources"
    "chunk_loop count cfg ids projection sources ?st0 = Inr st" "flush_chunk ids projection st = Inr st'"
    "r = \<lparr>rs_chunks = cs_chunks st', rs_units = cs_units st'\<rparr>"
    by (auto simp: chunk_document_def)
  have "chunk_inv count (cc_ceiling cfg) ids projection [] ?st0" by (simp add: chunk_inv_def)
  from chunk_loop_inv [OF s(2) this cfg] have inv: "chunk_inv count (cc_ceiling cfg) ids projection sources st" by simp
  show thesis
  proof (cases "cs_current st = []")
    case True
    with inv s(3) have "st' = st" "sources = []" "cs_chunks st = []" "cs_units st = []"
      by (simp_all add: flush_chunk_eq chunk_inv_def)
    with that [OF s(1), of "[]"] s(4) show thesis by (simp add: finished_empty)
  next
    case False
    with inv obtain items ks k where f: "finished count (cc_ceiling cfg) ids projection items (cs_chunks st) ks"
      "pending count (cc_ceiling cfg) st k" "items @ drop k (map source_item (cs_current st)) = map source_item sources"
      by (auto simp: chunk_inv_def)
    from False s(3) have "st' = st\<lparr>cs_chunks := cs_chunks st @ [flushed_chunk ids projection st],
        cs_units := cs_units st @ flushed_units ids projection st\<rparr>" by (simp add: flush_chunk_eq)
    with that [OF s(1)] flush_finished [OF f(1,2), unfolded f(3)] inv s(4) show thesis
      by (simp add: chunk_inv_def flushed_chunk_def)
  qed
qed

end
