(* ===== verification/Chunking_Properties.thy ===== *)
theory Chunking_Properties
  imports Chunking
begin

text \<open>
  The properties of the chunking: no prose is lost between the parsed document and its chunks,
  the chunks stay below the ceiling, every value built passes the checks of its own constructor,
  and a projection ends.
\<close>

section \<open>Sources\<close>

lemma new_location_checked:
  assumes "new_location l = Inr l'"
  shows "0 \<le> lc_start l" "lc_start l \<le> lc_end l" "lc_page l = Some n \<Longrightarrow> 1 \<le> n"
proof -
  have "\<not> (lc_start l < 0 \<or> lc_end l < lc_start l)"
  proof
    assume "lc_start l < 0 \<or> lc_end l < lc_start l"
    then have "new_location l = Inl provenance_error" by (simp add: new_location_def Let_def)
    with assms show False by simp
  qed
  then show "0 \<le> lc_start l" "lc_start l \<le> lc_end l" by simp_all
  show "1 \<le> n" if "lc_page l = Some n"
  proof (rule ccontr)
    assume "\<not> 1 \<le> n"
    with that have "new_location l = Inl provenance_error" by (simp add: new_location_def Let_def)
    with assms show False by simp
  qed
qed

lemma span_location_typed:
  assumes t: "new_location l = Inr l" and s: "sp_start s \<le> sp_end s"
  obtains l' where "span_location l s = Inr l'" "new_location l' = Inr l'" "lc_element l' = lc_element l"
    "lc_bbox l \<noteq> None \<Longrightarrow> l' = l"
    "lc_bbox l = None \<Longrightarrow> lc_start l' = lc_start l + int (sp_start s) \<and> lc_end l' = lc_start l + int (sp_end s)"
proof (cases "lc_bbox l")
  case (Some b)
  with t that [of l] show thesis by (simp add: span_location_def)
next
  case None
  let ?l = "\<lparr>lc_element = lc_element l, lc_page = lc_page l,
        lc_start = lc_start l + int (sp_start s), lc_end = lc_start l + int (sp_end s), lc_bbox = None,
        lc_kind = if lc_page l = None then NORMALIZED_TEXT else PDF_PAGE, lc_part = None, lc_sha256 = None, lc_cell = None\<rparr>"
  note c = new_location_checked [OF t]
  have "span_location l s = Inr ?l" "new_location ?l = Inr ?l"
    using None s c by (cases "lc_page l"; simp add: span_location_def new_location_def Let_def)+
  with that [of ?l] None show thesis by simp
qed

definition well_typed_element :: "structural_element \<Rightarrow> bool" where
  "well_typed_element x \<longleftrightarrow> new_element x = Inr x \<and> new_location (el_location x) = Inr (el_location x)"

text \<open>A source and the place of its element it was taken from.\<close>

definition taken_from :: "structural_element \<Rightarrow> evidence_source \<Rightarrow> bool" where
  "taken_from x s \<longleftrightarrow>
     es_element s = el_id x \<and> es_path s = el_path x \<and> new_location (es_location s) = Inr (es_location s)
     \<and> lc_element (es_location s) = el_id x
     \<and> (if lc_bbox (el_location x) = None
        then es_text s = slice (el_text x) (nat (lc_start (es_location s) - lc_start (el_location x)))
               (nat (lc_end (es_location s) - lc_start (el_location x)))
        else es_location s = el_location x)"

lemma element_spans_cover:
  assumes "element_spans x = Inr ss"
  shows "concat (map (\<lambda>s. prose (sp_text s)) ss) = prose (el_text x)"
    and "s \<in> set ss \<Longrightarrow> sp_text s = slice (el_text x) (sp_start s) (sp_end s)" "s \<in> set ss \<Longrightarrow> sp_start s < sp_end s"
  using assms sentences.prose_kept sentences.span_slice whole_element.prose_kept whole_element.span_slice
  by (auto simp: element_spans_def split: if_splits)

lemma chunk_mapr_total:
  "(\<And>x. x \<in> set xs \<Longrightarrow> \<exists>y. f x = Inr y \<and> R x y) \<Longrightarrow> \<exists>ys. mapr f xs = Inr ys \<and> list_all2 R xs ys"
proof (induction xs)
  case (Cons x xs)
  then obtain ys where "mapr f xs = Inr ys" "list_all2 R xs ys" by auto
  moreover from Cons.prems [of x] obtain y where "f x = Inr y" "R x y" by auto
  ultimately show ?case by auto
qed simp

lemma element_sources_typed:
  assumes t: "well_typed_element x" and sp: "element_spans x = Inr spans" and e: "el_eligible x"
  obtains ss where "element_sources x = Inr ss" "\<And>s. s \<in> set ss \<Longrightarrow> taken_from x s"
    "map es_text ss = map sp_text spans"
proof -
  let ?f = "\<lambda>s. rbind (span_location (el_location x) s) (\<lambda>l.
        Inr \<lparr>es_element = el_id x, es_text = sp_text s, es_location = l, es_path = el_path x\<rparr>)"
  let ?R = "\<lambda>sp s. es_text s = sp_text sp \<and> taken_from x s"
  from t have l: "new_location (el_location x) = Inr (el_location x)" "lc_element (el_location x) = el_id x"
    by (auto simp: well_typed_element_def new_element_def split: if_splits)
  have "\<exists>s. ?f sp = Inr s \<and> ?R sp s" if m: "sp \<in> set spans" for sp
  proof -
    note slice = element_spans_cover(2,3) [OF sp m]
    obtain l' where l': "span_location (el_location x) sp = Inr l'" "new_location l' = Inr l'" "lc_element l' = lc_element (el_location x)"
      "lc_bbox (el_location x) \<noteq> None \<Longrightarrow> l' = el_location x"
      "lc_bbox (el_location x) = None \<Longrightarrow> lc_start l' = lc_start (el_location x) + int (sp_start sp)
         \<and> lc_end l' = lc_start (el_location x) + int (sp_end sp)"
      by (rule span_location_typed [OF l(1) less_imp_le [OF slice(2)]]) (rule that)
    with l(2) slice(1) show ?thesis by (simp add: taken_from_def)
  qed
  from chunk_mapr_total [of spans ?f ?R, OF this] obtain ss where ss: "mapr ?f spans = Inr ss" "list_all2 ?R spans ss" by blast
  have "map es_text ss = map sp_text spans" using ss(2) by (induction rule: list_all2_induct) simp_all
  moreover have "taken_from x s" if "s \<in> set ss" for s
    using ss(2) that by (metis (no_types, lifting) in_set_conv_nth list_all2_conv_all_nth)
  ultimately show thesis using that [of ss] ss(1) sp e by (simp add: element_sources_def)
qed

lemma element_spans_error:
  assumes "element_spans x = Inl e"
  shows "e = ValueError ''int'' \<and> el_kind x = lit ''paragraph'' \<and> lc_bbox (el_location x) = None
    \<and> (\<exists>i < length (el_text x). numbered_marker_at (el_text x) i = Inl e)"
proof -
  from assms have k: "el_kind x = lit ''paragraph''" "lc_bbox (el_location x) = None" "split_sentences (el_text x) = Inl e"
    by (auto simp: element_spans_def split: if_splits)
  have loop: "\<exists>i \<in> set is. numbered_marker_at str i = Inl e" if "split_loop str is st = Inl e" for str "is" st
    using that by (induction "is" arbitrary: st) (auto simp: rbind_eq_Inl split_step_error)
  from k(3) have "\<exists>i < length (el_text x). numbered_marker_at (el_text x) i = Inl e"
    using loop by (fastforce simp: split_sentences_def rbind_eq_Inl)
  moreover from this have "e = ValueError ''int''"
    by (auto simp: numbered_marker_at_def rbind_eq_Inl dest: py_int_error split: if_splits)
  ultimately show ?thesis using k by blast
qed

text \<open>The sources of a document, or the paragraph whose splitting failed.\<close>

lemma evidence_sources_cases:
  assumes "\<And>x. x \<in> set elements \<Longrightarrow> well_typed_element x"
  obtains (sources) sources where "evidence_sources elements = Inr sources"
      "\<And>s. s \<in> set sources \<Longrightarrow> \<exists>x \<in> set elements. el_eligible x \<and> taken_from x s"
      "concat (map (\<lambda>s. prose (es_text s)) sources) = concat (map (\<lambda>x. prose (el_text x)) (filter el_eligible elements))"
  | (error) x where "evidence_sources elements = Inl (ValueError ''int'')" "x \<in> set elements" "el_eligible x"
      "element_spans x = Inl (ValueError ''int'')"
  using assms
proof (induction elements arbitrary: thesis)
  case Nil
  from Nil(1) [of "[]"] show ?case by (simp add: evidence_sources_def)
next
  case (Cons x xs)
  have es: "evidence_sources (x # xs) = rbind (element_sources x) (\<lambda>s. rbind (evidence_sources xs) (\<lambda>ss. Inr (s @ ss)))"
    by (simp add: evidence_sources_def rbind_def split: sum.splits)
  have tx: "well_typed_element x" "\<And>y. y \<in> set xs \<Longrightarrow> well_typed_element y" using Cons.prems(3) by simp_all
  show ?case
  proof (cases "el_eligible x \<and> isl (element_spans x)")
    case True
    then obtain e where e: "element_spans x = Inl e" by (auto simp: isl_def)
    with element_spans_error have "e = ValueError ''int''" by blast
    with True e Cons.prems(2) [of x] show ?thesis by (simp add: es element_sources_def)
  next
    case False
    obtain s where s: "element_sources x = Inr s" "\<And>y. y \<in> set s \<Longrightarrow> el_eligible x \<and> taken_from x y"
      "concat (map (\<lambda>s. prose (es_text s)) s) = (if el_eligible x then prose (el_text x) else [])"
    proof (cases "el_eligible x")
      case no: False
      with that [of "[]"] show thesis by (simp add: element_sources_def)
    next
      case yes: True
      with False obtain spans where sp: "element_spans x = Inr spans" by (cases "element_spans x") auto
      from element_sources_typed [OF tx(1) sp yes] obtain ss where ss: "element_sources x = Inr ss"
        "\<And>s. s \<in> set ss \<Longrightarrow> taken_from x s" "map es_text ss = map sp_text spans" by blast
      have "concat (map (\<lambda>s. prose (es_text s)) ss) = concat (map prose (map es_text ss))" by (simp add: comp_def)
      also have "\<dots> = prose (el_text x)" using element_spans_cover(1) [OF sp] by (simp add: ss(3) comp_def)
      finally show thesis using that [of ss] ss yes by simp
    qed
    show ?thesis
    proof (rule Cons.IH)
      fix sources
      assume a: "evidence_sources xs = Inr sources"
        "\<And>s. s \<in> set sources \<Longrightarrow> \<exists>x \<in> set xs. el_eligible x \<and> taken_from x s"
        "concat (map (\<lambda>s. prose (es_text s)) sources) = concat (map (\<lambda>x. prose (el_text x)) (filter el_eligible xs))"
      show thesis
        by (rule Cons.prems(1) [of "s @ sources"]) (use a s in \<open>auto simp: es\<close>)
    next
      fix y
      assume "evidence_sources xs = Inl (ValueError ''int'')" "y \<in> set xs" "el_eligible y" "element_spans y = Inl (ValueError ''int'')"
      with Cons.prems(2) [of y] s(1) show thesis by (simp add: es)
    qed (rule tx(2))
  qed
qed

lemma chunk_loop_error:
  assumes "chunk_loop count cfg ids projection ss st = Inl e"
  shows "e = chunk_overflow \<and> (\<exists>s \<in> set ss. count (render_chunk (es_path s) [s]) > cc_ceiling cfg)"
  using assms
proof (induction ss arbitrary: st)
  case (Cons s ss)
  show ?case
  proof (cases "chunk_step count cfg ids projection s st")
    case (Inl e')
    then have "e' = chunk_overflow" "count (render_chunk (es_path s) [s]) > cc_ceiling cfg"
      by (auto simp: chunk_step_def raise_if_overflow_def flush_chunk_eq split: if_splits)
    with Inl Cons.prems show ?thesis by simp
  next
    case (Inr st')
    with Cons show ?thesis by auto
  qed
qed simp

section \<open>A concrete document\<close>

definition demo_place :: source_location where
  "demo_place = \<lparr>lc_element = UUID 61, lc_page = None, lc_start = 100, lc_end = 108, lc_bbox = None,
     lc_kind = NORMALIZED_TEXT, lc_part = None, lc_sha256 = None, lc_cell = None\<rparr>"

definition demo_element :: structural_element where
  "demo_element = \<lparr>el_id = UUID 61, el_ordinal = 0, el_kind = lit ''paragraph'', el_text = lit ''Hi. Yo.'', el_path = [],
     el_location = demo_place, el_eligible = True\<rparr>"

definition demo_count :: "pystr \<Rightarrow> int" where
  "demo_count s = int (length s)"

definition demo_config :: chunking_config where
  "demo_config = \<lparr>cc_target = 4, cc_overlap = 3, cc_ceiling = 7\<rparr>"

definition demo_ids :: id_source where
  "demo_ids = \<lparr>id_chunk = (\<lambda>n. UUID (100 + n)), id_unit = (\<lambda>n. UUID (200 + n))\<rparr>"

definition demo_chunking :: "chunking_result res" where
  "demo_chunking = chunk_document demo_count demo_config demo_ids (UUID 71) [demo_element]"


lemmas split_eval = split_sentences_def split_step_def numbered_marker_at_def marker_shaped_def is_valid_clause_marker_def
  add_span_def trimmed_span_def skip_spaces.simps drop_spaces.simps digits_end.simps slice_def terminators_def
  py_isdigit_ascii py_isspace_def Let_def

lemma demo_spans: "split_sentences (lit ''Hi. Yo.'') =
    Inr [\<lparr>sp_text = lit ''Hi.'', sp_start = 0, sp_end = 3\<rparr>, \<lparr>sp_text = lit ''Yo.'', sp_start = 4, sp_end = 7\<rparr>]"
  by (simp add: split_eval upt_rec_numeral)

text \<open>
  A text that begins with a superscript two and a full stop: \<^verbatim>\<open>isdigit\<close> holds of the
  superscript, \<^verbatim>\<open>int\<close> refuses it, and the whole text cannot be split.
\<close>

lemma superscript_marker_fails: "split_sentences [178, 46] = Inl (ValueError ''int'')"
proof -
  have "py_isdigit 178" "py_int [178] = Inl (ValueError ''int'')"
    by (simp_all add: py_isdigit_def py_int_def py_decimal_def decimal_zeros_def other_digits_def)
  then show ?thesis by (simp add: split_eval)
qed

lemmas chunk_eval = render_chunk_def overlap_tail_def raise_if_overflow_def chunk_step_def flush_chunk_eq

lemma demo_sources: "evidence_sources [demo_element] = Inr
    [\<lparr>es_element = UUID 61, es_text = lit ''Hi.'', es_location = demo_place\<lparr>lc_start := 100, lc_end := 103\<rparr>, es_path = []\<rparr>,
     \<lparr>es_element = UUID 61, es_text = lit ''Yo.'', es_location = demo_place\<lparr>lc_start := 104, lc_end := 107\<rparr>, es_path = []\<rparr>]"
proof -
  have "element_spans demo_element =
      Inr [\<lparr>sp_text = lit ''Hi.'', sp_start = 0, sp_end = 3\<rparr>, \<lparr>sp_text = lit ''Yo.'', sp_start = 4, sp_end = 7\<rparr>]"
    using demo_spans by (simp add: element_spans_def demo_element_def demo_place_def del: lit_simps)
  then show ?thesis
    by (simp add: evidence_sources_def element_sources_def)
       (simp add: demo_element_def demo_place_def span_location_def new_location_def)
qed

lemma demo_chunks_built:
  obtains r where "demo_chunking = Inr r" "map ck_text (rs_chunks r) = [[72, 105, 46], [72, 105, 46, 10, 89, 111, 46]]"
    "\<forall>c\<in>set (rs_chunks r). uuid_num (ck_id c) < 1000 \<and> (\<forall>u\<in>set (ck_units c). uuid_num (ev_id u) < 1000)"
proof -
  define a where "a = \<lparr>es_element = UUID 61, es_text = lit ''Hi.'', es_location = demo_place\<lparr>lc_start := 100, lc_end := 103\<rparr>, es_path = []\<rparr>"
  define b where "b = \<lparr>es_element = UUID 61, es_text = lit ''Yo.'', es_location = demo_place\<lparr>lc_start := 104, lc_end := 107\<rparr>, es_path = []\<rparr>"
  have ab: "es_text a = [72, 105, 46]" "es_text b = [89, 111, 46]" "es_path a = []" "es_path b = []"
    by (simp_all add: a_def b_def)
  have cfg: "cc_target demo_config = 4" "cc_overlap demo_config = 3" "cc_ceiling demo_config = 7" by (simp_all add: demo_config_def)
  let ?step = "chunk_step demo_count demo_config demo_ids (UUID 71)"
  define s0 where "s0 = \<lparr>cs_chunks = [], cs_units = [], cs_current = [], cs_path = []\<rparr>"
  define s1 where "s1 = \<lparr>cs_chunks = [], cs_units = [], cs_current = [a], cs_path = []\<rparr>"
  define c1 where "c1 = flushed_chunk demo_ids (UUID 71) s1"
  define u1 where "u1 = flushed_units demo_ids (UUID 71) s1"
  define s2 where "s2 = \<lparr>cs_chunks = [c1], cs_units = u1, cs_current = [a, b], cs_path = []\<rparr>"
  define c2 where "c2 = flushed_chunk demo_ids (UUID 71) s2"
  have "?step a s0 = Inr s1"
    by (simp add: chunk_eval s0_def s1_def ab cfg demo_count_def)
  moreover have "?step b s1 = Inr s2"
    unfolding chunk_eval(4,5) c1_def [symmetric] u1_def [symmetric]
    by (simp add: chunk_eval(1-3) s1_def s2_def ab cfg demo_count_def)
  moreover have "flush_chunk demo_ids (UUID 71) s2 = Inr (s2\<lparr>cs_chunks := [c1, c2], cs_units := u1 @ flushed_units demo_ids (UUID 71) s2\<rparr>)"
    unfolding flush_chunk_eq c2_def [symmetric] by (simp add: s2_def)
  ultimately have "demo_chunking = Inr \<lparr>rs_chunks = [c1, c2], rs_units = u1 @ flushed_units demo_ids (UUID 71) s2\<rparr>"
    unfolding demo_chunking_def chunk_document_def demo_sources a_def [symmetric] b_def [symmetric] s0_def [symmetric] by simp
  moreover have "ck_text c1 = [72, 105, 46]" "ck_text c2 = [72, 105, 46, 10, 89, 111, 46]"
    by (simp_all add: c1_def c2_def flushed_chunk_def s1_def s2_def render_chunk_def ab)
  moreover have "\<forall>c\<in>set [c1, c2]. uuid_num (ck_id c) < 1000 \<and> (\<forall>u\<in>set (ck_units c). uuid_num (ev_id u) < 1000)"
    by (simp add: c1_def c2_def u1_def flushed_chunk_def flushed_units_def s1_def s2_def demo_ids_def)
  ultimately show thesis using that by simp
qed

lemma demo_chunks:
  obtains r where "demo_chunking = Inr r" "map ck_text (rs_chunks r) = [[72, 105, 46], [72, 105, 46, 10, 89, 111, 46]]"
  by (rule demo_chunks_built) (rule that)

section \<open>Nothing is lost\<close>

text \<open>
  C13.  Splitting prose into sentences keeps it: the spans are disjoint, in the order of the text,
  each is the slice of the text between its offsets, and together they hold every character that
  is not white space, once and in order, whatever abbreviations, numbered clauses or CJK stops the
  text has.  Splitting fails exactly on a text with a numbered marker whose number \<^verbatim>\<open>int\<close> refuses:
  more than 4300 digits, or a digit without a decimal value, a superscript say.
\<close>

theorem sentences_keep_the_prose:
  "(case split_sentences str of
      Inr ss \<Rightarrow>
        concat (map (\<lambda>s. filter (\<lambda>c. \<not> py_isspace c) (sp_text s)) ss) = filter (\<lambda>c. \<not> py_isspace c) str
        \<and> (\<forall>s \<in> set ss. sp_start s < sp_end s \<and> sp_end s \<le> length str
             \<and> sp_text s = take (sp_end s - sp_start s) (drop (sp_start s) str))
        \<and> sorted_wrt (\<lambda>s t. sp_end s \<le> sp_start t) ss
    | Inl e \<Rightarrow> e = ValueError ''int'')
    \<and> ((\<exists>e. split_sentences str = Inl e) \<longleftrightarrow>
        (\<exists>i < length str. marker_shaped str i
           \<and> (4300 < digits_end str i - i \<or> (\<exists>k \<in> {i..<digits_end str i}. py_decimal (str ! k) = None))))"
proof (rule conjI)
  show "(\<exists>e. split_sentences str = Inl e) \<longleftrightarrow>
        (\<exists>i < length str. marker_shaped str i
           \<and> (4300 < digits_end str i - i \<or> (\<exists>k \<in> {i..<digits_end str i}. py_decimal (str ! k) = None)))"
    unfolding split_sentences_error using numbered_marker_error [of _ str] by blast
qed (auto simp: prose_def slice_def split: sum.splits dest: split_sentences_int sentences.prose_kept
      sentences.span_slice sentences.spans_ordered)

theorem sentences_keep_the_prose_witness:
  "\<exists>ss. split_sentences (lit ''Hi. Yo.'') = Inr ss \<and> length ss = 2
    \<and> concat (map (\<lambda>s. filter (\<lambda>c. \<not> py_isspace c) (sp_text s)) ss) = filter (\<lambda>c. \<not> py_isspace c) (lit ''Hi. Yo.'')"
proof -
  from demo_spans obtain ss where "split_sentences (lit ''Hi. Yo.'') = Inr ss" "length ss = 2"
    by (simp del: lit_simps)
  with sentences_keep_the_prose [of "lit ''Hi. Yo.''"] show ?thesis by (simp del: lit_simps)
qed

text \<open>
  C14.  No evidence is lost on the way into the chunks: leaving out of every chunk the units that
  repeat the end of the chunk before it, the chunks hold exactly the sources of the document in
  order, each with its section path, text and location, and the text of those sources is, white space
  apart, the text of the eligible elements of the document.
\<close>

theorem chunks_keep_the_evidence:
  assumes "chunk_document count cfg ids projection elements = Inr r" "new_chunking_config cfg = Inr cfg"
    and "\<And>x. x \<in> set elements \<Longrightarrow> new_element x = Inr x \<and> new_location (el_location x) = Inr (el_location x)"
  shows "\<exists>sources ks. evidence_sources elements = Inr sources
    \<and> length ks = length (rs_chunks r)
    \<and> concat (map2 drop ks (map chunk_items (rs_chunks r))) = map source_item sources
    \<and> (\<forall>n < length (rs_chunks r). ks ! n < length (ck_units (rs_chunks r ! n)) \<and> (n = 0 \<longrightarrow> ks ! n = 0)
         \<and> (n > 0 \<longrightarrow> suffix (take (ks ! n) (chunk_items (rs_chunks r ! n))) (chunk_items (rs_chunks r ! (n - 1)))))
    \<and> concat (map (\<lambda>s. prose (es_text s)) sources) = concat (map (\<lambda>x. prose (el_text x)) (filter el_eligible elements))"
proof -
  from assms(2) have "cc_target cfg \<le> cc_ceiling cfg" by (auto simp: new_chunking_config_def split: if_splits)
  with assms(1) obtain sources ks where s: "evidence_sources elements = Inr sources"
    and f: "finished count (cc_ceiling cfg) ids projection (map source_item sources) (rs_chunks r) ks"
    by (rule chunk_document_finished)
  have typed: "well_typed_element x" if "x \<in> set elements" for x using assms(3) [OF that] by (simp add: well_typed_element_def)
  have "concat (map (\<lambda>s. prose (es_text s)) sources) = concat (map (\<lambda>x. prose (el_text x)) (filter el_eligible elements))"
    by (rule evidence_sources_cases [of elements]) (use typed s in simp_all)
  with s f show ?thesis unfolding finished_def by blast
qed

lemma demo_typed:
  "new_chunking_config demo_config = Inr demo_config"
  "x \<in> set [demo_element] \<Longrightarrow> new_element x = Inr x \<and> new_location (el_location x) = Inr (el_location x)"
  by (auto simp: new_chunking_config_def demo_config_def new_element_def new_location_def demo_element_def demo_place_def)

theorem chunks_keep_the_evidence_witness:
  "\<exists>r ks. demo_chunking = Inr r \<and> length (rs_chunks r) = 2 \<and> length ks = 2
    \<and> length (concat (map2 drop ks (map chunk_items (rs_chunks r)))) = 2"
proof -
  obtain r where r: "demo_chunking = Inr r" "map ck_text (rs_chunks r) = [[72, 105, 46], [72, 105, 46, 10, 89, 111, 46]]"
    by (rule demo_chunks)
  from chunks_keep_the_evidence [OF r(1) [unfolded demo_chunking_def] demo_typed] obtain sources ks where
    "evidence_sources [demo_element] = Inr sources" "length ks = length (rs_chunks r)"
    "concat (map2 drop ks (map chunk_items (rs_chunks r))) = map source_item sources" by blast
  moreover have "length (rs_chunks r) = 2" using arg_cong [OF r(2), of length] by simp
  ultimately show ?thesis using r(1) demo_sources by (intro exI [of _ r] exI [of _ ks]) auto
qed








section \<open>Types and errors\<close>

lemma finished_unrepeated:
  assumes "finished count hard ids projection items chunks ks" "n < length chunks"
  shows "set (drop (ks ! n) (chunk_items (chunks ! n))) \<subseteq> set items"
proof -
  from assms have l: "length ks = length chunks" and c: "concat (map2 drop ks (map chunk_items chunks)) = items"
    by (simp_all add: finished_def)
  have "map2 drop ks (map chunk_items chunks) ! n = drop (ks ! n) (chunk_items (chunks ! n))" using assms(2) l by simp
  moreover have "n < length (map2 drop ks (map chunk_items chunks))" using assms(2) l by simp
  ultimately have "drop (ks ! n) (chunk_items (chunks ! n)) \<in> set (map2 drop ks (map chunk_items chunks))" by (metis nth_mem)
  then show ?thesis unfolding c [symmetric] by (simp only: set_concat) blast
qed

lemma finished_items:
  "finished count hard ids projection items chunks ks \<Longrightarrow> n < length chunks \<Longrightarrow> set (chunk_items (chunks ! n)) \<subseteq> set items"
proof (induction n)
  case n: 0
  then have "ks ! 0 = 0" by (auto simp: finished_def)
  with finished_unrepeated [OF n.prems] show ?case by simp
next
  case (Suc n)
  let ?i = "chunk_items (chunks ! Suc n)"
  from Suc have ih: "set (chunk_items (chunks ! n)) \<subseteq> set items" by simp
  from Suc.prems(1) have "\<forall>n < length chunks. (n = 0 \<longrightarrow> ks ! n = 0)
      \<and> (n > 0 \<longrightarrow> suffix (take (ks ! n) (chunk_items (chunks ! n))) (chunk_items (chunks ! (n - 1))))"
    unfolding finished_def by (elim conjE)
  from this [rule_format, OF Suc.prems(2)] have "suffix (take (ks ! Suc n) ?i) (chunk_items (chunks ! n))" by simp
  then have "set (take (ks ! Suc n) ?i) \<subseteq> set items" using ih set_mono_suffix by blast
  moreover have "set (drop (ks ! Suc n) ?i) \<subseteq> set items" by (rule finished_unrepeated [OF Suc.prems])
  moreover have "set ?i = set (take (ks ! Suc n) ?i) \<union> set (drop (ks ! Suc n) ?i)"
    by (metis append_take_drop_id set_append)
  ultimately show ?case by simp
qed

lemma finished_unit_source:
  assumes "finished count hard ids projection (map source_item sources) chunks ks" "c \<in> set chunks" "u \<in> set (ck_units c)"
  shows "\<exists>s \<in> set sources. source_item s = (ck_path c, ev_text u, ev_location u)"
proof -
  from assms(2) obtain n where "n < length chunks" "c = chunks ! n" by (metis in_set_conv_nth)
  from finished_items [OF assms(1) this(1)] this(2) have "set (chunk_items c) \<subseteq> source_item ` set sources" by simp
  moreover have "(ck_path c, ev_text u, ev_location u) \<in> set (chunk_items c)" using assms(3) by (auto simp: chunk_items_def)
  ultimately have "(ck_path c, ev_text u, ev_location u) \<in> source_item ` set sources" by (rule subsetD)
  then show ?thesis by (elim imageE) (rule bexI, erule sym)
qed

text \<open>Every unit of a chunk comes from an evidence source of the document.\<close>

lemma chunk_unit_source:
  assumes "chunk_document count cfg ids projection elements = Inr r" "cc_target cfg \<le> cc_ceiling cfg"
    and "c \<in> set (rs_chunks r)" "u \<in> set (ck_units c)"
  obtains sources s where "evidence_sources elements = Inr sources" "s \<in> set sources"
    "es_path s = ck_path c" "es_text s = ev_text u" "es_location s = ev_location u"
proof -
  from assms(1,2) obtain sources ks where f: "evidence_sources elements = Inr sources"
    "finished count (cc_ceiling cfg) ids projection (map source_item sources) (rs_chunks r) ks" by (rule chunk_document_finished)
  from finished_unit_source [OF f(2) assms(3,4)] f(1) that show thesis by (auto simp: source_item_def)
qed

lemma chunk_document_packed:
  assumes "chunk_document count cfg ids projection elements = Inr r" "cc_target cfg \<le> cc_ceiling cfg" "c \<in> set (rs_chunks r)"
  shows "new_chunk c = Inr c" "ck_projection c = projection"
proof -
  from assms(1,2) obtain sources ks where "finished count (cc_ceiling cfg) ids projection (map source_item sources) (rs_chunks r) ks"
    by (rule chunk_document_finished)
  moreover from assms(3) obtain n where "n < length (rs_chunks r)" "c = rs_chunks r ! n" by (metis in_set_conv_nth)
  ultimately obtain ss where p: "packs ids projection n ss c" unfolding finished_def by blast
  from p show "new_chunk c = Inr c" unfolding packs_def by (elim conjE)
  from p show "ck_projection c = projection" unfolding packs_def by (elim conjE)
qed

text \<open>
  C16.  Chunking a document whose elements passed their checks never breaks provenance: every chunk and
  every location it builds passes the check of its own constructor, and every unit points into an
  eligible element of the document, to exactly the characters it quotes unless the element has only
  a bounding box.  It fails for two reasons only: a source that alone exceeds the ceiling, or a
  paragraph with a numbered marker whose digits \<^verbatim>\<open>int\<close> does not read.
\<close>

theorem chunking_keeps_provenance:
  assumes "\<And>x. x \<in> set elements \<Longrightarrow> new_element x = Inr x \<and> new_location (el_location x) = Inr (el_location x)"
    and "new_chunking_config cfg = Inr cfg"
  shows "case chunk_document count cfg ids projection elements of
      Inr r \<Rightarrow> (\<forall>c \<in> set (rs_chunks r). new_chunk c = Inr c \<and> (\<forall>u \<in> set (ck_units c).
        new_location (ev_location u) = Inr (ev_location u)
        \<and> (\<exists>x \<in> set elements. el_eligible x \<and> el_path x = ck_path c \<and> lc_element (ev_location u) = el_id x
             \<and> (if lc_bbox (el_location x) = None
                then ev_text u = slice (el_text x) (nat (lc_start (ev_location u) - lc_start (el_location x)))
                       (nat (lc_end (ev_location u) - lc_start (el_location x)))
                else ev_location u = el_location x))))
    | Inl e \<Rightarrow>
        e = ValueError ''chunk_overflow'' \<and> (\<exists>sources s. evidence_sources elements = Inr sources \<and> s \<in> set sources
             \<and> count (render_chunk (es_path s) [s]) > cc_ceiling cfg)
        \<or> e = ValueError ''int'' \<and> (\<exists>x \<in> set elements. el_eligible x \<and> el_kind x = lit ''paragraph''
             \<and> (\<exists>i < length (el_text x). numbered_marker_at (el_text x) i = Inl e))"
proof -
  have typed: "well_typed_element x" if "x \<in> set elements" for x using assms(1) [OF that] by (simp add: well_typed_element_def)
  from assms(2) have cfg: "cc_target cfg \<le> cc_ceiling cfg" by (auto simp: new_chunking_config_def split: if_splits)
  show ?thesis
  proof (rule evidence_sources_cases [of elements, OF typed])
    fix x
    assume x: "evidence_sources elements = Inl (ValueError ''int'')" "x \<in> set elements" "el_eligible x"
      "element_spans x = Inl (ValueError ''int'')"
    then have "chunk_document count cfg ids projection elements = Inl (ValueError ''int'')" by (simp add: chunk_document_def)
    with x(2,3) element_spans_error [OF x(4)] show ?thesis by auto
  next
    fix sources
    assume s: "evidence_sources elements = Inr sources" "\<And>s. s \<in> set sources \<Longrightarrow> \<exists>x \<in> set elements. el_eligible x \<and> taken_from x s"
    show ?thesis
    proof (cases "chunk_document count cfg ids projection elements")
      case (Inl e)
      with s(1) have "\<exists>st. chunk_loop count cfg ids projection sources st = Inl e"
        by (auto simp: chunk_document_def rbind_eq_Inl flush_chunk_eq split: if_splits)
      with chunk_loop_error s(1) Inl show ?thesis by (auto dest!: chunk_loop_error)
    next
      case (Inr r)
      from Inr cfg obtain sources' ks where "evidence_sources elements = Inr sources'"
        and f: "finished count (cc_ceiling cfg) ids projection (map source_item sources') (rs_chunks r) ks"
        by (rule chunk_document_finished)
      with s(1) have f: "finished count (cc_ceiling cfg) ids projection (map source_item sources) (rs_chunks r) ks" by simp
      have unit: "\<exists>s \<in> set sources. source_item s = (ck_path c, ev_text u, ev_location u)"
        if "c \<in> set (rs_chunks r)" "u \<in> set (ck_units c)" for c u
        by (rule finished_unit_source [OF f that])
      have A: "new_chunk c = Inr c" if c: "c \<in> set (rs_chunks r)" for c
      proof -
        from c obtain n where "n < length (rs_chunks r)" "c = rs_chunks r ! n" by (metis in_set_conv_nth)
        with f obtain ss where "packs ids projection n ss c" unfolding finished_def by blast
        then show ?thesis unfolding packs_def by (elim conjE)
      qed
      have B: "new_location (ev_location u) = Inr (ev_location u)
        \<and> (\<exists>x \<in> set elements. el_eligible x \<and> el_path x = ck_path c \<and> lc_element (ev_location u) = el_id x
             \<and> (if lc_bbox (el_location x) = None
                then ev_text u = slice (el_text x) (nat (lc_start (ev_location u) - lc_start (el_location x)))
                       (nat (lc_end (ev_location u) - lc_start (el_location x)))
                else ev_location u = el_location x))" if cu: "c \<in> set (rs_chunks r)" "u \<in> set (ck_units c)" for c u
      proof -
        from unit [OF cu] obtain q where q: "q \<in> set sources" "es_path q = ck_path c" "es_text q = ev_text u" "es_location q = ev_location u"
          by (auto simp: source_item_def)
        from s(2) [OF q(1)] obtain x where "x \<in> set elements" "el_eligible x" "taken_from x q" by blast
        with q(2-4) show ?thesis by (auto simp: taken_from_def)
      qed
      show ?thesis
        unfolding Inr sum.case
      proof (intro ballI)
        fix c
        assume c: "c \<in> set (rs_chunks r)"
        show "new_chunk c = Inr c \<and> (\<forall>u \<in> set (ck_units c).
          new_location (ev_location u) = Inr (ev_location u)
          \<and> (\<exists>x \<in> set elements. el_eligible x \<and> el_path x = ck_path c \<and> lc_element (ev_location u) = el_id x
             \<and> (if lc_bbox (el_location x) = None
                then ev_text u = slice (el_text x) (nat (lc_start (ev_location u) - lc_start (el_location x)))
                       (nat (lc_end (ev_location u) - lc_start (el_location x)))
                else ev_location u = el_location x)))"
          by (intro conjI [OF A [OF c]] ballI) (rule B [OF c])
      qed
    qed
  qed
qed

theorem chunking_keeps_provenance_witness:
  "\<exists>r. demo_chunking = Inr r \<and> new_chunk (rs_chunks r ! 1) = Inr (rs_chunks r ! 1)"
proof -
  obtain r where r: "demo_chunking = Inr r" "map ck_text (rs_chunks r) = [[72, 105, 46], [72, 105, 46, 10, 89, 111, 46]]"
    by (rule demo_chunks)
  have "length (rs_chunks r) = 2" using arg_cong [OF r(2), of length] by simp
  then have "rs_chunks r ! 1 \<in> set (rs_chunks r)" by simp
  moreover from chunking_keeps_provenance [where elements = "[demo_element]" and count = demo_count and ids = demo_ids
      and projection = "UUID 71", OF demo_typed(2,1)] r(1)
  have "\<forall>c \<in> set (rs_chunks r). new_chunk c = Inr c" by (simp add: demo_chunking_def)
  ultimately show ?thesis using r(1) by blast
qed

section \<open>Projections end\<close>

text \<open>
  C17.  A projection ends: whatever statuses are asked for, no sequence of accepted transitions from a
  pending projection is longer than five, one that becomes ready has passed parsing, chunking,
  embedding, indexing and ready in this order and nothing else, and a ready, failed or partially
  ready projection accepts no transition.
\<close>

theorem projection_ends:
  assumes "projection_run (pending_projection fresh version profile processing) ss = Inr q"
  shows "length ss \<le> 5
    \<and> (rp_status q = PROJECTION_READY \<longrightarrow> ss = [PARSING, CHUNKING, EMBEDDING, INDEXING, PROJECTION_READY])
    \<and> (rp_status q \<in> {PROJECTION_READY, PROJECTION_FAILED, PARTIAL_READY} \<longrightarrow>
         (\<forall>status. projection_transition q status = Inl (ValueError ''projection_transition'')))
    \<and> (rp_id q, rp_version q, rp_indexing_profile q, rp_processing_profile q) = (fresh, version, profile, processing)"
  using projection_run_bound [OF assms] projection_run_same [OF assms]
  by (auto simp: pending_projection_def projection_transition_def)

theorem projection_ends_witness:
  "\<exists>q. projection_run (pending_projection (UUID 11) (UUID 12) (UUID 13) (UUID 14))
      [PARSING, CHUNKING, EMBEDDING, INDEXING, PROJECTION_READY] = Inr q
    \<and> projection_transition q PARSING = Inl (ValueError ''projection_transition'')"
proof -
  define q where "q = (pending_projection (UUID 11) (UUID 12) (UUID 13) (UUID 14))\<lparr>rp_status := PROJECTION_READY\<rparr>"
  have r: "projection_run (pending_projection (UUID 11) (UUID 12) (UUID 13) (UUID 14))
      [PARSING, CHUNKING, EMBEDDING, INDEXING, PROJECTION_READY] = Inr q"
    by (simp add: q_def projection_transition_def pending_projection_def)
  have "rp_status q = PROJECTION_READY" by (simp add: q_def)
  with projection_ends [OF r] r show ?thesis by auto
qed

end
