(* ===== verification/Rank_Fusion.thy ===== *)
theory Rank_Fusion
  imports Rag_Documents Py_Json "HOL-Library.Product_Lexorder"
begin

text \<open>
  Reciprocal rank fusion of the sparse and the dense hits of a search
  (\<^verbatim>\<open>labs/rag/retrieval/rrf.py\<close>, the hits of \<^verbatim>\<open>retrieval/domain.py\<close>), in double precision: the
  scores are rational numbers rounded the way IEEE 754 rounds them.
\<close>

section \<open>Double precision\<close>

text \<open>
  The unit in the last place of a number below four: from \<open>2 ^ -51\<close> down to \<open>2 ^ -1074\<close>, the
  smallest there is.
\<close>

fun ulp_from :: "nat \<Rightarrow> rat \<Rightarrow> rat \<Rightarrow> rat" where
  "ulp_from 0 u x = u"
| "ulp_from (Suc n) u x = (if x < 2 ^ 52 * u then ulp_from n (u / 2) x else u)"

definition ulp :: "rat \<Rightarrow> rat" where
  "ulp x = ulp_from 1023 (1 / 2 ^ 51) x"

definition round_half_even :: "rat \<Rightarrow> int" where
  "round_half_even q =
     (let f = \<lfloor>q\<rfloor>; d = q - of_int f
      in if d < 1 / 2 then f else if d > 1 / 2 then f + 1 else if even f then f else f + 1)"

definition round_double :: "rat \<Rightarrow> rat" where
  "round_double x = of_int (round_half_even (x / ulp x)) * ulp x"

text \<open>Python's \<^verbatim>\<open>1 / n\<close> of a positive integer, and \<^verbatim>\<open>sum\<close> of at most two such quotients.\<close>

definition reciprocal :: "int \<Rightarrow> rat" where
  "reciprocal n = round_double (1 / of_int n)"

definition sum_scores :: "rat list \<Rightarrow> rat" where
  "sum_scores xs = foldl (\<lambda>s x. round_double (s + x)) 0 xs"

section \<open>Hits\<close>

datatype chunk_identifier = ChunkUuid uuid | ChunkText pystr

fun identifier_text :: "chunk_identifier \<Rightarrow> pystr" where
  "identifier_text (ChunkUuid u) = uuid_text u"
| "identifier_text (ChunkText s) = s"

record retrieved_chunk =
  rc_chunk :: uuid
  rc_projection :: uuid
  rc_version :: uuid
  rc_workspace :: uuid
  rc_folder :: "uuid option"
  rc_build :: uuid
  rc_title :: pystr
  rc_path :: "pystr list"
  rc_text :: pystr
  rc_units :: "evidence_unit list"

text \<open>A rank alone, or a chunk with its rank and score; sparse and dense hits have one shape.\<close>

datatype ranked_input = RankedHit chunk_identifier int | ScoredHit retrieved_chunk int py_float

fun hit_id :: "ranked_input \<Rightarrow> chunk_identifier" where
  "hit_id (RankedHit i _) = i"
| "hit_id (ScoredHit c _ _) = ChunkUuid (rc_chunk c)"

fun hit_rank :: "ranked_input \<Rightarrow> int" where
  "hit_rank (RankedHit _ r) = r"
| "hit_rank (ScoredHit _ r _) = r"

record fused_hit =
  fh_id :: chunk_identifier
  fh_score :: rat
  fh_best :: int
  fh_sparse_rank :: "int option"
  fh_dense_rank :: "int option"
  fh_chunk :: "retrieved_chunk option"
  fh_sparse_score :: "py_float option"
  fh_dense_score :: "py_float option"

section \<open>Fusion\<close>

text \<open>A \<^verbatim>\<open>dict\<close> in insertion order: an update keeps the place of its key.\<close>

fun dict_set :: "'k \<Rightarrow> 'v \<Rightarrow> ('k \<times> 'v) list \<Rightarrow> ('k \<times> 'v) list" where
  "dict_set k v [] = [(k, v)]"
| "dict_set k v ((k', v') # d) = (if k' = k then (k, v) # d else (k', v') # dict_set k v d)"

fun ranks_loop :: "ranked_input list \<Rightarrow> (chunk_identifier \<times> int) list \<Rightarrow> (chunk_identifier \<times> int) list res" where
  "ranks_loop [] ranks = Inr ranks"
| "ranks_loop (h # hs) ranks =
     (if hit_rank h < 1 then Inl (ValueError ''rrf_rank'')
      else ranks_loop hs (case map_of ranks (hit_id h) of
          None \<Rightarrow> dict_set (hit_id h) (hit_rank h) ranks
        | Some current \<Rightarrow> if hit_rank h < current then dict_set (hit_id h) (hit_rank h) ranks else ranks))"

definition best_ranks :: "ranked_input list \<Rightarrow> (chunk_identifier \<times> int) list res" where
  "best_ranks hits = ranks_loop hits []"

fun chunks_loop :: "ranked_input list \<Rightarrow> (chunk_identifier \<times> retrieved_chunk) list
    \<Rightarrow> (chunk_identifier \<times> retrieved_chunk) list res" where
  "chunks_loop [] chunks = Inr chunks"
| "chunks_loop (RankedHit i r # hs) chunks = chunks_loop hs chunks"
| "chunks_loop (ScoredHit c r s # hs) chunks =
     (if (case map_of chunks (ChunkUuid (rc_chunk c)) of None \<Rightarrow> False | Some e \<Rightarrow> e \<noteq> c)
      then Inl (ValueError ''chunk_provenance'')
      else chunks_loop hs (dict_set (ChunkUuid (rc_chunk c)) c chunks))"

fun branch_score :: "ranked_input list \<Rightarrow> chunk_identifier \<Rightarrow> int option \<Rightarrow> py_float option res" where
  "branch_score [] i r = Inr None"
| "branch_score (RankedHit _ _ # hs) i r = branch_score hs i r"
| "branch_score (ScoredHit c r' s # hs) i r =
     (if ChunkUuid (rc_chunk c) = i \<and> Some r' = r
      then (case s of Finite _ \<Rightarrow> Inr (Some s) | _ \<Rightarrow> Inl (ValueError ''search_score''))
      else branch_score hs i r)"

definition present_ranks :: "int option \<Rightarrow> int option \<Rightarrow> int list" where
  "present_ranks s d = List.map_filter id [s, d]"

definition fuse_one ::
  "ranked_input list \<Rightarrow> ranked_input list \<Rightarrow> int \<Rightarrow> (chunk_identifier \<times> int) list \<Rightarrow> (chunk_identifier \<times> int) list
    \<Rightarrow> (chunk_identifier \<times> retrieved_chunk) list \<Rightarrow> chunk_identifier \<Rightarrow> fused_hit res" where
  "fuse_one sparse dense k sparse_ranks dense_ranks chunks i =
     (let s = map_of sparse_ranks i; d = map_of dense_ranks i; ranks = present_ranks s d
      in rbind (branch_score sparse i s) (\<lambda>sparse_score.
         rbind (branch_score dense i d) (\<lambda>dense_score.
           Inr \<lparr>fh_id = i, fh_score = sum_scores (map (\<lambda>r. reciprocal (k + r)) ranks),
             fh_best = foldl min (hd ranks) (tl ranks), fh_sparse_rank = s, fh_dense_rank = d,
             fh_chunk = map_of chunks i, fh_sparse_score = sparse_score, fh_dense_score = dense_score\<rparr>)))"

definition fused_key :: "fused_hit \<Rightarrow> rat \<times> int \<times> pystr" where
  "fused_key h = (- fh_score h, fh_best h, identifier_text (fh_id h))"

definition rrf_fuse :: "ranked_input list \<Rightarrow> ranked_input list \<Rightarrow> int \<Rightarrow> fused_hit list res" where
  "rrf_fuse sparse dense k =
     (if k < 0 then Inl (ValueError ''rrf_k'')
      else rbind (best_ranks sparse) (\<lambda>sparse_ranks.
        rbind (best_ranks dense) (\<lambda>dense_ranks.
        rbind (chunks_loop (sparse @ dense) []) (\<lambda>chunks.
        rbind (mapr (fuse_one sparse dense k sparse_ranks dense_ranks chunks)
            (dict_fromkeys (map fst sparse_ranks @ map fst dense_ranks))) (\<lambda>fused.
          Inr (sort_key fused_key fused))))))"

section \<open>Rounding is monotone\<close>

lemma round_half_even_floor: "round_half_even q = \<lfloor>q\<rfloor> \<or> round_half_even q = \<lfloor>q\<rfloor> + 1"
  by (simp add: round_half_even_def Let_def)

lemma round_half_even_int [simp]: "round_half_even (of_int n) = n"
  by (simp add: round_half_even_def)

lemma round_half_even_mono:
  assumes "p \<le> q"
  shows "round_half_even p \<le> round_half_even q"
proof (cases "\<lfloor>p\<rfloor> = \<lfloor>q\<rfloor>")
  case True
  with assms show ?thesis by (auto simp: round_half_even_def Let_def)
next
  case False
  with floor_mono [OF assms] have "\<lfloor>p\<rfloor> + 1 \<le> \<lfloor>q\<rfloor>" by linarith
  with round_half_even_floor [of p] round_half_even_floor [of q] show ?thesis by linarith
qed

lemma ulp_from_pow: "\<exists>j. u = 2 ^ j * ulp_from n u x"
proof (induction n arbitrary: u)
  case 0
  show ?case by (rule exI [of _ 0]) simp
next
  case (Suc n)
  from Suc.IH [of "u / 2"] obtain j where j: "u / 2 = 2 ^ j * ulp_from n (u / 2) x" ..
  then have "u = 2 ^ (Suc j) * ulp_from n (u / 2) x" by simp
  then show ?case by (cases "x < 2 ^ 52 * u") (auto intro: exI [of _ "Suc j"] exI [of _ 0])
qed

lemma ulp_from_pos: "0 < u \<Longrightarrow> 0 < ulp_from n u x"
  by (induction n arbitrary: u) auto

lemma ulp_from_bound: "x < 2 ^ 53 * u \<Longrightarrow> x < 2 ^ 53 * ulp_from n u x"
  by (induction n arbitrary: u) auto

lemma ulp_from_mono:
  "0 < u \<Longrightarrow> x \<le> y \<Longrightarrow> ulp_from n u x = ulp_from n u y
     \<or> (2 * ulp_from n u x \<le> ulp_from n u y \<and> 2 ^ 52 * ulp_from n u y \<le> y)"
proof (induction n arbitrary: u)
  case (Suc n)
  show ?case
  proof (cases "y < 2 ^ 52 * u")
    case True
    with Suc.prems Suc.IH [of "u / 2"] show ?thesis by auto
  next
    case y: False
    show ?thesis
    proof (cases "x < 2 ^ 52 * u")
      case True
      obtain j where j: "u / 2 = 2 ^ j * ulp_from n (u / 2) x" using ulp_from_pow by blast
      have "ulp_from n (u / 2) x \<le> 2 ^ j * ulp_from n (u / 2) x"
        using ulp_from_pos [of "u / 2" n x] Suc.prems(1) by simp
      with j True y show ?thesis by simp
    next
      case False
      with y show ?thesis by simp
    qed
  qed
qed simp

lemma ulp_from_le: "0 < u \<Longrightarrow> ulp_from n u x \<le> u"
proof -
  assume u: "0 < u"
  obtain j where "u = 2 ^ j * ulp_from n u x" using ulp_from_pow by blast
  moreover have "ulp_from n u x \<le> 2 ^ j * ulp_from n u x" using ulp_from_pos [OF u] by simp
  ultimately show ?thesis by simp
qed

lemma ulp_pos: "0 < ulp x"
  unfolding ulp_def by (rule ulp_from_pos) simp

lemma round_double_mono:
  assumes "x \<le> y" "y < 4"
  shows "round_double x \<le> round_double y"
proof -
  have u: "0 < ulp x" "0 < ulp y" by (rule ulp_pos)+
  have "ulp x = ulp y \<or> (2 * ulp x \<le> ulp y \<and> 2 ^ 52 * ulp y \<le> y)"
    unfolding ulp_def by (rule ulp_from_mono) (use assms in simp_all)
  then show ?thesis
  proof (elim disjE conjE)
    assume eq: "ulp x = ulp y"
    have "x / ulp y \<le> y / ulp y" using assms(1) u(2) by (simp add: divide_right_mono)
    from round_half_even_mono [OF this] have "(of_int (round_half_even (x / ulp y)) :: rat) \<le> of_int (round_half_even (y / ulp y))" by simp
    from mult_right_mono [OF this] u(2) show ?thesis by (simp add: round_double_def eq)
  next
    assume gap: "2 * ulp x \<le> ulp y" "2 ^ 52 * ulp y \<le> y"
    have "x < 2 ^ 53 * ulp x" unfolding ulp_def by (rule ulp_from_bound) (use assms in simp)
    then have "x / ulp x \<le> of_int (2 ^ 53)" using u(1) by (simp add: pos_divide_le_eq)
    from round_half_even_mono [OF this] have "round_half_even (x / ulp x) \<le> 2 ^ 53" by (simp only: round_half_even_int)
    then have "(of_int (round_half_even (x / ulp x)) :: rat) \<le> of_int (2 ^ 53)" by (simp only: of_int_le_iff)
    from mult_right_mono [OF this, of "ulp x"] u(1) have "round_double x \<le> 2 ^ 53 * ulp x" by (simp add: round_double_def)
    also have "\<dots> \<le> 2 ^ 52 * ulp y" using gap(1) by simp
    also have "\<dots> \<le> round_double y"
    proof -
      have "of_int (2 ^ 52) \<le> y / ulp y" using gap(2) u(2) by (simp add: pos_le_divide_eq)
      from round_half_even_mono [OF this] have "2 ^ 52 \<le> round_half_even (y / ulp y)" by (simp only: round_half_even_int)
      then have "(of_int (2 ^ 52) :: rat) \<le> of_int (round_half_even (y / ulp y))" by (simp only: of_int_le_iff)
      from mult_right_mono [OF this, of "ulp y"] u(2) show ?thesis by (simp add: round_double_def)
    qed
    finally show ?thesis .
  qed
qed

text \<open>A rounded number is representable: rounding it again changes nothing.\<close>

lemma round_from_multiple:
  "0 < u \<Longrightarrow> x < 2 ^ 53 * u \<Longrightarrow>
     \<exists>m. of_int (round_half_even (x / ulp_from n u x)) * ulp_from n u x
       = of_int m * ulp_from n u (of_int (round_half_even (x / ulp_from n u x)) * ulp_from n u x)"
proof (induction n arbitrary: u)
  case 0
  then show ?case by auto
next
  case (Suc n)
  show ?case
  proof (cases "x < 2 ^ 52 * u")
    case False
    with Suc.prems have "of_int (2 ^ 52) \<le> x / u" by (simp add: pos_le_divide_eq)
    from round_half_even_mono [OF this] have "2 ^ 52 \<le> round_half_even (x / u)" by (simp only: round_half_even_int)
    then have "(of_int (2 ^ 52) :: rat) \<le> of_int (round_half_even (x / u))" by (simp only: of_int_le_iff)
    from mult_right_mono [OF this, of u] Suc.prems have "\<not> of_int (round_half_even (x / u)) * u < 2 ^ 52 * u" by simp
    with False show ?thesis by auto
  next
    case True
    let ?v = "ulp_from n (u / 2) x"
    let ?y = "of_int (round_half_even (x / ?v)) * ?v"
    have v: "0 < ?v" "?v \<le> u / 2"
      using ulp_from_pos [of "u / 2" n x] ulp_from_le [of "u / 2" n x] Suc.prems by simp_all
    from True have small: "x < 2 ^ 53 * (u / 2)" by simp
    show ?thesis
    proof (cases "?y < 2 ^ 52 * u")
      case below: True
      from Suc.IH [OF _ small] Suc.prems obtain m where "?y = of_int m * ulp_from n (u / 2) ?y" by auto
      with True below show ?thesis by auto
    next
      case False
      obtain j where j: "u / 2 = 2 ^ j * ?v" using ulp_from_pow by blast
      from ulp_from_bound [OF small, of n] v(1) have "x / ?v \<le> of_int (2 ^ 53)" by (simp add: pos_divide_le_eq)
      from round_half_even_mono [OF this] have "round_half_even (x / ?v) \<le> 2 ^ 53" by (simp only: round_half_even_int)
      then have "(of_int (round_half_even (x / ?v)) :: rat) \<le> of_int (2 ^ 53)" by (simp only: of_int_le_iff)
      from mult_right_mono [OF this, of ?v] v have "?y \<le> 2 ^ 53 * ?v" by simp
      also have "2 ^ 53 * ?v \<le> 2 ^ 52 * u" using v by simp
      finally have "?y = 2 ^ 52 * u" using False by (meson not_less order_antisym)
      moreover have "ulp_from (Suc n) u ?y = u" "ulp_from (Suc n) u x = ?v" using True False by simp_all
      moreover have "(2 :: rat) ^ 52 = of_int (2 ^ 52)" by simp
      ultimately show ?thesis by metis
    qed
  qed
qed

lemma round_double_idem:
  assumes "x < 4"
  shows "round_double (round_double x) = round_double x"
proof -
  have "(0 :: rat) < 1 / 2 ^ 51" "x < 2 ^ 53 * (1 / 2 ^ 51)" using assms by simp_all
  from round_from_multiple [OF this, of 1023] obtain m where m: "round_double x = of_int m * ulp (round_double x)"
    by (auto simp: round_double_def ulp_def)
  then have "round_double x / ulp (round_double x) = of_int m"
    using ulp_pos [of "round_double x"] by (simp add: nonzero_divide_eq_eq)
  then have "round_double (round_double x) = of_int m * ulp (round_double x)" by (simp add: round_double_def)
  with m show ?thesis by simp
qed

lemma round_double_0 [simp]: "round_double 0 = 0"
  using round_half_even_int [of 0] by (simp add: round_double_def)

lemma round_double_1: "round_double 1 = 1"
proof -
  have "1023 = Suc (Suc 1021)" by simp
  then have u: "ulp 1 = 1 / 2 ^ 52" unfolding ulp_def by (simp only: ulp_from.simps) simp
  have "round_half_even (of_int (2 ^ 52)) = 2 ^ 52" by (rule round_half_even_int)
  then show ?thesis unfolding round_double_def u by simp
qed

section \<open>Scores\<close>

lemma reciprocal_bounds:
  assumes "1 \<le> n"
  shows "0 \<le> reciprocal n" "reciprocal n \<le> 1"
proof -
  have "(1 :: rat) / of_int n \<le> 1" using assms by simp
  with round_double_mono [of "1 / of_int n" 1] round_double_mono [of 0 "1 / of_int n"] assms
  show "0 \<le> reciprocal n" "reciprocal n \<le> 1" by (simp_all add: reciprocal_def round_double_1)
qed

lemma reciprocal_antimono:
  assumes "1 \<le> m" "m \<le> n"
  shows "reciprocal n \<le> reciprocal m"
proof -
  have "(1 :: rat) / of_int n \<le> 1 / of_int m" using assms by (intro divide_left_mono) simp_all
  moreover have "(1 :: rat) / of_int m < 4" using assms by (simp add: divide_less_eq)
  ultimately show ?thesis unfolding reciprocal_def by (rule round_double_mono)
qed

lemma reciprocal_round: "1 \<le> n \<Longrightarrow> round_double (reciprocal n) = reciprocal n"
  unfolding reciprocal_def by (rule round_double_idem) (simp add: divide_less_eq)

lemma sum_scores_1: "1 \<le> n \<Longrightarrow> sum_scores [reciprocal n] = reciprocal n"
  by (simp add: sum_scores_def reciprocal_round)

lemma sum_scores_2: "1 \<le> n \<Longrightarrow> sum_scores [reciprocal n, reciprocal m] = round_double (reciprocal n + reciprocal m)"
  by (simp add: sum_scores_def reciprocal_round)

text \<open>A rank in each of the two lists, where absence counts as infinitely far down.\<close>

definition rank_le :: "int option \<Rightarrow> int option \<Rightarrow> bool" where
  "rank_le r s = (case s of None \<Rightarrow> True | Some n \<Rightarrow> (case r of None \<Rightarrow> False | Some m \<Rightarrow> m \<le> n))"

definition rank_ok :: "int option \<Rightarrow> bool" where
  "rank_ok r = (case r of None \<Rightarrow> True | Some n \<Rightarrow> 1 \<le> n)"

definition rank_value :: "int \<Rightarrow> int option \<Rightarrow> rat" where
  "rank_value k r = (case r of None \<Rightarrow> 0 | Some n \<Rightarrow> reciprocal (k + n))"

lemma sum_scores_ranks:
  assumes "0 \<le> k" "rank_ok s" "rank_ok d"
  shows "sum_scores (map (\<lambda>r. reciprocal (k + r)) (present_ranks s d)) = round_double (rank_value k s + rank_value k d)"
  using assms sum_scores_1 sum_scores_2 reciprocal_round
  by (auto simp: present_ranks_def map_filter_simps rank_value_def rank_ok_def sum_scores_def split: option.splits)

lemma rank_value_mono:
  assumes "0 \<le> k" "rank_ok r" "rank_ok s" "rank_le r s"
  shows "rank_value k s \<le> rank_value k r" "0 \<le> rank_value k s" "rank_value k r \<le> 1"
  using assms reciprocal_antimono reciprocal_bounds
  by (auto simp: rank_value_def rank_ok_def rank_le_def split: option.splits)

lemma score_mono:
  assumes k: "0 \<le> k" and ok: "rank_ok s" "rank_ok d" "rank_ok s'" "rank_ok d'" and le: "rank_le s s'" "rank_le d d'"
  shows "sum_scores (map (\<lambda>r. reciprocal (k + r)) (present_ranks s' d'))
    \<le> sum_scores (map (\<lambda>r. reciprocal (k + r)) (present_ranks s d))"
proof -
  note S = rank_value_mono [OF k ok(1,3) le(1)] and D = rank_value_mono [OF k ok(2,4) le(2)]
  have "rank_value k s' + rank_value k d' \<le> rank_value k s + rank_value k d" "rank_value k s + rank_value k d < 4"
    using S D by linarith+
  from round_double_mono [OF this] show ?thesis by (simp add: sum_scores_ranks k ok)
qed

section \<open>The loops of the fusion\<close>

lemma map_of_dict_set [simp]: "map_of (dict_set k v d) = (map_of d)(k \<mapsto> v)"
  by (induction k v d rule: dict_set.induct) auto

lemma keys_dict_set: "fst ` set (dict_set k v d) = insert k (fst ` set d)"
  by (induction k v d rule: dict_set.induct) auto

text \<open>What a list of hits says of a chunk: the best of its ranks.\<close>

definition least_rank :: "ranked_input list \<Rightarrow> chunk_identifier \<Rightarrow> int option" where
  "least_rank hits i =
     (let R = hit_rank ` {h \<in> set hits. hit_id h = i} in if R = {} then None else Some (Min R))"

definition lower_rank :: "int option \<Rightarrow> int option \<Rightarrow> int option" where
  "lower_rank r s = (case r of None \<Rightarrow> s | Some m \<Rightarrow> (case s of None \<Rightarrow> r | Some n \<Rightarrow> Some (min m n)))"

lemma least_rank_Nil [simp]: "least_rank [] i = None"
  by (simp add: least_rank_def)

lemma least_rank_Cons:
  "least_rank (h # hs) i = (if hit_id h = i then lower_rank (Some (hit_rank h)) (least_rank hs i) else least_rank hs i)"
proof (cases "hit_id h = i")
  case True
  then have "{g \<in> set (h # hs). hit_id g = i} = insert h {g \<in> set hs. hit_id g = i}" by auto
  moreover have "hit_rank ` {g \<in> set hs. hit_id g = i} = {} \<longleftrightarrow> {g \<in> set hs. hit_id g = i} = {}" by (rule image_is_empty)
  ultimately show ?thesis using True
    by (cases "{g \<in> set hs. hit_id g = i} = {}") (simp_all only: least_rank_def Let_def lower_rank_def image_insert insert_not_empty
      if_True if_False option.case finite_imageI finite_set finite_Collect_conjI Min_insert Min_singleton simp_thms image_empty Collect_mem_eq finite_filter)
next
  case False
  then have "{g \<in> set (h # hs). hit_id g = i} = {g \<in> set hs. hit_id g = i}" by auto
  then show ?thesis using False by (simp add: least_rank_def)
qed

lemma least_rank_None: "least_rank hits i = None \<longleftrightarrow> i \<notin> hit_id ` set hits"
  by (auto simp: least_rank_def Let_def)

lemma least_rank_ok: "\<forall>h\<in>set hits. 1 \<le> hit_rank h \<Longrightarrow> rank_ok (least_rank hits i)"
  by (induction hits) (auto simp: least_rank_Cons lower_rank_def rank_ok_def split: option.splits)

lemma ranks_loop_error: "ranks_loop hs d = Inl e \<Longrightarrow> \<exists>h\<in>set hs. hit_rank h < 1"
  by (induction hs d rule: ranks_loop.induct) (auto split: if_splits)

lemma ranks_loop_result:
  assumes "ranks_loop hs d = Inr r"
  shows "map_of r i = lower_rank (map_of d i) (least_rank hs i)"
    and "fst ` set r = fst ` set d \<union> hit_id ` set hs"
    and "\<forall>h\<in>set hs. 1 \<le> hit_rank h"
proof -
  have "map_of r i = lower_rank (map_of d i) (least_rank hs i) \<and> fst ` set r = fst ` set d \<union> hit_id ` set hs
      \<and> (\<forall>h\<in>set hs. 1 \<le> hit_rank h)"
    using assms
  proof (induction hs d rule: ranks_loop.induct)
    case (1 d)
    then show ?case by (auto simp: lower_rank_def split: option.splits)
  next
    case (2 h hs d)
    have rank: "1 \<le> hit_rank h" using "2.prems" by (auto split: if_splits)
    show ?case
    proof (cases "map_of d (hit_id h)")
      case None
      with 2 rank show ?thesis
        by (auto simp: keys_dict_set least_rank_Cons lower_rank_def split: option.splits)
    next
      case (Some c)
      then have "hit_id h \<in> fst ` set d" by (metis domI dom_map_of_conv_image_fst)
      with 2 rank Some show ?thesis
        by (cases "hit_rank h < c")
          (auto simp: keys_dict_set least_rank_Cons lower_rank_def split: option.splits)
    qed
  qed
  then show "map_of r i = lower_rank (map_of d i) (least_rank hs i)" "fst ` set r = fst ` set d \<union> hit_id ` set hs"
    "\<forall>h\<in>set hs. 1 \<le> hit_rank h" by blast+
qed

lemma best_ranks_result:
  assumes "best_ranks hs = Inr r"
  shows "map_of r i = least_rank hs i" "fst ` set r = hit_id ` set hs" "\<forall>h\<in>set hs. 1 \<le> hit_rank h"
  using ranks_loop_result [OF assms [unfolded best_ranks_def]] by (simp_all add: lower_rank_def)

text \<open>Two hits show different copies of one chunk; a hit has a score that is not a number.\<close>

definition disagree :: "ranked_input list \<Rightarrow> bool" where
  "disagree hs = (\<exists>c r s c' r' s'. ScoredHit c r s \<in> set hs \<and> ScoredHit c' r' s' \<in> set hs
     \<and> rc_chunk c = rc_chunk c' \<and> c \<noteq> c')"

definition odd_score :: "ranked_input list \<Rightarrow> bool" where
  "odd_score hs = (\<exists>c r s. ScoredHit c r s \<in> set hs \<and> (\<forall>q. s \<noteq> Finite q))"

lemma chunks_loop_error:
  "chunks_loop hs d = Inl e \<Longrightarrow> \<forall>i c. map_of d i = Some c \<longrightarrow> i = ChunkUuid (rc_chunk c) \<Longrightarrow>
     \<exists>c r s c'. ScoredHit c r s \<in> set hs \<and> rc_chunk c' = rc_chunk c \<and> c' \<noteq> c
       \<and> ((\<exists>r' s'. ScoredHit c' r' s' \<in> set hs) \<or> map_of d (ChunkUuid (rc_chunk c)) = Some c')"
proof (induction hs d rule: chunks_loop.induct)
  case (3 c r s hs d)
  show ?case
  proof (cases "case map_of d (ChunkUuid (rc_chunk c)) of None \<Rightarrow> False | Some e \<Rightarrow> e \<noteq> c")
    case True
    then obtain c' where c': "map_of d (ChunkUuid (rc_chunk c)) = Some c'" "c' \<noteq> c" by (auto split: option.splits)
    moreover from c'(1) have "rc_chunk c' = rc_chunk c" using "3.prems"(2) by (metis chunk_identifier.inject(1))
    ultimately show ?thesis
      by (intro exI [of _ c] exI [of _ r] exI [of _ s] exI [of _ c']) simp
  next
    case False
    with "3.prems"(1) have rest: "chunks_loop hs (dict_set (ChunkUuid (rc_chunk c)) c d) = Inl e" by auto
    have keyed: "\<forall>i c'. map_of (dict_set (ChunkUuid (rc_chunk c)) c d) i = Some c' \<longrightarrow> i = ChunkUuid (rc_chunk c')"
      using "3.prems"(2) by simp
    from "3.IH" [OF False rest keyed] obtain c1 r1 s1 c2 where IH: "ScoredHit c1 r1 s1 \<in> set hs" "rc_chunk c2 = rc_chunk c1" "c2 \<noteq> c1"
      "(\<exists>r' s'. ScoredHit c2 r' s' \<in> set hs) \<or> map_of (dict_set (ChunkUuid (rc_chunk c)) c d) (ChunkUuid (rc_chunk c1)) = Some c2"
      by blast
    from IH(4) have "(\<exists>r' s'. ScoredHit c2 r' s' \<in> set (ScoredHit c r s # hs)) \<or> map_of d (ChunkUuid (rc_chunk c1)) = Some c2"
      by (auto split: if_splits)
    with IH(1,2,3) show ?thesis
      by (intro exI [of _ c1] exI [of _ r1] exI [of _ s1] exI [of _ c2]) simp
  qed
qed auto

lemma chunks_loop_keeps: "chunks_loop hs d = Inr chunks \<Longrightarrow> map_of d i = Some c \<Longrightarrow> map_of chunks i = Some c"
proof (induction hs d rule: chunks_loop.induct)
  case (3 c' r' s' hs d)
  have ok: "\<not> (case map_of d (ChunkUuid (rc_chunk c')) of None \<Rightarrow> False | Some e \<Rightarrow> e \<noteq> c')"
    and rest: "chunks_loop hs (dict_set (ChunkUuid (rc_chunk c')) c' d) = Inr chunks"
    using "3.prems"(1) by (simp_all split: if_splits)
  have "map_of (dict_set (ChunkUuid (rc_chunk c')) c' d) i = Some c"
    using ok "3.prems"(2) by (cases "i = ChunkUuid (rc_chunk c')") (auto split: option.splits)
  from "3.IH" [OF ok rest this] show ?case .
qed simp_all

lemma chunks_loop_result:
  "chunks_loop hs d = Inr chunks \<Longrightarrow> ScoredHit c r s \<in> set hs \<Longrightarrow> map_of chunks (ChunkUuid (rc_chunk c)) = Some c"
proof (induction hs d rule: chunks_loop.induct)
  case (3 c' r' s' hs d)
  then have rest: "chunks_loop hs (dict_set (ChunkUuid (rc_chunk c')) c' d) = Inr chunks" by (auto split: if_splits)
  have "map_of chunks (ChunkUuid (rc_chunk c')) = Some c'"
    by (rule chunks_loop_keeps [OF rest]) simp
  with 3 rest show ?case by (auto split: if_splits)
qed auto

lemma branch_score_error: "branch_score hs i r = Inl e \<Longrightarrow> odd_score hs"
  unfolding odd_score_def
  by (induction hs i r rule: branch_score.induct) (auto split: if_splits py_float.splits)

lemma mapr_error: "mapr f xs = Inl e \<Longrightarrow> \<exists>x\<in>set xs. f x = Inl e"
  by (induction xs) (auto simp: rbind_def split: sum.splits)

section \<open>The fused list\<close>

text \<open>The record the code builds of one chunk, given the best ranks and the chunks themselves.\<close>

definition fusion_of :: "ranked_input list \<Rightarrow> ranked_input list \<Rightarrow> int \<Rightarrow> fused_hit \<Rightarrow> bool" where
  "fusion_of sparse dense k f =
     (let s = least_rank sparse (fh_id f); d = least_rank dense (fh_id f); ranks = present_ranks s d
      in fh_sparse_rank f = s \<and> fh_dense_rank f = d \<and> fh_best f = Min (set ranks)
         \<and> fh_score f = sum_scores (map (\<lambda>r. reciprocal (k + r)) ranks)
         \<and> (\<forall>c r e. ScoredHit c r e \<in> set (sparse @ dense) \<longrightarrow> ChunkUuid (rc_chunk c) = fh_id f \<longrightarrow> fh_chunk f = Some c))"

lemma foldl_min_present:
  "present_ranks s d \<noteq> [] \<Longrightarrow> foldl min (hd (present_ranks s d)) (tl (present_ranks s d)) = Min (set (present_ranks s d))"
  by (auto simp: present_ranks_def map_filter_simps split: option.splits)

lemma fuse_one_result:
  assumes sp: "best_ranks sparse = Inr sr" and de: "best_ranks dense = Inr dr"
    and ch: "chunks_loop (sparse @ dense) [] = Inr chunks"
    and one: "fuse_one sparse dense k sr dr chunks i = Inr f" and i: "i \<in> hit_id ` set (sparse @ dense)"
  shows "fh_id f = i" "fusion_of sparse dense k f"
proof -
  have s: "map_of sr i = least_rank sparse i" and d: "map_of dr i = least_rank dense i"
    using best_ranks_result [OF sp] best_ranks_result [OF de] by simp_all
  from i have "least_rank sparse i \<noteq> None \<or> least_rank dense i \<noteq> None" by (auto simp: least_rank_None)
  then have ne: "present_ranks (least_rank sparse i) (least_rank dense i) \<noteq> []"
    by (auto simp: present_ranks_def map_filter_simps split: option.splits)
  from one show id: "fh_id f = i" by (auto simp: fuse_one_def Let_def)
  have "\<forall>c r e. ScoredHit c r e \<in> set (sparse @ dense) \<longrightarrow> ChunkUuid (rc_chunk c) = i \<longrightarrow> map_of chunks i = Some c"
    using chunks_loop_result [OF ch] by blast
  with one ne show "fusion_of sparse dense k f"
    unfolding fusion_of_def fuse_one_def Let_def s d by (auto simp: foldl_min_present)
qed

lemma rrf_fuse_parts:
  assumes "rrf_fuse sparse dense k = Inr fused"
  obtains sr dr chunks fs where "0 \<le> k" "best_ranks sparse = Inr sr" "best_ranks dense = Inr dr"
    "chunks_loop (sparse @ dense) [] = Inr chunks"
    "mapr (fuse_one sparse dense k sr dr chunks) (dict_fromkeys (map fst sr @ map fst dr)) = Inr fs"
    "fused = sort_key fused_key fs" "set (dict_fromkeys (map fst sr @ map fst dr)) = hit_id ` set (sparse @ dense)"
proof -
  from assms obtain sr dr chunks fs where *: "0 \<le> k" "best_ranks sparse = Inr sr" "best_ranks dense = Inr dr"
    "chunks_loop (sparse @ dense) [] = Inr chunks"
    "mapr (fuse_one sparse dense k sr dr chunks) (dict_fromkeys (map fst sr @ map fst dr)) = Inr fs"
    "fused = sort_key fused_key fs"
    unfolding rrf_fuse_def by (auto split: if_splits)
  have "set (dict_fromkeys (map fst sr @ map fst dr)) = hit_id ` set (sparse @ dense)"
    using best_ranks_result(2) [OF *(2)] best_ranks_result(2) [OF *(3)] by auto
  with * show ?thesis by (rule that)
qed

lemma mapr_map_fst:
  "mapr f xs = Inr ys \<Longrightarrow> \<forall>x\<in>set xs. \<forall>y. f x = Inr y \<longrightarrow> g y = x \<Longrightarrow> map g ys = xs"
  by (induction xs arbitrary: ys) auto

lemma rrf_fuse_ids:
  assumes "rrf_fuse sparse dense k = Inr fused"
  shows "distinct (map fh_id fused)" "set (map fh_id fused) = hit_id ` set (sparse @ dense)"
    "\<forall>f\<in>set fused. fusion_of sparse dense k f"
proof -
  from assms obtain sr dr chunks fs where *: "0 \<le> k" "best_ranks sparse = Inr sr" "best_ranks dense = Inr dr"
    "chunks_loop (sparse @ dense) [] = Inr chunks"
    "mapr (fuse_one sparse dense k sr dr chunks) (dict_fromkeys (map fst sr @ map fst dr)) = Inr fs"
    "fused = sort_key fused_key fs" "set (dict_fromkeys (map fst sr @ map fst dr)) = hit_id ` set (sparse @ dense)"
    by (rule rrf_fuse_parts)
  note one = fuse_one_result [OF *(2,3,4)]
  have ids: "map fh_id fs = dict_fromkeys (map fst sr @ map fst dr)"
    using *(5,7) one(1) by (intro mapr_map_fst) blast+
  have same: "set fused = set fs" using *(6) by simp
  have "distinct (map fh_id fs)" by (simp only: ids distinct_dict_fromkeys)
  with same show "distinct (map fh_id fused)" unfolding distinct_map using *(6) by simp
  show "set (map fh_id fused) = hit_id ` set (sparse @ dense)"
    using same arg_cong [OF ids, of set] *(7) by simp
  show "\<forall>f\<in>set fused. fusion_of sparse dense k f"
    using mapr_set [OF *(5)] same *(7) one(2) by blast
qed

lemma fuse_one_error: "fuse_one sparse dense k sr dr chunks i = Inl e \<Longrightarrow> odd_score (sparse @ dense)"
  by (auto simp: fuse_one_def Let_def rbind_eq_Inl odd_score_def
    dest!: branch_score_error [unfolded odd_score_def] split: if_splits)

lemma rrf_fuse_error:
  assumes "rrf_fuse sparse dense k = Inl e"
  shows "k < 0 \<or> (\<exists>h\<in>set (sparse @ dense). hit_rank h < 1) \<or> disagree (sparse @ dense) \<or> odd_score (sparse @ dense)"
proof -
  have dis: "chunks_loop (sparse @ dense) [] = Inl e' \<Longrightarrow> disagree (sparse @ dense)" for e'
    using chunks_loop_error [of "sparse @ dense" "[]" e'] unfolding disagree_def by (simp, metis)
  consider "k < 0" | e' hs where "hs = sparse \<or> hs = dense" "best_ranks hs = Inl e'"
    | e' where "chunks_loop (sparse @ dense) [] = Inl e'"
    | sr dr chunks xs e' where "mapr (fuse_one sparse dense k sr dr chunks) xs = Inl e'"
    using assms unfolding rrf_fuse_def by (auto simp: rbind_eq_Inl split: if_splits)
  then show ?thesis
  proof cases
    case 2
    then show ?thesis unfolding best_ranks_def by (auto dest!: ranks_loop_error)
  next
    case 4
    then show ?thesis by (auto dest!: mapr_error fuse_one_error)
  qed (use dis in blast)+
qed

lemma best_rank_mono:
  assumes "fusion_of sparse dense k f" "fusion_of sparse dense k g" "fh_id g \<in> hit_id ` set (sparse @ dense)"
    and "rank_le (fh_sparse_rank f) (fh_sparse_rank g)" "rank_le (fh_dense_rank f) (fh_dense_rank g)"
  shows "fh_best f \<le> fh_best g"
proof -
  have "fh_sparse_rank g \<noteq> None \<or> fh_dense_rank g \<noteq> None"
    using assms(2,3) by (auto simp: fusion_of_def Let_def least_rank_None)
  moreover have "fh_best f = Min (set (present_ranks (fh_sparse_rank f) (fh_dense_rank f)))"
    "fh_best g = Min (set (present_ranks (fh_sparse_rank g) (fh_dense_rank g)))"
    using assms(1,2) by (simp_all add: fusion_of_def Let_def)
  ultimately show ?thesis using assms(4,5)
    by (auto simp: rank_le_def present_ranks_def map_filter_simps split: option.splits)
qed

section \<open>What the fusion promises\<close>

text \<open>
  The fusion lists every chunk of the two hit lists once and nothing else, in the order of
  falling score, then best rank, then identifier; a chunk carries the best of its ranks in each
  list and no rank where it is absent, the rounded sum of the reciprocals of these ranks, and the
  one copy of the chunk that all hits show. It fails only for a negative constant, a rank below
  one, two different copies of a chunk, or a score that is not a finite number.
\<close>

theorem fusion_lists_every_hit_once:
  "case rrf_fuse sparse dense k of
     Inl e \<Rightarrow> k < 0 \<or> (\<exists>h\<in>set (sparse @ dense). hit_rank h < 1) \<or> disagree (sparse @ dense) \<or> odd_score (sparse @ dense)
   | Inr fused \<Rightarrow> distinct (map fh_id fused) \<and> set (map fh_id fused) = hit_id ` set (sparse @ dense)
       \<and> sorted (map fused_key fused) \<and> (\<forall>f\<in>set fused. fusion_of sparse dense k f)"
proof (cases "rrf_fuse sparse dense k")
  case (Inl e)
  with rrf_fuse_error show ?thesis by simp
next
  case (Inr fused)
  then have "sorted (map fused_key fused)" by (rule rrf_fuse_parts) simp
  with rrf_fuse_ids [OF Inr] show ?thesis by (simp only: Inr sum.case simp_thms)
qed

text \<open>Two lists in which \<open>b\<close> stands above \<open>a\<close>, the second in one of them only.\<close>

definition sample_sparse :: "ranked_input list" where
  "sample_sparse = [RankedHit (ChunkText [97]) 2, RankedHit (ChunkText [98]) 1, RankedHit (ChunkText [97]) 5]"

definition sample_dense :: "ranked_input list" where
  "sample_dense = [RankedHit (ChunkText [98]) 2]"

lemma sample_fuses:
  obtains fused where "rrf_fuse sample_sparse sample_dense 60 = Inr fused"
  using rrf_fuse_error [of sample_sparse sample_dense 60]
  by (cases "rrf_fuse sample_sparse sample_dense 60")
    (auto simp: sample_sparse_def sample_dense_def disagree_def odd_score_def)

lemma sample_ranks:
  "least_rank sample_sparse (ChunkText [97]) = Some 2" "least_rank sample_dense (ChunkText [97]) = None"
  "least_rank sample_sparse (ChunkText [98]) = Some 1" "least_rank sample_dense (ChunkText [98]) = Some 2"
  by (simp_all add: sample_sparse_def sample_dense_def least_rank_Cons lower_rank_def)

theorem fusion_lists_every_hit_once_witness:
  "\<exists>fused. rrf_fuse sample_sparse sample_dense 60 = Inr fused
     \<and> set (map fh_id fused) = {ChunkText [97], ChunkText [98]}
     \<and> (\<forall>f\<in>set fused. fh_id f = ChunkText [97] \<longrightarrow> fh_best f = 2 \<and> fh_sparse_rank f = Some 2)"
proof -
  obtain fused where f: "rrf_fuse sample_sparse sample_dense 60 = Inr fused" by (rule sample_fuses)
  note all = fusion_lists_every_hit_once [where sparse = sample_sparse and dense = sample_dense and k = 60, unfolded f sum.case]
  have "hit_id ` set (sample_sparse @ sample_dense) = {ChunkText [97], ChunkText [98]}"
    by (auto simp: sample_sparse_def sample_dense_def)
  moreover have "fh_best f = 2 \<and> fh_sparse_rank f = Some 2" if "f \<in> set fused" "fh_id f = ChunkText [97]" for f
  proof -
    have "fusion_of sample_sparse sample_dense 60 f" using all that(1) by blast
    then show ?thesis using that(2) by (simp add: fusion_of_def sample_ranks present_ranks_def map_filter_simps Let_def)
  qed
  moreover have "set (map fh_id fused) = hit_id ` set (sample_sparse @ sample_dense)" using all by (elim conjE)
  ultimately show ?thesis using f by (intro exI [of _ fused]) simp
qed

text \<open>
  A chunk that stands at least as high as another in both lists, absence counting as below
  every rank, never loses against it: if the other one is listed first, the two have the same score
  and the same best rank and the identifiers decide. Rounding the scores to doubles does not
  break this.
\<close>

theorem higher_ranked_is_listed_first:
  assumes "rrf_fuse sparse dense k = Inr fused" "n < m" "m < length fused"
    "rank_le (fh_sparse_rank (fused ! m)) (fh_sparse_rank (fused ! n))"
    "rank_le (fh_dense_rank (fused ! m)) (fh_dense_rank (fused ! n))"
  shows "fh_score (fused ! n) = fh_score (fused ! m) \<and> fh_best (fused ! n) = fh_best (fused ! m)
    \<and> identifier_text (fh_id (fused ! n)) \<le> identifier_text (fh_id (fused ! m))"
proof -
  let ?a = "fused ! m" and ?b = "fused ! n"
  have k: "0 \<le> k" and sorted: "sorted (map fused_key fused)" using assms(1) by (rule rrf_fuse_parts, simp)+
  have ranks: "\<forall>h\<in>set (sparse @ dense). 1 \<le> hit_rank h"
    using assms(1) by (rule rrf_fuse_parts) (auto dest: best_ranks_result(3))
  have of: "fusion_of sparse dense k f" if "f \<in> set fused" for f using rrf_fuse_ids(3) [OF assms(1)] that by blast
  have ok: "rank_ok (fh_sparse_rank f)" "rank_ok (fh_dense_rank f)" if "f \<in> set fused" for f
    using of [OF that] ranks by (auto simp: fusion_of_def Let_def intro!: least_rank_ok)
  have mem: "?a \<in> set fused" "?b \<in> set fused" using assms(2,3) by simp_all
  have ids: "fh_id f \<in> hit_id ` set (sparse @ dense)" if "f \<in> set fused" for f
    using rrf_fuse_ids(2) [OF assms(1)] that by auto
  have "fused_key ?b \<le> fused_key ?a" using sorted_nth_mono [OF sorted, of n m] assms(2,3) by simp
  moreover have "fh_score ?b \<le> fh_score ?a"
    using score_mono [OF k ok(1) [OF mem(1)] ok(2) [OF mem(1)] ok(1) [OF mem(2)] ok(2) [OF mem(2)] assms(4,5)]
      of [OF mem(1)] of [OF mem(2)] by (simp add: fusion_of_def Let_def)
  moreover have "fh_best ?a \<le> fh_best ?b"
    using best_rank_mono [OF of [OF mem(1)] of [OF mem(2)] ids [OF mem(2)]] assms(4,5) by simp
  ultimately show ?thesis by (auto simp: fused_key_def less_eq_prod_simp)
qed

theorem higher_ranked_is_listed_first_witness:
  "\<exists>fused. rrf_fuse sample_sparse sample_dense 60 = Inr fused
     \<and> (\<forall>n m. n < m \<longrightarrow> m < length fused \<longrightarrow> \<not> (fh_id (fused ! m) = ChunkText [98] \<and> fh_id (fused ! n) = ChunkText [97]))"
proof -
  obtain fused where f: "rrf_fuse sample_sparse sample_dense 60 = Inr fused" by (rule sample_fuses)
  { fix n m assume *: "n < m" "m < length fused" "fh_id (fused ! m) = ChunkText [98]" "fh_id (fused ! n) = ChunkText [97]"
    have of: "fusion_of sample_sparse sample_dense 60 (fused ! j)" if "j < length fused" for j
      using rrf_fuse_ids(3) [OF f] that by simp
    have "fh_sparse_rank (fused ! m) = Some 1" "fh_dense_rank (fused ! m) = Some 2" "fh_sparse_rank (fused ! n) = Some 2" "fh_dense_rank (fused ! n) = None"
      "fh_best (fused ! m) = 1" "fh_best (fused ! n) = 2"
      using of [of m] of [of n] * by (simp_all add: fusion_of_def Let_def sample_ranks present_ranks_def map_filter_simps)
    then have False
      using higher_ranked_is_listed_first [OF f *(1,2)] by (simp add: rank_le_def) }
  with f show ?thesis by blast
qed

end
