(* ===== verification/Search_Scope.thy ===== *)
theory Search_Scope
  imports Asset_Library Rag_Documents Py_Json "HOL-Library.Product_Lexorder"
begin

text \<open>
  Which documents a search may see: the selection of documents (\<^verbatim>\<open>retrieval/selection.py\<close>), the
  queries of the scope repository and the resolver (\<^verbatim>\<open>retrieval/scope.py\<close>), on the tables of the
  workspaces, the asset library, the projections and the index builds.
\<close>

section \<open>Tables\<close>

text \<open>
  \<open>ib_status\<close> is a nullable text column; a projection row carries what the domain's \<open>rag_projection\<close>
  does.
\<close>

record index_build =
  ib_id :: uuid
  ib_projection :: uuid
  ib_indexing_profile :: uuid
  ib_processing_profile :: uuid
  ib_status :: "pystr option"
  ib_active :: bool

record search_db =
  sd_lib :: library_db
  sd_projections :: "rag_projection list"
  sd_builds :: "index_build list"

record document_identity =
  di_document :: uuid
  di_version :: uuid
  di_projection :: uuid
  di_build :: uuid

record resolved_scope =
  sc_workspaces :: "uuid list"
  sc_folders :: "uuid list"
  sc_active_only :: bool
  sc_ready_only :: bool
  sc_versions :: "uuid list"
  sc_builds :: "uuid list"
  sc_documents :: "uuid list option"
  sc_selected :: "document_identity list"
  sc_fingerprint :: "pystr option"
  sc_authorized :: "document_identity list"

section \<open>Selecting documents\<close>

text \<open>\<^verbatim>\<open>sorted(set(xs), key=str)\<close>.\<close>

definition sorted_ids :: "uuid list \<Rightarrow> uuid list" where
  "sorted_ids xs = sort_key uuid_text (dict_fromkeys xs)"

definition normalize_document_ids :: "uuid list option \<Rightarrow> int \<Rightarrow> uuid list option res" where
  "normalize_document_ids ids max_count =
     (case ids of
        None \<Rightarrow> Inr None
      | Some xs \<Rightarrow>
          if int (length xs) > max_count * 10 then Inl (AppError ''document_selection_limit_exceeded'' 422)
          else
            let normalized = sorted_ids xs
            in if normalized = [] then Inl (AppError ''document_selection_empty'' 422)
               else if int (length normalized) > max_count then Inl (AppError ''document_selection_limit_exceeded'' 422)
               else Inr (Some normalized))"

definition selection_payload :: "document_identity list \<Rightarrow> json" where
  "selection_payload ids =
     JArr (map (\<lambda>i. JObj [(lit ''asset_version_id'', JStr (uuid_text (di_version i))),
         (lit ''document_id'', JStr (uuid_text (di_document i))),
         (lit ''index_build_id'', JStr (uuid_text (di_build i))),
         (lit ''projection_id'', JStr (uuid_text (di_projection i)))])
       (sort_key (\<lambda>i. uuid_text (di_document i)) ids))"

text \<open>
  The texts are hexadecimal digits and dashes, so that \<^verbatim>\<open>ensure_ascii\<close> escapes nothing and
  \<^verbatim>\<open>encode("ascii")\<close> is the list of the code points.
\<close>

definition selected_scope_fingerprint :: "(nat list \<Rightarrow> pystr) \<Rightarrow> document_identity list \<Rightarrow> pystr" where
  "selected_scope_fingerprint sha256 ids = sha256 (dumps (selection_payload ids))"

section \<open>The repository\<close>

record workspace_access =
  wa_workspace :: workspace_row
  wa_member :: bool

text \<open>The rows of the outer join with the memberships of the actor.\<close>

definition access_rows :: "ws_db \<Rightarrow> int \<Rightarrow> uuid \<Rightarrow> uuid list \<Rightarrow> (uuid \<times> workspace_access) list" where
  "access_rows db now actor wids =
     concat (map (\<lambda>w. (case filter (\<lambda>m. mb_workspace m = wr_id w \<and> mb_user m = actor) (wd_members db) of
           [] \<Rightarrow> [(wr_id w, \<lparr>wa_workspace = w, wa_member = False\<rparr>)]
         | ms \<Rightarrow> map (\<lambda>_. (wr_id w, \<lparr>wa_workspace = w, wa_member = True\<rparr>)) ms))
       (filter (\<lambda>w. wr_id w \<in> set wids \<and> workspace_read_allowed db now actor w) (wd_workspaces db)))"

definition in_order :: "('k \<times> 'v) list \<Rightarrow> 'k list \<Rightarrow> 'v list" where
  "in_order rows ks = List.map_filter (map_of (rev rows)) ks"

definition find_workspace_access :: "search_db \<Rightarrow> int \<Rightarrow> uuid \<Rightarrow> uuid list \<Rightarrow> workspace_access list" where
  "find_workspace_access db now actor wids =
     (if wids = [] then [] else in_order (access_rows (lb_ws (sd_lib db)) now actor wids) wids)"

definition find_folder_workspaces :: "search_db \<Rightarrow> uuid list \<Rightarrow> (uuid \<times> uuid) list" where
  "find_folder_workspaces db fids =
     (if fids = [] then []
      else in_order (map (\<lambda>f. (fo_id f, (fo_id f, fo_workspace f)))
             (filter (\<lambda>f. fo_id f \<in> set fids) (lb_folders (sd_lib db)))) fids)"

definition find_document_locations :: "search_db \<Rightarrow> uuid list \<Rightarrow> (uuid \<times> uuid \<times> uuid option) list" where
  "find_document_locations db ids =
     (if ids = [] then []
      else in_order (map (\<lambda>d. (do_id d, (do_id d, do_workspace d, do_folder d)))
             (filter (\<lambda>d. do_id d \<in> set ids) (lb_documents (sd_lib db)))) ids)"

text \<open>One row of the join of document, version, projection and build, and the conditions on it.\<close>

definition searchable_row ::
  "uuid list \<Rightarrow> uuid list \<Rightarrow> uuid \<Rightarrow> uuid list option \<Rightarrow> uuid option
     \<Rightarrow> document \<Rightarrow> asset_version \<Rightarrow> rag_projection \<Rightarrow> index_build \<Rightarrow> bool" where
  "searchable_row wids fids indexing ids processing d v p b \<longleftrightarrow>
     do_id d = av_document v \<and> rp_version p = av_id v \<and> ib_projection b = rp_id p
     \<and> do_workspace d \<in> set wids \<and> do_active d = Some (av_id v) \<and> av_status v = READY
     \<and> rp_indexing_profile p = indexing \<and> rp_status p = PROJECTION_READY
     \<and> ib_indexing_profile b = indexing \<and> ib_status b = Some (lit ''ready'') \<and> ib_active b
     \<and> (fids \<noteq> [] \<longrightarrow> (case do_folder d of None \<Rightarrow> False | Some f \<Rightarrow> f \<in> set fids))
     \<and> (case ids of None \<Rightarrow> True | Some xs \<Rightarrow> do_id d \<in> set xs)
     \<and> (case processing of None \<Rightarrow> True | Some q \<Rightarrow> rp_processing_profile p = q \<and> ib_processing_profile b = q)"

definition row_identity :: "document \<Rightarrow> asset_version \<Rightarrow> rag_projection \<Rightarrow> index_build \<Rightarrow> document_identity" where
  "row_identity d v p b = \<lparr>di_document = do_id d, di_version = av_id v, di_projection = rp_id p, di_build = ib_id b\<rparr>"

definition find_searchable_lifecycle ::
  "search_db \<Rightarrow> uuid list \<Rightarrow> uuid list \<Rightarrow> uuid \<Rightarrow> uuid list option \<Rightarrow> uuid option \<Rightarrow> document_identity list" where
  "find_searchable_lifecycle db wids fids indexing ids processing =
     (if wids = [] then []
      else sort_key (\<lambda>i. (uuid_num (di_version i), uuid_num (di_build i)))
        (concat (map (\<lambda>d. concat (map (\<lambda>v. concat (map (\<lambda>p.
           map (row_identity d v p) (filter (searchable_row wids fids indexing ids processing d v p) (sd_builds db)))
           (sd_projections db))) (lb_versions (sd_lib db)))) (lb_documents (sd_lib db)))))"

section \<open>The resolver\<close>

definition access_authorized :: "int \<Rightarrow> uuid \<Rightarrow> workspace_access \<Rightarrow> bool" where
  "access_authorized now actor a =
     (let w = wa_workspace a
      in if \<not> wa_member a then False
         else if wr_kind w = PERSONAL then wr_created_by w = actor
         else if wr_kind w = TEMPORARY then (case wr_expires_at w of None \<Rightarrow> False | Some t \<Rightarrow> t > now)
         else True)"

text \<open>What a request asks for; the two instants are the clocks of the database and of the server.\<close>

record scope_request =
  rq_actor :: uuid
  rq_workspaces :: "uuid list"
  rq_folders :: "uuid list"
  rq_indexing :: uuid
  rq_documents :: "uuid list option"
  rq_processing :: "uuid option"

record scope_env =
  se_sha256 :: "nat list \<Rightarrow> pystr"
  se_max_count :: int

definition selection_misplaced :: "search_db \<Rightarrow> uuid list \<Rightarrow> uuid list \<Rightarrow> uuid list \<Rightarrow> bool" where
  "selection_misplaced db wids fids ids =
     (let locations = map_of (rev (map (\<lambda>(i, w, f). (i, (w, f))) (find_document_locations db ids)))
      in list_ex (\<lambda>i. (case locations i of
            None \<Rightarrow> True
          | Some (w, f) \<Rightarrow> w \<notin> set wids \<or> (fids \<noteq> [] \<and> (case f of None \<Rightarrow> True | Some g \<Rightarrow> g \<notin> set fids)))) ids)"

definition workspaces_refused :: "search_db \<Rightarrow> int \<Rightarrow> int \<Rightarrow> uuid \<Rightarrow> uuid list \<Rightarrow> bool" where
  "workspaces_refused db db_now now actor wids =
     (let access = map_of (rev (map (\<lambda>a. (wr_id (wa_workspace a), a)) (find_workspace_access db db_now actor wids)))
      in list_ex (\<lambda>w. case access w of None \<Rightarrow> True | Some a \<Rightarrow> \<not> access_authorized now actor a) wids)"

definition folders_refused :: "search_db \<Rightarrow> uuid list \<Rightarrow> uuid list \<Rightarrow> bool" where
  "folders_refused db wids fids =
     (let folders = map_of (rev (find_folder_workspaces db fids))
      in list_ex (\<lambda>f. case folders f of None \<Rightarrow> True | Some w \<Rightarrow> w \<notin> set wids) fids)"

definition scope_of ::
  "scope_env \<Rightarrow> uuid list \<Rightarrow> uuid list \<Rightarrow> uuid list option \<Rightarrow> document_identity list \<Rightarrow> resolved_scope" where
  "scope_of E wids fids selected identities =
     \<lparr>sc_workspaces = wids, sc_folders = fids, sc_active_only = True, sc_ready_only = True,
      sc_versions = dict_fromkeys (map di_version identities),
      sc_builds = dict_fromkeys (map di_build identities),
      sc_documents = selected,
      sc_selected = (if selected \<noteq> None then identities else []),
      sc_fingerprint = (if selected \<noteq> None then Some (selected_scope_fingerprint (se_sha256 E) identities) else None),
      sc_authorized = identities\<rparr>"

definition resolve_scope :: "scope_env \<Rightarrow> search_db \<Rightarrow> int \<Rightarrow> int \<Rightarrow> scope_request \<Rightarrow> resolved_scope res" where
  "resolve_scope E db db_now now q =
     (let wids = dict_fromkeys (rq_workspaces q); fids = dict_fromkeys (rq_folders q)
      in if wids = [] then Inl (AppError ''search_scope_empty'' 422)
         else if workspaces_refused db db_now now (rq_actor q) wids then Inl resource_not_found
         else if folders_refused db wids fids then Inl resource_not_found
         else
           rbind (normalize_document_ids (rq_documents q) (se_max_count E)) (\<lambda>selected.
             if (case selected of None \<Rightarrow> False | Some ids \<Rightarrow> selection_misplaced db wids fids ids)
             then Inl resource_not_found
             else if selected \<noteq> None \<and> rq_processing q = None
             then Inl (AppError ''document_processing_profile_missing'' 409)
             else
               let identities = sort_key (\<lambda>i. uuid_text (di_document i))
                     (find_searchable_lifecycle db wids fids (rq_indexing q) selected (rq_processing q))
               in if (case selected of None \<Rightarrow> False | Some ids \<Rightarrow> map di_document identities \<noteq> ids)
                  then Inl (AppError ''selected_documents_not_ready'' 409)
                  else Inr (scope_of E wids fids selected identities)))"

definition require_authorized_identities :: "document_identity list \<Rightarrow> resolved_scope \<Rightarrow> unit res" where
  "require_authorized_identities required current =
     (if list_all (\<lambda>i. i \<in> set (sc_authorized current)) required then Inr ()
      else Inl (AppError ''conversation_scope_changed'' 409))"

section \<open>What the queries find\<close>

lemma map_of_rev_SomeD: "map_of (rev rows) k = Some v \<Longrightarrow> (k, v) \<in> set rows"
  by (metis map_of_SomeD set_rev)

lemma in_order_set: "v \<in> set (in_order rows ks) \<Longrightarrow> \<exists>k\<in>set ks. (k, v) \<in> set rows"
  unfolding in_order_def by (induction ks) (auto simp: map_filter_simps dest: map_of_rev_SomeD split: option.splits)

lemma access_rows_readable:
  assumes "(k, a) \<in> set (access_rows db now actor wids)"
  shows "k = wr_id (wa_workspace a)" "k \<in> set wids" "wa_workspace a \<in> set (wd_workspaces db)"
    "workspace_read_allowed db now actor (wa_workspace a)"
proof -
  let ?ms = "\<lambda>w. filter (\<lambda>m. mb_workspace m = wr_id w \<and> mb_user m = actor) (wd_members db)"
  from assms obtain w where w: "w \<in> set (wd_workspaces db)" "wr_id w \<in> set wids" "workspace_read_allowed db now actor w"
    "(k, a) \<in> set (case ?ms w of [] \<Rightarrow> [(wr_id w, \<lparr>wa_workspace = w, wa_member = False\<rparr>)]
         | ms \<Rightarrow> map (\<lambda>_. (wr_id w, \<lparr>wa_workspace = w, wa_member = True\<rparr>)) ms)"
    unfolding access_rows_def by auto
  from w(4) have "k = wr_id w \<and> wa_workspace a = w" by (cases "?ms w") auto
  with w(1-3) show "k = wr_id (wa_workspace a)" "k \<in> set wids" "wa_workspace a \<in> set (wd_workspaces db)"
    "workspace_read_allowed db now actor (wa_workspace a)" by simp_all
qed

lemma find_access_readable:
  assumes "a \<in> set (find_workspace_access db now actor wids)"
  shows "wr_id (wa_workspace a) \<in> set wids" "wa_workspace a \<in> set (wd_workspaces (lb_ws (sd_lib db)))"
    "workspace_read_allowed (lb_ws (sd_lib db)) now actor (wa_workspace a)"
proof -
  from assms obtain k where "(k, a) \<in> set (access_rows (lb_ws (sd_lib db)) now actor wids)"
    by (auto simp: find_workspace_access_def split: if_splits dest: in_order_set)
  from access_rows_readable [OF this] show "wr_id (wa_workspace a) \<in> set wids"
    "wa_workspace a \<in> set (wd_workspaces (lb_ws (sd_lib db)))" "workspace_read_allowed (lb_ws (sd_lib db)) now actor (wa_workspace a)"
    by simp_all
qed

lemma find_searchable_set:
  "i \<in> set (find_searchable_lifecycle db wids fids indexing ids processing) \<longleftrightarrow>
     (\<exists>d\<in>set (lb_documents (sd_lib db)). \<exists>v\<in>set (lb_versions (sd_lib db)). \<exists>p\<in>set (sd_projections db). \<exists>b\<in>set (sd_builds db).
        searchable_row wids fids indexing ids processing d v p b \<and> i = row_identity d v p b)"
  by (auto simp: find_searchable_lifecycle_def searchable_row_def)

lemma set_sorted_ids [simp]: "set (sorted_ids xs) = set xs"
  by (simp add: sorted_ids_def)

lemma distinct_sorted_ids [simp]: "distinct (sorted_ids xs)"
  by (simp add: sorted_ids_def distinct_sort)

lemma normalize_Inr:
  assumes "normalize_document_ids ids n = Inr (Some xs)"
  obtains ys where "ids = Some ys" "xs = sorted_ids ys" "ys \<noteq> []" "int (length xs) \<le> n"
proof -
  from assms obtain ys where ys: "ids = Some ys" "xs = sorted_ids ys" "xs \<noteq> []" "int (length xs) \<le> n"
    by (auto simp: normalize_document_ids_def Let_def split: option.splits if_splits)
  from ys(2,3) have "set ys \<noteq> {}" using set_sorted_ids [of ys] by (metis set_empty)
  with ys that show thesis by simp
qed

lemma normalize_None_iff: "normalize_document_ids ids n = Inr None \<longleftrightarrow> ids = None"
  by (auto simp: normalize_document_ids_def Let_def split: option.splits if_splits)

lemma list_ex_noneD: "\<not> list_ex (\<lambda>x. case f x of None \<Rightarrow> True | Some y \<Rightarrow> p x y) xs \<Longrightarrow> x \<in> set xs \<Longrightarrow> \<exists>y. f x = Some y \<and> \<not> p x y"
  by (auto simp: list_ex_iff split: option.splits)

lemma resolve_scope_Inr:
  assumes "resolve_scope E db db_now now q = Inr s"
  obtains selected identities where
    "s = scope_of E (dict_fromkeys (rq_workspaces q)) (dict_fromkeys (rq_folders q)) selected identities"
    "rq_workspaces q \<noteq> []"
    "\<not> workspaces_refused db db_now now (rq_actor q) (dict_fromkeys (rq_workspaces q))"
    "\<not> folders_refused db (dict_fromkeys (rq_workspaces q)) (dict_fromkeys (rq_folders q))"
    "normalize_document_ids (rq_documents q) (se_max_count E) = Inr selected"
    "identities = sort_key (\<lambda>i. uuid_text (di_document i)) (find_searchable_lifecycle db (dict_fromkeys (rq_workspaces q))
       (dict_fromkeys (rq_folders q)) (rq_indexing q) selected (rq_processing q))"
    "\<forall>ids. selected = Some ids \<longrightarrow> map di_document identities = ids \<and> rq_processing q \<noteq> None"
proof -
  have "rq_workspaces q \<noteq> []" using assms by (auto simp: resolve_scope_def Let_def dict_fromkeys_id)
  then show thesis
    using assms that unfolding resolve_scope_def Let_def
    by (cases "normalize_document_ids (rq_documents q) (se_max_count E)") (auto split: if_splits option.splits)
qed

lemma workspaces_accepted:
  assumes "\<not> workspaces_refused db db_now now actor wids" "w \<in> set wids"
  shows "\<exists>row\<in>set (wd_workspaces (lb_ws (sd_lib db))). wr_id row = w
    \<and> workspace_read_allowed (lb_ws (sd_lib db)) db_now actor row \<and> workspace_is_active now row"
proof -
  from list_ex_noneD [OF assms [unfolded workspaces_refused_def Let_def]] obtain a where
    a: "map_of (rev (map (\<lambda>a. (wr_id (wa_workspace a), a)) (find_workspace_access db db_now actor wids))) w = Some a"
      "access_authorized now actor a" by blast
  from map_of_rev_SomeD [OF a(1)] have "a \<in> set (find_workspace_access db db_now actor wids)" "wr_id (wa_workspace a) = w" by auto
  with find_access_readable [of a] a(2) show ?thesis
    by (intro bexI [of _ "wa_workspace a"]) (auto simp: access_authorized_def workspace_is_active_def Let_def split: if_splits)
qed

lemma folders_accepted:
  assumes "\<not> folders_refused db wids fids" "f \<in> set fids"
  shows "\<exists>row\<in>set (lb_folders (sd_lib db)). fo_id row = f \<and> fo_workspace row \<in> set wids"
proof -
  from list_ex_noneD [OF assms [unfolded folders_refused_def Let_def]] obtain w where
    w: "map_of (rev (find_folder_workspaces db fids)) f = Some w" "w \<in> set wids" by blast
  from map_of_rev_SomeD [OF w(1)] have "(f, w) \<in> set (find_folder_workspaces db fids)" .
  with w(2) show ?thesis by (auto simp: find_folder_workspaces_def split: if_splits dest!: in_order_set)
qed

lemma unreadable_refused:
  assumes "w \<in> set wids"
    and "\<And>row. row \<in> set (wd_workspaces (lb_ws (sd_lib db))) \<Longrightarrow> wr_id row = w
      \<Longrightarrow> \<not> workspace_read_allowed (lb_ws (sd_lib db)) db_now actor row"
  shows "workspaces_refused db db_now now actor wids"
  using workspaces_accepted assms by blast

lemma lookup_present: "k \<in> fst ` set rows \<Longrightarrow> \<exists>v. map_of rows k = Some v"
  by (cases "map_of rows k") (auto simp: map_of_eq_None_iff)

lemma in_order_lookup:
  assumes "\<And>k v. (k, v) \<in> set rows \<Longrightarrow> key v = k" "k \<in> set ks" "k \<in> fst ` set rows"
  shows "\<exists>v. map_of (rev (map (\<lambda>v. (key v, v)) (in_order rows ks))) k = Some v \<and> (k, v) \<in> set rows"
proof -
  from assms(3) have "k \<in> fst ` set (rev rows)" by simp
  from lookup_present [OF this] obtain v where v: "map_of (rev rows) k = Some v" ..
  then have m: "(k, v) \<in> set rows" by (rule map_of_rev_SomeD)
  from v assms(2) have "v \<in> set (in_order rows ks)"
    unfolding in_order_def by (induction ks) (auto simp: map_filter_simps split: option.splits)
  then have "k \<in> fst ` set (rev (map (\<lambda>v. (key v, v)) (in_order rows ks)))"
    using assms(1) [OF m] by (auto simp: image_image)
  from lookup_present [OF this] obtain u where u: "map_of (rev (map (\<lambda>v. (key v, v)) (in_order rows ks))) k = Some u" ..
  from map_of_rev_SomeD [OF u] have "u \<in> set (in_order rows ks)" "key u = k" by auto
  from in_order_set [OF this(1)] assms(1) this(2) have "(k, u) \<in> set rows" by blast
  with u show ?thesis by blast
qed

lemma readable_accepted:
  assumes k: "keyed wr_id (wd_workspaces (lb_ws (sd_lib db)))"
    and all: "\<And>w. w \<in> set wids \<Longrightarrow> \<exists>row\<in>set (wd_workspaces (lb_ws (sd_lib db))). wr_id row = w
      \<and> workspace_read_allowed (lb_ws (sd_lib db)) db_now actor row \<and> workspace_is_active now row"
  shows "\<not> workspaces_refused db db_now now actor wids"
proof
  let ?ws = "lb_ws (sd_lib db)"
  let ?rows = "access_rows ?ws db_now actor wids"
  assume "workspaces_refused db db_now now actor wids"
  then obtain w where w: "w \<in> set wids" "case map_of (rev (map (\<lambda>a. (wr_id (wa_workspace a), a)) (find_workspace_access db db_now actor wids))) w of
      None \<Rightarrow> True | Some a \<Rightarrow> \<not> access_authorized now actor a"
    by (auto simp: workspaces_refused_def Let_def list_ex_iff)
  then have found: "find_workspace_access db db_now actor wids = in_order ?rows wids" by (auto simp: find_workspace_access_def)
  from all [OF w(1)] obtain row where row: "row \<in> set (wd_workspaces ?ws)" "wr_id row = w"
    "workspace_read_allowed ?ws db_now actor row" "workspace_is_active now row" by blast
  let ?ms = "\<lambda>r. filter (\<lambda>m. mb_workspace m = wr_id r \<and> mb_user m = actor) (wd_members ?ws)"
  have member: "?ms r \<noteq> []" if "workspace_read_allowed ?ws db_now actor r" for r
    using that by (auto simp: workspace_read_allowed_def list_ex_iff filter_empty_conv)
  have is_member: "wa_member a" if a: "(i, a) \<in> set ?rows" for i a
  proof -
    from a obtain r where r: "workspace_read_allowed ?ws db_now actor r"
      "(i, a) \<in> set (case ?ms r of [] \<Rightarrow> [(wr_id r, \<lparr>wa_workspace = r, wa_member = False\<rparr>)]
         | ms \<Rightarrow> map (\<lambda>_. (wr_id r, \<lparr>wa_workspace = r, wa_member = True\<rparr>)) ms)"
      unfolding access_rows_def by auto
    from r(2) member [OF r(1)] show ?thesis by (cases "?ms r") auto
  qed
  have "(w, \<lparr>wa_workspace = row, wa_member = True\<rparr>) \<in> set ?rows"
  proof -
    from member [OF row(3)] obtain m ms where "?ms row = m # ms" by (cases "?ms row") auto
    then show ?thesis unfolding access_rows_def using row w(1) by (auto intro!: bexI [of _ row])
  qed
  then have "w \<in> fst ` set ?rows" by force
  with w(1) access_rows_readable(1) [symmetric]
  have "\<exists>a. map_of (rev (map (\<lambda>a. (wr_id (wa_workspace a), a)) (in_order ?rows wids))) w = Some a \<and> (w, a) \<in> set ?rows"
    by (intro in_order_lookup) blast+
  then obtain a where a: "map_of (rev (map (\<lambda>a. (wr_id (wa_workspace a), a)) (in_order ?rows wids))) w = Some a" "(w, a) \<in> set ?rows" by blast
  have same: "wa_workspace a = row"
    using keyed_eq [OF k access_rows_readable(3) [OF a(2)] row(1)] access_rows_readable(1) [OF a(2)] row(2) by simp
  have "access_authorized now actor a"
    using is_member [OF a(2)] row(3,4) by (auto simp: access_authorized_def Let_def same workspace_read_allowed_def workspace_is_active_def)
  with w(2) a(1) found show False by simp
qed

end
