(* ===== verification/Py_Values.thy ===== *)
theory Py_Values
  imports Rag_Documents Sentences Py_Json "HOL-Library.Log_Nat"
begin

text \<open>
  The dynamic values Python's JSON library produces and what the retrieval code does with them:
  \<^verbatim>\<open>str\<close>, \<^verbatim>\<open>int\<close>, \<^verbatim>\<open>float\<close>, \<^verbatim>\<open>bool\<close>, iteration, \<^verbatim>\<open>dict.get\<close>, and \<^verbatim>\<open>UUID\<close> of a string, with the
  exceptions they raise.
\<close>

section \<open>Values\<close>

datatype py_value =
    PNone
  | PBool bool
  | PInt int
  | PFloat py_float
  | PStr pystr
  | PList "py_value list"
  | PDict "(pystr \<times> py_value) list"

text \<open>
  The \<^verbatim>\<open>repr\<close> of floats and containers and the reader of decimal floats are parameters: the code
  meets them only on values of the wrong type.
\<close>

record value_env =
  ve_repr :: "py_value \<Rightarrow> pystr"
  ve_float :: "pystr \<Rightarrow> py_float option"

definition py_str :: "value_env \<Rightarrow> py_value \<Rightarrow> pystr" where
  "py_str E v =
     (case v of
        PNone \<Rightarrow> lit ''None''
      | PBool b \<Rightarrow> if b then lit ''True'' else lit ''False''
      | PInt n \<Rightarrow> dec_int n
      | PStr s \<Rightarrow> s
      | _ \<Rightarrow> ve_repr E v)"

definition py_truthy :: "py_value \<Rightarrow> bool" where
  "py_truthy v =
     (case v of
        PNone \<Rightarrow> False
      | PBool b \<Rightarrow> b
      | PInt n \<Rightarrow> n \<noteq> 0
      | PFloat x \<Rightarrow> x \<noteq> Finite 0
      | PStr s \<Rightarrow> s \<noteq> []
      | PList xs \<Rightarrow> xs \<noteq> []
      | PDict d \<Rightarrow> d \<noteq> [])"

definition py_get :: "py_value \<Rightarrow> pystr \<Rightarrow> py_value option res" where
  "py_get v k = (case v of PDict d \<Rightarrow> Inr (map_of d k) | _ \<Rightarrow> Inl (TypeError ''get''))"

definition py_item :: "py_value \<Rightarrow> pystr \<Rightarrow> py_value res" where
  "py_item v k =
     (case v of
        PDict d \<Rightarrow> (case map_of d k of None \<Rightarrow> Inl (LookupError ''key'') | Some x \<Rightarrow> Inr x)
      | _ \<Rightarrow> Inl (TypeError ''subscript''))"

definition py_iter :: "py_value \<Rightarrow> py_value list res" where
  "py_iter v =
     (case v of
        PList xs \<Rightarrow> Inr xs
      | PStr s \<Rightarrow> Inr (map (\<lambda>c. PStr [c]) s)
      | PDict d \<Rightarrow> Inr (map (PStr \<circ> fst) d)
      | _ \<Rightarrow> Inl (TypeError ''iteration''))"

section \<open>Numbers\<close>

definition digit_value :: "nat \<Rightarrow> nat option" where
  "digit_value c =
     (if 97 \<le> c \<and> c \<le> 122 then Some (c - 87) else if 65 \<le> c \<and> c \<le> 90 then Some (c - 55) else py_decimal c)"

text \<open>Digits with single underscores between them; \<open>ok\<close> says whether one of them may end here.\<close>

fun parse_digits :: "nat \<Rightarrow> nat \<Rightarrow> bool \<Rightarrow> pystr \<Rightarrow> nat option" where
  "parse_digits base acc ok [] = (if ok then Some acc else None)"
| "parse_digits base acc ok (c # s) =
     (if c = 95 then (if ok then parse_digits base acc False s else None)
      else (case digit_value c of
          None \<Rightarrow> None
        | Some d \<Rightarrow> if d < base then parse_digits base (acc * base + d) True s else None))"

definition drop_radix :: "nat \<Rightarrow> pystr \<Rightarrow> pystr" where
  "drop_radix base s =
     (if base = 16 \<and> (take 2 s = lit ''0x'' \<or> take 2 s = lit ''0X'')
      then (let r = drop 2 s in if take 1 r = [95] then drop 1 r else r) else s)"

definition int_of_text :: "nat \<Rightarrow> pystr \<Rightarrow> int res" where
  "int_of_text base s =
     (let t = strip s;
          neg = (take 1 t = [45]);
          u = (if take 1 t = [43] \<or> neg then drop 1 t else t);
          r = drop_radix base u
      in if base = 10 \<and> length (filter (\<lambda>c. c \<noteq> 95) r) > 4300 then Inl (ValueError ''int'')
         else (case parse_digits base 0 False r of
             None \<Rightarrow> Inl (ValueError ''int'')
           | Some n \<Rightarrow> Inr (if neg then - int n else int n)))"

definition py_int_of :: "py_value \<Rightarrow> int res" where
  "py_int_of v =
     (case v of
        PInt n \<Rightarrow> Inr n
      | PBool b \<Rightarrow> Inr (if b then 1 else 0)
      | PFloat (Finite q) \<Rightarrow> Inr (if q \<ge> 0 then \<lfloor>q\<rfloor> else \<lceil>q\<rceil>)
      | PFloat NaN \<Rightarrow> Inl (ValueError ''int'')
      | PFloat _ \<Rightarrow> Inl (OverflowError ''int'')
      | PStr s \<Rightarrow> int_of_text 10 s
      | _ \<Rightarrow> Inl (TypeError ''int''))"

text \<open>\<^verbatim>\<open>float\<close> of an integer: 53 significant bits, ties to even.\<close>

definition double_of_int :: "int \<Rightarrow> py_float res" where
  "double_of_int n =
     (let m = nat \<bar>n\<bar>; p = floorlog 2 m; e = p - 53; k = m div 2 ^ e; d = m mod 2 ^ e;
          r = (if 2 * d > 2 ^ e \<or> (2 * d = 2 ^ e \<and> odd k) then k + 1 else k) * 2 ^ e
      in if r \<ge> 2 ^ 1024 then Inl (OverflowError ''float'')
         else Inr (Finite (of_int (sgn n * int r))))"

definition py_float_of :: "value_env \<Rightarrow> py_value \<Rightarrow> py_float res" where
  "py_float_of E v =
     (case v of
        PFloat x \<Rightarrow> Inr x
      | PInt n \<Rightarrow> double_of_int n
      | PBool b \<Rightarrow> Inr (Finite (if b then 1 else 0))
      | PStr s \<Rightarrow> (case ve_float E s of None \<Rightarrow> Inl (ValueError ''float'') | Some x \<Rightarrow> Inr x)
      | _ \<Rightarrow> Inl (TypeError ''float''))"

section \<open>Identifiers\<close>

text \<open>\<^verbatim>\<open>s.replace(p, "")\<close> and \<^verbatim>\<open>s.strip("{}")\<close>.\<close>

function remove_sub :: "pystr \<Rightarrow> pystr \<Rightarrow> pystr" where
  "remove_sub p [] = []"
| "remove_sub p (c # s) =
     (if p \<noteq> [] \<and> take (length p) (c # s) = p then remove_sub p (drop (length p - 1) s) else c # remove_sub p s)"
  by pat_completeness auto
termination by (relation "measure (\<lambda>(p, s). length s)") auto

definition strip_braces :: "pystr \<Rightarrow> pystr" where
  "strip_braces s = rev (dropWhile (\<lambda>c. c = 123 \<or> c = 125) (rev (dropWhile (\<lambda>c. c = 123 \<or> c = 125) s)))"

definition parse_uuid :: "pystr \<Rightarrow> uuid res" where
  "parse_uuid s =
     (let h = remove_sub [45] (strip_braces (remove_sub (lit ''uuid:'') (remove_sub (lit ''urn:'') s)))
      in if length h \<noteq> 32 then Inl (ValueError ''uuid'')
         else rbind (int_of_text 16 h) (\<lambda>n.
           if 0 \<le> n \<and> n < 2 ^ 128 then Inr (UUID (nat n)) else Inl (ValueError ''uuid'')))"

text \<open>A number that fits the 128 bits of a UUID.\<close>

definition uuid_ok :: "uuid \<Rightarrow> bool" where
  "uuid_ok u \<longleftrightarrow> uuid_num u < 2 ^ 128"

lemma remove_sub_absent: "c \<in> set p \<Longrightarrow> c \<notin> set s \<Longrightarrow> remove_sub p s = s"
proof (induction p s rule: remove_sub.induct)
  case (2 p d s)
  have "take (length p) (d # s) \<noteq> p" using 2(3,4) by (metis in_set_takeD)
  with 2 show ?case by auto
qed simp

lemma remove_dashes: "remove_sub [45] s = filter (\<lambda>c. c \<noteq> 45) s"
  by (induction s) auto

lemma dropWhile_none: "\<forall>c\<in>set s. \<not> p c \<Longrightarrow> dropWhile p s = s"
  by (cases s) auto

lemma hex_digit_set: "n < 16 \<Longrightarrow> hex_digit n \<in> {48..57} \<union> {97..102}"
  by (auto simp: hex_digit_def)

lemma digit_value_hex: "n < 16 \<Longrightarrow> digit_value (hex_digit n) = Some n"
  by (auto simp: digit_value_def hex_digit_def py_decimal_def decimal_zeros_def)

lemma parse_digits_hex:
  "\<forall>d\<in>set ds. d < 16 \<Longrightarrow> ok \<or> ds \<noteq> [] \<Longrightarrow>
     parse_digits 16 acc ok (map hex_digit ds) = Some (foldl (\<lambda>n d. n * 16 + d) acc ds)"
proof (induction ds arbitrary: acc ok)
  case (Cons d ds)
  then have "hex_digit d \<noteq> 95" using hex_digit_set [of d] by auto
  with Cons show ?case by (simp add: digit_value_hex)
qed simp

lemma foldl_hex_digits:
  fixes x :: nat
  shows "foldl (\<lambda>n d. n * 16 + d) 0 (map (\<lambda>i. x div 16 ^ (k - 1 - i) mod 16) [0..<k]) = x mod 16 ^ k"
proof (induction k arbitrary: x)
  case (Suc k)
  have "map (\<lambda>i. x div 16 ^ (Suc k - 1 - i) mod 16) [0..<Suc k]
      = map (\<lambda>i. x div 16 div 16 ^ (k - 1 - i) mod 16) [0..<k] @ [x mod 16]"
  proof -
    have "x div 16 ^ (Suc k - 1 - i) = x div 16 div 16 ^ (k - 1 - i)" if "i < k" for i
    proof -
      from that have "k - i = Suc (k - 1 - i)" by simp
      then show ?thesis by (simp add: div_mult2_eq)
    qed
    then show ?thesis by simp
  qed
  then have "foldl (\<lambda>n d. n * 16 + d) 0 (map (\<lambda>i. x div 16 ^ (Suc k - 1 - i) mod 16) [0..<Suc k])
      = (x div 16 mod 16 ^ k) * 16 + x mod 16"
    unfolding \<open>map _ [0..<Suc k] = _\<close> foldl_append Suc.IH by simp
  also have "\<dots> = x mod 16 ^ Suc k"
    using mod_mult2_eq [of x 16 "16 ^ k"] by (simp add: ac_simps)
  finally show ?case .
qed simp

lemma uuid_hex_digits: "uuid_hex u = map hex_digit (map (\<lambda>i. uuid_num u div 16 ^ (32 - 1 - i) mod 16) [0..<32])"
  by (simp add: uuid_hex_def)

lemma uuid_hex_set: "c \<in> set (uuid_hex u) \<Longrightarrow> c \<in> {48..57} \<union> {97..102}"
  unfolding uuid_hex_def using hex_digit_set [of "uuid_num u div 16 ^ (31 - i) mod 16" for i] by fastforce

lemma length_uuid_hex [simp]: "length (uuid_hex u) = 32"
  by (simp add: uuid_hex_def)

lemma uuid_text_set: "c \<in> set (uuid_text u) \<Longrightarrow> c \<in> {48..57} \<union> {97..102} \<union> {45}"
  unfolding uuid_text_def Let_def using uuid_hex_set [of _ u] by (fastforce dest: in_set_takeD in_set_dropD)

lemma uuid_text_filter: "filter (\<lambda>c. c \<noteq> 45) (uuid_text u) = uuid_hex u"
proof -
  let ?h = "uuid_hex u"
  have no: "filter (\<lambda>c. c \<noteq> 45) s = s" if "set s \<subseteq> set ?h" for s
  proof -
    have "\<forall>c\<in>set s. c \<noteq> 45" using that uuid_hex_set [of _ u] by fastforce
    then show ?thesis by (simp add: filter_id_conv)
  qed
  have "take 8 ?h @ take 4 (drop 8 ?h) @ take 4 (drop 12 ?h) @ take 4 (drop 16 ?h) @ drop 20 ?h = ?h"
  proof -
    have "take 4 (drop 16 ?h) @ drop 20 ?h = drop 16 ?h" using append_take_drop_id [of 4 "drop 16 ?h"] by simp
    moreover have "take 4 (drop 12 ?h) @ drop 16 ?h = drop 12 ?h" using append_take_drop_id [of 4 "drop 12 ?h"] by simp
    moreover have "take 4 (drop 8 ?h) @ drop 12 ?h = drop 8 ?h" using append_take_drop_id [of 4 "drop 8 ?h"] by simp
    ultimately show ?thesis by simp
  qed
  moreover have "set (take 8 ?h) \<subseteq> set ?h" "set (take 4 (drop n ?h)) \<subseteq> set ?h" "set (drop n ?h) \<subseteq> set ?h" for n
    by (auto dest: in_set_takeD in_set_dropD)
  ultimately show ?thesis by (simp add: uuid_text_def Let_def no)
qed

lemma hex_text_parses: "int_of_text 16 (uuid_hex u) = Inr (int (uuid_num u mod 16 ^ 32))"
proof -
  let ?h = "uuid_hex u"
  have ne: "?h \<noteq> []" using length_uuid_hex [of u] by (metis list.size(3) zero_neq_numeral)
  have in_h: "hd ?h \<in> set ?h" "last ?h \<in> set ?h" using ne by simp_all
  have sp: "strip ?h = ?h"
    using in_h uuid_hex_set [of _ u] ne by (intro strip_id) (fastforce simp: py_isspace_def)+
  have sign: "take 1 ?h \<noteq> [45]" "take 1 ?h \<noteq> [43]"
    using in_h(1) uuid_hex_set [of _ u] ne by (cases ?h; fastforce)+
  have radix: "drop_radix 16 ?h = ?h"
  proof -
    have no: "120 \<notin> set (take 2 ?h)" "88 \<notin> set (take 2 ?h)" using uuid_hex_set [of _ u] by (fastforce dest: in_set_takeD)+
    have "take 2 ?h \<noteq> lit ''0x''" using no(1) by (rule contrapos_nn) simp
    moreover have "take 2 ?h \<noteq> lit ''0X''" using no(2) by (rule contrapos_nn) simp
    ultimately show ?thesis by (simp only: drop_radix_def simp_thms if_False)
  qed
  have "parse_digits 16 0 False ?h = Some (uuid_num u mod 16 ^ 32)"
    unfolding uuid_hex_digits by (subst parse_digits_hex) (simp_all only: foldl_hex_digits, auto)
  with sp sign radix show ?thesis by (simp add: int_of_text_def Let_def)
qed

lemma parse_uuid_text:
  assumes "uuid_ok u"
  shows "parse_uuid (uuid_text u) = Inr u"
proof -
  have "c \<notin> set (uuid_text u)" if "c \<in> {58, 123, 125}" for c using that uuid_text_set [of c u] by auto
  then have colon: "58 \<notin> set (uuid_text u)" and braces: "\<forall>c\<in>set (uuid_text u). \<not> (c = 123 \<or> c = 125)" by auto
  have "remove_sub (lit ''urn:'') (uuid_text u) = uuid_text u" "remove_sub (lit ''uuid:'') (uuid_text u) = uuid_text u"
    by (rule remove_sub_absent [of 58], simp, rule colon)+
  moreover have "strip_braces (uuid_text u) = uuid_text u"
    unfolding strip_braces_def dropWhile_none [OF braces]
    by (subst dropWhile_none) (use braces in simp_all)
  moreover have "(16 :: nat) ^ 32 = 2 ^ 128" by (simp flip: power_mult)
  moreover have "uuid_num u < 2 ^ 128" using assms by (simp add: uuid_ok_def)
  ultimately show ?thesis
    by (cases u) (simp add: parse_uuid_def Let_def remove_dashes uuid_text_filter hex_text_parses)
qed

lemma uuid_text_inj: "uuid_ok u \<Longrightarrow> uuid_ok v \<Longrightarrow> uuid_text u = uuid_text v \<Longrightarrow> u = v"
  by (metis parse_uuid_text sum.inject(2))

lemma length_uuid_text: "length (uuid_text u) = 36"
  by (simp add: uuid_text_def Let_def)

end
