(* ===== verification/Index_Documents.thy ===== *)
theory Index_Documents
  imports Py_Values Rank_Fusion
begin

text \<open>
  The documents of the search index: how a chunk is written (\<^verbatim>\<open>indexing/contracts.py\<close>) and how a
  hit is read back into a chunk (\<^verbatim>\<open>_parse_chunk\<close>, \<^verbatim>\<open>_parse_evidence\<close> of
  \<^verbatim>\<open>retrieval/elasticsearch.py\<close>).
\<close>

section \<open>Index descriptors\<close>

record index_descriptor =
  ix_dimension :: int
  ix_similarity :: pystr
  ix_name :: "pystr option"
  ix_profile :: "uuid option"
  ix_build :: "uuid option"
  ix_projection :: "uuid option"
  ix_mapping :: int

definition new_descriptor :: "index_descriptor \<Rightarrow> index_descriptor res" where
  "new_descriptor d =
     (if ix_dimension d < 1 then Inl (ValueError ''vector_dimension'')
      else if ix_similarity d \<noteq> lit ''cosine'' then Inl (ValueError ''similarity'')
      else Inr d)"

definition profile_prefix :: "pystr \<Rightarrow> uuid \<Rightarrow> uuid option \<Rightarrow> pystr" where
  "profile_prefix prefix profile processing =
     (case processing of
        Some p \<Rightarrow> prefix @ [45] @ uuid_text p @ [45] @ uuid_text profile
      | None \<Rightarrow> prefix @ [45] @ uuid_text profile)"

definition concrete_index_name :: "pystr \<Rightarrow> uuid \<Rightarrow> uuid \<Rightarrow> uuid option \<Rightarrow> pystr" where
  "concrete_index_name prefix profile build processing = profile_prefix prefix profile processing @ [45] @ uuid_text build"

definition active_alias :: "pystr \<Rightarrow> uuid \<Rightarrow> uuid option \<Rightarrow> pystr" where
  "active_alias prefix profile processing = profile_prefix prefix profile processing @ lit ''-active''"

definition for_index ::
  "index_descriptor \<Rightarrow> pystr \<Rightarrow> uuid option \<Rightarrow> uuid option \<Rightarrow> uuid option \<Rightarrow> index_descriptor res" where
  "for_index d name profile build projection =
     new_descriptor (d\<lparr>ix_name := Some name, ix_profile := profile, ix_build := build, ix_projection := projection\<rparr>)"

definition require_physical_metadata :: "index_descriptor \<Rightarrow> (uuid \<times> uuid \<times> uuid) res" where
  "require_physical_metadata d =
     (case (ix_profile d, ix_build d, ix_projection d) of
        (Some p, Some b, Some j) \<Rightarrow> Inr (p, b, j)
      | _ \<Rightarrow> Inl (ValueError ''physical_metadata''))"

section \<open>Writing a document\<close>

record index_document =
  xd_chunk :: uuid
  xd_projection :: uuid
  xd_version :: uuid
  xd_workspace :: uuid
  xd_folder :: "uuid option"
  xd_allowed :: "uuid list"
  xd_status :: pystr
  xd_title :: pystr
  xd_path :: "pystr list"
  xd_text :: pystr
  xd_units :: "evidence_unit list"
  xd_embedding :: "py_float list option"
  xd_build :: uuid
  xd_profile :: "uuid option"
  xd_mapping :: int

abbreviation uuid_value :: "uuid \<Rightarrow> py_value" where
  "uuid_value u \<equiv> PStr (uuid_text u)"

fun source_kind_text :: "source_kind \<Rightarrow> pystr" where
  "source_kind_text NORMALIZED_TEXT = lit ''normalized_text''"
| "source_kind_text PDF_PAGE = lit ''pdf_page''"
| "source_kind_text DOCX_IMAGE = lit ''docx_image''"

definition optional :: "('a \<Rightarrow> py_value) \<Rightarrow> 'a option \<Rightarrow> py_value" where
  "optional f x = (case x of None \<Rightarrow> PNone | Some y \<Rightarrow> f y)"

definition cell_value :: "table_cell \<Rightarrow> py_value" where
  "cell_value c =
     PDict [(lit ''row'', PInt (tc_row c)), (lit ''column'', PInt (tc_column c)),
       (lit ''row_span'', PInt (tc_row_span c)), (lit ''column_span'', PInt (tc_column_span c))]"

definition evidence_value :: "evidence_unit \<Rightarrow> py_value" where
  "evidence_value e =
     (let l = ev_location e
      in PDict [(lit ''id'', uuid_value (ev_id e)),
          (lit ''chunk_id'', PStr (case ev_chunk e of None \<Rightarrow> lit ''None'' | Some u \<Rightarrow> uuid_text u)),
          (lit ''projection_id'', PStr (case ev_projection e of None \<Rightarrow> lit ''None'' | Some u \<Rightarrow> uuid_text u)),
          (lit ''ordinal'', PInt (ev_ordinal e)),
          (lit ''text'', PStr (ev_text e)),
          (lit ''element_id'', uuid_value (lc_element l)),
          (lit ''page'', optional PInt (lc_page l)),
          (lit ''char_start'', PInt (lc_start l)),
          (lit ''char_end'', PInt (lc_end l)),
          (lit ''bbox'', optional (\<lambda>(a, b, c, d). PList [PFloat a, PFloat b, PFloat c, PFloat d]) (lc_bbox l)),
          (lit ''source_kind'', PStr (source_kind_text (lc_kind l))),
          (lit ''source_part'', optional PStr (lc_part l)),
          (lit ''image_sha256'', optional PStr (lc_sha256 l)),
          (lit ''table_cell'', optional cell_value (lc_cell l))])"

definition to_projection :: "index_document \<Rightarrow> (pystr \<times> py_value) list" where
  "to_projection d =
     [(lit ''chunk_id'', uuid_value (xd_chunk d)),
      (lit ''projection_id'', uuid_value (xd_projection d)),
      (lit ''asset_version_id'', uuid_value (xd_version d)),
      (lit ''workspace_id'', uuid_value (xd_workspace d)),
      (lit ''folder_id'', optional uuid_value (xd_folder d)),
      (lit ''allowed_user_ids'', PList (map uuid_value (xd_allowed d))),
      (lit ''status'', PStr (xd_status d)),
      (lit ''title'', PStr (xd_title d)),
      (lit ''section_path'', PList (map PStr (xd_path d))),
      (lit ''text'', PStr (xd_text d)),
      (lit ''evidence_units'', PList (map evidence_value (xd_units d))),
      (lit ''embedding'', optional (PList \<circ> map PFloat) (xd_embedding d)),
      (lit ''index_build_id'', uuid_value (xd_build d)),
      (lit ''indexing_profile_id'', optional uuid_value (xd_profile d)),
      (lit ''rag_mapping_version'', PInt (xd_mapping d))]"

section \<open>Reading a hit\<close>

text \<open>The fields a search asks for; the engine returns the source restricted to them.\<close>

definition retrieval_source_fields :: "pystr list" where
  "retrieval_source_fields =
     [lit ''chunk_id'', lit ''projection_id'', lit ''asset_version_id'', lit ''workspace_id'', lit ''folder_id'',
      lit ''index_build_id'', lit ''indexing_profile_id'', lit ''rag_mapping_version'', lit ''title'', lit ''section_path'',
      lit ''text'', lit ''evidence_units'']"

definition include_fields :: "pystr list \<Rightarrow> (pystr \<times> py_value) list \<Rightarrow> (pystr \<times> py_value) list" where
  "include_fields wanted d = filter (\<lambda>(k, v). k \<in> set wanted) d"

definition uuid_item :: "value_env \<Rightarrow> py_value \<Rightarrow> pystr \<Rightarrow> uuid res" where
  "uuid_item E source k = rbind (py_item source k) (\<lambda>v. parse_uuid (py_str E v))"

definition str_item :: "value_env \<Rightarrow> py_value \<Rightarrow> pystr \<Rightarrow> pystr res" where
  "str_item E source k = rbind (py_item source k) (\<lambda>v. Inr (py_str E v))"

definition int_item :: "py_value \<Rightarrow> pystr \<Rightarrow> int res" where
  "int_item source k = rbind (py_item source k) py_int_of"

definition get_or :: "py_value \<Rightarrow> pystr \<Rightarrow> py_value \<Rightarrow> py_value res" where
  "get_or source k fallback = rbind (py_get source k) (\<lambda>v. Inr (case v of None \<Rightarrow> fallback | Some x \<Rightarrow> x))"

definition parse_kind :: "pystr \<Rightarrow> source_kind res" where
  "parse_kind s =
     (if s = lit ''normalized_text'' then Inr NORMALIZED_TEXT
      else if s = lit ''pdf_page'' then Inr PDF_PAGE
      else if s = lit ''docx_image'' then Inr DOCX_IMAGE
      else Inl (ValueError ''source_kind''))"

definition parse_bbox :: "value_env \<Rightarrow> py_value \<Rightarrow> bounding_box option res" where
  "parse_bbox E v =
     (if v = PNone then Inr None
      else rbind (py_iter v) (\<lambda>xs. rbind (mapr (py_float_of E) xs) (\<lambda>values.
        (case values of
           [a, b, c, d] \<Rightarrow> Inr (Some (a, b, c, d))
         | _ \<Rightarrow> Inl (ValueError ''bbox'')))))"

definition parse_cell :: "py_value \<Rightarrow> table_cell option res" where
  "parse_cell v =
     (case v of
        PDict d \<Rightarrow>
          rbind (int_item v (lit ''row'')) (\<lambda>row. rbind (int_item v (lit ''column'')) (\<lambda>column.
          rbind (get_or v (lit ''row_span'') (PInt 1)) (\<lambda>rs. rbind (py_int_of rs) (\<lambda>row_span.
          rbind (get_or v (lit ''column_span'') (PInt 1)) (\<lambda>cs. rbind (py_int_of cs) (\<lambda>column_span.
          rbind (new_table_cell \<lparr>tc_row = row, tc_column = column, tc_row_span = row_span, tc_column_span = column_span\<rparr>)
            (\<lambda>c. Inr (Some c))))))))
      | _ \<Rightarrow> Inr None)"

definition truthy_text :: "value_env \<Rightarrow> py_value \<Rightarrow> pystr option" where
  "truthy_text E v = (if py_truthy v then Some (py_str E v) else None)"

definition parse_evidence :: "value_env \<Rightarrow> uuid \<Rightarrow> uuid \<Rightarrow> py_value \<Rightarrow> evidence_unit res" where
  "parse_evidence E chunk_id projection_id source =
     rbind (uuid_item E source (lit ''chunk_id'')) (\<lambda>stored_chunk.
     rbind (uuid_item E source (lit ''projection_id'')) (\<lambda>stored_projection.
     if stored_chunk \<noteq> chunk_id \<or> stored_projection \<noteq> projection_id then Inl (ValueError ''evidence_provenance'')
     else
       rbind (get_or source (lit ''bbox'') PNone) (\<lambda>bbox_value. rbind (parse_bbox E bbox_value) (\<lambda>bbox.
       rbind (get_or source (lit ''table_cell'') PNone) (\<lambda>raw_cell.
       rbind (uuid_item E source (lit ''id'')) (\<lambda>i.
       rbind (int_item source (lit ''ordinal'')) (\<lambda>ordinal.
       rbind (str_item E source (lit ''text'')) (\<lambda>txt.
       rbind (uuid_item E source (lit ''element_id'')) (\<lambda>element.
       rbind (get_or source (lit ''page'') PNone) (\<lambda>page_value.
       rbind (if page_value = PNone then Inr None else rbind (int_item source (lit ''page'')) (\<lambda>n. Inr (Some n))) (\<lambda>page.
       rbind (int_item source (lit ''char_start'')) (\<lambda>start.
       rbind (int_item source (lit ''char_end'')) (\<lambda>stop.
       rbind (get_or source (lit ''source_kind'') (PStr (lit ''normalized_text''))) (\<lambda>kind_value.
       rbind (parse_kind (py_str E kind_value)) (\<lambda>kind.
       rbind (get_or source (lit ''source_part'') PNone) (\<lambda>part.
       rbind (get_or source (lit ''image_sha256'') PNone) (\<lambda>sha256.
       rbind (parse_cell raw_cell) (\<lambda>cell.
       rbind (new_location \<lparr>lc_element = element, lc_page = page, lc_start = start, lc_end = stop, lc_bbox = bbox,
           lc_kind = kind, lc_part = truthy_text E part, lc_sha256 = truthy_text E sha256, lc_cell = cell\<rparr>) (\<lambda>location.
         Inr (\<lparr>ev_id = i, ev_chunk = Some stored_chunk, ev_ordinal = ordinal, ev_text = txt, ev_location = location,
           ev_projection = Some stored_projection\<rparr>))))))))))))))))))))"

definition parse_chunk :: "value_env \<Rightarrow> py_value \<Rightarrow> retrieved_chunk res" where
  "parse_chunk E hit =
     rbind (py_item hit (lit ''_source'')) (\<lambda>source.
     rbind (uuid_item E source (lit ''chunk_id'')) (\<lambda>chunk_id.
     rbind (uuid_item E source (lit ''projection_id'')) (\<lambda>projection_id.
     rbind (get_or source (lit ''evidence_units'') (PList [])) (\<lambda>items_value.
     rbind (py_iter items_value) (\<lambda>items.
     rbind (mapr (parse_evidence E chunk_id projection_id) items) (\<lambda>evidence.
     rbind (get_or source (lit ''folder_id'') PNone) (\<lambda>folder_value.
     rbind (uuid_item E source (lit ''asset_version_id'')) (\<lambda>version.
     rbind (uuid_item E source (lit ''workspace_id'')) (\<lambda>workspace.
     rbind (if folder_value = PNone then Inr None else rbind (parse_uuid (py_str E folder_value)) (\<lambda>u. Inr (Some u))) (\<lambda>folder.
     rbind (uuid_item E source (lit ''index_build_id'')) (\<lambda>build.
     rbind (str_item E source (lit ''title'')) (\<lambda>title.
     rbind (py_item source (lit ''section_path'')) (\<lambda>path_value.
     rbind (py_iter path_value) (\<lambda>path.
     rbind (str_item E source (lit ''text'')) (\<lambda>txt.
       Inr (\<lparr>rc_chunk = chunk_id, rc_projection = projection_id, rc_version = version, rc_workspace = workspace,
         rc_folder = folder, rc_build = build, rc_title = title, rc_path = map (py_str E) path, rc_text = txt,
         rc_units = evidence\<rparr>))))))))))))))))"

section \<open>Reading what was written\<close>

text \<open>The hit an engine returns for a stored document.\<close>

definition stored_hit :: "index_document \<Rightarrow> py_float \<Rightarrow> py_value" where
  "stored_hit d score =
     PDict [(lit ''_score'', PFloat score), (lit ''_source'', PDict (include_fields retrieval_source_fields (to_projection d)))]"

definition chunk_of_document :: "index_document \<Rightarrow> retrieved_chunk" where
  "chunk_of_document d =
     \<lparr>rc_chunk = xd_chunk d, rc_projection = xd_projection d, rc_version = xd_version d, rc_workspace = xd_workspace d,
      rc_folder = xd_folder d, rc_build = xd_build d, rc_title = xd_title d, rc_path = xd_path d, rc_text = xd_text d,
      rc_units = xd_units d\<rparr>"

text \<open>
  A document whose identifiers fit a UUID and whose evidence passed its constructors; an empty
  source part or digest would be read back as none.
\<close>

definition location_stored :: "source_location \<Rightarrow> bool" where
  "location_stored l \<longleftrightarrow>
     uuid_ok (lc_element l) \<and> new_location l = Inr l \<and> lc_part l \<noteq> Some [] \<and> lc_sha256 l \<noteq> Some []
     \<and> (case lc_cell l of None \<Rightarrow> True | Some c \<Rightarrow> new_table_cell c = Inr c)"

definition document_stored :: "index_document \<Rightarrow> bool" where
  "document_stored d \<longleftrightarrow>
     uuid_ok (xd_chunk d) \<and> uuid_ok (xd_projection d) \<and> uuid_ok (xd_version d) \<and> uuid_ok (xd_workspace d)
     \<and> uuid_ok (xd_build d) \<and> (case xd_folder d of None \<Rightarrow> True | Some u \<Rightarrow> uuid_ok u)
     \<and> (\<forall>e\<in>set (xd_units d). uuid_ok (ev_id e) \<and> ev_chunk e = Some (xd_chunk d) \<and> ev_projection e = Some (xd_projection d)
          \<and> location_stored (ev_location e))"

lemma optional_simps [simp]: "optional f None = PNone" "optional f (Some x) = f x"
  by (simp_all add: optional_def)

lemma parse_kind_text [simp]: "parse_kind (source_kind_text k) = Inr k"
  by (cases k) (simp_all add: parse_kind_def)

lemma parse_cell_value: "new_table_cell c = Inr c \<Longrightarrow> parse_cell (cell_value c) = Inr (Some c)"
proof -
  assume c: "new_table_cell c = Inr c"
  have same: "\<lparr>tc_row = tc_row c, tc_column = tc_column c, tc_row_span = tc_row_span c, tc_column_span = tc_column_span c\<rparr> = c" by simp
  show ?thesis
    by (simp add: parse_cell_def cell_value_def int_item_def py_item_def get_or_def py_get_def py_int_of_def same c del: table_cell.surjective)
qed

lemma parse_bbox_value:
  "parse_bbox E (optional (\<lambda>(a, b, c, d). PList [PFloat a, PFloat b, PFloat c, PFloat d]) x) = Inr x"
  by (cases x) (auto simp: parse_bbox_def py_iter_def py_float_of_def)

lemma truthy_text_optional: "x \<noteq> Some [] \<Longrightarrow> truthy_text E (optional PStr x) = x"
  by (cases x) (auto simp: truthy_text_def py_truthy_def py_str_def)

lemma parse_evidence_value:
  assumes "uuid_ok i" "uuid_ok p" "uuid_ok (ev_id e)" "ev_chunk e = Some i" "ev_projection e = Some p"
    "location_stored (ev_location e)"
  shows "parse_evidence E i p (evidence_value e) = Inr e"
proof -
  let ?l = "ev_location e" and ?v = "evidence_value e"
  have l: "uuid_ok (lc_element ?l)" "new_location ?l = Inr ?l" "lc_part ?l \<noteq> Some []" "lc_sha256 ?l \<noteq> Some []"
    "case lc_cell ?l of None \<Rightarrow> True | Some c \<Rightarrow> new_table_cell c = Inr c"
    using assms(6) unfolding location_stored_def by blast+
  have items: "py_item ?v (lit ''chunk_id'') = Inr (uuid_value i)" "py_item ?v (lit ''projection_id'') = Inr (uuid_value p)"
    "py_item ?v (lit ''id'') = Inr (uuid_value (ev_id e))" "py_item ?v (lit ''ordinal'') = Inr (PInt (ev_ordinal e))"
    "py_item ?v (lit ''text'') = Inr (PStr (ev_text e))" "py_item ?v (lit ''element_id'') = Inr (uuid_value (lc_element ?l))"
    "py_item ?v (lit ''char_start'') = Inr (PInt (lc_start ?l))" "py_item ?v (lit ''char_end'') = Inr (PInt (lc_end ?l))"
    "py_item ?v (lit ''page'') = Inr (optional PInt (lc_page ?l))"
    using assms(4,5) by (simp_all add: evidence_value_def Let_def py_item_def del: lit_simps)
  have gets: "get_or ?v (lit ''bbox'') x = Inr (optional (\<lambda>(a, b, c, d). PList [PFloat a, PFloat b, PFloat c, PFloat d]) (lc_bbox ?l))"
    "get_or ?v (lit ''table_cell'') x = Inr (optional cell_value (lc_cell ?l))" "get_or ?v (lit ''page'') x = Inr (optional PInt (lc_page ?l))"
    "get_or ?v (lit ''source_kind'') x = Inr (PStr (source_kind_text (lc_kind ?l)))"
    "get_or ?v (lit ''source_part'') x = Inr (optional PStr (lc_part ?l))" "get_or ?v (lit ''image_sha256'') x = Inr (optional PStr (lc_sha256 ?l))" for x
    by (simp_all add: evidence_value_def Let_def get_or_def py_get_def del: lit_simps)
  have uuids: "uuid_item E ?v (lit ''chunk_id'') = Inr i" "uuid_item E ?v (lit ''projection_id'') = Inr p"
    "uuid_item E ?v (lit ''id'') = Inr (ev_id e)" "uuid_item E ?v (lit ''element_id'') = Inr (lc_element ?l)"
    using assms(1-3) l(1) by (simp_all add: uuid_item_def items py_str_def parse_uuid_text del: lit_simps)
  have rest: "int_item ?v (lit ''ordinal'') = Inr (ev_ordinal e)" "int_item ?v (lit ''char_start'') = Inr (lc_start ?l)"
    "int_item ?v (lit ''char_end'') = Inr (lc_end ?l)" "str_item E ?v (lit ''text'') = Inr (ev_text e)"
    by (simp_all add: int_item_def str_item_def items py_int_of_def py_str_def del: lit_simps)
  have page: "(if optional PInt (lc_page ?l) = PNone then Inr None else rbind (int_item ?v (lit ''page'')) (\<lambda>n. Inr (Some n)))
      = Inr (lc_page ?l)"
    by (cases "lc_page ?l") (simp_all add: int_item_def items py_int_of_def del: lit_simps)
  have cell: "parse_cell (optional cell_value (lc_cell ?l)) = Inr (lc_cell ?l)"
    using l(5) by (cases "lc_cell ?l") (simp_all add: parse_cell_value, simp add: parse_cell_def)
  have kind: "parse_kind (py_str E (PStr (source_kind_text (lc_kind ?l)))) = Inr (lc_kind ?l)" by (simp add: py_str_def)
  have "\<lparr>lc_element = lc_element ?l, lc_page = lc_page ?l, lc_start = lc_start ?l, lc_end = lc_end ?l, lc_bbox = lc_bbox ?l,
      lc_kind = lc_kind ?l, lc_part = lc_part ?l, lc_sha256 = lc_sha256 ?l, lc_cell = lc_cell ?l\<rparr> = ?l" by simp
  moreover have "\<lparr>ev_id = ev_id e, ev_chunk = Some i, ev_ordinal = ev_ordinal e, ev_text = ev_text e,
      ev_location = ?l, ev_projection = Some p\<rparr> = e" using assms(4,5) by simp
  ultimately show ?thesis
    unfolding parse_evidence_def uuids gets rest rbind_simps page parse_bbox_value cell kind
      truthy_text_optional [OF l(3)] truthy_text_optional [OF l(4)]
    by (simp only: simp_thms if_False rbind_simps l(2))
qed

lemma mapr_same: "\<forall>x\<in>set xs. f (g x) = Inr x \<Longrightarrow> mapr f (map g xs) = Inr xs"
  by (induction xs) auto

lemma parse_stored_hit:
  assumes "document_stored d"
  shows "parse_chunk E (stored_hit d score) = Inr (chunk_of_document d)"
proof -
  let ?s = "PDict (include_fields retrieval_source_fields (to_projection d))"
  have d: "uuid_ok (xd_chunk d)" "uuid_ok (xd_projection d)" "uuid_ok (xd_version d)" "uuid_ok (xd_workspace d)"
    "uuid_ok (xd_build d)" "case xd_folder d of None \<Rightarrow> True | Some u \<Rightarrow> uuid_ok u"
    and units: "\<forall>e\<in>set (xd_units d). parse_evidence E (xd_chunk d) (xd_projection d) (evidence_value e) = Inr e"
    using assms parse_evidence_value unfolding document_stored_def by blast+
  have source: "py_item (stored_hit d score) (lit ''_source'') = Inr ?s" by (simp add: stored_hit_def py_item_def del: lit_simps)
  have items: "py_item ?s (lit ''chunk_id'') = Inr (uuid_value (xd_chunk d))"
    "py_item ?s (lit ''projection_id'') = Inr (uuid_value (xd_projection d))"
    "py_item ?s (lit ''asset_version_id'') = Inr (uuid_value (xd_version d))"
    "py_item ?s (lit ''workspace_id'') = Inr (uuid_value (xd_workspace d))"
    "py_item ?s (lit ''index_build_id'') = Inr (uuid_value (xd_build d))"
    "py_item ?s (lit ''title'') = Inr (PStr (xd_title d))" "py_item ?s (lit ''text'') = Inr (PStr (xd_text d))"
    "py_item ?s (lit ''section_path'') = Inr (PList (map PStr (xd_path d)))"
    by (simp_all add: include_fields_def retrieval_source_fields_def to_projection_def py_item_def del: lit_simps)
  have gets: "get_or ?s (lit ''evidence_units'') x = Inr (PList (map evidence_value (xd_units d)))"
    "get_or ?s (lit ''folder_id'') x = Inr (optional uuid_value (xd_folder d))" for x
    by (simp_all add: include_fields_def retrieval_source_fields_def to_projection_def get_or_def py_get_def del: lit_simps)
  have uuids: "uuid_item E ?s (lit ''chunk_id'') = Inr (xd_chunk d)" "uuid_item E ?s (lit ''projection_id'') = Inr (xd_projection d)"
    "uuid_item E ?s (lit ''asset_version_id'') = Inr (xd_version d)" "uuid_item E ?s (lit ''workspace_id'') = Inr (xd_workspace d)"
    "uuid_item E ?s (lit ''index_build_id'') = Inr (xd_build d)"
    using d by (simp_all add: uuid_item_def items py_str_def parse_uuid_text del: lit_simps)
  have strs: "str_item E ?s (lit ''title'') = Inr (xd_title d)" "str_item E ?s (lit ''text'') = Inr (xd_text d)"
    by (simp_all add: str_item_def items py_str_def del: lit_simps)
  have folder: "(if optional uuid_value (xd_folder d) = PNone then Inr None
      else rbind (parse_uuid (py_str E (optional uuid_value (xd_folder d)))) (\<lambda>u. Inr (Some u))) = Inr (xd_folder d)"
    using d(6) by (cases "xd_folder d") (simp_all add: py_str_def parse_uuid_text)
  have iters: "py_iter (PList xs) = Inr xs" for xs by (simp add: py_iter_def)
  have path: "map (py_str E) (map PStr (xd_path d)) = xd_path d" by (simp add: py_str_def comp_def)
  show ?thesis
    unfolding parse_chunk_def source rbind_simps uuids gets iters mapr_same [where g = evidence_value, OF units] folder strs items path
    by (simp only: rbind_simps chunk_of_document_def)
qed

end
