(* ===== verification/Search_Engine.thy ===== *)
theory Search_Engine
  imports Search_Scope Index_Documents
begin

text \<open>
  Searching the index (\<^verbatim>\<open>retrieval/elasticsearch.py\<close>): index targets (\<^verbatim>\<open>retrieval/domain.py\<close>), the scope
  filter, the frozen indices of evaluations and the two retrievers.  The search engine is a client
  that maps its own state and a request to a response or an error and a new state; its responses
  are arbitrary values the code takes apart.
\<close>

section \<open>Index targets\<close>

record frozen_identity =
  fi_name :: pystr
  fi_uuid :: pystr
  fi_build :: uuid
  fi_projection :: uuid
  fi_profile :: uuid
  fi_dimension :: int
  fi_mapping :: int

definition new_frozen_identity :: "frozen_identity \<Rightarrow> frozen_identity res" where
  "new_frozen_identity f =
     (if strip (fi_name f) = [] \<or> strip (fi_uuid f) = [] then Inl (ValueError ''frozen_identity'')
      else if fi_dimension f < 1 \<or> fi_mapping f < 1 then Inl (ValueError ''frozen_descriptor'')
      else Inr f)"

record frozen_target =
  ft_descriptor :: index_descriptor
  ft_prefix :: pystr
  ft_profile :: uuid
  ft_identities :: "frozen_identity list"
  ft_versions :: "uuid list"
  ft_processing :: "uuid option"

text \<open>\<^verbatim>\<open>re.fullmatch(r"[a-z0-9][a-z0-9._-]*", s)\<close>.\<close>

definition safe_index_name :: "pystr \<Rightarrow> bool" where
  "safe_index_name s \<longleftrightarrow>
     (case s of [] \<Rightarrow> False
      | c # r \<Rightarrow> ((97 \<le> c \<and> c \<le> 122) \<or> (48 \<le> c \<and> c \<le> 57))
          \<and> list_all (\<lambda>d. (97 \<le> d \<and> d \<le> 122) \<or> (48 \<le> d \<and> d \<le> 57) \<or> d = 46 \<or> d = 95 \<or> d = 45) r)"

definition new_frozen_target :: "frozen_target \<Rightarrow> frozen_target res" where
  "new_frozen_target t =
     (let names = map fi_name (ft_identities t); builds = map fi_build (ft_identities t)
      in if \<not> safe_index_name (ft_prefix t) \<or> ft_prefix t = [46] \<or> ft_prefix t = [46, 46] then Inl (ValueError ''frozen_prefix'')
         else if ft_identities t = [] then Inl (ValueError ''frozen_identities'')
         else if \<not> distinct names then Inl (ValueError ''frozen_names'')
         else if \<not> distinct builds then Inl (ValueError ''frozen_builds'')
         else if ft_versions t = [] \<or> \<not> distinct (ft_versions t) then Inl (ValueError ''frozen_versions'')
         else if names \<noteq> map (\<lambda>b. concrete_index_name (ft_prefix t) (ft_profile t) b (ft_processing t)) builds
         then Inl (ValueError ''frozen_index_names'')
         else if list_ex (\<lambda>i. fi_profile i \<noteq> ft_profile t \<or> fi_dimension i \<noteq> ix_dimension (ft_descriptor t)
             \<or> fi_mapping i \<noteq> ix_mapping (ft_descriptor t)) (ft_identities t)
         then Inl (ValueError ''frozen_descriptor'')
         else Inr t)"

record alias_target =
  at_descriptor :: index_descriptor
  at_prefix :: pystr
  at_profile :: uuid
  at_processing :: "uuid option"

definition new_alias_target :: "alias_target \<Rightarrow> alias_target res" where
  "new_alias_target t = (if strip (at_prefix t) = [] then Inl (ValueError ''alias_prefix'') else Inr t)"

definition alias_name :: "alias_target \<Rightarrow> pystr" where
  "alias_name t = active_alias (at_prefix t) (at_profile t) (at_processing t)"

datatype search_target = ActiveTarget alias_target | FrozenTarget frozen_target

fun target_profile :: "search_target \<Rightarrow> uuid" where
  "target_profile (ActiveTarget t) = at_profile t"
| "target_profile (FrozenTarget t) = ft_profile t"

section \<open>The scope filter\<close>

datatype es_filter =
    Terms pystr "pystr list"
  | Term pystr py_value
  | MatchNone
  | Should "es_filter list"
  | AllOf "es_filter list"

definition build_scope_filter :: "uuid \<Rightarrow> resolved_scope \<Rightarrow> es_filter list" where
  "build_scope_filter actor scope =
     [Terms (lit ''workspace_id'') (map uuid_text (sc_workspaces scope)), Term (lit ''allowed_user_ids'') (uuid_value actor)]
     @ (if \<not> sc_active_only scope \<and> sc_folders scope \<noteq> [] then [Terms (lit ''folder_id'') (map uuid_text (sc_folders scope))] else [])
     @ (if sc_ready_only scope then [Term (lit ''status'') (PStr (lit ''ready''))] else [])
     @ (if sc_active_only scope then
          (if sc_authorized scope = [] then [MatchNone]
           else [Should (map (\<lambda>i. AllOf [Term (lit ''asset_version_id'') (uuid_value (di_version i)),
                Term (lit ''projection_id'') (uuid_value (di_projection i)),
                Term (lit ''index_build_id'') (uuid_value (di_build i))]) (sc_authorized scope))])
        else
          (if sc_versions scope \<noteq> [] then [Terms (lit ''asset_version_id'') (map uuid_text (sc_versions scope))] else [])
          @ (if sc_builds scope \<noteq> [] then [Terms (lit ''index_build_id'') (map uuid_text (sc_builds scope))] else []))"

definition identity_filters :: "frozen_identity \<Rightarrow> es_filter list" where
  "identity_filters i =
     [Term (lit ''index_build_id'') (uuid_value (fi_build i)), Term (lit ''projection_id'') (uuid_value (fi_projection i)),
      Term (lit ''indexing_profile_id'') (uuid_value (fi_profile i)), Term (lit ''rag_mapping_version'') (PInt (fi_mapping i))]"

section \<open>The client\<close>

datatype es_error = ApiStatus nat | Transport | Raised exn

datatype es_place = InIndex pystr | InPit pystr

datatype es_match = MultiMatch pystr | Knn "py_float list"

record es_search =
  es_place :: es_place
  es_match :: es_match
  es_filters :: "es_filter list"
  es_size :: int

text \<open>
  A call of the client returns a value or raises; kNN searches ask for as many neighbours and
  candidates as hits.
\<close>

record 's es_client =
  ec_resolve :: "pystr \<Rightarrow> 's \<Rightarrow> (es_error + py_value) \<times> 's"
  ec_get :: "pystr \<Rightarrow> 's \<Rightarrow> (es_error + py_value) \<times> 's"
  ec_open :: "pystr \<Rightarrow> 's \<Rightarrow> (es_error + py_value) \<times> 's"
  ec_search :: "es_search \<Rightarrow> 's \<Rightarrow> (es_error + py_value) \<times> 's"
  ec_close :: "pystr \<Rightarrow> 's \<Rightarrow> (es_error + py_value) \<times> 's"

type_synonym ('s, 'a) es_run = "'s \<Rightarrow> (es_error + 'a) \<times> 's"

definition es_return :: "'a \<Rightarrow> ('s, 'a) es_run" where
  "es_return x s = (Inr x, s)"

definition es_bind :: "('s, 'a) es_run \<Rightarrow> ('a \<Rightarrow> ('s, 'b) es_run) \<Rightarrow> ('s, 'b) es_run" where
  "es_bind m f s = (case m s of (Inl e, s') \<Rightarrow> (Inl e, s') | (Inr x, s') \<Rightarrow> f x s')"

definition es_pure :: "'a res \<Rightarrow> ('s, 'a) es_run" where
  "es_pure r s = (case r of Inl e \<Rightarrow> (Inl (Raised e), s) | Inr x \<Rightarrow> (Inr x, s))"

text \<open>\<^verbatim>\<open>except\<close>: what an error becomes.\<close>

definition es_catch :: "(es_error \<Rightarrow> es_error) \<Rightarrow> ('s, 'a) es_run \<Rightarrow> ('s, 'a) es_run" where
  "es_catch h m s = (case m s of (Inl e, s') \<Rightarrow> (Inl (h e), s') | (Inr x, s') \<Rightarrow> (Inr x, s'))"

fun operational_error :: "es_error \<Rightarrow> bool" where
  "operational_error Transport = True"
| "operational_error (ApiStatus n) = (n = 429 \<or> (500 \<le> n \<and> n < 600))"
| "operational_error (Raised e) = False"

abbreviation frozen_drift :: exn where
  "frozen_drift \<equiv> ValueError ''frozen_index_drift''"

abbreviation reindex_required :: exn where
  "reindex_required \<equiv> ValueError ''frozen_index_reindex_required''"

section \<open>Frozen indices\<close>

definition required_mapping :: "pystr list" where
  "required_mapping =
     [lit ''mapping_version'', lit ''index_build_id'', lit ''projection_id'', lit ''indexing_profile_id'', lit ''vector_dimension'']"

definition resolved_exactly :: "value_env \<Rightarrow> pystr \<Rightarrow> py_value \<Rightarrow> unit res" where
  "resolved_exactly E name response =
     rbind (get_or response (lit ''indices'') (PList [])) (\<lambda>indices.
     rbind (get_or response (lit ''aliases'') (PList [])) (\<lambda>aliases.
     rbind (get_or response (lit ''data_streams'') (PList [])) (\<lambda>streams.
     if py_truthy aliases \<or> py_truthy streams then Inl frozen_drift
     else rbind (py_iter indices) (\<lambda>xs.
       (case xs of
          [x] \<Rightarrow> rbind (get_or x (lit ''name'') PNone) (\<lambda>n. if py_str E n \<noteq> name then Inl frozen_drift else Inr ())
        | _ \<Rightarrow> Inl frozen_drift)))))"

fun resolve_failure :: "es_error \<Rightarrow> es_error" where
  "resolve_failure (ApiStatus n) =
     (if n = 404 then Raised frozen_drift
      else if \<not> operational_error (ApiStatus n) then ApiStatus n
      else Raised (SearchUnavailable ''frozen_index''))"
| "resolve_failure Transport = Raised (SearchUnavailable ''frozen_index'')"
| "resolve_failure (Raised e) = Raised e"

fun is_key_type_value :: "exn \<Rightarrow> bool" where
  "is_key_type_value (LookupError _) = True"
| "is_key_type_value (TypeError _) = True"
| "is_key_type_value e = is_value_error e"

definition value_keys :: "py_value \<Rightarrow> pystr list" where
  "value_keys v = (case v of PDict d \<Rightarrow> map fst d | _ \<Rightarrow> [])"

definition text_of :: "py_value option \<Rightarrow> pystr option" where
  "text_of v = (case v of Some (PStr s) \<Rightarrow> Some s | _ \<Rightarrow> None)"

definition number_of :: "py_value option \<Rightarrow> int option" where
  "number_of v = (case v of Some (PInt n) \<Rightarrow> Some n | _ \<Rightarrow> None)"

text \<open>The identity in the metadata of an index; \<open>_meta.rag\<close> has exactly the required keys and types.\<close>

definition frozen_metadata :: "pystr \<Rightarrow> py_value \<Rightarrow> frozen_identity res" where
  "frozen_metadata name raw =
     rbind (get_or raw (lit ''settings'') (PDict [])) (\<lambda>settings.
     rbind (get_or settings (lit ''index'') (PDict [])) (\<lambda>index_settings.
     rbind (get_or raw (lit ''mappings'') (PDict [])) (\<lambda>mappings.
     rbind (py_get mappings (lit ''_meta'')) (\<lambda>meta.
     (case meta of
        Some (PDict m) \<Rightarrow>
          (case map_of m (lit ''rag'') of
             Some (PDict rag) \<Rightarrow>
               rbind (py_get index_settings (lit ''uuid'')) (\<lambda>uuid_value.
               (case (text_of uuid_value, number_of (map_of rag (lit ''mapping_version'')),
                   number_of (map_of rag (lit ''vector_dimension'')), text_of (map_of rag (lit ''index_build_id'')),
                   text_of (map_of rag (lit ''projection_id'')), text_of (map_of rag (lit ''indexing_profile_id''))) of
                  (Some u, Some mapping, Some dimension, Some build_text, Some projection_text, Some profile_text) \<Rightarrow>
                    if set (map fst rag) \<noteq> set required_mapping then Inl reindex_required
                    else
                      rbind (recover is_key_type_value reindex_required
                        (rbind (parse_uuid build_text) (\<lambda>b. rbind (parse_uuid projection_text) (\<lambda>p.
                         rbind (parse_uuid profile_text) (\<lambda>f.
                           new_frozen_identity \<lparr>fi_name = name, fi_uuid = u, fi_build = b, fi_projection = p, fi_profile = f,
                             fi_dimension = dimension, fi_mapping = mapping\<rparr>))))) (\<lambda>identity.
                      if uuid_text (fi_build identity) \<noteq> build_text \<or> uuid_text (fi_projection identity) \<noteq> projection_text
                         \<or> uuid_text (fi_profile identity) \<noteq> profile_text
                      then Inl reindex_required else Inr identity)
                | _ \<Rightarrow> Inl reindex_required))
           | _ \<Rightarrow> Inl reindex_required)
      | _ \<Rightarrow> Inl reindex_required)))))"

definition describe_frozen_index :: "value_env \<Rightarrow> 's es_client \<Rightarrow> pystr \<Rightarrow> ('s, frozen_identity) es_run" where
  "describe_frozen_index E C name =
     es_bind (es_catch resolve_failure
         (es_bind (ec_resolve C name) (\<lambda>response. es_bind (es_pure (resolved_exactly E name response)) (\<lambda>_. ec_get C name))))
       (\<lambda>metadata.
         (case metadata of
            PDict [(k, raw)] \<Rightarrow>
              if k \<noteq> name then es_pure (Inl frozen_drift) else es_pure (frozen_metadata name raw)
          | _ \<Rightarrow> es_pure (Inl frozen_drift)))"

definition require_same_identity :: "frozen_identity \<Rightarrow> frozen_identity \<Rightarrow> unit res" where
  "require_same_identity expected actual = (if actual \<noteq> expected then Inl frozen_drift else Inr ())"

fun require_concrete_indices :: "value_env \<Rightarrow> 's es_client \<Rightarrow> frozen_identity list \<Rightarrow> ('s, unit) es_run" where
  "require_concrete_indices E C [] = es_return ()"
| "require_concrete_indices E C (i # is) =
     es_bind (describe_frozen_index E C (fi_name i)) (\<lambda>actual.
     es_bind (es_pure (require_same_identity i actual)) (\<lambda>_. require_concrete_indices E C is))"

section \<open>Hits\<close>

definition raw_hits :: "py_value \<Rightarrow> py_value list res" where
  "raw_hits response = rbind (py_item response (lit ''hits'')) (\<lambda>h. rbind (py_item h (lit ''hits'')) py_iter)"

definition validate_frozen_hit :: "value_env \<Rightarrow> frozen_identity \<Rightarrow> py_value \<Rightarrow> unit res" where
  "validate_frozen_hit E i hit =
     rbind (get_or hit (lit ''_source'') (PDict [])) (\<lambda>source.
     rbind (get_or source (lit ''index_build_id'') PNone) (\<lambda>build.
     rbind (get_or source (lit ''projection_id'') PNone) (\<lambda>projection.
     rbind (get_or source (lit ''indexing_profile_id'') PNone) (\<lambda>profile.
     rbind (get_or source (lit ''rag_mapping_version'') PNone) (\<lambda>mapping.
       if py_str E build \<noteq> uuid_text (fi_build i) \<or> py_str E projection \<noteq> uuid_text (fi_projection i)
          \<or> py_str E profile \<noteq> uuid_text (fi_profile i)
          \<or> \<not> (case mapping of PInt n \<Rightarrow> n = fi_mapping i | PBool b \<Rightarrow> (if b then 1 else 0) = fi_mapping i
               | PFloat (Finite q) \<Rightarrow> q = of_int (fi_mapping i) | _ \<Rightarrow> False)
       then Inl frozen_drift else Inr ())))))"

definition hit_score :: "value_env \<Rightarrow> py_value \<Rightarrow> py_float res" where
  "hit_score E hit =
     rbind (get_or hit (lit ''_score'') PNone) (\<lambda>score. if score = PNone then Inr (Finite 0) else py_float_of E score)"

definition hit_chunk_text :: "value_env \<Rightarrow> py_value \<Rightarrow> pystr res" where
  "hit_chunk_text E hit =
     rbind (get_or hit (lit ''_source'') (PDict [])) (\<lambda>source.
     rbind (get_or source (lit ''chunk_id'') (PStr [])) (\<lambda>c. Inr (py_str E c)))"

text \<open>
  The sort key of a hit; a NaN, which JSON cannot carry, is put last.
\<close>

fun float_neg :: "py_float \<Rightarrow> py_float" where
  "float_neg (Finite q) = Finite (- q)"
| "float_neg PosInf = NegInf"
| "float_neg NegInf = PosInf"
| "float_neg NaN = NaN"

fun float_key :: "py_float \<Rightarrow> nat \<times> rat" where
  "float_key NegInf = (0, 0)"
| "float_key (Finite q) = (1, q)"
| "float_key PosInf = (2, 0)"
| "float_key NaN = (3, 0)"

definition hit_key :: "value_env \<Rightarrow> py_value \<Rightarrow> ((nat \<times> rat) \<times> pystr) res" where
  "hit_key E hit = rbind (hit_score E hit) (\<lambda>s. rbind (hit_chunk_text E hit) (\<lambda>c. Inr (float_key (float_neg s), c)))"

definition scored_hit :: "value_env \<Rightarrow> nat \<times> py_value \<Rightarrow> ranked_input res" where
  "scored_hit E rh = rbind (parse_chunk E (snd rh)) (\<lambda>c. rbind (hit_score E (snd rh)) (\<lambda>s. Inr (ScoredHit c (int (fst rh)) s)))"

definition ranked_hits :: "value_env \<Rightarrow> int \<Rightarrow> py_value list \<Rightarrow> ranked_input list res" where
  "ranked_hits E top_k responses =
     rbind (mapr raw_hits responses) (\<lambda>hss.
     rbind (mapr (\<lambda>h. rbind (hit_key E h) (\<lambda>k. Inr (k, h))) (concat hss)) (\<lambda>keyed_hits.
       mapr (scored_hit E) (enumerate 1 (take (nat top_k) (map snd (sort_key fst keyed_hits))))))"

section \<open>Retrieval\<close>

definition frozen_body ::
  "value_env \<Rightarrow> 's es_client \<Rightarrow> frozen_identity \<Rightarrow> pystr \<Rightarrow> es_match \<Rightarrow> es_filter list \<Rightarrow> int \<Rightarrow> 's
     \<Rightarrow> (es_error + py_value) \<times> pystr \<times> 's" where
  "frozen_body E C i pit m filters top_k s =
     (case es_bind (describe_frozen_index E C (fi_name i)) (\<lambda>after. es_bind (es_pure (require_same_identity i after)) (\<lambda>_.
         ec_search C \<lparr>es_place = InPit pit, es_match = m, es_filters = filters, es_size = top_k\<rparr>)) s of
        (Inl e, s') \<Rightarrow> (Inl e, pit, s')
      | (Inr response, s') \<Rightarrow>
          (case py_get response (lit ''pit_id'') of
             Inl e \<Rightarrow> (Inl (Raised e), pit, s')
           | Inr v \<Rightarrow>
               let pit' = (case text_of v of Some t \<Rightarrow> if t \<noteq> [] then t else pit | None \<Rightarrow> pit)
               in (case rbind (raw_hits response) (mapr (validate_frozen_hit E i)) of
                     Inl e \<Rightarrow> (Inl (Raised e), pit', s')
                   | Inr _ \<Rightarrow> (Inr response, pit', s'))))"

definition close_acknowledged :: "es_error + py_value \<Rightarrow> bool" where
  "close_acknowledged c =
     (case c of Inl _ \<Rightarrow> False
      | Inr answer \<Rightarrow> (case get_or answer (lit ''succeeded'') (PBool False) of Inl _ \<Rightarrow> False | Inr v \<Rightarrow> py_truthy v))"

definition close_pit :: "'s es_client \<Rightarrow> pystr \<Rightarrow> es_error + py_value \<Rightarrow> ('s, py_value) es_run" where
  "close_pit C pit result s =
     (case ec_close C pit s of (c, s') \<Rightarrow>
        (if close_acknowledged c then result
         else (case result of Inl e \<Rightarrow> Inl e | Inr _ \<Rightarrow> Inl (Raised (RuntimeError ''point_in_time_cleanup''))), s'))"

definition frozen_search ::
  "value_env \<Rightarrow> 's es_client \<Rightarrow> es_match \<Rightarrow> es_filter list \<Rightarrow> int \<Rightarrow> frozen_identity \<Rightarrow> ('s, py_value) es_run" where
  "frozen_search E C m filters top_k i =
     es_bind (describe_frozen_index E C (fi_name i)) (\<lambda>before.
     es_bind (es_pure (require_same_identity i before)) (\<lambda>_.
     es_bind (ec_open C (fi_name i)) (\<lambda>opened.
     es_bind (es_pure (py_item opened (lit ''id''))) (\<lambda>v s.
       (case frozen_body E C i (py_str E v) m filters top_k s of
          (result, pit, s') \<Rightarrow> close_pit C pit result s')))))"

fun frozen_searches ::
  "value_env \<Rightarrow> 's es_client \<Rightarrow> es_match \<Rightarrow> es_filter list \<Rightarrow> int \<Rightarrow> frozen_identity list \<Rightarrow> ('s, py_value list) es_run" where
  "frozen_searches E C m filters top_k [] = es_return []"
| "frozen_searches E C m filters top_k (i # is) =
     es_bind (frozen_search E C m (filters @ identity_filters i) top_k i) (\<lambda>r.
     es_bind (frozen_searches E C m filters top_k is) (\<lambda>rs. es_return (r # rs)))"

definition validate_search :: "search_target \<Rightarrow> resolved_scope \<Rightarrow> int \<Rightarrow> unit res" where
  "validate_search target scope top_k =
     (if sc_workspaces scope = [] then Inl (ValueError ''search_scope'')
      else if (case target of ActiveTarget _ \<Rightarrow> \<not> sc_active_only scope | FrozenTarget _ \<Rightarrow> sc_active_only scope)
      then Inl (ValueError ''search_target'')
      else if \<not> sc_ready_only scope then Inl (ValueError ''search_ready'')
      else if top_k < 1 then Inl (ValueError ''search_top_k'')
      else Inr ())"

fun search_failure :: "es_error \<Rightarrow> es_error" where
  "search_failure e = (if operational_error e then Raised (SearchUnavailable ''search'') else e)"

definition search_responses ::
  "value_env \<Rightarrow> 's es_client \<Rightarrow> search_target \<Rightarrow> es_match \<Rightarrow> uuid \<Rightarrow> resolved_scope \<Rightarrow> int \<Rightarrow> ('s, py_value list) es_run" where
  "search_responses E C target m actor scope top_k =
     es_catch search_failure
       (case target of
          FrozenTarget t \<Rightarrow> frozen_searches E C m (build_scope_filter actor scope) top_k (ft_identities t)
        | ActiveTarget t \<Rightarrow>
            es_bind (ec_search C \<lparr>es_place = InIndex (alias_name t), es_match = m,
                es_filters = build_scope_filter actor scope, es_size = top_k\<rparr>) (\<lambda>r. es_return [r]))"

definition retrieve ::
  "value_env \<Rightarrow> 's es_client \<Rightarrow> search_target \<Rightarrow> es_match \<Rightarrow> uuid \<Rightarrow> resolved_scope \<Rightarrow> int \<Rightarrow> ('s, ranked_input list) es_run" where
  "retrieve E C target m actor scope top_k =
     es_bind (es_pure (validate_search target scope top_k)) (\<lambda>_.
     es_bind (es_pure (if m = Knn [] then Inl (ValueError ''query_vector'') else Inr ())) (\<lambda>_.
     es_bind (search_responses E C target m actor scope top_k) (\<lambda>responses. es_pure (ranked_hits E top_k responses))))"

text \<open>The two retrievers; an error of the client that is not about its availability is passed on.\<close>

fun raised :: "es_error \<Rightarrow> exn" where
  "raised (Raised e) = e"
| "raised (ApiStatus n) = RuntimeError ''elasticsearch_api''"
| "raised Transport = RuntimeError ''elasticsearch_transport''"

definition es_result :: "es_error + 'a \<Rightarrow> 'a res" where
  "es_result r = (case r of Inl e \<Rightarrow> Inl (raised e) | Inr x \<Rightarrow> Inr x)"

definition search_sparse ::
  "value_env \<Rightarrow> 's es_client \<Rightarrow> 's \<Rightarrow> search_target \<Rightarrow> pystr \<Rightarrow> uuid \<Rightarrow> resolved_scope \<Rightarrow> int \<Rightarrow> ranked_input list res" where
  "search_sparse E C s target query actor scope top_k =
     es_result (fst (retrieve E C target (MultiMatch query) actor scope top_k s))"

definition search_dense ::
  "value_env \<Rightarrow> 's es_client \<Rightarrow> 's \<Rightarrow> search_target \<Rightarrow> py_float list \<Rightarrow> uuid \<Rightarrow> resolved_scope \<Rightarrow> int \<Rightarrow> ranked_input list res" where
  "search_dense E C s target vector actor scope top_k =
     es_result (fst (retrieve E C target (Knn vector) actor scope top_k s))"

section \<open>What a retrieval returns\<close>

lemma es_bind_Inr:
  assumes "es_bind m f s = (Inr y, t)"
  obtains x s' where "m s = (Inr x, s')" "f x s' = (Inr y, t)"
  using assms by (auto simp: es_bind_def split: prod.splits sum.splits)

lemma es_pure_Inr: "es_pure r s = (Inr x, t) \<longleftrightarrow> r = Inr x \<and> t = s"
  by (auto simp: es_pure_def split: sum.splits)

lemma es_catch_Inr: "es_catch h m s = (Inr x, t) \<longleftrightarrow> m s = (Inr x, t)"
  by (auto simp: es_catch_def split: prod.splits sum.splits)

lemma es_return_Inr: "es_return y s = (Inr x, t) \<longleftrightarrow> x = y \<and> t = s"
  by (auto simp: es_return_def)

text \<open>Every ranked hit is one of the raw hits, parsed; ranks count from one.\<close>

lemma ranked_hits_parts:
  assumes "ranked_hits E top_k responses = Inr hs"
  shows "map hit_rank hs = map int [1..<length hs + 1]" "int (length hs) \<le> max top_k 0"
    "h \<in> set hs \<Longrightarrow> \<exists>c r sc response xs hit. h = ScoredHit c r sc \<and> response \<in> set responses
       \<and> raw_hits response = Inr xs \<and> hit \<in> set xs \<and> parse_chunk E hit = Inr c \<and> hit_score E hit = Inr sc"
proof -
  from assms obtain hss keyed where *: "mapr raw_hits responses = Inr hss"
    "mapr (\<lambda>h. rbind (hit_key E h) (\<lambda>k. Inr (k, h))) (concat hss) = Inr keyed"
    "mapr (scored_hit E) (enumerate 1 (take (nat top_k) (map snd (sort_key fst keyed)))) = Inr hs"
    by (auto simp: ranked_hits_def)
  let ?cut = "take (nat top_k) (map snd (sort_key fst keyed))"
  note len = mapr_length [OF *(3)]
  show "int (length hs) \<le> max top_k 0" using len by simp
  have nth: "scored_hit E (1 + i, ?cut ! i) = Inr (hs ! i)" if "i < length hs" for i
    using mapr_nth [OF *(3), of i] that len by (simp add: nth_enumerate_eq)
  show "map hit_rank hs = map int [1..<length hs + 1]"
  proof (rule nth_equalityI)
    fix i assume "i < length (map hit_rank hs)"
    with nth [of i] show "map hit_rank hs ! i = map int [1..<length hs + 1] ! i"
      by (auto simp: scored_hit_def nth_upt simp del: upt_Suc dest!: sym [of "ScoredHit _ _ _"])
  qed (simp del: upt_Suc)
  have cut: "x \<in> set (concat hss)" if "x \<in> set ?cut" for x
  proof -
    from that have "x \<in> snd ` set keyed" by (auto dest!: in_set_takeD)
    then show ?thesis using mapr_set [OF *(2)] by fastforce
  qed
  show "\<exists>c r sc response xs hit. h = ScoredHit c r sc \<and> response \<in> set responses
       \<and> raw_hits response = Inr xs \<and> hit \<in> set xs \<and> parse_chunk E hit = Inr c \<and> hit_score E hit = Inr sc" if h: "h \<in> set hs"
  proof -
    from h obtain i where i: "i < length hs" "h = hs ! i" by (metis in_set_conv_nth)
    from nth [OF i(1)] i(2) obtain c sc where c: "h = ScoredHit c (int (1 + i)) sc" "parse_chunk E (?cut ! i) = Inr c"
      "hit_score E (?cut ! i) = Inr sc" by (auto simp: scored_hit_def dest!: sym [of "ScoredHit _ _ _"])
    have "?cut ! i \<in> set ?cut" using i(1) len by (intro nth_mem) simp
    from cut [OF this] obtain xs where "xs \<in> set hss" "?cut ! i \<in> set xs" by auto
    moreover from this(1) mapr_set [OF *(1)] obtain response where "response \<in> set responses" "raw_hits response = Inr xs" by blast
    ultimately show ?thesis using c by blast
  qed
qed

lemma frozen_search_validated:
  assumes "frozen_search E C m filters top_k i s = (Inr response, t)"
  shows "\<exists>xs us. raw_hits response = Inr xs \<and> mapr (validate_frozen_hit E i) xs = Inr us"
proof -
  from assms obtain p s1 where "(case frozen_body E C i p m filters top_k s1 of
      (result, pit, s') \<Rightarrow> close_pit C pit result s') = (Inr response, t)"
    unfolding frozen_search_def by (elim es_bind_Inr) auto
  then obtain pit s2 where "frozen_body E C i p m filters top_k s1 = (Inr response, pit, s2)"
    by (auto simp: close_pit_def split: prod.splits if_splits sum.splits)
  then show ?thesis
    unfolding frozen_body_def by (auto simp: Let_def split: prod.splits sum.splits)
qed

lemma frozen_searches_validated:
  "frozen_searches E C m filters top_k is s = (Inr responses, t) \<Longrightarrow> response \<in> set responses
     \<Longrightarrow> \<exists>i\<in>set is. \<exists>xs us. raw_hits response = Inr xs \<and> mapr (validate_frozen_hit E i) xs = Inr us"
proof (induction "is" arbitrary: s responses)
  case (Cons i "is")
  from Cons.prems(1) obtain r s1 rs where r: "frozen_search E C m (filters @ identity_filters i) top_k i s = (Inr r, s1)"
    "frozen_searches E C m filters top_k is s1 = (Inr rs, t)" "responses = r # rs"
    by (auto elim!: es_bind_Inr simp: es_return_Inr)
  from Cons.prems(2) r(3) consider "response = r" | "response \<in> set rs" by auto
  then show ?case
  proof cases
    case 1
    with frozen_search_validated [OF r(1)] show ?thesis by auto
  next
    case 2
    from Cons.IH [OF r(2) 2] show ?thesis by auto
  qed
qed (simp add: es_return_Inr)

lemma validated_chunk:
  assumes "validate_frozen_hit E i hit = Inr u" "parse_chunk E hit = Inr c" "uuid_ok (fi_build i)" "uuid_ok (fi_projection i)"
  shows "rc_build c = fi_build i" "rc_projection c = fi_projection i"
proof -
  from assms(2) obtain source where source: "py_item hit (lit ''_source'') = Inr source"
    and ids: "uuid_item E source (lit ''index_build_id'') = Inr (rc_build c)" "uuid_item E source (lit ''projection_id'') = Inr (rc_projection c)"
    by (auto simp: parse_chunk_def simp del: lit_simps)
  have got: "get_or hit (lit ''_source'') x = Inr source" for x
    using source by (auto simp: py_item_def get_or_def py_get_def simp del: lit_simps split: py_value.splits option.splits)
  have item: "parse_uuid (py_str E v) = Inr w" if "uuid_item E source k = Inr w" "get_or source k PNone = Inr v" for k v w
    using that by (auto simp: uuid_item_def py_item_def get_or_def py_get_def split: py_value.splits option.splits)
  from assms(1) obtain b p where v: "get_or source (lit ''index_build_id'') PNone = Inr b" "py_str E b = uuid_text (fi_build i)"
    "get_or source (lit ''projection_id'') PNone = Inr p" "py_str E p = uuid_text (fi_projection i)"
    unfolding validate_frozen_hit_def got by (auto simp del: lit_simps split: if_splits)
  from item [OF ids(1) v(1)] item [OF ids(2) v(3)] v(2,4) assms(3,4) show "rc_build c = fi_build i" "rc_projection c = fi_projection i"
    by (simp_all add: parse_uuid_text)
qed

lemma retrieve_Inr:
  assumes "retrieve E C target m actor scope top_k s = (Inr hs, t)"
  obtains s1 responses where "validate_search target scope top_k = Inr ()"
    "search_responses E C target m actor scope top_k s = (Inr responses, s1)" "ranked_hits E top_k responses = Inr hs"
  using assms unfolding retrieve_def by (auto elim!: es_bind_Inr simp: es_pure_Inr)

lemma frozen_retrieve:
  assumes "retrieve E C (FrozenTarget target) m actor scope top_k s = (Inr hs, t)" "h \<in> set hs"
    and "\<And>i. i \<in> set (ft_identities target) \<Longrightarrow> uuid_ok (fi_build i) \<and> uuid_ok (fi_projection i)"
  shows "\<exists>c r sc. h = ScoredHit c r sc \<and> (\<exists>i\<in>set (ft_identities target). rc_build c = fi_build i \<and> rc_projection c = fi_projection i)"
proof -
  from assms(1) obtain s1 responses where r: "search_responses E C (FrozenTarget target) m actor scope top_k s = (Inr responses, s1)"
    "ranked_hits E top_k responses = Inr hs" by (rule retrieve_Inr)
  from ranked_hits_parts(3) [OF r(2) assms(2)] obtain c n sc response xs hit where
    h: "h = ScoredHit c n sc" "response \<in> set responses" "raw_hits response = Inr xs" "hit \<in> set xs" "parse_chunk E hit = Inr c" by blast
  from r(1) have "frozen_searches E C m (build_scope_filter actor scope) top_k (ft_identities target) s = (Inr responses, s1)"
    by (simp add: search_responses_def es_catch_Inr)
  from frozen_searches_validated [OF this h(2)] obtain i us where i: "i \<in> set (ft_identities target)" "mapr (validate_frozen_hit E i) xs = Inr us"
    using h(3) by auto
  then obtain u where "validate_frozen_hit E i hit = Inr u" using h(4) by (metis in_set_conv_nth mapr_nth)
  from validated_chunk [OF this h(5)] assms(3) [OF i(1)] h(1) i(1) show ?thesis by blast
qed

text \<open>
  What the documentation of the engine promises of a search: the hits are stored documents that
  match every filter, with the requested fields of their source.
\<close>

definition field_values :: "pystr \<Rightarrow> (pystr \<times> py_value) list \<Rightarrow> py_value list" where
  "field_values f d = (case map_of d f of None \<Rightarrow> [] | Some PNone \<Rightarrow> [] | Some (PList xs) \<Rightarrow> xs | Some v \<Rightarrow> [v])"

fun filter_matches :: "es_filter \<Rightarrow> (pystr \<times> py_value) list \<Rightarrow> bool" where
  "filter_matches (Terms f vs) d = list_ex (\<lambda>v. v \<in> set (map PStr vs)) (field_values f d)"
| "filter_matches (Term f v) d = (v \<in> set (field_values f d))"
| "filter_matches MatchNone d = False"
| "filter_matches (Should fs) d = list_ex (\<lambda>f. filter_matches f d) fs"
| "filter_matches (AllOf fs) d = list_all (\<lambda>f. filter_matches f d) fs"

definition engine_filters :: "index_document list \<Rightarrow> 's es_client \<Rightarrow> bool" where
  "engine_filters docs C \<longleftrightarrow>
     (\<forall>q s response t xs hit. ec_search C q s = (Inr response, t) \<longrightarrow> raw_hits response = Inr xs \<longrightarrow> hit \<in> set xs \<longrightarrow>
        (\<exists>d\<in>set docs. \<exists>score. hit = stored_hit d score \<and> (\<forall>f\<in>set (es_filters q). filter_matches f (to_projection d))))"

lemma scope_filter_matches:
  assumes "\<forall>f\<in>set (build_scope_filter actor scope). filter_matches f (to_projection d)" "sc_active_only scope"
    and "document_stored d" "\<And>i. i \<in> set (sc_authorized scope) \<Longrightarrow> uuid_ok (di_version i) \<and> uuid_ok (di_projection i) \<and> uuid_ok (di_build i)"
  shows "\<exists>i\<in>set (sc_authorized scope). xd_version d = di_version i \<and> xd_projection d = di_projection i \<and> xd_build d = di_build i"
    "uuid_text (xd_workspace d) \<in> uuid_text ` set (sc_workspaces scope)" "uuid_text actor \<in> uuid_text ` set (xd_allowed d)"
proof -
  have ok: "uuid_ok (xd_version d)" "uuid_ok (xd_projection d)" "uuid_ok (xd_build d)"
    using assms(3) unfolding document_stored_def by blast+
  have field: "field_values (lit ''asset_version_id'') (to_projection d) = [uuid_value (xd_version d)]"
    "field_values (lit ''projection_id'') (to_projection d) = [uuid_value (xd_projection d)]"
    "field_values (lit ''index_build_id'') (to_projection d) = [uuid_value (xd_build d)]"
    "field_values (lit ''workspace_id'') (to_projection d) = [uuid_value (xd_workspace d)]"
    "field_values (lit ''allowed_user_ids'') (to_projection d) = map uuid_value (xd_allowed d)"
    by (simp_all add: field_values_def to_projection_def del: lit_simps)
  have "Terms (lit ''workspace_id'') (map uuid_text (sc_workspaces scope)) \<in> set (build_scope_filter actor scope)"
    "Term (lit ''allowed_user_ids'') (uuid_value actor) \<in> set (build_scope_filter actor scope)"
    by (simp_all add: build_scope_filter_def)
  with assms(1) have "filter_matches (Terms (lit ''workspace_id'') (map uuid_text (sc_workspaces scope))) (to_projection d)"
    "filter_matches (Term (lit ''allowed_user_ids'') (uuid_value actor)) (to_projection d)" by (blast, blast)
  then show "uuid_text (xd_workspace d) \<in> uuid_text ` set (sc_workspaces scope)" "uuid_text actor \<in> uuid_text ` set (xd_allowed d)"
    unfolding filter_matches.simps field by auto
  have ne: "sc_authorized scope \<noteq> []"
  proof
    assume "sc_authorized scope = []"
    then have "MatchNone \<in> set (build_scope_filter actor scope)" using assms(2) by (simp add: build_scope_filter_def)
    with assms(1) show False by auto
  qed
  let ?all = "\<lambda>i. AllOf [Term (lit ''asset_version_id'') (uuid_value (di_version i)),
                Term (lit ''projection_id'') (uuid_value (di_projection i)), Term (lit ''index_build_id'') (uuid_value (di_build i))]"
  have "Should (map ?all (sc_authorized scope)) \<in> set (build_scope_filter actor scope)"
    using ne assms(2) by (simp add: build_scope_filter_def)
  with assms(1) have "filter_matches (Should (map ?all (sc_authorized scope))) (to_projection d)" by blast
  then obtain i where i: "i \<in> set (sc_authorized scope)" "filter_matches (?all i) (to_projection d)"
    unfolding filter_matches.simps(4) list_ex_iff set_map by blast
  then have "uuid_text (xd_version d) = uuid_text (di_version i)" "uuid_text (xd_projection d) = uuid_text (di_projection i)"
    "uuid_text (xd_build d) = uuid_text (di_build i)" by (simp_all add: field del: lit_simps)
  with assms(4) [OF i(1)] ok i(1) show "\<exists>i\<in>set (sc_authorized scope). xd_version d = di_version i \<and> xd_projection d = di_projection i
      \<and> xd_build d = di_build i" by (blast dest: uuid_text_inj)
qed

lemma active_retrieve:
  assumes "retrieve E C (ActiveTarget target) m actor scope top_k s = (Inr hs, t)" "h \<in> set hs" "engine_filters docs C"
    and "\<And>d. d \<in> set docs \<Longrightarrow> document_stored d"
  shows "\<exists>d\<in>set docs. \<exists>r sc. h = ScoredHit (chunk_of_document d) r sc
    \<and> (\<forall>f\<in>set (build_scope_filter actor scope). filter_matches f (to_projection d))"
proof -
  from assms(1) obtain s1 responses where r: "search_responses E C (ActiveTarget target) m actor scope top_k s = (Inr responses, s1)"
    "ranked_hits E top_k responses = Inr hs" by (rule retrieve_Inr)
  from ranked_hits_parts(3) [OF r(2) assms(2)] obtain c n sc response xs hit where
    h: "h = ScoredHit c n sc" "response \<in> set responses" "raw_hits response = Inr xs" "hit \<in> set xs" "parse_chunk E hit = Inr c" by blast
  from r(1) h(2) obtain q where q: "ec_search C q s = (Inr response, s1)" "es_filters q = build_scope_filter actor scope"
    by (auto simp: search_responses_def es_catch_Inr es_return_Inr elim!: es_bind_Inr)
  from assms(3) q h(3,4) obtain d score where d: "d \<in> set docs" "hit = stored_hit d score"
    "\<forall>f\<in>set (build_scope_filter actor scope). filter_matches f (to_projection d)"
    unfolding engine_filters_def by metis
  from parse_stored_hit [OF assms(4) [OF d(1)], of E score] h(5) d(2) have "c = chunk_of_document d" by simp
  with h(1) d(1,3) show ?thesis by blast
qed

end
