(* ===== verification/Hybrid_Search.thy ===== *)
theory Hybrid_Search
  imports Search_Engine
begin

text \<open>
  The search service (\<^verbatim>\<open>retrieval/service.py\<close>) over the scope resolver, the query embedding
  (\<^verbatim>\<open>retrieval/query_embedding.py\<close>), the two retrievers and the rank fusion.
\<close>

section \<open>Query embedding\<close>

text \<open>An embedding port; its runtime error is a \<^verbatim>\<open>RuntimeError\<close> of its own.\<close>

record embedding_port =
  em_count_query :: "pystr \<Rightarrow> int res"
  em_encode_query :: "pystr \<Rightarrow> py_float list res"

abbreviation embedding_runtime_unavailable :: exn where
  "embedding_runtime_unavailable \<equiv> RuntimeError ''embedding_runtime_unavailable''"

abbreviation query_embedding_unavailable :: exn where
  "query_embedding_unavailable \<equiv> RuntimeError ''query_embedding_unavailable''"

definition count_query_tokens :: "embedding_port \<Rightarrow> pystr \<Rightarrow> int res" where
  "count_query_tokens M query =
     recover (\<lambda>e. e = embedding_runtime_unavailable) query_embedding_unavailable (em_count_query M query)"

definition encode_query :: "embedding_port \<Rightarrow> pystr \<Rightarrow> py_float list res" where
  "encode_query M query =
     recover (\<lambda>e. e = embedding_runtime_unavailable) query_embedding_unavailable (em_encode_query M query)"

section \<open>Profiles\<close>

datatype profile_kind = DOCUMENT_PROCESSING | INDEXING_PROFILE | RETRIEVAL | GENERATION

record retrieval_profile =
  rf_kind :: profile_kind
  rf_config :: "(pystr \<times> py_value) list"

definition config_mapping :: "py_value option \<Rightarrow> (pystr \<times> py_value) list res" where
  "config_mapping v = (case v of Some (PDict d) \<Rightarrow> Inr d | _ \<Rightarrow> Inl (ValueError ''configuration_mapping''))"

definition non_negative_integer :: "py_value option \<Rightarrow> int res" where
  "non_negative_integer v =
     (case v of Some (PInt n) \<Rightarrow> if n < 0 then Inl (ValueError ''non_negative_integer'') else Inr n
      | _ \<Rightarrow> Inl (ValueError ''non_negative_integer''))"

definition positive_integer :: "py_value option \<Rightarrow> int res" where
  "positive_integer v =
     rbind (non_negative_integer v) (\<lambda>n. if n < 1 then Inl (ValueError ''positive_integer'') else Inr n)"

definition retrieval_settings :: "retrieval_profile \<Rightarrow> (int \<times> int option \<times> int) res" where
  "retrieval_settings p =
     (if rf_kind p \<noteq> RETRIEVAL then Inl (ValueError ''retrieval_profile'')
      else
        let config = map_of (rf_config p)
        in rbind (config_mapping (config (lit ''bm25''))) (\<lambda>bm25.
           rbind (positive_integer (map_of bm25 (lit ''top_k''))) (\<lambda>bm25_top_k.
           (case config (lit ''dense'') of
              None \<Rightarrow> Inr (bm25_top_k, None, 60)
            | Some v \<Rightarrow>
                rbind (config_mapping (Some v)) (\<lambda>dense.
                rbind (positive_integer (map_of dense (lit ''top_k''))) (\<lambda>dense_top_k.
                rbind (config_mapping (config (lit ''rrf''))) (\<lambda>rrf.
                rbind (non_negative_integer (map_of rrf (lit ''k''))) (\<lambda>k.
                  if k \<noteq> 60 then Inl (ValueError ''rrf_baseline'') else Inr (bm25_top_k, Some dense_top_k, k)))))))))"

definition validate_active_alias :: "retrieval_profile \<Rightarrow> uuid \<Rightarrow> search_target \<Rightarrow> int option \<Rightarrow> unit res" where
  "validate_active_alias p indexing target dense_top_k =
     (if target_profile target \<noteq> indexing then Inl (ValueError ''alias_profile'')
      else
        let v = map_of (rf_config p) (lit ''indexing_profile_id'')
        in if (v = None \<or> v = Some PNone) \<and> dense_top_k = None then Inr ()
           else (case v of
               Some (PStr s) \<Rightarrow>
                 rbind (recover is_value_error (ValueError ''profile_uuid'') (parse_uuid s)) (\<lambda>expected.
                   if indexing \<noteq> expected then Inl (ValueError ''profile_reference'') else Inr ())
             | _ \<Rightarrow> Inl (ValueError ''profile_uuid'')))"

section \<open>The service\<close>

text \<open>
  The resolver is asked at two moments; which of two failing branches of the task group ends
  first, so that the other one is cancelled, is not determined.
\<close>

datatype race = BothFail | SparseFirst | DenseFirst

record search_ports =
  sp_resolve :: "nat \<Rightarrow> scope_request \<Rightarrow> resolved_scope res"
  sp_embedding :: embedding_port
  sp_sparse :: "search_target \<Rightarrow> pystr \<Rightarrow> uuid \<Rightarrow> resolved_scope \<Rightarrow> int \<Rightarrow> ranked_input list res"
  sp_dense :: "search_target \<Rightarrow> py_float list \<Rightarrow> uuid \<Rightarrow> resolved_scope \<Rightarrow> int \<Rightarrow> ranked_input list res"
  sp_race :: race

record search_request =
  sq_scope :: scope_request
  sq_query :: pystr
  sq_profile :: retrieval_profile
  sq_target :: search_target
  sq_limit :: int
  sq_max_tokens :: int

fun only_backend_failures :: "exn \<Rightarrow> bool" where
  "only_backend_failures (ExceptionGroup es) = list_all only_backend_failures es"
| "only_backend_failures (SearchUnavailable _) = True"
| "only_backend_failures _ = False"

definition group_errors :: "race \<Rightarrow> 'a res \<Rightarrow> 'b res \<Rightarrow> exn list" where
  "group_errors race s d =
     (case (s, d) of
        (Inl a, Inl b) \<Rightarrow> (case race of BothFail \<Rightarrow> [a, b] | SparseFirst \<Rightarrow> [a] | DenseFirst \<Rightarrow> [b])
      | (Inl a, Inr _) \<Rightarrow> [a]
      | (Inr _, Inl b) \<Rightarrow> [b]
      | (Inr _, Inr _) \<Rightarrow> [])"

abbreviation hybrid_unavailable :: exn where
  "hybrid_unavailable \<equiv> AppError ''hybrid_search_unavailable'' 503"

definition run_branches :: "search_ports \<Rightarrow> 'a res \<Rightarrow> 'b res \<Rightarrow> ('a \<times> 'b) res" where
  "run_branches P s d =
     (case (s, d) of
        (Inr x, Inr y) \<Rightarrow> Inr (x, y)
      | _ \<Rightarrow>
          let e = ExceptionGroup (group_errors (sp_race P) s d)
          in Inl (if \<not> only_backend_failures e then e else hybrid_unavailable))"

fun is_search_unavailable :: "exn \<Rightarrow> bool" where
  "is_search_unavailable (SearchUnavailable _) = True"
| "is_search_unavailable _ = False"

definition keyword_search :: "search_ports \<Rightarrow> search_request \<Rightarrow> pystr \<Rightarrow> resolved_scope \<Rightarrow> int \<Rightarrow> fused_hit list res" where
  "keyword_search P q query scope top_k =
     rbind (recover is_search_unavailable (AppError ''bm25_search_unavailable'' 503)
         (sp_sparse P (sq_target q) query (rq_actor (sq_scope q)) scope top_k)) (\<lambda>hits.
       rbind (rrf_fuse hits [] 60) (\<lambda>fused. Inr (take (nat (sq_limit q)) fused)))"

definition dual_search ::
  "search_ports \<Rightarrow> search_request \<Rightarrow> pystr \<Rightarrow> resolved_scope \<Rightarrow> int \<Rightarrow> int \<Rightarrow> int \<Rightarrow> fused_hit list res" where
  "dual_search P q query scope bm25_top_k dense_top_k k =
     rbind (recover (\<lambda>e. e = query_embedding_unavailable) hybrid_unavailable (encode_query (sp_embedding P) query)) (\<lambda>vector.
     rbind (sp_resolve P 1 (sq_scope q)) (\<lambda>current.
     rbind (if sc_active_only scope then require_authorized_identities (sc_authorized scope) current else Inr ()) (\<lambda>_.
     rbind (run_branches P (sp_sparse P (sq_target q) query (rq_actor (sq_scope q)) scope bm25_top_k)
           (sp_dense P (sq_target q) vector (rq_actor (sq_scope q)) scope dense_top_k)) (\<lambda>(sparse, dense).
     rbind (rrf_fuse sparse dense k) (\<lambda>fused. Inr (take (nat (sq_limit q)) fused))))))"

definition hybrid_search :: "search_ports \<Rightarrow> search_request \<Rightarrow> fused_hit list res" where
  "hybrid_search P q =
     (let query = strip (sq_query q)
      in if query = [] then Inl (AppError ''invalid_query'' 422)
         else if sq_limit q < 1 then Inl (AppError ''invalid_result_limit'' 422)
         else if sq_max_tokens q < 1 then Inl (ValueError ''query_max_tokens'')
         else
           rbind (recover (\<lambda>e. e = query_embedding_unavailable) (AppError ''query_tokenizer_unavailable'' 503)
               (count_query_tokens (sp_embedding P) query)) (\<lambda>tokens.
           if tokens > sq_max_tokens q then Inl (AppError ''query_token_limit_exceeded'' 422)
           else
             rbind (retrieval_settings (sq_profile q)) (\<lambda>(bm25_top_k, dense_top_k, k).
             rbind (validate_active_alias (sq_profile q) (rq_indexing (sq_scope q)) (sq_target q) dense_top_k) (\<lambda>_.
             rbind (sp_resolve P 0 (sq_scope q)) (\<lambda>scope.
             if (case sq_target q of ActiveTarget _ \<Rightarrow> \<not> sc_active_only scope | FrozenTarget _ \<Rightarrow> False)
             then Inl (ValueError ''active_alias_scope'')
             else if sc_active_only scope \<and> sc_authorized scope = [] then Inr []
             else
               (case dense_top_k of
                  None \<Rightarrow> keyword_search P q query scope bm25_top_k
                | Some n \<Rightarrow> dual_search P q query scope bm25_top_k n k))))))"

section \<open>Where the hits come from\<close>

lemma fused_from_hits:
  assumes "rrf_fuse sparse dense k = Inr fused" "f \<in> set fused"
    and "\<And>h. h \<in> set (sparse @ dense) \<Longrightarrow> \<exists>c r s. h = ScoredHit c r s"
  shows "\<exists>c r s. ScoredHit c r s \<in> set (sparse @ dense) \<and> fh_chunk f = Some c \<and> fh_id f = ChunkUuid (rc_chunk c)"
proof -
  from rrf_fuse_ids(2) [OF assms(1)] assms(2) have "fh_id f \<in> hit_id ` set (sparse @ dense)" by auto
  then obtain h where h: "h \<in> set (sparse @ dense)" "fh_id f = hit_id h" by auto
  from assms(3) [OF h(1)] obtain c r s where c: "h = ScoredHit c r s" by blast
  from rrf_fuse_ids(3) [OF assms(1)] assms(2) have "fusion_of sparse dense k f" by blast
  with h c have "fh_chunk f = Some c" by (auto simp: fusion_of_def Let_def)
  with h c show ?thesis by auto
qed

lemma run_branches_Inr: "run_branches P s d = Inr (x, y) \<longleftrightarrow> s = Inr x \<and> d = Inr y"
  by (cases s; cases d) (auto simp: run_branches_def Let_def)

lemma require_authorized_Inr:
  "require_authorized_identities required current = Inr u \<longleftrightarrow> set required \<subseteq> set (sc_authorized current)"
  by (auto simp: require_authorized_identities_def list_all_iff)

lemma hybrid_search_Inr:
  assumes "hybrid_search P q = Inr hits"
  obtains (nothing) "hits = []"
  | (sparse) scope n rs fused where "retrieval_settings (sq_profile q) = Inr (n, None, 60)" "sp_resolve P 0 (sq_scope q) = Inr scope"
      "sp_sparse P (sq_target q) (strip (sq_query q)) (rq_actor (sq_scope q)) scope n = Inr rs"
      "rrf_fuse rs [] 60 = Inr fused" "hits = take (nat (sq_limit q)) fused"
  | (both) scope current n m vector rs ds fused where "retrieval_settings (sq_profile q) = Inr (n, Some m, 60)"
      "sp_resolve P 0 (sq_scope q) = Inr scope"
      "sp_resolve P 1 (sq_scope q) = Inr current"
      "sc_active_only scope \<longrightarrow> set (sc_authorized scope) \<subseteq> set (sc_authorized current)"
      "sp_sparse P (sq_target q) (strip (sq_query q)) (rq_actor (sq_scope q)) scope n = Inr rs"
      "sp_dense P (sq_target q) vector (rq_actor (sq_scope q)) scope m = Inr ds"
      "rrf_fuse rs ds 60 = Inr fused" "hits = take (nat (sq_limit q)) fused"
proof -
  from assms obtain bm dense k scope where *: "retrieval_settings (sq_profile q) = Inr (bm, dense, k)"
    "sp_resolve P 0 (sq_scope q) = Inr scope"
    "hits = [] \<or> (case dense of None \<Rightarrow> keyword_search P q (strip (sq_query q)) scope bm
        | Some n \<Rightarrow> dual_search P q (strip (sq_query q)) scope bm n k) = Inr hits"
    by (auto simp: hybrid_search_def Let_def split: if_splits)
  have k: "k = 60" using *(1) by (auto simp: retrieval_settings_def Let_def split: if_splits option.splits)
  from *(3) consider "hits = []" | "dense = None" "keyword_search P q (strip (sq_query q)) scope bm = Inr hits"
    | n where "dense = Some n" "dual_search P q (strip (sq_query q)) scope bm n k = Inr hits" by (cases dense) auto
  then show thesis
  proof cases
    case 1
    then show thesis by (rule nothing)
  next
    case 2
    then obtain rs fused where "sp_sparse P (sq_target q) (strip (sq_query q)) (rq_actor (sq_scope q)) scope bm = Inr rs"
      "rrf_fuse rs [] 60 = Inr fused" "hits = take (nat (sq_limit q)) fused"
      by (auto simp: keyword_search_def recover_simps(3))
    with *(1,2) 2(1) k show thesis using sparse by blast
  next
    case (3 n)
    then obtain vector current rs ds fused where "sp_resolve P 1 (sq_scope q) = Inr current"
      "sc_active_only scope \<longrightarrow> set (sc_authorized scope) \<subseteq> set (sc_authorized current)"
      "sp_sparse P (sq_target q) (strip (sq_query q)) (rq_actor (sq_scope q)) scope bm = Inr rs"
      "sp_dense P (sq_target q) vector (rq_actor (sq_scope q)) scope n = Inr ds"
      "rrf_fuse rs ds k = Inr fused" "hits = take (nat (sq_limit q)) fused"
      by (cases "sc_active_only scope") (auto simp: dual_search_def recover_simps(3) run_branches_Inr require_authorized_Inr)
    with *(1,2) 3(1) k show thesis using both by blast
  qed
qed

end
