(* ===== verification/Search_Properties.thy ===== *)
theory Search_Properties
  imports Hybrid_Search Verification_Properties Chunking_Properties
begin

text \<open>
  What a search can show: the scope it runs in, the versions in that scope across the
  verification of the asset library, the chunks as they were indexed, and the hits of the service.
\<close>

section \<open>A searchable document\<close>

definition demo_projection :: rag_projection where
  "demo_projection = \<lparr>rp_id = UUID 81, rp_version = UUID 32, rp_indexing_profile = UUID 91, rp_status = PROJECTION_READY,
     rp_processing_profile = UUID 92\<rparr>"

definition demo_build :: index_build where
  "demo_build = \<lparr>ib_id = UUID 82, ib_projection = UUID 81, ib_indexing_profile = UUID 91, ib_processing_profile = UUID 92,
     ib_status = Some (lit ''ready''), ib_active = True\<rparr>"

definition demo_verified :: library_db where
  "demo_verified = mark_ready demo_version demo_document None demo_uploaded"

definition demo_search_db :: search_db where
  "demo_search_db = \<lparr>sd_lib = demo_verified, sd_projections = [demo_projection], sd_builds = [demo_build]\<rparr>"

definition demo_identity :: document_identity where
  "demo_identity = \<lparr>di_document = UUID 31, di_version = UUID 32, di_projection = UUID 81, di_build = UUID 82\<rparr>"

definition demo_scope_env :: scope_env where
  "demo_scope_env = \<lparr>se_sha256 = (\<lambda>b. b), se_max_count = 100\<rparr>"

definition demo_scope_request :: scope_request where
  "demo_scope_request = \<lparr>rq_actor = UUID 12, rq_workspaces = [UUID 10], rq_folders = [], rq_indexing = UUID 91,
     rq_documents = Some [UUID 31, UUID 31], rq_processing = Some (UUID 92)\<rparr>"

definition demo_scope :: resolved_scope where
  "demo_scope = scope_of demo_scope_env [UUID 10] [] (Some [UUID 31]) [demo_identity]"

lemma demo_resolves: "resolve_scope demo_scope_env demo_search_db 0 0 demo_scope_request = Inr demo_scope"
proof -
  have lib: "lb_ws demo_verified = demo_ws" "lb_documents demo_verified = [demo_document\<lparr>do_active := Some (UUID 32)\<rparr>]"
    "lb_versions demo_verified = [demo_version\<lparr>av_status := READY\<rparr>]"
    by (simp_all add: demo_verified_def mark_ready_def Let_def demo_uploaded_def demo_library_def demo_document_def demo_version_def put_row_def)
  have keys: "dict_fromkeys (rq_workspaces demo_scope_request) = [UUID 10]" "dict_fromkeys (rq_folders demo_scope_request) = []"
    "dict_fromkeys [UUID 31, UUID 31] = [UUID 31]"
    by (simp_all add: demo_scope_request_def dict_fromkeys_def)
  have w: "\<not> workspaces_refused demo_search_db 0 0 (UUID 12) [UUID 10]"
    by (simp add: workspaces_refused_def find_workspace_access_def access_rows_def in_order_def map_filter_simps demo_search_db_def
        lib demo_ws_def workspace_read_allowed_def access_authorized_def)
  have f: "\<not> folders_refused demo_search_db [UUID 10] []" by (simp add: folders_refused_def)
  have n: "normalize_document_ids (Some [UUID 31, UUID 31]) 100 = Inr (Some [UUID 31])"
    by (simp add: normalize_document_ids_def sorted_ids_def keys(3))
  have m: "\<not> selection_misplaced demo_search_db [UUID 10] [] [UUID 31]"
    by (simp add: selection_misplaced_def find_document_locations_def in_order_def map_filter_simps demo_search_db_def lib
        demo_document_def)
  have s: "find_searchable_lifecycle demo_search_db [UUID 10] [] (UUID 91) (Some [UUID 31]) (Some (UUID 92)) = [demo_identity]"
    by (simp add: find_searchable_lifecycle_def searchable_row_def row_identity_def demo_search_db_def lib demo_projection_def
        demo_build_def demo_document_def demo_version_def demo_identity_def)
  show ?thesis
    unfolding resolve_scope_def keys(1,2) Let_def
    using w f n m s by (simp add: demo_scope_request_def demo_scope_env_def demo_scope_def demo_identity_def)
qed

section \<open>The scope\<close>

definition may_read :: "search_db \<Rightarrow> int \<Rightarrow> int \<Rightarrow> uuid \<Rightarrow> uuid \<Rightarrow> bool" where
  "may_read db db_now now actor w \<longleftrightarrow>
     (\<exists>row\<in>set (wd_workspaces (lb_ws (sd_lib db))). wr_id row = w
        \<and> workspace_read_allowed (lb_ws (sd_lib db)) db_now actor row \<and> workspace_is_active now row)"

text \<open>
  C19.  A resolved scope is authorized and complete.  Every requested workspace is one the actor may
  read; one that he may not read, or that does not exist, is refused with the same answer,
  and readable workspaces alone are never refused.  Every
  requested folder lies in one of the workspaces.  The authorized documents are exactly those of
  these workspaces and folders with a ready active version, a ready projection and an active ready
  build of the profiles, and among them exactly the selected ones, in the order of their identifiers,
  when documents are selected.
\<close>

theorem resolved_scope_is_authorized:
  assumes "keyed wr_id (wd_workspaces (lb_ws (sd_lib db)))"
  shows "case resolve_scope E db db_now now q of
      Inl e \<Rightarrow> if \<forall>w\<in>set (rq_workspaces q). may_read db db_now now (rq_actor q) w
        then rq_workspaces q = [] \<or> rq_folders q \<noteq> [] \<or> rq_documents q \<noteq> None
        else e = AppError ''not_found'' 404
    | Inr s \<Rightarrow> set (sc_workspaces s) = set (rq_workspaces q) \<and> set (sc_folders s) = set (rq_folders q)
        \<and> (\<forall>w\<in>set (rq_workspaces q). may_read db db_now now (rq_actor q) w)
        \<and> (\<forall>f\<in>set (rq_folders q). \<exists>row\<in>set (lb_folders (sd_lib db)). fo_id row = f \<and> fo_workspace row \<in> set (rq_workspaces q))
        \<and> (\<forall>i. i \<in> set (sc_authorized s) \<longleftrightarrow>
             (\<exists>d\<in>set (lb_documents (sd_lib db)). \<exists>v\<in>set (lb_versions (sd_lib db)). \<exists>p\<in>set (sd_projections db). \<exists>b\<in>set (sd_builds db).
                searchable_row (sc_workspaces s) (sc_folders s) (rq_indexing q) (sc_documents s) (rq_processing q) d v p b
                \<and> i = row_identity d v p b))
        \<and> (\<forall>xs. rq_documents q = Some xs \<longrightarrow> sc_selected s = sc_authorized s
             \<and> map di_document (sc_selected s) = sorted_ids xs \<and> int (length (sc_selected s)) \<le> se_max_count E)"
proof (cases "resolve_scope E db db_now now q")
  case (Inl e)
  have "e = resource_not_found" if "w \<in> set (rq_workspaces q)" "\<not> may_read db db_now now (rq_actor q) w" for w
  proof -
    have "workspaces_refused db db_now now (rq_actor q) (dict_fromkeys (rq_workspaces q))"
      using workspaces_accepted [of db db_now now "rq_actor q" "dict_fromkeys (rq_workspaces q)" w] that by (auto simp: may_read_def)
    moreover have "dict_fromkeys (rq_workspaces q) \<noteq> []" using that(1) by (metis empty_iff list.set(1) set_dict_fromkeys)
    ultimately show ?thesis using Inl by (simp add: resolve_scope_def Let_def)
  qed
  moreover have False if "\<forall>w\<in>set (rq_workspaces q). may_read db db_now now (rq_actor q) w" "rq_workspaces q \<noteq> []"
    "rq_folders q = []" "rq_documents q = None"
  proof -
    have "\<not> workspaces_refused db db_now now (rq_actor q) (dict_fromkeys (rq_workspaces q))"
      using that(1) by (intro readable_accepted [OF assms]) (simp add: may_read_def)
    moreover have "dict_fromkeys (rq_workspaces q) \<noteq> []" using that(2) by (metis set_dict_fromkeys set_empty)
    moreover have "\<not> folders_refused db (dict_fromkeys (rq_workspaces q)) (dict_fromkeys [])"
      by (simp add: folders_refused_def dict_fromkeys_def)
    ultimately show False using Inl that(3,4) by (simp add: resolve_scope_def Let_def normalize_document_ids_def)
  qed
  ultimately show ?thesis using Inl by auto
next
  case (Inr s)
  from Inr obtain selected identities where s:
    "s = scope_of E (dict_fromkeys (rq_workspaces q)) (dict_fromkeys (rq_folders q)) selected identities"
    "\<not> workspaces_refused db db_now now (rq_actor q) (dict_fromkeys (rq_workspaces q))"
    "\<not> folders_refused db (dict_fromkeys (rq_workspaces q)) (dict_fromkeys (rq_folders q))"
    "normalize_document_ids (rq_documents q) (se_max_count E) = Inr selected"
    "identities = sort_key (\<lambda>i. uuid_text (di_document i)) (find_searchable_lifecycle db (dict_fromkeys (rq_workspaces q))
       (dict_fromkeys (rq_folders q)) (rq_indexing q) selected (rq_processing q))"
    "\<forall>ids. selected = Some ids \<longrightarrow> map di_document identities = ids \<and> rq_processing q \<noteq> None"
    by (rule resolve_scope_Inr)
  have sel: "sc_selected s = identities \<and> map di_document identities = sorted_ids xs \<and> int (length identities) \<le> se_max_count E"
    if "rq_documents q = Some xs" for xs
  proof -
    from s(4) that normalize_None_iff [of "rq_documents q" "se_max_count E"] obtain ids where ids: "selected = Some ids" by (cases selected) auto
    with s(4) obtain ys where "rq_documents q = Some ys" "ids = sorted_ids ys" "int (length ids) \<le> se_max_count E"
      by (metis normalize_Inr)
    moreover from s(6) ids have m: "map di_document identities = ids" by blast
    moreover have "length identities = length ids" using m by (metis length_map)
    ultimately show ?thesis using ids that by (auto simp: s(1) scope_of_def)
  qed
  have "i \<in> set identities \<longleftrightarrow> i \<in> set (find_searchable_lifecycle db (dict_fromkeys (rq_workspaces q))
       (dict_fromkeys (rq_folders q)) (rq_indexing q) selected (rq_processing q))" for i by (simp add: s(5))
  moreover have "\<forall>w\<in>set (rq_workspaces q). may_read db db_now now (rq_actor q) w"
    using workspaces_accepted [OF s(2)] by (simp add: may_read_def)
  moreover have "\<forall>f\<in>set (rq_folders q). \<exists>row\<in>set (lb_folders (sd_lib db)). fo_id row = f \<and> fo_workspace row \<in> set (rq_workspaces q)"
    using folders_accepted [OF s(3)] by simp
  ultimately show ?thesis
    using sel by (simp add: Inr s(1) scope_of_def find_searchable_set)
qed

theorem resolved_scope_is_authorized_witness:
  "may_read demo_search_db 0 0 (UUID 12) (UUID 10) \<and> map di_document (sc_selected demo_scope) = sorted_ids [UUID 31, UUID 31]"
proof -
  have "keyed wr_id (wd_workspaces (lb_ws (sd_lib demo_search_db)))"
    by (simp add: demo_search_db_def demo_verified_def mark_ready_def Let_def demo_uploaded_def demo_library_def demo_ws_def)
  note all = resolved_scope_is_authorized [OF this, where E = demo_scope_env and db_now = 0 and now = 0 and q = demo_scope_request,
      unfolded demo_resolves sum.case]
  from all have "may_read demo_search_db 0 0 (UUID 12) (UUID 10)" by (simp add: demo_scope_request_def)
  moreover from all have "\<forall>xs. rq_documents demo_scope_request = Some xs \<longrightarrow> sc_selected demo_scope = sc_authorized demo_scope
      \<and> map di_document (sc_selected demo_scope) = sorted_ids xs \<and> int (length (sc_selected demo_scope)) \<le> se_max_count demo_scope_env"
    by (elim conjE)
  moreover have "rq_documents demo_scope_request = Some [UUID 31, UUID 31]" by (simp add: demo_scope_request_def)
  ultimately show ?thesis by blast
qed

section \<open>Searchable versions are verified\<close>

text \<open>
  A search sees verified and current content only.  Over any history of uploads, verifications,
  retries, dispatches and crashes, whatever the projections and index builds are, every authorized
  document of a scope stands for the newest ready version of its document, and the object of that
  version was read back, at some moment of the history, with the digest and the length on record.
\<close>

theorem searchable_versions_are_verified:
  assumes "verif_history L (st # h)" "sd_lib db = jb_lib (vf_db st)"
    "resolve_scope E db db_now now q = Inr s" "i \<in> set (sc_authorized s)"
  shows "\<exists>v\<in>set (lb_versions (sd_lib db)). av_id v = di_version i \<and> av_document v = di_document i \<and> av_status v = READY
    \<and> (\<forall>w\<in>set (lb_versions (sd_lib db)). av_document w = di_document i \<and> av_status w = READY \<longrightarrow> av_number w \<le> av_number v)
    \<and> (\<exists>s0\<in>set (st # h). \<exists>b. vf_store s0 (av_object_key v) = Some b \<and> le_sha256 L b = av_sha256 v \<and> int (length b) = av_size v)"
proof -
  from assms(3) obtain selected identities where s:
    "s = scope_of E (dict_fromkeys (rq_workspaces q)) (dict_fromkeys (rq_folders q)) selected identities"
    "identities = sort_key (\<lambda>i. uuid_text (di_document i)) (find_searchable_lifecycle db (dict_fromkeys (rq_workspaces q))
       (dict_fromkeys (rq_folders q)) (rq_indexing q) selected (rq_processing q))" by (rule resolve_scope_Inr)
  from assms(4) have "i \<in> set (find_searchable_lifecycle db (dict_fromkeys (rq_workspaces q))
       (dict_fromkeys (rq_folders q)) (rq_indexing q) selected (rq_processing q))" by (simp add: s scope_of_def)
  then obtain d v p b where r: "d \<in> set (lb_documents (sd_lib db))" "v \<in> set (lb_versions (sd_lib db))" "i = row_identity d v p b"
    "do_id d = av_document v" "do_active d = Some (av_id v)" "av_status v = READY"
    unfolding find_searchable_set searchable_row_def by blast
  have ok: "hist_ok L st h" using verif_history_ok [OF assms(1)] by simp
  then have act: "active_ok (jb_lib (vf_db st)) d" and jobs: "jobs_ok (vf_db st)"
    using r(1) assms(2) by (simp_all add: hist_ok_def actives_ok_def)
  from jobs have "keyed av_id (lb_versions (jb_lib (vf_db st)))" by (simp add: jobs_ok_def)
  with act have newest: "av_number w \<le> av_number v" if "w \<in> set (lb_versions (sd_lib db))" "av_document w = do_id d" "av_status w = READY" for w
    using that r(2,5) assms(2) by (auto simp: active_ok_def ready_of_def dest: keyed_eq)
  have "was_checked L (st # h) v" using ok r(2,6) assms(2) by (simp add: hist_ok_def)
  then obtain s0 where s0: "s0 \<in> set (st # h)" "verify_stored_asset L (vf_store s0) v = Inr ()" unfolding was_checked_def by blast
  from s0(2) obtain bytes where "vf_store s0 (av_object_key v) = Some bytes" "le_sha256 L bytes = av_sha256 v" "int (length bytes) = av_size v"
    by (auto simp: verify_stored_asset_def split: option.splits if_splits)
  with s0(1) newest r(2-6) show ?thesis by (intro bexI [of _ v] conjI) (auto simp: row_identity_def)
qed

theorem searchable_versions_are_verified_witness:
  "\<exists>v st h. verif_history demo_library_env (st # h) \<and> sd_lib demo_search_db = jb_lib (vf_db st)
     \<and> v \<in> set (lb_versions demo_verified) \<and> av_id v = UUID 32 \<and> (\<exists>s0\<in>set (st # h). vf_store s0 (av_object_key v) \<noteq> None)"
proof -
  obtain st h where r: "verif_history demo_library_env (st # h)"
    "jb_lib (vf_db st) = mark_ready demo_version demo_document None demo_uploaded" by (rule demo_run_library)
  have lib: "sd_lib demo_search_db = jb_lib (vf_db st)" by (simp add: demo_search_db_def demo_verified_def r(2))
  have "demo_identity \<in> set (sc_authorized demo_scope)" by (simp add: demo_scope_def scope_of_def)
  from searchable_versions_are_verified [OF r(1) lib demo_resolves this] r(1) lib show ?thesis
    by (fastforce simp: demo_identity_def demo_search_db_def)
qed

section \<open>What a search shows\<close>

text \<open>
  The search service on the adapters of the code: the resolver on the database of each moment and
  the two retrievers on the engine.
\<close>

record 's search_world =
  sw_scope_env :: scope_env
  sw_values :: value_env
  sw_db :: "nat \<Rightarrow> search_db"
  sw_db_now :: "nat \<Rightarrow> int"
  sw_now :: "nat \<Rightarrow> int"
  sw_client :: "'s es_client"
  sw_sparse :: 's
  sw_dense :: 's

definition service_ports :: "'s search_world \<Rightarrow> embedding_port \<Rightarrow> race \<Rightarrow> search_ports" where
  "service_ports W M r =
     \<lparr>sp_resolve = (\<lambda>n. resolve_scope (sw_scope_env W) (sw_db W n) (sw_db_now W n) (sw_now W n)),
      sp_embedding = M,
      sp_sparse = search_sparse (sw_values W) (sw_client W) (sw_sparse W),
      sp_dense = search_dense (sw_values W) (sw_client W) (sw_dense W),
      sp_race = r\<rparr>"

definition rows_fit :: "search_db \<Rightarrow> bool" where
  "rows_fit db \<longleftrightarrow>
     (\<forall>v\<in>set (lb_versions (sd_lib db)). uuid_ok (av_id v)) \<and> (\<forall>p\<in>set (sd_projections db). uuid_ok (rp_id p))
     \<and> (\<forall>b\<in>set (sd_builds db). uuid_ok (ib_id b))"

text \<open>The indexed document stands for an authorized identity of the scope resolved at a moment.\<close>

definition authorized_at :: "'s search_world \<Rightarrow> nat \<Rightarrow> scope_request \<Rightarrow> index_document \<Rightarrow> bool" where
  "authorized_at W n q d \<longleftrightarrow>
     (\<exists>s i. resolve_scope (sw_scope_env W) (sw_db W n) (sw_db_now W n) (sw_now W n) q = Inr s \<and> i \<in> set (sc_authorized s)
        \<and> xd_version d = di_version i \<and> xd_projection d = di_projection i \<and> xd_build d = di_build i
        \<and> uuid_text (xd_workspace d) \<in> uuid_text ` set (rq_workspaces q))"

lemma authorized_fit:
  assumes "resolve_scope E db db_now now q = Inr s" "rows_fit db" "i \<in> set (sc_authorized s)"
  shows "uuid_ok (di_version i) \<and> uuid_ok (di_projection i) \<and> uuid_ok (di_build i)"
proof -
  from assms(1) obtain selected identities where s:
    "s = scope_of E (dict_fromkeys (rq_workspaces q)) (dict_fromkeys (rq_folders q)) selected identities"
    "identities = sort_key (\<lambda>i. uuid_text (di_document i)) (find_searchable_lifecycle db (dict_fromkeys (rq_workspaces q))
       (dict_fromkeys (rq_folders q)) (rq_indexing q) selected (rq_processing q))" by (rule resolve_scope_Inr)
  with assms(3) have "i \<in> set (find_searchable_lifecycle db (dict_fromkeys (rq_workspaces q))
       (dict_fromkeys (rq_folders q)) (rq_indexing q) selected (rq_processing q))" by (simp add: scope_of_def)
  with assms(2) show ?thesis unfolding find_searchable_set rows_fit_def row_identity_def by auto
qed

lemma resolved_workspaces:
  assumes "resolve_scope E db db_now now q = Inr s"
  shows "set (sc_workspaces s) = set (rq_workspaces q)"
  using assms by (rule resolve_scope_Inr) (simp add: scope_of_def)

text \<open>Whatever retriever returned it: a hit of an active target is an indexed document of the scope.\<close>

lemma retrieved_authorized:
  assumes "retrieve V C (ActiveTarget target) m (rq_actor q) scope n s = (Inr hs, t)" "h \<in> set hs" "engine_filters docs C"
    and "\<And>d. d \<in> set docs \<Longrightarrow> document_stored d"
    and "resolve_scope (sw_scope_env W) (sw_db W 0) (sw_db_now W 0) (sw_now W 0) q = Inr scope" "rows_fit (sw_db W 0)"
  shows "sc_active_only scope" "\<exists>d\<in>set docs. \<exists>r sc. h = ScoredHit (chunk_of_document d) r sc \<and> authorized_at W 0 q d
    \<and> (\<exists>i\<in>set (sc_authorized scope). xd_version d = di_version i \<and> xd_projection d = di_projection i \<and> xd_build d = di_build i)
    \<and> uuid_text (rq_actor q) \<in> uuid_text ` set (xd_allowed d)"
proof -
  have "validate_search (ActiveTarget target) scope n = Inr ()" using assms(1) by (rule retrieve_Inr)
  then show act: "sc_active_only scope" by (auto simp: validate_search_def split: if_splits)
  from active_retrieve [OF assms(1-4)] obtain d r sc where d: "d \<in> set docs" "h = ScoredHit (chunk_of_document d) r sc"
    "\<forall>f\<in>set (build_scope_filter (rq_actor q) scope). filter_matches f (to_projection d)" by blast
  note m = scope_filter_matches [OF d(3) act assms(4) [OF d(1)] authorized_fit [OF assms(5,6)]]
  from m(1) obtain i where i: "i \<in> set (sc_authorized scope)" "xd_version d = di_version i" "xd_projection d = di_projection i"
    "xd_build d = di_build i" by blast
  have "authorized_at W 0 q d"
    unfolding authorized_at_def using assms(5) i m(2) resolved_workspaces [OF assms(5)] by (intro exI [of _ scope] exI [of _ i]) auto
  with d(1,2) i m(3) show "\<exists>d\<in>set docs. \<exists>r sc. h = ScoredHit (chunk_of_document d) r sc \<and> authorized_at W 0 q d
    \<and> (\<exists>i\<in>set (sc_authorized scope). xd_version d = di_version i \<and> xd_projection d = di_projection i \<and> xd_build d = di_build i)
    \<and> uuid_text (rq_actor q) \<in> uuid_text ` set (xd_allowed d)" by blast
qed

lemma search_sparse_Inr: "search_sparse V C s target m actor scope n = Inr hs
    \<longleftrightarrow> (\<exists>t. retrieve V C target (MultiMatch m) actor scope n s = (Inr hs, t))"
  by (auto simp: search_sparse_def es_result_def split: sum.splits) (metis fst_conv prod.collapse)+

lemma search_dense_Inr: "search_dense V C s target m actor scope n = Inr hs
    \<longleftrightarrow> (\<exists>t. retrieve V C target (Knn m) actor scope n s = (Inr hs, t))"
  by (auto simp: search_dense_def es_result_def split: sum.splits) (metis fst_conv prod.collapse)+

text \<open>
  C18.  A search shows authorized content only.  On an engine that answers with stored documents
  matching the filters of the query, every hit of a search over an active alias is, word for word,
  an indexed chunk that lists the actor among its readers, lies in one of the requested workspaces
  and stands for a document authorized when the scope was resolved, and with a dense branch for one
  still authorized after the query was embedded.  A chunk is shown once, and no more chunks than asked for.
\<close>

theorem search_shows_only_authorized:
  assumes "hybrid_search (service_ports W M r) q = Inr hits" "sq_target q = ActiveTarget target"
    and "engine_filters docs (sw_client W)" "\<And>d. d \<in> set docs \<Longrightarrow> document_stored d" "rows_fit (sw_db W 0)"
  shows "(\<forall>h\<in>set hits. \<exists>d\<in>set docs. fh_chunk h = Some (chunk_of_document d) \<and> fh_id h = ChunkUuid (xd_chunk d)
        \<and> authorized_at W 0 (sq_scope q) d \<and> uuid_text (rq_actor (sq_scope q)) \<in> uuid_text ` set (xd_allowed d)
        \<and> (\<forall>n m k. retrieval_settings (sq_profile q) = Inr (n, Some m, k) \<longrightarrow> authorized_at W 1 (sq_scope q) d))
    \<and> distinct (map fh_id hits) \<and> length hits \<le> nat (sq_limit q)"
  using assms(1)
proof (cases rule: hybrid_search_Inr)
  case (sparse scope n rs fused)
  from sparse(2,3) have scope: "resolve_scope (sw_scope_env W) (sw_db W 0) (sw_db_now W 0) (sw_now W 0) (sq_scope q) = Inr scope"
    and rs: "\<exists>t. retrieve (sw_values W) (sw_client W) (ActiveTarget target) (MultiMatch (strip (sq_query q))) (rq_actor (sq_scope q)) scope n
      (sw_sparse W) = (Inr rs, t)"
    by (simp_all add: service_ports_def search_sparse_Inr assms(2))
  from rs obtain t where rs: "retrieve (sw_values W) (sw_client W) (ActiveTarget target) (MultiMatch (strip (sq_query q)))
      (rq_actor (sq_scope q)) scope n (sw_sparse W) = (Inr rs, t)" by blast
  note all = retrieved_authorized(2) [OF rs _ assms(3,4) scope assms(5)]
  have "\<exists>d\<in>set docs. fh_chunk h = Some (chunk_of_document d) \<and> fh_id h = ChunkUuid (xd_chunk d)
      \<and> authorized_at W 0 (sq_scope q) d \<and> uuid_text (rq_actor (sq_scope q)) \<in> uuid_text ` set (xd_allowed d)" if "h \<in> set hits" for h
  proof -
    from that sparse(5) have "h \<in> set fused" by (auto dest: in_set_takeD)
    from fused_from_hits [OF sparse(4) this] all obtain c a b where c: "ScoredHit c a b \<in> set rs" "fh_chunk h = Some c"
      "fh_id h = ChunkUuid (rc_chunk c)" by auto blast
    from all [OF c(1)] c(2,3) show ?thesis by (auto simp: chunk_of_document_def)
  qed
  moreover have "distinct (map fh_id hits)" "length hits \<le> nat (sq_limit q)"
    using rrf_fuse_ids(1) [OF sparse(4)] by (simp_all add: sparse(5) take_map [symmetric])
  ultimately show ?thesis using sparse(1) by (auto)
next
  case (both scope current n m vector rs ds fused)
  from both(2,3,5,6) have scope: "resolve_scope (sw_scope_env W) (sw_db W 0) (sw_db_now W 0) (sw_now W 0) (sq_scope q) = Inr scope"
    and current: "resolve_scope (sw_scope_env W) (sw_db W 1) (sw_db_now W 1) (sw_now W 1) (sq_scope q) = Inr current"
    and rs: "\<exists>t. retrieve (sw_values W) (sw_client W) (ActiveTarget target) (MultiMatch (strip (sq_query q))) (rq_actor (sq_scope q)) scope n
      (sw_sparse W) = (Inr rs, t)"
    and ds: "\<exists>t. retrieve (sw_values W) (sw_client W) (ActiveTarget target) (Knn vector) (rq_actor (sq_scope q)) scope m
      (sw_dense W) = (Inr ds, t)"
    by (simp_all add: service_ports_def search_sparse_Inr search_dense_Inr assms(2))
  from rs ds obtain t u where rs: "retrieve (sw_values W) (sw_client W) (ActiveTarget target) (MultiMatch (strip (sq_query q)))
      (rq_actor (sq_scope q)) scope n (sw_sparse W) = (Inr rs, t)"
    and ds: "retrieve (sw_values W) (sw_client W) (ActiveTarget target) (Knn vector)
      (rq_actor (sq_scope q)) scope m (sw_dense W) = (Inr ds, u)" by blast
  have all: "\<exists>d\<in>set docs. \<exists>r sc. h = ScoredHit (chunk_of_document d) r sc \<and> authorized_at W 0 (sq_scope q) d
      \<and> authorized_at W 1 (sq_scope q) d \<and> uuid_text (rq_actor (sq_scope q)) \<in> uuid_text ` set (xd_allowed d)" if h: "h \<in> set (rs @ ds)" for h
  proof -
    have act: "sc_active_only scope" using retrieved_authorized(1) h rs ds assms(3,4,5) scope by (metis Un_iff set_append)
    from h retrieved_authorized(2) [OF rs _ assms(3,4) scope assms(5)] retrieved_authorized(2) [OF ds _ assms(3,4) scope assms(5)]
    obtain d a b i where d: "d \<in> set docs" "h = ScoredHit (chunk_of_document d) a b" "authorized_at W 0 (sq_scope q) d"
      "i \<in> set (sc_authorized scope)" "xd_version d = di_version i" "xd_projection d = di_projection i" "xd_build d = di_build i"
      "uuid_text (rq_actor (sq_scope q)) \<in> uuid_text ` set (xd_allowed d)" by auto blast+
    from act both(4) d(4) have "i \<in> set (sc_authorized current)" by auto
    with d(3,5-7) current have "authorized_at W 1 (sq_scope q) d" unfolding authorized_at_def by blast
    with d show ?thesis by blast
  qed
  have "\<exists>d\<in>set docs. fh_chunk h = Some (chunk_of_document d) \<and> fh_id h = ChunkUuid (xd_chunk d) \<and> authorized_at W 0 (sq_scope q) d
      \<and> authorized_at W 1 (sq_scope q) d \<and> uuid_text (rq_actor (sq_scope q)) \<in> uuid_text ` set (xd_allowed d)" if "h \<in> set hits" for h
  proof -
    from that both(8) have "h \<in> set fused" by (auto dest: in_set_takeD)
    from fused_from_hits [OF both(7) this] all obtain c a b where c: "ScoredHit c a b \<in> set (rs @ ds)" "fh_chunk h = Some c"
      "fh_id h = ChunkUuid (rc_chunk c)" by blast
    from all [OF c(1)] c(2,3) show ?thesis by (auto simp: chunk_of_document_def)
  qed
  moreover have "distinct (map fh_id hits)" "length hits \<le> nat (sq_limit q)"
    using rrf_fuse_ids(1) [OF both(7)] by (simp_all add: both(8) take_map [symmetric])
  ultimately show ?thesis by blast
qed simp

text \<open>A reference engine that keeps the law: it returns the stored documents matching the filters.\<close>

definition matching_documents :: "es_filter list \<Rightarrow> index_document list \<Rightarrow> index_document list" where
  "matching_documents fs docs = filter (\<lambda>d. \<forall>f\<in>set fs. filter_matches f (to_projection d)) docs"

definition hits_response :: "index_document list \<Rightarrow> py_value" where
  "hits_response docs = PDict [(lit ''hits'', PDict [(lit ''hits'', PList (map (\<lambda>d. stored_hit d (Finite 1)) docs))])]"

definition reference_client :: "index_document list \<Rightarrow> unit es_client" where
  "reference_client docs =
     \<lparr>ec_resolve = (\<lambda>_ s. (Inl (ApiStatus 404), s)), ec_get = (\<lambda>_ s. (Inl (ApiStatus 404), s)),
      ec_open = (\<lambda>_ s. (Inl (ApiStatus 404), s)),
      ec_search = (\<lambda>q s. (Inr (hits_response (matching_documents (es_filters q) docs)), s)),
      ec_close = (\<lambda>_ s. (Inr (PDict [(lit ''succeeded'', PBool True)]), s))\<rparr>"

lemma raw_hits_response: "raw_hits (hits_response docs) = Inr (map (\<lambda>d. stored_hit d (Finite 1)) docs)"
  by (simp add: raw_hits_def hits_response_def py_item_def py_iter_def del: lit_simps)

lemma reference_client_filters: "engine_filters docs (reference_client docs)"
  by (auto simp: engine_filters_def reference_client_def raw_hits_response matching_documents_def)

definition demo_indexed :: index_document where
  "demo_indexed = \<lparr>xd_chunk = UUID 101, xd_projection = UUID 81, xd_version = UUID 32, xd_workspace = UUID 10, xd_folder = None,
     xd_allowed = [UUID 12], xd_status = lit ''ready'', xd_title = [97], xd_path = [], xd_text = [72, 105], xd_units = [],
     xd_embedding = None, xd_build = UUID 82, xd_profile = Some (UUID 91), xd_mapping = 1\<rparr>"

definition demo_foreign :: index_document where
  "demo_foreign = demo_indexed\<lparr>xd_chunk := UUID 102, xd_version := UUID 33\<rparr>"

definition demo_world :: "unit search_world" where
  "demo_world = \<lparr>sw_scope_env = demo_scope_env, sw_values = \<lparr>ve_repr = (\<lambda>_. []), ve_float = (\<lambda>_. None)\<rparr>, sw_db = (\<lambda>_. demo_search_db),
     sw_db_now = (\<lambda>_. 0), sw_now = (\<lambda>_. 0), sw_client = reference_client [demo_indexed], sw_sparse = (), sw_dense = ()\<rparr>"

definition demo_embedding :: embedding_port where
  "demo_embedding = \<lparr>em_count_query = (\<lambda>s. Inr (int (length s))), em_encode_query = (\<lambda>_. Inr [Finite 1])\<rparr>"

definition demo_target :: alias_target where
  "demo_target = \<lparr>at_descriptor = \<lparr>ix_dimension = 1, ix_similarity = lit ''cosine'', ix_name = None, ix_profile = None, ix_build = None,
       ix_projection = None, ix_mapping = 1\<rparr>, at_prefix = [112], at_profile = UUID 91, at_processing = Some (UUID 92)\<rparr>"

definition demo_search :: search_request where
  "demo_search = \<lparr>sq_scope = demo_scope_request, sq_query = [32, 72, 105], sq_profile = \<lparr>rf_kind = RETRIEVAL,
       rf_config = [(lit ''bm25'', PDict [(lit ''top_k'', PInt 5)])]\<rparr>, sq_target = ActiveTarget demo_target, sq_limit = 3, sq_max_tokens = 8\<rparr>"

lemma demo_document_stored: "document_stored demo_indexed"
  by (simp add: document_stored_def demo_indexed_def uuid_ok_def)

lemma demo_matches: "matching_documents (build_scope_filter (UUID 12) demo_scope) [demo_indexed] = [demo_indexed]"
  by (simp add: matching_documents_def build_scope_filter_def demo_scope_def scope_of_def demo_identity_def field_values_def
      to_projection_def demo_indexed_def del: lit_simps)

lemma demo_ranked:
  "ranked_hits V 5 [hits_response [demo_indexed]] = Inr [ScoredHit (chunk_of_document demo_indexed) 1 (Finite 1)]"
proof -
  have score: "hit_score V (stored_hit demo_indexed (Finite 1)) = Inr (Finite 1)"
    by (simp add: hit_score_def stored_hit_def get_or_def py_get_def py_float_of_def del: lit_simps)
  have "hit_chunk_text V (stored_hit demo_indexed (Finite 1)) = Inr (uuid_text (UUID 101))"
    by (simp add: hit_chunk_text_def stored_hit_def get_or_def py_get_def include_fields_def retrieval_source_fields_def
        to_projection_def py_str_def demo_indexed_def del: lit_simps)
  then have "\<exists>k. hit_key V (stored_hit demo_indexed (Finite 1)) = Inr k" by (simp add: hit_key_def score)
  then show ?thesis
    by (auto simp: ranked_hits_def raw_hits_response scored_hit_def score parse_stored_hit demo_document_stored)
qed

lemma demo_retrieved:
  "search_sparse V (reference_client [demo_indexed]) () (ActiveTarget demo_target) query (UUID 12) demo_scope 5
     = Inr [ScoredHit (chunk_of_document demo_indexed) 1 (Finite 1)]"
proof -
  have v: "validate_search (ActiveTarget demo_target) demo_scope 5 = Inr ()"
    by (simp add: validate_search_def demo_scope_def scope_of_def)
  have s: "search_responses V (reference_client [demo_indexed]) (ActiveTarget demo_target) (MultiMatch query) (UUID 12) demo_scope 5 ()
      = (Inr [hits_response [demo_indexed]], ())"
    using demo_matches by (simp add: search_responses_def es_catch_def es_bind_def es_return_def reference_client_def)
  show ?thesis
    by (simp add: search_sparse_def es_result_def retrieve_def es_bind_def es_pure_def v s demo_ranked)
qed

lemma demo_found:
  obtains f where "hybrid_search (service_ports demo_world demo_embedding BothFail) demo_search = Inr [f]"
proof -
  let ?h = "[ScoredHit (chunk_of_document demo_indexed) 1 (Finite 1)]"
  obtain fused where f: "rrf_fuse ?h [] 60 = Inr fused"
    using rrf_fuse_error [of ?h "[]" 60] by (cases "rrf_fuse ?h [] 60") (auto simp: disagree_def odd_score_def)
  have "distinct (map fh_id fused)" "set (map fh_id fused) = {ChunkUuid (UUID 101)}"
    using rrf_fuse_ids(1,2) [OF f] by (simp_all add: chunk_of_document_def demo_indexed_def)
  then have "length (map fh_id fused) = 1" by (metis distinct_card card.insert card.empty finite.emptyI empty_iff One_nat_def)
  then obtain g where g: "fused = [g]" by (auto simp: length_Suc_conv)
  have q: "strip [32, 72, 105] = [72, 105]" by (simp add: strip_def lstrip_def rstrip_def py_isspace_def)
  have set: "retrieval_settings (sq_profile demo_search) = Inr (5, None, 60)"
    by (simp add: demo_search_def retrieval_settings_def config_mapping_def positive_integer_def non_negative_integer_def del: lit_simps)
  have al: "validate_active_alias (sq_profile demo_search) (UUID 91) (ActiveTarget demo_target) None = Inr ()"
    by (simp add: demo_search_def validate_active_alias_def demo_target_def)
  have sc: "sc_active_only demo_scope" "sc_authorized demo_scope = [demo_identity]" by (simp_all add: demo_scope_def scope_of_def)
  have "keyword_search (service_ports demo_world demo_embedding BothFail) demo_search [72, 105] demo_scope 5 = Inr [g]"
    by (simp add: keyword_search_def service_ports_def demo_world_def demo_search_def demo_scope_request_def demo_retrieved f g)
  moreover have "sp_resolve (service_ports demo_world demo_embedding BothFail) 0 demo_scope_request = Inr demo_scope"
    by (simp add: service_ports_def demo_world_def demo_resolves)
  moreover have "count_query_tokens (sp_embedding (service_ports demo_world demo_embedding BothFail)) [72, 105] = Inr 2"
    by (simp add: service_ports_def count_query_tokens_def demo_embedding_def)
  moreover have "sq_scope demo_search = demo_scope_request" "sq_query demo_search = [32, 72, 105]" "sq_limit demo_search = 3"
    "sq_max_tokens demo_search = 8" "sq_target demo_search = ActiveTarget demo_target" "rq_indexing demo_scope_request = UUID 91"
    by (simp_all add: demo_search_def demo_scope_request_def)
  ultimately have "hybrid_search (service_ports demo_world demo_embedding BothFail) demo_search = Inr [g]"
    by (simp add: hybrid_search_def Let_def q set al sc)
  then show thesis by (rule that)
qed

theorem search_shows_only_authorized_witness:
  "\<exists>f. hybrid_search (service_ports demo_world demo_embedding BothFail) demo_search = Inr [f]
     \<and> fh_chunk f = Some (chunk_of_document demo_indexed) \<and> authorized_at demo_world 0 demo_scope_request demo_indexed"
proof -
  obtain f where f: "hybrid_search (service_ports demo_world demo_embedding BothFail) demo_search = Inr [f]" by (rule demo_found)
  have fit: "rows_fit (sw_db demo_world 0)"
    by (simp add: rows_fit_def demo_world_def demo_search_db_def demo_projection_def demo_build_def uuid_ok_def demo_verified_def mark_ready_def
        Let_def demo_uploaded_def demo_library_def demo_document_def demo_version_def put_row_def)
  have t: "sq_target demo_search = ActiveTarget demo_target" by (simp add: demo_search_def)
  have law: "engine_filters [demo_indexed] (sw_client demo_world)" by (simp add: demo_world_def reference_client_filters)
  from search_shows_only_authorized [OF f t law _ fit] demo_document_stored
  have "fh_chunk f = Some (chunk_of_document demo_indexed) \<and> authorized_at demo_world 0 (sq_scope demo_search) demo_indexed" by simp
  with f show ?thesis by (simp add: demo_search_def)
qed

end
