(* ===== verification/Index_Build.thy ===== *)
theory Index_Build
  imports Search_Engine Chunking
begin

text \<open>
  Building an index: the documents of a projection (\<^verbatim>\<open>ingestion/stages.py\<close>), the mapping and the
  engine port (\<^verbatim>\<open>indexing/elasticsearch.py\<close>), alias targets (\<^verbatim>\<open>indexing/contracts.py\<close>) and the
  indexing service (\<^verbatim>\<open>indexing/service.py\<close>).
\<close>

section \<open>The documents of a projection\<close>

record index_source =
  is_version :: uuid
  is_workspace :: uuid
  is_folder :: "uuid option"
  is_title :: pystr
  is_allowed :: "uuid list"

abbreviation dependency_missing :: exn where
  "dependency_missing \<equiv> TaskError ''ingestion_dependency_missing'' False"

definition load_index_source :: "library_db \<Rightarrow> uuid \<Rightarrow> index_source res" where
  "load_index_source lib version =
     (case row_by av_id version (lb_versions lib) of
        None \<Rightarrow> Inl dependency_missing
      | Some v \<Rightarrow>
          (case row_by do_id (av_document v) (lb_documents lib) of
             None \<Rightarrow> Inl dependency_missing
           | Some d \<Rightarrow>
               (case row_by wr_id (do_workspace d) (wd_workspaces (lb_ws lib)) of
                  None \<Rightarrow> Inl dependency_missing
                | Some w \<Rightarrow>
                    let members = map mb_user (filter (\<lambda>m. mb_workspace m = wr_id w) (wd_members (lb_ws lib))) @ [wr_created_by w]
                    in Inr \<lparr>is_version = av_id v, is_workspace = wr_id w, is_folder = do_folder d, is_title = do_name d,
                        is_allowed = sorted_ids members\<rparr>)))"

definition document_of_chunk :: "index_source \<Rightarrow> uuid \<Rightarrow> uuid \<Rightarrow> uuid \<Rightarrow> retrieval_chunk \<Rightarrow> py_float list \<Rightarrow> index_document" where
  "document_of_chunk source projection build profile c vector =
     \<lparr>xd_chunk = ck_id c, xd_projection = projection, xd_version = is_version source, xd_workspace = is_workspace source,
      xd_folder = is_folder source, xd_allowed = is_allowed source, xd_status = lit ''ready'', xd_title = is_title source,
      xd_path = ck_path c, xd_text = ck_text c, xd_units = ck_units c, xd_embedding = Some vector, xd_build = build,
      xd_profile = Some profile, xd_mapping = 1\<rparr>"

definition documents_of_chunks ::
  "index_source \<Rightarrow> uuid \<Rightarrow> uuid \<Rightarrow> uuid \<Rightarrow> retrieval_chunk list \<Rightarrow> py_float list list \<Rightarrow> index_document list res" where
  "documents_of_chunks source projection build profile chunks vectors =
     (if length chunks \<noteq> length vectors then Inl (ValueError ''zip'')
      else Inr (map2 (document_of_chunk source projection build profile) chunks vectors))"

section \<open>The mapping\<close>

definition typed :: "string \<Rightarrow> py_value" where
  "typed t = PDict [(lit ''type'', PStr (lit t))]"

definition cell_properties :: "(pystr \<times> py_value) list" where
  "cell_properties = [(lit ''row'', typed ''integer''), (lit ''column'', typed ''integer''), (lit ''row_span'', typed ''integer''),
     (lit ''column_span'', typed ''integer'')]"

definition evidence_properties :: "(pystr \<times> py_value) list" where
  "evidence_properties =
     [(lit ''id'', typed ''keyword''), (lit ''chunk_id'', typed ''keyword''), (lit ''projection_id'', typed ''keyword''),
      (lit ''ordinal'', typed ''integer''), (lit ''text'', typed ''text''), (lit ''element_id'', typed ''keyword''),
      (lit ''page'', typed ''integer''), (lit ''char_start'', typed ''integer''), (lit ''char_end'', typed ''integer''),
      (lit ''bbox'', typed ''float''), (lit ''source_kind'', typed ''keyword''),
      (lit ''source_part'', PDict [(lit ''type'', PStr (lit ''keyword'')), (lit ''index'', PBool False)]),
      (lit ''image_sha256'', typed ''keyword''), (lit ''table_cell'', PDict [(lit ''properties'', PDict cell_properties)])]"

definition document_properties :: "index_descriptor \<Rightarrow> (pystr \<times> py_value) list" where
  "document_properties d =
     [(lit ''chunk_id'', typed ''keyword''), (lit ''projection_id'', typed ''keyword''), (lit ''asset_version_id'', typed ''keyword''),
      (lit ''workspace_id'', typed ''keyword''), (lit ''folder_id'', typed ''keyword''), (lit ''allowed_user_ids'', typed ''keyword''),
      (lit ''status'', typed ''keyword''), (lit ''title'', typed ''text''), (lit ''section_path'', typed ''text''), (lit ''text'', typed ''text''),
      (lit ''evidence_units'', PDict [(lit ''type'', PStr (lit ''nested'')), (lit ''properties'', PDict evidence_properties)]),
      (lit ''embedding'', PDict [(lit ''type'', PStr (lit ''dense_vector'')), (lit ''dims'', PInt (ix_dimension d)),
         (lit ''similarity'', PStr (ix_similarity d))]),
      (lit ''index_build_id'', typed ''keyword''), (lit ''indexing_profile_id'', typed ''keyword''),
      (lit ''rag_mapping_version'', typed ''integer'')]"

definition build_mapping :: "index_descriptor \<Rightarrow> py_value res" where
  "build_mapping d =
     rbind (require_physical_metadata d) (\<lambda>(profile, build, projection).
       Inr (PDict [(lit ''mappings'', PDict [(lit ''dynamic'', PStr (lit ''strict'')),
         (lit ''_meta'', PDict [(lit ''rag'', PDict [(lit ''mapping_version'', PInt (ix_mapping d)),
            (lit ''index_build_id'', uuid_value build), (lit ''projection_id'', uuid_value projection),
            (lit ''indexing_profile_id'', uuid_value profile), (lit ''vector_dimension'', PInt (ix_dimension d))])]),
         (lit ''properties'', PDict (document_properties d))])]))"

section \<open>Alias targets\<close>

definition ends_with :: "pystr \<Rightarrow> pystr \<Rightarrow> bool" where
  "ends_with s e \<longleftrightarrow> length e \<le> length s \<and> drop (length s - length e) s = e"

definition canonical_uuid :: "pystr \<Rightarrow> bool" where
  "canonical_uuid s = (case parse_uuid s of Inl _ \<Rightarrow> False | Inr u \<Rightarrow> uuid_text u = s)"

definition alias_base :: "pystr \<Rightarrow> pystr" where
  "alias_base a = take (length a - 7) a"

definition target_of_alias :: "pystr \<Rightarrow> pystr \<Rightarrow> bool" where
  "target_of_alias base name \<longleftrightarrow>
     safe_index_name name \<and> take (length base + 1) name = base @ [45] \<and> canonical_uuid (drop (length base + 1) name)"

definition canonical_alias_targets :: "pystr \<Rightarrow> pystr list \<Rightarrow> bool \<Rightarrow> pystr list res" where
  "canonical_alias_targets a names allow_empty =
     (let base = alias_base a; n = length base
      in if \<not> safe_index_name a \<or> \<not> ends_with a (lit ''-active'') then Inl (ValueError ''alias_name'')
         else if n < 38 \<or> base ! (n - 37) \<noteq> 45 then Inl (ValueError ''alias_profile'')
         else if \<not> canonical_uuid (drop (n - 36) base) \<or> take (n - 37) base = [] then Inl (ValueError ''alias_profile'')
         else if names = [] \<and> \<not> allow_empty then Inl (ValueError ''alias_targets'')
         else if \<not> distinct names then Inl (ValueError ''alias_targets'')
         else if \<not> list_all (target_of_alias base) names then Inl (ValueError ''alias_targets'')
         else Inr (sort names))"

definition canonical_active_targets :: "pystr \<Rightarrow> pystr list \<Rightarrow> pystr list res" where
  "canonical_active_targets a names = canonical_alias_targets a names False"

definition canonical_recovery_targets :: "pystr \<Rightarrow> pystr list \<Rightarrow> pystr list res" where
  "canonical_recovery_targets a names = canonical_alias_targets a names True"

section \<open>The engine port\<close>

datatype alias_action = RemoveAlias pystr pystr | AddAlias pystr pystr

datatype bulk_line = IndexInto pystr pystr | BulkDocument "(pystr \<times> py_value) list"

text \<open>The administrative calls of the client; \<^verbatim>\<open>get_alias\<close> answers the names of the indices or 404.\<close>

record 's admin_client =
  ac_exists :: "pystr \<Rightarrow> ('s, bool) es_run"
  ac_create :: "pystr \<Rightarrow> py_value \<Rightarrow> ('s, unit) es_run"
  ac_bulk :: "bulk_line list \<Rightarrow> ('s, bool) es_run"
  ac_refresh :: "pystr \<Rightarrow> ('s, unit) es_run"
  ac_count :: "pystr \<Rightarrow> es_filter \<Rightarrow> ('s, py_value) es_run"
  ac_get_alias :: "pystr \<Rightarrow> ('s, pystr list) es_run"
  ac_update_aliases :: "alias_action list \<Rightarrow> ('s, bool) es_run"

definition create_index :: "'s admin_client \<Rightarrow> index_descriptor \<Rightarrow> ('s, unit) es_run" where
  "create_index A d =
     (case ix_name d of
        None \<Rightarrow> es_pure (Inl (ValueError ''index_name''))
      | Some name \<Rightarrow>
          es_bind (ac_exists A name) (\<lambda>found.
            if found then es_return ()
            else es_bind (es_pure (build_mapping d)) (\<lambda>body. ac_create A name body)))"

definition bulk_upsert :: "'s admin_client \<Rightarrow> pystr \<Rightarrow> index_document list \<Rightarrow> ('s, int) es_run" where
  "bulk_upsert A name documents =
     (if documents = [] then es_return 0
      else es_bind (ac_bulk A (concat (map (\<lambda>d. [IndexInto name (uuid_text (xd_chunk d)), BulkDocument (to_projection d)]) documents)))
        (\<lambda>errors. if errors then es_pure (Inl (RuntimeError ''bulk_indexing'')) else es_return (int (length documents))))"

definition count_projection :: "'s admin_client \<Rightarrow> pystr \<Rightarrow> uuid \<Rightarrow> ('s, int) es_run" where
  "count_projection A name projection =
     es_bind (ac_refresh A name) (\<lambda>_.
     es_bind (ac_count A name (Term (lit ''projection_id'') (uuid_value projection))) (\<lambda>n. es_pure (py_int_of n)))"

definition active_targets :: "'s admin_client \<Rightarrow> pystr \<Rightarrow> ('s, pystr list) es_run" where
  "active_targets A name s =
     (case ac_get_alias A name s of
        (Inl (ApiStatus n), s') \<Rightarrow> if n = 404 then (Inr [], s') else (Inl (ApiStatus n), s')
      | (Inl e, s') \<Rightarrow> (Inl e, s')
      | (Inr names, s') \<Rightarrow> (Inr (sort names), s'))"

definition replace_alias_targets :: "'s admin_client \<Rightarrow> pystr \<Rightarrow> pystr list \<Rightarrow> ('s, bool) es_run" where
  "replace_alias_targets A name intended =
     es_bind (active_targets A name) (\<lambda>current.
       if current = intended then es_return True
       else ac_update_aliases A
         (map (\<lambda>i. RemoveAlias i name) (filter (\<lambda>i. i \<notin> set intended) current)
          @ map (\<lambda>i. AddAlias i name) (filter (\<lambda>i. i \<notin> set current) intended)))"

definition replace_active_targets :: "'s admin_client \<Rightarrow> pystr \<Rightarrow> pystr list \<Rightarrow> ('s, bool) es_run" where
  "replace_active_targets A name names =
     es_bind (es_pure (canonical_active_targets name names)) (replace_alias_targets A name)"

definition reconcile_active_targets :: "'s admin_client \<Rightarrow> pystr \<Rightarrow> pystr list \<Rightarrow> ('s, bool) es_run" where
  "reconcile_active_targets A name names =
     es_bind (es_pure (canonical_recovery_targets name names)) (replace_alias_targets A name)"

section \<open>The indexing service\<close>

record indexing_result =
  ir_descriptor :: index_descriptor
  ir_profile :: uuid
  ir_build :: uuid
  ir_projection :: uuid
  ir_name :: pystr
  ir_alias :: pystr
  ir_count :: int
  ir_verified :: bool
  ir_processing :: "uuid option"

definition valid_document :: "uuid \<Rightarrow> uuid \<Rightarrow> int \<Rightarrow> index_document \<Rightarrow> bool" where
  "valid_document projection build dimension d \<longleftrightarrow>
     xd_projection d = projection \<and> xd_build d = build
     \<and> list_all (\<lambda>e. ev_chunk e = Some (xd_chunk d) \<and> ev_projection e = Some (xd_projection d)) (xd_units d)
     \<and> (case xd_embedding d of None \<Rightarrow> True | Some v \<Rightarrow> int (length v) = dimension)"

definition prepare_projection ::
  "'s admin_client \<Rightarrow> pystr \<Rightarrow> index_descriptor \<Rightarrow> uuid \<Rightarrow> uuid \<Rightarrow> uuid \<Rightarrow> int \<Rightarrow> index_document list \<Rightarrow> uuid option
     \<Rightarrow> ('s, indexing_result) es_run" where
  "prepare_projection A pre d profile build projection expected documents processing =
     (if expected \<le> 0 then es_pure (Inl (ValueError ''expected_count''))
      else if int (length documents) \<noteq> expected then es_pure (Inl (ValueError ''expected_count''))
      else if \<not> distinct (map xd_chunk documents) then es_pure (Inl (ValueError ''chunk_ids''))
      else if \<not> list_all (valid_document projection build (ix_dimension d)) documents then es_pure (Inl (ValueError ''index_document''))
      else
        let name = concrete_index_name pre profile build processing
        in es_bind (es_pure (for_index d name (Some profile) (Some build) (Some projection))) (\<lambda>physical.
           es_bind (create_index A physical) (\<lambda>_.
           es_bind (bulk_upsert A name (map (\<lambda>x. x\<lparr>xd_profile := Some profile, xd_mapping := ix_mapping d\<rparr>) documents)) (\<lambda>written.
           if written \<noteq> int (length documents) then es_pure (Inl (ValueError ''written_count''))
           else es_bind (count_projection A name projection) (\<lambda>indexed.
             if indexed \<noteq> expected then es_pure (Inl (ValueError ''indexed_count''))
             else es_return \<lparr>ir_descriptor = d, ir_profile = profile, ir_build = build, ir_projection = projection, ir_name = name,
               ir_alias = active_alias pre profile processing, ir_count = indexed, ir_verified = False, ir_processing = processing\<rparr>)))))"

definition revalidate_active_targets :: "'s admin_client \<Rightarrow> pystr \<Rightarrow> pystr list \<Rightarrow> ('s, unit) es_run" where
  "revalidate_active_targets A name intended =
     es_bind (es_pure (canonical_active_targets name intended)) (\<lambda>targets.
     es_bind (active_targets A name) (\<lambda>found.
       if found \<noteq> targets then es_pure (Inl (ValueError ''alias_target_mismatch'')) else es_return ()))"

definition activate_prepared :: "'s admin_client \<Rightarrow> pystr \<Rightarrow> indexing_result \<Rightarrow> pystr list \<Rightarrow> ('s, indexing_result) es_run" where
  "activate_prepared A pre p intended =
     (if ir_alias p \<noteq> active_alias pre (ir_profile p) (ir_processing p)
         \<or> ir_name p \<noteq> concrete_index_name pre (ir_profile p) (ir_build p) (ir_processing p)
      then es_pure (Inl (ValueError ''prepared_identity''))
      else
        es_bind (es_pure (canonical_active_targets (ir_alias p) intended)) (\<lambda>targets.
        if ir_name p \<notin> set targets then es_pure (Inl (ValueError ''prepared_target''))
        else es_bind (replace_active_targets A (ir_alias p) targets) (\<lambda>acknowledged.
          if \<not> acknowledged then es_pure (Inl (ValueError ''alias_not_acknowledged''))
          else es_bind (revalidate_active_targets A (ir_alias p) targets) (\<lambda>_. es_return (p\<lparr>ir_verified := True\<rparr>)))))"

definition index_projection ::
  "'s admin_client \<Rightarrow> pystr \<Rightarrow> index_descriptor \<Rightarrow> uuid \<Rightarrow> uuid \<Rightarrow> uuid \<Rightarrow> int \<Rightarrow> index_document list \<Rightarrow> uuid option
     \<Rightarrow> ('s, indexing_result) es_run" where
  "index_projection A pre d profile build projection expected documents processing =
     es_bind (prepare_projection A pre d profile build projection expected documents processing) (\<lambda>p.
     es_bind (active_targets A (ir_alias p)) (\<lambda>existing.
       activate_prepared A pre p (sort (dict_fromkeys (existing @ [ir_name p])))))"

end
