(* ===== verification/Index_Properties.thy ===== *)
theory Index_Properties
  imports Index_Build Search_Properties
begin

text \<open>
  What is written to the index is what a search reads: the round trip of a chunk, the description
  of an index that was created, the activation of an alias and the hits of a frozen index.
\<close>

section \<open>A chunk through the index\<close>

definition storable_element :: "structural_element \<Rightarrow> bool" where
  "storable_element x \<longleftrightarrow>
     uuid_ok (el_id x) \<and> lc_part (el_location x) \<noteq> Some [] \<and> lc_sha256 (el_location x) \<noteq> Some []
     \<and> (case lc_cell (el_location x) of None \<Rightarrow> True | Some c \<Rightarrow> new_table_cell c = Inr c)"

definition storable_source :: "index_source \<Rightarrow> bool" where
  "storable_source s \<longleftrightarrow>
     uuid_ok (is_version s) \<and> uuid_ok (is_workspace s) \<and> (case is_folder s of None \<Rightarrow> True | Some u \<Rightarrow> uuid_ok u)"

lemma span_location_parts:
  assumes "span_location l s = Inr l'"
  shows "l' = l \<or> (lc_part l' = None \<and> lc_sha256 l' = None \<and> lc_cell l' = None)"
proof (cases "lc_bbox l")
  case None
  with assms show ?thesis by (auto simp: span_location_def new_location_def Let_def split: if_splits)
next
  case (Some b)
  with assms show ?thesis by (simp add: span_location_def)
qed

lemma source_location_parts:
  assumes "evidence_sources elements = Inr sources" "q \<in> set sources"
  shows "\<exists>x\<in>set elements. es_location q = el_location x
    \<or> (lc_part (es_location q) = None \<and> lc_sha256 (es_location q) = None \<and> lc_cell (es_location q) = None)"
proof -
  from assms(1) obtain sss where s: "mapr element_sources elements = Inr sss" "sources = concat sss"
    by (auto simp: evidence_sources_def)
  from assms(2) s(2) obtain ss where ss: "ss \<in> set sss" "q \<in> set ss" by auto
  from mapr_set [OF s(1)] ss(1) obtain x where x: "x \<in> set elements" "element_sources x = Inr ss" by blast
  from x(2) ss(2) obtain spans where sp: "mapr (\<lambda>s. rbind (span_location (el_location x) s) (\<lambda>l.
        Inr \<lparr>es_element = el_id x, es_text = sp_text s, es_location = l, es_path = el_path x\<rparr>)) spans = Inr ss"
    by (auto simp: element_sources_def split: if_splits)
  from mapr_set [OF sp] ss(2) obtain s l where "span_location (el_location x) s = Inr l" "es_location q = l" by fastforce
  with span_location_parts [of "el_location x" s l] x(1) show ?thesis by blast
qed

lemma chunk_is_storable:
  assumes typed: "\<And>x. x \<in> set elements \<Longrightarrow> new_element x = Inr x \<and> new_location (el_location x) = Inr (el_location x)"
    and cfg: "new_chunking_config cfg = Inr cfg"
    and run: "chunk_document count cfg ids projection elements = Inr r" "c \<in> set (rs_chunks r)"
    and ok: "\<And>x. x \<in> set elements \<Longrightarrow> storable_element x" "storable_source source" "uuid_ok projection" "uuid_ok build"
      "uuid_ok (ck_id c)" "\<And>u. u \<in> set (ck_units c) \<Longrightarrow> uuid_ok (ev_id u)"
  shows "document_stored (document_of_chunk source projection build profile c vector)" "ck_projection c = projection"
proof -
  from cfg have le: "cc_target cfg \<le> cc_ceiling cfg" by (auto simp: new_chunking_config_def split: if_splits)
  note packed = chunk_document_packed [OF run(1) le run(2)]
  show "ck_projection c = projection" by (rule packed(2))
  have "location_stored (ev_location u)" if u: "u \<in> set (ck_units c)" for u
  proof -
    obtain sources s where s: "evidence_sources elements = Inr sources" "s \<in> set sources"
      "es_path s = ck_path c" "es_text s = ev_text u" "es_location s = ev_location u"
      by (rule chunk_unit_source [OF run(1) le run(2) u])
    have well: "well_typed_element x" if "x \<in> set elements" for x using typed [OF that] by (simp add: well_typed_element_def)
    have "\<exists>x\<in>set elements. el_eligible x \<and> taken_from x s"
      by (rule evidence_sources_cases [of elements, OF well]) (use s(1,2) in auto)
    then obtain x where x: "x \<in> set elements" "taken_from x s" by blast
    have el: "new_location (ev_location u) = Inr (ev_location u)" "lc_element (ev_location u) = el_id x"
      using x(2) s(5) unfolding taken_from_def by metis+
    from source_location_parts [OF s(1,2)] s(5) obtain y where y: "y \<in> set elements" "ev_location u = el_location y
        \<or> (lc_part (ev_location u) = None \<and> lc_sha256 (ev_location u) = None \<and> lc_cell (ev_location u) = None)" by auto
    have id: "uuid_ok (lc_element (ev_location u))" using el(2) ok(1) [OF x(1)] by (simp add: storable_element_def)
    from y(2) show ?thesis
    proof
      assume "ev_location u = el_location y"
      with ok(1) [OF y(1)] el(1) id show ?thesis unfolding location_stored_def storable_element_def by metis
    next
      assume "lc_part (ev_location u) = None \<and> lc_sha256 (ev_location u) = None \<and> lc_cell (ev_location u) = None"
      with el(1) id show ?thesis by (auto simp: location_stored_def)
    qed
  qed
  moreover have "ev_chunk u = Some (ck_id c) \<and> ev_projection u = Some projection" if "u \<in> set (ck_units c)" for u
    using packed that by (auto simp: new_chunk_def list_ex_iff split: if_splits)
  ultimately show "document_stored (document_of_chunk source projection build profile c vector)"
    using ok(2-6) by (simp add: document_stored_def document_of_chunk_def storable_source_def)
qed

text \<open>
  C20.  A chunk survives the index.  A chunk of a parsed document whose elements passed their checks,
  written as the indexing stage writes it and found by a search under whatever score, is read back
  as it was: its identifiers, text, section path and every evidence unit with its location.  The
  written document has exactly the fields the strict mapping of the index declares.
\<close>

theorem indexed_chunk_reads_back:
  assumes "\<And>x. x \<in> set elements \<Longrightarrow> new_element x = Inr x \<and> new_location (el_location x) = Inr (el_location x)"
    and "new_chunking_config cfg = Inr cfg"
    and "chunk_document count cfg ids projection elements = Inr r" "c \<in> set (rs_chunks r)"
    and "\<And>x. x \<in> set elements \<Longrightarrow> storable_element x" "storable_source source" "uuid_ok projection" "uuid_ok build"
      "uuid_ok (ck_id c)" "\<And>u. u \<in> set (ck_units c) \<Longrightarrow> uuid_ok (ev_id u)"
  shows "parse_chunk E (stored_hit (document_of_chunk source projection build profile c vector) score)
      = Inr \<lparr>rc_chunk = ck_id c, rc_projection = ck_projection c, rc_version = is_version source, rc_workspace = is_workspace source,
          rc_folder = is_folder source, rc_build = build, rc_title = is_title source, rc_path = ck_path c, rc_text = ck_text c,
          rc_units = ck_units c\<rparr>
    \<and> map fst (to_projection (document_of_chunk source projection build profile c vector)) = map fst (document_properties d)
    \<and> (\<forall>u. \<exists>fs. evidence_value u = PDict fs \<and> map fst fs = map fst evidence_properties)"
proof (intro conjI allI)
  note st = chunk_is_storable [OF assms]
  show "parse_chunk E (stored_hit (document_of_chunk source projection build profile c vector) score)
      = Inr \<lparr>rc_chunk = ck_id c, rc_projection = ck_projection c, rc_version = is_version source, rc_workspace = is_workspace source,
          rc_folder = is_folder source, rc_build = build, rc_title = is_title source, rc_path = ck_path c, rc_text = ck_text c,
          rc_units = ck_units c\<rparr>"
  proof -
    have "document_stored (document_of_chunk source projection build profile c vector)" by (rule st(1))
    from parse_stored_hit [OF this] show ?thesis by (simp only: chunk_of_document_def document_of_chunk_def st(2) index_document.select_convs)
  qed
  show "map fst (to_projection (document_of_chunk source projection build profile c vector)) = map fst (document_properties d)"
    by (simp add: to_projection_def document_properties_def del: lit_simps)
  show "\<exists>fs. evidence_value u = PDict fs \<and> map fst fs = map fst evidence_properties" for u
    by (simp add: evidence_value_def Let_def evidence_properties_def del: lit_simps)
qed

definition demo_value_env :: value_env where
  "demo_value_env = \<lparr>ve_repr = (\<lambda>_. []), ve_float = (\<lambda>_. None)\<rparr>"

definition demo_index_source :: index_source where
  "demo_index_source = \<lparr>is_version = UUID 32, is_workspace = UUID 10, is_folder = None, is_title = lit ''a.md'', is_allowed = [UUID 11]\<rparr>"

theorem indexed_chunk_reads_back_witness:
  "\<exists>r c. demo_chunking = Inr r \<and> c \<in> set (rs_chunks r) \<and> ck_text c = [72, 105, 46]
    \<and> (\<exists>chunk. parse_chunk demo_value_env (stored_hit (document_of_chunk demo_index_source (UUID 71) (UUID 82) (UUID 91) c []) NaN) = Inr chunk
         \<and> rc_text chunk = [72, 105, 46])"
proof -
  obtain r where r: "demo_chunking = Inr r" "map ck_text (rs_chunks r) = [[72, 105, 46], [72, 105, 46, 10, 89, 111, 46]]"
    "\<forall>c\<in>set (rs_chunks r). uuid_num (ck_id c) < 1000 \<and> (\<forall>u\<in>set (ck_units c). uuid_num (ev_id u) < 1000)"
    by (rule demo_chunks_built)
  from r(2) obtain c cs where c: "rs_chunks r = c # cs" "ck_text c = [72, 105, 46]" by (cases "rs_chunks r") auto
  have mem: "c \<in> set (rs_chunks r)" by (simp add: c(1))
  have small: "uuid_ok u" if "uuid_num u < 1000" for u using that by (simp add: uuid_ok_def)
  have el: "x \<in> set [demo_element] \<Longrightarrow> storable_element x" for x
    by (simp add: storable_element_def demo_element_def demo_place_def uuid_ok_def)
  have src: "storable_source demo_index_source" by (simp add: storable_source_def demo_index_source_def uuid_ok_def)
  have ids: "uuid_ok (ck_id c)" "\<And>u. u \<in> set (ck_units c) \<Longrightarrow> uuid_ok (ev_id u)" using r(3) mem small by blast+
  have nums: "uuid_ok (UUID 71)" "uuid_ok (UUID 82)" by (simp_all add: uuid_ok_def)
  from indexed_chunk_reads_back [OF demo_typed(2,1) r(1) [unfolded demo_chunking_def] mem el src nums ids, of demo_value_env "UUID 91" "[]" NaN]
  show ?thesis using r(1) mem c(2) by (intro exI conjI) (assumption | simp)+
qed

section \<open>An index is described as it was created\<close>

text \<open>What the engine answers about an index created with the given body.\<close>

definition created_metadata :: "pystr \<Rightarrow> pystr \<Rightarrow> py_value \<Rightarrow> py_value" where
  "created_metadata name uid mappings =
     PDict [(name, PDict [(lit ''settings'', PDict [(lit ''index'', PDict [(lit ''uuid'', PStr uid)])]), (lit ''mappings'', mappings)])]"

lemma created_index_is_described:
  assumes "build_mapping d = Inr (PDict [(lit ''mappings'', mappings)])"
    and "require_physical_metadata d = Inr (profile, build, projection)"
    and "uuid_ok profile" "uuid_ok build" "uuid_ok projection" "new_descriptor d = Inr d" "1 \<le> ix_mapping d"
    and "strip name \<noteq> []" "strip uid \<noteq> []"
    and "ec_resolve C name s = (Inr (PDict [(lit ''indices'', PList [PDict [(lit ''name'', PStr name)]])]), s1)"
    and "ec_get C name s1 = (Inr (created_metadata name uid mappings), s2)"
  shows "describe_frozen_index E C name s = (Inr \<lparr>fi_name = name, fi_uuid = uid, fi_build = build, fi_projection = projection,
      fi_profile = profile, fi_dimension = ix_dimension d, fi_mapping = ix_mapping d\<rparr>, s2)"
proof -
  let ?rag = "[(lit ''mapping_version'', PInt (ix_mapping d)), (lit ''index_build_id'', uuid_value build),
      (lit ''projection_id'', uuid_value projection), (lit ''indexing_profile_id'', uuid_value profile),
      (lit ''vector_dimension'', PInt (ix_dimension d))]"
  let ?raw = "PDict [(lit ''settings'', PDict [(lit ''index'', PDict [(lit ''uuid'', PStr uid)])]), (lit ''mappings'', mappings)]"
  have m: "mappings = PDict [(lit ''dynamic'', PStr (lit ''strict'')), (lit ''_meta'', PDict [(lit ''rag'', PDict ?rag)]),
      (lit ''properties'', PDict (document_properties d))]"
    using assms(1,2) by (simp add: build_mapping_def del: lit_simps)
  let ?i = "\<lparr>fi_name = name, fi_uuid = uid, fi_build = build, fi_projection = projection,
      fi_profile = profile, fi_dimension = ix_dimension d, fi_mapping = ix_mapping d\<rparr>"
  have new: "new_frozen_identity ?i = Inr ?i"
    using assms(6-9) by (auto simp: new_frozen_identity_def new_descriptor_def split: if_splits)
  have gets: "get_or ?raw (lit ''settings'') x = Inr (PDict [(lit ''index'', PDict [(lit ''uuid'', PStr uid)])])"
    "get_or (PDict [(lit ''index'', PDict [(lit ''uuid'', PStr uid)])]) (lit ''index'') x = Inr (PDict [(lit ''uuid'', PStr uid)])"
    "get_or ?raw (lit ''mappings'') x = Inr mappings" for x
    by (simp_all add: get_or_def py_get_def del: lit_simps)
  have meta: "py_get mappings (lit ''_meta'') = Inr (Some (PDict [(lit ''rag'', PDict ?rag)]))"
    "py_get (PDict [(lit ''uuid'', PStr uid)]) (lit ''uuid'') = Inr (Some (PStr uid))"
    by (simp_all add: m py_get_def del: lit_simps)
  have vals: "map_of ?rag (lit ''mapping_version'') = Some (PInt (ix_mapping d))" "map_of ?rag (lit ''vector_dimension'') = Some (PInt (ix_dimension d))"
    "map_of ?rag (lit ''index_build_id'') = Some (uuid_value build)" "map_of ?rag (lit ''projection_id'') = Some (uuid_value projection)"
    "map_of ?rag (lit ''indexing_profile_id'') = Some (uuid_value profile)" "map_of [(lit ''rag'', PDict ?rag)] (lit ''rag'') = Some (PDict ?rag)"
    by (simp_all del: lit_simps)
  have keys: "set (map fst ?rag) = set required_mapping" by (auto simp: required_mapping_def simp del: lit_simps)
  have frozen: "frozen_metadata name ?raw = Inr ?i"
    unfolding frozen_metadata_def gets meta rbind_simps option.case py_value.case vals text_of_def number_of_def prod.case keys
    using assms(3-5) by (simp add: parse_uuid_text new del: lit_simps)
  have exact: "resolved_exactly E name (PDict [(lit ''indices'', PList [PDict [(lit ''name'', PStr name)]])]) = Inr ()"
    by (simp add: resolved_exactly_def get_or_def py_get_def py_iter_def py_truthy_def py_str_def del: lit_simps)
  show ?thesis
    unfolding describe_frozen_index_def es_bind_def es_catch_def assms(10) sum.case prod.case exact es_pure_def assms(11) created_metadata_def
    by (simp add: frozen del: lit_simps)
qed

section \<open>Activation\<close>

lemma canonical_targets_Inr:
  assumes "canonical_active_targets a names = Inr targets"
  shows "targets = sort names" "distinct targets" "targets \<noteq> []"
    "n \<in> set targets \<Longrightarrow> \<exists>u. n = alias_base a @ [45] @ uuid_text u" "a = alias_base a @ lit ''-active''"
proof -
  from assms have *: "ends_with a (lit ''-active'')" "names \<noteq> []" "distinct names" "list_all (target_of_alias (alias_base a)) names"
    "targets = sort names"
    unfolding canonical_active_targets_def canonical_alias_targets_def Let_def by (simp_all split: if_splits)
  show "targets = sort names" "distinct targets" using *(3,5) by simp_all
  show "targets \<noteq> []" using *(2,5) by (metis set_empty set_sort)
  have seven: "length (lit ''-active'') = 7" by simp
  from *(1) have tail: "drop (length a - 7) a = lit ''-active''" unfolding ends_with_def seven by (elim conjE)
  show "a = alias_base a @ lit ''-active''"
    unfolding alias_base_def seven tail [symmetric] by (rule append_take_drop_id [symmetric])
  show "\<exists>u. n = alias_base a @ [45] @ uuid_text u" if "n \<in> set targets"
  proof -
    let ?k = "length (alias_base a) + 1"
    from that *(4,5) have "target_of_alias (alias_base a) n" by (simp add: list_all_iff)
    then have "take ?k n = alias_base a @ [45]" "canonical_uuid (drop ?k n)" by (simp_all add: target_of_alias_def)
    moreover from this(2) obtain u where "uuid_text u = drop ?k n" unfolding canonical_uuid_def by (auto split: sum.splits)
    moreover have "n = take ?k n @ drop ?k n" by simp
    ultimately have "n = (alias_base a @ [45]) @ uuid_text u" by metis
    then show ?thesis by (intro exI [of _ u]) simp
  qed
qed

text \<open>
  C21.  Activation is believed only when read back.  When activating a prepared build succeeds, the
  last thing read from the engine was the set of indices behind the alias, and it was exactly the
  intended one, sorted and without duplicates, the prepared build among them and every one an index
  of the profile of the alias.  This rests on no promise of the engine.
\<close>

theorem activation_is_read_back:
  assumes "activate_prepared A pre p intended s = (Inr r, t)"
  shows "r = p\<lparr>ir_verified := True\<rparr> \<and> ir_name p \<in> set intended \<and> distinct intended
    \<and> (\<forall>n\<in>set intended. \<exists>u. n = profile_prefix pre (ir_profile p) (ir_processing p) @ [45] @ uuid_text u)
    \<and> (\<exists>s'. active_targets A (ir_alias p) s' = (Inr (sort intended), t))"
proof -
  from assms obtain targets s1 where *: "ir_alias p = active_alias pre (ir_profile p) (ir_processing p)"
    "canonical_active_targets (ir_alias p) intended = Inr targets" "ir_name p \<in> set targets"
    "revalidate_active_targets A (ir_alias p) targets s1 = (Inr (), t)" "r = p\<lparr>ir_verified := True\<rparr>"
    unfolding activate_prepared_def
    by (auto simp: es_pure_Inr es_return_Inr split: if_splits elim!: es_bind_Inr)
  note c = canonical_targets_Inr [OF *(2)]
  from *(4) obtain found again where f: "canonical_active_targets (ir_alias p) targets = Inr again"
    "active_targets A (ir_alias p) s1 = (Inr again, t)"
    unfolding revalidate_active_targets_def by (auto simp: es_pure_Inr es_return_Inr split: if_splits elim!: es_bind_Inr)
  have again: "again = sort intended" using canonical_targets_Inr(1) [OF f(1)] c(1) by (simp add: sort_key_id_if_sorted)
  have base: "alias_base (ir_alias p) = profile_prefix pre (ir_profile p) (ir_processing p)"
    by (simp add: *(1) active_alias_def alias_base_def)
  have "set targets = set intended" "distinct intended" using c(1,2) by simp_all
  then show ?thesis using *(3,5) f(2) c(4) unfolding again base by (intro conjI exI [of _ s1] ballI) auto
qed

text \<open>The names the service gives are canonical, whatever the prefix of the deployment.\<close>

lemma safe_uuid_text: "c \<in> set (uuid_text u) \<Longrightarrow> (48 \<le> c \<and> c \<le> 57) \<or> (97 \<le> c \<and> c \<le> 122) \<or> c = 45"
  using uuid_text_set [of c u] by auto

lemma safe_append:
  assumes "safe_index_name (a @ [45])" "\<forall>c\<in>set b. (48 \<le> c \<and> c \<le> 57) \<or> (97 \<le> c \<and> c \<le> 122) \<or> c = 45"
  shows "safe_index_name (a @ [45] @ b)"
  using assms by (cases a) (auto simp: safe_index_name_def list_all_iff)

lemma canonical_own_target:
  assumes "safe_index_name pre" "uuid_ok profile" "uuid_ok build"
  shows "canonical_active_targets (pre @ [45] @ uuid_text profile @ lit ''-active'') [pre @ [45] @ uuid_text profile @ [45] @ uuid_text build]
    = Inr [pre @ [45] @ uuid_text profile @ [45] @ uuid_text build]"
proof -
  let ?p = "uuid_text profile" let ?base = "pre @ [45] @ ?p" let ?a = "?base @ lit ''-active''"
  let ?t = "?base @ [45] @ uuid_text build"
  have len: "length (lit ''-active'') = 7" by simp
  have base: "alias_base ?a = ?base" by (simp add: alias_base_def len del: lit_simps)
  have pre: "pre \<noteq> []" using assms(1) by (auto simp: safe_index_name_def)
  have n: "length ?base = length pre + 37" by (simp add: length_uuid_text)
  have ok: "canonical_uuid ?p" "canonical_uuid (uuid_text build)" using assms(2,3) by (simp_all add: canonical_uuid_def parse_uuid_text)
  have safe: "safe_index_name (pre @ [45])" using assms(1) by (cases pre) (auto simp: safe_index_name_def)
  have "safe_index_name ?t"
    using safe_append [OF safe, of "?p @ [45] @ uuid_text build"] safe_uuid_text [of _ profile] safe_uuid_text [of _ build] by auto
  moreover have "drop (length ?base + 1) ?t = uuid_text build" "take (length ?base + 1) ?t = ?base @ [45]" by simp_all
  ultimately have t: "target_of_alias ?base ?t" using ok by (simp only: target_of_alias_def)
  have "safe_index_name ?a"
    using safe_append [OF safe, of "?p @ lit ''-active''"] safe_uuid_text [of _ profile] by auto
  moreover have "ends_with ?a (lit ''-active'')" by (simp add: ends_with_def del: lit_simps)
  moreover have "?base ! (length ?base - 37) = 45" "drop (length ?base - 36) ?base = ?p" "take (length ?base - 37) ?base = pre"
    unfolding n by simp_all
  moreover have "\<not> length ?base < 38" using pre n by (cases pre) simp_all
  ultimately have "canonical_active_targets ?a [?t] = Inr [?t]"
    unfolding canonical_active_targets_def canonical_alias_targets_def Let_def base using t ok pre by simp
  then show ?thesis by simp
qed

definition demo_prepared :: indexing_result where
  "demo_prepared = \<lparr>ir_descriptor = \<lparr>ix_dimension = 1, ix_similarity = lit ''cosine'', ix_name = None, ix_profile = None, ix_build = None,
       ix_projection = None, ix_mapping = 1\<rparr>, ir_profile = UUID 91, ir_build = UUID 82, ir_projection = UUID 81,
     ir_name = concrete_index_name [112] (UUID 91) (UUID 82) None, ir_alias = active_alias [112] (UUID 91) None, ir_count = 1,
     ir_verified = False, ir_processing = None\<rparr>"

text \<open>An engine that keeps the indices behind one alias.\<close>

definition demo_admin :: "pystr list admin_client" where
  "demo_admin = \<lparr>ac_exists = (\<lambda>_ s. (Inr True, s)), ac_create = (\<lambda>_ _ s. (Inr (), s)), ac_bulk = (\<lambda>_ s. (Inr False, s)),
     ac_refresh = (\<lambda>_ s. (Inr (), s)), ac_count = (\<lambda>_ _ s. (Inr (PInt 1), s)), ac_get_alias = (\<lambda>_ s. (Inr s, s)),
     ac_update_aliases = (\<lambda>acts s. (Inr True, fold (\<lambda>a t. case a of AddAlias i _ \<Rightarrow> i # t | RemoveAlias i _ \<Rightarrow> filter (\<lambda>j. j \<noteq> i) t) acts s))\<rparr>"

theorem activation_is_read_back_witness:
  "\<exists>t. activate_prepared demo_admin [112] demo_prepared [ir_name demo_prepared] [] = (Inr (demo_prepared\<lparr>ir_verified := True\<rparr>), t)
     \<and> (\<exists>s'. active_targets demo_admin (ir_alias demo_prepared) s' = (Inr [ir_name demo_prepared], t))"
proof -
  let ?n = "ir_name demo_prepared" and ?a = "ir_alias demo_prepared"
  have names: "?a = active_alias [112] (ir_profile demo_prepared) (ir_processing demo_prepared)"
    "?n = concrete_index_name [112] (ir_profile demo_prepared) (ir_build demo_prepared) (ir_processing demo_prepared)"
    by (simp_all add: demo_prepared_def)
  have c: "canonical_active_targets ?a [?n] = Inr [?n]"
    using canonical_own_target [of "[112]" "UUID 91" "UUID 82"]
    by (simp add: demo_prepared_def active_alias_def concrete_index_name_def profile_prefix_def safe_index_name_def uuid_ok_def del: lit_simps)
  have u: "replace_active_targets demo_admin ?a [?n] [] = (Inr True, [?n])"
    by (simp add: replace_active_targets_def replace_alias_targets_def es_bind_def es_pure_def es_return_def c active_targets_def demo_admin_def)
  have r: "revalidate_active_targets demo_admin ?a [?n] [?n] = (Inr (), [?n])"
    by (simp add: revalidate_active_targets_def es_bind_def es_pure_def es_return_def c active_targets_def demo_admin_def)
  have "activate_prepared demo_admin [112] demo_prepared [?n] [] = (Inr (demo_prepared\<lparr>ir_verified := True\<rparr>), [?n])"
    using c u r names by (simp add: activate_prepared_def es_bind_def es_pure_def es_return_def)
  from this activation_is_read_back [OF this] show ?thesis by auto
qed

section \<open>Frozen indices\<close>

text \<open>
  An evaluation searches the indices it froze.  Whatever the engine answers, every hit of a
  search over a frozen target is a chunk of one of its frozen builds and of the projection frozen
  with that build, the hits are ranked from one without gaps, and there are at most as many as asked
  for.
\<close>

theorem frozen_hits_belong_to_the_target:
  assumes "search_sparse E C s (FrozenTarget target) query actor scope top_k = Inr hs
      \<or> search_dense E C s (FrozenTarget target) vector actor scope top_k = Inr hs"
    and "\<And>i. i \<in> set (ft_identities target) \<Longrightarrow> uuid_ok (fi_build i) \<and> uuid_ok (fi_projection i)"
  shows "(\<forall>h\<in>set hs. \<exists>c r sc. h = ScoredHit c r sc \<and> (\<exists>i\<in>set (ft_identities target). rc_build c = fi_build i \<and> rc_projection c = fi_projection i))
    \<and> map hit_rank hs = map int [1..<length hs + 1] \<and> int (length hs) \<le> top_k"
proof -
  from assms(1) obtain m t where r: "retrieve E C (FrozenTarget target) m actor scope top_k s = (Inr hs, t)"
    by (auto simp: search_sparse_def search_dense_def es_result_def split: sum.splits) (metis prod.collapse)+
  from r obtain s1 responses where p: "validate_search (FrozenTarget target) scope top_k = Inr ()" "ranked_hits E top_k responses = Inr hs"
    by (rule retrieve_Inr)
  from p(1) have "1 \<le> top_k" by (auto simp: validate_search_def split: if_splits)
  with ranked_hits_parts(1,2) [OF p(2)] frozen_retrieve [OF r _ assms(2)] show ?thesis by simp
qed

text \<open>An engine with one index, on which a search of its point in time finds the indexed chunk.\<close>

definition frozen_demo_index :: frozen_identity where
  "frozen_demo_index = \<lparr>fi_name = [105], fi_uuid = [117], fi_build = UUID 82, fi_projection = UUID 81, fi_profile = UUID 91,
     fi_dimension = 1, fi_mapping = 1\<rparr>"

definition frozen_demo_descriptor :: index_descriptor where
  "frozen_demo_descriptor = \<lparr>ix_dimension = 1, ix_similarity = lit ''cosine'', ix_name = Some [105], ix_profile = Some (UUID 91),
     ix_build = Some (UUID 82), ix_projection = Some (UUID 81), ix_mapping = 1\<rparr>"

definition frozen_demo_mappings :: py_value where
  "frozen_demo_mappings = (case build_mapping frozen_demo_descriptor of Inr (PDict [(k, m)]) \<Rightarrow> m | _ \<Rightarrow> PNone)"

definition frozen_demo_client :: "unit es_client" where
  "frozen_demo_client =
     \<lparr>ec_resolve = (\<lambda>n s. (Inr (PDict [(lit ''indices'', PList [PDict [(lit ''name'', PStr n)]])]), s)),
      ec_get = (\<lambda>n s. (Inr (created_metadata n [117] frozen_demo_mappings), s)),
      ec_open = (\<lambda>_ s. (Inr (PDict [(lit ''id'', PStr [112])]), s)),
      ec_search = (\<lambda>q s. (Inr (hits_response (matching_documents (es_filters q) [demo_indexed])), s)),
      ec_close = (\<lambda>_ s. (Inr (PDict [(lit ''succeeded'', PBool True)]), s))\<rparr>"

definition frozen_demo_target :: frozen_target where
  "frozen_demo_target = \<lparr>ft_descriptor = frozen_demo_descriptor, ft_prefix = [112], ft_profile = UUID 91,
     ft_identities = [frozen_demo_index], ft_versions = [UUID 32], ft_processing = None\<rparr>"

definition frozen_demo_scope :: resolved_scope where
  "frozen_demo_scope = demo_scope\<lparr>sc_active_only := False\<rparr>"

lemma frozen_demo_described:
  "describe_frozen_index V frozen_demo_client [105] () = (Inr frozen_demo_index, ())"
proof -
  have b: "build_mapping frozen_demo_descriptor = Inr (PDict [(lit ''mappings'', frozen_demo_mappings)])"
    by (simp add: frozen_demo_mappings_def build_mapping_def require_physical_metadata_def frozen_demo_descriptor_def del: lit_simps)
  have d: "require_physical_metadata frozen_demo_descriptor = Inr (UUID 91, UUID 82, UUID 81)"
    "new_descriptor frozen_demo_descriptor = Inr frozen_demo_descriptor" "1 \<le> ix_mapping frozen_demo_descriptor"
    by (simp_all add: frozen_demo_descriptor_def require_physical_metadata_def new_descriptor_def)
  have s: "strip [105] \<noteq> []" "strip [117] \<noteq> []" by (simp_all add: strip_def lstrip_def rstrip_def py_isspace_def)
  have u: "uuid_ok (UUID 91)" "uuid_ok (UUID 82)" "uuid_ok (UUID 81)" by (simp_all add: uuid_ok_def)
  show ?thesis
    using created_index_is_described [OF b d(1) u d(2,3) s, of frozen_demo_client "()" "()" "()" V]
    by (simp add: frozen_demo_client_def frozen_demo_index_def frozen_demo_descriptor_def)
qed

lemma frozen_demo_matches:
  "matching_documents (build_scope_filter (UUID 12) frozen_demo_scope @ identity_filters frozen_demo_index) [demo_indexed] = [demo_indexed]"
  by (simp add: matching_documents_def build_scope_filter_def frozen_demo_scope_def demo_scope_def scope_of_def field_values_def
      to_projection_def demo_indexed_def identity_filters_def frozen_demo_index_def demo_identity_def dict_fromkeys_def del: lit_simps)

lemma frozen_demo_found:
  "search_sparse V frozen_demo_client () (FrozenTarget frozen_demo_target) query (UUID 12) frozen_demo_scope 5
     = Inr [ScoredHit (chunk_of_document demo_indexed) 1 (Finite 1)]"
proof -
  let ?r = "hits_response [demo_indexed]" and ?m = "MultiMatch query" and ?C = frozen_demo_client
  let ?fs = "build_scope_filter (UUID 12) frozen_demo_scope @ identity_filters frozen_demo_index"
  have v: "validate_search (FrozenTarget frozen_demo_target) frozen_demo_scope 5 = Inr ()"
    by (simp add: validate_search_def frozen_demo_scope_def demo_scope_def scope_of_def)
  have valid: "validate_frozen_hit V frozen_demo_index (stored_hit demo_indexed (Finite 1)) = Inr ()"
    by (simp add: validate_frozen_hit_def stored_hit_def get_or_def py_get_def include_fields_def retrieval_source_fields_def
        to_projection_def py_str_def demo_indexed_def frozen_demo_index_def del: lit_simps)
  have found: "ec_search ?C \<lparr>es_place = InPit p, es_match = ?m, es_filters = ?fs, es_size = 5\<rparr> () = (Inr ?r, ())" for p
    using frozen_demo_matches by (simp add: frozen_demo_client_def)
  have pit: "py_get ?r (lit ''pit_id'') = Inr None" by (simp add: hits_response_def py_get_def del: lit_simps)
  have name: "fi_name frozen_demo_index = [105]" by (simp add: frozen_demo_index_def)
  have body: "frozen_body V ?C frozen_demo_index p ?m ?fs 5 () = (Inr ?r, p, ())" for p
    using valid pit
    by (simp add: frozen_body_def es_bind_def es_pure_def name frozen_demo_described require_same_identity_def found raw_hits_response
        text_of_def del: lit_simps)
  have opened: "ec_open ?C n () = (Inr (PDict [(lit ''id'', PStr [112])]), ())"
    "ec_close ?C p () = (Inr (PDict [(lit ''succeeded'', PBool True)]), ())" for n p
    by (simp_all add: frozen_demo_client_def del: lit_simps)
  have "frozen_search V ?C ?m ?fs 5 frozen_demo_index () = (Inr ?r, ())"
    by (simp add: frozen_search_def es_bind_def es_pure_def name frozen_demo_described require_same_identity_def opened py_item_def body
        close_pit_def close_acknowledged_def get_or_def py_get_def py_truthy_def del: lit_simps)
  then have "search_responses V ?C (FrozenTarget frozen_demo_target) ?m (UUID 12) frozen_demo_scope 5 () = (Inr [?r], ())"
    by (simp add: search_responses_def es_catch_def es_bind_def es_return_def frozen_demo_target_def)
  then show ?thesis by (simp add: search_sparse_def es_result_def retrieve_def es_bind_def es_pure_def v demo_ranked)
qed

theorem frozen_hits_belong_to_the_target_witness:
  "search_sparse demo_value_env frozen_demo_client () (FrozenTarget frozen_demo_target) [97] (UUID 12) frozen_demo_scope 5
     = Inr [ScoredHit (chunk_of_document demo_indexed) 1 (Finite 1)]
   \<and> rc_build (chunk_of_document demo_indexed) = fi_build frozen_demo_index"
proof -
  have ok: "i \<in> set (ft_identities frozen_demo_target) \<Longrightarrow> uuid_ok (fi_build i) \<and> uuid_ok (fi_projection i)" for i
    by (simp add: frozen_demo_target_def frozen_demo_index_def uuid_ok_def)
  from frozen_hits_belong_to_the_target [OF disjI1 [OF frozen_demo_found] ok] frozen_demo_found show ?thesis
    by (simp add: frozen_demo_target_def)
qed

end
