(* ===== verification/Deployments.thy ===== *)
theory Deployments
  imports Rag_Documents
begin

text \<open>
  Model deployments (\<^verbatim>\<open>labs/rag/deployments/domain.py\<close>, \<^verbatim>\<open>endpoint_policy.py\<close>): where a language
  model runs, what leaves the installation when it is asked, and the checks a version passes.
\<close>

section \<open>A deployment version\<close>

datatype provider_kind =
    LOCAL_TRANSFORMERS | LOCAL_OPENAI_COMPATIBLE | OPENAI_RESPONSES | ANTHROPIC_MESSAGES | DEVELOPMENT_CODEX_EXEC

datatype execution_location = LOCAL | ON_PREMISE | EXTERNAL

datatype deployment_environment = DEVELOPMENT | STAGING | PRODUCTION

datatype deployment_capability = STRUCTURED_OUTPUT | CONTEXTUALIZATION | TOKEN_ACCOUNTING

record model_deployment =
  md_id :: uuid
  md_deployment :: uuid
  md_version :: int
  md_name :: pystr
  md_description :: pystr
  md_model :: uuid
  md_provider :: provider_kind
  md_location :: execution_location
  md_environments :: "deployment_environment list"
  md_provider_model :: pystr
  md_endpoint :: "pystr option"
  md_secret :: "pystr option"
  md_capabilities :: "deployment_capability set"
  md_external :: bool
  md_categories :: "pystr list"
  md_notice :: "pystr option"
  md_timeout :: py_float
  md_retries :: int
  md_backoff :: py_float
  md_healthcheck :: bool
  md_dev_only :: bool
  md_creator :: uuid
  md_created :: int
  md_runner :: "pystr option"
  md_local_model :: "pystr option"

abbreviation deployment_invalid :: exn where
  "deployment_invalid \<equiv> ValueError ''deployment''"

definition clean_required :: "pystr option \<Rightarrow> pystr res" where
  "clean_required v =
     (case v of None \<Rightarrow> Inl deployment_invalid
      | Some s \<Rightarrow> if strip s = [] then Inl deployment_invalid else Inr (strip s))"

definition clean_optional :: "pystr option \<Rightarrow> pystr option res" where
  "clean_optional v =
     (case v of None \<Rightarrow> Inr None
      | Some s \<Rightarrow> if strip s = [] then Inl deployment_invalid else Inr (Some (strip s)))"

text \<open>
  The pattern \<^verbatim>\<open>[a-z][a-z0-9]*-[a-z0-9]+(?:-[a-z0-9]+)*\<close>: parts of letters and digits joined by
  dashes, at least two of them, none empty, the first one beginning with a letter.
\<close>

fun dash_parts :: "pystr \<Rightarrow> pystr list" where
  "dash_parts [] = [[]]"
| "dash_parts (c # cs) =
     (if c = 45 then [] # dash_parts cs
      else (case dash_parts cs of p # ps \<Rightarrow> (c # p) # ps | [] \<Rightarrow> [[c]]))"

definition lower_letter :: "nat \<Rightarrow> bool" where
  "lower_letter c \<longleftrightarrow> 97 \<le> c \<and> c \<le> 122"

definition reference_part :: "pystr \<Rightarrow> bool" where
  "reference_part p \<longleftrightarrow> p \<noteq> [] \<and> list_all (\<lambda>c. lower_letter c \<or> (48 \<le> c \<and> c \<le> 57)) p"

definition safe_reference :: "pystr \<Rightarrow> bool" where
  "safe_reference s \<longleftrightarrow>
     (case dash_parts s of
        p # q # ps \<Rightarrow> (case p of [] \<Rightarrow> False | c # _ \<Rightarrow> lower_letter c) \<and> list_all reference_part (p # q # ps)
      | _ \<Rightarrow> False)"

definition secret_shaped :: "pystr \<Rightarrow> bool" where
  "secret_shaped s \<longleftrightarrow>
     list_ex (\<lambda>p. take (length p) s = p) [lit ''sk-'', lit ''sess-'', lit ''key-'', lit ''token-'', lit ''secret-'']"

definition local_location :: "execution_location \<Rightarrow> bool" where
  "local_location l \<longleftrightarrow> l = LOCAL \<or> l = ON_PREMISE"

text \<open>The references a provider runs with: endpoint, runner and local model, each cleaned.\<close>

definition execution_references :: "model_deployment \<Rightarrow> (pystr option \<times> pystr option \<times> pystr option) res" where
  "execution_references d =
     (if md_provider d \<noteq> LOCAL_TRANSFORMERS \<and> md_local_model d \<noteq> None then Inl deployment_invalid
      else if md_provider d = DEVELOPMENT_CODEX_EXEC then
        rbind (clean_required (md_runner d)) (\<lambda>r.
          if md_endpoint d \<noteq> None \<or> 120 < length r \<or> \<not> safe_reference r \<or> secret_shaped r
             \<or> \<not> md_external d \<or> md_location d \<noteq> EXTERNAL \<or> \<not> md_dev_only d \<or> md_environments d \<noteq> [DEVELOPMENT]
             \<or> md_secret d \<noteq> None \<or> md_retries d \<noteq> 0 \<or> md_backoff d \<noteq> Finite 0 \<or> md_healthcheck d
          then Inl deployment_invalid else Inr (None, Some r, None))
      else if md_provider d = LOCAL_TRANSFORMERS then
        rbind (clean_required (md_local_model d)) (\<lambda>m.
          if 120 < length m \<or> \<not> safe_reference m \<or> secret_shaped m \<or> md_endpoint d \<noteq> None \<or> md_runner d \<noteq> None
             \<or> md_secret d \<noteq> None \<or> md_external d \<or> \<not> local_location (md_location d)
             \<or> md_retries d \<noteq> 0 \<or> md_backoff d \<noteq> Finite 0
          then Inl deployment_invalid else Inr (None, None, Some m))
      else
        rbind (clean_required (md_endpoint d)) (\<lambda>e.
          if md_runner d \<noteq> None then Inl deployment_invalid else Inr (Some e, None, None)))"

definition transfer_contract :: "model_deployment \<Rightarrow> pystr option \<Rightarrow> pystr option \<Rightarrow> pystr list \<Rightarrow> unit res" where
  "transfer_contract d secret notice categories =
     (let external = (md_location d = EXTERNAL)
      in if external \<noteq> md_external d then Inl deployment_invalid
         else if md_provider d = LOCAL_OPENAI_COMPATIBLE \<and> \<not> local_location (md_location d) then Inl deployment_invalid
         else if (md_provider d = OPENAI_RESPONSES \<or> md_provider d = ANTHROPIC_MESSAGES) \<and> (\<not> external \<or> secret = None)
         then Inl deployment_invalid
         else if md_external d \<and> (categories = [] \<or> notice = None) then Inl deployment_invalid
         else if \<not> md_external d \<and> (categories \<noteq> [] \<or> notice \<noteq> None) then Inl deployment_invalid
         else Inr ())"

definition new_deployment :: "model_deployment \<Rightarrow> model_deployment res" where
  "new_deployment d =
     (let name = strip (md_name d)
      in if name = [] then Inl deployment_invalid
         else if md_version d < 1 then Inl deployment_invalid
         else if md_timeout d = Finite 0 \<or> float_less (md_timeout d) (Finite 0) then Inl deployment_invalid
         else if md_retries d < 0 then Inl deployment_invalid
         else if float_less (md_backoff d) (Finite 0) then Inl deployment_invalid
         else if md_environments d = [] \<or> \<not> distinct (md_environments d) then Inl deployment_invalid
         else if md_dev_only d \<and> md_environments d \<noteq> [DEVELOPMENT] then Inl deployment_invalid
         else if md_capabilities d = {} then Inl deployment_invalid
         else
           rbind (clean_required (Some (md_provider_model d))) (\<lambda>model.
           rbind (execution_references d) (\<lambda>(endpoint, runner, local_model).
           rbind (clean_optional (md_secret d)) (\<lambda>secret.
           rbind (clean_optional (md_notice d)) (\<lambda>notice.
             let categories = map strip (md_categories d)
             in if [] \<in> set categories \<or> \<not> distinct categories then Inl deployment_invalid
                else
                  rbind (transfer_contract d secret notice categories) (\<lambda>_.
                    Inr (d\<lparr>md_name := name, md_description := strip (md_description d), md_provider_model := model,
                      md_endpoint := endpoint, md_secret := secret, md_categories := categories, md_notice := notice,
                      md_runner := runner, md_local_model := local_model\<rparr>)))))))"

section \<open>Endpoints\<close>

datatype endpoint_dialect = OpenAI_Dialect | Ollama_Dialect | Anthropic_Dialect

definition validate_endpoint_dialect :: "provider_kind \<Rightarrow> pystr \<Rightarrow> (pystr \<rightharpoonup> endpoint_dialect) \<Rightarrow> endpoint_dialect res" where
  "validate_endpoint_dialect provider reference dialects =
     (let dialect = (case dialects reference of None \<Rightarrow> OpenAI_Dialect | Some x \<Rightarrow> x)
      in if (provider = ANTHROPIC_MESSAGES) \<noteq> (dialect = Anthropic_Dialect) then Inl (ValueError ''endpoint_dialect'')
         else Inr dialect)"

section \<open>Cleaned values\<close>

lemma clean_required_Inr: "clean_required v = Inr s \<longleftrightarrow> (\<exists>t. v = Some t \<and> s = strip t \<and> s \<noteq> [])"
  by (auto simp: clean_required_def split: option.splits)

lemma clean_optional_Inr:
  "clean_optional v = Inr w \<longleftrightarrow> (case v of None \<Rightarrow> w = None | Some t \<Rightarrow> w = Some (strip t) \<and> strip t \<noteq> [])"
  by (auto simp: clean_optional_def split: option.splits)

lemma new_deployment_Inr:
  assumes "new_deployment d = Inr e"
  obtains endpoint runner local_model secret notice where
    "execution_references d = Inr (endpoint, runner, local_model)" "clean_optional (md_secret d) = Inr secret"
    "clean_optional (md_notice d) = Inr notice" "transfer_contract d secret notice (map strip (md_categories d)) = Inr ()"
    "strip (md_provider_model d) \<noteq> []" "[] \<notin> set (map strip (md_categories d))" "distinct (map strip (md_categories d))"
    "strip (md_name d) \<noteq> []" "\<not> md_version d < 1" "\<not> (md_timeout d = Finite 0 \<or> float_less (md_timeout d) (Finite 0))"
    "\<not> md_retries d < 0" "\<not> float_less (md_backoff d) (Finite 0)" "md_environments d \<noteq> []" "distinct (md_environments d)"
    "md_dev_only d \<longrightarrow> md_environments d = [DEVELOPMENT]" "md_capabilities d \<noteq> {}"
    "e = d\<lparr>md_name := strip (md_name d), md_description := strip (md_description d), md_provider_model := strip (md_provider_model d),
       md_endpoint := endpoint, md_secret := secret, md_categories := map strip (md_categories d), md_notice := notice,
       md_runner := runner, md_local_model := local_model\<rparr>"
  using assms unfolding new_deployment_def Let_def
  by (auto simp: clean_required_Inr split: if_splits)

end
