(* ===== verification/Transfer_Policy.thy ===== *)
theory Transfer_Policy
  imports Deployments Workspaces "HOL-Library.Product_Lexorder"
begin

text \<open>
  External transfer policies (\<^verbatim>\<open>labs/rag/policies\<close>): the versions of the installation policy and of
  the policies of workspaces, the decision whether a deployment may be asked
  (\<^verbatim>\<open>domain.py\<close>, \<^verbatim>\<open>service.py\<close>), and the tables and approvals behind it (\<^verbatim>\<open>repository.py\<close>).
\<close>

section \<open>Policies\<close>

datatype outbound_mode = DENY | APPROVED_PROVIDERS

datatype workspace_outbound_mode = WS_INHERIT | WS_DENY | WS_APPROVED_PROVIDERS

datatype policy_reason = PROVIDER_NOT_ALLOWED | WORKSPACE_EXTERNAL_TRANSFER_DENIED

record installation_policy =
  in_id :: uuid
  in_policy :: uuid
  in_version :: int
  in_mode :: outbound_mode
  in_providers :: "provider_kind set"
  in_changed_by :: uuid
  in_created :: int

record workspace_policy =
  wp_id :: uuid
  wp_policy :: uuid
  wp_workspace :: uuid
  wp_version :: int
  wp_mode :: workspace_outbound_mode
  wp_providers :: "provider_kind set"
  wp_changed_by :: uuid
  wp_created :: int

abbreviation data_policy_invalid :: exn where
  "data_policy_invalid \<equiv> ValueError ''data_policy''"

definition validate_policy_shape :: "int \<Rightarrow> bool \<Rightarrow> provider_kind set \<Rightarrow> unit res" where
  "validate_policy_shape version approved providers =
     (if version < 1 then Inl data_policy_invalid
      else if approved \<and> providers = {} then Inl data_policy_invalid
      else if \<not> approved \<and> providers \<noteq> {} then Inl data_policy_invalid
      else Inr ())"

definition new_installation_policy :: "installation_policy \<Rightarrow> installation_policy res" where
  "new_installation_policy p =
     rbind (validate_policy_shape (in_version p) (in_mode p = APPROVED_PROVIDERS) (in_providers p)) (\<lambda>_. Inr p)"

definition new_workspace_policy :: "workspace_policy \<Rightarrow> workspace_policy res" where
  "new_workspace_policy p =
     rbind (validate_policy_shape (wp_version p) (wp_mode p = WS_APPROVED_PROVIDERS) (wp_providers p)) (\<lambda>_. Inr p)"

record policy_decision =
  pc_allowed :: bool
  pc_reason :: "policy_reason option"
  pc_installation :: uuid
  pc_versions :: "uuid list"
  pc_snapshots :: "(uuid \<times> uuid) list"

text \<open>\<^verbatim>\<open>dict(...)\<close> of pairs and the comparison of its length with theirs.\<close>

record external_approval =
  ea_id :: uuid
  ea_configuration :: uuid
  ea_deployment :: uuid
  ea_installation :: uuid
  ea_approved_by :: uuid
  ea_disclosure :: pystr
  ea_snapshots :: "(uuid \<times> uuid) list"
  ea_created :: int

definition exact_external_approval_is_current ::
  "external_approval \<Rightarrow> uuid \<Rightarrow> uuid \<Rightarrow> uuid list \<Rightarrow> policy_decision \<Rightarrow> pystr \<Rightarrow> bool" where
  "exact_external_approval_is_current a configuration deployment wids policy disclosure \<longleftrightarrow>
     (let expected = dict_fromkeys wids; current = pc_snapshots policy; approved = ea_snapshots a
      in distinct (map fst current) \<and> distinct (map fst approved)
         \<and> ea_configuration a = configuration \<and> ea_deployment a = deployment
         \<and> ea_installation a = pc_installation policy \<and> ea_disclosure a = disclosure
         \<and> set approved = set current \<and> set (map fst approved) = set expected)"

definition validate_workspace_restrictions :: "installation_policy \<Rightarrow> workspace_policy list \<Rightarrow> unit res" where
  "validate_workspace_restrictions p ws =
     (if list_ex (\<lambda>w. wp_mode w = WS_APPROVED_PROVIDERS \<and> (in_mode p = DENY \<or> \<not> wp_providers w \<subseteq> in_providers p)) ws
      then Inl data_policy_invalid else Inr ())"

fun refused_by_workspace :: "provider_kind \<Rightarrow> workspace_policy list \<Rightarrow> bool" where
  "refused_by_workspace provider [] = False"
| "refused_by_workspace provider (w # ws) =
     (if wp_mode w = WS_DENY then True
      else if wp_mode w = WS_APPROVED_PROVIDERS \<and> provider \<notin> wp_providers w then True
      else refused_by_workspace provider ws)"

definition resolve_external_transfer_policy ::
  "provider_kind \<Rightarrow> installation_policy \<Rightarrow> workspace_policy list \<Rightarrow> policy_decision res" where
  "resolve_external_transfer_policy provider p ws =
     rbind (validate_workspace_restrictions p ws) (\<lambda>_.
       let decide = (\<lambda>allowed reason. Inr \<lparr>pc_allowed = allowed, pc_reason = reason, pc_installation = in_id p,
             pc_versions = map wp_id ws, pc_snapshots = map (\<lambda>w. (wp_workspace w, wp_id w)) ws\<rparr>)
       in if provider = LOCAL_OPENAI_COMPATIBLE \<or> provider = LOCAL_TRANSFORMERS then decide True None
          else if in_mode p = DENY then decide False (Some PROVIDER_NOT_ALLOWED)
          else if provider \<notin> in_providers p then decide False (Some PROVIDER_NOT_ALLOWED)
          else if refused_by_workspace provider ws then decide False (Some WORKSPACE_EXTERNAL_TRANSFER_DENIED)
          else decide True None)"

section \<open>Tables\<close>

text \<open>
  A policy version is stored with the texts of its mode and of its providers, sorted.
\<close>

fun provider_text :: "provider_kind \<Rightarrow> pystr" where
  "provider_text LOCAL_TRANSFORMERS = lit ''local_transformers''"
| "provider_text LOCAL_OPENAI_COMPATIBLE = lit ''local_openai_compatible''"
| "provider_text OPENAI_RESPONSES = lit ''openai_responses''"
| "provider_text ANTHROPIC_MESSAGES = lit ''anthropic_messages''"
| "provider_text DEVELOPMENT_CODEX_EXEC = lit ''development_codex_exec''"

definition all_providers :: "provider_kind list" where
  "all_providers = [LOCAL_TRANSFORMERS, LOCAL_OPENAI_COMPATIBLE, OPENAI_RESPONSES, ANTHROPIC_MESSAGES, DEVELOPMENT_CODEX_EXEC]"

definition parse_enum :: "('a \<Rightarrow> pystr) \<Rightarrow> 'a list \<Rightarrow> pystr \<Rightarrow> 'a res" where
  "parse_enum text_of_value values s =
     (case find (\<lambda>v. text_of_value v = s) values of None \<Rightarrow> Inl (ValueError ''enum'') | Some v \<Rightarrow> Inr v)"

fun outbound_text :: "outbound_mode \<Rightarrow> pystr" where
  "outbound_text DENY = lit ''deny''"
| "outbound_text APPROVED_PROVIDERS = lit ''approved_providers''"

fun workspace_outbound_text :: "workspace_outbound_mode \<Rightarrow> pystr" where
  "workspace_outbound_text WS_INHERIT = lit ''inherit''"
| "workspace_outbound_text WS_DENY = lit ''deny''"
| "workspace_outbound_text WS_APPROVED_PROVIDERS = lit ''approved_providers''"

definition stored_providers :: "provider_kind set \<Rightarrow> pystr list" where
  "stored_providers ps = sort (map provider_text (filter (\<lambda>p. p \<in> ps) all_providers))"

definition read_providers :: "pystr list \<Rightarrow> provider_kind set res" where
  "read_providers ts = rbind (mapr (parse_enum provider_text all_providers) ts) (\<lambda>ps. Inr (set ps))"

record installation_row =
  il_id :: uuid
  il_policy :: uuid
  il_version :: int
  il_mode :: pystr
  il_providers :: "pystr list"
  il_changed_by :: uuid
  il_created :: int

record workspace_policy_row =
  wl_id :: uuid
  wl_policy :: uuid
  wl_workspace :: uuid
  wl_version :: int
  wl_mode :: pystr
  wl_providers :: "pystr list"
  wl_changed_by :: uuid
  wl_created :: int

record approval_row =
  ar_id :: uuid
  ar_configuration :: uuid
  ar_deployment :: uuid
  ar_installation :: uuid
  ar_approved_by :: uuid
  ar_disclosure :: pystr
  ar_created :: int

text \<open>
  The tables: the single row of the installation policy, its versions, the identities of the
  policies of workspaces (policy, workspace) and their versions, and what an approval refers to:
  configuration versions with their generation profile, profiles with their deployment,
  deployments, subscriptions (configuration version, workspace), approvals and their snapshots
  (approval, workspace, policy version).
\<close>

record policy_db =
  pd_ws :: ws_db
  pd_singleton :: "uuid list"
  pd_installations :: "installation_row list"
  pd_identities :: "(uuid \<times> uuid) list"
  pd_policies :: "workspace_policy_row list"
  pd_configurations :: "(uuid \<times> uuid option) list"
  pd_bindings :: "(uuid \<times> uuid) list"
  pd_deployments :: "model_deployment list"
  pd_subscriptions :: "(uuid \<times> uuid) list"
  pd_approvals :: "approval_row list"
  pd_approval_workspaces :: "(uuid \<times> uuid \<times> uuid) list"

abbreviation policy_uninitialized :: exn where
  "policy_uninitialized \<equiv> RuntimeError ''installation_policy''"

text \<open>\<^verbatim>\<open>lock_external_execution_policy\<close> and \<^verbatim>\<open>installation_policy_id\<close>; the row lock orders the transactions.\<close>

definition installation_policy_id :: "policy_db \<Rightarrow> uuid res" where
  "installation_policy_id db = (case pd_singleton db of [] \<Rightarrow> Inl policy_uninitialized | p # _ \<Rightarrow> Inr p)"

definition latest_version :: "int list \<Rightarrow> int" where
  "latest_version vs = fold max vs 0"

definition next_installation_version :: "policy_db \<Rightarrow> uuid \<Rightarrow> int" where
  "next_installation_version db p = latest_version (map il_version (filter (\<lambda>r. il_policy r = p) (pd_installations db))) + 1"

definition installation_row_of :: "installation_policy \<Rightarrow> installation_row" where
  "installation_row_of p = \<lparr>il_id = in_id p, il_policy = in_policy p, il_version = in_version p, il_mode = outbound_text (in_mode p),
     il_providers = stored_providers (in_providers p), il_changed_by = in_changed_by p, il_created = in_created p\<rparr>"

text \<open>The constraints of the tables: keys, unique versions, positive versions and the foreign key.\<close>

definition add_installation_version :: "policy_db \<Rightarrow> installation_policy \<Rightarrow> policy_db res" where
  "add_installation_version db p =
     (if in_id p \<in> il_id ` set (pd_installations db)
         \<or> (in_policy p, in_version p) \<in> (\<lambda>r. (il_policy r, il_version r)) ` set (pd_installations db)
         \<or> in_policy p \<notin> set (pd_singleton db) \<or> in_version p < 1
      then Inl IntegrityError
      else Inr (db\<lparr>pd_installations := pd_installations db @ [installation_row_of p]\<rparr>))"

definition get_installation_version :: "policy_db \<Rightarrow> uuid \<Rightarrow> installation_policy option res" where
  "get_installation_version db i =
     (case row_by il_id i (pd_installations db) of
        None \<Rightarrow> Inr None
      | Some r \<Rightarrow>
          rbind (parse_enum outbound_text [DENY, APPROVED_PROVIDERS] (il_mode r)) (\<lambda>mode.
          rbind (read_providers (il_providers r)) (\<lambda>ps.
          rbind (new_installation_policy \<lparr>in_id = il_id r, in_policy = il_policy r, in_version = il_version r, in_mode = mode,
            in_providers = ps, in_changed_by = il_changed_by r, in_created = il_created r\<rparr>) (\<lambda>p. Inr (Some p)))))"

definition latest_installation_id :: "policy_db \<Rightarrow> uuid option" where
  "latest_installation_id db =
     (case rev (sort_key (\<lambda>r. (il_version r, il_id r)) (pd_installations db)) of [] \<Rightarrow> None | r # _ \<Rightarrow> Some (il_id r))"

definition latest_installation_policy :: "policy_db \<Rightarrow> installation_policy res" where
  "latest_installation_policy db =
     (case latest_installation_id db of
        None \<Rightarrow> Inl policy_uninitialized
      | Some i \<Rightarrow> rbind (get_installation_version db i) (\<lambda>p.
          (case p of None \<Rightarrow> Inl policy_uninitialized | Some q \<Rightarrow> Inr q)))"

definition workspace_exists :: "policy_db \<Rightarrow> uuid \<Rightarrow> bool" where
  "workspace_exists db w \<longleftrightarrow> row_by wr_id w (wd_workspaces (pd_ws db)) \<noteq> None"

definition workspace_policy_id :: "policy_db \<Rightarrow> uuid \<Rightarrow> uuid option" where
  "workspace_policy_id db w = map_option fst (row_by snd w (pd_identities db))"

definition create_workspace_policy_identity :: "policy_db \<Rightarrow> uuid \<Rightarrow> uuid \<Rightarrow> policy_db res" where
  "create_workspace_policy_identity db p w =
     (if p \<in> fst ` set (pd_identities db) \<or> w \<in> snd ` set (pd_identities db) \<or> \<not> workspace_exists db w
      then Inl IntegrityError
      else Inr (db\<lparr>pd_identities := pd_identities db @ [(p, w)]\<rparr>))"

definition next_workspace_version :: "policy_db \<Rightarrow> uuid \<Rightarrow> int" where
  "next_workspace_version db p = latest_version (map wl_version (filter (\<lambda>r. wl_policy r = p) (pd_policies db))) + 1"

definition workspace_row_of :: "workspace_policy \<Rightarrow> workspace_policy_row" where
  "workspace_row_of p = \<lparr>wl_id = wp_id p, wl_policy = wp_policy p, wl_workspace = wp_workspace p, wl_version = wp_version p,
     wl_mode = workspace_outbound_text (wp_mode p), wl_providers = stored_providers (wp_providers p),
     wl_changed_by = wp_changed_by p, wl_created = wp_created p\<rparr>"

definition add_workspace_version :: "policy_db \<Rightarrow> workspace_policy \<Rightarrow> policy_db res" where
  "add_workspace_version db p =
     rbind (if row_by fst (wp_policy p) (pd_identities db) = None
            then create_workspace_policy_identity db (wp_policy p) (wp_workspace p) else Inr db) (\<lambda>db'.
       if wp_id p \<in> wl_id ` set (pd_policies db')
          \<or> (wp_policy p, wp_version p) \<in> (\<lambda>r. (wl_policy r, wl_version r)) ` set (pd_policies db')
          \<or> (wp_policy p, wp_workspace p) \<notin> set (pd_identities db') \<or> wp_version p < 1
       then Inl IntegrityError
       else Inr (db'\<lparr>pd_policies := pd_policies db' @ [workspace_row_of p]\<rparr>))"

definition get_workspace_version :: "policy_db \<Rightarrow> uuid \<Rightarrow> workspace_policy option res" where
  "get_workspace_version db i =
     (case row_by wl_id i (pd_policies db) of
        None \<Rightarrow> Inr None
      | Some r \<Rightarrow>
          rbind (parse_enum workspace_outbound_text [WS_INHERIT, WS_DENY, WS_APPROVED_PROVIDERS] (wl_mode r)) (\<lambda>mode.
          rbind (read_providers (wl_providers r)) (\<lambda>ps.
          rbind (new_workspace_policy \<lparr>wp_id = wl_id r, wp_policy = wl_policy r, wp_workspace = wl_workspace r, wp_version = wl_version r,
            wp_mode = mode, wp_providers = ps, wp_changed_by = wl_changed_by r, wp_created = wl_created r\<rparr>) (\<lambda>p. Inr (Some p)))))"

definition latest_workspace_row :: "policy_db \<Rightarrow> uuid \<Rightarrow> workspace_policy_row option" where
  "latest_workspace_row db w =
     (case rev (sort_key wl_version (filter (\<lambda>r. wl_workspace r = w) (pd_policies db))) of [] \<Rightarrow> None | r # _ \<Rightarrow> Some r)"

definition latest_workspace_policies :: "policy_db \<Rightarrow> uuid list \<Rightarrow> workspace_policy list res" where
  "latest_workspace_policies db wids =
     rbind (mapr (\<lambda>r. get_workspace_version db (wl_id r)) (List.map_filter (latest_workspace_row db) wids)) (\<lambda>ps.
       Inr (List.map_filter (\<lambda>p. p) ps))"

section \<open>The service\<close>

abbreviation invalid_policy_error :: exn where
  "invalid_policy_error \<equiv> AppError ''invalid_data_policy'' 422"

abbreviation version_conflict_error :: exn where
  "version_conflict_error \<equiv> AppError ''data_policy_version_exists'' 409"

definition policy_error :: "'a res \<Rightarrow> 'a res" where
  "policy_error r =
     (case r of
        Inl e \<Rightarrow> Inl (if e = data_policy_invalid then invalid_policy_error else if e = IntegrityError then version_conflict_error else e)
      | Inr x \<Rightarrow> Inr x)"

definition append_installation ::
  "policy_db \<Rightarrow> uuid \<Rightarrow> int \<Rightarrow> uuid \<Rightarrow> outbound_mode \<Rightarrow> provider_kind set \<Rightarrow> (policy_db \<times> installation_policy) res" where
  "append_installation db fresh now actor mode providers =
     rbind (installation_policy_id db) (\<lambda>pid.
       policy_error
         (rbind (new_installation_policy \<lparr>in_id = fresh, in_policy = pid, in_version = next_installation_version db pid,
              in_mode = mode, in_providers = providers, in_changed_by = actor, in_created = now\<rparr>) (\<lambda>p.
          rbind (add_installation_version db p) (\<lambda>db'. Inr (db', p)))))"

definition current_installation :: "policy_db \<Rightarrow> installation_policy res" where
  "current_installation db = latest_installation_policy db"

definition current_workspace :: "policy_db \<Rightarrow> uuid \<Rightarrow> workspace_policy res" where
  "current_workspace db w =
     (if \<not> workspace_exists db w then Inl resource_not_found
      else rbind (latest_workspace_policies db [w]) (\<lambda>ps.
        (case ps of [] \<Rightarrow> Inl resource_not_found | p # _ \<Rightarrow> Inr p)))"

definition ensure_workspace_restriction :: "installation_policy \<Rightarrow> workspace_policy \<Rightarrow> unit res" where
  "ensure_workspace_restriction p w =
     (if wp_mode w \<noteq> WS_APPROVED_PROVIDERS then Inr ()
      else if in_mode p = DENY \<or> \<not> wp_providers w \<subseteq> in_providers p then Inl data_policy_invalid
      else Inr ())"

definition append_workspace ::
  "policy_db \<Rightarrow> uuid \<Rightarrow> uuid \<Rightarrow> int \<Rightarrow> uuid \<Rightarrow> uuid \<Rightarrow> workspace_outbound_mode \<Rightarrow> provider_kind set
     \<Rightarrow> (policy_db \<times> workspace_policy) res" where
  "append_workspace db fresh_policy fresh now actor w mode providers =
     rbind (installation_policy_id db) (\<lambda>_.
     rbind (latest_installation_policy db) (\<lambda>installation.
     if \<not> workspace_exists db w then Inl resource_not_found
     else
       rbind (case workspace_policy_id db w of
            Some p \<Rightarrow> Inr (db, p)
          | None \<Rightarrow> policy_error (rbind (create_workspace_policy_identity db fresh_policy w) (\<lambda>db'. Inr (db', fresh_policy)))) (\<lambda>(db1, pid).
         policy_error
           (rbind (new_workspace_policy \<lparr>wp_id = fresh, wp_policy = pid, wp_workspace = w, wp_version = next_workspace_version db1 pid,
                wp_mode = mode, wp_providers = providers, wp_changed_by = actor, wp_created = now\<rparr>) (\<lambda>p.
            rbind (ensure_workspace_restriction installation p) (\<lambda>_.
            rbind (add_workspace_version db1 p) (\<lambda>db'. Inr (db', p))))))))"

text \<open>The decision for a generation request.\<close>

definition resolve_generation_policy :: "policy_db \<Rightarrow> model_deployment \<Rightarrow> uuid list \<Rightarrow> policy_decision res" where
  "resolve_generation_policy db d wids =
     (let requested = dict_fromkeys wids
      in rbind (if md_location d = EXTERNAL then rbind (installation_policy_id db) (\<lambda>_. Inr ()) else Inr ()) (\<lambda>_.
         rbind (latest_installation_policy db) (\<lambda>p.
         rbind (latest_workspace_policies db requested) (\<lambda>found.
           let exact = List.map_filter (map_of (rev (map (\<lambda>w. (wp_workspace w, w)) found))) requested;
             decide = (\<lambda>allowed reason. \<lparr>pc_allowed = allowed, pc_reason = reason, pc_installation = in_id p,
               pc_versions = map wp_id exact, pc_snapshots = map (\<lambda>w. (wp_workspace w, wp_id w)) exact\<rparr>)
           in if local_location (md_location d) then Inr (decide True None)
              else if length exact \<noteq> length requested then Inr (decide False (Some WORKSPACE_EXTERNAL_TRANSFER_DENIED))
              else
                rbind (resolve_external_transfer_policy (md_provider d) p []) (\<lambda>i.
                  if \<not> pc_allowed i then Inr (decide False (pc_reason i))
                  else
                    (case resolve_external_transfer_policy (md_provider d) p exact of
                       Inl e \<Rightarrow> if e = data_policy_invalid then Inr (decide False (Some WORKSPACE_EXTERNAL_TRANSFER_DENIED)) else Inl e
                     | Inr x \<Rightarrow> Inr x))))))"

section \<open>Approvals\<close>

definition validate_external_approval :: "policy_db \<Rightarrow> external_approval \<Rightarrow> unit res" where
  "validate_external_approval db a =
     (let subscribed = map snd (filter (\<lambda>(c, _). c = ea_configuration a) (pd_subscriptions db))
      in (case map_of (pd_configurations db) (ea_configuration a) of
            Some (Some profile) \<Rightarrow>
              if map_of (pd_bindings db) profile \<noteq> Some (ea_deployment a)
                 \<or> (case row_by md_id (ea_deployment a) (pd_deployments db) of None \<Rightarrow> True
                    | Some d \<Rightarrow> md_location d \<noteq> EXTERNAL \<or> \<not> md_external d)
              then Inl (ValueError ''approval_deployment'')
              else if latest_installation_id db \<noteq> Some (ea_installation a) then Inl (ValueError ''approval_installation'')
              else if \<not> distinct (map fst (ea_snapshots a)) then Inl (ValueError ''approval_duplicate'')
              else if set (map fst (ea_snapshots a)) \<noteq> set subscribed then Inl (ValueError ''approval_workspaces'')
              else
                rbind (latest_workspace_policies db (sort (remdups subscribed))) (\<lambda>latest.
                  if set (ea_snapshots a) \<noteq> set (map (\<lambda>w. (wp_workspace w, wp_id w)) latest)
                  then Inl (ValueError ''approval_policies'') else Inr ())
          | _ \<Rightarrow> Inl (ValueError ''approval_configuration'')))"

definition add_external_approval :: "policy_db \<Rightarrow> external_approval \<Rightarrow> policy_db res" where
  "add_external_approval db a =
     rbind (validate_external_approval db a) (\<lambda>_.
       if ea_id a \<in> ar_id ` set (pd_approvals db) \<or> ea_configuration a \<in> ar_configuration ` set (pd_approvals db)
       then Inl IntegrityError
       else Inr (db\<lparr>pd_approvals := pd_approvals db @ [\<lparr>ar_id = ea_id a, ar_configuration = ea_configuration a,
            ar_deployment = ea_deployment a, ar_installation = ea_installation a, ar_approved_by = ea_approved_by a,
            ar_disclosure = ea_disclosure a, ar_created = ea_created a\<rparr>],
          pd_approval_workspaces := pd_approval_workspaces db @ map (\<lambda>(w, v). (ea_id a, w, v)) (ea_snapshots a)\<rparr>))"

definition get_external_approval :: "policy_db \<Rightarrow> uuid \<Rightarrow> external_approval option" where
  "get_external_approval db configuration =
     (case row_by ar_configuration configuration (pd_approvals db) of
        None \<Rightarrow> None
      | Some r \<Rightarrow> Some \<lparr>ea_id = ar_id r, ea_configuration = ar_configuration r, ea_deployment = ar_deployment r,
          ea_installation = ar_installation r, ea_approved_by = ar_approved_by r, ea_disclosure = ar_disclosure r,
          ea_snapshots = sort_key fst (map snd (filter (\<lambda>x. fst x = ar_id r) (pd_approval_workspaces db))), ea_created = ar_created r\<rparr>)"

end
