(* ===== verification/Transfer_History.thy ===== *)
theory Transfer_History
  imports Transfer_Policy
begin

text \<open>
  The history of the transfer policies: every order of appended versions and approvals, with the
  other tables changing in any way, keeps \<open>policies_ok\<close> and only adds rows.
\<close>

section \<open>Numbered versions\<close>

definition numbered :: "('r \<Rightarrow> int) \<Rightarrow> 'r list \<Rightarrow> bool" where
  "numbered v rows \<longleftrightarrow> (\<forall>i<length rows. v (rows ! i) = int i + 1)"

lemma numbered_Nil [simp]: "numbered v []"
  by (simp add: numbered_def)

lemma numbered_snoc: "numbered v (rows @ [r]) \<longleftrightarrow> numbered v rows \<and> v r = int (length rows) + 1"
  by (auto simp: numbered_def nth_append less_Suc_eq)

lemma numbered_nth: "numbered v rows \<Longrightarrow> i < length rows \<Longrightarrow> v (rows ! i) = int i + 1"
  by (simp add: numbered_def)

lemma latest_version_numbered: "numbered v rows \<Longrightarrow> latest_version (map v rows) = int (length rows)"
proof (induction rows rule: rev_induct)
  case (snoc r rows)
  then show ?case by (simp add: numbered_snoc latest_version_def)
qed (simp add: latest_version_def)

lemma sort_numbered:
  fixes k :: "'r \<Rightarrow> 'k::linorder"
  assumes "numbered v rows"
  shows "sort_key (\<lambda>r. (v r, k r)) rows = rows" "sort_key v rows = rows"
proof -
  have "sorted (map (\<lambda>r. (v r, k r)) rows)"
    by (auto simp: sorted_iff_nth_mono_less numbered_nth [OF assms])
  then show "sort_key (\<lambda>r. (v r, k r)) rows = rows" by (simp add: sort_key_id_if_sorted)
  have "sorted (map v rows)" by (auto simp: sorted_iff_nth_mono_less numbered_nth [OF assms])
  then show "sort_key v rows = rows" by (simp add: sort_key_id_if_sorted)
qed

section \<open>Reading a version back\<close>

lemma parse_enum_text:
  assumes "v \<in> set vs" "inj_on f (set vs)"
  shows "parse_enum f vs (f v) = Inr v"
proof -
  obtain w where w: "find (\<lambda>x. f x = f v) vs = Some w" using assms(1) by (cases "find (\<lambda>x. f x = f v) vs") (auto simp: find_None_iff)
  then have "w \<in> set vs" "f w = f v" by (auto simp: find_Some_iff)
  with assms have "w = v" by (auto dest: inj_onD)
  with w show ?thesis by (simp add: parse_enum_def)
qed

lemma all_providers_all: "p \<in> set all_providers"
  by (cases p) (simp_all add: all_providers_def)

lemma provider_text_inj: "inj_on provider_text A"
proof (rule inj_onI)
  fix p q assume "provider_text p = provider_text q"
  then show "p = q" by (cases p; cases q) simp_all
qed

lemma parse_provider: "parse_enum provider_text all_providers (provider_text p) = Inr p"
  by (rule parse_enum_text [OF all_providers_all provider_text_inj])

lemma parse_outbound: "parse_enum outbound_text [DENY, APPROVED_PROVIDERS] (outbound_text m) = Inr m"
  by (cases m) (simp_all add: parse_enum_def)

lemma parse_workspace_outbound:
  "parse_enum workspace_outbound_text [WS_INHERIT, WS_DENY, WS_APPROVED_PROVIDERS] (workspace_outbound_text m) = Inr m"
  by (cases m) (simp_all add: parse_enum_def)

lemma mapr_map: "(\<And>x. x \<in> set xs \<Longrightarrow> f (g x) = Inr (h x)) \<Longrightarrow> mapr f (map g xs) = Inr (map h xs)"
  by (induction xs) simp_all

lemma read_stored_providers: "read_providers (stored_providers ps) = Inr ps"
proof -
  have sub: "set ts \<subseteq> range provider_text \<Longrightarrow> \<exists>qs. mapr (parse_enum provider_text all_providers) ts = Inr qs \<and> map provider_text qs = ts" for ts
  proof (induction ts)
    case (Cons t ts)
    then obtain p qs where "t = provider_text p" "mapr (parse_enum provider_text all_providers) ts = Inr qs" "map provider_text qs = ts" by auto
    then show ?case by (intro exI [of _ "p # qs"]) (simp add: parse_provider)
  qed simp
  have set: "set (stored_providers ps) = provider_text ` ps" using all_providers_all by (auto simp: stored_providers_def)
  then obtain qs where qs: "mapr (parse_enum provider_text all_providers) (stored_providers ps) = Inr qs" "map provider_text qs = stored_providers ps"
    using sub [of "stored_providers ps"] by blast
  from qs(2) have "provider_text ` set qs = provider_text ` ps" by (metis set set_map)
  then have "set qs = ps" using provider_text_inj by (metis inj_image_eq_iff)
  with qs(1) show ?thesis by (simp add: read_providers_def)
qed

definition installation_stored :: "installation_row \<Rightarrow> installation_policy \<Rightarrow> bool" where
  "installation_stored r p \<longleftrightarrow> r = installation_row_of p \<and> new_installation_policy p = Inr p"

definition workspace_stored :: "workspace_policy_row \<Rightarrow> workspace_policy \<Rightarrow> bool" where
  "workspace_stored r p \<longleftrightarrow> r = workspace_row_of p \<and> new_workspace_policy p = Inr p"

lemma get_installation_stored:
  assumes "keyed il_id (pd_installations db)" "r \<in> set (pd_installations db)" "installation_stored r p"
  shows "get_installation_version db (il_id r) = Inr (Some p)"
proof -
  have "row_by il_id (il_id r) (pd_installations db) = Some r" using assms(1,2) by (simp add: row_by_Some_iff)
  then show ?thesis
    using assms(3) unfolding get_installation_version_def installation_stored_def
    by (cases p) (simp add: installation_row_of_def parse_outbound read_stored_providers)
qed

lemma get_workspace_stored:
  assumes "keyed wl_id (pd_policies db)" "r \<in> set (pd_policies db)" "workspace_stored r p"
  shows "get_workspace_version db (wl_id r) = Inr (Some p)"
proof -
  have "row_by wl_id (wl_id r) (pd_policies db) = Some r" using assms(1,2) by (simp add: row_by_Some_iff)
  then show ?thesis
    using assms(3) unfolding get_workspace_version_def workspace_stored_def
    by (cases p) (simp add: workspace_row_of_def parse_workspace_outbound read_stored_providers)
qed

section \<open>The invariant\<close>

definition workspace_rows :: "policy_db \<Rightarrow> uuid \<Rightarrow> workspace_policy_row list" where
  "workspace_rows db w = filter (\<lambda>r. wl_workspace r = w) (pd_policies db)"

definition installations_ok :: "policy_db \<Rightarrow> bool" where
  "installations_ok db \<longleftrightarrow>
     (\<exists>s. pd_singleton db = [s] \<and> (\<forall>r\<in>set (pd_installations db). il_policy r = s))
     \<and> pd_installations db \<noteq> [] \<and> keyed il_id (pd_installations db) \<and> numbered il_version (pd_installations db)
     \<and> (\<forall>r\<in>set (pd_installations db). \<exists>p. installation_stored r p)"

definition workspaces_ok :: "policy_db \<Rightarrow> bool" where
  "workspaces_ok db \<longleftrightarrow>
     keyed fst (pd_identities db) \<and> keyed snd (pd_identities db) \<and> keyed wl_id (pd_policies db)
     \<and> (\<forall>r\<in>set (pd_policies db). (wl_policy r, wl_workspace r) \<in> set (pd_identities db))
     \<and> (\<forall>w. numbered wl_version (workspace_rows db w))
     \<and> (\<forall>r\<in>set (pd_policies db). \<exists>p. workspace_stored r p)"

definition approvals_ok :: "policy_db \<Rightarrow> bool" where
  "approvals_ok db \<longleftrightarrow> keyed ar_configuration (pd_approvals db) \<and> fst ` set (pd_approval_workspaces db) \<subseteq> ar_id ` set (pd_approvals db)"

definition policies_ok :: "policy_db \<Rightarrow> bool" where
  "policies_ok db \<longleftrightarrow> installations_ok db \<and> workspaces_ok db \<and> approvals_ok db"

lemma latest_installation_ok:
  assumes "installations_ok db"
  shows "latest_installation_id db = Some (il_id (last (pd_installations db)))"
    "\<exists>p. latest_installation_policy db = Inr p \<and> installation_stored (last (pd_installations db)) p"
proof -
  let ?l = "last (pd_installations db)"
  from assms have *: "pd_installations db \<noteq> []" "keyed il_id (pd_installations db)" "numbered il_version (pd_installations db)"
    "\<forall>r\<in>set (pd_installations db). \<exists>p. installation_stored r p" unfolding installations_ok_def by blast+
  show i: "latest_installation_id db = Some (il_id ?l)"
    unfolding latest_installation_id_def sort_numbered(1) [OF *(3)] using *(1) by (cases "pd_installations db" rule: rev_cases) simp_all
  have l: "?l \<in> set (pd_installations db)" using *(1) by simp
  with *(4) obtain p where p: "installation_stored ?l p" by blast
  with get_installation_stored [OF *(2) l p] i show "\<exists>p. latest_installation_policy db = Inr p \<and> installation_stored ?l p"
    by (auto simp: latest_installation_policy_def)
qed

lemma latest_workspace_row_ok:
  assumes "workspaces_ok db"
  shows "latest_workspace_row db w = (if workspace_rows db w = [] then None else Some (last (workspace_rows db w)))"
proof -
  from assms have "numbered wl_version (workspace_rows db w)" unfolding workspaces_ok_def by blast
  then have "sort_key wl_version (workspace_rows db w) = workspace_rows db w" by (rule sort_numbered)
  then show ?thesis
    unfolding latest_workspace_row_def workspace_rows_def
    by (cases "filter (\<lambda>r. wl_workspace r = w) (pd_policies db)" rule: rev_cases) auto
qed

text \<open>The policy in force of a workspace.\<close>

definition policy_in_force :: "policy_db \<Rightarrow> uuid \<Rightarrow> workspace_policy option" where
  "policy_in_force db w =
     (case latest_workspace_row db w of None \<Rightarrow> None
      | Some r \<Rightarrow> (case get_workspace_version db (wl_id r) of Inr p \<Rightarrow> p | Inl _ \<Rightarrow> None))"

lemma latest_row_stored:
  assumes "workspaces_ok db" "latest_workspace_row db w = Some r"
  shows "r \<in> set (pd_policies db)" "wl_workspace r = w" "\<exists>p. workspace_stored r p \<and> get_workspace_version db (wl_id r) = Inr (Some p)
    \<and> policy_in_force db w = Some p \<and> wp_workspace p = w \<and> wp_id p = wl_id r"
proof -
  have "r \<in> set (workspace_rows db w)"
    using latest_workspace_row_ok [OF assms(1), of w] assms(2) by (auto split: if_splits simp: last_in_set)
  then show r: "r \<in> set (pd_policies db)" "wl_workspace r = w" by (simp_all add: workspace_rows_def)
  from assms(1) r(1) obtain p where p: "workspace_stored r p" unfolding workspaces_ok_def by blast
  have "keyed wl_id (pd_policies db)" using assms(1) unfolding workspaces_ok_def by blast
  from get_workspace_stored [OF this r(1) p] p r(2) assms(2) show "\<exists>p. workspace_stored r p \<and> get_workspace_version db (wl_id r) = Inr (Some p)
      \<and> policy_in_force db w = Some p \<and> wp_workspace p = w \<and> wp_id p = wl_id r"
    by (auto simp: workspace_stored_def workspace_row_of_def policy_in_force_def)
qed

lemma policy_in_force_None: "workspaces_ok db \<Longrightarrow> policy_in_force db w = None \<longleftrightarrow> latest_workspace_row db w = None"
  using latest_row_stored(3) by (fastforce simp: policy_in_force_def split: option.splits)

lemma latest_workspace_policies_ok:
  assumes "workspaces_ok db"
  shows "latest_workspace_policies db wids = Inr (List.map_filter (policy_in_force db) wids)"
proof -
  have "\<exists>ps. mapr (\<lambda>r. get_workspace_version db (wl_id r)) (List.map_filter (latest_workspace_row db) wids) = Inr ps
      \<and> List.map_filter (\<lambda>p. p) ps = List.map_filter (policy_in_force db) wids"
  proof (induction wids)
    case (Cons w wids)
    then obtain ps where ps: "mapr (\<lambda>r. get_workspace_version db (wl_id r)) (List.map_filter (latest_workspace_row db) wids) = Inr ps"
      "List.map_filter (\<lambda>p. p) ps = List.map_filter (policy_in_force db) wids" by blast
    show ?case
    proof (cases "latest_workspace_row db w")
      case None
      with ps policy_in_force_None [OF assms, of w] show ?thesis by (simp add: map_filter_simps)
    next
      case (Some r)
      from latest_row_stored(3) [OF assms Some] obtain p where "get_workspace_version db (wl_id r) = Inr (Some p)" "policy_in_force db w = Some p" by blast
      with ps Some show ?thesis by (simp add: map_filter_simps)
    qed
  qed (simp add: map_filter_simps)
  then show ?thesis by (auto simp: latest_workspace_policies_def)
qed

section \<open>Steps\<close>

inductive policy_step :: "policy_db \<Rightarrow> policy_db \<Rightarrow> bool" where
  installation: "append_installation db fresh now actor mode ps = Inr (db', p) \<Longrightarrow> policy_step db db'"
| workspace: "append_workspace db fresh_policy fresh now actor w mode ps = Inr (db', p) \<Longrightarrow> policy_step db db'"
| approval: "add_external_approval db a = Inr db' \<Longrightarrow> policy_step db db'"
| other: "policy_step db (db\<lparr>pd_ws := ws, pd_configurations := cs, pd_bindings := bs, pd_deployments := ds, pd_subscriptions := ss\<rparr>)"

text \<open>The seed of the migration: one installation policy that denies everything.\<close>

definition seeded :: "policy_db \<Rightarrow> bool" where
  "seeded db \<longleftrightarrow>
     (\<exists>s i actor now. pd_singleton db = [s] \<and> pd_installations db = [installation_row_of \<lparr>in_id = i, in_policy = s, in_version = 1,
        in_mode = DENY, in_providers = {}, in_changed_by = actor, in_created = now\<rparr>])
     \<and> pd_identities db = [] \<and> pd_policies db = [] \<and> pd_approvals db = [] \<and> pd_approval_workspaces db = []"

inductive policy_reachable :: "policy_db \<Rightarrow> bool" where
  start: "seeded db \<Longrightarrow> policy_reachable db"
| step: "policy_reachable db \<Longrightarrow> policy_step db db' \<Longrightarrow> policy_reachable db'"

text \<open>What a step adds to the policy tables.\<close>

lemma policy_error_Inr [simp]: "policy_error r = Inr x \<longleftrightarrow> r = Inr x"
  by (cases r) (simp_all add: policy_error_def)

lemma append_installation_Inr:
  assumes "append_installation db fresh now actor mode ps = Inr (db', p)"
  obtains s where "pd_singleton db \<noteq> []" "s = hd (pd_singleton db)" "in_id p = fresh" "in_policy p = s"
    "in_mode p = mode" "in_providers p = ps"
    "in_version p = next_installation_version db s" "new_installation_policy p = Inr p"
    "fresh \<notin> il_id ` set (pd_installations db)" "s \<in> set (pd_singleton db)"
    "db' = db\<lparr>pd_installations := pd_installations db @ [installation_row_of p]\<rparr>"
  using assms unfolding append_installation_def
  by (auto simp: installation_policy_id_def new_installation_policy_def add_installation_version_def
      split: list.splits sum.splits if_splits)

lemma append_workspace_Inr:
  assumes "append_workspace db fresh_policy fresh now actor w mode ps = Inr (db', p)"
  obtains pid ids installation where "latest_installation_policy db = Inr installation" "ensure_workspace_restriction installation p = Inr ()"
    "wp_id p = fresh" "wp_policy p = pid" "wp_workspace p = w" "wp_mode p = mode" "wp_providers p = ps"
    "wp_version p = next_workspace_version db pid" "new_workspace_policy p = Inr p" "fresh \<notin> wl_id ` set (pd_policies db)"
    "(pid, w) \<in> set ids" "ids = pd_identities db \<or> ids = pd_identities db @ [(pid, w)] \<and> pid \<notin> fst ` set (pd_identities db) \<and> w \<notin> snd ` set (pd_identities db)"
    "db' = db\<lparr>pd_identities := ids, pd_policies := pd_policies db @ [workspace_row_of p]\<rparr>"
proof -
  from assms obtain installation db1 pid where *: "latest_installation_policy db = Inr installation"
    "(case workspace_policy_id db w of Some p \<Rightarrow> Inr (db, p)
      | None \<Rightarrow> policy_error (rbind (create_workspace_policy_identity db fresh_policy w) (\<lambda>db'. Inr (db', fresh_policy)))) = Inr (db1, pid)"
    "ensure_workspace_restriction installation p = Inr ()" "wp_id p = fresh" "wp_policy p = pid" "wp_workspace p = w" "wp_mode p = mode"
    "wp_providers p = ps" "wp_version p = next_workspace_version db1 pid" "new_workspace_policy p = Inr p" "add_workspace_version db1 p = Inr db'"
    unfolding append_workspace_def by (auto simp: new_workspace_policy_def split: if_splits)
  from *(2) have id: "db1 = db \<and> (pid, w) \<in> set (pd_identities db)
      \<or> db1 = db\<lparr>pd_identities := pd_identities db @ [(pid, w)]\<rparr> \<and> pid \<notin> fst ` set (pd_identities db) \<and> w \<notin> snd ` set (pd_identities db)"
    by (auto simp: workspace_policy_id_def create_workspace_policy_identity_def dest!: row_by_SomeD
        split: option.splits sum.splits if_splits)
  then have pid: "(pid, w) \<in> set (pd_identities db1)" "pd_policies db1 = pd_policies db" by auto
  then have "fst (pid, w) \<in> fst ` set (pd_identities db1)" by (intro imageI)
  then have "row_by fst pid (pd_identities db1) \<noteq> None" by (simp add: row_by_None_iff)
  then have db': "db' = db1\<lparr>pd_policies := pd_policies db @ [workspace_row_of p]\<rparr>" "fresh \<notin> wl_id ` set (pd_policies db)"
    using *(4,5,11) pid(2) by (auto simp: add_workspace_version_def split: if_splits)
  have v: "wp_version p = next_workspace_version db pid" using *(9) pid(2) by (simp add: next_workspace_version_def)
  show thesis
    by (rule that [OF *(1,3-8) v *(10) db'(2) pid(1)]) (use id db'(1) in auto)
qed

lemma add_approval_Inr:
  assumes "add_external_approval db a = Inr db'"
  shows "validate_external_approval db a = Inr ()"
    "\<exists>xs ys. db' = db\<lparr>pd_approvals := xs, pd_approval_workspaces := ys\<rparr>"
    "ea_id a \<notin> ar_id ` set (pd_approvals db)" "ea_configuration a \<notin> ar_configuration ` set (pd_approvals db)"
    "pd_approvals db' = pd_approvals db @ [\<lparr>ar_id = ea_id a, ar_configuration = ea_configuration a,
            ar_deployment = ea_deployment a, ar_installation = ea_installation a, ar_approved_by = ea_approved_by a,
            ar_disclosure = ea_disclosure a, ar_created = ea_created a\<rparr>]"
    "pd_approval_workspaces db' = pd_approval_workspaces db @ map (\<lambda>(w, v). (ea_id a, w, v)) (ea_snapshots a)"
  using assms unfolding add_external_approval_def by (auto split: if_splits)

section \<open>Every history keeps the invariant\<close>

lemma seeded_ok:
  assumes "seeded db"
  shows "policies_ok db"
proof -
  from assms obtain s p where *: "pd_singleton db = [s]" "pd_installations db = [installation_row_of p]" "in_policy p = s" "in_version p = 1"
    "in_mode p = DENY" "in_providers p = {}" "pd_identities db = []" "pd_policies db = []"
    "pd_approvals db = []" "pd_approval_workspaces db = []"
    unfolding seeded_def by fastforce
  have "installation_stored (installation_row_of p) p"
    using *(4-6) by (simp add: installation_stored_def new_installation_policy_def validate_policy_shape_def)
  moreover have "il_policy (installation_row_of p) = s" "il_version (installation_row_of p) = 1"
    using *(3,4) by (simp_all add: installation_row_of_def)
  ultimately show ?thesis
    using *(1,2,7-10) by (auto simp: policies_ok_def installations_ok_def workspaces_ok_def approvals_ok_def workspace_rows_def numbered_def)
qed

lemma append_installation_ok:
  assumes "append_installation db fresh now actor mode ps = Inr (db', p)" "installations_ok db"
  shows "installations_ok db'"
proof -
  from assms(1) obtain s where a: "s = hd (pd_singleton db)" "in_id p = fresh" "in_policy p = s" "in_version p = next_installation_version db s"
    "new_installation_policy p = Inr p" "fresh \<notin> il_id ` set (pd_installations db)"
    and db': "db' = db\<lparr>pd_installations := pd_installations db @ [installation_row_of p]\<rparr>"
    by (rule append_installation_Inr)
  from assms(2) obtain s' where s: "pd_singleton db = [s']" "\<forall>r\<in>set (pd_installations db). il_policy r = s'"
    and ok: "keyed il_id (pd_installations db)" "numbered il_version (pd_installations db)"
    "\<forall>r\<in>set (pd_installations db). \<exists>p. installation_stored r p" unfolding installations_ok_def by blast
  have eq: "s = s'" using a(1) s(1) by simp
  have "filter (\<lambda>r. il_policy r = s) (pd_installations db) = pd_installations db" using s(2) eq by (simp add: filter_id_conv)
  then have v: "in_version p = int (length (pd_installations db)) + 1"
    using a(4) latest_version_numbered [OF ok(2)] by (simp add: next_installation_version_def)
  have "numbered il_version (pd_installations db @ [installation_row_of p])"
    using ok(2) v by (simp add: numbered_snoc installation_row_of_def)
  moreover have "keyed il_id (pd_installations db @ [installation_row_of p])"
    using ok(1) a(2,6) by (simp add: keyed_snoc row_by_None_iff installation_row_of_def)
  moreover have "\<exists>q. installation_stored (installation_row_of p) q" using a(5) by (auto simp: installation_stored_def)
  moreover have "il_policy (installation_row_of p) = s'" using a(3) eq by (simp add: installation_row_of_def)
  ultimately show ?thesis using s ok(3) by (auto simp: installations_ok_def db')
qed

lemma append_workspace_ok:
  assumes "append_workspace db fresh_policy fresh now actor w mode ps = Inr (db', p)" "workspaces_ok db"
  shows "workspaces_ok db'"
proof -
  from assms(1) obtain pid ids where a: "wp_id p = fresh" "wp_policy p = pid" "wp_workspace p = w" "wp_version p = next_workspace_version db pid"
    "new_workspace_policy p = Inr p" "fresh \<notin> wl_id ` set (pd_policies db)" "(pid, w) \<in> set ids"
    "ids = pd_identities db \<or> ids = pd_identities db @ [(pid, w)] \<and> pid \<notin> fst ` set (pd_identities db) \<and> w \<notin> snd ` set (pd_identities db)"
    and db': "db' = db\<lparr>pd_identities := ids, pd_policies := pd_policies db @ [workspace_row_of p]\<rparr>"
    by (rule append_workspace_Inr)
  from assms(2) have ok: "keyed fst (pd_identities db)" "keyed snd (pd_identities db)" "keyed wl_id (pd_policies db)"
    "\<forall>r\<in>set (pd_policies db). (wl_policy r, wl_workspace r) \<in> set (pd_identities db)"
    "\<And>v. numbered wl_version (workspace_rows db v)" "\<forall>r\<in>set (pd_policies db). \<exists>p. workspace_stored r p"
    unfolding workspaces_ok_def by blast+
  have k: "keyed fst ids" "keyed snd ids" using a(8) ok(1,2) by (auto simp: keyed_snoc row_by_None_iff)
  have sub: "set (pd_identities db) \<subseteq> set ids" using a(8) by auto
  have same: "wl_policy r = pid \<longleftrightarrow> wl_workspace r = w" if "r \<in> set (pd_policies db)" for r
  proof -
    from that ok(4) sub have r: "(wl_policy r, wl_workspace r) \<in> set ids" by blast
    show ?thesis using keyed_eq [OF k(1) r a(7)] keyed_eq [OF k(2) r a(7)] by auto
  qed
  have "filter (\<lambda>r. wl_policy r = pid) (pd_policies db) = workspace_rows db w"
    unfolding workspace_rows_def by (rule filter_cong [OF refl]) (rule same)
  then have v: "wp_version p = int (length (workspace_rows db w)) + 1"
    using a(4) latest_version_numbered [OF ok(5)] by (simp add: next_workspace_version_def)
  have "numbered wl_version (workspace_rows db' u)" for u
  proof -
    have "workspace_rows db' u = workspace_rows db u @ (if u = w then [workspace_row_of p] else [])"
      using a(3) by (simp add: workspace_rows_def db' workspace_row_of_def)
    then show ?thesis using ok(5) v by (simp add: numbered_snoc workspace_row_of_def)
  qed
  moreover have "keyed wl_id (pd_policies db @ [workspace_row_of p])"
    using ok(3) a(1,6) by (simp add: keyed_snoc row_by_None_iff workspace_row_of_def)
  moreover have "\<exists>q. workspace_stored (workspace_row_of p) q" using a(5) by (auto simp: workspace_stored_def)
  moreover have "(wl_policy (workspace_row_of p), wl_workspace (workspace_row_of p)) \<in> set ids" using a(2,3,7) by (simp add: workspace_row_of_def)
  ultimately show ?thesis using k ok(4,6) sub by (auto simp: workspaces_ok_def db')
qed

text \<open>Steps only add rows to the policy tables.\<close>

lemma policy_step_appends:
  "policy_step db db' \<Longrightarrow> \<exists>xs ys. pd_installations db' = pd_installations db @ xs \<and> pd_policies db' = pd_policies db @ ys"
proof (induction rule: policy_step.induct)
  case (installation db fresh now actor mode ps db' p)
  then show ?case by (rule append_installation_Inr) simp
next
  case (workspace db fresh_policy fresh now actor w mode ps db' p)
  then show ?case by (rule append_workspace_Inr) simp
next
  case (approval db a db')
  from add_approval_Inr(2) [OF this] show ?case by auto
qed simp

lemma policies_ok_step: "policy_step db db' \<Longrightarrow> policies_ok db \<Longrightarrow> policies_ok db'"
proof (induction rule: policy_step.induct)
  case (installation db fresh now actor mode ps db' p)
  have "workspaces_ok db' \<and> approvals_ok db'" using installation
    by (elim append_installation_Inr) (simp add: policies_ok_def workspaces_ok_def workspace_rows_def approvals_ok_def)
  with append_installation_ok [OF installation(1)] installation(2) show ?case by (simp add: policies_ok_def)
next
  case (workspace db fresh_policy fresh now actor w mode ps db' p)
  have "installations_ok db' \<and> approvals_ok db'" using workspace
    by (elim append_workspace_Inr) (simp add: policies_ok_def installations_ok_def approvals_ok_def)
  with append_workspace_ok [OF workspace(1)] workspace(2) show ?case by (simp add: policies_ok_def)
next
  case (approval db a db')
  note a = add_approval_Inr [OF approval(1)]
  have "keyed ar_configuration (pd_approvals db')"
    using approval(2) a(4) unfolding a(5) by (simp add: policies_ok_def approvals_ok_def keyed_snoc row_by_None_iff)
  moreover have "fst ` set (pd_approval_workspaces db') \<subseteq> ar_id ` set (pd_approvals db')"
    using approval(2) unfolding a(5,6) by (auto simp: policies_ok_def approvals_ok_def)
  ultimately show ?case
    using a(2) approval(2) by (auto simp: policies_ok_def installations_ok_def workspaces_ok_def workspace_rows_def approvals_ok_def)
next
  case (other db ws cs bs ds ss)
  then show ?case by (simp add: policies_ok_def installations_ok_def workspaces_ok_def workspace_rows_def approvals_ok_def)
qed

text \<open>A stored approval is read back, and no step changes it.\<close>

lemma get_external_approval_cong:
  "pd_approvals db' = pd_approvals db \<Longrightarrow> pd_approval_workspaces db' = pd_approval_workspaces db
     \<Longrightarrow> get_external_approval db' configuration = get_external_approval db configuration"
  by (simp only: get_external_approval_def)

lemma policy_in_force_cong:
  assumes "pd_policies db' = pd_policies db"
  shows "policy_in_force db' = policy_in_force db"
  unfolding policy_in_force_def latest_workspace_row_def get_workspace_version_def assms by (rule refl)

lemma stored_approval:
  assumes "add_external_approval db a = Inr db'" "approvals_ok db"
  shows "get_external_approval db' (ea_configuration a) = Some (a\<lparr>ea_snapshots := sort_key fst (ea_snapshots a)\<rparr>)"
proof -
  note a = add_approval_Inr [OF assms(1)]
  have "row_by ar_configuration (ea_configuration a) (pd_approvals db) = None" using a(4) by (simp add: row_by_None_iff)
  moreover have "filter (\<lambda>x. fst x = ea_id a) (pd_approval_workspaces db) = []"
    using a(3) assms(2) by (force simp: approvals_ok_def filter_empty_conv)
  moreover have "map snd (filter (\<lambda>x. fst x = ea_id a) (map (\<lambda>(w, v). (ea_id a, w, v)) xs)) = xs" for xs :: "(uuid \<times> uuid) list"
    by (induction xs) auto
  ultimately show ?thesis unfolding get_external_approval_def a(5,6) row_by_append filter_append by simp
qed

lemma approval_step:
  assumes "policy_step db db'" "approvals_ok db" "get_external_approval db configuration = Some b"
  shows "get_external_approval db' configuration = Some b"
  using assms
proof (induction rule: policy_step.induct)
  case (installation db fresh now actor mode ps db' p)
  have "get_external_approval db' configuration = get_external_approval db configuration"
    using installation(1) by (elim append_installation_Inr) (intro get_external_approval_cong; simp)
  with installation(3) show ?case by simp
next
  case (workspace db fresh_policy fresh now actor w mode ps db' p)
  have "get_external_approval db' configuration = get_external_approval db configuration"
    using workspace(1) by (elim append_workspace_Inr) (intro get_external_approval_cong; simp)
  with workspace(3) show ?case by simp
next
  case (approval db a db')
  note a = add_approval_Inr [OF approval(1)]
  from approval(3) obtain r where r: "row_by ar_configuration configuration (pd_approvals db) = Some r"
    by (auto simp: get_external_approval_def split: option.splits)
  then have "ar_id r \<in> ar_id ` set (pd_approvals db)" by (auto dest: row_by_SomeD)
  with a(3) have "ea_id a \<noteq> ar_id r" by metis
  then have "filter (\<lambda>x. fst x = ar_id r) (map (\<lambda>(w, v). (ea_id a, w, v)) xs) = []" for xs :: "(uuid \<times> uuid) list"
    by (auto simp: filter_empty_conv)
  with approval(3) r show ?case by (simp add: get_external_approval_def row_by_append a(5,6))
next
  case (other db ws cs bs ds ss)
  then show ?case by - (rule trans [OF get_external_approval_cong [where db = db]], simp_all)
qed

lemma policy_reachable_ok: "policy_reachable db \<Longrightarrow> policies_ok db"
  by (induction rule: policy_reachable.induct) (auto intro: seeded_ok policies_ok_step)

section \<open>Decisions\<close>

lemma refused_by_workspace_iff:
  "refused_by_workspace provider ws \<longleftrightarrow>
     (\<exists>w\<in>set ws. wp_mode w = WS_DENY \<or> wp_mode w = WS_APPROVED_PROVIDERS \<and> provider \<notin> wp_providers w)"
  by (induction ws) auto

definition policies_in_force :: "policy_db \<Rightarrow> uuid list \<Rightarrow> workspace_policy list" where
  "policies_in_force db wids = List.map_filter (policy_in_force db) (dict_fromkeys wids)"

lemma in_force_workspace: "workspaces_ok db \<Longrightarrow> policy_in_force db w = Some q \<Longrightarrow> wp_workspace q = w"
  using latest_row_stored(3) [of db w] by (cases "latest_workspace_row db w") (auto simp: policy_in_force_def)

lemma set_policies_in_force: "set (policies_in_force db wids) = {q. \<exists>w\<in>set wids. policy_in_force db w = Some q}"
proof -
  have "set (List.map_filter (policy_in_force db) xs) = {q. \<exists>w\<in>set xs. policy_in_force db w = Some q}" for xs
    by (induction xs) (auto simp: map_filter_simps split: option.splits)
  then show ?thesis by (simp add: policies_in_force_def)
qed

lemma snapshots_in_force:
  assumes "workspaces_ok db"
  shows "(w, i) \<in> set (map (\<lambda>w. (wp_workspace w, wp_id w)) (policies_in_force db wids)) \<longleftrightarrow>
      (w \<in> set wids \<and> (\<exists>q. policy_in_force db w = Some q \<and> wp_id q = i))"
proof -
  have "(w, i) \<in> set (map (\<lambda>w. (wp_workspace w, wp_id w)) (policies_in_force db wids)) \<longleftrightarrow>
      (\<exists>q v. v \<in> set wids \<and> policy_in_force db v = Some q \<and> wp_workspace q = w \<and> wp_id q = i)"
    unfolding set_map set_policies_in_force by (auto simp: image_iff)
  with in_force_workspace [OF assms] show ?thesis by metis
qed

lemma exact_in_force:
  assumes "workspaces_ok db"
  shows "List.map_filter (map_of (rev (map (\<lambda>w. (wp_workspace w, w)) (policies_in_force db wids)))) (dict_fromkeys wids)
    = policies_in_force db wids"
proof -
  let ?ids = "dict_fromkeys wids" and ?l = "map (\<lambda>w. (wp_workspace w, w)) (policies_in_force db wids)"
  let ?some = "filter (\<lambda>w. policy_in_force db w \<noteq> None) ?ids"
  have l: "?l = map (\<lambda>w. (w, the (policy_in_force db w))) ?some"
    using in_force_workspace [OF assms] by (auto simp: policies_in_force_def map_filter_def)
  have d: "distinct (map fst (rev ?l))" unfolding l by (simp add: rev_map [symmetric] comp_def)
  have "map_of (rev ?l) w = policy_in_force db w" if "w \<in> set ?ids" for w
  proof (cases "policy_in_force db w")
    case None
    then have "w \<notin> fst ` set (rev ?l)" unfolding l by auto
    then have "map_of (rev ?l) w = None" by (simp only: map_of_eq_None_iff) simp
    then show ?thesis using None by simp
  next
    case (Some q)
    with that have "(w, q) \<in> set (rev ?l)" unfolding l by (auto simp: image_iff intro!: bexI [of _ w])
    then show ?thesis using Some d by (simp only: map_of_eq_Some_iff)
  qed
  then show ?thesis by (auto simp: policies_in_force_def map_filter_def intro!: map_cong filter_cong)
qed

text \<open>The decision in terms of the policies in force.\<close>

lemma resolve_generation_policy_ok:
  assumes "policies_ok db"
  shows "\<exists>p c. latest_installation_policy db = Inr p \<and> installation_stored (last (pd_installations db)) p
    \<and> resolve_generation_policy db d wids = Inr c
    \<and> pc_installation c = in_id p \<and> (pc_allowed c \<longleftrightarrow> pc_reason c = None)
    \<and> pc_snapshots c = map (\<lambda>w. (wp_workspace w, wp_id w)) (policies_in_force db wids)
    \<and> (pc_allowed c \<longleftrightarrow> local_location (md_location d) \<or>
        (\<forall>w\<in>set wids. policy_in_force db w \<noteq> None) \<and> validate_workspace_restrictions p (policies_in_force db wids) = Inr ()
        \<and> (md_provider d \<in> {LOCAL_OPENAI_COMPATIBLE, LOCAL_TRANSFORMERS}
            \<or> in_mode p = APPROVED_PROVIDERS \<and> md_provider d \<in> in_providers p
              \<and> \<not> refused_by_workspace (md_provider d) (policies_in_force db wids)))"
proof -
  have ok: "installations_ok db" "workspaces_ok db" using assms by (simp_all add: policies_ok_def)
  from latest_installation_ok(2) [OF ok(1)] obtain p where p: "latest_installation_policy db = Inr p" "installation_stored (last (pd_installations db)) p" by blast
  from ok(1) have lock: "(if md_location d = EXTERNAL then rbind (installation_policy_id db) (\<lambda>_. Inr ()) else Inr ()) = Inr ()"
    by (auto simp: installations_ok_def installation_policy_id_def)
  have found: "latest_workspace_policies db (dict_fromkeys wids) = Inr (policies_in_force db wids)"
    by (simp add: latest_workspace_policies_ok [OF ok(2)] policies_in_force_def)
  have all: "length (policies_in_force db wids) = length (dict_fromkeys wids) \<longleftrightarrow> (\<forall>w\<in>set wids. policy_in_force db w \<noteq> None)"
  proof -
    have "length (filter P xs) = length xs \<longleftrightarrow> (\<forall>x\<in>set xs. P x)" for P and xs :: "uuid list"
      by (metis filter_True length_filter_less less_irrefl)
    then show ?thesis by (simp add: policies_in_force_def map_filter_def)
  qed
  have mode: "in_mode p \<noteq> DENY \<longleftrightarrow> in_mode p = APPROVED_PROVIDERS" by (cases "in_mode p") simp_all
  have vals: "validate_workspace_restrictions p ws = Inr () \<or> validate_workspace_restrictions p ws = Inl data_policy_invalid" for ws
    by (simp add: validate_workspace_restrictions_def)
  have empty: "validate_workspace_restrictions p [] = Inr ()" by (simp add: validate_workspace_restrictions_def)
  show ?thesis
    unfolding resolve_generation_policy_def lock p(1) found rbind_simps Let_def exact_in_force [OF ok(2)] all
    using p(2) vals [of "policies_in_force db wids"] mode
    by (auto simp: resolve_external_transfer_policy_def Let_def empty)
qed

section \<open>A short history\<close>

definition demo_installation :: installation_policy where
  "demo_installation = \<lparr>in_id = UUID 2, in_policy = UUID 1, in_version = 2, in_mode = APPROVED_PROVIDERS, in_providers = {OPENAI_RESPONSES},
     in_changed_by = UUID 11, in_created = 0\<rparr>"

definition demo_workspace_policy :: workspace_policy where
  "demo_workspace_policy = \<lparr>wp_id = UUID 5, wp_policy = UUID 4, wp_workspace = UUID 10, wp_version = 1, wp_mode = WS_INHERIT, wp_providers = {},
     wp_changed_by = UUID 11, wp_created = 0\<rparr>"

definition external_demo :: model_deployment where
  "external_demo = \<lparr>md_id = UUID 22, md_deployment = UUID 23, md_version = 1, md_name = [97], md_description = [], md_model = UUID 24,
     md_provider = OPENAI_RESPONSES, md_location = EXTERNAL, md_environments = [PRODUCTION], md_provider_model = [97],
     md_endpoint = Some [97], md_secret = Some [97], md_capabilities = {STRUCTURED_OUTPUT}, md_external = True, md_categories = [[97]],
     md_notice = Some [97], md_timeout = Finite 30, md_retries = 0, md_backoff = Finite 0, md_healthcheck = False, md_dev_only = False,
     md_creator = UUID 11, md_created = 0, md_runner = None, md_local_model = None\<rparr>"

definition policy_demo0 :: policy_db where
  "policy_demo0 = \<lparr>pd_ws = \<lparr>wd_users = [], wd_workspaces = [\<lparr>wr_id = UUID 10, wr_name = [97], wr_kind = TEAM, wr_created_by = UUID 11,
       wr_expires_at = None\<rparr>], wd_members = [], wd_audits = []\<rparr>, pd_singleton = [UUID 1],
     pd_installations = [installation_row_of \<lparr>in_id = UUID 3, in_policy = UUID 1, in_version = 1, in_mode = DENY, in_providers = {},
       in_changed_by = UUID 0, in_created = 0\<rparr>], pd_identities = [], pd_policies = [],
     pd_configurations = [(UUID 20, Some (UUID 21))], pd_bindings = [(UUID 21, UUID 22)], pd_deployments = [external_demo],
     pd_subscriptions = [(UUID 20, UUID 10)], pd_approvals = [], pd_approval_workspaces = []\<rparr>"

definition policy_demo1 :: policy_db where
  "policy_demo1 = policy_demo0\<lparr>pd_installations := pd_installations policy_demo0 @ [installation_row_of demo_installation]\<rparr>"

definition policy_demo2 :: policy_db where
  "policy_demo2 = policy_demo1\<lparr>pd_identities := [(UUID 4, UUID 10)], pd_policies := [workspace_row_of demo_workspace_policy]\<rparr>"

lemma demo_appends_installation:
  "append_installation policy_demo0 (UUID 2) 0 (UUID 11) APPROVED_PROVIDERS {OPENAI_RESPONSES} = Inr (policy_demo1, demo_installation)"
  by (simp add: append_installation_def installation_policy_id_def policy_demo0_def policy_demo1_def demo_installation_def policy_error_def
      new_installation_policy_def validate_policy_shape_def next_installation_version_def latest_version_def add_installation_version_def
      installation_row_of_def)

lemma policy_demo1_reachable: "policy_reachable policy_demo1"
proof (rule policy_reachable.step)
  show "policy_reachable policy_demo0"
    by (rule policy_reachable.start) (auto simp: seeded_def policy_demo0_def)
  show "policy_step policy_demo0 policy_demo1" by (rule policy_step.installation [OF demo_appends_installation])
qed

lemma latest_installation_last:
  assumes "policies_ok db" "last (pd_installations db) = installation_row_of p" "new_installation_policy p = Inr p"
  shows "latest_installation_policy db = Inr p"
proof -
  have ok: "installations_ok db" using assms(1) by (simp add: policies_ok_def)
  then have "keyed il_id (pd_installations db)" "last (pd_installations db) \<in> set (pd_installations db)" unfolding installations_ok_def by simp_all
  from get_installation_stored [OF this, of p] assms(2,3) latest_installation_ok(1) [OF ok] show ?thesis
    by (simp add: latest_installation_policy_def installation_stored_def)
qed

lemma demo_valid: "new_installation_policy demo_installation = Inr demo_installation" "new_workspace_policy demo_workspace_policy = Inr demo_workspace_policy"
  by (simp_all add: new_installation_policy_def new_workspace_policy_def validate_policy_shape_def demo_installation_def demo_workspace_policy_def)

lemma demo_appends_workspace:
  "append_workspace policy_demo1 (UUID 4) (UUID 5) 0 (UUID 11) (UUID 10) WS_INHERIT {} = Inr (policy_demo2, demo_workspace_policy)"
proof -
  have "latest_installation_policy policy_demo1 = Inr demo_installation"
    by (rule latest_installation_last [OF policy_reachable_ok [OF policy_demo1_reachable] _ demo_valid(1)]) (simp add: policy_demo1_def)
  then show ?thesis
    by (simp add: append_workspace_def installation_policy_id_def policy_demo1_def policy_demo0_def policy_demo2_def workspace_exists_def
        workspace_policy_id_def create_workspace_policy_identity_def policy_error_def demo_workspace_policy_def new_workspace_policy_def
        validate_policy_shape_def next_workspace_version_def latest_version_def ensure_workspace_restriction_def add_workspace_version_def
        workspace_row_of_def)
qed

lemma policy_demo2_reachable: "policy_reachable policy_demo2"
  by (rule policy_reachable.step [OF policy_demo1_reachable policy_step.workspace [OF demo_appends_workspace]])

lemma policy_demo2_in_force:
  "latest_installation_policy policy_demo2 = Inr demo_installation" "policy_in_force policy_demo2 (UUID 10) = Some demo_workspace_policy"
proof -
  have ok: "policies_ok policy_demo2" "workspaces_ok policy_demo2"
    using policy_reachable_ok [OF policy_demo2_reachable] by (simp_all add: policies_ok_def)
  show "latest_installation_policy policy_demo2 = Inr demo_installation"
    by (rule latest_installation_last [OF ok(1) _ demo_valid(1)]) (simp add: policy_demo1_def policy_demo2_def)
  have "latest_workspace_row policy_demo2 (UUID 10) = Some (workspace_row_of demo_workspace_policy)"
    by (simp add: latest_workspace_row_def policy_demo2_def workspace_row_of_def demo_workspace_policy_def)
  moreover have "get_workspace_version policy_demo2 (wl_id (workspace_row_of demo_workspace_policy)) = Inr (Some demo_workspace_policy)"
    using ok(2) by (intro get_workspace_stored) (simp_all add: workspaces_ok_def policy_demo2_def workspace_stored_def demo_valid)
  ultimately show "policy_in_force policy_demo2 (UUID 10) = Some demo_workspace_policy" by (simp add: policy_in_force_def)
qed

lemma external_demo_new: "new_deployment external_demo = Inr external_demo"
proof -
  have s: "strip [97] = [97]" "strip [] = []" by (simp_all add: strip_def lstrip_def rstrip_def py_isspace_def)
  show ?thesis
    by (simp add: new_deployment_def Let_def external_demo_def s clean_required_def execution_references_def clean_optional_def
        transfer_contract_def)
qed

definition demo_approval :: external_approval where
  "demo_approval = \<lparr>ea_id = UUID 30, ea_configuration = UUID 20, ea_deployment = UUID 22, ea_installation = UUID 2, ea_approved_by = UUID 11,
     ea_disclosure = [49], ea_snapshots = [(UUID 10, UUID 5)], ea_created = 0\<rparr>"

lemma demo_approved: "\<exists>db. add_external_approval policy_demo2 demo_approval = Inr db"
proof -
  have ok: "policies_ok policy_demo2" "workspaces_ok policy_demo2" "installations_ok policy_demo2"
    using policy_reachable_ok [OF policy_demo2_reachable] by (simp_all add: policies_ok_def)
  have "latest_installation_id policy_demo2 = Some (UUID 2)"
    unfolding latest_installation_ok(1) [OF ok(3)] by (simp add: policy_demo1_def policy_demo2_def installation_row_of_def demo_installation_def)
  moreover have "latest_workspace_policies policy_demo2 [UUID 10] = Inr [demo_workspace_policy]"
    by (simp add: latest_workspace_policies_ok [OF ok(2)] map_filter_simps policy_demo2_in_force)
  moreover have "pd_configurations policy_demo2 = [(UUID 20, Some (UUID 21))]" "pd_bindings policy_demo2 = [(UUID 21, UUID 22)]"
    "pd_deployments policy_demo2 = [external_demo]" "pd_subscriptions policy_demo2 = [(UUID 20, UUID 10)]" "pd_approvals policy_demo2 = []"
    by (simp_all add: policy_demo2_def policy_demo1_def policy_demo0_def)
  moreover have "md_id external_demo = UUID 22" "md_location external_demo = EXTERNAL" "md_external external_demo" by (simp_all add: external_demo_def)
  moreover have "wp_workspace demo_workspace_policy = UUID 10" "wp_id demo_workspace_policy = UUID 5" by (simp_all add: demo_workspace_policy_def)
  ultimately show ?thesis by (simp add: add_external_approval_def validate_external_approval_def demo_approval_def)
qed

end
