(* ===== verification/Transfer_Properties.thy ===== *)
theory Transfer_Properties
  imports Transfer_History
begin

text \<open>
  What the transfer policies guarantee: how versions are kept (\<open>policies_ok\<close> over every history),
  when data may leave the installation, and how long an approval lasts.
\<close>

section \<open>Deployments\<close>

lemma transfer_contract_Inr:
  "transfer_contract d secret notice categories = Inr u \<longleftrightarrow>
     (md_location d = EXTERNAL \<longleftrightarrow> md_external d)
     \<and> (md_provider d = LOCAL_OPENAI_COMPATIBLE \<longrightarrow> local_location (md_location d))
     \<and> (md_provider d = OPENAI_RESPONSES \<or> md_provider d = ANTHROPIC_MESSAGES \<longrightarrow> md_external d \<and> secret \<noteq> None)
     \<and> (md_external d \<longleftrightarrow> categories \<noteq> []) \<and> (md_external d \<longleftrightarrow> notice \<noteq> None)"
  by (auto simp: transfer_contract_def Let_def)

lemma execution_references_Inr:
  assumes "execution_references d = Inr (endpoint, runner, local_model)"
  shows "runner \<noteq> None \<longleftrightarrow> md_provider d = DEVELOPMENT_CODEX_EXEC" "local_model \<noteq> None \<longleftrightarrow> md_provider d = LOCAL_TRANSFORMERS"
    "endpoint = None \<longleftrightarrow> runner \<noteq> None \<or> local_model \<noteq> None"
    "md_provider d = DEVELOPMENT_CODEX_EXEC \<Longrightarrow> md_external d" "md_provider d = LOCAL_TRANSFORMERS \<Longrightarrow> \<not> md_external d"
  using assms unfolding execution_references_def by (auto split: if_splits)

lemma execution_references_idem:
  assumes "execution_references d = Inr (endpoint, runner, local_model)" "clean_optional (md_secret d) = Inr secret"
  shows "execution_references (d\<lparr>md_name := n, md_description := c, md_provider_model := m, md_endpoint := endpoint, md_secret := secret,
      md_categories := cs, md_notice := nt, md_runner := runner, md_local_model := local_model\<rparr>) = Inr (endpoint, runner, local_model)"
  using assms unfolding execution_references_def
  by (cases "md_provider d") (auto simp: clean_required_Inr clean_required_def clean_optional_def split: if_splits option.splits)

lemma external_provider:
  assumes "new_deployment d = Inr e"
  shows "md_external e \<longleftrightarrow> md_location e = EXTERNAL"
    "md_external e \<longleftrightarrow> md_provider e \<in> {OPENAI_RESPONSES, ANTHROPIC_MESSAGES, DEVELOPMENT_CODEX_EXEC}"
proof -
  from assms obtain en ru lo se no where *: "execution_references d = Inr (en, ru, lo)"
    "transfer_contract d se no (map strip (md_categories d)) = Inr ()"
    "md_external e = md_external d" "md_location e = md_location d" "md_provider e = md_provider d"
    by (rule new_deployment_Inr) auto
  from *(2) have c: "md_location d = EXTERNAL \<longleftrightarrow> md_external d"
    "md_provider d = LOCAL_OPENAI_COMPATIBLE \<longrightarrow> local_location (md_location d)"
    "md_provider d = OPENAI_RESPONSES \<or> md_provider d = ANTHROPIC_MESSAGES \<longrightarrow> md_external d"
    unfolding transfer_contract_Inr by blast+
  show "md_external e \<longleftrightarrow> md_location e = EXTERNAL" using c(1) *(3,4) by simp
  show "md_external e \<longleftrightarrow> md_provider e \<in> {OPENAI_RESPONSES, ANTHROPIC_MESSAGES, DEVELOPMENT_CODEX_EXEC}"
    using c execution_references_Inr(4,5) [OF *(1)] unfolding *(3,5) local_location_def by (cases "md_provider d") auto
qed

text \<open>
  A deployment keeps its contract.  A version that passes its constructor passes it again
  unchanged, it transfers data exactly when it runs externally and exactly for the external
  providers, it then names what it transmits and a notice and otherwise neither, it has exactly the
  one reference its provider runs with, and a key exactly where an external API needs one.
\<close>

theorem deployment_keeps_its_contract:
  assumes "new_deployment d = Inr e"
  shows "new_deployment e = Inr e
    \<and> (md_external e \<longleftrightarrow> md_location e = EXTERNAL)
    \<and> (md_external e \<longleftrightarrow> md_provider e \<in> {OPENAI_RESPONSES, ANTHROPIC_MESSAGES, DEVELOPMENT_CODEX_EXEC})
    \<and> (md_external e \<longleftrightarrow> md_categories e \<noteq> []) \<and> (md_external e \<longleftrightarrow> md_notice e \<noteq> None)
    \<and> (md_runner e \<noteq> None \<longleftrightarrow> md_provider e = DEVELOPMENT_CODEX_EXEC)
    \<and> (md_local_model e \<noteq> None \<longleftrightarrow> md_provider e = LOCAL_TRANSFORMERS)
    \<and> (md_endpoint e = None \<longleftrightarrow> md_runner e \<noteq> None \<or> md_local_model e \<noteq> None)
    \<and> (md_provider e \<in> {OPENAI_RESPONSES, ANTHROPIC_MESSAGES} \<longrightarrow> md_secret e \<noteq> None)"
proof -
  from assms obtain en ru lo se no where *: "execution_references d = Inr (en, ru, lo)" "clean_optional (md_secret d) = Inr se"
    "clean_optional (md_notice d) = Inr no" "transfer_contract d se no (map strip (md_categories d)) = Inr ()"
    "strip (md_provider_model d) \<noteq> []" "[] \<notin> set (map strip (md_categories d))" "distinct (map strip (md_categories d))"
    "strip (md_name d) \<noteq> []" "\<not> md_version d < 1" "\<not> (md_timeout d = Finite 0 \<or> float_less (md_timeout d) (Finite 0))"
    "\<not> md_retries d < 0" "\<not> float_less (md_backoff d) (Finite 0)" "md_environments d \<noteq> []" "distinct (md_environments d)"
    "md_dev_only d \<longrightarrow> md_environments d = [DEVELOPMENT]" "md_capabilities d \<noteq> {}"
    and e: "e = d\<lparr>md_name := strip (md_name d), md_description := strip (md_description d), md_provider_model := strip (md_provider_model d),
       md_endpoint := en, md_secret := se, md_categories := map strip (md_categories d), md_notice := no,
       md_runner := ru, md_local_model := lo\<rparr>"
    by (rule new_deployment_Inr)
  have refs: "execution_references e = Inr (en, ru, lo)" unfolding e by (rule execution_references_idem [OF *(1,2)])
  have opt: "clean_optional se = Inr se" "clean_optional no = Inr no"
    using *(2,3) by (auto simp: clean_optional_Inr split: option.splits)
  have con: "transfer_contract e se no (map strip (md_categories e)) = Inr ()"
  proof -
    have "map strip (md_categories e) = map strip (md_categories d)" "md_location e = md_location d" "md_external e = md_external d"
      "md_provider e = md_provider d" by (simp_all add: e comp_def)
    then show ?thesis using *(4) by (simp only: transfer_contract_def)
  qed
  have "new_deployment e = Inr e"
    using *(5-16) refs opt con by (simp add: new_deployment_def Let_def clean_required_def e comp_def)
  moreover have "md_external e \<longleftrightarrow> md_categories e \<noteq> []" "md_external e \<longleftrightarrow> md_notice e \<noteq> None"
    "md_provider e \<in> {OPENAI_RESPONSES, ANTHROPIC_MESSAGES} \<longrightarrow> md_secret e \<noteq> None"
  proof -
    have "md_external d \<longleftrightarrow> map strip (md_categories d) \<noteq> []" "md_external d \<longleftrightarrow> no \<noteq> None"
      "md_provider d = OPENAI_RESPONSES \<or> md_provider d = ANTHROPIC_MESSAGES \<longrightarrow> se \<noteq> None"
      using *(4) unfolding transfer_contract_Inr by blast+
    then show "md_external e \<longleftrightarrow> md_categories e \<noteq> []" "md_external e \<longleftrightarrow> md_notice e \<noteq> None"
      "md_provider e \<in> {OPENAI_RESPONSES, ANTHROPIC_MESSAGES} \<longrightarrow> md_secret e \<noteq> None" unfolding e by simp_all
  qed
  moreover have "md_runner e = ru" "md_local_model e = lo" "md_endpoint e = en" "md_provider e = md_provider d" by (simp_all add: e)
  ultimately show ?thesis
    using external_provider [OF assms] execution_references_Inr(1-3) [OF *(1)] by (intro conjI) simp_all
qed

theorem deployment_keeps_its_contract_witness:
  "new_deployment external_demo = Inr external_demo \<and> md_external external_demo \<and> md_categories external_demo \<noteq> []
     \<and> md_secret external_demo \<noteq> None"
  using deployment_keeps_its_contract [OF external_demo_new] by (simp add: external_demo_def)

section \<open>When data may leave\<close>

text \<open>
  C22.  Nothing leaves without approval.  Over any history of policies, the decision for a deployment is
  always reached, and an external one is allowed exactly when the installation policy in force
  approves its provider and every requested workspace has a policy in force that neither denies
  nor leaves the provider out, nor approves one the installation does not.  A deployment that
  transfers nothing is always allowed.  A refusal names its reason and an approval names none.
\<close>

theorem external_transfer_is_approved:
  assumes "policy_reachable db" "new_deployment d = Inr e"
  shows "\<exists>p c. latest_installation_policy db = Inr p \<and> resolve_generation_policy db e wids = Inr c
    \<and> (pc_allowed c \<longleftrightarrow> (md_external e \<longrightarrow>
        in_mode p = APPROVED_PROVIDERS \<and> md_provider e \<in> in_providers p
        \<and> (\<forall>w\<in>set wids. \<exists>q. latest_workspace_policies db [w] = Inr [q] \<and> wp_workspace q = w \<and> wp_mode q \<noteq> WS_DENY
             \<and> (wp_mode q = WS_APPROVED_PROVIDERS \<longrightarrow> md_provider e \<in> wp_providers q \<and> wp_providers q \<subseteq> in_providers p))))
    \<and> (pc_allowed c \<longleftrightarrow> pc_reason c = None)"
proof -
  have ok: "policies_ok db" "workspaces_ok db" using policy_reachable_ok [OF assms(1)] by (simp_all add: policies_ok_def)
  note ext = external_provider [OF assms(2)]
  have one: "latest_workspace_policies db [w] = Inr [q] \<and> wp_workspace q = w \<longleftrightarrow> policy_in_force db w = Some q" for w q
    using in_force_workspace [OF ok(2), of w q]
    by (cases "policy_in_force db w") (auto simp: latest_workspace_policies_ok [OF ok(2)] map_filter_simps)
  from resolve_generation_policy_ok [OF ok(1), of e wids] obtain p c where *: "latest_installation_policy db = Inr p"
    "resolve_generation_policy db e wids = Inr c" "pc_allowed c \<longleftrightarrow> pc_reason c = None"
    "pc_allowed c \<longleftrightarrow> local_location (md_location e) \<or>
        (\<forall>w\<in>set wids. policy_in_force db w \<noteq> None) \<and> validate_workspace_restrictions p (policies_in_force db wids) = Inr ()
        \<and> (md_provider e \<in> {LOCAL_OPENAI_COMPATIBLE, LOCAL_TRANSFORMERS}
            \<or> in_mode p = APPROVED_PROVIDERS \<and> md_provider e \<in> in_providers p
              \<and> \<not> refused_by_workspace (md_provider e) (policies_in_force db wids))"
    by (elim exE conjE) (rule that)
  have loc: "local_location (md_location e) \<longleftrightarrow> \<not> md_external e" unfolding ext(1) local_location_def by (cases "md_location e") simp_all
  have prov: "md_external e \<Longrightarrow> md_provider e \<notin> {LOCAL_OPENAI_COMPATIBLE, LOCAL_TRANSFORMERS}" unfolding ext(2) by auto
  have all: "(\<forall>w\<in>set wids. policy_in_force db w \<noteq> None) \<and> \<not> (\<exists>q\<in>set (policies_in_force db wids). A q)
      \<and> \<not> (\<exists>q\<in>set (policies_in_force db wids). B q) \<longleftrightarrow> (\<forall>w\<in>set wids. \<exists>q. policy_in_force db w = Some q \<and> \<not> A q \<and> \<not> B q)" for A B
    unfolding set_policies_in_force by (simp, metis option.exhaust option.inject option.simps(3))
  have valid: "validate_workspace_restrictions p ws = Inr () \<longleftrightarrow>
      \<not> (\<exists>q\<in>set ws. wp_mode q = WS_APPROVED_PROVIDERS \<and> (in_mode p = DENY \<or> \<not> wp_providers q \<subseteq> in_providers p))" for ws
    by (simp add: validate_workspace_restrictions_def list_ex_iff)
  have "(\<forall>w\<in>set wids. policy_in_force db w \<noteq> None) \<and> validate_workspace_restrictions p (policies_in_force db wids) = Inr ()
      \<and> in_mode p = APPROVED_PROVIDERS \<and> md_provider e \<in> in_providers p \<and> \<not> refused_by_workspace (md_provider e) (policies_in_force db wids)
    \<longleftrightarrow> in_mode p = APPROVED_PROVIDERS \<and> md_provider e \<in> in_providers p
        \<and> (\<forall>w\<in>set wids. \<exists>q. policy_in_force db w = Some q \<and> wp_mode q \<noteq> WS_DENY
             \<and> (wp_mode q = WS_APPROVED_PROVIDERS \<longrightarrow> md_provider e \<in> wp_providers q \<and> wp_providers q \<subseteq> in_providers p))"
    using all [of "\<lambda>q. wp_mode q = WS_APPROVED_PROVIDERS \<and> (in_mode p = DENY \<or> \<not> wp_providers q \<subseteq> in_providers p)"
        "\<lambda>q. wp_mode q = WS_DENY \<or> wp_mode q = WS_APPROVED_PROVIDERS \<and> md_provider e \<notin> wp_providers q"]
    unfolding refused_by_workspace_iff valid by (cases "in_mode p") (auto simp del: split_paired_Ex)
  with *(4) loc prov have "pc_allowed c \<longleftrightarrow> (md_external e \<longrightarrow> in_mode p = APPROVED_PROVIDERS \<and> md_provider e \<in> in_providers p
        \<and> (\<forall>w\<in>set wids. \<exists>q. policy_in_force db w = Some q \<and> wp_mode q \<noteq> WS_DENY
             \<and> (wp_mode q = WS_APPROVED_PROVIDERS \<longrightarrow> md_provider e \<in> wp_providers q \<and> wp_providers q \<subseteq> in_providers p)))" by blast
  with *(1-3) show ?thesis unfolding one [symmetric] conj_assoc by (intro exI conjI)
qed

theorem external_transfer_is_approved_witness:
  "\<exists>c. resolve_generation_policy policy_demo2 external_demo [UUID 10] = Inr c \<and> pc_allowed c \<and> md_external external_demo"
proof -
  have ok: "workspaces_ok policy_demo2" using policy_reachable_ok [OF policy_demo2_reachable] by (simp add: policies_ok_def)
  have "latest_workspace_policies policy_demo2 [UUID 10] = Inr [demo_workspace_policy]"
    by (simp add: latest_workspace_policies_ok [OF ok] map_filter_simps policy_demo2_in_force)
  with external_transfer_is_approved [OF policy_demo2_reachable external_demo_new, of "[UUID 10]"] policy_demo2_in_force(1) show ?thesis
    by (auto simp: demo_installation_def demo_workspace_policy_def external_demo_def)
qed

section \<open>Versions\<close>

text \<open>
  Policy versions are a gapless record.  Over any history the versions of the installation
  policy and of every workspace count from one without gaps, every stored version reads back as
  a valid policy, and what a step appends never changes or removes an earlier version.
\<close>

theorem policy_versions_are_kept:
  assumes "policy_reachable db"
  shows "(\<forall>i<length (pd_installations db). il_version (pd_installations db ! i) = int i + 1)
    \<and> (\<forall>w. \<forall>i<length (workspace_rows db w). wl_version (workspace_rows db w ! i) = int i + 1)
    \<and> (\<forall>r\<in>set (pd_installations db). \<exists>p. get_installation_version db (il_id r) = Inr (Some p) \<and> in_version p = il_version r
         \<and> new_installation_policy p = Inr p)
    \<and> (\<forall>r\<in>set (pd_policies db). \<exists>p. get_workspace_version db (wl_id r) = Inr (Some p) \<and> wp_version p = wl_version r
         \<and> new_workspace_policy p = Inr p)
    \<and> (\<forall>db'. policy_step db db' \<longrightarrow> (\<forall>i<length (pd_installations db). pd_installations db' ! i = pd_installations db ! i)
         \<and> (\<forall>i<length (pd_policies db). pd_policies db' ! i = pd_policies db ! i))"
proof -
  have ok: "installations_ok db" "workspaces_ok db" using policy_reachable_ok [OF assms] by (simp_all add: policies_ok_def)
  from ok(1) have i: "keyed il_id (pd_installations db)" "numbered il_version (pd_installations db)"
    "\<forall>r\<in>set (pd_installations db). \<exists>p. installation_stored r p" unfolding installations_ok_def by blast+
  from ok(2) have w: "keyed wl_id (pd_policies db)" "\<forall>w. numbered wl_version (workspace_rows db w)"
    "\<forall>r\<in>set (pd_policies db). \<exists>p. workspace_stored r p" unfolding workspaces_ok_def by blast+
  have "\<exists>p. get_installation_version db (il_id r) = Inr (Some p) \<and> in_version p = il_version r \<and> new_installation_policy p = Inr p"
    if "r \<in> set (pd_installations db)" for r
    using i(3) that get_installation_stored [OF i(1) that] by (fastforce simp: installation_stored_def installation_row_of_def)
  moreover have "\<exists>p. get_workspace_version db (wl_id r) = Inr (Some p) \<and> wp_version p = wl_version r \<and> new_workspace_policy p = Inr p"
    if "r \<in> set (pd_policies db)" for r
    using w(3) that get_workspace_stored [OF w(1) that] by (fastforce simp: workspace_stored_def workspace_row_of_def)
  moreover have "(\<forall>i<length (pd_installations db). pd_installations db' ! i = pd_installations db ! i)
      \<and> (\<forall>i<length (pd_policies db). pd_policies db' ! i = pd_policies db ! i)" if "policy_step db db'" for db'
    using policy_step_appends [OF that] by (auto simp: nth_append)
  ultimately show ?thesis using i(2) w(2) unfolding numbered_def by blast
qed

theorem policy_versions_are_kept_witness:
  "il_version (pd_installations policy_demo2 ! 1) = 2
     \<and> (\<exists>p. get_workspace_version policy_demo2 (UUID 5) = Inr (Some p) \<and> new_workspace_policy p = Inr p)"
proof -
  note all = policy_versions_are_kept [OF policy_demo2_reachable]
  have "length (pd_installations policy_demo2) = 2" by (simp add: policy_demo2_def policy_demo1_def policy_demo0_def)
  moreover have "workspace_row_of demo_workspace_policy \<in> set (pd_policies policy_demo2)" "wl_id (workspace_row_of demo_workspace_policy) = UUID 5"
    by (simp_all add: policy_demo2_def workspace_row_of_def demo_workspace_policy_def)
  moreover from all have "\<forall>i<length (pd_installations policy_demo2). il_version (pd_installations policy_demo2 ! i) = int i + 1" by blast
  moreover from all have "\<forall>r\<in>set (pd_policies policy_demo2). \<exists>p. get_workspace_version policy_demo2 (wl_id r) = Inr (Some p) \<and> wp_version p = wl_version r
         \<and> new_workspace_policy p = Inr p" by blast
  ultimately show ?thesis by force
qed

section \<open>Approvals\<close>

lemma policy_steps_append:
  "policy_step\<^sup>*\<^sup>* db db' \<Longrightarrow> \<exists>xs ys. pd_installations db' = pd_installations db @ xs \<and> pd_policies db' = pd_policies db @ ys"
proof (induction rule: rtranclp_induct)
  case (step db1 db2)
  from step.IH policy_step_appends [OF step.hyps(2)] show ?case by auto
qed simp

lemma policies_ok_steps: "policy_step\<^sup>*\<^sup>* db db' \<Longrightarrow> policies_ok db \<Longrightarrow> policies_ok db'"
  by (induction rule: rtranclp_induct) (auto intro: policies_ok_step)

lemma same_installation:
  assumes "policies_ok db1" "policies_ok db2" "set (pd_installations db1) \<subseteq> set (pd_installations db2)"
    "latest_installation_policy db1 = Inr p1" "latest_installation_policy db2 = Inr p2" "in_id p1 = in_id p2"
  shows "p1 = p2"
proof -
  have ok: "installations_ok db1" "installations_ok db2" using assms(1,2) by (simp_all add: policies_ok_def)
  have s: "installation_stored (last (pd_installations db1)) p1" "installation_stored (last (pd_installations db2)) p2"
    using latest_installation_ok(2) [OF ok(1)] latest_installation_ok(2) [OF ok(2)] assms(4,5) by auto
  have k: "keyed il_id (pd_installations db2)" "pd_installations db1 \<noteq> []" "pd_installations db2 \<noteq> []" using ok unfolding installations_ok_def by blast+
  have m: "last (pd_installations db1) \<in> set (pd_installations db2)" "last (pd_installations db2) \<in> set (pd_installations db2)"
    using k assms(3) by (auto intro: last_in_set)
  have "il_id (last (pd_installations db1)) = il_id (last (pd_installations db2))"
    using s assms(6) by (simp add: installation_stored_def installation_row_of_def)
  from keyed_eq [OF k(1) m this] have "get_installation_version db2 (il_id (last (pd_installations db2))) = Inr (Some p1)"
    using s(1) get_installation_stored [OF k(1) m(2)] by simp
  with get_installation_stored [OF k(1) m(2) s(2)] show ?thesis by simp
qed

lemma same_in_force:
  assumes "workspaces_ok db1" "workspaces_ok db2" "set (pd_policies db1) \<subseteq> set (pd_policies db2)"
    "policy_in_force db1 w = Some q1" "policy_in_force db2 w = Some q2" "wp_id q1 = wp_id q2"
  shows "q1 = q2"
proof -
  from assms(4) obtain r1 where r1: "latest_workspace_row db1 w = Some r1" by (auto simp: policy_in_force_def split: option.splits)
  from assms(5) obtain r2 where r2: "latest_workspace_row db2 w = Some r2" by (auto simp: policy_in_force_def split: option.splits)
  have s: "workspace_stored r1 q1" "wp_id q1 = wl_id r1" "workspace_stored r2 q2" "wp_id q2 = wl_id r2"
    using latest_row_stored(3) [OF assms(1) r1] latest_row_stored(3) [OF assms(2) r2] assms(4,5) by auto
  have m: "r1 \<in> set (pd_policies db2)" "r2 \<in> set (pd_policies db2)"
    using latest_row_stored(1) [OF assms(1) r1] latest_row_stored(1) [OF assms(2) r2] assms(3) by auto
  have k: "keyed wl_id (pd_policies db2)" using assms(2) unfolding workspaces_ok_def by blast
  have "r1 = r2" using keyed_eq [OF k m] s(2,4) assms(6) by simp
  with get_workspace_stored [OF k m(1) s(1)] get_workspace_stored [OF k m(2) s(3)] show ?thesis by simp
qed

text \<open>Two moments at which the same approval is current have the same policies in force.\<close>

lemma current_twice:
  assumes "policies_ok db1" "policy_step\<^sup>*\<^sup>* db1 db2"
    "resolve_generation_policy db1 d1 wids = Inr c1" "exact_external_approval_is_current a conf dep wids c1 disclosure"
    "resolve_generation_policy db2 d2 wids = Inr c2" "exact_external_approval_is_current a conf dep wids c2 disclosure"
  shows "latest_installation_policy db2 = latest_installation_policy db1
    \<and> latest_workspace_policies db2 wids = latest_workspace_policies db1 wids"
proof -
  have ok1: "policies_ok db1" "workspaces_ok db1" using assms(1) by (simp_all add: policies_ok_def)
  have ok2: "policies_ok db2" "workspaces_ok db2" using policies_ok_steps [OF assms(2) ok1(1)] by (simp_all add: policies_ok_def)
  from policy_steps_append [OF assms(2)] have sub: "set (pd_installations db1) \<subseteq> set (pd_installations db2)" "set (pd_policies db1) \<subseteq> set (pd_policies db2)"
    by auto
  from resolve_generation_policy_ok [OF ok1(1), of d1 wids] assms(3) obtain p1 where p1: "latest_installation_policy db1 = Inr p1"
    "pc_installation c1 = in_id p1" "pc_snapshots c1 = map (\<lambda>w. (wp_workspace w, wp_id w)) (policies_in_force db1 wids)" by auto
  from resolve_generation_policy_ok [OF ok2(1), of d2 wids] assms(5) obtain p2 where p2: "latest_installation_policy db2 = Inr p2"
    "pc_installation c2 = in_id p2" "pc_snapshots c2 = map (\<lambda>w. (wp_workspace w, wp_id w)) (policies_in_force db2 wids)" by auto
  from assms(4,6) have e: "in_id p1 = in_id p2" "set (pc_snapshots c1) = set (pc_snapshots c2)"
    "fst ` set (pc_snapshots c1) = set wids" "distinct (map fst (pc_snapshots c2))"
    by (auto simp: exact_external_approval_is_current_def Let_def p1(2) p2(2))
  have pol: "latest_installation_policy db2 = latest_installation_policy db1"
    using same_installation [OF ok1(1) ok2(1) sub(1) p1(1) p2(1) e(1)] p1(1) p2(1) by simp
  have same: "policy_in_force db2 w = policy_in_force db1 w" if "w \<in> set wids" for w
  proof -
    from that e(3) have "w \<in> fst ` set (pc_snapshots c1)" by simp
    then obtain x where x: "x \<in> set (pc_snapshots c1)" "w = fst x" by (elim imageE)
    define i where "i = snd x"
    have i: "(w, i) \<in> set (pc_snapshots c1)" using x by (simp add: i_def)
    with e(2) have "(w, i) \<in> set (pc_snapshots c2)" by simp
    with i obtain q1 q2 where q: "policy_in_force db1 w = Some q1" "wp_id q1 = i" "policy_in_force db2 w = Some q2" "wp_id q2 = i"
      unfolding p1(3) p2(3) snapshots_in_force [OF ok1(2)] snapshots_in_force [OF ok2(2)] by blast
    with same_in_force [OF ok1(2) ok2(2) sub(2) q(1,3)] show ?thesis by simp
  qed
  have "List.map_filter (policy_in_force db2) wids = List.map_filter (policy_in_force db1) wids"
    using same by (auto simp: map_filter_def intro!: map_cong filter_cong)
  with pol show ?thesis by (simp add: latest_workspace_policies_ok ok1(2) ok2(2))
qed

lemma exact_approval_sorted:
  "exact_external_approval_is_current (a\<lparr>ea_snapshots := sort_key fst (ea_snapshots a)\<rparr>) conf dep wids c disclosure
     \<longleftrightarrow> exact_external_approval_is_current a conf dep wids c disclosure"
proof -
  have "distinct (map fst (sort_key fst xs)) \<longleftrightarrow> distinct (map fst xs)" for xs :: "(uuid \<times> uuid) list"
    by (simp add: distinct_map)
  then show ?thesis by (simp add: exact_external_approval_is_current_def Let_def)
qed

lemma distinct_snapshots:
  assumes "workspaces_ok db"
  shows "distinct (map fst (map (\<lambda>w. (wp_workspace w, wp_id w)) (policies_in_force db wids)))"
proof -
  have "map wp_workspace (List.map_filter (policy_in_force db) xs) = filter (\<lambda>w. policy_in_force db w \<noteq> None) xs" for xs
    by (induction xs) (auto simp: map_filter_simps in_force_workspace [OF assms])
  then show ?thesis by (simp add: policies_in_force_def comp_def)
qed

text \<open>What an approval was validated against.\<close>

lemma approved_snapshots:
  assumes "policies_ok db" "validate_external_approval db a = Inr ()"
    "set wids = snd ` set (filter (\<lambda>(c, _). c = ea_configuration a) (pd_subscriptions db))"
  shows "latest_installation_id db = Some (ea_installation a)" "distinct (map fst (ea_snapshots a))"
    "set (map fst (ea_snapshots a)) = set wids"
    "set (ea_snapshots a) = set (map (\<lambda>w. (wp_workspace w, wp_id w)) (policies_in_force db wids))"
proof -
  have ok: "workspaces_ok db" using assms(1) by (simp add: policies_ok_def)
  let ?sub = "map snd (filter (\<lambda>(c, _). c = ea_configuration a) (pd_subscriptions db))"
  from assms(2) have *: "latest_installation_id db = Some (ea_installation a)" "distinct (map fst (ea_snapshots a))"
    "set (map fst (ea_snapshots a)) = set ?sub"
    "set (ea_snapshots a) = set (map (\<lambda>w. (wp_workspace w, wp_id w)) (List.map_filter (policy_in_force db) (sort (remdups ?sub))))"
    unfolding validate_external_approval_def Let_def latest_workspace_policies_ok [OF ok]
    by (auto split: option.splits if_splits)
  show "latest_installation_id db = Some (ea_installation a)" "distinct (map fst (ea_snapshots a))" using * by blast+
  have wids: "set ?sub = set wids" using assms(3) by simp
  with *(3) show "set (map fst (ea_snapshots a)) = set wids" by (rule trans)
  have "dict_fromkeys xs = xs" if "distinct xs" for xs :: "uuid list"
    using that by (rule dict_fromkeys_id)
  then have "List.map_filter (policy_in_force db) (sort (remdups ?sub)) = policies_in_force db (sort (remdups ?sub))"
    by (simp add: policies_in_force_def)
  moreover have "set (policies_in_force db (sort (remdups ?sub))) = set (policies_in_force db wids)"
    using wids by (simp add: set_policies_in_force)
  ultimately show "set (ea_snapshots a) = set (map (\<lambda>w. (wp_workspace w, wp_id w)) (policies_in_force db wids))"
    using *(4) by simp
qed

text \<open>The decision depends on the policies in force only.\<close>

lemma exact_from_policies:
  assumes "policies_ok db" "policies_ok db'" "latest_installation_policy db' = latest_installation_policy db"
    "latest_workspace_policies db' wids = latest_workspace_policies db wids" "\<forall>w\<in>set wids. policy_in_force db w \<noteq> None"
    "resolve_generation_policy db d wids = Inr c" "resolve_generation_policy db' d' wids = Inr c'"
  shows "pc_installation c' = pc_installation c" "set (pc_snapshots c') = set (pc_snapshots c)"
proof -
  have ok: "workspaces_ok db" "workspaces_ok db'" using assms(1,2) by (simp_all add: policies_ok_def)
  from resolve_generation_policy_ok [OF assms(1), of d wids] assms(6) obtain p where p: "latest_installation_policy db = Inr p"
    "pc_installation c = in_id p" "pc_snapshots c = map (\<lambda>w. (wp_workspace w, wp_id w)) (policies_in_force db wids)" by auto
  from resolve_generation_policy_ok [OF assms(2), of d' wids] assms(7) obtain p' where p': "latest_installation_policy db' = Inr p'"
    "pc_installation c' = in_id p'" "pc_snapshots c' = map (\<lambda>w. (wp_workspace w, wp_id w)) (policies_in_force db' wids)" by auto
  show "pc_installation c' = pc_installation c" using p(1,2) p'(1,2) assms(3) by simp
  have eq: "List.map_filter (policy_in_force db') wids = List.map_filter (policy_in_force db) wids"
    using assms(4) by (simp add: latest_workspace_policies_ok ok)
  have "set (List.map_filter (policy_in_force x) wids) = set (policies_in_force x wids)" for x
    using set_policies_in_force [of x wids]
    by (simp add: map_filter_def policies_in_force_def)
  with eq have "set (policies_in_force db' wids) = set (policies_in_force db wids)" by metis
  then show "set (pc_snapshots c') = set (pc_snapshots c)" unfolding p(3) p'(3) by simp
qed

text \<open>
  C23.  An approval stands while its policies do.  An approval stored for a configuration stays
  stored, and at every later moment it is current for the workspaces the configuration was subscribed to
  exactly as long as the installation policy and the policies of those workspaces in force are the
  ones it was given under: whatever version is appended for one of them ends it for good.
\<close>

theorem approval_stands_while_its_policies_do:
  assumes "policy_reachable db0" "add_external_approval db0 a = Inr db1" "policy_step\<^sup>*\<^sup>* db1 db2"
    "set wids = snd ` set (filter (\<lambda>(c, _). c = ea_configuration a) (pd_subscriptions db0))"
  shows "\<exists>b c. get_external_approval db2 (ea_configuration a) = Some b \<and> resolve_generation_policy db2 d wids = Inr c
    \<and> (exact_external_approval_is_current b (ea_configuration a) (ea_deployment a) wids c (ea_disclosure a)
       \<longleftrightarrow> latest_installation_policy db2 = latest_installation_policy db1
         \<and> latest_workspace_policies db2 wids = latest_workspace_policies db1 wids)"
proof -
  have ok0: "policies_ok db0" by (rule policy_reachable_ok [OF assms(1)])
  have ok1: "policies_ok db1" by (rule policies_ok_step [OF policy_step.approval [OF assms(2)] ok0])
  have ok2: "policies_ok db2" by (rule policies_ok_steps [OF assms(3) ok1])
  have w1: "workspaces_ok db1" "installations_ok db1" using ok1 by (simp_all add: policies_ok_def)
  let ?b = "a\<lparr>ea_snapshots := sort_key fst (ea_snapshots a)\<rparr>"
  have b1: "get_external_approval db1 (ea_configuration a) = Some ?b"
    using stored_approval [OF assms(2)] ok0 by (simp add: policies_ok_def)
  have b2: "get_external_approval db2 (ea_configuration a) = Some ?b"
    using assms(3)
  proof (induction rule: rtranclp_induct)
    case (step y z)
    have "approvals_ok y" using policies_ok_steps [OF step.hyps(1) ok1] by (simp add: policies_ok_def)
    with approval_step [OF step.hyps(2)] step.IH show ?case by blast
  qed (rule b1)
  obtain p1 c1 where r1: "latest_installation_policy db1 = Inr p1" "installation_stored (last (pd_installations db1)) p1"
    "resolve_generation_policy db1 d wids = Inr c1" "pc_installation c1 = in_id p1"
    "pc_snapshots c1 = map (\<lambda>w. (wp_workspace w, wp_id w)) (policies_in_force db1 wids)"
    using resolve_generation_policy_ok [OF ok1, of d wids] by (elim exE conjE) (rule that)
  obtain c2 where r2: "resolve_generation_policy db2 d wids = Inr c2"
    using resolve_generation_policy_ok [OF ok2, of d wids] by (elim exE conjE) (rule that)
  note v = approved_snapshots [OF ok0 add_approval_Inr(1) [OF assms(2)] assms(4)]
  from add_approval_Inr(2) [OF assms(2)] have "pd_installations db1 = pd_installations db0" "pd_policies db1 = pd_policies db0" by auto
  then have same: "latest_installation_id db1 = latest_installation_id db0" "policies_in_force db1 wids = policies_in_force db0 wids"
    by (simp only: latest_installation_id_def) (simp add: policies_in_force_def policy_in_force_cong [OF \<open>pd_policies db1 = pd_policies db0\<close>])
  have "in_id p1 = ea_installation a"
    using r1(2) v(1) latest_installation_ok(1) [OF w1(2)] same(1) by (simp add: installation_stored_def installation_row_of_def)
  moreover have "set (ea_snapshots a) = set (pc_snapshots c1)" using v(4) same(2) r1(5) by simp
  ultimately have exact1: "exact_external_approval_is_current a (ea_configuration a) (ea_deployment a) wids c1 (ea_disclosure a)"
    using v(2,3) r1(4) distinct_snapshots [OF w1(1), of wids] r1(5)
    by (simp add: exact_external_approval_is_current_def Let_def)
  have all: "\<forall>w\<in>set wids. policy_in_force db1 w \<noteq> None"
  proof
    fix w assume "w \<in> set wids"
    then have "w \<in> fst ` set (pc_snapshots c1)" using v(3,4) same(2) r1(5) by simp
    then show "policy_in_force db1 w \<noteq> None" using snapshots_in_force [OF w1(1), of w _ wids] r1(5) by force
  qed
  have "exact_external_approval_is_current ?b (ea_configuration a) (ea_deployment a) wids c2 (ea_disclosure a)
      \<longleftrightarrow> latest_installation_policy db2 = latest_installation_policy db1
         \<and> latest_workspace_policies db2 wids = latest_workspace_policies db1 wids"
    unfolding exact_approval_sorted
  proof
    assume "exact_external_approval_is_current a (ea_configuration a) (ea_deployment a) wids c2 (ea_disclosure a)"
    from current_twice [OF ok1 assms(3) r1(3) exact1 r2 this]
    show "latest_installation_policy db2 = latest_installation_policy db1
         \<and> latest_workspace_policies db2 wids = latest_workspace_policies db1 wids" .
  next
    assume "latest_installation_policy db2 = latest_installation_policy db1
         \<and> latest_workspace_policies db2 wids = latest_workspace_policies db1 wids"
    then have e: "pc_installation c2 = pc_installation c1" "set (pc_snapshots c2) = set (pc_snapshots c1)"
      using exact_from_policies [OF ok1 ok2 _ _ all r1(3) r2] by blast+
    have "distinct (map fst (pc_snapshots c2))"
      using resolve_generation_policy_ok [OF ok2, of d wids] r2 distinct_snapshots [of db2 wids] ok2 by (auto simp: policies_ok_def)
    with e exact1 show "exact_external_approval_is_current a (ea_configuration a) (ea_deployment a) wids c2 (ea_disclosure a)"
      unfolding exact_external_approval_is_current_def Let_def by (elim conjE, intro conjI) simp_all
  qed
  with b2 r2 show ?thesis by blast
qed

theorem approval_stands_while_its_policies_do_witness:
  "\<exists>db b c. add_external_approval policy_demo2 demo_approval = Inr db \<and> get_external_approval db (UUID 20) = Some b
     \<and> resolve_generation_policy db external_demo [UUID 10] = Inr c
     \<and> exact_external_approval_is_current b (UUID 20) (UUID 22) [UUID 10] c [49]"
proof -
  from demo_approved obtain db where db: "add_external_approval policy_demo2 demo_approval = Inr db" by blast
  have ids: "set [UUID 10] = snd ` set (filter (\<lambda>(c, _). c = ea_configuration demo_approval) (pd_subscriptions policy_demo2))"
    by (simp add: demo_approval_def policy_demo2_def policy_demo1_def policy_demo0_def)
  from approval_stands_while_its_policies_do [OF policy_demo2_reachable db rtranclp.rtrancl_refl ids, of external_demo] db show ?thesis
    by (auto simp: demo_approval_def)
qed

end
