(* ===== verification/Signed_Cursors.thy ===== *)
theory Signed_Cursors
  imports Py_Values
begin

text \<open>
  The signed cursors of \<^verbatim>\<open>platform/assets/library.py\<close>: URL-safe base64 without padding, JSON with
  \<^verbatim>\<open>ensure_ascii=True\<close>, and the two of them around an HMAC.  The HMAC and the JSON reader are fields of
  an environment.
\<close>

section \<open>Base64\<close>

definition b64_char :: "nat \<Rightarrow> nat" where
  "b64_char n =
     (if n < 26 then 65 + n else if n < 52 then 71 + n else if n < 62 then n - 4 else if n = 62 then 45 else 95)"

text \<open>\<^verbatim>\<open>altchars\<close> adds \<^verbatim>\<open>-\<close> and \<^verbatim>\<open>_\<close>; the standard \<^verbatim>\<open>+\<close> and \<^verbatim>\<open>/\<close> stay readable.\<close>

definition b64_value :: "nat \<Rightarrow> nat option" where
  "b64_value c =
     (if 65 \<le> c \<and> c \<le> 90 then Some (c - 65)
      else if 97 \<le> c \<and> c \<le> 122 then Some (c - 71)
      else if 48 \<le> c \<and> c \<le> 57 then Some (c + 4)
      else if c = 45 \<or> c = 43 then Some 62
      else if c = 95 \<or> c = 47 then Some 63
      else None)"

fun urlsafe_b64encode :: "nat list \<Rightarrow> pystr" where
  "urlsafe_b64encode [] = []"
| "urlsafe_b64encode [x] = [b64_char (x div 4), b64_char (x mod 4 * 16), 61, 61]"
| "urlsafe_b64encode [x, y] = [b64_char (x div 4), b64_char (x mod 4 * 16 + y div 16), b64_char (y mod 16 * 4), 61]"
| "urlsafe_b64encode (x # y # z # bs) =
     b64_char (x div 4) # b64_char (x mod 4 * 16 + y div 16) # b64_char (y mod 16 * 4 + z div 64) # b64_char (z mod 64)
       # urlsafe_b64encode bs"

definition strip_padding :: "pystr \<Rightarrow> pystr" where
  "strip_padding s = rev (dropWhile (\<lambda>c. c = 61) (rev s))"

definition base64_encode :: "nat list \<Rightarrow> pystr" where
  "base64_encode bs = strip_padding (urlsafe_b64encode bs)"

fun b64_bytes :: "nat list \<Rightarrow> nat list" where
  "b64_bytes (a # b # c # d # vs) = (a * 4 + b div 16) # (b mod 16 * 16 + c div 4) # (c mod 4 * 64 + d) # b64_bytes vs"
| "b64_bytes [a, b, c] = [a * 4 + b div 16, b mod 16 * 16 + c div 4]"
| "b64_bytes [a, b] = [a * 4 + b div 16]"
| "b64_bytes _ = []"

text \<open>
  \<^verbatim>\<open>base64.b64decode(\<dots>, validate=True)\<close>: data characters, then padding that completes the last group.
  After whole groups any padding is read as nothing; the check of the first character refuses
  padding alone.
\<close>

definition b64decode :: "pystr \<Rightarrow> nat list res" where
  "b64decode s =
     (let data = takeWhile (\<lambda>c. c \<noteq> 61) s; pads = dropWhile (\<lambda>c. c \<noteq> 61) s; n = length data mod 4
      in if list_ex (\<lambda>c. c \<ge> 128) s then Inl (ValueError ''base64_ascii'')
         else if (data = [] \<and> pads \<noteq> []) \<or> list_ex (\<lambda>c. c \<noteq> 61) pads \<or> list_ex (\<lambda>c. b64_value c = None) data
                 \<or> n = 1 \<or> (n \<noteq> 0 \<and> length pads \<noteq> 4 - n)
         then Inl (ValueError ''base64'')
         else Inr (b64_bytes (map (\<lambda>c. the (b64_value c)) data)))"

definition base64_decode :: "pystr \<Rightarrow> nat list res" where
  "base64_decode s = b64decode (s @ replicate ((4 - length s mod 4) mod 4) 61)"

subsection \<open>Reading what was written\<close>

definition is_byte :: "nat \<Rightarrow> bool" where
  "is_byte b \<longleftrightarrow> b < 256"

text \<open>The sextets of the bytes, which are the characters without the padding.\<close>

fun sextets :: "nat list \<Rightarrow> nat list" where
  "sextets [] = []"
| "sextets [x] = [x div 4, x mod 4 * 16]"
| "sextets [x, y] = [x div 4, x mod 4 * 16 + y div 16, y mod 16 * 4]"
| "sextets (x # y # z # bs) = (x div 4) # (x mod 4 * 16 + y div 16) # (y mod 16 * 4 + z div 64) # (z mod 64) # sextets bs"

lemma b64_char_not_pad: "b64_char n \<noteq> 61"
  by (auto simp: b64_char_def)

lemma b64_char_less: "n < 64 \<Longrightarrow> b64_char n < 128"
  by (auto simp: b64_char_def)

lemma b64_char_not_dot: "b64_char n \<noteq> 46"
  by (auto simp: b64_char_def)

lemma b64_value_char: "n < 64 \<Longrightarrow> b64_value (b64_char n) = Some n"
  by (auto simp: b64_value_def b64_char_def)

lemma encode_padded:
  "\<exists>k. urlsafe_b64encode bs = map b64_char (sextets bs) @ replicate k 61
     \<and> k = (4 - length (sextets bs) mod 4) mod 4 \<and> length (sextets bs) mod 4 \<noteq> 1"
proof (induction bs rule: sextets.induct)
  case (2 x)
  show ?case by (rule exI [of _ 2]) (simp add: numeral_2_eq_2)
next
  case (3 x y)
  show ?case by (rule exI [of _ 1]) simp
next
  case (4 x y z bs)
  then show ?case by auto
qed simp

lemma sextets_less: "list_all is_byte bs \<Longrightarrow> list_all (\<lambda>v. v < 64) (sextets bs)"
  by (induction bs rule: sextets.induct) (auto simp: is_byte_def)

lemma digits_back: "q < k \<Longrightarrow> (a * k + q) div k = a" "q < k \<Longrightarrow> (a * k + q) mod k = q" for a k q :: nat
  by simp_all

lemma sextet_bytes:
  fixes x y z :: nat
  assumes "y < 256" "z < 256"
  shows "x div 4 * 4 + (x mod 4 * 16 + y div 16) div 16 = x"
    "(x mod 4 * 16 + y div 16) mod 16 * 16 + (y mod 16 * 4 + z div 64) div 4 = y"
    "(y mod 16 * 4 + z div 64) mod 4 * 64 + z mod 64 = z"
    "(x mod 4 * 16 + y div 16) mod 16 * 16 + y mod 16 * 4 div 4 = y"
proof -
  have "y div 16 < 16" "z div 64 < 4" using assms by (simp_all add: less_mult_imp_div_less)
  then show "x div 4 * 4 + (x mod 4 * 16 + y div 16) div 16 = x"
    "(x mod 4 * 16 + y div 16) mod 16 * 16 + (y mod 16 * 4 + z div 64) div 4 = y"
    "(y mod 16 * 4 + z div 64) mod 4 * 64 + z mod 64 = z"
    "(x mod 4 * 16 + y div 16) mod 16 * 16 + y mod 16 * 4 div 4 = y"
    by (simp_all only: digits_back) simp_all
qed

lemma bytes_sextets: "list_all is_byte bs \<Longrightarrow> b64_bytes (sextets bs) = bs"
  by (induction bs rule: sextets.induct) (auto simp: is_byte_def sextet_bytes)

lemma base64_encode_chars: "base64_encode bs = map b64_char (sextets bs)"
proof -
  obtain k where k: "urlsafe_b64encode bs = map b64_char (sextets bs) @ replicate k 61" using encode_padded by blast
  have pads: "dropWhile (\<lambda>c. c = 61) (replicate k 61 @ s) = dropWhile (\<lambda>c. c = 61) s" for s :: pystr
    by (induction k) simp_all
  have "dropWhile (\<lambda>c. c = 61) (rev (map b64_char vs)) = rev (map b64_char vs)" for vs
    by (cases vs rule: rev_cases) (simp_all add: b64_char_not_pad)
  then show ?thesis by (simp only: base64_encode_def strip_padding_def k rev_append rev_replicate pads rev_rev_ident)
qed

lemma b64decode_chars:
  assumes "list_all (\<lambda>v. v < 64) vs" "length vs mod 4 \<noteq> 1" "vs = [] \<Longrightarrow> k = 0" "length vs mod 4 \<noteq> 0 \<Longrightarrow> k = 4 - length vs mod 4"
  shows "b64decode (map b64_char vs @ replicate k 61) = Inr (b64_bytes vs)"
proof -
  let ?s = "map b64_char vs @ replicate k 61"
  have data: "takeWhile (\<lambda>c. c \<noteq> 61) ?s = map b64_char vs" "dropWhile (\<lambda>c. c \<noteq> 61) ?s = replicate k 61"
    by (simp_all add: takeWhile_append dropWhile_append b64_char_not_pad takeWhile_replicate dropWhile_replicate)
  have vals: "map (\<lambda>c. the (b64_value c)) (map b64_char vs) = vs"
    using assms(1) by (simp add: map_idI list_all_iff b64_value_char)
  have "\<not> list_ex (\<lambda>c. b64_value c = None) (map b64_char vs)"
    using assms(1) by (auto simp: list_ex_iff list_all_iff b64_value_char)
  moreover have "\<not> list_ex (\<lambda>c. 128 \<le> c) ?s"
    using assms(1) b64_char_less by (fastforce simp: list_ex_iff list_all_iff)
  moreover have "\<not> list_ex (\<lambda>c. c \<noteq> 61) (replicate k (61 :: nat))" by (simp add: list_ex_iff)
  ultimately show ?thesis
    using assms(2-4) unfolding b64decode_def Let_def data vals length_map length_replicate
    by (simp only: map_is_Nil_conv replicate_empty if_False simp_thms) auto
qed

lemma base64_decode_encode:
  assumes "list_all is_byte bs"
  shows "base64_decode (base64_encode bs) = Inr bs"
proof -
  let ?vs = "sextets bs"
  have "length ?vs mod 4 \<noteq> 1" using encode_padded [of bs] by blast
  then have "b64decode (map b64_char ?vs @ replicate ((4 - length ?vs mod 4) mod 4) 61) = Inr (b64_bytes ?vs)"
    by (intro b64decode_chars sextets_less [OF assms]) simp_all
  then show ?thesis by (simp add: base64_decode_def base64_encode_chars bytes_sextets [OF assms])
qed

lemma base64_no_dot: "46 \<notin> set (base64_encode bs)"
  using b64_char_not_dot by (fastforce simp: base64_encode_chars)

lemma length_base64_encode: "3 * length (base64_encode bs) \<ge> 4 * length bs"
  unfolding base64_encode_chars length_map by (induction bs rule: sextets.induct) auto

text \<open>What a codec of bytes promises a token of two parts joined by a dot.\<close>

definition split_dot :: "pystr \<Rightarrow> (pystr \<times> pystr) option" where
  "split_dot s = (case dropWhile (\<lambda>c. c \<noteq> 46) s of [] \<Rightarrow> None | _ # r \<Rightarrow> Some (takeWhile (\<lambda>c. c \<noteq> 46) s, r))"

locale byte_text =
  fixes enc :: "nat list \<Rightarrow> pystr" and dec :: "pystr \<Rightarrow> nat list res"
  assumes dec_enc: "list_all is_byte bs \<Longrightarrow> dec (enc bs) = Inr bs"
    and no_dot: "46 \<notin> set (enc bs)"
begin

lemma token_parts: "split_dot (enc a @ 46 # enc b) = Some (enc a, enc b)"
proof -
  have "\<forall>c\<in>set (enc a). c \<noteq> 46" using no_dot [of a] by auto
  then have "takeWhile (\<lambda>c. c \<noteq> 46) (enc a @ 46 # enc b) = enc a" "dropWhile (\<lambda>c. c \<noteq> 46) (enc a @ 46 # enc b) = 46 # enc b"
    by (auto simp: takeWhile_append2 dropWhile_append2)
  then show ?thesis by (simp add: split_dot_def)
qed

lemma enc_inj: "list_all is_byte a \<Longrightarrow> list_all is_byte b \<Longrightarrow> enc a = enc b \<Longrightarrow> a = b"
  using dec_enc by (metis sum.inject(2))

end

interpretation b64: byte_text base64_encode base64_decode
  by unfold_locales (simp_all add: base64_decode_encode base64_no_dot)

section \<open>JSON in ASCII\<close>

definition hex4 :: "nat \<Rightarrow> pystr" where
  "hex4 n = [hex_digit (n div 4096 mod 16), hex_digit (n div 256 mod 16), hex_digit (n div 16 mod 16), hex_digit (n mod 16)]"

definition json_esc_ascii :: "nat \<Rightarrow> pystr" where
  "json_esc_ascii c =
     (if c = 34 then [92, 34]
      else if c = 92 then [92, 92]
      else if c = 10 then [92, 110]
      else if c = 13 then [92, 114]
      else if c = 9 then [92, 116]
      else if c = 12 then [92, 102]
      else if c = 8 then [92, 98]
      else if 32 \<le> c \<and> c \<le> 126 then [c]
      else if c < 65536 then [92, 117] @ hex4 c
      else [92, 117] @ hex4 (55296 + (c - 65536) div 1024) @ [92, 117] @ hex4 (56320 + (c - 65536) mod 1024))"

definition json_str_ascii :: "pystr \<Rightarrow> pystr" where
  "json_str_ascii s = 34 # concat (map json_esc_ascii s) @ [34]"

fun dumps_ascii :: "json \<Rightarrow> pystr"
  and dumps_ascii_arr :: "json list \<Rightarrow> pystr"
  and dumps_ascii_obj :: "(pystr \<times> json) list \<Rightarrow> pystr" where
  "dumps_ascii JNull = [110, 117, 108, 108]"
| "dumps_ascii (JInt i) = dec_int i"
| "dumps_ascii (JStr s) = json_str_ascii s"
| "dumps_ascii (JArr []) = [91, 93]"
| "dumps_ascii (JArr (j # js)) = 91 # dumps_ascii j @ dumps_ascii_arr js"
| "dumps_ascii (JObj []) = [123, 125]"
| "dumps_ascii (JObj ((k, j) # kvs)) = 123 # json_str_ascii k @ 58 # dumps_ascii j @ dumps_ascii_obj kvs"
| "dumps_ascii_arr [] = [93]"
| "dumps_ascii_arr (j # js) = 44 # dumps_ascii j @ dumps_ascii_arr js"
| "dumps_ascii_obj [] = [125]"
| "dumps_ascii_obj ((k, j) # kvs) = 44 # json_str_ascii k @ 58 # dumps_ascii j @ dumps_ascii_obj kvs"

text \<open>The Python value a JSON text denotes.\<close>

fun json_value :: "json \<Rightarrow> py_value"
  and json_values :: "json list \<Rightarrow> py_value list"
  and json_members :: "(pystr \<times> json) list \<Rightarrow> (pystr \<times> py_value) list" where
  "json_value JNull = PNone"
| "json_value (JInt i) = PInt i"
| "json_value (JStr s) = PStr s"
| "json_value (JArr js) = PList (json_values js)"
| "json_value (JObj kvs) = PDict (json_members kvs)"
| "json_values [] = []"
| "json_values (j # js) = json_value j # json_values js"
| "json_members [] = []"
| "json_members ((k, j) # kvs) = (k, json_value j) # json_members kvs"

definition is_ascii :: "pystr \<Rightarrow> bool" where
  "is_ascii s \<longleftrightarrow> list_all (\<lambda>c. c < 128) s"

lemma is_ascii_simps [simp]:
  "is_ascii []" "is_ascii (c # s) \<longleftrightarrow> c < 128 \<and> is_ascii s" "is_ascii (s @ t) \<longleftrightarrow> is_ascii s \<and> is_ascii t"
  by (simp_all add: is_ascii_def)

lemma hex_digit_ascii: "hex_digit (n mod 16) < 128"
proof -
  have "n mod 16 < 16" by simp
  from hex_digit_set [OF this] show ?thesis by auto
qed

lemma is_ascii_hex4: "is_ascii (hex4 n)"
  by (simp add: hex4_def hex_digit_ascii)

lemma is_ascii_str: "is_ascii (json_str_ascii s)"
proof -
  have "is_ascii (json_esc_ascii c)" for c by (simp add: json_esc_ascii_def is_ascii_hex4)
  then have "is_ascii (concat (map json_esc_ascii s))" by (induction s) simp_all
  then show ?thesis by (simp add: json_str_ascii_def)
qed

lemma is_ascii_dec_int: "is_ascii (dec_int i)"
proof -
  have "is_ascii (dec_nat n)" for n
    using dec_nat_digits [of n] by (auto simp: is_ascii_def list_all_iff is_digit_cp_def)
  then show ?thesis by (simp add: dec_int_def)
qed

lemma is_ascii_dumps: "is_ascii (dumps_ascii j)" "is_ascii (dumps_ascii_arr js)" "is_ascii (dumps_ascii_obj kvs)"
  by (induction j and js and kvs rule: dumps_ascii_dumps_ascii_arr_dumps_ascii_obj.induct)
    (simp_all add: is_ascii_str is_ascii_dec_int)

lemma utf8_ascii_id: "is_ascii s \<Longrightarrow> utf8_encode s = Inr s"
  by (induction s) (simp_all add: utf8_ascii)

lemma ascii_bytes: "is_ascii s \<Longrightarrow> list_all is_byte s"
  by (auto simp: is_ascii_def is_byte_def list_all_iff)

section \<open>Cursors\<close>

record cursor_env =
  ce_hmac :: "nat list \<Rightarrow> nat list \<Rightarrow> nat list"
  ce_loads :: "nat list \<Rightarrow> py_value res"

record library_service =
  sv_default :: int
  sv_max_page :: int
  sv_max_depth :: int
  sv_cursor_max :: int
  sv_key :: "nat list"

abbreviation invalid_library_request :: exn where
  "invalid_library_request \<equiv> AppError ''invalid_library_request'' 422"

definition new_library_service :: "cursor_env \<Rightarrow> pystr \<Rightarrow> int \<Rightarrow> int \<Rightarrow> int \<Rightarrow> int \<Rightarrow> library_service res" where
  "new_library_service E secret default_size max_size max_depth cursor_max =
     (if secret = [] \<or> \<not> (1 \<le> default_size \<and> default_size \<le> max_size) \<or> max_depth < 1 \<or> cursor_max < 1
      then Inl (ValueError ''library_limits'')
      else rbind (utf8_encode secret) (\<lambda>s.
        Inr \<lparr>sv_default = default_size, sv_max_page = max_size, sv_max_depth = max_depth, sv_cursor_max = cursor_max,
          sv_key = ce_hmac E s (lit ''ai-workshop:asset-library-cursor:v1'')\<rparr>))"

text \<open>Whom and what a cursor is for: actor, workspace, folder, document and kind of listing.\<close>

record cursor_scope =
  cs_actor :: uuid
  cs_workspace :: uuid
  cs_folder :: "uuid option"
  cs_document :: "uuid option"
  cs_kind :: pystr

definition optional_text :: "uuid option \<Rightarrow> json" where
  "optional_text u = (case u of None \<Rightarrow> JNull | Some i \<Rightarrow> JStr (uuid_text i))"

definition scope_members :: "cursor_scope \<Rightarrow> (pystr \<times> json) list" where
  "scope_members s =
     [(lit ''document'', optional_text (cs_document s)), (lit ''folder'', optional_text (cs_folder s)),
      (lit ''kind'', JStr (cs_kind s)), (lit ''workspace'', JStr (uuid_text (cs_workspace s)))]"

definition cursor_payload :: "cursor_scope \<Rightarrow> (pystr \<times> json) list \<Rightarrow> json" where
  "cursor_payload s position =
     JObj [(lit ''actor'', JStr (uuid_text (cs_actor s))), (lit ''position'', JObj position),
       (lit ''scope'', JObj (scope_members s)), (lit ''version'', JInt 1)]"

definition signed_token :: "cursor_env \<Rightarrow> nat list \<Rightarrow> nat list \<Rightarrow> pystr" where
  "signed_token E key payload = base64_encode payload @ 46 # base64_encode (ce_hmac E key payload)"

definition encode_cursor :: "cursor_env \<Rightarrow> library_service \<Rightarrow> cursor_scope \<Rightarrow> (pystr \<times> json) list \<Rightarrow> pystr res" where
  "encode_cursor E S s position =
     rbind (utf8_encode (dumps_ascii (cursor_payload s position))) (\<lambda>payload.
       let encoded = signed_token E (sv_key S) payload
       in if int (length encoded) > sv_cursor_max S then Inl invalid_library_request else Inr encoded)"

text \<open>\<^verbatim>\<open>scope == expected_scope\<close> for dictionaries.\<close>

definition dict_equals :: "(pystr \<times> py_value) list \<Rightarrow> (pystr \<times> py_value) list \<Rightarrow> bool" where
  "dict_equals d e \<longleftrightarrow> set (map fst d) = set (map fst e) \<and> list_all (\<lambda>k. map_of d k = map_of e k) (map fst e)"

definition open_payload :: "cursor_scope \<Rightarrow> py_value \<Rightarrow> (pystr \<times> py_value) list res" where
  "open_payload s decoded =
     (case decoded of
        PDict d \<Rightarrow>
          if set (map fst d) \<noteq> {lit ''version'', lit ''actor'', lit ''scope'', lit ''position''} then Inl (ValueError ''cursor_payload'')
          else if map_of d (lit ''version'') = Some (PInt 1) \<and> map_of d (lit ''actor'') = Some (PStr (uuid_text (cs_actor s)))
          then
            (case (map_of d (lit ''scope''), map_of d (lit ''position'')) of
               (Some (PDict scope), Some (PDict position)) \<Rightarrow>
                 if dict_equals scope (json_members (scope_members s)) then Inr position else Inl (ValueError ''cursor_scope'')
             | _ \<Rightarrow> Inl (ValueError ''cursor_scope''))
          else Inl (ValueError ''cursor_scope'')
      | _ \<Rightarrow> Inl (ValueError ''cursor_payload''))"

definition open_token :: "cursor_env \<Rightarrow> library_service \<Rightarrow> pystr \<Rightarrow> nat list res" where
  "open_token E S v =
     (case split_dot v of
        None \<Rightarrow> Inl (ValueError ''unpack'')
      | Some (a, b) \<Rightarrow>
          rbind (base64_decode a) (\<lambda>payload.
          rbind (base64_decode b) (\<lambda>signature.
            if signature \<noteq> ce_hmac E (sv_key S) payload then Inl (ValueError ''cursor_signature'') else Inr payload)))"

definition refused_as_invalid :: "exn \<Rightarrow> exn" where
  "refused_as_invalid e = (if is_value_error e \<or> (case e of TypeError _ \<Rightarrow> True | _ \<Rightarrow> False) then invalid_library_request else e)"

definition decode_cursor :: "cursor_env \<Rightarrow> library_service \<Rightarrow> pystr \<Rightarrow> cursor_scope \<Rightarrow> (pystr \<times> py_value) list res" where
  "decode_cursor E S v s =
     (if v = [] \<or> int (length v) > sv_cursor_max S then Inl invalid_library_request
      else (case rbind (open_token E S v) (\<lambda>payload. rbind (ce_loads E payload) (open_payload s)) of
          Inl e \<Rightarrow> Inl (refused_as_invalid e)
        | Inr position \<Rightarrow> Inr position))"

definition cursor_identifier :: "(pystr \<times> py_value) list \<Rightarrow> uuid res" where
  "cursor_identifier position =
     (case map_of position (lit ''id'') of
        Some (PStr i) \<Rightarrow> (case parse_uuid i of Inl _ \<Rightarrow> Inl invalid_library_request | Inr u \<Rightarrow> Inr u)
      | _ \<Rightarrow> Inl invalid_library_request)"

definition decode_name_cursor :: "cursor_env \<Rightarrow> library_service \<Rightarrow> pystr option \<Rightarrow> cursor_scope \<Rightarrow> (pystr \<times> uuid) option res" where
  "decode_name_cursor E S v s =
     (case v of
        None \<Rightarrow> Inr None
      | Some c \<Rightarrow>
          rbind (decode_cursor E S c s) (\<lambda>position.
            if set (map fst position) \<noteq> {lit ''name'', lit ''id''} then Inl invalid_library_request
            else (case map_of position (lit ''name'') of
                Some (PStr name) \<Rightarrow> rbind (cursor_identifier position) (\<lambda>i. Inr (Some (name, i)))
              | _ \<Rightarrow> Inl invalid_library_request)))"

definition decode_version_cursor :: "cursor_env \<Rightarrow> library_service \<Rightarrow> pystr option \<Rightarrow> cursor_scope \<Rightarrow> (int \<times> uuid) option res" where
  "decode_version_cursor E S v s =
     (case v of
        None \<Rightarrow> Inr None
      | Some c \<Rightarrow>
          rbind (decode_cursor E S c s) (\<lambda>position.
            if set (map fst position) \<noteq> {lit ''number'', lit ''id''} then Inl invalid_library_request
            else (case map_of position (lit ''number'') of
                Some (PInt n) \<Rightarrow>
                  if n < 1 then Inl invalid_library_request else rbind (cursor_identifier position) (\<lambda>i. Inr (Some (n, i)))
              | _ \<Rightarrow> Inl invalid_library_request)))"

subsection \<open>What an accepted cursor is\<close>

text \<open>The HMAC yields bytes; the reader reads a written payload back.\<close>

definition hmac_gives_bytes :: "cursor_env \<Rightarrow> bool" where
  "hmac_gives_bytes E \<longleftrightarrow> (\<forall>k b. list_all is_byte (ce_hmac E k b))"

definition reads_back :: "cursor_env \<Rightarrow> json \<Rightarrow> bool" where
  "reads_back E j \<longleftrightarrow> ce_loads E (dumps_ascii j) = Inr (json_value j)"

lemma open_signed_token:
  assumes "hmac_gives_bytes E" "list_all is_byte payload"
  shows "open_token E S (signed_token E (sv_key S) payload) = Inr payload"
  using assms by (simp add: open_token_def signed_token_def b64.token_parts base64_decode_encode hmac_gives_bytes_def)

lemma encode_cursor_Inr:
  "encode_cursor E S s position = Inr c \<longleftrightarrow>
     c = signed_token E (sv_key S) (dumps_ascii (cursor_payload s position)) \<and> int (length c) \<le> sv_cursor_max S"
  by (auto simp: encode_cursor_def Let_def utf8_ascii_id [OF is_ascii_dumps(1)])

definition scope_ok :: "cursor_scope \<Rightarrow> bool" where
  "scope_ok s \<longleftrightarrow> uuid_ok (cs_actor s) \<and> uuid_ok (cs_workspace s) \<and> (case cs_folder s of None \<Rightarrow> True | Some i \<Rightarrow> uuid_ok i)
     \<and> (case cs_document s of None \<Rightarrow> True | Some i \<Rightarrow> uuid_ok i)"

lemma optional_text_inj:
  assumes "case u of None \<Rightarrow> True | Some i \<Rightarrow> uuid_ok i" "case v of None \<Rightarrow> True | Some i \<Rightarrow> uuid_ok i"
  shows "json_value (optional_text u) = json_value (optional_text v) \<longleftrightarrow> u = v"
  using assms uuid_text_inj by (auto simp: optional_text_def split: option.splits)

lemma scope_members_equal:
  assumes "scope_ok s" "scope_ok t"
  shows "dict_equals (json_members (scope_members s)) (json_members (scope_members t)) \<and> cs_actor s = cs_actor t \<longleftrightarrow> s = t"
proof -
  have "uuid_text (cs_workspace s) = uuid_text (cs_workspace t) \<longleftrightarrow> cs_workspace s = cs_workspace t"
    using assms uuid_text_inj by (auto simp: scope_ok_def)
  then show ?thesis
    using assms by (cases s, cases t) (auto simp: dict_equals_def scope_members_def optional_text_inj scope_ok_def)
qed

lemma decode_issued:
  assumes "hmac_gives_bytes E" "encode_cursor E S s position = Inr c" "reads_back E (cursor_payload s position)"
    "scope_ok s" "scope_ok t"
  shows "decode_cursor E S c t = (if s = t then Inr (json_members position) else Inl invalid_library_request)"
proof -
  from assms(2) have c: "c = signed_token E (sv_key S) (dumps_ascii (cursor_payload s position))" "int (length c) \<le> sv_cursor_max S"
    unfolding encode_cursor_Inr by blast+
  then have "c \<noteq> []" by (simp add: signed_token_def)
  moreover have "open_token E S c = Inr (dumps_ascii (cursor_payload s position))"
    unfolding c(1) by (rule open_signed_token [OF assms(1) ascii_bytes [OF is_ascii_dumps(1)]])
  moreover have "open_payload t (json_value (cursor_payload s position)) =
      (if s = t then Inr (json_members position) else Inl (ValueError ''cursor_scope''))"
  proof -
    have "uuid_text (cs_actor s) = uuid_text (cs_actor t) \<longleftrightarrow> cs_actor s = cs_actor t"
      using assms(4,5) uuid_text_inj by (auto simp: scope_ok_def)
    moreover note scope_members_equal [OF assms(4,5)]
    ultimately show ?thesis by (auto simp: open_payload_def cursor_payload_def)
  qed
  ultimately show ?thesis
    using assms(3) c(2) by (simp add: decode_cursor_def reads_back_def refused_as_invalid_def)
qed

lemma open_payload_Inr:
  assumes "open_payload t v = Inr q"
  obtains d scope where "v = PDict d" "map_of d (lit ''actor'') = Some (PStr (uuid_text (cs_actor t)))"
    "map_of d (lit ''position'') = Some (PDict q)" "map_of d (lit ''scope'') = Some (PDict scope)"
    "dict_equals scope (json_members (scope_members t))"
proof -
  from assms obtain d where v: "v = PDict d" by (cases v) (simp_all add: open_payload_def)
  note eq = assms [unfolded v open_payload_def py_value.case]
  from eq have a: "map_of d (lit ''version'') = Some (PInt 1) \<and> map_of d (lit ''actor'') = Some (PStr (uuid_text (cs_actor t)))"
    by (rule contrapos_pp) (simp only: if_False if_cancel Inl_Inr_False split: if_split, simp)
  from eq obtain s where s: "map_of d (lit ''scope'') = Some (PDict s)"
    by (cases "map_of d (lit ''scope'')") (auto simp del: lit_simps split: if_splits py_value.splits)
  from eq s obtain p where p: "map_of d (lit ''position'') = Some (PDict p)"
    by (cases "map_of d (lit ''position'')") (auto simp del: lit_simps split: if_splits py_value.splits)
  from eq have "dict_equals s (json_members (scope_members t)) \<and> p = q"
    unfolding s p prod.case option.case py_value.case by (simp del: lit_simps split: if_splits)
  with that [OF v] a s p show thesis by blast
qed

subsection \<open>How long a cursor is\<close>

lemma length_sextets: "length (sextets bs) = (4 * length bs + 2) div 3"
  by (induction bs rule: sextets.induct) simp_all

lemma length_token: "length (signed_token E key payload) = (4 * length payload + 2) div 3 + 1 + (4 * length (ce_hmac E key payload) + 2) div 3"
  by (simp add: signed_token_def base64_encode_chars length_sextets)

declare length_uuid_text [simp]

lemma length_json_str_ascii:
  assumes "\<forall>c\<in>set s. length (json_esc_ascii c) \<le> k"
  shows "length (json_str_ascii s) \<le> k * length s + 2"
  using assms by (induction s) (auto simp: json_str_ascii_def)

lemma length_json_esc_ascii: "length (json_esc_ascii c) \<le> 12"
  by (simp add: json_esc_ascii_def hex4_def)

lemma json_str_ascii_plain:
  assumes "\<forall>c\<in>set s. c \<in> {48..57} \<union> {97..122} \<union> {45}"
  shows "json_str_ascii s = 34 # s @ [34]"
proof -
  have "concat (map json_esc_ascii s) = s" using assms by (induction s) (auto simp: json_esc_ascii_def)
  then show ?thesis by (simp add: json_str_ascii_def)
qed

lemma json_str_ascii_uuid [simp]: "json_str_ascii (uuid_text u) = 34 # uuid_text u @ [34]"
  using uuid_text_set [of _ u] by (intro json_str_ascii_plain) fastforce

end
