(* ===== verification/Library_Browsing.thy ===== *)
theory Library_Browsing
  imports Asset_Properties Signed_Cursors "HOL-Library.Product_Lexorder"
begin

text \<open>
  Browsing the asset library (\<^verbatim>\<open>platform/assets/library.py\<close>, \<^verbatim>\<open>library_repository.py\<close>): the listings
  of a folder and of the versions of a document, page by page with signed cursors, and the path
  of a folder.
\<close>

section \<open>The repository\<close>

definition workspace_for_user :: "library_db \<Rightarrow> int \<Rightarrow> uuid \<Rightarrow> uuid \<Rightarrow> workspace_row option" where
  "workspace_for_user db now user wid =
     find (\<lambda>w. wr_id w = wid
         \<and> list_ex (\<lambda>m. mb_workspace m = wr_id w \<and> mb_user m = user) (wd_members (lb_ws db))
         \<and> workspace_read_allowed (lb_ws db) now user w \<and> workspace_is_active now w
         \<and> workspace_personal_owner_matches user w) (wd_workspaces (lb_ws db))"

definition folder_for_workspace :: "library_db \<Rightarrow> uuid \<Rightarrow> uuid \<Rightarrow> folder option" where
  "folder_for_workspace db wid fid = find (\<lambda>f. fo_workspace f = wid \<and> fo_id f = fid) (lb_folders db)"

text \<open>The condition a cursor adds to a listing by name.\<close>

definition name_after :: "(pystr \<times> uuid) option \<Rightarrow> pystr \<Rightarrow> uuid \<Rightarrow> bool" where
  "name_after cursor name i =
     (case cursor of None \<Rightarrow> True | Some (n, j) \<Rightarrow> n < name \<or> (name = n \<and> j < i))"

definition child_folders ::
  "library_db \<Rightarrow> uuid \<Rightarrow> uuid option \<Rightarrow> (pystr \<times> uuid) option \<Rightarrow> int \<Rightarrow> (folder \<times> bool) list res" where
  "child_folders db wid parent cursor limit =
     (if limit < 1 then Inl (ValueError ''limit'')
      else Inr (take (nat limit) (map (\<lambda>f. (f, list_ex (\<lambda>c. fo_workspace c = wid \<and> fo_parent c = Some (fo_id f)) (lb_folders db)))
        (sort_key (\<lambda>f. (fo_name f, fo_id f))
          (filter (\<lambda>f. fo_workspace f = wid \<and> fo_parent f = parent \<and> name_after cursor (fo_name f) (fo_id f)) (lb_folders db))))))"

text \<open>The join of a document with its version of the greatest number.\<close>

definition latest_versions :: "library_db \<Rightarrow> document \<Rightarrow> asset_version list" where
  "latest_versions db d =
     filter (\<lambda>v. av_document v = do_id d
       \<and> list_all (\<lambda>u. av_document u = do_id d \<longrightarrow> av_number u \<le> av_number v) (lb_versions db)) (lb_versions db)"

definition library_documents ::
  "library_db \<Rightarrow> uuid \<Rightarrow> uuid option \<Rightarrow> uuid option \<Rightarrow> (pystr \<times> uuid) option \<Rightarrow> int \<Rightarrow> (document \<times> asset_version list) list res" where
  "library_documents db wid fid did cursor limit =
     (if limit < 1 then Inl (ValueError ''limit'')
      else
        let rows = concat (map (\<lambda>d. map (\<lambda>v. (d, [v])) (latest_versions db d)) (filter (\<lambda>d. do_workspace d = wid) (lb_documents db)));
            wanted = (\<lambda>d. case did of None \<Rightarrow> do_folder d = fid \<and> name_after cursor (do_name d) (do_id d) | Some i \<Rightarrow> do_id d = i)
        in Inr (take (nat limit) (sort_key (\<lambda>(d, v). (do_name d, do_id d)) (filter (\<lambda>(d, v). wanted d) rows))))"

definition child_documents ::
  "library_db \<Rightarrow> uuid \<Rightarrow> uuid option \<Rightarrow> (pystr \<times> uuid) option \<Rightarrow> int \<Rightarrow> (document \<times> asset_version list) list res" where
  "child_documents db wid fid cursor limit = library_documents db wid fid None cursor limit"

definition document_for_workspace :: "library_db \<Rightarrow> uuid \<Rightarrow> uuid \<Rightarrow> (document \<times> asset_version list) option res" where
  "document_for_workspace db wid did =
     rbind (library_documents db wid None (Some did) None 1) (\<lambda>rows. Inr (case rows of [] \<Rightarrow> None | r # _ \<Rightarrow> Some r))"

definition number_before :: "(int \<times> uuid) option \<Rightarrow> int \<Rightarrow> uuid \<Rightarrow> bool" where
  "number_before cursor number i =
     (case cursor of None \<Rightarrow> True | Some (n, j) \<Rightarrow> number < n \<or> (number = n \<and> i < j))"

definition document_versions :: "library_db \<Rightarrow> uuid \<Rightarrow> (int \<times> uuid) option \<Rightarrow> int \<Rightarrow> asset_version list res" where
  "document_versions db did cursor limit =
     (if limit < 1 then Inl (ValueError ''limit'')
      else Inr (take (nat limit) (rev (sort_key (\<lambda>v. (av_number v, av_id v))
        (filter (\<lambda>v. av_document v = did \<and> number_before cursor (av_number v) (av_id v)) (lb_versions db))))))"

section \<open>The service\<close>

record library_page =
  lp_workspace :: workspace_row
  lp_folder :: "folder option"
  lp_ancestors :: "folder list"
  lp_folders :: "(folder \<times> bool) list"
  lp_documents :: "(document \<times> asset_version list) list"
  lp_next_folder :: "pystr option"
  lp_next_document :: "pystr option"

abbreviation unsafe_hierarchy :: exn where
  "unsafe_hierarchy \<equiv> AppError ''invalid_folder_hierarchy'' 409"

definition visible_workspace :: "library_db \<Rightarrow> int \<Rightarrow> uuid \<Rightarrow> uuid \<Rightarrow> workspace_row res" where
  "visible_workspace db now user wid =
     (case workspace_for_user db now user wid of None \<Rightarrow> Inl resource_not_found | Some w \<Rightarrow> Inr w)"

function ancestors_from :: "library_db \<Rightarrow> int \<Rightarrow> uuid \<Rightarrow> uuid list \<Rightarrow> folder list \<Rightarrow> uuid option \<Rightarrow> folder list res" where
  "ancestors_from db max_depth wid seen found None = Inr found"
| "ancestors_from db max_depth wid seen found (Some i) =
     (if int (length found) + 1 \<ge> max_depth then Inl unsafe_hierarchy
      else
        (case folder_for_workspace db wid i of
           None \<Rightarrow> Inl unsafe_hierarchy
         | Some f \<Rightarrow>
             if fo_id f \<in> set seen then Inl unsafe_hierarchy
             else ancestors_from db max_depth wid (fo_id f # seen) (f # found) (fo_parent f)))"
  by pat_completeness auto
termination
  by (relation "measure (\<lambda>(db, max_depth, wid, seen, found, i). nat (max_depth - int (length found)))") auto

definition ancestors :: "library_db \<Rightarrow> int \<Rightarrow> uuid \<Rightarrow> folder \<Rightarrow> folder list res" where
  "ancestors db max_depth wid f = ancestors_from db max_depth wid [fo_id f] [] (fo_parent f)"

definition page_limit :: "library_service \<Rightarrow> int option \<Rightarrow> int res" where
  "page_limit S requested =
     (let value = (case requested of None \<Rightarrow> sv_default S | Some n \<Rightarrow> n)
      in if \<not> (1 \<le> value \<and> value \<le> sv_max_page S) then Inl invalid_library_request else Inr value)"

definition name_position :: "pystr \<Rightarrow> uuid \<Rightarrow> (pystr \<times> json) list" where
  "name_position name i = [(lit ''id'', JStr (uuid_text i)), (lit ''name'', JStr name)]"

definition version_position :: "int \<Rightarrow> uuid \<Rightarrow> (pystr \<times> json) list" where
  "version_position n i = [(lit ''id'', JStr (uuid_text i)), (lit ''number'', JInt n)]"

text \<open>The cursor after the last row shown, if there are more.\<close>

definition next_cursor :: "cursor_env \<Rightarrow> library_service \<Rightarrow> cursor_scope \<Rightarrow> nat \<Rightarrow> ('a \<Rightarrow> (pystr \<times> json) list) \<Rightarrow> 'a list \<Rightarrow> pystr option res" where
  "next_cursor E S s limit position rows =
     (if length rows > limit \<and> take limit rows \<noteq> []
      then rbind (encode_cursor E S s (position (last (take limit rows)))) (\<lambda>c. Inr (Some c))
      else Inr None)"

definition listing_scope :: "uuid \<Rightarrow> uuid \<Rightarrow> uuid option \<Rightarrow> pystr \<Rightarrow> cursor_scope" where
  "listing_scope user wid fid kind = \<lparr>cs_actor = user, cs_workspace = wid, cs_folder = fid, cs_document = None, cs_kind = kind\<rparr>"

definition version_scope :: "uuid \<Rightarrow> uuid \<Rightarrow> uuid \<Rightarrow> cursor_scope" where
  "version_scope user wid did =
     \<lparr>cs_actor = user, cs_workspace = wid, cs_folder = None, cs_document = Some did, cs_kind = lit ''version''\<rparr>"

definition folder_path :: "library_db \<Rightarrow> library_service \<Rightarrow> uuid \<Rightarrow> uuid option \<Rightarrow> (folder option \<times> folder list) res" where
  "folder_path db S wid fid =
     (case fid of
        None \<Rightarrow> Inr (None, [])
      | Some i \<Rightarrow>
          (case folder_for_workspace db wid i of
             None \<Rightarrow> Inl resource_not_found
           | Some f \<Rightarrow> rbind (ancestors db (sv_max_depth S) wid f) (\<lambda>path. Inr (Some f, path))))"

definition browse ::
  "cursor_env \<Rightarrow> library_service \<Rightarrow> library_db \<Rightarrow> int \<Rightarrow> uuid \<Rightarrow> uuid \<Rightarrow> uuid option \<Rightarrow> pystr option \<Rightarrow> pystr option \<Rightarrow> int option
     \<Rightarrow> library_page res" where
  "browse E S db now user wid fid folder_cursor document_cursor requested =
     rbind (visible_workspace db now user wid) (\<lambda>workspace.
     rbind (page_limit S requested) (\<lambda>limit.
     rbind (folder_path db S wid fid) (\<lambda>(folder, path).
     rbind (decode_name_cursor E S folder_cursor (listing_scope user wid fid (lit ''folder''))) (\<lambda>folder_position.
     rbind (decode_name_cursor E S document_cursor (listing_scope user wid fid (lit ''document''))) (\<lambda>document_position.
     rbind (child_folders db wid fid folder_position (limit + 1)) (\<lambda>folder_rows.
     rbind (child_documents db wid fid document_position (limit + 1)) (\<lambda>document_rows.
     rbind (next_cursor E S (listing_scope user wid fid (lit ''folder'')) (nat limit)
        (\<lambda>(f, b). name_position (fo_name f) (fo_id f)) folder_rows) (\<lambda>next_folder.
     rbind (next_cursor E S (listing_scope user wid fid (lit ''document'')) (nat limit)
        (\<lambda>(d, v). name_position (do_name d) (do_id d)) document_rows) (\<lambda>next_document.
       Inr \<lparr>lp_workspace = workspace, lp_folder = folder, lp_ancestors = path, lp_folders = take (nat limit) folder_rows,
         lp_documents = take (nat limit) document_rows, lp_next_folder = next_folder, lp_next_document = next_document\<rparr>)))))))))"

definition library_document :: "library_db \<Rightarrow> int \<Rightarrow> uuid \<Rightarrow> uuid \<Rightarrow> uuid \<Rightarrow> (document \<times> asset_version list) res" where
  "library_document db now user wid did =
     rbind (visible_workspace db now user wid) (\<lambda>_.
     rbind (document_for_workspace db wid did) (\<lambda>d.
       (case d of None \<Rightarrow> Inl resource_not_found | Some x \<Rightarrow> Inr x)))"

definition library_versions ::
  "cursor_env \<Rightarrow> library_service \<Rightarrow> library_db \<Rightarrow> int \<Rightarrow> uuid \<Rightarrow> uuid \<Rightarrow> uuid \<Rightarrow> pystr option \<Rightarrow> int option
     \<Rightarrow> (asset_version list \<times> pystr option) res" where
  "library_versions E S db now user wid did cursor requested =
     rbind (library_document db now user wid did) (\<lambda>_.
     rbind (page_limit S requested) (\<lambda>limit.
     rbind (decode_version_cursor E S cursor (version_scope user wid did)) (\<lambda>position.
     rbind (document_versions db did position (limit + 1)) (\<lambda>rows.
     rbind (next_cursor E S (version_scope user wid did) (nat limit) (\<lambda>v. version_position (av_number v) (av_id v)) rows) (\<lambda>next.
       Inr (take (nat limit) rows, next))))))"

end
