(* ===== verification/Browsing_Properties.thy ===== *)
theory Browsing_Properties
  imports Library_Browsing
begin

text \<open>
  What browsing promises: following the cursors shows every folder, document and version once and in
  order, a cursor serves only the reader and the listing it was issued for, and the path of a
  folder is always found.
\<close>

section \<open>Following cursors\<close>

text \<open>A client that asks for a page, then for the next with the cursor it got, at most \<open>n\<close> times.\<close>

fun pages :: "('c option \<Rightarrow> ('a list \<times> 'c option) res) \<Rightarrow> nat \<Rightarrow> 'c option \<Rightarrow> 'a list res" where
  "pages fetch 0 c = Inl (RuntimeError ''pages'')"
| "pages fetch (Suc n) c =
     rbind (fetch c) (\<lambda>(xs, next).
       (case next of None \<Rightarrow> Inr xs | Some d \<Rightarrow> rbind (pages fetch n (Some d)) (\<lambda>ys. Inr (xs @ ys))))"

lemma filter_beyond:
  assumes "sorted_wrt R (pre @ rest)" "pre \<noteq> []" "\<And>x y. R x y \<Longrightarrow> \<not> R y x"
  shows "filter (R (last pre)) (pre @ rest) = rest"
proof -
  obtain ps x where pre: "pre = ps @ [x]" using assms(2) by (metis rev_exhaust)
  have "\<forall>y\<in>set pre. \<not> R x y" using assms(1,3) unfolding pre by (auto simp: sorted_wrt_append)
  moreover have "\<forall>y\<in>set rest. R x y" using assms(1) unfolding pre by (auto simp: sorted_wrt_append)
  ultimately show ?thesis unfolding pre by (simp add: filter_empty_conv filter_id_conv)
qed

lemma pages_cover:
  assumes limit: "0 < l"
    and fetch: "\<And>pre rest c. rows = pre @ rest \<Longrightarrow> c = (if pre = [] then None else Some (cursor (last pre))) \<Longrightarrow>
      fetch c = Inr (take l rest, if length rest > l then Some (cursor (last (take l rest))) else None)"
  shows "rows = pre @ rest \<Longrightarrow> c = (if pre = [] then None else Some (cursor (last pre))) \<Longrightarrow> length rest < n \<Longrightarrow>
    pages fetch n c = Inr rest"
proof (induction n arbitrary: pre rest c)
  case (Suc n)
  show ?case
  proof (cases "length rest > l")
    case True
    let ?pre = "pre @ take l rest"
    have ne: "take l rest \<noteq> []" using True limit by auto
    have "rows = ?pre @ drop l rest" using Suc.prems(1) by simp
    moreover have "Some (cursor (last (take l rest))) = (if ?pre = [] then None else Some (cursor (last ?pre)))" using ne by simp
    moreover have "length (drop l rest) < n" using Suc.prems(3) limit True by simp
    ultimately have "pages fetch n (Some (cursor (last (take l rest)))) = Inr (drop l rest)" by (rule Suc.IH)
    with fetch [OF Suc.prems(1,2)] True show ?thesis by simp
  next
    case False
    with fetch [OF Suc.prems(1,2)] show ?thesis by simp
  qed
qed simp

lemma sort_key_strict:
  fixes key :: "'a \<Rightarrow> 'k::linorder"
  assumes "distinct (map key xs)"
  shows "sorted_wrt (\<lambda>x y. key x < key y) (sort_key key xs)"
proof -
  have "distinct (map key (sort_key key xs))" using assms by (metis distinct_map distinct_sort set_sort)
  then have "sorted_wrt (<) (map key (sort_key key xs))" by (simp add: strict_sorted_iff)
  then show ?thesis by (simp add: sorted_wrt_map)
qed

section \<open>Cursors of a listing\<close>

definition cursor_for :: "cursor_env \<Rightarrow> library_service \<Rightarrow> cursor_scope \<Rightarrow> (pystr \<times> json) list \<Rightarrow> pystr" where
  "cursor_for E S s position = signed_token E (sv_key S) (dumps_ascii (cursor_payload s position))"

text \<open>A position whose cursor fits the limit and is read back by the JSON reader.\<close>

definition cursor_works :: "cursor_env \<Rightarrow> library_service \<Rightarrow> cursor_scope \<Rightarrow> (pystr \<times> json) list \<Rightarrow> bool" where
  "cursor_works E S s position \<longleftrightarrow>
     reads_back E (cursor_payload s position) \<and> (\<exists>c. encode_cursor E S s position = Inr c)"

lemma cursor_works_encode: "cursor_works E S s position \<Longrightarrow> encode_cursor E S s position = Inr (cursor_for E S s position)"
  by (auto simp: cursor_works_def encode_cursor_Inr cursor_for_def)

lemma cursor_for_opens:
  assumes "hmac_gives_bytes E" "scope_ok s" "cursor_works E S s position"
  shows "decode_cursor E S (cursor_for E S s position) s = Inr (json_members position)"
  using decode_issued [OF assms(1) cursor_works_encode [OF assms(3)] _ assms(2,2)] assms(3) by (simp add: cursor_works_def)

lemma name_cursor_back:
  assumes "hmac_gives_bytes E" "scope_ok s" "cursor_works E S s (name_position n i)" "uuid_ok i"
  shows "decode_name_cursor E S (Some (cursor_for E S s (name_position n i))) s = Inr (Some (n, i))"
  unfolding decode_name_cursor_def option.case cursor_for_opens [OF assms(1-3)] rbind_simps
  using parse_uuid_text [OF assms(4)] by (simp add: name_position_def cursor_identifier_def insert_commute)

lemma version_cursor_back:
  assumes "hmac_gives_bytes E" "scope_ok s" "cursor_works E S s (version_position n i)" "uuid_ok i" "1 \<le> n"
  shows "decode_version_cursor E S (Some (cursor_for E S s (version_position n i))) s = Inr (Some (n, i))"
  unfolding decode_version_cursor_def option.case cursor_for_opens [OF assms(1-3)] rbind_simps
  using parse_uuid_text [OF assms(4)] assms(5) by (simp add: version_position_def cursor_identifier_def insert_commute)

lemma next_cursor_page:
  assumes "\<forall>x\<in>set rest. cursor_works E S s (position x)" "0 < l"
  shows "next_cursor E S s l position (take (Suc l) rest)
    = Inr (if length rest > l then Some (cursor_for E S s (position (last (take l rest)))) else None)"
proof (cases "length rest > l")
  case True
  then have "take l rest \<noteq> []" using assms(2) by auto
  then have "last (take l rest) \<in> set rest" by (meson in_set_takeD last_in_set)
  with assms(1) have "encode_cursor E S s (position (last (take l rest))) = Inr (cursor_for E S s (position (last (take l rest))))"
    by (intro cursor_works_encode) blast
  with True \<open>take l rest \<noteq> []\<close> show ?thesis by (simp add: next_cursor_def)
qed (simp add: next_cursor_def)

lemma decode_name_cursor_None [simp]: "decode_name_cursor E S None s = Inr None"
  by (simp add: decode_name_cursor_def)

lemma browse_first:
  assumes "browse E S db now user wid fid None None requested = Inr p"
  obtains w l fp frows drows nf nd where "visible_workspace db now user wid = Inr w" "page_limit S requested = Inr l"
    "folder_path db S wid fid = Inr fp" "child_folders db wid fid None (l + 1) = Inr frows"
    "child_documents db wid fid None (l + 1) = Inr drows"
    "next_cursor E S (listing_scope user wid fid (lit ''folder'')) (nat l) (\<lambda>x. name_position (fo_name (fst x)) (fo_id (fst x))) frows = Inr nf"
    "next_cursor E S (listing_scope user wid fid (lit ''document'')) (nat l) (\<lambda>x. name_position (do_name (fst x)) (do_id (fst x))) drows = Inr nd"
    "1 \<le> l"
proof -
  have l: "1 \<le> l" if "page_limit S requested = Inr l" for l
    using that by (auto simp: page_limit_def Let_def split: if_splits)
  show thesis
    using assms unfolding browse_def decode_name_cursor_None rbind_simps rbind_eq_Inr case_prod_beta
    by (elim exE conjE) (rule that, assumption+, rule l, assumption)
qed

lemma browse_parts:
  assumes "browse E S db now user wid fid fc dc requested = Inr p"
  obtains w l fp fpos dpos frows drows where "visible_workspace db now user wid = Inr w" "page_limit S requested = Inr l"
    "child_folders db wid fid fpos (l + 1) = Inr frows" "child_documents db wid fid dpos (l + 1) = Inr drows"
    "folder_path db S wid fid = Inr fp" "lp_folder p = fst fp" "lp_ancestors p = snd fp"
    "lp_folders p = take (nat l) frows" "lp_documents p = take (nat l) drows"
proof -
  from assms obtain w l fp fpos dpos frows drows nf nd where *: "visible_workspace db now user wid = Inr w" "page_limit S requested = Inr l"
    "folder_path db S wid fid = Inr fp" "child_folders db wid fid fpos (l + 1) = Inr frows" "child_documents db wid fid dpos (l + 1) = Inr drows"
    "Inr \<lparr>lp_workspace = w, lp_folder = fst fp, lp_ancestors = snd fp, lp_folders = take (nat l) frows,
       lp_documents = take (nat l) drows, lp_next_folder = nf, lp_next_document = nd\<rparr> = (Inr p :: library_page res)"
    unfolding browse_def rbind_eq_Inr case_prod_beta by (elim exE conjE) (rule that)
  from *(6) have "p = \<lparr>lp_workspace = w, lp_folder = fst fp, lp_ancestors = snd fp, lp_folders = take (nat l) frows,
       lp_documents = take (nat l) drows, lp_next_folder = nf, lp_next_document = nd\<rparr>" by simp
  with that [OF *(1,2,4,5,3)] show thesis by simp
qed

section \<open>Folders\<close>

definition folder_rows :: "library_db \<Rightarrow> uuid \<Rightarrow> uuid option \<Rightarrow> (folder \<times> bool) list" where
  "folder_rows db wid fid =
     map (\<lambda>f. (f, list_ex (\<lambda>c. fo_workspace c = wid \<and> fo_parent c = Some (fo_id f)) (lb_folders db)))
       (sort_key (\<lambda>f. (fo_name f, fo_id f)) (filter (\<lambda>f. fo_workspace f = wid \<and> fo_parent f = fid) (lb_folders db)))"

abbreviation folder_key :: "folder \<times> bool \<Rightarrow> pystr \<times> uuid" where
  "folder_key x \<equiv> (fo_name (fst x), fo_id (fst x))"

lemma name_after_less: "name_after (Some (n, j)) name i \<longleftrightarrow> (n, j) < (name, i)"
  by (auto simp: name_after_def)

lemma child_folders_rows:
  assumes "1 \<le> limit"
  shows "child_folders db wid fid cursor limit
    = Inr (take (nat limit) (filter (\<lambda>x. name_after cursor (fo_name (fst x)) (fo_id (fst x))) (folder_rows db wid fid)))"
  using assms
  by (simp add: child_folders_def folder_rows_def filter_map comp_def filter_sort conj_assoc)

lemma folder_rows_in:
  "x \<in> set (folder_rows db wid fid) \<Longrightarrow> fst x \<in> set (lb_folders db) \<and> fo_workspace (fst x) = wid \<and> fo_parent (fst x) = fid"
  by (auto simp: folder_rows_def)

lemma folder_rows_strict:
  assumes "tables_ok db"
  shows "sorted_wrt (\<lambda>x y. folder_key x < folder_key y) (folder_rows db wid fid)"
proof -
  let ?fs = "filter (\<lambda>f. fo_workspace f = wid \<and> fo_parent f = fid) (lb_folders db)"
  have "distinct (map fo_id ?fs)" using assms by (simp add: tables_ok_def keyed_def distinct_map_filter)
  then have "distinct (map (\<lambda>f. (fo_name f, fo_id f)) ?fs)" by (auto simp: distinct_map inj_on_def)
  from sort_key_strict [OF this] show ?thesis by (simp add: folder_rows_def sorted_wrt_map)
qed

lemma rows_after:
  fixes key :: "'a \<Rightarrow> pystr \<times> uuid"
  assumes "sorted_wrt (\<lambda>x y. key x < key y) (pre @ rest)"
  shows "filter (\<lambda>x. name_after (if pre = [] then None else Some (key (last pre))) (fst (key x)) (snd (key x))) (pre @ rest) = rest"
proof (cases "pre = []")
  case False
  have "filter (\<lambda>x. key (last pre) < key x) (pre @ rest) = rest"
    by (rule filter_beyond [OF assms False]) auto
  moreover have "name_after (Some (key (last pre))) (fst (key x)) (snd (key x)) \<longleftrightarrow> key (last pre) < key x" for x
    using name_after_less [of "fst (key (last pre))" "snd (key (last pre))"] by simp
  ultimately show ?thesis using False by simp
qed (simp add: name_after_def)

lemma folder_pages:
  assumes db: "tables_ok db" and E: "hmac_gives_bytes E" "scope_ok (listing_scope user wid fid (lit ''folder''))"
    and first: "browse E S db now user wid fid None None requested = Inr p"
    and works: "\<forall>x\<in>set (folder_rows db wid fid). uuid_ok (fo_id (fst x))
      \<and> cursor_works E S (listing_scope user wid fid (lit ''folder'')) (name_position (fo_name (fst x)) (fo_id (fst x)))"
    and n: "length (folder_rows db wid fid) < n"
  shows "pages (\<lambda>c. rbind (browse E S db now user wid fid c None requested) (\<lambda>p. Inr (lp_folders p, lp_next_folder p))) n None
    = Inr (folder_rows db wid fid)"
proof -
  let ?s = "listing_scope user wid fid (lit ''folder'')" and ?rows = "folder_rows db wid fid"
  let ?cursor = "\<lambda>x. cursor_for E S ?s (name_position (fo_name (fst x)) (fo_id (fst x)))"
  from first obtain w l fp drows nd where *: "visible_workspace db now user wid = Inr w" "page_limit S requested = Inr l"
    "folder_path db S wid fid = Inr fp" "child_documents db wid fid None (l + 1) = Inr drows"
    "next_cursor E S (listing_scope user wid fid (lit ''document'')) (nat l) (\<lambda>x. name_position (do_name (fst x)) (do_id (fst x))) drows = Inr nd"
    and l: "1 \<le> l"
    by (rule browse_first)
  have "pages (\<lambda>c. rbind (browse E S db now user wid fid c None requested) (\<lambda>p. Inr (lp_folders p, lp_next_folder p))) n None
    = Inr ?rows"
  proof (rule pages_cover [where l = "nat l" and cursor = ?cursor and pre = "[]" and rows = ?rows])
    fix pre rest c
    assume rows: "?rows = pre @ rest" and c: "c = (if pre = [] then None else Some (?cursor (last pre)))"
    have dec: "decode_name_cursor E S c ?s = Inr (if pre = [] then None else Some (folder_key (last pre)))"
    proof (cases "pre = []")
      case False
      with rows works have "uuid_ok (fo_id (fst (last pre)))" "cursor_works E S ?s (name_position (fo_name (fst (last pre))) (fo_id (fst (last pre))))"
        by auto
      from name_cursor_back [OF E this(2,1)] False c show ?thesis by simp
    qed (simp add: c)
    have after: "filter (\<lambda>x. name_after (if pre = [] then None else Some (folder_key (last pre))) (fo_name (fst x)) (fo_id (fst x))) ?rows = rest"
      using rows_after [of folder_key pre rest] folder_rows_strict [OF db, of wid fid] by (simp only: rows fst_conv snd_conv)
    have "nat (l + 1) = Suc (nat l)" using l by simp
    with l after have child: "child_folders db wid fid (if pre = [] then None else Some (folder_key (last pre))) (l + 1) = Inr (take (Suc (nat l)) rest)"
      by (simp add: child_folders_rows)
    have works': "\<forall>x\<in>set rest. cursor_works E S ?s (name_position (fo_name (fst x)) (fo_id (fst x)))"
      using works rows by (auto simp: case_prod_beta)
    have nxt: "next_cursor E S ?s (nat l) (\<lambda>x. name_position (fo_name (fst x)) (fo_id (fst x))) (take (Suc (nat l)) rest)
      = Inr (if length rest > nat l then Some (?cursor (last (take (nat l) rest))) else None)"
      by (subst next_cursor_page [OF works']) (use l in \<open>simp_all add: case_prod_beta\<close>)
    show "rbind (browse E S db now user wid fid c None requested) (\<lambda>p. Inr (lp_folders p, lp_next_folder p))
      = Inr (take (nat l) rest, if nat l < length rest then Some (?cursor (last (take (nat l) rest))) else None)"
      unfolding browse_def case_prod_beta * decode_name_cursor_None dec rbind_simps child nxt by simp
  qed (use l n in simp_all)
  then show ?thesis .
qed

section \<open>Documents\<close>

definition document_rows :: "library_db \<Rightarrow> uuid \<Rightarrow> uuid option \<Rightarrow> (document \<times> asset_version list) list" where
  "document_rows db wid fid =
     sort_key (\<lambda>(d, v). (do_name d, do_id d)) (filter (\<lambda>(d, v). do_folder d = fid)
       (concat (map (\<lambda>d. map (\<lambda>v. (d, [v])) (latest_versions db d)) (filter (\<lambda>d. do_workspace d = wid) (lb_documents db)))))"

abbreviation document_key :: "document \<times> asset_version list \<Rightarrow> pystr \<times> uuid" where
  "document_key x \<equiv> (do_name (fst x), do_id (fst x))"

lemma child_documents_rows:
  assumes "1 \<le> limit"
  shows "child_documents db wid fid cursor limit
    = Inr (take (nat limit) (filter (\<lambda>x. name_after cursor (do_name (fst x)) (do_id (fst x))) (document_rows db wid fid)))"
  using assms
  by (simp add: child_documents_def library_documents_def document_rows_def filter_sort case_prod_beta)
    (simp add: case_prod_unfold)

lemma latest_versions_one:
  assumes "tables_ok db"
  shows "length (latest_versions db d) \<le> 1"
proof -
  let ?vs = "latest_versions db d"
  have k: "distinct (map (\<lambda>v. (av_document v, av_number v)) (lb_versions db))" using assms by (simp add: tables_ok_def keyed_def)
  then have "distinct (map (\<lambda>v. (av_document v, av_number v)) ?vs)" by (simp add: latest_versions_def distinct_map_filter)
  then have "distinct ?vs" "inj_on (\<lambda>v. (av_document v, av_number v)) (set ?vs)" by (simp_all add: distinct_map)
  moreover have "u = v" if "u \<in> set ?vs" "v \<in> set ?vs" for u v
  proof -
    have "av_document u = av_document v" "av_number u = av_number v"
      using that by (auto simp: latest_versions_def list_all_iff intro: antisym)
    with that \<open>inj_on _ _\<close> show ?thesis by (auto dest: inj_onD)
  qed
  ultimately show ?thesis
    by (metis (no_types, lifting) card_le_Suc0_iff_eq distinct_card List.finite_set One_nat_def)
qed

lemma distinct_joined:
  assumes "\<And>d. length (g d) \<le> 1" "distinct (map key ds)"
  shows "distinct (map (\<lambda>x. key (fst x)) (concat (map (\<lambda>d. map (Pair d) (g d)) ds)))"
  using assms(2)
proof (induction ds)
  case (Cons d ds)
  have "set (map (\<lambda>x. key (fst x)) (concat (map (\<lambda>d. map (Pair d) (g d)) ds))) \<subseteq> key ` set ds" by auto
  moreover from assms(1) [of d] have "g d = [] \<or> (\<exists>v. g d = [v])" by (cases "g d") auto
  ultimately show ?case using Cons by auto
qed simp

lemma document_rows_in:
  "x \<in> set (document_rows db wid fid) \<Longrightarrow> fst x \<in> set (lb_documents db) \<and> do_workspace (fst x) = wid \<and> do_folder (fst x) = fid"
  by (auto simp: document_rows_def)

lemma document_rows_strict:
  assumes "tables_ok db"
  shows "sorted_wrt (\<lambda>x y. document_key x < document_key y) (document_rows db wid fid)"
proof -
  let ?ds = "filter (\<lambda>d. do_workspace d = wid) (lb_documents db)"
  let ?xs = "concat (map (\<lambda>d. map (Pair d) (map (\<lambda>v. [v]) (latest_versions db d))) ?ds)"
  have "distinct (map do_id ?ds)" using assms by (simp add: tables_ok_def keyed_def distinct_map_filter)
  have "distinct (map (\<lambda>x. do_id (fst x)) ?xs)"
    by (rule distinct_joined) (simp only: length_map, rule latest_versions_one [OF assms], rule \<open>distinct (map do_id ?ds)\<close>)
  then have "distinct (map (\<lambda>x. do_id (fst x)) (filter (\<lambda>x. do_folder (fst x) = fid) ?xs))" by (rule distinct_map_filter)
  then have d: "distinct (map document_key (filter (\<lambda>x. do_folder (fst x) = fid) ?xs))"
    unfolding distinct_map inj_on_def by blast
  show ?thesis
    unfolding document_rows_def case_prod_unfold using sort_key_strict [OF d] by (simp only: map_map comp_def)
qed

lemma document_pages:
  assumes db: "tables_ok db" and E: "hmac_gives_bytes E" "scope_ok (listing_scope user wid fid (lit ''document''))"
    and first: "browse E S db now user wid fid None None requested = Inr p"
    and works: "\<forall>x\<in>set (document_rows db wid fid). uuid_ok (do_id (fst x))
      \<and> cursor_works E S (listing_scope user wid fid (lit ''document'')) (name_position (do_name (fst x)) (do_id (fst x)))"
    and n: "length (document_rows db wid fid) < n"
  shows "pages (\<lambda>c. rbind (browse E S db now user wid fid None c requested) (\<lambda>p. Inr (lp_documents p, lp_next_document p))) n None
    = Inr (document_rows db wid fid)"
proof -
  let ?s = "listing_scope user wid fid (lit ''document'')" and ?rows = "document_rows db wid fid"
  let ?cursor = "\<lambda>x. cursor_for E S ?s (name_position (do_name (fst x)) (do_id (fst x)))"
  from first obtain w l fp frows nf where *: "visible_workspace db now user wid = Inr w" "page_limit S requested = Inr l"
    "folder_path db S wid fid = Inr fp" "child_folders db wid fid None (l + 1) = Inr frows"
    "next_cursor E S (listing_scope user wid fid (lit ''folder'')) (nat l) (\<lambda>x. name_position (fo_name (fst x)) (fo_id (fst x))) frows = Inr nf"
    and l: "1 \<le> l"
    by (rule browse_first)
  have "pages (\<lambda>c. rbind (browse E S db now user wid fid None c requested) (\<lambda>p. Inr (lp_documents p, lp_next_document p))) n None
    = Inr ?rows"
  proof (rule pages_cover [where l = "nat l" and cursor = ?cursor and pre = "[]" and rows = ?rows])
    fix pre rest c
    assume rows: "?rows = pre @ rest" and c: "c = (if pre = [] then None else Some (?cursor (last pre)))"
    have dec: "decode_name_cursor E S c ?s = Inr (if pre = [] then None else Some (document_key (last pre)))"
    proof (cases "pre = []")
      case False
      with rows works have "uuid_ok (do_id (fst (last pre)))" "cursor_works E S ?s (name_position (do_name (fst (last pre))) (do_id (fst (last pre))))"
        by auto
      from name_cursor_back [OF E this(2,1)] False c show ?thesis by simp
    qed (simp add: c)
    have after: "filter (\<lambda>x. name_after (if pre = [] then None else Some (document_key (last pre))) (do_name (fst x)) (do_id (fst x))) ?rows = rest"
      using rows_after [of document_key pre rest] document_rows_strict [OF db, of wid fid] by (simp only: rows fst_conv snd_conv)
    have "nat (l + 1) = Suc (nat l)" using l by simp
    with l after have child: "child_documents db wid fid (if pre = [] then None else Some (document_key (last pre))) (l + 1) = Inr (take (Suc (nat l)) rest)"
      by (simp add: child_documents_rows)
    have works': "\<forall>x\<in>set rest. cursor_works E S ?s (name_position (do_name (fst x)) (do_id (fst x)))"
      using works rows by (auto simp: case_prod_beta)
    have nxt: "next_cursor E S ?s (nat l) (\<lambda>x. name_position (do_name (fst x)) (do_id (fst x))) (take (Suc (nat l)) rest)
      = Inr (if length rest > nat l then Some (?cursor (last (take (nat l) rest))) else None)"
      by (subst next_cursor_page [OF works']) (use l in \<open>simp_all add: case_prod_beta\<close>)
    show "rbind (browse E S db now user wid fid None c requested) (\<lambda>p. Inr (lp_documents p, lp_next_document p))
      = Inr (take (nat l) rest, if nat l < length rest then Some (?cursor (last (take (nat l) rest))) else None)"
      unfolding browse_def case_prod_beta * decode_name_cursor_None dec rbind_simps child nxt by simp
  qed (use l n in simp_all)
  then show ?thesis .
qed

section \<open>Versions\<close>

definition version_rows :: "library_db \<Rightarrow> uuid \<Rightarrow> asset_version list" where
  "version_rows db did = rev (sort_key (\<lambda>v. (av_number v, av_id v)) (filter (\<lambda>v. av_document v = did) (lb_versions db)))"

abbreviation version_key :: "asset_version \<Rightarrow> int \<times> uuid" where
  "version_key v \<equiv> (av_number v, av_id v)"

lemma document_versions_rows:
  assumes "1 \<le> limit"
  shows "document_versions db did cursor limit
    = Inr (take (nat limit) (filter (\<lambda>v. number_before cursor (av_number v) (av_id v)) (version_rows db did)))"
  using assms by (simp add: document_versions_def version_rows_def rev_filter [symmetric] filter_sort conj_commute)

lemma version_rows_strict:
  assumes "tables_ok db"
  shows "sorted_wrt (\<lambda>x y. version_key y < version_key x) (version_rows db did)"
proof -
  let ?vs = "filter (\<lambda>v. av_document v = did) (lb_versions db)"
  have "distinct (map av_id ?vs)" using assms by (simp add: tables_ok_def keyed_def distinct_map_filter)
  then have d: "distinct (map version_key ?vs)" unfolding distinct_map inj_on_def by blast
  show ?thesis using sort_key_strict [OF d] by (simp add: version_rows_def sorted_wrt_rev)
qed

lemma version_rows_after:
  assumes "sorted_wrt (\<lambda>x y. version_key y < version_key x) (pre @ rest)"
  shows "filter (\<lambda>v. number_before (if pre = [] then None else Some (version_key (last pre))) (av_number v) (av_id v)) (pre @ rest) = rest"
proof (cases "pre = []")
  case False
  have "filter (\<lambda>v. version_key v < version_key (last pre)) (pre @ rest) = rest"
    by (rule filter_beyond [OF assms False]) auto
  moreover have "number_before (Some (version_key (last pre))) (av_number v) (av_id v) \<longleftrightarrow> version_key v < version_key (last pre)" for v
    by (auto simp: number_before_def)
  ultimately show ?thesis using False by simp
qed (simp add: number_before_def)

lemma version_pages:
  assumes db: "tables_ok db" "\<forall>v\<in>set (version_rows db did). 1 \<le> av_number v"
    and E: "hmac_gives_bytes E" "scope_ok (version_scope user wid did)"
    and first: "library_versions E S db now user wid did None requested = Inr p"
    and works: "\<forall>v\<in>set (version_rows db did). uuid_ok (av_id v)
      \<and> cursor_works E S (version_scope user wid did) (version_position (av_number v) (av_id v))"
    and n: "length (version_rows db did) < n"
  shows "pages (\<lambda>c. library_versions E S db now user wid did c requested) n None = Inr (version_rows db did)"
proof -
  let ?s = "version_scope user wid did" and ?rows = "version_rows db did"
  let ?cursor = "\<lambda>v. cursor_for E S ?s (version_position (av_number v) (av_id v))"
  from first obtain d l where *: "library_document db now user wid did = Inr d" "page_limit S requested = Inr l"
    unfolding library_versions_def rbind_eq_Inr by blast
  from *(2) have l: "1 \<le> l" by (auto simp: page_limit_def Let_def split: if_splits)
  show ?thesis
  proof (rule pages_cover [where l = "nat l" and cursor = ?cursor and pre = "[]" and rows = ?rows])
    fix pre rest c
    assume rows: "?rows = pre @ rest" and c: "c = (if pre = [] then None else Some (?cursor (last pre)))"
    have dec: "decode_version_cursor E S c ?s = Inr (if pre = [] then None else Some (version_key (last pre)))"
    proof (cases "pre = []")
      case False
      with rows works db(2) have "uuid_ok (av_id (last pre))" "1 \<le> av_number (last pre)"
        "cursor_works E S ?s (version_position (av_number (last pre)) (av_id (last pre)))" by auto
      from version_cursor_back [OF E this(3,1,2)] False c show ?thesis by simp
    qed (simp add: c decode_version_cursor_def)
    have after: "filter (\<lambda>v. number_before (if pre = [] then None else Some (version_key (last pre))) (av_number v) (av_id v)) ?rows = rest"
      using version_rows_after [of pre rest] version_rows_strict [OF db(1), of did] by (simp only: rows)
    have "nat (l + 1) = Suc (nat l)" using l by simp
    with l after have child: "document_versions db did (if pre = [] then None else Some (version_key (last pre))) (l + 1) = Inr (take (Suc (nat l)) rest)"
      by (simp add: document_versions_rows)
    have works': "\<forall>v\<in>set rest. cursor_works E S ?s (version_position (av_number v) (av_id v))" using works rows by simp
    have nxt: "next_cursor E S ?s (nat l) (\<lambda>v. version_position (av_number v) (av_id v)) (take (Suc (nat l)) rest)
      = Inr (if length rest > nat l then Some (?cursor (last (take (nat l) rest))) else None)"
      by (rule next_cursor_page [OF works']) (use l in simp)
    show "library_versions E S db now user wid did c requested
      = Inr (take (nat l) rest, if nat l < length rest then Some (?cursor (last (take (nat l) rest))) else None)"
      unfolding library_versions_def * dec rbind_simps child nxt by simp
  qed (use l n in simp_all)
qed

section \<open>The path of a folder\<close>

text \<open>Each folder lies in the one before it.\<close>

fun leads_to :: "uuid option \<Rightarrow> folder list \<Rightarrow> uuid option \<Rightarrow> bool" where
  "leads_to p [] q \<longleftrightarrow> p = q"
| "leads_to p (f # fs) q \<longleftrightarrow> fo_parent f = p \<and> leads_to (Some (fo_id f)) fs q"

lemma leads_to_snoc: "leads_to p (fs @ [f]) q \<longleftrightarrow> leads_to p fs (fo_parent f) \<and> q = Some (fo_id f)"
  by (induction fs arbitrary: p) auto

lemma folder_for_workspace_row: "folder_for_workspace db wid i = row_by fo_id i (folders_in db wid)"
proof -
  have "find (\<lambda>f. P f \<and> Q f) fs = find Q (filter P fs)" for P Q and fs :: "folder list" by (induction fs) auto
  then show ?thesis by (simp add: folder_for_workspace_def folders_in_def row_by_def)
qed

lemma ancestors_from_level:
  assumes "at_level (folders_in db wid) x k" "int (length found) + int k < md"
    "\<forall>s\<in>set seen. \<exists>m>k. at_level (folders_in db wid) (Some s) m"
  shows "\<exists>path. ancestors_from db md wid seen found x = Inr (path @ found) \<and> length path = k \<and> leads_to None path x
    \<and> set path \<subseteq> set (folders_in db wid)"
  using assms
proof (induction arbitrary: found seen rule: at_level.induct)
  case (below i f n)
  let ?fs = "folders_in db wid"
  have lev: "at_level ?fs (Some i) (Suc n)" by (rule at_level.below [OF below.hyps])
  have f: "f \<in> set ?fs" "fo_id f = i" using row_by_SomeD [OF below.hyps(1)] by simp_all
  have "fo_id f \<notin> set seen"
  proof
    assume "fo_id f \<in> set seen"
    with below.prems(2) f obtain m where "m > Suc n" "at_level ?fs (Some i) m" by blast
    with at_level_unique [OF lev] show False by simp
  qed
  moreover have "\<forall>s\<in>set (fo_id f # seen). \<exists>m>n. at_level ?fs (Some s) m"
    using below.prems(2) lev f(2) by (auto intro: Suc_lessD)
  with below.IH [of "f # found" "fo_id f # seen"] below.prems(1) obtain path where
    "ancestors_from db md wid (fo_id f # seen) (f # found) (fo_parent f) = Inr (path @ f # found)" "length path = n"
    "leads_to None path (fo_parent f)" "set path \<subseteq> set ?fs" by auto
  ultimately show ?case
    using below.prems(1) below.hyps(1) f by (intro exI [of _ "path @ [f]"]) (simp add: folder_for_workspace_row leads_to_snoc)
qed simp

lemma folder_path_found:
  assumes "folders_ok md db" "f \<in> set (lb_folders db)" "sv_max_depth S = int md"
  shows "\<exists>path. folder_path db S (fo_workspace f) (Some (fo_id f)) = Inr (Some f, path) \<and> leads_to None path (fo_parent f)
    \<and> length path < md \<and> set path \<subseteq> set (folders_in db (fo_workspace f))"
proof -
  let ?fs = "folders_in db (fo_workspace f)"
  have h: "hierarchy_ok ?fs md" using assms(1) by (simp add: folders_ok_def)
  have f: "f \<in> set ?fs" using assms(2) by (simp add: folders_in_def)
  with h have row: "row_by fo_id (fo_id f) ?fs = Some f" by (simp add: row_by_Some_iff hierarchy_ok_def)
  from h f obtain n where "n \<le> md" "at_level ?fs (Some (fo_id f)) n" unfolding hierarchy_ok_def folder_depth_iff by blast
  with row obtain k where k: "at_level ?fs (fo_parent f) k" "Suc k \<le> md" "at_level ?fs (Some (fo_id f)) (Suc k)"
    unfolding at_level_Some by (auto intro: at_level.below)
  have "\<exists>path. ancestors db (int md) (fo_workspace f) f = Inr path \<and> length path = k \<and> leads_to None path (fo_parent f) \<and> set path \<subseteq> set ?fs"
    using ancestors_from_level [OF k(1), of "[]" "int md" "[fo_id f]"] k(2,3) by (auto simp: ancestors_def)
  with row k(2) assms(3) show ?thesis by (auto simp: folder_path_def folder_for_workspace_row)
qed

lemma workspace_for_user_access: "workspace_for_user db now user wid = Some w \<Longrightarrow> has_workspace_access db now user wid \<and> wr_id w = wid"
  unfolding workspace_for_user_def has_workspace_access_def find_Some_iff list_ex_iff by (metis nth_mem)

section \<open>The length of a cursor\<close>

lemma length_name_payload:
  assumes "kind = lit ''folder'' \<or> kind = lit ''document''"
  shows "length (dumps_ascii (cursor_payload (listing_scope user wid fid kind) (name_position name i)))
    = length (json_str_ascii name) + (if fid = None then 4 else 38) + length kind + 222"
  using assms
  by (auto simp: cursor_payload_def listing_scope_def name_position_def scope_members_def optional_text_def json_str_ascii_plain dec_int_def
      dec_nat.simps split: option.splits)

lemma name_cursor_fits:
  assumes "\<forall>k b. length (ce_hmac E k b) = 32" "sv_cursor_max S = 4096" "kind = lit ''folder'' \<or> kind = lit ''document''"
    and "length name \<le> 180"
  shows "\<exists>c. encode_cursor E S (listing_scope user wid fid kind) (name_position name i) = Inr c"
proof -
  have kind: "length kind \<le> 8" using assms(3) by auto
  have "length (json_str_ascii name) \<le> 12 * length name + 2"
    by (rule length_json_str_ascii) (simp add: length_json_esc_ascii)
  then have "length (dumps_ascii (cursor_payload (listing_scope user wid fid kind) (name_position name i))) \<le> 2430"
    using assms(4) kind length_name_payload [OF assms(3), of user wid fid name i] by (simp split: if_splits)
  moreover have "(4 * m + 2) div 3 + 44 \<le> 4096" if "m \<le> 2430" for m :: nat using that by presburger
  ultimately show ?thesis using assms(1,2) by (simp add: encode_cursor_Inr length_token)
qed

text \<open>
  C26.  A name of a folder always fits its cursor, a name of a document need not.  With the configured limit
  of 4096 characters and a digest of 32 bytes, the cursor after any name of at most 180
  characters, as folders have, can be issued; after a document with the longest name its column
  allows, 255 characters outside the basic plane, it is refused, and with it the whole page.
\<close>

theorem name_cursors_fit:
  assumes "\<forall>k b. length (ce_hmac E k b) = 32" "sv_cursor_max S = 4096" "kind = lit ''folder'' \<or> kind = lit ''document''"
  shows "(\<forall>name i. length name \<le> 180 \<longrightarrow> (\<exists>c. encode_cursor E S (listing_scope user wid fid kind) (name_position name i) = Inr c))
    \<and> encode_cursor E S (listing_scope user wid fid kind) (name_position (replicate 255 128512) i) = Inl invalid_library_request"
proof -
  let ?payload = "\<lambda>name i. dumps_ascii (cursor_payload (listing_scope user wid fid kind) (name_position name i))"
  have token: "length (signed_token E (sv_key S) p) = (4 * length p + 2) div 3 + 44" for p
    using assms(1) by (simp add: length_token)
  have enc: "encode_cursor E S (listing_scope user wid fid kind) (name_position name i) =
      (if (4 * length (?payload name i) + 2) div 3 + 44 > 4096 then Inl invalid_library_request
       else Inr (signed_token E (sv_key S) (?payload name i)))" for name i
    by (simp add: encode_cursor_def utf8_ascii_id [OF is_ascii_dumps(1)] Let_def token assms(2))
  have kind: "length kind \<le> 8" "6 \<le> length kind" using assms(3) by auto
  have "\<exists>c. encode_cursor E S (listing_scope user wid fid kind) (name_position name i) = Inr c" if "length name \<le> 180" for name i
    by (rule name_cursor_fits [OF assms that])
  moreover have "length (json_str_ascii (replicate n 128512)) = 12 * n + 2" for n
    by (induction n) (simp_all add: json_str_ascii_def json_esc_ascii_def hex4_def)
  then have "length (?payload (replicate 255 128512) i) \<ge> 3294"
    using kind length_name_payload [OF assms(3), of user wid fid "replicate 255 128512" i] by (simp split: if_splits)
  then have "(4 * length (?payload (replicate 255 128512) i) + 2) div 3 + 44 > 4096" by presburger
  then have "encode_cursor E S (listing_scope user wid fid kind) (name_position (replicate 255 128512) i) = Inl invalid_library_request"
    unfolding enc by simp
  ultimately show ?thesis by blast
qed

section \<open>A library to browse\<close>

text \<open>Two folders in the root, one of them with a folder inside, created one after the other.\<close>

definition browsed_library :: library_db where
  "browsed_library = demo_library\<lparr>lb_folders := demo_folders\<rparr>"

lemma demo_folder_created:
  assumes "n < 3"
  shows "create_folder (demo_library\<lparr>lb_folders := take n demo_folders\<rparr>) 0 3 (UUID 11) (UUID 10) (fo_parent (demo_folders ! n))
      (fo_name (demo_folders ! n)) (fo_id (demo_folders ! n))
    = Inr (demo_library\<lparr>lb_folders := take (Suc n) demo_folders\<rparr>, demo_folders ! n)"
proof -
  have access: "has_workspace_access (demo_library\<lparr>lb_folders := fs\<rparr>) 0 (UUID 11) (UUID 10)" for fs
    by (simp add: has_workspace_access_def demo_library_def demo_ws_def workspace_read_allowed_def workspace_is_active_def
        workspace_personal_owner_matches_def)
  have can_write: "require_workspace_write (lb_ws demo_library) 0 (UUID 11) (UUID 10) = Inr ()" "lb_inactive demo_library = []"
    using demo_library_write [of 0] by (simp_all add: demo_library_def)
  consider "n = 0" | "n = 1" | "n = 2" using assms by linarith
  then show ?thesis
    by cases (simp_all add: create_folder_def can_write list_folders_def access demo_folders_def folder_name_key_def folder_name_whitespace_def
        require_destination_def folder_belongs_to_def validate_create_def folder_dict_def folder_depth_def check_depth_def
        folder_name_exists_def add_folder_def Let_def numeral_2_eq_2)
qed

lemma browsed_history:
  "library_history demo_library_env 10 3 [(browsed_library, Map.empty), (demo_library\<lparr>lb_folders := take 2 demo_folders\<rparr>, Map.empty),
     (demo_library\<lparr>lb_folders := take 1 demo_folders\<rparr>, Map.empty), (demo_library\<lparr>lb_folders := take 0 demo_folders\<rparr>, Map.empty)]"
proof -
  have "browsed_library = demo_library\<lparr>lb_folders := take 3 demo_folders\<rparr>" by (simp add: browsed_library_def demo_folders_def)
  then have step: "library_history demo_library_env 10 3 ((demo_library\<lparr>lb_folders := take n demo_folders\<rparr>, Map.empty) # h) \<Longrightarrow> n < 3 \<Longrightarrow>
      library_history demo_library_env 10 3 ((demo_library\<lparr>lb_folders := take (Suc n) demo_folders\<rparr>, Map.empty)
        # (demo_library\<lparr>lb_folders := take n demo_folders\<rparr>, Map.empty) # h)" for n h
    by (intro library_history.creating_folder [OF _ demo_folder_created])
  have "library_history demo_library_env 10 3 [(demo_library\<lparr>lb_folders := take 0 demo_folders\<rparr>, Map.empty)]"
    by (rule library_history.start) (simp_all add: demo_library_def)
  from step [OF step [OF step [OF this]]] show ?thesis
    by (simp add: browsed_library_def demo_folders_def numeral_2_eq_2)
qed

definition browse_folder_position :: "folder \<Rightarrow> (pystr \<times> json) list" where
  "browse_folder_position f = name_position (fo_name f) (fo_id f)"

definition browse_scope :: cursor_scope where
  "browse_scope = listing_scope (UUID 11) (UUID 10) None (lit ''folder'')"

text \<open>A reader that knows the one payload the run below writes.\<close>

definition browse_env :: cursor_env where
  "browse_env = \<lparr>ce_hmac = (\<lambda>k b. replicate 32 0),
     ce_loads = (\<lambda>b. Inr (json_value (cursor_payload browse_scope
       (if b = dumps_ascii (cursor_payload browse_scope (name_position [65] (UUID 21))) then name_position [65] (UUID 21)
        else name_position [67] (UUID 23)))))\<rparr>"

definition browse_service :: library_service where
  "browse_service = \<lparr>sv_default = 1, sv_max_page = 200, sv_max_depth = 3, sv_cursor_max = 4096, sv_key = [7]\<rparr>"

lemma browse_env_gives_bytes: "hmac_gives_bytes browse_env"
  by (simp add: hmac_gives_bytes_def browse_env_def is_byte_def list_all_iff)

lemma browse_scope_ok: "scope_ok browse_scope"
  by (simp add: browse_scope_def listing_scope_def scope_ok_def uuid_ok_def)

lemma browse_limits: "\<forall>k b. length (ce_hmac browse_env k b) = 32" "sv_cursor_max browse_service = 4096"
  by (simp_all add: browse_env_def browse_service_def)

lemma browse_cursors_work:
  "cursor_works browse_env browse_service browse_scope (name_position [65] (UUID 21))"
  "cursor_works browse_env browse_service browse_scope (name_position [67] (UUID 23))"
proof -
  have fits: "\<exists>c. encode_cursor browse_env browse_service browse_scope (name_position [a] i) = Inr c" for a i
    unfolding browse_scope_def by (rule name_cursor_fits [OF browse_limits]) simp_all
  show "cursor_works browse_env browse_service browse_scope (name_position [65] (UUID 21))"
    using fits by (simp add: cursor_works_def reads_back_def browse_env_def)
  have "uuid_text (UUID 21) \<noteq> uuid_text (UUID 23)" using uuid_text_inj [of "UUID 21" "UUID 23"] by (auto simp: uuid_ok_def)
  then have "dumps_ascii (cursor_payload browse_scope (name_position [67] (UUID 23)))
      \<noteq> dumps_ascii (cursor_payload browse_scope (name_position [65] (UUID 21)))"
    by (simp add: cursor_payload_def name_position_def)
  then show "cursor_works browse_env browse_service browse_scope (name_position [67] (UUID 23))"
    using fits by (simp add: cursor_works_def reads_back_def browse_env_def)
qed

section \<open>Properties\<close>

text \<open>
  C24.  Following the cursors shows everything once, as long as the names in the folder have at most 180
  characters: in every state the library reaches, with the configured cursor limit of 4096 characters and
  digests of 32 bytes, a reader whose first page loads and who follows the cursors gets every folder of the
  listing once, ordered by name and identifier and marked with whether it has folders inside, and
  every document that has a version once, in the same order, with its newest version.  The JSON reader
  is assumed to read back the cursor payloads of this folder.  (C26 shows what a longer document name does.)
\<close>

theorem pages_show_everything_once:
  assumes "library_history LE mb md ((db, st) # h)" "0 \<le> mb" "hmac_gives_bytes E"
    "\<forall>k b. length (ce_hmac E k b) = 32" "sv_cursor_max S = 4096"
    "scope_ok (listing_scope user wid fid (lit ''folder''))"
    "browse E S db now user wid fid None None requested = Inr p"
    "\<forall>f\<in>set (lb_folders db). fo_workspace f = wid \<and> fo_parent f = fid \<longrightarrow> uuid_ok (fo_id f) \<and> length (fo_name f) \<le> 180
       \<and> reads_back E (cursor_payload (listing_scope user wid fid (lit ''folder'')) (name_position (fo_name f) (fo_id f)))"
    "\<forall>d\<in>set (lb_documents db). do_workspace d = wid \<and> do_folder d = fid \<longrightarrow> uuid_ok (do_id d) \<and> length (do_name d) \<le> 180
       \<and> reads_back E (cursor_payload (listing_scope user wid fid (lit ''document'')) (name_position (do_name d) (do_id d)))"
  shows "\<exists>fs ds n.
      pages (\<lambda>c. rbind (browse E S db now user wid fid c None requested) (\<lambda>p. Inr (lp_folders p, lp_next_folder p))) n None = Inr fs
    \<and> sorted_wrt (\<lambda>x y. folder_key x < folder_key y) fs
    \<and> set fs = {(f, b). f \<in> set (lb_folders db) \<and> fo_workspace f = wid \<and> fo_parent f = fid
         \<and> b = (\<exists>c\<in>set (lb_folders db). fo_workspace c = wid \<and> fo_parent c = Some (fo_id f))}
    \<and> pages (\<lambda>c. rbind (browse E S db now user wid fid None c requested) (\<lambda>p. Inr (lp_documents p, lp_next_document p))) n None = Inr ds
    \<and> sorted_wrt (\<lambda>x y. document_key x < document_key y) ds
    \<and> set ds = {(d, [v]) | d v. d \<in> set (lb_documents db) \<and> do_workspace d = wid \<and> do_folder d = fid \<and> v \<in> set (lb_versions db)
         \<and> av_document v = do_id d \<and> (\<forall>u\<in>set (lb_versions db). av_document u = do_id d \<longrightarrow> av_number u \<le> av_number v)}"
proof -
  have ok: "tables_ok db"
    using library_history_ok [OF assms(1,2)] by (simp add: history_ok_def library_ok_def)
  have docs: "scope_ok (listing_scope user wid fid (lit ''document''))" using assms(6) by (simp add: listing_scope_def scope_ok_def)
  let ?fs = "folder_rows db wid fid" and ?ds = "document_rows db wid fid"
  let ?n = "Suc (length ?fs + length ?ds)"
  have fs: "set ?fs = {(f, b). f \<in> set (lb_folders db) \<and> fo_workspace f = wid \<and> fo_parent f = fid
      \<and> b = (\<exists>c\<in>set (lb_folders db). fo_workspace c = wid \<and> fo_parent c = Some (fo_id f))}"
    by (auto simp: folder_rows_def list_ex_iff)
  have ds: "set ?ds = {(d, [v]) | d v. d \<in> set (lb_documents db) \<and> do_workspace d = wid \<and> do_folder d = fid \<and> v \<in> set (lb_versions db)
      \<and> av_document v = do_id d \<and> (\<forall>u\<in>set (lb_versions db). av_document u = do_id d \<longrightarrow> av_number u \<le> av_number v)}"
    by (auto simp: document_rows_def latest_versions_def list_all_iff)
  have "\<forall>x\<in>set ?fs. uuid_ok (fo_id (fst x))
      \<and> cursor_works E S (listing_scope user wid fid (lit ''folder'')) (name_position (fo_name (fst x)) (fo_id (fst x)))"
    unfolding fs cursor_works_def using assms(8) name_cursor_fits [OF assms(4,5)] by auto
  from folder_pages [OF ok assms(3,6,7) this, of ?n]
  have f: "pages (\<lambda>c. rbind (browse E S db now user wid fid c None requested) (\<lambda>p. Inr (lp_folders p, lp_next_folder p))) ?n None = Inr ?fs"
    by simp
  have "\<forall>x\<in>set ?ds. uuid_ok (do_id (fst x))
      \<and> cursor_works E S (listing_scope user wid fid (lit ''document'')) (name_position (do_name (fst x)) (do_id (fst x)))"
    unfolding ds cursor_works_def using assms(9) name_cursor_fits [OF assms(4,5)] by auto
  from document_pages [OF ok assms(3) docs assms(7) this, of ?n]
  have d: "pages (\<lambda>c. rbind (browse E S db now user wid fid None c requested) (\<lambda>p. Inr (lp_documents p, lp_next_document p))) ?n None = Inr ?ds"
    by simp
  show ?thesis
    by (rule exI [of _ ?fs], rule exI [of _ ?ds], rule exI [of _ ?n])
      (intro conjI f d fs ds folder_rows_strict [OF ok] document_rows_strict [OF ok])
qed

text \<open>
  C25.  A cursor serves only its reader and its listing.  A cursor issued for an actor, workspace,
  folder, document and kind of listing is opened for exactly those, where it yields the position written, and
  refused as an invalid request for any other; and whatever text is opened at all carries the
  service's HMAC over a payload that names them.
\<close>

theorem cursor_serves_its_listing:
  assumes "hmac_gives_bytes E" "scope_ok s" "scope_ok t" "reads_back E (cursor_payload s position)"
    "encode_cursor E S s position = Inr c"
  shows "decode_cursor E S c t = (if s = t then Inr (json_members position) else Inl invalid_library_request)
    \<and> (\<forall>v q. decode_cursor E S v t = Inr q \<longrightarrow>
         (\<exists>a b payload d scope. split_dot v = Some (a, b) \<and> base64_decode a = Inr payload
            \<and> base64_decode b = Inr (ce_hmac E (sv_key S) payload) \<and> ce_loads E payload = Inr (PDict d)
            \<and> map_of d (lit ''actor'') = Some (PStr (uuid_text (cs_actor t))) \<and> map_of d (lit ''position'') = Some (PDict q)
            \<and> map_of d (lit ''scope'') = Some (PDict scope)
            \<and> (\<forall>k. map_of scope k = map_of (json_members (scope_members t)) k)))"
proof (intro conjI allI impI)
  show "decode_cursor E S c t = (if s = t then Inr (json_members position) else Inl invalid_library_request)"
    by (rule decode_issued [OF assms(1,5,4,2,3)])
next
  fix v q
  assume "decode_cursor E S v t = Inr q"
  then obtain payload where o: "open_token E S v = Inr payload" and r: "rbind (ce_loads E payload) (open_payload t) = Inr q"
    by (auto simp: decode_cursor_def split: if_splits sum.splits)
  from o obtain a b where ab: "split_dot v = Some (a, b)" "base64_decode a = Inr payload" "base64_decode b = Inr (ce_hmac E (sv_key S) payload)"
    by (auto simp: open_token_def split: option.splits prod.splits if_splits)
  from r obtain x where x: "ce_loads E payload = Inr x" "open_payload t x = Inr q" unfolding rbind_eq_Inr by blast
  from x(2) obtain d scope where d: "x = PDict d" "map_of d (lit ''actor'') = Some (PStr (uuid_text (cs_actor t)))"
    "map_of d (lit ''position'') = Some (PDict q)" "map_of d (lit ''scope'') = Some (PDict scope)"
    "dict_equals scope (json_members (scope_members t))"
    by (rule open_payload_Inr)
  have "map_of scope k = map_of (json_members (scope_members t)) k" for k
  proof (cases "k \<in> set (map fst (json_members (scope_members t)))")
    case True
    with d(5) show ?thesis by (simp only: dict_equals_def list_all_iff)
  next
    case False
    with d(5) have "k \<notin> set (map fst scope)" by (simp only: dict_equals_def) blast
    with False have "map_of scope k = None" "map_of (json_members (scope_members t)) k = None"
      by (simp_all only: map_of_eq_None_iff set_map not_False_eq_True)
    then show ?thesis by simp
  qed
  with ab x(1) d show "\<exists>a b payload d scope. split_dot v = Some (a, b) \<and> base64_decode a = Inr payload
            \<and> base64_decode b = Inr (ce_hmac E (sv_key S) payload) \<and> ce_loads E payload = Inr (PDict d)
            \<and> map_of d (lit ''actor'') = Some (PStr (uuid_text (cs_actor t))) \<and> map_of d (lit ''position'') = Some (PDict q)
            \<and> map_of d (lit ''scope'') = Some (PDict scope)
            \<and> (\<forall>k. map_of scope k = map_of (json_members (scope_members t)) k)" by blast
qed

text \<open>
  Every folder has its path.  In every state the library reaches with a depth limit, a service with
  that limit finds the folders above any folder, from the root down, and never calls the hierarchy
  unsafe; a page that loads shows a reader of the workspace that path and only what lies in the folder.
\<close>

theorem every_folder_has_its_path:
  assumes "library_history LE mb md ((db, st) # h)" "0 \<le> mb" "f \<in> set (lb_folders db)" "sv_max_depth S = int md"
  shows "\<exists>path. folder_path db S (fo_workspace f) (Some (fo_id f)) = Inr (Some f, path) \<and> leads_to None path (fo_parent f)
    \<and> length path < md \<and> (\<forall>g\<in>set path. g \<in> set (lb_folders db) \<and> fo_workspace g = fo_workspace f)
    \<and> (\<forall>E now user fc dc requested p. browse E S db now user (fo_workspace f) (Some (fo_id f)) fc dc requested = Inr p \<longrightarrow>
         has_workspace_access db now user (fo_workspace f) \<and> lp_folder p = Some f \<and> lp_ancestors p = path
         \<and> (\<forall>(g, b)\<in>set (lp_folders p). g \<in> set (lb_folders db) \<and> fo_workspace g = fo_workspace f \<and> fo_parent g = Some (fo_id f))
         \<and> (\<forall>(d, v)\<in>set (lp_documents p). d \<in> set (lb_documents db) \<and> do_workspace d = fo_workspace f \<and> do_folder d = Some (fo_id f)))"
proof -
  have "folders_ok md db"
    using library_history_ok [OF assms(1,2)] by (simp add: history_ok_def library_ok_def)
  from folder_path_found [OF this assms(3,4)] obtain path where path: "folder_path db S (fo_workspace f) (Some (fo_id f)) = Inr (Some f, path)"
    "leads_to None path (fo_parent f)" "length path < md" "set path \<subseteq> set (folders_in db (fo_workspace f))" by blast
  have "has_workspace_access db now user (fo_workspace f) \<and> lp_folder p = Some f \<and> lp_ancestors p = path
       \<and> (\<forall>(g, b)\<in>set (lp_folders p). g \<in> set (lb_folders db) \<and> fo_workspace g = fo_workspace f \<and> fo_parent g = Some (fo_id f))
       \<and> (\<forall>(d, v)\<in>set (lp_documents p). d \<in> set (lb_documents db) \<and> do_workspace d = fo_workspace f \<and> do_folder d = Some (fo_id f))"
    if b: "browse E S db now user (fo_workspace f) (Some (fo_id f)) fc dc requested = Inr p" for E now user fc dc requested p
  proof -
    from b obtain w l fp fpos dpos frows drows where *: "visible_workspace db now user (fo_workspace f) = Inr w"
      "page_limit S requested = Inr l"
      "child_folders db (fo_workspace f) (Some (fo_id f)) fpos (l + 1) = Inr frows"
      "child_documents db (fo_workspace f) (Some (fo_id f)) dpos (l + 1) = Inr drows"
      "folder_path db S (fo_workspace f) (Some (fo_id f)) = Inr fp" "lp_folder p = fst fp" "lp_ancestors p = snd fp"
      "lp_folders p = take (nat l) frows" "lp_documents p = take (nat l) drows"
      by (rule browse_parts)
    have "has_workspace_access db now user (fo_workspace f)"
      using *(1) workspace_for_user_access by (auto simp: visible_workspace_def split: option.splits)
    moreover have l: "1 \<le> l + 1" using *(2) by (auto simp: page_limit_def Let_def split: if_splits)
    have "set frows \<subseteq> set (folder_rows db (fo_workspace f) (Some (fo_id f)))"
      using *(3) unfolding child_folders_rows [OF l] by (auto dest: in_set_takeD)
    moreover have "set drows \<subseteq> set (document_rows db (fo_workspace f) (Some (fo_id f)))"
      using *(4) unfolding child_documents_rows [OF l] by (auto dest: in_set_takeD)
    moreover have "fp = (Some f, path)" using *(5) path(1) by simp
    ultimately show ?thesis
      using *(6-9) folder_rows_in document_rows_in by (simp add: case_prod_beta) (meson in_set_takeD subsetD)
  qed
  with path show ?thesis by (auto simp: folders_in_def)
qed

section \<open>Witnesses\<close>

theorem name_cursors_fit_witness:
  "(\<exists>c. encode_cursor browse_env browse_service (listing_scope (UUID 11) (UUID 10) None (lit ''document'')) (name_position [65] (UUID 31)) = Inr c)
    \<and> encode_cursor browse_env browse_service (listing_scope (UUID 11) (UUID 10) None (lit ''document''))
        (name_position (replicate 255 128512) (UUID 31)) = Inl invalid_library_request"
proof -
  have "\<forall>k b. length (ce_hmac browse_env k b) = 32" "sv_cursor_max browse_service = 4096"
    by (simp_all add: browse_env_def browse_service_def)
  from name_cursors_fit [OF this, of "lit ''document''" "UUID 11" "UUID 10" None "UUID 31"] show ?thesis
    by (simp del: lit_simps)
qed

lemma browse_first_page:
  "\<exists>p. browse browse_env browse_service browsed_library 0 (UUID 11) (UUID 10) None None None None = Inr p"
proof -
  have w: "\<exists>w. visible_workspace browsed_library 0 (UUID 11) (UUID 10) = Inr w"
    by (simp add: visible_workspace_def workspace_for_user_def browsed_library_def demo_library_def demo_ws_def
        workspace_read_allowed_def workspace_is_active_def workspace_personal_owner_matches_def)
  have rows: "folder_rows browsed_library (UUID 10) None = [(demo_folders ! 0, True), (demo_folders ! 2, False)]"
    by (simp add: folder_rows_def browsed_library_def demo_folders_def)
  have docs: "document_rows browsed_library (UUID 10) None = []"
    by (simp add: document_rows_def browsed_library_def demo_library_def)
  have "\<exists>c. next_cursor browse_env browse_service (listing_scope (UUID 11) (UUID 10) None (lit ''folder'')) 1
      (\<lambda>x. name_position (fo_name (fst x)) (fo_id (fst x))) [(demo_folders ! 0, True), (demo_folders ! 2, False)] = Inr c"
    using browse_cursors_work(1) cursor_works_encode
    by (simp add: next_cursor_def demo_folders_def browse_scope_def del: lit_simps)
  with w obtain w c where "visible_workspace browsed_library 0 (UUID 11) (UUID 10) = Inr w"
    "next_cursor browse_env browse_service (listing_scope (UUID 11) (UUID 10) None (lit ''folder'')) 1
      (\<lambda>(f, b). name_position (fo_name f) (fo_id f)) [(demo_folders ! 0, True), (demo_folders ! 2, False)] = Inr c"
    unfolding case_prod_unfold by blast
  then show ?thesis
    by (simp add: browse_def page_limit_def browse_service_def folder_path_def child_folders_rows child_documents_rows rows docs
        name_after_def case_prod_beta next_cursor_def [of _ _ _ _ _ "[]"])
qed

theorem pages_show_everything_once_witness:
  "\<exists>fs n. pages (\<lambda>c. rbind (browse browse_env browse_service browsed_library 0 (UUID 11) (UUID 10) None c None None)
      (\<lambda>p. Inr (lp_folders p, lp_next_folder p))) n None = Inr fs \<and> (demo_folders ! 0, True) \<in> set fs"
proof -
  obtain p where p: "browse browse_env browse_service browsed_library 0 (UUID 11) (UUID 10) None None None None = Inr p"
    using browse_first_page by blast
  have works: "\<forall>f\<in>set (lb_folders browsed_library). fo_workspace f = UUID 10 \<and> fo_parent f = None \<longrightarrow> uuid_ok (fo_id f) \<and> length (fo_name f) \<le> 180
       \<and> reads_back browse_env (cursor_payload (listing_scope (UUID 11) (UUID 10) None (lit ''folder'')) (name_position (fo_name f) (fo_id f)))"
    using browse_cursors_work unfolding cursor_works_def by (simp add: browsed_library_def demo_folders_def browse_scope_def uuid_ok_def del: lit_simps)
  have docs: "\<forall>d\<in>set (lb_documents browsed_library). do_workspace d = UUID 10 \<and> do_folder d = None \<longrightarrow> uuid_ok (do_id d) \<and> length (do_name d) \<le> 180
       \<and> reads_back browse_env (cursor_payload (listing_scope (UUID 11) (UUID 10) None (lit ''document'')) (name_position (do_name d) (do_id d)))"
    by (simp add: browsed_library_def demo_library_def)
  have root: "demo_folders ! 0 \<in> set (lb_folders browsed_library)" "fo_workspace (demo_folders ! 0) = UUID 10" "fo_parent (demo_folders ! 0) = None"
    "\<exists>c\<in>set (lb_folders browsed_library). fo_workspace c = UUID 10 \<and> fo_parent c = Some (fo_id (demo_folders ! 0))"
    by (simp_all add: browsed_library_def demo_folders_def)
  from pages_show_everything_once [OF browsed_history _ browse_env_gives_bytes browse_limits browse_scope_ok [unfolded browse_scope_def] p works docs]
  obtain fs n where "pages (\<lambda>c. rbind (browse browse_env browse_service browsed_library 0 (UUID 11) (UUID 10) None c None None)
      (\<lambda>p. Inr (lp_folders p, lp_next_folder p))) n None = Inr fs"
    "set fs = {(f, b). f \<in> set (lb_folders browsed_library) \<and> fo_workspace f = UUID 10 \<and> fo_parent f = None
         \<and> b = (\<exists>c\<in>set (lb_folders browsed_library). fo_workspace c = UUID 10 \<and> fo_parent c = Some (fo_id f))}" by auto
  with root show ?thesis by blast
qed

theorem cursor_serves_its_listing_witness:
  "\<exists>c. encode_cursor browse_env browse_service browse_scope (name_position [65] (UUID 21)) = Inr c
     \<and> decode_cursor browse_env browse_service c browse_scope = Inr (json_members (name_position [65] (UUID 21)))
     \<and> decode_cursor browse_env browse_service c (browse_scope\<lparr>cs_actor := UUID 12\<rparr>) = Inl invalid_library_request"
proof -
  let ?s = "browse_scope" and ?t = "browse_scope\<lparr>cs_actor := UUID 12\<rparr>"
  have t: "scope_ok ?t" "?s \<noteq> ?t" by (simp_all add: browse_scope_def listing_scope_def scope_ok_def uuid_ok_def)
  obtain c where c: "encode_cursor browse_env browse_service ?s (name_position [65] (UUID 21)) = Inr c"
    and r: "reads_back browse_env (cursor_payload ?s (name_position [65] (UUID 21)))"
    using browse_cursors_work(1) by (auto simp: cursor_works_def)
  from cursor_serves_its_listing [OF browse_env_gives_bytes browse_scope_ok browse_scope_ok r c]
    cursor_serves_its_listing [OF browse_env_gives_bytes browse_scope_ok t(1) r c] c t(2) show ?thesis by auto
qed

theorem every_folder_has_its_path_witness:
  "\<exists>path. folder_path browsed_library browse_service (UUID 10) (Some (UUID 22)) = Inr (Some (demo_folders ! 1), path)
     \<and> leads_to None path (Some (UUID 21))"
proof -
  have "demo_folders ! 1 \<in> set (lb_folders browsed_library)" "sv_max_depth browse_service = int 3"
    by (simp_all add: browsed_library_def demo_folders_def browse_service_def)
  from every_folder_has_its_path [OF browsed_history _ this] show ?thesis by (auto simp: demo_folders_def)
qed

end
