(* ===== verification/Py_Patterns.thy ===== *)
theory Py_Patterns
  imports Sentences
begin

text \<open>
  Searching text: \<^verbatim>\<open>str.find\<close>, \<^verbatim>\<open>startswith\<close>, \<^verbatim>\<open>split\<close> and the fragment of the \<^verbatim>\<open>re\<close> module the
  laboratory uses.  A pattern denotes, at every position of a text, the list of the positions
  where a match may end, in the order the backtracking matcher tries them; a character class is a
  predicate on code points.
\<close>

section \<open>Substrings\<close>

definition starts_at :: "pystr \<Rightarrow> pystr \<Rightarrow> nat \<Rightarrow> bool" where
  "starts_at t s i \<longleftrightarrow> i + length t \<le> length s \<and> take (length t) (drop i s) = t"

function find_from :: "pystr \<Rightarrow> pystr \<Rightarrow> nat \<Rightarrow> nat option" where
  "find_from t s i =
     (if i + length t > length s then None else if starts_at t s i then Some i else find_from t s (Suc i))"
  by pat_completeness auto
termination by (relation "measure (\<lambda>(t, s, i). Suc (length s) - i)") auto

declare find_from.simps [simp del]

text \<open>\<^verbatim>\<open>t in s\<close>.\<close>

definition contains :: "pystr \<Rightarrow> pystr \<Rightarrow> bool" where
  "contains t s \<longleftrightarrow> find_from t s 0 \<noteq> None"

text \<open>The non-overlapping occurrences of a text that is not empty, each search starting behind the last.\<close>

function occurrences :: "pystr \<Rightarrow> pystr \<Rightarrow> nat \<Rightarrow> nat list" where
  "occurrences t s i =
     (if t = [] then []
      else case find_from t s i of None \<Rightarrow> [] | Some k \<Rightarrow> k # occurrences t s (k + length t))"
  by pat_completeness auto

lemma find_from_SomeD: "find_from t s i = Some k \<Longrightarrow> i \<le> k \<and> starts_at t s k"
proof (induction t s i rule: find_from.induct)
  case (1 t s i)
  then show ?case by (auto simp: find_from.simps [of t s i] split: if_splits)
qed

lemma find_from_NoneD: "find_from t s i = None \<Longrightarrow> i \<le> k \<Longrightarrow> \<not> starts_at t s k"
proof (induction t s i rule: find_from.induct)
  case (1 t s i)
  show ?case
  proof (cases "i + length t > length s")
    case True
    with 1(3) show ?thesis by (simp add: starts_at_def)
  next
    case False
    with 1(2) have "\<not> starts_at t s i" "find_from t s (Suc i) = None"
      by (auto simp: find_from.simps [of t s i] split: if_splits)
    with 1(1) False 1(3) show ?thesis by (cases "i = k") auto
  qed
qed

lemma find_from_bound: "find_from t s i = Some k \<Longrightarrow> k + length t \<le> length s"
  using find_from_SomeD [of t s i k] by (simp add: starts_at_def)

termination occurrences
proof (relation "measure (\<lambda>(t, s, i). length s - i)")
  fix t s :: pystr and i k
  assume "t \<noteq> []" "find_from t s i = Some k"
  then show "((t, s, k + length t), t, s, i) \<in> measure (\<lambda>(t, s, i). length s - i)"
    using find_from_SomeD [of t s i k] find_from_bound [of t s i k] by (cases t) auto
qed simp

declare occurrences.simps [simp del]

lemma contains_iff: "contains t s \<longleftrightarrow> (\<exists>k. starts_at t s k)"
  unfolding contains_def using find_from_SomeD [of t s 0] find_from_NoneD [of t s 0] by blast

lemma occurrences_starts: "k \<in> set (occurrences t s i) \<Longrightarrow> t \<noteq> [] \<and> i \<le> k \<and> starts_at t s k"
proof (induction t s i rule: occurrences.induct)
  case (1 t s i)
  from 1(2) have t: "t \<noteq> []" by (auto simp: occurrences.simps [of t s i])
  with 1(2) obtain j where j: "find_from t s i = Some j" "k = j \<or> k \<in> set (occurrences t s (j + length t))"
    by (cases "find_from t s i") (auto simp: occurrences.simps [of t s i])
  from j(2) show ?case
  proof
    assume "k = j"
    with j(1) t find_from_SomeD show ?thesis by blast
  next
    assume "k \<in> set (occurrences t s (j + length t))"
    from 1(1) [OF t j(1) this] find_from_SomeD [OF j(1)] show ?thesis by auto
  qed
qed

lemma occurrences_empty_iff: "t \<noteq> [] \<Longrightarrow> occurrences t s 0 = [] \<longleftrightarrow> \<not> contains t s"
  by (simp add: occurrences.simps [of t s 0] contains_def split: option.splits)

section \<open>Words\<close>

text \<open>\<^verbatim>\<open>s.split()\<close>, with the word read so far.\<close>

fun split_words :: "pystr \<Rightarrow> pystr \<Rightarrow> pystr list" where
  "split_words w [] = (if w = [] then [] else [w])"
| "split_words w (c # s) =
     (if py_isspace c then (if w = [] then split_words [] s else w # split_words [] s) else split_words (w @ [c]) s)"

definition py_split :: "pystr \<Rightarrow> pystr list" where
  "py_split s = split_words [] s"

lemma split_words_nonempty: "w \<in> set (split_words u s) \<Longrightarrow> w \<noteq> []"
  by (induction u s rule: split_words.induct) (auto split: if_splits)

section \<open>Patterns\<close>

datatype pattern =
    Empty
  | Exactly pystr
  | OneOf "nat \<Rightarrow> bool"
  | Many "nat \<Rightarrow> bool"
  | Then pattern pattern
  | Either pattern pattern
  | Boundary "nat \<Rightarrow> bool"
  | NotBehind "nat \<Rightarrow> bool"
  | NotAhead "nat \<Rightarrow> bool"
  | Ahead pattern
  | AtEnd

text \<open>
  \<open>Many\<close> is the greedy \<^verbatim>\<open>[...]*\<close>, \<open>Boundary\<close> is \<^verbatim>\<open>\b\<close> for the given word characters, \<open>NotBehind\<close>
  and \<open>NotAhead\<close> are \<^verbatim>\<open>(?<!...)\<close> and \<^verbatim>\<open>(?!...)\<close> of one character, \<open>Ahead\<close> is \<^verbatim>\<open>(?=...)\<close> and
  \<open>AtEnd\<close> is \<^verbatim>\<open>$\<close>, which also matches before a final line feed.
\<close>

definition holds_at :: "(nat \<Rightarrow> bool) \<Rightarrow> pystr \<Rightarrow> nat \<Rightarrow> bool" where
  "holds_at c s i \<longleftrightarrow> i < length s \<and> c (s ! i)"

definition holds_before :: "(nat \<Rightarrow> bool) \<Rightarrow> pystr \<Rightarrow> nat \<Rightarrow> bool" where
  "holds_before c s i \<longleftrightarrow> 0 < i \<and> i \<le> length s \<and> c (s ! (i - 1))"

fun pattern_ends :: "pattern \<Rightarrow> pystr \<Rightarrow> nat \<Rightarrow> nat list" where
  "pattern_ends Empty s i = [i]"
| "pattern_ends (Exactly t) s i = (if starts_at t s i then [i + length t] else [])"
| "pattern_ends (OneOf c) s i = (if holds_at c s i then [Suc i] else [])"
| "pattern_ends (Many c) s i = rev (map (\<lambda>n. i + n) [0..<Suc (length (takeWhile c (drop i s)))])"
| "pattern_ends (Then p q) s i = concat (map (pattern_ends q s) (pattern_ends p s i))"
| "pattern_ends (Either p q) s i = pattern_ends p s i @ pattern_ends q s i"
| "pattern_ends (Boundary w) s i = (if holds_before w s i \<noteq> holds_at w s i then [i] else [])"
| "pattern_ends (NotBehind c) s i = (if holds_before c s i then [] else [i])"
| "pattern_ends (NotAhead c) s i = (if holds_at c s i then [] else [i])"
| "pattern_ends (Ahead p) s i = (if pattern_ends p s i = [] then [] else [i])"
| "pattern_ends AtEnd s i = (if i = length s \<or> (Suc i = length s \<and> s ! i = 10) then [i] else [])"

text \<open>\<^verbatim>\<open>re.search\<close> from a position: where the leftmost match starts and ends.\<close>

function search_from :: "pattern \<Rightarrow> pystr \<Rightarrow> nat \<Rightarrow> (nat \<times> nat) option" where
  "search_from p s i =
     (if i > length s then None
      else case pattern_ends p s i of [] \<Rightarrow> search_from p s (Suc i) | e # _ \<Rightarrow> Some (i, e))"
  by pat_completeness auto
termination by (relation "measure (\<lambda>(p, s, i). Suc (length s) - i)") auto

declare search_from.simps [simp del]

definition found :: "pattern \<Rightarrow> pystr \<Rightarrow> bool" where
  "found p s \<longleftrightarrow> search_from p s 0 \<noteq> None"

definition any_found :: "pattern list \<Rightarrow> pystr \<Rightarrow> bool" where
  "any_found ps s \<longleftrightarrow> list_ex (\<lambda>p. found p s) ps"

text \<open>\<^verbatim>\<open>re.sub\<close> for a pattern that matches no empty text.\<close>

function replace_from :: "pattern \<Rightarrow> pystr \<Rightarrow> pystr \<Rightarrow> nat \<Rightarrow> pystr" where
  "replace_from p r s i =
     (if i \<ge> length s then []
      else case pattern_ends p s i of
          [] \<Rightarrow> s ! i # replace_from p r s (Suc i)
        | e # _ \<Rightarrow> if e \<le> i then s ! i # replace_from p r s (Suc i) else r @ replace_from p r s e)"
  by pat_completeness auto
termination by (relation "measure (\<lambda>(p, r, s, i). length s - i)") auto

declare replace_from.simps [simp del]

text \<open>Abbreviations of the notation: \<^verbatim>\<open>pq...\<close>, \<^verbatim>\<open>p|q|...\<close>, \<^verbatim>\<open>p?\<close>, \<^verbatim>\<open>c+\<close>, and a whole word \<^verbatim>\<open>\bt\b\<close>.\<close>

primrec in_turn :: "pattern list \<Rightarrow> pattern" where
  "in_turn [] = Empty"
| "in_turn (p # ps) = (if ps = [] then p else Then p (in_turn ps))"

primrec one_of :: "pattern list \<Rightarrow> pattern" where
  "one_of [] = OneOf (\<lambda>_. False)"
| "one_of (p # ps) = (if ps = [] then p else Either p (one_of ps))"

definition optionally :: "pattern \<Rightarrow> pattern" where
  "optionally p = Either p Empty"

definition some_of :: "(nat \<Rightarrow> bool) \<Rightarrow> pattern" where
  "some_of c = Then (OneOf c) (Many c)"

definition whole_word :: "(nat \<Rightarrow> bool) \<Rightarrow> pystr \<Rightarrow> pattern" where
  "whole_word w t = in_turn [Boundary w, Exactly t, Boundary w]"

section \<open>Where matches lie\<close>

lemma pattern_ends_bounds:
  "e \<in> set (pattern_ends p s i) \<Longrightarrow> i \<le> length s \<Longrightarrow> i \<le> e \<and> e \<le> length s"
proof (induction p arbitrary: i e)
  case (Many c)
  have "length (takeWhile c (drop i s)) \<le> length (drop i s)" by (rule length_takeWhile_le)
  with Many show ?case by auto
next
  case (Then p q)
  from Then.prems(1) obtain m where "m \<in> set (pattern_ends p s i)" "e \<in> set (pattern_ends q s m)" by auto
  with Then.IH Then.prems(2) show ?case by (meson le_trans)
qed (auto simp: starts_at_def holds_at_def split: if_splits)

lemma search_from_bounds: "search_from p s i = Some (a, b) \<Longrightarrow> i \<le> a \<and> a \<le> b \<and> b \<le> length s"
proof (induction p s i rule: search_from.induct)
  case (1 p s i)
  show ?case
  proof (cases "pattern_ends p s i")
    case Nil
    with 1 show ?thesis by (auto simp: search_from.simps [of p s i] split: if_splits)
  next
    case (Cons e es)
    with 1(2) have "i \<le> length s" "a = i" "b = e" by (auto simp: search_from.simps [of p s i] split: if_splits)
    with pattern_ends_bounds [of e p s i] Cons show ?thesis by auto
  qed
qed

section \<open>Matches and their parts\<close>

lemma search_from_iff: "search_from p s i \<noteq> None \<longleftrightarrow> (\<exists>k \<in> {i..length s}. pattern_ends p s k \<noteq> [])"
proof (induction p s i rule: search_from.induct)
  case (1 p s i)
  have step: "{i..length s} = insert i {Suc i..length s}" if "i \<le> length s" using that by auto
  show ?case
  proof (cases "i \<le> length s \<and> pattern_ends p s i = []")
    case True
    with 1 step show ?thesis by (simp add: search_from.simps [of p s i])
  next
    case False
    then show ?thesis by (cases "i \<le> length s") (auto simp: search_from.simps [of p s i] split: list.splits)
  qed
qed

lemma found_code: "found p s \<longleftrightarrow> list_ex (\<lambda>i. pattern_ends p s i \<noteq> []) [0..<Suc (length s)]"
proof -
  have "found p s \<longleftrightarrow> (\<exists>k \<in> {0..length s}. pattern_ends p s k \<noteq> [])" unfolding found_def by (rule search_from_iff)
  also have "\<dots> \<longleftrightarrow> list_ex (\<lambda>i. pattern_ends p s i \<noteq> []) [0..<Suc (length s)]" by (simp add: list_ex_iff atLeastLessThanSuc_atLeastAtMost del: upt_Suc)
  finally show ?thesis .
qed

lemma found_iff: "found p s \<longleftrightarrow> (\<exists>k \<le> length s. pattern_ends p s k \<noteq> [])"
  unfolding found_def search_from_iff by auto

lemma found_Either: "found (Either p q) s \<longleftrightarrow> found p s \<or> found q s"
  by (auto simp: found_iff)

text \<open>A text without the first character of a word, or without a part of a sequence, does not match.\<close>

lemma absent_word: "c \<notin> set s \<Longrightarrow> \<not> found (Exactly (c # t)) s"
proof -
  have "c \<in> set s" if "starts_at (c # t) s k" for k
    using that by (metis list.set_intros(1) set_drop_subset set_take_subset starts_at_def subsetD)
  then show "c \<notin> set s \<Longrightarrow> \<not> found (Exactly (c # t)) s" by (auto simp: found_iff)
qed

lemma absent_parts:
  "\<not> found p s \<Longrightarrow> \<not> found (Then p q) s" "\<not> found q s \<Longrightarrow> \<not> found (Then p q) s"
proof -
  have "found p s \<and> found q s" if f: "found (Then p q) s"
  proof -
    from f obtain k m where "k \<le> length s" "m \<in> set (pattern_ends p s k)" "pattern_ends q s m \<noteq> []"
      by (auto simp: found_iff)
    moreover from this(2) have "pattern_ends p s k \<noteq> []" by auto
    moreover have "m \<le> length s" using pattern_ends_bounds [of m p s k] calculation(1,2) by blast
    ultimately show ?thesis unfolding found_iff by blast
  qed
  then show "\<not> found p s \<Longrightarrow> \<not> found (Then p q) s" "\<not> found q s \<Longrightarrow> \<not> found (Then p q) s" by blast+
qed

lemmas absent = found_Either absent_word absent_parts

end
