(* ===== verification/Keyword_Matching.thy ===== *)
theory Keyword_Matching
  imports Py_Patterns Chunking Rank_Fusion
begin

text \<open>
  Keyword matching and highlighting (\<^verbatim>\<open>labs/rag/highlighting/service.py\<close>, lines 15 to 210, and the
  highlight types of \<^verbatim>\<open>highlighting/domain.py\<close>).  The tables of the Unicode database are parameters:
  NFKC, case folding and three properties of a code point.  The memo tables of a matcher are kept;
  the timing scopes are left out.
\<close>

section \<open>Normalisation\<close>

text \<open>
  \<open>te_alnum\<close> and \<open>te_alpha\<close> are \<^verbatim>\<open>str.isalnum\<close> and \<^verbatim>\<open>str.isalpha\<close> of one character, \<open>te_token\<close> says
  that its general category is \<^verbatim>\<open>L*\<close>, \<^verbatim>\<open>M*\<close>, \<^verbatim>\<open>N*\<close> or \<^verbatim>\<open>Pc\<close>.
\<close>

record text_env =
  te_nfkc :: "pystr \<Rightarrow> pystr"
  te_casefold :: "pystr \<Rightarrow> pystr"
  te_alnum :: "nat \<Rightarrow> bool"
  te_alpha :: "nat \<Rightarrow> bool"
  te_token :: "nat \<Rightarrow> bool"

definition fold_text :: "text_env \<Rightarrow> pystr \<Rightarrow> pystr" where
  "fold_text E s = te_casefold E (te_nfkc E s)"

text \<open>\<^verbatim>\<open>\w\<close>.\<close>

definition word_char :: "text_env \<Rightarrow> nat \<Rightarrow> bool" where
  "word_char E c \<longleftrightarrow> te_alnum E c \<or> c = 95"

text \<open>\<^verbatim>\<open>re.sub(r"\s+", " ", s)\<close>; the flag says that the last character was white space.\<close>

fun collapse_spaces :: "bool \<Rightarrow> pystr \<Rightarrow> pystr" where
  "collapse_spaces b [] = []"
| "collapse_spaces b (c # s) =
     (if py_isspace c then (if b then collapse_spaces True s else 32 # collapse_spaces True s)
      else c # collapse_spaces False s)"

definition normalize_text :: "text_env \<Rightarrow> pystr \<Rightarrow> pystr" where
  "normalize_text E s = collapse_spaces False (fold_text E s)"

text \<open>
  Normalisation with offsets: for every normalised character the half-open range of the source
  it came from.  The source is read prefix by prefix, because composition may change what an
  earlier prefix gave.
\<close>

record offset_state =
  os_text :: pystr
  os_starts :: "nat list"
  os_ends :: "nat list"

fun common_prefix :: "pystr \<Rightarrow> pystr \<Rightarrow> nat" where
  "common_prefix (c # s) (d # t) = (if c = d then Suc (common_prefix s t) else 0)"
| "common_prefix _ _ = 0"

definition offset_step :: "text_env \<Rightarrow> pystr \<Rightarrow> nat \<Rightarrow> offset_state \<Rightarrow> offset_state" where
  "offset_step E s stop st =
     (let updated = fold_text E (take stop s)
      in if updated = os_text st
         then st\<lparr>os_ends := (if os_ends st = [] then [] else butlast (os_ends st) @ [stop])\<rparr>
         else let k = common_prefix (os_text st) updated;
                  start = (if k < length (os_starts st) then os_starts st ! k else stop - 1);
                  n = length updated - k
              in \<lparr>os_text = updated,
                  os_starts = take k (os_starts st) @ replicate n start,
                  os_ends = take k (os_ends st) @ replicate n stop\<rparr>)"

definition offset_loop :: "text_env \<Rightarrow> pystr \<Rightarrow> nat \<Rightarrow> offset_state" where
  "offset_loop E s n = fold (offset_step E s) [1..<Suc n] \<lparr>os_text = [], os_starts = [], os_ends = []\<rparr>"

text \<open>The collapse of white space, on characters with their ranges.\<close>

definition collapse_step :: "nat \<times> nat \<times> nat \<Rightarrow> offset_state \<Rightarrow> offset_state" where
  "collapse_step ch st =
     (case ch of (c, start, stop) \<Rightarrow>
        if py_isspace c then
          (if os_text st \<noteq> [] \<and> last (os_text st) = 32
           then st\<lparr>os_ends := butlast (os_ends st) @ [stop]\<rparr>
           else \<lparr>os_text = os_text st @ [32], os_starts = os_starts st @ [start], os_ends = os_ends st @ [stop]\<rparr>)
        else \<lparr>os_text = os_text st @ [c], os_starts = os_starts st @ [start], os_ends = os_ends st @ [stop]\<rparr>)"

definition normalize_with_original_offsets :: "text_env \<Rightarrow> pystr \<Rightarrow> offset_state" where
  "normalize_with_original_offsets E s =
     (let st = offset_loop E s (length s)
      in fold collapse_step (zip (os_text st) (zip (os_starts st) (os_ends st)))
           \<lparr>os_text = [], os_starts = [], os_ends = []\<rparr>)"

section \<open>The matcher\<close>

text \<open>\<^verbatim>\<open>re.findall(r"\w+|[%]+", s)\<close>.\<close>

function find_tokens :: "text_env \<Rightarrow> pystr \<Rightarrow> pystr list" where
  "find_tokens E [] = []"
| "find_tokens E (c # s) =
     (if word_char E c then takeWhile (word_char E) (c # s) # find_tokens E (dropWhile (word_char E) s)
      else if c = 37 then takeWhile (\<lambda>d. d = 37) (c # s) # find_tokens E (dropWhile (\<lambda>d. d = 37) s)
      else find_tokens E s)"
  by pat_completeness auto
termination
  by (relation "measure (\<lambda>(E, s). length s)") (auto simp: le_imp_less_Suc length_dropWhile_le)

record keyword_matcher =
  km_query :: pystr
  km_texts :: "(pystr \<times> pystr) list"
  km_offsets :: "(pystr \<times> offset_state) list"
  km_terms :: "pystr list"

definition matcher_normalized :: "text_env \<Rightarrow> pystr \<Rightarrow> keyword_matcher \<Rightarrow> pystr \<times> keyword_matcher" where
  "matcher_normalized E s km =
     (case map_of (km_texts km) s of
        Some n \<Rightarrow> (n, km)
      | None \<Rightarrow> (normalize_text E s, km\<lparr>km_texts := (s, normalize_text E s) # km_texts km\<rparr>))"

definition matcher_offsets :: "text_env \<Rightarrow> pystr \<Rightarrow> keyword_matcher \<Rightarrow> offset_state \<times> keyword_matcher" where
  "matcher_offsets E s km =
     (case map_of (km_offsets km) s of
        Some n \<Rightarrow> (n, km)
      | None \<Rightarrow>
          (normalize_with_original_offsets E s,
           km\<lparr>km_offsets := (s, normalize_with_original_offsets E s) # km_offsets km\<rparr>))"

definition new_matcher :: "text_env \<Rightarrow> pystr \<Rightarrow> keyword_matcher" where
  "new_matcher E query =
     (let (n, km) = matcher_normalized E query \<lparr>km_query = query, km_texts = [], km_offsets = [], km_terms = []\<rparr>
      in km\<lparr>km_terms := dict_fromkeys (find_tokens E n)\<rparr>)"

definition validate_query :: "pystr \<Rightarrow> keyword_matcher \<Rightarrow> unit res" where
  "validate_query query km = guard (query = km_query km) (ValueError ''matcher query'')"

text \<open>A fraction as the quotient of two integers in double precision.\<close>

definition term_share :: "pystr list \<Rightarrow> pystr \<Rightarrow> rat" where
  "term_share terms n = round_double (of_nat (length (filter (\<lambda>t. contains t n) terms)) / of_nat (length terms))"

definition matcher_coverage :: "text_env \<Rightarrow> pystr \<Rightarrow> keyword_matcher \<Rightarrow> rat \<times> keyword_matcher" where
  "matcher_coverage E s km =
     (if km_terms km = [] then (0, km)
      else let (n, km') = matcher_normalized E s km in (term_share (km_terms km) n, km'))"

section \<open>Highlights\<close>

datatype highlight_kind = KEYWORD | SEMANTIC | CONTEXT

record highlight_span =
  hl_kind :: highlight_kind
  hl_unit :: uuid
  hl_text :: pystr
  hl_start :: int
  hl_end :: int
  hl_page :: "int option"
  hl_bbox :: "bounding_box option"
  hl_score :: "py_float option"
  hl_warnings :: "pystr list"

record keyword_result =
  kr_coverage :: rat
  kr_highlights :: "highlight_span list"

definition highlight_at :: "pystr \<Rightarrow> source_location \<Rightarrow> uuid \<Rightarrow> offset_state \<Rightarrow> nat \<Rightarrow> nat \<Rightarrow> highlight_span" where
  "highlight_at s loc u os start stop =
     (let a = os_starts os ! start; b = os_ends os ! (stop - 1); whole = (a = 0 \<and> b = length s)
      in \<lparr>hl_kind = KEYWORD, hl_unit = u, hl_text = slice s a b,
          hl_start = lc_start loc + int a, hl_end = lc_start loc + int b, hl_page = lc_page loc,
          hl_bbox = (if whole then lc_bbox loc else None), hl_score = None,
          hl_warnings = (if lc_bbox loc \<noteq> None \<and> \<not> whole then [lit ''pdf_keyword_bbox_unavailable''] else [])\<rparr>)"

definition highlight_key :: "highlight_span \<Rightarrow> int \<times> int \<times> pystr" where
  "highlight_key h = (hl_start h, hl_end h, hl_text h)"

definition spans_of_terms :: "pystr list \<Rightarrow> pystr \<Rightarrow> source_location \<Rightarrow> uuid \<Rightarrow> offset_state \<Rightarrow> highlight_span list" where
  "spans_of_terms terms s loc u os =
     sort_key highlight_key
       (concat (map (\<lambda>t. map (\<lambda>k. highlight_at s loc u os k (k + length t)) (occurrences t (os_text os) 0)) terms))"

definition matcher_highlights ::
  "text_env \<Rightarrow> pystr \<Rightarrow> source_location \<Rightarrow> uuid \<Rightarrow> keyword_matcher \<Rightarrow> keyword_result \<times> keyword_matcher" where
  "matcher_highlights E s loc u km =
     (let (cov, km1) = matcher_coverage E s km
      in if cov = 0 then (\<lparr>kr_coverage = 0, kr_highlights = []\<rparr>, km1)
         else let (os, km2) = matcher_offsets E s km1
              in (\<lparr>kr_coverage = cov, kr_highlights = spans_of_terms (km_terms km2) s loc u os\<rparr>, km2))"

definition find_keyword_highlights :: "text_env \<Rightarrow> pystr \<Rightarrow> pystr \<Rightarrow> source_location \<Rightarrow> uuid \<Rightarrow> keyword_result" where
  "find_keyword_highlights E query s loc u = fst (matcher_highlights E s loc u (new_matcher E query))"

definition semantic_highlight :: "evidence_unit \<Rightarrow> py_float \<Rightarrow> highlight_span" where
  "semantic_highlight ev score =
     (let loc = ev_location ev
      in \<lparr>hl_kind = SEMANTIC, hl_unit = ev_id ev, hl_text = ev_text ev, hl_start = lc_start loc, hl_end = lc_end loc,
          hl_page = lc_page loc, hl_bbox = lc_bbox loc, hl_score = Some score,
          hl_warnings =
            (if lc_page loc \<noteq> None \<and> lc_bbox loc = None then [lit ''pdf_bbox_unavailable'']
             else if lc_page loc = None \<and> lc_bbox loc \<noteq> None then [lit ''page_number_unavailable''] else [])\<rparr>)"

section \<open>The memo tables are transparent\<close>

definition matcher_terms :: "text_env \<Rightarrow> pystr \<Rightarrow> pystr list" where
  "matcher_terms E query = dict_fromkeys (find_tokens E (normalize_text E query))"

definition coverage_of :: "text_env \<Rightarrow> pystr list \<Rightarrow> pystr \<Rightarrow> rat" where
  "coverage_of E terms s = (if terms = [] then 0 else term_share terms (normalize_text E s))"

definition highlights_of :: "text_env \<Rightarrow> pystr list \<Rightarrow> pystr \<Rightarrow> source_location \<Rightarrow> uuid \<Rightarrow> keyword_result" where
  "highlights_of E terms s loc u =
     (if coverage_of E terms s = 0 then \<lparr>kr_coverage = 0, kr_highlights = []\<rparr>
      else \<lparr>kr_coverage = coverage_of E terms s,
            kr_highlights = spans_of_terms terms s loc u (normalize_with_original_offsets E s)\<rparr>)"

text \<open>Every entry of a matcher's tables is the value of the function it stands for.\<close>

definition matcher_ok :: "text_env \<Rightarrow> pystr \<Rightarrow> keyword_matcher \<Rightarrow> bool" where
  "matcher_ok E query km \<longleftrightarrow>
     km_query km = query \<and> km_terms km = matcher_terms E query
     \<and> (\<forall>(s, n) \<in> set (km_texts km). n = normalize_text E s)
     \<and> (\<forall>(s, os) \<in> set (km_offsets km). os = normalize_with_original_offsets E s)"

text \<open>
  The contract of a memo table: a recorded value is returned as it is, any other is computed and
  recorded.  Both tables of the matcher keep it.
\<close>

locale memo_table =
  fixes value_of :: "'a \<Rightarrow> 'b"
    and table :: "'m \<Rightarrow> ('a \<times> 'b) list"
    and recall :: "'a \<Rightarrow> 'm \<Rightarrow> 'b \<times> 'm"
  assumes hit: "map_of (table m) x = Some y \<Longrightarrow> recall x m = (y, m)"
    and miss: "map_of (table m) x = None \<Longrightarrow>
      fst (recall x m) = value_of x \<and> table (snd (recall x m)) = (x, value_of x) # table m"
begin

lemma recall_value:
  assumes "\<forall>(x, y) \<in> set (table m). y = value_of x"
  shows "fst (recall x m) = value_of x"
proof (cases "map_of (table m) x")
  case None
  then show ?thesis using miss by blast
next
  case (Some y)
  with assms have "y = value_of x" by (auto dest: map_of_SomeD)
  with hit [OF Some] show ?thesis by simp
qed

lemma recall_table:
  assumes "\<forall>(x, y) \<in> set (table m). y = value_of x"
  shows "\<forall>(x, y) \<in> set (table (snd (recall x m))). y = value_of x"
  using assms hit [of m x] miss [of m x] by (cases "map_of (table m) x") auto

end

interpretation text_memo: memo_table "normalize_text E" km_texts "matcher_normalized E" for E
  by unfold_locales (simp_all add: matcher_normalized_def)

interpretation offset_memo: memo_table "normalize_with_original_offsets E" km_offsets "matcher_offsets E" for E
  by unfold_locales (simp_all add: matcher_offsets_def)

lemma matcher_frame [simp]:
  "km_query (snd (matcher_normalized E s km)) = km_query km" "km_terms (snd (matcher_normalized E s km)) = km_terms km"
  "km_offsets (snd (matcher_normalized E s km)) = km_offsets km"
  "km_query (snd (matcher_offsets E s km)) = km_query km" "km_terms (snd (matcher_offsets E s km)) = km_terms km"
  "km_texts (snd (matcher_offsets E s km)) = km_texts km"
  by (simp_all add: matcher_normalized_def matcher_offsets_def split: option.splits)

lemma matcher_normalized_ok:
  "matcher_ok E query km \<Longrightarrow>
     fst (matcher_normalized E s km) = normalize_text E s \<and> matcher_ok E query (snd (matcher_normalized E s km))"
  using text_memo.recall_value [of km E s] text_memo.recall_table [of km E s] by (simp add: matcher_ok_def)

lemma matcher_offsets_ok:
  "matcher_ok E query km \<Longrightarrow>
     fst (matcher_offsets E s km) = normalize_with_original_offsets E s
     \<and> matcher_ok E query (snd (matcher_offsets E s km))"
  using offset_memo.recall_value [of km E s] offset_memo.recall_table [of km E s] by (simp add: matcher_ok_def)

lemma new_matcher_ok: "matcher_ok E query (new_matcher E query)"
  by (simp add: matcher_ok_def new_matcher_def matcher_normalized_def matcher_terms_def)

lemma matcher_coverage_ok:
  assumes "matcher_ok E query km"
  shows "fst (matcher_coverage E s km) = coverage_of E (matcher_terms E query) s"
    and "matcher_ok E query (snd (matcher_coverage E s km))"
  using assms matcher_normalized_ok [OF assms, of s]
  by (simp_all add: matcher_coverage_def coverage_of_def matcher_ok_def Let_def case_prod_beta)

lemma matcher_highlights_ok:
  assumes "matcher_ok E query km"
  shows "fst (matcher_highlights E s loc u km) = highlights_of E (matcher_terms E query) s loc u"
    and "matcher_ok E query (snd (matcher_highlights E s loc u km))"
proof -
  obtain c km1 where c: "matcher_coverage E s km = (c, km1)" by fastforce
  with matcher_coverage_ok [OF assms, of s] have c': "c = coverage_of E (matcher_terms E query) s" "matcher_ok E query km1"
    by auto
  obtain os km2 where o: "matcher_offsets E s km1 = (os, km2)" by fastforce
  with matcher_offsets_ok [OF c'(2), of s] have o': "os = normalize_with_original_offsets E s" "matcher_ok E query km2"
    by auto
  from o'(2) have "km_terms km2 = matcher_terms E query" by (simp add: matcher_ok_def)
  with c c' o o' show "fst (matcher_highlights E s loc u km) = highlights_of E (matcher_terms E query) s loc u"
    and "matcher_ok E query (snd (matcher_highlights E s loc u km))"
    by (simp_all add: matcher_highlights_def highlights_of_def)
qed

lemma find_keyword_highlights_eq:
  "find_keyword_highlights E query s loc u = highlights_of E (matcher_terms E query) s loc u"
  by (simp add: find_keyword_highlights_def matcher_highlights_ok [OF new_matcher_ok])

section \<open>Offsets\<close>

text \<open>
  Ranges of a source of length \<open>n\<close>: one for every character, none of them empty, their ends in
  order.
\<close>

definition ranges_ok :: "nat \<Rightarrow> offset_state \<Rightarrow> bool" where
  "ranges_ok n st \<longleftrightarrow>
     length (os_text st) = length (os_ends st) \<and> list_all2 (<) (os_starts st) (os_ends st)
     \<and> sorted (os_ends st) \<and> (\<forall>e \<in> set (os_ends st). e \<le> n)"

lemma common_prefix_bounds: "common_prefix s t \<le> length s \<and> common_prefix s t \<le> length t"
  by (induction s t rule: common_prefix.induct) auto

lemma sorted_raise_last: "sorted es \<Longrightarrow> \<forall>e \<in> set es. e \<le> m \<Longrightarrow> sorted (butlast es @ [m :: nat])"
  by (auto simp: sorted_append sorted_butlast dest: in_set_butlastD)

lemma less_raise_last:
  assumes "list_all2 (<) ss es" "es \<noteq> []" "\<forall>e \<in> set es. e \<le> (m :: nat)"
  shows "list_all2 (<) ss (butlast es @ [m])"
proof -
  have len: "length ss = length es" "length (butlast es @ [m]) = length es"
    using assms(1,2) by (auto dest: list_all2_lengthD)
  show ?thesis unfolding list_all2_conv_all_nth
  proof (intro conjI allI impI)
    show "length ss = length (butlast es @ [m])" using len by simp
    fix i assume i: "i < length ss"
    have "ss ! i < es ! i" "es ! i \<le> m" using assms i len by (auto simp: list_all2_conv_all_nth)
    then show "ss ! i < (butlast es @ [m]) ! i"
      using i len by (cases "i < length es - 1") (auto simp: nth_append nth_butlast)
  qed
qed

lemma ranges_raise_last:
  assumes "ranges_ok n st" "os_ends st \<noteq> []" "\<forall>e \<in> set (os_ends st). e \<le> m" "m \<le> n'" "n \<le> n'"
  shows "ranges_ok n' (st\<lparr>os_ends := butlast (os_ends st) @ [m]\<rparr>)"
  using assms less_raise_last [of "os_starts st" "os_ends st" m] sorted_raise_last [of "os_ends st" m]
  by (auto simp: ranges_ok_def dest!: in_set_butlastD)

lemma ranges_snoc:
  assumes "ranges_ok n st" "a < b" "b \<le> n" "\<forall>e \<in> set (os_ends st). e \<le> b"
  shows "ranges_ok n \<lparr>os_text = os_text st @ [c], os_starts = os_starts st @ [a], os_ends = os_ends st @ [b]\<rparr>"
  using assms by (auto simp: ranges_ok_def list_all2_append sorted_append list_all2_lengthD)

lemma offset_step_ok:
  assumes st: "ranges_ok n st" and os: "os_text st = fold_text E (take n s) \<or> n = 0"
  shows "ranges_ok (Suc n) (offset_step E s (Suc n) st)"
    and "os_text (offset_step E s (Suc n) st) = fold_text E (take (Suc n) s)"
proof -
  define u where "u = fold_text E (take (Suc n) s)"
  define k where "k = common_prefix (os_text st) u"
  define a where "a = (if k < length (os_starts st) then os_starts st ! k else n)"
  have len: "length (os_starts st) = length (os_ends st)" "length (os_text st) = length (os_ends st)"
    using st by (auto simp: ranges_ok_def list_all2_lengthD)
  have k: "k \<le> length (os_ends st)" "k \<le> length u"
    using common_prefix_bounds [of "os_text st" u] len by (auto simp: k_def)
  have le: "\<forall>e \<in> set (os_ends st). e \<le> n" using st by (simp add: ranges_ok_def)
  then have le_Suc: "\<forall>e \<in> set (os_ends st). e \<le> Suc n" by auto
  have a: "a < Suc n"
  proof (cases "k < length (os_starts st)")
    case True
    then have "os_starts st ! k < os_ends st ! k" using st len by (auto simp: ranges_ok_def list_all2_conv_all_nth)
    moreover have "os_ends st ! k \<le> n" using le True len by simp
    ultimately show ?thesis using True by (simp add: a_def)
  qed (simp add: a_def)
  have all: "list_all2 (<) (take k (os_starts st) @ replicate (length u - k) a)
               (take k (os_ends st) @ replicate (length u - k) (Suc n))"
    using st a len by (intro list_all2_appendI list_all2_takeI) (auto simp: ranges_ok_def list_all2_conv_all_nth)
  have sorted: "sorted (take k (os_ends st) @ replicate (length u - k) (Suc n))"
    using st le by (auto simp: ranges_ok_def sorted_append sorted_wrt_take dest!: in_set_takeD)
  have changed: "ranges_ok (Suc n)
      \<lparr>os_text = u, os_starts = take k (os_starts st) @ replicate (length u - k) a,
       os_ends = take k (os_ends st) @ replicate (length u - k) (Suc n)\<rparr>"
    using all sorted k le by (auto simp: ranges_ok_def dest!: in_set_takeD)
  have same: "os_ends st = [] \<Longrightarrow> ranges_ok (Suc n) (st\<lparr>os_ends := []\<rparr>)"
    using st by (simp add: ranges_ok_def)
  have same': "os_ends st \<noteq> [] \<Longrightarrow> ranges_ok (Suc n) (st\<lparr>os_ends := butlast (os_ends st) @ [Suc n]\<rparr>)"
    using ranges_raise_last [OF st, of "Suc n" "Suc n"] le le_Suc by simp
  have step: "offset_step E s (Suc n) st =
      (if u = os_text st then st\<lparr>os_ends := (if os_ends st = [] then [] else butlast (os_ends st) @ [Suc n])\<rparr>
       else \<lparr>os_text = u, os_starts = take k (os_starts st) @ replicate (length u - k) a,
             os_ends = take k (os_ends st) @ replicate (length u - k) (Suc n)\<rparr>)"
    by (simp add: offset_step_def Let_def u_def k_def a_def)
  show "ranges_ok (Suc n) (offset_step E s (Suc n) st)"
    using changed same same' unfolding step by (cases "os_ends st = []") auto
  show "os_text (offset_step E s (Suc n) st) = fold_text E (take (Suc n) s)"
    by (simp add: offset_step_def Let_def)
qed

lemma offset_loop_Suc: "offset_loop E s (Suc n) = offset_step E s (Suc n) (offset_loop E s n)"
  by (simp add: offset_loop_def)

lemma offset_loop_ok:
  "ranges_ok n (offset_loop E s n) \<and> (n = 0 \<or> os_text (offset_loop E s n) = fold_text E (take n s))"
proof (induction n)
  case 0
  show ?case by (simp add: offset_loop_def ranges_ok_def)
next
  case (Suc n)
  then show ?case using offset_step_ok [of n "offset_loop E s n" E s] by (auto simp: offset_loop_Suc)
qed

lemma collapse_text:
  "os_text (fold collapse_step zs st) =
     os_text st @ collapse_spaces (os_text st \<noteq> [] \<and> last (os_text st) = 32) (map fst zs)"
proof (induction zs arbitrary: st)
  case (Cons z zs)
  obtain c a b where z: "z = (c, a, b)" by (cases z) auto
  have "py_isspace 32" "py_isspace c \<or> c \<noteq> 32" by (auto simp: py_isspace_def)
  then show ?case unfolding fold.simps o_apply Cons.IH by (auto simp: z collapse_step_def)
qed simp

lemma collapse_ranges:
  assumes "ranges_ok n st" "\<forall>z \<in> set zs. fst (snd z) < snd (snd z) \<and> snd (snd z) \<le> n"
    "sorted (map (snd \<circ> snd) zs)" "\<forall>e \<in> set (os_ends st). \<forall>z \<in> set zs. e \<le> snd (snd z)"
  shows "ranges_ok n (fold collapse_step zs st)"
  using assms
proof (induction zs arbitrary: st)
  case (Cons z zs)
  obtain c a b where z: "z = (c, a, b)" by (cases z) auto
  let ?t = "collapse_step z st"
  from Cons.prems have st: "ranges_ok n st" "a < b" "b \<le> n" "\<forall>e \<in> set (os_ends st). e \<le> b"
    and zs: "\<forall>y \<in> set zs. b \<le> snd (snd y)" by (auto simp: z)
  have len: "length (os_text st) = length (os_ends st)" using st(1) by (simp add: ranges_ok_def)
  have snoc: "ranges_ok n \<lparr>os_text = os_text st @ [d], os_starts = os_starts st @ [a], os_ends = os_ends st @ [b]\<rparr>" for d
    using ranges_snoc st by blast
  have "os_text st \<noteq> [] \<Longrightarrow> os_ends st \<noteq> []" using len by auto
  then have raise: "os_text st \<noteq> [] \<Longrightarrow> ranges_ok n (st\<lparr>os_ends := butlast (os_ends st) @ [b]\<rparr>)"
    using ranges_raise_last [OF st(1) _ st(4) st(3) order.refl] by blast
  have ok: "ranges_ok n ?t" using snoc raise by (simp add: z collapse_step_def)
  have "set (os_ends ?t) \<subseteq> insert b (set (os_ends st))"
    by (auto simp: z collapse_step_def dest: in_set_butlastD)
  with zs Cons.prems(4) have "\<forall>e \<in> set (os_ends ?t). \<forall>y \<in> set zs. e \<le> snd (snd y)" by fastforce
  with Cons.IH [OF ok] Cons.prems(2,3) show ?case by simp
qed simp

lemma normalized_offsets_text:
  assumes "fold_text E [] = []"
  shows "os_text (normalize_with_original_offsets E s) = normalize_text E s"
proof -
  let ?st = "offset_loop E s (length s)"
  have "length (os_starts ?st) = length (os_ends ?st)" "length (os_text ?st) = length (os_ends ?st)"
    using offset_loop_ok [of "length s" E s] by (auto simp: ranges_ok_def list_all2_lengthD)
  moreover have "os_text ?st = fold_text E s"
    using offset_loop_ok [of "length s" E s] assms by (cases s) (auto simp: offset_loop_def)
  ultimately show ?thesis
    by (simp add: normalize_with_original_offsets_def Let_def collapse_text normalize_text_def)
qed

lemma normalized_offsets_ranges: "ranges_ok (length s) (normalize_with_original_offsets E s)"
proof -
  let ?st = "offset_loop E s (length s)"
  have ok: "ranges_ok (length s) ?st" using offset_loop_ok [of "length s" E s] by simp
  then have len: "length (os_starts ?st) = length (os_ends ?st)" "length (os_text ?st) = length (os_ends ?st)"
    by (auto simp: ranges_ok_def list_all2_lengthD)
  let ?zs = "zip (os_text ?st) (zip (os_starts ?st) (os_ends ?st))"
  have snd: "map (snd \<circ> snd) ?zs = os_ends ?st" using len by (simp flip: map_map)
  have "fst (snd z) < snd (snd z) \<and> snd (snd z) \<le> length s" if "z \<in> set ?zs" for z
  proof -
    have z: "(fst (snd z), snd (snd z)) \<in> set (zip (os_starts ?st) (os_ends ?st))"
      using set_zip_rightD [of "fst z" "snd z"] that by simp
    then show ?thesis using ok set_zip_rightD [OF z] by (auto simp: ranges_ok_def list_all2_iff)
  qed
  with ok snd show ?thesis unfolding normalize_with_original_offsets_def Let_def
    by (intro collapse_ranges) (auto simp: ranges_ok_def)
qed

text \<open>The range of a match between two positions of the normalised text.\<close>

lemma match_range:
  assumes "ranges_ok n os" "i < j" "j \<le> length (os_text os)"
  shows "os_starts os ! i < os_ends os ! (j - 1) \<and> os_ends os ! (j - 1) \<le> n"
proof -
  have "i < length (os_ends os)" "j - 1 < length (os_ends os)" "length (os_starts os) = length (os_ends os)"
    using assms by (auto simp: ranges_ok_def list_all2_lengthD)
  then have "os_starts os ! i < os_ends os ! i" "os_ends os ! i \<le> os_ends os ! (j - 1)" "os_ends os ! (j - 1) \<le> n"
    using assms by (auto simp: ranges_ok_def list_all2_conv_all_nth intro!: sorted_nth_mono)
  then show ?thesis by simp
qed

end
