(* ===== verification/Evidence_Selection.thy ===== *)
theory Evidence_Selection
  imports Keyword_Matching Search_Engine
begin

text \<open>
  Extractive evidence selection (\<^verbatim>\<open>labs/rag/highlighting/domain.py\<close>, the selector of
  \<^verbatim>\<open>highlighting/service.py\<close>).  The embedding port and the arithmetic of doubles are parameters;
  since its memo tables are transparent (\<open>matcher_ok\<close>), the matcher is used through the values its
  operations return.  Korean words are lists of code points.
\<close>

section \<open>Types\<close>

definition float_le :: "py_float \<Rightarrow> py_float \<Rightarrow> bool" where
  "float_le x y \<longleftrightarrow> float_less x y \<or> (x = y \<and> x \<noteq> NaN)"

record float_ops =
  fo_mul :: "py_float \<Rightarrow> py_float \<Rightarrow> py_float"
  fo_sub :: "py_float \<Rightarrow> py_float \<Rightarrow> py_float"
  fo_sum :: "py_float list \<Rightarrow> py_float"
  fo_square :: "py_float \<Rightarrow> py_float res"
  fo_sqrt :: "py_float \<Rightarrow> py_float res"
  fo_div :: "py_float \<Rightarrow> py_float \<Rightarrow> py_float res"

record evidence_embedding =
  em_query :: "pystr \<Rightarrow> py_float list res"
  em_documents :: "pystr list \<Rightarrow> py_float list list res"

datatype answer_status = SUPPORTED | INSUFFICIENT_EVIDENCE

datatype conflict_state = NO_CONFLICT | SEPARATE_SOURCES

record answer_policy =
  ap_semantic :: py_float
  ap_keyword :: py_float
  ap_provenance :: bool
  ap_conflict :: pystr

definition new_answer_policy :: "answer_policy \<Rightarrow> answer_policy res" where
  "new_answer_policy p =
     (if \<not> (float_le (Finite 0) (ap_semantic p) \<and> float_le (ap_semantic p) (Finite 1)) then Inl (ValueError ''semantic score'')
      else if \<not> (float_le (Finite 0) (ap_keyword p) \<and> float_le (ap_keyword p) (Finite 1)) then Inl (ValueError ''keyword coverage'')
      else if \<not> ap_provenance p then Inl (ValueError ''provenance policy'')
      else if ap_conflict p \<noteq> lit ''separate_sources'' then Inl (ValueError ''conflict mode'')
      else Inr p)"

record rag_source =
  vs_document :: uuid
  vs_number :: int
  vs_media :: pystr
  vs_chunk :: retrieved_chunk
  vs_score :: py_float

record evidence_answer =
  an_source :: rag_source
  an_evidence :: evidence_unit
  an_excerpt :: pystr
  an_highlights :: "highlight_span list"
  an_coverage :: "rat option"
  an_score :: "py_float option"
  an_warnings :: "pystr list"

record evidence_selection =
  se_status :: answer_status
  se_answer :: "evidence_answer option"
  se_conflict :: conflict_state
  se_conflicts :: "evidence_answer list"
  se_warnings :: "pystr list"
  se_candidates :: "evidence_answer list"

section \<open>Provenance\<close>

definition provenance_warnings :: "rag_source \<Rightarrow> evidence_unit \<Rightarrow> pystr list" where
  "provenance_warnings src u =
     (if ev_chunk u \<noteq> Some (rc_chunk (vs_chunk src)) then [lit ''chunk_provenance_incomplete''] else [])
     @ (if ev_projection u \<noteq> Some (rc_projection (vs_chunk src)) then [lit ''projection_provenance_incomplete''] else [])
     @ (if lc_end (ev_location u) \<le> lc_start (ev_location u) then [lit ''text_offsets_incomplete''] else [])
     @ (if vs_media src = lit ''application/pdf''
        then (if lc_page (ev_location u) = None then [lit ''pdf_page_incomplete''] else [])
             @ (if lc_bbox (ev_location u) = None then [lit ''pdf_bbox_incomplete''] else [])
        else if lc_bbox (ev_location u) \<noteq> None \<and> lc_page (ev_location u) = None then [lit ''page_number_incomplete''] else [])"

definition selection_candidates :: "rag_source list \<Rightarrow> (rag_source \<times> evidence_unit \<times> pystr list) list" where
  "selection_candidates sources =
     concat (map (\<lambda>s. map (\<lambda>u. (s, u, provenance_warnings s u)) (rc_units (vs_chunk s))) sources)"

fun eligible_items :: "uuid list \<Rightarrow> (rag_source \<times> evidence_unit \<times> pystr list) list \<Rightarrow> (rag_source \<times> evidence_unit) list" where
  "eligible_items seen [] = []"
| "eligible_items seen ((s, u, ws) # xs) =
     (if ws \<noteq> [] \<or> ev_id u \<in> set seen then eligible_items seen xs else (s, u) # eligible_items (ev_id u # seen) xs)"

section \<open>Cosine similarity\<close>

definition is_finite :: "py_float \<Rightarrow> bool" where
  "is_finite x \<longleftrightarrow> (case x of Finite _ \<Rightarrow> True | _ \<Rightarrow> False)"

definition cosine_similarity :: "float_ops \<Rightarrow> py_float list \<Rightarrow> py_float list \<Rightarrow> py_float res" where
  "cosine_similarity F a b =
     (if a = [] \<or> length a \<noteq> length b then Inl (ValueError ''vector dimensions'')
      else if \<not> list_all is_finite (a @ b) then Inl (ValueError ''vector values'')
      else rbind (rbind (mapr (fo_square F) a) (\<lambda>xs. fo_sqrt F (fo_sum F xs))) (\<lambda>left_norm.
           rbind (rbind (mapr (fo_square F) b) (\<lambda>xs. fo_sqrt F (fo_sum F xs))) (\<lambda>right_norm.
             if left_norm = Finite 0 \<or> right_norm = Finite 0 then Inr (Finite 0)
             else fo_div F (fo_sum F (map2 (fo_mul F) a b)) (fo_mul F left_norm right_norm))))"

section \<open>Answers\<close>

definition keyword_answer :: "text_env \<Rightarrow> pystr list \<Rightarrow> answer_policy \<Rightarrow> rag_source \<times> evidence_unit \<Rightarrow> evidence_answer list" where
  "keyword_answer E terms p item =
     (case item of (s, u) \<Rightarrow>
        let r = highlights_of E terms (ev_text u) (ev_location u) (ev_id u)
        in if kr_highlights r = [] \<or> float_less (Finite (kr_coverage r)) (ap_keyword p) then []
           else [\<lparr>an_source = s, an_evidence = u, an_excerpt = ev_text u, an_highlights = kr_highlights r,
                  an_coverage = Some (kr_coverage r), an_score = None, an_warnings = provenance_warnings s u\<rparr>])"

definition coverage_key :: "evidence_answer \<Rightarrow> nat \<times> rat" where
  "coverage_key a = float_key (float_neg (Finite (case an_coverage a of Some c \<Rightarrow> c | None \<Rightarrow> - 1)))"

text \<open>A stable descending sort is a stable sort by the negated key; a NaN goes last.\<close>

definition keyword_answers ::
  "text_env \<Rightarrow> pystr list \<Rightarrow> (rag_source \<times> evidence_unit) list \<Rightarrow> answer_policy \<Rightarrow> evidence_answer list" where
  "keyword_answers E terms items p = sort_key coverage_key (concat (map (keyword_answer E terms p) items))"

definition semantic_answer ::
  "float_ops \<Rightarrow> py_float list \<Rightarrow> answer_policy \<Rightarrow> (rag_source \<times> evidence_unit) \<times> py_float list \<Rightarrow> evidence_answer list res" where
  "semantic_answer F query_vector p itemv =
     (case itemv of ((s, u), v) \<Rightarrow>
        rbind (cosine_similarity F query_vector v) (\<lambda>score.
          Inr (if float_less score (ap_semantic p) then []
               else [\<lparr>an_source = s, an_evidence = u, an_excerpt = ev_text u, an_highlights = [semantic_highlight u score],
                      an_coverage = None, an_score = Some score, an_warnings = provenance_warnings s u\<rparr>])))"

definition score_key :: "evidence_answer \<Rightarrow> (nat \<times> rat) \<times> nat \<times> rat" where
  "score_key a =
     (float_key (float_neg (case an_score a of Some x \<Rightarrow> x | None \<Rightarrow> Finite (- 1))),
      float_key (float_neg (vs_score (an_source a))))"

definition semantic_answers ::
  "float_ops \<Rightarrow> evidence_embedding \<Rightarrow> pystr \<Rightarrow> (rag_source \<times> evidence_unit) list \<Rightarrow> answer_policy \<Rightarrow> evidence_answer list res" where
  "semantic_answers F em query items p =
     (if items = [] then Inr []
      else rbind (em_query em query) (\<lambda>qv.
           rbind (em_documents em (map (ev_text \<circ> snd) items)) (\<lambda>vs.
             if length vs \<noteq> length items then Inl (ValueError ''embedding count'')
             else rbind (mapr (semantic_answer F qv p) (zip items vs)) (\<lambda>as. Inr (sort_key score_key (concat as))))))"

section \<open>Direct conflicts\<close>

definition recognized_units :: "pystr list" where
  "recognized_units =
     [[54140, 49468, 53944], [50613, 50896], [47564, 50896], [44060, 50900], [37], [50896],
      [45380], [51068]]"

definition unit_suffixes :: "pystr list" where
  "unit_suffixes =
     [[51077, 45768, 45796], [51004, 47196], [50640, 49436], [48512, 53552], [44620, 51648], [48372, 45796],
      [51008], [45716], [51060], [44032], [51012], [47484],
      [51032], [50640], [47196]]"

definition is_decimal :: "nat \<Rightarrow> bool" where
  "is_decimal c \<longleftrightarrow> py_decimal c \<noteq> None"

definition digit_run :: "pystr \<Rightarrow> nat \<Rightarrow> nat" where
  "digit_run s i = length (takeWhile is_decimal (drop i s))"

function comma_groups :: "pystr \<Rightarrow> nat \<Rightarrow> nat" where
  "comma_groups s i =
     (if i + 4 \<le> length s \<and> s ! i = 44 \<and> is_decimal (s ! (i + 1)) \<and> is_decimal (s ! (i + 2)) \<and> is_decimal (s ! (i + 3))
      then comma_groups s (i + 4) else i)"
  by pat_completeness auto
termination by (relation "measure (\<lambda>(s, i). length s - i)") auto

declare comma_groups.simps [simp del]

text \<open>The end of \<^verbatim>\<open>(?:\d{1,3}(?:,\d{3})+|\d+)(?:\.\d+)?\<close> and of the same with a sign before it.\<close>

definition unsigned_end :: "pystr \<Rightarrow> nat \<Rightarrow> nat option" where
  "unsigned_end s i =
     (let n = digit_run s i;
          j = (if n \<le> 3 then comma_groups s (i + n) else i + n)
      in if n = 0 then None
         else if j < length s \<and> s ! j = 46 \<and> digit_run s (j + 1) > 0 then Some (j + 1 + digit_run s (j + 1))
         else Some j)"

definition numeric_end :: "pystr \<Rightarrow> nat \<Rightarrow> nat option" where
  "numeric_end s i = unsigned_end s (if i < length s \<and> (s ! i = 43 \<or> s ! i = 45) then i + 1 else i)"

function numeric_matches :: "pystr \<Rightarrow> nat \<Rightarrow> (nat \<times> nat) list" where
  "numeric_matches s i =
     (if i \<ge> length s then []
      else case numeric_end s i of
          None \<Rightarrow> numeric_matches s (Suc i)
        | Some e \<Rightarrow> (i, e) # (if e \<le> i then [] else numeric_matches s e))"
  by pat_completeness auto
termination by (relation "measure (\<lambda>(s, i). length s - i)") auto

declare numeric_matches.simps [simp del]

text \<open>\<^verbatim>\<open>Decimal\<close> of a matched number without its commas.\<close>

definition decimal_digits :: "pystr \<Rightarrow> nat" where
  "decimal_digits ds = foldl (\<lambda>n c. 10 * n + (case py_decimal c of Some d \<Rightarrow> d | None \<Rightarrow> 0)) 0 ds"

definition decimal_value :: "pystr \<Rightarrow> rat" where
  "decimal_value s =
     (let t = filter (\<lambda>c. c \<noteq> 44) s;
          body = dropWhile (\<lambda>c. c = 43 \<or> c = 45) t;
          whole = takeWhile (\<lambda>c. c \<noteq> 46) body;
          frac = drop 1 (dropWhile (\<lambda>c. c \<noteq> 46) body);
          x = of_nat (decimal_digits (whole @ frac)) / 10 ^ length frac
      in if take 1 t = [45] then - x else x)"

definition token_at :: "text_env \<Rightarrow> pystr \<Rightarrow> nat \<Rightarrow> bool" where
  "token_at E s i \<longleftrightarrow> i \<noteq> length s \<and> te_token E (s ! i)"

definition has_numeric_unit_boundary :: "text_env \<Rightarrow> pystr \<Rightarrow> nat \<Rightarrow> bool" where
  "has_numeric_unit_boundary E s i \<longleftrightarrow>
     \<not> token_at E s i
     \<or> list_ex (\<lambda>t. starts_at t s i \<and> \<not> token_at E s (i + length t)) unit_suffixes"

definition recognized_unit_after :: "text_env \<Rightarrow> pystr \<Rightarrow> nat \<Rightarrow> pystr option" where
  "recognized_unit_after E s stop =
     (let i = skip_spaces s stop (length s)
      in List.find (\<lambda>u. starts_at u s i \<and> has_numeric_unit_boundary E s (i + length u)) recognized_units)"

definition single_numeric_claim :: "text_env \<Rightarrow> pystr \<Rightarrow> (rat \<times> pystr) option" where
  "single_numeric_claim E n =
     (case numeric_matches n 0 of
        [(a, b)] \<Rightarrow>
          (case recognized_unit_after E n b of
             None \<Rightarrow> None
           | Some u \<Rightarrow> Some (decimal_value (slice n a b), if u = [54140, 49468, 53944] then [37] else u))
      | _ \<Rightarrow> None)"

text \<open>The patterns of possibility and permission: for each the positive and the negative ones.\<close>

definition polarity_patterns :: "text_env \<Rightarrow> (pystr \<times> pattern list \<times> pattern list) list" where
  "polarity_patterns E =
     (let w = word_char E; sp = Many py_isspace
      in [(lit ''possibility'',
           [Then (NotBehind (\<lambda>c. c = 48520)) (Exactly [44032, 45733]),
            in_turn [Exactly [54624], sp, Exactly [49688], sp, Exactly [51080]],
            whole_word w (lit ''can'')],
           [Exactly [48520, 44032, 45733],
            in_turn [Exactly [44032, 45733, 54616, 51648], sp, Exactly [50506]],
            in_turn [Exactly [54624], sp, Exactly [49688], sp, Exactly [50630]],
            whole_word w (lit ''cannot'')]),
          (lit ''permission'',
           [Exactly [54728, 50857], whole_word w (lit ''allowed''), whole_word w (lit ''permitted'')],
           [Exactly [44552, 51648],
            in_turn [Exactly [54728, 50857, 46104, 51648], sp, Exactly [50506]],
            in_turn [Boundary w, Exactly (lit ''not''), some_of py_isspace, Exactly (lit ''allowed''), Boundary w],
            whole_word w (lit ''prohibited'')])])"

definition explicit_polarity :: "text_env \<Rightarrow> pystr \<Rightarrow> (pystr \<times> bool) option" where
  "explicit_polarity E n =
     (case concat (map (\<lambda>(predicate, positive, negative).
          if any_found negative n then [(predicate, False)]
          else if any_found positive n then [(predicate, True)] else []) (polarity_patterns E)) of
        [claim] \<Rightarrow> Some claim
      | _ \<Rightarrow> None)"

definition same_claim_key :: "pystr list \<Rightarrow> pystr \<Rightarrow> pystr \<Rightarrow> bool" where
  "same_claim_key terms a b =
     (let subject = filter (\<lambda>t. length t \<ge> 2 \<and> \<not> list_ex py_isdigit t) terms
      in list_ex (\<lambda>(x, y). contains (x @ [32] @ y) a \<and> contains (x @ [32] @ y) b) (zip subject (drop 1 subject)))"

definition directly_incompatible :: "text_env \<Rightarrow> pystr list \<Rightarrow> evidence_answer \<Rightarrow> evidence_answer \<Rightarrow> bool" where
  "directly_incompatible E terms x y =
     (let a = normalize_text E (an_excerpt x); b = normalize_text E (an_excerpt y)
      in same_claim_key terms a b
         \<and> ((case (single_numeric_claim E a, single_numeric_claim E b) of
               (Some (m, u), Some (n, v)) \<Rightarrow> u \<noteq> [] \<and> u = v \<and> m \<noteq> n
             | _ \<Rightarrow> False)
            \<or> (case (explicit_polarity E a, explicit_polarity E b) of
                 (Some (p, m), Some (q, n)) \<Rightarrow> p = q \<and> m \<noteq> n
               | _ \<Rightarrow> False)))"

fun conflict_loop ::
  "text_env \<Rightarrow> pystr list \<Rightarrow> evidence_answer \<Rightarrow> uuid list \<Rightarrow> evidence_answer list \<Rightarrow> evidence_answer list" where
  "conflict_loop E terms primary documents [] = []"
| "conflict_loop E terms primary documents (a # as) =
     (if vs_document (an_source a) = vs_document (an_source primary) \<or> vs_document (an_source a) \<in> set documents
      then conflict_loop E terms primary documents as
      else if directly_incompatible E terms primary a
      then a # conflict_loop E terms primary (vs_document (an_source a) # documents) as
      else conflict_loop E terms primary documents as)"

section \<open>Selection\<close>

definition selection_of :: "text_env \<Rightarrow> pystr list \<Rightarrow> pystr list \<Rightarrow> evidence_answer list \<Rightarrow> evidence_selection" where
  "selection_of E terms warnings answers =
     (case answers of
        [] \<Rightarrow> \<lparr>se_status = INSUFFICIENT_EVIDENCE, se_answer = None, se_conflict = NO_CONFLICT, se_conflicts = [],
               se_warnings = warnings, se_candidates = []\<rparr>
      | primary # others \<Rightarrow>
          let conflicts = conflict_loop E terms primary [] others
          in \<lparr>se_status = SUPPORTED, se_answer = Some primary,
              se_conflict = (if conflicts = [] then NO_CONFLICT else SEPARATE_SOURCES), se_conflicts = conflicts,
              se_warnings = warnings, se_candidates = answers\<rparr>)"

definition selector_matcher :: "text_env \<Rightarrow> pystr \<Rightarrow> keyword_matcher option \<Rightarrow> keyword_matcher res" where
  "selector_matcher E query keywords =
     (let km = (case keywords of Some k \<Rightarrow> k | None \<Rightarrow> new_matcher E query)
      in rbind (validate_query query km) (\<lambda>_. Inr km))"

definition select_evidence ::
  "text_env \<Rightarrow> float_ops \<Rightarrow> evidence_embedding \<Rightarrow> pystr \<Rightarrow> rag_source list \<Rightarrow> answer_policy \<Rightarrow> keyword_matcher option
     \<Rightarrow> evidence_selection res" where
  "select_evidence E F em query sources p keywords =
     (if \<not> ap_provenance p then Inl (ValueError ''provenance policy'')
      else rbind (selector_matcher E query keywords) (\<lambda>km.
        let candidates = selection_candidates sources;
            eligible = eligible_items [] candidates;
            warnings = dict_fromkeys (concat (map (snd \<circ> snd) candidates));
            by_keyword = keyword_answers E (km_terms km) eligible p;
            keyword_ids = map (ev_id \<circ> an_evidence) by_keyword
        in rbind (semantic_answers F em query (filter (\<lambda>item. ev_id (snd item) \<notin> set keyword_ids) eligible) p)
             (\<lambda>by_meaning. Inr (selection_of E (km_terms km) warnings (by_keyword @ by_meaning)))))"

end
