(* ===== verification/Structural_Context.thy ===== *)
theory Structural_Context
  imports Evidence_Selection
begin

text \<open>
  Grids of a PDF chunk (\<^verbatim>\<open>labs/rag/highlighting/structural_context.py\<close>): the units of a whole chunk,
  seen as rows of cells by their coordinates, match a question by the text of a cell.
\<close>

section \<open>Boxes and normalised text\<close>

text \<open>\<^verbatim>\<open>" ".join(normalize(s).casefold().split())\<close>.\<close>

definition normalize_words :: "text_env \<Rightarrow> pystr \<Rightarrow> pystr" where
  "normalize_words E s = py_join [32] (py_split (fold_text E s))"

type_synonym finite_box = "rat \<times> rat \<times> rat \<times> rat"

text \<open>A box of finite coordinates that is neither empty nor inside out.\<close>

definition proper_box :: "evidence_unit \<Rightarrow> finite_box option" where
  "proper_box u =
     (case lc_bbox (ev_location u) of
        Some (Finite a, Finite b, Finite c, Finite d) \<Rightarrow> if a \<ge> c \<or> b \<ge> d then None else Some (a, b, c, d)
      | _ \<Rightarrow> None)"

type_synonym grid_cell = "evidence_unit \<times> finite_box"

definition cell_left :: "grid_cell \<Rightarrow> rat" where
  "cell_left x = fst (snd x)"

definition cell_right :: "grid_cell \<Rightarrow> rat" where
  "cell_right x = fst (snd (snd (snd x)))"

definition cell_band :: "grid_cell \<Rightarrow> rat \<times> rat" where
  "cell_band x = (fst (snd (snd x)), snd (snd (snd (snd x))))"

text \<open>The cells of a list of units, or \<open>None\<close> when a unit has no proper box.\<close>

fun boxed_cells :: "evidence_unit list \<Rightarrow> grid_cell list option" where
  "boxed_cells [] = Some []"
| "boxed_cells (u # us) =
     (case proper_box u of
        None \<Rightarrow> None
      | Some b \<Rightarrow> (case boxed_cells us of None \<Rightarrow> None | Some cs \<Rightarrow> Some ((u, b) # cs)))"

section \<open>The grid\<close>

record grid_candidate =
  gc_eligible :: bool
  gc_reason :: pystr

definition refused_grid :: "string \<Rightarrow> grid_candidate" where
  "refused_grid r = \<lparr>gc_eligible = False, gc_reason = lit r\<rparr>"

text \<open>The dictionaries \<^verbatim>\<open>{u.id: u}\<close> of two lists are equal; the last unit of an identifier wins.\<close>

definition same_units :: "evidence_unit list \<Rightarrow> evidence_unit list \<Rightarrow> bool" where
  "same_units us vs \<longleftrightarrow>
     list_all (\<lambda>k. row_by ev_id k (rev us) = row_by ev_id k (rev vs)) (map ev_id us @ map ev_id vs)"

definition complete_source :: "rag_source \<Rightarrow> evidence_unit list \<Rightarrow> bool" where
  "complete_source src us \<longleftrightarrow>
     us \<noteq> [] \<and> length us = length (rc_units (vs_chunk src)) \<and> distinct (map ev_id us)
     \<and> same_units us (rc_units (vs_chunk src))
     \<and> \<not> list_ex (\<lambda>u. provenance_warnings src u \<noteq> [] \<or> strip (ev_text u) = []) us"

definition unit_surface :: "evidence_unit \<Rightarrow> int option \<times> source_kind \<times> pystr option \<times> pystr option" where
  "unit_surface u = (let l = ev_location u in (lc_page l, lc_kind l, lc_part l, lc_sha256 l))"

text \<open>The rows from top to bottom, each from left to right.\<close>

definition grid_bands :: "grid_cell list \<Rightarrow> (rat \<times> rat) list" where
  "grid_bands cs = sort (remdups (map cell_band cs))"

definition grid_rows :: "grid_cell list \<Rightarrow> grid_cell list list" where
  "grid_rows cs = map (\<lambda>b. sort_key cell_left (filter (\<lambda>c. cell_band c = b) cs)) (grid_bands cs)"

definition bands_overlap :: "(rat \<times> rat) list \<Rightarrow> bool" where
  "bands_overlap bs \<longleftrightarrow> list_ex (\<lambda>(x, y). snd x > fst y) (zip bs (drop 1 bs))"

definition grid_indices :: "grid_cell list list \<Rightarrow> nat list" where
  "grid_indices rows = filter (\<lambda>i. length (rows ! i) > 1) [0..<length rows]"

definition row_in_columns :: "rat list \<Rightarrow> grid_cell list \<Rightarrow> bool" where
  "row_in_columns columns row \<longleftrightarrow>
     map cell_left row = columns \<and> \<not> list_ex (\<lambda>(x, y). cell_right x \<ge> cell_left y) (zip row (drop 1 row))"

text \<open>Cell coordinates, where a unit carries them, number the grid row by row and column by column.\<close>

definition consistent_cell_coordinates :: "grid_cell list list \<Rightarrow> evidence_unit list \<Rightarrow> bool" where
  "consistent_cell_coordinates grid us =
     (let ids = map (ev_id \<circ> fst) (concat grid);
          cell = (\<lambda>c. lc_cell (ev_location (fst c)))
      in if list_ex (\<lambda>u. lc_cell (ev_location u) \<noteq> None \<and> ev_id u \<notin> set ids) us then False
         else if list_ex (\<lambda>c. case cell c of None \<Rightarrow> True | Some t \<Rightarrow> tc_row_span t \<noteq> 1 \<or> tc_column_span t \<noteq> 1) (concat grid)
         then False
         else (case cell (grid ! 0 ! 0) of
             None \<Rightarrow> False
           | Some s \<Rightarrow>
               list_all (\<lambda>(r, row). list_all (\<lambda>(c, x).
                   case cell x of None \<Rightarrow> False
                   | Some t \<Rightarrow> tc_row t = tc_row s + int r \<and> tc_column t = tc_column s + int c) (enumerate 0 row))
                 (enumerate 0 grid)))"

text \<open>A cell's whole text occurs in the question, between characters that continue no word.\<close>

definition word_or_dash :: "text_env \<Rightarrow> nat \<Rightarrow> bool" where
  "word_or_dash E c \<longleftrightarrow> word_char E c \<or> c = 45"

definition whole_cell_match :: "text_env \<Rightarrow> pystr \<Rightarrow> pystr \<Rightarrow> bool" where
  "whole_cell_match E query t =
     (let cell = normalize_words E t
      in list_ex (te_alpha E) cell
         \<and> found (in_turn [NotBehind (word_or_dash E), Exactly cell, NotAhead (word_or_dash E)]) (normalize_words E query))"

definition inspect_rows :: "text_env \<Rightarrow> pystr \<Rightarrow> evidence_unit list \<Rightarrow> grid_cell list \<Rightarrow> grid_candidate" where
  "inspect_rows E query us cs =
     (let ordered = grid_rows cs; indices = grid_indices ordered; grid = map (\<lambda>i. ordered ! i) indices;
          marked = list_ex (\<lambda>u. lc_cell (ev_location u) \<noteq> None) us
      in if bands_overlap (grid_bands cs) then refused_grid ''ambiguous_structure''
         else if indices = [] then refused_grid ''missing_structure''
         else if length indices < 2 \<or> indices \<noteq> [hd indices..<Suc (last indices)] then refused_grid ''ambiguous_structure''
         else if \<not> list_all (row_in_columns (map cell_left (hd grid))) grid then refused_grid ''ambiguous_structure''
         else if marked \<and> \<not> consistent_cell_coordinates grid us then refused_grid ''ambiguous_structure''
         else if \<not> list_ex (\<lambda>c. whole_cell_match E query (ev_text (fst c))) (concat grid) then refused_grid ''no_cell_match''
         else \<lparr>gc_eligible = True, gc_reason = (if marked then lit ''cell_coordinates_match'' else lit ''bbox_grid_match'')\<rparr>)"

definition inspect_grid_candidate :: "text_env \<Rightarrow> pystr \<Rightarrow> rag_source \<Rightarrow> evidence_unit list \<Rightarrow> grid_candidate" where
  "inspect_grid_candidate E query src us =
     (if vs_media src \<noteq> lit ''application/pdf'' then refused_grid ''unsupported_source''
      else if \<not> complete_source src us then refused_grid ''incomplete_source''
      else if length (remdups (map unit_surface us)) \<noteq> 1 then refused_grid ''ambiguous_structure''
      else case boxed_cells us of
          None \<Rightarrow> refused_grid ''ambiguous_structure''
        | Some cs \<Rightarrow> inspect_rows E query us cs)"

end
