(* ===== verification/Table_Context.thy ===== *)
theory Table_Context
  imports Structural_Context
begin

text \<open>
  The target column of a PDF attribute table (\<^verbatim>\<open>labs/rag/highlighting/table_context.py\<close>): for a
  question about one product of a regular table, the columns of the others are left out and
  everything else is kept.  The patterns are the source's, Korean words as code points.
\<close>

section \<open>Vocabulary\<close>

definition header_labels :: "pystr list" where
  "header_labels = [[54637, 47785], [44396, 48516], lit ''item'', lit ''attribute'']"

definition payment_labels :: "pystr list" where
  "payment_labels =
     [[45824, 44552, 32, 51648, 44553, 51068], [54872, 47588, 32, 45824, 44552, 32, 51648, 44553, 51068], [54872, 47588, 45824, 44552, 32, 51648, 44553, 51068],
      lit ''payment date'', lit ''payment timing'', lit ''payout date'']"

definition particles :: "pystr list" where
  "particles = [[51012], [47484], [51008], [45716], [51060], [44032], [51032], [50640], [50752], [44284]]"

definition action_pattern :: "text_env \<Rightarrow> pattern" where
  "action_pattern E =
     (let w = word_char E in
      one_of [Exactly [54872, 47588],
         Exactly [54788, 44552, 54868],
         Exactly [51064, 52636],
         in_turn [Boundary w, Exactly (lit ''redeem''), Many w, Boundary w],
         whole_word w (lit ''redemption''),
         whole_word w (lit ''cash out''),
         in_turn [Boundary w, Exactly (lit ''withdraw''), Many w, Boundary w]])"

definition time_pattern :: "text_env \<Rightarrow> pattern" where
  "time_pattern E =
     (let w = word_char E; sp = Many py_isspace in
      one_of [Exactly [50616, 51228],
         Exactly [47728, 52832],
         in_turn [Exactly [47751], sp, Exactly [51068]],
         Exactly [51648, 44553, 51068],
         whole_word w (lit ''when''),
         whole_word w (lit ''how many days''),
         whole_word w (lit ''how long'')])"

definition receive_pattern :: "text_env \<Rightarrow> pattern" where
  "receive_pattern E =
     (let w = word_char E; dots = Many (\<lambda>c. c \<noteq> 10) in
      one_of [in_turn [one_of [Exactly [46024], Exactly [45824, 44552], Exactly [54788, 44552]], dots, Exactly [48155]],
         in_turn [Exactly [45824, 44552], dots, Exactly [51648, 44553]],
         in_turn [whole_word w (lit ''receive''), dots, one_of [whole_word w (lit ''money''), whole_word w (lit ''payment''), whole_word w (lit ''proceeds'')]]])"

definition unsupported_pattern :: "text_env \<Rightarrow> pattern" where
  "unsupported_pattern E =
     (let w = word_char E; sp = Many py_isspace in
      one_of [Exactly [50506],
         Exactly [50500, 45768],
         Exactly [50500, 45772],
         Exactly [50630],
         Exactly [47803],
         Exactly [47568, 44256],
         in_turn [Exactly [50504], sp, one_of [Exactly [48155], Exactly [54616], Exactly [46104], Exactly [51452], Exactly [51648, 44553], Exactly [54872, 47588]]],
         Exactly [48708, 44368],
         Exactly [45824, 48708],
         Exactly [52264, 51060],
         in_turn [Exactly [45796, 47480], sp, Exactly [49345, 54408]],
         whole_word w (lit ''not''),
         whole_word w (lit ''never''),
         whole_word w (lit ''without''),
         whole_word w (lit ''compare''),
         whole_word w (lit ''versus''),
         whole_word w (lit ''other''),
         whole_word w (lit ''both''),
         whole_word w (lit ''difference''),
         in_turn [Exactly [110], OneOf (\<lambda>c. c = 39 \<or> c = 8217), Exactly [116], Boundary w]])"

definition non_payment_pattern :: "text_env \<Rightarrow> pattern" where
  "non_payment_pattern E =
     (let w = word_char E in
      one_of [Exactly [49688, 51061],
         Exactly [49688, 49688, 47308],
         Exactly [44032, 44201],
         Exactly [51060, 51088],
         whole_word w (lit ''rate''),
         whole_word w (lit ''price''),
         whole_word w (lit ''fee''),
         whole_word w (lit ''interest'')])"

definition comparison_pattern :: "text_env \<Rightarrow> pattern" where
  "comparison_pattern E =
     (let w = word_char E; sp = Many py_isspace in
      one_of [Exactly [48372, 45796],
         Exactly [44032, 51109],
         in_turn [Exactly [45908], sp, one_of [Exactly [48736], Exactly [45734], Exactly [45458], Exactly [45230], Exactly [53356], Exactly [51089]]],
         whole_word w (lit ''vs''),
         whole_word w (lit ''than''),
         whole_word w (lit ''earlier''),
         whole_word w (lit ''later''),
         whole_word w (lit ''higher''),
         whole_word w (lit ''lower''),
         whole_word w (lit ''earliest''),
         whole_word w (lit ''latest''),
         whole_word w (lit ''highest''),
         whole_word w (lit ''lowest'')])"

definition reference_pattern :: "text_env \<Rightarrow> pattern" where
  "reference_pattern E =
     (let w = word_char E in
      one_of [Exactly [46041, 51068],
         Exactly [49345, 46041],
         in_turn [Exactly [44057], OneOf (\<lambda>c. c = 51020 \<or> c = 51008 \<or> c = 45796)],
         Exactly [52280, 51312],
         Exactly [51340, 52769],
         Exactly [50864, 52769],
         Exactly [50812, 51901],
         Exactly [50724, 47480, 51901],
         Exactly [12291],
         Exactly [8243],
         whole_word w (lit ''same''),
         whole_word w (lit ''ditto''),
         whole_word w (lit ''above''),
         whole_word w (lit ''below''),
         whole_word w (lit ''refer''),
         whole_word w (lit ''see'')])"

definition shared_cell_pattern :: "text_env \<Rightarrow> pattern" where
  "shared_cell_pattern E =
     (let w = word_char E; sp = Many py_isspace in
      one_of [Exactly [47784, 46160],
         Exactly [44277, 53685],
         Exactly [51204, 48512],
         in_turn [Exactly [47784, 46304], sp, Exactly [49345, 54408]],
         in_turn [Exactly [51204, 52404], sp, Exactly [49345, 54408]],
         whole_word w (lit ''both''),
         whole_word w (lit ''all''),
         whole_word w (lit ''shared''),
         whole_word w (lit ''common'')])"

section \<open>Labels\<close>

text \<open>A whole label, possibly followed by one particle.\<close>

definition label_pattern :: "text_env \<Rightarrow> pystr \<Rightarrow> pattern" where
  "label_pattern E label =
     in_turn [NotBehind (word_or_dash E), Exactly label,
       Ahead (Then (optionally (one_of (map Exactly particles))) (Either (OneOf (\<lambda>c. \<not> word_char E c)) AtEnd))]"

fun mentions_tokens :: "text_env \<Rightarrow> pystr \<Rightarrow> pystr list \<Rightarrow> bool" where
  "mentions_tokens E q [] = True"
| "mentions_tokens E q (t # ts) =
     (case search_from (label_pattern E t) q 0 of None \<Rightarrow> False | Some (_, stop) \<Rightarrow> mentions_tokens E (drop stop q) ts)"

definition mentions_attribute :: "text_env \<Rightarrow> pystr \<Rightarrow> pystr \<Rightarrow> bool" where
  "mentions_attribute E q label \<longleftrightarrow> mentions_tokens E q (py_split label) \<and> label \<noteq> []"

section \<open>The page counter below a table\<close>

text \<open>\<^verbatim>\<open>([0-9]{1,6})\s*/\s*([0-9]{1,6})\<close>, matched in full.\<close>

definition page_counter :: "pystr \<Rightarrow> (nat \<times> nat) option" where
  "page_counter s =
     (let digit = (\<lambda>c. 48 \<le> c \<and> c \<le> 57); a = takeWhile digit s; r = dropWhile py_isspace (dropWhile digit s);
          b = dropWhile py_isspace (drop 1 r)
      in if 1 \<le> length a \<and> length a \<le> 6 \<and> take 1 r = [47] \<and> list_all digit b \<and> 1 \<le> length b \<and> length b \<le> 6
         then Some (decimal_digits a, decimal_digits b) else None)"

definition py_min :: "py_float list \<Rightarrow> py_float" where
  "py_min xs = foldl (\<lambda>m x. if float_less x m then x else m) (hd xs) (tl xs)"

definition py_max :: "py_float list \<Rightarrow> py_float" where
  "py_max xs = foldl (\<lambda>m x. if float_less m x then x else m) (hd xs) (tl xs)"

definition cell_height :: "float_ops \<Rightarrow> grid_cell \<Rightarrow> py_float" where
  "cell_height F c = fo_sub F (Finite (snd (cell_band c))) (Finite (fst (cell_band c)))"

definition detached_page_footer ::
  "text_env \<Rightarrow> float_ops \<Rightarrow> grid_cell list \<Rightarrow> grid_cell list list \<Rightarrow> grid_cell list \<Rightarrow> bool" where
  "detached_page_footer E F row table body =
     (if length row \<noteq> 2 \<or> table = [] \<or> body = [] then False
      else let left = row ! 0; right = row ! 1; grid = concat table
           in case page_counter (normalize_words E (ev_text (fst right))) of
                None \<Rightarrow> False
              | Some (n, m) \<Rightarrow>
                  Some (int n) = lc_page (ev_location (fst right)) \<and> 0 < n \<and> n \<le> m
                  \<and> list_all (\<lambda>c. cell_left c = cell_left left) body
                  \<and> float_less (Finite (cell_left left)) (py_min (map (Finite \<circ> cell_left) grid))
                  \<and> cell_right left < cell_left right
                  \<and> float_less (py_max (map (Finite \<circ> cell_right) grid)) (Finite (cell_left right))
                  \<and> float_less (cell_height F left) (py_min (map (cell_height F) (grid @ body)))
                  \<and> float_less (fo_mul F (Finite 2) (py_max (map (cell_height F) body)))
                      (fo_sub F (Finite (fst (cell_band left))) (Finite (snd (cell_band (last body))))))"

section \<open>Rows\<close>

text \<open>Consecutive units of one band are a row; a row that starts above the end of the last one is refused.\<close>

fun row_loop :: "grid_cell list \<Rightarrow> grid_cell list list \<Rightarrow> grid_cell list list option" where
  "row_loop [] rows = Some rows"
| "row_loop (c # cs) rows =
     (if rows = [] then row_loop cs [[c]]
      else let previous = hd (last rows)
           in if cell_band c = cell_band previous then row_loop cs (butlast rows @ [last rows @ [c]])
              else if fst (cell_band c) < snd (cell_band previous) then None
              else row_loop cs (rows @ [[c]]))"

definition aligned_row :: "grid_cell list \<Rightarrow> grid_cell list \<Rightarrow> bool" where
  "aligned_row header row \<longleftrightarrow>
     length row = length header \<and> map cell_left row = map cell_left header
     \<and> \<not> list_ex (\<lambda>(x, y). cell_right x \<ge> cell_left y) (zip row (drop 1 row))"

text \<open>The rows of the table and the prose below it; only a page footer may follow the prose.\<close>

fun table_loop ::
  "text_env \<Rightarrow> float_ops \<Rightarrow> grid_cell list \<Rightarrow> grid_cell list list \<Rightarrow> grid_cell list list \<Rightarrow> grid_cell list
     \<Rightarrow> (grid_cell list list \<times> grid_cell list) option" where
  "table_loop E F header [] table body = Some (table, body)"
| "table_loop E F header (row # rows) table body =
     (if length row = 1 then table_loop E F header rows table (body @ row)
      else if body \<noteq> [] then
        (if rows = [] \<and> detached_page_footer E F row table body then Some (table, body) else None)
      else if \<not> aligned_row header row then None
      else table_loop E F header rows (table @ [row]) body)"

section \<open>The projection\<close>

definition cell_text :: "text_env \<Rightarrow> grid_cell \<Rightarrow> pystr" where
  "cell_text E c = normalize_words E (ev_text (fst c))"

definition header_rows :: "text_env \<Rightarrow> grid_cell list list \<Rightarrow> nat list" where
  "header_rows E rows =
     filter (\<lambda>i. length (rows ! i) \<ge> 3 \<and> cell_text E (rows ! i ! 0) \<in> set header_labels) [0..<length rows]"

definition target_columns :: "text_env \<Rightarrow> pystr \<Rightarrow> pystr list \<Rightarrow> nat list" where
  "target_columns E q labels = filter (\<lambda>i. found (label_pattern E (labels ! i)) q) [1..<length labels]"

definition asks_for_attribute :: "text_env \<Rightarrow> pystr \<Rightarrow> pystr \<Rightarrow> pystr list \<Rightarrow> bool" where
  "asks_for_attribute E q target attributes \<longleftrightarrow>
     list_ex (mentions_attribute E (replace_from (label_pattern E target) [32] q 0)) attributes
     \<or> (\<not> found (non_payment_pattern E) q
         \<and> found (action_pattern E) q \<and> found (time_pattern E) q \<and> found (receive_pattern E) q
         \<and> length (filter (\<lambda>a. a \<in> set payment_labels) attributes) = 1)"

text \<open>A cell that speaks of several columns: shared values, comparisons, another product's label.\<close>

definition entangled_cell :: "text_env \<Rightarrow> pystr list \<Rightarrow> nat \<times> grid_cell \<Rightarrow> bool" where
  "entangled_cell E labels ic =
     (case ic of (i, c) \<Rightarrow>
        found (shared_cell_pattern E) (cell_text E c) \<or> found (comparison_pattern E) (cell_text E c)
        \<or> list_ex (\<lambda>j. j \<noteq> i \<and> contains (labels ! j) (cell_text E c)) [1..<length labels])"

definition excluded_ids :: "nat \<Rightarrow> grid_cell list list \<Rightarrow> uuid list" where
  "excluded_ids column table =
     concat (map (\<lambda>row. map (\<lambda>(i, c). ev_id (fst c)) (filter (\<lambda>(i, c). i \<noteq> 0 \<and> i \<noteq> column) (enumerate 0 row))) table)"

definition project_table ::
  "text_env \<Rightarrow> float_ops \<Rightarrow> pystr \<Rightarrow> evidence_unit list \<Rightarrow> grid_cell list list \<Rightarrow> nat \<Rightarrow> evidence_unit list option" where
  "project_table E F q us rows start =
     (let header = rows ! start; labels = map (cell_text E) header
      in if [] \<in> set labels \<or> \<not> distinct labels then None
         else (case target_columns E q labels of
             [column] \<Rightarrow>
               (case table_loop E F header (drop start rows) [] [] of
                  None \<Rightarrow> None
                | Some (table, body) \<Rightarrow>
                    let attributes = map (\<lambda>row. cell_text E (row ! 0)) (drop 1 table)
                    in if list_ex (\<lambda>row. length row \<noteq> 1) (take start rows) \<or> length table < 2 then None
                       else if [] \<in> set attributes \<or> \<not> distinct attributes then None
                       else if \<not> asks_for_attribute E q (labels ! column) attributes then None
                       else if list_ex (\<lambda>u. found (reference_pattern E) (normalize_words E (ev_text u))) us then None
                       else if list_ex (\<lambda>row. list_ex (entangled_cell E labels) (enumerate 0 row)) (drop 1 table) then None
                       else if list_ex (\<lambda>c. cell_text E c = []) (concat table) then None
                       else Some (filter (\<lambda>u. ev_id u \<notin> set (excluded_ids column table)) us))
           | _ \<Rightarrow> None))"

definition payment_table_units ::
  "text_env \<Rightarrow> float_ops \<Rightarrow> pystr \<Rightarrow> rag_source \<Rightarrow> evidence_unit list \<Rightarrow> evidence_unit list option" where
  "payment_table_units E F query src us =
     (let q = normalize_words E query
      in if vs_media src \<noteq> lit ''application/pdf'' \<or> found (unsupported_pattern E) q \<or> found (comparison_pattern E) q then None
         else if set (map ev_id us) \<noteq> set (map ev_id (rc_units (vs_chunk src))) then None
         else if us = [] \<or> length (remdups (map (lc_page \<circ> ev_location) us)) \<noteq> 1 then None
         else if list_ex (\<lambda>u. lc_cell (ev_location u) \<noteq> None) us then None
         else (case boxed_cells us of
             None \<Rightarrow> None
           | Some cs \<Rightarrow>
               (case row_loop cs [] of
                  None \<Rightarrow> None
                | Some rows \<Rightarrow>
                    (case header_rows E rows of
                       [start] \<Rightarrow> if start = 0 then None else project_table E F q us rows start
                     | _ \<Rightarrow> None))))"

end
