(* ===== verification/Context_Selection.thy ===== *)
theory Context_Selection
  imports Table_Context
begin

text \<open>
  The bounded context of grounded generation (\<^verbatim>\<open>labs/rag/highlighting/context.py\<close>,
  \<^verbatim>\<open>labs/rag/models/context_evidence.py\<close>, \<^verbatim>\<open>models/budget_trace.py\<close>): groups of evidence units, one
  for every chunk, ranked and admitted under a budget.  Dictionaries are association lists; the
  matcher is used through its values.
\<close>

section \<open>Budgets\<close>

record evidence_budget =
  eb_groups :: int
  eb_units :: int
  eb_characters :: int

definition new_evidence_budget :: "evidence_budget \<Rightarrow> evidence_budget res" where
  "new_evidence_budget b =
     (if list_ex (\<lambda>v. v < 1) [eb_groups b, eb_units b, eb_characters b] then Inl (ValueError ''evidence limits'')
      else if eb_groups b > eb_units b then Inl (ValueError ''group limit'')
      else Inr b)"

definition contextual_prompts :: "pystr list" where
  "contextual_prompts =
     [lit ''rag-codex-answer-v4'', lit ''rag-codex-answer-v5'', lit ''rag-codex-answer-v6'', lit ''rag-answer-v2'',
      lit ''rag-answer-v3'', lit ''rag-answer-v4'', lit ''rag-answer-v5'', lit ''rag-answer-v6'']"

definition context_integer :: "py_value option \<Rightarrow> int res" where
  "context_integer v = (case v of Some (PInt n) \<Rightarrow> Inr n | _ \<Rightarrow> Inl (ValueError ''context integer''))"

text \<open>\<^verbatim>\<open>x in {...}\<close> of a set of strings; a list or a dictionary has no hash.\<close>

definition in_text_set :: "py_value option \<Rightarrow> pystr list \<Rightarrow> bool res" where
  "in_text_set v names =
     (case v of
        Some (PStr s) \<Rightarrow> Inr (s \<in> set names)
      | Some (PList _) \<Rightarrow> Inl (TypeError ''unhashable'')
      | Some (PDict _) \<Rightarrow> Inl (TypeError ''unhashable'')
      | _ \<Rightarrow> Inr False)"

definition budget_keys :: "pystr list" where
  "budget_keys = [lit ''version'', lit ''max_groups'', lit ''max_units'', lit ''max_characters'']"

definition resolve_evidence_budget :: "(pystr \<times> py_value) list \<Rightarrow> evidence_budget option res" where
  "resolve_evidence_budget config =
     rbind (in_text_set (map_of config (lit ''prompt_ref'')) contextual_prompts) (\<lambda>contextual.
       case map_of config (lit ''context_evidence'') of
         None \<Rightarrow> if contextual then Inl (ValueError ''explicit budget'') else Inr None
       | Some PNone \<Rightarrow> if contextual then Inl (ValueError ''explicit budget'') else Inr None
       | Some (PDict d) \<Rightarrow>
           if \<not> contextual then Inl (ValueError ''contextual prompt'')
           else if map_of d (lit ''version'') \<noteq> Some (PInt 1) then Inl (ValueError ''context version'')
           else if set (map fst d) \<noteq> set budget_keys then Inl (ValueError ''context settings'')
           else rbind (context_integer (map_of d (lit ''max_groups''))) (\<lambda>g.
                rbind (context_integer (map_of d (lit ''max_units''))) (\<lambda>u.
                rbind (context_integer (map_of d (lit ''max_characters''))) (\<lambda>c.
                rbind (new_evidence_budget \<lparr>eb_groups = g, eb_units = u, eb_characters = c\<rparr>) (\<lambda>b. Inr (Some b)))))
       | Some _ \<Rightarrow> Inl (ValueError ''contextual prompt''))"

datatype budget_constraint = GroupLimit | UnitLimit | CharacterLimit

record budget_trace =
  bt_incoming_units :: int
  bt_incoming_characters :: int
  bt_before_groups :: int
  bt_before_units :: int
  bt_before_characters :: int
  bt_group_limit :: int
  bt_unit_limit :: int
  bt_character_limit :: int
  bt_violated :: "budget_constraint list"

definition new_budget_trace :: "budget_trace \<Rightarrow> budget_trace res" where
  "new_budget_trace t =
     (if list_ex (\<lambda>v. v < 0) [bt_incoming_units t, bt_incoming_characters t, bt_before_groups t, bt_before_units t, bt_before_characters t]
         \<or> list_ex (\<lambda>v. v \<le> 0) [bt_group_limit t, bt_unit_limit t, bt_character_limit t]
         \<or> length (bt_violated t) > 3 \<or> \<not> distinct (bt_violated t)
      then Inl ValidationError else Inr t)"

section \<open>Groups\<close>

record context_group =
  cg_source :: rag_source
  cg_units :: "evidence_unit list"
  cg_coverage :: rat
  cg_score :: "py_float option"

abbreviation cg_chunk :: "context_group \<Rightarrow> uuid" where
  "cg_chunk g \<equiv> rc_chunk (vs_chunk (cg_source g))"

record candidate_diagnostic =
  cd_chunk :: uuid
  cd_evidence :: "uuid option"
  cd_coverage :: "rat option"
  cd_score :: "py_float option"
  cd_eligible :: bool
  cd_selected :: bool
  cd_reason :: pystr
  cd_trace :: "budget_trace option"
  cd_structure :: "pystr option"

record context_selection =
  cs_groups :: "context_group list"
  cs_diagnostics :: "candidate_diagnostic list"
  cs_blocked :: "pystr option"
  cs_warning :: "pystr option"
  cs_observations :: "candidate_diagnostic list"

type_synonym unit_identity = "uuid \<times> uuid \<times> evidence_unit"

text \<open>The usable units of one source; a unit seen before must be the same one.\<close>

fun source_units ::
  "rag_source \<Rightarrow> (uuid \<times> unit_identity) list \<Rightarrow> evidence_unit list \<Rightarrow> ((uuid \<times> unit_identity) list \<times> evidence_unit list) res" where
  "source_units src seen [] = Inr (seen, [])"
| "source_units src seen (u # us) =
     (let identity = (vs_document src, rc_version (vs_chunk src), u)
      in case map_of seen (ev_id u) of
           Some other \<Rightarrow>
             if other \<noteq> identity then Inl (ValueError ''evidence identity'') else source_units src seen us
         | None \<Rightarrow>
             rbind (source_units src ((ev_id u, identity) # seen) us) (\<lambda>(seen', vs).
               Inr (seen', if provenance_warnings src u \<noteq> [] \<or> strip (ev_text u) = [] then vs else u # vs)))"

definition unit_order :: "evidence_unit \<Rightarrow> int \<times> int" where
  "unit_order u = (ev_ordinal u, lc_start (ev_location u))"

record gather_state =
  gs_seen :: "(uuid \<times> unit_identity) list"
  gs_chunks :: "(uuid \<times> rag_source) list"
  gs_groups :: "context_group list"
  gs_warnings :: "pystr list"

definition incomplete_warning :: pystr where
  "incomplete_warning = lit ''structural_context_incomplete_source''"

definition gather_step :: "text_env \<Rightarrow> pystr list \<Rightarrow> pystr \<Rightarrow> rag_source \<Rightarrow> gather_state \<Rightarrow> gather_state res" where
  "gather_step E terms strategy src st =
     (case map_of (gs_chunks st) (rc_chunk (vs_chunk src)) of
        Some previous \<Rightarrow> if previous \<noteq> src then Inl (ValueError ''source identity'') else Inr st
      | None \<Rightarrow>
          rbind (source_units src (gs_seen st) (sort_key unit_order (rc_units (vs_chunk src)))) (\<lambda>(seen, valid).
            Inr \<lparr>gs_seen = seen, gs_chunks = (rc_chunk (vs_chunk src), src) # gs_chunks st,
              gs_groups = gs_groups st
                @ (if valid = [] then []
                   else [\<lparr>cg_source = src, cg_units = valid,
                           cg_coverage = coverage_of E terms (py_join [10] (map ev_text valid)), cg_score = None\<rparr>]),
              gs_warnings = gs_warnings st
                @ (if valid = [] \<and> strategy = lit ''structure-v1'' \<and> incomplete_warning \<notin> set (gs_warnings st)
                   then [incomplete_warning] else [])\<rparr>))"

fun gather_sources :: "text_env \<Rightarrow> pystr list \<Rightarrow> pystr \<Rightarrow> rag_source list \<Rightarrow> gather_state \<Rightarrow> gather_state res" where
  "gather_sources E terms strategy [] st = Inr st"
| "gather_sources E terms strategy (s # ss) st =
     rbind (gather_step E terms strategy s st) (gather_sources E terms strategy ss)"

definition context_text :: "context_group \<Rightarrow> pystr" where
  "context_text g = py_join [10] (rc_path (vs_chunk (cg_source g)) @ map ev_text (cg_units g))"

section \<open>Eligibility\<close>

text \<open>The chunks that entered as a grid and as a projected table, and what the grid inspection said.\<close>

record eligibility =
  ey_groups :: "context_group list"
  ey_grids :: "uuid list"
  ey_tables :: "uuid list"
  ey_reasons :: "(uuid \<times> pystr) list"

definition at_least :: "rat \<Rightarrow> py_float \<Rightarrow> bool" where
  "at_least c x \<longleftrightarrow> float_le x (Finite c)"

definition group_qualifies :: "answer_policy \<Rightarrow> uuid list \<Rightarrow> context_group \<Rightarrow> bool" where
  "group_qualifies p qualified g \<longleftrightarrow>
     list_ex (\<lambda>u. ev_id u \<in> set qualified) (cg_units g)
     \<or> (at_least (cg_coverage g) (ap_keyword p) \<and> cg_coverage g > 0)
     \<or> (case cg_score g of None \<Rightarrow> False | Some x \<Rightarrow> float_le (ap_semantic p) x)"

definition removes_nothing_qualified :: "uuid list \<Rightarrow> evidence_unit list \<Rightarrow> evidence_unit list \<Rightarrow> bool" where
  "removes_nothing_qualified qualified us kept \<longleftrightarrow>
     list_all (\<lambda>u. ev_id u \<in> set (map ev_id kept) \<or> ev_id u \<notin> set qualified) us"

definition admit_group :: "answer_policy \<Rightarrow> uuid list \<Rightarrow> context_group \<Rightarrow> eligibility \<Rightarrow> eligibility" where
  "admit_group p qualified g el = (if group_qualifies p qualified g then el\<lparr>ey_groups := ey_groups el @ [g]\<rparr> else el)"

definition eligibility_step ::
  "text_env \<Rightarrow> float_ops \<Rightarrow> pystr \<Rightarrow> pystr \<Rightarrow> answer_policy \<Rightarrow> uuid list \<Rightarrow> context_group \<Rightarrow> eligibility \<Rightarrow> eligibility" where
  "eligibility_step E F strategy query p qualified g el =
     (if strategy = lit ''structure-v1'' then
        (let candidate = inspect_grid_candidate E query (cg_source g) (cg_units g);
             el' = el\<lparr>ey_reasons := ey_reasons el @ [(cg_chunk g, gc_reason candidate)]\<rparr>
         in if gc_eligible candidate then el'\<lparr>ey_groups := ey_groups el @ [g], ey_grids := cg_chunk g # ey_grids el\<rparr>
            else admit_group p qualified g el')
      else (case payment_table_units E F query (cg_source g) (cg_units g) of
          None \<Rightarrow> admit_group p qualified g el
        | Some kept \<Rightarrow>
            if removes_nothing_qualified qualified (cg_units g) kept
            then el\<lparr>ey_groups := ey_groups el @ [g\<lparr>cg_units := kept\<rparr>], ey_tables := cg_chunk g # ey_tables el\<rparr>
            else admit_group p qualified g el))"

definition group_rank :: "answer_policy \<Rightarrow> context_group \<Rightarrow> nat \<times> (nat \<times> rat) \<times> (nat \<times> rat) \<times> pystr" where
  "group_rank p g =
     (let by_keyword = at_least (cg_coverage g) (ap_keyword p)
      in (if by_keyword then 0 else 1,
          float_key (float_neg (if by_keyword then Finite (cg_coverage g)
                                else case cg_score g of Some x \<Rightarrow> x | None \<Rightarrow> Finite 0)),
          float_key (float_neg (vs_score (cg_source g))),
          uuid_text (cg_chunk g)))"

section \<open>Admission under the budget\<close>

definition group_size :: "context_group \<Rightarrow> int" where
  "group_size g = int (sum_list (map (length \<circ> ev_text) (cg_units g)))"

record admission =
  ad_chosen :: "context_group list"
  ad_units :: int
  ad_characters :: int
  ad_traces :: "(uuid \<times> budget_trace) list"

definition violations :: "evidence_budget \<Rightarrow> admission \<Rightarrow> context_group \<Rightarrow> budget_constraint list" where
  "violations b ad g =
     (if int (length (ad_chosen ad)) \<ge> eb_groups b then [GroupLimit] else [])
     @ (if ad_units ad + int (length (cg_units g)) > eb_units b then [UnitLimit] else [])
     @ (if ad_characters ad + group_size g > eb_characters b then [CharacterLimit] else [])"

definition admission_step :: "evidence_budget \<Rightarrow> context_group \<Rightarrow> admission \<Rightarrow> admission res" where
  "admission_step b g ad =
     rbind (new_budget_trace
       \<lparr>bt_incoming_units = int (length (cg_units g)), bt_incoming_characters = group_size g,
        bt_before_groups = int (length (ad_chosen ad)), bt_before_units = ad_units ad, bt_before_characters = ad_characters ad,
        bt_group_limit = eb_groups b, bt_unit_limit = eb_units b, bt_character_limit = eb_characters b,
        bt_violated = violations b ad g\<rparr>) (\<lambda>trace.
     let ad' = ad\<lparr>ad_traces := ad_traces ad @ [(cg_chunk g, trace)]\<rparr>
     in Inr (if violations b ad g \<noteq> [] then ad'
             else ad'\<lparr>ad_chosen := ad_chosen ad @ [g], ad_units := ad_units ad + int (length (cg_units g)),
                     ad_characters := ad_characters ad + group_size g\<rparr>))"

fun admit_groups :: "evidence_budget \<Rightarrow> context_group list \<Rightarrow> admission \<Rightarrow> admission res" where
  "admit_groups b [] ad = Inr ad"
| "admit_groups b (g # gs) ad = rbind (admission_step b g ad) (admit_groups b gs)"

section \<open>Diagnostics\<close>

record context_outcome =
  co_eligible :: "context_group list"
  co_elig :: eligibility
  co_admission :: admission
  co_chosen :: "context_group list"
  co_blocked :: "pystr option"

definition group_reason :: "context_outcome \<Rightarrow> context_group \<Rightarrow> pystr" where
  "group_reason out g =
     (case co_blocked out of
        Some r \<Rightarrow> r
      | None \<Rightarrow>
          if cg_chunk g \<in> set (map cg_chunk (co_chosen out)) then
            (if cg_chunk g \<in> set (ey_grids (co_elig out)) then lit ''structural_grid_selected''
             else if cg_chunk g \<in> set (ey_tables (co_elig out)) then lit ''structured_table_selected'' else lit ''selected'')
          else if cg_chunk g \<in> set (map cg_chunk (co_eligible out)) then lit ''budget_exceeded'' else lit ''below_threshold'')"

definition group_diagnostic :: "context_outcome \<Rightarrow> context_group \<Rightarrow> candidate_diagnostic" where
  "group_diagnostic out g =
     \<lparr>cd_chunk = cg_chunk g, cd_evidence = None, cd_coverage = Some (cg_coverage g), cd_score = cg_score g,
      cd_eligible = cg_chunk g \<in> set (map cg_chunk (co_eligible out)),
      cd_selected = cg_chunk g \<in> set (map cg_chunk (co_chosen out)), cd_reason = group_reason out g,
      cd_trace = map_of (ad_traces (co_admission out)) (cg_chunk g),
      cd_structure = map_of (ey_reasons (co_elig out)) (cg_chunk g)\<rparr>"

definition unit_diagnostic ::
  "text_env \<Rightarrow> pystr list \<Rightarrow> answer_policy \<Rightarrow> uuid list \<Rightarrow> uuid list \<Rightarrow> (context_group \<times> evidence_unit) \<times> py_float option
     \<Rightarrow> candidate_diagnostic" where
  "unit_diagnostic E terms p qualified chosen_ids x =
     (case x of ((g, u), score) \<Rightarrow>
        let c = coverage_of E terms (ev_text u);
            qualifies = ev_id u \<in> set qualified \<or> (c > 0 \<and> at_least c (ap_keyword p))
              \<or> (case score of None \<Rightarrow> False | Some y \<Rightarrow> float_le (ap_semantic p) y);
            selected = ev_id u \<in> set chosen_ids
        in \<lparr>cd_chunk = cg_chunk g, cd_evidence = Some (ev_id u), cd_coverage = Some c, cd_score = score,
            cd_eligible = qualifies, cd_selected = selected,
            cd_reason = (if selected \<and> \<not> qualifies then lit ''context_member''
                         else if selected then lit ''selected'' else lit ''not_transmitted''),
            cd_trace = None, cd_structure = None\<rparr>)"

definition embedding_unavailable :: exn where
  "embedding_unavailable = RuntimeError ''embedding unavailable''"

text \<open>\<^verbatim>\<open>except (EmbeddingRuntimeUnavailableError, ValueError)\<close>: the scores are then unknown.\<close>

definition unit_scores ::
  "float_ops \<Rightarrow> evidence_embedding \<Rightarrow> py_float list \<Rightarrow> pystr list \<Rightarrow> (py_float option list \<times> pystr list) res" where
  "unit_scores F em query_vector texts =
     (case rbind (em_documents em texts) (\<lambda>vs.
             if length vs \<noteq> length texts then Inl (ValueError ''diagnostic embedding count'')
             else mapr (cosine_similarity F query_vector) vs) of
        Inr xs \<Rightarrow> Inr (map Some xs, [])
      | Inl e \<Rightarrow>
          if is_value_error e \<or> e = embedding_unavailable
          then Inr (replicate (length texts) None, [lit ''diagnostic_embedding_unavailable'']) else Inl e)"

definition joined_warnings :: "pystr list \<Rightarrow> pystr option" where
  "joined_warnings ws = (let s = py_join [44] ws in if s = [] then None else Some s)"

section \<open>The selection\<close>

definition anchor_ids :: "evidence_selection \<Rightarrow> uuid list" where
  "anchor_ids ex = map (ev_id \<circ> an_evidence) ((case se_answer ex of None \<Rightarrow> [] | Some a \<Rightarrow> [a]) @ se_conflicts ex)"

definition qualified_ids :: "evidence_selection \<Rightarrow> uuid list" where
  "qualified_ids ex = anchor_ids ex @ map (ev_id \<circ> an_evidence) (se_candidates ex)"

definition score_groups :: "float_ops \<Rightarrow> evidence_embedding \<Rightarrow> py_float list \<Rightarrow> context_group list \<Rightarrow> context_group list res" where
  "score_groups F em qv gs =
     rbind (em_documents em (map context_text gs)) (\<lambda>vs.
       if length vs \<noteq> length gs then Inl (ValueError ''context embedding count'')
       else mapr (\<lambda>(g, v). rbind (cosine_similarity F qv v) (\<lambda>x. Inr (g\<lparr>cg_score := Some x\<rparr>))) (zip gs vs))"

definition context_outcome_of ::
  "text_env \<Rightarrow> float_ops \<Rightarrow> pystr \<Rightarrow> pystr \<Rightarrow> evidence_selection \<Rightarrow> answer_policy \<Rightarrow> evidence_budget \<Rightarrow> context_group list
     \<Rightarrow> context_outcome res" where
  "context_outcome_of E F strategy query ex p b groups =
     (let el = fold (eligibility_step E F strategy query p (qualified_ids ex)) groups
                 \<lparr>ey_groups = [], ey_grids = [], ey_tables = [], ey_reasons = []\<rparr>;
          eligible = sort_key (group_rank p) (ey_groups el)
      in rbind (admit_groups b eligible \<lparr>ad_chosen = [], ad_units = 0, ad_characters = 0, ad_traces = []\<rparr>) (\<lambda>ad.
         let chosen_ids = map ev_id (concat (map cg_units (ad_chosen ad)));
             refused = se_conflicts ex \<noteq> [] \<and> \<not> set (anchor_ids ex) \<subseteq> set chosen_ids
         in Inr \<lparr>co_eligible = eligible, co_elig = el, co_admission = ad,
              co_chosen = (if refused then [] else ad_chosen ad),
              co_blocked = (if refused then Some (lit ''conflict_context_budget_exceeded'') else None)\<rparr>))"

text \<open>What follows once the groups are gathered.\<close>

definition context_of_groups ::
  "text_env \<Rightarrow> float_ops \<Rightarrow> evidence_embedding \<Rightarrow> pystr \<Rightarrow> evidence_selection \<Rightarrow> answer_policy \<Rightarrow> evidence_budget \<Rightarrow> bool \<Rightarrow> pystr
     \<Rightarrow> pystr list \<Rightarrow> gather_state \<Rightarrow> context_selection res" where
  "context_of_groups E F em query ex p b include_diagnostics strategy terms st =
     (if gs_groups st = [] then
        Inr \<lparr>cs_groups = [], cs_diagnostics = [], cs_blocked = None, cs_warning = joined_warnings (gs_warnings st),
             cs_observations = []\<rparr>
      else rbind (em_query em query) (\<lambda>qv.
      rbind (score_groups F em qv (gs_groups st)) (\<lambda>groups.
      rbind (context_outcome_of E F strategy query ex p b groups) (\<lambda>out.
      let observations = map (group_diagnostic out) groups;
          chosen_ids = map ev_id (concat (map cg_units (co_chosen out)));
          pairs = concat (map (\<lambda>g. map (\<lambda>u. (g, u)) (cg_units g)) groups)
      in if \<not> include_diagnostics then
           Inr \<lparr>cs_groups = co_chosen out, cs_diagnostics = [], cs_blocked = co_blocked out,
                cs_warning = joined_warnings (gs_warnings st), cs_observations = observations\<rparr>
         else rbind (unit_scores F em qv (map (ev_text \<circ> snd) pairs)) (\<lambda>(scores, ws).
           Inr \<lparr>cs_groups = co_chosen out,
                cs_diagnostics = observations
                  @ map (unit_diagnostic E terms p (qualified_ids ex) chosen_ids) (zip pairs scores),
                cs_blocked = co_blocked out, cs_warning = joined_warnings (gs_warnings st @ ws),
                cs_observations = observations\<rparr>)))))"

definition select_context ::
  "text_env \<Rightarrow> float_ops \<Rightarrow> evidence_embedding \<Rightarrow> pystr \<Rightarrow> rag_source list \<Rightarrow> evidence_selection \<Rightarrow> answer_policy
     \<Rightarrow> evidence_budget \<Rightarrow> bool \<Rightarrow> pystr \<Rightarrow> keyword_matcher option \<Rightarrow> context_selection res" where
  "select_context E F em query sources ex p b include_diagnostics strategy keywords =
     (if strategy \<notin> {lit ''payment-v1'', lit ''structure-v1''} then Inl (ValueError ''table strategy'')
      else rbind (selector_matcher E query keywords) (\<lambda>km.
           rbind (gather_sources E (km_terms km) strategy sources
                    \<lparr>gs_seen = [], gs_chunks = [], gs_groups = [], gs_warnings = []\<rparr>)
             (context_of_groups E F em query ex p b include_diagnostics strategy (km_terms km))))"

end
