(* ===== verification/Evidence_Properties.thy ===== *)
theory Evidence_Properties
  imports Evidence_Selection "HOL-Library.Multiset"
begin

text \<open>
  What highlights and evidence selections promise: a highlight quotes its source verbatim, a matcher
  answers as a fresh one would, and a selection rests on evidence whose provenance is complete.
\<close>

section \<open>Highlights\<close>

text \<open>\<open>quotes s loc u h\<close>: the highlight is a part of the text \<open>s\<close> of unit \<open>u\<close>, at its place.\<close>

definition quotes :: "pystr \<Rightarrow> source_location \<Rightarrow> uuid \<Rightarrow> highlight_span \<Rightarrow> bool" where
  "quotes s loc u h \<longleftrightarrow>
     hl_unit h = u \<and> hl_page h = lc_page loc
     \<and> (\<exists>a b. a < b \<and> b \<le> length s \<and> hl_text h = slice s a b
          \<and> hl_start h = lc_start loc + int a \<and> hl_end h = lc_start loc + int b
          \<and> (hl_bbox h \<noteq> None \<longrightarrow> a = 0 \<and> b = length s \<and> hl_bbox h = lc_bbox loc))"

lemma highlight_at_quotes:
  assumes "ranges_ok (length s) os" "i < j" "j \<le> length (os_text os)"
  shows "quotes s loc u (highlight_at s loc u os i j)"
  unfolding quotes_def
  using match_range [OF assms]
  by (auto simp: highlight_at_def Let_def)

lemma spans_of_terms_set:
  "h \<in> set (spans_of_terms terms s loc u os) \<longleftrightarrow>
     (\<exists>t \<in> set terms. \<exists>k \<in> set (occurrences t (os_text os) 0). h = highlight_at s loc u os k (k + length t))"
  by (auto simp: spans_of_terms_def)

lemma spans_quote:
  assumes "h \<in> set (spans_of_terms terms s loc u (normalize_with_original_offsets E s))"
  shows "quotes s loc u h \<and> hl_kind h = KEYWORD"
proof -
  let ?os = "normalize_with_original_offsets E s"
  from assms obtain t k where tk: "k \<in> set (occurrences t (os_text ?os) 0)" "h = highlight_at s loc u ?os k (k + length t)"
    by (auto simp: spans_of_terms_set)
  from occurrences_starts [OF tk(1)] have "t \<noteq> []" "k + length t \<le> length (os_text ?os)" by (auto simp: starts_at_def)
  with highlight_at_quotes [OF normalized_offsets_ranges [of s E], of k "k + length t" loc u] tk(2)
  show ?thesis by (auto simp: highlight_at_def Let_def)
qed

lemma highlights_quote: "h \<in> set (kr_highlights (highlights_of E terms s loc u)) \<Longrightarrow> quotes s loc u h \<and> hl_kind h = KEYWORD"
  using spans_quote [of h terms s loc u E] by (simp add: highlights_of_def split: if_splits)

lemma find_tokens_nonempty: "t \<in> set (find_tokens E s) \<Longrightarrow> t \<noteq> []"
  by (induction E s rule: find_tokens.induct) (auto split: if_splits)

lemma matcher_terms_nonempty: "t \<in> set (matcher_terms E query) \<Longrightarrow> t \<noteq> []"
  by (auto simp: matcher_terms_def dest: find_tokens_nonempty)

lemma sort_key_empty_iff: "sort_key f xs = [] \<longleftrightarrow> xs = []"
  by (metis length_0_conv length_sort)

lemma spans_empty_iff:
  assumes "\<forall>t \<in> set terms. t \<noteq> []"
  shows "spans_of_terms terms s loc u os = [] \<longleftrightarrow> (\<forall>t \<in> set terms. \<not> contains t (os_text os))"
proof -
  have "spans_of_terms terms s loc u os = [] \<longleftrightarrow> (\<forall>t \<in> set terms. occurrences t (os_text os) 0 = [])"
    by (simp add: spans_of_terms_def sort_key_empty_iff)
  with assms show ?thesis by (simp add: occurrences_empty_iff)
qed

text \<open>A share that is not zero stays so in double precision.\<close>

lemma ulp_from_cases: "2 ^ 52 * ulp_from n u x \<le> x \<or> ulp_from n u x = u / 2 ^ n"
proof (induction n arbitrary: u)
  case (Suc n)
  from Suc [of "u / 2"] show ?case by (auto simp: not_less)
qed simp

lemma round_double_pos:
  assumes "1 / 2 ^ 1000 \<le> x"
  shows "0 < round_double x"
proof -
  have "(1 :: rat) / 2 ^ 51 / 2 ^ 1023 \<le> 1 / 2 ^ 1000" by simp
  moreover have "(0 :: rat) < 1 / 2 ^ 1000" by simp
  ultimately have "ulp x \<le> x"
    using ulp_from_cases [of 1023 "1 / 2 ^ 51" x] ulp_pos [of x] assms unfolding ulp_def by fastforce
  then have "of_int 1 \<le> x / ulp x" using ulp_pos [of x] by simp
  from round_half_even_mono [OF this] have "1 \<le> round_half_even (x / ulp x)" by (simp only: round_half_even_int)
  then show ?thesis using ulp_pos [of x] by (simp add: round_double_def)
qed

lemma term_share_bounds: "0 \<le> term_share terms n \<and> term_share terms n \<le> 1"
proof -
  let ?x = "of_nat (length (filter (\<lambda>t. contains t n) terms)) / of_nat (length terms) :: rat"
  have "0 \<le> ?x" "?x \<le> 1" by (simp_all add: divide_le_eq_1)
  with round_double_mono [of 0 ?x] round_double_mono [of ?x 1] show ?thesis
    by (simp add: term_share_def round_double_1)
qed

lemma term_share_0_iff:
  assumes "length terms \<le> 2 ^ 64"
  shows "term_share terms n = 0 \<longleftrightarrow> (\<forall>t \<in> set terms. \<not> contains t n)"
proof (cases "filter (\<lambda>t. contains t n) terms = []")
  case True
  then show ?thesis by (auto simp: term_share_def filter_empty_conv)
next
  case False
  let ?k = "length (filter (\<lambda>t. contains t n) terms)" and ?m = "length terms"
  have km: "1 \<le> ?k" "0 < ?m" using False by (auto simp: Suc_le_eq filter_empty_conv)
  have "(of_nat ?m :: rat) \<le> of_nat (2 ^ 64)" using assms by (simp only: of_nat_le_iff)
  also have "(of_nat (2 ^ 64) :: rat) \<le> 2 ^ 1000" by simp
  finally have m: "(of_nat ?m :: rat) \<le> 2 ^ 1000" .
  have "(1 :: rat) / 2 ^ 1000 \<le> 1 / of_nat ?m" using m km(2) by (simp add: divide_left_mono)
  also have "\<dots> \<le> of_nat ?k / of_nat ?m" using km by (simp add: divide_right_mono)
  finally have "0 < term_share terms n" unfolding term_share_def by (rule round_double_pos)
  then show ?thesis using False by (auto simp: filter_empty_conv)
qed

lemma highlights_iff_found:
  assumes "fold_text E [] = []" "\<forall>t \<in> set terms. t \<noteq> []" "length terms \<le> 2 ^ 64"
  shows "kr_highlights (highlights_of E terms s loc u) = [] \<longleftrightarrow> (\<forall>t \<in> set terms. \<not> contains t (normalize_text E s))"
    and "kr_coverage (highlights_of E terms s loc u) = 0 \<longleftrightarrow> (\<forall>t \<in> set terms. \<not> contains t (normalize_text E s))"
  using term_share_0_iff [OF assms(3), of "normalize_text E s"] assms(1,2)
  by (auto simp: highlights_of_def coverage_of_def spans_empty_iff normalized_offsets_text)

section \<open>What highlights promise\<close>

text \<open>
  C27. Every keyword highlight quotes its source: its text is the part of the unit's text at its
  offsets, never empty and never beyond the text, whatever Unicode normalisation did to it; a
  bounding box is claimed only for the whole unit.
\<close>

theorem highlights_quote_the_source:
  "h \<in> set (kr_highlights (find_keyword_highlights E query s loc u)) \<Longrightarrow> hl_kind h = KEYWORD \<and> quotes s loc u h"
  unfolding find_keyword_highlights_eq using highlights_quote by blast

text \<open>
  The keyword coverage lies between zero and one; it is zero, and there is no highlight,
  exactly when no term of the query occurs in the normalised text, and otherwise every occurrence
  a search from left to right finds of a term has its highlight.
\<close>

theorem coverage_counts_terms:
  assumes "fold_text E [] = []" "length (matcher_terms E query) \<le> 2 ^ 64"
  shows "let r = find_keyword_highlights E query s loc u; terms = matcher_terms E query; n = normalize_text E s
    in 0 \<le> kr_coverage r \<and> kr_coverage r \<le> 1
     \<and> (kr_coverage r = 0 \<longleftrightarrow> (\<forall>t \<in> set terms. \<not> contains t n)) \<and> (kr_highlights r = [] \<longleftrightarrow> kr_coverage r = 0)
     \<and> length (kr_highlights r) = sum_list (map (\<lambda>t. length (occurrences t n 0)) terms)"
proof -
  define r where "r = find_keyword_highlights E query s loc u"
  define terms where "terms = matcher_terms E query"
  define n where "n = normalize_text E s"
  have ne: "\<forall>t \<in> set terms. t \<noteq> []" using matcher_terms_nonempty by (simp add: terms_def)
  have r: "r = highlights_of E terms s loc u" by (simp add: r_def terms_def find_keyword_highlights_eq)
  note found = highlights_iff_found [OF assms(1) ne assms(2) [folded terms_def], of s loc u, folded r n_def]
  have "0 \<le> kr_coverage r \<and> kr_coverage r \<le> 1"
    using term_share_bounds by (simp add: r highlights_of_def coverage_of_def)
  moreover have "length (kr_highlights r) = sum_list (map (\<lambda>t. length (occurrences t n 0)) terms)"
  proof (cases "kr_coverage r = 0")
    case True
    then have "kr_highlights r = []" "\<forall>t \<in> set terms. occurrences t n 0 = []"
      using found ne by (auto simp: occurrences_empty_iff)
    then show ?thesis by simp
  next
    case False
    then have "kr_highlights r = spans_of_terms terms s loc u (normalize_with_original_offsets E s)"
      by (simp add: r highlights_of_def split: if_splits)
    then show ?thesis
      by (simp add: spans_of_terms_def length_concat normalized_offsets_text assms(1) n_def comp_def)
  qed
  ultimately have "0 \<le> kr_coverage r \<and> kr_coverage r \<le> 1
     \<and> (kr_coverage r = 0 \<longleftrightarrow> (\<forall>t \<in> set terms. \<not> contains t n)) \<and> (kr_highlights r = [] \<longleftrightarrow> kr_coverage r = 0)
     \<and> length (kr_highlights r) = sum_list (map (\<lambda>t. length (occurrences t n 0)) terms)"
    using found by blast
  then show ?thesis unfolding Let_def r_def terms_def n_def .
qed

text \<open>
  C28. Reusing a matcher changes nothing: after any sequence of highlighted texts it answers as a
  fresh matcher of its query, and so do the two entry points.
\<close>

theorem matcher_reuse_is_transparent:
  "fst (matcher_highlights E s loc u (fold (\<lambda>(t, l, v) km. snd (matcher_highlights E t l v km)) used (new_matcher E query)))
     = find_keyword_highlights E query s loc u"
proof -
  have "matcher_ok E query (fold (\<lambda>(t, l, v) km. snd (matcher_highlights E t l v km)) used km)"
    if "matcher_ok E query km" for km
    using that by (induction used arbitrary: km) (auto simp: matcher_highlights_ok)
  from this [OF new_matcher_ok] show ?thesis
    by (simp add: matcher_highlights_ok find_keyword_highlights_eq)
qed

section \<open>Selections\<close>

lemma eligible_items_sound:
  "(s, u) \<in> set (eligible_items seen xs) \<Longrightarrow> (s, u, []) \<in> set xs"
  by (induction seen xs rule: eligible_items.induct) (auto split: if_splits)

lemma eligible_items_distinct:
  "distinct (map (ev_id \<circ> snd) (eligible_items seen xs)) \<and> set (map (ev_id \<circ> snd) (eligible_items seen xs)) \<inter> set seen = {}"
  by (induction seen xs rule: eligible_items.induct) auto

lemma eligible_items_complete:
  "(s, u, []) \<in> set xs \<Longrightarrow> ev_id u \<notin> set seen \<Longrightarrow> ev_id u \<in> set (map (ev_id \<circ> snd) (eligible_items seen xs))"
  by (induction seen xs rule: eligible_items.induct) auto

lemma selection_candidates_set:
  "(s, u, ws) \<in> set (selection_candidates sources) \<longleftrightarrow>
     s \<in> set sources \<and> u \<in> set (rc_units (vs_chunk s)) \<and> ws = provenance_warnings s u"
  by (auto simp: selection_candidates_def)

text \<open>Answers are at most one for every item, in the order of the items.\<close>

lemma at_most_one_each:
  assumes "list_all2 (\<lambda>x ys. ys = [] \<or> (\<exists>y. ys = [y] \<and> g y = h x)) xs yss" "distinct (map h xs)"
  shows "distinct (map g (concat yss)) \<and> g ` set (concat yss) \<subseteq> h ` set xs"
  using assms
proof (induction xs yss rule: list_all2_induct)
  case (Cons x xs ys yss)
  then have IH: "distinct (map g (concat yss))" "g ` set (concat yss) \<subseteq> h ` set xs" "h x \<notin> h ` set xs" by auto
  from Cons.hyps(1) show ?case
  proof
    assume "ys = []"
    with IH show ?thesis by auto
  next
    assume "\<exists>y. ys = [y] \<and> g y = h x"
    then obtain y where "ys = [y]" "g y = h x" by blast
    moreover have "h x \<notin> g ` set (concat yss)" using IH(2,3) by blast
    ultimately show ?thesis using IH(1,2) by auto
  qed
qed simp

lemma distinct_map_sort_key [simp]: "distinct (map g (sort_key k xs)) \<longleftrightarrow> distinct (map g xs)"
proof (rule mset_eq_imp_distinct_iff)
  show "mset (map g (sort_key k xs)) = mset (map g xs)" by simp
qed

lemma mapr_list_all2: "mapr f xs = Inr ys \<Longrightarrow> list_all2 (\<lambda>x y. f x = Inr y) xs ys"
  by (induction xs arbitrary: ys) auto

definition rests_on :: "rag_source list \<Rightarrow> evidence_answer \<Rightarrow> bool" where
  "rests_on sources a \<longleftrightarrow>
     an_source a \<in> set sources \<and> an_evidence a \<in> set (rc_units (vs_chunk (an_source a)))
     \<and> provenance_warnings (an_source a) (an_evidence a) = [] \<and> an_warnings a = [] \<and> an_excerpt a = ev_text (an_evidence a)"

definition answer_quotes :: "evidence_answer \<Rightarrow> bool" where
  "answer_quotes a \<longleftrightarrow>
     an_highlights a \<noteq> []
     \<and> (\<forall>h \<in> set (an_highlights a).
          if hl_kind h = KEYWORD then quotes (an_excerpt a) (ev_location (an_evidence a)) (ev_id (an_evidence a)) h
          else hl_text h = an_excerpt a \<and> hl_unit h = ev_id (an_evidence a) \<and> hl_score h = an_score a)"

definition meets_policy :: "text_env \<Rightarrow> pystr list \<Rightarrow> answer_policy \<Rightarrow> evidence_answer \<Rightarrow> bool" where
  "meets_policy E terms p a \<longleftrightarrow>
     (case (an_coverage a, an_score a) of
        (Some c, None) \<Rightarrow> c = coverage_of E terms (an_excerpt a) \<and> c \<noteq> 0 \<and> \<not> float_less (Finite c) (ap_keyword p)
      | (None, Some x) \<Rightarrow> \<not> float_less x (ap_semantic p)
      | _ \<Rightarrow> False)"

definition answer_of_item :: "text_env \<Rightarrow> pystr list \<Rightarrow> answer_policy \<Rightarrow> rag_source \<times> evidence_unit \<Rightarrow> evidence_answer \<Rightarrow> bool" where
  "answer_of_item E terms p item a \<longleftrightarrow>
     an_source a = fst item \<and> an_evidence a = snd item \<and> an_excerpt a = ev_text (snd item)
     \<and> an_warnings a = provenance_warnings (fst item) (snd item) \<and> answer_quotes a \<and> meets_policy E terms p a"

lemma keyword_answer_of_item:
  "a \<in> set (keyword_answer E terms p item) \<Longrightarrow> answer_of_item E terms p item a"
  using highlights_quote [of _ E terms "ev_text (snd item)" "ev_location (snd item)" "ev_id (snd item)"]
  by (cases item)
    (auto simp: keyword_answer_def Let_def answer_of_item_def answer_quotes_def meets_policy_def highlights_of_def split: if_splits)

lemma semantic_answer_of_item:
  "semantic_answer F qv p (item, v) = Inr as \<Longrightarrow> a \<in> set as \<Longrightarrow> answer_of_item E terms p item a"
  by (cases item)
    (auto simp: semantic_answer_def answer_of_item_def answer_quotes_def meets_policy_def semantic_highlight_def Let_def
      split: if_splits)

lemma keyword_answers_items:
  assumes "distinct (map (ev_id \<circ> snd) items)"
  shows "distinct (map (ev_id \<circ> an_evidence) (keyword_answers E terms items p))"
    and "a \<in> set (keyword_answers E terms items p) \<Longrightarrow> \<exists>item \<in> set items. answer_of_item E terms p item a"
proof -
  have "list_all2 (\<lambda>x ys. ys = [] \<or> (\<exists>y. ys = [y] \<and> (ev_id \<circ> an_evidence) y = (ev_id \<circ> snd) x)) items
      (map (keyword_answer E terms p) items)"
    by (rule list_all2_all_nthI) (auto simp: keyword_answer_def Let_def split: prod.splits)
  from at_most_one_each [OF this assms] show "distinct (map (ev_id \<circ> an_evidence) (keyword_answers E terms items p))"
    unfolding keyword_answers_def distinct_map_sort_key by blast
  show "\<exists>item \<in> set items. answer_of_item E terms p item a" if "a \<in> set (keyword_answers E terms items p)"
    using that keyword_answer_of_item [of a E terms p] by (auto simp: keyword_answers_def)
qed

lemma semantic_answers_items:
  assumes ok: "semantic_answers F em query items p = Inr as" and dist: "distinct (map (ev_id \<circ> snd) items)"
  shows "distinct (map (ev_id \<circ> an_evidence) as)"
    and "a \<in> set as \<Longrightarrow> \<exists>item \<in> set items. answer_of_item E terms p item a"
proof -
  have "distinct (map (ev_id \<circ> an_evidence) as) \<and> (\<forall>a \<in> set as. \<exists>item \<in> set items. answer_of_item E terms p item a)"
  proof (cases "items = []")
    case True
    with ok show ?thesis by (simp add: semantic_answers_def)
  next
    case False
    with ok obtain qv vs yss where y: "length vs = length items" "mapr (semantic_answer F qv p) (zip items vs) = Inr yss"
      "as = sort_key score_key (concat yss)"
      by (auto simp: semantic_answers_def split: if_splits)
    have each: "list_all2 (\<lambda>x ys. ys = [] \<or> (\<exists>y. ys = [y] \<and> (ev_id \<circ> an_evidence) y = (ev_id \<circ> snd \<circ> fst) x)) (zip items vs) yss"
      using mapr_list_all2 [OF y(2)] by (rule list_all2_mono) (auto simp: semantic_answer_def split: if_splits)
    have "map (ev_id \<circ> snd \<circ> fst) (zip items vs) = map (ev_id \<circ> snd) items"
      using y(1) by (simp flip: map_map)
    with at_most_one_each [OF each] dist have "distinct (map (ev_id \<circ> an_evidence) as)"
      unfolding y(3) distinct_map_sort_key by metis
    moreover have "\<exists>item \<in> set items. answer_of_item E terms p item a" if "a \<in> set as" for a
    proof -
      from that y(3) obtain ys where ys: "ys \<in> set yss" "a \<in> set ys" by auto
      from mapr_set [OF y(2), of ys] ys(1) obtain z where z: "z \<in> set (zip items vs)" "semantic_answer F qv p z = Inr ys"
        by blast
      obtain item v where item: "z = (item, v)" by fastforce
      from z item have "item \<in> set items" by (auto dest: set_zip_leftD)
      with z(2) item ys(2) semantic_answer_of_item show ?thesis by blast
    qed
    ultimately show ?thesis by blast
  qed
  then show "distinct (map (ev_id \<circ> an_evidence) as)"
    and "a \<in> set as \<Longrightarrow> \<exists>item \<in> set items. answer_of_item E terms p item a" by blast+
qed

lemma conflict_loop_sound:
  "c \<in> set (conflict_loop E terms primary docs as) \<Longrightarrow>
     c \<in> set as \<and> vs_document (an_source c) \<noteq> vs_document (an_source primary)
     \<and> vs_document (an_source c) \<notin> set docs \<and> directly_incompatible E terms primary c"
  by (induction E terms primary docs as rule: conflict_loop.induct) (auto split: if_splits)

lemma conflict_loop_distinct:
  "distinct (map (vs_document \<circ> an_source) (conflict_loop E terms primary docs as))"
  by (induction E terms primary docs as rule: conflict_loop.induct) (auto dest: conflict_loop_sound)

lemma conflict_loop_complete:
  "a \<in> set as \<Longrightarrow> directly_incompatible E terms primary a \<Longrightarrow>
     vs_document (an_source a) = vs_document (an_source primary) \<or> vs_document (an_source a) \<in> set docs
     \<or> (\<exists>c \<in> set (conflict_loop E terms primary docs as). vs_document (an_source c) = vs_document (an_source a))"
  by (induction E terms primary docs as rule: conflict_loop.induct) auto

lemma selection_of_simps [simp]:
  "se_candidates (selection_of E terms ws as) = as"
  "se_answer (selection_of E terms ws as) = (case as of [] \<Rightarrow> None | a # _ \<Rightarrow> Some a)"
  "se_status (selection_of E terms ws as) = (if as = [] then INSUFFICIENT_EVIDENCE else SUPPORTED)"
  "se_conflicts (selection_of E terms ws as) = (case as of [] \<Rightarrow> [] | a # bs \<Rightarrow> conflict_loop E terms a [] bs)"
  "se_conflict (selection_of E terms ws as) = (if se_conflicts (selection_of E terms ws as) = [] then NO_CONFLICT else SEPARATE_SOURCES)"
  by (cases as; simp add: selection_of_def Let_def)+

text \<open>The terms a selection uses: those of the given matcher, or of a fresh one.\<close>

definition selector_terms :: "text_env \<Rightarrow> pystr \<Rightarrow> keyword_matcher option \<Rightarrow> pystr list" where
  "selector_terms E query keywords = (case keywords of Some k \<Rightarrow> km_terms k | None \<Rightarrow> matcher_terms E query)"

lemma select_evidence_parts:
  assumes "select_evidence E F em query sources p keywords = Inr sel"
  obtains items more by_meaning ws where
    "items = eligible_items [] (selection_candidates sources)"
    "more = filter (\<lambda>item. ev_id (snd item) \<notin> (ev_id \<circ> an_evidence) ` set (keyword_answers E (selector_terms E query keywords) items p)) items"
    "semantic_answers F em query more p = Inr by_meaning"
    "sel = selection_of E (selector_terms E query keywords) ws (keyword_answers E (selector_terms E query keywords) items p @ by_meaning)"
proof -
  have terms: "km_terms km = selector_terms E query keywords" if "selector_matcher E query keywords = Inr km" for km
    using that new_matcher_ok [of E query]
    by (auto simp: selector_matcher_def selector_terms_def matcher_ok_def Let_def split: option.splits)
  from assms obtain km where km: "selector_matcher E query keywords = Inr km"
    by (auto simp: select_evidence_def split: if_splits)
  with assms terms [OF km] show ?thesis
    by (auto simp: select_evidence_def Let_def comp_def split: if_splits intro!: that)
qed

lemma selection_rests:
  assumes "select_evidence E F em query sources p keywords = Inr sel"
  shows "(\<forall>a \<in> set (se_candidates sel).
            rests_on sources a \<and> answer_quotes a \<and> meets_policy E (selector_terms E query keywords) p a)
    \<and> distinct (map (ev_id \<circ> an_evidence) (se_candidates sel))
    \<and> se_answer sel = (if se_candidates sel = [] then None else Some (hd (se_candidates sel)))
    \<and> (se_status sel = SUPPORTED \<longleftrightarrow> se_answer sel \<noteq> None)"
proof -
  let ?terms = "selector_terms E query keywords"
  from assms obtain items more by_meaning ws where parts: "items = eligible_items [] (selection_candidates sources)"
    "more = filter (\<lambda>item. ev_id (snd item) \<notin> (ev_id \<circ> an_evidence) ` set (keyword_answers E ?terms items p)) items"
    "semantic_answers F em query more p = Inr by_meaning"
    "sel = selection_of E ?terms ws (keyword_answers E ?terms items p @ by_meaning)"
    by (rule select_evidence_parts)
  let ?kw = "keyword_answers E ?terms items p"
  have dist: "distinct (map (ev_id \<circ> snd) items)" unfolding parts(1) using eligible_items_distinct by blast
  have dist': "distinct (map (ev_id \<circ> snd) more)" unfolding parts(2) using dist by (rule distinct_map_filter)
  have item: "\<exists>item \<in> set items. answer_of_item E ?terms p item a" if "a \<in> set (?kw @ by_meaning)" for a
    using that keyword_answers_items(2) [OF dist] semantic_answers_items(2) [OF parts(3) dist', of a E ?terms]
    by (auto simp: parts(2))
  have "rests_on sources a \<and> answer_quotes a \<and> meets_policy E ?terms p a" if "a \<in> set (?kw @ by_meaning)" for a
  proof -
    from item [OF that] obtain s u where su: "(s, u) \<in> set items" "answer_of_item E ?terms p (s, u) a" by force
    from eligible_items_sound su(1) parts(1) have "(s, u, []) \<in> set (selection_candidates sources)" by blast
    with su(2) show ?thesis by (auto simp: selection_candidates_set rests_on_def answer_of_item_def)
  qed
  moreover have "distinct (map (ev_id \<circ> an_evidence) (?kw @ by_meaning))"
  proof -
    have "(ev_id \<circ> an_evidence) a \<notin> (ev_id \<circ> an_evidence) ` set ?kw" if a: "a \<in> set by_meaning" for a
    proof -
      from semantic_answers_items(2) [OF parts(3) dist' a, of E ?terms] obtain i
        where "i \<in> set more" "an_evidence a = snd i" by (auto simp: answer_of_item_def)
      then show ?thesis by (simp add: parts(2))
    qed
    then have "(ev_id \<circ> an_evidence) ` set ?kw \<inter> (ev_id \<circ> an_evidence) ` set by_meaning = {}"
      by (metis (no_types, lifting) disjoint_iff imageE)
    then show ?thesis
      unfolding map_append distinct_append set_map
      using keyword_answers_items(1) [OF dist, of E ?terms p] semantic_answers_items(1) [OF parts(3) dist'] by blast
  qed
  ultimately show ?thesis by (auto simp: parts(4) split: list.splits)
qed

text \<open>
  C29. A selection rests on evidence: every candidate is a unit of a given source with complete
  provenance, quoted in full, under highlights that quote it, above the policy's threshold; no
  unit appears twice; and the answer is the first candidate, absent exactly when there is none.
\<close>

theorem selection_is_grounded:
  assumes "select_evidence E F em query sources p keywords = Inr sel"
  shows "(\<forall>a \<in> set (se_candidates sel).
            rests_on sources a \<and> answer_quotes a \<and> meets_policy E (selector_terms E query keywords) p a)
    \<and> distinct (map (ev_id \<circ> an_evidence) (se_candidates sel))
    \<and> se_answer sel = (if se_candidates sel = [] then None else Some (hd (se_candidates sel)))
    \<and> (se_status sel = SUPPORTED \<longleftrightarrow> se_answer sel \<noteq> None)"
  using assms by (rule selection_rests)

text \<open>
  Conflicts are real and all reported: the conflicting answers are candidates from other
  documents than the answer's and from different ones, each directly incompatible with the answer;
  and every document with a directly incompatible candidate is among them.
\<close>

theorem conflicts_are_exact:
  assumes "select_evidence E F em query sources p keywords = Inr sel" "se_answer sel = Some primary"
  shows "(\<forall>c \<in> set (se_conflicts sel). c \<in> set (se_candidates sel)
            \<and> vs_document (an_source c) \<noteq> vs_document (an_source primary)
            \<and> directly_incompatible E (selector_terms E query keywords) primary c)
    \<and> distinct (map (vs_document \<circ> an_source) (se_conflicts sel))
    \<and> (\<forall>a \<in> set (se_candidates sel). directly_incompatible E (selector_terms E query keywords) primary a
         \<and> vs_document (an_source a) \<noteq> vs_document (an_source primary)
         \<longrightarrow> vs_document (an_source a) \<in> (vs_document \<circ> an_source) ` set (se_conflicts sel))
    \<and> (se_conflict sel = SEPARATE_SOURCES \<longleftrightarrow> se_conflicts sel \<noteq> [])"
proof -
  let ?terms = "selector_terms E query keywords"
  from assms(1) obtain ws as where sel: "sel = selection_of E ?terms ws as" by (rule select_evidence_parts) blast
  with assms(2) obtain bs where as: "as = primary # bs" by (auto split: list.splits)
  have "vs_document (an_source a) \<in> (vs_document \<circ> an_source) ` set (conflict_loop E ?terms primary [] bs)"
    if "a \<in> set as" "directly_incompatible E ?terms primary a" "vs_document (an_source a) \<noteq> vs_document (an_source primary)" for a
  proof -
    from that as have "a \<in> set bs" by auto
    from conflict_loop_complete [OF this that(2), of "[]"] that(3) obtain c
      where "c \<in> set (conflict_loop E ?terms primary [] bs)" "vs_document (an_source c) = vs_document (an_source a)" by auto
    then show ?thesis by (auto intro: rev_image_eqI)
  qed
  then show ?thesis using conflict_loop_sound [of _ E ?terms primary "[]" bs] conflict_loop_distinct [of E ?terms primary "[]" bs]
    by (auto simp: sel as)
qed

section \<open>Witnesses\<close>

text \<open>
  ASCII text, where NFKC changes nothing, and unit vectors, where the arithmetic is exact.
\<close>

definition demo_lower :: "nat \<Rightarrow> nat" where
  "demo_lower c = (if 65 \<le> c \<and> c \<le> 90 then c + 32 else c)"

definition demo_alnum :: "nat \<Rightarrow> bool" where
  "demo_alnum c \<longleftrightarrow> (97 \<le> c \<and> c \<le> 122) \<or> (65 \<le> c \<and> c \<le> 90) \<or> (48 \<le> c \<and> c \<le> 57)"

definition demo_text_env :: text_env where
  "demo_text_env = \<lparr>te_nfkc = (\<lambda>s. s), te_casefold = map demo_lower, te_alnum = demo_alnum, te_alpha = demo_alnum,
     te_token = demo_alnum\<rparr>"

fun demo_mul :: "py_float \<Rightarrow> py_float \<Rightarrow> py_float" where
  "demo_mul (Finite x) (Finite y) = Finite (x * y)"
| "demo_mul _ _ = NaN"

fun demo_add :: "py_float \<Rightarrow> py_float \<Rightarrow> py_float" where
  "demo_add (Finite x) (Finite y) = Finite (x + y)"
| "demo_add _ _ = NaN"

fun demo_div :: "py_float \<Rightarrow> py_float \<Rightarrow> py_float res" where
  "demo_div (Finite x) (Finite y) = (if y = 0 then Inl (OverflowError ''division'') else Inr (Finite (x / y)))"
| "demo_div _ _ = Inr NaN"

definition demo_float_ops :: float_ops where
  "demo_float_ops = \<lparr>fo_mul = demo_mul, fo_sub = (\<lambda>x y. demo_add x (float_neg y)), fo_sum = (\<lambda>xs. foldl demo_add (Finite 0) xs),
     fo_square = (\<lambda>x. Inr (demo_mul x x)), fo_sqrt = (\<lambda>x. Inr x), fo_div = demo_div\<rparr>"

definition demo_evidence_port :: evidence_embedding where
  "demo_evidence_port = \<lparr>em_query = (\<lambda>_. Inr [Finite 1, Finite 0]),
     em_documents = (\<lambda>ts. Inr (map (\<lambda>t. [Finite 1, Finite 0]) ts))\<rparr>"

lemmas demo_text_simps = demo_text_env_def demo_lower_def demo_alnum_def fold_text_def normalize_text_def word_char_def py_isspace_def

definition demo_query :: pystr where "demo_query = lit ''notice PERIOD''"
definition demo_terms :: "pystr list" where "demo_terms = [lit ''notice'', lit ''period'']"
definition demo_text1 :: pystr where "demo_text1 = lit ''notice  period 30%''"
definition demo_text2 :: pystr where "demo_text2 = lit ''Notice period: 60%''"

lemma demo_matcher_terms: "matcher_terms demo_text_env demo_query = demo_terms"
  by (simp add: matcher_terms_def demo_query_def demo_terms_def demo_text_simps dict_fromkeys_def)

lemma demo_normalized:
  "normalize_text demo_text_env demo_text1 = lit ''notice period 30%''"
  "normalize_text demo_text_env demo_text2 = lit ''notice period: 60%''"
  by (simp_all add: demo_text1_def demo_text2_def demo_text_simps)

lemma contains_at: "starts_at t s k \<Longrightarrow> contains t s"
  by (auto simp: contains_iff)

lemma demo_contained:
  "contains (lit ''notice'') (lit ''notice period 30%'')" "contains (lit ''period'') (lit ''notice period 30%'')"
  "contains (lit ''notice'') (lit ''notice period: 60%'')" "contains (lit ''period'') (lit ''notice period: 60%'')"
  "contains (lit ''notice'' @ [32] @ lit ''period'') (lit ''notice period 30%'')"
  "contains (lit ''notice'' @ [32] @ lit ''period'') (lit ''notice period: 60%'')"
  by (rule contains_at [of _ _ 0] contains_at [of _ _ 7], simp add: starts_at_def)+

lemma demo_numeric:
  "single_numeric_claim demo_text_env (lit ''notice period 30%'') = Some (30, [37])"
  "single_numeric_claim demo_text_env (lit ''notice period: 60%'') = Some (60, [37])"
  by (simp_all add: single_numeric_claim_def numeric_matches.simps numeric_end_def unsigned_end_def digit_run_def
   is_decimal_def py_decimal_ascii comma_groups.simps recognized_unit_after_def skip_spaces.simps
   recognized_units_def starts_at_def has_numeric_unit_boundary_def token_at_def decimal_value_def decimal_digits_def slice_def py_isspace_def)

lemma demo_share: "term_share demo_terms (lit ''notice period 30%'') = 1" "term_share demo_terms (lit ''notice period: 60%'') = 1"
  by (simp_all only: term_share_def demo_terms_def filter.simps demo_contained if_True) (simp_all add: round_double_1)

lemma demo_coverage: "t \<in> {demo_text1, demo_text2} \<Longrightarrow> coverage_of demo_text_env demo_terms t = 1"
  using demo_share by (auto simp: coverage_of_def demo_normalized demo_terms_def simp del: lit_simps)

lemma demo_highlighted:
  "t \<in> {demo_text1, demo_text2} \<Longrightarrow> kr_highlights (highlights_of demo_text_env demo_terms t loc u) \<noteq> []
     \<and> kr_coverage (highlights_of demo_text_env demo_terms t loc u) = 1"
proof -
  assume t: "t \<in> {demo_text1, demo_text2}"
  have "fold_text demo_text_env [] = []" by (simp add: demo_text_simps)
  moreover have "\<forall>t \<in> set demo_terms. t \<noteq> []" "length demo_terms \<le> 2 ^ 64" by (simp_all add: demo_terms_def)
  moreover have "\<not> (\<forall>w \<in> set demo_terms. \<not> contains w (normalize_text demo_text_env t))"
    using t demo_contained by (auto simp: demo_normalized demo_terms_def simp del: lit_simps)
  moreover have "coverage_of demo_text_env demo_terms t = 1" using t by (rule demo_coverage)
  ultimately show ?thesis
    using highlights_iff_found(1) [of demo_text_env demo_terms t loc u] by (auto simp: highlights_of_def)
qed

definition demo_unit :: "nat \<Rightarrow> pystr \<Rightarrow> evidence_unit" where
  "demo_unit k t = \<lparr>ev_id = UUID (100 + k), ev_chunk = Some (UUID k), ev_ordinal = 0, ev_text = t,
     ev_location = \<lparr>lc_element = UUID 1, lc_page = None, lc_start = 10, lc_end = 30, lc_bbox = None, lc_kind = NORMALIZED_TEXT,
       lc_part = None, lc_sha256 = None, lc_cell = None\<rparr>,
     ev_projection = Some (UUID 9)\<rparr>"

definition demo_source :: "nat \<Rightarrow> evidence_unit list \<Rightarrow> rag_source" where
  "demo_source k us = \<lparr>vs_document = UUID (200 + k), vs_number = 1, vs_media = lit ''text/plain'',
     vs_chunk = \<lparr>rc_chunk = UUID k, rc_projection = UUID 9, rc_version = UUID 8, rc_workspace = UUID 7, rc_folder = None,
       rc_build = UUID 6, rc_title = [], rc_path = [], rc_text = [], rc_units = us\<rparr>,
     vs_score = Finite (of_nat k)\<rparr>"

definition demo_evidence_sources :: "rag_source list" where
  "demo_evidence_sources = [demo_source 3 [demo_unit 3 demo_text1], demo_source 2 [demo_unit 2 demo_text2]]"

definition demo_policy :: answer_policy where
  "demo_policy = \<lparr>ap_semantic = Finite (1 / 2), ap_keyword = Finite (1 / 2), ap_provenance = True, ap_conflict = lit ''separate_sources''\<rparr>"

definition demo_answer :: "nat \<Rightarrow> pystr \<Rightarrow> evidence_answer" where
  "demo_answer k t = \<lparr>an_source = demo_source k [demo_unit k t], an_evidence = demo_unit k t, an_excerpt = t,
     an_highlights = kr_highlights (highlights_of demo_text_env demo_terms t (ev_location (demo_unit k t)) (UUID (100 + k))),
     an_coverage = Some 1, an_score = None, an_warnings = []\<rparr>"

lemma demo_fields [simp]:
  "ev_id (demo_unit k t) = UUID (100 + k)" "ev_text (demo_unit k t) = t" "vs_document (demo_source k us) = UUID (200 + k)"
  "rc_units (vs_chunk (demo_source k us)) = us"
  by (simp_all add: demo_unit_def demo_source_def)

lemma demo_provenance [simp]: "provenance_warnings (demo_source k us) (demo_unit k t) = []"
  by (simp add: provenance_warnings_def) (simp add: demo_source_def demo_unit_def)

lemma demo_keyword_answer:
  "t \<in> {demo_text1, demo_text2} \<Longrightarrow>
     keyword_answer demo_text_env demo_terms demo_policy (demo_source k [demo_unit k t], demo_unit k t) = [demo_answer k t]"
  using demo_highlighted [of t "ev_location (demo_unit k t)" "UUID (100 + k)"]
  by (auto simp add: keyword_answer_def demo_answer_def Let_def demo_policy_def)

lemma demo_incompatible: "directly_incompatible demo_text_env demo_terms (demo_answer 3 demo_text1) (demo_answer 2 demo_text2)"
proof -
  have "same_claim_key demo_terms (lit ''notice period 30%'') (lit ''notice period: 60%'')"
    using demo_contained(5,6) by (simp add: same_claim_key_def demo_terms_def py_isdigit_ascii)
  then show ?thesis
    using demo_numeric by (simp add: directly_incompatible_def demo_answer_def demo_normalized Let_def del: lit_simps)
qed

lemma demo_selected:
  "select_evidence demo_text_env demo_float_ops demo_evidence_port demo_query demo_evidence_sources demo_policy None =
     Inr \<lparr>se_status = SUPPORTED, se_answer = Some (demo_answer 3 demo_text1), se_conflict = SEPARATE_SOURCES,
       se_conflicts = [demo_answer 2 demo_text2], se_warnings = [],
       se_candidates = [demo_answer 3 demo_text1, demo_answer 2 demo_text2]\<rparr>"
proof -
  let ?items = "[(demo_source 3 [demo_unit 3 demo_text1], demo_unit 3 demo_text1), (demo_source 2 [demo_unit 2 demo_text2], demo_unit 2 demo_text2)]"
  have cands: "selection_candidates demo_evidence_sources = map (\<lambda>(s, u). (s, u, [])) ?items"
    by (simp add: selection_candidates_def demo_evidence_sources_def)
  have items: "eligible_items [] (selection_candidates demo_evidence_sources) = ?items"
    unfolding cands by simp
  have kw: "keyword_answers demo_text_env demo_terms ?items demo_policy = [demo_answer 3 demo_text1, demo_answer 2 demo_text2]"
    by (simp add: keyword_answers_def demo_keyword_answer) (simp add: coverage_key_def demo_answer_def)
  have ids: "ev_id (an_evidence (demo_answer k t)) = UUID (100 + k)" for k t by (simp add: demo_answer_def)
  have terms: "selector_matcher demo_text_env demo_query None = Inr (new_matcher demo_text_env demo_query)"
    "km_terms (new_matcher demo_text_env demo_query) = demo_terms"
    using new_matcher_ok [of demo_text_env demo_query]
    by (simp_all add: selector_matcher_def validate_query_def matcher_ok_def demo_matcher_terms)
  have docs: "vs_document (an_source (demo_answer k t)) = UUID (200 + k)" for k t by (simp add: demo_answer_def)
  have warn: "dict_fromkeys (concat (map (snd \<circ> snd) (selection_candidates demo_evidence_sources))) = []"
    unfolding cands by (simp add: dict_fromkeys_def)
  show ?thesis unfolding select_evidence_def Let_def terms items rbind_simps terms kw warn
    by (simp add: ids kw semantic_answers_def selection_of_def docs demo_incompatible Let_def) (simp add: demo_policy_def)
qed

theorem selection_is_grounded_witness:
  "\<exists>sel. select_evidence demo_text_env demo_float_ops demo_evidence_port demo_query demo_evidence_sources demo_policy None = Inr sel
     \<and> length (se_candidates sel) = 2 \<and> (\<forall>a \<in> set (se_candidates sel). rests_on demo_evidence_sources a \<and> answer_quotes a)"
  using selection_is_grounded [OF demo_selected] by (auto simp: demo_selected)

theorem conflicts_are_exact_witness:
  "\<exists>sel. select_evidence demo_text_env demo_float_ops demo_evidence_port demo_query demo_evidence_sources demo_policy None = Inr sel
     \<and> length (se_conflicts sel) = 1 \<and> se_conflict sel = SEPARATE_SOURCES"
  using conflicts_are_exact [OF demo_selected] by (simp add: demo_selected)

theorem highlights_quote_the_source_witness:
  "\<exists>h. h \<in> set (kr_highlights (find_keyword_highlights demo_text_env demo_query demo_text2 (ev_location (demo_unit 2 demo_text2)) (UUID 102)))
     \<and> quotes demo_text2 (ev_location (demo_unit 2 demo_text2)) (UUID 102) h"
proof -
  let ?hs = "kr_highlights (find_keyword_highlights demo_text_env demo_query demo_text2 (ev_location (demo_unit 2 demo_text2)) (UUID 102))"
  have "?hs \<noteq> []"
    using demo_highlighted [of demo_text2] by (simp add: find_keyword_highlights_eq demo_matcher_terms)
  then obtain h where "h \<in> set ?hs" by (cases ?hs) auto
  with highlights_quote_the_source [OF this] show ?thesis by blast
qed

theorem coverage_counts_terms_witness:
  "kr_coverage (find_keyword_highlights demo_text_env demo_query demo_text1 (ev_location (demo_unit 3 demo_text1)) (UUID 103)) \<noteq> 0"
proof -
  have "fold_text demo_text_env [] = []" "length (matcher_terms demo_text_env demo_query) \<le> 2 ^ 64"
    by (simp add: demo_text_simps) (simp add: demo_matcher_terms demo_terms_def)
  from coverage_counts_terms [OF this, of demo_text1] show ?thesis
    using demo_contained(1) by (auto simp: Let_def demo_matcher_terms demo_terms_def demo_normalized simp del: lit_simps)
qed

end
