(* ===== verification/Context_Properties.thy ===== *)
theory Context_Properties
  imports Context_Selection Evidence_Properties
begin

text \<open>
  What a selected context promises: it stays within its budget, it holds original units with complete
  provenance, each once, it never separates conflicting evidence, and leaves out of a table only
  the columns of other products.
\<close>

section \<open>Gathering\<close>

definition usable :: "rag_source \<Rightarrow> evidence_unit \<Rightarrow> bool" where
  "usable src u \<longleftrightarrow> provenance_warnings src u = [] \<and> strip (ev_text u) \<noteq> []"

definition group_ids :: "context_group \<Rightarrow> uuid set" where
  "group_ids g = ev_id ` set (cg_units g)"

text \<open>A group of usable units of its source, each once.\<close>

definition group_ok :: "rag_source list \<Rightarrow> context_group \<Rightarrow> bool" where
  "group_ok sources g \<longleftrightarrow>
     cg_source g \<in> set sources \<and> set (cg_units g) \<subseteq> set (rc_units (vs_chunk (cg_source g)))
     \<and> (\<forall>u \<in> set (cg_units g). usable (cg_source g) u) \<and> distinct (map ev_id (cg_units g))"

definition separate_groups :: "context_group list \<Rightarrow> bool" where
  "separate_groups gs \<longleftrightarrow>
     distinct (map cg_chunk gs) \<and> (\<forall>g \<in> set gs. \<forall>h \<in> set gs. cg_chunk g \<noteq> cg_chunk h \<longrightarrow> group_ids g \<inter> group_ids h = {})"

lemma source_units_ok:
  "source_units src seen us = Inr (seen', vs) \<Longrightarrow>
     set vs \<subseteq> set us \<and> (\<forall>u \<in> set vs. usable src u) \<and> distinct (map ev_id vs)
     \<and> ev_id ` set vs \<inter> fst ` set seen = {} \<and> ev_id ` set vs \<subseteq> fst ` set seen' \<and> fst ` set seen \<subseteq> fst ` set seen'"
proof (induction src seen us arbitrary: seen' vs rule: source_units.induct)
  case (2 src seen u us)
  show ?case
  proof (cases "map_of seen (ev_id u)")
    case (Some other)
    with 2(3) have o: "other = (vs_document src, rc_version (vs_chunk src), u)" "source_units src seen us = Inr (seen', vs)"
      by (auto simp: Let_def split: if_splits)
    from 2(2) [OF refl Some _ o(2)] o(1) show ?thesis by auto
  next
    case None
    then have new: "ev_id u \<notin> fst ` set seen" by (simp add: map_of_eq_None_iff)
    from 2(3) None obtain ws where ws:
      "source_units src ((ev_id u, (vs_document src, rc_version (vs_chunk src), u)) # seen) us = Inr (seen', ws)"
      "vs = (if provenance_warnings src u \<noteq> [] \<or> strip (ev_text u) = [] then ws else u # ws)"
      by (auto simp: Let_def)
    from 2(1) [OF refl None ws(1)] new ws(2) show ?thesis by (auto simp: usable_def)
  qed
qed simp

definition gathered :: "rag_source list \<Rightarrow> gather_state \<Rightarrow> bool" where
  "gathered sources st \<longleftrightarrow>
     (\<forall>g \<in> set (gs_groups st). group_ok sources g \<and> cg_units g \<noteq> [] \<and> group_ids g \<subseteq> fst ` set (gs_seen st)
        \<and> cg_chunk g \<in> fst ` set (gs_chunks st))
     \<and> separate_groups (gs_groups st)"

lemma gathered_group:
  assumes "gathered sources st" "g \<in> set (gs_groups st)"
  shows "group_ok sources g" "cg_units g \<noteq> []" "group_ids g \<subseteq> fst ` set (gs_seen st)" "cg_chunk g \<in> fst ` set (gs_chunks st)"
  using assms by (auto simp only: gathered_def)

lemma gathered_disjoint:
  "gathered sources st \<Longrightarrow> g \<in> set (gs_groups st) \<Longrightarrow> h \<in> set (gs_groups st) \<Longrightarrow> cg_chunk g \<noteq> cg_chunk h \<Longrightarrow>
     group_ids g \<inter> group_ids h = {}"
  by (simp add: gathered_def separate_groups_def)

lemma separate_snoc:
  assumes "separate_groups gs" "\<And>h. h \<in> set gs \<Longrightarrow> cg_chunk h \<noteq> cg_chunk g" "\<And>h. h \<in> set gs \<Longrightarrow> group_ids h \<inter> group_ids g = {}"
  shows "separate_groups (gs @ [g])"
proof -
  have "cg_chunk g \<notin> cg_chunk ` set gs" using assms(2) by force
  moreover have "group_ids a \<inter> group_ids b = {}" if "a \<in> set (gs @ [g])" "b \<in> set (gs @ [g])" "cg_chunk a \<noteq> cg_chunk b" for a b
    using that assms(1,3) unfolding separate_groups_def by (cases "a = g"; cases "b = g") auto
  ultimately show ?thesis using assms(1) by (auto simp: separate_groups_def)
qed

lemma gather_step_ok:
  assumes "gather_step E terms strategy src st = Inr st'" "gathered sources st" "src \<in> set sources"
  shows "gathered sources st'"
proof (cases "map_of (gs_chunks st) (rc_chunk (vs_chunk src))")
  case (Some previous)
  with assms show ?thesis by (auto simp: gather_step_def split: if_splits)
next
  case None
  then have new: "rc_chunk (vs_chunk src) \<notin> fst ` set (gs_chunks st)" by (simp add: map_of_eq_None_iff)
  from assms(1) None obtain seen valid where v:
    "source_units src (gs_seen st) (sort_key unit_order (rc_units (vs_chunk src))) = Inr (seen, valid)"
    "gs_seen st' = seen" "gs_chunks st' = (rc_chunk (vs_chunk src), src) # gs_chunks st"
    "gs_groups st' = gs_groups st @ (if valid = [] then []
       else [\<lparr>cg_source = src, cg_units = valid, cg_coverage = coverage_of E terms (py_join [10] (map ev_text valid)), cg_score = None\<rparr>])"
    by (auto simp: gather_step_def)
  note valid = source_units_ok [OF v(1)]
  have disj: "ev_id ` set valid \<inter> fst ` set (gs_seen st) = {}" and grows: "fst ` set (gs_seen st) \<subseteq> fst ` set seen"
    using valid by (simp_all only:)
  have old: "group_ids g \<inter> ev_id ` set valid = {}" "cg_chunk g \<noteq> rc_chunk (vs_chunk src)"
    "group_ok sources g \<and> cg_units g \<noteq> [] \<and> group_ids g \<subseteq> fst ` set (gs_seen st') \<and> cg_chunk g \<in> fst ` set (gs_chunks st')"
    if "g \<in> set (gs_groups st)" for g
  proof -
    note g = gathered_group [OF assms(2) that]
    show "group_ids g \<inter> ev_id ` set valid = {}" using g(3) disj by blast
    show "cg_chunk g \<noteq> rc_chunk (vs_chunk src)" using g(4) new by metis
    show "group_ok sources g \<and> cg_units g \<noteq> [] \<and> group_ids g \<subseteq> fst ` set (gs_seen st') \<and> cg_chunk g \<in> fst ` set (gs_chunks st')"
      using g v(2,3) order_trans [OF g(3) grows] by simp
  qed
  have sep: "separate_groups (gs_groups st)" using assms(2) by (simp add: gathered_def)
  show ?thesis
  proof (cases "valid = []")
    case True
    with v(4) have "gs_groups st' = gs_groups st" by simp
    with old(3) sep show ?thesis unfolding gathered_def by simp
  next
    case False
    define g where "g = \<lparr>cg_source = src, cg_units = valid,
      cg_coverage = coverage_of E terms (py_join [10] (map ev_text valid)), cg_score = None\<rparr>"
    have st': "gs_groups st' = gs_groups st @ [g]" using v(4) False by (simp add: g_def)
    have g: "cg_source g = src" "cg_units g = valid" "group_ids g = ev_id ` set valid" by (simp_all add: g_def group_ids_def)
    have "group_ok sources g \<and> cg_units g \<noteq> [] \<and> group_ids g \<subseteq> fst ` set (gs_seen st') \<and> cg_chunk g \<in> fst ` set (gs_chunks st')"
      using valid assms(3) False v(2,3) by (simp add: group_ok_def g)
    moreover have "separate_groups (gs_groups st @ [g])"
      by (rule separate_snoc [OF sep]) (use old(1,2) g in simp_all)
    ultimately show ?thesis using old(3) unfolding gathered_def st' by auto
  qed
qed

lemma gather_sources_ok:
  "gather_sources E terms strategy ss st = Inr st' \<Longrightarrow> gathered sources st \<Longrightarrow> set ss \<subseteq> set sources \<Longrightarrow> gathered sources st'"
proof (induction E terms strategy ss st rule: gather_sources.induct)
  case (2 E terms strategy s ss st)
  from 2(2) obtain m where m: "gather_step E terms strategy s st = Inr m" "gather_sources E terms strategy ss m = Inr st'" by auto
  from gather_step_ok [OF m(1) 2(3)] 2(4) have "gathered sources m" by simp
  from 2(1) [OF m(2) this] 2(4) show ?case by simp
qed simp

section \<open>Scoring and eligibility\<close>

text \<open>\<open>part_of g g0\<close>: the same source, some of the units.\<close>

definition part_of :: "context_group \<Rightarrow> context_group \<Rightarrow> bool" where
  "part_of g g0 \<longleftrightarrow>
     cg_source g = cg_source g0 \<and> set (cg_units g) \<subseteq> set (cg_units g0)
     \<and> (distinct (map ev_id (cg_units g0)) \<longrightarrow> distinct (map ev_id (cg_units g)))"

lemma part_of_refl: "part_of g g"
  by (simp add: part_of_def)

lemma part_of_ok: "part_of g g0 \<Longrightarrow> group_ok sources g0 \<Longrightarrow> group_ok sources g"
  by (auto simp: part_of_def group_ok_def)

lemma part_of_ids: "part_of g g0 \<Longrightarrow> group_ids g \<subseteq> group_ids g0"
  by (auto simp: part_of_def group_ids_def)

lemma score_groups_same:
  assumes "score_groups F em qv gs = Inr gs'"
  shows "list_all2 (\<lambda>g g'. \<exists>x. g' = g\<lparr>cg_score := Some x\<rparr>) gs gs'"
proof -
  from assms obtain vs where vs: "length vs = length gs"
    "mapr (\<lambda>(g, v). rbind (cosine_similarity F qv v) (\<lambda>x. Inr (g\<lparr>cg_score := Some x\<rparr>))) (zip gs vs) = Inr gs'"
    by (auto simp: score_groups_def split: if_splits)
  show ?thesis unfolding list_all2_conv_all_nth
  proof (intro conjI allI impI)
    show "length gs = length gs'" using mapr_length [OF vs(2)] vs(1) by simp
    fix i assume i: "i < length gs"
    with mapr_nth [OF vs(2), of i] vs(1) obtain x where "(gs ! i)\<lparr>cg_score := Some x\<rparr> = gs' ! i" by auto
    then show "\<exists>x. gs' ! i = (gs ! i)\<lparr>cg_score := Some x\<rparr>" by metis
  qed
qed

lemma payment_table_units_filter:
  "payment_table_units E F query src us = Some kept \<Longrightarrow> \<exists>P. kept = filter P us"
  by (auto simp: payment_table_units_def project_table_def Let_def split: if_splits option.splits list.splits)

lemma filter_part_of: "part_of (g\<lparr>cg_units := filter P (cg_units g)\<rparr>) g"
  by (auto simp: part_of_def distinct_map_filter)

text \<open>The groups an eligibility step adds: none, or a part of its group that loses nothing qualified.\<close>

definition keeps_qualified :: "uuid list \<Rightarrow> context_group \<Rightarrow> context_group \<Rightarrow> bool" where
  "keeps_qualified qualified g g0 \<longleftrightarrow> (\<forall>u \<in> set (cg_units g0). ev_id u \<in> set qualified \<longrightarrow> ev_id u \<in> group_ids g)"

lemma eligibility_step_adds:
  obtains "ey_groups (eligibility_step E F strategy query p q g0 el) = ey_groups el"
  | g where "ey_groups (eligibility_step E F strategy query p q g0 el) = ey_groups el @ [g]" "part_of g g0" "keeps_qualified q g g0"
proof -
  let ?el = "eligibility_step E F strategy query p q g0 el"
  have same: "keeps_qualified q g0 g0" by (simp add: keeps_qualified_def group_ids_def)
  have admit: "ey_groups (admit_group p q g0 e) = ey_groups e \<or> ey_groups (admit_group p q g0 e) = ey_groups e @ [g0]" for e
    by (simp add: admit_group_def)
  have "ey_groups ?el = ey_groups el \<or> (\<exists>g. ey_groups ?el = ey_groups el @ [g] \<and> part_of g g0 \<and> keeps_qualified q g g0)"
  proof (cases "strategy = lit ''structure-v1''")
    case True
    then show ?thesis
      using admit [of "el\<lparr>ey_reasons := ey_reasons el @ [(cg_chunk g0, gc_reason (inspect_grid_candidate E query (cg_source g0) (cg_units g0)))]\<rparr>"]
        part_of_refl same
      by (auto simp: eligibility_step_def Let_def)
  next
    case False
    show ?thesis
    proof (cases "payment_table_units E F query (cg_source g0) (cg_units g0)")
      case None
      with False admit [of el] part_of_refl same show ?thesis by (auto simp: eligibility_step_def)
    next
      case (Some kept)
      show ?thesis
      proof (cases "removes_nothing_qualified q (cg_units g0) kept")
        case True
        let ?g = "g0\<lparr>cg_units := kept\<rparr>"
        from payment_table_units_filter [OF Some] obtain P where "kept = filter P (cg_units g0)" by blast
        with filter_part_of have "part_of ?g g0" by blast
        moreover have "keeps_qualified q ?g g0"
          using True by (auto simp: removes_nothing_qualified_def list_all_iff keeps_qualified_def group_ids_def)
        ultimately show ?thesis using False Some True by (auto simp: eligibility_step_def)
      next
        case False': False
        with False Some admit [of el] part_of_refl same show ?thesis by (auto simp: eligibility_step_def)
      qed
    qed
  qed
  then show ?thesis using that by blast
qed

lemma eligible_parts:
  "\<forall>g \<in> set (ey_groups (fold (eligibility_step E F strategy query p q) gs el)).
     g \<in> set (ey_groups el) \<or> (\<exists>g0 \<in> set gs. part_of g g0 \<and> keeps_qualified q g g0)"
proof (induction gs arbitrary: el)
  case (Cons g0 gs)
  let ?m = "eligibility_step E F strategy query p q g0 el"
  have "g \<in> set (ey_groups el) \<or> part_of g g0 \<and> keeps_qualified q g g0" if "g \<in> set (ey_groups ?m)" for g
    using that by (rule_tac eligibility_step_adds [of E F strategy query p q g0 el]) auto
  with Cons [of ?m] show ?case by auto
qed simp

lemma eligible_distinct:
  "distinct (map cg_chunk (ey_groups el) @ map cg_chunk gs) \<Longrightarrow>
     distinct (map cg_chunk (ey_groups (fold (eligibility_step E F strategy query p q) gs el)))"
proof (induction gs arbitrary: el)
  case (Cons g0 gs)
  let ?m = "eligibility_step E F strategy query p q g0 el"
  have "distinct (map cg_chunk (ey_groups ?m) @ map cg_chunk gs)"
  proof (rule eligibility_step_adds [of E F strategy query p q g0 el])
    assume "ey_groups ?m = ey_groups el"
    with Cons.prems show ?thesis by auto
  next
    fix g assume "ey_groups ?m = ey_groups el @ [g]" "part_of g g0"
    with Cons.prems show ?thesis by (auto simp: part_of_def)
  qed
  from Cons.IH [OF this] show ?case by simp
qed simp

section \<open>Admission\<close>

definition within_budget :: "evidence_budget \<Rightarrow> admission \<Rightarrow> bool" where
  "within_budget b ad \<longleftrightarrow>
     int (length (ad_chosen ad)) \<le> eb_groups b
     \<and> ad_units ad = int (sum_list (map (length \<circ> cg_units) (ad_chosen ad))) \<and> ad_units ad \<le> eb_units b
     \<and> ad_characters ad = sum_list (map group_size (ad_chosen ad)) \<and> ad_characters ad \<le> eb_characters b"

lemma violations_Nil:
  "violations b ad g = [] \<longleftrightarrow>
     int (length (ad_chosen ad)) < eb_groups b \<and> ad_units ad + int (length (cg_units g)) \<le> eb_units b
     \<and> ad_characters ad + group_size g \<le> eb_characters b"
  by (auto simp: violations_def)

lemma violations_ok: "distinct (violations b ad g) \<and> length (violations b ad g) \<le> 3"
  by (simp add: violations_def)

lemma admission_step_cases:
  assumes "admission_step b g ad = Inr ad'"
  obtains "ad_chosen ad' = ad_chosen ad" "ad_units ad' = ad_units ad" "ad_characters ad' = ad_characters ad"
  | "violations b ad g = []" "ad_chosen ad' = ad_chosen ad @ [g]" "ad_units ad' = ad_units ad + int (length (cg_units g))"
    "ad_characters ad' = ad_characters ad + group_size g"
  using assms by (auto simp: admission_step_def Let_def split: if_splits)

lemma admission_step_within:
  assumes "admission_step b g ad = Inr ad'" "within_budget b ad"
  shows "within_budget b ad'"
  using assms(1)
proof (cases rule: admission_step_cases)
  case 1
  with assms(2) show ?thesis by (simp add: within_budget_def)
next
  case 2
  with assms(2) show ?thesis by (simp add: within_budget_def violations_Nil)
qed

lemma admit_groups_within:
  "admit_groups b gs ad = Inr ad' \<Longrightarrow> within_budget b ad \<Longrightarrow> within_budget b ad'"
proof (induction b gs ad rule: admit_groups.induct)
  case (2 b g gs ad)
  then obtain m where "admission_step b g ad = Inr m" "admit_groups b gs m = Inr ad'" by auto
  with 2 admission_step_within show ?case by blast
qed simp

lemma admit_groups_chosen:
  "admit_groups b gs ad = Inr ad' \<Longrightarrow> \<exists>cs. ad_chosen ad' = ad_chosen ad @ cs \<and> subseq cs gs"
proof (induction b gs ad rule: admit_groups.induct)
  case (2 b g gs ad)
  then obtain m where m: "admission_step b g ad = Inr m" "admit_groups b gs m = Inr ad'" by auto
  from 2(1) [OF m(2)] obtain cs where cs: "ad_chosen ad' = ad_chosen m @ cs" "subseq cs gs" by blast
  from m(1) show ?case
  proof (cases rule: admission_step_cases)
    case 1
    with cs have "ad_chosen ad' = ad_chosen ad @ cs \<and> subseq cs (g # gs)" by (simp add: list_emb_Cons)
    then show ?thesis by blast
  next
    case 2
    with cs have "ad_chosen ad' = ad_chosen ad @ (g # cs) \<and> subseq (g # cs) (g # gs)" by simp
    then show ?thesis by blast
  qed
qed simp

lemma new_evidence_budget_limits:
  "new_evidence_budget b = Inr b' \<Longrightarrow> b' = b \<and> 1 \<le> eb_groups b \<and> 1 \<le> eb_units b \<and> 1 \<le> eb_characters b \<and> eb_groups b \<le> eb_units b"
  by (auto simp: new_evidence_budget_def split: if_splits)

text \<open>The trace of an admission is always accepted.\<close>

lemma admission_step_returns:
  assumes "new_evidence_budget b = Inr b" "0 \<le> ad_units ad" "0 \<le> ad_characters ad"
  shows "\<exists>ad'. admission_step b g ad = Inr ad' \<and> 0 \<le> ad_units ad' \<and> 0 \<le> ad_characters ad'"
proof -
  have "0 \<le> group_size g" by (simp add: group_size_def)
  with new_evidence_budget_limits [OF assms(1)] assms(2,3) violations_ok [of b ad g] show ?thesis
    by (auto simp: admission_step_def new_budget_trace_def Let_def)
qed

lemma admit_groups_returns:
  "new_evidence_budget b = Inr b \<Longrightarrow> 0 \<le> ad_units ad \<Longrightarrow> 0 \<le> ad_characters ad \<Longrightarrow> \<exists>ad'. admit_groups b gs ad = Inr ad'"
proof (induction gs arbitrary: ad)
  case (Cons g gs)
  from admission_step_returns [OF Cons.prems, of g] obtain m where "admission_step b g ad = Inr m" "0 \<le> ad_units m" "0 \<le> ad_characters m"
    by blast
  with Cons show ?case by simp
qed simp

section \<open>The whole selection\<close>

lemma outcome_parts:
  assumes "context_outcome_of E F strategy query ex p b groups = Inr out"
  obtains el :: eligibility and ad :: admission where
    "co_chosen out = (if co_blocked out = None then ad_chosen ad else [])"
    "admit_groups b (sort_key (group_rank p) (ey_groups el)) \<lparr>ad_chosen = [], ad_units = 0, ad_characters = 0, ad_traces = []\<rparr> = Inr ad"
    "el = fold (eligibility_step E F strategy query p (qualified_ids ex)) groups
       \<lparr>ey_groups = [], ey_grids = [], ey_tables = [], ey_reasons = []\<rparr>"
    "co_blocked out \<noteq> None \<longleftrightarrow> se_conflicts ex \<noteq> [] \<and> \<not> set (anchor_ids ex) \<subseteq> ev_id ` set (concat (map cg_units (ad_chosen ad)))"
proof -
  define el where "el = fold (eligibility_step E F strategy query p (qualified_ids ex)) groups
       \<lparr>ey_groups = [], ey_grids = [], ey_tables = [], ey_reasons = []\<rparr>"
  from assms obtain ad where ad:
    "admit_groups b (sort_key (group_rank p) (ey_groups el)) \<lparr>ad_chosen = [], ad_units = 0, ad_characters = 0, ad_traces = []\<rparr> = Inr ad"
    and out: "out = (let refused = se_conflicts ex \<noteq> [] \<and> \<not> set (anchor_ids ex) \<subseteq> set (map ev_id (concat (map cg_units (ad_chosen ad))))
       in \<lparr>co_eligible = sort_key (group_rank p) (ey_groups el), co_elig = el, co_admission = ad,
            co_chosen = (if refused then [] else ad_chosen ad),
            co_blocked = (if refused then Some (lit ''conflict_context_budget_exceeded'') else None)\<rparr>)"
    unfolding context_outcome_of_def Let_def el_def [symmetric] rbind_eq_Inr by blast
  show ?thesis by (rule that [OF _ ad el_def]) (simp_all add: out Let_def)
qed

lemma set_subseq: "subseq xs ys \<Longrightarrow> set xs \<subseteq> set ys"
  by (induction rule: list_emb.induct) auto

lemma distinct_subseq: "subseq xs ys \<Longrightarrow> distinct ys \<Longrightarrow> distinct xs"
proof (induction rule: list_emb.induct)
  case (list_emb_Cons2 x y xs ys)
  with set_subseq show ?case by fastforce
qed auto

lemma outcome_groups:
  assumes out: "context_outcome_of E F strategy query ex p b groups = Inr out" and sep: "separate_groups groups"
  shows "\<forall>g \<in> set (co_chosen out). \<exists>g0 \<in> set groups. part_of g g0 \<and> keeps_qualified (qualified_ids ex) g g0"
    and "distinct (map cg_chunk (co_chosen out))"
proof -
  from out obtain el ad where parts: "co_chosen out = (if co_blocked out = None then ad_chosen ad else [])"
    "admit_groups b (sort_key (group_rank p) (ey_groups el)) \<lparr>ad_chosen = [], ad_units = 0, ad_characters = 0, ad_traces = []\<rparr> = Inr ad"
    "el = fold (eligibility_step E F strategy query p (qualified_ids ex)) groups
       \<lparr>ey_groups = [], ey_grids = [], ey_tables = [], ey_reasons = []\<rparr>"
    by (rule outcome_parts)
  from admit_groups_chosen [OF parts(2)] have sub: "subseq (ad_chosen ad) (sort_key (group_rank p) (ey_groups el))" by simp
  from set_subseq [OF sub] have set: "set (ad_chosen ad) \<subseteq> set (ey_groups el)" by simp
  have "\<forall>g \<in> set (ey_groups el). \<exists>g0 \<in> set groups. part_of g g0 \<and> keeps_qualified (qualified_ids ex) g g0"
    unfolding parts(3) using eligible_parts [of E F strategy query p "qualified_ids ex" groups] by fastforce
  with set parts(1) show "\<forall>g \<in> set (co_chosen out). \<exists>g0 \<in> set groups. part_of g g0 \<and> keeps_qualified (qualified_ids ex) g g0"
    by auto
  have "distinct (map cg_chunk (ey_groups el))"
    unfolding parts(3) by (rule eligible_distinct) (use sep in \<open>simp add: separate_groups_def\<close>)
  then have "distinct (map cg_chunk (sort_key (group_rank p) (ey_groups el)))" by simp
  with subseq_map [OF sub, of cg_chunk] have "distinct (map cg_chunk (ad_chosen ad))" by (rule distinct_subseq)
  with parts(1) show "distinct (map cg_chunk (co_chosen out))" by simp
qed

lemma select_context_parts:
  assumes "select_context E F em query sources ex p b diagnostics strategy keywords = Inr cs"
  obtains "cs_groups cs = []" "cs_blocked cs = None"
  | km st qv groups out where
    "gather_sources E (km_terms (km :: keyword_matcher)) strategy sources
       \<lparr>gs_seen = [], gs_chunks = [], gs_groups = [], gs_warnings = []\<rparr> = Inr st"
    "score_groups F em qv (gs_groups st) = Inr groups" "context_outcome_of E F strategy query ex p b groups = Inr out"
    "cs_groups cs = co_chosen out" "cs_blocked cs = co_blocked out"
proof -
  have "\<exists>(km :: keyword_matcher) st. gather_sources E (km_terms km) strategy sources \<lparr>gs_seen = [], gs_chunks = [], gs_groups = [], gs_warnings = []\<rparr> = Inr st
      \<and> context_of_groups E F em query ex p b diagnostics strategy (km_terms km) st = Inr cs"
    using assms by (auto simp: select_context_def simp del: lit_simps split: if_splits)
  then obtain km :: keyword_matcher and st where st: "gather_sources E (km_terms km) strategy sources
      \<lparr>gs_seen = [], gs_chunks = [], gs_groups = [], gs_warnings = []\<rparr> = Inr st"
    and rest: "context_of_groups E F em query ex p b diagnostics strategy (km_terms km) st = Inr cs" by blast
  show ?thesis
  proof (cases "gs_groups st = []")
    case True
    with rest have "cs_groups cs = [] \<and> cs_blocked cs = None" by (auto simp: context_of_groups_def)
    then show ?thesis using that(1) by simp
  next
    case False
    with rest obtain qv groups out where parts: "score_groups F em qv (gs_groups st) = Inr groups"
      "context_outcome_of E F strategy query ex p b groups = Inr out"
      "cs_groups cs = co_chosen out \<and> cs_blocked cs = co_blocked out"
      by (cases diagnostics) (auto simp: context_of_groups_def Let_def split: prod.splits)
    from parts(3) show ?thesis using that(2) [OF st parts(1,2)] by simp
  qed
qed

text \<open>Every group of a context is a part of a gathered group, and none is there twice.\<close>

lemma select_context_groups:
  assumes "select_context E F em query sources ex p b diagnostics strategy keywords = Inr cs"
  obtains "cs_groups cs = []"
  | km st where
    "gather_sources E (km_terms (km :: keyword_matcher)) strategy sources
       \<lparr>gs_seen = [], gs_chunks = [], gs_groups = [], gs_warnings = []\<rparr> = Inr st"
    "gathered sources st"
    "\<And>g. g \<in> set (cs_groups cs) \<Longrightarrow> \<exists>g0 \<in> set (gs_groups st). part_of g g0 \<and> keeps_qualified (qualified_ids ex) g g0"
    "distinct (map cg_chunk (cs_groups cs))"
  using assms
proof (cases rule: select_context_parts)
  case 1
  then show ?thesis using that(1) by simp
next
  case (2 km st qv groups out)
  have "gathered sources \<lparr>gs_seen = [], gs_chunks = [], gs_groups = [], gs_warnings = []\<rparr>"
    by (simp add: gathered_def separate_groups_def)
  from gather_sources_ok [OF 2(1) this] have st: "gathered sources st" by simp
  note scored = score_groups_same [OF 2(2)]
  have len: "length groups = length (gs_groups st)" using list_all2_lengthD [OF scored] by simp
  have nth: "cg_source (groups ! i) = cg_source (gs_groups st ! i)" "cg_units (groups ! i) = cg_units (gs_groups st ! i)"
    if "i < length groups" for i
    using list_all2_nthD [OF scored, of i] that len by auto
  have chunks: "map cg_chunk groups = map cg_chunk (gs_groups st)" by (rule nth_equalityI) (simp_all add: len nth)
  have same: "\<exists>g0 \<in> set (gs_groups st). cg_source g0 = cg_source g \<and> cg_units g0 = cg_units g" if "g \<in> set groups" for g
    using that nth len by (metis in_set_conv_nth)
  have "separate_groups groups" unfolding separate_groups_def
  proof (intro conjI ballI impI)
    show "distinct (map cg_chunk groups)" using st unfolding chunks by (simp add: gathered_def separate_groups_def)
    fix g h assume gh: "g \<in> set groups" "h \<in> set groups" "cg_chunk g \<noteq> cg_chunk h"
    from same [OF gh(1)] same [OF gh(2)] obtain g0 h0 where "g0 \<in> set (gs_groups st)" "h0 \<in> set (gs_groups st)"
      "cg_source g0 = cg_source g" "cg_units g0 = cg_units g" "cg_source h0 = cg_source h" "cg_units h0 = cg_units h" by blast
    with gathered_disjoint [OF st, of g0 h0] gh(3) show "group_ids g \<inter> group_ids h = {}" by (simp add: group_ids_def)
  qed
  note out = outcome_groups [OF 2(3) this]
  show ?thesis
  proof (rule that(2) [OF 2(1) st])
    show "distinct (map cg_chunk (cs_groups cs))" using out(2) 2(4) by simp
    fix g assume "g \<in> set (cs_groups cs)"
    with out(1) 2(4) obtain g1 where g1: "g1 \<in> set groups" "part_of g g1" "keeps_qualified (qualified_ids ex) g g1" by auto
    from same [OF g1(1)] obtain g0 where "g0 \<in> set (gs_groups st)" "cg_source g0 = cg_source g1" "cg_units g0 = cg_units g1" by blast
    with g1(2,3) show "\<exists>g0 \<in> set (gs_groups st). part_of g g0 \<and> keeps_qualified (qualified_ids ex) g g0"
      by (auto simp: part_of_def keeps_qualified_def intro!: bexI [of _ g0])
  qed
qed

section \<open>Sources whose units are all different\<close>

abbreviation source_ids :: "rag_source list \<Rightarrow> uuid list" where
  "source_ids sources \<equiv> map ev_id (concat (map (rc_units \<circ> vs_chunk) sources))"

lemma source_units_full:
  "distinct (map ev_id us) \<Longrightarrow> ev_id ` set us \<inter> fst ` set seen = {} \<Longrightarrow>
     \<exists>seen'. source_units src seen us = Inr (seen', filter (usable src) us) \<and> fst ` set seen' = fst ` set seen \<union> ev_id ` set us"
proof (induction us arbitrary: seen)
  case (Cons u us)
  let ?seen = "(ev_id u, (vs_document src, rc_version (vs_chunk src), u)) # seen"
  have "distinct (map ev_id us)" "ev_id ` set us \<inter> fst ` set ?seen = {}" using Cons.prems by auto
  from Cons.IH [OF this] obtain seen' where "source_units src ?seen us = Inr (seen', filter (usable src) us)"
    "fst ` set seen' = fst ` set ?seen \<union> ev_id ` set us" by blast
  moreover have "map_of seen (ev_id u) = None" using Cons.prems(2) by (simp add: map_of_eq_None_iff)
  ultimately show ?case by (auto simp: usable_def [of src u] Let_def)
qed simp

text \<open>Every group holds all usable units of its source.\<close>

definition full_groups :: "gather_state \<Rightarrow> bool" where
  "full_groups st \<longleftrightarrow>
     (\<forall>g \<in> set (gs_groups st). {u \<in> set (rc_units (vs_chunk (cg_source g))). usable (cg_source g) u} \<subseteq> set (cg_units g))"

lemma gather_step_full:
  assumes "distinct (map ev_id (rc_units (vs_chunk src)))" "ev_id ` set (rc_units (vs_chunk src)) \<inter> fst ` set (gs_seen st) = {}"
    "rc_chunk (vs_chunk src) \<notin> fst ` set (gs_chunks st)"
  shows "\<exists>st'. gather_step E terms strategy src st = Inr st' \<and> (full_groups st \<longrightarrow> full_groups st')
    \<and> fst ` set (gs_seen st') = fst ` set (gs_seen st) \<union> ev_id ` set (rc_units (vs_chunk src))
    \<and> fst ` set (gs_chunks st') = insert (rc_chunk (vs_chunk src)) (fst ` set (gs_chunks st))"
proof -
  let ?us = "sort_key unit_order (rc_units (vs_chunk src))"
  have "distinct (map ev_id ?us)" "ev_id ` set ?us \<inter> fst ` set (gs_seen st) = {}" using assms by simp_all
  from source_units_full [OF this, of src] obtain seen where s: "source_units src (gs_seen st) ?us = Inr (seen, filter (usable src) ?us)"
    "fst ` set seen = fst ` set (gs_seen st) \<union> ev_id ` set ?us" by blast
  have "map_of (gs_chunks st) (rc_chunk (vs_chunk src)) = None" using assms(3) by (simp add: map_of_eq_None_iff)
  with s have "\<exists>st'. gather_step E terms strategy src st = Inr st' \<and> gs_seen st' = seen
      \<and> gs_chunks st' = (rc_chunk (vs_chunk src), src) # gs_chunks st
      \<and> (\<forall>g \<in> set (gs_groups st'). g \<in> set (gs_groups st) \<or> (cg_source g = src \<and> cg_units g = filter (usable src) ?us))"
    by (simp add: gather_step_def)
  then obtain st' where st': "gather_step E terms strategy src st = Inr st'" "gs_seen st' = seen"
    "gs_chunks st' = (rc_chunk (vs_chunk src), src) # gs_chunks st"
    "\<forall>g \<in> set (gs_groups st'). g \<in> set (gs_groups st) \<or> (cg_source g = src \<and> cg_units g = filter (usable src) ?us)" by blast
  show ?thesis
  proof (intro exI [of _ st'] conjI impI)
    show "gather_step E terms strategy src st = Inr st'" by (rule st'(1))
    show "full_groups st'" if "full_groups st" using that st'(4) unfolding full_groups_def by fastforce
    show "fst ` set (gs_seen st') = fst ` set (gs_seen st) \<union> ev_id ` set (rc_units (vs_chunk src))" using st'(2) s(2) by simp
    show "fst ` set (gs_chunks st') = insert (rc_chunk (vs_chunk src)) (fst ` set (gs_chunks st))" using st'(3) by simp
  qed
qed

lemma gather_sources_full:
  assumes "distinct (source_ids ss)" "ev_id ` set (concat (map (rc_units \<circ> vs_chunk) ss)) \<inter> fst ` set (gs_seen st) = {}"
    "distinct (map (rc_chunk \<circ> vs_chunk) ss)" "(rc_chunk \<circ> vs_chunk) ` set ss \<inter> fst ` set (gs_chunks st) = {}" "full_groups st"
  shows "\<exists>st'. gather_sources E terms strategy ss st = Inr st' \<and> full_groups st'"
  using assms
proof (induction ss arbitrary: st)
  case (Cons s ss)
  have "distinct (map ev_id (rc_units (vs_chunk s)))" "ev_id ` set (rc_units (vs_chunk s)) \<inter> fst ` set (gs_seen st) = {}"
    "rc_chunk (vs_chunk s) \<notin> fst ` set (gs_chunks st)" using Cons.prems(1,2,4) by auto
  from gather_step_full [OF this, of E terms strategy] Cons.prems(5) obtain m where m: "gather_step E terms strategy s st = Inr m" "full_groups m"
    "fst ` set (gs_seen m) = fst ` set (gs_seen st) \<union> ev_id ` set (rc_units (vs_chunk s))"
    "fst ` set (gs_chunks m) = insert (rc_chunk (vs_chunk s)) (fst ` set (gs_chunks st))"
    by blast
  have "ev_id ` set (concat (map (rc_units \<circ> vs_chunk) ss)) \<inter> fst ` set (gs_seen m) = {}"
  proof -
    have "ev_id ` set (concat (map (rc_units \<circ> vs_chunk) ss)) \<inter> ev_id ` set (rc_units (vs_chunk s)) = {}"
      using Cons.prems(1) unfolding list.map concat.simps map_append distinct_append set_map comp_apply by blast
    moreover have "ev_id ` set (concat (map (rc_units \<circ> vs_chunk) ss)) \<inter> fst ` set (gs_seen st) = {}"
      using Cons.prems(2) unfolding list.map concat.simps set_append image_Un by blast
    ultimately show ?thesis unfolding m(3) by blast
  qed
  moreover have "(rc_chunk \<circ> vs_chunk) ` set ss \<inter> fst ` set (gs_chunks m) = {}"
    using Cons.prems(3,4) unfolding m(4) by auto
  ultimately obtain st' where "gather_sources E terms strategy ss m = Inr st'" "full_groups st'"
    using Cons.IH [of m] Cons.prems(1,3) m(2) by auto
  with m(1) show ?case by simp
qed simp

lemma mapr_returns: "(\<And>x. x \<in> set xs \<Longrightarrow> \<exists>y. f x = Inr y) \<Longrightarrow> \<exists>ys. mapr f xs = Inr ys"
proof (induction xs)
  case (Cons x xs)
  from Cons.prems [of x] Cons.IH Cons.prems show ?case by fastforce
qed simp

text \<open>
  An embedding that answers: as many vectors as texts, all comparable with the query's.
\<close>

definition lawful_embedding :: "float_ops \<Rightarrow> evidence_embedding \<Rightarrow> bool" where
  "lawful_embedding F em \<longleftrightarrow>
     (\<forall>q. \<exists>qv. em_query em q = Inr qv
        \<and> (\<forall>ts. \<exists>vs. em_documents em ts = Inr vs \<and> length vs = length ts \<and> (\<forall>v \<in> set vs. \<exists>x. cosine_similarity F qv v = Inr x)))"

lemma score_groups_returns:
  assumes "em_documents em (map context_text gs) = Inr vs" "length vs = length gs" "\<forall>v \<in> set vs. \<exists>x. cosine_similarity F qv v = Inr x"
  shows "\<exists>gs'. score_groups F em qv gs = Inr gs'"
proof -
  have "\<exists>ys. mapr (\<lambda>(g, v). rbind (cosine_similarity F qv v) (\<lambda>x. Inr (g\<lparr>cg_score := Some x\<rparr>))) (zip gs vs) = Inr ys"
  proof (rule mapr_returns)
    fix z assume "z \<in> set (zip gs vs)"
    then obtain g v where "z = (g, v)" "v \<in> set vs" by (metis in_set_zip prod.collapse nth_mem)
    with assms(3) show "\<exists>y. (case z of (g, v) \<Rightarrow> rbind (cosine_similarity F qv v) (\<lambda>x. Inr (g\<lparr>cg_score := Some x\<rparr>))) = Inr y"
      by fastforce
  qed
  with assms(1,2) show ?thesis by (simp add: score_groups_def)
qed

lemma unit_scores_returns:
  assumes "em_documents em ts = Inr vs" "length vs = length ts" "\<forall>v \<in> set vs. \<exists>x. cosine_similarity F qv v = Inr x"
  shows "\<exists>r. unit_scores F em qv ts = Inr r"
proof -
  obtain xs where "mapr (cosine_similarity F qv) vs = Inr xs" using mapr_returns [of vs "cosine_similarity F qv"] assms(3) by blast
  with assms(1,2) show ?thesis by (simp add: unit_scores_def)
qed

lemma outcome_returns:
  "new_evidence_budget b = Inr b \<Longrightarrow> \<exists>out. context_outcome_of E F strategy query ex p b groups = Inr out"
  using admit_groups_returns [of b "\<lparr>ad_chosen = [], ad_units = 0, ad_characters = 0, ad_traces = []\<rparr>"]
  by (fastforce simp: context_outcome_of_def Let_def)

section \<open>What a context promises\<close>

text \<open>
  C30. A context respects its budget: as many groups, units and characters as the limits allow, never
  more.
\<close>

theorem context_within_budget:
  assumes "select_context E F em query sources ex p b diagnostics strategy keywords = Inr cs" "new_evidence_budget b = Inr b"
  shows "int (length (cs_groups cs)) \<le> eb_groups b
    \<and> int (sum_list (map (length \<circ> cg_units) (cs_groups cs))) \<le> eb_units b
    \<and> sum_list (map group_size (cs_groups cs)) \<le> eb_characters b"
proof -
  note lim = new_evidence_budget_limits [OF assms(2)]
  have none: ?thesis if "cs_groups cs = []" using lim that by simp
  from assms(1) show ?thesis
  proof (cases rule: select_context_parts)
    case (2 km st qv groups out)
    from 2(3) obtain el :: eligibility and ad :: admission where ad: "co_chosen out = (if co_blocked out = None then ad_chosen ad else [])"
      "admit_groups b (sort_key (group_rank p) (ey_groups el)) \<lparr>ad_chosen = [], ad_units = 0, ad_characters = 0, ad_traces = []\<rparr> = Inr ad"
      by (rule outcome_parts)
    have "within_budget b \<lparr>ad_chosen = [], ad_units = 0, ad_characters = 0, ad_traces = []\<rparr>"
      using lim by (simp add: within_budget_def)
    from admit_groups_within [OF ad(2) this] show ?thesis
      using 2(4) ad(1) none by (cases "co_blocked out") (auto simp: within_budget_def)
  qed (use none in simp)
qed

text \<open>
  A context holds original evidence: every group belongs to one of the sources and consists of
  units of its chunk, unaltered, with complete provenance and a text that is not blank; no chunk
  and no unit appears twice.
\<close>

theorem context_holds_original_units:
  assumes "select_context E F em query sources ex p b diagnostics strategy keywords = Inr cs"
  shows "(\<forall>g \<in> set (cs_groups cs). group_ok sources g) \<and> distinct (map cg_chunk (cs_groups cs))
    \<and> distinct (map ev_id (concat (map cg_units (cs_groups cs))))"
  using assms
proof (cases rule: select_context_groups)
  case 1
  then show ?thesis by simp
next
  case (2 km st)
  have ok: "group_ok sources g" if "g \<in> set (cs_groups cs)" for g
    using 2(3) [OF that] gathered_group(1) [OF 2(2)] part_of_ok by blast
  have disj: "group_ids g \<inter> group_ids h = {}" if gh: "g \<in> set (cs_groups cs)" "h \<in> set (cs_groups cs)" "cg_chunk g \<noteq> cg_chunk h" for g h
  proof -
    from 2(3) [OF gh(1)] 2(3) [OF gh(2)] obtain g0 h0 where "g0 \<in> set (gs_groups st)" "h0 \<in> set (gs_groups st)"
      "part_of g g0" "part_of h h0" by blast
    moreover from this gh(3) have "cg_chunk g0 \<noteq> cg_chunk h0" by (simp add: part_of_def)
    ultimately have "group_ids g0 \<inter> group_ids h0 = {}" using gathered_disjoint [OF 2(2)] by blast
    with \<open>part_of g g0\<close> \<open>part_of h h0\<close> part_of_ids show ?thesis by blast
  qed
  have "distinct (map ev_id (concat (map cg_units gs)))"
    if "distinct (map cg_chunk gs)" "\<forall>g \<in> set gs. group_ok sources g"
      "\<forall>g \<in> set gs. \<forall>h \<in> set gs. cg_chunk g \<noteq> cg_chunk h \<longrightarrow> group_ids g \<inter> group_ids h = {}" for gs
    using that
  proof (induction gs)
    case (Cons g gs)
    have "group_ids g \<inter> (\<Union>h \<in> set gs. group_ids h) = {}"
    proof -
      have "cg_chunk g \<noteq> cg_chunk h" if "h \<in> set gs" for h using Cons.prems(1) that by force
      then show ?thesis using Cons.prems(3) by auto
    qed
    moreover have "distinct (map ev_id (concat (map cg_units gs)))" using Cons by simp
    moreover have "distinct (map ev_id (cg_units g))" using Cons.prems(2) by (simp add: group_ok_def)
    ultimately show ?case by (auto simp: group_ids_def)
  qed simp
  with ok disj 2(4) show ?thesis by blast
qed

text \<open>
  Conflicting evidence travels together: when the extractive selection found conflicts, a context
  that is not empty holds the answer and every conflicting unit; a context is blocked only for that
  reason, and then it is empty.
\<close>

theorem conflicts_travel_together:
  assumes "select_context E F em query sources ex p b diagnostics strategy keywords = Inr cs"
  shows "(se_conflicts ex \<noteq> [] \<and> cs_groups cs \<noteq> [] \<longrightarrow> set (anchor_ids ex) \<subseteq> (\<Union>g \<in> set (cs_groups cs). group_ids g))
    \<and> (cs_blocked cs \<noteq> None \<longrightarrow> se_conflicts ex \<noteq> [] \<and> cs_groups cs = [])"
  using assms
proof (cases rule: select_context_parts)
  case 1
  then show ?thesis by simp
next
  case (2 km st qv groups out)
  from 2(3) obtain el :: eligibility and ad :: admission where ad: "co_chosen out = (if co_blocked out = None then ad_chosen ad else [])"
    "co_blocked out \<noteq> None \<longleftrightarrow> se_conflicts ex \<noteq> [] \<and> \<not> set (anchor_ids ex) \<subseteq> ev_id ` set (concat (map cg_units (ad_chosen ad)))"
    by (rule outcome_parts)
  have "ev_id ` set (concat (map cg_units gs)) = (\<Union>g \<in> set gs. group_ids g)" for gs by (auto simp: group_ids_def)
  with ad 2(4,5) show ?thesis by (cases "co_blocked out") auto
qed

text \<open>
  Evidence the extractive selection found is never cut out of a selected group: when all units of
  the sources are different, a group that is transmitted holds every usable unit of its chunk that
  is the answer, a conflicting answer or another candidate.
\<close>

theorem qualified_evidence_survives:
  assumes "select_context E F em query sources ex p b diagnostics strategy keywords = Inr cs"
    "distinct (source_ids sources)" "distinct (map (rc_chunk \<circ> vs_chunk) sources)"
    "g \<in> set (cs_groups cs)" "u \<in> set (rc_units (vs_chunk (cg_source g)))" "usable (cg_source g) u"
    "ev_id u \<in> set (qualified_ids ex)"
  shows "u \<in> set (cg_units g)"
  using assms(1)
proof (cases rule: select_context_groups)
  case 1
  with assms(4) show ?thesis by simp
next
  case (2 km st)
  from gather_sources_full [of sources "\<lparr>gs_seen = [], gs_chunks = [], gs_groups = [], gs_warnings = []\<rparr>" E "km_terms km" strategy]
    assms(2,3) 2(1) have full: "full_groups st" by (auto simp: full_groups_def)
  from 2(3) [OF assms(4)] obtain g0 where g0: "g0 \<in> set (gs_groups st)" "part_of g g0" "keeps_qualified (qualified_ids ex) g g0" by blast
  then have src: "cg_source g0 = cg_source g" by (simp add: part_of_def)
  from full g0(1) have "{u \<in> set (rc_units (vs_chunk (cg_source g0))). usable (cg_source g0) u} \<subseteq> set (cg_units g0)"
    by (simp add: full_groups_def)
  with assms(5,6) have "u \<in> set (cg_units g0)" by (auto simp: src)
  with g0(3) assms(7) obtain v where v: "v \<in> set (cg_units g)" "ev_id v = ev_id u"
    by (auto simp: keeps_qualified_def group_ids_def)
  have "group_ok sources g" using part_of_ok [OF g0(2)] gathered_group(1) [OF 2(2) g0(1)] by blast
  then have "cg_source g \<in> set sources" "v \<in> set (rc_units (vs_chunk (cg_source g)))" using v(1) by (auto simp: group_ok_def)
  then have "v \<in> set (concat (map (rc_units \<circ> vs_chunk) sources))" "u \<in> set (concat (map (rc_units \<circ> vs_chunk) sources))"
    using assms(5) by auto
  with assms(2) v(2) have "u = v" by (metis distinct_map inj_onD)
  with v(1) show ?thesis by simp
qed

text \<open>
  A context is always delivered: with a valid budget, a known table strategy, sources that do not
  repeat a chunk or a unit, and an embedding that answers, the selection returns.
\<close>

theorem context_is_delivered:
  assumes "lawful_embedding F em" "new_evidence_budget b = Inr b" "strategy \<in> {lit ''payment-v1'', lit ''structure-v1''}"
    "distinct (source_ids sources)" "distinct (map (rc_chunk \<circ> vs_chunk) sources)"
  shows "\<exists>cs. select_context E F em query sources ex p b diagnostics strategy None = Inr cs"
proof -
  let ?km = "new_matcher E query"
  let ?st = "\<lparr>gs_seen = [], gs_chunks = [], gs_groups = [], gs_warnings = []\<rparr>"
  have km: "selector_matcher E query None = Inr ?km"
    using new_matcher_ok [of E query] by (simp add: selector_matcher_def validate_query_def matcher_ok_def)
  from gather_sources_full [of sources ?st E "km_terms ?km" strategy] assms(4,5) obtain st
    where st: "gather_sources E (km_terms ?km) strategy sources ?st = Inr st" by (auto simp: full_groups_def)
  have "\<exists>cs. context_of_groups E F em query ex p b diagnostics strategy (km_terms ?km) st = Inr cs"
  proof (cases "gs_groups st = []")
    case True
    then show ?thesis by (simp add: context_of_groups_def)
  next
    case False
    from assms(1) obtain qv where qv: "em_query em query = Inr qv"
      and docs: "\<And>ts. \<exists>vs. em_documents em ts = Inr vs \<and> length vs = length ts \<and> (\<forall>v \<in> set vs. \<exists>x. cosine_similarity F qv v = Inr x)"
      unfolding lawful_embedding_def by blast
    obtain vs where vs: "em_documents em (map context_text (gs_groups st)) = Inr vs" "length vs = length (gs_groups st)"
      "\<forall>v \<in> set vs. \<exists>x. cosine_similarity F qv v = Inr x"
      using docs [of "map context_text (gs_groups st)"] by auto
    from score_groups_returns [OF vs] obtain groups where groups: "score_groups F em qv (gs_groups st) = Inr groups" by blast
    from outcome_returns [OF assms(2)] obtain out where out: "context_outcome_of E F strategy query ex p b groups = Inr out" by blast
    have "\<exists>r. unit_scores F em qv ts = Inr r" for ts using docs [of ts] unit_scores_returns [of em ts] by blast
    then obtain r where "unit_scores F em qv (map (ev_text \<circ> snd) (concat (map (\<lambda>g. map (\<lambda>u. (g, u)) (cg_units g)) groups))) = Inr r"
      by blast
    with False qv groups out show ?thesis by (cases diagnostics) (auto simp: context_of_groups_def Let_def split: prod.splits)
  qed
  with km st assms(3) show ?thesis by (simp add: select_context_def del: lit_simps insert_iff)
qed

text \<open>
  A resolved budget is explicit: a contextual prompt gets exactly the positive integer limits its
  configuration names, with no more groups than units, and any other prompt gets none; everything
  else is refused.
\<close>

theorem resolved_budget_is_explicit:
  assumes "resolve_evidence_budget config = Inr r"
  shows "case r of
      None \<Rightarrow> (\<forall>s \<in> set contextual_prompts. map_of config (lit ''prompt_ref'') \<noteq> Some (PStr s))
        \<and> map_of config (lit ''context_evidence'') \<in> {None, Some PNone}
    | Some b \<Rightarrow> (\<exists>s \<in> set contextual_prompts. map_of config (lit ''prompt_ref'') = Some (PStr s))
        \<and> new_evidence_budget b = Inr b
        \<and> (\<exists>d. map_of config (lit ''context_evidence'') = Some (PDict d) \<and> set (map fst d) = set budget_keys
             \<and> map_of d (lit ''max_groups'') = Some (PInt (eb_groups b)) \<and> map_of d (lit ''max_units'') = Some (PInt (eb_units b))
             \<and> map_of d (lit ''max_characters'') = Some (PInt (eb_characters b)))"
proof -
  have integer: "v = Some (PInt n)" if "context_integer v = Inr n" for v n
    using that by (auto simp: context_integer_def split: option.splits py_value.splits)
  from assms obtain contextual where c: "in_text_set (map_of config (lit ''prompt_ref'')) contextual_prompts = Inr contextual"
    by (auto simp: resolve_evidence_budget_def simp del: lit_simps)
  then have c': "contextual \<longleftrightarrow> (\<exists>s \<in> set contextual_prompts. map_of config (lit ''prompt_ref'') = Some (PStr s))"
    by (auto simp: in_text_set_def simp del: lit_simps split: option.splits py_value.splits)
  consider (none) "map_of config (lit ''context_evidence'') \<in> {None, Some PNone}" | (dict) d where "map_of config (lit ''context_evidence'') = Some (PDict d)"
    using assms c by (auto simp: resolve_evidence_budget_def simp del: lit_simps split: option.splits py_value.splits)
  then show ?thesis
  proof cases
    case none
    with assms c have "\<not> contextual \<and> r = None" by (auto simp: resolve_evidence_budget_def simp del: lit_simps split: if_splits)
    with none c' show ?thesis by auto
  next
    case dict
    with assms c obtain g u k b where b: "contextual" "set (map fst d) = set budget_keys" "context_integer (map_of d (lit ''max_groups'')) = Inr g"
      "context_integer (map_of d (lit ''max_units'')) = Inr u" "context_integer (map_of d (lit ''max_characters'')) = Inr k"
      "new_evidence_budget \<lparr>eb_groups = g, eb_units = u, eb_characters = k\<rparr> = Inr b" "r = Some b"
      by (auto simp: resolve_evidence_budget_def simp del: lit_simps split: if_splits)
    from new_evidence_budget_limits [OF b(6)] have "b = \<lparr>eb_groups = g, eb_units = u, eb_characters = k\<rparr>" by simp
    with b dict c' integer [OF b(3)] integer [OF b(4)] integer [OF b(5)] show ?thesis by auto
  qed
qed

section \<open>Witnesses\<close>

definition demo_budget :: evidence_budget where
  "demo_budget = \<lparr>eb_groups = 2, eb_units = 3, eb_characters = 100\<rparr>"

definition demo_group :: "nat \<Rightarrow> pystr \<Rightarrow> context_group" where
  "demo_group k t = \<lparr>cg_source = demo_source k [demo_unit k t], cg_units = [demo_unit k t], cg_coverage = 1, cg_score = None\<rparr>"

definition demo_selection :: evidence_selection where
  "demo_selection = \<lparr>se_status = SUPPORTED, se_answer = Some (demo_answer 3 demo_text1), se_conflict = SEPARATE_SOURCES,
     se_conflicts = [demo_answer 2 demo_text2], se_warnings = [],
     se_candidates = [demo_answer 3 demo_text1, demo_answer 2 demo_text2]\<rparr>"

lemma demo_cosine: "cosine_similarity demo_float_ops [Finite 1, Finite 0] [Finite 1, Finite 0] = Inr (Finite 1)"
  by (simp add: cosine_similarity_def demo_float_ops_def is_finite_def)

lemma demo_strip: "t \<in> {demo_text1, demo_text2} \<Longrightarrow> strip t \<noteq> []"
  by (auto simp: demo_text1_def demo_text2_def strip_Nil_iff py_isspace_def)

lemma demo_gathered:
  "\<exists>st. gather_sources demo_text_env demo_terms (lit ''payment-v1'') demo_evidence_sources
      \<lparr>gs_seen = [], gs_chunks = [], gs_groups = [], gs_warnings = []\<rparr> = Inr st
    \<and> gs_groups st = [demo_group 3 demo_text1, demo_group 2 demo_text2] \<and> gs_warnings st = []"
  using demo_strip [of demo_text1] demo_strip [of demo_text2] demo_coverage
  by (simp add: demo_evidence_sources_def gather_step_def demo_group_def Let_def del: lit_simps) (simp add: demo_source_def)

lemma demo_scored:
  "score_groups demo_float_ops demo_evidence_port [Finite 1, Finite 0] [demo_group 3 demo_text1, demo_group 2 demo_text2] =
     Inr [(demo_group 3 demo_text1)\<lparr>cg_score := Some (Finite 1)\<rparr>, (demo_group 2 demo_text2)\<lparr>cg_score := Some (Finite 1)\<rparr>]"
  by (simp add: score_groups_def demo_evidence_port_def demo_cosine)

lemma demo_not_pdf: "payment_table_units E F query (demo_source k us) vs = None"
  by (simp add: payment_table_units_def demo_source_def)

lemma demo_outcome:
  "\<exists>out. context_outcome_of demo_text_env demo_float_ops (lit ''payment-v1'') demo_query demo_selection demo_policy demo_budget
       [(demo_group 3 demo_text1)\<lparr>cg_score := Some (Finite 1)\<rparr>, (demo_group 2 demo_text2)\<lparr>cg_score := Some (Finite 1)\<rparr>] = Inr out
     \<and> co_chosen out = [(demo_group 3 demo_text1)\<lparr>cg_score := Some (Finite 1)\<rparr>, (demo_group 2 demo_text2)\<lparr>cg_score := Some (Finite 1)\<rparr>]
     \<and> co_blocked out = None"
proof -
  let ?g3 = "(demo_group 3 demo_text1)\<lparr>cg_score := Some (Finite 1)\<rparr>" and ?g2 = "(demo_group 2 demo_text2)\<lparr>cg_score := Some (Finite 1)\<rparr>"
  have ids: "qualified_ids demo_selection = [UUID 103, UUID 102, UUID 103, UUID 102]" "anchor_ids demo_selection = [UUID 103, UUID 102]"
    by (simp_all add: qualified_ids_def anchor_ids_def demo_selection_def demo_answer_def)
  have el: "ey_groups (fold (eligibility_step demo_text_env demo_float_ops (lit ''payment-v1'') demo_query demo_policy (qualified_ids demo_selection))
      [?g3, ?g2] \<lparr>ey_groups = [], ey_grids = [], ey_tables = [], ey_reasons = []\<rparr>) = [?g3, ?g2]"
    by (simp add: eligibility_step_def demo_group_def demo_not_pdf admit_group_def group_qualifies_def ids del: lit_simps)
  have sorted: "sort_key (group_rank demo_policy) [?g3, ?g2] = [?g3, ?g2]"
    by (simp add: group_rank_def demo_group_def at_least_def float_le_def demo_policy_def demo_source_def)
  have "\<exists>ad. admit_groups demo_budget [?g3, ?g2] \<lparr>ad_chosen = [], ad_units = 0, ad_characters = 0, ad_traces = []\<rparr> = Inr ad
      \<and> ad_chosen ad = [?g3, ?g2]"
    by (simp add: admission_step_def new_budget_trace_def violations_def demo_budget_def demo_group_def group_size_def
        demo_text1_def demo_text2_def)
  then obtain ad where ad: "admit_groups demo_budget [?g3, ?g2] \<lparr>ad_chosen = [], ad_units = 0, ad_characters = 0, ad_traces = []\<rparr> = Inr ad"
    "ad_chosen ad = [?g3, ?g2]" by blast
  have ids': "set (anchor_ids demo_selection) \<subseteq> set (map ev_id (concat (map cg_units (ad_chosen ad))))"
    by (simp add: ids ad(2)) (simp add: demo_group_def)
  show ?thesis unfolding context_outcome_of_def Let_def el sorted ad(1) rbind_simps using ids' ad(2) by simp
qed

definition demo_context :: "context_selection res" where
  "demo_context = select_context demo_text_env demo_float_ops demo_evidence_port demo_query demo_evidence_sources demo_selection
     demo_policy demo_budget False (lit ''payment-v1'') None"

lemma demo_contexts:
  "\<exists>cs. demo_context = Inr cs \<and> map cg_units (cs_groups cs) = [[demo_unit 3 demo_text1], [demo_unit 2 demo_text2]]
     \<and> map cg_source (cs_groups cs) = demo_evidence_sources"
proof -
  have terms: "selector_matcher demo_text_env demo_query None = Inr (new_matcher demo_text_env demo_query)"
    "km_terms (new_matcher demo_text_env demo_query) = demo_terms"
    using new_matcher_ok [of demo_text_env demo_query]
    by (simp_all add: selector_matcher_def validate_query_def matcher_ok_def demo_matcher_terms)
  have qv: "em_query demo_evidence_port demo_query = Inr [Finite 1, Finite 0]" by (simp add: demo_evidence_port_def)
  from demo_gathered obtain st where "gather_sources demo_text_env demo_terms (lit ''payment-v1'') demo_evidence_sources
      \<lparr>gs_seen = [], gs_chunks = [], gs_groups = [], gs_warnings = []\<rparr> = Inr st"
    "gs_groups st = [demo_group 3 demo_text1, demo_group 2 demo_text2]" "gs_warnings st = []" by blast
  note st = this
  from demo_outcome obtain out where out: "context_outcome_of demo_text_env demo_float_ops (lit ''payment-v1'') demo_query demo_selection
      demo_policy demo_budget [(demo_group 3 demo_text1)\<lparr>cg_score := Some (Finite 1)\<rparr>, (demo_group 2 demo_text2)\<lparr>cg_score := Some (Finite 1)\<rparr>] = Inr out"
    "co_chosen out = [(demo_group 3 demo_text1)\<lparr>cg_score := Some (Finite 1)\<rparr>, (demo_group 2 demo_text2)\<lparr>cg_score := Some (Finite 1)\<rparr>]"
    by blast
  have "\<exists>cs. context_of_groups demo_text_env demo_float_ops demo_evidence_port demo_query demo_selection demo_policy demo_budget False
      (lit ''payment-v1'') demo_terms st = Inr cs \<and> cs_groups cs = co_chosen out"
    unfolding context_of_groups_def st(2) qv demo_scored out(1) rbind_simps by simp
  with terms st(1) have "\<exists>cs. demo_context = Inr cs \<and> cs_groups cs = co_chosen out"
    unfolding demo_context_def select_context_def by (simp del: lit_simps)
  then show ?thesis by (auto simp: out(2) demo_group_def demo_evidence_sources_def)
qed

lemma demo_budget_valid: "new_evidence_budget demo_budget = Inr demo_budget"
  by (simp add: new_evidence_budget_def demo_budget_def)

lemma demo_distinct: "distinct (source_ids demo_evidence_sources)" "distinct (map (rc_chunk \<circ> vs_chunk) demo_evidence_sources)"
  by (simp add: demo_evidence_sources_def) (simp add: demo_evidence_sources_def demo_source_def)

theorem context_within_budget_witness:
  "\<exists>cs. demo_context = Inr cs \<and> length (cs_groups cs) = 2 \<and> int (length (cs_groups cs)) \<le> eb_groups demo_budget"
proof -
  from demo_contexts obtain cs where cs: "demo_context = Inr cs" "map cg_source (cs_groups cs) = demo_evidence_sources" by blast
  from context_within_budget [OF cs(1) [unfolded demo_context_def] demo_budget_valid] arg_cong [OF cs(2), of length] show ?thesis
    using cs(1) by (auto simp: demo_evidence_sources_def numeral_2_eq_2)
qed

theorem context_holds_original_units_witness:
  "\<exists>cs. demo_context = Inr cs \<and> cs_groups cs \<noteq> [] \<and> (\<forall>g \<in> set (cs_groups cs). group_ok demo_evidence_sources g)"
proof -
  from demo_contexts obtain cs where cs: "demo_context = Inr cs" "map cg_source (cs_groups cs) = demo_evidence_sources" by blast
  from context_holds_original_units [OF cs(1) [unfolded demo_context_def]] show ?thesis
    using cs by (auto simp: demo_evidence_sources_def)
qed

theorem conflicts_travel_together_witness:
  "\<exists>cs. demo_context = Inr cs \<and> cs_groups cs \<noteq> [] \<and> {UUID 103, UUID 102} \<subseteq> (\<Union>g \<in> set (cs_groups cs). group_ids g)"
proof -
  from demo_contexts obtain cs where cs: "demo_context = Inr cs" "map cg_source (cs_groups cs) = demo_evidence_sources" by blast
  then have "cs_groups cs \<noteq> []" by (auto simp: demo_evidence_sources_def)
  moreover have "se_conflicts demo_selection \<noteq> []" "set (anchor_ids demo_selection) = {UUID 103, UUID 102}"
    by (simp_all add: demo_selection_def anchor_ids_def demo_answer_def)
  ultimately show ?thesis using conflicts_travel_together [OF cs(1) [unfolded demo_context_def]] cs(1) by auto
qed

theorem qualified_evidence_survives_witness:
  "\<exists>cs g. demo_context = Inr cs \<and> g \<in> set (cs_groups cs) \<and> demo_unit 3 demo_text1 \<in> set (cg_units g)"
proof -
  from demo_contexts obtain cs where cs: "demo_context = Inr cs" "map cg_source (cs_groups cs) = demo_evidence_sources" by blast
  then have "demo_source 3 [demo_unit 3 demo_text1] \<in> cg_source ` set (cs_groups cs)"
    by (simp add: demo_evidence_sources_def flip: set_map)
  then obtain g where g: "g \<in> set (cs_groups cs)" "cg_source g = demo_source 3 [demo_unit 3 demo_text1]" by force
  have "usable (demo_source 3 [demo_unit 3 demo_text1]) (demo_unit 3 demo_text1)" using demo_strip by (simp add: usable_def)
  with qualified_evidence_survives [OF cs(1) [unfolded demo_context_def] demo_distinct g(1), of "demo_unit 3 demo_text1"] g cs(1)
  show ?thesis by (auto simp: qualified_ids_def anchor_ids_def demo_selection_def demo_answer_def)
qed

theorem context_is_delivered_witness:
  "\<exists>cs. select_context demo_text_env demo_float_ops demo_evidence_port demo_query demo_evidence_sources demo_selection
     demo_policy demo_budget True (lit ''structure-v1'') None = Inr cs"
proof (rule context_is_delivered)
  show "lawful_embedding demo_float_ops demo_evidence_port"
    by (auto simp: lawful_embedding_def demo_evidence_port_def demo_cosine)
qed (use demo_budget_valid demo_distinct in \<open>simp_all del: lit_simps\<close>)

definition demo_evidence_config :: "(pystr \<times> py_value) list" where
  "demo_evidence_config =
     [(lit ''prompt_ref'', PStr (lit ''rag-answer-v4'')),
      (lit ''context_evidence'',
       PDict [(lit ''version'', PInt 1), (lit ''max_groups'', PInt 2), (lit ''max_units'', PInt 3), (lit ''max_characters'', PInt 100)])]"

theorem resolved_budget_is_explicit_witness:
  "resolve_evidence_budget demo_evidence_config = Inr (Some demo_budget) \<and> new_evidence_budget demo_budget = Inr demo_budget"
proof -
  have r: "resolve_evidence_budget demo_evidence_config = Inr (Some demo_budget)"
    by (auto simp: resolve_evidence_budget_def demo_evidence_config_def in_text_set_def contextual_prompts_def budget_keys_def context_integer_def
        new_evidence_budget_def demo_budget_def)
  from resolved_budget_is_explicit [OF r] show ?thesis using r by simp
qed

end
