(* ===== verification/Table_Properties.thy ===== *)
theory Table_Properties
  imports Table_Context Evidence_Properties
begin

text \<open>
  What the table projection promises: it only leaves out cells of the other columns of the table's
  rows, and keeps the label of every row it touches.
\<close>

section \<open>Rows\<close>

lemma boxed_cells_ok:
  "boxed_cells us = Some cs \<Longrightarrow> map fst cs = us \<and> (\<forall>c \<in> set cs. proper_box (fst c) = Some (snd c))"
proof (induction us arbitrary: cs rule: boxed_cells.induct)
  case (2 u us)
  then obtain b ds where "proper_box u = Some b" "boxed_cells us = Some ds" "cs = (u, b) # ds"
    by (auto simp del: split_paired_Ex split: option.splits)
  with 2(1) show ?case by simp
qed simp

definition row_ok :: "grid_cell list \<Rightarrow> bool" where
  "row_ok row \<longleftrightarrow> row \<noteq> [] \<and> (\<exists>b. list_all (\<lambda>c. cell_band c = b) row)"

lemma row_ok_band: "row_ok row \<Longrightarrow> c \<in> set row \<Longrightarrow> d \<in> set row \<Longrightarrow> cell_band c = cell_band d"
  by (auto simp only: row_ok_def list_all_iff)

lemma row_ok_snoc: "row_ok row \<Longrightarrow> cell_band c = cell_band (hd row) \<Longrightarrow> row_ok (row @ [c])"
  unfolding row_ok_def by (cases row) (auto simp del: split_paired_Ex split_paired_All)

lemma row_loop_ok:
  "row_loop cs rows = Some rows' \<Longrightarrow> \<forall>row \<in> set rows. row_ok row \<Longrightarrow>
     concat rows' = concat rows @ cs \<and> (\<forall>row \<in> set rows'. row_ok row)"
proof (induction cs rows rule: row_loop.induct)
  case (2 c cs rows)
  show ?case
  proof (cases "rows = []")
    case True
    have "\<forall>row \<in> set [[c]]. row_ok row" by (simp add: row_ok_def del: split_paired_Ex)
    with 2 True show ?thesis by simp
  next
    case False
    then obtain rs r where rs: "rows = rs @ [r]" by (cases rows rule: rev_cases) auto
    have r: "row_ok r" "\<forall>row \<in> set rs. row_ok row" using 2(5) rs by auto
    show ?thesis
    proof (cases "cell_band c = cell_band (hd r)")
      case True
      have "\<forall>row \<in> set (butlast rows @ [last rows @ [c]]). row_ok row"
        using r(2) row_ok_snoc [OF r(1) True] by (simp add: rs)
      moreover have "row_loop cs (butlast rows @ [last rows @ [c]]) = Some rows'"
        using 2(4) False True by (simp add: rs)
      moreover have "cell_band c = cell_band (hd (last rows))" using True by (simp add: rs)
      ultimately show ?thesis using 2(2) [OF False refl] by (simp add: rs)
    next
      case diff: False
      have "row_ok [c]" by (simp add: row_ok_def del: split_paired_Ex)
      with 2(5) have a: "\<forall>row \<in> set (rows @ [[c]]). row_ok row" by (simp add: ball_Un)
      have b: "\<not> fst (cell_band c) < snd (cell_band (hd (last rows)))" "row_loop cs (rows @ [[c]]) = Some rows'"
        using 2(4) False diff by (simp_all add: rs split: if_splits)
      have "cell_band c \<noteq> cell_band (hd (last rows))" using diff by (simp add: rs)
      from 2(3) [OF False refl this b a] show ?thesis by simp
    qed
  qed
qed simp

lemma table_loop_rows:
  "table_loop E F header rows table body = Some (table', body') \<Longrightarrow>
     set table' \<subseteq> set table \<union> {row \<in> set rows. aligned_row header row}"
proof (induction E F header rows table body rule: table_loop.induct)
  case (2 E F header row rows table body)
  show ?case
  proof (cases "length row = 1")
    case True
    with 2 show ?thesis by auto
  next
    case long: False
    show ?thesis
    proof (cases "body \<noteq> []")
      case True
      with 2(3) long show ?thesis by (auto split: if_splits)
    next
      case False
      with 2(3) long have "aligned_row header row" "table_loop E F header rows (table @ [row]) body = Some (table', body')"
        by (auto split: if_splits)
      with 2(2) long False show ?thesis by auto
    qed
  qed
qed simp

lemma project_table_parts:
  assumes "project_table E F q us rows start = Some kept"
  obtains column table body where
    "1 \<le> column" "column < length (rows ! start)" "found (label_pattern E (cell_text E (rows ! start ! column))) q"
    "table_loop E F (rows ! start) (drop start rows) [] [] = Some (table, body)"
    "kept = filter (\<lambda>u. ev_id u \<notin> set (excluded_ids column table)) us"
proof -
  from assms obtain column where c: "target_columns E q (map (cell_text E) (rows ! start)) = [column]"
    by (auto simp: project_table_def Let_def split: if_splits list.splits)
  with assms obtain table body where t: "table_loop E F (rows ! start) (drop start rows) [] [] = Some (table, body)"
    "kept = filter (\<lambda>u. ev_id u \<notin> set (excluded_ids column table)) us"
    by (auto simp: project_table_def Let_def split: if_splits option.splits)
  have "column \<in> set (target_columns E q (map (cell_text E) (rows ! start)))" by (simp add: c)
  then have "1 \<le> column" "column < length (rows ! start)" "found (label_pattern E (cell_text E (rows ! start ! column))) q"
    by (auto simp: target_columns_def)
  with t that show ?thesis by blast
qed

lemma payment_table_parts:
  assumes "payment_table_units E F query src us = Some kept"
  obtains cs rows start where "boxed_cells us = Some cs" "row_loop cs [] = Some rows" "start < length rows" "3 \<le> length (rows ! start)"
    "project_table E F (normalize_words E query) us rows start = Some kept"
proof -
  from assms obtain cs rows start where p: "boxed_cells us = Some cs" "row_loop cs [] = Some rows" "header_rows E rows = [start]"
    "project_table E F (normalize_words E query) us rows start = Some kept"
    by (auto simp: payment_table_units_def Let_def split: if_splits option.splits list.splits)
  have "start \<in> set (header_rows E rows)" by (simp add: p(3))
  then have "start < length rows" "3 \<le> length (rows ! start)" by (auto simp: header_rows_def)
  with p that show ?thesis by blast
qed

lemma excluded_ids_set:
  "k \<in> set (excluded_ids column table) \<longleftrightarrow>
     (\<exists>row \<in> set table. \<exists>i < length row. i \<noteq> 0 \<and> i \<noteq> column \<and> k = ev_id (fst (row ! i)))"
  by (fastforce simp: excluded_ids_def in_set_enumerate_eq)

text \<open>Different places of a list of rows without repetition hold different cells.\<close>

lemma same_place:
  assumes "distinct (map f (concat rows))" "r \<in> set rows" "s \<in> set rows" "i < length r" "j < length s" "f (r ! i) = f (s ! j)"
  shows "r = s \<and> i = j"
  using assms
proof (induction rows)
  case (Cons row rows)
  have disj: "f ` set row \<inter> f ` set (concat rows) = {}" using Cons.prems(1) by simp
  have in_rest: "f (t ! k) \<in> f ` set (concat rows)" if "t \<in> set rows" "k < length t" for t k
    using that nth_mem [of k t] by (simp only: set_concat) blast
  have in_row: "f (row ! k) \<in> f ` set row" if "k < length row" for k using that by simp
  consider "r = row" "s = row" | "r = row" "s \<in> set rows" | "r \<in> set rows" "s = row" | "r \<in> set rows" "s \<in> set rows"
    using Cons.prems(2,3) by auto
  then show ?case
  proof cases
    case 1
    have "distinct (map f row)" using Cons.prems(1) by simp
    with 1 Cons.prems(4-6) show ?thesis by (metis distinct_conv_nth length_map nth_map)
  next
    case 2
    with in_row [of i] in_rest [of s j] disj Cons.prems(4-6) show ?thesis by (metis disjoint_iff)
  next
    case 3
    with in_row [of j] in_rest [of r i] disj Cons.prems(4-6) show ?thesis by (metis disjoint_iff)
  next
    case 4
    with Cons show ?thesis by simp
  qed
qed simp

section \<open>What the projection promises\<close>

text \<open>Two units stand in one row of the page: their boxes have the same upper and lower edge.\<close>

definition same_row :: "evidence_unit \<Rightarrow> evidence_unit \<Rightarrow> bool" where
  "same_row u v \<longleftrightarrow>
     (case (proper_box u, proper_box v) of (Some a, Some b) \<Rightarrow> cell_band (u, a) = cell_band (v, b) | _ \<Rightarrow> False)"

text \<open>
  C31. The projection of a table is the list of its units in order without some of them; a unit it
  leaves out stands in a row of which two other units are kept, and a unit that is alone in its row
  (all prose, notes and headings) is always kept.
\<close>

theorem projection_leaves_only_other_columns:
  assumes "payment_table_units E F query src us = Some kept" "distinct (map ev_id us)"
  shows "(\<exists>P. kept = filter P us)
    \<and> (\<forall>u \<in> set us - set kept. \<exists>v \<in> set kept. \<exists>w \<in> set kept. v \<noteq> w \<and> same_row u v \<and> same_row u w)
    \<and> (\<forall>u \<in> set us. (\<forall>v \<in> set us. v \<noteq> u \<longrightarrow> \<not> same_row u v) \<longrightarrow> u \<in> set kept)"
proof -
  from assms(1) obtain cs rows start where rows: "boxed_cells us = Some cs" "row_loop cs [] = Some rows" "start < length rows"
    "3 \<le> length (rows ! start)" "project_table E F (normalize_words E query) us rows start = Some kept"
    by (rule payment_table_parts)
  from rows(5) obtain column table body where pt: "1 \<le> column" "column < length (rows ! start)"
    "table_loop E F (rows ! start) (drop start rows) [] [] = Some (table, body)"
    "kept = filter (\<lambda>u. ev_id u \<notin> set (excluded_ids column table)) us"
    by (rule project_table_parts)
  note cells = boxed_cells_ok [OF rows(1)]
  have rows_ok: "concat rows = cs" "\<forall>row \<in> set rows. row_ok row" using row_loop_ok [OF rows(2)] by simp_all
  have dist: "distinct (map (ev_id \<circ> fst) (concat rows))" using assms(2) cells by (simp add: rows_ok(1) flip: map_map)
  have table: "row \<in> set rows \<and> length row = length (rows ! start)" if "row \<in> set table" for row
    using table_loop_rows [OF pt(3)] that set_drop_subset [of start rows] by (auto simp: aligned_row_def)
  have cell: "c \<in> set cs" if "row \<in> set rows" "c \<in> set row" for row c using that rows_ok(1) by auto
  have unit: "fst c \<in> set us" "proper_box (fst c) = Some (snd c)" if "c \<in> set cs" for c
    using cells imageI [OF that, of fst] that by (simp_all only: list.set_map [symmetric])
  have mates: "\<exists>v \<in> set kept. \<exists>w \<in> set kept. v \<noteq> w \<and> same_row u v \<and> same_row u w" if u: "u \<in> set us" "u \<notin> set kept" for u
  proof -
    from u pt(4) obtain row i where ri: "row \<in> set table" "i < length row" "i \<noteq> 0" "i \<noteq> column" "ev_id u = ev_id (fst (row ! i))"
      by (auto simp: excluded_ids_set)
    have row: "row \<in> set rows" "length row = length (rows ! start)" "row_ok row" using table [OF ri(1)] rows_ok(2) by auto
    have in_cs: "row ! j \<in> set cs" if "j < length row" for j using cell row(1) that by simp
    have "u = fst (row ! i)"
      using unit(1) [OF in_cs [OF ri(2)]] u(1) ri(5) assms(2) by (metis distinct_map inj_onD)
    have near: "same_row (fst (row ! a)) (fst (row ! b))" if "a < length row" "b < length row" for a b
    proof -
      have "cell_band (row ! a) = cell_band (row ! b)" using row_ok_band [OF row(3)] that nth_mem by blast
      then show ?thesis using unit(2) [OF in_cs [OF that(1)]] unit(2) [OF in_cs [OF that(2)]] by (simp add: same_row_def)
    qed
    have keep: "fst (row ! j) \<in> set kept" if j: "j < length row" "j = 0 \<or> j = column" for j
    proof -
      have "ev_id (fst (row ! j)) \<notin> set (excluded_ids column table)"
      proof
        assume "ev_id (fst (row ! j)) \<in> set (excluded_ids column table)"
        then obtain s k where s: "s \<in> set table" "k < length s" "k \<noteq> 0" "k \<noteq> column" "ev_id (fst (row ! j)) = ev_id (fst (s ! k))"
          by (auto simp: excluded_ids_set)
        from same_place [OF dist row(1) _ j(1) s(2)] table [OF s(1)] s(5) have "j = k" by simp
        with j(2) s(3,4) show False by blast
      qed
      with unit(1) [OF in_cs [OF j(1)]] show ?thesis by (simp add: pt(4))
    qed
    have ends: "0 < length row" "column < length row" using row(2) rows(4) pt(2) by linarith+
    have "fst (row ! 0) \<noteq> fst (row ! column)"
    proof
      assume "fst (row ! 0) = fst (row ! column)"
      with same_place [OF dist row(1) row(1) ends] have "0 = column" by simp
      with pt(1) show False by simp
    qed
    with keep [OF ends(1)] keep [OF ends(2)] near [OF ri(2) ends(1)] near [OF ri(2) ends(2)] show ?thesis
      unfolding \<open>u = fst (row ! i)\<close> by blast
  qed
  have "u \<in> set kept" if u: "u \<in> set us" "\<forall>v \<in> set us. v \<noteq> u \<longrightarrow> \<not> same_row u v" for u
  proof (rule ccontr)
    assume "u \<notin> set kept"
    from mates [OF u(1) this] obtain v where "v \<in> set kept" "same_row u v" by blast
    with u(2) \<open>u \<notin> set kept\<close> pt(4) show False by auto
  qed
  with mates pt(4) show ?thesis by blast
qed

section \<open>Witnesses\<close>

text \<open>A page with a line of prose, a table of two products and one attribute, and a note.\<close>

definition demo_cell :: "nat \<Rightarrow> pystr \<Rightarrow> rat \<Rightarrow> rat \<Rightarrow> evidence_unit" where
  "demo_cell k t left upper = \<lparr>ev_id = UUID k, ev_chunk = Some (UUID 5), ev_ordinal = int k, ev_text = t,
     ev_location = \<lparr>lc_element = UUID 1, lc_page = Some 1, lc_start = 0, lc_end = 2,
       lc_bbox = Some (Finite left, Finite upper, Finite (left + 1), Finite (upper + 1)), lc_kind = PDF_PAGE, lc_part = None,
       lc_sha256 = None, lc_cell = None\<rparr>,
     ev_projection = Some (UUID 9)\<rparr>"

definition demo_table :: "evidence_unit list" where
  "demo_table =
     [demo_cell 11 (lit ''gg'') 0 0,
      demo_cell 12 (lit ''Item'') 0 2, demo_cell 13 (lit ''KK'') 2 2, demo_cell 14 (lit ''QQ'') 4 2,
      demo_cell 15 (lit ''Zz'') 0 4, demo_cell 16 (lit ''k1'') 2 4, demo_cell 17 (lit ''u2'') 4 4,
      demo_cell 18 (lit ''gg'') 0 6]"

definition demo_table_source :: rag_source where
  "demo_table_source = (demo_source 5 demo_table)\<lparr>vs_media := lit ''application/pdf''\<rparr>"

lemmas demo_pattern_simps = found_code starts_at_def holds_at_def holds_before_def whole_word_def some_of_def optionally_def word_or_dash_def
  demo_text_env_def word_char_def demo_alnum_def py_isspace_def

lemma demo_words:
  "normalize_words demo_text_env (lit ''kk zz'') = lit ''kk zz''"
  by (simp add: normalize_words_def py_split_def demo_text_simps)

lemmas demo_absent = absent unsupported_pattern_def comparison_pattern_def reference_pattern_def shared_cell_pattern_def
  whole_word_def Let_def

lemma demo_query_plain:
  "\<not> found (unsupported_pattern demo_text_env) (lit ''kk zz'')" "\<not> found (comparison_pattern demo_text_env) (lit ''kk zz'')"
  by (simp_all add: demo_absent)

definition demo_c :: "nat \<Rightarrow> grid_cell" where
  "demo_c k = (demo_table ! (k - 11), the (proper_box (demo_table ! (k - 11))))"

definition demo_table_rows :: "grid_cell list list" where
  "demo_table_rows = [[demo_c 11], [demo_c 12, demo_c 13, demo_c 14], [demo_c 15, demo_c 16, demo_c 17], [demo_c 18]]"

lemma demo_c_box:
  "cell_left (demo_c 11) = 0" "cell_left (demo_c 12) = 0" "cell_left (demo_c 13) = 2" "cell_left (demo_c 14) = 4"
  "cell_left (demo_c 15) = 0" "cell_left (demo_c 16) = 2" "cell_left (demo_c 17) = 4" "cell_left (demo_c 18) = 0"
  "cell_right (demo_c 12) = 1" "cell_right (demo_c 13) = 3" "cell_right (demo_c 15) = 1" "cell_right (demo_c 16) = 3"
  "cell_band (demo_c 11) = (0, 1)" "cell_band (demo_c 12) = (2, 3)" "cell_band (demo_c 13) = (2, 3)" "cell_band (demo_c 14) = (2, 3)"
  "cell_band (demo_c 15) = (4, 5)" "cell_band (demo_c 16) = (4, 5)" "cell_band (demo_c 17) = (4, 5)" "cell_band (demo_c 18) = (6, 7)"
  by (simp_all add: demo_c_def demo_table_def demo_cell_def proper_box_def cell_left_def cell_right_def cell_band_def)

lemma demo_c_text:
  "cell_text demo_text_env (demo_c 11) = lit ''gg''" "cell_text demo_text_env (demo_c 12) = lit ''item''"
  "cell_text demo_text_env (demo_c 13) = lit ''kk''" "cell_text demo_text_env (demo_c 14) = lit ''qq''"
  "cell_text demo_text_env (demo_c 15) = lit ''zz''" "cell_text demo_text_env (demo_c 16) = lit ''k1''"
  "cell_text demo_text_env (demo_c 17) = lit ''u2''" "cell_text demo_text_env (demo_c 18) = lit ''gg''"
  by (simp_all add: demo_c_def demo_table_def demo_cell_def cell_text_def normalize_words_def py_split_def demo_text_simps)

lemma demo_c_id:
  "ev_id (fst (demo_c 12)) = UUID 12" "ev_id (fst (demo_c 13)) = UUID 13" "ev_id (fst (demo_c 14)) = UUID 14"
  "ev_id (fst (demo_c 15)) = UUID 15" "ev_id (fst (demo_c 16)) = UUID 16" "ev_id (fst (demo_c 17)) = UUID 17"
  by (simp_all add: demo_c_def demo_table_def demo_cell_def)

lemma demo_boxed: "boxed_cells demo_table = Some (map demo_c [11, 12, 13, 14, 15, 16, 17, 18])"
  by (simp add: demo_table_def demo_cell_def proper_box_def demo_c_def)

lemma demo_row_loop: "row_loop (map demo_c [11, 12, 13, 14, 15, 16, 17, 18]) [] = Some demo_table_rows"
  by (simp add: demo_table_rows_def demo_c_box)

lemma demo_upt: "[0..<4] = [0, 1, 2, 3 :: nat]" "[1..<3] = [1, 2 :: nat]"
  by (simp_all add: upt_rec)

lemma demo_header: "header_rows demo_text_env demo_table_rows = [1]"
proof -
  have len: "length demo_table_rows = 4" by (simp add: demo_table_rows_def)
  show ?thesis unfolding header_rows_def len demo_upt by (simp add: demo_table_rows_def demo_c_text header_labels_def)
qed

lemma demo_label: "found (label_pattern demo_text_env (lit ''kk'')) (lit ''kk zz'')" "\<not> found (label_pattern demo_text_env (lit ''qq'')) (lit ''kk zz'')"
  by (simp add: found_def search_from.simps label_pattern_def particles_def starts_at_def holds_at_def holds_before_def
    optionally_def word_or_dash_def demo_text_simps) (simp add: label_pattern_def absent)

lemma demo_targets: "target_columns demo_text_env (lit ''kk zz'') [lit ''item'', lit ''kk'', lit ''qq''] = [1]"
  by (simp add: target_columns_def demo_upt demo_label del: lit_simps)

lemma demo_asks: "asks_for_attribute demo_text_env (lit ''kk zz'') (lit ''kk'') [lit ''zz'']"
  by (simp add: asks_for_attribute_def mentions_attribute_def py_split_def replace_from.simps search_from.simps label_pattern_def
    particles_def starts_at_def holds_at_def holds_before_def optionally_def word_or_dash_def demo_text_simps)

lemma demo_table_loop:
  "table_loop demo_text_env demo_float_ops [demo_c 12, demo_c 13, demo_c 14] (drop 1 demo_table_rows) [] [] =
     Some ([[demo_c 12, demo_c 13, demo_c 14], [demo_c 15, demo_c 16, demo_c 17]], [demo_c 18])"
  by (simp add: demo_table_rows_def aligned_row_def demo_c_box)

lemma demo_plain_cells:
  "t \<in> {lit ''gg'', lit ''item'', lit ''kk'', lit ''qq'', lit ''zz'', lit ''k1'', lit ''u2''} \<Longrightarrow> \<not> found (reference_pattern demo_text_env) t"
  "t \<in> {lit ''zz'', lit ''k1'', lit ''u2''} \<Longrightarrow> \<not> found (shared_cell_pattern demo_text_env) t \<and> \<not> found (comparison_pattern demo_text_env) t"
  by (auto simp: demo_absent)

lemma demo_table_projection:
  "payment_table_units demo_text_env demo_float_ops (lit ''kk zz'') demo_table_source demo_table =
     Some (filter (\<lambda>u. ev_id u \<notin> {UUID 14, UUID 17}) demo_table)"
proof -
  have src: "vs_media demo_table_source = lit ''application/pdf''" "rc_units (vs_chunk demo_table_source) = demo_table"
    by (simp_all add: demo_table_source_def)
  have units: "demo_table \<noteq> []" "length (remdups (map (lc_page \<circ> ev_location) demo_table)) = 1"
    "\<not> list_ex (\<lambda>u. lc_cell (ev_location u) \<noteq> None) demo_table"
    by (simp_all add: demo_table_def demo_cell_def)
  have header: "demo_table_rows ! 1 = [demo_c 12, demo_c 13, demo_c 14]" by (simp add: demo_table_rows_def)
  have labels: "map (cell_text demo_text_env) [demo_c 12, demo_c 13, demo_c 14] = [lit ''item'', lit ''kk'', lit ''qq'']"
    by (simp add: demo_c_text del: lit_simps)
  have refs: "\<not> list_ex (\<lambda>u. found (reference_pattern demo_text_env) (normalize_words demo_text_env (ev_text u))) demo_table"
    using demo_plain_cells(1) by (simp add: demo_table_def demo_cell_def normalize_words_def py_split_def demo_text_simps)
  have plain: "\<not> list_ex (\<lambda>row. list_ex (entangled_cell demo_text_env [lit ''item'', lit ''kk'', lit ''qq'']) (enumerate 0 row))
      [[demo_c 15, demo_c 16, demo_c 17]]"
    using demo_plain_cells(2)
    by (simp add: entangled_cell_def demo_c_text demo_upt contains_def find_from.simps starts_at_def)
  have ids: "set (excluded_ids 1 [[demo_c 12, demo_c 13, demo_c 14], [demo_c 15, demo_c 16, demo_c 17]]) = {UUID 14, UUID 17}"
    by (simp add: excluded_ids_def demo_c_id)
  have "project_table demo_text_env demo_float_ops (lit ''kk zz'') demo_table demo_table_rows 1 =
      Some (filter (\<lambda>u. ev_id u \<notin> {UUID 14, UUID 17}) demo_table)"
    unfolding project_table_def Let_def header labels demo_targets demo_table_loop ids
    using refs plain demo_asks
    by (simp add: demo_table_rows_def demo_c_text ids [unfolded One_nat_def] del: lit_simps) simp
  then show ?thesis
    unfolding payment_table_units_def Let_def demo_words src demo_boxed option.case demo_row_loop demo_header list.case
    using units demo_query_plain by simp
qed

theorem projection_leaves_only_other_columns_witness:
  "\<exists>kept. payment_table_units demo_text_env demo_float_ops (lit ''kk zz'') demo_table_source demo_table = Some kept
     \<and> length kept = 6 \<and> (\<forall>u \<in> set demo_table - set kept. \<exists>v \<in> set kept. same_row u v)"
proof -
  have "distinct (map ev_id demo_table)" by (simp add: demo_table_def demo_cell_def)
  from projection_leaves_only_other_columns [OF demo_table_projection this] have
    "\<forall>u \<in> set demo_table - set (filter (\<lambda>u. ev_id u \<notin> {UUID 14, UUID 17}) demo_table).
       \<exists>v \<in> set (filter (\<lambda>u. ev_id u \<notin> {UUID 14, UUID 17}) demo_table). same_row u v" by blast
  moreover have "length (filter (\<lambda>u. ev_id u \<notin> {UUID 14, UUID 17}) demo_table) = 6" by (simp add: demo_table_def demo_cell_def)
  ultimately show ?thesis using demo_table_projection by blast
qed

end
