(* ===== verification/Conversation_Turns.thy ===== *)
theory Conversation_Turns
  imports Signed_Cursors Chunking
begin

text \<open>
  The turns of a grounded conversation (\<^verbatim>\<open>labs/rag/generation/domain.py\<close>), the tokens that bind an
  answer to its reader, its configuration and its scope (\<^verbatim>\<open>generation/integrity.py\<close>) and the check of
  a submitted history (\<^verbatim>\<open>search/pipeline.py\<close>).  HMAC and SHA-256 are fields of an environment; the
  base64 codec is that of \<open>Signed_Cursors\<close>.
\<close>

section \<open>Turns\<close>

datatype conversation_role = USER_TURN | ASSISTANT_TURN

record conversation_turn =
  tu_role :: conversation_role
  tu_content :: pystr
  tu_id :: "uuid option"
  tu_token :: "pystr option"

definition new_turn :: "conversation_role \<Rightarrow> pystr \<Rightarrow> uuid option \<Rightarrow> pystr option \<Rightarrow> conversation_turn res" where
  "new_turn r c i t =
     (let clean = strip c
      in if clean = [] then Inl (ValueError ''turn_content'')
         else if r = ASSISTANT_TURN \<and> (t = None \<or> t = Some []) then Inl (ValueError ''turn_token'')
         else Inr \<lparr>tu_role = r, tu_content = clean, tu_id = i, tu_token = t\<rparr>)"

record context_policy =
  cy_turns :: int
  cy_tokens :: int

definition new_context_policy :: "int \<Rightarrow> int \<Rightarrow> context_policy res" where
  "new_context_policy turns tokens =
     (if turns < 1 \<or> tokens < 1 then Inl (ValueError ''context_policy'') else Inr \<lparr>cy_turns = turns, cy_tokens = tokens\<rparr>)"

text \<open>The loop of \<^verbatim>\<open>select\<close> over the turns from the latest back; it returns them in that order.\<close>

fun select_back :: "(pystr \<Rightarrow> int) \<Rightarrow> int \<Rightarrow> int \<Rightarrow> conversation_turn list \<Rightarrow> conversation_turn list res" where
  "select_back count limit spent [] = Inr []"
| "select_back count limit spent (t # ts) =
     (let n = count (tu_content t)
      in if n < 0 then Inl (ValueError ''token_count'')
         else if spent + n > limit then Inr []
         else rbind (select_back count limit (spent + n) ts) (\<lambda>sel. Inr (t # sel)))"

text \<open>\<^verbatim>\<open>history[-max_history_turns:]\<close> for a positive number.\<close>

definition last_turns :: "int \<Rightarrow> 'a list \<Rightarrow> 'a list" where
  "last_turns n history = drop (length history - nat n) history"

definition select_history :: "context_policy \<Rightarrow> (pystr \<Rightarrow> int) \<Rightarrow> conversation_turn list \<Rightarrow> conversation_turn list res" where
  "select_history p count history =
     rbind (select_back count (cy_tokens p) 0 (rev (last_turns (cy_turns p) history))) (\<lambda>sel. Inr (rev sel))"

section \<open>Scopes\<close>

record scope_binding =
  sb_domain :: uuid
  sb_connection :: uuid
  sb_workspaces :: "uuid list"
  sb_folders :: "uuid list"
  sb_documents :: "uuid list option"
  sb_fingerprint :: "pystr option"

text \<open>\<^verbatim>\<open>sorted(set(values), key=str)\<close>: the texts of 128-bit numbers sort as the numbers do.\<close>

definition normalized_ids :: "uuid list \<Rightarrow> uuid list" where
  "normalized_ids us = sort (remdups us)"

definition new_scope_binding :: "scope_binding \<Rightarrow> scope_binding res" where
  "new_scope_binding s =
     (if sb_workspaces s = [] then Inl (ValueError ''scope_workspace'')
      else if sb_documents s = Some [] then Inl (ValueError ''scope_document'')
      else if (sb_documents s = None) \<noteq> (sb_fingerprint s = None) then Inl (ValueError ''scope_fingerprint'')
      else Inr (case sb_documents s of None \<Rightarrow> s | Some ds \<Rightarrow> s\<lparr>sb_documents := Some (normalized_ids ds)\<rparr>))"

definition selection_mode :: "scope_binding \<Rightarrow> pystr" where
  "selection_mode s = (if sb_documents s \<noteq> None then lit ''selected_documents'' else lit ''unrestricted'')"

section \<open>Messages\<close>

record turn_env =
  tv_hmac :: "nat list \<Rightarrow> nat list \<Rightarrow> nat list"
  tv_sha256 :: "nat list \<Rightarrow> nat list"

definition hex_text :: "nat list \<Rightarrow> pystr" where
  "hex_text bs = concat (map (\<lambda>b. [hex_digit (b div 16), hex_digit (b mod 16)]) bs)"

definition ascii_encode :: "pystr \<Rightarrow> nat list res" where
  "ascii_encode s = (if is_ascii s then Inr s else Inl UnicodeEncodeError)"

definition ids_text :: "uuid list \<Rightarrow> pystr" where
  "ids_text us = py_join [44] (map uuid_text us)"

definition turn_message :: "turn_env \<Rightarrow> pystr \<Rightarrow> uuid \<Rightarrow> uuid \<Rightarrow> uuid \<Rightarrow> nat list res" where
  "turn_message E content actor turn configuration =
     rbind (utf8_encode content) (\<lambda>bytes.
       ascii_encode (py_join [10]
         [lit ''v1'', uuid_text actor, uuid_text configuration, uuid_text turn, hex_text (tv_sha256 E bytes)]))"

definition scoped_message_v2 :: "turn_env \<Rightarrow> pystr \<Rightarrow> uuid \<Rightarrow> uuid \<Rightarrow> uuid \<Rightarrow> scope_binding \<Rightarrow> nat list res" where
  "scoped_message_v2 E content actor turn configuration s =
     rbind (utf8_encode content) (\<lambda>bytes.
       ascii_encode (py_join [10]
         [lit ''v2'', uuid_text actor, uuid_text configuration, uuid_text (sb_domain s), uuid_text (sb_connection s),
          ids_text (normalized_ids (sb_workspaces s)), ids_text (normalized_ids (sb_folders s)), uuid_text turn,
          hex_text (tv_sha256 E bytes)]))"

definition scope_message :: "scope_binding \<Rightarrow> nat list res" where
  "scope_message s =
     ascii_encode (py_join [10]
       [lit ''v3'', selection_mode s, uuid_text (sb_domain s), uuid_text (sb_connection s),
        ids_text (normalized_ids (sb_workspaces s)), ids_text (normalized_ids (sb_folders s)),
        ids_text (case sb_documents s of None \<Rightarrow> [] | Some ds \<Rightarrow> normalized_ids ds),
        (case sb_fingerprint s of None \<Rightarrow> [] | Some f \<Rightarrow> f)])"

definition scoped_envelope :: "pystr \<Rightarrow> nat list \<Rightarrow> nat list \<Rightarrow> nat list" where
  "scoped_envelope mode turn_digest scope_digest =
     py_join [10] [lit ''v3'', mode, hex_text turn_digest, hex_text scope_digest]"

section \<open>Signing\<close>

definition new_signer :: "nat list \<Rightarrow> nat list res" where
  "new_signer secret = (if length secret < 32 then Inl (ValueError ''signing_secret'') else Inr secret)"

definition sign_turn :: "turn_env \<Rightarrow> nat list \<Rightarrow> pystr \<Rightarrow> uuid \<Rightarrow> uuid \<Rightarrow> uuid \<Rightarrow> pystr res" where
  "sign_turn E secret content actor turn configuration =
     rbind (turn_message E content actor turn configuration) (\<lambda>m. Inr (base64_encode (tv_hmac E secret m)))"

definition sign_scoped_v2 :: "turn_env \<Rightarrow> nat list \<Rightarrow> pystr \<Rightarrow> uuid \<Rightarrow> uuid \<Rightarrow> uuid \<Rightarrow> scope_binding \<Rightarrow> pystr res" where
  "sign_scoped_v2 E secret content actor turn configuration s =
     rbind (scoped_message_v2 E content actor turn configuration s) (\<lambda>m. Inr (base64_encode (tv_hmac E secret m)))"

definition sign_scoped :: "turn_env \<Rightarrow> nat list \<Rightarrow> pystr \<Rightarrow> uuid \<Rightarrow> uuid \<Rightarrow> uuid \<Rightarrow> scope_binding \<Rightarrow> pystr res" where
  "sign_scoped E secret content actor turn configuration s =
     rbind (turn_message E content actor turn configuration) (\<lambda>tm.
     rbind (scope_message s) (\<lambda>sm.
       let td = tv_sha256 E tm; sd = tv_sha256 E sm
       in Inr (py_join [46] [lit ''v3'', selection_mode s, base64_encode td, base64_encode sd,
            base64_encode (tv_hmac E secret (scoped_envelope (selection_mode s) td sd))])))"

section \<open>Verification\<close>

text \<open>\<^verbatim>\<open>hmac.compare_digest\<close> of two strings.\<close>

definition compare_digest :: "pystr \<Rightarrow> pystr \<Rightarrow> bool res" where
  "compare_digest s t = (if is_ascii s \<and> is_ascii t then Inr (s = t) else Inl (TypeError ''compare_digest''))"

definition verify_turn :: "turn_env \<Rightarrow> nat list \<Rightarrow> conversation_turn \<Rightarrow> uuid \<Rightarrow> uuid \<Rightarrow> bool res" where
  "verify_turn E secret t actor configuration =
     (case (tu_role t, tu_id t, tu_token t) of
        (ASSISTANT_TURN, Some i, Some token) \<Rightarrow>
          rbind (sign_turn E secret (tu_content t) actor i configuration) (compare_digest token)
      | _ \<Rightarrow> Inr False)"

fun split_on :: "nat \<Rightarrow> pystr \<Rightarrow> pystr list" where
  "split_on c [] = [[]]"
| "split_on c (x # s) =
     (if x = c then [] # split_on c s else (case split_on c s of [] \<Rightarrow> [[x]] | w # ws \<Rightarrow> (x # w) # ws))"

datatype turn_verification = VALID_TURN | INVALID_TURN | SCOPE_CHANGED

definition open_scoped_token :: "turn_env \<Rightarrow> nat list \<Rightarrow> pystr \<Rightarrow> (pystr \<times> nat list \<times> nat list) option" where
  "open_scoped_token E secret token =
     (case split_on 46 token of
        [version, mode, et, es, esig] \<Rightarrow>
          if version \<noteq> lit ''v3'' \<or> mode \<notin> {lit ''unrestricted'', lit ''selected_documents''} then None
          else (case (base64_decode et, base64_decode es, base64_decode esig) of
              (Inr td, Inr sd, Inr signature) \<Rightarrow>
                if length td \<noteq> 32 \<or> length sd \<noteq> 32 \<or> length signature \<noteq> 32 then None
                else if signature \<noteq> tv_hmac E secret (scoped_envelope mode td sd) then None
                else Some (mode, td, sd)
            | _ \<Rightarrow> None)
      | _ \<Rightarrow> None)"

definition verify_scoped_status ::
  "turn_env \<Rightarrow> nat list \<Rightarrow> conversation_turn \<Rightarrow> uuid \<Rightarrow> uuid \<Rightarrow> scope_binding \<Rightarrow> turn_verification res" where
  "verify_scoped_status E secret t actor configuration s =
     (case (tu_role t, tu_id t, tu_token t) of
        (ASSISTANT_TURN, Some i, Some token) \<Rightarrow>
          if take 3 token \<noteq> lit ''v3.'' then
            (if sb_documents s \<noteq> None then Inr INVALID_TURN
             else rbind (sign_scoped_v2 E secret (tu_content t) actor i configuration s) (\<lambda>expected.
                  rbind (compare_digest token expected) (\<lambda>same. Inr (if same then VALID_TURN else INVALID_TURN))))
          else
            (case open_scoped_token E secret token of
               None \<Rightarrow> Inr INVALID_TURN
             | Some (mode, td, sd) \<Rightarrow>
                 rbind (turn_message E (tu_content t) actor i configuration) (\<lambda>tm.
                   if td \<noteq> tv_sha256 E tm then Inr INVALID_TURN
                   else rbind (scope_message s) (\<lambda>sm.
                     Inr (if mode \<noteq> selection_mode s \<or> sd \<noteq> tv_sha256 E sm then SCOPE_CHANGED else VALID_TURN))))
      | _ \<Rightarrow> Inr INVALID_TURN)"

definition verify_scoped :: "turn_env \<Rightarrow> nat list \<Rightarrow> conversation_turn \<Rightarrow> uuid \<Rightarrow> uuid \<Rightarrow> scope_binding \<Rightarrow> bool res" where
  "verify_scoped E secret t actor configuration s =
     rbind (verify_scoped_status E secret t actor configuration s) (\<lambda>r. Inr (r = VALID_TURN))"

section \<open>Submitted histories\<close>

record history_item =
  hi_role :: conversation_role
  hi_content :: pystr
  hi_turn :: "uuid option"
  hi_token :: "pystr option"

abbreviation history_invalid :: exn where
  "history_invalid \<equiv> AppError ''conversation_history_invalid'' 422"

abbreviation scope_changed :: exn where
  "scope_changed \<equiv> AppError ''conversation_scope_changed'' 409"

text \<open>The signer and the scope may be absent.\<close>

definition check_turn ::
  "turn_env \<Rightarrow> nat list option \<Rightarrow> uuid \<Rightarrow> uuid \<Rightarrow> scope_binding option \<Rightarrow> history_item \<Rightarrow> conversation_turn res" where
  "check_turn E signer actor configuration scope item =
     (case new_turn (hi_role item) (hi_content item) (hi_turn item) (hi_token item) of
        Inl e \<Rightarrow> Inl (if is_value_error e then history_invalid else e)
      | Inr t \<Rightarrow>
          if tu_role t = ASSISTANT_TURN then
            rbind (case signer of
                None \<Rightarrow> Inr False
              | Some secret \<Rightarrow>
                  (case scope of
                     None \<Rightarrow> verify_turn E secret t actor configuration
                   | Some s \<Rightarrow>
                       rbind (verify_scoped_status E secret t actor configuration s) (\<lambda>v.
                         if v = SCOPE_CHANGED then Inl scope_changed else Inr (v = VALID_TURN))))
              (\<lambda>valid. if valid then Inr t else Inl history_invalid)
          else if tu_id t \<noteq> None \<or> tu_token t \<noteq> None then Inl history_invalid
          else Inr t)"

definition validated_history ::
  "turn_env \<Rightarrow> nat list option \<Rightarrow> uuid \<Rightarrow> uuid \<Rightarrow> scope_binding option \<Rightarrow> history_item list \<Rightarrow> conversation_turn list res" where
  "validated_history E signer actor configuration scope items = mapr (check_turn E signer actor configuration scope) items"

section \<open>What the texts keep apart\<close>

lemma cons_split:
  assumes "c \<notin> set a" "c \<notin> set b" "a @ c # x = b @ c # y"
  shows "a = b \<and> x = y"
  using assms by (induction a arbitrary: b) (case_tac [!] b; auto)+

lemma split_on_part: "c \<notin> set w \<Longrightarrow> split_on c (w @ c # s) = w # split_on c s"
  by (induction w) auto

lemma split_on_single: "c \<notin> set w \<Longrightarrow> split_on c w = [w]"
  by (induction w) auto

lemma split_on_join: "ws \<noteq> [] \<Longrightarrow> (\<forall>w\<in>set ws. c \<notin> set w) \<Longrightarrow> split_on c (py_join [c] ws) = ws"
  by (induction "[c]" ws rule: py_join.induct) (simp_all add: split_on_single split_on_part)

lemma py_join_lines_inj:
  assumes "length xs = length ys" "\<forall>w\<in>set (butlast xs) \<union> set (butlast ys). c \<notin> set w" "py_join [c] xs = py_join [c] ys"
  shows "xs = ys"
  using assms
proof (induction xs ys rule: list_induct2)
  case (Cons x xs y ys)
  show ?case
  proof (cases "xs = []")
    case True
    with Cons show ?thesis by simp
  next
    case False
    with Cons.hyps obtain u us v vs where parts: "xs = u # us" "ys = v # vs" by (cases xs; cases ys) auto
    with Cons.prems have "x @ c # py_join [c] xs = y @ c # py_join [c] ys" "c \<notin> set x" "c \<notin> set y" by simp_all
    then have "x = y \<and> py_join [c] xs = py_join [c] ys" by (intro cons_split)
    moreover have "\<forall>w\<in>set (butlast xs) \<union> set (butlast ys). c \<notin> set w" using Cons.prems(1) parts by simp
    ultimately show ?thesis using Cons.IH by blast
  qed
qed simp

lemma hex_text_chars: "c \<in> set (hex_text bs) \<Longrightarrow> list_all is_byte bs \<Longrightarrow> c \<in> {48..57} \<union> {97..102}"
proof -
  assume c: "c \<in> set (hex_text bs)" and "list_all is_byte bs"
  then obtain b where b: "b < 256" "c = hex_digit (b div 16) \<or> c = hex_digit (b mod 16)"
    by (auto simp: hex_text_def is_byte_def list_all_iff)
  then have "b div 16 < 16" by simp
  with b(2) hex_digit_set [of "b div 16"] hex_digit_set [of "b mod 16"] show ?thesis by auto
qed

lemma hex_text_inj: "list_all is_byte a \<Longrightarrow> list_all is_byte b \<Longrightarrow> hex_text a = hex_text b \<Longrightarrow> a = b"
proof (induction a arbitrary: b)
  case Nil
  then show ?case by (cases b) (auto simp: hex_text_def)
next
  case (Cons x a)
  then obtain y b' where b: "b = y # b'" by (cases b) (auto simp: hex_text_def)
  with Cons.prems have xy: "x < 256" "y < 256" "hex_digit (x div 16) = hex_digit (y div 16)" "hex_digit (x mod 16) = hex_digit (y mod 16)"
      "hex_text a = hex_text b'"
    by (simp_all add: hex_text_def is_byte_def)
  from xy(1,2) have "x div 16 < 16" "y div 16 < 16" by simp_all
  with xy(3,4) have "x div 16 = y div 16" "x mod 16 = y mod 16"
    using hex_value_digit by (metis, metis hex_value_digit mod_less_divisor zero_less_numeral)
  then have "x = y" by (metis div_mult_mod_eq)
  with Cons.IH [of b'] Cons.prems(1,2) xy(5) b show ?case by simp
qed

lemma uuid_text_plain: "c \<notin> {48..57} \<union> {97..102} \<union> {45} \<Longrightarrow> c \<notin> set (uuid_text u)"
  using uuid_text_set by blast

lemma set_py_join: "set (py_join sep ws) \<subseteq> set sep \<union> \<Union> (set ` set ws)"
  by (induction sep ws rule: py_join.induct) auto

lemma ids_text_chars: "c \<in> set (ids_text us) \<Longrightarrow> c \<in> {48..57} \<union> {97..102} \<union> {45} \<union> {44}"
proof -
  assume "c \<in> set (ids_text us)"
  then have "c = 44 \<or> (\<exists>u. c \<in> set (uuid_text u))" using set_py_join [of "[44]" "map uuid_text us"] by (auto simp: ids_text_def)
  then show ?thesis using uuid_text_set by blast
qed

lemma no_line_feed [simp]:
  "10 \<notin> set (uuid_text u)" "10 \<notin> set (ids_text us)" "list_all is_byte bs \<Longrightarrow> 10 \<notin> set (hex_text bs)"
  "10 \<notin> set (selection_mode s)"
proof -
  show "10 \<notin> set (uuid_text u)" using uuid_text_set [of 10 u] by fastforce
  show "10 \<notin> set (ids_text us)" using ids_text_chars [of 10 us] by fastforce
  show "10 \<notin> set (hex_text bs)" if "list_all is_byte bs" using hex_text_chars [of 10 bs, OF _ that] by fastforce
  show "10 \<notin> set (selection_mode s)" by (simp add: selection_mode_def lit_simps)
qed

lemma ids_text_inj:
  assumes "list_all uuid_ok us" "list_all uuid_ok vs" "ids_text us = ids_text vs"
  shows "us = vs"
proof -
  have parts: "split_on 44 (ids_text ws) = map uuid_text ws" if "ws \<noteq> []" for ws
    unfolding ids_text_def using that by (intro split_on_join) (simp_all add: uuid_text_plain)
  have filled: "ids_text ws \<noteq> []" if "ws \<noteq> []" for ws
  proof
    assume "ids_text ws = []"
    with parts [OF that] have "map uuid_text ws = [[]]" by simp
    then obtain u where "uuid_text u = []" by auto
    with length_uuid_text [of u] show False by simp
  qed
  show ?thesis
  proof (cases "us = [] \<or> vs = []")
    case True
    moreover have "ids_text [] = []" by (simp add: ids_text_def)
    ultimately show ?thesis using assms(3) filled [of us] filled [of vs] by metis
  next
    case False
    with assms(3) parts have "map uuid_text us = map uuid_text vs" by metis
    moreover have "inj_on uuid_text (set us \<union> set vs)"
      using assms(1,2) by (intro inj_onI) (auto simp: list_all_iff intro: uuid_text_inj)
    ultimately show ?thesis using map_inj_on by blast
  qed
qed

lemma is_ascii_join: "is_ascii sep \<Longrightarrow> list_all is_ascii ws \<Longrightarrow> is_ascii (py_join sep ws)"
  by (induction sep ws rule: py_join.induct) simp_all

lemma is_ascii_uuid [simp]: "is_ascii (uuid_text u)"
  using uuid_text_set [of _ u] by (fastforce simp: is_ascii_def list_all_iff)

lemma is_ascii_ids [simp]: "is_ascii (ids_text us)"
  using ids_text_chars [of _ us] by (fastforce simp: is_ascii_def list_all_iff)

lemma is_ascii_hex [simp]: "list_all is_byte bs \<Longrightarrow> is_ascii (hex_text bs)"
  using hex_text_chars [of _ bs] by (fastforce simp: is_ascii_def list_all_iff)

lemma is_ascii_mode [simp]: "is_ascii (selection_mode s)"
  by (simp add: selection_mode_def lit_simps)

section \<open>What the tokens bind\<close>

text \<open>SHA-256 and HMAC-SHA-256 yield 32 bytes.\<close>

definition digests_ok :: "turn_env \<Rightarrow> bool" where
  "digests_ok E \<longleftrightarrow>
     (\<forall>m. length (tv_sha256 E m) = 32 \<and> list_all is_byte (tv_sha256 E m))
     \<and> (\<forall>k m. length (tv_hmac E k m) = 32 \<and> list_all is_byte (tv_hmac E k m))"

text \<open>No collision of SHA-256 among two messages.\<close>

definition told_apart :: "turn_env \<Rightarrow> nat list res \<Rightarrow> nat list res \<Rightarrow> bool" where
  "told_apart E m m' \<longleftrightarrow>
     (case (m, m') of (Inr a, Inr b) \<Rightarrow> tv_sha256 E a = tv_sha256 E b \<longrightarrow> a = b | _ \<Rightarrow> True)"

definition binding_ok :: "scope_binding \<Rightarrow> bool" where
  "binding_ok s \<longleftrightarrow> uuid_ok (sb_domain s) \<and> uuid_ok (sb_connection s) \<and> list_all uuid_ok (sb_workspaces s)
     \<and> list_all uuid_ok (sb_folders s) \<and> (case sb_documents s of None \<Rightarrow> True | Some ds \<Rightarrow> list_all uuid_ok ds)
     \<and> (case sb_fingerprint s of None \<Rightarrow> True | Some f \<Rightarrow> is_ascii f)"

text \<open>What of a scope its token depends on.\<close>

definition scope_key :: "scope_binding \<Rightarrow> uuid \<times> uuid \<times> uuid list \<times> uuid list \<times> uuid list option \<times> pystr" where
  "scope_key s =
     (sb_domain s, sb_connection s, normalized_ids (sb_workspaces s), normalized_ids (sb_folders s),
      map_option normalized_ids (sb_documents s), case sb_fingerprint s of None \<Rightarrow> [] | Some f \<Rightarrow> f)"

lemma list_all_normalized [simp]: "list_all P (normalized_ids us) \<longleftrightarrow> list_all P us"
  by (simp add: normalized_ids_def list_all_iff)

lemma turn_message_encodable:
  assumes "digests_ok E" "utf8_encode c = Inr b"
  shows "turn_message E c a t f = Inr (py_join [10] [lit ''v1'', uuid_text a, uuid_text f, uuid_text t, hex_text (tv_sha256 E b)])"
proof -
  have "is_ascii (lit ''v1'')" by (simp add: lit_simps)
  then show ?thesis using assms by (simp add: turn_message_def ascii_encode_def digests_ok_def is_ascii_join)
qed

lemma turn_message_inj:
  assumes E: "digests_ok E" and enc: "utf8_encode c = Inr b" "utf8_encode c' = Inr b'"
    and ok: "list_all uuid_ok [a, t, f, a', t', f']" and apart: "tv_sha256 E b = tv_sha256 E b' \<longrightarrow> b = b'"
  shows "turn_message E c a t f = turn_message E c' a' t' f' \<longleftrightarrow> (c, a, t, f) = (c', a', t', f')"
proof
  assume eq: "turn_message E c a t f = turn_message E c' a' t' f'"
  let ?ls = "\<lambda>b a t f. [lit ''v1'', uuid_text a, uuid_text f, uuid_text t, hex_text (tv_sha256 E b)]"
  have "?ls b a t f = ?ls b' a' t' f'"
    using eq E by (intro py_join_lines_inj [of _ _ 10]) (auto simp: turn_message_encodable [OF E] enc lit_simps)
  then have "uuid_text a = uuid_text a'" "uuid_text f = uuid_text f'" "uuid_text t = uuid_text t'"
      "hex_text (tv_sha256 E b) = hex_text (tv_sha256 E b')" by simp_all
  moreover from this(4) have "tv_sha256 E b = tv_sha256 E b'" using E hex_text_inj unfolding digests_ok_def by blast
  moreover from this apart have "c = c'" using enc utf8_encode_inj by metis
  ultimately show "(c, a, t, f) = (c', a', t', f')" using ok uuid_text_inj by auto
qed simp

lemma scope_message_binding:
  assumes "binding_ok s"
  shows "scope_message s = Inr (py_join [10]
       [lit ''v3'', selection_mode s, uuid_text (sb_domain s), uuid_text (sb_connection s),
        ids_text (normalized_ids (sb_workspaces s)), ids_text (normalized_ids (sb_folders s)),
        ids_text (case sb_documents s of None \<Rightarrow> [] | Some ds \<Rightarrow> normalized_ids ds),
        (case sb_fingerprint s of None \<Rightarrow> [] | Some f \<Rightarrow> f)])"
proof -
  have "is_ascii (lit ''v3'')" by (simp add: lit_simps)
  then show ?thesis
    using assms by (auto simp: scope_message_def ascii_encode_def is_ascii_join binding_ok_def split: option.splits)
qed

lemma scope_key_mode: "scope_key s = scope_key s' \<Longrightarrow> selection_mode s = selection_mode s'"
  by (cases "sb_documents s"; cases "sb_documents s'") (simp_all add: scope_key_def selection_mode_def)

lemma scope_message_inj:
  assumes ok: "binding_ok s" "binding_ok s'"
  shows "scope_message s = scope_message s' \<longleftrightarrow> scope_key s = scope_key s'"
proof
  let ?ls = "\<lambda>s. [lit ''v3'', selection_mode s, uuid_text (sb_domain s), uuid_text (sb_connection s),
        ids_text (normalized_ids (sb_workspaces s)), ids_text (normalized_ids (sb_folders s)),
        ids_text (case sb_documents s of None \<Rightarrow> [] | Some ds \<Rightarrow> normalized_ids ds),
        (case sb_fingerprint s of None \<Rightarrow> [] | Some f \<Rightarrow> f)]"
  assume "scope_message s = scope_message s'"
  then have "?ls s = ?ls s'"
    by (intro py_join_lines_inj [of _ _ 10]) (auto simp: scope_message_binding ok lit_simps)
  then have "selection_mode s = selection_mode s'" "uuid_text (sb_domain s) = uuid_text (sb_domain s')"
      "uuid_text (sb_connection s) = uuid_text (sb_connection s')"
      "ids_text (normalized_ids (sb_workspaces s)) = ids_text (normalized_ids (sb_workspaces s'))"
      "ids_text (normalized_ids (sb_folders s)) = ids_text (normalized_ids (sb_folders s'))"
      "ids_text (case sb_documents s of None \<Rightarrow> [] | Some ds \<Rightarrow> normalized_ids ds)
       = ids_text (case sb_documents s' of None \<Rightarrow> [] | Some ds \<Rightarrow> normalized_ids ds)"
      "(case sb_fingerprint s of None \<Rightarrow> [] | Some f \<Rightarrow> f) = (case sb_fingerprint s' of None \<Rightarrow> [] | Some f \<Rightarrow> f)"
    by simp_all
  moreover have "(case sb_documents s of None \<Rightarrow> [] | Some ds \<Rightarrow> normalized_ids ds)
      = (case sb_documents s' of None \<Rightarrow> [] | Some ds \<Rightarrow> normalized_ids ds)"
    using ok by (intro ids_text_inj calculation(6)) (auto simp: binding_ok_def split: option.splits)
  moreover have "sb_documents s = None \<longleftrightarrow> sb_documents s' = None"
    using calculation(1) by (auto simp: selection_mode_def lit_simps split: if_splits)
  ultimately show "scope_key s = scope_key s'"
    using ok uuid_text_inj ids_text_inj by (auto simp: scope_key_def binding_ok_def split: option.splits)
next
  assume "scope_key s = scope_key s'"
  then show "scope_message s = scope_message s'"
    by (cases "sb_documents s"; cases "sb_documents s'")
      (auto simp: scope_message_def scope_key_def selection_mode_def simp del: lit_simps)
qed

text \<open>Opening a token yields what went into it.\<close>

lemma scoped_token_parts:
  "split_on 46 (py_join [46] [lit ''v3'', selection_mode s, base64_encode x, base64_encode y, base64_encode z])
    = [lit ''v3'', selection_mode s, base64_encode x, base64_encode y, base64_encode z]"
proof -
  have "46 \<notin> set (selection_mode s)" by (simp add: selection_mode_def lit_simps)
  then show ?thesis by (intro split_on_join) (use base64_no_dot in \<open>simp_all add: lit_simps\<close>)
qed

lemma open_issued:
  assumes E: "digests_ok E"
    and token: "token = py_join [46] [lit ''v3'', selection_mode s, base64_encode td, base64_encode sd,
      base64_encode (tv_hmac E secret (scoped_envelope (selection_mode s) td sd))]"
    and d: "td = tv_sha256 E tm" "sd = tv_sha256 E sm"
  shows "open_scoped_token E secret token = Some (selection_mode s, td, sd)" "take 3 token = lit ''v3.''"
proof -
  let ?sig = "tv_hmac E secret (scoped_envelope (selection_mode s) td sd)"
  have mode: "selection_mode s \<in> {lit ''unrestricted'', lit ''selected_documents''}"
    by (simp add: selection_mode_def)
  have "split_on 46 token = [lit ''v3'', selection_mode s, base64_encode td, base64_encode sd, base64_encode ?sig]"
    unfolding token by (rule scoped_token_parts)
  moreover have "list_all is_byte td" "length td = 32" "list_all is_byte sd" "length sd = 32"
      "list_all is_byte ?sig" "length ?sig = 32"
    using E d by (simp_all add: digests_ok_def)
  ultimately show "open_scoped_token E secret token = Some (selection_mode s, td, sd)"
    using mode by (simp add: open_scoped_token_def base64_decode_encode del: lit_simps)
  show "take 3 token = lit ''v3.''" unfolding token by (simp add: lit_simps)
qed

lemma sign_scoped_Inr:
  assumes "sign_scoped E secret c a t f s = Inr token"
  obtains tm sm where "turn_message E c a t f = Inr tm" "scope_message s = Inr sm"
    "token = py_join [46] [lit ''v3'', selection_mode s, base64_encode (tv_sha256 E tm), base64_encode (tv_sha256 E sm),
      base64_encode (tv_hmac E secret (scoped_envelope (selection_mode s) (tv_sha256 E tm) (tv_sha256 E sm)))]"
  using assms by (auto simp: sign_scoped_def Let_def rbind_eq_Inr)

lemma told_apart_Inr: "told_apart E (Inr m) (Inr m') \<Longrightarrow> tv_sha256 E m = tv_sha256 E m' \<longleftrightarrow> m = m'"
  by (auto simp: told_apart_def)

lemma verify_issued:
  assumes E: "digests_ok E" and sign: "sign_scoped E secret c a i f s = Inr token"
    and turn: "tu_role u = ASSISTANT_TURN" "tu_id u = Some i'" "tu_token u = Some token" "encodable (tu_content u)"
    and ok: "list_all uuid_ok [a, i, f, a', i', f']" "binding_ok s" "binding_ok s'"
    and apart: "told_apart E (utf8_encode c) (utf8_encode (tu_content u))"
      "told_apart E (turn_message E c a i f) (turn_message E (tu_content u) a' i' f')"
      "told_apart E (scope_message s) (scope_message s')"
  shows "verify_scoped_status E secret u a' f' s'
    = Inr (if (tu_content u, a', i', f') \<noteq> (c, a, i, f) then INVALID_TURN
           else if scope_key s' = scope_key s then VALID_TURN else SCOPE_CHANGED)"
proof -
  obtain tm sm where m: "turn_message E c a i f = Inr tm" "scope_message s = Inr sm"
    and token: "token = py_join [46] [lit ''v3'', selection_mode s, base64_encode (tv_sha256 E tm), base64_encode (tv_sha256 E sm),
      base64_encode (tv_hmac E secret (scoped_envelope (selection_mode s) (tv_sha256 E tm) (tv_sha256 E sm)))]"
    using sign by (rule sign_scoped_Inr)
  note opened = open_issued [OF E token refl refl]
  from m(1) obtain b where b: "utf8_encode c = Inr b" by (auto simp: turn_message_def rbind_eq_Inr)
  from turn(4) obtain b' where b': "utf8_encode (tu_content u) = Inr b'" by (rule encodable_obtain)
  obtain tm' where tm': "turn_message E (tu_content u) a' i' f' = Inr tm'" using turn_message_encodable [OF E b'] by blast
  obtain sm' where sm': "scope_message s' = Inr sm'" using scope_message_binding [OF ok(3)] by blast
  have "tm = tm' \<longleftrightarrow> (c, a, i, f) = (tu_content u, a', i', f')"
    using turn_message_inj [OF E b b', of a i f a' i' f'] ok(1) apart(1) m(1) tm' unfolding b b' told_apart_def by simp
  moreover have "sm = sm' \<longleftrightarrow> scope_key s = scope_key s'"
    using scope_message_inj [OF ok(2,3)] m(2) sm' by simp
  moreover note scope_key_mode [of s s']
  moreover have "tv_sha256 E tm = tv_sha256 E tm' \<longleftrightarrow> tm = tm'" "tv_sha256 E sm = tv_sha256 E sm' \<longleftrightarrow> sm = sm'"
    using apart(2,3) told_apart_Inr unfolding m tm' sm' by blast+
  ultimately show ?thesis
    using turn(1-3) opened by (auto simp: verify_scoped_status_def tm' sm')
qed

section \<open>What a valid turn is\<close>

lemma verify_scoped_valid:
  assumes "verify_scoped_status E secret u a f s = Inr VALID_TURN"
  obtains i token where "tu_role u = ASSISTANT_TURN" "tu_id u = Some i" "tu_token u = Some token"
    "sb_documents s = None \<and> sign_scoped_v2 E secret (tu_content u) a i f s = Inr token
     \<or> (\<exists>tm sm. turn_message E (tu_content u) a i f = Inr tm \<and> scope_message s = Inr sm
          \<and> open_scoped_token E secret token = Some (selection_mode s, tv_sha256 E tm, tv_sha256 E sm))"
  using assms
  by (auto simp: verify_scoped_status_def compare_digest_def rbind_eq_Inr simp del: lit_simps
      split: conversation_role.splits option.splits if_splits)

section \<open>Where a valid turn comes from\<close>

text \<open>The tokens a signer has issued: unscoped, in the second format, and scoped.\<close>

datatype token_form = UnscopedToken | LegacyToken scope_binding | ScopedToken scope_binding

record issued_turn =
  iu_content :: pystr
  iu_actor :: uuid
  iu_turn :: uuid
  iu_configuration :: uuid
  iu_form :: token_form

definition issued_token :: "turn_env \<Rightarrow> nat list \<Rightarrow> issued_turn \<Rightarrow> pystr res" where
  "issued_token E secret u =
     (case iu_form u of
        UnscopedToken \<Rightarrow> sign_turn E secret (iu_content u) (iu_actor u) (iu_turn u) (iu_configuration u)
      | LegacyToken s \<Rightarrow> sign_scoped_v2 E secret (iu_content u) (iu_actor u) (iu_turn u) (iu_configuration u) s
      | ScopedToken s \<Rightarrow> sign_scoped E secret (iu_content u) (iu_actor u) (iu_turn u) (iu_configuration u) s)"

text \<open>The message whose MAC the token carries.\<close>

definition signed_message :: "turn_env \<Rightarrow> issued_turn \<Rightarrow> nat list res" where
  "signed_message E u =
     (case iu_form u of
        UnscopedToken \<Rightarrow> turn_message E (iu_content u) (iu_actor u) (iu_turn u) (iu_configuration u)
      | LegacyToken s \<Rightarrow> scoped_message_v2 E (iu_content u) (iu_actor u) (iu_turn u) (iu_configuration u) s
      | ScopedToken s \<Rightarrow>
          rbind (turn_message E (iu_content u) (iu_actor u) (iu_turn u) (iu_configuration u)) (\<lambda>tm.
          rbind (scope_message s) (\<lambda>sm. Inr (scoped_envelope (selection_mode s) (tv_sha256 E tm) (tv_sha256 E sm)))))"

definition carries_mac :: "turn_env \<Rightarrow> nat list \<Rightarrow> pystr \<Rightarrow> nat list \<Rightarrow> bool" where
  "carries_mac E secret token m \<longleftrightarrow>
     token = base64_encode (tv_hmac E secret m)
     \<or> (case split_on 46 token of
          [version, mode, et, es, esig] \<Rightarrow> base64_decode esig = Inr (tv_hmac E secret m)
        | _ \<Rightarrow> False)"

text \<open>The messages whose MAC a verification computes.\<close>

definition checked_messages :: "turn_env \<Rightarrow> conversation_turn \<Rightarrow> uuid \<Rightarrow> uuid \<Rightarrow> scope_binding \<Rightarrow> nat list list" where
  "checked_messages E t actor configuration s =
     (case (tu_id t, tu_token t) of
        (Some i, Some token) \<Rightarrow>
          (case scoped_message_v2 E (tu_content t) actor i configuration s of Inl _ \<Rightarrow> [] | Inr m \<Rightarrow> [m])
          @ (case split_on 46 token of
               [version, mode, et, es, esig] \<Rightarrow>
                 (case (base64_decode et, base64_decode es) of (Inr td, Inr sd) \<Rightarrow> [scoped_envelope mode td sd] | _ \<Rightarrow> [])
             | _ \<Rightarrow> [])
      | _ \<Rightarrow> [])"

text \<open>Nobody but the signer makes a MAC: a token carries that of a checked message only if the signer signed it.\<close>

definition unforged :: "turn_env \<Rightarrow> nat list \<Rightarrow> issued_turn list \<Rightarrow> conversation_turn \<Rightarrow> uuid \<Rightarrow> uuid \<Rightarrow> scope_binding \<Rightarrow> bool" where
  "unforged E secret issues t actor configuration s \<longleftrightarrow>
     (\<forall>token m. tu_token t = Some token \<longrightarrow> m \<in> set (checked_messages E t actor configuration s) \<longrightarrow>
        carries_mac E secret token m \<longrightarrow> (\<exists>u\<in>set issues. signed_message E u = Inr m))"

definition issued_ok :: "issued_turn \<Rightarrow> bool" where
  "issued_ok u \<longleftrightarrow> list_all uuid_ok [iu_actor u, iu_turn u, iu_configuration u]
     \<and> (case iu_form u of UnscopedToken \<Rightarrow> True | LegacyToken s \<Rightarrow> binding_ok s | ScopedToken s \<Rightarrow> binding_ok s)"

text \<open>No collision of SHA-256 between what was issued and what is checked.\<close>

definition digests_apart :: "turn_env \<Rightarrow> issued_turn \<Rightarrow> conversation_turn \<Rightarrow> uuid \<Rightarrow> uuid \<Rightarrow> uuid \<Rightarrow> scope_binding \<Rightarrow> bool" where
  "digests_apart E u t i actor configuration s \<longleftrightarrow>
     told_apart E (utf8_encode (iu_content u)) (utf8_encode (tu_content t))
     \<and> told_apart E (turn_message E (iu_content u) (iu_actor u) (iu_turn u) (iu_configuration u))
         (turn_message E (tu_content t) actor i configuration)
     \<and> (case iu_form u of ScopedToken s' \<Rightarrow> told_apart E (scope_message s') (scope_message s) | _ \<Rightarrow> True)"

lemma issued_token_carries:
  assumes E: "digests_ok E" and token: "issued_token E secret u = Inr token"
  shows "\<exists>m. signed_message E u = Inr m \<and> carries_mac E secret token m"
proof (cases "iu_form u")
  case (ScopedToken s)
  with token have "sign_scoped E secret (iu_content u) (iu_actor u) (iu_turn u) (iu_configuration u) s = Inr token"
    by (simp add: issued_token_def)
  then obtain tm sm where m: "turn_message E (iu_content u) (iu_actor u) (iu_turn u) (iu_configuration u) = Inr tm"
      "scope_message s = Inr sm"
    and t: "token = py_join [46] [lit ''v3'', selection_mode s, base64_encode (tv_sha256 E tm), base64_encode (tv_sha256 E sm),
      base64_encode (tv_hmac E secret (scoped_envelope (selection_mode s) (tv_sha256 E tm) (tv_sha256 E sm)))]"
    by (rule sign_scoped_Inr)
  have parts: "split_on 46 token = [lit ''v3'', selection_mode s, base64_encode (tv_sha256 E tm), base64_encode (tv_sha256 E sm),
      base64_encode (tv_hmac E secret (scoped_envelope (selection_mode s) (tv_sha256 E tm) (tv_sha256 E sm)))]"
    unfolding t by (rule scoped_token_parts)
  have "list_all is_byte (tv_hmac E secret x)" for x using E by (simp add: digests_ok_def)
  with m parts ScopedToken show ?thesis
    by (simp add: signed_message_def carries_mac_def base64_decode_encode)
qed (use token in \<open>auto simp: issued_token_def signed_message_def carries_mac_def sign_turn_def sign_scoped_v2_def rbind_eq_Inr\<close>)

subsection \<open>The formats do not overlap\<close>

lemma first_line: "take 2 (py_join [10] (w # ws)) = w" if "length w = 2"
  using that by (cases ws) simp_all

lemma turn_message_head: "turn_message E c a t f = Inr m \<Longrightarrow> take 2 m = lit ''v1''"
  by (auto simp: turn_message_def ascii_encode_def rbind_eq_Inr first_line lit_simps simp del: py_join.simps split: if_splits)

lemma scoped_v2_head: "scoped_message_v2 E c a t f s = Inr m \<Longrightarrow> take 2 m = lit ''v2''"
  by (auto simp: scoped_message_v2_def ascii_encode_def rbind_eq_Inr first_line lit_simps simp del: py_join.simps split: if_splits)

lemma envelope_head: "take 2 (scoped_envelope mode td sd) = lit ''v3''"
  by (simp add: scoped_envelope_def lit_simps)

lemma heads_differ: "lit ''v1'' \<noteq> lit ''v2''" "lit ''v1'' \<noteq> lit ''v3''" "lit ''v2'' \<noteq> lit ''v3''"
  by (simp_all add: lit_simps)

lemma scoped_envelope_inj:
  assumes "scoped_envelope m td sd = scoped_envelope m' td' sd'" "10 \<notin> set m" "10 \<notin> set m'"
    "list_all (list_all is_byte) [td, sd, td', sd']"
  shows "m = m' \<and> td = td' \<and> sd = sd'"
proof -
  have "[lit ''v3'', m, hex_text td, hex_text sd] = [lit ''v3'', m', hex_text td', hex_text sd']"
    using assms by (intro py_join_lines_inj [of _ _ 10]) (simp_all add: scoped_envelope_def lit_simps)
  then have "m = m'" "hex_text td = hex_text td'" "hex_text sd = hex_text sd'" by simp_all
  with assms(4) show ?thesis using hex_text_inj [of td td'] hex_text_inj [of sd sd'] by simp
qed

lemma scoped_v2_inj:
  assumes E: "digests_ok E" and m: "scoped_message_v2 E c a t f s = Inr m" "scoped_message_v2 E c' a' t' f' s' = Inr m"
    and ok: "list_all uuid_ok [a, t, f, a', t', f']" "binding_ok s" "binding_ok s'"
    and apart: "told_apart E (utf8_encode c) (utf8_encode c')"
  shows "c = c' \<and> a = a' \<and> t = t' \<and> f = f' \<and> sb_domain s = sb_domain s' \<and> sb_connection s = sb_connection s'
    \<and> normalized_ids (sb_workspaces s) = normalized_ids (sb_workspaces s')
    \<and> normalized_ids (sb_folders s) = normalized_ids (sb_folders s')"
proof -
  let ?ls = "\<lambda>b a t f s. [lit ''v2'', uuid_text a, uuid_text f, uuid_text (sb_domain s), uuid_text (sb_connection s),
          ids_text (normalized_ids (sb_workspaces s)), ids_text (normalized_ids (sb_folders s)), uuid_text t,
          hex_text (tv_sha256 E b)]"
  from m obtain b b' where enc: "utf8_encode c = Inr b" "utf8_encode c' = Inr b'"
    and ms: "m = py_join [10] (?ls b a t f s)" "m = py_join [10] (?ls b' a' t' f' s')"
    by (auto simp: scoped_message_v2_def ascii_encode_def rbind_eq_Inr simp del: py_join.simps lit_simps split: if_splits)
  have "?ls b a t f s = ?ls b' a' t' f' s'"
    using ms E by (intro py_join_lines_inj [of _ _ 10]) (simp_all add: lit_simps)
  then have texts: "uuid_text a = uuid_text a'" "uuid_text f = uuid_text f'" "uuid_text t = uuid_text t'"
      "uuid_text (sb_domain s) = uuid_text (sb_domain s')" "uuid_text (sb_connection s) = uuid_text (sb_connection s')"
      "ids_text (normalized_ids (sb_workspaces s)) = ids_text (normalized_ids (sb_workspaces s'))"
      "ids_text (normalized_ids (sb_folders s)) = ids_text (normalized_ids (sb_folders s'))"
      "hex_text (tv_sha256 E b) = hex_text (tv_sha256 E b')"
    by simp_all
  from texts(8) have "tv_sha256 E b = tv_sha256 E b'" using E hex_text_inj unfolding digests_ok_def by blast
  with apart have "b = b'" by (simp add: told_apart_def enc)
  with enc have "c = c'" using utf8_encode_inj by blast
  with texts ok show ?thesis by (simp add: uuid_text_inj ids_text_inj binding_ok_def)
qed

text \<open>The lemma behind the origin of valid turns.\<close>

definition issued_for :: "issued_turn \<Rightarrow> conversation_turn \<Rightarrow> uuid \<Rightarrow> uuid \<Rightarrow> scope_binding \<Rightarrow> bool" where
  "issued_for u t actor configuration s \<longleftrightarrow>
     iu_content u = tu_content t \<and> Some (iu_turn u) = tu_id t \<and> iu_actor u = actor \<and> iu_configuration u = configuration
     \<and> (case iu_form u of
          UnscopedToken \<Rightarrow> False
        | LegacyToken s' \<Rightarrow> sb_documents s = None \<and> sb_domain s' = sb_domain s \<and> sb_connection s' = sb_connection s
            \<and> normalized_ids (sb_workspaces s') = normalized_ids (sb_workspaces s)
            \<and> normalized_ids (sb_folders s') = normalized_ids (sb_folders s)
        | ScopedToken s' \<Rightarrow> scope_key s' = scope_key s)"

lemma legacy_issue:
  assumes E: "digests_ok E" and m: "scoped_message_v2 E (tu_content t) a i f s = Inr m" "signed_message E u = Inr m"
    and ok: "issued_ok u" "list_all uuid_ok [a, i, f]" "binding_ok s" "tu_id t = Some i" "sb_documents s = None"
    and apart: "told_apart E (utf8_encode (iu_content u)) (utf8_encode (tu_content t))"
  shows "issued_for u t a f s"
proof (cases "iu_form u")
  case UnscopedToken
  with m(2) have "take 2 m = lit ''v1''" by (simp add: signed_message_def turn_message_head)
  with scoped_v2_head [OF m(1)] heads_differ show ?thesis by simp
next
  case (ScopedToken s')
  with m(2) have "take 2 m = lit ''v3''" by (auto simp: signed_message_def rbind_eq_Inr envelope_head simp del: lit_simps)
  with scoped_v2_head [OF m(1)] heads_differ show ?thesis by simp
next
  case (LegacyToken s')
  with m(2) have "scoped_message_v2 E (iu_content u) (iu_actor u) (iu_turn u) (iu_configuration u) s' = Inr m"
    by (simp add: signed_message_def)
  from scoped_v2_inj [OF E this m(1) _ _ ok(3) apart] ok(1,2,4,5) LegacyToken
  show ?thesis by (simp add: issued_for_def issued_ok_def)
qed

lemma scoped_issue:
  assumes E: "digests_ok E" and m: "signed_message E u = Inr (scoped_envelope (selection_mode s) (tv_sha256 E tm) (tv_sha256 E sm))"
      "turn_message E (tu_content t) a i f = Inr tm" "scope_message s = Inr sm"
    and ok: "issued_ok u" "list_all uuid_ok [a, i, f]" "binding_ok s" "tu_id t = Some i"
    and apart: "digests_apart E u t i a f s"
  shows "issued_for u t a f s"
proof (cases "iu_form u")
  case UnscopedToken
  with m(1) have "turn_message E (iu_content u) (iu_actor u) (iu_turn u) (iu_configuration u) = Inr (scoped_envelope (selection_mode s) (tv_sha256 E tm) (tv_sha256 E sm))"
    by (simp add: signed_message_def)
  from turn_message_head [OF this] heads_differ show ?thesis unfolding envelope_head by simp
next
  case (LegacyToken s')
  with m(1) have "scoped_message_v2 E (iu_content u) (iu_actor u) (iu_turn u) (iu_configuration u) s' = Inr (scoped_envelope (selection_mode s) (tv_sha256 E tm) (tv_sha256 E sm))"
    by (simp add: signed_message_def)
  from scoped_v2_head [OF this] heads_differ show ?thesis unfolding envelope_head by simp
next
  case (ScopedToken s')
  with m(1) obtain tm' sm' where m': "turn_message E (iu_content u) (iu_actor u) (iu_turn u) (iu_configuration u) = Inr tm'"
      "scope_message s' = Inr sm'"
    and env: "scoped_envelope (selection_mode s') (tv_sha256 E tm') (tv_sha256 E sm')
      = scoped_envelope (selection_mode s) (tv_sha256 E tm) (tv_sha256 E sm)"
    by (auto simp: signed_message_def rbind_eq_Inr)
  have "tv_sha256 E tm' = tv_sha256 E tm \<and> tv_sha256 E sm' = tv_sha256 E sm"
    using scoped_envelope_inj [OF env] E by (simp add: digests_ok_def)
  with apart ScopedToken have eq: "tm' = tm" "sm' = sm"
    by (simp_all add: digests_apart_def told_apart_def m' m(2,3))
  from m'(1) m(2) obtain b b' where enc: "utf8_encode (iu_content u) = Inr b" "utf8_encode (tu_content t) = Inr b'"
    by (auto simp: turn_message_def rbind_eq_Inr)
  have "(iu_content u, iu_actor u, iu_turn u, iu_configuration u) = (tu_content t, a, i, f)"
    using turn_message_inj [OF E enc, of "iu_actor u" "iu_turn u" "iu_configuration u" a i f] ok(1,2) apart m'(1) m(2) eq(1)
    by (simp add: issued_ok_def digests_apart_def told_apart_def enc)
  moreover have "scope_key s' = scope_key s"
    using scope_message_inj [of s' s] ok(1,3) ScopedToken m'(2) m(3) eq(2) by (simp add: issued_ok_def)
  ultimately show ?thesis using ok(4) ScopedToken by (simp add: issued_for_def)
qed

lemma first_part: "(case xs of [] \<Rightarrow> None | y # ys \<Rightarrow> q y ys) = Some r \<Longrightarrow> \<exists>y ys. xs = y # ys \<and> q y ys = Some r"
  by (cases xs) simp_all

lemma last_part: "(case xs of [] \<Rightarrow> p | y # ys \<Rightarrow> None) = Some r \<Longrightarrow> xs = [] \<and> p = Some r"
  by (cases xs) simp_all

lemma five_parts:
  "(case xs of [a, b, c, d, e] \<Rightarrow> p a b c d e | _ \<Rightarrow> None) = Some r \<Longrightarrow>
     \<exists>a b c d e. xs = [a, b, c, d, e] \<and> p a b c d e = Some r"
  by (drule first_part, elim exE conjE)+ (drule last_part, blast)

lemma open_scoped_tokenD:
  assumes "open_scoped_token E secret token = Some (mode, td, sd)"
  obtains version et es esig where "split_on 46 token = [version, mode, et, es, esig]"
    "base64_decode et = Inr td" "base64_decode es = Inr sd"
    "base64_decode esig = Inr (tv_hmac E secret (scoped_envelope mode td sd))"
proof -
  from five_parts [OF assms [unfolded open_scoped_token_def]]
  obtain version mode' et es esig where parts: "split_on 46 token = [version, mode', et, es, esig]" by blast
  from assms obtain x y z where decoded: "base64_decode et = Inr x" "base64_decode es = Inr y" "base64_decode esig = Inr z"
    unfolding open_scoped_token_def parts list.case by (auto simp del: lit_simps split: sum.splits if_splits)
  from assms have "mode' = mode \<and> x = td \<and> y = sd \<and> z = tv_hmac E secret (scoped_envelope mode td sd)"
    unfolding open_scoped_token_def parts list.case decoded prod.case sum.case by (simp del: lit_simps split: if_splits)
  with that parts decoded show thesis by blast
qed

section \<open>What a history keeps\<close>

lemma select_back_prefix:
  "select_back count limit spent ts = Inr sel \<Longrightarrow>
     \<exists>rest. ts = sel @ rest \<and> spent + sum_list (map (count \<circ> tu_content) sel) \<le> max spent limit
       \<and> (\<forall>t\<in>set sel. 0 \<le> count (tu_content t))
       \<and> (rest = [] \<or> spent + sum_list (map (count \<circ> tu_content) (sel @ [hd rest])) > limit)"
proof (induction count limit spent ts arbitrary: sel rule: select_back.induct)
  case (2 count limit spent t ts)
  show ?case
  proof (cases "spent + count (tu_content t) > limit")
    case True
    with "2.prems" have "sel = []" by (auto simp: Let_def split: if_splits)
    with True show ?thesis by auto
  next
    case False
    with "2.prems" obtain sel' where n: "0 \<le> count (tu_content t)" and sel: "sel = t # sel'"
      and rec: "select_back count limit (spent + count (tu_content t)) ts = Inr sel'"
      by (auto simp: Let_def rbind_eq_Inr split: if_splits)
    have "\<exists>rest. ts = sel' @ rest
        \<and> spent + count (tu_content t) + sum_list (map (count \<circ> tu_content) sel') \<le> max (spent + count (tu_content t)) limit
        \<and> (\<forall>t\<in>set sel'. 0 \<le> count (tu_content t))
        \<and> (rest = [] \<or> spent + count (tu_content t) + sum_list (map (count \<circ> tu_content) (sel' @ [hd rest])) > limit)"
      using n False by (intro "2.IH" [OF refl _ _ rec]) simp_all
    then obtain rest where
      "ts = sel' @ rest" "spent + count (tu_content t) + sum_list (map (count \<circ> tu_content) sel') \<le> max (spent + count (tu_content t)) limit"
      "\<forall>t\<in>set sel'. 0 \<le> count (tu_content t)"
      "rest = [] \<or> spent + count (tu_content t) + sum_list (map (count \<circ> tu_content) (sel' @ [hd rest])) > limit" by blast
    with n False sel show ?thesis by (intro exI [of _ rest]) (simp add: o_def algebra_simps)
  qed
qed simp

end
