(* ===== verification/Conversation_Properties.thy ===== *)
theory Conversation_Properties
  imports Conversation_Turns
begin

text \<open>
  What the tokens of a conversation promise: a token accepts one answer, reader, configuration and
  scope and no other, an accepted history holds only answers the server issued, and the window of a
  history is its longest end within the limits.
\<close>

section \<open>Where accepted turns come from\<close>

lemma valid_turn_was_issued:
  assumes valid: "verify_scoped_status E secret t a f s = Inr VALID_TURN"
    and E: "digests_ok E" and mac: "unforged E secret issues t a f s"
    and ok: "list_all issued_ok issues" "uuid_ok a" "uuid_ok f" "binding_ok s" "\<And>i. tu_id t = Some i \<Longrightarrow> uuid_ok i"
    and apart: "\<And>u i. u \<in> set issues \<Longrightarrow> tu_id t = Some i \<Longrightarrow> digests_apart E u t i a f s"
  shows "\<exists>u\<in>set issues. issued_for u t a f s"
proof -
  from valid obtain i token where t: "tu_id t = Some i" "tu_token t = Some token" and
    how: "sb_documents s = None \<and> sign_scoped_v2 E secret (tu_content t) a i f s = Inr token
     \<or> (\<exists>tm sm. turn_message E (tu_content t) a i f = Inr tm \<and> scope_message s = Inr sm
          \<and> open_scoped_token E secret token = Some (selection_mode s, tv_sha256 E tm, tv_sha256 E sm))"
    by (rule verify_scoped_valid)
  have ids: "list_all uuid_ok [a, i, f]" using ok t(1) by simp
  from how show ?thesis
  proof (elim disjE conjE exE)
    assume docs: "sb_documents s = None" and "sign_scoped_v2 E secret (tu_content t) a i f s = Inr token"
    then obtain m where m: "scoped_message_v2 E (tu_content t) a i f s = Inr m" "token = base64_encode (tv_hmac E secret m)"
      by (auto simp: sign_scoped_v2_def rbind_eq_Inr)
    then have "m \<in> set (checked_messages E t a f s)" "carries_mac E secret token m"
      using t by (simp_all add: checked_messages_def carries_mac_def)
    with mac t(2) obtain u where u: "u \<in> set issues" "signed_message E u = Inr m" by (auto simp: unforged_def)
    moreover have "issued_ok u" using ok(1) u(1) by (simp add: list_all_iff)
    moreover have "told_apart E (utf8_encode (iu_content u)) (utf8_encode (tu_content t))"
      using apart [OF u(1) t(1)] by (simp add: digests_apart_def)
    ultimately show ?thesis using legacy_issue [OF E m(1) u(2) _ ids ok(4) t(1) docs] by blast
  next
    fix tm sm
    assume m: "turn_message E (tu_content t) a i f = Inr tm" "scope_message s = Inr sm"
      and opened: "open_scoped_token E secret token = Some (selection_mode s, tv_sha256 E tm, tv_sha256 E sm)"
    from opened obtain version et es esig where parts: "split_on 46 token = [version, selection_mode s, et, es, esig]"
      "base64_decode et = Inr (tv_sha256 E tm)" "base64_decode es = Inr (tv_sha256 E sm)"
      "base64_decode esig = Inr (tv_hmac E secret (scoped_envelope (selection_mode s) (tv_sha256 E tm) (tv_sha256 E sm)))"
      by (rule open_scoped_tokenD)
    let ?m = "scoped_envelope (selection_mode s) (tv_sha256 E tm) (tv_sha256 E sm)"
    have "?m \<in> set (checked_messages E t a f s)" "carries_mac E secret token ?m"
      using t parts by (simp_all add: checked_messages_def carries_mac_def)
    with mac t(2) obtain u where u: "u \<in> set issues" "signed_message E u = Inr ?m" by (auto simp: unforged_def)
    moreover have "issued_ok u" using ok(1) u(1) by (simp add: list_all_iff)
    ultimately show ?thesis using scoped_issue [OF E u(2) m _ ids ok(4) t(1) apart [OF u(1) t(1)]] by blast
  qed
qed

lemma check_turn_Inr:
  assumes "check_turn E (Some secret) a f (Some s) item = Inr t"
  shows "new_turn (hi_role item) (hi_content item) (hi_turn item) (hi_token item) = Inr t"
    "if tu_role t = ASSISTANT_TURN then verify_scoped_status E secret t a f s = Inr VALID_TURN
     else tu_id t = None \<and> tu_token t = None"
  using assms by (auto simp: check_turn_def rbind_eq_Inr split: sum.splits if_splits)

lemma new_turn_Inr:
  assumes "new_turn r c i k = Inr t"
  shows "t = \<lparr>tu_role = r, tu_content = strip c, tu_id = i, tu_token = k\<rparr>"
  using assms by (auto simp: new_turn_def Let_def split: if_splits)

section \<open>Properties\<close>

text \<open>
  C32.  A scoped token binds the answer, its reader, its identifier and configuration and its scope:
  checked for another turn it is invalid, for another scope it tells that the scope changed, and it is
  valid for nothing else.  SHA-256 must tell the messages apart.
\<close>

theorem tokens_bind_turn_and_scope:
  assumes "digests_ok E" "sign_scoped E secret c a i f s = Inr token"
    "tu_role u = ASSISTANT_TURN" "tu_id u = Some i'" "tu_token u = Some token" "encodable (tu_content u)"
    "list_all uuid_ok [a, i, f, a', i', f']" "binding_ok s" "binding_ok s'"
    "told_apart E (utf8_encode c) (utf8_encode (tu_content u))"
    "told_apart E (turn_message E c a i f) (turn_message E (tu_content u) a' i' f')"
    "told_apart E (scope_message s) (scope_message s')"
  shows "verify_scoped_status E secret u a' f' s'
    = Inr (if (tu_content u, a', i', f') \<noteq> (c, a, i, f) then INVALID_TURN
           else if scope_key s' = scope_key s then VALID_TURN else SCOPE_CHANGED)"
  using assms by (rule verify_issued)

text \<open>
  C33.  An accepted history consists of the submitted turns, in order and stripped; a turn of the user
  carries no identifier or token, and every answer in it is one the server issued under the scope of
  the request: to this reader, for this configuration, with this text.  Nobody but the signer makes
  a MAC, and SHA-256 tells the messages apart.
\<close>

theorem accepted_history_was_issued:
  assumes "validated_history E (Some secret) a f (Some s) items = Inr turns"
    and "digests_ok E" "list_all issued_ok issues" "uuid_ok a" "uuid_ok f" "binding_ok s"
    and "\<forall>t\<in>set turns. unforged E secret issues t a f s"
    and "\<forall>t\<in>set turns. \<forall>i. tu_id t = Some i \<longrightarrow> uuid_ok i \<and> (\<forall>u\<in>set issues. digests_apart E u t i a f s)"
  shows "turns = map (\<lambda>x. \<lparr>tu_role = hi_role x, tu_content = strip (hi_content x), tu_id = hi_turn x, tu_token = hi_token x\<rparr>) items
    \<and> (\<forall>t\<in>set turns. if tu_role t = ASSISTANT_TURN then \<exists>u\<in>set issues. issued_for u t a f s
                         else tu_id t = None \<and> tu_token t = None)"
proof
  note each = mapr_length [OF assms(1) [unfolded validated_history_def]] mapr_nth [OF assms(1) [unfolded validated_history_def]]
  show "turns = map (\<lambda>x. \<lparr>tu_role = hi_role x, tu_content = strip (hi_content x), tu_id = hi_turn x, tu_token = hi_token x\<rparr>) items"
  proof (rule nth_equalityI)
    fix k assume "k < length turns"
    then have k: "k < length items" using each(1) by simp
    from new_turn_Inr [OF check_turn_Inr(1) [OF each(2) [OF k]]] k
    show "turns ! k = map (\<lambda>x. \<lparr>tu_role = hi_role x, tu_content = strip (hi_content x), tu_id = hi_turn x, tu_token = hi_token x\<rparr>) items ! k"
      by simp
  qed (use each(1) in simp)
  show "\<forall>t\<in>set turns. if tu_role t = ASSISTANT_TURN then \<exists>u\<in>set issues. issued_for u t a f s
                         else tu_id t = None \<and> tu_token t = None"
  proof
    fix t assume t: "t \<in> set turns"
    with each obtain k where "k < length items" "t = turns ! k" by (auto simp: in_set_conv_nth)
    with each(2) obtain item where "check_turn E (Some secret) a f (Some s) item = Inr t" by blast
    note checked = check_turn_Inr(2) [OF this]
    show "if tu_role t = ASSISTANT_TURN then \<exists>u\<in>set issues. issued_for u t a f s else tu_id t = None \<and> tu_token t = None"
    proof (cases "tu_role t = ASSISTANT_TURN")
      case True
      with checked valid_turn_was_issued [of E secret t a f s issues] assms(2-8) t show ?thesis by auto
    qed (use checked in simp)
  qed
qed

text \<open>
  C34.  The window of a history is the longest end of it that keeps the number of turns and the number
  of tokens within the limits of the policy.
\<close>

theorem history_window:
  assumes "new_context_policy turns tokens = Inr p" "select_history p count history = Inr sel"
  shows "\<exists>old. history = old @ sel \<and> int (length sel) \<le> turns
    \<and> sum_list (map (count \<circ> tu_content) sel) \<le> tokens
    \<and> (old = [] \<or> int (length sel) = turns \<or> count (tu_content (last old)) + sum_list (map (count \<circ> tu_content) sel) > tokens)"
proof -
  from assms(1) have p: "cy_turns p = turns" "cy_tokens p = tokens" "0 < turns" "0 < tokens"
    by (auto simp: new_context_policy_def split: if_splits)
  let ?k = "length history - nat turns"
  let ?w = "drop ?k history"
  from assms(2) obtain r where r: "select_back count tokens 0 (rev ?w) = Inr r" "sel = rev r"
    by (auto simp: select_history_def last_turns_def p rbind_eq_Inr)
  from select_back_prefix [OF r(1)] p(4) obtain rest where rest: "rev ?w = r @ rest"
    "sum_list (map (count \<circ> tu_content) r) \<le> tokens"
    "rest = [] \<or> sum_list (map (count \<circ> tu_content) (r @ [hd rest])) > tokens" by auto
  from rest(1) have w: "?w = rev rest @ sel" using r(2) by (metis rev_append rev_rev_ident)
  have sums: "sum_list (map (count \<circ> tu_content) r) = sum_list (map (count \<circ> tu_content) sel)"
    unfolding r(2) rev_map [symmetric] by (simp add: sum_list_rev)
  let ?old = "take ?k history @ rev rest"
  have "history = ?old @ sel" using w append_take_drop_id [of ?k history] by simp
  moreover have len: "length ?w \<le> nat turns" by simp
  then have "length rest + length sel \<le> nat turns" unfolding w by simp
  then have "int (length sel) \<le> turns" using p(3) by linarith
  moreover have "?old = [] \<or> int (length sel) = turns
      \<or> count (tu_content (last ?old)) + sum_list (map (count \<circ> tu_content) sel) > tokens"
  proof (cases "rest = []")
    case True
    then have "length sel = length history - ?k" using w by (metis append_Nil length_drop rev.simps(1))
    with True p(3) show ?thesis by (cases "?k = 0") auto
  next
    case False
    with rest(3) sums show ?thesis by (auto simp: last_rev algebra_simps)
  qed
  moreover have "sum_list (map (count \<circ> tu_content) sel) \<le> tokens" using rest(2) sums by simp
  ultimately show ?thesis by blast
qed

text \<open>
  C35.  A token of an answer that is not scoped and not ASCII ends the request with a \<^verbatim>\<open>TypeError\<close> of
  \<^verbatim>\<open>hmac.compare_digest\<close> and not, as every other token that does not verify, with
  \<^verbatim>\<open>conversation_history_invalid\<close>; an ASCII token never does.
\<close>

theorem other_script_token_escapes:
  assumes "digests_ok E" "strip (hi_content item) \<noteq> []" "encodable (strip (hi_content item))"
    "hi_role item = ASSISTANT_TURN" "hi_turn item = Some i" "hi_token item = Some token" "token \<noteq> []"
  shows "(check_turn E (Some secret) a f None item = Inl (TypeError ''compare_digest'') \<longleftrightarrow> \<not> is_ascii token)
    \<and> (is_ascii token \<longrightarrow> check_turn E (Some secret) a f None item \<in> {Inl history_invalid}
       \<union> {Inr \<lparr>tu_role = ASSISTANT_TURN, tu_content = strip (hi_content item), tu_id = Some i, tu_token = Some token\<rparr>})"
proof -
  let ?t = "\<lparr>tu_role = ASSISTANT_TURN, tu_content = strip (hi_content item), tu_id = Some i, tu_token = Some token\<rparr>"
  from assms(3) obtain b where b: "utf8_encode (strip (hi_content item)) = Inr b" by (rule encodable_obtain)
  obtain m where "turn_message E (strip (hi_content item)) a i f = Inr m" using turn_message_encodable [OF assms(1) b] by blast
  then have "sign_turn E secret (strip (hi_content item)) a i f = Inr (base64_encode (tv_hmac E secret m))"
    by (simp add: sign_turn_def)
  moreover have "is_ascii (base64_encode (tv_hmac E secret m))"
  proof -
    have "list_all (\<lambda>v. v < 64) (sextets (tv_hmac E secret m))"
      using assms(1) by (intro sextets_less) (simp add: digests_ok_def)
    then show ?thesis by (simp add: base64_encode_chars is_ascii_def list_all_iff b64_char_less)
  qed
  moreover have "check_turn E (Some secret) a f None item
      = rbind (verify_turn E secret ?t a f) (\<lambda>valid. if valid then Inr ?t else Inl history_invalid)"
    using assms(2,4-7) by (simp add: check_turn_def new_turn_def Let_def)
  ultimately have "check_turn E (Some secret) a f None item
      = (if is_ascii token then if token = base64_encode (tv_hmac E secret m) then Inr ?t else Inl history_invalid
         else Inl (TypeError ''compare_digest''))"
    by (simp add: verify_turn_def compare_digest_def)
  then show ?thesis by simp
qed

section \<open>Witnesses\<close>

text \<open>Digests that tell messages of different length apart, and two scopes, one with a folder.\<close>

definition demo_turn_digest :: "nat list \<Rightarrow> nat list" where
  "demo_turn_digest m = replicate 31 0 @ [length m mod 256]"

definition demo_turn_env :: turn_env where
  "demo_turn_env = \<lparr>tv_hmac = (\<lambda>k. demo_turn_digest), tv_sha256 = demo_turn_digest\<rparr>"

definition demo_binding :: "uuid list \<Rightarrow> scope_binding" where
  "demo_binding folders =
     \<lparr>sb_domain = UUID 5, sb_connection = UUID 6, sb_workspaces = [UUID 7], sb_folders = folders,
      sb_documents = None, sb_fingerprint = None\<rparr>"

definition demo_turn :: "pystr \<Rightarrow> conversation_turn" where
  "demo_turn token = \<lparr>tu_role = ASSISTANT_TURN, tu_content = lit ''yes'', tu_id = Some (UUID 3), tu_token = Some token\<rparr>"

definition demo_issue :: issued_turn where
  "demo_issue = \<lparr>iu_content = lit ''yes'', iu_actor = UUID 2, iu_turn = UUID 3, iu_configuration = UUID 4,
     iu_form = ScopedToken (demo_binding [])\<rparr>"

lemma demo_digests_ok: "digests_ok demo_turn_env"
  by (simp add: digests_ok_def demo_turn_env_def demo_turn_digest_def is_byte_def list_all_iff)

lemma demo_binding_ok: "binding_ok (demo_binding [])" "binding_ok (demo_binding [UUID 8])"
  by (simp_all add: binding_ok_def demo_binding_def uuid_ok_def)

lemma demo_signed:
  obtains token where "sign_scoped demo_turn_env secret (lit ''yes'') (UUID 2) (UUID 3) (UUID 4) (demo_binding []) = Inr token"
proof -
  obtain b where "utf8_encode (lit ''yes'') = Inr b" by (rule encodable_obtain [of "lit ''yes''"]) (auto simp: lit_simps utf8_ascii)
  with turn_message_encodable [OF demo_digests_ok] scope_message_binding [OF demo_binding_ok(1)] that
  show thesis by (simp add: sign_scoped_def Let_def)
qed

lemma told_apart_same [simp]: "told_apart E m m"
  by (simp add: told_apart_def split: sum.splits)

lemma length_hex_text [simp]: "length (hex_text bs) = 2 * length bs"
  by (induction bs) (simp_all add: hex_text_def)

lemma demo_scopes_apart: "told_apart demo_turn_env (scope_message (demo_binding [])) (scope_message (demo_binding [UUID 8]))"
  unfolding told_apart_def scope_message_binding [OF demo_binding_ok(1)] scope_message_binding [OF demo_binding_ok(2)]
  by (simp add: demo_turn_env_def demo_turn_digest_def demo_binding_def ids_text_def normalized_ids_def selection_mode_def lit_simps)

lemma demo_verify:
  assumes "sign_scoped demo_turn_env secret (lit ''yes'') (UUID 2) (UUID 3) (UUID 4) (demo_binding []) = Inr token"
  shows "verify_scoped_status demo_turn_env secret (demo_turn token) (UUID 2) (UUID 4) (demo_binding []) = Inr VALID_TURN"
  by (subst verify_issued [OF demo_digests_ok assms, where i' = "UUID 3"])
    (simp_all add: demo_turn_def demo_binding_ok uuid_ok_def utf8_ascii lit_simps)

theorem tokens_bind_turn_and_scope_witness:
  "\<exists>token. sign_scoped demo_turn_env [] (lit ''yes'') (UUID 2) (UUID 3) (UUID 4) (demo_binding []) = Inr token
    \<and> verify_scoped_status demo_turn_env [] (demo_turn token) (UUID 2) (UUID 4) (demo_binding [UUID 8]) = Inr SCOPE_CHANGED"
proof -
  obtain token where token: "sign_scoped demo_turn_env [] (lit ''yes'') (UUID 2) (UUID 3) (UUID 4) (demo_binding []) = Inr token"
    by (rule demo_signed)
  have "scope_key (demo_binding [UUID 8]) \<noteq> scope_key (demo_binding [])"
    by (simp add: scope_key_def demo_binding_def normalized_ids_def)
  then have "verify_scoped_status demo_turn_env [] (demo_turn token) (UUID 2) (UUID 4) (demo_binding [UUID 8]) = Inr SCOPE_CHANGED"
    by (subst tokens_bind_turn_and_scope [OF demo_digests_ok token, where i' = "UUID 3"])
      (simp_all add: demo_turn_def demo_binding_ok demo_scopes_apart uuid_ok_def utf8_ascii lit_simps)
  with token show ?thesis by blast
qed

definition demo_turn_history :: "pystr \<Rightarrow> history_item list" where
  "demo_turn_history token =
     [\<lparr>hi_role = USER_TURN, hi_content = lit ''so?'', hi_turn = None, hi_token = None\<rparr>,
      \<lparr>hi_role = ASSISTANT_TURN, hi_content = lit '' yes'', hi_turn = Some (UUID 3), hi_token = Some token\<rparr>]"

lemma demo_unforged:
  assumes "sign_scoped demo_turn_env secret (lit ''yes'') (UUID 2) (UUID 3) (UUID 4) (demo_binding []) = Inr token"
  shows "unforged demo_turn_env secret [demo_issue] (demo_turn token) (UUID 2) (UUID 4) (demo_binding [])"
proof -
  let ?E = demo_turn_env and ?s = "demo_binding []"
  obtain tm sm where m: "turn_message ?E (lit ''yes'') (UUID 2) (UUID 3) (UUID 4) = Inr tm" "scope_message ?s = Inr sm"
    and t: "token = py_join [46] [lit ''v3'', selection_mode ?s, base64_encode (tv_sha256 ?E tm), base64_encode (tv_sha256 ?E sm),
      base64_encode (tv_hmac ?E secret (scoped_envelope (selection_mode ?s) (tv_sha256 ?E tm) (tv_sha256 ?E sm)))]"
    using assms by (rule sign_scoped_Inr)
  let ?env = "scoped_envelope (selection_mode ?s) (tv_sha256 ?E tm) (tv_sha256 ?E sm)"
  have bytes: "list_all is_byte (tv_hmac ?E secret x)" "list_all is_byte (tv_sha256 ?E x)" for x
    using demo_digests_ok by (simp_all add: digests_ok_def)
  have parts: "split_on 46 token = [lit ''v3'', selection_mode ?s, base64_encode (tv_sha256 ?E tm), base64_encode (tv_sha256 ?E sm),
      base64_encode (tv_hmac ?E secret ?env)]"
    unfolding t by (rule scoped_token_parts)
  have dot: "46 \<in> set token" unfolding t by simp
  have "length ?env = 145"
    by (simp add: scoped_envelope_def demo_turn_env_def demo_turn_digest_def selection_mode_def demo_binding_def lit_simps)
  then have env: "tv_hmac ?E secret ?env = replicate 31 0 @ [145]" by (simp add: demo_turn_env_def demo_turn_digest_def)
  have v2: "\<not> carries_mac ?E secret token m"
    if "scoped_message_v2 ?E (lit ''yes'') (UUID 2) (UUID 3) (UUID 4) ?s = Inr m" for m
  proof -
    from that have "length m = 290"
      by (auto simp: scoped_message_v2_def ascii_encode_def rbind_eq_Inr demo_turn_env_def demo_turn_digest_def ids_text_def
          normalized_ids_def demo_binding_def lit_simps split: if_splits)
    then have "tv_hmac ?E secret m = replicate 31 0 @ [34]" by (simp add: demo_turn_env_def demo_turn_digest_def)
    moreover have "base64_decode (base64_encode (tv_hmac ?E secret ?env)) = Inr (replicate 31 0 @ [145])"
      unfolding env by (rule base64_decode_encode) (simp add: is_byte_def list_all_iff)
    moreover have "token \<noteq> base64_encode x" for x using dot base64_no_dot by metis
    ultimately show ?thesis unfolding carries_mac_def parts list.case by simp
  qed
  have "signed_message ?E demo_issue = Inr ?env" by (simp add: signed_message_def demo_issue_def m del: lit_simps)
  then show ?thesis
    using v2 by (auto simp: unforged_def checked_messages_def demo_turn_def parts base64_decode_encode bytes
        simp del: lit_simps split: sum.splits)
qed

theorem accepted_history_was_issued_witness:
  "\<exists>token turns. validated_history demo_turn_env (Some []) (UUID 2) (UUID 4) (Some (demo_binding [])) (demo_turn_history token) = Inr turns
    \<and> (\<exists>u\<in>{demo_issue}. issued_for u (demo_turn token) (UUID 2) (UUID 4) (demo_binding []))"
proof -
  obtain token where token: "sign_scoped demo_turn_env [] (lit ''yes'') (UUID 2) (UUID 3) (UUID 4) (demo_binding []) = Inr token"
    by (rule demo_signed)
  let ?turns = "[\<lparr>tu_role = USER_TURN, tu_content = lit ''so?'', tu_id = None, tu_token = None\<rparr>, demo_turn token]"
  have "token \<noteq> []" using token by (auto simp: sign_scoped_def Let_def rbind_eq_Inr)
  with demo_verify [OF token] have run: "validated_history demo_turn_env (Some []) (UUID 2) (UUID 4) (Some (demo_binding [])) (demo_turn_history token) = Inr ?turns"
    by (simp add: validated_history_def demo_turn_history_def check_turn_def new_turn_def Let_def demo_turn_def
        strip_def lstrip_def rstrip_def py_isspace_def lit_simps)
  have "unforged demo_turn_env [] [demo_issue] t (UUID 2) (UUID 4) (demo_binding [])" if "t \<in> set ?turns" for t
    using that demo_unforged [OF token] by (auto simp: unforged_def)
  moreover have "digests_apart demo_turn_env demo_issue (demo_turn token) (UUID 3) (UUID 2) (UUID 4) (demo_binding [])"
    by (simp add: digests_apart_def demo_issue_def demo_turn_def)
  ultimately have "\<forall>t\<in>set ?turns. if tu_role t = ASSISTANT_TURN then \<exists>u\<in>set [demo_issue]. issued_for u t (UUID 2) (UUID 4) (demo_binding [])
                         else tu_id t = None \<and> tu_token t = None"
    by (intro conjunct2 [OF accepted_history_was_issued [OF run demo_digests_ok]])
      (auto simp: demo_binding_ok issued_ok_def demo_issue_def demo_turn_def uuid_ok_def)
  with run show ?thesis by (auto simp: demo_turn_def)
qed

theorem history_window_witness:
  "select_history \<lparr>cy_turns = 2, cy_tokens = 5\<rparr> (\<lambda>s. int (length s)) [demo_turn (lit ''a''), demo_turn (lit ''b'')]
     = Inr [demo_turn (lit ''b'')]
   \<and> (\<exists>old. [demo_turn (lit ''a''), demo_turn (lit ''b'')] = old @ [demo_turn (lit ''b'')])"
proof -
  have new: "new_context_policy 2 5 = Inr \<lparr>cy_turns = 2, cy_tokens = 5\<rparr>" by (simp add: new_context_policy_def)
  have sel: "select_history \<lparr>cy_turns = 2, cy_tokens = 5\<rparr> (\<lambda>s. int (length s)) [demo_turn (lit ''a''), demo_turn (lit ''b'')]
     = Inr [demo_turn (lit ''b'')]"
    by (simp add: select_history_def last_turns_def demo_turn_def lit_simps)
  from history_window [OF new sel] sel show ?thesis by blast
qed

definition demo_item :: history_item where
  "demo_item = \<lparr>hi_role = ASSISTANT_TURN, hi_content = lit ''yes'', hi_turn = Some (UUID 3), hi_token = Some [233]\<rparr>"

theorem other_script_token_escapes_witness:
  "check_turn demo_turn_env (Some []) (UUID 2) (UUID 4) None demo_item = Inl (TypeError ''compare_digest'')"
proof -
  have strip: "strip (lit ''yes'') = lit ''yes''" by (simp add: strip_def lstrip_def rstrip_def py_isspace_def lit_simps)
  have answer: "lit ''yes'' \<noteq> []" "encodable (lit ''yes'')" by (simp_all add: utf8_ascii)
  have "\<not> is_ascii [233]" by simp
  then show ?thesis
    using other_script_token_escapes [OF demo_digests_ok, of demo_item "UUID 3" "[233]" "[]" "UUID 2" "UUID 4"]
    by (simp add: demo_item_def strip answer del: lit_simps)
qed

end
