(* ===== verification/Grounding_Evidence.thy ===== *)
theory Grounding_Evidence
  imports Evidence_Selection
begin

text \<open>
  The evidence handed to a generation provider: its parser order (\<^verbatim>\<open>generation/source_reading.py\<close>),
  its compact form (\<^verbatim>\<open>compact_evidence.py\<close>) and the form with short references
  (\<^verbatim>\<open>reference_evidence.py\<close>).  The payloads are records, so that the checks of their Python types hold
  by construction; identifiers stand for their texts, which differ for different identifiers.
\<close>

section \<open>Evidence\<close>

record grounding_evidence =
  ge_id :: uuid
  ge_text :: pystr
  ge_document :: uuid
  ge_version :: uuid
  ge_projection :: "uuid option"
  ge_chunk :: "uuid option"
  ge_element :: uuid
  ge_page :: "int option"
  ge_start :: int
  ge_end :: int
  ge_bbox :: "bounding_box option"
  ge_path :: "pystr list"
  ge_ordinal :: int
  ge_kind :: source_kind
  ge_part :: "pystr option"
  ge_cell :: "table_cell option"

text \<open>The answers of a selection as evidence.\<close>

definition grounding_of :: "evidence_answer \<Rightarrow> grounding_evidence" where
  "grounding_of a =
     (let u = an_evidence a; l = ev_location u; c = vs_chunk (an_source a)
      in \<lparr>ge_id = ev_id u, ge_text = ev_text u, ge_document = vs_document (an_source a), ge_version = rc_version c,
          ge_projection = ev_projection u, ge_chunk = ev_chunk u, ge_element = lc_element l, ge_page = lc_page l,
          ge_start = lc_start l, ge_end = lc_end l, ge_bbox = lc_bbox l, ge_path = rc_path c,
          ge_ordinal = ev_ordinal u, ge_kind = lc_kind l, ge_part = lc_part l, ge_cell = lc_cell l\<rparr>)"

definition generation_evidence :: "evidence_selection \<Rightarrow> grounding_evidence list" where
  "generation_evidence s =
     map grounding_of ((case se_answer s of None \<Rightarrow> [] | Some a \<Rightarrow> [a]) @ se_conflicts s)"

section \<open>Parser order\<close>

type_synonym source_scope =
  "uuid \<times> uuid \<times> uuid option \<times> uuid option \<times> int option \<times> source_kind \<times> pystr option \<times> table_cell option \<times> pystr list"

definition source_scope_of :: "grounding_evidence \<Rightarrow> source_scope" where
  "source_scope_of x =
     (ge_document x, ge_version x, ge_projection x, ge_chunk x, ge_page x, ge_kind x, ge_part x, ge_cell x, ge_path x)"

definition proper_span :: "grounding_evidence \<Rightarrow> bool" where
  "proper_span x \<longleftrightarrow>
     \<not> (ge_projection x = None \<or> ge_chunk x = None \<or> ge_ordinal x < 0 \<or> ge_start x < 0 \<or> ge_end x \<le> ge_start x)"

definition adjacent :: "grounding_evidence \<Rightarrow> grounding_evidence \<Rightarrow> bool" where
  "adjacent x y \<longleftrightarrow>
     proper_span x \<and> proper_span y \<and> source_scope_of x = source_scope_of y
     \<and> ge_ordinal y = ge_ordinal x + 1 \<and> ge_start y = ge_end x"

fun reading_loop :: "uuid list list \<Rightarrow> uuid list \<Rightarrow> grounding_evidence option \<Rightarrow> grounding_evidence list \<Rightarrow> uuid list list" where
  "reading_loop spans run previous [] = (if length run > 1 then spans @ [run] else spans)"
| "reading_loop spans run previous (x # xs) =
     (if (case previous of None \<Rightarrow> True | Some p \<Rightarrow> \<not> adjacent p x)
      then reading_loop (if length run > 1 then spans @ [run] else spans) [ge_id x] (Some x) xs
      else reading_loop spans (run @ [ge_id x]) (Some x) xs)"

text \<open>The spans of \<^verbatim>\<open>build_source_reading\<close>; its other members are constants.\<close>

definition contiguous_spans :: "grounding_evidence list \<Rightarrow> uuid list list" where
  "contiguous_spans evidence =
     (if length (remdups (map ge_id evidence)) \<noteq> length evidence then [] else reading_loop [] [] None evidence)"

section \<open>Compact form\<close>

record source_entry =
  sy_page :: "int option"
  sy_kind :: source_kind
  sy_part :: "pystr option"
  sy_cell :: "table_cell option"
  sy_path :: "pystr list"

record 'i fragment =
  fr_id :: 'i
  fr_text :: pystr
  fr_bbox :: "bounding_box option"
  fr_range :: "int \<times> int"
  fr_ordinal :: int

record 'i evidence_block =
  bk_source :: nat
  bk_fragments :: "'i fragment list"

record compact_evidence =
  ce_sources :: "source_entry list"
  ce_blocks :: "uuid evidence_block list"

definition entry_of :: "grounding_evidence \<Rightarrow> source_entry" where
  "entry_of x = \<lparr>sy_page = ge_page x, sy_kind = ge_kind x, sy_part = ge_part x, sy_cell = ge_cell x, sy_path = ge_path x\<rparr>"

definition fragment_of :: "grounding_evidence \<Rightarrow> uuid fragment" where
  "fragment_of x =
     \<lparr>fr_id = ge_id x, fr_text = ge_text x, fr_bbox = ge_bbox x, fr_range = (ge_start x, ge_end x), fr_ordinal = ge_ordinal x\<rparr>"

definition adjacent_pairs :: "uuid list list \<Rightarrow> (uuid \<times> uuid) list" where
  "adjacent_pairs spans = concat (map (\<lambda>s. zip s (tl s)) spans)"

record pack_state =
  pk_refs :: "(source_scope \<times> nat) list"
  pk_sources :: "source_entry list"
  pk_blocks :: "uuid evidence_block list"
  pk_previous :: "uuid option"

definition add_fragment :: "uuid fragment \<Rightarrow> uuid evidence_block list \<Rightarrow> uuid evidence_block list" where
  "add_fragment f bs = butlast bs @ [(last bs)\<lparr>bk_fragments := bk_fragments (last bs) @ [f]\<rparr>]"

definition pack_step :: "(uuid \<times> uuid) list \<Rightarrow> grounding_evidence \<Rightarrow> pack_state \<Rightarrow> pack_state" where
  "pack_step pairs x st =
     (let known = map_of (pk_refs st) (source_scope_of x) \<noteq> None;
          refs = (if known then pk_refs st else pk_refs st @ [(source_scope_of x, length (pk_sources st))]);
          sources = (if known then pk_sources st else pk_sources st @ [entry_of x]);
          reference = the (map_of refs (source_scope_of x));
          joins = (case pk_previous st of None \<Rightarrow> False | Some p \<Rightarrow> (p, ge_id x) \<in> set pairs)
      in \<lparr>pk_refs = refs, pk_sources = sources,
          pk_blocks =
            (if joins then add_fragment (fragment_of x) (pk_blocks st)
             else pk_blocks st @ [\<lparr>bk_source = reference, bk_fragments = [fragment_of x]\<rparr>]),
          pk_previous = Some (ge_id x)\<rparr>)"

definition pack_compact_evidence :: "grounding_evidence list \<Rightarrow> compact_evidence res" where
  "pack_compact_evidence evidence =
     (if length (remdups (map ge_id evidence)) \<noteq> length evidence then Inl (ValueError ''duplicate_evidence'')
      else
        let pairs = adjacent_pairs (contiguous_spans evidence);
            st = fold (pack_step pairs) evidence \<lparr>pk_refs = [], pk_sources = [], pk_blocks = [], pk_previous = None\<rparr>
        in Inr \<lparr>ce_sources = pk_sources st, ce_blocks = pk_blocks st\<rparr>)"

section \<open>References\<close>

abbreviation max_reference_evidence :: nat where
  "max_reference_evidence \<equiv> 200"

definition reference_name :: "nat \<Rightarrow> pystr" where
  "reference_name i = lit ''e'' @ dec_nat (i + 1)"

definition fragment_columns :: "pystr list" where
  "fragment_columns = [lit ''evidence_ref'', lit ''text'', lit ''bbox'', lit ''char_range'', lit ''ordinal'']"

type_synonym reference_map = "(pystr \<times> uuid) list"

definition validated_map :: "reference_map \<Rightarrow> reference_map res" where
  "validated_map m =
     (if length m > max_reference_evidence then Inl (ValueError ''reference_map'')
      else if map fst m \<noteq> map reference_name [0..<length m] \<or> length (remdups (map snd m)) \<noteq> length m
      then Inl (ValueError ''reference_map'')
      else Inr m)"

definition build_reference_map :: "grounding_evidence list \<Rightarrow> reference_map res" where
  "build_reference_map evidence =
     (if length evidence > max_reference_evidence then Inl (ValueError ''reference_limit'')
      else validated_map (zip (map reference_name [0..<length evidence]) (map ge_id evidence)))"

record reference_pack =
  rp_columns :: "pystr list"
  rp_sources :: "source_entry list"
  rp_blocks :: "pystr evidence_block list"
  rp_map :: reference_map

definition reference_ids :: "reference_pack \<Rightarrow> uuid list" where
  "reference_ids p = map snd (rp_map p)"

definition rename_fragment :: "('i \<Rightarrow> 'j) \<Rightarrow> 'i fragment \<Rightarrow> 'j fragment" where
  "rename_fragment f x =
     \<lparr>fr_id = f (fr_id x), fr_text = fr_text x, fr_bbox = fr_bbox x, fr_range = fr_range x, fr_ordinal = fr_ordinal x\<rparr>"

text \<open>Looking up the name of an identifier raises \<^verbatim>\<open>KeyError\<close> when there is none.\<close>

definition reference_row :: "reference_map \<Rightarrow> uuid fragment \<Rightarrow> pystr fragment res" where
  "reference_row m x =
     (case map_of (map (\<lambda>(k, v). (v, k)) m) (fr_id x) of
        None \<Rightarrow> Inl (LookupError ''reference'')
      | Some r \<Rightarrow> Inr (rename_fragment (\<lambda>_. r) x))"

definition reference_block :: "reference_map \<Rightarrow> uuid evidence_block \<Rightarrow> pystr evidence_block res" where
  "reference_block m b =
     rbind (mapr (reference_row m) (bk_fragments b)) (\<lambda>rows. Inr \<lparr>bk_source = bk_source b, bk_fragments = rows\<rparr>)"

definition pack_reference_evidence :: "grounding_evidence list \<Rightarrow> reference_pack res" where
  "pack_reference_evidence evidence =
     rbind (build_reference_map evidence) (\<lambda>m.
     rbind (pack_compact_evidence evidence) (\<lambda>c.
     rbind (mapr (reference_block m) (ce_blocks c)) (\<lambda>blocks.
     rbind (validated_map m) (\<lambda>m.
       Inr \<lparr>rp_columns = fragment_columns, rp_sources = ce_sources c, rp_blocks = blocks, rp_map = m\<rparr>))))"

definition resolve_evidence_refs :: "pystr list \<Rightarrow> reference_map \<Rightarrow> uuid list res" where
  "resolve_evidence_refs refs m =
     rbind (validated_map m) (\<lambda>m.
       if list_ex (\<lambda>r. map_of m r = None) refs \<or> length (remdups refs) \<noteq> length refs
       then Inl (ValueError ''evidence_references'')
       else Inr (map (\<lambda>r. the (map_of m r)) refs))"

definition resolve_row :: "reference_map \<Rightarrow> pystr fragment \<Rightarrow> uuid fragment res" where
  "resolve_row m x =
     rbind (resolve_evidence_refs [fr_id x] m) (\<lambda>ids. Inr (rename_fragment (\<lambda>_. hd ids) x))"

definition resolve_block :: "nat \<Rightarrow> reference_map \<Rightarrow> pystr evidence_block \<Rightarrow> uuid evidence_block res" where
  "resolve_block n m b =
     (if \<not> bk_source b < n \<or> bk_fragments b = [] then Inl (ValueError ''reference_block'')
      else rbind (mapr (resolve_row m) (bk_fragments b)) (\<lambda>fs. Inr \<lparr>bk_source = bk_source b, bk_fragments = fs\<rparr>))"

definition unpack_reference_evidence :: "reference_pack \<Rightarrow> compact_evidence res" where
  "unpack_reference_evidence p =
     (if rp_columns p \<noteq> fragment_columns then Inl (ValueError ''reference_payload'')
      else rbind (mapr (resolve_block (length (rp_sources p)) (rp_map p)) (rp_blocks p)) (\<lambda>blocks.
        if concat (map (map fr_id \<circ> bk_fragments) (rp_blocks p)) \<noteq> map fst (rp_map p)
        then Inl (ValueError ''reference_order'')
        else Inr \<lparr>ce_sources = rp_sources p, ce_blocks = blocks\<rparr>))"

section \<open>Runs of adjacent evidence\<close>

text \<open>The specification of the blocks: evidence cut where two neighbours are not adjacent.\<close>

fun adjacent_runs :: "grounding_evidence list \<Rightarrow> grounding_evidence list list" where
  "adjacent_runs [] = []"
| "adjacent_runs (x # xs) =
     (case adjacent_runs xs of
        [] \<Rightarrow> [[x]]
      | r # rs \<Rightarrow> if adjacent x (hd r) then (x # r) # rs else [x] # r # rs)"

definition consecutive :: "'a list \<Rightarrow> ('a \<times> 'a) list" where
  "consecutive xs = zip xs (tl xs)"

lemma concat_adjacent_runs: "concat (adjacent_runs xs) = xs"
  by (induction xs) (auto split: list.splits)

lemma adjacent_runs_nonempty: "r \<in> set (adjacent_runs xs) \<Longrightarrow> r \<noteq> []"
  by (induction xs arbitrary: r) (auto split: list.splits if_splits)

lemma adjacent_runs_eq_Nil [simp]: "adjacent_runs xs = [] \<longleftrightarrow> xs = []"
  by (cases xs) (auto split: list.splits)

lemma adjacent_runs_head: "\<exists>r rs. adjacent_runs (x # xs) = (x # r) # rs"
  by (auto split: list.splits)

lemma adjacent_runs_Cons2:
  "adjacent_runs (x # y # ys) =
     (if adjacent x y then (x # hd (adjacent_runs (y # ys))) # tl (adjacent_runs (y # ys)) else [x] # adjacent_runs (y # ys))"
proof -
  obtain r rs where "adjacent_runs (y # ys) = (y # r) # rs" using adjacent_runs_head by blast
  then show ?thesis by (simp del: adjacent_runs.simps(2) add: adjacent_runs.simps(2) [of x "y # ys"])
qed

lemma consecutive_simps [simp]:
  "consecutive [] = []" "consecutive [x] = []" "consecutive (x # y # ys) = (x, y) # consecutive (y # ys)"
  by (simp_all add: consecutive_def)

lemma adjacent_runs_pairs:
  "concat (map consecutive (adjacent_runs xs)) = filter (\<lambda>(x, y). adjacent x y) (consecutive xs)"
proof (induction xs rule: induct_list012)
  case (3 x y zs)
  obtain r rs where "adjacent_runs (y # zs) = (y # r) # rs" using adjacent_runs_head by blast
  with 3(2) show ?case by (simp del: adjacent_runs.simps(2) add: adjacent_runs_Cons2)
qed simp_all

lemma adjacent_runs_snoc:
  "adjacent_runs (xs @ [x]) =
     (if xs \<noteq> [] \<and> adjacent (last xs) x
      then butlast (adjacent_runs xs) @ [last (adjacent_runs xs) @ [x]]
      else adjacent_runs xs @ [[x]])"
proof (induction xs rule: induct_list012)
  case (3 y z zs)
  obtain r rs where r: "adjacent_runs (z # zs) = (z # r) # rs" using adjacent_runs_head by blast
  from 3(2) show ?case
    by (cases rs) (simp_all del: adjacent_runs.simps(2) add: adjacent_runs_Cons2 r)
qed simp_all

lemma reading_loop_run:
  "reading_loop spans (run @ [ge_id p]) (Some p) xs =
     spans @ filter (\<lambda>r. length r > 1)
       ((run @ map ge_id (hd (adjacent_runs (p # xs)))) # map (map ge_id) (tl (adjacent_runs (p # xs))))"
proof (induction xs arbitrary: spans run p)
  case (Cons x xs)
  obtain r rs where r: "adjacent_runs (x # xs) = (x # r) # rs" using adjacent_runs_head by blast
  show ?case
    using Cons [of spans "run @ [ge_id p]" x] Cons [of _ "[]" x]
    by (simp del: adjacent_runs.simps(2) add: adjacent_runs_Cons2 r)
qed simp

lemma contiguous_spans_runs:
  assumes "distinct (map ge_id evidence)"
  shows "contiguous_spans evidence = map (map ge_id) (filter (\<lambda>r. length r > 1) (adjacent_runs evidence))"
proof (cases evidence)
  case (Cons x xs)
  obtain r rs where r: "adjacent_runs (x # xs) = (x # r) # rs" using adjacent_runs_head by blast
  have "contiguous_spans evidence = reading_loop [] [] None evidence"
    using assms by (simp add: contiguous_spans_def distinct_remdups_id del: remdups_eq_nil_iff)
  also have "\<dots> = map (map ge_id) (filter (\<lambda>r. length r > 1) (adjacent_runs evidence))"
    using reading_loop_run [of "[]" "[]" x xs] Cons by (simp del: adjacent_runs.simps(2) add: r filter_map o_def)
  finally show ?thesis .
qed (simp add: contiguous_spans_def)

section \<open>The compact form\<close>

lemma consecutive_map: "consecutive (map f xs) = map (map_prod f f) (consecutive xs)"
  by (induction xs rule: induct_list012) simp_all

lemma consecutive_short: "length r \<le> 1 \<Longrightarrow> consecutive r = []"
  by (cases r) (simp_all add: consecutive_def)

lemma consecutive_set: "(x, y) \<in> set (consecutive xs) \<Longrightarrow> x \<in> set xs \<and> y \<in> set xs"
  by (induction xs rule: induct_list012) auto

lemma consecutive_snoc: "consecutive (xs @ [x]) = (if xs = [] then [] else consecutive xs @ [(last xs, x)])"
  by (induction xs rule: induct_list012) simp_all

lemma consecutive_prefix: "set (consecutive xs) \<subseteq> set (consecutive (xs @ ys))"
  by (induction ys rule: rev_induct) (auto simp: consecutive_snoc simp flip: append_assoc)

lemma adjacent_pairs_iff:
  assumes "distinct (map ge_id evidence)" "(x, y) \<in> set (consecutive evidence)"
  shows "(ge_id x, ge_id y) \<in> set (adjacent_pairs (contiguous_spans evidence)) \<longleftrightarrow> adjacent x y"
proof -
  have cut: "concat (map f (filter (\<lambda>r. length r > 1) rs)) = concat (map f rs)" if "\<And>r. length r \<le> 1 \<Longrightarrow> f r = []" for f :: "'x list \<Rightarrow> 'y list" and rs
    using that by (induction rs) auto
  have "adjacent_pairs (contiguous_spans evidence)
      = concat (map (map (map_prod ge_id ge_id) \<circ> consecutive) (filter (\<lambda>r. length r > 1) (adjacent_runs evidence)))"
    unfolding contiguous_spans_runs [OF assms(1)]
    by (simp add: adjacent_pairs_def consecutive_def [symmetric] consecutive_map o_def)
  also have "\<dots> = map (map_prod ge_id ge_id) (filter (\<lambda>(x, y). adjacent x y) (consecutive evidence))"
    unfolding adjacent_runs_pairs [symmetric] by (subst cut) (simp_all add: consecutive_short map_concat o_def)
  finally have pairs: "set (adjacent_pairs (contiguous_spans evidence))
      = map_prod ge_id ge_id ` {p \<in> set (consecutive evidence). case p of (x, y) \<Rightarrow> adjacent x y}" by simp
  have inj: "inj_on ge_id (set evidence)" using assms(1) by (simp add: distinct_map)
  have a: "adjacent x y" if "(ge_id x, ge_id y) \<in> map_prod ge_id ge_id ` {p \<in> set (consecutive evidence). case p of (x, y) \<Rightarrow> adjacent x y}"
  proof -
    from that obtain u v where uv: "(u, v) \<in> set (consecutive evidence)" "adjacent u v" "ge_id x = ge_id u" "ge_id y = ge_id v" by auto
    with inj consecutive_set [OF uv(1)] consecutive_set [OF assms(2)] have "x = u \<and> y = v" by (auto dest: inj_onD)
    with uv(2) show ?thesis by simp
  qed
  have b: "(ge_id x, ge_id y) \<in> map_prod ge_id ge_id ` {p \<in> set (consecutive evidence). case p of (x, y) \<Rightarrow> adjacent x y}"
    if "adjacent x y" using that assms(2) by (force intro: image_eqI [where x = "(x, y)"])
  show ?thesis unfolding pairs by (rule iffI [OF a b])
qed

text \<open>The state after a part of the evidence: every identity has its entry, every run its block.\<close>

definition pack_inv :: "grounding_evidence list \<Rightarrow> pack_state \<Rightarrow> bool" where
  "pack_inv xs st \<longleftrightarrow>
     pk_refs st = zip (map fst (pk_refs st)) [0..<length (pk_sources st)]
     \<and> length (pk_refs st) = length (pk_sources st)
     \<and> distinct (map fst (pk_refs st)) \<and> fst ` set (pk_refs st) = source_scope_of ` set xs
     \<and> (\<forall>x\<in>set xs. \<forall>n. (source_scope_of x, n) \<in> set (pk_refs st) \<longrightarrow> n < length (pk_sources st) \<and> pk_sources st ! n = entry_of x)
     \<and> map bk_fragments (pk_blocks st) = map (map fragment_of) (adjacent_runs xs)
     \<and> list_all2 (\<lambda>b r. \<forall>x\<in>set r. (source_scope_of x, bk_source b) \<in> set (pk_refs st)) (pk_blocks st) (adjacent_runs xs)
     \<and> pk_previous st = (if xs = [] then None else Some (ge_id (last xs)))"

lemma entry_of_identity: "source_scope_of x = source_scope_of y \<Longrightarrow> entry_of x = entry_of y"
  by (simp add: source_scope_of_def entry_of_def)

text \<open>The references after an item was looked up and perhaps added.\<close>

lemma refs_after:
  assumes inv: "pack_inv xs st"
    and refs: "refs = (if map_of (pk_refs st) (source_scope_of x) \<noteq> None then pk_refs st
      else pk_refs st @ [(source_scope_of x, length (pk_sources st))])"
    and sources: "sources = (if map_of (pk_refs st) (source_scope_of x) \<noteq> None then pk_sources st else pk_sources st @ [entry_of x])"
  shows "refs = zip (map fst refs) [0..<length sources]" "length refs = length sources" "distinct (map fst refs)"
    "fst ` set refs = source_scope_of ` set (xs @ [x])" "set (pk_refs st) \<subseteq> set refs"
    "\<forall>y\<in>set (xs @ [x]). \<forall>n. (source_scope_of y, n) \<in> set refs \<longrightarrow> n < length sources \<and> sources ! n = entry_of y"
    "(source_scope_of x, the (map_of refs (source_scope_of x))) \<in> set refs"
proof -
  note I = inv [unfolded pack_inv_def]
  have refset: "fst ` set (pk_refs st) = source_scope_of ` set xs"
    and entries: "\<forall>x\<in>set xs. \<forall>n. (source_scope_of x, n) \<in> set (pk_refs st) \<longrightarrow> n < length (pk_sources st) \<and> pk_sources st ! n = entry_of x"
    using I by blast+
  show "refs = zip (map fst refs) [0..<length sources]" using I unfolding refs sources
    by (cases "map_of (pk_refs st) (source_scope_of x)") (simp_all del: zip_map_fst_snd)
  show "length refs = length sources" "distinct (map fst refs)" "set (pk_refs st) \<subseteq> set refs"
    using I unfolding refs sources by (auto simp: map_of_eq_None_iff)
  show "fst ` set refs = source_scope_of ` set (xs @ [x])"
    using I unfolding refs by (auto simp: map_of_eq_None_iff)
  show "\<forall>y\<in>set (xs @ [x]). \<forall>n. (source_scope_of y, n) \<in> set refs \<longrightarrow> n < length sources \<and> sources ! n = entry_of y"
  proof (intro ballI allI impI)
    fix y n assume y: "y \<in> set (xs @ [x])" "(source_scope_of y, n) \<in> set refs"
    show "n < length sources \<and> sources ! n = entry_of y"
    proof (cases "(source_scope_of y, n) \<in> set (pk_refs st)")
      case True
      then have "source_scope_of y \<in> fst ` set (pk_refs st)" by force
      then obtain z where z: "z \<in> set xs" "source_scope_of y = source_scope_of z" unfolding refset by auto
      from entries z(1) True have "n < length (pk_sources st) \<and> pk_sources st ! n = entry_of z" unfolding z(2) by blast
      with entry_of_identity [OF z(2)] show ?thesis unfolding sources by (simp add: nth_append)
    next
      case False
      with y(2) have new: "map_of (pk_refs st) (source_scope_of x) = None" and n: "source_scope_of y = source_scope_of x" "n = length (pk_sources st)"
        unfolding refs by (auto split: if_splits)
      from new n(2) entry_of_identity [OF n(1)] show ?thesis unfolding sources by simp
    qed
  qed
  show "(source_scope_of x, the (map_of refs (source_scope_of x))) \<in> set refs"
  proof -
    have "map_of refs (source_scope_of x) \<noteq> None" unfolding refs by (auto simp: map_of_eq_None_iff)
    then show ?thesis by (auto dest: map_of_SomeD)
  qed
qed

lemma last_last_run: "xs \<noteq> [] \<Longrightarrow> last (last (adjacent_runs xs)) = last xs"
  by (cases xs rule: rev_cases) (simp_all add: adjacent_runs_snoc)

lemma list_all2_last:
  "list_all2 P xs ys \<Longrightarrow> xs \<noteq> [] \<Longrightarrow> list_all2 P (butlast xs) (butlast ys) \<and> P (last xs) (last ys)"
  by (frule list_all2_lengthD, cases xs rule: rev_cases; cases ys rule: rev_cases) (simp_all add: list_all2_append)

lemma pack_step_inv:
  assumes inv: "pack_inv xs st" and d: "distinct (map ge_id evidence)" and ev: "evidence = xs @ x # ys"
  shows "pack_inv (xs @ [x]) (pack_step (adjacent_pairs (contiguous_spans evidence)) x st)"
proof -
  let ?pairs = "adjacent_pairs (contiguous_spans evidence)"
  let ?new = "pack_step ?pairs x st"
  note I = inv [unfolded pack_inv_def]
  have parts: "pk_refs ?new = (if map_of (pk_refs st) (source_scope_of x) \<noteq> None then pk_refs st
      else pk_refs st @ [(source_scope_of x, length (pk_sources st))])"
    "pk_sources ?new = (if map_of (pk_refs st) (source_scope_of x) \<noteq> None then pk_sources st else pk_sources st @ [entry_of x])"
    "pk_previous ?new = Some (ge_id x)"
    by (simp_all add: pack_step_def Let_def)
  note R = refs_after [OF inv parts(1,2)]
  let ?joins = "case pk_previous st of None \<Rightarrow> False | Some p \<Rightarrow> (p, ge_id x) \<in> set ?pairs"
  have blocks: "pk_blocks ?new = (if ?joins then add_fragment (fragment_of x) (pk_blocks st)
      else pk_blocks st @ [\<lparr>bk_source = the (map_of (pk_refs ?new) (source_scope_of x)), bk_fragments = [fragment_of x]\<rparr>])"
    by (simp add: pack_step_def Let_def)
  have joins: "?joins \<longleftrightarrow> xs \<noteq> [] \<and> adjacent (last xs) x"
  proof (cases "xs = []")
    case False
    then have "(last xs, x) \<in> set (consecutive evidence)"
      using consecutive_prefix [of "xs @ [x]" ys] ev by (simp add: consecutive_snoc)
    with adjacent_pairs_iff [OF d] False I show ?thesis by simp
  qed (use I in simp)
  have "map bk_fragments (pk_blocks ?new) = map (map fragment_of) (adjacent_runs (xs @ [x]))
    \<and> list_all2 (\<lambda>b r. \<forall>x\<in>set r. (source_scope_of x, bk_source b) \<in> set (pk_refs ?new)) (pk_blocks ?new) (adjacent_runs (xs @ [x]))"
  proof (cases ?joins)
    case True
    then have xs: "xs \<noteq> []" "adjacent (last xs) x" using joins by blast+
    let ?bs = "pk_blocks st" and ?rs = "adjacent_runs xs"
    have len: "length ?bs = length ?rs" using I by (metis length_map)
    with xs(1) have ne: "?bs \<noteq> []" "?rs \<noteq> []" by auto
    have all: "list_all2 (\<lambda>b r. \<forall>x\<in>set r. (source_scope_of x, bk_source b) \<in> set (pk_refs ?new)) ?bs ?rs"
      using I R(5) by (auto elim!: list_all2_mono)
    have frs: "map bk_fragments (butlast ?bs) = map (map fragment_of) (butlast ?rs)" "bk_fragments (last ?bs) = map fragment_of (last ?rs)"
      using I ne by (metis map_butlast, metis last_map)
    have lastx: "last ?rs \<noteq> []" "last (last ?rs) = last xs"
      using adjacent_runs_nonempty [OF last_in_set [OF ne(2)]] last_last_run [OF xs(1)] by blast+
    have "last xs \<in> set (last ?rs)" using last_in_set [OF lastx(1)] unfolding lastx(2) .
    with conjunct2 [OF list_all2_last [OF all ne(1)]]
    have "(source_scope_of (last xs), bk_source (last ?bs)) \<in> set (pk_refs ?new)" by blast
    moreover have "source_scope_of x = source_scope_of (last xs)" using xs(2) by (simp add: adjacent_def)
    ultimately show ?thesis
      using True xs list_all2_last [OF all ne(1)] frs
      by (simp add: blocks add_fragment_def adjacent_runs_snoc list_all2_appendI)
  next
    case False
    have "list_all2 (\<lambda>b r. \<forall>x\<in>set r. (source_scope_of x, bk_source b) \<in> set (pk_refs ?new)) (pk_blocks st) (adjacent_runs xs)"
      using I R(5) by (auto elim!: list_all2_mono)
    with False joins R(7) I show ?thesis by (auto simp: blocks adjacent_runs_snoc list_all2_appendI)
  qed
  with R(1-4,6) parts(3) show ?thesis by (simp add: pack_inv_def)
qed

lemma pack_inv_start: "pack_inv [] \<lparr>pk_refs = [], pk_sources = [], pk_blocks = [], pk_previous = None\<rparr>"
  by (simp add: pack_inv_def)

lemma pack_fold_inv:
  assumes "distinct (map ge_id evidence)" "pack_inv xs st" "evidence = xs @ ys"
  shows "pack_inv evidence (fold (pack_step (adjacent_pairs (contiguous_spans evidence))) ys st)"
  using assms(2,3)
proof (induction ys arbitrary: xs st)
  case (Cons y ys)
  from Cons.IH [OF pack_step_inv [OF Cons.prems(1) assms(1) Cons.prems(2)]] Cons.prems(2) show ?case by simp
qed simp

lemma remdups_length_distinct: "length (remdups xs) = length xs \<Longrightarrow> distinct xs"
  by (simp add: length_remdups_card_conv card_distinct)

lemma pack_compact_Inr:
  assumes "pack_compact_evidence evidence = Inr c"
  obtains st where "distinct (map ge_id evidence)" "pack_inv evidence st" "ce_sources c = pk_sources st" "ce_blocks c = pk_blocks st"
proof -
  from assms have d: "distinct (map ge_id evidence)"
    by (auto simp: pack_compact_evidence_def length_remdups_card_conv card_distinct split: if_splits)
  show thesis
    by (rule that [OF d pack_fold_inv [OF d pack_inv_start]]) (use assms in \<open>auto simp: pack_compact_evidence_def Let_def split: if_splits\<close>)
qed

lemma pack_compact_ok: "distinct (map ge_id evidence) \<Longrightarrow> \<exists>c. pack_compact_evidence evidence = Inr c"
  by (simp add: pack_compact_evidence_def distinct_remdups_id Let_def)

section \<open>References and back\<close>

lemma reference_name_inj: "reference_name i = reference_name j \<Longrightarrow> i = j"
  using dec_nat_inj [of "i + 1" "j + 1"] by (simp add: reference_name_def)

lemma distinct_reference_names: "distinct (map reference_name [0..<n])"
  by (auto simp: distinct_map intro: inj_onI reference_name_inj)

lemma validated_zip:
  assumes "distinct us" "length us \<le> max_reference_evidence"
  shows "validated_map (zip (map reference_name [0..<length us]) us) = Inr (zip (map reference_name [0..<length us]) us)"
  using assms by (simp add: validated_map_def distinct_remdups_id)

lemma validated_map_Inr:
  assumes "validated_map m = Inr m'"
  shows "m' = m \<and> distinct (map fst m) \<and> distinct (map snd m) \<and> length m \<le> max_reference_evidence"
proof -
  from assms have parts: "m' = m" "map fst m = map reference_name [0..<length m]"
      "length (remdups (map snd m)) = length (map snd m)" "length m \<le> max_reference_evidence"
    by (auto simp: validated_map_def split: if_splits)
  have "distinct (map fst m)" unfolding parts(2) by (rule distinct_reference_names)
  moreover have "distinct (map snd m)" by (rule remdups_length_distinct [OF parts(3)])
  ultimately show ?thesis using parts(1,4) by simp
qed

lemma map_of_swapped:
  "distinct (map snd m) \<Longrightarrow> (k, v) \<in> set m \<Longrightarrow> map_of (map (\<lambda>(k, v). (v, k)) m) v = Some k"
  by (intro map_of_is_SomeI) (force simp: o_def case_prod_beta)+

lemma resolve_single:
  assumes "validated_map m = Inr m" "(k, v) \<in> set m"
  shows "resolve_evidence_refs [k] m = Inr [v]"
proof -
  have "map_of m k = Some v" using validated_map_Inr [OF assms(1)] assms(2) by simp
  with assms(1) show ?thesis by (simp add: resolve_evidence_refs_def)
qed

lemma row_and_back:
  assumes m: "validated_map m = Inr m" and x: "fr_id x \<in> set (map snd m)"
  obtains r where "(r, fr_id x) \<in> set m" "reference_row m x = Inr (rename_fragment (\<lambda>_. r) x)"
    "resolve_row m (rename_fragment (\<lambda>_. r) x) = Inr x"
proof -
  from x obtain r where r: "(r, fr_id x) \<in> set m" by auto
  have "distinct (map snd m)" using validated_map_Inr [OF m] by blast
  from map_of_swapped [OF this r] have row: "reference_row m x = Inr (rename_fragment (\<lambda>_. r) x)" by (simp add: reference_row_def)
  have "resolve_row m (rename_fragment (\<lambda>_. r) x) = Inr x"
    using resolve_single [OF m r] by (simp add: resolve_row_def rename_fragment_def)
  with that r row show thesis by blast
qed

lemma mapr_all: "(\<And>x. x \<in> set xs \<Longrightarrow> f (g x) = Inr (h x)) \<Longrightarrow> mapr f (map g xs) = Inr (map h xs)"
  by (induction xs) simp_all

text \<open>The name of an identifier, and the block with its names.\<close>

definition name_in :: "reference_map \<Rightarrow> uuid \<Rightarrow> pystr" where
  "name_in m u = the (map_of (map (\<lambda>(k, v). (v, k)) m) u)"

definition named_block :: "reference_map \<Rightarrow> uuid evidence_block \<Rightarrow> pystr evidence_block" where
  "named_block m b = \<lparr>bk_source = bk_source b, bk_fragments = map (rename_fragment (name_in m)) (bk_fragments b)\<rparr>"

lemma named_row:
  assumes m: "validated_map m = Inr m" and x: "fr_id x \<in> set (map snd m)"
  shows "reference_row m x = Inr (rename_fragment (name_in m) x)" "resolve_row m (rename_fragment (name_in m) x) = Inr x"
proof -
  obtain r where r: "(r, fr_id x) \<in> set m" "reference_row m x = Inr (rename_fragment (\<lambda>_. r) x)"
      "resolve_row m (rename_fragment (\<lambda>_. r) x) = Inr x"
    by (rule row_and_back [OF m x])
  have "name_in m (fr_id x) = r" using validated_map_Inr [OF m] map_of_swapped [OF _ r(1)] by (simp add: name_in_def)
  then have "rename_fragment (name_in m) x = rename_fragment (\<lambda>_. r) x" by (simp add: rename_fragment_def)
  with r show "reference_row m x = Inr (rename_fragment (name_in m) x)" "resolve_row m (rename_fragment (name_in m) x) = Inr x"
    by simp_all
qed

lemma named_block_and_back:
  assumes m: "validated_map m = Inr m" and b: "\<forall>x\<in>set (bk_fragments b). fr_id x \<in> set (map snd m)"
    and n: "bk_source b < n" "bk_fragments b \<noteq> []"
  shows "reference_block m b = Inr (named_block m b)" "resolve_block n m (named_block m b) = Inr b"
proof -
  have "mapr (reference_row m) (map (\<lambda>x. x) (bk_fragments b)) = Inr (map (rename_fragment (name_in m)) (bk_fragments b))"
    by (rule mapr_all) (use b named_row(1) [OF m] in blast)
  then show "reference_block m b = Inr (named_block m b)" by (simp add: reference_block_def named_block_def)
  have "mapr (resolve_row m) (map (rename_fragment (name_in m)) (bk_fragments b)) = Inr (map (\<lambda>x. x) (bk_fragments b))"
    by (rule mapr_all) (use b named_row(2) [OF m] in blast)
  then show "resolve_block n m (named_block m b) = Inr b" using n by (simp add: resolve_block_def named_block_def)
qed

lemma pack_blocks_facts:
  assumes "pack_inv evidence st"
  shows "concat (map bk_fragments (pk_blocks st)) = map fragment_of evidence"
    "b \<in> set (pk_blocks st) \<Longrightarrow> bk_fragments b \<noteq> [] \<and> bk_source b < length (pk_sources st)
       \<and> (\<exists>r\<in>set (adjacent_runs evidence). bk_fragments b = map fragment_of r
            \<and> (\<forall>x\<in>set r. pk_sources st ! bk_source b = entry_of x))"
proof -
  let ?bs = "pk_blocks st" and ?rs = "adjacent_runs evidence"
  have frs: "map bk_fragments ?bs = map (map fragment_of) ?rs"
    and refs: "list_all2 (\<lambda>b r. \<forall>x\<in>set r. (source_scope_of x, bk_source b) \<in> set (pk_refs st)) ?bs ?rs"
    and entries: "\<forall>x\<in>set evidence. \<forall>n. (source_scope_of x, n) \<in> set (pk_refs st) \<longrightarrow> n < length (pk_sources st) \<and> pk_sources st ! n = entry_of x"
    using assms unfolding pack_inv_def by blast+
  show "concat (map bk_fragments ?bs) = map fragment_of evidence"
    unfolding frs map_concat [symmetric] concat_adjacent_runs ..
  assume "b \<in> set ?bs"
  then obtain k where k: "k < length ?bs" "b = ?bs ! k" by (metis in_set_conv_nth)
  with list_all2_lengthD [OF refs] have k': "k < length ?rs" by simp
  let ?r = "?rs ! k"
  have r: "?r \<in> set ?rs" using k' by simp
  have "bk_fragments b = map fragment_of ?r" using frs k k' by (metis nth_map)
  moreover have sub: "set ?r \<subseteq> set evidence" using r concat_adjacent_runs [of evidence] by (metis UN_upper set_concat)
  have each: "bk_source b < length (pk_sources st) \<and> pk_sources st ! bk_source b = entry_of x" if "x \<in> set ?r" for x
    using list_all2_nthD [OF refs k(1)] k(2) that sub entries by blast
  moreover have "?r \<noteq> []" using adjacent_runs_nonempty r by blast
  moreover from this each have "bk_source b < length (pk_sources st)" by (meson last_in_set)
  ultimately show "bk_fragments b \<noteq> [] \<and> bk_source b < length (pk_sources st)
       \<and> (\<exists>r\<in>set ?rs. bk_fragments b = map fragment_of r \<and> (\<forall>x\<in>set r. pk_sources st ! bk_source b = entry_of x))"
    using r by auto
qed

lemma names_in_order:
  assumes "distinct us"
  shows "map (name_in (zip (map reference_name [0..<length us]) us)) us = map reference_name [0..<length us]"
proof (rule nth_equalityI)
  fix k assume "k < length (map (name_in (zip (map reference_name [0..<length us]) us)) us)"
  then have "(reference_name k, us ! k) \<in> set (zip (map reference_name [0..<length us]) us)" "k < length us"
    by (force simp: in_set_zip)+
  with assms map_of_swapped [of "zip (map reference_name [0..<length us]) us"]
  show "map (name_in (zip (map reference_name [0..<length us]) us)) us ! k = map reference_name [0..<length us] ! k"
    by (simp add: name_in_def)
qed simp

lemma reference_round_trip:
  assumes d: "distinct (map ge_id evidence)" and n: "length evidence \<le> max_reference_evidence"
  obtains c p where "pack_compact_evidence evidence = Inr c" "pack_reference_evidence evidence = Inr p"
    "unpack_reference_evidence p = Inr c" "reference_ids p = map ge_id evidence"
    "map fst (rp_map p) = map reference_name [0..<length evidence]"
proof -
  obtain c where c: "pack_compact_evidence evidence = Inr c" using pack_compact_ok [OF d] by blast
  from c obtain st where st: "pack_inv evidence st" "ce_sources c = pk_sources st" "ce_blocks c = pk_blocks st"
    by (rule pack_compact_Inr)
  let ?us = "map ge_id evidence"
  let ?m = "zip (map reference_name [0..<length ?us]) ?us"
  have m: "validated_map ?m = Inr ?m" using validated_zip [OF d] n by simp
  have known: "fr_id x \<in> set (map snd ?m)" if "b \<in> set (ce_blocks c)" "x \<in> set (bk_fragments b)" for b x
  proof -
    from that st(3) have "x \<in> set (concat (map bk_fragments (pk_blocks st)))" by auto
    then have "x \<in> fragment_of ` set evidence" unfolding pack_blocks_facts(1) [OF st(1)] by simp
    then show ?thesis by (auto simp: fragment_of_def)
  qed
  have blk: "reference_block ?m b = Inr (named_block ?m b)" "resolve_block (length (ce_sources c)) ?m (named_block ?m b) = Inr b"
    if "b \<in> set (ce_blocks c)" for b
    using named_block_and_back [OF m, of b "length (ce_sources c)"] known [OF that] pack_blocks_facts(2) [OF st(1), of b] that st(2,3)
    by simp_all
  have "mapr (reference_block ?m) (map (\<lambda>b. b) (ce_blocks c)) = Inr (map (named_block ?m) (ce_blocks c))"
    by (rule mapr_all) (use blk(1) in blast)
  then have named: "mapr (reference_block ?m) (ce_blocks c) = Inr (map (named_block ?m) (ce_blocks c))" by simp
  have "mapr (resolve_block (length (ce_sources c)) ?m) (map (named_block ?m) (ce_blocks c)) = Inr (map (\<lambda>b. b) (ce_blocks c))"
    by (rule mapr_all) (use blk(2) in blast)
  then have resolved: "mapr (resolve_block (length (ce_sources c)) ?m) (map (named_block ?m) (ce_blocks c)) = Inr (ce_blocks c)" by simp
  have "concat (map (map fr_id \<circ> bk_fragments) (map (named_block ?m) (ce_blocks c)))
      = map (name_in ?m \<circ> fr_id) (concat (map bk_fragments (pk_blocks st)))"
    by (simp add: st(3) named_block_def map_concat rename_fragment_def o_def)
  also have "\<dots> = map (name_in ?m) ?us" unfolding pack_blocks_facts(1) [OF st(1)] by (simp add: fragment_of_def)
  also have "\<dots> = map fst ?m" using names_in_order [OF d] by simp
  finally have order: "concat (map (map fr_id \<circ> bk_fragments) (map (named_block ?m) (ce_blocks c))) = map fst ?m" .
  let ?p = "\<lparr>rp_columns = fragment_columns, rp_sources = ce_sources c, rp_blocks = map (named_block ?m) (ce_blocks c), rp_map = ?m\<rparr>"
  have "pack_reference_evidence evidence = Inr ?p"
    using n c m named by (simp add: pack_reference_evidence_def build_reference_map_def)
  moreover have "unpack_reference_evidence ?p = Inr c"
    using resolved order by (simp add: unpack_reference_evidence_def del: map_map)
  ultimately show thesis by (rule that [OF c]) (simp_all add: reference_ids_def)
qed

end
