(* ===== verification/Exact_Values.thy ===== *)
theory Exact_Values
  imports Grounding_Evidence
begin

text \<open>
  The exact values of a text (\<^verbatim>\<open>generation/exact_values.py\<close>) and the business days a source defines
  (\<^verbatim>\<open>generation/relative_day_citations.py\<close>).  A regular expression with groups is the list of its
  matches at a position, in the order the backtracking matcher tries them.  Korean words are lists of
  code points.
\<close>

section \<open>Matching\<close>

text \<open>\<^verbatim>\<open>finditer\<close> for a matcher whose matches are not empty: start, groups and end of every match.\<close>

function scan_matches :: "(nat \<Rightarrow> ('m \<times> nat) list) \<Rightarrow> nat \<Rightarrow> nat \<Rightarrow> (nat \<times> 'm \<times> nat) list" where
  "scan_matches f n i =
     (if i > n then []
      else case f i of
          [] \<Rightarrow> scan_matches f n (Suc i)
        | (m, e) # _ \<Rightarrow> (i, m, e) # scan_matches f n (max e (Suc i)))"
  by pat_completeness auto
termination by (relation "measure (\<lambda>(f, n, i). Suc n - i)") auto

declare scan_matches.simps [simp del]

lemma scan_matches_sound: "(i, m, e) \<in> set (scan_matches f n k) \<Longrightarrow> (m, e) \<in> set (f i) \<and> k \<le> i \<and> i \<le> n"
proof (induction f n k rule: scan_matches.induct)
  case (1 f n k)
  show ?case
  proof (cases "f k")
    case Nil
    with 1 show ?thesis by (auto simp: scan_matches.simps [of f n k] split: if_splits)
  next
    case (Cons p ps)
    obtain m' e' where p: "p = (m', e')" by force
    from 1(3) Cons p have k: "k \<le> n" and "(i, m, e) = (k, m', e') \<or> (i, m, e) \<in> set (scan_matches f n (max e' (Suc k)))"
      by (auto simp: scan_matches.simps [of f n k] split: if_splits)
    from this(2) show ?thesis
    proof
      assume later: "(i, m, e) \<in> set (scan_matches f n (max e' (Suc k)))"
      have "\<not> n < k" using k by simp
      from 1(2) [OF this Cons p [symmetric] later] show ?thesis by simp
    qed (use k Cons p in simp)
  qed
qed

definition is_09 :: "nat \<Rightarrow> bool" where
  "is_09 c \<longleftrightarrow> 48 \<le> c \<and> c \<le> 57"

definition is_letter :: "nat \<Rightarrow> bool" where
  "is_letter c \<longleftrightarrow> (65 \<le> c \<and> c \<le> 90) \<or> (97 \<le> c \<and> c \<le> 122)"

definition is_word_character :: "nat \<Rightarrow> bool" where
  "is_word_character c \<longleftrightarrow> is_letter c \<or> is_09 c \<or> c = 95"

definition is_hangul :: "nat \<Rightarrow> bool" where
  "is_hangul c \<longleftrightarrow> 44032 \<le> c \<and> c \<le> 55203"

definition is_sign :: "nat \<Rightarrow> bool" where
  "is_sign c \<longleftrightarrow> c = 43 \<or> c = 45 \<or> c = 8722"

definition spaces :: pattern where
  "spaces = Many py_isspace"

definition sequence_of :: "pystr \<Rightarrow> pystr \<Rightarrow> pattern" where
  "sequence_of a b = in_turn [Exactly a, spaces, Exactly b]"

section \<open>Exact values\<close>

datatype value_payload = Calendar nat nat nat | Quantity rat | Spelling pystr

type_synonym exact_value = "pystr \<times> value_payload"

definition one_or_two_digits :: pattern where
  "one_or_two_digits = Then (OneOf is_decimal) (optionally (OneOf is_decimal))"

definition four_digits :: pattern where
  "four_digits = in_turn [OneOf is_decimal, OneOf is_decimal, OneOf is_decimal, OneOf is_decimal]"

definition date_pattern :: pattern where
  "date_pattern =
     Then
       (Either
         (in_turn [four_digits, spaces, Exactly [45380], spaces, one_or_two_digits, spaces, Exactly [50900], spaces,
            one_or_two_digits, spaces, Exactly [51068]])
         (in_turn [four_digits, Exactly [45], one_or_two_digits, Exactly [45], one_or_two_digits]))
       (NotAhead is_decimal)"

definition number_pattern :: pattern where
  "number_pattern =
     Then (optionally (Then (OneOf is_sign) spaces))
       (Either
         (in_turn [OneOf is_decimal, Many (\<lambda>c. is_decimal c \<or> c = 44), optionally (Then (Exactly [46]) (some_of is_decimal))])
         (Then (Exactly [46]) (some_of is_decimal)))"

definition percent :: pattern where
  "percent = OneOf (\<lambda>c. c = 37 \<or> c = 65285)"

definition unit_pattern :: pattern where
  "unit_pattern =
     one_of
       [in_turn [percent, spaces, OneOf (\<lambda>c. c = 112 \<or> c = 80)],
        in_turn [percent, spaces, Exactly [54252, 51064, 53944]],
        sequence_of [54140, 49468, 53944] [54252, 51064, 53944],
        Exactly [54140, 49468, 53944], percent,
        sequence_of [50613] [50896], sequence_of [47564] [50896], Exactly [50896],
        Exactly [45380], Exactly [44060, 50900], Exactly [54924], Exactly [47749]]"

text \<open>A date, or a number with the end of it and the start of its unit.\<close>

datatype value_groups = DateGroup | NumberGroup nat nat

definition value_matches :: "pystr \<Rightarrow> nat \<Rightarrow> (value_groups \<times> nat) list" where
  "value_matches s i =
     (if holds_before (\<lambda>c. is_decimal c \<or> c = 46) s i then []
      else map (\<lambda>e. (DateGroup, e)) (pattern_ends date_pattern s i)
           @ [(NumberGroup j k, e). j \<leftarrow> pattern_ends number_pattern s i, k \<leftarrow> pattern_ends spaces s j,
                e \<leftarrow> pattern_ends unit_pattern s k])"

text \<open>\<^verbatim>\<open>re.findall(r"\d+", s)\<close>, with the run read so far.\<close>

fun digit_runs :: "pystr \<Rightarrow> pystr \<Rightarrow> pystr list" where
  "digit_runs w [] = (if w = [] then [] else [w])"
| "digit_runs w (c # s) =
     (if is_decimal c then digit_runs (w @ [c]) s else (if w = [] then digit_runs [] s else w # digit_runs [] s))"

definition days_in_month :: "nat \<Rightarrow> nat \<Rightarrow> nat" where
  "days_in_month y m =
     (if m = 2 then (if y mod 4 = 0 \<and> (y mod 100 \<noteq> 0 \<or> y mod 400 = 0) then 29 else 28)
      else if m \<in> {4, 6, 9, 11} then 30 else 31)"

definition is_date :: "nat \<Rightarrow> nat \<Rightarrow> nat \<Rightarrow> bool" where
  "is_date y m d \<longleftrightarrow> 1 \<le> y \<and> y \<le> 9999 \<and> 1 \<le> m \<and> m \<le> 12 \<and> 1 \<le> d \<and> d \<le> days_in_month y m"

text \<open>The pattern of a date has three groups of digits; a day the calendar lacks keeps its spelling.\<close>

definition date_value :: "pystr \<Rightarrow> exact_value" where
  "date_value calendar =
     (case map decimal_digits (digit_runs [] calendar) of
        [y, m, d] \<Rightarrow> if is_date y m d then (lit ''date'', Calendar y m d) else (lit ''literal-date'', Spelling calendar)
      | _ \<Rightarrow> (lit ''literal-date'', Spelling calendar))"

definition without_spaces :: "pystr \<Rightarrow> pystr" where
  "without_spaces s = filter (\<lambda>c. \<not> py_isspace c) s"

definition plain_minus :: "pystr \<Rightarrow> pystr" where
  "plain_minus s = map (\<lambda>c. if c = 8722 then 45 else c) s"

definition unit_alias :: "pystr \<Rightarrow> pystr" where
  "unit_alias u =
     (if u = [54140, 49468, 53944] then [37]
      else if u \<in> {[54140, 49468, 53944, 54252, 51064, 53944], [37, 54252, 51064, 53944], [37, 80]} then [37, 112]
      else u)"

definition canonical_unit :: "pystr \<Rightarrow> pystr" where
  "canonical_unit s = unit_alias (map (\<lambda>c. if c = 65285 then 37 else c) (without_spaces s))"

text \<open>\<^verbatim>\<open>_GROUPED_NUMBER.fullmatch\<close>.\<close>

definition grouped_number :: "pystr \<Rightarrow> bool" where
  "grouped_number n =
     (let b = (if n \<noteq> [] \<and> (hd n = 43 \<or> hd n = 45) then tl n else n);
          k = digit_run b 0; j = comma_groups b k
      in 1 \<le> k \<and> k \<le> 3 \<and> k < j
         \<and> (j = length b \<or> (b ! j = 46 \<and> j + 1 < length b \<and> digit_run b (j + 1) = length b - (j + 1))))"

definition number_value :: "pystr \<Rightarrow> pystr \<Rightarrow> exact_value" where
  "number_value number unit =
     (let n = plain_minus (without_spaces number); u = canonical_unit unit
      in if 44 \<in> set n \<and> \<not> grouped_number n then (lit ''literal-number:'' @ u, Spelling n)
         else (u, Quantity (decimal_value n)))"

definition value_of_match :: "pystr \<Rightarrow> nat \<times> value_groups \<times> nat \<Rightarrow> exact_value" where
  "value_of_match s m =
     (case m of (i, g, e) \<Rightarrow>
        (case g of DateGroup \<Rightarrow> date_value (slice s i e) | NumberGroup j k \<Rightarrow> number_value (slice s i j) (slice s k e)))"

text \<open>The look-behind and the look-ahead the lexical patterns share.\<close>

definition inside_word :: "pystr \<Rightarrow> nat \<Rightarrow> bool" where
  "inside_word s i \<longleftrightarrow> holds_before (\<lambda>c. is_word_character c \<or> c = 46 \<or> c = 44 \<or> c = 47 \<or> is_sign c) s i"

definition continues :: "pystr \<Rightarrow> nat \<Rightarrow> bool" where
  "continues s e \<longleftrightarrow>
     holds_at (\<lambda>c. is_word_character c \<or> c = 47 \<or> is_sign c) s e
     \<or> (holds_at (\<lambda>c. c = 46 \<or> c = 44) s e \<and> holds_at is_09 s (e + 1))"

definition short_matches :: "pystr \<Rightarrow> nat \<Rightarrow> (unit \<times> nat) list" where
  "short_matches s i =
     (if inside_word s i then []
      else map (Pair ()) (filter (\<lambda>e. \<not> continues s e) (pattern_ends (in_turn [some_of is_09, Exactly [45], some_of is_09]) s i)))"

definition business_day :: pystr where
  "business_day = [50689, 50629, 51068]"

record offset_groups =
  og_base :: nat
  og_sign :: nat
  og_offset :: pystr
  og_business :: bool

definition offset_matches :: "pystr \<Rightarrow> nat \<Rightarrow> (offset_groups \<times> nat) list" where
  "offset_matches s i =
     (if inside_word s i \<or> \<not> holds_at is_letter s i then []
      else [(\<lparr>og_base = s ! i, og_sign = s ! j, og_offset = slice s k e, og_business = business\<rparr>, stop).
              j \<leftarrow> pattern_ends spaces s (i + 1), holds_at (\<lambda>c. c = 43 \<or> c = 45) s j,
              k \<leftarrow> pattern_ends spaces s (j + 1),
              e \<leftarrow> pattern_ends (some_of is_09) s k, \<not> continues s e,
              (business, stop) \<leftarrow>
                map (Pair True) (pattern_ends (in_turn [spaces, Exactly business_day, NotAhead is_word_character]) s e) @ [(False, e)]])"

definition day_matches :: "pystr \<Rightarrow> nat \<Rightarrow> (pystr \<times> nat) list" where
  "day_matches s i =
     (if inside_word s i then []
      else [(slice s i j, e).
              j \<leftarrow> pattern_ends (Then (optionally (Then (OneOf is_sign) spaces)) (some_of is_09)) s i,
              e \<leftarrow> pattern_ends (in_turn [spaces, Exactly business_day, NotAhead is_word_character]) s j])"

definition offset_values :: "offset_groups \<Rightarrow> exact_value list" where
  "offset_values g =
     (lit ''relative-offset:'' @ [og_base g, og_sign g], Quantity (decimal_value (og_offset g)))
     # (if og_business g then [(business_day, Quantity (decimal_value (og_sign g # og_offset g)))] else [])"

text \<open>\<^verbatim>\<open>s.rstrip(" \t").endswith(("+", "-", "\<dots>"))\<close>, with the sign of the third U+2212.\<close>

definition ends_with_sign :: "pystr \<Rightarrow> bool" where
  "ends_with_sign s =
     (case dropWhile (\<lambda>c. c = 32 \<or> c = 9) (rev s) of [] \<Rightarrow> False | c # _ \<Rightarrow> is_sign c)"

definition day_values :: "pystr \<Rightarrow> nat \<times> pystr \<times> nat \<Rightarrow> exact_value list" where
  "day_values s m =
     (case m of (i, number, e) \<Rightarrow>
        if ends_with_sign (take i s) then []
        else [(business_day, Quantity (decimal_value (plain_minus (without_spaces number))))])"

definition exact_values :: "pystr \<Rightarrow> exact_value list" where
  "exact_values s =
     map (value_of_match s) (scan_matches (value_matches s) (length s) 0)
     @ map (\<lambda>(i, _, e). (lit ''literal-short-value'', Spelling (slice s i e))) (scan_matches (short_matches s) (length s) 0)
     @ concat (map (\<lambda>(_, g, _). offset_values g) (scan_matches (offset_matches s) (length s) 0))
     @ concat (map (day_values s) (scan_matches (day_matches s) (length s) 0))"

section \<open>Business days a source defines\<close>

definition plain_text :: "pystr \<Rightarrow> pystr" where
  "plain_text s = py_join [32] (py_split s)"

text \<open>Words of one class joined by single separators of another, with what was read last.\<close>

fun joined_words :: "(nat \<Rightarrow> bool) \<Rightarrow> (nat \<Rightarrow> bool) \<Rightarrow> bool \<Rightarrow> pystr \<Rightarrow> bool" where
  "joined_words w sep in_word [] = in_word"
| "joined_words w sep in_word (c # s) =
     (if w c then joined_words w sep True s else in_word \<and> sep c \<and> joined_words w sep False s)"

record row_groups =
  rg_anchor :: pystr
  rg_base :: nat
  rg_days :: pystr
  rg_attribute :: pystr

text \<open>\<^verbatim>\<open>_VALUE_ROW.fullmatch\<close>: its parts are of disjoint classes.\<close>

definition value_row :: "pystr \<Rightarrow> row_groups option" where
  "value_row t =
     (case dropWhile is_hangul t of
        space # base # mark # rest \<Rightarrow>
          (let days = takeWhile is_09 rest
           in case dropWhile is_09 rest of
               space' # attribute \<Rightarrow>
                 if takeWhile is_hangul t \<noteq> [] \<and> space = 32 \<and> is_letter base \<and> mark = 43
                    \<and> days \<noteq> [] \<and> hd days \<noteq> 48 \<and> space' = 32 \<and> joined_words is_hangul (\<lambda>c. c = 32) False attribute
                 then Some \<lparr>rg_anchor = takeWhile is_hangul t, rg_base = base, rg_days = days, rg_attribute = attribute\<rparr>
                 else None
             | _ \<Rightarrow> None)
      | _ \<Rightarrow> None)"

definition header_text :: "pystr \<Rightarrow> bool" where
  "header_text t = joined_words (\<lambda>c. is_hangul c \<or> is_letter c \<or> is_09 c) (\<lambda>c. c = 32 \<or> c = 95 \<or> c = 45) False t"

definition ambiguous_words :: "pattern list" where
  "ambiguous_words =
     map Exactly
       [[50506], [50500, 45768], [50500, 45772], [50630], [51228, 50808], [50696, 50808], [44221, 50864], [45800, 44],
        [46608, 45716], [54841, 51008]]"

text \<open>\<^verbatim>\<open>_DEFINITION.fullmatch\<close>: its base and its anchor.\<close>

definition definition_match :: "pystr \<Rightarrow> (nat \<times> pystr) option" where
  "definition_match t =
     (case [(t ! i, slice t j k).
              i \<leftarrow> pattern_ends
                (optionally (in_turn [Exactly [50689, 50629, 51068, 51008, 32],
                   some_of (\<lambda>c. is_hangul c \<or> is_letter c \<or> is_09 c \<or> c = 32),
                   Exactly [32, 45804, 47141, 49345, 32, 50629, 47924, 51068, 51060, 45796, 46, 32]])) t 0,
              holds_at is_letter t i,
              j \<leftarrow> pattern_ends (Then (Either (Exactly [45716]) (Exactly [51008])) (Exactly [32])) t (i + 1),
              k \<leftarrow> pattern_ends (some_of is_hangul) t j,
              e \<leftarrow> pattern_ends
                (in_turn [Either (Exactly [51060, 47728]) (Exactly [51060, 44256]), Exactly [44, 32, t ! i, 43, 78, 51008, 32],
                   Exactly (slice t j k),
                   Exactly [32, 45796, 51020, 32, 50689, 50629, 51068, 48512, 53552, 32, 78, 51068, 51012, 32, 49468, 45796, 46]]) t k,
              e = length t] of
        [] \<Rightarrow> None | g # _ \<Rightarrow> Some g)"

definition citation_scope ::
  "grounding_evidence \<Rightarrow> uuid \<times> uuid \<times> uuid option \<times> uuid option \<times> int option \<times> source_kind \<times> pystr option \<times> pystr list" where
  "citation_scope x =
     (ge_document x, ge_version x, ge_projection x, ge_chunk x, ge_page x, ge_kind x, ge_part x, ge_path x)"

text \<open>The edges of a box that is there, in the order left, top, right and bottom.\<close>

definition box_of :: "grounding_evidence \<Rightarrow> bounding_box" where
  "box_of x = (case ge_bbox x of Some b \<Rightarrow> b | None \<Rightarrow> (NaN, NaN, NaN, NaN))"

definition left_of :: "grounding_evidence \<Rightarrow> py_float" where "left_of x = fst (box_of x)"
definition top_of :: "grounding_evidence \<Rightarrow> py_float" where "top_of x = fst (snd (box_of x))"
definition right_of :: "grounding_evidence \<Rightarrow> py_float" where "right_of x = fst (snd (snd (box_of x)))"
definition bottom_of :: "grounding_evidence \<Rightarrow> py_float" where "bottom_of x = snd (snd (snd (box_of x)))"

definition valid_item :: "grounding_evidence \<Rightarrow> bool" where
  "valid_item x \<longleftrightarrow>
     \<not> (ge_kind x \<noteq> PDF_PAGE \<or> (case ge_page x of None \<Rightarrow> True | Some p \<Rightarrow> p < 1)
        \<or> ge_projection x = None \<or> ge_chunk x = None \<or> ge_cell x \<noteq> None \<or> ge_ordinal x < 0 \<or> ge_start x < 0
        \<or> ge_end x - ge_start x \<noteq> int (length (ge_text x)) \<or> ge_text x = []
        \<or> (case ge_bbox x of
             None \<Rightarrow> True
           | Some (a, b, c, d) \<Rightarrow> \<not> list_all is_finite [a, b, c, d] \<or> float_le c a \<or> float_le d b))"

fun in_page_order :: "grounding_evidence list \<Rightarrow> bool" where
  "in_page_order (x # y # xs) \<longleftrightarrow> \<not> (ge_ordinal x \<ge> ge_ordinal y \<or> ge_end x > ge_start y) \<and> in_page_order (y # xs)"
| "in_page_order _ \<longleftrightarrow> True"

definition valid_source :: "grounding_evidence list \<Rightarrow> bool" where
  "valid_source cited \<longleftrightarrow>
     cited \<noteq> [] \<and> length (remdups (map ge_id cited)) = length cited
     \<and> length (remdups (map citation_scope cited)) = 1
     \<and> list_all valid_item cited \<and> in_page_order cited"

fun definition_lines :: "grounding_evidence list \<Rightarrow> bool" where
  "definition_lines (x # y # xs) \<longleftrightarrow>
     ge_ordinal x + 1 = ge_ordinal y \<and> ge_end x = ge_start y \<and> left_of x = left_of y \<and> float_less (bottom_of x) (top_of y)
     \<and> definition_lines (y # xs)"
| "definition_lines _ \<longleftrightarrow> True"

definition definition_matches ::
  "grounding_evidence list \<Rightarrow> grounding_evidence \<Rightarrow> grounding_evidence \<Rightarrow> nat \<Rightarrow> pystr \<Rightarrow> bool" where
  "definition_matches def header label base anchor \<longleftrightarrow>
     def \<noteq> []
     \<and> list_all (\<lambda>x. \<not> (ge_ordinal x \<ge> ge_ordinal header \<or> float_le (top_of header) (bottom_of x)
                        \<or> float_le (left_of label) (left_of x))) def
     \<and> definition_lines def
     \<and> (let joined = plain_text (py_join [32] (map ge_text def))
        in definition_match joined = Some (base, anchor) \<and> \<not> any_found ambiguous_words joined)"

definition claim_pattern :: "row_groups \<Rightarrow> pystr \<Rightarrow> pattern" where
  "claim_pattern g product =
     in_turn
       [optionally (Either (Exactly [46160, 32, 44221, 50864, 32, 47784, 46160, 32])
          (in_turn [Exactly product, one_of [Exactly [51032], Exactly [51008], Exactly [45716]], Exactly [32]])),
        Exactly (rg_anchor g), optionally (Exactly [32, rg_base g, 51032]),
        Exactly [32, 45796, 51020, 32, 50689, 50629, 51068, 48512, 53552, 32], Exactly (rg_days g), spaces,
        Exactly [50689, 50629, 51068, 51012, 32, 49468, 32, rg_base g, 43], Exactly (rg_days g), Exactly [51032, 32],
        Exactly (rg_attribute g), Either (Exactly [51012]) (Exactly [47484]),
        Exactly [32, 51201, 50857, 54633, 45768, 45796], optionally (Exactly [46])]"

definition fullmatch :: "pattern \<Rightarrow> pystr \<Rightarrow> bool" where
  "fullmatch p s \<longleftrightarrow> length s \<in> set (pattern_ends p s 0)"

definition value_rows :: "grounding_evidence list \<Rightarrow> (grounding_evidence \<times> row_groups) list" where
  "value_rows cited = [(x, g). x \<leftarrow> cited, g \<leftarrow> (case value_row (plain_text (ge_text x)) of None \<Rightarrow> [] | Some g \<Rightarrow> [g])]"

definition row_labels :: "grounding_evidence list \<Rightarrow> grounding_evidence \<Rightarrow> grounding_evidence list" where
  "row_labels cited value_item =
     filter (\<lambda>x. top_of x = top_of value_item \<and> bottom_of x = bottom_of value_item
        \<and> float_less (right_of x) (left_of value_item)
        \<and> ge_ordinal x + 1 = ge_ordinal value_item \<and> ge_end x = ge_start value_item) cited"

definition row_headers :: "grounding_evidence list \<Rightarrow> grounding_evidence \<Rightarrow> grounding_evidence \<Rightarrow> grounding_evidence list" where
  "row_headers cited value_item label =
     filter (\<lambda>x. left_of x = left_of value_item \<and> float_less (bottom_of x) (top_of label)
        \<and> ge_ordinal x < ge_ordinal label \<and> header_text (plain_text (ge_text x)) \<and> \<not> any_found ambiguous_words (ge_text x)) cited"

definition defined_business_day_values :: "pystr \<Rightarrow> grounding_evidence list \<Rightarrow> exact_value list" where
  "defined_business_day_values claim cited =
     (if \<not> valid_source cited then []
      else case value_rows cited of
          [(v, g)] \<Rightarrow>
            (case row_labels cited v of
               [label] \<Rightarrow>
                 if plain_text (ge_text label) \<notin> {rg_attribute g, [51201, 50857, 32] @ rg_attribute g} then []
                 else
                   (case row_headers cited v label of
                      [header] \<Rightarrow>
                        (let table = {ge_id header, ge_id label, ge_id v};
                             def = filter (\<lambda>x. ge_id x \<notin> table) cited
                         in if \<not> definition_matches def header label (rg_base g) (rg_anchor g) then []
                            else if \<not> fullmatch (claim_pattern g (plain_text (ge_text header))) (plain_text claim) then []
                            else [(business_day, Quantity (decimal_value (rg_days g)))])
                    | _ \<Rightarrow> [])
             | _ \<Rightarrow> [])
        | _ \<Rightarrow> [])"

end
