(* ===== verification/Grounded_Answers.thy ===== *)
theory Grounded_Answers
  imports Exact_Values
begin

text \<open>
  What a generation provider returns (\<^verbatim>\<open>generation/domain.py\<close>), how it is read
  (\<^verbatim>\<open>generation/structured_output.py\<close>) and when it becomes an answer
  (\<^verbatim>\<open>generation/citation_validation.py\<close>).  The JSON reader is an argument; the numeric proofs of the
  third response schema are not part of the model.
\<close>

section \<open>Drafts and outcomes\<close>

datatype calculation_operation = PERCENTAGE_POINT_DIFFERENCE | CONVERT_KRW_UNIT

record calculation_proposal =
  cp_operation :: calculation_operation
  cp_operands :: "pystr list"
  cp_start :: int
  cp_end :: int

record generated_claim =
  gc_text :: pystr
  gc_ids :: "uuid list"
  gc_calculations :: "calculation_proposal list"

definition new_generated_claim :: "pystr \<Rightarrow> uuid list \<Rightarrow> calculation_proposal list \<Rightarrow> generated_claim res" where
  "new_generated_claim t ids calculations =
     (if strip t = [] then Inl (ValueError ''claim_text'')
      else Inr \<lparr>gc_text = strip t, gc_ids = ids, gc_calculations = calculations\<rparr>)"

record structured_generation =
  sg_version :: int
  sg_claims :: "generated_claim list"

definition new_structured_generation :: "int \<Rightarrow> generated_claim list \<Rightarrow> structured_generation res" where
  "new_structured_generation version claims =
     (if version < 1 then Inl (ValueError ''schema_version'') else Inr \<lparr>sg_version = version, sg_claims = claims\<rparr>)"

datatype generation_status = ANSWERED | NOT_REQUESTED | EVIDENCE_INSUFFICIENT | CITATION_VALIDATION_FAILED

text \<open>Of a citation without calculations and of an outcome the parts the validator sets.\<close>

record generated_citation =
  ct_index :: nat
  ct_ids :: "uuid list"
  ct_text :: pystr

record generation_outcome =
  go_status :: generation_status
  go_text :: "pystr option"
  go_citations :: "generated_citation list"
  go_reasons :: "pystr list"

section \<open>Reading a response\<close>

abbreviation invalid_output :: exn where
  "invalid_output \<equiv> ValueError ''structured_output''"

text \<open>\<^verbatim>\<open>_json_object\<close>: the errors of the reader are those it catches.\<close>

definition json_object :: "(pystr \<Rightarrow> py_value option) \<Rightarrow> pystr \<Rightarrow> (pystr \<times> py_value) list res" where
  "json_object loads content =
     (case loads content of Some (PDict d) \<Rightarrow> Inr d | _ \<Rightarrow> Inl invalid_output)"

definition keys_are :: "(pystr \<times> py_value) list \<Rightarrow> pystr list \<Rightarrow> bool" where
  "keys_are d ks \<longleftrightarrow> set (map fst d) = set ks"

definition read_identifiers :: "py_value list \<Rightarrow> uuid list res" where
  "read_identifiers vs =
     (if list_ex (\<lambda>v. case v of PStr _ \<Rightarrow> False | _ \<Rightarrow> True) vs then Inl invalid_output
      else case mapr (\<lambda>v. case v of PStr s \<Rightarrow> parse_uuid s | _ \<Rightarrow> Inl (TypeError ''uuid'')) vs of
          Inl _ \<Rightarrow> Inl invalid_output
        | Inr ids \<Rightarrow> Inr ids)"

definition read_claim :: "uuid list \<Rightarrow> py_value \<Rightarrow> generated_claim res" where
  "read_claim allowed raw =
     (case raw of
        PDict d \<Rightarrow>
          if \<not> keys_are d [lit ''text'', lit ''evidence_ids''] then Inl invalid_output
          else
            (case (map_of d (lit ''text''), map_of d (lit ''evidence_ids'')) of
               (Some (PStr t), Some (PList raw_ids)) \<Rightarrow>
                 if strip t = [] \<or> raw_ids = [] then Inl invalid_output
                 else rbind (read_identifiers raw_ids) (\<lambda>ids.
                   if length (remdups ids) \<noteq> length ids \<or> list_ex (\<lambda>i. i \<notin> set allowed) ids then Inl invalid_output
                   else new_generated_claim t ids [])
             | _ \<Rightarrow> Inl invalid_output)
      | _ \<Rightarrow> Inl invalid_output)"

definition parse_grounded_generation_v1 ::
  "(pystr \<Rightarrow> py_value option) \<Rightarrow> pystr \<Rightarrow> uuid list \<Rightarrow> structured_generation res" where
  "parse_grounded_generation_v1 loads content allowed =
     rbind (json_object loads content) (\<lambda>d.
       if \<not> keys_are d [lit ''schema_version'', lit ''claims''] then Inl invalid_output
       else if map_of d (lit ''schema_version'') \<noteq> Some (PInt 1) then Inl invalid_output
       else
         (case map_of d (lit ''claims'') of
            Some (PList raw) \<Rightarrow>
              if raw = [] then Inl invalid_output
              else rbind (mapr (read_claim allowed) raw) (\<lambda>claims. new_structured_generation 1 claims)
          | _ \<Rightarrow> Inl invalid_output))"

definition parse_contextualization_v1 :: "(pystr \<Rightarrow> py_value option) \<Rightarrow> pystr \<Rightarrow> pystr res" where
  "parse_contextualization_v1 loads content =
     rbind (json_object loads content) (\<lambda>d.
       if \<not> keys_are d [lit ''resolved_query''] then Inl invalid_output
       else
         (case map_of d (lit ''resolved_query'') of
            Some (PStr q) \<Rightarrow> if strip q = [] then Inl invalid_output else Inr (strip q)
          | _ \<Rightarrow> Inl invalid_output))"

section \<open>Validating citations\<close>

definition validation_failed :: "pystr \<Rightarrow> generation_outcome" where
  "validation_failed reason =
     \<lparr>go_status = CITATION_VALIDATION_FAILED, go_text = None, go_citations = [], go_reasons = [reason]\<rparr>"

text \<open>The dictionary of the allowed evidence: of two items with one identifier the later one.\<close>

definition allowed_item :: "grounding_evidence list \<Rightarrow> uuid \<Rightarrow> grounding_evidence option" where
  "allowed_item allowed i = List.find (\<lambda>x. ge_id x = i) (rev allowed)"

fun cited_items :: "grounding_evidence list \<Rightarrow> uuid list \<Rightarrow> pystr + grounding_evidence list" where
  "cited_items allowed [] = Inr []"
| "cited_items allowed (i # ids) =
     (case allowed_item allowed i of
        None \<Rightarrow> Inl (lit ''evidence_not_allowed'')
      | Some x \<Rightarrow>
          if ge_projection x = None \<or> ge_chunk x = None then Inl (lit ''evidence_provenance_incomplete'')
          else (case cited_items allowed ids of Inl r \<Rightarrow> Inl r | Inr xs \<Rightarrow> Inr (x # xs)))"

definition values_of :: "grounding_evidence list \<Rightarrow> exact_value list" where
  "values_of cited = concat (map (exact_values \<circ> ge_text) cited)"

definition values_supported :: "pystr \<Rightarrow> grounding_evidence list \<Rightarrow> bool" where
  "values_supported claim cited \<longleftrightarrow>
     (let claimed = exact_values claim; supported = values_of cited
      in list_all (\<lambda>v. v \<in> set supported) claimed
         \<or> list_all (\<lambda>v. v \<in> set (supported @ defined_business_day_values claim cited)) claimed)"

fun citation_loop :: "grounding_evidence list \<Rightarrow> nat \<Rightarrow> generated_claim list \<Rightarrow> pystr + generated_citation list" where
  "citation_loop allowed n [] = Inr []"
| "citation_loop allowed n (c # cs) =
     (if gc_ids c = [] then Inl (lit ''claim_citation_missing'')
      else case cited_items allowed (gc_ids c) of
          Inl r \<Rightarrow> Inl r
        | Inr cited \<Rightarrow>
            if \<not> values_supported (gc_text c) cited then Inl (lit ''exact_value_not_supported'')
            else (case citation_loop allowed (n + 1) cs of
                Inl r \<Rightarrow> Inl r
              | Inr citations \<Rightarrow> Inr (\<lparr>ct_index = n, ct_ids = gc_ids c, ct_text = gc_text c\<rparr> # citations)))"

definition validate_citations :: "structured_generation \<Rightarrow> grounding_evidence list \<Rightarrow> generation_outcome" where
  "validate_citations draft allowed =
     (if sg_version draft \<notin> {1, 2} \<or> list_ex (\<lambda>c. gc_calculations c \<noteq> []) (sg_claims draft)
      then validation_failed (lit ''structured_output_invalid'')
      else if sg_claims draft = [] then validation_failed (lit ''claim_missing'')
      else case citation_loop allowed 0 (sg_claims draft) of
          Inl r \<Rightarrow> validation_failed r
        | Inr citations \<Rightarrow>
            \<lparr>go_status = ANSWERED, go_text = Some (py_join [32] (map gc_text (sg_claims draft))),
             go_citations = citations, go_reasons = []\<rparr>)"

section \<open>Lemmas\<close>

lemma allowed_item_Some: "allowed_item allowed i = Some x \<Longrightarrow> x \<in> set allowed \<and> ge_id x = i"
  by (auto simp: allowed_item_def find_Some_iff) (metis length_rev nth_mem set_rev)

lemma allowed_item_None: "allowed_item allowed i = None \<longleftrightarrow> i \<notin> ge_id ` set allowed"
  by (auto simp: allowed_item_def find_None_iff)

definition provenance_complete :: "grounding_evidence \<Rightarrow> bool" where
  "provenance_complete x \<longleftrightarrow> ge_projection x \<noteq> None \<and> ge_chunk x \<noteq> None"

lemma cited_items_Inr:
  "cited_items allowed ids = Inr xs \<Longrightarrow>
     map ge_id xs = ids \<and> set xs \<subseteq> set allowed \<and> list_all provenance_complete xs"
  by (induction ids arbitrary: xs)
    (auto simp: provenance_complete_def dest: allowed_item_Some split: option.splits sum.splits if_splits)

lemma cited_items_Inl:
  "cited_items allowed ids = Inl r \<Longrightarrow>
     (r = lit ''evidence_not_allowed'' \<and> \<not> set ids \<subseteq> ge_id ` set allowed)
     \<or> (r = lit ''evidence_provenance_incomplete'' \<and> (\<exists>x\<in>set allowed. \<not> provenance_complete x))"
proof (induction ids)
  case (Cons i ids)
  show ?case
  proof (cases "allowed_item allowed i")
    case None
    with Cons.prems show ?thesis by (auto simp: allowed_item_None simp del: lit_simps)
  next
    case (Some x)
    with Cons allowed_item_Some [OF Some] show ?thesis
      by (auto simp: provenance_complete_def simp del: lit_simps split: if_splits sum.splits)
  qed
qed simp

text \<open>The claim and the items of one citation.\<close>

definition claim_supported :: "grounding_evidence list \<Rightarrow> generated_claim \<Rightarrow> bool" where
  "claim_supported allowed c \<longleftrightarrow>
     gc_ids c \<noteq> []
     \<and> (\<exists>cited. map ge_id cited = gc_ids c \<and> set cited \<subseteq> set allowed \<and> list_all provenance_complete cited
          \<and> (\<forall>v\<in>set (exact_values (gc_text c)).
               (\<exists>x\<in>set cited. v \<in> set (exact_values (ge_text x)))
               \<or> v \<in> set (defined_business_day_values (gc_text c) cited)))"

lemma citation_loop_Inr:
  "citation_loop allowed n cs = Inr ks \<Longrightarrow>
     ks = map (\<lambda>(k, c). \<lparr>ct_index = k, ct_ids = gc_ids c, ct_text = gc_text c\<rparr>) (enumerate n cs)
     \<and> (\<forall>c\<in>set cs. claim_supported allowed c)"
proof (induction cs arbitrary: n ks)
  case (Cons c cs)
  then obtain cited ks' where c: "gc_ids c \<noteq> []" "cited_items allowed (gc_ids c) = Inr cited"
      "values_supported (gc_text c) cited" "citation_loop allowed (n + 1) cs = Inr ks'"
      "ks = \<lparr>ct_index = n, ct_ids = gc_ids c, ct_text = gc_text c\<rparr> # ks'"
    by (auto simp del: lit_simps split: if_splits sum.splits)
  from c(3) have "\<forall>v\<in>set (exact_values (gc_text c)).
      (\<exists>x\<in>set cited. v \<in> set (exact_values (ge_text x))) \<or> v \<in> set (defined_business_day_values (gc_text c) cited)"
    unfolding values_supported_def values_of_def Let_def list_all_iff by auto
  with c(1) cited_items_Inr [OF c(2)] have "claim_supported allowed c" unfolding claim_supported_def by blast
  with Cons.IH [OF c(4)] c(5) show ?case by simp
qed simp

lemma citation_loop_Inl:
  "citation_loop allowed n cs = Inl r \<Longrightarrow>
     (\<exists>c\<in>set cs. gc_ids c = [] \<and> r = lit ''claim_citation_missing'')
     \<or> (\<exists>c\<in>set cs. r = lit ''evidence_not_allowed'' \<and> \<not> set (gc_ids c) \<subseteq> ge_id ` set allowed)
     \<or> (r = lit ''evidence_provenance_incomplete'' \<and> (\<exists>x\<in>set allowed. \<not> provenance_complete x))
     \<or> (r = lit ''exact_value_not_supported''
          \<and> (\<exists>c\<in>set cs. \<exists>cited. cited_items allowed (gc_ids c) = Inr cited \<and> \<not> values_supported (gc_text c) cited))"
proof (induction cs arbitrary: n)
  case (Cons c cs)
  show ?case
  proof (cases "gc_ids c = []")
    case True
    with Cons.prems show ?thesis by (auto simp del: lit_simps)
  next
    case ids: False
    show ?thesis
    proof (cases "cited_items allowed (gc_ids c)")
      case (Inl r')
      with Cons.prems ids cited_items_Inl [OF Inl] show ?thesis by (auto simp del: lit_simps)
    next
      case (Inr cited)
      with Cons.prems ids have "(r = lit ''exact_value_not_supported'' \<and> \<not> values_supported (gc_text c) cited)
          \<or> citation_loop allowed (n + 1) cs = Inl r"
        by (auto simp del: lit_simps split: if_splits sum.splits)
      with Cons.IH [of "n + 1"] Inr show ?thesis by (auto simp del: lit_simps)
    qed
  qed
qed simp

lemma read_claim_Inr:
  assumes "read_claim allowed raw = Inr c"
  shows "gc_ids c \<noteq> [] \<and> distinct (gc_ids c) \<and> set (gc_ids c) \<subseteq> set allowed \<and> gc_calculations c = [] \<and> gc_text c \<noteq> []"
proof -
  from assms obtain d where raw: "raw = PDict d" by (cases raw) (simp_all add: read_claim_def)
  from assms obtain t raw_ids where parts: "map_of d (lit ''text'') = Some (PStr t)" "map_of d (lit ''evidence_ids'') = Some (PList raw_ids)"
    unfolding raw read_claim_def py_value.case by (simp del: lit_simps split: if_splits option.splits py_value.splits)
  from assms obtain ids where ids: "strip t \<noteq> []" "raw_ids \<noteq> []" "read_identifiers raw_ids = Inr ids"
      "length (remdups ids) = length ids" "\<not> list_ex (\<lambda>i. i \<notin> set allowed) ids" "new_generated_claim t ids [] = Inr c"
    unfolding raw read_claim_def py_value.case parts prod.case option.case
    by (auto simp: rbind_eq_Inr simp del: lit_simps split: if_splits)
  from ids(3) have "length ids = length raw_ids"
    by (auto simp: read_identifiers_def mapr_length split: if_splits sum.splits)
  with ids show ?thesis
    by (auto simp: new_generated_claim_def list_ex_iff remdups_length_distinct)
qed

lemma parse_grounded_generation_Inr:
  assumes "parse_grounded_generation_v1 loads content allowed = Inr draft"
  shows "sg_version draft = 1 \<and> sg_claims draft \<noteq> []
    \<and> (\<forall>c\<in>set (sg_claims draft). gc_ids c \<noteq> [] \<and> distinct (gc_ids c) \<and> set (gc_ids c) \<subseteq> set allowed
         \<and> gc_calculations c = [] \<and> gc_text c \<noteq> [])"
proof -
  from assms obtain d where d: "json_object loads content = Inr d" by (auto simp: parse_grounded_generation_v1_def rbind_eq_Inr)
  from assms obtain raw where raw: "map_of d (lit ''claims'') = Some (PList raw)"
    unfolding parse_grounded_generation_v1_def d rbind_simps by (simp del: lit_simps split: if_splits option.splits py_value.splits)
  from assms obtain claims where claims: "raw \<noteq> []" "mapr (read_claim allowed) raw = Inr claims"
      "draft = \<lparr>sg_version = 1, sg_claims = claims\<rparr>"
    unfolding parse_grounded_generation_v1_def d rbind_simps raw option.case py_value.case
    by (auto simp: rbind_eq_Inr new_structured_generation_def simp del: lit_simps split: if_splits)
  from claims(2) have "claims \<noteq> []" using claims(1) mapr_length by fastforce
  moreover have "gc_ids c \<noteq> [] \<and> distinct (gc_ids c) \<and> set (gc_ids c) \<subseteq> set allowed \<and> gc_calculations c = [] \<and> gc_text c \<noteq> []"
    if "c \<in> set claims" for c
    using that mapr_set [OF claims(2)] read_claim_Inr by blast
  ultimately show ?thesis using claims(3) by simp
qed

end
