(* ===== verification/Grounding_Properties.thy ===== *)
theory Grounding_Properties
  imports Grounded_Answers Evidence_Properties
begin

text \<open>
  What grounded generation promises: the evidence survives its packing, a response that is read cites
  the given evidence, and an answer says no exact value its cited sources do not say or define.
\<close>

section \<open>From a selection to an answer\<close>

lemma generation_evidence_complete:
  assumes "select_evidence E F em query sources p keywords = Inr sel" "x \<in> set (generation_evidence sel)"
  shows "provenance_complete x"
proof -
  note rests = selection_rests [OF assms(1)]
  have "a \<in> set (se_candidates sel)" if "a \<in> set (se_conflicts sel)" "se_answer sel = Some b" for a b
  proof -
    from assms(1) obtain ws as where sel: "sel = selection_of E (selector_terms E query keywords) ws as"
      by (rule select_evidence_parts) blast
    with that show ?thesis using conflict_loop_sound by (auto split: list.splits)
  qed
  moreover have "se_conflicts sel = []" if "se_answer sel = None"
  proof -
    from assms(1) obtain ws as where sel: "sel = selection_of E (selector_terms E query keywords) ws as"
      by (rule select_evidence_parts) blast
    with that show ?thesis by (auto split: list.splits)
  qed
  moreover have "a \<in> set (se_candidates sel)" if "se_answer sel = Some a" for a
    using rests that by (auto split: if_splits)
  ultimately obtain a where a: "a \<in> set (se_candidates sel)" "x = grounding_of a"
    using assms(2) by (cases "se_answer sel") (auto simp: generation_evidence_def)
  with rests have "rests_on sources a" by blast
  then have "provenance_warnings (an_source a) (an_evidence a) = []" by (simp add: rests_on_def)
  then have "ev_chunk (an_evidence a) \<noteq> None" "ev_projection (an_evidence a) \<noteq> None"
    by (auto simp: provenance_warnings_def split: if_splits)
  then show ?thesis unfolding a(2) by (simp add: provenance_complete_def grounding_of_def Let_def)
qed

lemma validated_outcome:
  assumes "go_status (validate_citations draft allowed) = ANSWERED"
  obtains ks where "citation_loop allowed 0 (sg_claims draft) = Inr ks"
    "validate_citations draft allowed
      = \<lparr>go_status = ANSWERED, go_text = Some (py_join [32] (map gc_text (sg_claims draft))), go_citations = ks, go_reasons = []\<rparr>"
    "sg_version draft \<in> {1, 2}" "sg_claims draft \<noteq> []"
  using assms by (auto simp: validate_citations_def validation_failed_def simp del: lit_simps split: if_splits sum.splits intro: that)

lemma only_element: "v \<in> set (case xs of [y] \<Rightarrow> f y | _ \<Rightarrow> []) \<Longrightarrow> \<exists>y. xs = [y] \<and> v \<in> set (f y)"
  by (cases xs; cases "tl xs") simp_all

lemma in_else: "v \<in> set (if b then [] else xs) \<Longrightarrow> \<not> b \<and> v \<in> set xs"
  by (cases b) simp_all

lemma only_pair: "v \<in> set (case xs of [(a, b)] \<Rightarrow> f a b | _ \<Rightarrow> []) \<Longrightarrow> \<exists>a b. xs = [(a, b)] \<and> v \<in> set (f a b)"
  by (cases xs; cases "hd xs"; cases "tl xs") simp_all

section \<open>Properties\<close>

text \<open>
  C36.  A validated answer is the text of its claims, with one citation for each in order; every claim
  cites at least one item, all from the allowed evidence and with its projection and chunk, and every
  exact value it states (date, amount, share, offset) is one of a cited text or a number of business
  days these texts define.
\<close>

theorem answers_are_supported:
  assumes "go_status (validate_citations draft allowed) = ANSWERED"
  shows "go_text (validate_citations draft allowed) = Some (py_join [32] (map gc_text (sg_claims draft)))
    \<and> go_citations (validate_citations draft allowed)
      = map (\<lambda>(k, c). \<lparr>ct_index = k, ct_ids = gc_ids c, ct_text = gc_text c\<rparr>) (enumerate 0 (sg_claims draft))
    \<and> sg_claims draft \<noteq> []
    \<and> (\<forall>c\<in>set (sg_claims draft).
         gc_ids c \<noteq> []
         \<and> (\<exists>cited. map ge_id cited = gc_ids c \<and> set cited \<subseteq> set allowed
              \<and> (\<forall>x\<in>set cited. ge_projection x \<noteq> None \<and> ge_chunk x \<noteq> None)
              \<and> (\<forall>v\<in>set (exact_values (gc_text c)).
                   (\<exists>x\<in>set cited. v \<in> set (exact_values (ge_text x)))
                   \<or> v \<in> set (defined_business_day_values (gc_text c) cited))))"
proof -
  from assms obtain ks where ks: "citation_loop allowed 0 (sg_claims draft) = Inr ks"
    "validate_citations draft allowed
      = \<lparr>go_status = ANSWERED, go_text = Some (py_join [32] (map gc_text (sg_claims draft))), go_citations = ks, go_reasons = []\<rparr>"
    "sg_version draft \<in> {1, 2}" "sg_claims draft \<noteq> []"
    by (rule validated_outcome)
  from citation_loop_Inr [OF ks(1)] ks(2,4) show ?thesis
    by (simp add: claim_supported_def provenance_complete_def list_all_iff)
qed

text \<open>
  C37.  A number of business days is supplied only for a claim that says it of one row: the cited
  items lie, with their boxes, in one part of one PDF page, exactly one of them reads as a row of a
  value with that number.  Exactly one item stands right before it in the same row, to its left, and
  names the attribute; exactly one header stands above that label in the column of the value, and names
  the product.  The other items, lines of one block above the header and to the left of the label,
  define the anchor and the offset, and the claim repeats anchor, base, number and attribute.
\<close>

theorem business_days_are_defined:
  assumes "v \<in> set (defined_business_day_values claim cited)"
  shows "\<exists>x g label header def. {x, label, header} \<subseteq> set cited
    \<and> v = (business_day, Quantity (decimal_value (rg_days g)))
    \<and> value_row (plain_text (ge_text x)) = Some g
    \<and> (\<forall>y\<in>set cited. value_row (plain_text (ge_text y)) \<noteq> None \<longrightarrow> y = x)
    \<and> (\<forall>y\<in>set cited.
         (top_of y = top_of x \<and> bottom_of y = bottom_of x \<and> float_less (right_of y) (left_of x)
           \<and> ge_ordinal y + 1 = ge_ordinal x \<and> ge_end y = ge_start x) \<longleftrightarrow> y = label)
    \<and> plain_text (ge_text label) \<in> {rg_attribute g, [51201, 50857, 32] @ rg_attribute g}
    \<and> (\<forall>y\<in>set cited.
         (left_of y = left_of x \<and> float_less (bottom_of y) (top_of label) \<and> ge_ordinal y < ge_ordinal label
           \<and> header_text (plain_text (ge_text y)) \<and> \<not> any_found ambiguous_words (ge_text y)) \<longleftrightarrow> y = header)
    \<and> def = filter (\<lambda>y. ge_id y \<notin> {ge_id header, ge_id label, ge_id x}) cited \<and> def \<noteq> [] \<and> definition_lines def
    \<and> (\<forall>y\<in>set def. ge_ordinal y < ge_ordinal header \<and> \<not> float_le (top_of header) (bottom_of y)
         \<and> \<not> float_le (left_of label) (left_of y))
    \<and> definition_match (plain_text (py_join [32] (map ge_text def))) = Some (rg_base g, rg_anchor g)
    \<and> fullmatch (claim_pattern g (plain_text (ge_text header))) (plain_text claim)
    \<and> (\<forall>y\<in>set cited. citation_scope y = citation_scope x \<and> ge_kind y = PDF_PAGE \<and> ge_bbox y \<noteq> None)"
proof -
  note eq0 = in_else [OF assms [unfolded defined_business_day_values_def]]
  then have valid: "valid_source cited" by simp
  from only_pair [OF conjunct2 [OF eq0]] obtain x g where row: "value_rows cited = [(x, g)]" by blast
  note eq1 = conjunct2 [OF eq0, unfolded row list.case prod.case]
  from only_element [OF eq1] obtain label where label: "row_labels cited x = [label]" by blast
  note eq2 = in_else [OF eq1 [unfolded label list.case]]
  then have label_text: "plain_text (ge_text label) \<in> {rg_attribute g, [51201, 50857, 32] @ rg_attribute g}" by simp
  note eq3 = conjunct2 [OF eq2]
  from only_element [OF eq3] obtain header where header: "row_headers cited x label = [header]" by blast
  let ?def = "filter (\<lambda>y. ge_id y \<notin> {ge_id header, ge_id label, ge_id x}) cited"
  from eq3 have parts: "definition_matches ?def header label (rg_base g) (rg_anchor g)"
      "fullmatch (claim_pattern g (plain_text (ge_text header))) (plain_text claim)"
      "v = (business_day, Quantity (decimal_value (rg_days g)))"
    unfolding header list.case Let_def by (simp_all split: if_splits)
  have rows: "set (value_rows cited) = {(y, h). y \<in> set cited \<and> value_row (plain_text (ge_text y)) = Some h}"
    by (auto simp: value_rows_def split: option.splits)
  have x: "x \<in> set cited" "value_row (plain_text (ge_text x)) = Some g"
    "\<forall>y\<in>set cited. value_row (plain_text (ge_text y)) \<noteq> None \<longrightarrow> y = x"
    using rows unfolding row by auto
  have "label \<in> set (row_labels cited x)" "header \<in> set (row_headers cited x label)" unfolding label header by simp_all
  then have members: "label \<in> set cited" "header \<in> set cited" by (simp_all add: row_labels_def row_headers_def)
  have scopes: "citation_scope y = citation_scope x \<and> ge_kind y = PDF_PAGE" if "y \<in> set cited" for y
  proof -
    from valid have "card (citation_scope ` set cited) = 1" by (simp add: valid_source_def length_remdups_card_conv)
    then obtain s where "citation_scope ` set cited = {s}" by (auto simp: card_1_singleton_iff)
    moreover have "citation_scope y \<in> citation_scope ` set cited" "citation_scope x \<in> citation_scope ` set cited"
      using that x(1) by simp_all
    ultimately have "citation_scope y = citation_scope x" by simp
    moreover have "valid_item y" using valid that by (simp add: valid_source_def list_all_iff)
    ultimately show ?thesis by (simp add: valid_item_def)
  qed
  have boxed: "ge_bbox y \<noteq> None" if "y \<in> set cited" for y
  proof -
    from valid that have "valid_item y" by (simp add: valid_source_def list_all_iff)
    then show ?thesis by (cases "ge_bbox y") (simp_all add: valid_item_def)
  qed
  from label have same_row: "(top_of y = top_of x \<and> bottom_of y = bottom_of x \<and> float_less (right_of y) (left_of x)
      \<and> ge_ordinal y + 1 = ge_ordinal x \<and> ge_end y = ge_start x) \<longleftrightarrow> y = label" if "y \<in> set cited" for y
    using that unfolding row_labels_def by (auto dest!: arg_cong [where f = set])
  from header have column: "(left_of y = left_of x \<and> float_less (bottom_of y) (top_of label) \<and> ge_ordinal y < ge_ordinal label
      \<and> header_text (plain_text (ge_text y)) \<and> \<not> any_found ambiguous_words (ge_text y)) \<longleftrightarrow> y = header" if "y \<in> set cited" for y
    using that unfolding row_headers_def by (auto dest!: arg_cong [where f = set])
  from parts(1) have def: "definition_match (plain_text (py_join [32] (map ge_text ?def))) = Some (rg_base g, rg_anchor g)"
    "?def \<noteq> []" "definition_lines ?def"
    "\<forall>y\<in>set ?def. ge_ordinal y < ge_ordinal header \<and> \<not> float_le (top_of header) (bottom_of y)
       \<and> \<not> float_le (left_of label) (left_of y)"
    by (auto simp: definition_matches_def Let_def list_all_iff not_le)
  have sub: "{x, label, header} \<subseteq> set cited" using x(1) members by simp
  have all: "\<forall>y\<in>set cited. citation_scope y = citation_scope x \<and> ge_kind y = PDF_PAGE \<and> ge_bbox y \<noteq> None"
    using scopes boxed by blast
  show ?thesis
    by (rule exI [of _ x], rule exI [of _ g], rule exI [of _ label], rule exI [of _ header], rule exI [of _ ?def],
        intro conjI) (rule sub parts(3) x(2,3) label_text refl def parts(2) all ballI same_row column | assumption)+
qed

text \<open>
  C38.  The form with short references loses nothing: at most 200 items of different identifiers pack,
  the references count them in their order and unpacking yields the compact form; more items or a
  repeated identifier are refused.
\<close>

theorem references_round_trip:
  "(\<exists>c p. pack_compact_evidence evidence = Inr c \<and> pack_reference_evidence evidence = Inr p
      \<and> unpack_reference_evidence p = Inr c \<and> reference_ids p = map ge_id evidence
      \<and> map fst (rp_map p) = map reference_name [0..<length evidence])
   \<longleftrightarrow> distinct (map ge_id evidence) \<and> length evidence \<le> max_reference_evidence"
proof
  assume "distinct (map ge_id evidence) \<and> length evidence \<le> max_reference_evidence"
  then obtain c p where "pack_compact_evidence evidence = Inr c" "pack_reference_evidence evidence = Inr p"
    "unpack_reference_evidence p = Inr c" "reference_ids p = map ge_id evidence"
    "map fst (rp_map p) = map reference_name [0..<length evidence]"
    by (elim conjE) (rule reference_round_trip)
  then show "\<exists>c p. pack_compact_evidence evidence = Inr c \<and> pack_reference_evidence evidence = Inr p
      \<and> unpack_reference_evidence p = Inr c \<and> reference_ids p = map ge_id evidence
      \<and> map fst (rp_map p) = map reference_name [0..<length evidence]" by blast
next
  assume "\<exists>c p. pack_compact_evidence evidence = Inr c \<and> pack_reference_evidence evidence = Inr p
      \<and> unpack_reference_evidence p = Inr c \<and> reference_ids p = map ge_id evidence
      \<and> map fst (rp_map p) = map reference_name [0..<length evidence]"
  then obtain c p where c: "pack_compact_evidence evidence = Inr c" and p: "pack_reference_evidence evidence = Inr p" by blast
  from c have "distinct (map ge_id evidence)" by (rule pack_compact_Inr)
  moreover have "length evidence \<le> max_reference_evidence"
    using p by (auto simp: pack_reference_evidence_def build_reference_map_def rbind_eq_Inr split: if_splits)
  ultimately show "distinct (map ge_id evidence) \<and> length evidence \<le> max_reference_evidence" ..
qed

text \<open>
  C39.  The blocks of the compact form are the evidence in its order: their fragments are those of
  the items one by one, the items of a block are neighbours that follow each other in the parser's
  order, two neighbours of this kind are never cut apart, and the source of a block is that of each
  of its items.
\<close>

theorem blocks_keep_order_and_sources:
  assumes "pack_compact_evidence evidence = Inr c"
  shows "\<exists>runs. concat runs = evidence \<and> [] \<notin> set runs
    \<and> map bk_fragments (ce_blocks c) = map (map fragment_of) runs
    \<and> concat (map consecutive runs) = filter (\<lambda>(x, y). adjacent x y) (consecutive evidence)
    \<and> list_all2 (\<lambda>b r. bk_source b < length (ce_sources c) \<and> (\<forall>x\<in>set r. ce_sources c ! bk_source b = entry_of x))
        (ce_blocks c) runs"
proof -
  from assms obtain st where st: "distinct (map ge_id evidence)" "pack_inv evidence st" "ce_sources c = pk_sources st" "ce_blocks c = pk_blocks st"
    by (rule pack_compact_Inr)
  let ?runs = "adjacent_runs evidence"
  have frs: "map bk_fragments (pk_blocks st) = map (map fragment_of) ?runs"
    and refs: "list_all2 (\<lambda>b r. \<forall>x\<in>set r. (source_scope_of x, bk_source b) \<in> set (pk_refs st)) (pk_blocks st) ?runs"
    and entries: "\<forall>x\<in>set evidence. \<forall>n. (source_scope_of x, n) \<in> set (pk_refs st) \<longrightarrow> n < length (pk_sources st) \<and> pk_sources st ! n = entry_of x"
    using st(2) unfolding pack_inv_def by blast+
  have "list_all2 (\<lambda>b r. bk_source b < length (pk_sources st) \<and> (\<forall>x\<in>set r. pk_sources st ! bk_source b = entry_of x)) (pk_blocks st) ?runs"
  proof (rule list_all2_all_nthI [OF list_all2_lengthD [OF refs]])
    fix k assume k: "k < length (pk_blocks st)"
    with list_all2_lengthD [OF refs] have r: "?runs ! k \<in> set ?runs" by simp
    then have sub: "set (?runs ! k) \<subseteq> set evidence" using concat_adjacent_runs [of evidence] by (metis UN_upper set_concat)
    have each: "bk_source (pk_blocks st ! k) < length (pk_sources st) \<and> pk_sources st ! bk_source (pk_blocks st ! k) = entry_of x"
      if "x \<in> set (?runs ! k)" for x
      using list_all2_nthD [OF refs k] that sub entries by blast
    moreover have "?runs ! k \<noteq> []" using adjacent_runs_nonempty r by blast
    ultimately show "bk_source (pk_blocks st ! k) < length (pk_sources st)
        \<and> (\<forall>x\<in>set (?runs ! k). pk_sources st ! bk_source (pk_blocks st ! k) = entry_of x)"
      by (meson last_in_set)
  qed
  moreover have "[] \<notin> set ?runs" using adjacent_runs_nonempty by blast
  ultimately show ?thesis
    unfolding st(3,4) using frs concat_adjacent_runs [of evidence] adjacent_runs_pairs [of evidence] by blast
qed

text \<open>
  C40.  From the selection to the answer only an unsupported value can fail: when the evidence is that
  of a selection and the response was read for its identifiers, every claim cites it and validation
  either answers or reports an exact value of some claim that the cited items do not support.
\<close>

theorem only_values_fail:
  assumes "select_evidence E F em query sources p keywords = Inr sel"
    "parse_grounded_generation_v1 loads content (map ge_id (generation_evidence sel)) = Inr draft"
  shows "go_status (validate_citations draft (generation_evidence sel)) = ANSWERED
    \<or> validate_citations draft (generation_evidence sel) = validation_failed (lit ''exact_value_not_supported'')
      \<and> (\<exists>c\<in>set (sg_claims draft). \<exists>cited. map ge_id cited = gc_ids c \<and> set cited \<subseteq> set (generation_evidence sel)
           \<and> \<not> values_supported (gc_text c) cited)"
proof -
  let ?ev = "generation_evidence sel"
  note parsed = parse_grounded_generation_Inr [OF assms(2)]
  then have start: "validate_citations draft ?ev =
      (case citation_loop ?ev 0 (sg_claims draft) of
          Inl r \<Rightarrow> validation_failed r
        | Inr citations \<Rightarrow>
            \<lparr>go_status = ANSWERED, go_text = Some (py_join [32] (map gc_text (sg_claims draft))),
             go_citations = citations, go_reasons = []\<rparr>)"
    by (auto simp: validate_citations_def list_ex_iff simp del: lit_simps)
  show ?thesis
  proof (cases "citation_loop ?ev 0 (sg_claims draft)")
    case (Inr ks)
    with start show ?thesis by simp
  next
    case (Inl r)
    have "\<not> (\<exists>c\<in>set (sg_claims draft). gc_ids c = [])" "\<not> (\<exists>c\<in>set (sg_claims draft). \<not> set (gc_ids c) \<subseteq> ge_id ` set ?ev)"
      using parsed by auto
    moreover have "\<not> (\<exists>x\<in>set ?ev. \<not> provenance_complete x)" using generation_evidence_complete [OF assms(1)] by blast
    ultimately obtain c cited where "r = lit ''exact_value_not_supported''" "c \<in> set (sg_claims draft)"
        "cited_items ?ev (gc_ids c) = Inr cited" "\<not> values_supported (gc_text c) cited"
      using citation_loop_Inl [OF Inl] by blast
    with cited_items_Inr start Inl show ?thesis by (simp del: lit_simps) blast
  qed
qed

section \<open>Witnesses\<close>

subsection \<open>An answer that quotes its evidence\<close>

definition demo_response :: "pystr \<Rightarrow> py_value option" where
  "demo_response content =
     Some (PDict [(lit ''schema_version'', PInt 1),
       (lit ''claims'', PList [PDict [(lit ''text'', PStr demo_text1), (lit ''evidence_ids'', PList [PStr (uuid_text (UUID 103))])]])])"

definition demo_generation :: structured_generation where
  "demo_generation = \<lparr>sg_version = 1, sg_claims = [\<lparr>gc_text = demo_text1, gc_ids = [UUID 103], gc_calculations = []\<rparr>]\<rparr>"

definition demo_selected_evidence :: evidence_selection where
  "demo_selected_evidence =
     \<lparr>se_status = SUPPORTED, se_answer = Some (demo_answer 3 demo_text1), se_conflict = SEPARATE_SOURCES,
       se_conflicts = [demo_answer 2 demo_text2], se_warnings = [],
       se_candidates = [demo_answer 3 demo_text1, demo_answer 2 demo_text2]\<rparr>"

lemma demo_generation_evidence:
  "generation_evidence demo_selected_evidence = [grounding_of (demo_answer 3 demo_text1), grounding_of (demo_answer 2 demo_text2)]"
  by (simp add: generation_evidence_def demo_selected_evidence_def)

lemma demo_grounding_fields:
  "ge_id (grounding_of (demo_answer k t)) = UUID (100 + k)" "ge_text (grounding_of (demo_answer k t)) = t"
  "ge_projection (grounding_of (demo_answer k t)) = Some (UUID 9)" "ge_chunk (grounding_of (demo_answer k t)) = Some (UUID k)"
  by (simp_all add: grounding_of_def demo_answer_def Let_def) (simp_all add: demo_unit_def)

lemma demo_parsed:
  "parse_grounded_generation_v1 demo_response content (map ge_id (generation_evidence demo_selected_evidence)) = Inr demo_generation"
proof -
  have quoted: "strip demo_text1 = demo_text1" "demo_text1 \<noteq> []"
    by (simp_all add: strip_def lstrip_def rstrip_def py_isspace_def demo_text1_def lit_simps)
  have ids: "read_identifiers [PStr (uuid_text (UUID 103))] = Inr [UUID 103]"
    by (simp add: read_identifiers_def parse_uuid_text uuid_ok_def)
  have keys: "lit ''schema_version'' \<noteq> lit ''claims''" "lit ''text'' \<noteq> lit ''evidence_ids''" by (simp_all add: lit_simps)
  have "read_claim [UUID 103, UUID 102] (PDict [(lit ''text'', PStr demo_text1), (lit ''evidence_ids'', PList [PStr (uuid_text (UUID 103))])])
    = Inr \<lparr>gc_text = demo_text1, gc_ids = [UUID 103], gc_calculations = []\<rparr>"
    using quoted keys by (simp add: read_claim_def keys_are_def ids new_generated_claim_def del: lit_simps)
  with keys show ?thesis
    by (simp add: parse_grounded_generation_v1_def json_object_def demo_response_def keys_are_def demo_generation_def
        new_structured_generation_def demo_generation_evidence demo_grounding_fields del: lit_simps)
qed

lemma demo_cited:
  assumes "map ge_id cited = [UUID 103]" "set cited \<subseteq> set (generation_evidence demo_selected_evidence)"
  shows "cited = [grounding_of (demo_answer 3 demo_text1)]"
  using assms by (auto simp: demo_generation_evidence demo_grounding_fields map_eq_Cons_conv)

lemma demo_validated: "go_status (validate_citations demo_generation (generation_evidence demo_selected_evidence)) = ANSWERED"
proof -
  let ?x = "grounding_of (demo_answer 3 demo_text1)"
  have "cited_items (generation_evidence demo_selected_evidence) [UUID 103] = Inr [?x]"
    by (simp add: allowed_item_def demo_generation_evidence demo_grounding_fields)
  moreover have "values_supported demo_text1 [?x]"
    by (simp add: values_supported_def values_of_def demo_grounding_fields list_all_iff)
  ultimately show ?thesis by (simp add: validate_citations_def demo_generation_def)
qed

theorem only_values_fail_witness:
  "\<exists>sel draft. select_evidence demo_text_env demo_float_ops demo_evidence_port demo_query demo_evidence_sources demo_policy None = Inr sel
    \<and> parse_grounded_generation_v1 demo_response [] (map ge_id (generation_evidence sel)) = Inr draft
    \<and> go_status (validate_citations draft (generation_evidence sel)) = ANSWERED"
proof -
  note selected = demo_selected [folded demo_selected_evidence_def]
  have "values_supported demo_text1 [grounding_of (demo_answer 3 demo_text1)]"
    by (simp add: values_supported_def values_of_def demo_grounding_fields list_all_iff)
  then have "values_supported (gc_text c) cited"
    if "c \<in> set (sg_claims demo_generation)" "map ge_id cited = gc_ids c" "set cited \<subseteq> set (generation_evidence demo_selected_evidence)" for c cited
    using that demo_cited [of cited] by (simp add: demo_generation_def)
  with only_values_fail [OF selected demo_parsed [of "[]"]]
  have "go_status (validate_citations demo_generation (generation_evidence demo_selected_evidence)) = ANSWERED" by blast
  with selected demo_parsed show ?thesis by blast
qed

theorem answers_are_supported_witness:
  "go_text (validate_citations demo_generation (generation_evidence demo_selected_evidence)) = Some demo_text1
    \<and> go_citations (validate_citations demo_generation (generation_evidence demo_selected_evidence))
      = [\<lparr>ct_index = 0, ct_ids = [UUID 103], ct_text = demo_text1\<rparr>]"
  using answers_are_supported [OF demo_validated] by (simp add: demo_generation_def)

subsection \<open>Packed evidence\<close>

theorem blocks_keep_order_and_sources_witness:
  "\<exists>c. pack_compact_evidence (generation_evidence demo_selected_evidence) = Inr c
    \<and> concat (map bk_fragments (ce_blocks c)) = map fragment_of (generation_evidence demo_selected_evidence)"
proof -
  have "distinct (map ge_id (generation_evidence demo_selected_evidence))" by (simp add: demo_generation_evidence demo_grounding_fields)
  then obtain c where c: "pack_compact_evidence (generation_evidence demo_selected_evidence) = Inr c" using pack_compact_ok by blast
  from blocks_keep_order_and_sources [OF c] obtain runs where "concat runs = generation_evidence demo_selected_evidence"
    "map bk_fragments (ce_blocks c) = map (map fragment_of) runs" by blast
  then have "concat (map bk_fragments (ce_blocks c)) = map fragment_of (generation_evidence demo_selected_evidence)"
    by (simp flip: map_concat)
  with c show ?thesis by blast
qed

subsection \<open>A page that defines business days\<close>

text \<open>An item of the page: ordinal, start, text and box.\<close>

definition demo_page_item :: "nat \<Rightarrow> int \<Rightarrow> pystr \<Rightarrow> rat \<times> rat \<times> rat \<times> rat \<Rightarrow> grounding_evidence" where
  "demo_page_item k start t box =
     \<lparr>ge_id = UUID k, ge_text = t, ge_document = UUID 50, ge_version = UUID 51, ge_projection = Some (UUID 52),
      ge_chunk = Some (UUID 53), ge_element = UUID 54, ge_page = Some 2, ge_start = start, ge_end = start + int (length t),
      ge_bbox = (case box of (a, b, c, d) \<Rightarrow> Some (Finite a, Finite b, Finite c, Finite d)), ge_path = [],
      ge_ordinal = int k, ge_kind = PDF_PAGE, ge_part = None, ge_cell = None\<rparr>"

definition demo_definition_text :: pystr where
  "demo_definition_text =
     [84, 45716, 32, 44032, 51060, 47728, 44, 32, 84, 43, 78, 51008, 32, 44032, 32, 45796, 51020, 32, 50689, 50629, 51068,
      48512, 53552, 32, 78, 51068, 51012, 32, 49468, 45796, 46]"

definition demo_row_text :: pystr where
  "demo_row_text = [44032, 32, 84, 43, 51, 32, 45208]"

definition demo_page :: "grounding_evidence list" where
  "demo_page =
     [demo_page_item 2 0 demo_definition_text (0, 0, 1, 1), demo_page_item 3 31 [65] (5, 2, 6, 3),
      demo_page_item 4 32 [45208] (2, 4, 3, 5), demo_page_item 5 33 demo_row_text (5, 4, 7, 5)]"

definition demo_day_claim :: pystr where
  "demo_day_claim =
     [44032, 32, 45796, 51020, 32, 50689, 50629, 51068, 48512, 53552, 32, 51, 50689, 50629, 51068, 51012, 32, 49468, 32,
      84, 43, 51, 51032, 32, 45208, 51012, 32, 51201, 50857, 54633, 45768, 45796]"

lemma demo_plain:
  "plain_text demo_definition_text = demo_definition_text" "plain_text demo_row_text = demo_row_text"
  "plain_text [65] = [65]" "plain_text [45208] = [45208]" "plain_text demo_day_claim = demo_day_claim"
  by (simp_all add: plain_text_def py_split_def py_isspace_def demo_definition_text_def demo_row_text_def demo_day_claim_def)

lemma demo_row_groups:
  "value_row demo_row_text = Some \<lparr>rg_anchor = [44032], rg_base = 84, rg_days = [51], rg_attribute = [45208]\<rparr>"
  "value_row demo_definition_text = None" "value_row [65] = None" "value_row [45208] = None"
  by (simp_all add: value_row_def demo_row_text_def demo_definition_text_def is_hangul_def is_letter_def is_09_def)

lemma demo_definition: "definition_match demo_definition_text = Some (84, [44032])"
  by (simp add: definition_match_def demo_definition_text_def optionally_def some_of_def starts_at_def holds_at_def
      is_hangul_def is_letter_def slice_def)

lemma demo_claim_matches:
  "fullmatch (claim_pattern \<lparr>rg_anchor = [44032], rg_base = 84, rg_days = [51], rg_attribute = [45208]\<rparr> [65]) demo_day_claim"
  by (simp add: fullmatch_def claim_pattern_def demo_day_claim_def optionally_def starts_at_def spaces_def py_isspace_def)

lemma demo_page_fields [simp]:
  "ge_id (demo_page_item k start t box) = UUID k" "ge_text (demo_page_item k start t box) = t"
  "ge_ordinal (demo_page_item k start t box) = int k" "ge_start (demo_page_item k start t box) = start"
  "ge_end (demo_page_item k start t box) = start + int (length t)"
  "box_of (demo_page_item k start t (a, b, c, d)) = (Finite a, Finite b, Finite c, Finite d)"
  "citation_scope (demo_page_item k start t box)
    = (UUID 50, UUID 51, Some (UUID 52), Some (UUID 53), Some 2, PDF_PAGE, None, [])"
  by (simp_all add: demo_page_item_def box_of_def citation_scope_def)

lemma demo_page_edges [simp]:
  "left_of (demo_page_item k start t (a, b, c, d)) = Finite a" "top_of (demo_page_item k start t (a, b, c, d)) = Finite b"
  "right_of (demo_page_item k start t (a, b, c, d)) = Finite c" "bottom_of (demo_page_item k start t (a, b, c, d)) = Finite d"
  by (simp_all add: left_of_def top_of_def right_of_def bottom_of_def)

lemma demo_page_valid: "valid_source demo_page"
proof -
  have "valid_item (demo_page_item k start t (a, b, c, d))" if "t \<noteq> []" "0 \<le> start" "a < c" "b < d" for k start t a b c d
    using that by (simp add: valid_item_def demo_page_item_def is_finite_def float_le_def not_le)
  then have "list_all valid_item demo_page" by (simp add: demo_page_def demo_definition_text_def demo_row_text_def)
  then show ?thesis by (simp add: valid_source_def demo_page_def) (simp add: demo_definition_text_def)
qed

lemma demo_day_values:
  "defined_business_day_values demo_day_claim demo_page = [(business_day, Quantity (decimal_value [51]))]"
proof -
  let ?g = "\<lparr>rg_anchor = [44032], rg_base = 84, rg_days = [51], rg_attribute = [45208]\<rparr>"
  let ?v = "demo_page_item 5 33 demo_row_text (5, 4, 7, 5)" and ?l = "demo_page_item 4 32 [45208] (2, 4, 3, 5)"
    and ?h = "demo_page_item 3 31 [65] (5, 2, 6, 3)" and ?d = "demo_page_item 2 0 demo_definition_text (0, 0, 1, 1)"
  have rows: "value_rows demo_page = [(?v, ?g)]"
    by (simp add: value_rows_def demo_page_def demo_plain demo_row_groups)
  have labels: "row_labels demo_page ?v = [?l]"
    by (simp add: row_labels_def demo_page_def)
  have header: "header_text [65]" "\<not> any_found ambiguous_words [65]" "\<not> any_found ambiguous_words demo_definition_text"
    by (simp_all add: header_text_def is_letter_def any_found_def ambiguous_words_def absent demo_definition_text_def)
  have headers: "row_headers demo_page ?v ?l = [?h]"
    by (simp add: row_headers_def demo_page_def demo_plain header)
  have "filter (\<lambda>x. ge_id x \<notin> {ge_id ?h, ge_id ?l, ge_id ?v}) demo_page = [?d]" by (simp add: demo_page_def)
  moreover have "definition_matches [?d] ?h ?l (rg_base ?g) (rg_anchor ?g)"
    by (simp add: definition_matches_def float_le_def demo_plain demo_definition header)
  ultimately show ?thesis
    using demo_page_valid demo_claim_matches
    by (simp add: defined_business_day_values_def rows labels headers Let_def demo_plain)
qed

theorem business_days_are_defined_witness:
  "\<exists>x label header. {x, label, header} \<subseteq> set demo_page \<and> top_of label = top_of x \<and> left_of header = left_of x
    \<and> fullmatch (claim_pattern \<lparr>rg_anchor = [44032], rg_base = 84, rg_days = [51], rg_attribute = [45208]\<rparr> (plain_text (ge_text header)))
        (plain_text demo_day_claim)"
proof -
  have "(business_day, Quantity (decimal_value [51])) \<in> set (defined_business_day_values demo_day_claim demo_page)"
    by (simp add: demo_day_values)
  from business_days_are_defined [OF this] obtain x g label header where
    *: "{x, label, header} \<subseteq> set demo_page" "value_row (plain_text (ge_text x)) = Some g"
      "fullmatch (claim_pattern g (plain_text (ge_text header))) (plain_text demo_day_claim)"
      "\<forall>y\<in>set demo_page. (top_of y = top_of x \<and> bottom_of y = bottom_of x \<and> float_less (right_of y) (left_of x)
         \<and> ge_ordinal y + 1 = ge_ordinal x \<and> ge_end y = ge_start x) \<longleftrightarrow> y = label"
      "\<forall>y\<in>set demo_page. (left_of y = left_of x \<and> float_less (bottom_of y) (top_of label) \<and> ge_ordinal y < ge_ordinal label
         \<and> header_text (plain_text (ge_text y)) \<and> \<not> any_found ambiguous_words (ge_text y)) \<longleftrightarrow> y = header" by blast
  from *(1,2) have "g = \<lparr>rg_anchor = [44032], rg_base = 84, rg_days = [51], rg_attribute = [45208]\<rparr>"
    by (auto simp: demo_page_def demo_plain demo_row_groups)
  moreover from * have "top_of label = top_of x" "left_of header = left_of x" by blast+
  ultimately show ?thesis using *(1,3) by blast
qed

end
