(* ===== verification/Spec2Isabelle.thy ===== *)
theory Spec2Isabelle
  imports Publishing_Properties Asset_Properties Asset_Lifecycle Verification_Properties
    Chunking_Properties Rank_Fusion Search_Properties Index_Properties Transfer_Properties Browsing_Properties
    Context_Properties Table_Properties Conversation_Properties Grounding_Properties
begin

text \<open>
  A verification library for the backend of AI Workshop (\<^verbatim>\<open>backend/src/ai_workshop\<close>), a modular
  monolith: a private workshop of documents, a public site of reviewed study notes and a
  laboratory for retrieval augmented generation.  File names below are relative to that directory.

  Conventions (\<^verbatim>\<open>Py_Prelude\<close>, \<^verbatim>\<open>Py_Json\<close>).  A Python string is the list of its code points, a
  \<^verbatim>\<open>datetime\<close> an \<open>int\<close> of microseconds, a \<^verbatim>\<open>UUID\<close> a number compared as PostgreSQL compares it.  A
  function that may raise returns \<open>exn + 'a\<close>; every \<^verbatim>\<open>raise\<close> is a branch.  A table is a list of
  records with a unique key (\<open>keyed\<close>, \<open>row_by\<close>, \<open>put_row\<close>); its constraints are checked where
  rows are written.  A session that commits is one definition from tables to tables, one that
  raises leaves them as they were.  SHA-256, Unicode normalisation, case folding and the JSON
  parser are fields of an environment record (\<open>pub_env\<close>, \<open>library_env\<close>): the model of what the
  code calls is a function of it, and properties that need a fact about them name it.  The parser
  gives a JSON value for bytes; what the models of the package make of that value is defined.

  Publishing (\<^verbatim>\<open>platform/publishing\<close>).  \<^verbatim>\<open>Publishing_Package\<close> is the study package
  (\<^verbatim>\<open>package.py\<close>): content rules, canonical bytes, digest and decoder.  \<^verbatim>\<open>Publishing_Domain\<close>
  has drafts, commands and the projection (\<^verbatim>\<open>domain.py\<close>, \<^verbatim>\<open>projection.py\<close>); \<^verbatim>\<open>Public_Store\<close>
  the SQLite store of the public site (\<^verbatim>\<open>public_store.py\<close>), whose promise to the private side is
  the locale \<open>publication_sink\<close>, interpreted on the writer; \<^verbatim>\<open>Publishing_Repository\<close> and
  \<^verbatim>\<open>Publishing_Service\<close> the private tables, their transactions and the service over both stores
  (\<^verbatim>\<open>repository.py\<close>, \<^verbatim>\<open>service.py\<close>, \<^verbatim>\<open>delivery.py\<close>).  \<^verbatim>\<open>Publishing_System\<close> interleaves the
  transactions with lost, repeated and reordered deliveries; \<^verbatim>\<open>Publishing_Invariant\<close> and
  \<^verbatim>\<open>Publishing_Progress\<close> prove what every reachable state satisfies and that its newest command
  can always be delivered; \<^verbatim>\<open>Publishing_Calls\<close> follows a call of the service through its input
  check, its transaction, its delivery and the acknowledgement, to what both stores hold when it
  returns; \<^verbatim>\<open>Publishing_Demo\<close> is the run the witnesses evaluate and \<^verbatim>\<open>Publishing_Properties\<close> the
  properties.

  Workspaces (\<^verbatim>\<open>platform/workspaces\<close>, theory \<^verbatim>\<open>Workspaces\<close>): grants, capabilities,
  the read, write and delete predicates, the membership table with its revisions and audit.

  Assets (\<^verbatim>\<open>platform/assets\<close>).  \<^verbatim>\<open>Folder_Hierarchy\<close> is the policy of \<^verbatim>\<open>movement.py\<close> on an
  arbitrary folder table, broken ones included; \<^verbatim>\<open>Asset_Library\<close> the repository, the moves, the
  uploads and the object store (\<^verbatim>\<open>repository.py\<close>, \<^verbatim>\<open>service.py\<close>, \<^verbatim>\<open>local.py\<close>);
  \<^verbatim>\<open>Asset_Invariant\<close> what every history of them keeps; \<^verbatim>\<open>Asset_Properties\<close> the properties.
  \<^verbatim>\<open>Asset_Lifecycle\<close> is the deletion lifecycle and its deadline (\<^verbatim>\<open>lifecycle.py\<close>,
  \<^verbatim>\<open>trash_policy.py\<close>).

  Browsing (\<^verbatim>\<open>platform/assets/library.py\<close>, \<^verbatim>\<open>library_repository.py\<close>).  \<^verbatim>\<open>Signed_Cursors\<close> has base64
  without padding, the locale \<open>byte_text\<close> it is an interpretation of, JSON in ASCII and the cursors
  signed with an HMAC; \<^verbatim>\<open>Library_Browsing\<close> the listings of folders, documents and versions and the path
  of a folder; \<^verbatim>\<open>Browsing_Properties\<close> shows that following the cursors visits everything once, whom a
  cursor serves, how long it may get, and that every folder of a library history has its path.  A cursor carries the
  name of the last row, and a long enough name makes it exceed its limit: completeness is stated
  for names of at most 180 characters.

  Jobs (\<^verbatim>\<open>platform/jobs\<close>).  \<^verbatim>\<open>Jobs\<close> has the job, its repository and service and the provenance
  relations they write (\<^verbatim>\<open>assets/provenance_contracts.py\<close>, \<^verbatim>\<open>provenance_repository.py\<close>);
  \<^verbatim>\<open>Job_Invariant\<close> shows that job, source pin and relation move together, \<^verbatim>\<open>Job_Inventory\<close> that
  the inventory (\<^verbatim>\<open>inventory.py\<close>) reports what the tables hold.  \<^verbatim>\<open>Job_History\<close> has the histories of
  the tables, from the migration that introduced ownership with its legacy jobs on, with the jobs of
  asset verification and of RAG ingestion (\<^verbatim>\<open>labs/rag/ingestion/repository.py\<close>), and carries the
  invariant through them; \<^verbatim>\<open>Job_Properties\<close> the properties.

  Verification (\<^verbatim>\<open>platform/assets/tasks.py\<close>, \<^verbatim>\<open>dispatch.py\<close>).  \<^verbatim>\<open>Asset_Verification\<close> has each
  transaction of the lifecycle, the workflow and the dispatcher, \<^verbatim>\<open>Verification_Invariant\<close> what
  they leave alone, \<^verbatim>\<open>Verification_System\<close> their interleaving with uploads, new jobs, crashes and
  a changing object store as the inductive set of histories, \<^verbatim>\<open>Verification_Properties\<close> the properties.

  Laboratory (\<^verbatim>\<open>labs/rag\<close>).  \<^verbatim>\<open>Rag_Documents\<close> has the parsed documents, evidence, chunks and
  projections with the checks of their constructors (\<^verbatim>\<open>documents/domain.py\<close>); \<^verbatim>\<open>Sentences\<close> the
  sentence splitter (\<^verbatim>\<open>chunking/sentences.py\<close>), whose contract is the locale \<open>span_splitter\<close>,
  interpreted on it and on the splitter of whole elements; \<^verbatim>\<open>Chunking\<close> the structural chunker
  (\<^verbatim>\<open>chunking/service.py\<close>) and its loop invariant, \<^verbatim>\<open>Chunking_Properties\<close> what its result
  keeps of the document, and exactly which texts and sources make splitting and chunking fail.  \<^verbatim>\<open>Rank_Fusion\<close> is reciprocal rank fusion (\<^verbatim>\<open>retrieval/rrf.py\<close>) with
  scores rounded to doubles.

  Search and index (\<^verbatim>\<open>labs/rag/retrieval\<close>, \<^verbatim>\<open>labs/rag/indexing\<close>).  \<^verbatim>\<open>Py_Values\<close> has the values a JSON
  response can hold and what \<^verbatim>\<open>str\<close>, \<^verbatim>\<open>int\<close>, \<^verbatim>\<open>float\<close> and \<^verbatim>\<open>UUID\<close> make of them.
  \<^verbatim>\<open>Index_Documents\<close> writes a chunk as an index document (\<^verbatim>\<open>indexing/contracts.py\<close>) and reads a hit
  back; \<^verbatim>\<open>Search_Scope\<close> resolves what a request may search from the tables (\<^verbatim>\<open>scope.py\<close>,
  \<^verbatim>\<open>selection.py\<close>, \<^verbatim>\<open>integrity.py\<close>); \<^verbatim>\<open>Search_Engine\<close> is the adapter over the search engine with its
  frozen indices, points in time and error handling (\<^verbatim>\<open>elasticsearch.py\<close>, \<^verbatim>\<open>domain.py\<close>);
  \<^verbatim>\<open>Hybrid_Search\<close> the service over scope, embedding and retrievers (\<^verbatim>\<open>service.py\<close>,
  \<^verbatim>\<open>query_embedding.py\<close>); \<^verbatim>\<open>Index_Build\<close> the documents of a projection (\<^verbatim>\<open>ingestion/stages.py\<close>), the
  mapping, the alias targets and the indexing service (\<^verbatim>\<open>indexing/elasticsearch.py\<close>,
  \<^verbatim>\<open>indexing/service.py\<close>).  The engine is a record of functions on a state of its own and may
  answer anything or fail; the one property that needs a promise of it names the documented law
  \<open>engine_filters\<close>.  A score that is NaN, which JSON cannot carry, is sorted last.
  \<^verbatim>\<open>Search_Properties\<close> carries the authorization of a resolved scope through the filters to the hits
  shown, and the verification of the asset library to what is searchable;
  \<^verbatim>\<open>Index_Properties\<close> the round trip of a chunk through the index, activation and frozen searches.

  Transfer policies (\<^verbatim>\<open>labs/rag/deployments\<close>, \<^verbatim>\<open>labs/rag/policies\<close>).  \<^verbatim>\<open>Deployments\<close> has a model
  deployment with the checks of its constructor (\<^verbatim>\<open>domain.py\<close>, \<^verbatim>\<open>endpoint_policy.py\<close>);
  \<^verbatim>\<open>Transfer_Policy\<close> the versions of the installation and workspace policies, their tables and
  service, the decision whether a deployment may be asked and the approvals of external
  configurations (\<^verbatim>\<open>policies/domain.py\<close>, \<^verbatim>\<open>repository.py\<close>, \<^verbatim>\<open>service.py\<close>).  \<^verbatim>\<open>Transfer_History\<close> is
  every history of them with its invariant, \<^verbatim>\<open>Transfer_Properties\<close> what they guarantee: when data
  may leave, how versions are kept and how long an approval lasts.

  Evidence and context (\<^verbatim>\<open>labs/rag/highlighting\<close>).  \<^verbatim>\<open>Py_Patterns\<close> has substring search and the
  fragment of regular expressions the laboratory uses, \<^verbatim>\<open>Keyword_Matching\<close> normalisation with offsets
  into the source, the matcher with its two memo tables (the locale \<open>memo_table\<close>, interpreted on each)
  and the highlights, \<^verbatim>\<open>Evidence_Selection\<close> provenance, ranking and direct conflicts
  (\<^verbatim>\<open>service.py\<close>), \<^verbatim>\<open>Structural_Context\<close> and \<^verbatim>\<open>Table_Context\<close> the grids and tables of a PDF chunk
  (\<^verbatim>\<open>structural_context.py\<close>, \<^verbatim>\<open>table_context.py\<close>), \<^verbatim>\<open>Context_Selection\<close> the groups admitted under an
  evidence budget (\<^verbatim>\<open>context.py\<close>, \<^verbatim>\<open>models/context_evidence.py\<close>).  \<^verbatim>\<open>Evidence_Properties\<close>,
  \<^verbatim>\<open>Context_Properties\<close> and \<^verbatim>\<open>Table_Properties\<close> show that highlights quote their source, that a
  selection rests on complete evidence, and that a context stays within its budget, holds original
  units, keeps conflicts together and cuts only other columns out of a table.

  Conversations and grounded answers (\<^verbatim>\<open>labs/rag/generation\<close>).  \<^verbatim>\<open>Conversation_Turns\<close> has the turns
  of a conversation and their window (\<^verbatim>\<open>domain.py\<close>), the tokens that bind an answer to its reader,
  configuration and scope (\<^verbatim>\<open>integrity.py\<close>) and the check of a submitted history
  (\<^verbatim>\<open>search/pipeline.py\<close>); \<^verbatim>\<open>Grounding_Evidence\<close> the evidence sent to a provider, its compact form and
  its short references (\<^verbatim>\<open>source_reading.py\<close>, \<^verbatim>\<open>compact_evidence.py\<close>, \<^verbatim>\<open>reference_evidence.py\<close>);
  \<^verbatim>\<open>Exact_Values\<close> the dates, amounts and offsets of a text and the business days a page defines
  (\<^verbatim>\<open>exact_values.py\<close>, \<^verbatim>\<open>relative_day_citations.py\<close>); \<^verbatim>\<open>Grounded_Answers\<close> the reading of a response
  and the validation of its citations (\<^verbatim>\<open>structured_output.py\<close>, \<^verbatim>\<open>citation_validation.py\<close>).
  \<^verbatim>\<open>Conversation_Properties\<close> shows what a token binds and that an accepted history was issued by the
  server, provided nobody else makes a MAC and SHA-256 tells the messages apart;
  \<^verbatim>\<open>Grounding_Properties\<close> that packing loses nothing, that an answer states no exact value its cited
  sources neither state nor define, and that between the selection of evidence and the answer nothing
  else can fail.

  Bounds and parameters.  Nothing runs on fuel: loops over folders end by the measure of the
  folders not yet seen, the others are structural.  Limits the code configures (folder depth, upload
  size, batch size, page size) are arguments.  Integers are unbounded, as in Python; the columns
  are wide enough for every value a history of fewer than \<open>2^31\<close> operations writes.

  Not modelled.  HTTP routes, schemas and the frontend; passwords and sessions; the wiring of
  Celery and SQLAlchemy; time stamps that carry no decision: input and output around the parts above.
  Parsers, OCR, embeddings, rerankers and generation providers, whose results are arguments here.
  The process, network and approval tooling of the laboratory (Codex runs, access epochs, alias
  recovery), which acts on the operating system.  The numeric proofs of the third response schema, the
  evaluation metrics, the learning notes, the issue history and the registries of configurations,
  models and conversations, which share no state with the parts above.
\<close>

end
